(* ===== verification/Prelude.thy ===== *)
theory Prelude
  imports Main "HOL-Library.AList" "HOL-Library.Word"
begin

text \<open>
  The shared vocabulary of the development: how the Go constructs that every component uses
  are written in HOL, and the generic lemmas about them.

  \<^item> A call that may panic has a result of type \<open>'a go\<close>; an operation that returns a Go
    \<open>error\<close> beside its result returns an option of an error value.
  \<^item> A Go map is an association list with distinct keys (\<open>gomap\<close>, \<open>mwf\<close>); its list order is
    the order in which one \<open>range\<close> statement visits it, and since every theorem quantifies
    over the list it covers every order the Go runtime may choose.
  \<^item> A Go \<open>string\<close> is a \<open>string\<close>; the functions of the package \<open>strings\<close> that the sources
    call are defined below.
\<close>

section \<open>Panics\<close>

datatype 'a go = Panic | Ret 'a

definition go_bind :: "'a go \<Rightarrow> ('a \<Rightarrow> 'b go) \<Rightarrow> 'b go" where
  "go_bind m f = (case m of Panic \<Rightarrow> Panic | Ret x \<Rightarrow> f x)"

lemma go_bind_simps [simp]:
  "go_bind Panic f = Panic" "go_bind (Ret x) f = f x"
  by (simp_all add: go_bind_def)

lemma go_bind_eq_Ret: "go_bind m f = Ret y \<longleftrightarrow> (\<exists>x. m = Ret x \<and> f x = Ret y)"
  by (cases m) auto

text \<open>
  An error value made with \<open>errors.New\<close> or \<open>fmt.Errorf\<close> is its message, the format string as
  the source has it, without the values of its verbs.
\<close>

type_synonym go_error = string

section \<open>Go maps\<close>

type_synonym ('k, 'v) gomap = "('k \<times> 'v) list"

abbreviation mget :: "('k, 'v) gomap \<Rightarrow> 'k \<Rightarrow> 'v option" where
  "mget \<equiv> map_of"

abbreviation mput :: "'k \<Rightarrow> 'v \<Rightarrow> ('k, 'v) gomap \<Rightarrow> ('k, 'v) gomap" where
  "mput \<equiv> AList.update"

abbreviation mdel :: "'k \<Rightarrow> ('k, 'v) gomap \<Rightarrow> ('k, 'v) gomap" where
  "mdel \<equiv> AList.delete"

abbreviation mkeys :: "('k, 'v) gomap \<Rightarrow> 'k list" where
  "mkeys m \<equiv> map fst m"

abbreviation mhas :: "('k, 'v) gomap \<Rightarrow> 'k \<Rightarrow> bool" where
  "mhas m k \<equiv> map_of m k \<noteq> None"

definition mwf :: "('k, 'v) gomap \<Rightarrow> bool" where
  "mwf m \<longleftrightarrow> distinct (map fst m)"

text \<open>\<open>m[k]\<close> in expression position: the zero value of the element type when the key is absent.\<close>

definition mget0 :: "'v \<Rightarrow> ('k, 'v) gomap \<Rightarrow> 'k \<Rightarrow> 'v" where
  "mget0 z m k = (case map_of m k of None \<Rightarrow> z | Some v \<Rightarrow> v)"

named_theorems gomap "facts about Go maps"

lemma mget_mput [gomap]: "map_of (AList.update k v m) x = (if x = k then Some v else map_of m x)"
  by (simp add: update_conv')

lemma mget_mdel [gomap]: "map_of (AList.delete k m) x = (if x = k then None else map_of m x)"
  by (simp add: delete_conv')

lemma mwf_empty [simp, intro]: "mwf []"
  by (simp add: mwf_def)

lemma mwf_mput [gomap, intro]: "mwf m \<Longrightarrow> mwf (AList.update k v m)"
  by (simp add: mwf_def distinct_update)

lemma mwf_mdel [gomap, intro]: "mwf m \<Longrightarrow> mwf (AList.delete k m)"
  by (simp add: mwf_def distinct_delete)

lemma mget_in_set: "mwf m \<Longrightarrow> (k, v) \<in> set m \<longleftrightarrow> map_of m k = Some v"
  by (simp add: mwf_def map_of_eq_Some_iff)

lemma mkeys_mput: "set (map fst (AList.update k v m)) = insert k (set (map fst m))"
  by (simp add: dom_update)

lemma mkeys_mdel: "set (map fst (AList.delete k m)) = set (map fst m) - {k}"
  by (induction m) auto

lemma mhas_iff: "map_of m k \<noteq> None \<longleftrightarrow> k \<in> set (map fst m)"
  by (metis map_of_eq_None_iff list.set_map)

lemma in_mkeys: "k \<in> fst ` set m \<longleftrightarrow> map_of m k \<noteq> None"
  by (metis map_of_eq_None_iff)

text \<open>
  \<open>for k, v := range m { t[k] = f(v) }\<close> into a fresh map \<open>t\<close>: the loop that the sources write to copy
  a map. On a map with distinct keys it is the pointwise image.
\<close>

definition copy_map :: "('v \<Rightarrow> 'w) \<Rightarrow> ('k, 'v) gomap \<Rightarrow> ('k, 'w) gomap" where
  "copy_map f m = foldl (\<lambda>t (k, v). AList.update k (f v) t) [] m"

lemma update_fresh: "k \<notin> set (map fst m) \<Longrightarrow> AList.update k v m = m @ [(k, v)]"
  by (induction m) auto

lemma copy_map_eq [gomap]: "mwf m \<Longrightarrow> copy_map f m = map (\<lambda>(k, v). (k, f v)) m"
proof -
  have "distinct (map fst t @ map fst m) \<Longrightarrow>
      foldl (\<lambda>t (k, v). AList.update k (f v) t) t m = t @ map (\<lambda>(k, v). (k, f v)) m" for t
    by (induction m arbitrary: t) (auto simp: update_fresh)
  from this [of "[]"] show "mwf m \<Longrightarrow> ?thesis" by (simp add: copy_map_def mwf_def)
qed

lemma mget_map [gomap]: "map_of (map (\<lambda>(k, v). (k, f v)) m) k = map_option f (map_of m k)"
  by (induction m) auto

lemma mwf_map [gomap]: "mwf (map (\<lambda>(k, v). (k, f v)) m) \<longleftrightarrow> mwf m"
  by (simp add: mwf_def comp_def case_prod_unfold)

section \<open>Bits of numbers and words\<close>

unbundle bit_operations_syntax

text \<open>Go's \<open>&^\<close> (bit clear).\<close>

definition and_not :: "64 word \<Rightarrow> 64 word \<Rightarrow> 64 word" where
  "and_not a b = a AND NOT b"

lemma drop_bit_1_less: "w > 0 \<Longrightarrow> unat (drop_bit (Suc 0) w) < unat (w :: 64 word)"
  by (simp add: drop_bit_eq_div unat_div word_gt_0 unat_gt_0)

lemma drop_bit_1_clear: "drop_bit (Suc 0) (and_not w 1) = drop_bit (Suc 0) w"
proof -
  have "w AND NOT 1 = unset_bit 0 w"
    by (metis unset_bit_eq_and_not push_bit_0_id id_apply)
  then show ?thesis
    unfolding and_not_def by (auto intro: bit_eqI simp: bit_simps)
qed

lemma finite_bits [simp]: "finite {i. bit (n::nat) i}"
proof -
  have "{i. bit n i} \<subseteq> {..<n}"
    by (auto simp: bit_nat_iff ) (metis bit_iff_odd div_less even_zero less_exp not_less order_less_le_trans)
  then show ?thesis using finite_subset by blast
qed

lemma card_bits_set: "\<not> bit (n::nat) i \<Longrightarrow> card {j. bit (set_bit i n) j} = Suc (card {j. bit n j})"
proof -
  assume "\<not> bit n i"
  moreover have "{j. bit (set_bit i n) j} = insert i {j. bit n j}"
    by (auto simp: bit_simps)
  ultimately show ?thesis by simp
qed

lemma card_bits_unset: "bit (n::nat) i \<Longrightarrow> card {j. bit (unset_bit i n) j} = card {j. bit n j} - 1"
proof -
  assume "bit n i"
  moreover have "{j. bit (unset_bit i n) j} = {j. bit n j} - {i}"
    by (auto simp: bit_simps)
  ultimately show ?thesis by (simp add: card_Diff_singleton)
qed

text \<open>The set bits of a number split at any position into a low and a shifted high part.\<close>

lemma bits_split: "{i. bit (n::nat) i} = {i. bit (take_bit k n) i} \<union> (\<lambda>i. k + i) ` {i. bit (drop_bit k n) i}"
  by (auto simp: bit_simps image_iff) (metis le_Suc_ex not_less)

lemma card_bits_split: "card {i. bit (n::nat) i} = card {i. bit (take_bit k n) i} + card {i. bit (drop_bit k n) i}"
proof -
  have "card {i. bit n i} = card ({i. bit (take_bit k n) i} \<union> (\<lambda>i. k + i) ` {i. bit (drop_bit k n) i})"
    by (subst bits_split [of n k]) simp
  also have "\<dots> = card {i. bit (take_bit k n) i} + card ((\<lambda>i. k + i) ` {i. bit (drop_bit k n) i})"
    by (rule card_Un_disjoint) (auto simp: bit_take_bit_iff)
  also have "card ((\<lambda>i. k + i) ` {i. bit (drop_bit k n) i}) = card {i. bit (drop_bit k n) i}"
    by (rule card_image) (auto simp: inj_on_def)
  finally show ?thesis .
qed

lemma sint_word64: "- (2 ^ 63) \<le> x \<Longrightarrow> x < 2 ^ 63 \<Longrightarrow> sint (word_of_int x :: 64 word) = x"
  by (simp add: int_word_sint)

text \<open>The value of the label that a node has under the name of each of its units.\<close>

definition NodeUnitSuperedge :: string where "NodeUnitSuperedge = ''nodeunits.superedge.io''"

end
