(* ===== verification/Bitmap.thy ===== *)
theory Bitmap
  imports Prelude
begin

text \<open>
  \<open>src/pkg/util/allocator\<close>: the bitmap allocator. An \<open>AllocationBitmap\<close> keeps the allocated
  offsets as the set bits of a \<open>big.Int\<close> and the number of them in \<open>count\<close>; two scan
  strategies look for a free bit. Every method takes the lock for its whole body, so a method
  call is one atomic state change. \<open>big.Int\<close> values are non-negative here and are modelled by
  \<open>nat\<close>; reading or setting a bit at a negative index panics, as in \<open>math/big\<close>.
\<close>

section \<open>big.Int\<close>

definition big_Bit :: "nat \<Rightarrow> int \<Rightarrow> nat go" where
  "big_Bit n i = (if i < 0 then Panic else Ret (of_bool (bit n (nat i))))"

definition big_SetBit :: "nat \<Rightarrow> int \<Rightarrow> nat \<Rightarrow> nat go" where
  "big_SetBit n i b =
     (if i < 0 then Panic else Ret (if b = 0 then unset_bit (nat i) n else set_bit (nat i) n))"

text \<open>\<open>Bytes\<close> is the big-endian byte list without leading zeros; \<open>SetBytes\<close> reads one.\<close>

fun le_bytes :: "nat \<Rightarrow> 8 word list" where
  "le_bytes n = (if n = 0 then [] else word_of_nat (n mod 256) # le_bytes (n div 256))"

declare le_bytes.simps [simp del]

definition big_Bytes :: "nat \<Rightarrow> 8 word list" where
  "big_Bytes n = rev (le_bytes n)"

definition big_SetBytes :: "8 word list \<Rightarrow> nat" where
  "big_SetBytes bs = foldl (\<lambda>acc b. acc * 256 + unat b) 0 bs"

text \<open>\<open>Bits\<close>: the little-endian list of 64-bit words, without leading zero words.\<close>

fun big_Bits :: "nat \<Rightarrow> 64 word list" where
  "big_Bits n = (if n = 0 then [] else word_of_nat (n mod 2 ^ 64) # big_Bits (n div 2 ^ 64))"

declare big_Bits.simps [simp del]

section \<open>The allocator\<close>

datatype bitAllocator = randomScanStrategy | contiguousScanStrategy

record AllocationBitmap =
  strategy :: bitAllocator
  bm_max :: int
  rangeSpec :: string
  count :: int
  allocated :: nat

definition NewAllocationMap :: "int \<Rightarrow> string \<Rightarrow> AllocationBitmap" where
  "NewAllocationMap mx spec =
     \<lparr>strategy = randomScanStrategy, bm_max = mx, rangeSpec = spec, count = 0, allocated = 0\<rparr>"

definition NewContiguousAllocationMap :: "int \<Rightarrow> string \<Rightarrow> AllocationBitmap" where
  "NewContiguousAllocationMap mx spec =
     \<lparr>strategy = contiguousScanStrategy, bm_max = mx, rangeSpec = spec, count = 0, allocated = 0\<rparr>"

definition Allocate :: "AllocationBitmap \<Rightarrow> int \<Rightarrow> (AllocationBitmap \<times> bool \<times> go_error option) go" where
  "Allocate r offset =
     go_bind (big_Bit (allocated r) offset) (\<lambda>b.
       if b = 1 then Ret (r, False, None)
       else go_bind (big_SetBit (allocated r) offset 1) (\<lambda>a.
         Ret (r\<lparr>allocated := a, count := count r + 1\<rparr>, True, None)))"

text \<open>
  The random strategy draws its starting offset with \<open>rand.Intn(max)\<close>, a number in
  \<open>[0, max)\<close>: the model takes the raw draw and reduces it, so every outcome is covered.
\<close>

definition rand_Intn :: "nat \<Rightarrow> int \<Rightarrow> int go" where
  "rand_Intn draw n = (if n \<le> 0 then Panic else Ret (int draw mod n))"

function randomScan :: "nat \<Rightarrow> int \<Rightarrow> int \<Rightarrow> int \<Rightarrow> (int \<times> bool)" where
  "randomScan a mx offset i =
     (if i < mx then
        (let at = (offset + i) mod mx in
         if \<not> bit a (nat at) then (at, True) else randomScan a mx offset (i + 1))
      else (0, False))"
  by pat_completeness auto
termination
  by (relation "measure (\<lambda>(a, mx, offset, i). nat (mx - i))") auto

definition randomScan_AllocateBit :: "nat \<Rightarrow> nat \<Rightarrow> int \<Rightarrow> int \<Rightarrow> (int \<times> bool) go" where
  "randomScan_AllocateBit draw a mx cnt =
     (if cnt \<ge> mx then Ret (0, False)
      else go_bind (rand_Intn draw mx) (\<lambda>offset. Ret (randomScan a mx offset 0)))"

function contiguousScan :: "nat \<Rightarrow> int \<Rightarrow> int \<Rightarrow> (int \<times> bool)" where
  "contiguousScan a mx i =
     (if i < mx then (if \<not> bit a (nat i) then (i, True) else contiguousScan a mx (i + 1))
      else (0, False))"
  by pat_completeness auto
termination
  by (relation "measure (\<lambda>(a, mx, i). nat (mx - i))") auto

definition contiguousScan_AllocateBit :: "nat \<Rightarrow> int \<Rightarrow> int \<Rightarrow> (int \<times> bool) go" where
  "contiguousScan_AllocateBit a mx cnt =
     (if cnt \<ge> mx then Ret (0, False) else Ret (contiguousScan a mx 0))"

declare randomScan.simps [simp del] contiguousScan.simps [simp del]

definition AllocateBit :: "bitAllocator \<Rightarrow> nat \<Rightarrow> nat \<Rightarrow> int \<Rightarrow> int \<Rightarrow> (int \<times> bool) go" where
  "AllocateBit s draw =
     (case s of randomScanStrategy \<Rightarrow> randomScan_AllocateBit draw
              | contiguousScanStrategy \<Rightarrow> contiguousScan_AllocateBit)"

definition AllocateNext ::
    "nat \<Rightarrow> AllocationBitmap \<Rightarrow> (AllocationBitmap \<times> int \<times> bool \<times> go_error option) go" where
  "AllocateNext draw r =
     go_bind (AllocateBit (strategy r) draw (allocated r) (bm_max r) (count r)) (\<lambda>(next, ok).
       if \<not> ok then Ret (r, 0, False, None)
       else go_bind (big_SetBit (allocated r) next 1) (\<lambda>a.
         Ret (r\<lparr>count := count r + 1, allocated := a\<rparr>, next, True, None)))"

definition Release :: "AllocationBitmap \<Rightarrow> int \<Rightarrow> (AllocationBitmap \<times> go_error option) go" where
  "Release r offset =
     go_bind (big_Bit (allocated r) offset) (\<lambda>b.
       if b = 0 then Ret (r, None)
       else go_bind (big_SetBit (allocated r) offset 0) (\<lambda>a.
         Ret (r\<lparr>allocated := a, count := count r - 1\<rparr>, None)))"

text \<open>\<open>wordSize\<close>, the size of a \<open>big.Word\<close> in bytes, computed as the source does from the
  all-ones word of a 64-bit platform.\<close>

unbundle bit_operations_syntax

definition notZero :: "64 word" where
  "notZero = NOT 0"

definition wordPower :: "64 word" where
  "wordPower = (drop_bit 8 notZero AND 1) + (drop_bit 16 notZero AND 1) + (drop_bit 32 notZero AND 1)"

definition wordSize :: int where
  "wordSize = push_bit (unat wordPower) 1"

text \<open>The inner loop of \<open>ForEach\<close>: the calls \<open>fn\<close> receives, in order.\<close>

function forEachWord :: "int \<Rightarrow> 64 word \<Rightarrow> int \<Rightarrow> int list" where
  "forEachWord wordIdx w b =
     (if w > 0 then
        (let calls = (if w AND 1 \<noteq> 0 then [wordIdx * wordSize * 8 + b] else []);
             w' = (if w AND 1 \<noteq> 0 then and_not w 1 else w)
         in calls @ forEachWord wordIdx (drop_bit 1 w') (b + 1))
      else [])"
  by pat_completeness auto
termination
  by (relation "measure (\<lambda>(i, w, b). unat w)") (auto simp: drop_bit_1_less drop_bit_1_clear)

declare forEachWord.simps [simp del]

fun forEachWords :: "int \<Rightarrow> 64 word list \<Rightarrow> int list" where
  "forEachWords wordIdx [] = []"
| "forEachWords wordIdx (w # ws) = forEachWord wordIdx w 0 @ forEachWords (wordIdx + 1) ws"

definition ForEach :: "AllocationBitmap \<Rightarrow> int list" where
  "ForEach r = forEachWords 0 (big_Bits (allocated r))"

definition Has :: "AllocationBitmap \<Rightarrow> int \<Rightarrow> bool go" where
  "Has r offset = go_bind (big_Bit (allocated r) offset) (\<lambda>b. Ret (b = 1))"

definition Free :: "AllocationBitmap \<Rightarrow> int" where
  "Free r = bm_max r - count r"

definition Snapshot :: "AllocationBitmap \<Rightarrow> string \<times> 8 word list" where
  "Snapshot r = (rangeSpec r, big_Bytes (allocated r))"

text \<open>\<open>bitCounts\<close>: the number of set bits of every byte value, as the source tabulates it.\<close>

definition bitCounts :: "int list" where
  "bitCounts = [
     0, 1, 1, 2, 1, 2, 2, 3,  1, 2, 2, 3, 2, 3, 3, 4,
     1, 2, 2, 3, 2, 3, 3, 4,  2, 3, 3, 4, 3, 4, 4, 5,
     1, 2, 2, 3, 2, 3, 3, 4,  2, 3, 3, 4, 3, 4, 4, 5,
     2, 3, 3, 4, 3, 4, 4, 5,  3, 4, 4, 5, 4, 5, 5, 6,
     1, 2, 2, 3, 2, 3, 3, 4,  2, 3, 3, 4, 3, 4, 4, 5,
     2, 3, 3, 4, 3, 4, 4, 5,  3, 4, 4, 5, 4, 5, 5, 6,
     2, 3, 3, 4, 3, 4, 4, 5,  3, 4, 4, 5, 4, 5, 5, 6,
     3, 4, 4, 5, 4, 5, 5, 6,  4, 5, 5, 6, 5, 6, 6, 7,
     1, 2, 2, 3, 2, 3, 3, 4,  2, 3, 3, 4, 3, 4, 4, 5,
     2, 3, 3, 4, 3, 4, 4, 5,  3, 4, 4, 5, 4, 5, 5, 6,
     2, 3, 3, 4, 3, 4, 4, 5,  3, 4, 4, 5, 4, 5, 5, 6,
     3, 4, 4, 5, 4, 5, 5, 6,  4, 5, 5, 6, 5, 6, 6, 7,
     2, 3, 3, 4, 3, 4, 4, 5,  3, 4, 4, 5, 4, 5, 5, 6,
     3, 4, 4, 5, 4, 5, 5, 6,  4, 5, 5, 6, 5, 6, 6, 7,
     3, 4, 4, 5, 4, 5, 5, 6,  4, 5, 5, 6, 5, 6, 6, 7,
     4, 5, 5, 6, 5, 6, 6, 7,  5, 6, 6, 7, 6, 7, 7, 8]"

definition countBits :: "nat \<Rightarrow> int" where
  "countBits n = foldl (\<lambda>cnt b. cnt + bitCounts ! unat b) 0 (big_Bytes n)"

definition Restore ::
    "AllocationBitmap \<Rightarrow> string \<Rightarrow> 8 word list \<Rightarrow> AllocationBitmap \<times> go_error option" where
  "Restore r spec data =
     (if rangeSpec r \<noteq> spec
      then (r, Some ''the provided range does not match the current range'')
      else (let a = big_SetBytes data in (r\<lparr>allocated := a, count := countBits a\<rparr>, None)))"

text \<open>
  The interfaces \<open>Interface\<close> and \<open>Snapshottable\<close> as a dictionary of operations over the
  state \<open>'s\<close> of an implementation; \<open>op_Snapshottable\<close> is what the type assertion
  \<open>alloc.(Snapshottable)\<close> yields.
\<close>

record 's allocator =
  op_Allocate :: "'s \<Rightarrow> int \<Rightarrow> ('s \<times> bool \<times> go_error option) go"
  op_AllocateNext :: "nat \<Rightarrow> 's \<Rightarrow> ('s \<times> int \<times> bool \<times> go_error option) go"
  op_Release :: "'s \<Rightarrow> int \<Rightarrow> ('s \<times> go_error option) go"
  op_ForEach :: "'s \<Rightarrow> int list"
  op_Has :: "'s \<Rightarrow> int \<Rightarrow> bool go"
  op_Free :: "'s \<Rightarrow> int"
  op_Snapshottable :: "(('s \<Rightarrow> string \<times> 8 word list) \<times>
      ('s \<Rightarrow> string \<Rightarrow> 8 word list \<Rightarrow> 's \<times> go_error option)) option"

definition bitmap_ops :: "AllocationBitmap allocator" where
  "bitmap_ops = \<lparr>op_Allocate = Allocate, op_AllocateNext = AllocateNext, op_Release = Release,
     op_ForEach = ForEach, op_Has = Has, op_Free = Free,
     op_Snapshottable = Some (Snapshot, Restore)\<rparr>"

section \<open>Specification\<close>

text \<open>
  The abstract value of a bitmap is the set of its allocated offsets. \<open>bm_inv\<close> is the
  invariant the source documents: \<open>count\<close> is the number of set bits.
\<close>

definition bm_inv :: "AllocationBitmap \<Rightarrow> bool" where
  "bm_inv r \<longleftrightarrow> count r = int (card {i. bit (allocated r) i})"

definition offsets :: "AllocationBitmap \<Rightarrow> int set" where
  "offsets r = int ` {i. bit (allocated r) i}"

definition bm_in_range :: "AllocationBitmap \<Rightarrow> bool" where
  "bm_in_range r \<longleftrightarrow> offsets r \<subseteq> {0..<bm_max r}"

text \<open>
  The table doubles: the entries for \<open>[2 ^ k, 2 ^ (k + 1))\<close> are those for \<open>[0, 2 ^ k)\<close> plus one.
\<close>

fun doubled :: "nat \<Rightarrow> int list" where
  "doubled 0 = [0]"
| "doubled (Suc k) = doubled k @ map ((+) 1) (doubled k)"

text \<open>One method call, and the bitmaps the methods produce from a new one.\<close>

inductive bm_step :: "AllocationBitmap \<Rightarrow> AllocationBitmap \<Rightarrow> bool" where
  step_Allocate: "Allocate r k = Ret (r', ok, e) \<Longrightarrow> bm_step r r'"
| step_AllocateNext: "AllocateNext draw r = Ret (r', k, ok, e) \<Longrightarrow> bm_step r r'"
| step_Release: "Release r k = Ret (r', e) \<Longrightarrow> bm_step r r'"
| step_Restore: "Restore r spec data = (r', e) \<Longrightarrow> bm_step r r'"

inductive bm_reachable :: "AllocationBitmap \<Rightarrow> bool" where
  new_random: "bm_reachable (NewAllocationMap mx spec)"
| new_contiguous: "bm_reachable (NewContiguousAllocationMap mx spec)"
| call: "bm_reachable r \<Longrightarrow> bm_step r r' \<Longrightarrow> bm_reachable r'"

inductive_cases bm_stepE: "bm_step r r'"


section \<open>Byte round trips and bit counting\<close>

lemma SetBytes_append: "big_SetBytes (bs @ [b]) = big_SetBytes bs * 256 + unat b"
  by (simp add: big_SetBytes_def)

lemma Bytes_step: "n \<noteq> 0 \<Longrightarrow> big_Bytes n = big_Bytes (n div 256) @ [word_of_nat (n mod 256)]"
  by (simp add: big_Bytes_def le_bytes.simps [of n])

lemma unat_byte [simp]: "unat (word_of_nat (n mod 256) :: 8 word) = n mod 256"
  by (simp add: unat_of_nat)

lemma SetBytes_Bytes: "big_SetBytes (big_Bytes n) = n"
proof (induction n rule: le_bytes.induct)
  case (1 n)
  show ?case
  proof (cases "n = 0")
    case True
    then show ?thesis by (simp add: big_Bytes_def big_SetBytes_def le_bytes.simps)
  next
    case False
    with 1 show ?thesis by (simp add: Bytes_step SetBytes_append)
  qed
qed

lemma length_doubled [simp]: "length (doubled k) = 2 ^ k"
  by (induction k) auto

lemma card_bits_high:
  assumes "2 ^ k \<le> (m::nat)" "m < 2 ^ Suc k"
  shows "card {i. bit m i} = Suc (card {i. bit (m - 2 ^ k) i})"
proof -
  have m: "m = 2 ^ k + (m - 2 ^ k)" "m - 2 ^ k < 2 ^ k" using assms by auto
  have "take_bit k m = m - 2 ^ k"
    by (subst m(1)) (simp only: take_bit_eq_mod mod_add_self1 mod_less [OF m(2)])
  moreover have "drop_bit k m = 1"
    using assms by (auto simp: drop_bit_eq_div intro!: div_nat_eqI)
  moreover have "{i. bit (1::nat) i} = {0}" by (auto simp: bit_Suc_0_iff)
  ultimately show ?thesis by (simp add: card_bits_split [of m k])
qed

lemma nth_doubled: "m < 2 ^ k \<Longrightarrow> doubled k ! m = int (card {i. bit m i})"
proof (induction k arbitrary: m)
  case (Suc k)
  show ?case
  proof (cases "m < 2 ^ k")
    case True
    with Suc.IH show ?thesis by (simp add: nth_append)
  next
    case False
    then have "m - 2 ^ k < 2 ^ k" using Suc.prems by simp
    with False Suc card_bits_high [of k m] show ?thesis by (simp add: nth_append)
  qed
qed (simp add: bot_fun_def)

lemma bitCounts_doubled: "bitCounts = doubled 8"
  by (simp add: bitCounts_def numeral_eq_Suc)

lemma bitCounts_nth: "m < 256 \<Longrightarrow> bitCounts ! m = int (card {i. bit m i})"
  using nth_doubled [of m 8] by (simp add: bitCounts_doubled)

lemma countBits_card: "countBits n = int (card {i. bit n i})"
proof (induction n rule: le_bytes.induct)
  case (1 n)
  show ?case
  proof (cases "n = 0")
    case True
    then show ?thesis by (simp add: countBits_def big_Bytes_def le_bytes.simps)
  next
    case False
    have "countBits n = countBits (n div 256) + bitCounts ! (n mod 256)"
      using False by (simp add: countBits_def Bytes_step)
    also have "\<dots> = int (card {i. bit (n div 256) i}) + int (card {i. bit (n mod 256) i})"
      using 1 False by (simp add: bitCounts_nth)
    also have "\<dots> = int (card {i. bit n i})"
      by (subst card_bits_split [of n 8]) (simp add: take_bit_eq_mod drop_bit_eq_div)
    finally show ?thesis .
  qed
qed

section \<open>The scan strategies\<close>

lemma contiguousScan_found:
  "contiguousScan a mx i = (at, True) \<Longrightarrow> 0 \<le> i \<Longrightarrow>
     i \<le> at \<and> at < mx \<and> \<not> bit a (nat at) \<and> (\<forall>j. i \<le> j \<and> j < at \<longrightarrow> bit a (nat j))"
proof (induction a mx i rule: contiguousScan.induct)
  case (1 a mx i)
  note step = contiguousScan.simps [of a mx i]
  show ?case
  proof (cases "i < mx \<and> bit a (nat i)")
    case True
    with 1 step have "i + 1 \<le> at \<and> at < mx \<and> \<not> bit a (nat at) \<and>
      (\<forall>j. i + 1 \<le> j \<and> j < at \<longrightarrow> bit a (nat j))" by simp
    with True show ?thesis by (metis add1_zle_eq order_le_less order_trans zless_imp_add1_zle)
  qed (use 1 step in \<open>auto split: if_splits\<close>)
qed

lemma contiguousScan_exhausted:
  "contiguousScan a mx i = (at, False) \<Longrightarrow> at = 0 \<and> (\<forall>j. i \<le> j \<and> j < mx \<longrightarrow> bit a (nat j))"
proof (induction a mx i rule: contiguousScan.induct)
  case (1 a mx i)
  note step = contiguousScan.simps [of a mx i]
  show ?case
  proof (cases "i < mx")
    case True
    with 1 step have "bit a (nat i)" "at = 0 \<and> (\<forall>j. i + 1 \<le> j \<and> j < mx \<longrightarrow> bit a (nat j))"
      by (auto split: if_splits)
    then show ?thesis by (metis order_le_less zless_imp_add1_zle)
  qed (use 1 step in auto)
qed

lemma randomScan_found:
  "randomScan a mx offset i = (at, True) \<Longrightarrow> 0 < mx \<Longrightarrow> 0 \<le> at \<and> at < mx \<and> \<not> bit a (nat at)"
proof (induction a mx offset i rule: randomScan.induct)
  case (1 a mx offset i)
  note step = randomScan.simps [of a mx offset i]
  show ?case
  proof (cases "i < mx \<and> bit a (nat ((offset + i) mod mx))")
    case True
    with 1 step show ?thesis by (simp add: Let_def)
  qed (use 1 step in \<open>auto simp: Let_def split: if_splits\<close>)
qed

lemma randomScan_exhausted:
  "randomScan a mx offset i = (at, False) \<Longrightarrow>
     at = 0 \<and> (\<forall>j. i \<le> j \<and> j < mx \<longrightarrow> bit a (nat ((offset + j) mod mx)))"
proof (induction a mx offset i rule: randomScan.induct)
  case (1 a mx offset i)
  note step = randomScan.simps [of a mx offset i]
  show ?case
  proof (cases "i < mx")
    case True
    with 1 step have "bit a (nat ((offset + i) mod mx))"
      "at = 0 \<and> (\<forall>j. i + 1 \<le> j \<and> j < mx \<longrightarrow> bit a (nat ((offset + j) mod mx)))"
      by (auto simp: Let_def split: if_splits)
    then show ?thesis by (metis order_le_less zless_imp_add1_zle)
  qed (use 1 step in auto)
qed

text \<open>The wrapped scan visits every offset of the range.\<close>

lemma wrap_covers:
  assumes "0 \<le> k" "k < (mx::int)"
  shows "\<exists>j. 0 \<le> j \<and> j < mx \<and> (offset + j) mod mx = k"
  using assms by (intro exI [of _ "(k - offset) mod mx"]) (simp add: mod_simps)

lemma randomScan_full:
  assumes "randomScan a mx offset 0 = (at, False)" "0 \<le> k" "k < mx"
  shows "bit a (nat k)"
proof -
  obtain j where "0 \<le> j" "j < mx" "(offset + j) mod mx = k"
    using wrap_covers [OF assms(2,3)] by blast
  with randomScan_exhausted [OF assms(1)] show ?thesis by auto
qed

section \<open>The interface bitAllocator\<close>

text \<open>
  What \<open>AllocateNext\<close> relies on: a strategy that finds an item finds a free one of the range,
  and one that finds none has seen a full range (or a count that says so).
\<close>

locale bit_allocator =
  fixes ab :: "nat \<Rightarrow> int \<Rightarrow> int \<Rightarrow> (int \<times> bool) go"
  assumes found: "ab a mx c = Ret (at, True) \<Longrightarrow> 0 \<le> at \<and> at < mx \<and> \<not> bit a (nat at)"
    and exhausted: "ab a mx c = Ret (at, False) \<Longrightarrow>
      at = 0 \<and> (mx \<le> c \<or> (\<forall>i. 0 \<le> i \<and> i < mx \<longrightarrow> bit a (nat i)))"
    and no_panic: "0 \<le> c \<Longrightarrow> ab a mx c \<noteq> Panic"
begin

lemma finds_free_item:
  assumes cnt: "c = int (card {i. bit a i})" and room: "c < mx"
  shows "\<exists>at. ab a mx c = Ret (at, True)"
proof -
  obtain at ok where r: "ab a mx c = Ret (at, ok)"
    using no_panic [of c a mx] cnt by (cases "ab a mx c") auto
  have ok
  proof (rule ccontr)
    assume "\<not> ok"
    with r exhausted [of a mx c at] room have full: "\<forall>i. 0 \<le> i \<and> i < mx \<longrightarrow> bit a (nat i)" by auto
    have "{..<nat mx} \<subseteq> {i. bit a i}"
    proof
      fix i assume "i \<in> {..<nat mx}"
      with full [rule_format, of "int i"] show "i \<in> {i. bit a i}" by simp
    qed
    then have "nat mx \<le> card {i. bit a i}"
      using card_mono [OF finite_bits [of a], of "{..<nat mx}"] by simp
    with cnt room show False by simp
  qed
  with r show ?thesis by simp
qed

end

interpretation contig: bit_allocator contiguousScan_AllocateBit
proof
  fix a mx c at
  show "0 \<le> at \<and> at < mx \<and> \<not> bit a (nat at)" if "contiguousScan_AllocateBit a mx c = Ret (at, True)"
    using that contiguousScan_found [of a mx 0 at]
    by (simp add: contiguousScan_AllocateBit_def split: if_splits)
  show "at = 0 \<and> (mx \<le> c \<or> (\<forall>i. 0 \<le> i \<and> i < mx \<longrightarrow> bit a (nat i)))"
    if "contiguousScan_AllocateBit a mx c = Ret (at, False)"
    using that contiguousScan_exhausted [of a mx 0 at]
    by (simp add: contiguousScan_AllocateBit_def split: if_splits)
  show "contiguousScan_AllocateBit a mx c \<noteq> Panic"
    by (simp add: contiguousScan_AllocateBit_def)
qed

interpretation random: bit_allocator "randomScan_AllocateBit draw" for draw
proof
  fix a mx c at
  show "0 \<le> at \<and> at < mx \<and> \<not> bit a (nat at)" if "randomScan_AllocateBit draw a mx c = Ret (at, True)"
    using that randomScan_found [of a mx "int draw mod mx" 0 at]
    by (simp add: randomScan_AllocateBit_def rand_Intn_def split: if_splits)
  show "at = 0 \<and> (mx \<le> c \<or> (\<forall>i. 0 \<le> i \<and> i < mx \<longrightarrow> bit a (nat i)))"
    if "randomScan_AllocateBit draw a mx c = Ret (at, False)"
    using that randomScan_exhausted [of a mx "int draw mod mx" 0 at]
      randomScan_full [of a mx "int draw mod mx" at]
    by (auto simp: randomScan_AllocateBit_def rand_Intn_def split: if_splits)
  show "randomScan_AllocateBit draw a mx c \<noteq> Panic" if "0 \<le> c"
    using that by (simp add: randomScan_AllocateBit_def rand_Intn_def)
qed

interpretation strat: bit_allocator "AllocateBit s draw" for s draw
  by (cases s) (simp_all add: AllocateBit_def contig.bit_allocator_axioms random.bit_allocator_axioms)

section \<open>What the operations do to the set of offsets\<close>

named_theorems bitmap_defs "definitions of the bitmap operations"

lemmas bitmap_op_defs [bitmap_defs] =
  Allocate_def AllocateNext_def Release_def Has_def Free_def Snapshot_def Restore_def
  big_Bit_def big_SetBit_def

lemma offsets_iff: "0 \<le> k \<Longrightarrow> k \<in> offsets r \<longleftrightarrow> bit (allocated r) (nat k)"
  by (auto simp: offsets_def image_iff)

lemma offsets_nonneg: "k \<in> offsets r \<Longrightarrow> 0 \<le> k"
  by (auto simp: offsets_def)

lemma finite_offsets [simp]: "finite (offsets r)"
  by (simp add: offsets_def)

lemma card_offsets: "card (offsets r) = card {i. bit (allocated r) i}"
  by (simp add: offsets_def card_image)

lemma bm_inv_offsets: "bm_inv r \<longleftrightarrow> count r = int (card (offsets r))"
  by (simp add: bm_inv_def card_offsets)

lemma int_image_insert: "0 \<le> k \<Longrightarrow> int ` {i. bit (set_bit (nat k) (n::nat)) i} = insert k (int ` {i. bit n i})"
  by (auto simp: bit_simps image_iff) (metis int_nat_eq)+

lemma int_image_delete: "0 \<le> k \<Longrightarrow> int ` {i. bit (unset_bit (nat k) (n::nat)) i} = int ` {i. bit n i} - {k}"
  by (auto simp: bit_simps image_iff)

lemma Allocate_spec:
  assumes "0 \<le> k"
  shows "Allocate r k = Ret (if k \<in> offsets r then (r, False, None)
    else (r\<lparr>allocated := set_bit (nat k) (allocated r), count := count r + 1\<rparr>, True, None))"
  using assms by (simp add: bitmap_defs offsets_iff)

lemma offsets_set: "0 \<le> k \<Longrightarrow>
    offsets (r\<lparr>allocated := set_bit (nat k) (allocated r), count := c\<rparr>) = insert k (offsets r)"
  by (simp add: offsets_def int_image_insert)

lemma offsets_unset: "0 \<le> k \<Longrightarrow>
    offsets (r\<lparr>allocated := unset_bit (nat k) (allocated r), count := c\<rparr>) = offsets r - {k}"
  by (simp add: offsets_def int_image_delete)

lemma bm_inv_set: "bm_inv r \<Longrightarrow> 0 \<le> k \<Longrightarrow> k \<notin> offsets r \<Longrightarrow>
    bm_inv (r\<lparr>allocated := set_bit (nat k) (allocated r), count := count r + 1\<rparr>)"
  by (simp add: bm_inv_offsets offsets_set)

lemma bm_inv_unset: "bm_inv r \<Longrightarrow> 0 \<le> k \<Longrightarrow> k \<in> offsets r \<Longrightarrow>
    bm_inv (r\<lparr>allocated := unset_bit (nat k) (allocated r), count := count r - 1\<rparr>)"
  using card_Suc_Diff1 [of "offsets r" k] by (simp add: bm_inv_offsets offsets_unset)

lemma Release_spec:
  assumes "0 \<le> k"
  shows "Release r k = Ret (if k \<in> offsets r
    then (r\<lparr>allocated := unset_bit (nat k) (allocated r), count := count r - 1\<rparr>, None)
    else (r, None))"
  using assms by (simp add: bitmap_defs offsets_iff)

lemma Has_spec: "0 \<le> k \<Longrightarrow> Has r k = Ret (k \<in> offsets r)"
  by (simp add: bitmap_defs offsets_iff)

lemma record_swap: "r\<lparr>count := c, allocated := a\<rparr> = r\<lparr>allocated := a, count := c\<rparr>"
  by (cases r) simp

lemma AllocateNext_cases:
  assumes inv: "bm_inv r"
  obtains (full) "AllocateNext draw r = Ret (r, 0, False, None)"
      "bm_max r \<le> count r \<or> {0..<bm_max r} \<subseteq> offsets r"
    | (item) k where "0 \<le> k" "k < bm_max r" "k \<notin> offsets r"
      "AllocateNext draw r = Ret (r\<lparr>allocated := set_bit (nat k) (allocated r), count := count r + 1\<rparr>, k, True, None)"
proof -
  have "0 \<le> count r" using inv by (simp add: bm_inv_def)
  then obtain k ok where r: "AllocateBit (strategy r) draw (allocated r) (bm_max r) (count r) = Ret (k, ok)"
    using strat.no_panic by (metis go.exhaust surj_pair)
  show thesis
  proof (cases ok)
    case True
    with r have k: "0 \<le> k" "k < bm_max r" "\<not> bit (allocated r) (nat k)"
      using strat.found [of "strategy r" draw "allocated r" "bm_max r" "count r" k] by simp_all
    show thesis
      by (rule item [of k]) (use k r True in \<open>auto simp: offsets_iff bitmap_defs record_swap\<close>)
  next
    case False
    with r have "bm_max r \<le> count r \<or> (\<forall>i. 0 \<le> i \<and> i < bm_max r \<longrightarrow> bit (allocated r) (nat i))"
      using strat.exhausted [of "strategy r" draw "allocated r" "bm_max r" "count r" k] by simp
    then show thesis
      by (intro full) (use r False in \<open>auto simp: offsets_iff bitmap_defs\<close>)
  qed
qed

section \<open>ForEach\<close>

lemma wordSize_8: "wordSize = 8"
  by code_simp

lemma filter_bit_step:
  "filter (bit w) [0..<64] =
     (if bit w 0 then [0] else []) @ map Suc (filter (bit (drop_bit (Suc 0) w)) [0..<64])"
  for w :: "64 word"
proof -
  have "filter (bit w) (map Suc [0..<64]) = map Suc (filter (bit (drop_bit (Suc 0) w)) [0..<64])"
    by (simp add: filter_map comp_def bit_drop_bit_eq)
  moreover have "[0..<64] @ [64] = 0 # map Suc [0..<64]"
    by (metis map_Suc_upt upt_conv_Cons upt_Suc_append le0 zero_less_Suc)
  moreover have "filter (bit w) [0..<64] = filter (bit w) ([0..<64] @ [64])"
    using bit_imp_le_length [of w 64] by auto
  ultimately show ?thesis by simp
qed

lemma forEachWord_bits:
  "forEachWord wi w b = map (\<lambda>i. wi * 64 + b + int i) (filter (bit w) [0..<64])"
proof (induction wi w b rule: forEachWord.induct)
  case (1 wi w b)
  show ?case
  proof (cases "w > 0")
    case True
    have odd: "(w AND 1 \<noteq> 0) = bit w 0"
      by (simp add: and_one_eq bit_0 odd_iff_mod_2_eq_one)
    have clear: "drop_bit (Suc 0) (if w AND 1 \<noteq> 0 then and_not w 1 else w) = drop_bit (Suc 0) w"
      by (simp add: drop_bit_1_clear)
    have "forEachWord wi (drop_bit (Suc 0) w) (b + 1) =
        map (\<lambda>i. wi * 64 + b + int i) (map Suc (filter (bit (drop_bit (Suc 0) w)) [0..<64]))"
      using "1.IH" [OF True refl refl] by (simp only: clear One_nat_def) (simp add: algebra_simps)
    with True odd show ?thesis
      by (simp add: forEachWord.simps [of wi w b] Let_def wordSize_8 drop_bit_1_clear filter_bit_step [of w])
  next
    case False
    then have "w = 0" by (simp add: word_gt_0)
    then show ?thesis by (simp add: forEachWord.simps [of wi 0 b])
  qed
qed

lemma upt_shift: "[0..<k + m] = [0..<k] @ map ((+) k) [0..<m]"
  by (rule nth_equalityI) (auto simp: nth_append)

lemma forEachWords_bits:
  "forEachWords wi (big_Bits n) =
     map (\<lambda>i. wi * 64 + int i) (filter (bit n) [0..<64 * length (big_Bits n)])"
proof (induction n arbitrary: wi rule: big_Bits.induct)
  case (1 n)
  show ?case
  proof (cases "n = 0")
    case True
    then show ?thesis by (simp add: big_Bits.simps [of 0])
  next
    case False
    let ?w = "word_of_nat (n mod 2 ^ 64) :: 64 word" and ?l = "length (big_Bits (n div 2 ^ 64))"
    have low: "filter (bit ?w) [0..<64] = filter (bit n) [0..<64]"
      unfolding take_bit_eq_mod [symmetric] by (rule filter_cong) (auto simp: bit_simps)
    have high: "filter (bit n) (map ((+) 64) [0..<64 * ?l]) = map ((+) 64) (filter (bit (n div 2 ^ 64)) [0..<64 * ?l])"
      unfolding drop_bit_eq_div [symmetric] by (simp add: filter_map comp_def bit_drop_bit_eq)
    have "forEachWords wi (big_Bits n) = forEachWord wi ?w 0 @ forEachWords (wi + 1) (big_Bits (n div 2 ^ 64))"
      using False by (subst big_Bits.simps) simp
    also have "\<dots> = map (\<lambda>i. wi * 64 + int i) (filter (bit n) ([0..<64] @ map ((+) 64) [0..<64 * ?l]))"
      using 1 False low high by (simp add: forEachWord_bits algebra_simps)
    also have "[0..<64] @ map ((+) 64) [0..<64 * ?l] = [0..<64 * length (big_Bits n)]"
      using False by (simp add: big_Bits.simps [of n] flip: upt_shift)
    finally show ?thesis .
  qed
qed

lemma big_Bits_bound: "n < 2 ^ (64 * length (big_Bits n))"
proof (induction n rule: big_Bits.induct)
  case (1 n)
  show ?case
  proof (cases "n = 0")
    case False
    let ?l = "length (big_Bits (n div 2 ^ 64))"
    have "n div 2 ^ 64 < 2 ^ (64 * ?l)" using 1 False by simp
    then have "n < 2 ^ (64 * ?l) * 2 ^ 64" by (simp add: div_less_iff_less_mult)
    also have "\<dots> = 2 ^ (64 * length (big_Bits n))"
      using False by (simp add: big_Bits.simps [of n] power_add)
    finally show ?thesis .
  qed simp
qed

lemma bit_less_length: "bit n i \<Longrightarrow> i < 64 * length (big_Bits n)"
proof (rule ccontr)
  assume "bit n i" "\<not> i < 64 * length (big_Bits n)"
  then have "n < 2 ^ i"
    by (intro less_le_trans [OF big_Bits_bound] power_increasing) simp_all
  with \<open>bit n i\<close> show False by (simp add: bit_iff_odd)
qed

lemma ForEach_list: "ForEach r = map int (filter (bit (allocated r)) [0..<64 * length (big_Bits (allocated r))])"
  by (simp add: ForEach_def forEachWords_bits)

lemma set_ForEach: "set (ForEach r) = offsets r"
  using bit_less_length by (auto simp: ForEach_list offsets_def)

lemma sorted_ForEach: "sorted_wrt (<) (ForEach r)"
  by (auto simp: ForEach_list sorted_wrt_map intro!: sorted_wrt_filter)

section \<open>Properties\<close>

lemma big_Bit_Ret: "big_Bit n k = Ret b \<Longrightarrow> 0 \<le> k"
  by (simp add: big_Bit_def split: if_splits)

lemma bm_step_inv:
  assumes "bm_step r r'" "bm_inv r"
  shows "bm_inv r'"
  using assms(1)
proof cases
  case (step_Allocate k ok e)
  then have "0 \<le> k" by (auto simp: Allocate_def go_bind_eq_Ret dest: big_Bit_Ret)
  with step_Allocate assms(2) show ?thesis
    by (auto simp: Allocate_spec bm_inv_set split: if_splits)
next
  case (step_AllocateNext draw k ok e)
  from assms(2) show ?thesis
    by (cases rule: AllocateNext_cases [where draw = draw])
      (use step_AllocateNext assms(2) in \<open>auto simp: bm_inv_set\<close>)
next
  case (step_Release k e)
  then have "0 \<le> k" by (auto simp: Release_def go_bind_eq_Ret dest: big_Bit_Ret)
  with step_Release assms(2) show ?thesis
    by (auto simp: Release_spec bm_inv_unset split: if_splits)
next
  case (step_Restore spec data e)
  with assms(2) show ?thesis
    by (auto simp: Restore_def Let_def bm_inv_def countBits_card split: if_splits)
qed

text \<open>
  C32: the invariant the source documents for AllocationBitmap, in every state that any sequence
  of Allocate, AllocateNext, Release and Restore calls produces from a new bitmap: count is the
  number of set bits, which is the number of offsets ForEach visits. (Allocate does not compare the
  offset with max; its callers do.)
\<close>

theorem bitmap_count_invariant:
  assumes "bm_reachable r"
  shows "count r = int (card (offsets r)) \<and> count r = int (length (ForEach r))"
proof -
  from assms have "bm_inv r"
    by (induction rule: bm_reachable.induct)
      (auto simp: bm_inv_def NewAllocationMap_def NewContiguousAllocationMap_def bot_fun_def
        intro: bm_step_inv [unfolded bm_inv_def])
  moreover have "length (ForEach r) = card (offsets r)"
    using sorted_ForEach [of r] by (metis set_ForEach strict_sorted_iff distinct_card)
  ultimately show ?thesis by (simp add: bm_inv_offsets)
qed

theorem bitmap_count_invariant_witness:
  "bm_reachable \<lparr>strategy = contiguousScanStrategy, bm_max = 4, rangeSpec = ''r'', count = 1, allocated = 4\<rparr> \<and>
   (1::int) = int (card (offsets \<lparr>strategy = contiguousScanStrategy, bm_max = 4, rangeSpec = ''r'', count = 1, allocated = 4\<rparr>))"
proof -
  let ?r = "\<lparr>strategy = contiguousScanStrategy, bm_max = 4, rangeSpec = ''r'', count = 1, allocated = 4\<rparr>"
  have "Allocate (NewContiguousAllocationMap 4 ''r'') 2 = Ret (?r, True, None)"
    by (simp add: Allocate_def big_Bit_def big_SetBit_def NewContiguousAllocationMap_def set_bit_eq)
  then have "bm_reachable ?r"
    by (intro bm_reachable.call [OF bm_reachable.new_contiguous] bm_step.step_Allocate)
  with bitmap_count_invariant [OF this] show ?thesis by simp
qed

text \<open>
  AllocateNext, with either strategy and whatever the random draw, on a bitmap that satisfies
  the invariant: when fewer than max items are counted it returns an item of the range that was
  free, marks exactly that item and lowers Free by one; when count has reached max it returns
  (0, false) and changes nothing.
\<close>

theorem AllocateNext_correct:
  assumes "bm_inv r"
  shows "if count r < bm_max r
    then \<exists>r' k. AllocateNext draw r = Ret (r', k, True, None) \<and> 0 \<le> k \<and> k < bm_max r \<and>
      k \<notin> offsets r \<and> offsets r' = insert k (offsets r) \<and> bm_inv r' \<and> Free r' = Free r - 1
    else AllocateNext draw r = Ret (r, 0, False, None)"
proof (cases "count r < bm_max r")
  case True
  then obtain k where "AllocateBit (strategy r) draw (allocated r) (bm_max r) (count r) = Ret (k, True)"
    using strat.finds_free_item assms unfolding bm_inv_def by blast
  with True show ?thesis
    using assms
    by (cases rule: AllocateNext_cases [OF assms, where draw = draw])
      (auto simp: AllocateNext_def go_bind_eq_Ret bm_inv_set offsets_set Free_def split: if_splits)
next
  case False
  then show ?thesis
    by (cases "strategy r")
      (simp_all add: AllocateNext_def AllocateBit_def randomScan_AllocateBit_def contiguousScan_AllocateBit_def)
qed

theorem AllocateNext_correct_witness:
  "bm_inv (NewAllocationMap 3 ''r'') \<and> (\<exists>r' k. AllocateNext 7 (NewAllocationMap 3 ''r'') = Ret (r', k, True, None) \<and> k < 3)"
proof -
  have inv: "bm_inv (NewAllocationMap 3 ''r'')"
    by (simp add: bm_inv_def NewAllocationMap_def bot_fun_def)
  show ?thesis
    using AllocateNext_correct [OF inv, of 7] inv by (auto simp: NewAllocationMap_def)
qed

text \<open>
  With the contiguous strategy the item AllocateNext returns is the smallest free one.
\<close>

theorem AllocateNext_contiguous_least:
  assumes "strategy r = contiguousScanStrategy" "AllocateNext draw r = Ret (r', k, True, e)"
  shows "k \<notin> offsets r \<and> (\<forall>j. 0 \<le> j \<and> j < k \<longrightarrow> j \<in> offsets r)"
proof -
  have "contiguousScan (allocated r) (bm_max r) 0 = (k, True)"
    using assms
    by (auto simp: AllocateNext_def AllocateBit_def contiguousScan_AllocateBit_def go_bind_eq_Ret
        split: if_splits prod.splits)
  from contiguousScan_found [OF this] show ?thesis by (simp add: offsets_iff)
qed

theorem AllocateNext_contiguous_least_witness:
  "\<exists>r'. AllocateNext 0 \<lparr>strategy = contiguousScanStrategy, bm_max = 4, rangeSpec = ''r'', count = 2, allocated = 3\<rparr>
     = Ret (r', 2, True, None) \<and> 1 \<in> offsets \<lparr>strategy = contiguousScanStrategy, bm_max = 4, rangeSpec = ''r'', count = 2, allocated = 3\<rparr>"
proof -
  let ?r = "\<lparr>strategy = contiguousScanStrategy, bm_max = 4, rangeSpec = ''r'', count = 2, allocated = 3\<rparr>"
  have "contiguousScan 3 4 0 = (2, True)"
    by code_simp
  then have nx: "AllocateNext 0 ?r = Ret (?r\<lparr>count := 3, allocated := 7\<rparr>, 2, True, None)"
    by (simp add: AllocateNext_def AllocateBit_def contiguousScan_AllocateBit_def big_SetBit_def set_bit_eq)
  from AllocateNext_contiguous_least [OF _ nx] nx show ?thesis by auto
qed

text \<open>
  Releasing an item that Allocate just reserved restores the bitmap exactly, and allocating
  again reports that the item was free.
\<close>

theorem Allocate_Release_roundtrip:
  assumes "0 \<le> k" "k \<notin> offsets r"
  shows "\<exists>r'. Allocate r k = Ret (r', True, None) \<and> Has r' k = Ret True \<and> Release r' k = Ret (r, None)"
proof -
  have bit: "\<not> bit (allocated r) (nat k)" using assms by (simp add: offsets_iff)
  have "unset_bit (nat k) (set_bit (nat k) (allocated r)) = allocated r"
    by (rule bit_eqI) (use bit in \<open>auto simp: bit_simps\<close>)
  then show ?thesis
    using assms by (simp add: Allocate_spec Release_spec Has_spec offsets_set)
qed

theorem Allocate_Release_roundtrip_witness:
  "\<exists>r'. Allocate (NewAllocationMap 4 ''r'') 3 = Ret (r', True, None) \<and> Release r' 3 = Ret (NewAllocationMap 4 ''r'', None)"
  using Allocate_Release_roundtrip [of 3 "NewAllocationMap 4 ''r''"]
  by (auto simp: NewAllocationMap_def offsets_def)

text \<open>
  ForEach calls its function once per allocated offset, in increasing order: the word-by-word
  scan of the big.Int equals the sorted list of the allocated set.
\<close>

theorem ForEach_sorted_offsets: "ForEach r = sorted_list_of_set (offsets r)"
  using sorted_ForEach [of r]
  by (metis set_ForEach sorted_list_of_set.idem_if_sorted_distinct strict_sorted_iff)

text \<open>
  Snapshot and Restore are inverse: a bitmap restored from the snapshot of another one with
  the same range has that one's allocated set and a count equal to the number of set bits, so a
  bitmap that satisfies the invariant is restored with its own count; another range is refused.
\<close>

theorem Snapshot_Restore_roundtrip:
  assumes "Snapshot r = (spec, data)"
  shows "Restore r' spec data =
    (if rangeSpec r' = rangeSpec r
     then (r'\<lparr>allocated := allocated r, count := int (card (offsets r))\<rparr>, None)
     else (r', Some ''the provided range does not match the current range''))"
  using assms
  by (auto simp: Snapshot_def Restore_def SetBytes_Bytes countBits_card card_offsets Let_def)

theorem Snapshot_Restore_roundtrip_witness:
  "Restore (NewAllocationMap 10 ''r'') ''r'' [2, 1] =
     ((NewAllocationMap 10 ''r'')\<lparr>allocated := 513, count := 2\<rparr>, None)"
proof -
  let ?r = "(NewAllocationMap 10 ''r'')\<lparr>allocated := 513, count := 2\<rparr>"
  have s: "Snapshot ?r = (''r'', [2, 1])"
    by (simp add: Snapshot_def NewAllocationMap_def big_Bytes_def le_bytes.simps)
  have "countBits 513 = 2"
    by (simp add: countBits_def big_Bytes_def le_bytes.simps bitCounts_def)
  then have "int (card (offsets ?r)) = 2" by (simp add: card_offsets countBits_card)
  with Snapshot_Restore_roundtrip [OF s, of "NewAllocationMap 10 ''r''"] show ?thesis
    by (simp add: NewAllocationMap_def)
qed

section \<open>The interface allocator.Interface\<close>

text \<open>
  What a client of \<open>allocator.Interface\<close> relies on, over the set \<open>items\<close> of allocated offsets
  and the capacity \<open>cap\<close> of an allocator in a good state.
\<close>

locale allocator_interface =
  fixes ops :: "'s allocator" and good :: "'s \<Rightarrow> bool" and items :: "'s \<Rightarrow> int set" and cap :: "'s \<Rightarrow> int"
  assumes items_range: "good s \<Longrightarrow> items s \<subseteq> {0..<cap s}"
    and Allocate_law: "good s \<Longrightarrow> 0 \<le> k \<Longrightarrow> k < cap s \<Longrightarrow>
      \<exists>s'. op_Allocate ops s k = Ret (s', k \<notin> items s, None) \<and> good s' \<and>
        items s' = insert k (items s) \<and> cap s' = cap s \<and> (k \<in> items s \<longrightarrow> s' = s)"
    and Next_law: "good s \<Longrightarrow> items s \<noteq> {0..<cap s} \<Longrightarrow>
      \<exists>s' k. op_AllocateNext ops draw s = Ret (s', k, True, None) \<and> good s' \<and> 0 \<le> k \<and> k < cap s \<and>
        k \<notin> items s \<and> items s' = insert k (items s) \<and> cap s' = cap s"
    and Next_full_law: "good s \<Longrightarrow> items s = {0..<cap s} \<Longrightarrow>
      op_AllocateNext ops draw s = Ret (s, 0, False, None)"
    and Release_law: "good s \<Longrightarrow> 0 \<le> k \<Longrightarrow>
      \<exists>s'. op_Release ops s k = Ret (s', None) \<and> good s' \<and> items s' = items s - {k} \<and> cap s' = cap s"
    and Has_law: "0 \<le> k \<Longrightarrow> op_Has ops s k = Ret (k \<in> items s)"
    and Free_law: "good s \<Longrightarrow> op_Free ops s = cap s - int (card (items s))"
    and ForEach_law: "good s \<Longrightarrow> op_ForEach ops s = sorted_list_of_set (items s)"

lemma full_iff:
  assumes "bm_inv r" "bm_in_range r"
  shows "count r < bm_max r \<longleftrightarrow> offsets r \<noteq> {0..<bm_max r}"
proof
  assume "count r < bm_max r"
  then show "offsets r \<noteq> {0..<bm_max r}" using assms(1) by (auto simp: bm_inv_offsets split: if_splits)
next
  assume "offsets r \<noteq> {0..<bm_max r}"
  then have sub: "offsets r \<subset> {0..<bm_max r}" using assms(2) by (auto simp: bm_in_range_def)
  then have "card (offsets r) < nat (bm_max r)"
    using psubset_card_mono [of "{0..<bm_max r}" "offsets r"] by simp
  then show "count r < bm_max r" using assms(1) by (simp add: bm_inv_offsets)
qed

lemma bm_max_keep [simp]: "bm_max (r\<lparr>allocated := a, count := c\<rparr>) = bm_max r"
  by simp

interpretation bitmap: allocator_interface bitmap_ops "\<lambda>r. bm_inv r \<and> bm_in_range r" offsets bm_max
proof (unfold_locales, goal_cases)
  case (1 s)
  then show ?case by (simp add: bm_in_range_def)
next
  case (2 s k)
  then show ?case
    by (auto simp: bitmap_ops_def Allocate_spec bm_inv_set bm_in_range_def offsets_set insert_absorb)
next
  case (3 s draw)
  then have inv: "bm_inv s" by simp
  from 3 have room: "count s < bm_max s" by (simp add: full_iff)
  from inv show ?case
  proof (cases rule: AllocateNext_cases [where draw = draw])
    case full
    with 3 room show ?thesis by (auto simp: bm_in_range_def)
  next
    case (item k)
    with 3 show ?thesis by (auto simp: bitmap_ops_def bm_in_range_def bm_inv_set offsets_set)
  qed
next
  case (4 s draw)
  then have "\<not> count s < bm_max s" by (simp add: full_iff)
  then show ?case
    by (cases "strategy s") (simp_all add: bitmap_ops_def AllocateNext_def AllocateBit_def
        randomScan_AllocateBit_def contiguousScan_AllocateBit_def)
next
  case (5 s k)
  then show ?case
    by (auto simp: bitmap_ops_def Release_spec bm_inv_unset bm_in_range_def offsets_unset)
next
  case (6 k s)
  then show ?case by (simp add: bitmap_ops_def Has_spec)
next
  case (7 s)
  then show ?case by (simp add: bitmap_ops_def Free_def bm_inv_offsets)
next
  case (8 s)
  have "ForEach s = sorted_list_of_set (offsets s)"
    using sorted_ForEach [of s] by (metis set_ForEach sorted_list_of_set.idem_if_sorted_distinct strict_sorted_iff)
  then show ?case by (simp add: bitmap_ops_def)
qed

end
