(* ===== verification/IPAllocator.thy ===== *)
theory IPAllocator
  imports Bitmap
begin

text \<open>
  \<open>src/pkg/util/ipallocator/allocator.go\<close>: a range of IP addresses over an
  \<open>allocator.Interface\<close>. Addresses and masks are the byte slices of the package \<open>net\<close>; the
  functions of \<open>net\<close> the source calls (\<open>To4\<close>, \<open>To16\<close>, \<open>Equal\<close>, \<open>IPNet.Contains\<close>,
  \<open>IPMask.Size\<close>, \<open>IPMask.String\<close>) are defined here as that package defines them.
  \<open>IPNet.String\<close>, which only labels a range, is the parameter \<open>netString\<close>, and
  \<open>net.ParseCIDR\<close> the parameter \<open>parseCIDR\<close>.
\<close>

section \<open>Package net\<close>

type_synonym net_IP = "8 word list"
type_synonym net_IPMask = "8 word list"

record IPNet =
  net_ip :: net_IP
  net_mask :: net_IPMask

definition v4InV6Prefix :: net_IP where
  "v4InV6Prefix = replicate 10 0 @ [255, 255]"

definition To4 :: "net_IP \<Rightarrow> net_IP option" where
  "To4 ip = (if length ip = 4 then Some ip
             else if length ip = 16 \<and> take 12 ip = v4InV6Prefix then Some (drop 12 ip) else None)"

definition To16 :: "net_IP \<Rightarrow> net_IP option" where
  "To16 ip = (if length ip = 4 then Some (v4InV6Prefix @ ip)
              else if length ip = 16 then Some ip else None)"

definition ip_Equal :: "net_IP \<Rightarrow> net_IP \<Rightarrow> bool" where
  "ip_Equal ip x =
     (if length ip = length x then ip = x
      else if length ip = 4 \<and> length x = 16 then take 12 x = v4InV6Prefix \<and> ip = drop 12 x
      else if length ip = 16 \<and> length x = 4 then take 12 ip = v4InV6Prefix \<and> drop 12 ip = x
      else False)"

definition networkNumberAndMask :: "IPNet \<Rightarrow> (net_IP \<times> net_IPMask) option" where
  "networkNumberAndMask n =
     (let ip = (case To4 (net_ip n) of Some x \<Rightarrow> x | None \<Rightarrow> net_ip n) in
      if length ip \<noteq> 4 \<and> length ip \<noteq> 16 then None
      else if length (net_mask n) = 4 then (if length ip \<noteq> 4 then None else Some (ip, net_mask n))
      else if length (net_mask n) = 16
        then Some (ip, if length ip = 4 then drop 12 (net_mask n) else net_mask n)
      else None)"

definition net_Contains :: "IPNet \<Rightarrow> net_IP \<Rightarrow> bool" where
  "net_Contains n ip =
     (let (nn, m) = (case networkNumberAndMask n of Some p \<Rightarrow> p | None \<Rightarrow> ([], []));
          ip' = (case To4 ip of Some x \<Rightarrow> x | None \<Rightarrow> ip)
      in length ip' = length nn \<and>
         list_all (\<lambda>((a, k), b). a AND k = b AND k) (zip (zip nn m) ip'))"

text \<open>\<open>IPMask.Size\<close>: leading one bits and total bits, \<open>(0, 0)\<close> for a mask that is not ones
  followed by zeros.\<close>

fun maskByteOnes :: "nat \<Rightarrow> 8 word \<Rightarrow> nat \<times> 8 word" where
  "maskByteOnes 0 v = (0, v)"
| "maskByteOnes (Suc fuel) v =
     (if v AND 128 \<noteq> 0
      then (let (n, v') = maskByteOnes fuel (push_bit 1 v) in (n + 1, v')) else (0, v))"

fun simpleMaskLength :: "net_IPMask \<Rightarrow> nat option" where
  "simpleMaskLength [] = Some 0"
| "simpleMaskLength (v # vs) =
     (if v = 255 then map_option ((+) 8) (simpleMaskLength vs)
      else (let (n, rest) = maskByteOnes 8 v in
            if rest \<noteq> 0 then None else if list_all (\<lambda>b. b = 0) vs then Some n else None))"

definition mask_Size :: "net_IPMask \<Rightarrow> int \<times> int" where
  "mask_Size m = (case simpleMaskLength m of None \<Rightarrow> (0, 0) | Some n \<Rightarrow> (int n, int (length m * 8)))"

definition hexDigit :: "nat \<Rightarrow> char" where
  "hexDigit n = (if n < 10 then char_of (48 + n) else char_of (87 + n))"

definition mask_String :: "net_IPMask \<Rightarrow> string" where
  "mask_String m = (if m = [] then ''<nil>''
     else concat (map (\<lambda>b. [hexDigit (unat b div 16), hexDigit (unat b mod 16)]) m))"

section \<open>The range\<close>

datatype range_err = ErrFull | ErrAllocated | ErrMismatchedNetwork | ErrNotInRange string
  | ErrOther go_error

record 's Range =
  r_net :: IPNet
  r_base :: nat
  r_max :: int
  r_alloc :: 's

definition bigForIP :: "net_IP \<Rightarrow> nat" where
  "bigForIP ip = big_SetBytes (case To4 ip of Some b \<Rightarrow> b
     | None \<Rightarrow> (case To16 ip of Some b \<Rightarrow> b | None \<Rightarrow> []))"

definition addIPOffset :: "nat \<Rightarrow> int \<Rightarrow> net_IP" where
  "addIPOffset base offset = big_Bytes (nat \<bar>int base + offset\<bar>)"

text \<open>\<open>Int64\<close> keeps the low 64 bits, read as two's complement.\<close>

definition calculateIPOffset :: "nat \<Rightarrow> net_IP \<Rightarrow> int" where
  "calculateIPOffset base ip = sint (word_of_int (int (bigForIP ip) - int base) :: 64 word)"

definition maximum :: "int \<Rightarrow> int \<Rightarrow> int" where
  "maximum a b = (if a > b then a else b)"

definition RangeSize :: "IPNet \<Rightarrow> int" where
  "RangeSize subnet =
     (let (ones, bits) = mask_Size (net_mask subnet) in
      if (bits = 32 \<and> bits - ones \<ge> 31) \<or> (bits = 128 \<and> bits - ones \<ge> 127) then 0
      else if bits = 128 \<and> bits - ones \<ge> 16 then sint (push_bit 16 1 :: 64 word)
      else sint (push_bit (nat (bits - ones)) 1 :: 64 word))"

definition NewAllocatorCIDRRange ::
    "(IPNet \<Rightarrow> string) \<Rightarrow> IPNet \<Rightarrow> (int \<Rightarrow> string \<Rightarrow> 's) \<Rightarrow> 's Range" where
  "NewAllocatorCIDRRange netString cidr allocatorFactory =
     (let mx = maximum 0 (RangeSize cidr - 2) in
      \<lparr>r_net = cidr, r_base = bigForIP (net_ip cidr) + 1, r_max = mx,
       r_alloc = allocatorFactory mx (netString cidr)\<rparr>)"

definition NewCIDRRange :: "(IPNet \<Rightarrow> string) \<Rightarrow> IPNet \<Rightarrow> AllocationBitmap Range" where
  "NewCIDRRange netString cidr = NewAllocatorCIDRRange netString cidr NewAllocationMap"

definition range_Free :: "'s allocator \<Rightarrow> 's Range \<Rightarrow> int" where
  "range_Free ops r = op_Free ops (r_alloc r)"

definition range_Used :: "'s allocator \<Rightarrow> 's Range \<Rightarrow> int" where
  "range_Used ops r = r_max r - op_Free ops (r_alloc r)"

definition CIDR :: "'s Range \<Rightarrow> IPNet" where
  "CIDR r = r_net r"

definition contains :: "'s Range \<Rightarrow> net_IP \<Rightarrow> bool \<times> int" where
  "contains r ip =
     (if \<not> net_Contains (r_net r) ip then (False, 0)
      else (let offset = calculateIPOffset (r_base r) ip in
            if offset < 0 \<or> offset \<ge> r_max r then (False, 0) else (True, offset)))"

definition range_Allocate ::
    "(IPNet \<Rightarrow> string) \<Rightarrow> 's allocator \<Rightarrow> 's Range \<Rightarrow> net_IP \<Rightarrow> ('s Range \<times> range_err option) go" where
  "range_Allocate netString ops r ip =
     (let (ok, offset) = contains r ip in
      if \<not> ok then Ret (r, Some (ErrNotInRange (netString (r_net r))))
      else go_bind (op_Allocate ops (r_alloc r) offset) (\<lambda>(a, allocated, err).
        let r' = r\<lparr>r_alloc := a\<rparr> in
        case err of Some e \<Rightarrow> Ret (r', Some (ErrOther e))
        | None \<Rightarrow> if \<not> allocated then Ret (r', Some ErrAllocated) else Ret (r', None)))"

definition range_AllocateNext ::
    "'s allocator \<Rightarrow> nat \<Rightarrow> 's Range \<Rightarrow> ('s Range \<times> (range_err + net_IP)) go" where
  "range_AllocateNext ops draw r =
     go_bind (op_AllocateNext ops draw (r_alloc r)) (\<lambda>(a, offset, ok, err).
       let r' = r\<lparr>r_alloc := a\<rparr> in
       case err of Some e \<Rightarrow> Ret (r', Inl (ErrOther e))
       | None \<Rightarrow> if \<not> ok then Ret (r', Inl ErrFull)
                 else Ret (r', Inr (addIPOffset (r_base r) offset)))"

definition range_Release :: "'s allocator \<Rightarrow> 's Range \<Rightarrow> net_IP \<Rightarrow> ('s Range \<times> go_error option) go" where
  "range_Release ops r ip =
     (let (ok, offset) = contains r ip in
      if \<not> ok then Ret (r, None)
      else go_bind (op_Release ops (r_alloc r) offset) (\<lambda>(a, err). Ret (r\<lparr>r_alloc := a\<rparr>, err)))"

definition GetIndexedIP :: "IPNet \<Rightarrow> int \<Rightarrow> go_error + net_IP" where
  "GetIndexedIP subnet index =
     (let ip = addIPOffset (bigForIP (net_ip subnet)) index in
      if \<not> net_Contains subnet ip
      then Inl ''can't generate IP from subnet. subnet too small.'' else Inr ip)"

definition GetFirstIP :: "IPNet \<Rightarrow> go_error + net_IP" where
  "GetFirstIP subnet = GetIndexedIP subnet 0"

definition GetLastIP :: "IPNet \<Rightarrow> go_error + net_IP" where
  "GetLastIP subnet =
     (let size = RangeSize subnet in
      if size \<le> 0 then Inl ''can't get range size of subnet.'' else GetIndexedIP subnet (size - 1))"

text \<open>\<open>ForEach\<close>: the addresses \<open>fn\<close> receives; a failed \<open>GetIndexedIP\<close> passes the nil address.\<close>

definition range_ForEach :: "'s allocator \<Rightarrow> 's Range \<Rightarrow> net_IP list" where
  "range_ForEach ops r =
     map (\<lambda>offset. case GetIndexedIP (r_net r) (offset + 1) of Inl _ \<Rightarrow> [] | Inr ip \<Rightarrow> ip)
       (op_ForEach ops (r_alloc r))"

definition range_Has :: "'s allocator \<Rightarrow> 's Range \<Rightarrow> net_IP \<Rightarrow> bool go" where
  "range_Has ops r ip =
     (let (ok, offset) = contains r ip in
      if \<not> ok then Ret False else op_Has ops (r_alloc r) offset)"

definition range_Snapshot :: "'s allocator \<Rightarrow> 's Range \<Rightarrow> go_error + (string \<times> 8 word list)" where
  "range_Snapshot ops r =
     (case op_Snapshottable ops of None \<Rightarrow> Inl ''not a snapshottable allocator''
      | Some (snap, _) \<Rightarrow> Inr (snap (r_alloc r)))"

definition range_Restore ::
    "(IPNet \<Rightarrow> string) \<Rightarrow> 's allocator \<Rightarrow> 's Range \<Rightarrow> IPNet \<Rightarrow> 8 word list \<Rightarrow> 's Range \<times> range_err option" where
  "range_Restore netString ops r net data =
     (if \<not> ip_Equal (net_ip net) (net_ip (r_net r)) \<or> mask_String (net_mask net) \<noteq> mask_String (net_mask (r_net r))
      then (r, Some ErrMismatchedNetwork)
      else (case op_Snapshottable ops of
              None \<Rightarrow> (r, Some (ErrOther ''not a snapshottable allocator''))
            | Some (_, restore) \<Rightarrow> (r\<lparr>r_alloc := fst (restore (r_alloc r) (netString net) data)\<rparr>, None)))"

definition NewFromSnapshot ::
    "(string \<Rightarrow> go_error + IPNet) \<Rightarrow> (IPNet \<Rightarrow> string) \<Rightarrow> string \<Rightarrow> 8 word list \<Rightarrow>
     range_err + AllocationBitmap Range" where
  "NewFromSnapshot parseCIDR netString spec data =
     (case parseCIDR spec of Inl e \<Rightarrow> Inl (ErrOther e)
      | Inr ipnet \<Rightarrow>
          (case range_Restore netString bitmap_ops (NewCIDRRange netString ipnet) ipnet data of
             (_, Some e) \<Rightarrow> Inl e | (r, None) \<Rightarrow> Inr r))"

section \<open>Specification\<close>

text \<open>
  What \<open>net.ParseCIDR\<close> yields: the mask of \<open>ones\<close> leading bits and the address with its host
  bits zero, of 4 bytes (IPv4) or of 16 bytes that are no IPv4-mapped address.
\<close>

fun cidrMask :: "nat \<Rightarrow> nat \<Rightarrow> net_IPMask" where
  "cidrMask ones 0 = []"
| "cidrMask ones (Suc l) =
     (if 8 \<le> ones then 255 # cidrMask (ones - 8) l else NOT (mask (8 - ones)) # cidrMask 0 l)"

definition canonical_net :: "IPNet \<Rightarrow> nat \<Rightarrow> nat \<Rightarrow> bool" where
  "canonical_net n ones l \<longleftrightarrow> l \<in> {4, 16} \<and> length (net_ip n) = l \<and>
     (l = 16 \<longrightarrow> To4 (net_ip n) = None) \<and> ones \<le> 8 * l \<and> net_mask n = cidrMask ones l \<and>
     2 ^ (8 * l - ones) dvd big_SetBytes (net_ip n)"

definition ip_norm :: "net_IP \<Rightarrow> net_IP" where
  "ip_norm ip = (case To4 ip of Some x \<Rightarrow> x | None \<Rightarrow> ip)"

text \<open>
  A range as \<open>NewAllocatorCIDRRange\<close> builds it over such a network, outside \<open>0.0.0.0/8\<close> and
  \<open>::/8\<close> (whose addresses \<open>big.Int.Bytes\<close> would shorten).
\<close>

definition range_wf :: "'s Range \<Rightarrow> bool" where
  "range_wf r \<longleftrightarrow> (\<exists>ones l. canonical_net (r_net r) ones l) \<and> hd (net_ip (r_net r)) \<noteq> 0 \<and>
     r_base r = bigForIP (net_ip (r_net r)) + 1 \<and> r_max r = maximum 0 (RangeSize (r_net r) - 2)"

definition range_good :: "AllocationBitmap Range \<Rightarrow> bool" where
  "range_good r \<longleftrightarrow> range_wf r \<and> bm_inv (r_alloc r) \<and> bm_in_range (r_alloc r) \<and>
     bm_max (r_alloc r) = r_max r"


text \<open>The networks the concrete instances use: \<open>10.0.0.0/30\<close> and \<open>2001:db8::/32\<close>.\<close>

definition example_net :: IPNet where
  "example_net = \<lparr>net_ip = [10, 0, 0, 0], net_mask = [255, 255, 255, 252]\<rparr>"

definition wide_net :: IPNet where
  "wide_net = \<lparr>net_ip = [32, 1, 13, 184] @ replicate 12 0, net_mask = replicate 4 255 @ replicate 12 0\<rparr>"

section \<open>Bytes and numbers\<close>

lemma SetBytes_foldl:
  "foldl (\<lambda>acc b. acc * 256 + unat b) a bs = a * 256 ^ length bs + big_SetBytes (bs :: 8 word list)"
proof (induction bs arbitrary: a)
  case (Cons b bs)
  from Cons [of "a * 256 + unat b"] Cons [of "unat b"] show ?case
    by (simp add: big_SetBytes_def [of "b # bs"] add_mult_distrib)
qed (simp add: big_SetBytes_def)

lemma SetBytes_Nil [simp]: "big_SetBytes [] = 0"
  by (simp add: big_SetBytes_def)

lemma SetBytes_Cons: "big_SetBytes (b # bs) = unat b * 256 ^ length bs + big_SetBytes bs"
  using SetBytes_foldl [of "unat b" bs] by (simp add: big_SetBytes_def [of "b # bs"])

lemma SetBytes_less: "big_SetBytes bs < 256 ^ length bs"
proof (induction bs)
  case (Cons b bs)
  have "unat b * 256 ^ length bs \<le> 255 * 256 ^ length bs"
    using unsigned_less [of b, where ?'a = nat] by (intro mult_right_mono) simp_all
  then have "unat b * 256 ^ length bs + big_SetBytes bs < 255 * 256 ^ length bs + 256 ^ length bs"
    using Cons by (rule add_le_less_mono)
  then show ?case by (simp add: SetBytes_Cons)
qed simp

lemma length_Bytes: "256 ^ l \<le> n \<Longrightarrow> n < 256 ^ Suc l \<Longrightarrow> length (big_Bytes n) = Suc l"
proof (induction l arbitrary: n)
  case 0
  then show ?case by (simp add: Bytes_step) (simp add: big_Bytes_def le_bytes.simps)
next
  case (Suc l)
  have "256 ^ l \<le> n div 256" "n div 256 < 256 ^ Suc l" "n \<noteq> 0"
    using Suc.prems by (auto simp: less_eq_div_iff_mult_less_eq div_less_iff_less_mult mult.commute intro: ccontr)
  with Suc.IH [of "n div 256"] show ?case by (simp add: Bytes_step)
qed

lemma hd_Bytes: "n \<noteq> 0 \<Longrightarrow> hd (big_Bytes n) \<noteq> 0"
proof (induction n rule: le_bytes.induct)
  case (1 n)
  show ?case
  proof (cases "n div 256 = 0")
    case True
    then have "n < 256" by (simp add: div_eq_0_iff)
    with 1(2) True show ?thesis
      by (simp add: Bytes_step [of n]) (simp add: big_Bytes_def le_bytes.simps word_of_nat_eq_0_iff nat_dvd_not_less)
  next
    case False
    then have "big_Bytes (n div 256) \<noteq> []"
      by (simp add: big_Bytes_def le_bytes.simps [of "n div 256"])
    with 1 False show ?thesis by (simp add: Bytes_step [of n])
  qed
qed

section \<open>Masks\<close>

lemma high_byte_table:
  "list_all (\<lambda>ones. maskByteOnes 8 (NOT (mask (8 - ones))) = (ones, 0) \<and> (NOT (mask (8 - ones)) :: 8 word) \<noteq> 255)
     [0, 1, 2, 3, 4, 5, 6, 7]"
  by code_simp

lemma high_byte:
  "ones < 8 \<Longrightarrow> maskByteOnes 8 (NOT (mask (8 - ones))) = (ones, 0) \<and> (NOT (mask (8 - ones)) :: 8 word) \<noteq> 255"
proof -
  assume "ones < 8"
  then have "ones \<in> set [0, 1, 2, 3, 4, 5, 6, 7]" by auto
  with high_byte_table show ?thesis unfolding list_all_iff by blast
qed

lemma cidrMask_0: "cidrMask 0 l = replicate l 0"
  by (induction l) (simp_all add: mask_eq_exp_minus_1)

lemma length_cidrMask [simp]: "length (cidrMask ones l) = l"
  by (induction ones l rule: cidrMask.induct) auto

lemma simpleMaskLength_cidr: "ones \<le> 8 * l \<Longrightarrow> simpleMaskLength (cidrMask ones l) = Some ones"
proof (induction ones l rule: cidrMask.induct)
  case (2 ones l)
  then show ?case
    using high_byte [of ones] by (auto simp: cidrMask_0 list_all_iff Let_def)
qed simp

lemma mask_Size_cidr: "ones \<le> 8 * l \<Longrightarrow> mask_Size (cidrMask ones l) = (int ones, int (8 * l))"
  by (simp add: mask_Size_def simpleMaskLength_cidr)

lemma and_high_mask:
  "a AND NOT (mask n) = b AND NOT (mask n) \<longleftrightarrow> unat a div 2 ^ n = unat (b :: 8 word) div 2 ^ n"
proof -
  have "a AND NOT (mask n) = b AND NOT (mask n) \<longleftrightarrow> drop_bit n a = drop_bit n b"
  proof
    assume eq: "a AND NOT (mask n) = b AND NOT (mask n)"
    show "drop_bit n a = drop_bit n b"
    proof (rule bit_eqI)
      fix m
      have "bit (a AND NOT (mask n)) (n + m) = bit (b AND NOT (mask n)) (n + m)" by (simp add: eq)
      then show "bit (drop_bit n a) m = bit (drop_bit n b) m"
        using bit_imp_le_length [of a "n + m"] bit_imp_le_length [of b "n + m"]
        by (auto simp: bit_and_iff bit_not_iff bit_mask_iff bit_drop_bit_eq)
    qed
  next
    assume eq: "drop_bit n a = drop_bit n b"
    show "a AND NOT (mask n) = b AND NOT (mask n)"
    proof (rule bit_eqI)
      fix m
      have "bit (drop_bit n a) (m - n) = bit (drop_bit n b) (m - n)" by (simp add: eq)
      then show "bit (a AND NOT (mask n)) m = bit (b AND NOT (mask n)) m"
        by (cases "n \<le> m") (auto simp: bit_and_iff bit_not_iff bit_mask_iff bit_drop_bit_eq)
    qed
  qed
  also have "\<dots> \<longleftrightarrow> unat (drop_bit n a) = unat (drop_bit n b)" by (simp add: word_unat_eq_iff)
  finally show ?thesis unfolding unat_drop_bit_eq by (simp add: drop_bit_eq_div)
qed

lemma div_mult_add_eq:
  assumes "(x::nat) < d * m" "y < d * m" "0 < d"
  shows "(a * (d * m) + x) div d = (b * (d * m) + y) div d \<longleftrightarrow> a = b \<and> x div d = y div d"
proof -
  have *: "(c * (d * m) + z) div d = c * m + z div d" for c z
  proof -
    have "c * (d * m) + z = z + c * m * d" by (simp add: algebra_simps)
    then show ?thesis using assms(3) by (simp only:) simp
  qed
  have lt: "x div d < m" "y div d < m" using assms by (simp_all add: less_mult_imp_div_less mult.commute)
  have "a = b" if "a * m + x div d = b * m + y div d"
  proof -
    have "(a * m + x div d) div m = a" "(b * m + y div d) div m = b" using lt by simp_all
    with that show ?thesis by metis
  qed
  then show ?thesis unfolding * by auto
qed

lemma masked_prefix_iff:
  "length nn = l \<Longrightarrow> length ip = l \<Longrightarrow> ones \<le> 8 * l \<Longrightarrow>
   list_all (\<lambda>((a, k), b). a AND k = b AND k) (zip (zip nn (cidrMask ones l)) ip) \<longleftrightarrow>
   big_SetBytes nn div 2 ^ (8 * l - ones) = big_SetBytes ip div 2 ^ (8 * l - ones)"
proof (induction ones l arbitrary: nn ip rule: cidrMask.induct)
  case (2 ones l)
  then obtain a as b bs where nn: "nn = a # as" "length as = l" and ip: "ip = b # bs" "length bs = l"
    by (metis length_Suc_conv)
  have exp: "(256::nat) ^ l = 2 ^ (8 * l)" by (simp add: power_mult)
  have less: "big_SetBytes as < 2 ^ (8 * l)" "big_SetBytes bs < 2 ^ (8 * l)"
    using SetBytes_less [of as] SetBytes_less [of bs] nn ip exp by simp_all
  have val: "big_SetBytes nn = unat a * 2 ^ (8 * l) + big_SetBytes as"
    "big_SetBytes ip = unat b * 2 ^ (8 * l) + big_SetBytes bs"
    using nn ip exp by (simp_all add: SetBytes_Cons)
  show ?case
  proof (cases "8 \<le> ones")
    case True
    let ?h = "8 * Suc l - ones"
    have h: "?h \<le> 8 * l" "8 * l - (ones - 8) = ?h" using True "2.prems"(3) by auto
    have split: "(2::nat) ^ (8 * l) = 2 ^ ?h * 2 ^ (8 * l - ?h)"
      using h(1) by (simp flip: power_add)
    have "x AND 255 = x" for x :: "8 word"
    proof -
      have "(255 :: 8 word) = - 1" by simp
      then show ?thesis by (simp only: and.right_neutral)
    qed
    then have "list_all (\<lambda>((a, k), b). a AND k = b AND k) (zip (zip nn (cidrMask ones (Suc l))) ip) \<longleftrightarrow>
      a = b \<and> list_all (\<lambda>((a, k), b). a AND k = b AND k) (zip (zip as (cidrMask (ones - 8) l)) bs)"
      using True nn ip by simp
    also have "\<dots> \<longleftrightarrow> unat a = unat b \<and> big_SetBytes as div 2 ^ ?h = big_SetBytes bs div 2 ^ ?h"
      using "2.IH"(1) [of as bs] True nn ip h "2.prems"(3) by (simp add: word_unat_eq_iff)
    also have "\<dots> \<longleftrightarrow> big_SetBytes nn div 2 ^ ?h = big_SetBytes ip div 2 ^ ?h"
      unfolding val split by (rule div_mult_add_eq [symmetric]) (use less split in simp_all)
    finally show ?thesis .
  next
    case False
    let ?n = "8 - ones"
    have h: "8 * Suc l - ones = 8 * l + ?n" using False by simp
    have div: "(c * 2 ^ (8 * l) + z) div 2 ^ (8 * l + ?n) = c div 2 ^ ?n" if "z < 2 ^ (8 * l)" for c z :: nat
      using that by (simp add: power_add div_mult2_eq)
    have "list_all (\<lambda>((a, k), b). a AND k = b AND k) (zip (zip as (replicate l 0)) bs)"
      by (auto simp: list_all_iff set_zip)
    then have "list_all (\<lambda>((a, k), b). a AND k = b AND k) (zip (zip nn (cidrMask ones (Suc l))) ip) \<longleftrightarrow>
      a AND NOT (mask ?n) = b AND NOT (mask ?n)"
      using False nn ip by (simp add: cidrMask_0)
    also have "\<dots> \<longleftrightarrow> big_SetBytes nn div 2 ^ (8 * Suc l - ones) = big_SetBytes ip div 2 ^ (8 * Suc l - ones)"
      unfolding val h div [OF less(1)] div [OF less(2)] by (rule and_high_mask)
    finally show ?thesis .
  qed
qed simp

section \<open>Canonical networks\<close>

lemma bigForIP_norm: "length ip \<in> {4, 16} \<Longrightarrow> bigForIP ip = big_SetBytes (ip_norm ip)"
  by (auto simp: bigForIP_def ip_norm_def To16_def To4_def split: option.splits)

lemma net_Contains_canonical:
  assumes "canonical_net n ones l"
  shows "net_Contains n ip \<longleftrightarrow> length (ip_norm ip) = l \<and>
    big_SetBytes (ip_norm ip) div 2 ^ (8 * l - ones) = big_SetBytes (net_ip n) div 2 ^ (8 * l - ones)"
proof -
  have "networkNumberAndMask n = Some (net_ip n, cidrMask ones l)"
    using assms by (auto simp: canonical_net_def networkNumberAndMask_def To4_def)
  then have "net_Contains n ip \<longleftrightarrow> length (ip_norm ip) = l \<and>
      list_all (\<lambda>((a, k), b). a AND k = b AND k) (zip (zip (net_ip n) (cidrMask ones l)) (ip_norm ip))"
    using assms by (auto simp: net_Contains_def ip_norm_def canonical_net_def Let_def)
  also have "\<dots> \<longleftrightarrow> length (ip_norm ip) = l \<and>
      big_SetBytes (ip_norm ip) div 2 ^ (8 * l - ones) = big_SetBytes (net_ip n) div 2 ^ (8 * l - ones)"
    using assms masked_prefix_iff [of "net_ip n" l "ip_norm ip" ones]
    by (auto simp: canonical_net_def)
  finally show ?thesis .
qed

lemma bigForIP_canonical: "canonical_net n ones l \<Longrightarrow> bigForIP (net_ip n) = big_SetBytes (net_ip n)"
  by (auto simp: canonical_net_def bigForIP_norm ip_norm_def To4_def)

lemma RangeSize_canonical:
  assumes "canonical_net n ones l"
  shows "RangeSize n = (let h = 8 * l - ones in
    if l = 4 then (if 31 \<le> h then 0 else 2 ^ h)
    else (if 127 \<le> h then 0 else if 16 \<le> h then 65536 else 2 ^ h))"
proof -
  have pw: "sint (push_bit h 1 :: 64 word) = 2 ^ h" if "h \<le> 31" for h
  proof -
    have "(2::int) ^ h < 2 ^ 63" using that by (intro power_strict_increasing) simp_all
    moreover have "push_bit h 1 = (word_of_int (2 ^ h) :: 64 word)" by (simp add: push_bit_eq_mult)
    moreover have "- (2 ^ 63) \<le> (2::int) ^ h" by (rule order_trans [of _ 0]) simp_all
    ultimately show ?thesis by (simp only: sint_word64)
  qed
  show ?thesis
    using assms pw [of "8 * l - ones"]
    by (auto simp: canonical_net_def RangeSize_def mask_Size_cidr Let_def nat_diff_distrib)
qed

text \<open>The usable addresses end before the broadcast address and fit any int.\<close>

lemma r_max_bound:
  assumes "canonical_net n ones l" "0 \<le> k" "k < maximum 0 (RangeSize n - 2)"
  shows "k + 1 < 2 ^ (8 * l - ones) - 1" "k < 2 ^ 31"
proof -
  let ?h = "8 * l - ones"
  have "k + 2 < RangeSize n" using assms by (simp add: maximum_def split: if_splits)
  moreover have "RangeSize n \<le> 2 ^ ?h \<and> RangeSize n \<le> 2 ^ 31"
  proof -
    have "(65536::int) \<le> 2 ^ ?h" if "16 \<le> ?h"
      using power_increasing [OF that, of "2::int"] by simp
    moreover have "(2::int) ^ ?h \<le> 2 ^ 31" if "?h < 31"
      using that by (intro power_increasing) simp_all
    ultimately show ?thesis
      by (cases "l = 4") (simp_all add: RangeSize_canonical [OF assms(1)] Let_def)
  qed
  ultimately show "k + 1 < 2 ^ ?h - 1" "k < 2 ^ 31" by linarith+
qed

lemma SetBytes_hd: "bs \<noteq> [] \<Longrightarrow> hd bs \<noteq> 0 \<Longrightarrow> 256 ^ (length bs - 1) \<le> big_SetBytes bs"
proof (cases bs)
  case (Cons b bs')
  assume "hd bs \<noteq> 0"
  then have "1 \<le> unat b" using Cons by (simp add: Suc_leI unat_gt_0)
  then have "1 * 256 ^ length bs' \<le> unat b * 256 ^ length bs'" by (rule mult_right_mono) simp
  then have "256 ^ length bs' \<le> unat b * 256 ^ length bs' + big_SetBytes bs'"
    by (simp only: mult_1 trans_le_add1)
  then show ?thesis using Cons by (simp add: SetBytes_Cons)
qed simp

lemma canonical_top:
  assumes "canonical_net n ones l" "k < 2 ^ (8 * l - ones)"
  shows "big_SetBytes (net_ip n) + k < 256 ^ l"
    "(big_SetBytes (net_ip n) + k) div 2 ^ (8 * l - ones) = big_SetBytes (net_ip n) div 2 ^ (8 * l - ones)"
proof -
  let ?h = "8 * l - ones"
  obtain q where q: "big_SetBytes (net_ip n) = 2 ^ ?h * q"
    using assms(1) by (auto simp: canonical_net_def)
  have e: "(256::nat) ^ l = 2 ^ ?h * 2 ^ ones"
    using assms(1) by (auto simp: canonical_net_def power_mult [of 2 8, symmetric, simplified] simp flip: power_add)
  have "2 ^ ?h * q < 2 ^ ?h * 2 ^ ones"
    using SetBytes_less [of "net_ip n"] assms(1) e q by (simp add: canonical_net_def)
  then have "Suc q \<le> 2 ^ ones" by simp
  then have "2 ^ ?h * Suc q \<le> 2 ^ ?h * 2 ^ ones" by (rule mult_left_mono) simp
  with assms(2) show "big_SetBytes (net_ip n) + k < 256 ^ l" by (simp add: q e)
  show "(big_SetBytes (net_ip n) + k) div 2 ^ ?h = big_SetBytes (net_ip n) div 2 ^ ?h"
    using assms(2) by (simp add: q)
qed

text \<open>The address at offset \<open>k\<close> of a well-formed range has the network's length and family.\<close>

lemma addIPOffset_bytes:
  assumes "range_wf r" "canonical_net (r_net r) ones l" "0 \<le> k" "k < r_max r"
  shows "length (addIPOffset (r_base r) k) = l" "ip_norm (addIPOffset (r_base r) k) = addIPOffset (r_base r) k"
    "big_SetBytes (addIPOffset (r_base r) k) = big_SetBytes (net_ip (r_net r)) + nat (k + 1)"
    "nat (k + 1) < 2 ^ (8 * l - ones)"
proof -
  let ?v = "big_SetBytes (net_ip (r_net r)) + nat (k + 1)"
  have base: "r_base r = big_SetBytes (net_ip (r_net r)) + 1"
    using assms(1,2) by (simp add: range_wf_def bigForIP_canonical)
  have ip: "addIPOffset (r_base r) k = big_Bytes ?v"
    using assms(3) by (simp add: addIPOffset_def base nat_add_distrib)
  have k: "k + 1 < 2 ^ (8 * l - ones) - 1"
    using r_max_bound(1) [OF assms(2)] assms by (simp add: range_wf_def)
  then have "int (nat (k + 1)) < int (2 ^ (8 * l - ones) - 1)" using assms(3) by (simp add: of_nat_diff)
  then have "nat (k + 1) < 2 ^ (8 * l - ones) - 1" by linarith
  then show nk: "nat (k + 1) < 2 ^ (8 * l - ones)" using diff_le_self less_le_trans by blast
  have l: "0 < l" "length (net_ip (r_net r)) = l" "l \<in> {4, 16}" using assms(2) by (auto simp: canonical_net_def)
  have lo: "256 ^ (l - 1) \<le> ?v"
    using SetBytes_hd [of "net_ip (r_net r)"] assms(1) l by (force simp: range_wf_def)
  have hi: "?v < 256 ^ l" using canonical_top(1) [OF assms(2)] nk by simp
  show len: "length (addIPOffset (r_base r) k) = l"
    using length_Bytes [of "l - 1" ?v] lo hi l ip by simp
  have "hd (big_Bytes ?v) \<noteq> 0" by (rule hd_Bytes) (use assms(3) in simp)
  moreover have "hd ip' = 0" if "take 12 ip' = v4InV6Prefix" for ip'
    using that by (cases ip') (auto simp: v4InV6Prefix_def numeral_eq_Suc)
  ultimately have "take 12 (big_Bytes ?v) \<noteq> v4InV6Prefix" by blast
  then show "ip_norm (addIPOffset (r_base r) k) = addIPOffset (r_base r) k"
    using len l by (auto simp: ip_norm_def To4_def ip)
  show "big_SetBytes (addIPOffset (r_base r) k) = ?v" by (simp add: ip SetBytes_Bytes)
qed

lemma contains_addIPOffset:
  assumes "range_wf r" "0 \<le> k" "k < r_max r"
  shows "contains r (addIPOffset (r_base r) k) = (True, k)"
proof -
  obtain ones l where c: "canonical_net (r_net r) ones l" using assms(1) by (auto simp: range_wf_def)
  note b = addIPOffset_bytes [OF assms(1) c assms(2,3)]
  have "net_Contains (r_net r) (addIPOffset (r_base r) k)"
    using net_Contains_canonical [OF c, of "addIPOffset (r_base r) k"] b canonical_top(2) [OF c] by simp
  moreover have "calculateIPOffset (r_base r) (addIPOffset (r_base r) k) = k"
  proof -
    have "length (addIPOffset (r_base r) k) \<in> {4, 16}" using b(1) c by (simp add: canonical_net_def)
    then have "bigForIP (addIPOffset (r_base r) k) = big_SetBytes (net_ip (r_net r)) + nat (k + 1)"
      by (simp add: bigForIP_norm b)
    moreover have "k < 2 ^ 31" using r_max_bound(2) [OF c] assms by (simp add: range_wf_def)
    ultimately show ?thesis
      using assms c by (simp add: calculateIPOffset_def range_wf_def bigForIP_canonical sint_word64)
  qed
  ultimately show ?thesis using assms by (simp add: contains_def Let_def)
qed

section \<open>The range over any allocator\<close>

text \<open>The addresses a range has handed out: those at the allocated offsets.\<close>

context allocator_interface
begin

lemma range_Has_offset:
  assumes "range_wf r" "0 \<le> k" "k < r_max r"
  shows "range_Has ops r (addIPOffset (r_base r) k) = Ret (k \<in> items (r_alloc r))"
  using assms by (simp add: range_Has_def contains_addIPOffset Has_law)

lemma range_AllocateNext_fresh:
  assumes "range_wf r" "good (r_alloc r)" "cap (r_alloc r) = r_max r" "items (r_alloc r) \<noteq> {0..<r_max r}"
  shows "\<exists>a k. range_AllocateNext ops draw r = Ret (r\<lparr>r_alloc := a\<rparr>, Inr (addIPOffset (r_base r) k)) \<and>
    0 \<le> k \<and> k < r_max r \<and> k \<notin> items (r_alloc r) \<and> items a = insert k (items (r_alloc r)) \<and>
    good a \<and> cap a = r_max r"
proof -
  obtain a k where "op_AllocateNext ops draw (r_alloc r) = Ret (a, k, True, None)" "good a" "0 \<le> k" "k < r_max r"
      "k \<notin> items (r_alloc r)" "items a = insert k (items (r_alloc r))" "cap a = r_max r"
    using Next_law [of "r_alloc r" draw] assms by metis
  then show ?thesis by (intro exI [of _ a] exI [of _ k]) (simp add: range_AllocateNext_def)
qed

lemma range_AllocateNext_full:
  assumes "good (r_alloc r)" "cap (r_alloc r) = r_max r" "items (r_alloc r) = {0..<r_max r}"
  shows "range_AllocateNext ops draw r = Ret (r, Inl ErrFull)"
  using Next_full_law [of "r_alloc r" draw] assms by (simp add: range_AllocateNext_def)

lemma range_Allocate_cases:
  assumes "good (r_alloc r)" "cap (r_alloc r) = r_max r"
  shows "case contains r ip of
      (False, _) \<Rightarrow> range_Allocate netString ops r ip = Ret (r, Some (ErrNotInRange (netString (r_net r))))
    | (True, k) \<Rightarrow> \<exists>a. range_Allocate netString ops r ip =
          Ret (r\<lparr>r_alloc := a\<rparr>, if k \<in> items (r_alloc r) then Some ErrAllocated else None) \<and>
        good a \<and> cap a = r_max r \<and> items a = insert k (items (r_alloc r))"
proof (cases "contains r ip")
  case (Pair ok k)
  show ?thesis
  proof (cases ok)
    case True
    with Pair have "0 \<le> k" "k < r_max r" by (auto simp: contains_def Let_def split: if_splits)
    with Allocate_law [of "r_alloc r" k] assms obtain a where
      "op_Allocate ops (r_alloc r) k = Ret (a, k \<notin> items (r_alloc r), None)" "good a"
      "items a = insert k (items (r_alloc r))" "cap a = r_max r" by auto
    with True Pair show ?thesis by (auto simp: range_Allocate_def intro!: exI [of _ a])
  qed (simp add: Pair range_Allocate_def)
qed

lemma range_Release_cases:
  assumes "good (r_alloc r)" "cap (r_alloc r) = r_max r"
  shows "case contains r ip of
      (False, _) \<Rightarrow> range_Release ops r ip = Ret (r, None)
    | (True, k) \<Rightarrow> \<exists>a. range_Release ops r ip = Ret (r\<lparr>r_alloc := a\<rparr>, None) \<and>
        good a \<and> cap a = r_max r \<and> items a = items (r_alloc r) - {k}"
proof (cases "contains r ip")
  case (Pair ok k)
  show ?thesis
  proof (cases ok)
    case True
    with Pair have "0 \<le> k" by (auto simp: contains_def Let_def split: if_splits)
    with Release_law [of "r_alloc r" k] assms True Pair show ?thesis
      by (auto simp: range_Release_def)
  qed (simp add: Pair range_Release_def)
qed

lemma range_Free_Used:
  assumes "good (r_alloc r)" "cap (r_alloc r) = r_max r"
  shows "range_Used ops r = int (card (items (r_alloc r)))" "range_Free ops r + range_Used ops r = r_max r"
  using assms by (simp_all add: range_Used_def range_Free_def Free_law)

lemma range_ForEach_map:
  assumes "range_wf r" "good (r_alloc r)" "cap (r_alloc r) = r_max r"
  shows "range_ForEach ops r = map (addIPOffset (r_base r)) (sorted_list_of_set (items (r_alloc r)))"
proof -
  have fin: "finite (items (r_alloc r))"
    using items_range [OF assms(2)] by (rule finite_subset) simp
  have "(case GetIndexedIP (r_net r) (k + 1) of Inl _ \<Rightarrow> [] | Inr ip \<Rightarrow> ip) = addIPOffset (r_base r) k"
    if "k \<in> items (r_alloc r)" for k
  proof -
    have k: "0 \<le> k" "k < r_max r" using items_range [OF assms(2)] assms(3) that by auto
    have eq: "addIPOffset (bigForIP (net_ip (r_net r))) (k + 1) = addIPOffset (r_base r) k"
      using assms(1) by (simp add: addIPOffset_def range_wf_def algebra_simps)
    have "net_Contains (r_net r) (addIPOffset (r_base r) k)"
      using contains_addIPOffset [OF assms(1) k] by (simp add: contains_def split: if_splits)
    with eq show ?thesis by (simp add: GetIndexedIP_def)
  qed
  with fin show ?thesis by (simp add: range_ForEach_def ForEach_law assms)
qed

end

section \<open>Properties\<close>

lemmas range_eval = contains_def net_Contains_def networkNumberAndMask_def NewCIDRRange_def
  NewAllocatorCIDRRange_def RangeSize_def mask_Size_def calculateIPOffset_def bigForIP_def To4_def
  To16_def big_SetBytes_def maximum_def v4InV6Prefix_def example_net_def wide_net_def

lemma contains_r_alloc [simp]: "contains (r\<lparr>r_alloc := a\<rparr>) ip = contains r ip"
  by (simp add: contains_def)

lemma mask_bytes [simp]: "maskByteOnes 8 252 = (6, 0)" "maskByteOnes 8 0 = (0, 0)"
  by code_simp+

lemma range_goodD:
  "range_good r \<Longrightarrow> range_wf r \<and> (bm_inv (r_alloc r) \<and> bm_in_range (r_alloc r)) \<and> bm_max (r_alloc r) = r_max r"
  by (simp add: range_good_def)

lemma new_range_offsets: "offsets (r_alloc (NewCIDRRange netString n)) = {}"
  by (simp add: offsets_def NewAllocationMap_def NewCIDRRange_def NewAllocatorCIDRRange_def Let_def)

lemma new_range_good:
  assumes "canonical_net n ones l" "hd (net_ip n) \<noteq> 0"
  shows "range_good (NewCIDRRange netString n)"
  using assms new_range_offsets [of netString n]
  by (auto simp: range_good_def range_wf_def NewCIDRRange_def NewAllocatorCIDRRange_def Let_def
      bm_inv_offsets bm_in_range_def NewAllocationMap_def)

lemma new_range_Free: "range_Free bitmap_ops (NewCIDRRange netString n) = maximum 0 (RangeSize n - 2)"
  by (simp add: range_Free_def bitmap_ops_def Free_def NewCIDRRange_def NewAllocatorCIDRRange_def
      NewAllocationMap_def Let_def)

text \<open>
  NewCIDRRange over a CIDR as net.ParseCIDR yields it builds a good range in which no address
  is allocated and every usable address is free.
\<close>

theorem NewCIDRRange_good:
  assumes "canonical_net n ones l" "hd (net_ip n) \<noteq> 0"
  shows "range_good (NewCIDRRange netString n) \<and>
    range_Free bitmap_ops (NewCIDRRange netString n) = maximum 0 (RangeSize n - 2) \<and>
    range_ForEach bitmap_ops (NewCIDRRange netString n) = []"
  using new_range_good [OF assms, of netString] new_range_offsets [of netString n]
    bitmap.range_ForEach_map [of "NewCIDRRange netString n"] bitmap.range_Free_Used [of "NewCIDRRange netString n"]
    range_goodD [of "NewCIDRRange netString n"]
  by (auto simp: NewCIDRRange_def NewAllocatorCIDRRange_def Let_def)

text \<open>
  AllocateNext of a good range returns an address of the CIDR that the range did not have
  before and has afterwards, strictly between the network address and the end of the range, and
  lowers Free by one; when every usable address is taken it returns ErrFull and changes nothing.
\<close>

theorem range_AllocateNext_correct:
  assumes "range_good r"
  shows "if 0 < range_Free bitmap_ops r
    then \<exists>r' ip. range_AllocateNext bitmap_ops draw r = Ret (r', Inr ip) \<and> range_good r' \<and>
      net_Contains (r_net r) ip \<and> bigForIP (net_ip (r_net r)) < bigForIP ip \<and>
      int (bigForIP ip) < int (bigForIP (net_ip (r_net r))) + RangeSize (r_net r) - 1 \<and>
      range_Has bitmap_ops r ip = Ret False \<and> range_Has bitmap_ops r' ip = Ret True \<and>
      range_Free bitmap_ops r' = range_Free bitmap_ops r - 1
    else range_AllocateNext bitmap_ops draw r = Ret (r, Inl ErrFull)"
proof -
  note g = range_goodD [OF assms]
  then have room: "0 < range_Free bitmap_ops r \<longleftrightarrow> offsets (r_alloc r) \<noteq> {0..<r_max r}"
    using full_iff [of "r_alloc r"] by (auto simp: range_Free_def bitmap_ops_def Free_def)
  show ?thesis
  proof (cases "0 < range_Free bitmap_ops r")
    case True
    with room g obtain a k where ak: "range_AllocateNext bitmap_ops draw r = Ret (r\<lparr>r_alloc := a\<rparr>, Inr (addIPOffset (r_base r) k))"
      "0 \<le> k" "k < r_max r" "k \<notin> offsets (r_alloc r)" "offsets a = insert k (offsets (r_alloc r))"
      "bm_inv a \<and> bm_in_range a" "bm_max a = r_max r"
      using bitmap.range_AllocateNext_fresh [of r draw] by blast
    let ?r' = "r\<lparr>r_alloc := a\<rparr>" and ?ip = "addIPOffset (r_base r) k"
    have wf': "range_wf ?r'" using g by (simp add: range_wf_def)
    have c: "contains r ?ip = (True, k)" using contains_addIPOffset g ak by blast
    obtain ones l where net: "canonical_net (r_net r) ones l" using g by (auto simp: range_wf_def)
    have "length ?ip \<in> {4, 16}"
      using addIPOffset_bytes(1) [OF _ net, of k] g ak net by (simp add: canonical_net_def)
    then have val: "bigForIP ?ip = bigForIP (net_ip (r_net r)) + nat (k + 1)"
      using addIPOffset_bytes(2,3) [OF _ net, of k] g ak
      by (simp add: bigForIP_norm bigForIP_canonical [OF net])
    have "k + 1 < RangeSize (r_net r) - 1"
      using ak g by (auto simp: range_wf_def maximum_def split: if_splits)
    moreover have "range_Has bitmap_ops r ?ip = Ret False"
      using bitmap.range_Has_offset [of r k] g ak by simp
    moreover have "range_Has bitmap_ops ?r' ?ip = Ret True"
      using bitmap.range_Has_offset [OF wf', of k] ak by simp
    moreover have "range_Free bitmap_ops ?r' = range_Free bitmap_ops r - 1"
      using g ak by (simp add: range_Free_def bitmap_ops_def Free_def bm_inv_offsets)
    moreover have "net_Contains (r_net r) ?ip" using c by (simp add: contains_def split: if_splits)
    ultimately show ?thesis
      using True ak wf' val by (auto simp: range_good_def)
  next
    case False
    with room g bitmap.range_AllocateNext_full [of r draw] show ?thesis by simp
  qed
qed


lemma example_mask: "cidrMask 30 4 = [255, 255, 255, 252]"
  by code_simp

lemma example_canonical: "canonical_net example_net 30 4"
  by (simp add: canonical_net_def example_net_def big_SetBytes_def example_mask)

theorem NewCIDRRange_good_witness:
  "range_Free bitmap_ops (NewCIDRRange (\<lambda>_. ''10.0.0.0/30'') example_net) = 2"
proof -
  have "RangeSize example_net = 4"
    by (simp add: RangeSize_canonical [OF example_canonical])
  moreover have "hd (net_ip example_net) \<noteq> 0" by (simp add: example_net_def)
  ultimately show ?thesis
    using NewCIDRRange_good [OF example_canonical] by (simp add: maximum_def)
qed


theorem range_AllocateNext_correct_witness:
  "\<exists>r' ip. range_AllocateNext bitmap_ops 5 (NewCIDRRange (\<lambda>_. ''10.0.0.0/30'') example_net) = Ret (r', Inr ip) \<and>
     range_Has bitmap_ops r' ip = Ret True"
proof -
  let ?r = "NewCIDRRange (\<lambda>_. ''10.0.0.0/30'') example_net"
  have g: "range_good ?r"
    by (rule new_range_good [OF example_canonical]) (simp add: example_net_def)
  have "0 < range_Free bitmap_ops ?r"
    by (simp add: new_range_Free maximum_def RangeSize_canonical [OF example_canonical])
  then show ?thesis using range_AllocateNext_correct [OF g, of 5] by auto
qed

text \<open>
  Allocate of a good range, on every branch: an address outside the usable part of the CIDR
  is refused with ErrNotInRange and nothing changes; a taken address is refused with ErrAllocated
  and nothing changes; a free one is taken, the range stays good and no other address is touched.
\<close>

theorem range_Allocate_correct:
  assumes "range_good r"
  shows "case contains r ip of
      (False, _) \<Rightarrow> range_Allocate netString bitmap_ops r ip = Ret (r, Some (ErrNotInRange (netString (r_net r))))
    | (True, k) \<Rightarrow>
        (if range_Has bitmap_ops r ip = Ret True
         then \<exists>r'. range_Allocate netString bitmap_ops r ip = Ret (r', Some ErrAllocated) \<and>
           offsets (r_alloc r') = offsets (r_alloc r)
         else \<exists>r'. range_Allocate netString bitmap_ops r ip = Ret (r', None) \<and> range_good r' \<and>
           range_Has bitmap_ops r' ip = Ret True \<and>
           offsets (r_alloc r') = insert k (offsets (r_alloc r)))"
proof (cases "contains r ip")
  case (Pair ok k)
  note g = range_goodD [OF assms]
  show ?thesis
  proof (cases ok)
    case True
    then have k: "contains r ip = (True, k)" "0 \<le> k" using Pair by (auto simp: contains_def Let_def split: if_splits)
    with g obtain a where a: "range_Allocate netString bitmap_ops r ip =
        Ret (r\<lparr>r_alloc := a\<rparr>, if k \<in> offsets (r_alloc r) then Some ErrAllocated else None)"
      "bm_inv a \<and> bm_in_range a" "bm_max a = r_max r" "offsets a = insert k (offsets (r_alloc r))"
      using bitmap.range_Allocate_cases [where r = r and ip = ip and netString = netString] by auto
    have has: "range_Has bitmap_ops r ip = Ret (k \<in> offsets (r_alloc r))"
      using k bitmap.Has_law by (simp add: range_Has_def)
    have "range_Has bitmap_ops (r\<lparr>r_alloc := a\<rparr>) ip = Ret True"
      using k a bitmap.Has_law by (simp add: range_Has_def)
    moreover have "range_good (r\<lparr>r_alloc := a\<rparr>)" using g a by (simp add: range_good_def range_wf_def)
    ultimately show ?thesis
      using a k has by (auto simp: insert_absorb)
  next
    case False
    with Pair g show ?thesis
      using bitmap.range_Allocate_cases [where r = r and ip = ip and netString = netString] by simp
  qed
qed

theorem range_Allocate_correct_witness:
  "range_Allocate (\<lambda>_. ''10.0.0.0/30'') bitmap_ops (NewCIDRRange (\<lambda>_. ''10.0.0.0/30'') example_net) [10, 0, 0, 3]
     = Ret (NewCIDRRange (\<lambda>_. ''10.0.0.0/30'') example_net, Some (ErrNotInRange ''10.0.0.0/30''))"
proof -
  let ?r = "NewCIDRRange (\<lambda>_. ''10.0.0.0/30'') example_net"
  have g: "range_good ?r"
    by (rule new_range_good [OF example_canonical]) (simp add: example_net_def)
  have "contains ?r [10, 0, 0, 3] = (False, 0)" by (simp add: range_eval)
  then show ?thesis
    using range_Allocate_correct [OF g, of "[10, 0, 0, 3]" "\<lambda>_. ''10.0.0.0/30''"] by simp
qed

text \<open>
  On IPv4, and on IPv6 with at most 63 host bits, contains accepts an address exactly as the
  comment says: the offset is the distance from the range's first usable address.
\<close>

theorem contains_exact:
  assumes "range_wf r" "canonical_net (r_net r) ones l" "8 * l - ones \<le> 63" "contains r ip = (True, k)"
  shows "int (bigForIP ip) = int (r_base r) + k \<and> 0 \<le> k \<and> k < r_max r"
proof -
  let ?h = "8 * l - ones" and ?b = "big_SetBytes (net_ip (r_net r))"
  have c: "net_Contains (r_net r) ip" "k = calculateIPOffset (r_base r) ip" "0 \<le> k" "k < r_max r"
    using assms(4) by (auto simp: contains_def Let_def split: if_splits)
  then have len: "length (ip_norm ip) = l" and q: "big_SetBytes (ip_norm ip) div 2 ^ ?h = ?b div 2 ^ ?h"
    using net_Contains_canonical [OF assms(2)] by auto
  have "length ip \<in> {4, 16}"
    using len assms(2) by (auto simp: canonical_net_def ip_norm_def To4_def split: option.splits if_splits)
  then have v: "bigForIP ip = big_SetBytes (ip_norm ip)" by (rule bigForIP_norm)
  have dvd: "2 ^ ?h * (?b div 2 ^ ?h) = ?b" using assms(2) by (simp add: canonical_net_def)
  have lo: "?b \<le> bigForIP ip" using q dvd v by (metis times_div_less_eq_dividend)
  have "bigForIP ip < 2 ^ ?h * Suc (bigForIP ip div 2 ^ ?h)" by (simp add: dividend_less_times_div)
  also have "\<dots> = ?b + 2 ^ ?h" using q dvd v by simp
  also have "\<dots> \<le> ?b + 2 ^ 63" using assms(3) by (intro add_left_mono power_increasing) simp_all
  finally have "bigForIP ip < ?b + 2 ^ 63" .
  then have "int (bigForIP ip) - int (r_base r) < 2 ^ 63" "- (2 ^ 63) \<le> int (bigForIP ip) - int (r_base r)"
    using lo assms(1,2) by (simp_all add: range_wf_def bigForIP_canonical)
  then have "calculateIPOffset (r_base r) ip = int (bigForIP ip) - int (r_base r)"
    unfolding calculateIPOffset_def by (intro sint_word64)
  with c show ?thesis by simp
qed

theorem contains_exact_witness:
  "contains (NewCIDRRange (\<lambda>_. ''s'') example_net) [10, 0, 0, 2] = (True, 1) \<and>
   int (bigForIP [10, 0, 0, 2]) = int (r_base (NewCIDRRange (\<lambda>_. ''s'') example_net)) + 1"
proof -
  let ?r = "NewCIDRRange (\<lambda>_. ''s'') example_net"
  have "range_good ?r"
    by (rule new_range_good [OF example_canonical]) (simp add: example_net_def)
  then have wf: "range_wf ?r" by (simp add: range_good_def)
  have n: "r_net ?r = example_net" by (simp add: NewCIDRRange_def NewAllocatorCIDRRange_def Let_def)
  have c: "contains ?r [10, 0, 0, 2] = (True, 1)" by (simp add: range_eval)
  show ?thesis using contains_exact [OF wf, of 30 4] n example_canonical c by simp
qed

lemma byte_runs:
  "replicate 12 (x::8 word) = [x, x, x, x, x, x, x, x, x, x, x, x]"
  "replicate 11 (x::8 word) = [x, x, x, x, x, x, x, x, x, x, x]"
  "replicate 10 (x::8 word) = [x, x, x, x, x, x, x, x, x, x]"
  "replicate 7 (x::8 word) = [x, x, x, x, x, x, x]"
  "replicate 4 (x::8 word) = [x, x, x, x]"
  by (simp_all add: numeral_eq_Suc)

lemma wide_values:
  "big_SetBytes ([32, 1, 13, 184] @ replicate 12 0) = 42540766411282592856903984951653826560"
  "big_SetBytes ([32, 1, 13, 184, 0, 0, 0, 1] @ replicate 7 0 @ [1]) = 42540766411282592875350729025363378177"
  "big_SetBytes ([32, 1, 13, 184] @ replicate 11 0 @ [1]) = 42540766411282592856903984951653826561"
  unfolding byte_runs by (simp_all add: big_SetBytes_def)

lemma wide_mask: "cidrMask 32 16 = replicate 4 255 @ replicate 12 0"
  by code_simp

lemma wide_norm:
  "To4 ([32, 1, 13, 184] @ replicate 12 0) = None"
  "To4 ([32, 1, 13, 184, 0, 0, 0, 1] @ replicate 7 0 @ [1]) = None"
  "To4 ([32, 1, 13, 184] @ replicate 11 0 @ [1]) = None"
  unfolding byte_runs by (simp_all add: To4_def v4InV6Prefix_def byte_runs)

lemma wide_canonical: "canonical_net wide_net 32 16"
  unfolding canonical_net_def wide_net_def IPNet.simps wide_mask wide_norm wide_values by simp

lemma wide_range:
  "r_net (NewCIDRRange netString wide_net) = wide_net"
  "r_base (NewCIDRRange netString wide_net) = 42540766411282592856903984951653826561"
  "r_max (NewCIDRRange netString wide_net) = 65534"
proof -
  have "bigForIP (net_ip wide_net) = 42540766411282592856903984951653826560"
    using bigForIP_canonical [OF wide_canonical] by (simp only: wide_net_def IPNet.simps wide_values)
  then show "r_net (NewCIDRRange netString wide_net) = wide_net"
    "r_base (NewCIDRRange netString wide_net) = 42540766411282592856903984951653826561"
    "r_max (NewCIDRRange netString wide_net) = 65534"
    by (simp_all add: NewCIDRRange_def NewAllocatorCIDRRange_def Let_def maximum_def
        RangeSize_canonical [OF wide_canonical])
qed

lemma wide_contains:
  assumes "length ip = 16" "To4 ip = None"
    "big_SetBytes ip div 2 ^ 96 = 42540766411282592856903984951653826560 div 2 ^ 96"
  shows "net_Contains wide_net ip" "bigForIP ip = big_SetBytes ip"
proof -
  have "ip_norm ip = ip" using assms by (simp add: ip_norm_def)
  moreover have "big_SetBytes (net_ip wide_net) = 42540766411282592856903984951653826560"
    by (simp only: wide_net_def IPNet.simps wide_values)
  ultimately show "net_Contains wide_net ip" "bigForIP ip = big_SetBytes ip"
    using net_Contains_canonical [OF wide_canonical, of ip] bigForIP_norm [of ip] assms by simp_all
qed

text \<open>
  On a wider IPv6 network the offset is only the low 64 bits of the distance, so contains
  accepts addresses outside the usable window and identifies them with addresses inside it: in
  2001:db8::/32 the address 2001:db8:0:1::1 gets offset 0, which is the offset of 2001:db8::1.
\<close>

theorem contains_wraps_on_wide_ipv6:
  "contains (NewCIDRRange netString wide_net) ([32, 1, 13, 184, 0, 0, 0, 1] @ replicate 7 0 @ [1]) = (True, 0) \<and>
   contains (NewCIDRRange netString wide_net) ([32, 1, 13, 184] @ replicate 11 0 @ [1]) = (True, 0) \<and>
   r_max (NewCIDRRange netString wide_net) = 65534 \<and>
   int (bigForIP ([32, 1, 13, 184, 0, 0, 0, 1] @ replicate 7 0 @ [1])) -
     int (r_base (NewCIDRRange netString wide_net)) = 2 ^ 64"
proof -
  let ?a = "[32, 1, 13, 184, 0, 0, 0, 1] @ replicate 7 0 @ [1] :: net_IP"
  let ?b = "[32, 1, 13, 184] @ replicate 11 0 @ [1] :: net_IP"
  have "big_SetBytes ?a div 2 ^ 96 = 42540766411282592856903984951653826560 div 2 ^ 96" by (simp only: wide_values) simp
  then have a: "net_Contains wide_net ?a" "bigForIP ?a = big_SetBytes ?a"
    using wide_contains [OF _ wide_norm(2)] by (simp_all add: wide_values)
  have "big_SetBytes ?b div 2 ^ 96 = 42540766411282592856903984951653826560 div 2 ^ 96" by (simp only: wide_values) simp
  then have b: "net_Contains wide_net ?b" "bigForIP ?b = big_SetBytes ?b"
    using wide_contains [OF _ wide_norm(3)] by (simp_all add: wide_values)
  show ?thesis
    unfolding contains_def calculateIPOffset_def wide_range wide_values a(2) b(2)
    using a(1) b(1) by simp
qed

end
