(* ===== verification/Float64.thy ===== *)
theory Float64
  imports Complex_Main "HOL-Library.Log_Nat" Prelude
begin

text \<open>
  Go's \<open>float64\<close>, as far as the health check and the vote use it: conversion from \<open>int\<close>,
  addition, multiplication, division by two and \<open>>=\<close>. A finite value is the rational number it
  stands for (the two zeros, which those operations cannot tell apart, are one), and every
  operation is the exact one followed by rounding to nearest, ties to even, with a 53-bit
  significand and gradual underflow.
\<close>

datatype float64 = NaN | Inf bool | Fin rat

text \<open>The position of the leading bit of a positive rational number.\<close>

definition lead :: "rat \<Rightarrow> int" where
  "lead x =
     (let (p, q) = quotient_of x; l = int (floorlog 2 (nat p)) - int (floorlog 2 (nat q))
      in if 2 powi l \<le> x then l else l - 1)"

definition half_even :: "rat \<Rightarrow> int" where
  "half_even x =
     (let f = \<lfloor>x\<rfloor>; r = x - of_int f
      in if r < 1 / 2 then f else if r > 1 / 2 then f + 1 else if even f then f else f + 1)"

definition rnd64 :: "rat \<Rightarrow> float64" where
  "rnd64 x =
     (if x = 0 then Fin 0
      else (let e = max (- 1074) (lead \<bar>x\<bar> - 52);
                y = of_int (half_even (x * 2 powi (- e))) * 2 powi e
            in if \<bar>y\<bar> \<ge> 2 ^ 1024 then Inf (y > 0) else Fin y))"

definition f_of_int :: "int \<Rightarrow> float64" where
  "f_of_int n = rnd64 (of_int n)"

fun f_add :: "float64 \<Rightarrow> float64 \<Rightarrow> float64" where
  "f_add (Fin x) (Fin y) = rnd64 (x + y)"
| "f_add (Inf s) (Inf t) = (if s = t then Inf s else NaN)"
| "f_add (Inf s) (Fin y) = Inf s"
| "f_add (Fin x) (Inf t) = Inf t"
| "f_add _ _ = NaN"

fun f_mul :: "float64 \<Rightarrow> float64 \<Rightarrow> float64" where
  "f_mul (Fin x) (Fin y) = rnd64 (x * y)"
| "f_mul (Inf s) (Inf t) = Inf (s = t)"
| "f_mul (Inf s) (Fin y) = (if y = 0 then NaN else Inf (s = (y > 0)))"
| "f_mul (Fin x) (Inf t) = (if x = 0 then NaN else Inf (t = (x > 0)))"
| "f_mul _ _ = NaN"

fun f_half :: "float64 \<Rightarrow> float64" where
  "f_half (Fin x) = rnd64 (x / 2)"
| "f_half v = v"

fun f_ge :: "float64 \<Rightarrow> float64 \<Rightarrow> bool" where
  "f_ge (Fin x) (Fin y) = (x \<ge> y)"
| "f_ge (Inf s) (Inf t) = (s \<or> \<not> t)"
| "f_ge (Inf s) (Fin y) = s"
| "f_ge (Fin x) (Inf t) = (\<not> t)"
| "f_ge _ _ = False"

section \<open>Exact results\<close>

lemma lead_le: assumes "x > 0" shows "2 powi lead x \<le> x"
proof -
  obtain p q where pq: "quotient_of x = (p, q)" by fastforce
  then have q: "q > 0" and x: "x = of_int p / of_int q"
    using quotient_of_denom_pos quotient_of_div by blast+
  then have p: "p > 0" using assms by (simp add: zero_less_divide_iff)
  let ?a = "floorlog 2 (nat p)" and ?b = "floorlog 2 (nat q)"
  have "2 ^ (?a - 1) \<le> nat p" "?a \<noteq> 0"
    using floorlog_bounds [of "nat p" 2] p by (auto simp: floorlog_eq_zero_iff)
  moreover have "nat q \<le> 2 ^ ?b" using floorlog_bounds [of "nat q" 2] q by auto
  ultimately have a: "(2::rat) ^ (?a - 1) \<le> of_int p" and b: "of_int q \<le> (2::rat) ^ ?b"
    using p q by (metis (no_types, opaque_lifting) int_nat_eq of_int_of_nat_eq of_nat_le_iff of_nat_numeral of_nat_power order_less_imp_le)+
  have "(2::rat) powi (int ?a - int ?b - 1) = 2 ^ (?a - 1) / 2 ^ ?b"
    using \<open>?a \<noteq> 0\<close> by (simp add: power_int_diff power_int_of_nat power_diff)
  also have "\<dots> \<le> of_int p / of_int q"
    using a b p q by (intro frac_le) auto
  finally have "2 powi (int ?a - int ?b - 1) \<le> x" using x by simp
  then show ?thesis by (simp add: lead_def pq Let_def)
qed

lemma half_even_of_int [simp]: "half_even (of_int n) = n"
  by (simp add: half_even_def)

text \<open>
  A number with a significand of at most 53 bits and an exponent in range is represented
  exactly; rounding does not change it.
\<close>

lemma rnd64_exact:
  assumes k: "\<bar>k\<bar> < 2 ^ 53" and j: "- 1074 \<le> j" "j \<le> 900"
  shows "rnd64 (of_int k * 2 powi j) = Fin (of_int k * 2 powi j)"
proof (cases "k = 0")
  case False
  let ?x = "of_int k * 2 powi j :: rat"
  define e where "e = max (- 1074) (lead \<bar>?x\<bar> - 52)"
  have k': "(of_int \<bar>k\<bar> :: rat) < 2 ^ 53"
    using k by (metis of_int_less_iff of_int_numeral of_int_power)
  have "(2::rat) powi lead \<bar>?x\<bar> \<le> \<bar>?x\<bar>" by (rule lead_le) (simp add: False)
  also have "\<dots> = of_int \<bar>k\<bar> * 2 powi j" by (simp add: abs_mult)
  also have "\<dots> < 2 ^ 53 * 2 powi j" using k' by (intro mult_strict_right_mono) auto
  also have "\<dots> = 2 powi (53 + j)" by (simp add: power_int_add)
  finally have "lead \<bar>?x\<bar> < 53 + j"
    by (metis not_less one_le_numeral power_int_increasing)
  then have e: "e \<le> j" using j by (simp add: e_def)
  have "?x * 2 powi (- e) = of_int k * 2 powi (j - e)"
    by (simp add: mult.assoc flip: power_int_add)
  also have "\<dots> = of_int (k * 2 ^ nat (j - e))"
    using e by (simp add: power_int_def)
  finally have 1: "half_even (?x * 2 powi (- e)) = k * 2 ^ nat (j - e)"
    by (metis half_even_of_int)
  have "(of_int (k * 2 ^ nat (j - e)) :: rat) * 2 powi e = of_int k * (2 powi (j - e) * 2 powi e)"
    using e by (simp add: power_int_def)
  also have "\<dots> = ?x" by (simp flip: power_int_add)
  finally have 2: "of_int (half_even (?x * 2 powi (- e))) * 2 powi e = ?x" unfolding 1 .
  have "\<bar>?x\<bar> = of_int \<bar>k\<bar> * 2 powi j" by (simp add: abs_mult)
  also have "\<dots> < 2 ^ 53 * 2 powi j" using k' by (intro mult_strict_right_mono) auto
  also have "\<dots> \<le> 2 ^ 53 * 2 powi 900" using j by (intro mult_left_mono power_int_increasing) auto
  also have "\<dots> \<le> 2 ^ 1024"
    by (simp add: power_int_def flip: power_add)
  finally have 3: "\<bar>?x\<bar> < 2 ^ 1024" .
  have 4: "?x \<noteq> 0" using False by simp
  show ?thesis
    using 3 4 unfolding rnd64_def Let_def e_def [symmetric] 2 by (auto simp del: mult_eq_0_iff)
qed (simp add: rnd64_def)

lemma rnd64_int: "\<bar>k\<bar> < 2 ^ 53 \<Longrightarrow> rnd64 (of_int k) = Fin (of_int k)"
  using rnd64_exact [of k 0] by simp

lemma rnd64_half: "\<bar>k\<bar> < 2 ^ 53 \<Longrightarrow> rnd64 (of_int k / 2) = Fin (of_int k / 2)"
  using rnd64_exact [of k "- 1"] by (simp add: power_int_minus field_simps)

lemma f_of_int_exact: "\<bar>k\<bar> < 2 ^ 53 \<Longrightarrow> f_of_int k = Fin (of_int k)"
  by (simp add: f_of_int_def rnd64_int)

lemma f_add_int: "\<bar>a + b\<bar> < 2 ^ 53 \<Longrightarrow> f_add (Fin (of_int a)) (Fin (of_int b)) = Fin (of_int (a + b))"
  using rnd64_int [of "a + b"] by simp

lemma f_mul_int: "\<bar>a * b\<bar> < 2 ^ 53 \<Longrightarrow> f_mul (Fin (of_int a)) (Fin (of_int b)) = Fin (of_int (a * b))"
  using rnd64_int [of "a * b"] by simp

end
