(* ===== verification/HealthData.thy ===== *)
theory HealthData
  imports Prelude Float64
begin

text \<open>
  The shared state of edge-health (\<open>src/pkg/edge-health/data\<close>): the results that the checkers
  report about each other (\<open>resultdata.go\<close>), the scores of the local checks
  (\<open>checkinfodata.go\<close>), the list of nodes to check (\<open>nodemeta_listdata.go\<close>) and the list of config
  maps (\<open>configmapdata.go\<close>). Every method holds the mutex of its structure for its whole body, so
  each is one atomic state change; the package-level variables are arguments and results here.

  The inner maps of a result table may be \<open>nil\<close> (a row received without details), which is
  \<open>None\<close>; a nil map reads as empty and panics when it is assigned to.
\<close>

section \<open>resultdata.go, communicatedata.go\<close>

record ResultDetail =
  Normal :: bool
  rd_Hmac :: string
  Time :: int

type_synonym result_row = "(string, ResultDetail) gomap option"

type_synonym ResultData = "(string, result_row) gomap"

record CommunicateData =
  SourceIP :: string
  cd_ResultDetail :: result_row
  cd_Hmac :: string

definition NewResultData :: ResultData where
  "NewResultData = []"

text \<open>The entries a \<open>range\<close> over a row visits; none for a nil row.\<close>

definition row_entries :: "result_row \<Rightarrow> (string, ResultDetail) gomap" where
  "row_entries row = (case row of None \<Rightarrow> [] | Some m \<Rightarrow> m)"

definition result_row :: "ResultData \<Rightarrow> string \<Rightarrow> result_row" where
  "result_row r ip = mget0 None r ip"

text \<open>\<open>timestamp\<close> is \<open>time.Now().UTC().Unix()\<close>.\<close>

definition SetResult :: "int \<Rightarrow> CommunicateData \<Rightarrow> ResultData \<Rightarrow> ResultData" where
  "SetResult timestamp c r =
     (let r1 = (if mhas r (SourceIP c) then r else mput (SourceIP c) (Some []) r);
          details = map_option (map (\<lambda>(k, v). (k, v\<lparr>Time := timestamp\<rparr>))) (cd_ResultDetail c)
      in mput (SourceIP c) details r1)"

definition SetResultFromCheckInfo :: "string \<Rightarrow> string \<Rightarrow> ResultDetail \<Rightarrow> ResultData \<Rightarrow> ResultData go" where
  "SetResultFromCheckInfo LocalIp desip res r =
     (let r1 = (if mhas r LocalIp then r else mput LocalIp (Some []) r)
      in case result_row r1 LocalIp of
           None \<Rightarrow> Panic
         | Some row \<Rightarrow> Ret (mput LocalIp (Some (mput desip res row)) r1))"

definition copy_detail :: "ResultDetail \<Rightarrow> ResultDetail" where
  "copy_detail d = \<lparr>Normal = Normal d, rd_Hmac = rd_Hmac d, Time = Time d\<rparr>"

definition CopyLocalResultData :: "string \<Rightarrow> ResultData \<Rightarrow> (string, ResultDetail) gomap" where
  "CopyLocalResultData localip r = copy_map copy_detail (row_entries (result_row r localip))"

definition GetLocalResultData :: "string \<Rightarrow> ResultData \<Rightarrow> result_row" where
  "GetLocalResultData localip r = result_row r localip"

definition GetResultDataAll :: "ResultData \<Rightarrow> ResultData" where
  "GetResultDataAll r = r"

definition CopyResultDataAll :: "ResultData \<Rightarrow> (string, (string, ResultDetail) gomap) gomap" where
  "CopyResultDataAll r = copy_map (\<lambda>m. copy_map copy_detail (row_entries m)) r"

definition DeleteResultData :: "string \<Rightarrow> string \<Rightarrow> ResultData \<Rightarrow> ResultData" where
  "DeleteResultData nodeIP ip r =
     (let r1 = (case result_row r nodeIP of None \<Rightarrow> r | Some row \<Rightarrow> mput nodeIP (Some (mdel ip row)) r)
      in mdel ip r1)"

section \<open>checkinfodata.go\<close>

type_synonym CheckInfoData = "(string, (string, float64) gomap) gomap"

definition NewCheckInfoData :: CheckInfoData where
  "NewCheckInfoData = []"

definition SetCheckedIpCheckInfo :: "string \<Rightarrow> CheckInfoData \<Rightarrow> CheckInfoData" where
  "SetCheckedIpCheckInfo checkedIp c = (if mhas c checkedIp then c else mput checkedIp [] c)"

definition SetCheckInfo :: "string \<Rightarrow> string \<Rightarrow> float64 \<Rightarrow> int \<Rightarrow> CheckInfoData \<Rightarrow> CheckInfoData" where
  "SetCheckInfo checkedIp pluginName weight score c =
     (let c1 = (if mhas c checkedIp then c else mput checkedIp [] c)
      in mput checkedIp (mput pluginName (f_mul (f_of_int score) weight) (mget0 [] c1 checkedIp)) c1)"

definition TraverseCheckedIpCheckInfo :: "CheckInfoData \<Rightarrow> string list" where
  "TraverseCheckedIpCheckInfo c = mkeys c"

definition DeleteCheckedIpCheckInfo :: "string \<Rightarrow> CheckInfoData \<Rightarrow> CheckInfoData" where
  "DeleteCheckedIpCheckInfo ip c = mdel ip c"

definition GetLenCheckInfo :: "CheckInfoData \<Rightarrow> int" where
  "GetLenCheckInfo c = int (length c)"

definition CopyCheckInfo :: "CheckInfoData \<Rightarrow> CheckInfoData" where
  "CopyCheckInfo c = copy_map (copy_map id) c"

section \<open>nodemeta\_listdata.go and configmapdata.go\<close>

text \<open>
  Both files keep a slice of named objects with the same two loops: one that overwrites every
  element of the given name, or appends when there is none, and one that cuts the first element
  of the given name out.
\<close>

definition upsertBy :: "('a \<Rightarrow> string) \<Rightarrow> 'a \<Rightarrow> 'a list \<Rightarrow> 'a list" where
  "upsertBy name x xs =
     (let flag = list_ex (\<lambda>y. name y = name x) xs;
          xs' = map (\<lambda>y. if name y = name x then x else y) xs
      in if flag then xs' else xs' @ [x])"

fun deleteFirstBy :: "('a \<Rightarrow> string) \<Rightarrow> 'a \<Rightarrow> 'a list \<Rightarrow> 'a list" where
  "deleteFirstBy name x [] = []"
| "deleteFirstBy name x (y # ys) = (if name y = name x then ys else y # deleteFirstBy name x ys)"

record ObjectMeta =
  objName :: string
  Labels :: "(string, string) gomap"
  Annotations :: "(string, string) gomap"

text \<open>A \<open>PartialObjectMetadata\<close> is its metadata; the zero value has the empty name.\<close>

definition zero_meta :: ObjectMeta where
  "zero_meta = \<lparr>objName = '''', Labels = [], Annotations = []\<rparr>"

definition NewNodeListData :: "ObjectMeta list" where
  "NewNodeListData = replicate 5 zero_meta"

definition SetNodeListDataByNode :: "ObjectMeta \<Rightarrow> ObjectMeta list \<Rightarrow> ObjectMeta list" where
  "SetNodeListDataByNode node l = upsertBy objName node l"

definition DeleteNodeListDataByNode :: "ObjectMeta \<Rightarrow> ObjectMeta list \<Rightarrow> ObjectMeta list" where
  "DeleteNodeListDataByNode node l = deleteFirstBy objName node l"

definition SetNodeListDataByNodeSlice :: "ObjectMeta list \<Rightarrow> ObjectMeta list \<Rightarrow> ObjectMeta list" where
  "SetNodeListDataByNodeSlice nodeslice l = nodeslice"

definition GetLenListData :: "ObjectMeta list \<Rightarrow> int" where
  "GetLenListData l = int (length l)"

definition CopyNodeListData :: "ObjectMeta list \<Rightarrow> ObjectMeta list" where
  "CopyNodeListData l = [] @ l"

record ConfigMap =
  cmName :: string
  cmData :: "(string, string) gomap"

definition NewConfigMapListData :: "ConfigMap list" where
  "NewConfigMapListData = []"

definition SetConfigListData :: "ConfigMap \<Rightarrow> ConfigMap list \<Rightarrow> ConfigMap list" where
  "SetConfigListData cm l = upsertBy cmName cm l"

definition DeleteConfigListData :: "ConfigMap \<Rightarrow> ConfigMap list \<Rightarrow> ConfigMap list" where
  "DeleteConfigListData cm l = deleteFirstBy cmName cm l"

section \<open>Result and check tables\<close>

text \<open>The tables the operations produce: distinct keys in the outer map and in every row.\<close>

definition result_wf :: "ResultData \<Rightarrow> bool" where
  "result_wf r \<longleftrightarrow> mwf r \<and> (\<forall>(ip, row) \<in> set r. mwf (row_entries row))"

definition checkinfo_wf :: "CheckInfoData \<Rightarrow> bool" where
  "checkinfo_wf c \<longleftrightarrow> mwf c \<and> (\<forall>(ip, m) \<in> set c. mwf m)"

lemma copy_detail_id [simp]: "copy_detail d = d"
  by (simp add: copy_detail_def)

lemma result_row_mput [simp]: "result_row (mput k v r) x = (if x = k then v else result_row r x)"
  by (simp add: result_row_def mget0_def mget_mput)

lemma result_row_mdel [simp]: "result_row (mdel k r) x = (if x = k then None else result_row r x)"
  by (simp add: result_row_def mget0_def mget_mdel)

lemma row_entries_simps [simp]: "row_entries None = []" "row_entries (Some m) = m"
  by (simp_all add: row_entries_def)

lemma row_wf: "result_wf r \<Longrightarrow> mwf (row_entries (result_row r ip))"
  by (auto simp: result_wf_def result_row_def mget0_def split: option.split dest: map_of_SomeD)

lemma result_wf_mput: "result_wf r \<Longrightarrow> mwf (row_entries v) \<Longrightarrow> result_wf (mput k v r)"
  unfolding result_wf_def by (auto simp: mget_in_set gomap split: if_splits) 

lemma result_wf_mdel: "result_wf r \<Longrightarrow> result_wf (mdel k r)"
  unfolding result_wf_def by (auto simp: mget_in_set gomap split: if_splits)

lemma SetResult_wf: "result_wf r \<Longrightarrow> mwf (row_entries (cd_ResultDetail c)) \<Longrightarrow> result_wf (SetResult t c r)"
  by (cases "cd_ResultDetail c") (auto simp: SetResult_def Let_def mwf_map intro!: result_wf_mput)

lemma SetResultFromCheckInfo_wf:
  "result_wf r \<Longrightarrow> SetResultFromCheckInfo l d v r = Ret r' \<Longrightarrow> result_wf r'"
  using row_wf [of r l]
  by (auto simp: SetResultFromCheckInfo_def Let_def mwf_def [of "[_]"] intro!: result_wf_mput mwf_mput
      split: option.splits if_splits)

lemma DeleteResultData_wf: "result_wf r \<Longrightarrow> result_wf (DeleteResultData n ip r)"
  using row_wf [of r n]
  by (auto simp: DeleteResultData_def Let_def intro!: result_wf_mdel result_wf_mput mwf_mdel split: option.splits)

text \<open>Copying is the identity on entries; a nil row becomes an empty one.\<close>

lemma CopyLocalResultData_eq: "result_wf r \<Longrightarrow> CopyLocalResultData ip r = row_entries (result_row r ip)"
  by (simp add: CopyLocalResultData_def copy_map_eq row_wf case_prod_unfold)

lemma CopyResultDataAll_eq:
  assumes "result_wf r"
  shows "CopyResultDataAll r = map (\<lambda>(ip, row). (ip, row_entries row)) r"
proof -
  have "copy_map copy_detail (row_entries row) = row_entries row" if "(ip, row) \<in> set r" for ip row
    using that assms by (auto simp: result_wf_def copy_map_eq case_prod_unfold)
  moreover have "mwf r" using assms by (simp add: result_wf_def)
  ultimately show ?thesis
    by (auto simp: CopyResultDataAll_def copy_map_eq intro!: map_cong)
qed

lemma CopyCheckInfo_eq:
  assumes "checkinfo_wf c"
  shows "CopyCheckInfo c = c"
proof -
  have "copy_map id m = m" if "(ip, m) \<in> set c" for ip m
    using that assms by (auto simp: checkinfo_wf_def copy_map_eq case_prod_unfold)
  moreover have "mwf c" using assms by (simp add: checkinfo_wf_def)
  ultimately show ?thesis
    by (auto simp: CopyCheckInfo_def copy_map_eq intro!: map_idI)
qed

lemma mwf_in: "mwf m \<Longrightarrow> (k, v) \<in> set (mput k' v' m) \<Longrightarrow> (k, v) = (k', v') \<or> (k, v) \<in> set m"
  by (auto simp: mget_in_set gomap split: if_splits)

lemma checkinfo_wf_mput: "checkinfo_wf c \<Longrightarrow> mwf m \<Longrightarrow> checkinfo_wf (mput k m c)"
  unfolding checkinfo_wf_def by (auto dest: mwf_in intro: mwf_mput)

lemma checkinfo_row_wf: "checkinfo_wf c \<Longrightarrow> mwf (mget0 [] c ip)"
  by (auto simp: checkinfo_wf_def mget0_def split: option.split dest: map_of_SomeD)

lemma SetCheckedIpCheckInfo_wf: "checkinfo_wf c \<Longrightarrow> checkinfo_wf (SetCheckedIpCheckInfo ip c)"
  by (auto simp: SetCheckedIpCheckInfo_def intro: checkinfo_wf_mput)

lemma SetCheckInfo_wf: "checkinfo_wf c \<Longrightarrow> checkinfo_wf (SetCheckInfo ip p w s c)"
  by (auto simp: SetCheckInfo_def Let_def intro!: checkinfo_wf_mput mwf_mput checkinfo_row_wf)

lemma DeleteCheckedIpCheckInfo_wf: "checkinfo_wf c \<Longrightarrow> checkinfo_wf (DeleteCheckedIpCheckInfo ip c)"
  unfolding checkinfo_wf_def DeleteCheckedIpCheckInfo_def
  by (auto simp: mget_in_set gomap split: if_splits)

text \<open>What one write changes: the score of one plugin for one address.\<close>

lemma SetCheckInfo_row:
  "mget (SetCheckInfo ip p w s c) ip' =
     (if ip' = ip then Some (mput p (f_mul (f_of_int s) w) (mget0 [] c ip)) else mget c ip')"
  by (auto simp: SetCheckInfo_def Let_def mget0_def gomap)

lemma SetCheckInfo_keys: "set (mkeys (SetCheckInfo ip p w s c)) = insert ip (set (mkeys c))"
  by (rule set_eqI) (simp add: SetCheckInfo_row in_mkeys)

section \<open>Stores of named objects\<close>

text \<open>What an informer delivers: an object was added or updated, or it was deleted.\<close>

datatype 'a event = AddUpdate 'a | Deleted 'a

fun event_object :: "'a event \<Rightarrow> 'a" where
  "event_object (AddUpdate x) = x"
| "event_object (Deleted x) = x"

text \<open>The abstract store: a partial map from names to objects, and what an event does to it.\<close>

fun apply_event :: "('a \<Rightarrow> string) \<Rightarrow> (string \<rightharpoonup> 'a) \<Rightarrow> 'a event \<Rightarrow> (string \<rightharpoonup> 'a)" where
  "apply_event name m (AddUpdate x) = m(name x \<mapsto> x)"
| "apply_event name m (Deleted x) = m(name x := None)"

fun store_event :: "('a \<Rightarrow> 's \<Rightarrow> 's) \<Rightarrow> ('a \<Rightarrow> 's \<Rightarrow> 's) \<Rightarrow> 's \<Rightarrow> 'a event \<Rightarrow> 's" where
  "store_event put del s (AddUpdate x) = put x s"
| "store_event put del s (Deleted x) = del x s"

text \<open>
  The contract of a store of named objects, as its event handlers rely on it. The objects the
  API server delivers have a non-empty name.
\<close>

locale named_store =
  fixes name :: "'a \<Rightarrow> string"
    and lookup :: "'s \<Rightarrow> string \<Rightarrow> 'a option"
    and put :: "'a \<Rightarrow> 's \<Rightarrow> 's"
    and del :: "'a \<Rightarrow> 's \<Rightarrow> 's"
    and inv :: "'s \<Rightarrow> bool"
  assumes lookup_put: "lookup (put x s) n = (if n = name x then Some x else lookup s n)"
    and lookup_del: "inv s \<Longrightarrow> name x \<noteq> [] \<Longrightarrow> lookup (del x s) n = (if n = name x then None else lookup s n)"
    and inv_put: "inv s \<Longrightarrow> inv (put x s)"
    and inv_del: "inv s \<Longrightarrow> inv (del x s)"
begin

lemma inv_event: "inv s \<Longrightarrow> inv (store_event put del s e)"
  by (cases e) (auto intro: inv_put inv_del)

lemma inv_events: "inv s \<Longrightarrow> inv (foldl (store_event put del) s es)"
  by (induction es arbitrary: s) (auto intro: inv_event)

lemma lookup_event:
  "inv s \<Longrightarrow> name (event_object e) \<noteq> [] \<Longrightarrow> lookup (store_event put del s e) = apply_event name (lookup s) e"
  by (cases e) (auto simp: lookup_put lookup_del)

lemma lookup_events:
  "inv s \<Longrightarrow> (\<And>e. e \<in> set es \<Longrightarrow> name (event_object e) \<noteq> []) \<Longrightarrow>
     lookup (foldl (store_event put del) s es) = foldl (apply_event name) (lookup s) es"
  by (induction es arbitrary: s) (auto simp: inv_event lookup_event)

end

definition findBy :: "('a \<Rightarrow> string) \<Rightarrow> 'a list \<Rightarrow> string \<Rightarrow> 'a option" where
  "findBy name xs n = find (\<lambda>x. name x = n) xs"

definition names_ok :: "('a \<Rightarrow> string) \<Rightarrow> 'a list \<Rightarrow> bool" where
  "names_ok name xs \<longleftrightarrow> distinct (filter (\<lambda>n. n \<noteq> []) (map name xs))"

lemma findBy_None: "findBy name xs n = None \<longleftrightarrow> n \<notin> set (map name xs)"
  by (auto simp: findBy_def find_None_iff)

lemma list_ex_name: "list_ex (\<lambda>y. name y = k) xs \<longleftrightarrow> k \<in> set (map name xs)"
  by (induction xs) auto

lemma findBy_upsert: "findBy name (upsertBy name x xs) n = (if n = name x then Some x else findBy name xs n)"
proof -
  have 1: "findBy name (map (\<lambda>y. if name y = name x then x else y) xs) n =
      (if n = name x \<and> name x \<in> set (map name xs) then Some x else findBy name xs n)"
    by (induction xs) (auto simp: findBy_def)
  have 2: "findBy name (ys @ [x]) n = (case findBy name ys n of None \<Rightarrow> if n = name x then Some x else None | Some y \<Rightarrow> Some y)" for ys
    by (induction ys) (auto simp: findBy_def)
  show ?thesis
    unfolding upsertBy_def Let_def list_ex_name using findBy_None [of name xs "name x"]
    by (cases "name x \<in> set (map name xs)") (auto simp: 1 2 split: option.split)
qed

lemma names_upsert_map [simp]: "map name (map (\<lambda>y. if name y = name x then x else y) xs) = map name xs"
  by simp

lemma names_ok_upsert: "names_ok name xs \<Longrightarrow> names_ok name (upsertBy name x xs)"
  unfolding names_ok_def upsertBy_def Let_def list_ex_name by (simp del: map_map)

lemma findBy_delete:
  "names_ok name xs \<Longrightarrow> name x \<noteq> [] \<Longrightarrow>
     findBy name (deleteFirstBy name x xs) n = (if n = name x then None else findBy name xs n)"
proof (induction xs)
  case (Cons y ys)
  then show ?case
    using findBy_None [of name ys n] by (auto simp: names_ok_def findBy_def split: if_splits)
qed (simp add: findBy_def)

lemma set_deleteFirstBy: "set (deleteFirstBy name x xs) \<subseteq> set xs"
  by (induction xs) auto

lemma names_ok_delete: "names_ok name xs \<Longrightarrow> names_ok name (deleteFirstBy name x xs)"
  using set_deleteFirstBy by (induction xs) (fastforce simp: names_ok_def)+

interpretation nodes: named_store objName "findBy objName" SetNodeListDataByNode DeleteNodeListDataByNode "names_ok objName"
  by unfold_locales
    (simp_all add: SetNodeListDataByNode_def DeleteNodeListDataByNode_def findBy_upsert findBy_delete
      names_ok_upsert names_ok_delete)

interpretation configs: named_store cmName "findBy cmName" SetConfigListData DeleteConfigListData "names_ok cmName"
  by unfold_locales
    (simp_all add: SetConfigListData_def DeleteConfigListData_def findBy_upsert findBy_delete
      names_ok_upsert names_ok_delete)

lemma names_ok_new: "names_ok objName NewNodeListData" "names_ok cmName NewConfigMapListData"
  by (simp_all add: names_ok_def NewNodeListData_def NewConfigMapListData_def zero_meta_def)

end
