(* ===== verification/GoStrings.thy ===== *)
theory GoStrings
  imports Prelude
begin

text \<open>
  The functions of the Go packages \<open>strings\<close> and \<open>strconv\<close> that the sources call. A Go string is
  a sequence of bytes, here a \<open>string\<close>; \<open>len\<close> is the length of the list. \<open>TrimSpace\<close> is the ASCII
  part of Go's (the white space of the Latin-1 page and of Unicode beyond it is not treated).
\<close>

section \<open>Package strings\<close>

definition HasPrefix :: "string \<Rightarrow> string \<Rightarrow> bool" where
  "HasPrefix s p \<longleftrightarrow> length p \<le> length s \<and> take (length p) s = p"

definition TrimPrefix :: "string \<Rightarrow> string \<Rightarrow> string" where
  "TrimPrefix s p = (if HasPrefix s p then drop (length p) s else s)"

definition HasSuffix :: "string \<Rightarrow> string \<Rightarrow> bool" where
  "HasSuffix s p \<longleftrightarrow> length p \<le> length s \<and> drop (length s - length p) s = p"

definition TrimSuffix :: "string \<Rightarrow> string \<Rightarrow> string" where
  "TrimSuffix s p = (if HasSuffix s p then take (length s - length p) s else s)"

fun Contains :: "string \<Rightarrow> string \<Rightarrow> bool" where
  "Contains [] p = (p = [])"
| "Contains (c # s) p = (HasPrefix (c # s) p \<or> Contains s p)"

text \<open>\<open>strings.Split\<close> at a separator of one byte: always at least one piece.\<close>

fun Split :: "string \<Rightarrow> char \<Rightarrow> string list" where
  "Split [] sep = [[]]"
| "Split (c # s) sep =
     (if c = sep then [] # Split s sep
      else (case Split s sep of [] \<Rightarrow> [[c]] | p # ps \<Rightarrow> (c # p) # ps))"

fun Join :: "string list \<Rightarrow> string \<Rightarrow> string" where
  "Join [] sep = []"
| "Join [p] sep = p"
| "Join (p # q # ps) sep = p @ sep @ Join (q # ps) sep"

definition isSpace :: "char \<Rightarrow> bool" where
  "isSpace c \<longleftrightarrow> of_char c \<in> {9, 10, 11, 12, 13, 32 :: nat}"

definition TrimSpace :: "string \<Rightarrow> string" where
  "TrimSpace s = rev (dropWhile isSpace (rev (dropWhile isSpace s)))"

text \<open>\<open>strings.Replace(s, c, "", -1)\<close> for a pattern of one byte.\<close>

definition RemoveAll :: "string \<Rightarrow> char \<Rightarrow> string" where
  "RemoveAll s c = filter (\<lambda>x. x \<noteq> c) s"

text \<open>\<open>strings.ToLower\<close> on ASCII.\<close>

definition ToLower :: "string \<Rightarrow> string" where
  "ToLower s = map (\<lambda>c. let n = (of_char c :: nat) in if 65 \<le> n \<and> n \<le> 90 then char_of (n + 32) else c) s"

text \<open>\<open>bytes.Fields\<close>: the pieces between runs of white space (ASCII).\<close>

fun fields_from :: "string \<Rightarrow> string \<Rightarrow> string list" where
  "fields_from cur [] = (if cur = [] then [] else [cur])"
| "fields_from cur (c # s) =
     (if isSpace c then (if cur = [] then fields_from [] s else cur # fields_from [] s) else fields_from (cur @ [c]) s)"

definition Fields :: "string \<Rightarrow> string list" where
  "Fields s = fields_from [] s"

text \<open>
  The lines that a \<open>bufio.Scanner\<close> yields: the text of each line without its end and without one carriage return before it; an empty rest after the last
  line end is no line. A line that does not fit into the buffer ends the scan (the sources do not look at \<open>Err\<close>).
\<close>

definition MaxScanTokenSize :: int where "MaxScanTokenSize = 65536"

definition ScanLines :: "string \<Rightarrow> string list" where
  "ScanLines s =
     (let ps = Split s (CHR 0x0A); ls = (if last ps = [] then butlast ps else ps)
      in map (\<lambda>l. TrimSuffix l [CHR 0x0D]) (takeWhile (\<lambda>l. int (length l) < MaxScanTokenSize) ls))"

text \<open>A word: no white space in it.\<close>

definition word :: "string \<Rightarrow> bool" where
  "word w \<longleftrightarrow> w \<noteq> [] \<and> list_all (\<lambda>c. \<not> isSpace c) w"

section \<open>Package strconv\<close>

definition digitVal :: "char \<Rightarrow> int option" where
  "digitVal c = (let n = of_char c :: nat in if 48 \<le> n \<and> n \<le> 57 then Some (int (n - 48)) else None)"

fun digitsVal :: "string \<Rightarrow> int \<Rightarrow> int option" where
  "digitsVal [] acc = Some acc"
| "digitsVal (c # s) acc = (case digitVal c of None \<Rightarrow> None | Some d \<Rightarrow> digitsVal s (10 * acc + d))"

text \<open>
  \<open>n, _ := strconv.Atoi(s)\<close>: the sources drop the error, so only the number matters: zero when
  the syntax is wrong, the nearest \<open>int\<close> when the number is out of range.
\<close>

definition clampInt :: "int \<Rightarrow> int" where
  "clampInt n = max (- (2 ^ 63)) (min (2 ^ 63 - 1) n)"

definition Atoi :: "string \<Rightarrow> int" where
  "Atoi s =
     (let (neg, ds) = (case s of [] \<Rightarrow> (False, []) | c # cs \<Rightarrow>
            if c = CHR ''-'' then (True, cs) else if c = CHR ''+'' then (False, cs) else (False, s))
      in if ds = [] then 0
         else (case digitsVal ds 0 of None \<Rightarrow> 0 | Some n \<Rightarrow> clampInt (if neg then - n else n)))"

text \<open>\<open>strconv.ParseInt(s, 10, 32)\<close>: \<open>None\<close> for an error.\<close>

definition ParseInt32 :: "string \<Rightarrow> int option" where
  "ParseInt32 s =
     (let (neg, ds) = (case s of [] \<Rightarrow> (False, []) | c # cs \<Rightarrow>
            if c = CHR ''-'' then (True, cs) else if c = CHR ''+'' then (False, cs) else (False, s))
      in if ds = [] then None
         else (case digitsVal ds 0 of None \<Rightarrow> None | Some n \<Rightarrow>
           let v = (if neg then - n else n) in if - (2 ^ 31) \<le> v \<and> v < 2 ^ 31 then Some v else None))"

fun natDigits :: "nat \<Rightarrow> string" where
  "natDigits n =
     (if n < 10 then [char_of (48 + n)] else natDigits (n div 10) @ [char_of (48 + n mod 10)])"

definition Itoa :: "int \<Rightarrow> string" where
  "Itoa n = (if n < 0 then CHR ''-'' # natDigits (nat (- n)) else natDigits (nat n))"

declare natDigits.simps [simp del]

text \<open>A parser of dotted quads, for examples.\<close>

definition quad_pip :: "string \<Rightarrow> string option" where
  "quad_pip s = (if length (Split s (CHR ''.'')) = 4 \<and> list_all (\<lambda>c. c = CHR ''.'' \<or> digitVal c \<noteq> None) s then Some s else None)"

section \<open>Lemmas\<close>

lemma HasPrefix_iff: "HasPrefix s p \<longleftrightarrow> (\<exists>t. s = p @ t)"
  by (auto simp: HasPrefix_def) (metis append_take_drop_id)

lemma TrimPrefix_append [simp]: "TrimPrefix (p @ t) p = t"
  by (simp add: TrimPrefix_def HasPrefix_def)

lemma HasSuffix_iff: "HasSuffix s p \<longleftrightarrow> (\<exists>t. s = t @ p)"
  by (auto simp: HasSuffix_def) (metis append_take_drop_id)

lemma Split_not_Nil [simp]: "Split s sep \<noteq> []"
  by (cases s) (auto split: list.split)

lemma Join_Cons: "ps \<noteq> [] \<Longrightarrow> Join (p # ps) sep = p @ sep @ Join ps sep"
  by (cases ps) auto

lemma Join_Split: "Join (Split s c) [c] = s"
proof (induction s)
  case (Cons a s)
  show ?case
  proof (cases "Split s c")
    case (Cons q qs)
    with \<open>Join (Split s c) [c] = s\<close> show ?thesis by (cases qs) auto
  qed simp
qed simp

lemma Split_no_sep: "p \<in> set (Split s c) \<Longrightarrow> c \<notin> set p"
proof (induction s arbitrary: p)
  case (Cons a s)
  show ?case
  proof (cases "Split s c")
    case (Cons q qs)
    with Cons.prems Cons.IH [of q] Cons.IH [of p] show ?thesis
      by (auto split: if_splits)
  qed simp
qed simp

lemma digitsVal_append: "digitsVal (xs @ ys) a = (case digitsVal xs a of None \<Rightarrow> None | Some b \<Rightarrow> digitsVal ys b)"
  by (induction xs arbitrary: a) (auto split: option.split)

lemma digitVal_digit: "d < 10 \<Longrightarrow> digitVal (char_of (48 + d)) = Some (int d)"
  by (simp add: digitVal_def Let_def)

lemma digitsVal_natDigits: "digitsVal (natDigits n) 0 = Some (int n)"
proof (induction n rule: natDigits.induct)
  case (1 n)
  show ?case
  proof (cases "n < 10")
    case True
    then show ?thesis by (simp add: natDigits.simps [of n] digitVal_digit)
  next
    case False
    with 1 show ?thesis
      by (simp add: natDigits.simps [of n] digitsVal_append digitVal_digit) presburger
  qed
qed

lemma natDigits_hd: "\<exists>c cs. natDigits n = c # cs \<and> (48::nat) \<le> of_char c \<and> (of_char c :: nat) \<le> 57"
proof (induction n rule: natDigits.induct)
  case (1 n)
  show ?case
    by (cases "n < 10") (use 1 in \<open>auto simp: natDigits.simps [of n]\<close>)
qed

text \<open>Printing a number in the range of \<open>int\<close> and reading it back gives the number.\<close>

lemma Atoi_Itoa: "- (2 ^ 63) \<le> n \<Longrightarrow> n < 2 ^ 63 \<Longrightarrow> Atoi (Itoa n) = n"
proof -
  assume r: "- (2 ^ 63) \<le> n" "n < 2 ^ 63"
  obtain c cs where d: "natDigits (nat n) = c # cs" "(48::nat) \<le> of_char c" "(of_char c :: nat) \<le> 57"
    using natDigits_hd by blast
  then have "c \<noteq> CHR ''-''" "c \<noteq> CHR ''+''" by auto
  moreover have "natDigits (nat (- n)) \<noteq> []"
    using natDigits_hd [of "nat (- n)"] by auto
  ultimately show ?thesis
    using r d digitsVal_natDigits [of "nat n"] digitsVal_natDigits [of "nat (- n)"]
    by (auto simp: Atoi_def Itoa_def clampInt_def Let_def)
qed

lemma Itoa_inject:
  assumes "- (2 ^ 63) \<le> n" "n < 2 ^ 63" "- (2 ^ 63) \<le> m" "m < 2 ^ 63" "Itoa n = Itoa m"
  shows "n = m"
  using assms Atoi_Itoa by metis

lemma Split_append: "c \<notin> set a \<Longrightarrow> Split (a @ c # b) c = a # Split b c"
  by (induction a) auto

lemma Split_none: "c \<notin> set a \<Longrightarrow> Split a c = [a]"
  by (induction a) auto

lemma TrimSpace_none: "(\<And>c. c \<in> set s \<Longrightarrow> \<not> isSpace c) \<Longrightarrow> TrimSpace s = s"
  by (simp add: TrimSpace_def dropWhile_eq_self_iff) (metis hd_in_set rev_is_Nil_conv set_rev dropWhile_eq_self_iff rev_rev_ident)

lemma natDigits_chars: "c \<in> set (natDigits n) \<Longrightarrow> (48::nat) \<le> of_char c \<and> (of_char c :: nat) \<le> 57"
proof (induction n rule: natDigits.induct)
  case (1 n)
  then show ?case
    by (cases "n < 10") (auto simp: natDigits.simps [of n])
qed

lemma Itoa_chars:
  assumes "c \<in> set (Itoa n)"
  shows "\<not> isSpace c \<and> c \<noteq> CHR '','' \<and> c \<noteq> CHR ''=''"
  using assms natDigits_chars [of c]
  by (fastforce simp: Itoa_def isSpace_def split: if_splits)

lemma Itoa_trim [simp]: "TrimSpace (Itoa n) = Itoa n"
  using Itoa_chars by (blast intro: TrimSpace_none)

lemma fields_from_word: "(\<And>c. c \<in> set w \<Longrightarrow> \<not> isSpace c) \<Longrightarrow> fields_from cur (w @ s) = fields_from (cur @ w) s"
  by (induction w arbitrary: cur) auto

lemma Fields_word: "w \<noteq> [] \<Longrightarrow> (\<And>c. c \<in> set w \<Longrightarrow> \<not> isSpace c) \<Longrightarrow> Fields w = [w]"
  using fields_from_word [of w "[]" "[]"] by (simp add: Fields_def)

lemma Fields_cons:
  assumes "w \<noteq> []" "\<And>c. c \<in> set w \<Longrightarrow> \<not> isSpace c" "isSpace c"
  shows "Fields (w @ c # s) = w # Fields s"
  using assms fields_from_word [of w "[]" "c # s"] by (simp add: Fields_def)

lemma Fields_space: "isSpace c \<Longrightarrow> Fields (c # s) = Fields s"
  by (simp add: Fields_def)

lemma ScanLines_concat:
  assumes "\<And>l. l \<in> set ls \<Longrightarrow> CHR 0x0A \<notin> set l \<and> \<not> HasSuffix l [CHR 0x0D] \<and> int (length l) < MaxScanTokenSize"
  shows "ScanLines (concat (map (\<lambda>l. l @ [CHR 0x0A]) ls)) = ls"
proof -
  have lines: "Split (concat (map (\<lambda>l. l @ [CHR 0x0A]) ls)) (CHR 0x0A) = ls @ [[]]"
    using assms by (induction ls) (simp_all add: Split_append)
  have short: "takeWhile (\<lambda>l. int (length l) < MaxScanTokenSize) ls = ls" using assms by (simp add: takeWhile_eq_all_conv)
  have plain: "map (\<lambda>l. TrimSuffix l [CHR 0x0D]) ls = ls" using assms by (simp add: TrimSuffix_def map_idI)
  show ?thesis by (simp only: ScanLines_def Let_def lines last_snoc butlast_snoc if_True simp_thms short plain)
qed

end
