(* ===== verification/HealthPlugins.thy ===== *)
theory HealthPlugins
  imports HealthData GoStrings "HOL-Library.Multiset"
begin

text \<open>
  The check plugins of edge-health (\<open>src/pkg/edge-health/checkplugin\<close>): their command line
  parameters, their probes with retries, and \<open>CheckExecute\<close>, which probes every address of the check
  table in a goroutine of its own and waits for all of them.

  What the network answers is an argument: the outcome of an HTTP exchange or of a TCP dial as a
  function of the address and of the number of the attempt. A goroutine ends with one
  \<open>SetCheckInfo\<close>, a critical section, so a run of \<open>CheckExecute\<close> is the list of its writes in
  the order in which the goroutines reach them. In \<open>PingCheck\<close> the goroutines also share the
  variable \<open>err\<close>, and that plugin is modelled step by step.
\<close>

section \<open>checkplugin.go\<close>

record BasePlugin =
  PluginName :: string
  HealthCheckoutTimeOut :: int
  HealthCheckRetryTime :: int
  Weight :: float64
  Port :: int

definition NewBasePlugin :: "int \<Rightarrow> int \<Rightarrow> int \<Rightarrow> float64 \<Rightarrow> string \<Rightarrow> BasePlugin" where
  "NewBasePlugin healthCheckoutTimeOut retrytime port weight pluginname =
     \<lparr>PluginName = pluginname, HealthCheckoutTimeOut = healthCheckoutTimeOut,
      HealthCheckRetryTime = retrytime, Weight = weight, Port = port\<rparr>"

text \<open>
  \<open>SetWeight\<close> has a value receiver: it assigns to its own copy of the plugin, which is dropped on
  return. The model returns the caller's plugin after the call.
\<close>

definition SetWeight :: "float64 \<Rightarrow> BasePlugin \<Rightarrow> BasePlugin" where
  "SetWeight weight p = (let copy = p\<lparr>Weight := weight\<rparr> in p)"

definition GetWeight :: "BasePlugin \<Rightarrow> float64" where
  "GetWeight p = Weight p"

text \<open>The list of plugins, \<open>PluginInfo.Plugins\<close>, for any type of plugin.\<close>

definition AddPlugin :: "'p \<Rightarrow> 'p list \<Rightarrow> 'p list" where
  "AddPlugin plugin ps = ps @ [plugin]"

fun Merge :: "(string, go_error + 'p) gomap \<Rightarrow> 'p list \<Rightarrow> 'p list \<times> go_error option" where
  "Merge [] ps = (ps, None)"
| "Merge ((name, Inl err) # rest) ps = (ps, Some err)"
| "Merge ((name, Inr plugin) # rest) ps = Merge rest (AddPlugin plugin ps)"

text \<open>\<open>client.Do(req)\<close>: a transport error, or a status code and the result of reading the body.\<close>

datatype http_outcome = HttpErr go_error | HttpResp int "go_error + string"

definition StatusOK :: int where "StatusOK = 200"

fun PingDo :: "http_outcome \<Rightarrow> bool \<times> go_error option" where
  "PingDo (HttpErr err) = (False, Some err)"
| "PingDo (HttpResp StatusCode Body) =
     (if StatusCode \<noteq> StatusOK then
        (case Body of Inr response \<Rightarrow> (False, Some ''ping failed, StatusCode is %d, resp body is %s'')
                    | Inl err \<Rightarrow> (False, Some err))
      else (True, None))"

section \<open>The parameters of a plugin\<close>

text \<open>
  The three \<open>Set\<close> methods are the same code for three receivers. \<open>arr[1]\<close> panics when the
  parameter has no equals sign. The conversion of \<open>strconv.ParseFloat\<close> is an argument.
\<close>

definition para_arg :: "string list \<Rightarrow> string go" where
  "para_arg arr = (if length arr > 1 then Ret (TrimSpace (arr ! 1)) else Panic)"

definition set_para :: "(string \<Rightarrow> float64) \<Rightarrow> string \<Rightarrow> string \<Rightarrow> BasePlugin \<Rightarrow> BasePlugin go" where
  "set_para ParseFloat name para p =
     (if para = [] then Ret p
      else (let arr = Split para (CHR ''=''); trimkey = TrimSpace (hd arr) in
        go_bind
          (if trimkey = ''timeout'' then go_bind (para_arg arr) (\<lambda>v. Ret (p\<lparr>HealthCheckoutTimeOut := Atoi v\<rparr>))
           else if trimkey = ''retrytime'' then go_bind (para_arg arr) (\<lambda>v. Ret (p\<lparr>HealthCheckRetryTime := Atoi v\<rparr>))
           else if trimkey = ''weight'' then go_bind (para_arg arr) (\<lambda>v. Ret (p\<lparr>Weight := ParseFloat v\<rparr>))
           else if trimkey = ''port'' then go_bind (para_arg arr) (\<lambda>v. Ret (p\<lparr>Port := Atoi v\<rparr>))
           else Ret p)
          (\<lambda>p'. Ret (p'\<lparr>PluginName := name\<rparr>))))"

fun set_paras :: "(string \<Rightarrow> float64) \<Rightarrow> string \<Rightarrow> string list \<Rightarrow> BasePlugin \<Rightarrow> BasePlugin go" where
  "set_paras ParseFloat name [] p = Ret p"
| "set_paras ParseFloat name (para # rest) p =
     go_bind (set_para ParseFloat name para p) (set_paras ParseFloat name rest)"

datatype plugin_kind = PingCheckPlugin | KubeletCheckPlugin | KubeletAuthCheckPlugin

fun plugin_Name :: "plugin_kind \<Rightarrow> string" where
  "plugin_Name PingCheckPlugin = ''PingCheck''"
| "plugin_Name KubeletCheckPlugin = ''KubeletCheck''"
| "plugin_Name KubeletAuthCheckPlugin = ''KubeletAuthCheck''"

record CheckPlugin =
  kind :: plugin_kind
  base :: BasePlugin

text \<open>The new receiver and the new list of plugins; the error it returns is always nil.\<close>

definition plugin_Set :: "(string \<Rightarrow> float64) \<Rightarrow> string \<Rightarrow> CheckPlugin \<Rightarrow> CheckPlugin list \<Rightarrow> (CheckPlugin \<times> CheckPlugin list) go" where
  "plugin_Set ParseFloat s p plugins =
     go_bind (set_paras ParseFloat (plugin_Name (kind p)) (Split s (CHR '','')) (base p))
       (\<lambda>b. let p' = p\<lparr>base := b\<rparr> in Ret (p', AddPlugin p' plugins))"

section \<open>kubeletcheck.go and kubeletauthcheck.go\<close>

text \<open>The retry loop of both: \<open>n\<close> attempts remain, \<open>i\<close> is the number of the next one.\<close>

fun retry_loop :: "(nat \<Rightarrow> bool \<times> go_error option) \<Rightarrow> nat \<Rightarrow> nat \<Rightarrow> go_error option \<Rightarrow> bool \<times> go_error option" where
  "retry_loop attempt i 0 err = (False, err)"
| "retry_loop attempt i (Suc n) err =
     (case attempt i of (ok, e) \<Rightarrow> if ok then (True, None) else retry_loop attempt (Suc i) n e)"

text \<open>
  The outside world of a plugin: \<open>http.NewRequest\<close> (an error for a bad method or URL), the HTTP
  exchanges by URL, Authorization header and attempt, the token file, and the TCP dials.
\<close>

record world =
  NewRequest :: "string \<Rightarrow> string \<Rightarrow> go_error option"
  client_Do :: "string \<Rightarrow> string \<Rightarrow> nat \<Rightarrow> http_outcome"
  ReadTokenFile :: "go_error + string"
  DialTimeout :: "string \<Rightarrow> int \<Rightarrow> nat \<Rightarrow> go_error option"

definition ping :: "world \<Rightarrow> int \<Rightarrow> int \<Rightarrow> string \<Rightarrow> int \<Rightarrow> bool \<times> go_error option" where
  "ping w timeout retryTime checkedIp port =
     (let url = ''http://'' @ checkedIp @ '':'' @ Itoa port @ ''/healthz'' in
      case NewRequest w ''HEAD'' url of
        Some err \<Rightarrow> (False, Some (''error new ping request: %w'' @ err))
      | None \<Rightarrow> retry_loop (\<lambda>i. PingDo (client_Do w url '''' i)) 0 (nat retryTime) None)"

definition authping :: "world \<Rightarrow> int \<Rightarrow> int \<Rightarrow> string \<Rightarrow> int \<Rightarrow> bool \<times> go_error option" where
  "authping w timeout retryTime checkedIp port =
     (case ReadTokenFile w of
        Inl err \<Rightarrow> (False, Some err)
      | Inr token \<Rightarrow>
          (let url = ''https://'' @ checkedIp @ '':'' @ Itoa port @ ''/healthz'' in
           case NewRequest w ''GET'' url of
             Some err \<Rightarrow> (False, Some (''error new ping request: %w'' @ err))
           | None \<Rightarrow> retry_loop (\<lambda>i. PingDo (client_Do w url (''Bearer '' @ token) i)) 0 (nat retryTime) None))"

text \<open>One call of \<open>SetCheckInfo\<close>: the address, the plugin, its weight and the score.\<close>

type_synonym check_write = "string \<times> string \<times> float64 \<times> int"

fun apply_write :: "CheckInfoData \<Rightarrow> check_write \<Rightarrow> CheckInfoData" where
  "apply_write c (ip, name, weight, score) = SetCheckInfo ip name weight score c"

text \<open>
  The body of the goroutine for one address. On failure it logs \<open>err.Error()\<close>, which panics when
  the error is nil; a panic in a goroutine ends the process.
\<close>

definition kubelet_goroutine :: "(bool \<times> go_error option) \<Rightarrow> CheckPlugin \<Rightarrow> string \<Rightarrow> check_write go" where
  "kubelet_goroutine res plugin temp =
     (case res of (checkOk, err) \<Rightarrow>
        if checkOk then Ret (temp, plugin_Name (kind plugin), GetWeight (base plugin), 100)
        else (case err of None \<Rightarrow> Panic
                        | Some e \<Rightarrow> Ret (temp, plugin_Name (kind plugin), GetWeight (base plugin), 0)))"

fun go_mapM :: "('a \<Rightarrow> 'b go) \<Rightarrow> 'a list \<Rightarrow> 'b list go" where
  "go_mapM f [] = Ret []"
| "go_mapM f (x # xs) = go_bind (f x) (\<lambda>y. go_bind (go_mapM f xs) (\<lambda>ys. Ret (y # ys)))"

text \<open>
  The wait group: \<open>Add(added)\<close>, then \<open>dones\<close> calls of \<open>Done\<close>. With too many of them the counter
  gets negative, which panics; with too few \<open>Wait\<close> never returns.
\<close>

datatype wg_outcome = WgReturns | WgPanics | WgBlocks

definition wg_wait :: "nat \<Rightarrow> nat \<Rightarrow> wg_outcome" where
  "wg_wait added dones =
     (if dones = added then WgReturns else if dones > added then WgPanics else WgBlocks)"

text \<open>
  \<open>CheckExecute\<close> reads the check table twice: \<open>len(CheckInfo)\<close> without the lock, for the wait group,
  and then the copy it ranges over; \<open>c0\<close> and \<open>c1\<close> are the table at those two moments.
\<close>

definition KubeletCheck_CheckExecute :: "world \<Rightarrow> CheckPlugin \<Rightarrow> CheckInfoData \<Rightarrow> CheckInfoData \<Rightarrow> check_write list go \<times> wg_outcome" where
  "KubeletCheck_CheckExecute w plugin c0 c1 =
     (let keys = mkeys (CopyCheckInfo c1); b = base plugin in
      (go_mapM (\<lambda>temp. kubelet_goroutine
          (ping w (HealthCheckoutTimeOut b) (HealthCheckRetryTime b) temp (Port b)) plugin temp) keys,
       wg_wait (length c0) (length keys)))"

definition KubeletAuthCheck_CheckExecute :: "world \<Rightarrow> CheckPlugin \<Rightarrow> CheckInfoData \<Rightarrow> CheckInfoData \<Rightarrow> check_write list go \<times> wg_outcome" where
  "KubeletAuthCheck_CheckExecute w plugin c0 c1 =
     (let keys = mkeys (CopyCheckInfo c1); b = base plugin in
      (go_mapM (\<lambda>temp. kubelet_goroutine
          (authping w (HealthCheckoutTimeOut b) (HealthCheckRetryTime b) temp (Port b)) plugin temp) keys,
       wg_wait (length c0) (length keys)))"

section \<open>pingcheck.go\<close>

text \<open>
  The goroutines of \<open>PingCheck\<close> assign to and test one variable \<open>err\<close>, declared outside of them.
  A goroutine is at the head of its loop with \<open>n\<close> attempts left, behind the dial, at the test
  behind the loop, or at the log call of the failure branch, which evaluates \<open>err.Error()\<close>.
\<close>

datatype ping_pc = AtLoop nat | AtBreak nat | AtTest | AtFail | AtEnd

record ping_state =
  shared_err :: "go_error option"
  pcs :: "ping_pc list"
  written :: "check_write list"

definition ping_step :: "world \<Rightarrow> CheckPlugin \<Rightarrow> string list \<Rightarrow> nat \<Rightarrow> ping_state \<Rightarrow> ping_state go" where
  "ping_step w plugin keys i s =
     (let temp = keys ! i; name = plugin_Name (kind plugin); b = base plugin;
          retry = nat (HealthCheckRetryTime b) in
      case pcs s ! i of
        AtLoop 0 \<Rightarrow> Ret (s\<lparr>pcs := (pcs s)[i := AtTest]\<rparr>)
      | AtLoop (Suc n) \<Rightarrow>
          Ret (s\<lparr>shared_err := DialTimeout w (temp @ '':'' @ Itoa (Port b)) (HealthCheckoutTimeOut b) (retry - Suc n),
                 pcs := (pcs s)[i := AtBreak n]\<rparr>)
      | AtBreak n \<Rightarrow> Ret (s\<lparr>pcs := (pcs s)[i := if shared_err s = None then AtTest else AtLoop n]\<rparr>)
      | AtTest \<Rightarrow>
          Ret (if shared_err s = None
               then s\<lparr>pcs := (pcs s)[i := AtEnd], written := written s @ [(temp, name, GetWeight b, 100)]\<rparr>
               else s\<lparr>pcs := (pcs s)[i := AtFail]\<rparr>)
      | AtFail \<Rightarrow>
          (case shared_err s of
             None \<Rightarrow> Panic
           | Some e \<Rightarrow> Ret (s\<lparr>pcs := (pcs s)[i := AtEnd], written := written s @ [(temp, name, GetWeight b, 0)]\<rparr>))
      | AtEnd \<Rightarrow> Ret s)"

text \<open>A schedule names the goroutine that moves next; numbers beyond the goroutines are skipped.\<close>

fun ping_run :: "world \<Rightarrow> CheckPlugin \<Rightarrow> string list \<Rightarrow> nat list \<Rightarrow> ping_state \<Rightarrow> ping_state go" where
  "ping_run w plugin keys [] s = Ret s"
| "ping_run w plugin keys (i # sched) s =
     (if i < length (pcs s) then go_bind (ping_step w plugin keys i s) (ping_run w plugin keys sched)
      else ping_run w plugin keys sched s)"

definition ping_start :: "CheckPlugin \<Rightarrow> string list \<Rightarrow> ping_state" where
  "ping_start plugin keys =
     \<lparr>shared_err = None,
      pcs = replicate (length keys) (AtLoop (nat (HealthCheckRetryTime (base plugin)))),
      written = []\<rparr>"

text \<open>A goroutine that has not reached its end has not called \<open>Done\<close>.\<close>

definition PingCheck_CheckExecute ::
    "world \<Rightarrow> nat list \<Rightarrow> CheckPlugin \<Rightarrow> CheckInfoData \<Rightarrow> CheckInfoData \<Rightarrow> check_write list go \<times> wg_outcome" where
  "PingCheck_CheckExecute w sched plugin c0 c1 =
     (let keys = mkeys (CopyCheckInfo c1) in
      case ping_run w plugin keys sched (ping_start plugin keys) of
        Panic \<Rightarrow> (Panic, WgPanics)
      | Ret s \<Rightarrow> (Ret (written s), wg_wait (length c0) (length (filter (\<lambda>pc. pc = AtEnd) (pcs s)))))"

definition CheckExecute ::
    "world \<Rightarrow> nat list \<Rightarrow> CheckPlugin \<Rightarrow> CheckInfoData \<Rightarrow> CheckInfoData \<Rightarrow> check_write list go \<times> wg_outcome" where
  "CheckExecute w sched plugin =
     (case kind plugin of
        PingCheckPlugin \<Rightarrow> PingCheck_CheckExecute w sched plugin
      | KubeletCheckPlugin \<Rightarrow> KubeletCheck_CheckExecute w plugin
      | KubeletAuthCheckPlugin \<Rightarrow> KubeletAuthCheck_CheckExecute w plugin)"

section \<open>Lemmas\<close>

lemma go_mapM_Ret: "(\<And>x. x \<in> set xs \<Longrightarrow> f x = Ret (g x)) \<Longrightarrow> go_mapM f xs = Ret (map g xs)"
  by (induction xs) auto

lemma go_mapM_Panic: "x \<in> set xs \<Longrightarrow> f x = Panic \<Longrightarrow> go_mapM f xs = Panic"
proof (induction xs)
  case (Cons y ys)
  then show ?case by (cases "f y") auto
qed simp

lemma retry_loop_ok: "fst (retry_loop att i n err) \<longleftrightarrow> (\<exists>j. i \<le> j \<and> j < i + n \<and> fst (att j))"
proof (induction n arbitrary: i err)
  case (Suc n)
  have "(\<exists>j. i \<le> j \<and> j < i + Suc n \<and> fst (att j)) \<longleftrightarrow>
      fst (att i) \<or> (\<exists>j. Suc i \<le> j \<and> j < Suc i + n \<and> fst (att j))"
    by (metis add_Suc_right add_Suc_shift le_eq_less_or_eq less_add_Suc1 not_less_eq_eq order_refl Suc_le_eq)
  then show ?case by (simp add: Suc.IH split: prod.split)
qed auto

lemma retry_loop_err:
  assumes "\<And>j. snd (att j) = None \<Longrightarrow> fst (att j)" "\<not> fst (retry_loop att i n err)"
  shows "snd (retry_loop att i n err) = None \<longleftrightarrow> n = 0 \<and> err = None"
  using assms(2)
proof (induction n arbitrary: i err)
  case (Suc n)
  then show ?case
    using assms(1) [of i] by (auto split: prod.splits if_splits)
qed simp

lemma PingDo_ok: "fst (PingDo r) \<longleftrightarrow> (\<exists>body. r = HttpResp StatusOK body)"
  by (cases r) (auto split: sum.split)

lemma PingDo_err: "snd (PingDo r) = None \<Longrightarrow> fst (PingDo r)"
  by (cases r) (auto split: sum.splits if_splits)

text \<open>
  The contract of an HTTP probe: it succeeds when the request can be made and one of its attempts
  is answered with status 200, and a failed probe has an error unless it made no attempt.
\<close>

locale http_probe =
  fixes probe :: "world \<Rightarrow> int \<Rightarrow> int \<Rightarrow> string \<Rightarrow> int \<Rightarrow> bool \<times> go_error option"
    and ready :: "world \<Rightarrow> string \<Rightarrow> int \<Rightarrow> bool"
    and answered :: "world \<Rightarrow> string \<Rightarrow> int \<Rightarrow> nat \<Rightarrow> bool"
  assumes probe_ok: "fst (probe w t r ip p) \<longleftrightarrow> ready w ip p \<and> (\<exists>i < nat r. answered w ip p i)"
    and probe_err: "\<not> fst (probe w t r ip p) \<Longrightarrow> snd (probe w t r ip p) = None \<longleftrightarrow> ready w ip p \<and> r \<le> 0"
begin

lemma goroutine:
  "kubelet_goroutine (probe w t r ip p) pl ip =
     (if ready w ip p \<and> r \<le> 0 then Panic
      else Ret (ip, plugin_Name (kind pl), Weight (base pl),
                if ready w ip p \<and> (\<exists>i < nat r. answered w ip p i) then 100 else 0))"
proof (cases "fst (probe w t r ip p)")
  case True
  then have "ready w ip p" "\<exists>i < nat r. answered w ip p i" using probe_ok by auto
  then show ?thesis
    using True by (auto simp: kubelet_goroutine_def GetWeight_def split: prod.split)
next
  case False
  then have "\<not> (ready w ip p \<and> (\<exists>i < nat r. answered w ip p i))" using probe_ok by auto
  with False probe_err [OF False] show ?thesis
    by (auto simp: kubelet_goroutine_def GetWeight_def split: prod.split option.split)
qed

lemma goroutines:
  "go_mapM (\<lambda>ip. kubelet_goroutine (probe w t r ip p) pl ip) keys =
     (if r \<le> 0 \<and> (\<exists>ip \<in> set keys. ready w ip p) then Panic
      else Ret (map (\<lambda>ip. (ip, plugin_Name (kind pl), Weight (base pl),
                if ready w ip p \<and> (\<exists>i < nat r. answered w ip p i) then 100 else 0)) keys))"
proof (cases "r \<le> 0 \<and> (\<exists>ip \<in> set keys. ready w ip p)")
  case True
  then obtain ip where "ip \<in> set keys" "ready w ip p" "r \<le> 0" by auto
  then show ?thesis
    using go_mapM_Panic [of ip keys "\<lambda>ip. kubelet_goroutine (probe w t r ip p) pl ip"] by (auto simp: goroutine)
next
  case False
  then show ?thesis
    unfolding if_not_P [OF False] by (intro go_mapM_Ret) (auto simp: goroutine)
qed

end

definition ping_url :: "string \<Rightarrow> int \<Rightarrow> string" where
  "ping_url ip port = ''http://'' @ ip @ '':'' @ Itoa port @ ''/healthz''"

definition ping_ready :: "world \<Rightarrow> string \<Rightarrow> int \<Rightarrow> bool" where
  "ping_ready w ip port \<longleftrightarrow> NewRequest w ''HEAD'' (ping_url ip port) = None"

definition ping_answered :: "world \<Rightarrow> string \<Rightarrow> int \<Rightarrow> nat \<Rightarrow> bool" where
  "ping_answered w ip port i \<longleftrightarrow> (\<exists>body. client_Do w (ping_url ip port) '''' i = HttpResp StatusOK body)"

definition auth_url :: "string \<Rightarrow> int \<Rightarrow> string" where
  "auth_url ip port = ''https://'' @ ip @ '':'' @ Itoa port @ ''/healthz''"

definition authping_ready :: "world \<Rightarrow> string \<Rightarrow> int \<Rightarrow> bool" where
  "authping_ready w ip port \<longleftrightarrow>
     (\<exists>token. ReadTokenFile w = Inr token) \<and> NewRequest w ''GET'' (auth_url ip port) = None"

definition authping_answered :: "world \<Rightarrow> string \<Rightarrow> int \<Rightarrow> nat \<Rightarrow> bool" where
  "authping_answered w ip port i \<longleftrightarrow>
     (\<exists>token body. ReadTokenFile w = Inr token \<and>
        client_Do w (auth_url ip port) (''Bearer '' @ token) i = HttpResp StatusOK body)"

interpretation kubelet: http_probe ping ping_ready ping_answered
proof
  fix w t r ip p
  show "fst (ping w t r ip p) \<longleftrightarrow> ping_ready w ip p \<and> (\<exists>i < nat r. ping_answered w ip p i)"
    by (auto simp: ping_def ping_ready_def ping_answered_def ping_url_def Let_def retry_loop_ok PingDo_ok
        split: option.split)
  show "snd (ping w t r ip p) = None \<longleftrightarrow> ping_ready w ip p \<and> r \<le> 0" if "\<not> fst (ping w t r ip p)"
    using that PingDo_err
    by (auto simp: ping_def ping_ready_def ping_url_def Let_def retry_loop_err split: option.splits)
qed

interpretation kubelet_auth: http_probe authping authping_ready authping_answered
proof
  fix w t r ip p
  show "fst (authping w t r ip p) \<longleftrightarrow> authping_ready w ip p \<and> (\<exists>i < nat r. authping_answered w ip p i)"
    by (auto simp: authping_def authping_ready_def authping_answered_def auth_url_def Let_def retry_loop_ok PingDo_ok
        split: option.split sum.split)
  show "snd (authping w t r ip p) = None \<longleftrightarrow> authping_ready w ip p \<and> r \<le> 0" if "\<not> fst (authping w t r ip p)"
    using that PingDo_err
    by (auto simp: authping_def authping_ready_def auth_url_def Let_def retry_loop_err split: option.splits sum.splits)
qed

lemma ping_run_alone:
  assumes i: "i < length (pcs s)" and at: "pcs s ! i = AtLoop n" and n: "n \<le> nat (HealthCheckRetryTime (base pl))"
    and err: "n = 0 \<Longrightarrow> shared_err s \<noteq> None"
  shows "\<exists>m s'. ping_run w pl keys (replicate m i) s = Ret s' \<and> pcs s' = (pcs s)[i := AtEnd] \<and>
    written s' = written s @ [(keys ! i, plugin_Name (kind pl), Weight (base pl),
      if \<exists>j. nat (HealthCheckRetryTime (base pl)) - n \<le> j \<and> j < nat (HealthCheckRetryTime (base pl)) \<and>
             DialTimeout w (keys ! i @ '':'' @ Itoa (Port (base pl))) (HealthCheckoutTimeOut (base pl)) j = None
      then 100 else 0)]"
  using assms
proof (induction n arbitrary: s)
  case 0
  then obtain e where "shared_err s = Some e" by auto
  with 0 have "ping_run w pl keys (replicate (Suc (Suc (Suc 0))) i) s =
      Ret (s\<lparr>pcs := (pcs s)[i := AtEnd],
             written := written s @ [(keys ! i, plugin_Name (kind pl), GetWeight (base pl), 0)]\<rparr>)"
    by (simp add: ping_step_def)
  then show ?case
    by (intro exI [of _ "Suc (Suc (Suc 0))"]) (auto simp: GetWeight_def)
next
  case (Suc n)
  let ?retry = "nat (HealthCheckRetryTime (base pl))"
  let ?dial = "DialTimeout w (keys ! i @ '':'' @ Itoa (Port (base pl))) (HealthCheckoutTimeOut (base pl))"
  let ?j = "?retry - Suc n"
  let ?s1 = "s\<lparr>shared_err := ?dial ?j, pcs := (pcs s)[i := AtBreak n]\<rparr>"
  have s1: "ping_run w pl keys (i # sched) s = ping_run w pl keys sched ?s1" for sched
    using Suc.prems by (simp add: ping_step_def Let_def)
  show ?case
  proof (cases "?dial ?j")
    case None
    have "ping_run w pl keys (replicate (Suc (Suc (Suc 0))) i) s =
        Ret (s\<lparr>shared_err := None, pcs := (pcs s)[i := AtEnd],
               written := written s @ [(keys ! i, plugin_Name (kind pl), GetWeight (base pl), 100)]\<rparr>)"
      using None Suc.prems by (simp add: ping_step_def)
    moreover have "\<exists>j. ?retry - Suc n \<le> j \<and> j < ?retry \<and> ?dial j = None"
      using None Suc.prems(3) by (intro exI [of _ ?j]) auto
    ultimately show ?thesis
      by (intro exI [of _ "Suc (Suc (Suc 0))"] exI conjI) (auto simp: GetWeight_def)
  next
    case (Some e)
    let ?s2 = "?s1\<lparr>pcs := (pcs s)[i := AtLoop n]\<rparr>"
    have s2: "ping_run w pl keys (i # sched) ?s1 = ping_run w pl keys sched ?s2" for sched
      using Some Suc.prems by (simp add: ping_step_def)
    obtain m s' where m: "ping_run w pl keys (replicate m i) ?s2 = Ret s'" "pcs s' = (pcs ?s2)[i := AtEnd]"
      "written s' = written ?s2 @ [(keys ! i, plugin_Name (kind pl), Weight (base pl),
         if \<exists>j. ?retry - n \<le> j \<and> j < ?retry \<and> ?dial j = None then 100 else 0)]"
      using Suc.IH [of ?s2] Suc.prems Some by auto
    have "(\<exists>j. ?retry - Suc n \<le> j \<and> j < ?retry \<and> ?dial j = None) \<longleftrightarrow>
        (\<exists>j. ?retry - n \<le> j \<and> j < ?retry \<and> ?dial j = None)"
    proof -
      have k: "?retry - n = Suc ?j" using Suc.prems(3) by simp
      have "(\<exists>j. k \<le> j \<and> j < r \<and> ?dial j = None) \<longleftrightarrow> (\<exists>j. Suc k \<le> j \<and> j < r \<and> ?dial j = None)"
        if "?dial k = Some e" for k r
        using that by (metis Suc_leD Suc_leI le_eq_less_or_eq option.distinct(1))
      from this [OF Some, of ?retry] show ?thesis unfolding k .
    qed
    moreover have "ping_run w pl keys (replicate (Suc (Suc m)) i) s = Ret s'"
      unfolding replicate_Suc s1 s2 by (rule m(1))
    ultimately show ?thesis
      using m(2,3) by (intro exI [of _ "Suc (Suc m)"] exI [of _ s']) simp
  qed
qed

lemma apply_write_keys: "set (mkeys (foldl apply_write c ws)) = set (mkeys c) \<union> fst ` set ws"
proof (induction ws arbitrary: c)
  case (Cons x ws)
  then show ?case
    by (cases x) (simp add: SetCheckInfo_keys [simplified] Cons.IH [simplified])
qed simp

lemma apply_write_wf: "checkinfo_wf c \<Longrightarrow> checkinfo_wf (foldl apply_write c ws)"
  by (induction ws arbitrary: c) (auto simp: SetCheckInfo_wf)

text \<open>The score that a list of writes leaves for an address and a plugin.\<close>

definition score_of :: "CheckInfoData \<Rightarrow> string \<Rightarrow> string \<Rightarrow> float64 option" where
  "score_of c ip name = (case mget c ip of None \<Rightarrow> None | Some m \<Rightarrow> mget m name)"

lemma score_of_write:
  "score_of (SetCheckInfo ip n w s c) ip' n' =
     (if ip' = ip \<and> n' = n then Some (f_mul (f_of_int s) w) else score_of c ip' n')"
  by (auto simp: score_of_def SetCheckInfo_row mget0_def gomap split: option.split)

definition write_key :: "check_write \<Rightarrow> string \<times> string" where
  "write_key x = (fst x, fst (snd x))"

lemma score_of_writes:
  assumes "distinct (map write_key ws)"
  shows "score_of (foldl apply_write c ws) ip n =
     (case find (\<lambda>x. write_key x = (ip, n)) ws of
        None \<Rightarrow> score_of c ip n | Some (_, _, w, s) \<Rightarrow> Some (f_mul (f_of_int s) w))"
  using assms
proof (induction ws arbitrary: c)
  case (Cons x ws)
  obtain ip' n' w s where x: "x = (ip', n', w, s)" by (cases x) auto
  have "find (\<lambda>x. write_key x = (ip, n)) ws = None" if "write_key x = (ip, n)"
    using Cons.prems that by (auto simp: find_None_iff) (metis imageI)
  with Cons show ?case
    by (auto simp: x score_of_write write_key_def split: option.split)
qed simp

lemma find_perm:
  assumes "mset ws = mset ws'" "distinct (map f ws)"
  shows "find (\<lambda>x. f x = k) ws = find (\<lambda>x. f x = k) ws'"
proof -
  have d: "distinct (map f ws')" using assms by (metis mset_eq_imp_distinct_iff mset_map)
  have iff: "find (\<lambda>x. f x = k) xs = Some x \<longleftrightarrow> x \<in> set xs \<and> f x = k" if "distinct (map f xs)" for xs x
    using that by (induction xs) (auto simp: image_iff)
  have "set ws = set ws'" using assms(1) by (metis set_mset_mset)
  then have "find (\<lambda>x. f x = k) ws = Some x \<longleftrightarrow> find (\<lambda>x. f x = k) ws' = Some x" for x
    by (simp add: iff [OF assms(2)] iff [OF d])
  then show ?thesis by (metis option.exhaust)
qed

section \<open>Properties\<close>

lemma set_para_simps:
  assumes "\<And>c. c \<in> set v \<Longrightarrow> c \<noteq> CHR ''='' \<and> \<not> isSpace c"
  shows "set_para pf nm (''timeout='' @ v) p = Ret (p\<lparr>HealthCheckoutTimeOut := Atoi v, PluginName := nm\<rparr>)"
    and "set_para pf nm (''retrytime='' @ v) p = Ret (p\<lparr>HealthCheckRetryTime := Atoi v, PluginName := nm\<rparr>)"
    and "set_para pf nm (''weight='' @ v) p = Ret (p\<lparr>Weight := pf v, PluginName := nm\<rparr>)"
    and "set_para pf nm (''port='' @ v) p = Ret (p\<lparr>Port := Atoi v, PluginName := nm\<rparr>)"
proof -
  have v: "Split v (CHR ''='') = [v]" "TrimSpace v = v"
    using assms by (blast intro: Split_none TrimSpace_none)+
  note d = set_para_def Let_def para_arg_def v TrimSpace_def isSpace_def
  show "set_para pf nm (''timeout='' @ v) p = Ret (p\<lparr>HealthCheckoutTimeOut := Atoi v, PluginName := nm\<rparr>)"
    using v(2) by (simp add: d)
  show "set_para pf nm (''retrytime='' @ v) p = Ret (p\<lparr>HealthCheckRetryTime := Atoi v, PluginName := nm\<rparr>)"
    using v(2) by (simp add: d)
  show "set_para pf nm (''weight='' @ v) p = Ret (p\<lparr>Weight := pf v, PluginName := nm\<rparr>)"
    using v(2) by (simp add: d)
  show "set_para pf nm (''port='' @ v) p = Ret (p\<lparr>Port := Atoi v, PluginName := nm\<rparr>)"
    using v(2) by (simp add: d)
qed

text \<open>
  A plugin whose parameters are given as timeout=..,retrytime=..,weight=..,port=.. gets exactly
  those values, for every number in the range of int, and is appended to the list of plugins.
\<close>

theorem plugin_Set_roundtrip:
  assumes "\<And>n. n \<in> {t, r, p} \<Longrightarrow> - (2 ^ 63) \<le> n \<and> n < 2 ^ 63"
    and "\<And>c. c \<in> set wt \<Longrightarrow> c \<noteq> CHR ''='' \<and> c \<noteq> CHR '','' \<and> \<not> isSpace c"
  shows "plugin_Set pf (''timeout='' @ Itoa t @ '',retrytime='' @ Itoa r @ '',weight='' @ wt @ '',port='' @ Itoa p) pl ps =
    (let pl' = pl\<lparr>base := NewBasePlugin t r p (pf wt) (plugin_Name (kind pl))\<rparr> in Ret (pl', ps @ [pl']))"
proof -
  have nc: "CHR '','' \<notin> set (''timeout='' @ Itoa t)" "CHR '','' \<notin> set (''retrytime='' @ Itoa r)"
    "CHR '','' \<notin> set (''weight='' @ wt)" "CHR '','' \<notin> set (''port='' @ Itoa p)"
    using Itoa_chars assms(2) by auto
  have "Split (''timeout='' @ Itoa t @ '',retrytime='' @ Itoa r @ '',weight='' @ wt @ '',port='' @ Itoa p) (CHR '','') =
      [''timeout='' @ Itoa t, ''retrytime='' @ Itoa r, ''weight='' @ wt, ''port='' @ Itoa p]"
    using Split_append [OF nc(1)] Split_append [OF nc(2)] Split_append [OF nc(3)] Split_none [OF nc(4)]
    by simp
  moreover have i: "c \<noteq> CHR ''='' \<and> \<not> isSpace c" if "c \<in> set (Itoa n)" for c n
    using Itoa_chars that by blast
  moreover have "c \<noteq> CHR ''='' \<and> \<not> isSpace c" if "c \<in> set wt" for c
    using assms(2) that by blast
  ultimately show ?thesis
    using assms(1)
    by (simp add: plugin_Set_def set_para_simps [OF i, simplified] set_para_simps [where v = wt, simplified]
        Atoi_Itoa AddPlugin_def NewBasePlugin_def Let_def)
qed

definition sample_plugin :: "plugin_kind \<Rightarrow> CheckPlugin" where
  "sample_plugin k = \<lparr>kind = k, base = NewBasePlugin 3 1 80 (Fin 1) (plugin_Name k)\<rparr>"

theorem plugin_Set_roundtrip_witness:
  "plugin_Set (\<lambda>_. Fin 1) (''timeout='' @ Itoa 3 @ '',retrytime='' @ Itoa 1 @ '',weight='' @ ''1.0'' @ '',port='' @ Itoa 80)
     (sample_plugin PingCheckPlugin) [] =
   Ret (sample_plugin PingCheckPlugin, [sample_plugin PingCheckPlugin])"
  by (subst plugin_Set_roundtrip) (auto simp: sample_plugin_def isSpace_def Let_def)

text \<open>
  CheckExecute of the two kubelet plugins. It reports one score per address of the table: 100
  when the request could be made and one of the retrytime attempts was answered with status 200,
  and 0 otherwise. With retrytime zero or less the failing probe has no error and the log call that
  prints it panics. The wait returns exactly when the table has as many addresses at the copy
  as it had when the wait group was set up.
\<close>

theorem kubelet_CheckExecute_scores:
  assumes "checkinfo_wf c1"
  shows "KubeletCheck_CheckExecute w pl c0 c1 =
      (if HealthCheckRetryTime (base pl) \<le> 0 \<and> (\<exists>ip \<in> set (mkeys c1). ping_ready w ip (Port (base pl))) then Panic
       else Ret (map (\<lambda>ip. (ip, plugin_Name (kind pl), Weight (base pl),
              if ping_ready w ip (Port (base pl)) \<and>
                 (\<exists>i < nat (HealthCheckRetryTime (base pl)). ping_answered w ip (Port (base pl)) i)
              then 100 else 0)) (mkeys c1)),
       if length c0 = length c1 then WgReturns else if length c0 < length c1 then WgPanics else WgBlocks) \<and>
    KubeletAuthCheck_CheckExecute w pl c0 c1 =
      (if HealthCheckRetryTime (base pl) \<le> 0 \<and> (\<exists>ip \<in> set (mkeys c1). authping_ready w ip (Port (base pl))) then Panic
       else Ret (map (\<lambda>ip. (ip, plugin_Name (kind pl), Weight (base pl),
              if authping_ready w ip (Port (base pl)) \<and>
                 (\<exists>i < nat (HealthCheckRetryTime (base pl)). authping_answered w ip (Port (base pl)) i)
              then 100 else 0)) (mkeys c1)),
       if length c0 = length c1 then WgReturns else if length c0 < length c1 then WgPanics else WgBlocks)"
  using assms
  by (auto simp: KubeletCheck_CheckExecute_def KubeletAuthCheck_CheckExecute_def Let_def CopyCheckInfo_eq
      kubelet.goroutines kubelet_auth.goroutines wg_wait_def)

text \<open>A world in which one address answers and no other does.\<close>

definition sample_world :: "string \<Rightarrow> world" where
  "sample_world up =
     \<lparr>NewRequest = (\<lambda>m u. None),
      client_Do = (\<lambda>u h i. if u = ping_url up 80 then HttpResp 200 (Inr []) else HttpErr ''refused''),
      ReadTokenFile = Inr ''t'',
      DialTimeout = (\<lambda>a t i. if a = up @ '':80'' then None else Some ''refused'')\<rparr>"

theorem kubelet_CheckExecute_scores_witness:
  "KubeletCheck_CheckExecute (sample_world ''a'') (sample_plugin KubeletCheckPlugin) [] [(''a'', []), (''b'', [])] =
     (Ret [(''a'', ''KubeletCheck'', Fin 1, 100), (''b'', ''KubeletCheck'', Fin 1, 0)], WgPanics)"
proof -
  have "checkinfo_wf [(''a'', []), (''b'', [])]" by (simp add: checkinfo_wf_def mwf_def)
  from kubelet_CheckExecute_scores [OF this, of "sample_world ''a''" "sample_plugin KubeletCheckPlugin" "[]"]
  show ?thesis
    by (simp add: sample_world_def sample_plugin_def NewBasePlugin_def ping_ready_def ping_answered_def ping_url_def StatusOK_def)
qed

text \<open>
  A goroutine of PingCheck that runs without interference from the others, in whatever state
  they left the shared err variable, ends, and records 100 exactly when one of its dials succeeds.
\<close>

theorem PingCheck_undisturbed:
  assumes "i < length (pcs s)" "pcs s ! i = AtLoop (nat (HealthCheckRetryTime (base pl)))"
    and "HealthCheckRetryTime (base pl) > 0"
  shows "\<exists>m s'. ping_run w pl keys (replicate m i) s = Ret s' \<and> pcs s' = (pcs s)[i := AtEnd] \<and>
    written s' = written s @ [(keys ! i, plugin_Name (kind pl), Weight (base pl),
      if \<exists>j < nat (HealthCheckRetryTime (base pl)).
           DialTimeout w (keys ! i @ '':'' @ Itoa (Port (base pl))) (HealthCheckoutTimeOut (base pl)) j = None
      then 100 else 0)]"
  using ping_run_alone [OF assms(1,2) order_refl] assms(3) by auto

lemma Itoa_80 [simp]: "Itoa 80 = ''80''"
  by (simp add: Itoa_def natDigits.simps [of 80] natDigits.simps [of 8] char_of_def bit_Suc_0_iff)

theorem PingCheck_undisturbed_witness:
  "\<exists>m s'. ping_run (sample_world ''a'') (sample_plugin PingCheckPlugin) [''b'', ''a''] (replicate m 0)
       (ping_start (sample_plugin PingCheckPlugin) [''b'', ''a'']) = Ret s' \<and>
     pcs s' = [AtEnd, AtLoop 1] \<and> written s' = [(''b'', ''PingCheck'', Fin 1, 0)]"
  using PingCheck_undisturbed [of 0 "ping_start (sample_plugin PingCheckPlugin) [''b'', ''a'']"
      "sample_plugin PingCheckPlugin" "sample_world ''a''" "[''b'', ''a'']"]
  by (simp add: ping_start_def sample_plugin_def sample_world_def NewBasePlugin_def)

text \<open>
  Because the goroutines share err, a schedule exists in which an address that refuses every
  dial is recorded with the full score, and another one in which the process panics; in both the
  only other address is reachable and every parameter is ordinary.
\<close>

theorem PingCheck_shared_err_race:
  "let w = sample_world ''a''; pl = sample_plugin PingCheckPlugin; c = [(''b'', []), (''a'', [])] in
     (\<forall>t i. DialTimeout w ''b:80'' t i \<noteq> None) \<and>
     PingCheck_CheckExecute w [0, 1, 0, 0, 1, 1] pl c c =
       (Ret [(''b'', ''PingCheck'', Fin 1, 100), (''a'', ''PingCheck'', Fin 1, 100)], WgReturns) \<and>
     PingCheck_CheckExecute w [0, 0, 0, 0, 1, 0] pl c c = (Panic, WgPanics)"
  by (simp add: PingCheck_CheckExecute_def CopyCheckInfo_def copy_map_def ping_start_def sample_plugin_def
      sample_world_def NewBasePlugin_def ping_step_def Let_def wg_wait_def GetWeight_def eval_nat_numeral)

end
