(* ===== verification/HealthCheck.thy ===== *)
theory HealthCheck
  imports HealthPlugins
begin

text \<open>
  The check loop of edge-health (\<open>src/pkg/edge-health/check\<close>): the informer handlers that keep the
  node and config map lists (\<open>node_meta_manager.go\<close>, \<open>configmap_manager.go\<close>), the pod index
  (\<open>pod_manager.go\<close>), and \<open>CheckEdge\<close> (\<open>check.go\<close>), which decides whom to check, runs the
  plugins and turns their scores into verdicts.

  The listers and the indexer of client-go are arguments: functions from a query to what the local
  cache answers. The label selectors that the code builds are data.
\<close>

section \<open>Informer handlers\<close>

record Pod =
  PodIP :: string
  HostIP :: string
  pod_NodeName :: string

text \<open>The objects a handler may be given; \<open>ObjOther\<close> is anything else, tombstones included.\<close>

datatype informer_obj = ObjPod Pod | ObjNode ObjectMeta | ObjConfigMap ConfigMap | ObjOther

fun handleNodeAddUpdate :: "informer_obj \<Rightarrow> ObjectMeta list \<Rightarrow> ObjectMeta list" where
  "handleNodeAddUpdate (ObjNode node) l = SetNodeListDataByNode node l"
| "handleNodeAddUpdate _ l = l"

fun handleNodeDelete :: "informer_obj \<Rightarrow> ObjectMeta list \<Rightarrow> ObjectMeta list" where
  "handleNodeDelete (ObjNode node) l = DeleteNodeListDataByNode node l"
| "handleNodeDelete _ l = l"

fun handleConfigMapAddUpdate :: "informer_obj \<Rightarrow> ConfigMap list \<Rightarrow> ConfigMap list" where
  "handleConfigMapAddUpdate (ObjConfigMap config) l = SetConfigListData config l"
| "handleConfigMapAddUpdate _ l = l"

fun handleConfigMapDelete :: "informer_obj \<Rightarrow> ConfigMap list \<Rightarrow> ConfigMap list" where
  "handleConfigMapDelete (ObjConfigMap config) l = DeleteConfigListData config l"
| "handleConfigMapDelete _ l = l"

section \<open>pod\_manager.go\<close>

fun PodIPKeyFunc :: "informer_obj \<Rightarrow> string list" where
  "PodIPKeyFunc (ObjPod pod) = [PodIP pod]"
| "PodIPKeyFunc _ = []"

fun NodeIPKeyFunc :: "informer_obj \<Rightarrow> string list" where
  "NodeIPKeyFunc (ObjPod pod) = [HostIP pod]"
| "NodeIPKeyFunc _ = []"

fun NodeNameKeyFunc :: "informer_obj \<Rightarrow> string list" where
  "NodeNameKeyFunc (ObjPod pod) = [pod_NodeName pod]"
| "NodeNameKeyFunc _ = []"

definition NodeIPIndexKey :: string where "NodeIPIndexKey = ''NodeIP''"

definition NodeNameIndexKey :: string where "NodeNameIndexKey = ''NodeName''"

text \<open>\<open>podStore.ByIndex\<close>; the controller or its store may be nil.\<close>

type_synonym pod_store = "(string \<Rightarrow> string \<Rightarrow> go_error + Pod list) option"

definition GetPodIPByNodeIP :: "pod_store \<Rightarrow> string \<Rightarrow> go_error + string" where
  "GetPodIPByNodeIP n nodeIP =
     (case n of None \<Rightarrow> Inl ''podStore is not initialized'' | Some ByIndex \<Rightarrow>
      (case ByIndex NodeIPIndexKey nodeIP of
         Inl err \<Rightarrow> Inl err
       | Inr [] \<Rightarrow> Inl ''failed to get pods by NodeIP %s''
       | Inr [pod] \<Rightarrow> Inr (PodIP pod)
       | Inr (_ # _ # _) \<Rightarrow> Inl ''multi pods return by NodeIP %s''))"

definition GetNodeIPByNodeName :: "pod_store \<Rightarrow> string \<Rightarrow> go_error + string" where
  "GetNodeIPByNodeName n nodeName =
     (case n of None \<Rightarrow> Inl ''podStore is not initialized'' | Some ByIndex \<Rightarrow>
      (case ByIndex NodeNameIndexKey nodeName of
         Inl err \<Rightarrow> Inl err
       | Inr [] \<Rightarrow> Inl ''failed to get pods by nodeName %s''
       | Inr [pod] \<Rightarrow> Inr (HostIP pod)
       | Inr (_ # _ # _) \<Rightarrow> Inl ''multi pods return by nodeName %s''))"

definition GetNodeNameByNodeIP :: "pod_store \<Rightarrow> string \<Rightarrow> go_error + string" where
  "GetNodeNameByNodeIP n nodeIP =
     (case n of None \<Rightarrow> Inl ''podStore is not initialized'' | Some ByIndex \<Rightarrow>
      (case ByIndex NodeIPIndexKey nodeIP of
         Inl err \<Rightarrow> Inl err
       | Inr [] \<Rightarrow> Inl ''failed to get pods by nodeIP %s''
       | Inr [pod] \<Rightarrow> Inr (pod_NodeName pod)
       | Inr (_ # _ # _) \<Rightarrow> Inl ''multi pods return by nodeIP %s''))"

section \<open>GetNodeList\<close>

datatype selector = DoesNotExist string | Nothing | MatchLabels "(string, string) gomap"

datatype api_error = NotFound | OtherError go_error

record listers =
  node_Get :: "string \<Rightarrow> go_error + ObjectMeta"
  node_List :: "selector \<Rightarrow> go_error + ObjectMeta list"
  configmap_Get :: "string \<Rightarrow> string \<Rightarrow> api_error + ConfigMap"
  LabelSelectorAsSelector :: "(string, string) gomap \<Rightarrow> go_error + selector"

text \<open>The package-level variables of \<open>common\<close>.\<close>

record common =
  Namespace :: string
  NodeName :: string
  NodeIP :: string

definition MasterLabel :: string where "MasterLabel = ''node-role.kubernetes.io/master''"
definition EdgeHealthConfigMapName :: string where "EdgeHealthConfigMapName = ''edge-health-config''"
definition HealthCheckUnitEnable :: string where "HealthCheckUnitEnable = ''unit-internal-check''"
definition HealthCheckUnitsKey :: string where "HealthCheckUnitsKey = ''check-units''"

text \<open>The selector for the nodes of the units that the configuration names and the host is in.\<close>

definition unit_selector :: "listers \<Rightarrow> ObjectMeta \<Rightarrow> ConfigMap \<Rightarrow> go_error + selector" where
  "unit_selector L host config =
     (let unitLabel = filter (\<lambda>(k, v). v = NodeUnitSuperedge) (Labels host) in
      case mget (cmData config) HealthCheckUnitsKey of
        None \<Rightarrow> Inr Nothing
      | Some units \<Rightarrow>
          if units = [] then Inr Nothing
          else LabelSelectorAsSelector L
            (foldl (\<lambda>m u. let trimName = TrimSpace u in
                 (case mget unitLabel trimName of None \<Rightarrow> m | Some v \<Rightarrow> mput trimName v m))
               [] (Split units (CHR '',''))))"

text \<open>The part of \<open>GetNodeList\<close> up to the update of the node list; \<open>Inl\<close> is an early return.\<close>

definition select_nodes :: "listers \<Rightarrow> common \<Rightarrow> go_error + ObjectMeta list" where
  "select_nodes L env =
     (case node_Get L (NodeName env) of
        Inl err \<Rightarrow> Inl err
      | Inr host \<Rightarrow>
          (case configmap_Get L (Namespace env) EdgeHealthConfigMapName of
             Inl NotFound \<Rightarrow> node_List L (DoesNotExist MasterLabel)
           | Inl (OtherError err) \<Rightarrow> Inl err
           | Inr config \<Rightarrow>
               if mget0 [] (cmData config) HealthCheckUnitEnable = ''false''
               then node_List L (DoesNotExist MasterLabel)
               else (case unit_selector L host config of
                       Inl err \<Rightarrow> Inl err
                     | Inr nodeSelector \<Rightarrow> node_List L nodeSelector)))"

record health_state =
  NodeList :: "ObjectMeta list"
  CheckInfoResult :: CheckInfoData
  Result :: ResultData

definition collect_ips :: "pod_store \<Rightarrow> ObjectMeta list \<Rightarrow> CheckInfoData \<Rightarrow> (string, bool) gomap \<times> CheckInfoData" where
  "collect_ips pods nodes c =
     foldl (\<lambda>(iplist, c) node.
        case GetNodeIPByNodeName pods (objName node) of
          Inl err \<Rightarrow> (iplist, c)
        | Inr nodeIP \<Rightarrow> (mput nodeIP True iplist, SetCheckedIpCheckInfo nodeIP c))
       ([], c) nodes"

definition prune_checkinfo :: "(string, bool) gomap \<Rightarrow> CheckInfoData \<Rightarrow> CheckInfoData" where
  "prune_checkinfo iplist c =
     foldl (\<lambda>c v. if mhas iplist v then c else DeleteCheckedIpCheckInfo v c) c (TraverseCheckedIpCheckInfo c)"

definition prune_result :: "string \<Rightarrow> (string, bool) gomap \<Rightarrow> ResultData \<Rightarrow> ResultData" where
  "prune_result nodeIP iplist r =
     foldl (\<lambda>r k. if mhas iplist k then r else DeleteResultData nodeIP k r) r (mkeys (CopyResultDataAll r))"

definition GetNodeList :: "listers \<Rightarrow> common \<Rightarrow> pod_store \<Rightarrow> health_state \<Rightarrow> health_state" where
  "GetNodeList L env pods s =
     (case select_nodes L env of
        Inl err \<Rightarrow> s
      | Inr nodes \<Rightarrow>
          (let nl = SetNodeListDataByNodeSlice nodes (NodeList s);
               (iplist, c) = collect_ips pods (CopyNodeListData nl) (CheckInfoResult s)
           in s\<lparr>NodeList := nl, CheckInfoResult := prune_checkinfo iplist c,
                Result := prune_result (NodeIP env) iplist (Result s)\<rparr>))"

section \<open>Check\<close>

record CheckEdge =
  HealthCheckPeriod :: int
  CheckPlugins :: "(string, CheckPlugin) gomap"
  HealthCheckScoreLine :: float64

definition NewCheckEdge :: "CheckPlugin list \<Rightarrow> int \<Rightarrow> float64 \<Rightarrow> CheckEdge" where
  "NewCheckEdge checkplugins healthcheckperiod healthCheckScoreLine =
     \<lparr>HealthCheckPeriod = healthcheckperiod,
      CheckPlugins = foldl (\<lambda>m v. mput (plugin_Name (kind v)) v m) [] checkplugins,
      HealthCheckScoreLine = healthCheckScoreLine\<rparr>"

definition AddCheckPlugin :: "CheckPlugin list \<Rightarrow> CheckEdge \<Rightarrow> CheckEdge" where
  "AddCheckPlugin plugins c =
     c\<lparr>CheckPlugins := foldl (\<lambda>m p. mput (plugin_Name (kind p)) p m) (CheckPlugins c) plugins\<rparr>"

definition CheckPluginsLen :: "CheckEdge \<Rightarrow> int" where
  "CheckPluginsLen c = int (length (CheckPlugins c))"

definition GetHealthCheckPeriod :: "CheckEdge \<Rightarrow> int" where
  "GetHealthCheckPeriod c = HealthCheckPeriod c"

definition totalscore :: "(string, float64) gomap \<Rightarrow> float64" where
  "totalscore plugins = foldl (\<lambda>t (_, score). f_add t score) (Fin 0) plugins"

definition verdict :: "float64 \<Rightarrow> (string, float64) gomap \<Rightarrow> ResultDetail" where
  "verdict line plugins =
     (if f_ge (totalscore plugins) line then \<lparr>Normal = True, rd_Hmac = '''', Time = 0\<rparr>
      else \<lparr>Normal = False, rd_Hmac = '''', Time = 0\<rparr>)"

fun record_verdicts :: "string \<Rightarrow> float64 \<Rightarrow> CheckInfoData \<Rightarrow> ResultData \<Rightarrow> ResultData go" where
  "record_verdicts nodeIP line [] r = Ret r"
| "record_verdicts nodeIP line ((desip, plugins) # rest) r =
     go_bind (SetResultFromCheckInfo nodeIP desip (verdict line plugins) r) (record_verdicts nodeIP line rest)"

datatype check_outcome = CheckPanics | CheckBlocks | Checked CheckInfoData ResultData

text \<open>The writes of a plugin run that did not panic.\<close>

fun run_writes :: "check_write list go \<times> wg_outcome \<Rightarrow> check_write list" where
  "run_writes (Ret ws, _) = ws"
| "run_writes (Panic, _) = []"

text \<open>
  One round of \<open>Check\<close>. The plugins run concurrently; \<open>sched\<close> is the order in which the runtime lets
  their writes happen, and \<open>pingsched\<close> the interleaving inside \<open>PingCheck\<close>. The round is one in
  which \<open>GetNodeList\<close> does not change the table at the same time.
\<close>

definition Check ::
    "world \<Rightarrow> nat list \<Rightarrow> (check_write list \<Rightarrow> check_write list) \<Rightarrow> string \<Rightarrow> CheckEdge \<Rightarrow>
     CheckInfoData \<Rightarrow> ResultData \<Rightarrow> check_outcome" where
  "Check w pingsched sched nodeIP ce c r =
     (let runs = map (\<lambda>(name, plugin). CheckExecute w pingsched plugin c c) (CheckPlugins ce) in
      if list_ex (\<lambda>(ws, wg). ws = Panic \<or> wg = WgPanics) runs then CheckPanics
      else if list_ex (\<lambda>(ws, wg). wg = WgBlocks) runs then CheckBlocks
      else (let c' = foldl apply_write c (sched (concat (map run_writes runs)))
            in case record_verdicts nodeIP (HealthCheckScoreLine ce) (CopyCheckInfo c') r of
                 Panic \<Rightarrow> CheckPanics
               | Ret r' \<Rightarrow> Checked c' r'))"

section \<open>The node list\<close>

fun node_event :: "ObjectMeta list \<Rightarrow> ObjectMeta event \<Rightarrow> ObjectMeta list" where
  "node_event l (AddUpdate x) = handleNodeAddUpdate (ObjNode x) l"
| "node_event l (Deleted x) = handleNodeDelete (ObjNode x) l"

fun config_event :: "ConfigMap list \<Rightarrow> ConfigMap event \<Rightarrow> ConfigMap list" where
  "config_event l (AddUpdate x) = handleConfigMapAddUpdate (ObjConfigMap x) l"
| "config_event l (Deleted x) = handleConfigMapDelete (ObjConfigMap x) l"

lemma node_event_store: "node_event = store_event SetNodeListDataByNode DeleteNodeListDataByNode"
proof (intro ext)
  fix l e show "node_event l e = store_event SetNodeListDataByNode DeleteNodeListDataByNode l e"
    by (cases e) auto
qed

lemma config_event_store: "config_event = store_event SetConfigListData DeleteConfigListData"
proof (intro ext)
  fix l e show "config_event l e = store_event SetConfigListData DeleteConfigListData l e"
    by (cases e) auto
qed

lemma apply_events_local: "m n = m' n \<Longrightarrow> foldl (apply_event name) m es n = foldl (apply_event name) m' es n"
proof (induction es arbitrary: m m')
  case (Cons e es)
  have "apply_event name m e n = apply_event name m' e n" using Cons.prems by (cases e) auto
  from Cons.IH [of "apply_event name m e" "apply_event name m' e", OF this] show ?case by simp
qed simp

text \<open>
  The informer handlers implement a map from names to objects. After any sequence of add, update
  and delete events, looking a name up in the node list, or in the config map list, gives what the
  same events leave in an initially empty map; the five blank entries that the node list starts with
  are visible under the empty name only.
\<close>

theorem informer_lists_refine_maps:
  assumes "\<And>e. e \<in> set es \<Longrightarrow> objName (event_object e) \<noteq> []"
    and "\<And>e. e \<in> set cs \<Longrightarrow> cmName (event_object e) \<noteq> []"
    and "n \<noteq> []"
  shows "findBy objName (foldl node_event NewNodeListData es) n = foldl (apply_event objName) Map.empty es n \<and>
    findBy cmName (foldl config_event NewConfigMapListData cs) n = foldl (apply_event cmName) Map.empty cs n"
proof -
  have "findBy objName NewNodeListData n = None" "findBy cmName NewConfigMapListData n = None"
    using assms(3) by (simp_all add: findBy_None NewNodeListData_def NewConfigMapListData_def zero_meta_def)
  with nodes.lookup_events [OF names_ok_new(1) assms(1)] configs.lookup_events [OF names_ok_new(2) assms(2)]
  show ?thesis
    unfolding node_event_store config_event_store by (auto intro: apply_events_local)
qed

definition meta :: "string \<Rightarrow> ObjectMeta" where
  "meta n = \<lparr>objName = n, Labels = [], Annotations = []\<rparr>"

theorem informer_lists_refine_maps_witness:
  "findBy objName (foldl node_event NewNodeListData [AddUpdate (meta ''a''), AddUpdate (meta ''b''), Deleted (meta ''a'')]) ''b''
     = Some (meta ''b'')"
  using informer_lists_refine_maps [of "[AddUpdate (meta ''a''), AddUpdate (meta ''b''), Deleted (meta ''a'')]" "[]" "''b''"]
  by (fastforce simp: meta_def)

section \<open>GetNodeList\<close>

definition node_ips :: "pod_store \<Rightarrow> ObjectMeta list \<Rightarrow> string set" where
  "node_ips pods nodes = {ip. \<exists>node \<in> set nodes. GetNodeIPByNodeName pods (objName node) = Inr ip}"

lemma collect_ips_spec:
  assumes "collect_ips pods nodes c = (iplist, c')"
  shows "mhas iplist ip \<longleftrightarrow> ip \<in> node_ips pods nodes"
    and "mget c' ip = (if ip \<in> node_ips pods nodes then Some (mget0 [] c ip) else mget c ip)"
    and "checkinfo_wf c \<Longrightarrow> checkinfo_wf c'"
proof -
  have "(mhas iplist ip \<longleftrightarrow> ip \<in> node_ips pods nodes) \<and>
      mget c' ip = (if ip \<in> node_ips pods nodes then Some (mget0 [] c ip) else mget c ip) \<and>
      (checkinfo_wf c \<longrightarrow> checkinfo_wf c')"
    using assms
  proof (induction nodes arbitrary: iplist c' rule: rev_induct)
    case Nil
    then show ?case by (simp add: collect_ips_def node_ips_def)
  next
    case (snoc node nodes)
    obtain ipl c1 where prev: "collect_ips pods nodes c = (ipl, c1)" by fastforce
    have ips: "node_ips pods (nodes @ [node]) = node_ips pods nodes \<union> {ip. GetNodeIPByNodeName pods (objName node) = Inr ip}"
      by (auto simp: node_ips_def)
    show ?case
      using snoc.prems snoc.IH [OF prev] prev
      by (auto simp: collect_ips_def ips SetCheckedIpCheckInfo_def mget0_def gomap
          intro: checkinfo_wf_mput split: sum.splits option.splits if_splits)
  qed
  then show "mhas iplist ip \<longleftrightarrow> ip \<in> node_ips pods nodes"
    "mget c' ip = (if ip \<in> node_ips pods nodes then Some (mget0 [] c ip) else mget c ip)"
    "checkinfo_wf c \<Longrightarrow> checkinfo_wf c'" by auto
qed

lemma prune_fold:
  "mget (foldl (\<lambda>c v. if mhas ipl v then c else DeleteCheckedIpCheckInfo v c) c vs) ip =
     (if ip \<in> set vs \<and> \<not> mhas ipl ip then None else mget c ip)"
  by (induction vs arbitrary: c) (auto simp: DeleteCheckedIpCheckInfo_def gomap)

lemma prune_checkinfo_spec: "mget (prune_checkinfo ipl c) ip = (if mhas ipl ip then mget c ip else None)"
  unfolding prune_checkinfo_def prune_fold TraverseCheckedIpCheckInfo_def
  by (auto simp: in_mkeys)

lemma prune_checkinfo_wf: "checkinfo_wf c \<Longrightarrow> checkinfo_wf (prune_checkinfo ipl c)"
proof -
  have "checkinfo_wf c \<Longrightarrow> checkinfo_wf (foldl (\<lambda>c v. if mhas ipl v then c else DeleteCheckedIpCheckInfo v c) c vs)" for vs
    by (induction vs arbitrary: c) (auto intro: DeleteCheckedIpCheckInfo_wf)
  then show "checkinfo_wf c \<Longrightarrow> ?thesis" by (simp add: prune_checkinfo_def)
qed

lemma DeleteResultData_spec:
  "mget (DeleteResultData n k r) x =
     (if x = k then None else if x = n then map_option (map_option (mdel k)) (mget r n) else mget r x)"
  by (auto simp: DeleteResultData_def result_row_def mget0_def gomap split: option.splits)

lemma mdel_filter: "mdel k m = filter (\<lambda>(k', _). k \<noteq> k') m"
  by (simp add: AList.delete_eq)

lemma prune_result_fold:
  "mget (foldl (\<lambda>r k. if keep k then r else DeleteResultData n k r) r ks) x =
     (if x \<in> set ks \<and> \<not> keep x then None
      else if x = n then map_option (map_option (filter (\<lambda>(k, _). k \<notin> set ks \<or> keep k))) (mget r n)
      else mget r x)"
proof (induction ks arbitrary: r)
  case Nil
  have "map_option (filter (\<lambda>p. True)) row = row" for row :: result_row
    by (cases row) auto
  then show ?case by (cases "mget r n") (auto simp: case_prod_unfold)
next
  case (Cons k ks)
  have "filter (\<lambda>(k', _). k' \<notin> set ks \<or> keep k') (mdel k m) = filter (\<lambda>(k', _). k' \<notin> set (k # ks) \<or> keep k') m"
    if "\<not> keep k" for m :: "(string, ResultDetail) gomap"
    using that by (auto simp: mdel_filter intro!: filter_cong)
  moreover have "(\<lambda>(k', _). k' \<notin> set ks \<or> keep k') = (\<lambda>(k', _ :: ResultDetail). k' \<notin> set (k # ks) \<or> keep k')"
    if "keep k"
    using that by auto
  ultimately show ?case
    by (auto simp: Cons.IH DeleteResultData_spec option.map_comp comp_def)
qed

lemma prune_result_wf: "result_wf r \<Longrightarrow> result_wf (prune_result n ipl r)"
proof -
  have "result_wf r \<Longrightarrow> result_wf (foldl (\<lambda>r k. if mhas ipl k then r else DeleteResultData n k r) r ks)" for ks
    by (induction ks arbitrary: r) (auto intro: DeleteResultData_wf)
  then show "result_wf r \<Longrightarrow> ?thesis" by (simp add: prune_result_def)
qed

lemma prune_result_spec:
  assumes "result_wf r"
  shows "mget (prune_result n ipl r) x =
     (if \<not> mhas ipl x then None
      else if x = n then map_option (map_option (filter (\<lambda>(k, _). \<not> mhas r k \<or> mhas ipl k))) (mget r n)
      else mget r x)"
proof -
  have keys: "k \<in> set (mkeys (CopyResultDataAll r)) \<longleftrightarrow> mhas r k" for k
    using assms by (simp add: CopyResultDataAll_eq comp_def case_prod_unfold in_mkeys)
  show ?thesis
    unfolding prune_result_def prune_result_fold [where keep = "mhas ipl"] keys by auto
qed

lemma GetNodeList_eq:
  assumes "select_nodes L env = Inr nodes" "collect_ips pods nodes (CheckInfoResult s) = (ipl, c)"
  shows "GetNodeList L env pods s = s\<lparr>NodeList := nodes, CheckInfoResult := prune_checkinfo ipl c,
      Result := prune_result (NodeIP env) ipl (Result s)\<rparr>"
  using assms by (simp add: GetNodeList_def SetNodeListDataByNodeSlice_def CopyNodeListData_def)

lemma GetNodeList_keys:
  assumes "select_nodes L env = Inr nodes"
    and "checkinfo_wf (CheckInfoResult s)" "result_wf (Result s)"
  shows "set (mkeys (Result (GetNodeList L env pods s))) \<subseteq> set (mkeys (CheckInfoResult (GetNodeList L env pods s)))"
    and "result_wf (Result (GetNodeList L env pods s))" "mwf (CheckInfoResult (GetNodeList L env pods s))"
proof -
  obtain ipl c where c: "collect_ips pods nodes (CheckInfoResult s) = (ipl, c)" by fastforce
  note s' = GetNodeList_eq [OF assms(1) c]
  have "mget (prune_result (NodeIP env) ipl (Result s)) x \<noteq> None \<Longrightarrow> mget (prune_checkinfo ipl c) x \<noteq> None" for x
    using collect_ips_spec(1,2) [OF c, of x]
    by (simp add: prune_result_spec [OF assms(3)] prune_checkinfo_spec split: if_splits)
  then show "set (mkeys (Result (GetNodeList L env pods s))) \<subseteq> set (mkeys (CheckInfoResult (GetNodeList L env pods s)))"
    by (intro subsetI) (simp add: s' in_mkeys)
  show "result_wf (Result (GetNodeList L env pods s))" "mwf (CheckInfoResult (GetNodeList L env pods s))"
    using assms(2,3) collect_ips_spec(3) [OF c] prune_checkinfo_wf [of c ipl] by (simp_all add: s' prune_result_wf checkinfo_wf_def)
qed

text \<open>
  When GetNodeList finds the nodes to check, the check table has exactly their addresses
  afterwards, with the scores of the addresses it already had; only those addresses remain as
  checkers in the result table; and what the other remaining checkers reported is unchanged.
\<close>

theorem GetNodeList_prunes:
  assumes "select_nodes L env = Inr nodes"
    and "checkinfo_wf (CheckInfoResult s)" "result_wf (Result s)"
  shows "let s' = GetNodeList L env pods s; ips = node_ips pods nodes in
    NodeList s' = nodes \<and>
    (\<forall>ip. mget (CheckInfoResult s') ip = (if ip \<in> ips then Some (mget0 [] (CheckInfoResult s) ip) else None)) \<and>
    set (mkeys (Result s')) = set (mkeys (Result s)) \<inter> ips \<and>
    (\<forall>ip. ip \<noteq> NodeIP env \<longrightarrow> mget (Result s') ip = (if ip \<in> ips then mget (Result s) ip else None)) \<and>
    checkinfo_wf (CheckInfoResult s') \<and> result_wf (Result s')"
proof -
  obtain ipl c where c: "collect_ips pods nodes (CheckInfoResult s) = (ipl, c)" by fastforce
  note ips = collect_ips_spec(1) [OF c] and rows = collect_ips_spec(2) [OF c] and wf = collect_ips_spec(3) [OF c]
  note s' = GetNodeList_eq [OF assms(1) c]
  have "set (mkeys (prune_result (NodeIP env) ipl (Result s))) = set (mkeys (Result s)) \<inter> node_ips pods nodes"
    by (rule set_eqI, use assms(3) ips in \<open>simp add: in_mkeys prune_result_spec\<close>)
  with assms ips rows wf show ?thesis
    by (auto simp: s' Let_def prune_checkinfo_spec prune_checkinfo_wf prune_result_spec prune_result_wf)
qed

text \<open>A cluster of two nodes, a and b, without a health configuration.\<close>

definition sample_listers :: listers where
  "sample_listers =
     \<lparr>node_Get = (\<lambda>n. Inr (meta n)), node_List = (\<lambda>sel. Inr [meta ''a'', meta ''b'']),
      configmap_Get = (\<lambda>ns n. Inl NotFound), LabelSelectorAsSelector = (\<lambda>m. Inr (MatchLabels m))\<rparr>"

definition sample_env :: common where
  "sample_env = \<lparr>Namespace = ''kube-system'', NodeName = ''a'', NodeIP = ''10.0.0.1''\<rparr>"

definition sample_pods :: pod_store where
  "sample_pods = Some (\<lambda>idx key.
     Inr (filter (\<lambda>p. key \<in> {HostIP p, pod_NodeName p})
       [\<lparr>PodIP = ''1'', HostIP = ''10.0.0.1'', pod_NodeName = ''a''\<rparr>,
        \<lparr>PodIP = ''2'', HostIP = ''10.0.0.2'', pod_NodeName = ''b''\<rparr>]))"

lemma sample_select: "select_nodes sample_listers sample_env = Inr [meta ''a'', meta ''b'']"
  by (simp add: select_nodes_def sample_listers_def)

lemma sample_ips: "node_ips sample_pods [meta ''a'', meta ''b''] = {''10.0.0.1'', ''10.0.0.2''}"
  by (auto simp: node_ips_def GetNodeIPByNodeName_def sample_pods_def meta_def)

definition detail :: "bool \<Rightarrow> ResultDetail" where
  "detail b = \<lparr>Normal = b, rd_Hmac = '''', Time = 0\<rparr>"

definition sample_state :: health_state where
  "sample_state = \<lparr>NodeList = NewNodeListData, CheckInfoResult = [(''10.0.0.9'', [])],
     Result = [(''10.0.0.9'', None), (''10.0.0.1'', Some [(''10.0.0.8'', detail False)])]\<rparr>"

lemma sample_state_wf: "checkinfo_wf (CheckInfoResult sample_state)" "result_wf (Result sample_state)"
  by (simp_all add: sample_state_def checkinfo_wf_def result_wf_def mwf_def)

theorem GetNodeList_prunes_witness:
  "set (mkeys (Result (GetNodeList sample_listers sample_env sample_pods sample_state))) = {''10.0.0.1''}"
  using GetNodeList_prunes [OF sample_select sample_state_wf, of sample_pods]
  unfolding sample_ips Let_def by (simp add: sample_state_def)

text \<open>
  A verdict of the local node about an address that is no longer checked stays in the result
  table when that address never reported results of its own: GetNodeList removes local verdicts
  only for the addresses it removes as checkers.
\<close>

theorem GetNodeList_keeps_stale_verdict:
  assumes "select_nodes L env = Inr nodes" "result_wf (Result s)"
    and "NodeIP env \<in> node_ips pods nodes" "mget (Result s) (NodeIP env) = Some (Some row)"
    and "ip \<notin> node_ips pods nodes" "mget (Result s) ip = None" "mget row ip = Some d"
  shows "\<exists>row'. mget (Result (GetNodeList L env pods s)) (NodeIP env) = Some (Some row') \<and> mget row' ip = Some d"
proof -
  obtain ipl c where c: "collect_ips pods nodes (CheckInfoResult s) = (ipl, c)" by fastforce
  have "mwf row" using row_wf [OF assms(2), of "NodeIP env"] assms(4) by (simp add: result_row_def mget0_def)
  then have "mget (filter (\<lambda>(k, _). mget (Result s) k = None \<or> mhas ipl k) row) ip = Some d"
    using assms(6,7) by (auto simp: mwf_def map_of_eq_Some_iff distinct_map_filter)
  with c assms collect_ips_spec(1) [OF c, of "NodeIP env"] show ?thesis
    by (simp add: GetNodeList_eq prune_result_spec)
qed

theorem GetNodeList_keeps_stale_verdict_witness:
  "\<exists>row'. mget (Result (GetNodeList sample_listers sample_env sample_pods sample_state)) ''10.0.0.1'' = Some (Some row') \<and>
     mget row' ''10.0.0.8'' = Some (detail False)"
  using GetNodeList_keeps_stale_verdict [OF sample_select sample_state_wf(2), of sample_pods
      "[(''10.0.0.8'', detail False)]" "''10.0.0.8''" "detail False"]
  unfolding sample_ips by (simp add: sample_state_def sample_env_def)

section \<open>Check\<close>

text \<open>
  What \<open>PingCheck\<close> keeps along a run, whatever the schedule: it writes at most once per address,
  for addresses of the table and under its own name.
\<close>

definition ping_inv :: "CheckPlugin \<Rightarrow> string list \<Rightarrow> ping_state \<Rightarrow> bool" where
  "ping_inv pl keys s \<longleftrightarrow>
     length (pcs s) = length keys \<and> distinct (map fst (written s)) \<and>
     (\<forall>x \<in> set (written s). fst (snd x) = plugin_Name (kind pl) \<and>
        (\<exists>i < length keys. pcs s ! i = AtEnd \<and> fst x = keys ! i))"

lemma ping_inv_move:
  assumes "ping_inv pl keys s" "i < length keys" "pcs s ! i \<noteq> AtEnd"
  shows "ping_inv pl keys (s\<lparr>shared_err := e, pcs := (pcs s)[i := pc]\<rparr>)"
  using assms by (auto simp: ping_inv_def nth_list_update)

lemma ping_inv_write:
  assumes inv: "ping_inv pl keys s" and i: "i < length keys" "pcs s ! i \<noteq> AtEnd" and d: "distinct keys"
  shows "ping_inv pl keys (s\<lparr>pcs := (pcs s)[i := AtEnd],
           written := written s @ [(keys ! i, plugin_Name (kind pl), w, sc)]\<rparr>)"
proof -
  have "keys ! i \<notin> fst ` set (written s)"
  proof
    assume "keys ! i \<in> fst ` set (written s)"
    then obtain j where "j < length keys" "pcs s ! j = AtEnd" "keys ! i = keys ! j"
      using inv by (auto simp: ping_inv_def)
    with i d show False by (auto simp: nth_eq_iff_index_eq)
  qed
  with assms show ?thesis
    by (auto simp: ping_inv_def nth_list_update)
qed

lemma ping_step_inv:
  assumes "ping_inv pl keys s" "i < length keys" "distinct keys" "ping_step w pl keys i s = Ret s'"
  shows "ping_inv pl keys s'"
  using assms ping_inv_move [OF assms(1,2)] ping_inv_move [OF assms(1,2), where e = "shared_err s"]
    ping_inv_write [OF assms(1,2)]
  by (auto simp: ping_step_def Let_def split: ping_pc.splits nat.splits option.splits if_splits)

lemma ping_run_inv:
  "ping_inv pl keys s \<Longrightarrow> distinct keys \<Longrightarrow> ping_run w pl keys sched s = Ret s' \<Longrightarrow> ping_inv pl keys s'"
proof (induction sched arbitrary: s)
  case (Cons i sched)
  have len: "length (pcs s) = length keys" using Cons.prems(1) by (simp add: ping_inv_def)
  show ?case
    using Cons.prems by (auto simp: go_bind_eq_Ret len split: if_splits intro: Cons.IH dest: ping_step_inv)
qed simp

lemma ping_start_inv: "ping_inv pl keys (ping_start pl keys)"
  by (simp add: ping_inv_def ping_start_def)

text \<open>The writes of any plugin: once per address of the table at most, under its own name.\<close>

lemma CheckExecute_writes:
  assumes wf: "checkinfo_wf c" and ex: "CheckExecute w sched pl c c = (Ret ws, wg)"
  shows "distinct (map fst ws)" and "fst ` set ws \<subseteq> set (mkeys c)"
    and "x \<in> set ws \<Longrightarrow> fst (snd x) = plugin_Name (kind pl)"
proof -
  have d: "distinct (map fst c)" using wf by (simp add: checkinfo_wf_def mwf_def)
  have "distinct (map fst ws) \<and> fst ` set ws \<subseteq> set (mkeys c) \<and> (\<forall>x \<in> set ws. fst (snd x) = plugin_Name (kind pl))"
  proof (cases "kind pl")
    case PingCheckPlugin
    then obtain s where s: "ping_run w pl (mkeys c) sched (ping_start pl (mkeys c)) = Ret s" "ws = written s"
      using ex by (auto simp: CheckExecute_def PingCheck_CheckExecute_def CopyCheckInfo_eq [OF wf] Let_def split: go.splits)
    then show ?thesis
      using ping_run_inv [OF ping_start_inv d s(1)] by (auto simp: ping_inv_def)
  next
    case KubeletCheckPlugin
    then show ?thesis
      using ex d by (auto simp: CheckExecute_def KubeletCheck_CheckExecute_def CopyCheckInfo_eq [OF wf] Let_def
          kubelet.goroutines comp_def split: if_splits)
  next
    case KubeletAuthCheckPlugin
    then show ?thesis
      using ex d by (auto simp: CheckExecute_def KubeletAuthCheck_CheckExecute_def CopyCheckInfo_eq [OF wf] Let_def
          kubelet_auth.goroutines comp_def split: if_splits)
  qed
  then show "distinct (map fst ws)" "fst ` set ws \<subseteq> set (mkeys c)"
    "x \<in> set ws \<Longrightarrow> fst (snd x) = plugin_Name (kind pl)" by auto
qed

lemma SetResultFromCheckInfo_spec:
  "SetResultFromCheckInfo l d v r =
     (if mget r l = Some None then Panic
      else Ret (mput l (Some (mput d v (row_entries (result_row r l)))) (if mhas r l then r else mput l (Some []) r)))"
  by (auto simp: SetResultFromCheckInfo_def result_row_def mget0_def gomap split: option.split)

lemma record_verdicts_spec:
  assumes "mwf c" "mget r n \<noteq> Some None"
  shows "\<exists>r'. record_verdicts n line c r = Ret r' \<and>
    (\<forall>ip. ip \<noteq> n \<longrightarrow> mget r' ip = mget r ip) \<and>
    (\<forall>ip. mget (row_entries (result_row r' n)) ip =
       (case mget c ip of None \<Rightarrow> mget (row_entries (result_row r n)) ip | Some m \<Rightarrow> Some (verdict line m)))"
  using assms
proof (induction c arbitrary: r)
  case (Cons x c)
  obtain ip m where x: "x = (ip, m)" by fastforce
  let ?r = "mput n (Some (mput ip (verdict line m) (row_entries (result_row r n)))) (if mhas r n then r else mput n (Some []) r)"
  have step: "SetResultFromCheckInfo n ip (verdict line m) r = Ret ?r"
    using Cons.prems(2) by (simp add: SetResultFromCheckInfo_spec)
  have c: "mget c ip = None" "mwf c" using Cons.prems(1) x by (auto simp: mwf_def map_of_eq_None_iff)
  obtain r' where r': "record_verdicts n line c ?r = Ret r'"
    "\<And>i. i \<noteq> n \<Longrightarrow> mget r' i = mget ?r i"
    "\<And>i. mget (row_entries (result_row r' n)) i =
       (case mget c i of None \<Rightarrow> mget (row_entries (result_row ?r n)) i | Some m \<Rightarrow> Some (verdict line m))"
    using Cons.IH [of ?r] c(2) by (auto simp: gomap)
  show ?case
    using r' c by (intro exI [of _ r']) (auto simp: x step gomap split: option.split)
qed simp

lemma record_verdicts_Ret: "record_verdicts n line c r = Ret r' \<Longrightarrow> c \<noteq> [] \<Longrightarrow> mget r n \<noteq> Some None"
  by (cases c) (auto simp: SetResultFromCheckInfo_spec go_bind_eq_Ret split: if_splits)

definition all_writes :: "world \<Rightarrow> nat list \<Rightarrow> CheckEdge \<Rightarrow> CheckInfoData \<Rightarrow> check_write list" where
  "all_writes w pingsched ce c =
     concat (map (\<lambda>(name, plugin). run_writes (CheckExecute w pingsched plugin c c)) (CheckPlugins ce))"

lemma Check_CheckedD:
  assumes "Check w ps sched n ce c r = Checked c' r'"
  shows "c' = foldl apply_write c (sched (all_writes w ps ce c))"
    and "record_verdicts n (HealthCheckScoreLine ce) (CopyCheckInfo c') r = Ret r'"
  using assms
  by (auto simp: Check_def all_writes_def Let_def comp_def case_prod_unfold split: if_splits go.splits)

lemma run_writes_keys:
  assumes "checkinfo_wf c"
  shows "distinct (map fst (run_writes (CheckExecute w ps pl c c)))"
    and "fst ` set (run_writes (CheckExecute w ps pl c c)) \<subseteq> set (mkeys c)"
    and "x \<in> set (run_writes (CheckExecute w ps pl c c)) \<Longrightarrow> fst (snd x) = plugin_Name (kind pl)"
proof -
  obtain g wg where ex: "CheckExecute w ps pl c c = (g, wg)" by fastforce
  have "distinct (map fst (run_writes (CheckExecute w ps pl c c))) \<and>
    fst ` set (run_writes (CheckExecute w ps pl c c)) \<subseteq> set (mkeys c) \<and>
    (\<forall>x \<in> set (run_writes (CheckExecute w ps pl c c)). fst (snd x) = plugin_Name (kind pl))"
  proof (cases g)
    case (Ret ws)
    then show ?thesis
      using CheckExecute_writes [OF assms, of w ps pl ws wg] ex by simp
  qed (simp add: ex)
  then show "distinct (map fst (run_writes (CheckExecute w ps pl c c)))"
    "fst ` set (run_writes (CheckExecute w ps pl c c)) \<subseteq> set (mkeys c)"
    "x \<in> set (run_writes (CheckExecute w ps pl c c)) \<Longrightarrow> fst (snd x) = plugin_Name (kind pl)" by auto
qed

lemma all_writes_keys: "checkinfo_wf c \<Longrightarrow> fst ` set (all_writes w ps ce c) \<subseteq> set (mkeys c)"
proof
  fix ip assume wf: "checkinfo_wf c" and "ip \<in> fst ` set (all_writes w ps ce c)"
  then obtain pl where "ip \<in> fst ` set (run_writes (CheckExecute w ps pl c c))"
    by (auto simp: all_writes_def)
  with run_writes_keys(2) [OF wf] show "ip \<in> set (mkeys c)" by blast
qed

text \<open>The plugin table of \<open>NewCheckEdge\<close>: every plugin under its name, each name once.\<close>

lemma NewCheckEdge_plugins:
  "mwf (CheckPlugins (NewCheckEdge pls p line))"
  "(k, pl) \<in> set (CheckPlugins (NewCheckEdge pls p line)) \<Longrightarrow> k = plugin_Name (kind pl)"
proof -
  have "mwf m \<and> (\<forall>(k, pl) \<in> set m. k = plugin_Name (kind pl)) \<Longrightarrow>
      let m' = foldl (\<lambda>m v. mput (plugin_Name (kind v)) v m) m pls in
      mwf m' \<and> (\<forall>(k, pl) \<in> set m'. k = plugin_Name (kind pl))" for m
  proof (induction pls arbitrary: m)
    case (Cons v pls)
    have "mwf (mput (plugin_Name (kind v)) v m) \<and> (\<forall>(k, pl) \<in> set (mput (plugin_Name (kind v)) v m). k = plugin_Name (kind pl))"
      using Cons.prems by (auto intro: mwf_mput dest: mwf_in)
    from Cons.IH [OF this] show ?case by simp
  qed simp
  from this [of "[]"] show "mwf (CheckPlugins (NewCheckEdge pls p line))"
    "(k, pl) \<in> set (CheckPlugins (NewCheckEdge pls p line)) \<Longrightarrow> k = plugin_Name (kind pl)"
    by (auto simp: NewCheckEdge_def Let_def)
qed

lemma distinct_all_writes:
  assumes wf: "checkinfo_wf c"
  shows "distinct (map write_key (all_writes w ps (NewCheckEdge pls p line) c))"
proof -
  have "mwf m \<Longrightarrow> (\<And>k pl. (k, pl) \<in> set m \<Longrightarrow> k = plugin_Name (kind pl)) \<Longrightarrow>
      distinct (map write_key (concat (map (\<lambda>(name, plugin). run_writes (CheckExecute w ps plugin c c)) m)))" for m
  proof (induction m)
    case (Cons x m)
    obtain k pl where x: "x = (k, pl)" by fastforce
    let ?ws = "run_writes (CheckExecute w ps pl c c)"
    have "distinct (map write_key ?ws)"
      using run_writes_keys(1) [OF wf, of w ps pl] by (auto simp: distinct_map write_key_def inj_on_def)
    moreover have "snd (write_key y) = plugin_Name (kind pl)" if "y \<in> set ?ws" for y
      using run_writes_keys(3) [OF wf that] by (simp add: write_key_def)
    moreover have "snd (write_key y) \<noteq> plugin_Name (kind pl)"
      if y: "y \<in> set (concat (map (\<lambda>(name, plugin). run_writes (CheckExecute w ps plugin c c)) m))" for y
    proof -
      obtain k' pl' where m: "(k', pl') \<in> set m" "y \<in> set (run_writes (CheckExecute w ps pl' c c))"
        using y by auto
      have "snd (write_key y) = k'" using run_writes_keys(3) [OF wf m(2)] Cons.prems(2) [of k' pl'] m(1) by (simp add: write_key_def)
      moreover have "k' \<noteq> k" using Cons.prems(1) m(1) x by (auto simp: mwf_def image_iff)
      ultimately show ?thesis using Cons.prems(2) [of k pl] x by simp
    qed
    ultimately show ?case
      using Cons x by (fastforce simp: mwf_def)
  qed simp
  then show ?thesis
    unfolding all_writes_def using NewCheckEdge_plugins by blast
qed

lemma sched_set: "mset (sched ws) = mset ws \<Longrightarrow> set (sched ws) = set ws"
  by (metis set_mset_mset)

lemma perm_distinct: "mset xs = mset ys \<Longrightarrow> distinct (map f ys) \<Longrightarrow> distinct (map f xs)"
  by (metis mset_eq_imp_distinct_iff mset_map)

text \<open>
  A round of Check that ends records one verdict per address of the check table and nothing
  else: the address counts as normal exactly when the sum of its plugin scores reaches the score
  line. The table keeps its addresses, the verdicts about addresses outside of it stay, and so do
  the results reported by other nodes. This holds for every scheduling of the goroutines.
\<close>

theorem Check_records_verdicts:
  assumes "checkinfo_wf c" "\<And>ws. mset (sched ws) = mset ws"
    and "Check w ps sched nodeIP ce c r = Checked c' r'"
  shows "set (mkeys c') = set (mkeys c) \<and> checkinfo_wf c' \<and>
    (\<forall>ip. ip \<noteq> nodeIP \<longrightarrow> mget r' ip = mget r ip) \<and>
    (\<forall>ip. mget (row_entries (result_row r' nodeIP)) ip =
       (case mget c' ip of
          None \<Rightarrow> mget (row_entries (result_row r nodeIP)) ip
        | Some scores \<Rightarrow> Some \<lparr>Normal = f_ge (totalscore scores) (HealthCheckScoreLine ce), rd_Hmac = '''', Time = 0\<rparr>))"
proof -
  have c': "c' = foldl apply_write c (sched (all_writes w ps ce c))"
    and rec: "record_verdicts nodeIP (HealthCheckScoreLine ce) (CopyCheckInfo c') r = Ret r'"
    using Check_CheckedD [OF assms(3)] by auto
  have keys: "set (mkeys c') = set (mkeys c)"
    unfolding c' apply_write_keys using all_writes_keys [OF assms(1), of w ps ce] sched_set [of sched, OF assms(2)] by auto
  have wf: "checkinfo_wf c'" using assms(1) by (simp add: c' apply_write_wf)
  then have copy: "CopyCheckInfo c' = c'" "mwf c'" by (simp_all add: CopyCheckInfo_eq checkinfo_wf_def)
  have v: "verdict line m = \<lparr>Normal = f_ge (totalscore m) line, rd_Hmac = '''', Time = 0\<rparr>" for line m
    by (simp add: verdict_def)
  show ?thesis
  proof (cases "c' = []")
    case True
    with rec [unfolded copy(1)] keys wf show ?thesis by simp
  next
    case False
    with rec copy(1) have "mget r nodeIP \<noteq> Some None" using record_verdicts_Ret by fastforce
    from record_verdicts_spec [OF copy(2) this, of "HealthCheckScoreLine ce"] rec keys wf show ?thesis
      by (auto simp: copy(1) v split: option.split)
  qed
qed

text \<open>
  The scores that a round leaves in the check table do not depend on the order in which the
  goroutines of the plugins get to write them.
\<close>

theorem Check_order_independent:
  assumes "checkinfo_wf c" "\<And>ws. mset (sched1 ws) = mset ws" "\<And>ws. mset (sched2 ws) = mset ws"
    and "Check w ps sched1 nodeIP (NewCheckEdge pls p line) c r = Checked c1 r1"
    and "Check w ps sched2 nodeIP (NewCheckEdge pls p line) c r = Checked c2 r2"
  shows "score_of c1 ip plugin = score_of c2 ip plugin"
proof -
  let ?ws = "all_writes w ps (NewCheckEdge pls p line) c"
  have d: "distinct (map write_key (sched1 ?ws))" "distinct (map write_key (sched2 ?ws))"
    by (rule perm_distinct [OF assms(2) distinct_all_writes [OF assms(1)]]
        perm_distinct [OF assms(3) distinct_all_writes [OF assms(1)]])+
  have "mset (sched1 ?ws) = mset (sched2 ?ws)" using assms(2,3) by simp
  from find_perm [OF this d(1)] show ?thesis
    unfolding Check_CheckedD(1) [OF assms(4)] Check_CheckedD(1) [OF assms(5)]
    by (simp add: score_of_writes [OF d(1)] score_of_writes [OF d(2)])
qed

lemma singleton_map:
  assumes "mwf m" "\<And>n. mget m n = (if n = k then Some v else None)"
  shows "m = [(k, v)]"
proof -
  have "set m = {(k, v)}" using assms by (auto simp: mget_in_set split: if_splits)
  moreover have "distinct m" using assms(1) by (simp add: mwf_def distinct_map)
  ultimately show ?thesis
    by (metis distinct.simps(2) empty_iff insert_iff list.set_cases list.set_intros(1) list.set_intros(2) neq_Nil_conv singletonD set_empty2 insert_not_empty)
qed

lemma full_score: "f_ge (totalscore [(n, f_mul (f_of_int 100) (Fin 1))]) (Fin 100)"
  "\<not> f_ge (totalscore [(n, f_mul (f_of_int 0) (Fin 1))]) (Fin 100)"
  using f_mul_int [of 100 1] f_mul_int [of 0 1] f_add_int [of 0 100] f_add_int [of 0 0]
  by (simp_all add: totalscore_def f_of_int_exact)

lemma distinct_write_keys: "distinct ks \<Longrightarrow> distinct (map write_key (map (\<lambda>x. (x, n, f x)) ks))"
  by (induction ks) (auto simp: write_key_def)

lemma find_write_key:
  "find (\<lambda>x. write_key x = (ip, n)) (map (\<lambda>x. (x, k, f x)) ks) =
     (if n = k \<and> ip \<in> set ks then Some (ip, k, f ip) else None)"
  by (induction ks) (auto simp: write_key_def)

text \<open>One plugin, one write per address, in any order.\<close>

lemma score_of_plugin_run:
  assumes "distinct ks" "mset (sched ws) = mset ws" "ws = map (\<lambda>x. (x, k, wt, f x)) ks"
  shows "score_of (foldl apply_write c (sched ws)) ip n =
    (if n = k \<and> ip \<in> set ks then Some (f_mul (f_of_int (f ip)) wt) else score_of c ip n)"
proof -
  have d: "distinct (map write_key ws)" unfolding assms(3) by (rule distinct_write_keys [OF assms(1)])
  have d': "distinct (map write_key (sched ws))" by (rule perm_distinct [OF assms(2) d])
  have "find (\<lambda>x. write_key x = (ip, n)) (sched ws) = (if n = k \<and> ip \<in> set ks then Some (ip, k, wt, f ip) else None)"
    unfolding find_perm [OF assms(2) d'] unfolding assms(3) by (rule find_write_key)
  then show ?thesis by (simp add: score_of_writes [OF d'])
qed

lemma single_plugin_row:
  assumes wf: "checkinfo_wf c" and sched: "mset (sched ws) = mset ws" and ip: "ip \<in> set (mkeys c)"
    and ws: "ws = map (\<lambda>x. (x, k, wt, f x)) (mkeys c)"
    and rows: "\<And>x m. (x, m) \<in> set c \<Longrightarrow> set (mkeys m) \<subseteq> {k}"
  shows "mget (foldl apply_write c (sched ws)) ip = Some [(k, f_mul (f_of_int (f ip)) wt)]"
proof -
  have other: "score_of c ip n = None" if "n \<noteq> k" for n
  proof (cases "mget c ip")
    case (Some m)
    then have "set (mkeys m) \<subseteq> {k}" using rows map_of_SomeD by fastforce
    with that have "n \<notin> set (mkeys m)" by blast
    with Some show ?thesis by (simp add: score_of_def in_mkeys)
  qed (simp add: score_of_def)
  let ?c' = "foldl apply_write c (sched ws)"
  have "ip \<in> set (mkeys ?c')" using ip by (auto simp: apply_write_keys [simplified])
  then obtain m where m: "mget ?c' ip = Some m" by (auto simp: in_mkeys)
  have d: "distinct (mkeys c)" using wf by (simp add: checkinfo_wf_def mwf_def)
  have "mget m n = (if n = k then Some (f_mul (f_of_int (f ip)) wt) else None)" for n
  proof -
    have "mget m n = score_of ?c' ip n" by (simp add: score_of_def m)
    also have "\<dots> = (if n = k \<and> ip \<in> set (mkeys c) then Some (f_mul (f_of_int (f ip)) wt) else score_of c ip n)"
      by (rule score_of_plugin_run [where sched = sched and ws = ws, OF d sched ws])
    finally show ?thesis using other [of n] ip by (auto simp del: set_map)
  qed
  moreover have "mwf m"
    using checkinfo_row_wf [OF apply_write_wf [OF wf], of "sched ws" ip] m by (simp add: mget0_def)
  ultimately show ?thesis using m singleton_map by metis
qed

definition kubelet_up :: "world \<Rightarrow> CheckPlugin \<Rightarrow> string \<Rightarrow> bool" where
  "kubelet_up w pl ip \<longleftrightarrow> ping_ready w ip (Port (base pl)) \<and>
     (\<exists>i < nat (HealthCheckRetryTime (base pl)). ping_answered w ip (Port (base pl)) i)"

definition kubelet_writes :: "world \<Rightarrow> CheckPlugin \<Rightarrow> CheckInfoData \<Rightarrow> check_write list" where
  "kubelet_writes w pl c =
     map (\<lambda>x. (x, ''KubeletCheck'', Weight (base pl), if kubelet_up w pl x then 100 else 0)) (mkeys c)"

text \<open>With the kubelet check alone a round ends, if the row of the local node can be written to.\<close>

lemma Check_kubelet_run:
  assumes wf: "checkinfo_wf c" and pl: "kind pl = KubeletCheckPlugin" "HealthCheckRetryTime (base pl) > 0"
    and row: "mget r n \<noteq> Some None"
  shows "\<exists>r'. Check w ps sched n (NewCheckEdge [pl] p line) c r =
      Checked (foldl apply_write c (sched (kubelet_writes w pl c))) r' \<and>
    (\<forall>ip. mget (row_entries (result_row r' n)) ip =
       (case mget (foldl apply_write c (sched (kubelet_writes w pl c))) ip of
          None \<Rightarrow> mget (row_entries (result_row r n)) ip | Some m \<Rightarrow> Some (verdict line m)))"
proof -
  define c' where "c' = foldl apply_write c (sched (kubelet_writes w pl c))"
  have wf': "CopyCheckInfo c' = c'" "mwf c'"
    using apply_write_wf [OF wf] by (auto simp: c'_def CopyCheckInfo_eq checkinfo_wf_def)
  have ex: "CheckExecute w ps pl c c = (Ret (kubelet_writes w pl c), WgReturns)"
    using pl by (auto simp: CheckExecute_def KubeletCheck_CheckExecute_def CopyCheckInfo_eq [OF wf] kubelet.goroutines
        wg_wait_def Let_def kubelet_writes_def kubelet_up_def)
  obtain r' where r': "record_verdicts n line c' r = Ret r'"
    "\<And>ip. mget (row_entries (result_row r' n)) ip =
       (case mget c' ip of None \<Rightarrow> mget (row_entries (result_row r n)) ip | Some m \<Rightarrow> Some (verdict line m))"
    using record_verdicts_spec [OF wf'(2) row] by blast
  have "Check w ps sched n (NewCheckEdge [pl] p line) c r = Checked c' r'"
    using r'(1) pl(1) by (simp add: Check_def Let_def NewCheckEdge_def ex wf'(1) flip: c'_def)
  with r'(2) show ?thesis unfolding c'_def by blast
qed

text \<open>
  End to end, with the kubelet check as the only plugin, weight 1 and the score line 100: a
  round of Check always ends, without a panic, and records for every address of the table the
  verdict normal exactly when the kubelet of that address answered one of the probes with
  status 200.
\<close>

theorem Check_single_kubelet:
  assumes wf: "checkinfo_wf c" and sched: "\<And>ws. mset (sched ws) = mset ws"
    and pl: "kind pl = KubeletCheckPlugin" "Weight (base pl) = Fin 1" "HealthCheckRetryTime (base pl) > 0"
    and rows: "\<And>x m. (x, m) \<in> set c \<Longrightarrow> set (mkeys m) \<subseteq> {''KubeletCheck''}"
    and row: "mget r nodeIP \<noteq> Some None"
  shows "\<exists>c' r'. Check w ps sched nodeIP (NewCheckEdge [pl] p (Fin 100)) c r = Checked c' r' \<and>
    (\<forall>ip \<in> set (mkeys c). mget (row_entries (result_row r' nodeIP)) ip =
       Some \<lparr>Normal = kubelet_up w pl ip, rd_Hmac = '''', Time = 0\<rparr>)"
proof -
  let ?c' = "foldl apply_write c (sched (kubelet_writes w pl c))"
  obtain r' where r': "Check w ps sched nodeIP (NewCheckEdge [pl] p (Fin 100)) c r = Checked ?c' r'"
    "\<And>ip. mget (row_entries (result_row r' nodeIP)) ip =
       (case mget ?c' ip of None \<Rightarrow> mget (row_entries (result_row r nodeIP)) ip | Some m \<Rightarrow> Some (verdict (Fin 100) m))"
    using Check_kubelet_run [OF wf pl(1,3) row] by blast
  have "mget ?c' ip = Some [(''KubeletCheck'', f_mul (f_of_int (if kubelet_up w pl ip then 100 else 0)) (Fin 1))]"
    if "ip \<in> set (mkeys c)" for ip
    using single_plugin_row [where sched = sched and ws = "kubelet_writes w pl c", OF wf sched that kubelet_writes_def rows] pl(2) by simp
  with r' full_score show ?thesis
    by (intro exI [of _ ?c'] exI [of _ r']) (auto simp: verdict_def simp del: set_map)
qed

lemma sample_kubelet:
  "checkinfo_wf [(''a'', [])]" "kind (sample_plugin KubeletCheckPlugin) = KubeletCheckPlugin"
  "Weight (base (sample_plugin KubeletCheckPlugin)) = Fin 1"
  "HealthCheckRetryTime (base (sample_plugin KubeletCheckPlugin)) > 0"
  "mget ([] :: ResultData) ''n'' \<noteq> Some None"
  by (simp_all add: checkinfo_wf_def mwf_def sample_plugin_def NewBasePlugin_def)

text \<open>A round over one address, of a kubelet that does not answer, under a given schedule.\<close>

abbreviation sample_round :: "(check_write list \<Rightarrow> check_write list) \<Rightarrow> check_outcome" where
  "sample_round sched \<equiv> Check (sample_world ''b'') [] sched ''n''
     (NewCheckEdge [sample_plugin KubeletCheckPlugin] 10 (Fin 100)) [(''a'', [])] []"

lemma sample_round_ends: "\<exists>c r. sample_round sched = Checked c r"
  using Check_kubelet_run [OF sample_kubelet(1,2,4,5)] by blast

theorem Check_single_kubelet_witness:
  "\<exists>c' r'. sample_round rev = Checked c' r' \<and> mget (row_entries (result_row r' ''n'')) ''a'' = Some (detail False)"
proof -
  have "\<not> kubelet_up (sample_world ''b'') (sample_plugin KubeletCheckPlugin) ''a''"
    by (simp add: kubelet_up_def ping_answered_def sample_world_def ping_url_def)
  then show ?thesis
    using Check_single_kubelet [OF sample_kubelet(1) _ sample_kubelet(2,3,4) _ sample_kubelet(5), of rev "sample_world ''b''" "[]" 10]
    by (auto simp: detail_def)
qed

theorem Check_records_verdicts_witness:
  "\<exists>c' r'. sample_round rev = Checked c' r' \<and> set (mkeys c') = {''a''}"
proof -
  obtain c' r' where r: "sample_round rev = Checked c' r'" using sample_round_ends by blast
  with Check_records_verdicts [OF sample_kubelet(1) _ r] show ?thesis by auto
qed

theorem Check_order_independent_witness:
  "\<exists>c1 r1 c2 r2. sample_round rev = Checked c1 r1 \<and> sample_round id = Checked c2 r2 \<and>
     score_of c1 ''a'' ''KubeletCheck'' = score_of c2 ''a'' ''KubeletCheck''"
proof -
  obtain c1 r1 where 1: "sample_round rev = Checked c1 r1" using sample_round_ends by blast
  obtain c2 r2 where 2: "sample_round id = Checked c2 r2" using sample_round_ends by blast
  from Check_order_independent [OF sample_kubelet(1) _ _ 1 2] 1 2 show ?thesis by auto
qed

end
