(* ===== verification/HealthVote.thy ===== *)
theory HealthVote
  imports HealthCheck
begin

text \<open>
  The vote of edge-health (\<open>src/pkg/edge-health/vote/vote.go\<close>). Every node counts, over the results
  it has received, how many checkers call each address normal or not; when at least half of the
  checked addresses (rounded up to a majority) agree, it removes or sets the \<open>nodeunhealth\<close>
  annotation of the node. The vote reads the result table, the check table, the pod index and the
  node lister; its only effect is the list of patch requests it sends, which the model returns.
\<close>

record VoteEdge =
  VoteTimeOut :: int
  VotePeriod :: int

definition NewVoteEdge :: "int \<Rightarrow> int \<Rightarrow> VoteEdge" where
  "NewVoteEdge voteTimeOut votePeriod = \<lparr>VoteTimeOut = voteTimeOut, VotePeriod = votePeriod\<rparr>"

definition GetVoteTimeout :: "VoteEdge \<Rightarrow> int" where
  "GetVoteTimeout vote = VoteTimeOut vote"

definition GetVotePeriod :: "VoteEdge \<Rightarrow> int" where
  "GetVotePeriod vote = VotePeriod vote"

text \<open>
  Instants are nanoseconds since the epoch. \<open>time.Duration(t) * time.Second\<close> is a product of 64-bit
  integers; \<open>rtime.Add\<close> and \<open>After\<close> work on instants.
\<close>

definition duration_seconds :: "int \<Rightarrow> int" where
  "duration_seconds t = sint (word_of_int (t * 10 ^ 9) :: 64 word)"

definition expired :: "int \<Rightarrow> VoteEdge \<Rightarrow> ResultDetail \<Rightarrow> bool" where
  "expired nowUTC vote resultdetail \<longleftrightarrow>
     nowUTC > Time resultdetail * 10 ^ 9 + duration_seconds (GetVoteTimeout vote)"

record vote_count =
  voteCountMap :: "(string, (string, int) gomap) gomap"
  healthNodeMap :: "(string, string) gomap"

text \<open>The body of the inner loop, for the checker \<open>k\<close> and its result about \<open>ip\<close>.\<close>

definition count_vote :: "int \<Rightarrow> VoteEdge \<Rightarrow> string \<Rightarrow> string \<Rightarrow> vote_count \<Rightarrow> string \<times> ResultDetail \<Rightarrow> vote_count" where
  "count_vote nowUTC vote nodeIP k vc = (\<lambda>(ip, resultdetail).
     if k = nodeIP \<or> (k \<noteq> nodeIP \<and> \<not> expired nowUTC vote resultdetail) then
       (let hm = mput k '''' (healthNodeMap vc);
            m1 = (if mhas (voteCountMap vc) ip then voteCountMap vc else mput ip [] (voteCountMap vc));
            key = (if Normal resultdetail then ''yes'' else ''no'');
            row = mget0 [] m1 ip;
            row1 = (if mhas row key then row else mput key 0 row);
            row2 = mput key (mget0 0 row1 key + 1) row1
        in \<lparr>voteCountMap = mput ip row2 m1, healthNodeMap = hm\<rparr>)
     else vc)"

definition count_votes :: "int \<Rightarrow> VoteEdge \<Rightarrow> string \<Rightarrow> (string, (string, ResultDetail) gomap) gomap \<Rightarrow> vote_count" where
  "count_votes nowUTC vote nodeIP tempNodeStatus =
     foldl (\<lambda>vc (k, v). foldl (count_vote nowUTC vote nodeIP k) vc v)
       \<lparr>voteCountMap = [], healthNodeMap = []\<rparr> tempNodeStatus"

text \<open>A patch request: the node and the annotation to delete or to set.\<close>

datatype node_patch = PatchDelete string string | PatchAdd string string string

text \<open>\<open>(float64(len(CheckInfo)) + 1) / 2\<close>.\<close>

definition vote_line :: "CheckInfoData \<Rightarrow> float64" where
  "vote_line c = f_half (f_add (f_of_int (GetLenCheckInfo c)) (f_of_int 1))"

text \<open>
  The two halves of the final loop. The first component tells whether the loop goes on with the
  rest of its body: \<open>continue\<close> is taken when the node name cannot be found.
\<close>

definition vote_yes :: "listers \<Rightarrow> pod_store \<Rightarrow> float64 \<Rightarrow> string \<Rightarrow> (string, int) gomap \<Rightarrow> bool \<times> node_patch list" where
  "vote_yes L pods num ip v =
     (case mget v ''yes'' of
        None \<Rightarrow> (True, [])
      | Some y \<Rightarrow>
          if f_ge (f_of_int y) num then
            (case GetNodeNameByNodeIP pods ip of
               Inl err \<Rightarrow> (False, [])
             | Inr name \<Rightarrow>
                 (case node_Get L name of
                    Inl err \<Rightarrow> (True, [])
                  | Inr node \<Rightarrow>
                      if name \<noteq> [] \<and> mhas (Annotations node) ''nodeunhealth''
                      then (True, [PatchDelete (objName node) ''nodeunhealth'']) else (True, [])))
          else (True, []))"

definition vote_no :: "listers \<Rightarrow> pod_store \<Rightarrow> float64 \<Rightarrow> string \<Rightarrow> (string, int) gomap \<Rightarrow> node_patch list" where
  "vote_no L pods num ip v =
     (case mget v ''no'' of
        None \<Rightarrow> []
      | Some n \<Rightarrow>
          if f_ge (f_of_int n) num then
            (case GetNodeNameByNodeIP pods ip of
               Inl err \<Rightarrow> []
             | Inr name \<Rightarrow>
                 (case node_Get L name of
                    Inl err \<Rightarrow> []
                  | Inr node \<Rightarrow>
                      if name \<noteq> [] \<and> \<not> mhas (Annotations node) ''nodeunhealth''
                      then [PatchAdd (objName node) ''nodeunhealth'' ''yes''] else []))
          else [])"

definition vote_ip :: "listers \<Rightarrow> pod_store \<Rightarrow> float64 \<Rightarrow> string \<times> (string, int) gomap \<Rightarrow> node_patch list" where
  "vote_ip L pods num = (\<lambda>(ip, v).
     case vote_yes L pods num ip v of (go_on, ps) \<Rightarrow> ps @ (if go_on then vote_no L pods num ip v else []))"

definition Vote ::
    "listers \<Rightarrow> pod_store \<Rightarrow> string \<Rightarrow> int \<Rightarrow> VoteEdge \<Rightarrow> CheckInfoData \<Rightarrow> ResultData \<Rightarrow> node_patch list" where
  "Vote L pods nodeIP nowUTC vote c r =
     (let vc = count_votes nowUTC vote nodeIP (CopyResultDataAll r);
          num = vote_line c
      in if length (healthNodeMap vc) = 1 then []
         else concat (map (vote_ip L pods num) (voteCountMap vc)))"

section \<open>Counting\<close>

definition counted :: "int \<Rightarrow> VoteEdge \<Rightarrow> string \<Rightarrow> string \<Rightarrow> ResultDetail \<Rightarrow> bool" where
  "counted now vote nodeIP k d \<longleftrightarrow> k = nodeIP \<or> \<not> expired now vote d"

text \<open>The checkers whose result about an address counts and has the given verdict.\<close>

definition voters :: "int \<Rightarrow> VoteEdge \<Rightarrow> string \<Rightarrow> ResultData \<Rightarrow> string \<Rightarrow> bool \<Rightarrow> string set" where
  "voters now vote nodeIP r ip b =
     {k. \<exists>d. mget (row_entries (result_row r k)) ip = Some d \<and> Normal d = b \<and> counted now vote nodeIP k d}"

definition healthy :: "int \<Rightarrow> VoteEdge \<Rightarrow> string \<Rightarrow> ResultData \<Rightarrow> string set" where
  "healthy now vote nodeIP r = {k. \<exists>ip b. k \<in> voters now vote nodeIP r ip b}"

text \<open>The entries of the result table in the order in which the nested loops visit them.\<close>

definition entries :: "(string, (string, ResultDetail) gomap) gomap \<Rightarrow> (string \<times> string \<times> ResultDetail) list" where
  "entries t = concat (map (\<lambda>(k, v). map (Pair k) v) t)"

lemma count_votes_entries:
  "count_votes now vote n t = foldl (\<lambda>vc (k, x). count_vote now vote n k vc x) \<lparr>voteCountMap = [], healthNodeMap = []\<rparr> (entries t)"
proof -
  have inner: "foldl (\<lambda>vc (k, x). count_vote now vote n k vc x) vc (map (Pair k) v) = foldl (count_vote now vote n k) vc v" for vc k v
    by (induction v arbitrary: vc) auto
  have "foldl (\<lambda>vc (k, v). foldl (count_vote now vote n k) vc v) vc t =
      foldl (\<lambda>vc (k, x). count_vote now vote n k vc x) vc (entries t)" for vc
    by (induction t arbitrary: vc) (auto simp: entries_def inner)
  then show ?thesis by (simp add: count_votes_def)
qed

definition vote_get :: "vote_count \<Rightarrow> string \<Rightarrow> string \<Rightarrow> int option" where
  "vote_get vc ip key = mget (mget0 [] (voteCountMap vc) ip) key"

definition ballot :: "bool \<Rightarrow> string" where
  "ballot b = (if b then ''yes'' else ''no'')"

lemma ballot_inject [simp]: "ballot a = ballot b \<longleftrightarrow> a = b"
  by (auto simp: ballot_def)

lemma vote_get_count_vote:
  "vote_get (count_vote now vote n k vc (ip, d)) ip' key =
     (if counted now vote n k d \<and> ip' = ip \<and> key = ballot (Normal d)
      then Some (1 + (case vote_get vc ip key of None \<Rightarrow> 0 | Some y \<Rightarrow> y)) else vote_get vc ip' key)"
proof (cases "counted now vote n k d")
  case True
  then show ?thesis
    by (cases "mget (voteCountMap vc) ip"; cases "mget (mget0 [] (voteCountMap vc) ip) (ballot (Normal d))")
      (use True [unfolded counted_def] in \<open>auto simp: count_vote_def vote_get_def counted_def Let_def mget0_def gomap simp flip: ballot_def\<close>)
qed (simp add: count_vote_def counted_def)

lemma healthNodeMap_count_vote:
  "fst ` set (healthNodeMap (count_vote now vote n k vc (ip, d))) =
     (if counted now vote n k d then insert k (fst ` set (healthNodeMap vc)) else fst ` set (healthNodeMap vc))"
  using mkeys_mput [of k "[]" "healthNodeMap vc"]
  by (cases "k = n") (simp_all add: count_vote_def counted_def Let_def)

lemma count_vote_wf:
  "mwf (healthNodeMap vc) \<Longrightarrow> mwf (voteCountMap vc) \<Longrightarrow>
     mwf (healthNodeMap (count_vote now vote n k vc x)) \<and> mwf (voteCountMap (count_vote now vote n k vc x))"
  by (cases x) (auto simp: count_vote_def Let_def intro: mwf_mput)

abbreviation matching :: "int \<Rightarrow> VoteEdge \<Rightarrow> string \<Rightarrow> string \<Rightarrow> bool \<Rightarrow> (string \<times> string \<times> ResultDetail) \<Rightarrow> bool" where
  "matching now vote n ip b \<equiv> \<lambda>(k, ip', d). ip' = ip \<and> Normal d = b \<and> counted now vote n k d"

lemma count_entries:
  defines "run \<equiv> \<lambda>now vote n es. foldl (\<lambda>vc (k, x). count_vote now vote n k vc x) \<lparr>voteCountMap = [], healthNodeMap = []\<rparr> es"
  shows "vote_get (run now vote n es) ip (ballot b) =
      (let c = length (filter (matching now vote n ip b) es) in if c = 0 then None else Some (int c))"
    and "fst ` set (healthNodeMap (run now vote n es)) = {k. \<exists>ip d. (k, ip, d) \<in> set es \<and> counted now vote n k d}"
    and "mwf (healthNodeMap (run now vote n es)) \<and> mwf (voteCountMap (run now vote n es))"
proof (induction es rule: rev_induct)
  case Nil
  { case 1 show ?case by (simp add: run_def vote_get_def mget0_def) next
    case 2 show ?case by (simp add: run_def) next
    case 3 show ?case by (simp add: run_def) }
next
  case (snoc e es)
  obtain k' ip' d where e: "e = (k', ip', d)" by (cases e) auto
  { case 1 show ?case using snoc.IH(1)
      by (auto simp: run_def e vote_get_count_vote Let_def split: option.splits if_splits) next
    case 2 show ?case using snoc.IH(2) by (auto simp: run_def e healthNodeMap_count_vote) next
    case 3 show ?case using snoc.IH(3) by (simp add: run_def e count_vote_wf) }
qed

lemma entries_Cons: "entries ((k, m) # t) = map (Pair k) m @ entries t"
  by (simp add: entries_def)

lemma entries_mem: "(k, ip, d) \<in> set (entries t) \<longleftrightarrow> (\<exists>m. (k, m) \<in> set t \<and> (ip, d) \<in> set m)"
proof (induction t)
  case (Cons x t)
  then show ?case by (cases x) (auto simp: entries_Cons)
qed (simp add: entries_def)

lemma entries_iff:
  assumes "result_wf r"
  shows "(k, ip, d) \<in> set (entries (CopyResultDataAll r)) \<longleftrightarrow> mget (row_entries (result_row r k)) ip = Some d"
proof -
  have r: "mwf r" using assms by (simp add: result_wf_def)
  then have t: "mwf (CopyResultDataAll r)" using assms by (simp add: CopyResultDataAll_eq mwf_map)
  have "(k, ip, d) \<in> set (entries (CopyResultDataAll r)) \<longleftrightarrow> (ip, d) \<in> set (row_entries (result_row r k))"
    using mget_in_set [OF t, of k]
    by (cases "mget r k") (simp_all add: entries_mem CopyResultDataAll_eq [OF assms] mget_map result_row_def mget0_def)
  also have "\<dots> \<longleftrightarrow> mget (row_entries (result_row r k)) ip = Some d"
    by (rule mget_in_set [OF row_wf [OF assms]])
  finally show ?thesis .
qed

lemma distinct_entries_list:
  "mwf t \<Longrightarrow> (\<And>k m. (k, m) \<in> set t \<Longrightarrow> mwf m) \<Longrightarrow> distinct (map (\<lambda>(k, ip, d). (k, ip)) (entries t))"
proof (induction t)
  case (Cons x t)
  obtain k m where x: "x = (k, m)" by fastforce
  have "mwf m" using Cons.prems(2) [of k m] x by simp
  then have 1: "distinct (map (\<lambda>(k, ip, d). (k, ip)) (map (Pair k) m))"
    by (simp add: mwf_def comp_def case_prod_unfold distinct_map inj_on_def)
  have "k \<noteq> fst e" if "e \<in> set (entries t)" for e
    using Cons.prems(1) x that entries_mem [of "fst e" "fst (snd e)" "snd (snd e)" t] by (auto simp: mwf_def image_iff)
  then have 2: "set (map (\<lambda>(k, ip, d). (k, ip)) (map (Pair k) m)) \<inter> set (map (\<lambda>(k, ip, d). (k, ip)) (entries t)) = {}"
    by fastforce
  have 3: "distinct (map (\<lambda>(k, ip, d). (k, ip)) (entries t))"
  proof (rule Cons.IH)
    show "mwf t" using Cons.prems(1) by (simp add: mwf_def)
  qed (rule Cons.prems(2), rule list.set_intros(2))
  show ?case unfolding x entries_Cons map_append distinct_append using 1 2 3 by blast
qed (simp add: entries_def)

lemma distinct_entries:
  assumes "result_wf r"
  shows "distinct (map (\<lambda>(k, ip, d). (k, ip)) (entries (CopyResultDataAll r)))"
proof (rule distinct_entries_list)
  show "mwf (CopyResultDataAll r)" using assms by (simp add: CopyResultDataAll_eq result_wf_def mwf_map)
  show "mwf m" if "(k, m) \<in> set (CopyResultDataAll r)" for k m
    using that assms by (auto simp: CopyResultDataAll_eq result_wf_def)
qed

lemma distinct_fst_matching:
  "distinct (map (\<lambda>(k, ip, d). (k, ip)) (filter (matching now vote n ip b) es)) \<Longrightarrow>
     distinct (map fst (filter (matching now vote n ip b) es))"
proof (induction es)
  case (Cons e es)
  then show ?case by (cases e) (auto simp: image_iff split: if_splits)
qed simp

lemma count_is_card:
  assumes wf: "result_wf r"
  shows "length (filter (matching now vote n ip b) (entries (CopyResultDataAll r))) = card (voters now vote n r ip b)"
proof -
  let ?F = "filter (matching now vote n ip b) (entries (CopyResultDataAll r))"
  have "distinct (map (\<lambda>(k, ip, d). (k, ip)) ?F)"
    using distinct_entries [OF wf] by (rule distinct_map_filter)
  then have "distinct (map fst ?F)"
    by (rule distinct_fst_matching)
  then have "length ?F = card (fst ` set ?F)"
    using distinct_card by fastforce
  also have "fst ` set ?F = voters now vote n r ip b"
  proof -
    have "k \<in> fst ` set ?F \<longleftrightarrow> (\<exists>ip' d. (k, ip', d) \<in> set ?F)" for k by force
    then show ?thesis by (intro set_eqI) (simp add: voters_def entries_iff [OF wf])
  qed
  finally show ?thesis .
qed

lemma count_votes_spec:
  fixes now vote n
  assumes "result_wf r"
  defines "vc \<equiv> count_votes now vote n (CopyResultDataAll r)"
  shows "vote_get vc ip (ballot b) =
      (if voters now vote n r ip b = {} then None else Some (int (card (voters now vote n r ip b))))"
    and "fst ` set (healthNodeMap vc) = healthy now vote n r"
    and "mwf (healthNodeMap vc)" "mwf (voteCountMap vc)"
proof -
  have "voters now vote n r ip b \<subseteq> fst ` set (entries (CopyResultDataAll r))"
    by (force simp: voters_def simp flip: entries_iff [OF assms(1)])
  then have "finite (voters now vote n r ip b)" using finite_subset by blast
  then show "vote_get vc ip (ballot b) =
      (if voters now vote n r ip b = {} then None else Some (int (card (voters now vote n r ip b))))"
    by (simp add: vc_def count_votes_entries count_entries(1) count_is_card [OF assms(1)] Let_def)
  show "fst ` set (healthNodeMap vc) = healthy now vote n r"
    by (auto simp: vc_def count_votes_entries count_entries(2) healthy_def voters_def entries_iff [OF assms(1)])
  show "mwf (healthNodeMap vc)" "mwf (voteCountMap vc)"
    by (simp_all add: vc_def count_votes_entries count_entries(3))
qed

lemma finite_voters: "result_wf r \<Longrightarrow> finite (voters now vote n r ip b)"
proof -
  assume wf: "result_wf r"
  have "voters now vote n r ip b \<subseteq> fst ` set r"
  proof
    fix k assume "k \<in> voters now vote n r ip b"
    then have "result_row r k \<noteq> None" by (auto simp: voters_def row_entries_def split: option.splits)
    then show "k \<in> fst ` set r" by (auto simp: result_row_def mget0_def in_mkeys split: option.splits)
  qed
  then show ?thesis using finite_subset by blast
qed

lemma voters_subset: "voters now vote n r ip b \<subseteq> set (mkeys r)"
  by (auto simp: voters_def result_row_def mget0_def row_entries_def in_mkeys split: option.splits)

section \<open>The majority line\<close>

lemma vote_line_exact:
  assumes "length c < 2 ^ 52"
  shows "vote_line c = Fin (of_int (int (length c) + 1) / 2)"
proof -
  have 1: "\<bar>int (length c)\<bar> < 2 ^ 53" "\<bar>int (length c) + 1\<bar> < 2 ^ 53"
    using assms by (simp_all add: of_nat_less_numeral_power_cancel_iff)
  have "f_add (f_of_int (int (length c))) (f_of_int 1) = Fin (of_int (int (length c) + 1))"
    using f_add_int [of "int (length c)" 1] 1 by (simp add: f_of_int_exact)
  then show ?thesis
    using rnd64_half [OF 1(2)] by (simp add: vote_line_def GetLenCheckInfo_def)
qed

lemma majority_iff:
  assumes "length c < 2 ^ 52" "0 \<le> y" "y < 2 ^ 53"
  shows "f_ge (f_of_int y) (vote_line c) \<longleftrightarrow> int (length c) < 2 * y"
proof -
  have "f_ge (f_of_int y) (vote_line c) \<longleftrightarrow> (of_int (int (length c) + 1) :: rat) / 2 \<le> of_int y"
    using assms by (simp add: vote_line_exact f_of_int_exact)
  also have "\<dots> \<longleftrightarrow> (of_int (int (length c) + 1) :: rat) \<le> of_int (2 * y)" by (simp add: field_simps)
  also have "\<dots> \<longleftrightarrow> int (length c) + 1 \<le> 2 * y" by (rule of_int_le_iff)
  finally show ?thesis by linarith
qed

section \<open>Properties\<close>

text \<open>The node behind an address, as the pod index and the node lister have it.\<close>

definition node_of :: "listers \<Rightarrow> pod_store \<Rightarrow> string \<Rightarrow> ObjectMeta option" where
  "node_of L pods ip =
     (case GetNodeNameByNodeIP pods ip of Inl _ \<Rightarrow> None | Inr name \<Rightarrow>
        if name = [] then None else (case node_Get L name of Inl _ \<Rightarrow> None | Inr node \<Rightarrow> Some node))"

lemma vote_yes_spec:
  "snd (vote_yes L pods num ip v) =
     (case node_of L pods ip of None \<Rightarrow> [] | Some node \<Rightarrow>
        (case mget v ''yes'' of None \<Rightarrow> [] | Some y \<Rightarrow>
           if f_ge (f_of_int y) num \<and> mhas (Annotations node) ''nodeunhealth''
           then [PatchDelete (objName node) ''nodeunhealth''] else []))"
  "\<not> fst (vote_yes L pods num ip v) \<Longrightarrow> node_of L pods ip = None"
  by (auto simp: vote_yes_def node_of_def split: option.splits sum.splits if_splits)

lemma vote_no_spec:
  "vote_no L pods num ip v =
     (case node_of L pods ip of None \<Rightarrow> [] | Some node \<Rightarrow>
        (case mget v ''no'' of None \<Rightarrow> [] | Some y \<Rightarrow>
           if f_ge (f_of_int y) num \<and> \<not> mhas (Annotations node) ''nodeunhealth''
           then [PatchAdd (objName node) ''nodeunhealth'' ''yes''] else []))"
  by (auto simp: vote_no_def node_of_def split: option.splits sum.splits if_splits)

lemma vote_ip_eq: "vote_ip L pods num (ip, v) = snd (vote_yes L pods num ip v) @ vote_no L pods num ip v"
  using vote_yes_spec(2) [of L pods num ip v] by (auto simp: vote_ip_def vote_no_spec split: prod.split)

lemma vote_ip_patches:
  "PatchDelete m a \<in> set (vote_ip L pods num (ip, v)) \<longleftrightarrow>
     (\<exists>node y. node_of L pods ip = Some node \<and> mget v ''yes'' = Some y \<and> f_ge (f_of_int y) num \<and>
        mhas (Annotations node) ''nodeunhealth'' \<and> m = objName node \<and> a = ''nodeunhealth'')"
  "PatchAdd m a x \<in> set (vote_ip L pods num (ip, v)) \<longleftrightarrow>
     (\<exists>node y. node_of L pods ip = Some node \<and> mget v ''no'' = Some y \<and> f_ge (f_of_int y) num \<and>
        \<not> mhas (Annotations node) ''nodeunhealth'' \<and> m = objName node \<and> a = ''nodeunhealth'' \<and> x = ''yes'')"
  by (cases "node_of L pods ip"; cases "mget v ''yes''"; cases "mget v ''no''";
      auto simp: vote_ip_eq vote_yes_spec(1) vote_no_spec)+

text \<open>When the result table names fewer than $2^{53}$ checkers, the float comparison is the exact one.\<close>

lemma vote_get_majority:
  fixes now vote n
  assumes wf: "result_wf r" and len: "length c < 2 ^ 52" "length r < 2 ^ 53"
  defines "vc \<equiv> count_votes now vote n (CopyResultDataAll r)"
  shows "(\<exists>y. vote_get vc ip (ballot b) = Some y \<and> f_ge (f_of_int y) (vote_line c)) \<longleftrightarrow>
    length c < 2 * card (voters now vote n r ip b)"
proof -
  have "card (voters now vote n r ip b) \<le> card (set (mkeys r))"
    by (rule card_mono [OF _ voters_subset]) simp
  also have "\<dots> \<le> length r" by (metis card_length length_map)
  finally have "int (card (voters now vote n r ip b)) < 2 ^ 53"
    using len(2) by (simp add: of_nat_less_numeral_power_cancel_iff)
  with majority_iff [OF len(1), of "int (card (voters now vote n r ip b))"] show ?thesis
    unfolding vc_def count_votes_spec(1) [OF wf] by auto
qed

lemma Vote_elem:
  assumes wf: "result_wf r" and h: "card (healthy now vote n r) \<noteq> 1"
  shows "p \<in> set (Vote L pods n now vote c r) \<longleftrightarrow>
    (\<exists>ip v. mget (voteCountMap (count_votes now vote n (CopyResultDataAll r))) ip = Some v \<and>
       p \<in> set (vote_ip L pods (vote_line c) (ip, v)))"
proof -
  let ?vc = "count_votes now vote n (CopyResultDataAll r)"
  have "length (healthNodeMap ?vc) = card (healthy now vote n r)"
    using count_votes_spec(2,3) [OF wf, of now vote n] by (metis mwf_def distinct_card length_map list.set_map)
  with h show ?thesis
    using mget_in_set [OF count_votes_spec(4) [OF wf, of now vote n]]
    by (auto simp: Vote_def Let_def)
qed

lemma Vote_patches:
  assumes "result_wf r" "card (healthy now vote nodeIP r) \<noteq> 1" "length c < 2 ^ 52" "length r < 2 ^ 53"
  shows "PatchDelete m a \<in> set (Vote L pods nodeIP now vote c r) \<longleftrightarrow>
      (\<exists>node ip. node_of L pods ip = Some node \<and> mhas (Annotations node) ''nodeunhealth'' \<and>
         length c < 2 * card (voters now vote nodeIP r ip True) \<and> m = objName node \<and> a = ''nodeunhealth'')"
    and "PatchAdd m a x \<in> set (Vote L pods nodeIP now vote c r) \<longleftrightarrow>
      (\<exists>node ip. node_of L pods ip = Some node \<and> \<not> mhas (Annotations node) ''nodeunhealth'' \<and>
         length c < 2 * card (voters now vote nodeIP r ip False) \<and> m = objName node \<and> a = ''nodeunhealth'' \<and> x = ''yes'')"
proof -
  let ?vc = "count_votes now vote nodeIP (CopyResultDataAll r)"
  have "(\<exists>y. vote_get ?vc ip key = Some y \<and> P y) \<longleftrightarrow> (\<exists>v. mget (voteCountMap ?vc) ip = Some v \<and> (\<exists>y. mget v key = Some y \<and> P y))"
    for ip key P by (cases "mget (voteCountMap ?vc) ip") (auto simp: vote_get_def mget0_def)
  note maj = vote_get_majority [OF assms(1,3,4), of now vote nodeIP, unfolded this]
  have b: "ballot True = ''yes''" "ballot False = ''no''" by (simp_all add: ballot_def)
  show "PatchDelete m a \<in> set (Vote L pods nodeIP now vote c r) \<longleftrightarrow>
      (\<exists>node ip. node_of L pods ip = Some node \<and> mhas (Annotations node) ''nodeunhealth'' \<and>
         length c < 2 * card (voters now vote nodeIP r ip True) \<and> m = objName node \<and> a = ''nodeunhealth'')"
    unfolding Vote_elem [OF assms(1,2)] vote_ip_patches maj [symmetric] b by blast
  show "PatchAdd m a x \<in> set (Vote L pods nodeIP now vote c r) \<longleftrightarrow>
      (\<exists>node ip. node_of L pods ip = Some node \<and> \<not> mhas (Annotations node) ''nodeunhealth'' \<and>
         length c < 2 * card (voters now vote nodeIP r ip False) \<and> m = objName node \<and> a = ''nodeunhealth'' \<and> x = ''yes'')"
    unfolding Vote_elem [OF assms(1,2)] vote_ip_patches maj [symmetric] b by blast
qed

text \<open>
  C1: what the vote does, unless just one checker has a valid result. The annotation is removed
  from a node exactly when it has it and the checkers whose valid result calls its address normal
  are more than half of the checked addresses; it is set exactly when the node does not have it and
  the checkers that call it abnormal are more than half. A result is valid when it is the node's
  own or not older than the vote timeout.
\<close>

theorem Vote_majority:
  assumes "result_wf r" "card (healthy now vote nodeIP r) \<noteq> 1"
    and "length c < 2 ^ 52" "length r < 2 ^ 53"
  shows "set (Vote L pods nodeIP now vote c r) =
    {PatchDelete (objName node) ''nodeunhealth'' | node ip. node_of L pods ip = Some node \<and>
       mhas (Annotations node) ''nodeunhealth'' \<and> length c < 2 * card (voters now vote nodeIP r ip True)} \<union>
    {PatchAdd (objName node) ''nodeunhealth'' ''yes'' | node ip. node_of L pods ip = Some node \<and>
       \<not> mhas (Annotations node) ''nodeunhealth'' \<and> length c < 2 * card (voters now vote nodeIP r ip False)}"
proof (intro set_eqI)
  fix p
  show "p \<in> set (Vote L pods nodeIP now vote c r) \<longleftrightarrow> p \<in>
    {PatchDelete (objName node) ''nodeunhealth'' | node ip. node_of L pods ip = Some node \<and>
       mhas (Annotations node) ''nodeunhealth'' \<and> length c < 2 * card (voters now vote nodeIP r ip True)} \<union>
    {PatchAdd (objName node) ''nodeunhealth'' ''yes'' | node ip. node_of L pods ip = Some node \<and>
       \<not> mhas (Annotations node) ''nodeunhealth'' \<and> length c < 2 * card (voters now vote nodeIP r ip False)}"
    using Vote_patches [OF assms, where L = L and pods = pods] by (cases p) auto
qed

text \<open>
  A node that is cut off does not vote. When every result from another checker has expired, the
  vote sends no patch, whatever the node itself measured.
\<close>

theorem Vote_isolated:
  assumes wf: "result_wf r"
    and "\<And>k ip d. k \<noteq> nodeIP \<Longrightarrow> mget (row_entries (result_row r k)) ip = Some d \<Longrightarrow> expired now vote d"
  shows "Vote L pods nodeIP now vote c r = []"
proof (cases "healthy now vote nodeIP r = {}")
  case True
  then have none: "vote_get (count_votes now vote nodeIP (CopyResultDataAll r)) ip (ballot b) = None" for ip b
    using count_votes_spec(1) [OF wf] by (auto simp: healthy_def)
  have False if "p \<in> set (Vote L pods nodeIP now vote c r)" for p
  proof -
    have "card (healthy now vote nodeIP r) \<noteq> 1" using True by simp
    with that obtain ip v where v: "mget (voteCountMap (count_votes now vote nodeIP (CopyResultDataAll r))) ip = Some v"
      "p \<in> set (vote_ip L pods (vote_line c) (ip, v))"
      using Vote_elem [OF wf] by blast
    then have "mget v ''yes'' = None" "mget v ''no'' = None"
      using none [of ip True] none [of ip False] by (simp_all add: vote_get_def mget0_def ballot_def)
    then have "vote_ip L pods (vote_line c) (ip, v) = []"
      by (simp add: vote_ip_eq vote_yes_spec(1) vote_no_spec split: option.split)
    with v(2) show False by simp
  qed
  then show ?thesis by (meson list.set_sel(1))
next
  case False
  moreover have "k = nodeIP" if "k \<in> healthy now vote nodeIP r" for k
    using that assms(2) [of k] unfolding healthy_def voters_def counted_def by blast
  ultimately have "healthy now vote nodeIP r = {nodeIP}" by blast
  then have "length (healthNodeMap (count_votes now vote nodeIP (CopyResultDataAll r))) = 1"
    using count_votes_spec(2,3) [OF wf, of now vote nodeIP]
    by (metis mwf_def distinct_card length_map list.set_map is_singletonI is_singleton_altdef)
  then show ?thesis by (simp add: Vote_def Let_def)
qed

lemma count_expired:
  assumes "k \<noteq> n" "\<And>ip d. (ip, d) \<in> set v \<Longrightarrow> expired now vote d"
  shows "foldl (count_vote now vote n k) vc v = vc"
  using assms(2)
proof (induction v arbitrary: vc)
  case (Cons x v)
  obtain ip d where x: "x = (ip, d)" by fastforce
  have "expired now vote d" using Cons.prems [of ip d] x by simp
  then have "count_vote now vote n k vc x = vc" using assms(1) by (simp add: count_vote_def x)
  moreover have "foldl (count_vote now vote n k) vc v = vc" by (rule Cons.IH) (rule Cons.prems, rule list.set_intros(2))
  ultimately show ?case by simp
qed simp

text \<open>
  A checker, other than the node itself, whose results have all expired has no influence on the
  vote: the patches are those of the table without its row.
\<close>

theorem Vote_ignores_expired:
  assumes wf: "result_wf r" and "k \<noteq> nodeIP"
    and exp: "\<And>ip d. mget (row_entries (result_row r k)) ip = Some d \<Longrightarrow> expired now vote d"
  shows "Vote L pods nodeIP now vote c (mdel k r) = Vote L pods nodeIP now vote c r"
proof -
  let ?F = "\<lambda>vc (k, v). foldl (count_vote now vote nodeIP k) vc v"
  have del: "CopyResultDataAll (mdel k r) = mdel k (CopyResultDataAll r)"
    unfolding CopyResultDataAll_eq [OF wf] CopyResultDataAll_eq [OF result_wf_mdel [OF wf]]
    by (simp add: mdel_filter filter_map comp_def case_prod_unfold)
  have "foldl ?F vc (mdel k t) = foldl ?F vc t" if "\<And>v ip d. (k, v) \<in> set t \<Longrightarrow> (ip, d) \<in> set v \<Longrightarrow> expired now vote d" for t vc
    using that
  proof (induction t arbitrary: vc)
    case (Cons x t)
    obtain k' v where x: "x = (k', v)" by fastforce
    have "foldl (count_vote now vote nodeIP k') vc v = vc" if "k' = k"
      unfolding that by (rule count_expired [OF assms(2)]) (use Cons.prems [of v] x that in auto)
    moreover have "foldl ?F vc (mdel k t) = foldl ?F vc t" for vc
      by (rule Cons.IH) (rule Cons.prems, rule list.set_intros(2))
    ultimately show ?case by (auto simp: x)
  qed simp
  moreover have "expired now vote d" if "(k, v) \<in> set (CopyResultDataAll r)" "(ip, d) \<in> set v" for v ip d
    using that exp entries_iff [OF wf, of k ip d] by (auto simp: entries_mem)
  ultimately have "count_votes now vote nodeIP (CopyResultDataAll (mdel k r)) = count_votes now vote nodeIP (CopyResultDataAll r)"
    unfolding del count_votes_def by blast
  then show ?thesis by (simp add: Vote_def)
qed

text \<open>
  Quorum intersection. If one node removes the annotation of a node and another one sets it,
  both check the same number of addresses, and no more checkers than that report to either of them,
  then some checker reported the address as normal to the first and as abnormal to the second: two
  majorities cannot disagree about reports that all checkers made alike.
\<close>

theorem Vote_quorum:
  assumes wf: "result_wf rA" "result_wf rB"
    and h: "card (healthy nowA voteA ipA rA) \<noteq> 1" "card (healthy nowB voteB ipB rB) \<noteq> 1"
    and len: "length cA < 2 ^ 52" "length rA < 2 ^ 53" "length cB = length cA" "length rB < 2 ^ 53"
    and S: "set (mkeys rA) \<union> set (mkeys rB) \<subseteq> S" "finite S" "card S \<le> length cA"
    and del: "PatchDelete m a \<in> set (Vote LA podsA ipA nowA voteA cA rA)"
    and add: "PatchAdd m b x \<in> set (Vote LB podsB ipB nowB voteB cB rB)"
    and uniq: "\<And>ip ip' node node'. node_of LA podsA ip = Some node \<Longrightarrow> node_of LB podsB ip' = Some node' \<Longrightarrow>
         objName node = objName node' \<Longrightarrow> ip = ip'"
  shows "\<exists>k ip d d'. k \<in> S \<and> mget (row_entries (result_row rA k)) ip = Some d \<and> Normal d \<and>
    mget (row_entries (result_row rB k)) ip = Some d' \<and> \<not> Normal d'"
proof -
  obtain node ip where A: "node_of LA podsA ip = Some node" "length cA < 2 * card (voters nowA voteA ipA rA ip True)" "m = objName node"
    using del by (auto simp: Vote_patches(1) [OF wf(1) h(1) len(1,2)])
  obtain node' ip' where B: "node_of LB podsB ip' = Some node'" "length cA < 2 * card (voters nowB voteB ipB rB ip' False)" "m = objName node'"
    using add Vote_patches(2) [OF wf(2) h(2) len(1) [folded len(3)] len(4)] len(3) by auto
  have ip: "ip' = ip" using uniq [OF A(1) B(1)] A(3) B(3) by simp
  let ?Y = "voters nowA voteA ipA rA ip True" and ?N = "voters nowB voteB ipB rB ip False"
  have "?Y \<subseteq> S" "?N \<subseteq> S" using S(1) voters_subset by blast+
  then have "card (?Y \<union> ?N) \<le> card S" using S(2) by (intro card_mono) auto
  moreover have "card ?Y + card ?N = card (?Y \<union> ?N) + card (?Y \<inter> ?N)"
    by (rule card_Un_Int) (simp_all add: finite_voters wf)
  ultimately have "card (?Y \<inter> ?N) \<noteq> 0" using A(2) B(2) [unfolded ip] S(3) by linarith
  then obtain k where "k \<in> ?Y" "k \<in> ?N" by (metis Int_iff all_not_in_conv card.empty)
  moreover from this(1) obtain d where "mget (row_entries (result_row rA k)) ip = Some d" "Normal d"
    unfolding voters_def by blast
  moreover from calculation(2) obtain d' where "mget (row_entries (result_row rB k)) ip = Some d'" "\<not> Normal d'"
    unfolding voters_def by blast
  ultimately show ?thesis using \<open>?Y \<subseteq> S\<close> by blast
qed

section \<open>A vote of two checkers\<close>

definition sample_votes :: "bool \<Rightarrow> ResultData" where
  "sample_votes b = [(''10.0.0.1'', Some [(''10.0.0.2'', detail b)]), (''10.0.0.2'', Some [(''10.0.0.2'', detail b)])]"

definition sample_checkinfo :: CheckInfoData where
  "sample_checkinfo = [(''10.0.0.1'', []), (''10.0.0.2'', [])]"

text \<open>The same listers with every node carrying the annotation.\<close>

definition annotated_listers :: listers where
  "annotated_listers = sample_listers\<lparr>node_Get := (\<lambda>n. Inr ((meta n)\<lparr>Annotations := [(''nodeunhealth'', ''yes'')]\<rparr>))\<rparr>"

lemma sample_votes_wf: "result_wf (sample_votes b)" "length (sample_votes b) < 2 ^ 53" "length sample_checkinfo < 2 ^ 52"
  by (simp_all add: sample_votes_def sample_checkinfo_def result_wf_def mwf_def)

lemma sample_keys: "set (mkeys (sample_votes b)) = {''10.0.0.1'', ''10.0.0.2''}"
  by (simp add: sample_votes_def)

lemma sample_rows: "mget (row_entries (result_row (sample_votes b) k)) ip =
    (if k \<in> {''10.0.0.1'', ''10.0.0.2''} \<and> ip = ''10.0.0.2'' then Some (detail b) else None)"
  by (auto simp: sample_votes_def result_row_def mget0_def)

lemma sample_valid: "\<not> expired 5 (NewVoteEdge 10 10) (detail b)"
  using sint_word64 [of "10 ^ 10"] by (simp add: expired_def duration_seconds_def NewVoteEdge_def GetVoteTimeout_def detail_def)

lemma sample_voters:
  "voters 5 (NewVoteEdge 10 10) n (sample_votes b) ip b' =
     (if ip = ''10.0.0.2'' \<and> b' = b then {''10.0.0.1'', ''10.0.0.2''} else {})"
  unfolding voters_def sample_rows by (auto simp: counted_def sample_valid) (simp_all add: detail_def)

lemma sample_healthy: "card (healthy 5 (NewVoteEdge 10 10) n (sample_votes b)) \<noteq> 1"
proof -
  have "healthy 5 (NewVoteEdge 10 10) n (sample_votes b) = {''10.0.0.1'', ''10.0.0.2''}"
    by (auto simp: healthy_def sample_voters split: if_splits)
  then show ?thesis by simp
qed

definition only_b :: pod_store where
  "only_b = Some (\<lambda>idx key.
     Inr (filter (\<lambda>p. key \<in> {HostIP p}) [\<lparr>PodIP = ''2'', HostIP = ''10.0.0.2'', pod_NodeName = ''b''\<rparr>]))"

lemma only_b_node_of: "node_of L only_b ip =
    (if ip = ''10.0.0.2'' then (case node_Get L ''b'' of Inl _ \<Rightarrow> None | Inr n \<Rightarrow> Some n) else None)"
  by (auto simp: node_of_def GetNodeNameByNodeIP_def only_b_def)

theorem Vote_majority_witness:
  "PatchAdd ''b'' ''nodeunhealth'' ''yes'' \<in>
     set (Vote sample_listers only_b ''10.0.0.1'' 5 (NewVoteEdge 10 10) sample_checkinfo (sample_votes False))"
  unfolding Vote_majority [OF sample_votes_wf(1) sample_healthy sample_votes_wf(3,2)] sample_voters only_b_node_of
  by (auto simp: meta_def sample_checkinfo_def sample_listers_def)

theorem Vote_isolated_witness:
  "Vote sample_listers sample_pods ''10.0.0.1'' (10 ^ 11) (NewVoteEdge 10 10) sample_checkinfo (sample_votes False) = []"
proof -
  have "expired (10 ^ 11) (NewVoteEdge 10 10) (detail False)"
    using sint_word64 [of "10 ^ 10"] by (simp add: expired_def duration_seconds_def NewVoteEdge_def GetVoteTimeout_def detail_def)
  then show ?thesis
    by (intro Vote_isolated sample_votes_wf) (auto simp: sample_rows split: if_splits)
qed

theorem Vote_ignores_expired_witness:
  "Vote sample_listers sample_pods ''10.0.0.1'' (10 ^ 11) (NewVoteEdge 10 10) sample_checkinfo (mdel ''10.0.0.2'' (sample_votes False)) =
   Vote sample_listers sample_pods ''10.0.0.1'' (10 ^ 11) (NewVoteEdge 10 10) sample_checkinfo (sample_votes False)"
proof -
  have "expired (10 ^ 11) (NewVoteEdge 10 10) (detail False)"
    using sint_word64 [of "10 ^ 10"] by (simp add: expired_def duration_seconds_def NewVoteEdge_def GetVoteTimeout_def detail_def)
  then show ?thesis
    by (intro Vote_ignores_expired sample_votes_wf) (auto simp: sample_rows split: if_splits)
qed

theorem Vote_quorum_witness:
  "\<exists>k ip d d'. k \<in> {''10.0.0.1'', ''10.0.0.2''} \<and>
     mget (row_entries (result_row (sample_votes True) k)) ip = Some d \<and> Normal d \<and>
     mget (row_entries (result_row (sample_votes False) k)) ip = Some d' \<and> \<not> Normal d'"
proof (rule Vote_quorum [of "sample_votes True" "sample_votes False" 5 "NewVoteEdge 10 10" "''10.0.0.1''" 5 "NewVoteEdge 10 10" "''10.0.0.2''"
    sample_checkinfo sample_checkinfo _ "''b''" _ annotated_listers only_b _ _ sample_listers only_b])
  show "PatchDelete ''b'' ''nodeunhealth'' \<in>
     set (Vote annotated_listers only_b ''10.0.0.1'' 5 (NewVoteEdge 10 10) sample_checkinfo (sample_votes True))"
    unfolding Vote_patches(1) [OF sample_votes_wf(1) sample_healthy sample_votes_wf(3,2)] sample_voters only_b_node_of
    by (auto simp: meta_def sample_checkinfo_def annotated_listers_def)
  show "PatchAdd ''b'' ''nodeunhealth'' ''yes'' \<in>
     set (Vote sample_listers only_b ''10.0.0.2'' 5 (NewVoteEdge 10 10) sample_checkinfo (sample_votes False))"
    unfolding Vote_patches(2) [OF sample_votes_wf(1) sample_healthy sample_votes_wf(3,2)] sample_voters only_b_node_of
    by (auto simp: meta_def sample_checkinfo_def sample_listers_def)
qed (auto simp: sample_votes_wf [simplified] sample_healthy [simplified] only_b_node_of sample_keys [simplified]
    sample_checkinfo_def split: if_splits)

end
