(* ===== verification/Communicate.thy ===== *)
theory Communicate
  imports HealthVote
begin

text \<open>
  How the edge-health nodes exchange results (\<open>src/pkg/edge-health/communicate\<close>,
  \<open>src/pkg/edge-health/util/util.go\<close>): the client that sends the local row to every checked address,
  the server with its \<open>/result\<close>, \<open>/localinfo\<close> and \<open>/probe\<close> handlers, the message authentication code,
  and the worker pool of the prober.

  The encoder and decoder of \<open>encoding/json\<close>, HMAC-SHA256 and the network are arguments. An HTTP
  response is its status code and its body.
\<close>

section \<open>util.go\<close>

definition HmacConfig :: string where "HmacConfig = ''hmac-config''"
definition HmacKey :: string where "HmacKey = ''hmackey''"
definition DefaultHmacKey :: string where "DefaultHmacKey = ''hSZbJsKAVmWTxRPi''"

text \<open>\<open>json.Marshal\<close> of the two parts that are signed, and \<open>GetHmacCode\<close>, which cannot fail.\<close>

record hmac_env =
  marshal_ip :: "string \<Rightarrow> string"
  marshal_details :: "result_row \<Rightarrow> string"
  GetHmacCode :: "string \<Rightarrow> string \<Rightarrow> go_error + string"

definition hmac_key :: "listers \<Rightarrow> common \<Rightarrow> string" where
  "hmac_key L env =
     (case configmap_Get L (Namespace env) HmacConfig of
        Inl err \<Rightarrow> DefaultHmacKey
      | Inr hmacconf \<Rightarrow>
          if mget0 [] (cmData hmacconf) HmacKey = [] then DefaultHmacKey
          else mget0 [] (cmData hmacconf) HmacKey)"

definition GenerateHmac :: "hmac_env \<Rightarrow> listers \<Rightarrow> common \<Rightarrow> CommunicateData \<Rightarrow> go_error + string" where
  "GenerateHmac h L env communicatedata =
     (let hmacBefore = marshal_ip h (SourceIP communicatedata) @ marshal_details h (cd_ResultDetail communicatedata)
      in GetHmacCode h hmacBefore (hmac_key L env))"

record NodeAddress =
  na_Type :: string
  Address :: string

record NodeStatus =
  ns_Name :: string
  Addresses :: "NodeAddress list"

fun GetNodeNameByIp :: "NodeStatus list \<Rightarrow> string \<Rightarrow> string" where
  "GetNodeNameByIp [] ip = ''''"
| "GetNodeNameByIp (v # nodes) ip =
     (if list_ex (\<lambda>i. na_Type i = ''InternalIP'' \<and> Address i = ip) (Addresses v) then ns_Name v
      else GetNodeNameByIp nodes ip)"

section \<open>The /result handler\<close>

definition StatusPaymentRequired :: int where "StatusPaymentRequired = 402"
definition StatusInternalServerError :: int where "StatusInternalServerError = 500"
definition StatusForbidden :: int where "StatusForbidden = 403"
definition StatusBadRequest :: int where "StatusBadRequest = 400"

type_synonym response = "int \<times> string"

text \<open>
  The body of a request may be nil. \<open>decode\<close> is the JSON decoder into a fresh \<open>CommunicateData\<close>;
  \<open>now\<close> is the clock in seconds at the time of \<open>SetResult\<close>.
\<close>

definition handle_result ::
    "hmac_env \<Rightarrow> listers \<Rightarrow> common \<Rightarrow> (string \<Rightarrow> go_error + CommunicateData) \<Rightarrow> int \<Rightarrow>
     string option \<Rightarrow> ResultData \<Rightarrow> response \<times> ResultData" where
  "handle_result h L env decode now body r =
     (case body of
        None \<Rightarrow> ((StatusPaymentRequired, ''Invalid Body''), r)
      | Some b \<Rightarrow>
          (case decode b of
             Inl err \<Rightarrow> ((StatusPaymentRequired, ''Invalid Body''), r)
           | Inr communicatedata \<Rightarrow>
               (case GenerateHmac h L env communicatedata of
                  Inl err \<Rightarrow> ((StatusInternalServerError, ''Hmac not match''), r)
                | Inr hmac \<Rightarrow>
                    if hmac \<noteq> cd_Hmac communicatedata then ((StatusForbidden, ''Hmac not match''), r)
                    else ((StatusOK, ''''), SetResult now communicatedata r))))"

text \<open>
  The \<open>/localinfo\<close> handler writes the whole table first when \<open>fullmesh\<close> is given, and then the row of
  the local node; the results are the documents it encodes.
\<close>

datatype localinfo_doc = FullMesh ResultData | LocalRow "(string, ResultDetail) gomap"

definition handle_localinfo :: "common \<Rightarrow> string \<Rightarrow> ResultData \<Rightarrow> localinfo_doc list" where
  "handle_localinfo env fullmesh r =
     (if fullmesh \<noteq> [] then [FullMesh (GetResultDataAll r)] else []) @ [LocalRow (CopyLocalResultData (NodeIP env) r)]"

section \<open>The client\<close>

record CommunicateEdge =
  CommunicatePeriod :: int
  CommunicateTimeout :: int
  CommunicateRetryTime :: int
  CommunicateServerPort :: int

text \<open>One PUT request: its URL and the data that its body encodes.\<close>

type_synonym put_request = "string \<times> CommunicateData"

definition signed_data :: "hmac_env \<Rightarrow> listers \<Rightarrow> common \<Rightarrow> (string, ResultDetail) gomap \<Rightarrow> CommunicateData" where
  "signed_data h L env details =
     (let u = \<lparr>SourceIP = NodeIP env, cd_ResultDetail = Some details, cd_Hmac = ''''\<rparr> in
      case GenerateHmac h L env u of Inl err \<Rightarrow> u | Inr hmac \<Rightarrow> u\<lparr>cd_Hmac := hmac\<rparr>)"

text \<open>
  One attempt: the request that was sent, if any, and whether the peer accepted it. \<open>send\<close> is the
  outcome of \<open>client.Do\<close> for the given URL, body and attempt.
\<close>

definition put_attempt ::
    "hmac_env \<Rightarrow> listers \<Rightarrow> common \<Rightarrow> pod_store \<Rightarrow> (string \<Rightarrow> string \<Rightarrow> go_error option) \<Rightarrow>
     (put_request \<Rightarrow> nat \<Rightarrow> http_outcome) \<Rightarrow> CommunicateEdge \<Rightarrow> (string, ResultDetail) gomap \<Rightarrow> string \<Rightarrow> nat \<Rightarrow>
     put_request list \<times> bool" where
  "put_attempt h L env pods newreq send c details desNodeIP i =
     (let u = signed_data h L env details in
      case GetPodIPByNodeIP pods desNodeIP of
        Inl err \<Rightarrow> ([], False)
      | Inr desPodIP \<Rightarrow>
          (let url = ''http://'' @ desPodIP @ '':'' @ Itoa (CommunicateServerPort c) @ ''/result'' in
           case newreq ''PUT'' url of
             Some err \<Rightarrow> ([], False)
           | None \<Rightarrow>
               (case send (url, u) i of
                  HttpErr err \<Rightarrow> ([(url, u)], False)
                | HttpResp StatusCode body \<Rightarrow> ([(url, u)], StatusCode = StatusOK))))"

fun put_retries :: "(nat \<Rightarrow> put_request list \<times> bool) \<Rightarrow> nat \<Rightarrow> nat \<Rightarrow> put_request list" where
  "put_retries attempt i 0 = []"
| "put_retries attempt i (Suc n) =
     (case attempt i of (reqs, ok) \<Rightarrow> reqs @ (if ok then [] else put_retries attempt (Suc i) n))"

text \<open>The requests of one round of the client, per destination, in the order of the loop.\<close>

definition Client ::
    "hmac_env \<Rightarrow> listers \<Rightarrow> common \<Rightarrow> pod_store \<Rightarrow> (string \<Rightarrow> string \<Rightarrow> go_error option) \<Rightarrow>
     (put_request \<Rightarrow> nat \<Rightarrow> http_outcome) \<Rightarrow> CommunicateEdge \<Rightarrow> ResultData \<Rightarrow> (string \<times> put_request list) list" where
  "Client h L env pods newreq send c r =
     (case GetLocalResultData (NodeIP env) r of
        None \<Rightarrow> []
      | Some _ \<Rightarrow>
          (let tempCommunicateData = CopyLocalResultData (NodeIP env) r in
           map (\<lambda>(desNodeIP, _).
              (desNodeIP,
               if desNodeIP \<noteq> NodeIP env
               then put_retries (put_attempt h L env pods newreq send c tempCommunicateData desNodeIP) 0
                      (nat (CommunicateRetryTime c))
               else [])) tempCommunicateData))"

section \<open>The prober\<close>

text \<open>
  \<open>Parallelize\<close>: a closed channel with the pieces, and workers that take a piece, process it, and stop
  when the channel is empty. A worker is idle, busy with a piece, or has returned.
\<close>

datatype worker = Idle | Busy nat | Returned

record pool =
  toProcess :: "nat list"
  pool_workers :: "worker list"
  processed :: "nat list"

definition pool_start :: "int \<Rightarrow> nat \<Rightarrow> pool" where
  "pool_start workers pieces =
     (let workers = (if int pieces < workers then int pieces else workers)
      in \<lparr>toProcess = [0..<pieces], pool_workers = replicate (nat workers) Idle, processed = []\<rparr>)"

inductive pool_step :: "pool \<Rightarrow> pool \<Rightarrow> bool" where
  take_piece: "\<lbrakk>i < length (pool_workers s); pool_workers s ! i = Idle; toProcess s = p # ps\<rbrakk> \<Longrightarrow>
     pool_step s (s\<lparr>toProcess := ps, pool_workers := (pool_workers s)[i := Busy p]\<rparr>)"
| do_piece: "\<lbrakk>i < length (pool_workers s); pool_workers s ! i = Busy p\<rbrakk> \<Longrightarrow>
     pool_step s (s\<lparr>pool_workers := (pool_workers s)[i := Idle], processed := processed s @ [p]\<rparr>)"
| finish: "\<lbrakk>i < length (pool_workers s); pool_workers s ! i = Idle; toProcess s = []\<rbrakk> \<Longrightarrow>
     pool_step s (s\<lparr>pool_workers := (pool_workers s)[i := Returned]\<rparr>)"

record Target =
  t_Name :: string
  t_IP :: string
  t_Port :: int
  Protocol :: string
  t_Normal :: "bool option"

definition ProtoTCP :: string where "ProtoTCP = ''tcp''"
definition ProtoICMP :: string where "ProtoICMP = ''icmp''"
definition MaxProbeIPs :: nat where "MaxProbeIPs = 100"
definition MaxTargetName :: nat where "MaxTargetName = 128"

record ProberManager =
  TCPProbe :: "string \<Rightarrow> int \<Rightarrow> int \<Rightarrow> bool"
  ICMPProbe :: "string \<Rightarrow> int \<Rightarrow> bool"
  ProbeTimeout :: int

text \<open>A target of the request may be a JSON null, a nil pointer whose fields cannot be read.\<close>

fun validate_targets :: "Target option list \<Rightarrow> response option go" where
  "validate_targets [] = Ret None"
| "validate_targets (None # ts) = Panic"
| "validate_targets (Some t # ts) =
     (if Protocol t \<noteq> [] \<and> Protocol t \<notin> {ProtoTCP, ProtoICMP}
      then Ret (Some (StatusBadRequest, ''Invalid Protocol '' @ Protocol t))
      else if length (t_Name t) > MaxTargetName
      then Ret (Some (StatusBadRequest, ''Invalid Target Name'' @ t_Name t))
      else validate_targets ts)"

definition probe_target :: "ProberManager \<Rightarrow> Target \<Rightarrow> Target" where
  "probe_target pm t =
     t\<lparr>t_Normal := Some (if Protocol t = ProtoTCP then TCPProbe pm (t_IP t) (t_Port t) (ProbeTimeout pm)
                         else if Protocol t = ProtoICMP then ICMPProbe pm (t_IP t) (ProbeTimeout pm)
                         else False)\<rparr>"

text \<open>\<open>doWorkPiece(i)\<close> for the pieces in the order in which the workers process them.\<close>

definition process_pieces :: "ProberManager \<Rightarrow> nat list \<Rightarrow> Target list \<Rightarrow> Target list" where
  "process_pieces pm order ts = foldl (\<lambda>ts i. ts[i := probe_target pm (ts ! i)]) ts order"

text \<open>
  \<open>HandleProbe\<close>, with the order in which the pool processed the targets. The handlers of
  \<open>encoding/json\<close> are arguments; the response is the status and the document.
\<close>

definition HandleProbe ::
    "ProberManager \<Rightarrow> (string \<Rightarrow> go_error + Target option list) \<Rightarrow> (Target list \<Rightarrow> string) \<Rightarrow> nat list \<Rightarrow>
     (go_error + string) option \<Rightarrow> response go" where
  "HandleProbe pm unmarshal marshal order body =
     (case body of
        None \<Rightarrow> Ret (StatusPaymentRequired, ''Invalid Body'')
      | Some (Inl err) \<Rightarrow> Ret (StatusPaymentRequired, ''Invalid Body'')
      | Some (Inr b) \<Rightarrow>
          (case unmarshal b of
             Inl err \<Rightarrow> Ret (StatusPaymentRequired, ''Invalid Body'')
           | Inr targets \<Rightarrow>
               go_bind (validate_targets targets) (\<lambda>v.
                 case v of
                   Some resp \<Rightarrow> Ret resp
                 | None \<Rightarrow>
                     if length targets > MaxProbeIPs then Ret (StatusBadRequest, ''Targets Too Long'')
                     else Ret (StatusOK, marshal (process_pieces pm order (map the targets))))))"

section \<open>Exchange of results\<close>

definition stamp :: "int \<Rightarrow> (string, ResultDetail) gomap \<Rightarrow> (string, ResultDetail) gomap" where
  "stamp now details = map (\<lambda>(k, v). (k, v\<lparr>Time := now\<rparr>)) details"

lemma SetResult_spec:
  "mget (SetResult now u r) k = (if k = SourceIP u then Some (map_option (stamp now) (cd_ResultDetail u)) else mget r k)"
  by (auto simp: SetResult_def Let_def stamp_def gomap map_option_case split: option.split)

text \<open>
  C4: the /result handler answers 200 exactly when the body decodes and carries the code that the
  server computes for it. Any other request leaves the result table as it was. An accepted one
  replaces the row of the sender by the received verdicts, stamped with the time of the server, and
  changes no other row.
\<close>

theorem handle_result_authenticated:
  assumes "handle_result h L env decode now body r = ((code, msg), r')"
  shows "(code = StatusOK \<longleftrightarrow> (\<exists>b u. body = Some b \<and> decode b = Inr u \<and> GenerateHmac h L env u = Inr (cd_Hmac u))) \<and>
    (code \<noteq> StatusOK \<longrightarrow> r' = r) \<and>
    (\<forall>b u. code = StatusOK \<and> body = Some b \<and> decode b = Inr u \<longrightarrow>
       (\<forall>k. mget r' k = (if k = SourceIP u then Some (map_option (stamp now) (cd_ResultDetail u)) else mget r k)))"
  using assms
  by (auto simp: handle_result_def StatusOK_def StatusPaymentRequired_def StatusForbidden_def StatusInternalServerError_def
      SetResult_spec split: option.splits sum.splits if_splits)

definition sample_hmac :: hmac_env where
  "sample_hmac = \<lparr>marshal_ip = id, marshal_details = (\<lambda>d. ''d''), GetHmacCode = (\<lambda>s k. Inr (s @ k))\<rparr>"

theorem handle_result_authenticated_witness:
  "snd (handle_result sample_hmac sample_listers sample_env (\<lambda>b. Inr \<lparr>SourceIP = ''x'', cd_ResultDetail = None, cd_Hmac = b\<rparr>)
     7 (Some ''wrong'') (sample_votes True)) = sample_votes True"
proof -
  let ?call = "handle_result sample_hmac sample_listers sample_env (\<lambda>b. Inr \<lparr>SourceIP = ''x'', cd_ResultDetail = None, cd_Hmac = b\<rparr>)
     7 (Some ''wrong'') (sample_votes True)"
  obtain code msg r' where c: "?call = ((code, msg), r')" by (metis surj_pair)
  have "GenerateHmac sample_hmac sample_listers sample_env \<lparr>SourceIP = ''x'', cd_ResultDetail = None, cd_Hmac = ''wrong''\<rparr> \<noteq> Inr ''wrong''"
    by (simp add: GenerateHmac_def sample_hmac_def hmac_key_def sample_listers_def DefaultHmacKey_def)
  with handle_result_authenticated [OF c] c show ?thesis by auto
qed

lemma put_retries_elem: "x \<in> set (put_retries att i n) \<Longrightarrow> \<exists>j. x \<in> set (fst (att j))"
proof (induction n arbitrary: i)
  case (Suc n)
  then show ?case by (cases "att i") (auto split: if_splits; metis fst_conv)
qed simp

lemma put_attempt_data: "(url, u) \<in> set (fst (put_attempt h L env pods newreq send c details ip i)) \<Longrightarrow> u = signed_data h L env details"
  by (auto simp: put_attempt_def Let_def split: sum.splits option.splits http_outcome.splits)

lemma Client_data:
  assumes "result_wf r" "(ip, reqs) \<in> set (Client h L env pods newreq send c r)" "(url, u) \<in> set reqs"
  shows "u = signed_data h L env (row_entries (result_row r (NodeIP env)))" "ip \<noteq> NodeIP env"
  using assms put_retries_elem [of "(url, u)"] put_attempt_data
  by (fastforce simp: Client_def Let_def CopyLocalResultData_eq GetLocalResultData_def split: option.splits if_splits)+

text \<open>
  Results travel. Every request that the client of one node sends is accepted by the handler of
  another node with the same HMAC key, if JSON decoding undoes encoding for it, and leaves there
  exactly the sender's own row, with the receiver's time; no other row of the receiver changes.
\<close>

theorem Client_result_delivered:
  assumes "result_wf rA" "(ip, reqs) \<in> set (Client h LA envA pods newreq send c rA)" "(url, u) \<in> set reqs"
    and "hmac_key LA envA = hmac_key LB envB" "GetHmacCode h s (hmac_key LB envB) = Inr code"
    and "s = marshal_ip h (NodeIP envA) @ marshal_details h (Some (row_entries (result_row rA (NodeIP envA))))"
    and "decode (encode u) = Inr u"
  shows "\<exists>r'. handle_result h LB envB decode now (Some (encode u)) rB = ((StatusOK, ''''), r') \<and>
    mget r' (NodeIP envA) = Some (Some (stamp now (row_entries (result_row rA (NodeIP envA))))) \<and>
    (\<forall>k. k \<noteq> NodeIP envA \<longrightarrow> mget r' k = mget rB k)"
proof -
  let ?row = "row_entries (result_row rA (NodeIP envA))"
  have "GenerateHmac h LA envA \<lparr>SourceIP = NodeIP envA, cd_ResultDetail = Some ?row, cd_Hmac = ''''\<rparr> = Inr code"
    using assms(4-6) by (simp add: GenerateHmac_def)
  then have u: "u = \<lparr>SourceIP = NodeIP envA, cd_ResultDetail = Some ?row, cd_Hmac = code\<rparr>"
    using Client_data(1) [OF assms(1-3)] by (simp add: signed_data_def Let_def)
  then have "GenerateHmac h LB envB u = Inr (cd_Hmac u)"
    using assms(5,6) by (simp add: GenerateHmac_def)
  then show ?thesis
    using assms(7) u by (simp add: handle_result_def SetResult_spec)
qed

text \<open>A client with one retry, in a network where every request is accepted.\<close>

definition sample_client :: "(string \<times> put_request list) list" where
  "sample_client = Client sample_hmac sample_listers sample_env sample_pods (\<lambda>m u. None) (\<lambda>rq i. HttpResp 200 (Inr ''''))
     \<lparr>CommunicatePeriod = 1, CommunicateTimeout = 1, CommunicateRetryTime = 2, CommunicateServerPort = 80\<rparr> (sample_votes True)"

lemma sample_client_eq:
  "sample_client = [(''10.0.0.2'', [(''http://2:80/result'',
     signed_data sample_hmac sample_listers sample_env [(''10.0.0.2'', detail True)])])]"
  by (simp add: sample_client_def Client_def GetLocalResultData_def CopyLocalResultData_eq sample_votes_wf sample_env_def
      sample_votes_def result_row_def mget0_def put_attempt_def Let_def GetPodIPByNodeIP_def sample_pods_def StatusOK_def eval_nat_numeral
      CopyLocalResultData_def copy_map_def)

theorem Client_result_delivered_witness:
  "\<exists>u r'. snd (hd sample_client) = [(''http://2:80/result'', u)] \<and>
     handle_result sample_hmac sample_listers sample_env (\<lambda>b. Inr u) 9 (Some ''doc'') [] = ((StatusOK, ''''), r') \<and>
     mget r' ''10.0.0.1'' = Some (Some [(''10.0.0.2'', \<lparr>Normal = True, rd_Hmac = '''', Time = 9\<rparr>)])"
proof -
  let ?u = "signed_data sample_hmac sample_listers sample_env [(''10.0.0.2'', detail True)]"
  have "(''10.0.0.2'', [(''http://2:80/result'', ?u)]) \<in> set sample_client" by (simp add: sample_client_eq)
  then have "\<exists>r'. handle_result sample_hmac sample_listers sample_env (\<lambda>b. Inr ?u) 9 (Some ''doc'') [] = ((StatusOK, ''''), r') \<and>
      mget r' (NodeIP sample_env) = Some (Some (stamp 9 (row_entries (result_row (sample_votes True) (NodeIP sample_env))))) \<and>
      (\<forall>k. k \<noteq> NodeIP sample_env \<longrightarrow> mget r' k = mget [] k)"
    unfolding sample_client_def
    by (rule Client_result_delivered [OF sample_votes_wf(1) _ _ refl _ refl, where encode = "\<lambda>_. ''doc''"]) (auto simp: sample_hmac_def)
  then show ?thesis
    by (auto simp: sample_client_eq sample_env_def stamp_def sample_votes_def result_row_def mget0_def detail_def)
qed

section \<open>The worker pool\<close>

inductive_simps pool_step_iff: "pool_step s s'"

definition busy_pieces :: "worker list \<Rightarrow> nat list" where
  "busy_pieces ws = concat (map (\<lambda>w. case w of Busy p \<Rightarrow> [p] | _ \<Rightarrow> []) ws)"

lemma busy_pieces_update:
  "i < length ws \<Longrightarrow> mset (busy_pieces (ws[i := w])) + mset (busy_pieces [ws ! i]) = mset (busy_pieces ws) + mset (busy_pieces [w])"
proof (induction ws arbitrary: i)
  case (Cons v ws)
  then show ?case by (cases i) (auto simp: busy_pieces_def)
qed simp

text \<open>Every piece is waiting, being processed, or processed; a worker returns only from an empty channel.\<close>

definition pool_inv :: "nat \<Rightarrow> pool \<Rightarrow> bool" where
  "pool_inv pieces s \<longleftrightarrow>
     mset (toProcess s) + mset (busy_pieces (pool_workers s)) + mset (processed s) = mset [0..<pieces] \<and>
     (Returned \<in> set (pool_workers s) \<longrightarrow> toProcess s = [])"

lemma set_update_Returned: "Returned \<in> set (ws[i := w]) \<Longrightarrow> w \<noteq> Returned \<Longrightarrow> Returned \<in> set ws"
  using set_update_subset_insert [of ws i w] by auto

lemma pool_step_inv:
  assumes "pool_step s s'" "pool_inv n s"
  shows "pool_inv n s'"
  using assms
proof cases
  case (take_piece i p ps)
  have "mset (busy_pieces ((pool_workers s)[i := Busy p])) = mset (busy_pieces (pool_workers s)) + {#p#}"
    using busy_pieces_update [OF take_piece(2), of "Busy p"] take_piece by (simp add: busy_pieces_def)
  moreover have "Returned \<notin> set (pool_workers s)" using assms(2) take_piece by (auto simp: pool_inv_def)
  ultimately show ?thesis
    using assms(2) take_piece set_update_Returned [of "pool_workers s" i "Busy p"] by (auto simp: pool_inv_def)
next
  case (do_piece i p)
  have "mset (busy_pieces ((pool_workers s)[i := Idle])) + {#p#} = mset (busy_pieces (pool_workers s))"
    using busy_pieces_update [OF do_piece(2), of Idle] do_piece by (simp add: busy_pieces_def)
  then have "mset (busy_pieces (pool_workers s)) = mset (busy_pieces ((pool_workers s)[i := Idle])) + {#p#}" by simp
  with assms(2) show ?thesis
    using do_piece set_update_Returned [of "pool_workers s" i Idle] by (auto simp: pool_inv_def)
next
  case (finish i)
  have "mset (busy_pieces ((pool_workers s)[i := Returned])) = mset (busy_pieces (pool_workers s))"
    using busy_pieces_update [OF finish(2), of Returned] finish by (simp add: busy_pieces_def)
  then show ?thesis using assms(2) finish by (auto simp: pool_inv_def)
qed

lemma pool_start_inv: "pool_inv n (pool_start w n)"
proof -
  have "busy_pieces (replicate k Idle) = []" for k by (induction k) (auto simp: busy_pieces_def)
  then show ?thesis by (auto simp: pool_inv_def pool_start_def Let_def)
qed

lemma pool_reach_inv: "pool_step\<^sup>*\<^sup>* (pool_start w n) s \<Longrightarrow> pool_inv n s"
  by (induction rule: rtranclp_induct) (auto intro: pool_start_inv pool_step_inv)

lemma pool_workers_length: "pool_step\<^sup>*\<^sup>* s s' \<Longrightarrow> length (pool_workers s') = length (pool_workers s)"
  by (induction rule: rtranclp_induct) (auto simp: pool_step_iff)

lemma pool_progress:
  assumes "i < length (pool_workers s)" "pool_workers s ! i \<noteq> Returned"
  shows "\<exists>s'. pool_step s s'"
proof (cases "pool_workers s ! i")
  case Idle
  then show ?thesis using assms(1) pool_step.take_piece pool_step.finish by (cases "toProcess s") blast+
qed (use assms pool_step.do_piece in blast)+

text \<open>A number that every step makes smaller.\<close>

definition pool_measure :: "pool \<Rightarrow> nat" where
  "pool_measure s = 3 * length (toProcess s) +
     sum_list (map (\<lambda>w. case w of Idle \<Rightarrow> 1 | Busy _ \<Rightarrow> 2 | Returned \<Rightarrow> 0) (pool_workers s))"

lemma sum_list_map_update:
  "i < length ws \<Longrightarrow> sum_list (map f (ws[i := w])) + f (ws ! i) = sum_list (map f ws) + (f w :: nat)"
proof (induction ws arbitrary: i)
  case (Cons v ws)
  then show ?case by (cases i) auto
qed simp

lemma pool_step_measure: "pool_step s s' \<Longrightarrow> pool_measure s' < pool_measure s"
proof (induction rule: pool_step.induct)
  case (take_piece i s p ps)
  then show ?case
    using sum_list_map_update [OF take_piece(1), of "\<lambda>w. case w of Idle \<Rightarrow> 1 | Busy _ \<Rightarrow> 2 | Returned \<Rightarrow> 0" "Busy p"]
    by (simp add: pool_measure_def)
next
  case (do_piece i s p)
  then show ?case
    using sum_list_map_update [OF do_piece(1), of "\<lambda>w. case w of Idle \<Rightarrow> 1 | Busy _ \<Rightarrow> 2 | Returned \<Rightarrow> 0" Idle]
    by (simp add: pool_measure_def)
next
  case (finish i s)
  then show ?case
    using sum_list_map_update [OF finish(1), of "\<lambda>w. case w of Idle \<Rightarrow> 1 | Busy _ \<Rightarrow> 2 | Returned \<Rightarrow> 0" Returned]
    by (simp add: pool_measure_def)
qed

text \<open>A stuck pool with at least one worker has processed every piece once.\<close>

lemma pool_stuck:
  assumes "pool_step\<^sup>*\<^sup>* (pool_start w n) s" "w > 0" "\<And>s'. \<not> pool_step s s'"
  shows "mset (processed s) = mset [0..<n]" and "\<forall>x \<in> set (pool_workers s). x = Returned"
proof -
  show all: "\<forall>x \<in> set (pool_workers s). x = Returned"
    using pool_progress [of _ s] assms(3) by (metis in_set_conv_nth)
  have "busy_pieces (pool_workers s) = []" using all by (auto simp: busy_pieces_def)
  moreover have "toProcess s = []"
  proof (cases "pool_workers s = []")
    case True
    then have "n = 0"
      using pool_workers_length [OF assms(1)] assms(2) by (auto simp: pool_start_def Let_def split: if_splits)
    then show ?thesis using pool_reach_inv [OF assms(1)] by (simp add: pool_inv_def)
  next
    case False
    then show ?thesis using all pool_reach_inv [OF assms(1)] by (metis list.set_sel(1) pool_inv_def)
  qed
  ultimately show "mset (processed s) = mset [0..<n]"
    using pool_reach_inv [OF assms(1)] by (simp add: pool_inv_def)
qed

text \<open>
  C34: Parallelize, whatever the interleaving of its workers: it cannot run forever, and when no
  worker can move any more, all of them have returned and every piece was processed exactly once.
\<close>

theorem Parallelize_exactly_once:
  assumes "workers > 0"
  shows "wfP (\<lambda>s' s. pool_step s s') \<and>
    (\<forall>s. pool_step\<^sup>*\<^sup>* (pool_start workers pieces) s \<and> (\<nexists>s'. pool_step s s') \<longrightarrow>
       mset (processed s) = mset [0..<pieces] \<and> (\<forall>x \<in> set (pool_workers s). x = Returned))"
proof
  have "{(s', s). pool_step s s'} \<subseteq> measure pool_measure" using pool_step_measure by auto
  then show "wfP (\<lambda>s' s. pool_step s s')" unfolding wfp_def using wf_subset by blast
  show "\<forall>s. pool_step\<^sup>*\<^sup>* (pool_start workers pieces) s \<and> (\<nexists>s'. pool_step s s') \<longrightarrow>
       mset (processed s) = mset [0..<pieces] \<and> (\<forall>x \<in> set (pool_workers s). x = Returned)"
    using pool_stuck assms by blast
qed

abbreviation one_piece_done :: pool where
  "one_piece_done \<equiv> \<lparr>toProcess = [], pool_workers = [Returned], processed = [0]\<rparr>"

lemma one_piece_run: "pool_step\<^sup>*\<^sup>* (pool_start 1 1) one_piece_done" "\<nexists>s'. pool_step one_piece_done s'"
proof -
  let ?s0 = "\<lparr>toProcess = [0], pool_workers = [Idle], processed = []\<rparr>"
  let ?s1 = "\<lparr>toProcess = [], pool_workers = [Busy 0], processed = []\<rparr>"
  let ?s2 = "\<lparr>toProcess = [], pool_workers = [Idle], processed = [0]\<rparr>"
  have "pool_start 1 1 = ?s0" by (simp add: pool_start_def)
  moreover have "pool_step ?s0 ?s1" "pool_step ?s1 ?s2" "pool_step ?s2 one_piece_done"
    by (simp_all add: pool_step_iff)
  ultimately show "pool_step\<^sup>*\<^sup>* (pool_start 1 1) one_piece_done" by (metis converse_rtranclp_into_rtranclp rtranclp.rtrancl_refl)
  show "\<nexists>s'. pool_step one_piece_done s'" by (simp add: pool_step_iff)
qed

theorem Parallelize_exactly_once_witness:
  "pool_step\<^sup>*\<^sup>* (pool_start 1 1) one_piece_done \<and> mset (processed one_piece_done) = mset [0..<1]"
  using Parallelize_exactly_once [of 1 1] one_piece_run by (auto simp del: upt_conv_Cons)

section \<open>Probing\<close>

lemma process_pieces_nth:
  "distinct order \<Longrightarrow> length (process_pieces pm order ts) = length ts \<and>
     (\<forall>i < length ts. process_pieces pm order ts ! i = (if i \<in> set order then probe_target pm (ts ! i) else ts ! i))"
proof (induction order rule: rev_induct)
  case (snoc j order)
  then show ?case by (cases "j < length ts") (auto simp: process_pieces_def nth_list_update list_update_beyond)
qed (simp add: process_pieces_def)

lemma process_pieces_all:
  assumes "mset order = mset [0..<length ts]"
  shows "process_pieces pm order ts = map (probe_target pm) ts"
proof -
  have "distinct order" "set order = {0..<length ts}"
    using assms by (metis distinct_upt mset_eq_imp_distinct_iff, metis set_mset_mset set_upt)
  then show ?thesis
    using process_pieces_nth [of order pm ts] by (intro nth_equalityI) auto
qed

definition target_ok :: "Target \<Rightarrow> bool" where
  "target_ok t \<longleftrightarrow> Protocol t \<in> {[], ProtoTCP, ProtoICMP} \<and> length (t_Name t) \<le> MaxTargetName"

lemma validate_targets_ok: "(\<forall>t \<in> set ts. target_ok t) \<Longrightarrow> validate_targets (map Some ts) = Ret None"
  by (induction ts) (auto simp: target_ok_def)

lemma validate_targets_bad:
  "\<not> (\<forall>t \<in> set ts. target_ok t) \<Longrightarrow> \<exists>msg. validate_targets (map Some ts) = Ret (Some (StatusBadRequest, msg))"
proof (induction ts)
  case (Cons t ts)
  then show ?case by (cases "target_ok t") (auto simp: target_ok_def not_le split: if_splits)
qed simp

text \<open>
  HandleProbe on a request whose targets are all present. It answers 400 when a target has an
  unknown protocol or too long a name, or when there are more than 100 of them; otherwise it answers
  200 with every target probed once, in place, by the probe of its protocol, for every interleaving
  of the (n / 5) + 1 workers of the pool.
\<close>

theorem HandleProbe_correct:
  assumes "unmarshal b = Inr (map Some ts)"
    and "pool_step\<^sup>*\<^sup>* (pool_start (int (length ts) div 5 + 1) (length ts)) s" "\<nexists>s'. pool_step s s'"
  shows "if (\<forall>t \<in> set ts. target_ok t) \<and> length ts \<le> MaxProbeIPs
    then HandleProbe pm unmarshal marshal (processed s) (Some (Inr b)) = Ret (StatusOK, marshal (map (probe_target pm) ts))
    else \<exists>msg. HandleProbe pm unmarshal marshal (processed s) (Some (Inr b)) = Ret (StatusBadRequest, msg)"
proof (cases "\<forall>t \<in> set ts. target_ok t")
  case True
  have "mset (processed s) = mset [0..<length ts]"
    by (rule pool_stuck(1) [OF assms(2)]) (use assms(3) in auto)
  then show ?thesis
    using assms(1) True validate_targets_ok [OF True]
    by (auto simp: HandleProbe_def process_pieces_all comp_def)
next
  case False
  obtain msg where "validate_targets (map Some ts) = Ret (Some (StatusBadRequest, msg))"
    using validate_targets_bad [OF False] by blast
  then show ?thesis using assms(1) False by (auto simp: HandleProbe_def)
qed

theorem HandleProbe_correct_witness:
  "HandleProbe \<lparr>TCPProbe = (\<lambda>ip p t. True), ICMPProbe = (\<lambda>ip t. False), ProbeTimeout = 1\<rparr>
     (\<lambda>b. Inr (map Some [\<lparr>t_Name = [], t_IP = ''x'', t_Port = 1, Protocol = ''tcp'', t_Normal = None\<rparr>]))
     (\<lambda>ts. if map t_Normal ts = [Some True] then ''up'' else ''down'') (processed one_piece_done) (Some (Inr [])) =
   Ret (200, ''up'')"
proof -
  let ?t = "\<lparr>t_Name = [], t_IP = ''x'', t_Port = 1, Protocol = ''tcp'', t_Normal = None\<rparr> :: Target"
  have ok: "target_ok ?t" by (simp add: target_ok_def ProtoTCP_def)
  have "pool_step\<^sup>*\<^sup>* (pool_start (int (length [?t]) div 5 + 1) (length [?t])) one_piece_done"
    using one_piece_run(1) by simp
  from HandleProbe_correct [of "\<lambda>b. Inr (map Some [?t])", OF refl this one_piece_run(2),
      where pm = "\<lparr>TCPProbe = (\<lambda>ip p t. True), ICMPProbe = (\<lambda>ip t. False), ProbeTimeout = 1\<rparr>"
        and marshal = "\<lambda>ts. if map t_Normal ts = [Some True] then ''up'' else ''down''"]
  show ?thesis using ok by (simp add: MaxProbeIPs_def probe_target_def StatusOK_def ProtoTCP_def)
qed

text \<open>A null target makes the validation loop read through a nil pointer.\<close>

lemma HandleProbe_null_target:
  "unmarshal b = Inr (map Some ts @ None # us) \<Longrightarrow> (\<forall>t \<in> set ts. target_ok t) \<Longrightarrow>
     HandleProbe pm unmarshal marshal order (Some (Inr b)) = Panic"
proof -
  assume "unmarshal b = Inr (map Some ts @ None # us)" "\<forall>t \<in> set ts. target_ok t"
  moreover have "\<forall>t \<in> set ts. target_ok t \<Longrightarrow> validate_targets (map Some ts @ None # us) = Panic" for ts us
    by (induction ts) (auto simp: target_ok_def)
  ultimately show ?thesis by (simp add: HandleProbe_def)
qed

section \<open>daemon/initialize.go\<close>

text \<open>
  The identity of the node from the command line and the environment (\<open>getenv\<close>); the daemon panics
  when the pod or the node is not known. The state starts empty (\<open>initData\<close>).
\<close>

definition initHostName :: "(string \<Rightarrow> string) \<Rightarrow> string \<Rightarrow> string" where
  "initHostName getenv hostName =
     (if hostName = [] then RemoveAll (RemoveAll (getenv ''NODE_NAME'') (CHR 0x0A)) (CHR '' '') else hostName)"

definition initData :: health_state where
  "initData = \<lparr>NodeList = NewNodeListData, CheckInfoResult = NewCheckInfoData, Result = NewResultData\<rparr>"

definition initialize :: "(string \<Rightarrow> string) \<Rightarrow> string \<Rightarrow> (common \<times> health_state) go" where
  "initialize getenv hostName =
     (let podName = getenv ''POD_NAME''; nodeName = initHostName getenv hostName;
          podIP = getenv ''POD_IP''; nodeIP = getenv ''NODE_IP''; ns = getenv ''NAMESPACE'' in
      if podIP = [] \<or> podName = [] \<or> nodeIP = [] \<or> nodeName = [] then Panic
      else Ret (\<lparr>Namespace = (if ns = [] then ''kube-system'' else ns), NodeName = nodeName, NodeIP = nodeIP\<rparr>, initData))"

lemma initialize_wf: "initialize getenv h = Ret (env, s) \<Longrightarrow>
    NodeIP env \<noteq> [] \<and> NodeName env \<noteq> [] \<and> Namespace env \<noteq> [] \<and> checkinfo_wf (CheckInfoResult s) \<and> result_wf (Result s)"
  by (auto simp: initialize_def initData_def NewCheckInfoData_def NewResultData_def checkinfo_wf_def result_wf_def
      Let_def split: if_splits)

end
