(* ===== verification/KubeMeta.thy ===== *)
theory KubeMeta
  imports Prelude GoStrings
begin

text \<open>
  The Kubernetes API types that several components share: the metadata of an object
  (\<open>metav1.ObjectMeta\<close>), its owner references, and the endpoints of a service. Fields that no
  modelled function reads or writes are left out. A nil map is \<open>None\<close>; a nil slice and an empty one
  are both \<open>[]\<close>, except where a source tells them apart.
\<close>

record OwnerReference =
  or_APIVersion :: string
  or_Kind :: string
  or_Name :: string
  or_UID :: string
  or_Controller :: "bool option"
  or_BlockOwnerDeletion :: "bool option"

type_synonym labels = "(string, string) gomap"

record object_meta =
  om_Name :: string
  om_Namespace :: string
  om_UID :: string
  om_ResourceVersion :: string
  om_Labels :: "labels option"
  om_Annotations :: "labels option"
  om_OwnerReferences :: "OwnerReference list"
  om_DeletionTimestamp :: "int option"

definition zero_object_meta :: object_meta where
  "zero_object_meta = \<lparr>om_Name = '''', om_Namespace = '''', om_UID = '''', om_ResourceVersion = '''', om_Labels = None,
     om_Annotations = None, om_OwnerReferences = [], om_DeletionTimestamp = None\<rparr>"

text \<open>\<open>types.NamespacedName\<close>: the namespace and the name.\<close>

type_synonym NamespacedName = "string \<times> string"

definition namespaced_name :: "object_meta \<Rightarrow> NamespacedName" where
  "namespaced_name m = (om_Namespace m, om_Name m)"

text \<open>Reading a map that may be nil.\<close>

definition nget :: "('k, 'v) gomap option \<Rightarrow> 'k \<Rightarrow> 'v option" where
  "nget m k = (case m of None \<Rightarrow> None | Some l \<Rightarrow> map_of l k)"

lemma nget_simps [simp]: "nget None k = None" "nget (Some l) k = map_of l k"
  by (simp_all add: nget_def)

text \<open>
  \<open>reflect.DeepEqual\<close> on two maps: both nil, or neither and the same entries.
\<close>

definition map_DeepEqual :: "('k, 'v) gomap option \<Rightarrow> ('k, 'v) gomap option \<Rightarrow> bool" where
  "map_DeepEqual a b =
     (case (a, b) of
        (None, None) \<Rightarrow> True
      | (Some l, Some m) \<Rightarrow> list_all (\<lambda>k. map_of l k = map_of m k) (map fst l @ map fst m)
      | _ \<Rightarrow> False)"

lemma map_DeepEqual_iff: "map_DeepEqual a b \<longleftrightarrow> (a = None \<longleftrightarrow> b = None) \<and> nget a = nget b"
proof (cases a; cases b)
  fix l m assume ab: "a = Some l" "b = Some m"
  have "(\<forall>k \<in> set (map fst l @ map fst m). map_of l k = map_of m k) \<longleftrightarrow> map_of l = map_of m"
  proof (intro iffI ext)
    fix k assume *: "\<forall>k \<in> set (map fst l @ map fst m). map_of l k = map_of m k"
    show "map_of l k = map_of m k"
    proof (cases "k \<in> set (map fst l @ map fst m)")
      case False
      then have "map_of l k = None" "map_of m k = None" by (simp_all add: map_of_eq_None_iff)
      then show ?thesis by simp
    qed (use * in blast)
  qed simp
  with ab show ?thesis by (auto simp: map_DeepEqual_def list_all_iff nget_def fun_eq_iff)
qed (auto simp: map_DeepEqual_def)

text \<open>An address of an endpoint; \<open>NodeName\<close> and \<open>TargetRef\<close> are pointers. The reference is the list of its fields.\<close>

record EndpointAddress =
  ea_IP :: string
  Hostname :: string
  ea_NodeName :: "string option"
  TargetRef :: "string list option"

record EndpointPort =
  pt_Name :: string
  pt_Port :: int
  pt_Protocol :: string

record EndpointSubset =
  Addresses :: "EndpointAddress list"
  NotReadyAddresses :: "EndpointAddress list"
  subset_Ports :: "EndpointPort list"

end
