(* ===== verification/Admission.thy ===== *)
theory Admission
  imports KubeMeta
begin

text \<open>
  The mutating webhooks of edge-health (\<open>src/pkg/edge-health-admission\<close>). \<open>nodeTaint\<close> takes the
  unreachable taint back off a node that the vote has not marked as unhealthy; \<open>endPoint\<close> moves the
  addresses of such nodes from the not ready to the ready addresses of an Endpoints object. Both
  answer with a JSON patch, which the API server applies; the operations of a patch and their
  effect on the lists they address are modelled after RFC 6902.

  The decoder of the API machinery, the lookup of a node and \<open>Taint.MatchTaint\<close> are arguments.
\<close>

section \<open>util.go\<close>

record Taint =
  t_Key :: string
  t_Value :: string
  t_Effect :: string

record NodeCondition =
  nc_Type :: string
  nc_Status :: string

definition TaintExists :: "('t \<Rightarrow> 't \<Rightarrow> bool) \<Rightarrow> 't list \<Rightarrow> 't \<Rightarrow> bool" where
  "TaintExists MatchTaint taints taintToFind = list_ex (\<lambda>taint. MatchTaint taint taintToFind) taints"

fun position_from :: "('t \<Rightarrow> 't \<Rightarrow> bool) \<Rightarrow> int \<Rightarrow> 't list \<Rightarrow> 't \<Rightarrow> int \<times> bool" where
  "position_from MatchTaint index [] taintToFind = (- 1, False)"
| "position_from MatchTaint index (taint # taints) taintToFind =
     (if MatchTaint taint taintToFind then (index, True)
      else position_from MatchTaint (index + 1) taints taintToFind)"

definition TaintExistsPosition :: "('t \<Rightarrow> 't \<Rightarrow> bool) \<Rightarrow> 't list \<Rightarrow> 't \<Rightarrow> int \<times> bool" where
  "TaintExistsPosition MatchTaint taints taintToFind = position_from MatchTaint 0 taints taintToFind"

definition TaintSetDiff :: "('t \<Rightarrow> 't \<Rightarrow> bool) \<Rightarrow> 't list \<Rightarrow> 't list \<Rightarrow> 't list \<times> 't list" where
  "TaintSetDiff MatchTaint t1 t2 =
     (filter (\<lambda>taint. \<not> TaintExists MatchTaint t2 taint) t1,
      filter (\<lambda>taint. \<not> TaintExists MatchTaint t1 taint) t2)"

fun condition_from :: "int \<Rightarrow> NodeCondition list \<Rightarrow> string \<Rightarrow> int \<times> NodeCondition option" where
  "condition_from i [] conditionType = (- 1, None)"
| "condition_from i (c # cs) conditionType =
     (if nc_Type c = conditionType then (i, Some c) else condition_from (i + 1) cs conditionType)"

text \<open>A nil status is \<open>None\<close>, as is a nil pointer in the result.\<close>

definition GetNodeCondition :: "NodeCondition list option \<Rightarrow> string \<Rightarrow> int \<times> NodeCondition option" where
  "GetNodeCondition status conditionType =
     (case status of None \<Rightarrow> (- 1, None) | Some conditions \<Rightarrow> condition_from 0 conditions conditionType)"

section \<open>Requests and responses\<close>

record adm_node =
  an_Annotations :: "(string, string) gomap"
  Conditions :: "NodeCondition list"
  Taints :: "Taint list"

text \<open>\<open>Patch.Value\<close> is nil or the address to add.\<close>

record Patch =
  OP :: string
  Path :: string
  Value :: "EndpointAddress option"

type_synonym gvr = "string \<times> string \<times> string"

record AdmissionRequest =
  req_UID :: string
  req_Resource :: gvr
  req_Object :: string
  req_OldObject :: string

record AdmissionResponse =
  resp_UID :: string
  Allowed :: bool
  resp_Patch :: "Patch list option"
  resp_Message :: "go_error option"

definition zero_response :: AdmissionResponse where
  "zero_response = \<lparr>resp_UID = '''', Allowed = False, resp_Patch = None, resp_Message = None\<rparr>"

definition toAdmissionResponse :: "go_error \<Rightarrow> AdmissionResponse" where
  "toAdmissionResponse err = zero_response\<lparr>resp_Message := Some err\<rparr>"

definition decodeRaw :: "(string \<Rightarrow> go_error + 'o) \<Rightarrow> AdmissionRequest \<Rightarrow> string \<Rightarrow> AdmissionResponse + 'o" where
  "decodeRaw Decode req version =
     (let raw = (if version = ''new'' then req_Object req else if version = ''old'' then req_OldObject req else '''')
      in case Decode raw of Inl err \<Rightarrow> Inl (toAdmissionResponse err) | Inr obj \<Rightarrow> Inr obj)"

definition decodeRawNode :: "(string \<Rightarrow> go_error + adm_node) \<Rightarrow> AdmissionRequest \<Rightarrow> string \<Rightarrow> AdmissionResponse + adm_node" where
  "decodeRawNode = decodeRaw"

definition decodeRawEndPoint :: "(string \<Rightarrow> go_error + EndpointSubset list) \<Rightarrow> AdmissionRequest \<Rightarrow> string \<Rightarrow> AdmissionResponse + EndpointSubset list" where
  "decodeRawEndPoint = decodeRaw"

section \<open>nodetaint.go\<close>

definition UnreachNoExecuteTaint :: Taint where
  "UnreachNoExecuteTaint = \<lparr>t_Key = ''node.kubernetes.io/unreachable'', t_Value = '''', t_Effect = ''NoExecute''\<rparr>"

definition nodeResource :: gvr where "nodeResource = ('''', ''v1'', ''nodes'')"

definition NodeReady :: string where "NodeReady = ''Ready''"

definition ConditionUnknown :: string where "ConditionUnknown = ''Unknown''"

definition taint_patch :: "int \<Rightarrow> Patch" where
  "taint_patch index = \<lparr>OP = ''remove'', Path = ''/spec/taints/'' @ Itoa index, Value = None\<rparr>"

definition node_patches :: "(Taint \<Rightarrow> Taint \<Rightarrow> bool) \<Rightarrow> adm_node \<Rightarrow> adm_node \<Rightarrow> Patch list" where
  "node_patches MatchTaint nodeNew nodeOld =
     (let (taintsToAdd, _) = TaintSetDiff MatchTaint (Taints nodeNew) (Taints nodeOld) in
      if snd (TaintExistsPosition MatchTaint taintsToAdd UnreachNoExecuteTaint)
      then [taint_patch (fst (TaintExistsPosition MatchTaint (Taints nodeNew) UnreachNoExecuteTaint))]
      else if snd (TaintExistsPosition MatchTaint (Taints nodeNew) UnreachNoExecuteTaint)
      then [taint_patch (fst (TaintExistsPosition MatchTaint (Taints nodeNew) UnreachNoExecuteTaint))]
      else [])"

text \<open>
  The request of the review is a pointer. The log lines that print \<open>nodeNew.Spec.Taints[index]\<close> index
  a taint that was just found.
\<close>

definition nodeTaint ::
    "(Taint \<Rightarrow> Taint \<Rightarrow> bool) \<Rightarrow> (string \<Rightarrow> go_error + adm_node) \<Rightarrow> bool \<Rightarrow> AdmissionRequest option \<Rightarrow> AdmissionResponse go" where
  "nodeTaint MatchTaint Decode NodeAlwaysReachable ar =
     (case ar of
        None \<Rightarrow> Panic
      | Some req \<Rightarrow>
          if req_Resource req \<noteq> nodeResource then Ret (zero_response\<lparr>Allowed := True\<rparr>)
          else (case decodeRawNode Decode req ''new'' of
             Inl resp \<Rightarrow> Ret resp
           | Inr nodeNew \<Rightarrow>
               (case decodeRawNode Decode req ''old'' of
                  Inl resp \<Rightarrow> Ret resp
                | Inr nodeOld \<Rightarrow>
                    (case snd (GetNodeCondition (Some (Conditions nodeNew)) NodeReady) of
                       None \<Rightarrow> Panic
                     | Some condition \<Rightarrow>
                         (let patches =
                            (if nc_Status condition = ConditionUnknown \<and>
                                (\<not> mhas (an_Annotations nodeNew) ''nodeunhealth'' \<or> NodeAlwaysReachable)
                             then node_patches MatchTaint nodeNew nodeOld else [])
                          in Ret (zero_response\<lparr>Allowed := True,
                               resp_Patch := (if patches = [] then None else Some patches)\<rparr>))))))"

section \<open>endpoint.go\<close>

definition endpointResource :: gvr where "endpointResource = ('''', ''v1'', ''endpoints'')"

definition remove_patch :: "nat \<Rightarrow> nat \<Rightarrow> Patch" where
  "remove_patch i1 i2 =
     \<lparr>OP = ''remove'', Path = ''/subsets/'' @ Itoa (int i1) @ ''/notReadyAddresses/'' @ Itoa (int i2), Value = None\<rparr>"

definition add_patch :: "nat \<Rightarrow> nat \<Rightarrow> EndpointAddress \<Rightarrow> Patch" where
  "add_patch i1 i2 a =
     \<lparr>OP = ''add'', Path = ''/subsets/'' @ Itoa (int i1) @ ''/addresses/'' @ Itoa (int i2), Value = Some a\<rparr>"

text \<open>
  The body of the inner loop, for the not ready address \<open>a\<close> with the indices \<open>i1\<close> and \<open>i2\<close>. A nil node
  name, a missing Ready condition of a node without the annotation, and a nil reference panic.
\<close>

definition address_patches :: "(string \<Rightarrow> go_error + adm_node) \<Rightarrow> nat \<Rightarrow> nat \<Rightarrow> EndpointAddress \<Rightarrow> Patch list go" where
  "address_patches getNode i1 i2 a =
     (case ea_NodeName a of
        None \<Rightarrow> Panic
      | Some nodeName \<Rightarrow>
          (case getNode nodeName of
             Inl err \<Rightarrow> Ret []
           | Inr node \<Rightarrow>
               if mhas (an_Annotations node) ''nodeunhealth'' then Ret []
               else (case snd (GetNodeCondition (Some (Conditions node)) NodeReady) of
                  None \<Rightarrow> Panic
                | Some condition \<Rightarrow>
                    if nc_Status condition \<noteq> ConditionUnknown then Ret []
                    else (case TargetRef a of
                       None \<Rightarrow> Panic
                     | Some ref \<Rightarrow> Ret [remove_patch i1 i2, add_patch i1 i2 a]))))"

fun subset_patches :: "(string \<Rightarrow> go_error + adm_node) \<Rightarrow> nat \<Rightarrow> nat \<Rightarrow> EndpointAddress list \<Rightarrow> Patch list go" where
  "subset_patches getNode i1 i2 [] = Ret []"
| "subset_patches getNode i1 i2 (a # as) =
     go_bind (address_patches getNode i1 i2 a) (\<lambda>ps.
       go_bind (subset_patches getNode i1 (Suc i2) as) (\<lambda>qs. Ret (ps @ qs)))"

fun endpoint_patches :: "(string \<Rightarrow> go_error + adm_node) \<Rightarrow> nat \<Rightarrow> EndpointSubset list \<Rightarrow> Patch list go" where
  "endpoint_patches getNode i1 [] = Ret []"
| "endpoint_patches getNode i1 (s # ss) =
     go_bind (subset_patches getNode i1 0 (NotReadyAddresses s)) (\<lambda>ps.
       go_bind (endpoint_patches getNode (Suc i1) ss) (\<lambda>qs. Ret (ps @ qs)))"

definition endPoint ::
    "(string \<Rightarrow> go_error + adm_node) \<Rightarrow> (string \<Rightarrow> go_error + EndpointSubset list) \<Rightarrow> AdmissionRequest option \<Rightarrow> AdmissionResponse go" where
  "endPoint getNode Decode ar =
     (case ar of
        None \<Rightarrow> Panic
      | Some req \<Rightarrow>
          if req_Resource req \<noteq> endpointResource then Ret (zero_response\<lparr>Allowed := True\<rparr>)
          else (case decodeRawEndPoint Decode req ''new'' of
             Inl resp \<Rightarrow> Ret resp
           | Inr subsets \<Rightarrow>
               go_bind (endpoint_patches getNode 0 subsets) (\<lambda>patches.
                 Ret (zero_response\<lparr>resp_Patch := (if patches = [] then None else Some patches), Allowed := True\<rparr>))))"

section \<open>serve\<close>

text \<open>
  The HTTP handler: nothing is written for a wrong content type. \<open>Decode\<close> yields an error, if any,
  and the review as far as it was filled in, whose request may be nil. The result is the response
  that is written.
\<close>

definition serve ::
    "(AdmissionRequest option \<Rightarrow> AdmissionResponse go) \<Rightarrow> (string \<Rightarrow> go_error option \<times> AdmissionRequest option) \<Rightarrow>
     string \<Rightarrow> (go_error + string) option \<Rightarrow> AdmissionResponse option go" where
  "serve admit Decode contentType rbody =
     (let body = (case rbody of Some (Inr b) \<Rightarrow> b | _ \<Rightarrow> '''') in
      if contentType \<noteq> ''application/json'' then Ret None
      else (case Decode body of (err, request) \<Rightarrow>
        go_bind (case err of Some e \<Rightarrow> Ret (toAdmissionResponse e) | None \<Rightarrow> admit request) (\<lambda>resp.
          case request of None \<Rightarrow> Panic | Some req \<Rightarrow> Ret (Some (resp\<lparr>resp_UID := req_UID req\<rparr>)))))"

section \<open>The effect of the patches\<close>

definition remove_at :: "nat \<Rightarrow> 'a list \<Rightarrow> 'a list option" where
  "remove_at i xs = (if i < length xs then Some (take i xs @ drop (Suc i) xs) else None)"

definition insert_at :: "nat \<Rightarrow> 'a \<Rightarrow> 'a list \<Rightarrow> 'a list option" where
  "insert_at i x xs = (if i \<le> length xs then Some (take i xs @ x # drop i xs) else None)"

text \<open>A patch of a node applies when it names a position of the taint list.\<close>

definition apply_taint_patch :: "Patch \<Rightarrow> Taint list \<Rightarrow> Taint list option" where
  "apply_taint_patch p ts =
     (case find (\<lambda>i. p = taint_patch (int i)) [0..<length ts] of None \<Rightarrow> None | Some i \<Rightarrow> remove_at i ts)"

text \<open>
  A pair of patches of one subset, in the order of the list. An empty list of addresses is left out
  of the document, and an element cannot be added to a list that is not there.
\<close>

definition apply_remove :: "nat \<Rightarrow> EndpointSubset \<Rightarrow> EndpointSubset option" where
  "apply_remove i2 s = map_option (\<lambda>as. s\<lparr>NotReadyAddresses := as\<rparr>) (remove_at i2 (NotReadyAddresses s))"

definition apply_add :: "nat \<Rightarrow> EndpointAddress \<Rightarrow> EndpointSubset \<Rightarrow> EndpointSubset option" where
  "apply_add i2 a s =
     (if Addresses s = [] then None
      else map_option (\<lambda>as. s\<lparr>Addresses := as\<rparr>) (insert_at i2 a (Addresses s)))"

text \<open>Applying a list of patches that address the first subset; any failure fails the whole.\<close>

fun apply_patches :: "Patch list \<Rightarrow> EndpointSubset \<Rightarrow> EndpointSubset option" where
  "apply_patches [] s = Some s"
| "apply_patches (p # ps) s =
     (case find (\<lambda>i. p = remove_patch 0 i) [0..<Suc (length (NotReadyAddresses s))] of
        Some i \<Rightarrow> Option.bind (apply_remove i s) (apply_patches ps)
      | None \<Rightarrow>
          (case Value p of
             None \<Rightarrow> None
           | Some a \<Rightarrow>
               (case find (\<lambda>i. p = add_patch 0 i a) [0..<Suc (length (Addresses s))] of
                  Some i \<Rightarrow> Option.bind (apply_add i a s) (apply_patches ps)
                | None \<Rightarrow> None)))"

section \<open>Lemmas\<close>

lemma natDigits_inject: "natDigits n = natDigits m \<Longrightarrow> n = m"
proof -
  assume "natDigits n = natDigits m"
  then have "Some (int n) = Some (int m)" using digitsVal_natDigits by metis
  then show ?thesis by simp
qed

lemma Itoa_nat_inject [simp]: "Itoa (int i) = Itoa (int j) \<longleftrightarrow> i = j"
  using natDigits_inject by (auto simp: Itoa_def)

lemma taint_patch_inject [simp]: "taint_patch (int i) = taint_patch (int j) \<longleftrightarrow> i = j"
  by (auto simp: taint_patch_def)

lemma remove_patch_inject [simp]: "remove_patch 0 i = remove_patch 0 j \<longleftrightarrow> i = j"
  by (auto simp: remove_patch_def)

lemma add_patch_inject [simp]: "add_patch 0 i a = add_patch 0 j a \<longleftrightarrow> i = j"
  by (auto simp: add_patch_def)

lemma remove_not_add [simp]: "add_patch i j a \<noteq> remove_patch k l" "Value (add_patch i j a) = Some a" "Value (remove_patch i j) = None"
  by (simp_all add: remove_patch_def add_patch_def)

lemma find_eq_upt [simp]: "find (\<lambda>i. k = i) [m..<n] = (if m \<le> k \<and> k < n then Some k else None)"
proof (induction "n - m" arbitrary: m)
  case (Suc d)
  then have "[m..<n] = m # [Suc m..<n]" by (simp add: upt_conv_Cons)
  with Suc.hyps(1) [of "Suc m"] Suc.hyps(2) show ?case by auto
qed simp

lemma position_from_spec:
  "position_from mt i ts x =
     (if list_ex (\<lambda>t. mt t x) ts then (i + int (length (takeWhile (\<lambda>t. \<not> mt t x) ts)), True) else (- 1, False))"
  by (induction ts arbitrary: i) auto

lemma remove_first:
  assumes "list_ex P ts"
  shows "remove_at (length (takeWhile (\<lambda>t. \<not> P t) ts)) ts = Some (takeWhile (\<lambda>t. \<not> P t) ts @ tl (dropWhile (\<lambda>t. \<not> P t) ts))"
    and "length (takeWhile (\<lambda>t. \<not> P t) ts) < length ts"
proof -
  show len: "length (takeWhile (\<lambda>t. \<not> P t) ts) < length ts"
    using assms by (induction ts) auto
  have "drop (Suc n) ts = tl (drop n ts)" for n by (simp add: drop_Suc tl_drop)
  then show "remove_at (length (takeWhile (\<lambda>t. \<not> P t) ts)) ts = Some (takeWhile (\<lambda>t. \<not> P t) ts @ tl (dropWhile (\<lambda>t. \<not> P t) ts))"
    using len by (simp add: remove_at_def takeWhile_eq_take [symmetric] dropWhile_eq_drop)
qed

lemma node_patches_spec:
  "node_patches mt new old =
     (if list_ex (\<lambda>t. mt t UnreachNoExecuteTaint) (Taints new)
      then [taint_patch (int (length (takeWhile (\<lambda>t. \<not> mt t UnreachNoExecuteTaint) (Taints new))))] else [])"
  by (auto simp: node_patches_def TaintSetDiff_def TaintExistsPosition_def position_from_spec list_ex_iff)

text \<open>
  C38: nodeTaint on an update of a node with a Ready condition. The update is always allowed. It is
  patched exactly when the node's state is unknown, the vote has not marked it as unhealthy (or
  nodes count as always reachable) and the new object carries the unreachable taint, whether that
  taint is new or was there before; the patch applies and takes out the first such taint, and since
  taints are unique by key and effect, none is left.
\<close>

theorem nodeTaint_removes_unreachable:
  assumes "\<And>a b. MatchTaint a b \<longleftrightarrow> t_Key a = t_Key b \<and> t_Effect a = t_Effect b"
    and "req_Resource req = nodeResource" "Decode (req_Object req) = Inr new" "Decode (req_OldObject req) = Inr old"
    and "GetNodeCondition (Some (Conditions new)) NodeReady = (i, Some condition)"
    and "distinct (map (\<lambda>t. (t_Key t, t_Effect t)) (Taints new))"
  shows "\<exists>resp. nodeTaint MatchTaint Decode always (Some req) = Ret resp \<and> Allowed resp \<and>
    (if nc_Status condition = ConditionUnknown \<and> (\<not> mhas (an_Annotations new) ''nodeunhealth'' \<or> always) \<and>
        (\<exists>t \<in> set (Taints new). MatchTaint t UnreachNoExecuteTaint)
     then \<exists>p ts. resp_Patch resp = Some [p] \<and> apply_taint_patch p (Taints new) = Some ts \<and>
       ts = filter (\<lambda>t. \<not> MatchTaint t UnreachNoExecuteTaint) (Taints new)
     else resp_Patch resp = None)"
proof -
  let ?P = "\<lambda>t. MatchTaint t UnreachNoExecuteTaint"
  have filt: "takeWhile (\<lambda>t. \<not> ?P t) ts @ tl (dropWhile (\<lambda>t. \<not> ?P t) ts) = filter (\<lambda>t. \<not> ?P t) ts"
    if "distinct (map (\<lambda>t. (t_Key t, t_Effect t)) ts)" for ts
    using that
  proof (induction ts)
    case (Cons t ts)
    have "filter (\<lambda>t. \<not> ?P t) ts = ts" if "?P t"
      using that Cons.prems assms(1) by (auto intro!: filter_True simp: image_iff)
    with Cons show ?case by auto
  qed simp
  have "apply_taint_patch (taint_patch (int (length (takeWhile (\<lambda>t. \<not> ?P t) (Taints new))))) (Taints new) =
      Some (filter (\<lambda>t. \<not> ?P t) (Taints new))" if "list_ex ?P (Taints new)"
    using remove_first [OF that] filt [OF assms(6)] by (simp add: apply_taint_patch_def)
  then show ?thesis
    using assms(2-5)
    by (auto simp: nodeTaint_def decodeRawNode_def decodeRaw_def node_patches_spec list_ex_iff)
qed

definition sample_request :: "gvr \<Rightarrow> AdmissionRequest" where
  "sample_request r = \<lparr>req_UID = ''u'', req_Resource = r, req_Object = ''new'', req_OldObject = ''old''\<rparr>"

definition sample_adm_node :: adm_node where
  "sample_adm_node = \<lparr>an_Annotations = [], Conditions = [\<lparr>nc_Type = ''Ready'', nc_Status = ''Unknown''\<rparr>],
     Taints = [\<lparr>t_Key = ''k'', t_Value = '''', t_Effect = ''NoSchedule''\<rparr>, UnreachNoExecuteTaint]\<rparr>"

theorem nodeTaint_removes_unreachable_witness:
  "\<exists>resp p. nodeTaint (\<lambda>a b. t_Key a = t_Key b \<and> t_Effect a = t_Effect b) (\<lambda>_. Inr sample_adm_node) False
       (Some (sample_request nodeResource)) = Ret resp \<and> resp_Patch resp = Some [p] \<and>
     apply_taint_patch p (Taints sample_adm_node) = Some [\<lparr>t_Key = ''k'', t_Value = '''', t_Effect = ''NoSchedule''\<rparr>]"
  using nodeTaint_removes_unreachable [of "\<lambda>a b. t_Key a = t_Key b \<and> t_Effect a = t_Effect b" "sample_request nodeResource"
      "\<lambda>_. Inr sample_adm_node" sample_adm_node sample_adm_node 0 "\<lparr>nc_Type = ''Ready'', nc_Status = ''Unknown''\<rparr>" False]
  by (auto simp: sample_request_def sample_adm_node_def GetNodeCondition_def NodeReady_def ConditionUnknown_def UnreachNoExecuteTaint_def)

text \<open>A node without a Ready condition makes \<open>nodeTaint\<close> read through a nil pointer.\<close>

lemma nodeTaint_panics_without_ready:
  "req_Resource req = nodeResource \<Longrightarrow> Decode (req_Object req) = Inr new \<Longrightarrow> Decode (req_OldObject req) = Inr old \<Longrightarrow>
     (\<And>c. c \<in> set (Conditions new) \<Longrightarrow> nc_Type c \<noteq> NodeReady) \<Longrightarrow> nodeTaint mt Decode always (Some req) = Panic"
proof -
  assume a: "req_Resource req = nodeResource" "Decode (req_Object req) = Inr new" "Decode (req_OldObject req) = Inr old"
    "\<And>c. c \<in> set (Conditions new) \<Longrightarrow> nc_Type c \<noteq> NodeReady"
  have "(\<And>c. c \<in> set cs \<Longrightarrow> nc_Type c \<noteq> ct) \<Longrightarrow> snd (condition_from i cs ct) = None" for i cs ct
    by (induction cs arbitrary: i) auto
  with a show ?thesis
    by (simp add: nodeTaint_def decodeRawNode_def decodeRaw_def GetNodeCondition_def)
qed

text \<open>A review that cannot be decoded and has no request makes \<open>serve\<close> read through a nil pointer.\<close>

lemma serve_panics_on_bad_body:
  "Decode (case rbody of Some (Inr b) \<Rightarrow> b | _ \<Rightarrow> '''') = (Some err, None) \<Longrightarrow> serve admit Decode ''application/json'' rbody = Panic"
  by (simp add: serve_def Let_def)

section \<open>Moving addresses\<close>

text \<open>An address that the webhook wants to move: its node is known, not marked, and in unknown state.\<close>

definition movable :: "(string \<Rightarrow> go_error + adm_node) \<Rightarrow> EndpointAddress \<Rightarrow> bool" where
  "movable getNode a \<longleftrightarrow>
     (\<exists>n node i c ref. ea_NodeName a = Some n \<and> getNode n = Inr node \<and> \<not> mhas (an_Annotations node) ''nodeunhealth'' \<and>
        GetNodeCondition (Some (Conditions node)) NodeReady = (i, Some c) \<and> nc_Status c = ConditionUnknown \<and>
        TargetRef a = Some ref)"

fun move_patches :: "nat \<Rightarrow> EndpointAddress list \<Rightarrow> Patch list" where
  "move_patches i [] = []"
| "move_patches i (a # as) = remove_patch 0 i # add_patch 0 i a # move_patches (Suc i) as"

lemma subset_patches_movable:
  "(\<And>a. a \<in> set as \<Longrightarrow> movable getNode a) \<Longrightarrow> subset_patches getNode 0 i as = Ret (move_patches i as)"
proof (induction as arbitrary: i)
  case (Cons a as)
  have "movable getNode a" using Cons.prems by simp
  then have "address_patches getNode 0 i a = Ret [remove_patch 0 i, add_patch 0 i a]"
    by (auto simp: movable_def address_patches_def)
  moreover have "subset_patches getNode 0 (Suc i) as = Ret (move_patches (Suc i) as)"
    by (rule Cons.IH) (rule Cons.prems, simp)
  ultimately show ?case by simp
qed simp

lemma find_False [simp]: "find (\<lambda>i. False) xs = None"
  by (induction xs) auto

lemma apply_move:
  "apply_patches (remove_patch 0 i # add_patch 0 i a # ps) s =
     (if i < length (NotReadyAddresses s) \<and> Addresses s \<noteq> [] \<and> i \<le> length (Addresses s)
      then apply_patches ps (s\<lparr>NotReadyAddresses := take i (NotReadyAddresses s) @ drop (Suc i) (NotReadyAddresses s),
             Addresses := take i (Addresses s) @ a # drop i (Addresses s)\<rparr>)
      else None)"
  by (auto simp: apply_remove_def apply_add_def remove_at_def insert_at_def simp del: upt_Suc)

text \<open>With two or more addresses to move, the patch does not apply: its positions are those before any removal.\<close>

lemma apply_many_fails:
  "length (NotReadyAddresses s) = length as \<Longrightarrow> as \<noteq> [] \<Longrightarrow> i + length as \<ge> 2 \<Longrightarrow> apply_patches (move_patches i as) s = None"
proof (induction as arbitrary: i s)
  case (Cons a as)
  show ?case
  proof (cases "as = []")
    case True
    then show ?thesis using Cons.prems by (simp add: apply_move del: apply_patches.simps(2))
  next
    case False
    then show ?thesis
      using Cons.IH [of _ "Suc i"] Cons.prems by (auto simp: apply_move simp del: apply_patches.simps(2))
  qed
qed simp

text \<open>
  What the patch of endPoint does to an Endpoints object with one subset all of whose not ready
  addresses belong to nodes in unknown state that the vote has not marked. With one such address
  and a non-empty list of ready addresses the patch moves it to the front of that list. With
  several of them, or with no ready address, the patch does not apply.
\<close>

theorem endPoint_patch_effect:
  assumes "req_Resource req = endpointResource" "Decode (req_Object req) = Inr [s]"
    and "\<And>a. a \<in> set (NotReadyAddresses s) \<Longrightarrow> movable getNode a" "NotReadyAddresses s \<noteq> []"
  shows "\<exists>resp ps. endPoint getNode Decode (Some req) = Ret resp \<and> Allowed resp \<and> resp_Patch resp = Some ps \<and>
    apply_patches ps s =
      (if length (NotReadyAddresses s) = 1 \<and> Addresses s \<noteq> []
       then Some (s\<lparr>Addresses := hd (NotReadyAddresses s) # Addresses s, NotReadyAddresses := []\<rparr>) else None)"
proof -
  let ?ps = "move_patches 0 (NotReadyAddresses s)"
  have "apply_patches ?ps s =
      (if length (NotReadyAddresses s) = 1 \<and> Addresses s \<noteq> []
       then Some (s\<lparr>Addresses := hd (NotReadyAddresses s) # Addresses s, NotReadyAddresses := []\<rparr>) else None)"
  proof (cases "length (NotReadyAddresses s) = 1")
    case True
    then obtain a where "NotReadyAddresses s = [a]" by (auto simp: length_Suc_conv)
    then show ?thesis by (auto simp: apply_move simp del: apply_patches.simps(2))
  next
    case False
    have "length (NotReadyAddresses s) \<noteq> 0" using assms(4) by simp
    with False have "0 + length (NotReadyAddresses s) \<ge> 2" by linarith
    with False assms(4) show ?thesis using apply_many_fails [of s "NotReadyAddresses s" 0] by simp
  qed
  moreover have "?ps \<noteq> []" using assms(4) by (cases "NotReadyAddresses s") auto
  moreover have "endpoint_patches getNode 0 [s] = Ret ?ps"
    using subset_patches_movable [OF assms(3)] by simp
  ultimately show ?thesis
    using assms(1,2) by (simp add: endPoint_def decodeRawEndPoint_def decodeRaw_def del: endpoint_patches.simps)
qed

definition sample_address :: "string \<Rightarrow> EndpointAddress" where
  "sample_address ip = \<lparr>ea_IP = ip, Hostname = '''', ea_NodeName = Some ''n'', TargetRef = Some []\<rparr>"

definition sample_subset :: "string list \<Rightarrow> string list \<Rightarrow> EndpointSubset" where
  "sample_subset ready notready = \<lparr>Addresses = map sample_address ready, NotReadyAddresses = map sample_address notready, subset_Ports = []\<rparr>"

lemma sample_movable: "movable (\<lambda>_. Inr sample_adm_node) (sample_address ip)"
  by (simp add: movable_def sample_address_def sample_adm_node_def GetNodeCondition_def NodeReady_def ConditionUnknown_def)

theorem endPoint_patch_effect_witness:
  "(\<exists>resp ps. endPoint (\<lambda>_. Inr sample_adm_node) (\<lambda>_. Inr [sample_subset [''1''] [''2'']]) (Some (sample_request endpointResource)) = Ret resp \<and>
      resp_Patch resp = Some ps \<and> apply_patches ps (sample_subset [''1''] [''2'']) = Some (sample_subset [''2'', ''1''] [])) \<and>
   (\<exists>resp ps. endPoint (\<lambda>_. Inr sample_adm_node) (\<lambda>_. Inr [sample_subset [] [''2'']]) (Some (sample_request endpointResource)) = Ret resp \<and>
      resp_Patch resp = Some ps \<and> apply_patches ps (sample_subset [] [''2'']) = None)"
proof -
  have r: "req_Resource (sample_request endpointResource) = endpointResource" by (simp add: sample_request_def)
  have m: "movable (\<lambda>_. Inr sample_adm_node) a" if "a \<in> set (NotReadyAddresses (sample_subset x y))" for a x y
    using that sample_movable by (auto simp: sample_subset_def)
  have ne: "NotReadyAddresses (sample_subset x [''2'']) \<noteq> []" for x by (simp add: sample_subset_def)
  have eff: "\<exists>resp ps. endPoint (\<lambda>_. Inr sample_adm_node) (\<lambda>_. Inr [sample_subset x [''2'']]) (Some (sample_request endpointResource)) = Ret resp \<and>
      Allowed resp \<and> resp_Patch resp = Some ps \<and> apply_patches ps (sample_subset x [''2'']) =
        (if length (NotReadyAddresses (sample_subset x [''2''])) = 1 \<and> Addresses (sample_subset x [''2'']) \<noteq> []
         then Some (sample_subset x [''2'']\<lparr>Addresses := hd (NotReadyAddresses (sample_subset x [''2''])) # Addresses (sample_subset x [''2'']),
           NotReadyAddresses := []\<rparr>) else None)" for x
    by (rule endPoint_patch_effect [OF r _ m ne]) simp
  show ?thesis
    using eff [of "[''1'']"] eff [of "[]"] by (auto simp: sample_subset_def)
qed

end
