(* ===== verification/GridStorage.thy ===== *)
theory GridStorage
  imports KubeMeta HealthData
begin

text \<open>
  The pruning of endpoints by service topology
  (\<open>src/pkg/application-grid-wrapper/storage/util.go\<close>). The wrapper on a node answers the list
  and watch requests of kube-proxy; of a service with topology keys it only shows the endpoints
  on nodes that agree with its own node on a key, and with the autonomy enhancement only those
  on nodes that the health checks of the neighbourhood do not report as failed.

  A node and a service are their metadata. \<open>json.Unmarshal\<close> into a list of strings and
  \<open>net.ParseIP\<close> are arguments. The same code is written three times in the source, for Endpoints
  and for the two versions of EndpointSlice, and so it is here; the equivalences are lemmas.
\<close>

section \<open>Data\<close>

record Endpoints =
  ep_meta :: object_meta
  ep_Subsets :: "EndpointSubset list"

record SlicePort =
  sp_Name :: "string option"
  sp_Protocol :: "string option"
  sp_Port :: "int option"

record EndpointV1 =
  e1_Addresses :: "string list"
  e1_Hostname :: "string option"
  e1_TargetRef :: "string list option"
  e1_NodeName :: "string option"

record EndpointSliceV1 =
  sl_meta :: object_meta
  sl_Endpoints :: "EndpointV1 list"
  sl_Ports :: "SlicePort list"

record EndpointV1Beta1 =
  eb_Addresses :: "string list"
  eb_Hostname :: "string option"
  eb_TargetRef :: "string list option"
  eb_Topology :: "labels option"

record EndpointSliceV1Beta1 =
  sb_meta :: object_meta
  sb_Endpoints :: "EndpointV1Beta1 list"
  sb_Ports :: "SlicePort list"

record serviceContainer =
  sc_svc :: object_meta
  sc_keys :: "string list option"

record nodeContainer =
  nc_node :: object_meta
  nc_labels :: "labels option"

type_synonym nodes_map = "(NamespacedName, nodeContainer) gomap"

type_synonym services_map = "(NamespacedName, serviceContainer) gomap"

type_synonym node_info = "(string, ResultDetail) gomap option"

definition NamespaceDefault :: string where "NamespaceDefault = ''default''"
definition TopologyAnnotationsKey :: string where "TopologyAnnotationsKey = ''topologyKeys''"
definition EdgeLocalEndpoint :: string where "EdgeLocalEndpoint = ''superedge.io/local-endpoint''"
definition EdgeLocalPort :: string where "EdgeLocalPort = ''superedge.io/local-port''"
definition MasterEndpointName :: string where "MasterEndpointName = ''kubernetes''"

section \<open>Topology keys\<close>

definition hasTopologyKey :: "object_meta \<Rightarrow> bool" where
  "hasTopologyKey objectMeta =
     (case om_Annotations objectMeta of None \<Rightarrow> False | Some a \<Rightarrow> mhas a TopologyAnnotationsKey)"

text \<open>\<open>Unmarshal\<close> yields an error or the keys, which are nil for the text null.\<close>

definition getTopologyKeys :: "(string \<Rightarrow> go_error + string list option) \<Rightarrow> object_meta \<Rightarrow> string list option" where
  "getTopologyKeys Unmarshal objectMeta =
     (if \<not> hasTopologyKey objectMeta then None
      else let keyData = (case nget (om_Annotations objectMeta) TopologyAnnotationsKey of None \<Rightarrow> '''' | Some d \<Rightarrow> d) in
        case Unmarshal keyData of Inl err \<Rightarrow> None | Inr keys \<Rightarrow> keys)"

definition key_list :: "string list option \<Rightarrow> string list" where
  "key_list keys = (case keys of None \<Rightarrow> [] | Some ks \<Rightarrow> ks)"

section \<open>The local endpoint of the API server\<close>

definition genLocalEndpoints :: "(string \<Rightarrow> 'ip option) \<Rightarrow> Endpoints \<Rightarrow> Endpoints" where
  "genLocalEndpoints ParseIP eps =
     (if om_Namespace (ep_meta eps) \<noteq> NamespaceDefault \<or> om_Name (ep_meta eps) \<noteq> MasterEndpointName then eps
      else case nget (om_Annotations (ep_meta eps)) EdgeLocalEndpoint of
        None \<Rightarrow> eps
      | Some ipAddress \<Rightarrow>
          (case nget (om_Annotations (ep_meta eps)) EdgeLocalPort of
             None \<Rightarrow> eps
           | Some portStr \<Rightarrow>
               (case ParseInt32 portStr of
                  None \<Rightarrow> eps
                | Some port \<Rightarrow>
                    (case ParseIP ipAddress of
                       None \<Rightarrow> eps
                     | Some ip \<Rightarrow>
                         eps\<lparr>ep_Subsets :=
                           [\<lparr>Addresses = [\<lparr>ea_IP = ipAddress, Hostname = '''', ea_NodeName = None, TargetRef = None\<rparr>],
                             NotReadyAddresses = [],
                             subset_Ports = [\<lparr>pt_Name = ''https'', pt_Port = port, pt_Protocol = ''TCP''\<rparr>]\<rparr>]\<rparr>))))"

definition genLocalEndpointSliceV1 :: "(string \<Rightarrow> 'ip option) \<Rightarrow> EndpointSliceV1 \<Rightarrow> EndpointSliceV1" where
  "genLocalEndpointSliceV1 ParseIP eps =
     (if om_Namespace (sl_meta eps) \<noteq> NamespaceDefault \<or> om_Name (sl_meta eps) \<noteq> MasterEndpointName then eps
      else case nget (om_Annotations (sl_meta eps)) EdgeLocalEndpoint of
        None \<Rightarrow> eps
      | Some ipAddress \<Rightarrow>
          (case nget (om_Annotations (sl_meta eps)) EdgeLocalPort of
             None \<Rightarrow> eps
           | Some portStr \<Rightarrow>
               (case ParseInt32 portStr of
                  None \<Rightarrow> eps
                | Some port \<Rightarrow>
                    (case ParseIP ipAddress of
                       None \<Rightarrow> eps
                     | Some ip \<Rightarrow>
                         eps\<lparr>sl_Endpoints :=
                               [\<lparr>e1_Addresses = [ipAddress], e1_Hostname = None, e1_TargetRef = None, e1_NodeName = None\<rparr>],
                             sl_Ports :=
                               [\<lparr>sp_Name = Some ''https'', sp_Protocol = Some ''TCP'', sp_Port = Some port\<rparr>]\<rparr>))))"

definition genLocalEndpointSliceV1Beta1 :: "(string \<Rightarrow> 'ip option) \<Rightarrow> EndpointSliceV1Beta1 \<Rightarrow> EndpointSliceV1Beta1" where
  "genLocalEndpointSliceV1Beta1 ParseIP eps =
     (if om_Namespace (sb_meta eps) \<noteq> NamespaceDefault \<or> om_Name (sb_meta eps) \<noteq> MasterEndpointName then eps
      else case nget (om_Annotations (sb_meta eps)) EdgeLocalEndpoint of
        None \<Rightarrow> eps
      | Some ipAddress \<Rightarrow>
          (case nget (om_Annotations (sb_meta eps)) EdgeLocalPort of
             None \<Rightarrow> eps
           | Some portStr \<Rightarrow>
               (case ParseInt32 portStr of
                  None \<Rightarrow> eps
                | Some port \<Rightarrow>
                    (case ParseIP ipAddress of
                       None \<Rightarrow> eps
                     | Some ip \<Rightarrow>
                         eps\<lparr>sb_Endpoints :=
                               [\<lparr>eb_Addresses = [ipAddress], eb_Hostname = None, eb_TargetRef = None, eb_Topology = None\<rparr>],
                             sb_Ports :=
                               [\<lparr>sp_Name = Some ''https'', sp_Protocol = Some ''TCP'', sp_Port = Some port\<rparr>]\<rparr>))))"

section \<open>Filters\<close>

fun has_common_label :: "string list \<Rightarrow> labels \<Rightarrow> labels \<Rightarrow> bool" where
  "has_common_label [] n1 n2 = False"
| "has_common_label (key # keys) n1 n2 =
     (case (mget n1 key, mget n2 key) of
        (Some val1, Some val2) \<Rightarrow> if val1 = val2 then True else has_common_label keys n1 n2
      | _ \<Rightarrow> has_common_label keys n1 n2)"

definition hasIntersectionLabel :: "string list \<Rightarrow> labels option \<Rightarrow> labels option \<Rightarrow> bool" where
  "hasIntersectionLabel keys n1 n2 =
     (case (n1, n2) of (Some l1, Some l2) \<Rightarrow> has_common_label keys l1 l2 | _ \<Rightarrow> False)"

text \<open>\<open>localNodeInfo[name].Normal\<close>; false, the zero value, for a missing entry.\<close>

definition info_normal :: "node_info \<Rightarrow> string \<Rightarrow> bool" where
  "info_normal localNodeInfo name = (case nget localNodeInfo name of None \<Rightarrow> False | Some d \<Rightarrow> Normal d)"

text \<open>The test in the body of the loops: the node of the endpoint is \<open>epsNode\<close>.\<close>

definition concerned :: "string list \<Rightarrow> nodeContainer \<Rightarrow> node_info \<Rightarrow> bool \<Rightarrow> nodeContainer \<Rightarrow> bool" where
  "concerned topologyKeys hostNode localNodeInfo getLocalNodeInfo epsNode =
     (let found = (nget localNodeInfo (om_Name (nc_node epsNode)) \<noteq> None) in
      hasIntersectionLabel topologyKeys (nc_labels hostNode) (nc_labels epsNode) \<and>
      ((getLocalNodeInfo \<and> found \<and> info_normal localNodeInfo (om_Name (nc_node epsNode))) \<or>
       (getLocalNodeInfo \<and> \<not> found) \<or> \<not> getLocalNodeInfo))"

definition not_failed :: "node_info \<Rightarrow> nodeContainer \<Rightarrow> bool" where
  "not_failed localNodeInfo epsNode =
     (let found = (nget localNodeInfo (om_Name (nc_node epsNode)) \<noteq> None) in
      \<not> found \<or> (found \<and> info_normal localNodeInfo (om_Name (nc_node epsNode))))"

definition filterConcernedAddresses ::
    "string list \<Rightarrow> string \<Rightarrow> nodes_map \<Rightarrow> EndpointAddress list \<Rightarrow> node_info \<Rightarrow> bool \<Rightarrow> EndpointAddress list" where
  "filterConcernedAddresses topologyKeys hostName nodes addresses localNodeInfo getLocalNodeInfo =
     (case mget nodes ('''', hostName) of
        None \<Rightarrow> []
      | Some hostNode \<Rightarrow>
          filter (\<lambda>addr. case ea_NodeName addr of
             None \<Rightarrow> False
           | Some nodeName \<Rightarrow>
               (case mget nodes ('''', nodeName) of
                  None \<Rightarrow> False
                | Some epsNode \<Rightarrow> concerned topologyKeys hostNode localNodeInfo getLocalNodeInfo epsNode)) addresses)"

definition filterConcernedAddressesForEndpointSliceV1 ::
    "string list \<Rightarrow> string \<Rightarrow> nodes_map \<Rightarrow> EndpointV1 list \<Rightarrow> node_info \<Rightarrow> bool \<Rightarrow> EndpointV1 list" where
  "filterConcernedAddressesForEndpointSliceV1 topologyKeys hostName nodes endpoints localNodeInfo getLocalNodeInfo =
     (case mget nodes ('''', hostName) of
        None \<Rightarrow> []
      | Some hostNode \<Rightarrow>
          filter (\<lambda>endpoint. case e1_NodeName endpoint of
             None \<Rightarrow> False
           | Some nodeName \<Rightarrow>
               (case mget nodes ('''', nodeName) of
                  None \<Rightarrow> False
                | Some epsNode \<Rightarrow> concerned topologyKeys hostNode localNodeInfo getLocalNodeInfo epsNode)) endpoints)"

definition filterLocalNodeInfoConcernedAddresses ::
    "nodes_map \<Rightarrow> EndpointAddress list \<Rightarrow> node_info \<Rightarrow> EndpointAddress list" where
  "filterLocalNodeInfoConcernedAddresses nodes addresses localNodeInfo =
     filter (\<lambda>addr. case ea_NodeName addr of
        None \<Rightarrow> False
      | Some nodeName \<Rightarrow>
          (case mget nodes ('''', nodeName) of None \<Rightarrow> False | Some epsNode \<Rightarrow> not_failed localNodeInfo epsNode)) addresses"

definition filterLocalNodeInfoConcernedAddressesForEndpointSliceV1 ::
    "nodes_map \<Rightarrow> EndpointV1 list \<Rightarrow> node_info \<Rightarrow> EndpointV1 list" where
  "filterLocalNodeInfoConcernedAddressesForEndpointSliceV1 nodes endpoints localNodeInfo =
     filter (\<lambda>endpoint. case e1_NodeName endpoint of
        None \<Rightarrow> False
      | Some nodeName \<Rightarrow>
          (case mget nodes ('''', nodeName) of None \<Rightarrow> False | Some epsNode \<Rightarrow> not_failed localNodeInfo epsNode)) endpoints"

text \<open>
  The beta version reads the node from the topology map of an endpoint; its test \<open>&nodeName != nil\<close>
  is always true, and a missing entry is the empty name.
\<close>

definition topology_node :: "EndpointV1Beta1 \<Rightarrow> string" where
  "topology_node endpoint = (case nget (eb_Topology endpoint) ''kubernetes.io/hostname'' of None \<Rightarrow> '''' | Some n \<Rightarrow> n)"

definition filterConcernedAddressesForEndpointSliceV1Beta1 ::
    "string list \<Rightarrow> string \<Rightarrow> nodes_map \<Rightarrow> EndpointV1Beta1 list \<Rightarrow> node_info \<Rightarrow> bool \<Rightarrow> EndpointV1Beta1 list" where
  "filterConcernedAddressesForEndpointSliceV1Beta1 topologyKeys hostName nodes endpoints localNodeInfo getLocalNodeInfo =
     (case mget nodes ('''', hostName) of
        None \<Rightarrow> []
      | Some hostNode \<Rightarrow>
          filter (\<lambda>endpoint. case mget nodes ('''', topology_node endpoint) of
             None \<Rightarrow> False
           | Some epsNode \<Rightarrow> concerned topologyKeys hostNode localNodeInfo getLocalNodeInfo epsNode) endpoints)"

definition filterLocalNodeInfoConcernedAddressesForEndpointSliceV1Beta1 ::
    "nodes_map \<Rightarrow> EndpointV1Beta1 list \<Rightarrow> node_info \<Rightarrow> EndpointV1Beta1 list" where
  "filterLocalNodeInfoConcernedAddressesForEndpointSliceV1Beta1 nodes endpoints localNodeInfo =
     filter (\<lambda>endpoint. case mget nodes ('''', topology_node endpoint) of
        None \<Rightarrow> False | Some epsNode \<Rightarrow> not_failed localNodeInfo epsNode) endpoints"

section \<open>Pruning\<close>

definition pruneEndpoints ::
    "(string \<Rightarrow> 'ip option) \<Rightarrow> string \<Rightarrow> nodes_map \<Rightarrow> services_map \<Rightarrow> Endpoints \<Rightarrow> node_info \<Rightarrow> bool \<Rightarrow> bool \<Rightarrow> Endpoints" where
  "pruneEndpoints ParseIP hostName nodes services eps0 localNodeInfo wrapperInCluster serviceAutonomyEnhancementEnabled =
     (let epsKey = (om_Namespace (ep_meta eps0), om_Name (ep_meta eps0));
          eps = (if wrapperInCluster then genLocalEndpoints ParseIP eps0 else eps0) in
      case mget services epsKey of
        None \<Rightarrow> eps
      | Some svc \<Rightarrow>
          if key_list (sc_keys svc) = [] then
            (if om_Namespace (ep_meta eps) = NamespaceDefault \<and> om_Name (ep_meta eps) = MasterEndpointName then eps
             else if serviceAutonomyEnhancementEnabled then
               eps\<lparr>ep_Subsets := map (\<lambda>subnet.
                 subnet\<lparr>Addresses := filterLocalNodeInfoConcernedAddresses nodes (Addresses subnet) localNodeInfo,
                        NotReadyAddresses := filterLocalNodeInfoConcernedAddresses nodes (NotReadyAddresses subnet) localNodeInfo\<rparr>)
                 (ep_Subsets eps)\<rparr>
             else eps)
          else
            (let keep = (\<lambda>addresses. filterConcernedAddresses (key_list (sc_keys svc)) hostName nodes addresses
                           localNodeInfo serviceAutonomyEnhancementEnabled) in
             eps\<lparr>ep_Subsets := map (\<lambda>subnet.
               subnet\<lparr>Addresses := keep (Addresses subnet), NotReadyAddresses := keep (NotReadyAddresses subnet)\<rparr>)
               (ep_Subsets eps)\<rparr>))"

text \<open>The name of a slice without its last piece: the name of the service, when the suffix has no dash.\<close>

definition slice_service_name :: "string \<Rightarrow> string" where
  "slice_service_name name =
     (let strArr = Split name (CHR ''-'') in foldl (\<lambda>epsName s. epsName @ ''-'' @ s) (hd strArr) (butlast (tl strArr)))"

definition pruneEndpointSliceV1 ::
    "(string \<Rightarrow> 'ip option) \<Rightarrow> string \<Rightarrow> nodes_map \<Rightarrow> services_map \<Rightarrow> EndpointSliceV1 \<Rightarrow> node_info \<Rightarrow> bool \<Rightarrow> bool \<Rightarrow> EndpointSliceV1" where
  "pruneEndpointSliceV1 ParseIP hostName nodes services eps0 localNodeInfo wrapperInCluster serviceAutonomyEnhancementEnabled =
     (let epsName = slice_service_name (om_Name (sl_meta eps0));
          epsKey = (om_Namespace (sl_meta eps0), epsName);
          eps = (if wrapperInCluster then genLocalEndpointSliceV1 ParseIP eps0 else eps0) in
      case mget services epsKey of
        None \<Rightarrow> eps
      | Some svc \<Rightarrow>
          if key_list (sc_keys svc) = [] then
            (if om_Namespace (sl_meta eps) = NamespaceDefault \<and> om_Name (sl_meta eps) = MasterEndpointName then eps
             else if serviceAutonomyEnhancementEnabled then
               eps\<lparr>sl_Endpoints := filterLocalNodeInfoConcernedAddressesForEndpointSliceV1 nodes (sl_Endpoints eps) localNodeInfo\<rparr>
             else eps)
          else eps\<lparr>sl_Endpoints := filterConcernedAddressesForEndpointSliceV1 (key_list (sc_keys svc)) hostName nodes
                 (sl_Endpoints eps) localNodeInfo serviceAutonomyEnhancementEnabled\<rparr>)"

definition pruneEndpointSliceV1Beta1 ::
    "(string \<Rightarrow> 'ip option) \<Rightarrow> string \<Rightarrow> nodes_map \<Rightarrow> services_map \<Rightarrow> EndpointSliceV1Beta1 \<Rightarrow> node_info \<Rightarrow> bool \<Rightarrow> bool \<Rightarrow> EndpointSliceV1Beta1" where
  "pruneEndpointSliceV1Beta1 ParseIP hostName nodes services eps0 localNodeInfo wrapperInCluster serviceAutonomyEnhancementEnabled =
     (let epsName = slice_service_name (om_Name (sb_meta eps0));
          epsKey = (om_Namespace (sb_meta eps0), epsName);
          eps = (if wrapperInCluster then genLocalEndpointSliceV1Beta1 ParseIP eps0 else eps0) in
      case mget services epsKey of
        None \<Rightarrow> eps
      | Some svc \<Rightarrow>
          if key_list (sc_keys svc) = [] then
            (if om_Namespace (sb_meta eps) = NamespaceDefault \<and> om_Name (sb_meta eps) = MasterEndpointName then eps
             else if serviceAutonomyEnhancementEnabled then
               eps\<lparr>sb_Endpoints := filterLocalNodeInfoConcernedAddressesForEndpointSliceV1Beta1 nodes (sb_Endpoints eps) localNodeInfo\<rparr>
             else eps)
          else eps\<lparr>sb_Endpoints := filterConcernedAddressesForEndpointSliceV1Beta1 (key_list (sc_keys svc)) hostName nodes
                 (sb_Endpoints eps) localNodeInfo serviceAutonomyEnhancementEnabled\<rparr>)"

section \<open>Lemmas\<close>

subsection \<open>What the tests mean\<close>

lemma has_common_label_iff:
  "has_common_label keys n1 n2 \<longleftrightarrow> (\<exists>key \<in> set keys. \<exists>val. map_of n1 key = Some val \<and> map_of n2 key = Some val)"
  by (induction keys) (auto split: option.splits)

lemma hasIntersectionLabel_iff:
  "hasIntersectionLabel keys n1 n2 \<longleftrightarrow> (\<exists>key \<in> set keys. \<exists>val. nget n1 key = Some val \<and> nget n2 key = Some val)"
  by (auto simp: hasIntersectionLabel_def has_common_label_iff nget_def split: option.splits)

text \<open>The health checks report the node as failed.\<close>

definition reported_failed :: "node_info \<Rightarrow> string \<Rightarrow> bool" where
  "reported_failed info name = (\<exists>d. nget info name = Some d \<and> \<not> Normal d)"

lemma not_failed_iff: "not_failed info n \<longleftrightarrow> \<not> reported_failed info (om_Name (nc_node n))"
  by (auto simp: not_failed_def reported_failed_def info_normal_def split: option.splits)

lemma concerned_iff:
  "concerned keys host info enh n \<longleftrightarrow>
     hasIntersectionLabel keys (nc_labels host) (nc_labels n) \<and> \<not> (enh \<and> reported_failed info (om_Name (nc_node n)))"
  by (auto simp: concerned_def reported_failed_def info_normal_def Let_def split: option.splits)

subsection \<open>One filter for the three kinds\<close>

text \<open>
  Which node names a wrapper exposes, for the keys of the service: the predicate behind the six filters.
\<close>

definition exposes :: "string \<Rightarrow> nodes_map \<Rightarrow> node_info \<Rightarrow> bool \<Rightarrow> string list \<Rightarrow> string \<Rightarrow> bool" where
  "exposes hostName nodes info enh keys nodeName =
     (case map_of nodes ('''', nodeName) of
        None \<Rightarrow> False
      | Some n \<Rightarrow>
          if keys = [] then not_failed info n
          else (case map_of nodes ('''', hostName) of None \<Rightarrow> False | Some host \<Rightarrow> concerned keys host info enh n))"

definition exposes_opt :: "string \<Rightarrow> nodes_map \<Rightarrow> node_info \<Rightarrow> bool \<Rightarrow> string list \<Rightarrow> string option \<Rightarrow> bool" where
  "exposes_opt hostName nodes info enh keys nodeName =
     (case nodeName of None \<Rightarrow> False | Some n \<Rightarrow> exposes hostName nodes info enh keys n)"

lemma filter_none [simp]: "filter (\<lambda>x. False) xs = []"
  by (induction xs) auto

lemma filters_exposes:
  "keys \<noteq> [] \<Longrightarrow> filterConcernedAddresses keys h nodes as info enh = filter (\<lambda>a. exposes_opt h nodes info enh keys (ea_NodeName a)) as"
  "keys \<noteq> [] \<Longrightarrow> filterConcernedAddressesForEndpointSliceV1 keys h nodes es info enh = filter (\<lambda>e. exposes_opt h nodes info enh keys (e1_NodeName e)) es"
  "keys \<noteq> [] \<Longrightarrow> filterConcernedAddressesForEndpointSliceV1Beta1 keys h nodes bs info enh = filter (\<lambda>e. exposes h nodes info enh keys (topology_node e)) bs"
  "filterLocalNodeInfoConcernedAddresses nodes as info = filter (\<lambda>a. exposes_opt h nodes info enh [] (ea_NodeName a)) as"
  "filterLocalNodeInfoConcernedAddressesForEndpointSliceV1 nodes es info = filter (\<lambda>e. exposes_opt h nodes info enh [] (e1_NodeName e)) es"
  "filterLocalNodeInfoConcernedAddressesForEndpointSliceV1Beta1 nodes bs info = filter (\<lambda>e. exposes h nodes info enh [] (topology_node e)) bs"
  by (auto simp: filterConcernedAddresses_def filterConcernedAddressesForEndpointSliceV1_def
      filterConcernedAddressesForEndpointSliceV1Beta1_def filterLocalNodeInfoConcernedAddresses_def
      filterLocalNodeInfoConcernedAddressesForEndpointSliceV1_def filterLocalNodeInfoConcernedAddressesForEndpointSliceV1Beta1_def
      exposes_opt_def exposes_def intro!: filter_cong split: option.splits)

text \<open>
  Whether and by which test the endpoints of a service are filtered. \<open>master\<close> says that the object is
  the one of the API server.
\<close>

definition topology_filter ::
    "string \<Rightarrow> nodes_map \<Rightarrow> services_map \<Rightarrow> node_info \<Rightarrow> bool \<Rightarrow> NamespacedName \<Rightarrow> bool \<Rightarrow> string list option" where
  "topology_filter hostName nodes services info enh key master =
     (case map_of services key of
        None \<Rightarrow> None
      | Some svc \<Rightarrow> if key_list (sc_keys svc) = [] \<and> (master \<or> \<not> enh) then None else Some (key_list (sc_keys svc)))"

definition filter_subsets :: "(string option \<Rightarrow> bool) \<Rightarrow> EndpointSubset list \<Rightarrow> EndpointSubset list" where
  "filter_subsets P = map (\<lambda>s. s\<lparr>Addresses := filter (\<lambda>a. P (ea_NodeName a)) (Addresses s),
     NotReadyAddresses := filter (\<lambda>a. P (ea_NodeName a)) (NotReadyAddresses s)\<rparr>)"

definition is_master :: "object_meta \<Rightarrow> bool" where
  "is_master m \<longleftrightarrow> om_Namespace m = NamespaceDefault \<and> om_Name m = MasterEndpointName"

lemma genLocal_meta [simp]:
  "ep_meta (genLocalEndpoints ip e) = ep_meta e" "sl_meta (genLocalEndpointSliceV1 ip s) = sl_meta s"
  "sb_meta (genLocalEndpointSliceV1Beta1 ip b) = sb_meta b"
  by (simp_all add: genLocalEndpoints_def genLocalEndpointSliceV1_def genLocalEndpointSliceV1Beta1_def split: option.split)

lemma pruneEndpoints_eq:
  "pruneEndpoints ip h nodes svcs e info w enh =
     (let e' = (if w then genLocalEndpoints ip e else e) in
      case topology_filter h nodes svcs info enh (namespaced_name (ep_meta e)) (is_master (ep_meta e)) of
        None \<Rightarrow> e'
      | Some keys \<Rightarrow> e'\<lparr>ep_Subsets := filter_subsets (exposes_opt h nodes info enh keys) (ep_Subsets e')\<rparr>)"
  by (cases "map_of svcs (namespaced_name (ep_meta e))"; cases enh)
    (simp_all add: pruneEndpoints_def topology_filter_def namespaced_name_def is_master_def filter_subsets_def
      filters_exposes(1) filters_exposes(4) [where h = h and enh = True] Let_def)

lemma pruneEndpointSliceV1_eq:
  "pruneEndpointSliceV1 ip h nodes svcs e info w enh =
     (let e' = (if w then genLocalEndpointSliceV1 ip e else e) in
      case topology_filter h nodes svcs info enh (om_Namespace (sl_meta e), slice_service_name (om_Name (sl_meta e))) (is_master (sl_meta e)) of
        None \<Rightarrow> e'
      | Some keys \<Rightarrow> e'\<lparr>sl_Endpoints := filter (\<lambda>x. exposes_opt h nodes info enh keys (e1_NodeName x)) (sl_Endpoints e')\<rparr>)"
  by (cases "map_of svcs (om_Namespace (sl_meta e), slice_service_name (om_Name (sl_meta e)))"; cases enh)
    (simp_all add: pruneEndpointSliceV1_def topology_filter_def is_master_def
      filters_exposes(2) filters_exposes(5) [where h = h and enh = True] Let_def)

lemma pruneEndpointSliceV1Beta1_eq:
  "pruneEndpointSliceV1Beta1 ip h nodes svcs e info w enh =
     (let e' = (if w then genLocalEndpointSliceV1Beta1 ip e else e) in
      case topology_filter h nodes svcs info enh (om_Namespace (sb_meta e), slice_service_name (om_Name (sb_meta e))) (is_master (sb_meta e)) of
        None \<Rightarrow> e'
      | Some keys \<Rightarrow> e'\<lparr>sb_Endpoints := filter (\<lambda>x. exposes h nodes info enh keys (topology_node x)) (sb_Endpoints e')\<rparr>)"
  by (cases "map_of svcs (om_Namespace (sb_meta e), slice_service_name (om_Name (sb_meta e)))"; cases enh)
    (simp_all add: pruneEndpointSliceV1Beta1_def topology_filter_def is_master_def
      filters_exposes(3) filters_exposes(6) [where h = h and enh = True] Let_def)

text \<open>The service name of a slice: the generator of slices appends a dash and a suffix without dashes.\<close>

lemma foldl_join: "foldl (\<lambda>n s. n @ ''-'' @ s) p ps = Join (p # ps) ''-''"
proof -
  have pull: "Join ((p @ ''-'' @ q) # qs) ''-'' = p @ ''-'' @ Join (q # qs) ''-''" for p q qs
    by (cases qs) simp_all
  show ?thesis by (induction ps arbitrary: p) (simp, simp only: foldl.simps pull Join.simps(3))
qed

lemma Split_last_piece:
  "c \<notin> set t \<Longrightarrow> Split (s @ c # t) c = Split s c @ [t]"
proof (induction s)
  case Nil
  then have "Split t c = [t]" by (induction t) auto
  then show ?case by simp
next
  case (Cons a s)
  then show ?case by (cases "Split s c") auto
qed

lemma slice_service_name_suffix:
  assumes "CHR ''-'' \<notin> set suffix"
  shows "slice_service_name (svc @ ''-'' @ suffix) = svc"
proof -
  have S: "Split (svc @ ''-'' @ suffix) (CHR ''-'') = Split svc (CHR ''-'') @ [suffix]"
    using Split_last_piece [OF assms, of svc] by simp
  obtain p ps where P: "Split svc (CHR ''-'') = p # ps" by (meson Split_not_Nil neq_Nil_conv)
  have "slice_service_name (svc @ ''-'' @ suffix) = Join (Split svc (CHR ''-'')) ''-''"
    unfolding slice_service_name_def Let_def S foldl_join by (simp add: P)
  also have "\<dots> = svc" by (rule Join_Split)
  finally show ?thesis .
qed

section \<open>Properties\<close>

lemma exposes_opt_iff:
  "keys \<noteq> [] \<Longrightarrow> exposes_opt h nodes info enh keys nodeName \<longleftrightarrow>
     (\<exists>name n host. nodeName = Some name \<and> map_of nodes ('''', name) = Some n \<and> map_of nodes ('''', h) = Some host \<and>
       (\<exists>key \<in> set keys. \<exists>val. nget (nc_labels host) key = Some val \<and> nget (nc_labels n) key = Some val) \<and>
       \<not> (enh \<and> reported_failed info (om_Name (nc_node n))))"
  by (auto simp: exposes_opt_def exposes_def concerned_iff hasIntersectionLabel_iff split: option.splits)

text \<open>
  C6: of a service with topology keys the wrapper exposes, in each subset and in the order of the
  source, exactly the addresses on known nodes that carry, for one of the keys, the same value as
  its own node, less the ones the health checks report as failed when the enhancement is on;
  without a node object for its own host it exposes none.
\<close>

theorem pruneEndpoints_in_unit:
  assumes "map_of services (namespaced_name (ep_meta eps)) = Some svc" "key_list (sc_keys svc) \<noteq> []"
    and "\<not> (wrapperInCluster \<and> is_master (ep_meta eps))"
  shows "\<exists>keep. ep_Subsets (pruneEndpoints ip hostName nodes services eps info wrapperInCluster enhanced) =
      map (\<lambda>s. s\<lparr>Addresses := filter keep (Addresses s), NotReadyAddresses := filter keep (NotReadyAddresses s)\<rparr>) (ep_Subsets eps) \<and>
    (\<forall>a. keep a \<longleftrightarrow> (\<exists>name n host. ea_NodeName a = Some name \<and> map_of nodes ('''', name) = Some n \<and>
       map_of nodes ('''', hostName) = Some host \<and>
       (\<exists>key \<in> set (key_list (sc_keys svc)). \<exists>val. nget (nc_labels host) key = Some val \<and> nget (nc_labels n) key = Some val) \<and>
       \<not> (enhanced \<and> reported_failed info (om_Name (nc_node n)))))"
proof -
  have gen: "(if wrapperInCluster then genLocalEndpoints ip eps else eps) = eps"
    using assms(3) by (auto simp: genLocalEndpoints_def is_master_def)
  show ?thesis
    by (rule exI [where x = "\<lambda>a. exposes_opt hostName nodes info enhanced (key_list (sc_keys svc)) (ea_NodeName a)"])
      (simp add: pruneEndpoints_eq gen topology_filter_def assms(1,2) filter_subsets_def exposes_opt_iff [OF assms(2)])
qed

definition sample_meta :: "string \<Rightarrow> string \<Rightarrow> labels option \<Rightarrow> object_meta" where
  "sample_meta ns name ls = zero_object_meta\<lparr>om_Namespace := ns, om_Name := name, om_Labels := ls\<rparr>"

definition sample_nodes :: nodes_map where
  "sample_nodes =
     map (\<lambda>(name, unit). (('''', name), \<lparr>nc_node = sample_meta '''' name None, nc_labels = Some [(''zone'', unit)]\<rparr>))
       [(''n1'', ''a''), (''n2'', ''a''), (''n3'', ''b'')]"

definition sample_services :: services_map where
  "sample_services = [((''ns'', ''svc''), \<lparr>sc_svc = sample_meta ''ns'' ''svc'' None, sc_keys = Some [''zone'']\<rparr>)]"

definition sample_addr :: "string \<Rightarrow> EndpointAddress" where
  "sample_addr node = \<lparr>ea_IP = node, Hostname = '''', ea_NodeName = Some node, TargetRef = None\<rparr>"

definition sample_endpoints :: Endpoints where
  "sample_endpoints = \<lparr>ep_meta = sample_meta ''ns'' ''svc'' None,
     ep_Subsets = [\<lparr>Addresses = map sample_addr [''n1'', ''n2'', ''n3''], NotReadyAddresses = [], subset_Ports = []\<rparr>]\<rparr>"

lemmas sample_defs = sample_meta_def sample_nodes_def sample_services_def sample_addr_def sample_endpoints_def zero_object_meta_def

lemma sample_facts:
  "map_of sample_services (namespaced_name (ep_meta sample_endpoints)) = Some \<lparr>sc_svc = sample_meta ''ns'' ''svc'' None, sc_keys = Some [''zone'']\<rparr>"
  "key_list (Some [''zone'']) \<noteq> []" "\<not> is_master (ep_meta sample_endpoints)"
  by (simp_all add: sample_defs namespaced_name_def key_list_def is_master_def NamespaceDefault_def)

theorem pruneEndpoints_in_unit_witness:
  "\<exists>keep. ep_Subsets (pruneEndpoints (\<lambda>_. None :: unit option) ''n1'' sample_nodes sample_services sample_endpoints None False False) =
      map (\<lambda>s. s\<lparr>Addresses := filter keep (Addresses s), NotReadyAddresses := filter keep (NotReadyAddresses s)\<rparr>) (ep_Subsets sample_endpoints) \<and>
    keep (sample_addr ''n2'') \<and> \<not> keep (sample_addr ''n3'')"
proof -
  obtain keep where
    1: "ep_Subsets (pruneEndpoints (\<lambda>_. None :: unit option) ''n1'' sample_nodes sample_services sample_endpoints None False False) =
      map (\<lambda>s. s\<lparr>Addresses := filter keep (Addresses s), NotReadyAddresses := filter keep (NotReadyAddresses s)\<rparr>) (ep_Subsets sample_endpoints)"
    and 2: "\<forall>a. keep a \<longleftrightarrow> (\<exists>name n host. ea_NodeName a = Some name \<and> map_of sample_nodes ('''', name) = Some n \<and>
       map_of sample_nodes ('''', ''n1'') = Some host \<and>
       (\<exists>key \<in> set (key_list (Some [''zone''])). \<exists>val. nget (nc_labels host) key = Some val \<and> nget (nc_labels n) key = Some val) \<and>
       \<not> (False \<and> reported_failed None (om_Name (nc_node n))))"
    using pruneEndpoints_in_unit [OF sample_facts(1), where ip = "\<lambda>_. None :: unit option" and hostName = "''n1''" and
      nodes = sample_nodes and wrapperInCluster = False and info = None and enhanced = False] sample_facts(2) by auto
  have "keep (sample_addr ''n2'')" "\<not> keep (sample_addr ''n3'')"
    using 2 [rule_format, of "sample_addr ''n2''"] 2 [rule_format, of "sample_addr ''n3''"]
    by (simp_all add: sample_defs key_list_def)
  with 1 show ?thesis by blast
qed

text \<open>The view of a beta slice as a slice of version 1: the node is the host name of the topology.\<close>

definition endpoint_to_v1 :: "EndpointV1Beta1 \<Rightarrow> EndpointV1" where
  "endpoint_to_v1 e = \<lparr>e1_Addresses = eb_Addresses e, e1_Hostname = eb_Hostname e, e1_TargetRef = eb_TargetRef e,
     e1_NodeName = nget (eb_Topology e) ''kubernetes.io/hostname''\<rparr>"

definition slice_to_v1 :: "EndpointSliceV1Beta1 \<Rightarrow> EndpointSliceV1" where
  "slice_to_v1 s = \<lparr>sl_meta = sb_meta s, sl_Endpoints = map endpoint_to_v1 (sb_Endpoints s), sl_Ports = sb_Ports s\<rparr>"

lemma genLocal_to_v1: "slice_to_v1 (genLocalEndpointSliceV1Beta1 ip s) = genLocalEndpointSliceV1 ip (slice_to_v1 s)"
  by (auto simp: slice_to_v1_def endpoint_to_v1_def genLocalEndpointSliceV1Beta1_def genLocalEndpointSliceV1_def split: option.splits)

text \<open>
  The two versions of EndpointSlice are pruned alike: to prune a beta slice and read the result as
  version 1 is to read it and prune it. No node has the empty name; the beta code would take one for
  the node of every endpoint that names none.
\<close>

theorem prune_beta_as_v1:
  assumes "map_of nodes ('''', '''') = None"
  shows "slice_to_v1 (pruneEndpointSliceV1Beta1 ip hostName nodes services s info wrapperInCluster enhanced) =
    pruneEndpointSliceV1 ip hostName nodes services (slice_to_v1 s) info wrapperInCluster enhanced"
proof -
  have node: "exposes hostName nodes info enhanced keys (topology_node e) =
      exposes_opt hostName nodes info enhanced keys (e1_NodeName (endpoint_to_v1 e))" for keys e
    using assms by (auto simp: topology_node_def endpoint_to_v1_def exposes_opt_def exposes_def split: option.splits)
  define s' where "s' = (if wrapperInCluster then genLocalEndpointSliceV1Beta1 ip s else s)"
  have s': "(if wrapperInCluster then genLocalEndpointSliceV1 ip (slice_to_v1 s) else slice_to_v1 s) = slice_to_v1 s'"
    by (simp add: s'_def genLocal_to_v1)
  have meta: "sl_meta (slice_to_v1 s) = sb_meta s" by (simp add: slice_to_v1_def)
  show ?thesis
    unfolding pruneEndpointSliceV1Beta1_eq pruneEndpointSliceV1_eq s' s'_def [symmetric] meta
    by (simp add: Let_def node slice_to_v1_def filter_map o_def split: option.split)
qed

theorem prune_beta_as_v1_witness:
  "map_of sample_nodes ('''', '''') = None \<and>
   slice_to_v1 (pruneEndpointSliceV1Beta1 (\<lambda>_. None :: unit option) ''n1'' sample_nodes sample_services
     \<lparr>sb_meta = sample_meta ''ns'' ''svc-x'' None,
      sb_Endpoints = [\<lparr>eb_Addresses = [], eb_Hostname = None, eb_TargetRef = None, eb_Topology = Some [(''kubernetes.io/hostname'', ''n2'')]\<rparr>],
      sb_Ports = []\<rparr> None False False) =
   pruneEndpointSliceV1 (\<lambda>_. None :: unit option) ''n1'' sample_nodes sample_services
     \<lparr>sl_meta = sample_meta ''ns'' ''svc-x'' None,
      sl_Endpoints = [\<lparr>e1_Addresses = [], e1_Hostname = None, e1_TargetRef = None, e1_NodeName = Some ''n2''\<rparr>], sl_Ports = []\<rparr> None False False"
proof -
  have no: "map_of sample_nodes ('''', '''') = None" by (simp add: sample_defs)
  show ?thesis
    using no prune_beta_as_v1 [OF no, of "\<lambda>_. None :: unit option" "''n1''" sample_services
      "\<lparr>sb_meta = sample_meta ''ns'' ''svc-x'' None,
      sb_Endpoints = [\<lparr>eb_Addresses = [], eb_Hostname = None, eb_TargetRef = None, eb_Topology = Some [(''kubernetes.io/hostname'', ''n2'')]\<rparr>],
      sb_Ports = []\<rparr>" None False False]
    by (simp add: slice_to_v1_def endpoint_to_v1_def)
qed

text \<open>
  The slice that belongs to a service (its name is the name of the service, a dash, and a suffix
  without dashes) exposes the same nodes as the Endpoints object of that service, whatever the
  topology of the service, the nodes, and the reports of the health checks are.
\<close>

theorem slice_follows_endpoints:
  assumes "om_Name (sl_meta sl) = om_Name (ep_meta eps) @ ''-'' @ suffix" "CHR ''-'' \<notin> set suffix"
    and "om_Namespace (sl_meta sl) = om_Namespace (ep_meta eps)" "\<not> is_master (ep_meta eps)"
    and "ep_Subsets eps = [sub]" "map e1_NodeName (sl_Endpoints sl) = map ea_NodeName (Addresses sub)"
  shows "\<exists>sub'. ep_Subsets (pruneEndpoints ip hostName nodes services eps info w enhanced) = [sub'] \<and>
    map e1_NodeName (sl_Endpoints (pruneEndpointSliceV1 ip hostName nodes services sl info w enhanced)) = map ea_NodeName (Addresses sub')"
proof -
  have "CHR ''-'' \<in> set (om_Name (sl_meta sl))" using assms(1) by simp
  then have m: "\<not> is_master (sl_meta sl)" by (auto simp: is_master_def MasterEndpointName_def)
  have gen: "(if w then genLocalEndpoints ip eps else eps) = eps" "(if w then genLocalEndpointSliceV1 ip sl else sl) = sl"
    using assms(4) m by (auto simp: genLocalEndpoints_def genLocalEndpointSliceV1_def is_master_def)
  have key: "(om_Namespace (sl_meta sl), slice_service_name (om_Name (sl_meta sl))) = namespaced_name (ep_meta eps)"
    using slice_service_name_suffix [OF assms(2)] assms(1,3) by (simp add: namespaced_name_def)
  have names: "map f (filter (\<lambda>x. P (f x)) xs) = filter P (map f xs)" for f :: "'b \<Rightarrow> string option" and P xs
    by (induction xs) auto
  show ?thesis
    unfolding pruneEndpoints_eq pruneEndpointSliceV1_eq gen key
    using assms(4-6) m by (auto simp: Let_def filter_subsets_def names split: option.split)
qed

theorem slice_follows_endpoints_witness:
  "\<exists>sub'. ep_Subsets (pruneEndpoints (\<lambda>_. None :: unit option) ''n1'' sample_nodes sample_services sample_endpoints None True False) = [sub'] \<and>
    map e1_NodeName (sl_Endpoints (pruneEndpointSliceV1 (\<lambda>_. None :: unit option) ''n1'' sample_nodes sample_services
      \<lparr>sl_meta = sample_meta ''ns'' ''svc-ab12'' None,
       sl_Endpoints = map (\<lambda>n. \<lparr>e1_Addresses = [n], e1_Hostname = None, e1_TargetRef = None, e1_NodeName = Some n\<rparr>) [''n1'', ''n2'', ''n3''],
       sl_Ports = []\<rparr> None True False)) = map ea_NodeName (Addresses sub')"
  by (rule slice_follows_endpoints [where suffix = "''ab12''" and sub = "hd (ep_Subsets sample_endpoints)"])
    (simp_all add: sample_defs is_master_def NamespaceDefault_def)

text \<open>The address and the port that replace the endpoints of the API server, if any.\<close>

definition local_endpoint :: "(string \<Rightarrow> 'ip option) \<Rightarrow> object_meta \<Rightarrow> (string \<times> int) option" where
  "local_endpoint ParseIP m =
     (if \<not> is_master m then None
      else Option.bind (nget (om_Annotations m) EdgeLocalEndpoint) (\<lambda>ipAddress.
        Option.bind (nget (om_Annotations m) EdgeLocalPort) (\<lambda>portStr.
          Option.bind (ParseInt32 portStr) (\<lambda>port. map_option (\<lambda>_. (ipAddress, port)) (ParseIP ipAddress)))))"

lemma genLocalEndpoints_eq:
  "genLocalEndpoints ip e =
     (case local_endpoint ip (ep_meta e) of
        None \<Rightarrow> e
      | Some (a, p) \<Rightarrow> e\<lparr>ep_Subsets := [\<lparr>Addresses = [\<lparr>ea_IP = a, Hostname = '''', ea_NodeName = None, TargetRef = None\<rparr>],
           NotReadyAddresses = [], subset_Ports = [\<lparr>pt_Name = ''https'', pt_Port = p, pt_Protocol = ''TCP''\<rparr>]\<rparr>]\<rparr>)"
  by (auto simp: genLocalEndpoints_def local_endpoint_def is_master_def split: option.split)

lemma genLocal_form:
  "\<exists>f. (f = id \<or> (\<exists>C. f = (\<lambda>_. C))) \<and> (\<forall>ss. genLocalEndpoints ip (e\<lparr>ep_Subsets := ss\<rparr>) = e\<lparr>ep_Subsets := f ss\<rparr>)"
proof (cases "local_endpoint ip (ep_meta e)")
  case None
  then show ?thesis by (intro exI [of _ id]) (simp add: genLocalEndpoints_eq)
qed (auto simp: genLocalEndpoints_eq)

text \<open>
  To prune what was pruned changes nothing.
\<close>

theorem pruneEndpoints_idem:
  "pruneEndpoints ip hostName nodes services (pruneEndpoints ip hostName nodes services eps info w enhanced) info w enhanced =
   pruneEndpoints ip hostName nodes services eps info w enhanced"
proof -
  obtain f where f: "f = id \<or> (\<exists>C. f = (\<lambda>_. C))" "\<And>ss. genLocalEndpoints ip (eps\<lparr>ep_Subsets := ss\<rparr>) = eps\<lparr>ep_Subsets := f ss\<rparr>"
    using genLocal_form by metis
  define g where "g = (if w then f else id)"
  define F where "F = (case topology_filter hostName nodes services info enhanced (namespaced_name (ep_meta eps)) (is_master (ep_meta eps)) of
    None \<Rightarrow> id | Some keys \<Rightarrow> filter_subsets (exposes_opt hostName nodes info enhanced keys))"
  have prune: "pruneEndpoints ip hostName nodes services (eps\<lparr>ep_Subsets := ss\<rparr>) info w enhanced = eps\<lparr>ep_Subsets := F (g ss)\<rparr>" for ss
    by (cases w) (simp_all add: pruneEndpoints_eq Let_def F_def g_def f(2) split: option.split)
  have "filter_subsets P (filter_subsets P ss) = filter_subsets P ss" for P ss by (simp add: filter_subsets_def)
  then have "F (F ss) = F ss" for ss by (simp add: F_def split: option.split)
  then have "F (g (F (g ss))) = F (g ss)" for ss using f(1) by (auto simp: g_def)
  with prune [of "ep_Subsets eps"] prune [of "F (g (ep_Subsets eps))"] show ?thesis by simp
qed

end
