(* ===== verification/GridCache.thy ===== *)
theory GridCache
  imports GridStorage
begin

text \<open>
  The cache of the application-grid-wrapper (\<open>src/pkg/application-grid-wrapper/storage\<close>): the tables
  that the informers feed, each original object beside its pruned version, and the events that are
  handed to the broadcasters of the watch requests.

  A handler takes the mutex for its first part, releases it, and then resynchronises the tables
  and broadcasts; the first part is the definition with the suffix \<open>_locked\<close>, which yields the new
  state, the events sent under the lock, whether \<open>resync\<close> follows, and the events sent at the end.
  The whole handler is the composition (\<open>finish\<close>); the interleavings of several handlers are the
  step relation \<open>cache_step\<close>, whose steps are the parts that hold the lock, the reads of a table length
  and the broadcasts.

  \<open>apiequality.Semantic.DeepEqual\<close> is an argument (one function for each type it is used at), as
  are the functions that \<open>util.go\<close> takes. Containers are only reached through their table,
  so they are values. Whether a broadcaster drops an event is not modelled: the model ends at the
  call of \<open>Action\<close> or \<open>ActionOrDrop\<close>.
\<close>

section \<open>State\<close>

record 'e container =
  ct_original :: 'e
  ct_modified :: 'e

type_synonym endpointsContainer = "Endpoints container"
type_synonym endpointSliceV1Container = "EndpointSliceV1 container"
type_synonym endpointSliceV1Beta1Container = "EndpointSliceV1Beta1 container"

record storageCache =
  hostName :: string
  wrapperInCluster :: bool
  serviceAutonomyEnhancementEnabled :: bool
  supportEndpointSlice :: bool
  servicesMap :: services_map
  endpointsMap :: "(NamespacedName, endpointsContainer) gomap"
  endpointSliceV1Map :: "(NamespacedName, endpointSliceV1Container) gomap"
  endpointSliceV1Beta1Map :: "(NamespacedName, endpointSliceV1Beta1Container) gomap"
  nodesMap :: nodes_map
  localNodeInfo :: node_info

definition NewStorageCache :: "string \<Rightarrow> bool \<Rightarrow> bool \<Rightarrow> bool \<Rightarrow> storageCache" where
  "NewStorageCache host inCluster enhancement slices =
     \<lparr>hostName = host, wrapperInCluster = inCluster, serviceAutonomyEnhancementEnabled = enhancement,
      supportEndpointSlice = slices, servicesMap = [], endpointsMap = [], endpointSliceV1Map = [],
      endpointSliceV1Beta1Map = [], nodesMap = [], localNodeInfo = Some []\<rparr>"

text \<open>The code outside of the sources.\<close>

record storage_env =
  env_ParseIP :: "string \<Rightarrow> string option"
  env_Unmarshal :: "string \<Rightarrow> go_error + string list option"
  eqEndpoints :: "Endpoints \<Rightarrow> Endpoints \<Rightarrow> bool"
  eqSubsets :: "EndpointSubset list \<Rightarrow> EndpointSubset list \<Rightarrow> bool"
  eqSliceV1 :: "EndpointSliceV1 \<Rightarrow> EndpointSliceV1 \<Rightarrow> bool"
  eqSliceV1Beta1 :: "EndpointSliceV1Beta1 \<Rightarrow> EndpointSliceV1Beta1 \<Rightarrow> bool"

datatype broadcaster = ServiceB | EndpointsB | SliceV1B | SliceV1Beta1B | NodeB

datatype event_type = WAdded | WModified | WDeleted

datatype watch_object =
  OService object_meta | OEndpoints Endpoints | OSliceV1 EndpointSliceV1 | OSliceV1Beta1 EndpointSliceV1Beta1 | ONode object_meta

text \<open>A call of a broadcaster; \<open>b_OrDrop\<close> tells \<open>ActionOrDrop\<close> from \<open>Action\<close>.\<close>

record bcast =
  b_To :: broadcaster
  b_OrDrop :: bool
  b_Type :: event_type
  b_Object :: watch_object

definition Action :: "broadcaster \<Rightarrow> event_type \<Rightarrow> watch_object \<Rightarrow> bcast" where
  "Action b t ob = \<lparr>b_To = b, b_OrDrop = False, b_Type = t, b_Object = ob\<rparr>"

definition ActionOrDrop :: "broadcaster \<Rightarrow> event_type \<Rightarrow> watch_object \<Rightarrow> bcast" where
  "ActionOrDrop b t ob = \<lparr>b_To = b, b_OrDrop = True, b_Type = t, b_Object = ob\<rparr>"

section \<open>Lists\<close>

definition GetServices :: "storageCache \<Rightarrow> object_meta list" where
  "GetServices sc = map (\<lambda>(k, v). sc_svc v) (servicesMap sc)"

definition GetEndpoints :: "storageCache \<Rightarrow> Endpoints list" where
  "GetEndpoints sc = map (\<lambda>(k, v). ct_modified v) (endpointsMap sc)"

definition GetEndpointSliceV1 :: "storageCache \<Rightarrow> EndpointSliceV1 list" where
  "GetEndpointSliceV1 sc = map (\<lambda>(k, v). ct_modified v) (endpointSliceV1Map sc)"

definition GetEndpointSliceV1Beta1 :: "storageCache \<Rightarrow> EndpointSliceV1Beta1 list" where
  "GetEndpointSliceV1Beta1 sc = map (\<lambda>(k, v). ct_modified v) (endpointSliceV1Beta1Map sc)"

definition GetNodes :: "storageCache \<Rightarrow> object_meta list" where
  "GetNodes sc = map (\<lambda>(k, v). nc_node v) (nodesMap sc)"

definition GetNode :: "storageCache \<Rightarrow> string \<Rightarrow> object_meta option" where
  "GetNode sc host = map_option nc_node (mget (nodesMap sc) ('''', host))"

definition GetLocalNodeInfo :: "storageCache \<Rightarrow> node_info" where
  "GetLocalNodeInfo sc = localNodeInfo sc"

definition GetNodeName :: "storageCache \<Rightarrow> string" where
  "GetNodeName sc = hostName sc"

section \<open>Rebuilding the tables\<close>

definition prune_endpoints :: "storage_env \<Rightarrow> storageCache \<Rightarrow> Endpoints \<Rightarrow> Endpoints" where
  "prune_endpoints env sc eps = pruneEndpoints (env_ParseIP env) (hostName sc) (nodesMap sc) (servicesMap sc) eps
     (localNodeInfo sc) (wrapperInCluster sc) (serviceAutonomyEnhancementEnabled sc)"

definition prune_slice_v1 :: "storage_env \<Rightarrow> storageCache \<Rightarrow> EndpointSliceV1 \<Rightarrow> EndpointSliceV1" where
  "prune_slice_v1 env sc eps = pruneEndpointSliceV1 (env_ParseIP env) (hostName sc) (nodesMap sc) (servicesMap sc) eps
     (localNodeInfo sc) (wrapperInCluster sc) (serviceAutonomyEnhancementEnabled sc)"

definition prune_slice_v1beta1 :: "storage_env \<Rightarrow> storageCache \<Rightarrow> EndpointSliceV1Beta1 \<Rightarrow> EndpointSliceV1Beta1" where
  "prune_slice_v1beta1 env sc eps = pruneEndpointSliceV1Beta1 (env_ParseIP env) (hostName sc) (nodesMap sc) (servicesMap sc) eps
     (localNodeInfo sc) (wrapperInCluster sc) (serviceAutonomyEnhancementEnabled sc)"

text \<open>
  The body of the three loops: the container is replaced, and an event recorded, when the pruned
  object is not equal to the stored one.
\<close>

fun rebuild_table :: "('e \<Rightarrow> 'e) \<Rightarrow> ('e \<Rightarrow> 'e \<Rightarrow> bool) \<Rightarrow> ('k, 'e container) gomap \<Rightarrow>
    ('k, 'e container) gomap \<times> (event_type \<times> 'e) list" where
  "rebuild_table prune eq [] = ([], [])"
| "rebuild_table prune eq ((name, c) # tab) =
     (let newEps = prune (ct_original c); (tab', evts) = rebuild_table prune eq tab in
      if eq newEps (ct_modified c) then ((name, c) # tab', evts)
      else ((name, c\<lparr>ct_modified := newEps\<rparr>) # tab', (WModified, newEps) # evts))"

definition rebuildEndpointsMap :: "storage_env \<Rightarrow> storageCache \<Rightarrow> storageCache \<times> (event_type \<times> Endpoints) list" where
  "rebuildEndpointsMap env sc =
     (let (tab, evts) = rebuild_table (prune_endpoints env sc) (eqEndpoints env) (endpointsMap sc)
      in (sc\<lparr>endpointsMap := tab\<rparr>, evts))"

definition rebuildEndpointSliceV1Map :: "storage_env \<Rightarrow> storageCache \<Rightarrow> storageCache \<times> (event_type \<times> EndpointSliceV1) list" where
  "rebuildEndpointSliceV1Map env sc =
     (let (tab, evts) = rebuild_table (prune_slice_v1 env sc) (eqSliceV1 env) (endpointSliceV1Map sc)
      in (sc\<lparr>endpointSliceV1Map := tab\<rparr>, evts))"

definition rebuildEndpointSliceV1Beta1Map ::
    "storage_env \<Rightarrow> storageCache \<Rightarrow> storageCache \<times> (event_type \<times> EndpointSliceV1Beta1) list" where
  "rebuildEndpointSliceV1Beta1Map env sc =
     (let (tab, evts) = rebuild_table (prune_slice_v1beta1 env sc) (eqSliceV1Beta1 env) (endpointSliceV1Beta1Map sc)
      in (sc\<lparr>endpointSliceV1Beta1Map := tab\<rparr>, evts))"

text \<open>
  The three parts of \<open>resync\<close>. The second one sends the beta slices to the broadcaster of version 1,
  as the source does.
\<close>

definition resync_v1 :: "storage_env \<Rightarrow> storageCache \<Rightarrow> storageCache \<times> bcast list" where
  "resync_v1 env sc =
     (let (sc', evts) = rebuildEndpointSliceV1Map env sc in (sc', map (\<lambda>(t, eps). Action SliceV1B t (OSliceV1 eps)) evts))"

definition resync_v1beta1 :: "storage_env \<Rightarrow> storageCache \<Rightarrow> storageCache \<times> bcast list" where
  "resync_v1beta1 env sc =
     (let (sc', evts) = rebuildEndpointSliceV1Beta1Map env sc in (sc', map (\<lambda>(t, eps). Action SliceV1B t (OSliceV1Beta1 eps)) evts))"

definition resync_endpoints :: "storage_env \<Rightarrow> storageCache \<Rightarrow> storageCache \<times> bcast list" where
  "resync_endpoints env sc =
     (let (sc', evts) = rebuildEndpointsMap env sc in (sc', map (\<lambda>(t, eps). ActionOrDrop EndpointsB t (OEndpoints eps)) evts))"

definition resync :: "storage_env \<Rightarrow> storageCache \<Rightarrow> storageCache \<times> bcast list" where
  "resync env sc =
     (let (sc1, e1) = (if endpointSliceV1Map sc \<noteq> [] then resync_v1 env sc else (sc, []));
          (sc2, e2) = (if GetEndpointSliceV1Beta1 sc1 \<noteq> [] then resync_v1beta1 env sc1 else (sc1, []));
          (sc3, e3) = (if endpointsMap sc2 \<noteq> [] then resync_endpoints env sc2 else (sc2, []))
      in (sc3, e1 @ e2 @ e3))"

section \<open>Handlers\<close>

record locked_result =
  lr_cache :: storageCache
  lr_sent :: "bcast list"
  lr_resync :: bool
  lr_after :: "bcast list"

definition finish :: "storage_env \<Rightarrow> locked_result \<Rightarrow> storageCache \<times> bcast list" where
  "finish env r =
     (let (sc, evts) = (if lr_resync r then resync env (lr_cache r) else (lr_cache r, []))
      in (sc, lr_sent r @ evts @ lr_after r))"

definition ret :: "storageCache \<Rightarrow> locked_result" where
  "ret sc = \<lparr>lr_cache = sc, lr_sent = [], lr_resync = False, lr_after = []\<rparr>"

subsection \<open>cache.go: the information of the neighbours\<close>

definition ClearLocalNodeInfo_locked :: "storageCache \<Rightarrow> locked_result" where
  "ClearLocalNodeInfo_locked sc = ret (sc\<lparr>localNodeInfo := Some []\<rparr>)"

definition SetLocalNodeInfo_locked :: "node_info \<Rightarrow> storageCache \<Rightarrow> locked_result" where
  "SetLocalNodeInfo_locked info sc = (ret (sc\<lparr>localNodeInfo := info\<rparr>))\<lparr>lr_resync := True\<rparr>"

subsection \<open>node_handler.go\<close>

definition nodeHandler_add_locked :: "object_meta \<Rightarrow> storageCache \<Rightarrow> locked_result" where
  "nodeHandler_add_locked node sc =
     (let nodeKey = (om_Namespace node, om_Name node) in
      (ret (sc\<lparr>nodesMap := mput nodeKey \<lparr>nc_node = node, nc_labels = om_Labels node\<rparr> (nodesMap sc)\<rparr>))\<lparr>lr_resync := True\<rparr>)"

definition nodeHandler_update_locked :: "object_meta \<Rightarrow> storageCache \<Rightarrow> locked_result" where
  "nodeHandler_update_locked node sc =
     (let nodeKey = (om_Namespace node, om_Name node) in
      case mget (nodesMap sc) nodeKey of
        None \<Rightarrow> ret sc
      | Some c \<Rightarrow>
          let sc1 = sc\<lparr>nodesMap := mput nodeKey (c\<lparr>nc_node := node\<rparr>) (nodesMap sc)\<rparr> in
          if map_DeepEqual (om_Labels node) (nc_labels c) then ret sc1
          else (ret (sc\<lparr>nodesMap := mput nodeKey (c\<lparr>nc_node := node, nc_labels := om_Labels node\<rparr>) (nodesMap sc)\<rparr>))
                 \<lparr>lr_resync := True, lr_after := [ActionOrDrop NodeB WModified (ONode node)]\<rparr>)"

definition nodeHandler_delete_locked :: "object_meta \<Rightarrow> storageCache \<Rightarrow> locked_result" where
  "nodeHandler_delete_locked node sc =
     (ret (sc\<lparr>nodesMap := mdel (om_Namespace node, om_Name node) (nodesMap sc)\<rparr>))\<lparr>lr_resync := True\<rparr>"

subsection \<open>service_handler.go\<close>

definition serviceHandler_add_locked :: "storage_env \<Rightarrow> object_meta \<Rightarrow> storageCache \<Rightarrow> locked_result" where
  "serviceHandler_add_locked env service sc =
     (let serviceKey = (om_Namespace service, om_Name service) in
      (ret (sc\<lparr>servicesMap := mput serviceKey
          \<lparr>sc_svc = service, sc_keys = getTopologyKeys (env_Unmarshal env) service\<rparr> (servicesMap sc)\<rparr>))
        \<lparr>lr_sent := [ActionOrDrop ServiceB WAdded (OService service)], lr_resync := True\<rparr>)"

definition serviceHandler_update_locked :: "storage_env \<Rightarrow> object_meta \<Rightarrow> storageCache \<Rightarrow> locked_result" where
  "serviceHandler_update_locked env service sc =
     (let serviceKey = (om_Namespace service, om_Name service);
          newTopologyKeys = getTopologyKeys (env_Unmarshal env) service in
      case mget (servicesMap sc) serviceKey of
        None \<Rightarrow> ret sc
      | Some c \<Rightarrow>
          let sent = [ActionOrDrop ServiceB WModified (OService service)];
              sc1 = sc\<lparr>servicesMap := mput serviceKey (c\<lparr>sc_svc := service\<rparr>) (servicesMap sc)\<rparr> in
          if sc_keys c = newTopologyKeys then (ret sc1)\<lparr>lr_sent := sent\<rparr>
          else (ret (sc\<lparr>servicesMap := mput serviceKey (c\<lparr>sc_svc := service, sc_keys := newTopologyKeys\<rparr>) (servicesMap sc)\<rparr>))
                 \<lparr>lr_sent := sent, lr_resync := True\<rparr>)"

definition serviceHandler_delete_locked :: "object_meta \<Rightarrow> storageCache \<Rightarrow> locked_result" where
  "serviceHandler_delete_locked service sc =
     (ret (sc\<lparr>servicesMap := mdel (om_Namespace service, om_Name service) (servicesMap sc)\<rparr>))
       \<lparr>lr_sent := [ActionOrDrop ServiceB WDeleted (OService service)], lr_resync := True\<rparr>"

subsection \<open>endpoints_handler.go, endpointslicev1_handler.go, endpointslicev1beta1_handler.go\<close>

text \<open>
  The changes of a table that \<open>add\<close>, \<open>update\<close> and \<open>delete\<close> make under the lock, and the event that is sent
  afterwards.
\<close>

type_synonym ('k, 'e) table = "('k, 'e container) gomap"

definition table_add :: "('e \<Rightarrow> 'e) \<Rightarrow> 'k \<Rightarrow> 'e \<Rightarrow> ('k, 'e) table \<Rightarrow> ('k, 'e) table \<times> (event_type \<times> 'e) list" where
  "table_add prune key eps tab =
     (let newEps = prune eps in (mput key \<lparr>ct_original = eps, ct_modified = newEps\<rparr> tab, [(WAdded, newEps)]))"

definition table_update ::
    "('e \<Rightarrow> 'e) \<Rightarrow> ('e \<Rightarrow> 'e \<Rightarrow> bool) \<Rightarrow> 'k \<Rightarrow> 'e \<Rightarrow> ('k, 'e) table \<Rightarrow> ('k, 'e) table \<times> (event_type \<times> 'e) list" where
  "table_update prune eq key eps tab =
     (case mget tab key of
        None \<Rightarrow> (tab, [])
      | Some c \<Rightarrow>
          let c1 = c\<lparr>ct_original := eps\<rparr>; newEps = prune eps; changed = (\<not> eq (ct_modified c) newEps) in
          if changed then (mput key (c1\<lparr>ct_modified := newEps\<rparr>) tab, [(WModified, newEps)])
          else (mput key c1 tab, []))"

definition table_delete :: "'k \<Rightarrow> ('k, 'e) table \<Rightarrow> ('k, 'e) table \<times> (event_type \<times> 'e) list" where
  "table_delete key tab =
     (case mget tab key of None \<Rightarrow> (tab, []) | Some c \<Rightarrow> (mdel key tab, [(WDeleted, ct_modified c)]))"

definition set_endpoints :: "storageCache \<Rightarrow> (NamespacedName, Endpoints) table \<times> (event_type \<times> Endpoints) list \<Rightarrow> locked_result" where
  "set_endpoints sc r = (ret (sc\<lparr>endpointsMap := fst r\<rparr>))\<lparr>lr_after := map (\<lambda>(t, eps). ActionOrDrop EndpointsB t (OEndpoints eps)) (snd r)\<rparr>"

definition endpointsHandler_add_locked :: "storage_env \<Rightarrow> Endpoints \<Rightarrow> storageCache \<Rightarrow> locked_result" where
  "endpointsHandler_add_locked env eps sc =
     set_endpoints sc (table_add (prune_endpoints env sc) (namespaced_name (ep_meta eps)) eps (endpointsMap sc))"

definition endpointsHandler_update_locked :: "storage_env \<Rightarrow> Endpoints \<Rightarrow> storageCache \<Rightarrow> locked_result" where
  "endpointsHandler_update_locked env eps sc =
     set_endpoints sc (table_update (prune_endpoints env sc) (eqEndpoints env) (namespaced_name (ep_meta eps)) eps (endpointsMap sc))"

definition endpointsHandler_delete_locked :: "Endpoints \<Rightarrow> storageCache \<Rightarrow> locked_result" where
  "endpointsHandler_delete_locked eps sc = set_endpoints sc (table_delete (namespaced_name (ep_meta eps)) (endpointsMap sc))"

definition set_slice_v1 :: "storageCache \<Rightarrow> (NamespacedName, EndpointSliceV1) table \<times> (event_type \<times> EndpointSliceV1) list \<Rightarrow> locked_result" where
  "set_slice_v1 sc r = (ret (sc\<lparr>endpointSliceV1Map := fst r\<rparr>))\<lparr>lr_after := map (\<lambda>(t, eps). Action SliceV1B t (OSliceV1 eps)) (snd r)\<rparr>"

definition endpointSliceV1Handler_add_locked :: "storage_env \<Rightarrow> EndpointSliceV1 \<Rightarrow> storageCache \<Rightarrow> locked_result" where
  "endpointSliceV1Handler_add_locked env eps sc =
     set_slice_v1 sc (table_add (prune_slice_v1 env sc) (namespaced_name (sl_meta eps)) eps (endpointSliceV1Map sc))"

definition endpointSliceV1Handler_update_locked :: "storage_env \<Rightarrow> EndpointSliceV1 \<Rightarrow> storageCache \<Rightarrow> locked_result" where
  "endpointSliceV1Handler_update_locked env eps sc =
     set_slice_v1 sc (table_update (prune_slice_v1 env sc) (eqSliceV1 env) (namespaced_name (sl_meta eps)) eps (endpointSliceV1Map sc))"

definition endpointSliceV1Handler_delete_locked :: "EndpointSliceV1 \<Rightarrow> storageCache \<Rightarrow> locked_result" where
  "endpointSliceV1Handler_delete_locked eps sc = set_slice_v1 sc (table_delete (namespaced_name (sl_meta eps)) (endpointSliceV1Map sc))"

definition set_slice_v1beta1 ::
    "storageCache \<Rightarrow> (NamespacedName, EndpointSliceV1Beta1) table \<times> (event_type \<times> EndpointSliceV1Beta1) list \<Rightarrow> locked_result" where
  "set_slice_v1beta1 sc r =
     (ret (sc\<lparr>endpointSliceV1Beta1Map := fst r\<rparr>))\<lparr>lr_after := map (\<lambda>(t, eps). ActionOrDrop SliceV1Beta1B t (OSliceV1Beta1 eps)) (snd r)\<rparr>"

definition endpointSliceV1Beta1Handler_add_locked :: "storage_env \<Rightarrow> EndpointSliceV1Beta1 \<Rightarrow> storageCache \<Rightarrow> locked_result" where
  "endpointSliceV1Beta1Handler_add_locked env eps sc =
     set_slice_v1beta1 sc (table_add (prune_slice_v1beta1 env sc) (namespaced_name (sb_meta eps)) eps (endpointSliceV1Beta1Map sc))"

definition endpointSliceV1Beta1Handler_update_locked :: "storage_env \<Rightarrow> EndpointSliceV1Beta1 \<Rightarrow> storageCache \<Rightarrow> locked_result" where
  "endpointSliceV1Beta1Handler_update_locked env eps sc =
     set_slice_v1beta1 sc (table_update (prune_slice_v1beta1 env sc) (eqSliceV1Beta1 env) (namespaced_name (sb_meta eps)) eps
       (endpointSliceV1Beta1Map sc))"

definition endpointSliceV1Beta1Handler_delete_locked :: "EndpointSliceV1Beta1 \<Rightarrow> storageCache \<Rightarrow> locked_result" where
  "endpointSliceV1Beta1Handler_delete_locked eps sc =
     set_slice_v1beta1 sc (table_delete (namespaced_name (sb_meta eps)) (endpointSliceV1Beta1Map sc))"

subsection \<open>The calls\<close>

text \<open>
  An object an informer hands to a handler; \<open>IOther\<close> is one of any other type, such as a tombstone. The
  calls are the methods of the handlers and the two of the cache that change it.
\<close>

datatype informer_object =
  INode object_meta | IService object_meta | IEndpoints Endpoints | ISliceV1 EndpointSliceV1
  | ISliceV1Beta1 EndpointSliceV1Beta1 | IOther

datatype handler = NodeH | ServiceH | EndpointsH | SliceV1H | SliceV1Beta1H

datatype cache_call =
  OnAdd handler informer_object
  | OnUpdate handler informer_object informer_object
  | OnDelete handler informer_object
  | SetLocalNodeInfo node_info
  | ClearLocalNodeInfo

definition nodeHandler_OnAdd :: "informer_object \<Rightarrow> storageCache \<Rightarrow> locked_result" where
  "nodeHandler_OnAdd obj sc = (case obj of INode node \<Rightarrow> nodeHandler_add_locked node sc | _ \<Rightarrow> ret sc)"

definition nodeHandler_OnUpdate :: "informer_object \<Rightarrow> storageCache \<Rightarrow> locked_result" where
  "nodeHandler_OnUpdate newObj sc = (case newObj of INode node \<Rightarrow> nodeHandler_update_locked node sc | _ \<Rightarrow> ret sc)"

definition nodeHandler_OnDelete :: "informer_object \<Rightarrow> storageCache \<Rightarrow> locked_result" where
  "nodeHandler_OnDelete obj sc = (case obj of INode node \<Rightarrow> nodeHandler_delete_locked node sc | _ \<Rightarrow> ret sc)"

definition serviceHandler_OnAdd :: "storage_env \<Rightarrow> informer_object \<Rightarrow> storageCache \<Rightarrow> locked_result" where
  "serviceHandler_OnAdd env obj sc = (case obj of IService svc \<Rightarrow> serviceHandler_add_locked env svc sc | _ \<Rightarrow> ret sc)"

definition serviceHandler_OnUpdate :: "storage_env \<Rightarrow> informer_object \<Rightarrow> storageCache \<Rightarrow> locked_result" where
  "serviceHandler_OnUpdate env newObj sc = (case newObj of IService svc \<Rightarrow> serviceHandler_update_locked env svc sc | _ \<Rightarrow> ret sc)"

definition serviceHandler_OnDelete :: "informer_object \<Rightarrow> storageCache \<Rightarrow> locked_result" where
  "serviceHandler_OnDelete obj sc = (case obj of IService svc \<Rightarrow> serviceHandler_delete_locked svc sc | _ \<Rightarrow> ret sc)"

definition endpointsHandler_OnAdd :: "storage_env \<Rightarrow> informer_object \<Rightarrow> storageCache \<Rightarrow> locked_result" where
  "endpointsHandler_OnAdd env obj sc = (case obj of IEndpoints eps \<Rightarrow> endpointsHandler_add_locked env eps sc | _ \<Rightarrow> ret sc)"

definition endpointsHandler_OnUpdate :: "storage_env \<Rightarrow> informer_object \<Rightarrow> informer_object \<Rightarrow> storageCache \<Rightarrow> locked_result" where
  "endpointsHandler_OnUpdate env oldObj newObj sc =
     (case oldObj of
        IEndpoints oldEps \<Rightarrow>
          (case newObj of
             IEndpoints newEps \<Rightarrow>
               if eqSubsets env (ep_Subsets oldEps) (ep_Subsets newEps) then ret sc else endpointsHandler_update_locked env newEps sc
           | _ \<Rightarrow> ret sc)
      | _ \<Rightarrow> ret sc)"

definition endpointsHandler_OnDelete :: "informer_object \<Rightarrow> storageCache \<Rightarrow> locked_result" where
  "endpointsHandler_OnDelete obj sc = (case obj of IEndpoints eps \<Rightarrow> endpointsHandler_delete_locked eps sc | _ \<Rightarrow> ret sc)"

definition endpointSliceV1Handler_OnAdd :: "storage_env \<Rightarrow> informer_object \<Rightarrow> storageCache \<Rightarrow> locked_result" where
  "endpointSliceV1Handler_OnAdd env obj sc = (case obj of ISliceV1 eps \<Rightarrow> endpointSliceV1Handler_add_locked env eps sc | _ \<Rightarrow> ret sc)"

definition endpointSliceV1Handler_OnUpdate :: "storage_env \<Rightarrow> informer_object \<Rightarrow> storageCache \<Rightarrow> locked_result" where
  "endpointSliceV1Handler_OnUpdate env newObj sc = (case newObj of ISliceV1 eps \<Rightarrow> endpointSliceV1Handler_update_locked env eps sc | _ \<Rightarrow> ret sc)"

definition endpointSliceV1Handler_OnDelete :: "informer_object \<Rightarrow> storageCache \<Rightarrow> locked_result" where
  "endpointSliceV1Handler_OnDelete obj sc = (case obj of ISliceV1 eps \<Rightarrow> endpointSliceV1Handler_delete_locked eps sc | _ \<Rightarrow> ret sc)"

definition endpointSliceV1Beta1Handler_OnAdd :: "storage_env \<Rightarrow> informer_object \<Rightarrow> storageCache \<Rightarrow> locked_result" where
  "endpointSliceV1Beta1Handler_OnAdd env obj sc = (case obj of ISliceV1Beta1 eps \<Rightarrow> endpointSliceV1Beta1Handler_add_locked env eps sc | _ \<Rightarrow> ret sc)"

definition endpointSliceV1Beta1Handler_OnUpdate :: "storage_env \<Rightarrow> informer_object \<Rightarrow> storageCache \<Rightarrow> locked_result" where
  "endpointSliceV1Beta1Handler_OnUpdate env newObj sc = (case newObj of ISliceV1Beta1 eps \<Rightarrow> endpointSliceV1Beta1Handler_update_locked env eps sc | _ \<Rightarrow> ret sc)"

definition endpointSliceV1Beta1Handler_OnDelete :: "informer_object \<Rightarrow> storageCache \<Rightarrow> locked_result" where
  "endpointSliceV1Beta1Handler_OnDelete obj sc = (case obj of ISliceV1Beta1 eps \<Rightarrow> endpointSliceV1Beta1Handler_delete_locked eps sc | _ \<Rightarrow> ret sc)"

fun locked :: "storage_env \<Rightarrow> cache_call \<Rightarrow> storageCache \<Rightarrow> locked_result" where
  "locked env (OnAdd h obj) sc =
     (case h of
        NodeH \<Rightarrow> nodeHandler_OnAdd obj sc
      | ServiceH \<Rightarrow> serviceHandler_OnAdd env obj sc
      | EndpointsH \<Rightarrow> endpointsHandler_OnAdd env obj sc
      | SliceV1H \<Rightarrow> endpointSliceV1Handler_OnAdd env obj sc
      | SliceV1Beta1H \<Rightarrow> endpointSliceV1Beta1Handler_OnAdd env obj sc)"
| "locked env (OnUpdate h oldObj newObj) sc =
     (case h of
        NodeH \<Rightarrow> nodeHandler_OnUpdate newObj sc
      | ServiceH \<Rightarrow> serviceHandler_OnUpdate env newObj sc
      | EndpointsH \<Rightarrow> endpointsHandler_OnUpdate env oldObj newObj sc
      | SliceV1H \<Rightarrow> endpointSliceV1Handler_OnUpdate env newObj sc
      | SliceV1Beta1H \<Rightarrow> endpointSliceV1Beta1Handler_OnUpdate env newObj sc)"
| "locked env (OnDelete h obj) sc =
     (case h of
        NodeH \<Rightarrow> nodeHandler_OnDelete obj sc
      | ServiceH \<Rightarrow> serviceHandler_OnDelete obj sc
      | EndpointsH \<Rightarrow> endpointsHandler_OnDelete obj sc
      | SliceV1H \<Rightarrow> endpointSliceV1Handler_OnDelete obj sc
      | SliceV1Beta1H \<Rightarrow> endpointSliceV1Beta1Handler_OnDelete obj sc)"
| "locked env (SetLocalNodeInfo info) sc = SetLocalNodeInfo_locked info sc"
| "locked env ClearLocalNodeInfo sc = ClearLocalNodeInfo_locked sc"

text \<open>A call that runs to its end before the next one starts, and a sequence of such calls.\<close>

definition call :: "storage_env \<Rightarrow> cache_call \<Rightarrow> storageCache \<Rightarrow> storageCache \<times> bcast list" where
  "call env c sc = finish env (locked env c sc)"

fun calls :: "storage_env \<Rightarrow> cache_call list \<Rightarrow> storageCache \<Rightarrow> storageCache \<times> bcast list" where
  "calls env [] sc = (sc, [])"
| "calls env (c # cs) sc = (let (sc1, e1) = call env c sc; (sc2, e2) = calls env cs sc1 in (sc2, e1 @ e2))"

section \<open>Interleavings\<close>

text \<open>
  Each call runs on a goroutine of its own. A step is one critical section, one of the three length
  tests of \<open>resync\<close>, or one broadcast; \<open>execute\<close> yields the new cache, the events sent and what the
  goroutine does before the rest of its actions.
\<close>

datatype action = Enter cache_call | CheckV1 | CheckV1Beta1 | CheckEndpoints | LockV1 | LockV1Beta1 | LockEndpoints | Send bcast

fun execute :: "storage_env \<Rightarrow> action \<Rightarrow> storageCache \<Rightarrow> storageCache \<times> bcast list \<times> action list" where
  "execute env (Enter c) sc =
     (let r = locked env c sc in
      (lr_cache r, lr_sent r, (if lr_resync r then [CheckV1, CheckV1Beta1, CheckEndpoints] else []) @ map Send (lr_after r)))"
| "execute env CheckV1 sc = (sc, [], if endpointSliceV1Map sc \<noteq> [] then [LockV1] else [])"
| "execute env CheckV1Beta1 sc = (sc, [], if GetEndpointSliceV1Beta1 sc \<noteq> [] then [LockV1Beta1] else [])"
| "execute env CheckEndpoints sc = (sc, [], if endpointsMap sc \<noteq> [] then [LockEndpoints] else [])"
| "execute env LockV1 sc = (let (sc', evts) = resync_v1 env sc in (sc', [], map Send evts))"
| "execute env LockV1Beta1 sc = (let (sc', evts) = resync_v1beta1 env sc in (sc', [], map Send evts))"
| "execute env LockEndpoints sc = (let (sc', evts) = resync_endpoints env sc in (sc', [], map Send evts))"
| "execute env (Send e) sc = (sc, [e], [])"

record cache_config =
  cf_cache :: storageCache
  cf_log :: "bcast list"
  cf_threads :: "action list list"

text \<open>\<open>ok\<close> says which calls may come in.\<close>

inductive cache_step :: "storage_env \<Rightarrow> (cache_call \<Rightarrow> bool) \<Rightarrow> cache_config \<Rightarrow> cache_config \<Rightarrow> bool"
  for env ok where
  spawn: "ok c \<Longrightarrow> cache_step env ok cf (cf\<lparr>cf_threads := cf_threads cf @ [[Enter c]]\<rparr>)"
| run: "i < length (cf_threads cf) \<Longrightarrow> cf_threads cf ! i = a # as \<Longrightarrow> execute env a (cf_cache cf) = (sc', evts, acts) \<Longrightarrow>
     cache_step env ok cf \<lparr>cf_cache = sc', cf_log = cf_log cf @ evts, cf_threads = (cf_threads cf)[i := acts @ as]\<rparr>"

inductive_cases cache_stepE: "cache_step env ok cf cf'"

abbreviation cache_steps :: "storage_env \<Rightarrow> (cache_call \<Rightarrow> bool) \<Rightarrow> cache_config \<Rightarrow> cache_config \<Rightarrow> bool" where
  "cache_steps env ok \<equiv> (cache_step env ok)\<^sup>*\<^sup>*"

definition start :: "storageCache \<Rightarrow> cache_config" where
  "start sc = \<lparr>cf_cache = sc, cf_log = [], cf_threads = []\<rparr>"

definition quiescent :: "cache_config \<Rightarrow> bool" where
  "quiescent cf \<longleftrightarrow> (\<forall>t \<in> set (cf_threads cf). t = [])"

section \<open>One table\<close>

text \<open>
  The promise of a table: its keys are the names of its objects (\<open>table_wf\<close>), each stored object is the
  pruned original (\<open>table_consistent\<close>), and what a watcher has assembled from the events
  (\<open>replay\<close>) is what a list request would return (\<open>table_view\<close>).
\<close>

definition table_wf :: "('e \<Rightarrow> 'k) \<Rightarrow> ('k, 'e) table \<Rightarrow> bool" where
  "table_wf key tab \<longleftrightarrow> mwf tab \<and> (\<forall>k c. map_of tab k = Some c \<longrightarrow> key (ct_original c) = k \<and> key (ct_modified c) = k)"

definition table_consistent :: "('e \<Rightarrow> 'e) \<Rightarrow> ('e \<Rightarrow> 'e \<Rightarrow> bool) \<Rightarrow> ('k, 'e) table \<Rightarrow> bool" where
  "table_consistent prune eq tab \<longleftrightarrow> (\<forall>k c. map_of tab k = Some c \<longrightarrow> eq (prune (ct_original c)) (ct_modified c))"

definition table_view :: "('k, 'e) table \<Rightarrow> 'k \<Rightarrow> 'e option" where
  "table_view tab k = map_option ct_modified (map_of tab k)"

definition apply_watch :: "('e \<Rightarrow> 'k) \<Rightarrow> ('k \<Rightarrow> 'e option) \<Rightarrow> event_type \<times> 'e \<Rightarrow> 'k \<Rightarrow> 'e option" where
  "apply_watch key view ev = view(key (snd ev) := (if fst ev = WDeleted then None else Some (snd ev)))"

definition replay :: "('e \<Rightarrow> 'k) \<Rightarrow> (event_type \<times> 'e) list \<Rightarrow> ('k \<Rightarrow> 'e option) \<Rightarrow> 'k \<Rightarrow> 'e option" where
  "replay key evts view = foldl (apply_watch key) view evts"

lemma replay_simps [simp]:
  "replay key [] view = view"
  "replay key (e # es) view = replay key es (apply_watch key view e)"
  "replay key (es @ fs) view = replay key fs (replay key es view)"
  by (simp_all add: replay_def)

lemma apply_watch_simps [simp]:
  "apply_watch key view (WDeleted, e) = view(key e := None)"
  "apply_watch key view (WAdded, e) = view(key e := Some e)" "apply_watch key view (WModified, e) = view(key e := Some e)"
  by (simp_all add: apply_watch_def)

text \<open>The changes that one call makes to a table.\<close>

definition table_change ::
    "('e \<Rightarrow> 'e) \<Rightarrow> ('e \<Rightarrow> 'e \<Rightarrow> bool) \<Rightarrow> ('e \<Rightarrow> 'k) \<Rightarrow> ('k, 'e) table \<Rightarrow> ('k, 'e) table \<times> (event_type \<times> 'e) list \<Rightarrow> bool" where
  "table_change prune eq key tab r \<longleftrightarrow>
     r = (tab, []) \<or>
     (\<exists>e. r = table_add prune (key e) e tab \<or> r = table_update prune eq (key e) e tab \<or> r = table_delete (key e) tab)"

lemma rebuild_lookup:
  "map_of (fst (rebuild_table prune eq tab)) k =
     map_option (\<lambda>c. if eq (prune (ct_original c)) (ct_modified c) then c else c\<lparr>ct_modified := prune (ct_original c)\<rparr>) (map_of tab k)"
  by (induction prune eq tab rule: rebuild_table.induct) (auto simp: Let_def case_prod_unfold)

lemma rebuild_keys: "map fst (fst (rebuild_table prune eq tab)) = map fst tab"
  by (induction prune eq tab rule: rebuild_table.induct) (auto simp: Let_def case_prod_unfold)

lemma rebuild_Nil [simp]: "fst (rebuild_table prune eq tab) = [] \<longleftrightarrow> tab = []"
  using rebuild_keys [of prune eq tab] by (metis map_is_Nil_conv)

lemma rebuild_consistent:
  assumes "reflp eq"
  shows "table_consistent prune eq (fst (rebuild_table prune eq tab))"
  unfolding table_consistent_def
proof (intro allI impI)
  fix k c assume "map_of (fst (rebuild_table prune eq tab)) k = Some c"
  then obtain z where "c = (if eq (prune (ct_original z)) (ct_modified z) then z else z\<lparr>ct_modified := prune (ct_original z)\<rparr>)"
    by (auto simp: rebuild_lookup)
  then show "eq (prune (ct_original c)) (ct_modified c)" using assms by (simp add: reflp_def)
qed

lemma change_consistent:
  assumes "equivp eq" "table_change prune eq key tab r" "table_consistent prune eq tab"
  shows "table_consistent prune eq (fst r)"
  using assms equivp_reflp [OF assms(1)] equivp_symp [OF assms(1)]
  by (auto simp: table_change_def table_consistent_def table_add_def table_update_def table_delete_def Let_def gomap
      split: option.splits if_splits)

locale pruned_table =
  fixes key :: "'e \<Rightarrow> 'k"
    and prune :: "'v \<Rightarrow> 'c \<Rightarrow> 'e \<Rightarrow> 'e"
  assumes key_prune: "key (prune env c e) = key e"
begin

lemma rebuild_wf:
  assumes "table_wf key tab"
  shows "table_wf key (fst (rebuild_table (prune env c) eq tab))"
proof -
  have "mwf (fst (rebuild_table (prune env c) eq tab))"
    using assms by (simp add: table_wf_def mwf_def rebuild_keys)
  with assms show ?thesis by (auto simp: table_wf_def rebuild_lookup key_prune)
qed

lemma change_wf: "table_change (prune env c) eq key tab r \<Longrightarrow> table_wf key tab \<Longrightarrow> table_wf key (fst r)"
  by (auto simp: table_change_def table_wf_def table_add_def table_update_def table_delete_def Let_def gomap key_prune
      split: option.splits if_splits)

lemma change_view:
  assumes "table_change (prune env c) eq key tab r" "table_wf key tab"
  shows "table_view (fst r) = replay key (snd r) (table_view tab)"
  using assms
  by (auto simp: table_change_def table_wf_def table_view_def table_add_def table_update_def table_delete_def apply_watch_def
      Let_def gomap key_prune fun_eq_iff split: option.splits if_splits)

lemma rebuild_view:
  assumes "table_wf key tab"
  shows "table_view (fst (rebuild_table (prune env c) eq tab)) = replay key (snd (rebuild_table (prune env c) eq tab)) (table_view tab)"
proof -
  have "distinct (map fst tab) \<Longrightarrow> \<forall>(k, c) \<in> set tab. key (ct_original c) = k \<Longrightarrow>
      replay key (snd (rebuild_table (prune env c) eq tab)) view k =
        (case map_of tab k of
           None \<Rightarrow> view k
         | Some x \<Rightarrow> if eq (prune env c (ct_original x)) (ct_modified x) then view k else Some (prune env c (ct_original x)))" for view k
    by (induction "prune env c" eq tab arbitrary: view rule: rebuild_table.induct)
      (auto simp: Let_def case_prod_unfold apply_watch_def key_prune in_mkeys split: option.split)
  moreover have "distinct (map fst tab)" "\<forall>(k, c) \<in> set tab. key (ct_original c) = k"
    using assms by (auto simp: table_wf_def mwf_def)
  ultimately show ?thesis
    by (auto simp: fun_eq_iff table_view_def rebuild_lookup split: option.split)
qed

end

text \<open>The three tables of the cache.\<close>

abbreviation endpoints_key :: "Endpoints \<Rightarrow> NamespacedName" where "endpoints_key e \<equiv> namespaced_name (ep_meta e)"
abbreviation slice_v1_key :: "EndpointSliceV1 \<Rightarrow> NamespacedName" where "slice_v1_key e \<equiv> namespaced_name (sl_meta e)"
abbreviation slice_v1beta1_key :: "EndpointSliceV1Beta1 \<Rightarrow> NamespacedName" where "slice_v1beta1_key e \<equiv> namespaced_name (sb_meta e)"

interpretation endpoints_table: pruned_table endpoints_key prune_endpoints
  by unfold_locales (simp add: prune_endpoints_def pruneEndpoints_eq Let_def split: option.split)

interpretation slice_v1_table: pruned_table slice_v1_key prune_slice_v1
  by unfold_locales (simp add: prune_slice_v1_def pruneEndpointSliceV1_eq Let_def split: option.split)

interpretation slice_v1beta1_table: pruned_table slice_v1beta1_key prune_slice_v1beta1
  by unfold_locales (simp add: prune_slice_v1beta1_def pruneEndpointSliceV1Beta1_eq Let_def split: option.split)

end
