(* ===== verification/GridRuns.thy ===== *)
theory GridRuns
  imports GridCache
begin

text \<open>
  The runs of the cache of the application-grid-wrapper: the invariant of its tables under every
  call, the consistency of the lists with the pruning under every interleaving of the handlers, and what
  the watchers see.
\<close>

section \<open>The cache\<close>

text \<open>The events of a log that reach the watchers of a kind.\<close>

definition to_endpoints :: "bcast \<Rightarrow> (event_type \<times> Endpoints) option" where
  "to_endpoints b = (if b_To b = EndpointsB then (case b_Object b of OEndpoints e \<Rightarrow> Some (b_Type b, e) | _ \<Rightarrow> None) else None)"

definition to_slice_v1 :: "bcast \<Rightarrow> (event_type \<times> EndpointSliceV1) option" where
  "to_slice_v1 b = (if b_To b = SliceV1B then (case b_Object b of OSliceV1 e \<Rightarrow> Some (b_Type b, e) | _ \<Rightarrow> None) else None)"

definition to_slice_v1beta1 :: "bcast \<Rightarrow> (event_type \<times> EndpointSliceV1Beta1) option" where
  "to_slice_v1beta1 b = (if b_To b = SliceV1Beta1B then (case b_Object b of OSliceV1Beta1 e \<Rightarrow> Some (b_Type b, e) | _ \<Rightarrow> None) else None)"

lemma map_filter_append [simp]: "List.map_filter f (xs @ ys) = List.map_filter f xs @ List.map_filter f ys"
  by (simp add: List.map_filter_def)

lemma map_filter_map: "List.map_filter f (map g xs) = List.map_filter (f \<circ> g) xs"
  by (induction xs) (auto simp: List.map_filter_simps split: option.split)

lemma map_filter_const [simp]: "List.map_filter (\<lambda>x. None) xs = []" "List.map_filter (\<lambda>x. Some (g x)) xs = map g xs"
  by (induction xs) (auto simp: List.map_filter_simps)

lemma events_to_self [simp]:
  "List.map_filter to_endpoints (map (\<lambda>(t, e). ActionOrDrop EndpointsB t (OEndpoints e)) es) = es"
  "List.map_filter to_slice_v1 (map (\<lambda>(t, e). Action SliceV1B t (OSliceV1 e)) ss) = ss"
  "List.map_filter to_slice_v1beta1 (map (\<lambda>(t, e). ActionOrDrop SliceV1Beta1B t (OSliceV1Beta1 e)) bs) = bs"
  by (simp_all add: map_filter_map o_def case_prod_unfold to_endpoints_def to_slice_v1_def to_slice_v1beta1_def Action_def ActionOrDrop_def)

lemma events_to_others [simp]:
  "List.map_filter to_slice_v1 (map (\<lambda>(t, e). ActionOrDrop EndpointsB t (OEndpoints e)) es) = []"
  "List.map_filter to_slice_v1beta1 (map (\<lambda>(t, e). ActionOrDrop EndpointsB t (OEndpoints e)) es) = []"
  "List.map_filter to_endpoints (map (\<lambda>(t, e). Action SliceV1B t (OSliceV1 e)) ss) = []"
  "List.map_filter to_slice_v1beta1 (map (\<lambda>(t, e). Action SliceV1B t (OSliceV1 e)) ss) = []"
  "List.map_filter to_endpoints (map (\<lambda>(t, e). ActionOrDrop SliceV1Beta1B t (OSliceV1Beta1 e)) bs) = []"
  "List.map_filter to_slice_v1 (map (\<lambda>(t, e). ActionOrDrop SliceV1Beta1B t (OSliceV1Beta1 e)) bs) = []"
  "List.map_filter to_endpoints (map (\<lambda>(t, e). Action SliceV1B t (OSliceV1Beta1 e)) bs) = []"
  "List.map_filter to_slice_v1 (map (\<lambda>(t, e). Action SliceV1B t (OSliceV1Beta1 e)) bs) = []"
  "List.map_filter to_slice_v1beta1 (map (\<lambda>(t, e). Action SliceV1B t (OSliceV1Beta1 e)) bs) = []"
  by (simp_all add: map_filter_map o_def case_prod_unfold to_endpoints_def to_slice_v1_def to_slice_v1beta1_def Action_def ActionOrDrop_def)

lemma events_not_slices [simp]:
  "to_endpoints (ActionOrDrop ServiceB t ob) = None" "to_slice_v1 (ActionOrDrop ServiceB t ob) = None"
  "to_slice_v1beta1 (ActionOrDrop ServiceB t ob) = None"
  "to_endpoints (ActionOrDrop NodeB t ob) = None" "to_slice_v1 (ActionOrDrop NodeB t ob) = None"
  "to_slice_v1beta1 (ActionOrDrop NodeB t ob) = None"
  by (simp_all add: to_endpoints_def to_slice_v1_def to_slice_v1beta1_def ActionOrDrop_def)

lemmas handler_defs = nodeHandler_OnAdd_def nodeHandler_OnUpdate_def nodeHandler_OnDelete_def
  serviceHandler_OnAdd_def serviceHandler_OnUpdate_def serviceHandler_OnDelete_def
  endpointsHandler_OnAdd_def endpointsHandler_OnUpdate_def endpointsHandler_OnDelete_def
  endpointSliceV1Handler_OnAdd_def endpointSliceV1Handler_OnUpdate_def endpointSliceV1Handler_OnDelete_def
  endpointSliceV1Beta1Handler_OnAdd_def endpointSliceV1Beta1Handler_OnUpdate_def endpointSliceV1Beta1Handler_OnDelete_def
  nodeHandler_add_locked_def nodeHandler_update_locked_def nodeHandler_delete_locked_def
  serviceHandler_add_locked_def serviceHandler_update_locked_def serviceHandler_delete_locked_def
  ClearLocalNodeInfo_locked_def SetLocalNodeInfo_locked_def

lemmas table_handler_defs = endpointsHandler_add_locked_def endpointsHandler_update_locked_def endpointsHandler_delete_locked_def
  endpointSliceV1Handler_add_locked_def endpointSliceV1Handler_update_locked_def endpointSliceV1Handler_delete_locked_def
  endpointSliceV1Beta1Handler_add_locked_def endpointSliceV1Beta1Handler_update_locked_def endpointSliceV1Beta1Handler_delete_locked_def
  set_endpoints_def set_slice_v1_def set_slice_v1beta1_def

lemma ret_simps [simp]: "lr_cache (ret sc) = sc" "lr_sent (ret sc) = []" "lr_resync (ret sc) = False" "lr_after (ret sc) = []"
  by (simp_all add: ret_def)

lemma table_change_self [simp]: "table_change prune eq key tab (tab, [])"
  by (simp add: table_change_def)

lemma table_change_ops:
  "table_change prune eq key tab (table_add prune (key e) e tab)"
  "table_change prune eq key tab (table_update prune eq (key e) e tab)"
  "table_change prune eq key tab (table_delete (key e) tab)"
  by (auto simp: table_change_def)

lemmas change_ops = table_change_ops [where key = endpoints_key] table_change_ops [where key = slice_v1_key]
  table_change_ops [where key = slice_v1beta1_key]

text \<open>The part under the lock changes each table by at most one operation, and announces just that change.\<close>

lemma locked_change:
  "table_change (prune_endpoints env sc) (eqEndpoints env) endpoints_key (endpointsMap sc)
     (endpointsMap (lr_cache (locked env c sc)), List.map_filter to_endpoints (lr_sent (locked env c sc) @ lr_after (locked env c sc)))"
  "table_change (prune_slice_v1 env sc) (eqSliceV1 env) slice_v1_key (endpointSliceV1Map sc)
     (endpointSliceV1Map (lr_cache (locked env c sc)), List.map_filter to_slice_v1 (lr_sent (locked env c sc) @ lr_after (locked env c sc)))"
  "table_change (prune_slice_v1beta1 env sc) (eqSliceV1Beta1 env) slice_v1beta1_key (endpointSliceV1Beta1Map sc)
     (endpointSliceV1Beta1Map (lr_cache (locked env c sc)), List.map_filter to_slice_v1beta1 (lr_sent (locked env c sc) @ lr_after (locked env c sc)))"
  by (cases c; simp split: handler.split;
      auto simp: handler_defs table_handler_defs Let_def List.map_filter_simps change_ops split: informer_object.split option.split)+

subsection \<open>What the pruning depends on\<close>

definition node_view :: "nodeContainer \<Rightarrow> string \<times> labels option" where
  "node_view n = (om_Name (nc_node n), nc_labels n)"

lemma exposes_cong:
  assumes "\<And>k. map_option node_view (map_of nodes' k) = map_option node_view (map_of nodes k)"
  shows "exposes h nodes' info enh keys = exposes h nodes info enh keys"
    and "exposes_opt h nodes' info enh keys = exposes_opt h nodes info enh keys"
proof -
  show *: "exposes h nodes' info enh keys = exposes h nodes info enh keys"
  proof
    fix name
    show "exposes h nodes' info enh keys name = exposes h nodes info enh keys name"
      using assms [of "('''', name)"] assms [of "('''', h)"]
      by (cases "map_of nodes ('''', name)"; cases "map_of nodes ('''', h)";
          cases "map_of nodes' ('''', name)"; cases "map_of nodes' ('''', h)")
        (simp_all add: exposes_def concerned_iff not_failed_iff node_view_def)
  qed
  show "exposes_opt h nodes' info enh keys = exposes_opt h nodes info enh keys"
    by (simp add: fun_eq_iff exposes_opt_def * split: option.split)
qed

lemma topology_filter_cong:
  assumes "\<And>k. map_option sc_keys (map_of svcs' k) = map_option sc_keys (map_of svcs k)"
  shows "topology_filter h nodes' svcs' info enh key m = topology_filter h nodes svcs info enh key m"
  using assms [of key] by (cases "map_of svcs key"; cases "map_of svcs' key") (simp_all add: topology_filter_def)

definition same_context :: "storageCache \<Rightarrow> storageCache \<Rightarrow> bool" where
  "same_context sc sc' \<longleftrightarrow> (\<forall>env. prune_endpoints env sc' = prune_endpoints env sc \<and>
     prune_slice_v1 env sc' = prune_slice_v1 env sc \<and> prune_slice_v1beta1 env sc' = prune_slice_v1beta1 env sc)"

lemma same_contextI:
  assumes "hostName sc' = hostName sc" "wrapperInCluster sc' = wrapperInCluster sc" "localNodeInfo sc' = localNodeInfo sc"
    "serviceAutonomyEnhancementEnabled sc' = serviceAutonomyEnhancementEnabled sc"
    and "\<And>k. map_option node_view (map_of (nodesMap sc') k) = map_option node_view (map_of (nodesMap sc) k)"
    and "\<And>k. map_option sc_keys (map_of (servicesMap sc') k) = map_option sc_keys (map_of (servicesMap sc) k)"
  shows "same_context sc sc'"
proof -
  note cong = exposes_cong [OF assms(5)] topology_filter_cong [OF assms(6), where nodes' = "nodesMap sc'" and nodes = "nodesMap sc"]
  show ?thesis
    unfolding same_context_def
    by (auto simp: fun_eq_iff prune_endpoints_def prune_slice_v1_def prune_slice_v1beta1_def assms(1-4)
        pruneEndpoints_eq pruneEndpointSliceV1_eq pruneEndpointSliceV1Beta1_eq cong Let_def cong: option.case_cong)
qed

lemma same_context_tables [simp]:
  "prune_endpoints env (sc\<lparr>endpointsMap := e\<rparr>) = prune_endpoints env sc"
  "prune_endpoints env (sc\<lparr>endpointSliceV1Map := s\<rparr>) = prune_endpoints env sc"
  "prune_endpoints env (sc\<lparr>endpointSliceV1Beta1Map := b\<rparr>) = prune_endpoints env sc"
  "prune_slice_v1 env (sc\<lparr>endpointsMap := e\<rparr>) = prune_slice_v1 env sc"
  "prune_slice_v1 env (sc\<lparr>endpointSliceV1Map := s\<rparr>) = prune_slice_v1 env sc"
  "prune_slice_v1 env (sc\<lparr>endpointSliceV1Beta1Map := b\<rparr>) = prune_slice_v1 env sc"
  "prune_slice_v1beta1 env (sc\<lparr>endpointsMap := e\<rparr>) = prune_slice_v1beta1 env sc"
  "prune_slice_v1beta1 env (sc\<lparr>endpointSliceV1Map := s\<rparr>) = prune_slice_v1beta1 env sc"
  "prune_slice_v1beta1 env (sc\<lparr>endpointSliceV1Beta1Map := b\<rparr>) = prune_slice_v1beta1 env sc"
  by (simp_all add: fun_eq_iff prune_endpoints_def prune_slice_v1_def prune_slice_v1beta1_def)

subsection \<open>The invariant of the tables\<close>

definition nodes_wf :: "storageCache \<Rightarrow> bool" where
  "nodes_wf sc \<longleftrightarrow> (\<forall>k n. map_of (nodesMap sc) k = Some n \<longrightarrow> namespaced_name (nc_node n) = k)"

definition cache_wf :: "storageCache \<Rightarrow> bool" where
  "cache_wf sc \<longleftrightarrow> nodes_wf sc \<and> table_wf endpoints_key (endpointsMap sc) \<and>
     table_wf slice_v1_key (endpointSliceV1Map sc) \<and> table_wf slice_v1beta1_key (endpointSliceV1Beta1Map sc)"

lemma cache_wf_New: "cache_wf (NewStorageCache h w e s)"
  by (simp add: cache_wf_def nodes_wf_def table_wf_def NewStorageCache_def)

lemma locked_nodes_wf:
  assumes "nodes_wf sc"
  shows "nodes_wf (lr_cache (locked env c sc))"
  using assms
  by (cases c; simp split: handler.split;
      auto simp: handler_defs table_handler_defs Let_def nodes_wf_def namespaced_name_def gomap
        split: informer_object.split option.splits if_splits)

lemma locked_wf: "cache_wf sc \<Longrightarrow> cache_wf (lr_cache (locked env c sc))"
  using endpoints_table.change_wf [OF locked_change(1)] slice_v1_table.change_wf [OF locked_change(2)]
    slice_v1beta1_table.change_wf [OF locked_change(3)] locked_nodes_wf
  unfolding cache_wf_def by fastforce

text \<open>Every call but \<open>ClearLocalNodeInfo\<close> resynchronises when it changes what the pruning depends on.\<close>

lemma locked_context:
  assumes "cache_wf sc" "c \<noteq> ClearLocalNodeInfo" "\<not> lr_resync (locked env c sc)"
  shows "same_context sc (lr_cache (locked env c sc))"
proof (rule same_contextI)
  have nodes: "map_of (nodesMap sc) k = Some n \<Longrightarrow> om_Name (nc_node n) = snd k" for k n
    using assms(1) by (cases k) (auto simp: cache_wf_def nodes_wf_def namespaced_name_def)
  show "map_option node_view (map_of (nodesMap (lr_cache (locked env c sc))) k) = map_option node_view (map_of (nodesMap sc) k)" for k
    using assms(2,3)
    by (cases c; simp split: handler.splits)
      (auto simp: handler_defs table_handler_defs Let_def gomap node_view_def dest!: nodes split: informer_object.splits option.splits if_splits)
  show "map_option sc_keys (map_of (servicesMap (lr_cache (locked env c sc))) k) = map_option sc_keys (map_of (servicesMap sc) k)" for k
    using assms(2,3)
    by (cases c; simp split: handler.splits)
      (auto simp: handler_defs table_handler_defs Let_def gomap split: informer_object.splits option.splits if_splits)
qed (use assms(2,3) in \<open>cases c; simp split: handler.splits; auto simp: handler_defs table_handler_defs Let_def split: informer_object.splits option.splits if_splits\<close>)+

subsection \<open>Consistency\<close>

definition consistent_endpoints :: "storage_env \<Rightarrow> storageCache \<Rightarrow> bool" where
  "consistent_endpoints env sc = table_consistent (prune_endpoints env sc) (eqEndpoints env) (endpointsMap sc)"

definition consistent_v1 :: "storage_env \<Rightarrow> storageCache \<Rightarrow> bool" where
  "consistent_v1 env sc = table_consistent (prune_slice_v1 env sc) (eqSliceV1 env) (endpointSliceV1Map sc)"

definition consistent_v1beta1 :: "storage_env \<Rightarrow> storageCache \<Rightarrow> bool" where
  "consistent_v1beta1 env sc = table_consistent (prune_slice_v1beta1 env sc) (eqSliceV1Beta1 env) (endpointSliceV1Beta1Map sc)"

lemmas consistent_defs = consistent_endpoints_def consistent_v1_def consistent_v1beta1_def

lemmas rebuild_defs = resync_v1_def resync_v1beta1_def resync_endpoints_def rebuildEndpointsMap_def
  rebuildEndpointSliceV1Map_def rebuildEndpointSliceV1Beta1Map_def Let_def case_prod_unfold

text \<open>\<open>Semantic.DeepEqual\<close> is an equivalence at each of its types.\<close>

definition env_wf :: "storage_env \<Rightarrow> bool" where
  "env_wf env \<longleftrightarrow> equivp (eqEndpoints env) \<and> equivp (eqSliceV1 env) \<and> equivp (eqSliceV1Beta1 env)"

lemma locked_consistent:
  assumes "env_wf env" "cache_wf sc" "c \<noteq> ClearLocalNodeInfo" "\<not> lr_resync (locked env c sc)"
  shows "consistent_endpoints env sc \<Longrightarrow> consistent_endpoints env (lr_cache (locked env c sc))"
    and "consistent_v1 env sc \<Longrightarrow> consistent_v1 env (lr_cache (locked env c sc))"
    and "consistent_v1beta1 env sc \<Longrightarrow> consistent_v1beta1 env (lr_cache (locked env c sc))"
  using locked_context [OF assms(2-4)] assms(1)
    change_consistent [OF _ locked_change(1) [of env sc c]] change_consistent [OF _ locked_change(2) [of env sc c]]
    change_consistent [OF _ locked_change(3) [of env sc c]]
  by (simp_all add: consistent_defs same_context_def env_wf_def)

lemma env_wf_refl: "env_wf env \<Longrightarrow> reflp (eqEndpoints env)" "env_wf env \<Longrightarrow> reflp (eqSliceV1 env)" "env_wf env \<Longrightarrow> reflp (eqSliceV1Beta1 env)"
  by (simp_all add: env_wf_def equivp_reflp_symp_transp)

lemma rebuild_parts:
  assumes "env_wf env"
  shows "consistent_v1 env (fst (resync_v1 env sc))" "consistent_v1beta1 env (fst (resync_v1beta1 env sc))"
    "consistent_endpoints env (fst (resync_endpoints env sc))"
  using env_wf_refl [OF assms] by (simp_all add: consistent_defs rebuild_defs rebuild_consistent)

lemma rebuild_frame [simp]:
  "consistent_endpoints env (fst (resync_v1 env sc)) = consistent_endpoints env sc"
  "consistent_v1beta1 env (fst (resync_v1 env sc)) = consistent_v1beta1 env sc"
  "consistent_endpoints env (fst (resync_v1beta1 env sc)) = consistent_endpoints env sc"
  "consistent_v1 env (fst (resync_v1beta1 env sc)) = consistent_v1 env sc"
  "consistent_v1 env (fst (resync_endpoints env sc)) = consistent_v1 env sc"
  "consistent_v1beta1 env (fst (resync_endpoints env sc)) = consistent_v1beta1 env sc"
  by (simp_all add: consistent_defs rebuild_defs)

lemma resync_parts_wf:
  assumes "cache_wf sc"
  shows "cache_wf (fst (resync_v1 env sc))" "cache_wf (fst (resync_v1beta1 env sc))" "cache_wf (fst (resync_endpoints env sc))"
  using assms by (simp_all add: cache_wf_def nodes_wf_def rebuild_defs endpoints_table.rebuild_wf slice_v1_table.rebuild_wf
      slice_v1beta1_table.rebuild_wf)

subsection \<open>Interleavings\<close>

definition pending :: "action set \<Rightarrow> action list list \<Rightarrow> bool" where
  "pending A ts \<longleftrightarrow> (\<exists>t \<in> set ts. A \<inter> set t \<noteq> {})"

lemma pending_append: "pending A (ts @ us) \<longleftrightarrow> pending A ts \<or> pending A us"
  by (auto simp: pending_def)

text \<open>A step of one goroutine keeps what is pending, unless it was the action itself.\<close>

lemma pending_update:
  assumes "i < length ts" "ts ! i = a # as" "pending A ts" "a \<notin> A \<or> A \<inter> set acts \<noteq> {}"
  shows "pending A (ts[i := acts @ as])"
proof (cases "\<exists>t \<in> set (ts[i := acts @ as]). A \<inter> set t \<noteq> {}")
  case False
  have new: "acts @ as \<in> set (ts[i := acts @ as])" using assms(1) by (simp add: set_update_memI)
  obtain j where j: "j < length ts" "A \<inter> set (ts ! j) \<noteq> {}"
    using assms(3) unfolding pending_def by (metis in_set_conv_nth)
  show ?thesis
  proof (cases "j = i")
    case True
    with j assms(2,4) have "A \<inter> set (acts @ as) \<noteq> {}" by auto
    with new False show ?thesis by blast
  next
    case neq: False
    with j have "ts ! j \<in> set (ts[i := acts @ as])" by (metis length_list_update nth_list_update_neq nth_mem)
    with j False show ?thesis by blast
  qed
qed (simp add: pending_def)

lemma pending_new:
  "i < length ts \<Longrightarrow> A \<inter> set acts \<noteq> {} \<Longrightarrow> pending A (ts[i := acts @ as])"
  unfolding pending_def by (rule bexI [of _ "acts @ as"]) (auto simp: set_update_memI)

definition cache_inv :: "storage_env \<Rightarrow> cache_config \<Rightarrow> bool" where
  "cache_inv env cf \<longleftrightarrow> cache_wf (cf_cache cf) \<and>
     (consistent_endpoints env (cf_cache cf) \<or> pending {CheckEndpoints, LockEndpoints} (cf_threads cf)) \<and>
     (consistent_v1 env (cf_cache cf) \<or> pending {CheckV1, LockV1} (cf_threads cf)) \<and>
     (consistent_v1beta1 env (cf_cache cf) \<or> pending {CheckV1Beta1, LockV1Beta1} (cf_threads cf))"

text \<open>
  What one action does to the consistency of a table, given the two actions that repair it: it keeps
  it, makes it, or leaves an action behind that will.
\<close>

definition repairs :: "(storageCache \<Rightarrow> bool) \<Rightarrow> action set \<Rightarrow> storageCache \<Rightarrow> action \<Rightarrow> storageCache \<times> bcast list \<times> action list \<Rightarrow> bool" where
  "repairs ok A sc a r \<longleftrightarrow> ok (fst r) \<or> A \<inter> set (snd (snd r)) \<noteq> {} \<or> (\<not> ok sc \<and> a \<notin> A)"

lemma repairs_step:
  assumes "repairs ok A sc a (sc', evts, acts)" "ok sc \<or> pending A ts" "i < length ts" "ts ! i = a # as"
  shows "ok sc' \<or> pending A (ts[i := acts @ as])"
  using assms pending_update [OF assms(3,4)] pending_new [OF assms(3)] unfolding repairs_def by fastforce

lemma execute_repairs:
  assumes "env_wf env" "cache_wf sc" "a \<noteq> Enter ClearLocalNodeInfo"
  shows "repairs (consistent_endpoints env) {CheckEndpoints, LockEndpoints} sc a (execute env a sc)"
    and "repairs (consistent_v1 env) {CheckV1, LockV1} sc a (execute env a sc)"
    and "repairs (consistent_v1beta1 env) {CheckV1Beta1, LockV1Beta1} sc a (execute env a sc)"
proof -
  have empty: "endpointsMap sc = [] \<Longrightarrow> consistent_endpoints env sc" "endpointSliceV1Map sc = [] \<Longrightarrow> consistent_v1 env sc"
    "endpointSliceV1Beta1Map sc = [] \<Longrightarrow> consistent_v1beta1 env sc"
    by (simp_all add: consistent_defs table_consistent_def)
  have enter: "\<not> lr_resync (locked env c sc) \<Longrightarrow> c \<noteq> ClearLocalNodeInfo \<Longrightarrow>
    (consistent_endpoints env sc \<longrightarrow> consistent_endpoints env (lr_cache (locked env c sc))) \<and>
    (consistent_v1 env sc \<longrightarrow> consistent_v1 env (lr_cache (locked env c sc))) \<and>
    (consistent_v1beta1 env sc \<longrightarrow> consistent_v1beta1 env (lr_cache (locked env c sc)))" for c
    using locked_consistent [OF assms(1,2)] by blast
  show "repairs (consistent_endpoints env) {CheckEndpoints, LockEndpoints} sc a (execute env a sc)"
    using assms(3) rebuild_parts [OF assms(1)] empty enter
    by (cases a) (auto simp: repairs_def Let_def case_prod_unfold)
  show "repairs (consistent_v1 env) {CheckV1, LockV1} sc a (execute env a sc)"
    using assms(3) rebuild_parts [OF assms(1)] empty enter
    by (cases a) (auto simp: repairs_def Let_def case_prod_unfold)
  show "repairs (consistent_v1beta1 env) {CheckV1Beta1, LockV1Beta1} sc a (execute env a sc)"
    using assms(3) rebuild_parts [OF assms(1)] empty enter
    by (cases a) (auto simp: repairs_def Let_def case_prod_unfold GetEndpointSliceV1Beta1_def)
qed

lemma execute_wf: "cache_wf sc \<Longrightarrow> cache_wf (fst (execute env a sc))"
  by (cases a) (simp_all add: Let_def case_prod_unfold locked_wf resync_parts_wf)

definition no_clear :: "action list list \<Rightarrow> bool" where
  "no_clear ts \<longleftrightarrow> (\<forall>t \<in> set ts. Enter ClearLocalNodeInfo \<notin> set t)"

lemma execute_no_clear: "Enter c \<notin> set (snd (snd (execute env a sc)))"
  by (cases a) (auto simp: Let_def case_prod_unfold)

lemma cache_step_inv:
  assumes "cache_step env (\<lambda>c. c \<noteq> ClearLocalNodeInfo) cf cf'" "env_wf env" "cache_inv env cf" "no_clear (cf_threads cf)"
  shows "cache_inv env cf' \<and> no_clear (cf_threads cf')"
  using assms(1)
proof cases
  case (spawn c)
  then show ?thesis using assms(3,4) by (auto simp: cache_inv_def pending_append no_clear_def)
next
  case (run i a as sc' evts acts)
  have a: "a \<noteq> Enter ClearLocalNodeInfo" using assms(4) run(2,3) by (metis no_clear_def list.set_intros(1) nth_mem)
  have wf: "cache_wf (cf_cache cf)" using assms(3) by (simp add: cache_inv_def)
  note reps = execute_repairs [OF assms(2) wf a, unfolded run(4)]
  have "cache_inv env cf'"
    using assms(3) execute_wf [OF wf, of env a]
      repairs_step [OF reps(1) _ run(2,3)] repairs_step [OF reps(2) _ run(2,3)] repairs_step [OF reps(3) _ run(2,3)]
    by (simp add: cache_inv_def run(1,4))
  moreover have "no_clear (cf_threads cf')"
    using assms(4) run execute_no_clear [of ClearLocalNodeInfo env a "cf_cache cf"]
    by (auto simp: no_clear_def dest!: set_update_subset_insert [THEN subsetD]) (metis list.set_intros(2) nth_mem)
  ultimately show ?thesis by blast
qed

subsection \<open>What the informers delivered\<close>

text \<open>
  The history of a run: the calls whose critical section has been entered, in that order. An informer calls a handler for
  one event after the other, so this is the order of its events.
\<close>

fun entered :: "action \<Rightarrow> cache_call list" where
  "entered (Enter c) = [c]"
| "entered _ = []"

inductive cache_run :: "storage_env \<Rightarrow> (cache_call \<Rightarrow> bool) \<Rightarrow> cache_config \<Rightarrow> cache_call list \<Rightarrow> cache_config \<Rightarrow> bool"
  for env ok cf0 where
  run_start: "cache_run env ok cf0 [] cf0"
| run_spawn: "cache_run env ok cf0 hist cf \<Longrightarrow> ok c \<Longrightarrow>
     cache_run env ok cf0 hist (cf\<lparr>cf_threads := cf_threads cf @ [[Enter c]]\<rparr>)"
| run_execute: "cache_run env ok cf0 hist cf \<Longrightarrow> i < length (cf_threads cf) \<Longrightarrow> cf_threads cf ! i = a # as \<Longrightarrow>
     execute env a (cf_cache cf) = (sc', evts, acts) \<Longrightarrow>
     cache_run env ok cf0 (hist @ entered a) \<lparr>cf_cache = sc', cf_log = cf_log cf @ evts, cf_threads = (cf_threads cf)[i := acts @ as]\<rparr>"

lemma cache_run_steps: "cache_run env ok cf0 hist cf \<Longrightarrow> cache_steps env ok cf0 cf"
  by (induction rule: cache_run.induct) (auto intro: rtranclp.rtrancl_into_rtrancl cache_step.intros)

text \<open>
  The events of one kind of object, and what an observer of them holds. The informer hands an update out together with the
  object it handed out before it (\<open>orderly\<close>).
\<close>

datatype 'e delivery = DAdd 'e | DUpdate 'e 'e | DDelete 'e

fun deliver_object :: "('e \<Rightarrow> 'k) \<Rightarrow> ('k \<Rightarrow> 'e option) \<Rightarrow> 'e delivery \<Rightarrow> 'k \<Rightarrow> 'e option" where
  "deliver_object key view (DAdd e) = view(key e := Some e)"
| "deliver_object key view (DUpdate _ e) = view(key e := Some e)"
| "deliver_object key view (DDelete e) = view(key e := None)"

definition last_delivered :: "('e \<Rightarrow> 'k) \<Rightarrow> 'e delivery list \<Rightarrow> 'k \<Rightarrow> 'e option" where
  "last_delivered key ds = foldl (deliver_object key) Map.empty ds"

fun orderly_next :: "('e \<Rightarrow> 'k) \<Rightarrow> ('k \<Rightarrow> 'e option) \<Rightarrow> 'e delivery \<Rightarrow> bool" where
  "orderly_next key view (DUpdate old new) \<longleftrightarrow> view (key new) = Some old"
| "orderly_next key view _ \<longleftrightarrow> True"

fun orderly :: "('e \<Rightarrow> 'k) \<Rightarrow> ('k \<Rightarrow> 'e option) \<Rightarrow> 'e delivery list \<Rightarrow> bool" where
  "orderly key view [] \<longleftrightarrow> True"
| "orderly key view (d # ds) \<longleftrightarrow> orderly_next key view d \<and> orderly key (deliver_object key view d) ds"

lemma last_delivered_append [simp]: "last_delivered key (ds @ es) = foldl (deliver_object key) (last_delivered key ds) es"
  by (simp add: last_delivered_def)

lemma orderly_append [simp]:
  "orderly key view (ds @ es) \<longleftrightarrow> orderly key view ds \<and> orderly key (foldl (deliver_object key) view ds) es"
  by (induction ds arbitrary: view) auto

text \<open>The calls as events of the three kinds; a call with an object of another type, such as a tombstone, is none.\<close>

fun endpoints_delivery :: "cache_call \<Rightarrow> Endpoints delivery option" where
  "endpoints_delivery (OnAdd EndpointsH (IEndpoints e)) = Some (DAdd e)"
| "endpoints_delivery (OnUpdate EndpointsH (IEndpoints old) (IEndpoints new)) = Some (DUpdate old new)"
| "endpoints_delivery (OnDelete EndpointsH (IEndpoints e)) = Some (DDelete e)"
| "endpoints_delivery _ = None"

fun slice_v1_delivery :: "cache_call \<Rightarrow> EndpointSliceV1 delivery option" where
  "slice_v1_delivery (OnAdd SliceV1H (ISliceV1 e)) = Some (DAdd e)"
| "slice_v1_delivery (OnUpdate SliceV1H (ISliceV1 old) (ISliceV1 new)) = Some (DUpdate old new)"
| "slice_v1_delivery (OnDelete SliceV1H (ISliceV1 e)) = Some (DDelete e)"
| "slice_v1_delivery _ = None"

fun slice_v1beta1_delivery :: "cache_call \<Rightarrow> EndpointSliceV1Beta1 delivery option" where
  "slice_v1beta1_delivery (OnAdd SliceV1Beta1H (ISliceV1Beta1 e)) = Some (DAdd e)"
| "slice_v1beta1_delivery (OnUpdate SliceV1Beta1H (ISliceV1Beta1 old) (ISliceV1Beta1 new)) = Some (DUpdate old new)"
| "slice_v1beta1_delivery (OnDelete SliceV1Beta1H (ISliceV1Beta1 e)) = Some (DDelete e)"
| "slice_v1beta1_delivery _ = None"

fun of_kind :: "handler \<Rightarrow> informer_object \<Rightarrow> bool" where
  "of_kind EndpointsH obj = (case obj of IEndpoints _ \<Rightarrow> True | _ \<Rightarrow> False)"
| "of_kind SliceV1H obj = (case obj of ISliceV1 _ \<Rightarrow> True | _ \<Rightarrow> False)"
| "of_kind SliceV1Beta1H obj = (case obj of ISliceV1Beta1 _ \<Rightarrow> True | _ \<Rightarrow> False)"
| "of_kind _ obj = True"

fun typed_call :: "cache_call \<Rightarrow> bool" where
  "typed_call (OnAdd h obj) = of_kind h obj"
| "typed_call (OnUpdate h old new) = (of_kind h old \<and> of_kind h new)"
| "typed_call (OnDelete h obj) = of_kind h obj"
| "typed_call _ = True"

text \<open>What the informers of a history promise.\<close>

definition informed :: "cache_call list \<Rightarrow> bool" where
  "informed hist \<longleftrightarrow> list_all typed_call hist \<and>
     orderly endpoints_key Map.empty (List.map_filter endpoints_delivery hist) \<and>
     orderly slice_v1_key Map.empty (List.map_filter slice_v1_delivery hist) \<and>
     orderly slice_v1beta1_key Map.empty (List.map_filter slice_v1beta1_delivery hist)"

text \<open>
  A table that follows what was delivered: it has the same keys, the original of each is the delivered object up to
  \<open>same\<close>, and the listed one is its pruned version.
\<close>

definition tracks :: "('e \<Rightarrow> 'e \<Rightarrow> bool) \<Rightarrow> ('k \<Rightarrow> 'e option) \<Rightarrow> ('k, 'e) table \<Rightarrow> bool" where
  "tracks same view tab \<longleftrightarrow> (\<forall>k. rel_option (\<lambda>e c. same e (ct_original c)) (view k) (map_of tab k))"

definition table_follows ::
    "('e \<Rightarrow> 'e \<Rightarrow> bool) \<Rightarrow> ('e \<Rightarrow> 'e) \<Rightarrow> ('e \<Rightarrow> 'e \<Rightarrow> bool) \<Rightarrow> ('k \<Rightarrow> 'e option) \<Rightarrow> ('k, 'e) table \<Rightarrow> bool" where
  "table_follows same prune eq view tab \<longleftrightarrow>
     (\<forall>k. rel_option (\<lambda>e c. same e (ct_original c) \<and> eq (prune (ct_original c)) (ct_modified c)) (view k) (map_of tab k))"

lemma table_follows_iff: "tracks same view tab \<Longrightarrow> table_consistent prune eq tab \<Longrightarrow> table_follows same prune eq view tab"
  unfolding table_follows_def tracks_def table_consistent_def by (fastforce simp: option_rel_Some2 intro: option.rel_mono_strong)

definition same_subsets :: "storage_env \<Rightarrow> Endpoints \<Rightarrow> Endpoints \<Rightarrow> bool" where
  "same_subsets env e e' = eqSubsets env (ep_Subsets e) (ep_Subsets e')"

lemma tracks_add: "same e e \<Longrightarrow> tracks same view tab \<Longrightarrow> tracks same (view(key e := Some e)) (fst (table_add prune (key e) e tab))"
  by (auto simp: tracks_def table_add_def Let_def gomap)

lemma tracks_update:
  assumes "same new new" "tracks same view tab" "view (key new) \<noteq> None"
  shows "tracks same (view(key new := Some new)) (fst (table_update prune eq (key new) new tab))"
proof -
  obtain c where "map_of tab (key new) = Some c"
    using assms(2,3) unfolding tracks_def by (metis option_rel_Some1 not_None_eq)
  then show ?thesis using assms(1,2) by (auto simp: tracks_def table_update_def Let_def gomap)
qed

lemma tracks_delete:
  assumes "tracks same view tab"
  shows "tracks same (view(key e := None)) (fst (table_delete (key e) tab))"
proof (cases "map_of tab (key e)")
  case None
  then have "view (key e) = None" using assms unfolding tracks_def by (metis option.rel_distinct(2) not_None_eq)
  with None assms show ?thesis by (simp add: table_delete_def gomap fun_upd_idem)
qed (use assms in \<open>auto simp: tracks_def table_delete_def gomap\<close>)

lemma tracks_skip:
  assumes "equivp same" "tracks same view tab" "view (key new) = Some old" "same old new"
  shows "tracks same (view(key new := Some new)) tab"
proof -
  have "rel_option (\<lambda>e c. same e (ct_original c)) (Some old) (map_of tab (key new))" using assms(2,3) unfolding tracks_def by metis
  then have "rel_option (\<lambda>e c. same e (ct_original c)) (Some new) (map_of tab (key new))"
    using equivp_transp [OF assms(1) equivp_symp [OF assms(1,4)]] by (auto simp: option_rel_Some1)
  then show ?thesis using assms(2) by (simp add: tracks_def)
qed

lemma tracks_rebuild: "tracks same view tab \<Longrightarrow> tracks same view (fst (rebuild_table prune eq tab))"
  unfolding tracks_def by (auto simp: rebuild_lookup option.rel_map elim!: option.rel_mono_strong)

text \<open>The part under the lock follows the event that the call brings.\<close>

definition cache_tracks :: "storage_env \<Rightarrow> cache_call list \<Rightarrow> storageCache \<Rightarrow> bool" where
  "cache_tracks env hist sc \<longleftrightarrow>
     tracks (same_subsets env) (last_delivered endpoints_key (List.map_filter endpoints_delivery hist)) (endpointsMap sc) \<and>
     tracks (=) (last_delivered slice_v1_key (List.map_filter slice_v1_delivery hist)) (endpointSliceV1Map sc) \<and>
     tracks (=) (last_delivered slice_v1beta1_key (List.map_filter slice_v1beta1_delivery hist)) (endpointSliceV1Beta1Map sc)"

lemmas tracks_ops =
  tracks_add [where key = endpoints_key] tracks_add [where key = slice_v1_key] tracks_add [where key = slice_v1beta1_key]
  tracks_update [where key = endpoints_key] tracks_update [where key = slice_v1_key] tracks_update [where key = slice_v1beta1_key]
  tracks_delete [where key = endpoints_key] tracks_delete [where key = slice_v1_key] tracks_delete [where key = slice_v1beta1_key]

lemma locked_tracks:
  assumes "equivp (eqSubsets env)" "cache_tracks env hist sc" "informed (hist @ [c])"
  shows "cache_tracks env (hist @ [c]) (lr_cache (locked env c sc))"
proof -
  have eqv: "equivp (same_subsets env)"
    using assms(1) unfolding equivp_reflp_symp_transp reflp_def symp_def transp_def same_subsets_def by metis
  note same = equivp_reflp [OF eqv] tracks_skip [OF eqv, where key = endpoints_key]
  note facts = cache_tracks_def informed_def List.map_filter_simps last_delivered_def handler_defs table_handler_defs Let_def same_subsets_def
  show ?thesis
  proof (cases c)
    case (OnAdd h obj)
    then show ?thesis using assms(2,3) same(1) by (cases h; cases obj) (simp_all add: facts tracks_ops)
  next
    case (OnUpdate h old new)
    then show ?thesis using assms(2,3) same by (cases h; cases old; cases new) (auto simp: facts tracks_ops split: option.split)
  next
    case (OnDelete h obj)
    then show ?thesis using assms(2,3) by (cases h; cases obj) (auto simp: facts tracks_ops split: option.split)
  qed (use assms(2) in \<open>simp_all add: facts\<close>)
qed

lemma execute_tracks:
  assumes "equivp (eqSubsets env)" "cache_tracks env hist sc" "informed (hist @ entered a)"
  shows "cache_tracks env (hist @ entered a) (fst (execute env a sc))"
proof (cases a)
  case (Enter c)
  then show ?thesis using locked_tracks [OF assms(1,2), of c] assms(3) by (simp add: Let_def)
qed (use assms(2) in \<open>auto simp: cache_tracks_def rebuild_defs intro: tracks_rebuild\<close>)

lemma informed_append: "informed (hist @ cs) \<Longrightarrow> informed hist"
  by (simp add: informed_def)

lemma cache_run_tracks:
  assumes "cache_run env ok cf0 hist cf" "equivp (eqSubsets env)" "cache_tracks env [] (cf_cache cf0)"
  shows "informed hist \<Longrightarrow> cache_tracks env hist (cf_cache cf)"
  using assms(1)
proof (induction rule: cache_run.induct)
  case (run_execute hist cf i a as sc' evts acts)
  then show ?case using execute_tracks [OF assms(2), of hist "cf_cache cf" a] by (auto dest: informed_append)
qed (use assms(3) in simp_all)

section \<open>Properties\<close>

lemma cache_steps_inv:
  assumes "cache_steps env (\<lambda>c. c \<noteq> ClearLocalNodeInfo) cf cf'" "env_wf env" "cache_inv env cf" "no_clear (cf_threads cf)"
  shows "cache_inv env cf' \<and> no_clear (cf_threads cf')"
  using assms by (induction rule: rtranclp_induct) (auto dest: cache_step_inv)

lemma start_inv: "cache_inv env (start (NewStorageCache h w e s)) \<and> no_clear (cf_threads (start (NewStorageCache h w e s)))"
  by (simp add: cache_inv_def start_def cache_wf_New [unfolded NewStorageCache_def] no_clear_def consistent_defs NewStorageCache_def table_consistent_def)

text \<open>
  C3: however the goroutines of the handlers interleave, whenever no handler is running the three tables follow what the
  informers delivered. They have exactly the keys of the objects that were delivered and not deleted since; the object that a
  list returns under such a key is the pruned version, for the nodes, services and health reports of that moment, of the
  object of that key that was delivered last, or, for the endpoints, of one with the same subsets, since an update that
  changes only other fields is dropped. The calls are the methods of the handlers and SetLocalNodeInfo. The informers hand
  out an update together with the object they handed out before it, and no tombstones (which the handlers ignore).
\<close>

theorem cache_consistent_when_quiescent:
  assumes "env_wf env" "equivp (eqSubsets env)"
    and "cache_run env (\<lambda>c. c \<noteq> ClearLocalNodeInfo) (start (NewStorageCache h w e s)) hist cf" "informed hist" "quiescent cf"
  shows "table_follows (same_subsets env) (prune_endpoints env (cf_cache cf)) (eqEndpoints env)
      (last_delivered endpoints_key (List.map_filter endpoints_delivery hist)) (endpointsMap (cf_cache cf)) \<and>
    table_follows (=) (prune_slice_v1 env (cf_cache cf)) (eqSliceV1 env)
      (last_delivered slice_v1_key (List.map_filter slice_v1_delivery hist)) (endpointSliceV1Map (cf_cache cf)) \<and>
    table_follows (=) (prune_slice_v1beta1 env (cf_cache cf)) (eqSliceV1Beta1 env)
      (last_delivered slice_v1beta1_key (List.map_filter slice_v1beta1_delivery hist)) (endpointSliceV1Beta1Map (cf_cache cf))"
proof -
  have idle: "\<not> pending A (cf_threads cf)" for A using assms(5) by (auto simp: pending_def quiescent_def)
  have "consistent_endpoints env (cf_cache cf) \<and> consistent_v1 env (cf_cache cf) \<and> consistent_v1beta1 env (cf_cache cf)"
    using cache_steps_inv [OF cache_run_steps [OF assms(3)] assms(1)] start_inv idle by (auto simp: cache_inv_def)
  moreover have "cache_tracks env [] (cf_cache (start (NewStorageCache h w e s)))"
    by (simp add: cache_tracks_def tracks_def last_delivered_def start_def NewStorageCache_def List.map_filter_simps)
  then have "cache_tracks env hist (cf_cache cf)" by (rule cache_run_tracks [OF assms(3,2) _ assms(4)])
  ultimately show ?thesis by (simp add: cache_tracks_def consistent_defs table_follows_iff)
qed

definition grid_env :: storage_env where
  "grid_env = \<lparr>env_ParseIP = (\<lambda>_. None), env_Unmarshal = (\<lambda>s. Inr (Some [s])), eqEndpoints = (=), eqSubsets = (=),
     eqSliceV1 = (=), eqSliceV1Beta1 = (=)\<rparr>"

definition sample_node :: "string \<Rightarrow> string \<Rightarrow> object_meta" where
  "sample_node name zone = sample_meta '''' name (Some [(''zone'', zone)])"

definition sample_service :: object_meta where
  "sample_service = (sample_meta ''ns'' ''svc'' None)\<lparr>om_Annotations := Some [(TopologyAnnotationsKey, ''zone'')]\<rparr>"

definition sample_beta :: EndpointSliceV1Beta1 where
  "sample_beta = \<lparr>sb_meta = sample_meta ''ns'' ''svc-x'' None,
     sb_Endpoints = map (\<lambda>n. \<lparr>eb_Addresses = [], eb_Hostname = None, eb_TargetRef = None, eb_Topology = Some [(''kubernetes.io/hostname'', n)]\<rparr>)
       [''n1'', ''n3''], sb_Ports = []\<rparr>"

lemma grid_env_wf: "env_wf grid_env"
  by (simp add: env_wf_def grid_env_def identity_equivp)

text \<open>A schedule: which goroutine moves next.\<close>

fun run_schedule :: "storage_env \<Rightarrow> nat list \<Rightarrow> cache_config \<Rightarrow> cache_config" where
  "run_schedule env [] cf = cf"
| "run_schedule env (i # is) cf =
     (if i < length (cf_threads cf) then
        (case cf_threads cf ! i of
           [] \<Rightarrow> run_schedule env is cf
         | a # as \<Rightarrow> (case execute env a (cf_cache cf) of (sc', evts, acts) \<Rightarrow>
             run_schedule env is \<lparr>cf_cache = sc', cf_log = cf_log cf @ evts, cf_threads = (cf_threads cf)[i := acts @ as]\<rparr>))
      else run_schedule env is cf)"

lemma run_schedule_steps: "cache_steps env ok cf (run_schedule env is cf)"
proof (induction "is" arbitrary: cf)
  case (Cons i "is")
  show ?case
  proof (cases "i < length (cf_threads cf) \<and> cf_threads cf ! i \<noteq> []")
    case True
    then obtain a as where as: "cf_threads cf ! i = a # as" by (meson neq_Nil_conv)
    obtain sc' evts acts where ex: "execute env a (cf_cache cf) = (sc', evts, acts)" by (metis prod_cases3)
    have "cache_step env ok cf \<lparr>cf_cache = sc', cf_log = cf_log cf @ evts, cf_threads = (cf_threads cf)[i := acts @ as]\<rparr>"
      using True as ex by (blast intro: cache_step.run)
    with True as ex Cons show ?thesis by (simp add: converse_rtranclp_into_rtranclp)
  qed (use Cons in \<open>auto split: list.split\<close>)
qed simp

lemma spawn_steps: "\<forall>c \<in> set cs. ok c \<Longrightarrow> cache_steps env ok cf (cf\<lparr>cf_threads := cf_threads cf @ map (\<lambda>c. [Enter c]) cs\<rparr>)"
proof (induction cs arbitrary: cf)
  case (Cons c cs)
  have "cache_step env ok cf (cf\<lparr>cf_threads := cf_threads cf @ [[Enter c]]\<rparr>)" using Cons.prems by (intro cache_step.spawn) simp
  then show ?case using Cons.IH [of "cf\<lparr>cf_threads := cf_threads cf @ [[Enter c]]\<rparr>"] Cons.prems
    by (simp add: converse_rtranclp_into_rtranclp)
qed simp

lemma scheduled_steps:
  "\<forall>c \<in> set cs. ok c \<Longrightarrow>
   cache_steps env ok (start sc) (run_schedule env is \<lparr>cf_cache = sc, cf_log = [], cf_threads = map (\<lambda>c. [Enter c]) cs\<rparr>)"
  using spawn_steps [of cs ok env "start sc"] run_schedule_steps [of env ok _ "is"] by (fastforce simp: start_def elim: rtranclp_trans)

definition sample_calls :: "cache_call list" where
  "sample_calls = [OnAdd NodeH (INode (sample_node ''n1'' ''a'')), OnAdd NodeH (INode (sample_node ''n2'' ''a'')),
     OnAdd NodeH (INode (sample_node ''n3'' ''b'')), OnAdd EndpointsH (IEndpoints sample_endpoints),
     OnAdd ServiceH (IService sample_service)]"

definition sample_schedule :: "nat list" where
  "sample_schedule = [0,0,0,0, 1,1,1,1, 2,2,2,2, 3, 4,4,4,4,4,4, 3]"

definition sample_run :: cache_config where
  "sample_run = run_schedule grid_env sample_schedule
     \<lparr>cf_cache = NewStorageCache ''n1'' False False True, cf_log = [], cf_threads = map (\<lambda>c. [Enter c]) sample_calls\<rparr>"

lemma sample_run_quiescent: "list_all (\<lambda>t. t = []) (cf_threads sample_run)"
  by code_simp

text \<open>The calls that a schedule enters.\<close>

fun schedule_calls :: "storage_env \<Rightarrow> nat list \<Rightarrow> cache_config \<Rightarrow> cache_call list" where
  "schedule_calls env [] cf = []"
| "schedule_calls env (i # is) cf =
     (if i < length (cf_threads cf) then
        (case cf_threads cf ! i of
           [] \<Rightarrow> schedule_calls env is cf
         | a # as \<Rightarrow> (case execute env a (cf_cache cf) of (sc', evts, acts) \<Rightarrow>
             entered a @ schedule_calls env is \<lparr>cf_cache = sc', cf_log = cf_log cf @ evts, cf_threads = (cf_threads cf)[i := acts @ as]\<rparr>))
      else schedule_calls env is cf)"

lemma run_schedule_run:
  "cache_run env ok cf0 hist cf \<Longrightarrow> cache_run env ok cf0 (hist @ schedule_calls env is cf) (run_schedule env is cf)"
proof (induction "is" arbitrary: cf hist)
  case (Cons i "is")
  show ?case
  proof (cases "i < length (cf_threads cf) \<and> cf_threads cf ! i \<noteq> []")
    case True
    then obtain a as where as: "cf_threads cf ! i = a # as" by (meson neq_Nil_conv)
    obtain sc' evts acts where ex: "execute env a (cf_cache cf) = (sc', evts, acts)" by (metis prod_cases3)
    show ?thesis using Cons.IH [OF cache_run.run_execute [OF Cons.prems _ as ex]] True as ex by simp
  qed (use Cons in \<open>auto split: list.split\<close>)
qed simp

lemma spawn_run:
  "cache_run env ok cf0 hist cf \<Longrightarrow> list_all ok cs \<Longrightarrow>
   cache_run env ok cf0 hist (cf\<lparr>cf_threads := cf_threads cf @ map (\<lambda>c. [Enter c]) cs\<rparr>)"
proof (induction cs arbitrary: cf)
  case (Cons c cs)
  then show ?case using Cons.IH [OF cache_run.run_spawn [OF Cons.prems(1)], of c] by simp
qed simp

definition spawned :: "storageCache \<Rightarrow> cache_call list \<Rightarrow> cache_config" where
  "spawned sc cs = \<lparr>cf_cache = sc, cf_log = [], cf_threads = map (\<lambda>c. [Enter c]) cs\<rparr>"

lemma scheduled_run:
  "list_all ok cs \<Longrightarrow>
   cache_run env ok (start sc) (schedule_calls env is (spawned sc cs)) (run_schedule env is (spawned sc cs))"
  using run_schedule_run [OF spawn_run [OF cache_run.run_start [of env ok "start sc"]], of cs "is"] by (simp add: start_def spawned_def)

definition sample_narrowed :: Endpoints where
  "sample_narrowed = sample_endpoints\<lparr>ep_Subsets := map (\<lambda>s. s\<lparr>Addresses := tl (Addresses s)\<rparr>) (ep_Subsets sample_endpoints)\<rparr>"

definition sample_deliveries :: "cache_call list" where
  "sample_deliveries = sample_calls @ [OnAdd SliceV1Beta1H (ISliceV1Beta1 sample_beta),
     OnUpdate EndpointsH (IEndpoints sample_endpoints) (IEndpoints sample_narrowed)]"

definition sample_start :: cache_config where
  "sample_start = spawned (NewStorageCache ''n1'' False False True) sample_deliveries"

definition sample_order :: "nat list" where
  "sample_order = [0,0,0,0, 1,1,1,1, 2,2,2,2, 3, 5, 4, 6, 4,4,4,4,4,4,4,4, 5,5, 3,3, 6,6]"

definition sample_end :: cache_config where
  "sample_end = run_schedule grid_env sample_order sample_start"

definition sample_history :: "cache_call list" where
  "sample_history = schedule_calls grid_env sample_order sample_start"

lemma sample_end_facts:
  "list_all (\<lambda>t. t = []) (cf_threads sample_end)" "informed sample_history" "map endpoints_delivery sample_history =
     [None, None, None, Some (DAdd sample_endpoints), None, None, Some (DUpdate sample_endpoints sample_narrowed)]"
  by code_simp+

theorem cache_consistent_when_quiescent_witness:
  "last_delivered endpoints_key (List.map_filter endpoints_delivery sample_history) (''ns'', ''svc'') = Some sample_narrowed \<and>
   table_follows (same_subsets grid_env) (prune_endpoints grid_env (cf_cache sample_end)) (=)
     (last_delivered endpoints_key (List.map_filter endpoints_delivery sample_history)) (endpointsMap (cf_cache sample_end)) \<and>
   table_follows (=) (prune_slice_v1beta1 grid_env (cf_cache sample_end)) (=)
     (last_delivered slice_v1beta1_key (List.map_filter slice_v1beta1_delivery sample_history)) (endpointSliceV1Beta1Map (cf_cache sample_end))"
proof -
  have run: "cache_run grid_env (\<lambda>c. c \<noteq> ClearLocalNodeInfo) (start (NewStorageCache ''n1'' False False True)) sample_history sample_end"
    unfolding sample_end_def sample_history_def sample_start_def by (rule scheduled_run) (simp add: sample_deliveries_def sample_calls_def)
  have "quiescent sample_end" using sample_end_facts(1) by (simp add: quiescent_def list_all_iff)
  moreover have "last_delivered endpoints_key (List.map_filter endpoints_delivery sample_history) (''ns'', ''svc'') = Some sample_narrowed"
    by code_simp
  moreover have "equivp (eqSubsets grid_env)" by (simp add: grid_env_def identity_equivp)
  ultimately show ?thesis
    using cache_consistent_when_quiescent [OF grid_env_wf _ run sample_end_facts(2)] by (simp add: grid_env_def)
qed

text \<open>
  The broadcasts are sent after the lock is released, so they may overtake each other. There is a run in
  which, after all handlers have returned, a watcher that received every event of the endpoints
  still has the unpruned object while a list request returns the pruned one: the event of an
  added object is sent after the event of the resynchronisation that pruned it.
\<close>

theorem endpoints_watch_race:
  "\<exists>cf. cache_steps grid_env (\<lambda>c. c \<noteq> ClearLocalNodeInfo) (start (NewStorageCache ''n1'' False False True)) cf \<and> quiescent cf \<and>
     replay endpoints_key (List.map_filter to_endpoints (cf_log cf)) Map.empty (''ns'', ''svc'') = Some sample_endpoints \<and>
     map_option (\<lambda>e. map (map ea_IP \<circ> Addresses) (ep_Subsets e)) (table_view (endpointsMap (cf_cache cf)) (''ns'', ''svc'')) = Some [[''n1'', ''n2'']] \<and>
     map (map ea_IP \<circ> Addresses) (ep_Subsets sample_endpoints) = [[''n1'', ''n2'', ''n3'']]"
proof (intro exI conjI)
  show "cache_steps grid_env (\<lambda>c. c \<noteq> ClearLocalNodeInfo) (start (NewStorageCache ''n1'' False False True)) sample_run"
    unfolding sample_run_def by (rule scheduled_steps) (simp add: sample_calls_def)
  show "quiescent sample_run" using sample_run_quiescent by (simp add: quiescent_def list_all_iff)
  show "replay endpoints_key (List.map_filter to_endpoints (cf_log sample_run)) Map.empty (''ns'', ''svc'') = Some sample_endpoints" by code_simp
  show "map_option (\<lambda>e. map (map ea_IP \<circ> Addresses) (ep_Subsets e)) (table_view (endpointsMap (cf_cache sample_run)) (''ns'', ''svc'')) = Some [[''n1'', ''n2'']]"
    by code_simp
  show "map (map ea_IP \<circ> Addresses) (ep_Subsets sample_endpoints) = [[''n1'', ''n2'', ''n3'']]" by code_simp
qed

subsection \<open>Calls one after the other\<close>

lemmas events_unfolded = events_to_self [unfolded case_prod_unfold] events_to_others [unfolded case_prod_unfold]

lemma resync_views:
  assumes "cache_wf sc"
  shows "cache_wf (fst (resync env sc))"
    "table_view (endpointsMap (fst (resync env sc))) = replay endpoints_key (List.map_filter to_endpoints (snd (resync env sc))) (table_view (endpointsMap sc))"
    "table_view (endpointSliceV1Map (fst (resync env sc))) = replay slice_v1_key (List.map_filter to_slice_v1 (snd (resync env sc))) (table_view (endpointSliceV1Map sc))"
proof -
  have wf: "table_wf endpoints_key (endpointsMap sc)" "table_wf slice_v1_key (endpointSliceV1Map sc)"
    using assms by (simp_all add: cache_wf_def)
  show "cache_wf (fst (resync env sc))"
    using assms by (auto simp: resync_def Let_def case_prod_unfold resync_parts_wf)
  show "table_view (endpointsMap (fst (resync env sc))) = replay endpoints_key (List.map_filter to_endpoints (snd (resync env sc))) (table_view (endpointsMap sc))"
    using endpoints_table.rebuild_view [OF wf(1)] by (simp add: resync_def rebuild_defs List.map_filter_simps events_unfolded)
  show "table_view (endpointSliceV1Map (fst (resync env sc))) = replay slice_v1_key (List.map_filter to_slice_v1 (snd (resync env sc))) (table_view (endpointSliceV1Map sc))"
    using slice_v1_table.rebuild_view [OF wf(2)] by (simp add: resync_def rebuild_defs List.map_filter_simps events_unfolded)
qed

lemma call_views:
  assumes "cache_wf sc"
  shows "cache_wf (fst (call env c sc))"
    "table_view (endpointsMap (fst (call env c sc))) = replay endpoints_key (List.map_filter to_endpoints (snd (call env c sc))) (table_view (endpointsMap sc))"
    "table_view (endpointSliceV1Map (fst (call env c sc))) = replay slice_v1_key (List.map_filter to_slice_v1 (snd (call env c sc))) (table_view (endpointSliceV1Map sc))"
proof -
  let ?r = "locked env c sc"
  note wf = locked_wf [OF assms, of env c]
  have tables: "table_wf endpoints_key (endpointsMap sc)" "table_wf slice_v1_key (endpointSliceV1Map sc)"
    using assms by (simp_all add: cache_wf_def)
  have quiet: "lr_resync ?r \<Longrightarrow> List.map_filter to_endpoints (lr_sent ?r) = [] \<and> List.map_filter to_slice_v1 (lr_sent ?r) = [] \<and>
      List.map_filter to_endpoints (lr_after ?r) = [] \<and> List.map_filter to_slice_v1 (lr_after ?r) = []"
    by (cases c; simp split: handler.splits)
      (auto simp: handler_defs table_handler_defs Let_def List.map_filter_simps split: informer_object.splits option.splits if_splits)
  have first: "table_view (endpointsMap (lr_cache ?r)) = replay endpoints_key (List.map_filter to_endpoints (lr_sent ?r @ lr_after ?r)) (table_view (endpointsMap sc))"
      "table_view (endpointSliceV1Map (lr_cache ?r)) = replay slice_v1_key (List.map_filter to_slice_v1 (lr_sent ?r @ lr_after ?r)) (table_view (endpointSliceV1Map sc))"
    using endpoints_table.change_view [OF locked_change(1) tables(1), of env c] slice_v1_table.change_view [OF locked_change(2) tables(2), of env c]
    by simp_all
  show "cache_wf (fst (call env c sc))"
    using wf resync_views(1) [OF wf] by (simp add: call_def finish_def Let_def case_prod_unfold)
  show "table_view (endpointsMap (fst (call env c sc))) = replay endpoints_key (List.map_filter to_endpoints (snd (call env c sc))) (table_view (endpointsMap sc))"
    "table_view (endpointSliceV1Map (fst (call env c sc))) = replay slice_v1_key (List.map_filter to_slice_v1 (snd (call env c sc))) (table_view (endpointSliceV1Map sc))"
    using first quiet resync_views(2,3) [OF wf]
    by (auto simp: call_def finish_def Let_def case_prod_unfold List.map_filter_simps)
qed

lemma calls_views:
  assumes "cache_wf sc"
  shows "table_view (endpointsMap (fst (calls env cs sc))) = replay endpoints_key (List.map_filter to_endpoints (snd (calls env cs sc))) (table_view (endpointsMap sc)) \<and>
    table_view (endpointSliceV1Map (fst (calls env cs sc))) = replay slice_v1_key (List.map_filter to_slice_v1 (snd (calls env cs sc))) (table_view (endpointSliceV1Map sc))"
  using assms by (induction cs arbitrary: sc) (simp_all add: List.map_filter_simps Let_def case_prod_unfold call_views)

text \<open>
  C35: when the calls come one after the other, a watcher of the endpoints, or of the slices of version 1, that starts with
  nothing and applies every event in order holds exactly the objects that a list request returns.
\<close>

theorem watch_follows_list:
  "let (sc, log) = calls env cs (NewStorageCache h w e s) in
   replay endpoints_key (List.map_filter to_endpoints log) Map.empty = table_view (endpointsMap sc) \<and>
   replay slice_v1_key (List.map_filter to_slice_v1 log) Map.empty = table_view (endpointSliceV1Map sc)"
proof -
  have "table_view (endpointsMap (NewStorageCache h w e s)) = Map.empty" "table_view (endpointSliceV1Map (NewStorageCache h w e s)) = Map.empty"
    by (simp_all add: NewStorageCache_def table_view_def fun_eq_iff)
  with calls_views [OF cache_wf_New, of env cs h w e s] show ?thesis by (simp add: case_prod_unfold)
qed

text \<open>
  That fails for the slices of version v1beta1. A resynchronisation sends their changes to the broadcaster of version 1:
  after a node, a slice and a service with topology keys were added, one after the other, the watchers of the beta
  slices still have the endpoint on a node outside the unit, which the list no longer has.
\<close>

theorem beta_watch_misses_resync:
  "\<exists>cs. let (sc, log) = calls grid_env cs (NewStorageCache ''n1'' False False True) in
     map_option (map topology_node \<circ> sb_Endpoints) (replay slice_v1beta1_key (List.map_filter to_slice_v1beta1 log) Map.empty (''ns'', ''svc-x'')) = Some [''n1'', ''n3''] \<and>
     map_option (map topology_node \<circ> sb_Endpoints) (table_view (endpointSliceV1Beta1Map sc) (''ns'', ''svc-x'')) = Some [''n1'']"
  by (rule exI [of _ "[OnAdd NodeH (INode (sample_node ''n1'' ''a'')), OnAdd NodeH (INode (sample_node ''n3'' ''b'')),
     OnAdd SliceV1Beta1H (ISliceV1Beta1 sample_beta), OnAdd ServiceH (IService sample_service)]"]) code_simp

text \<open>
  ClearLocalNodeInfo, which runs when the health reports of the neighbourhood cannot be had, does not resynchronise: the
  endpoints on a node that was last reported as failed stay hidden, although the pruning no longer hides them.
\<close>

theorem clear_leaves_stale:
  "\<exists>cs. let (sc, log) = calls grid_env (cs @ [ClearLocalNodeInfo]) (NewStorageCache ''n1'' False True True) in
     map (map ea_IP \<circ> Addresses) (concat (map ep_Subsets (GetEndpoints sc))) = [[''n1'', ''n3'']] \<and>
     map (map ea_IP \<circ> Addresses) (ep_Subsets (prune_endpoints grid_env sc sample_endpoints)) = [[''n1'', ''n2'', ''n3'']]"
  by (rule exI [of _ "[OnAdd NodeH (INode (sample_node ''n1'' ''a'')), OnAdd NodeH (INode (sample_node ''n2'' ''a'')),
     OnAdd NodeH (INode (sample_node ''n3'' ''b'')), OnAdd ServiceH (IService (sample_meta ''ns'' ''svc'' None)),
     OnAdd EndpointsH (IEndpoints sample_endpoints), SetLocalNodeInfo (Some [(''n2'', \<lparr>Normal = False, rd_Hmac = '''', Time = 0\<rparr>)])]"]) code_simp

end
