(* ===== verification/GridServer.thy ===== *)
theory GridServer
  imports GridRuns
begin

text \<open>
  The HTTP server of the application-grid-wrapper (\<open>src/pkg/application-grid-wrapper/server\<close>): the
  chain of interceptors that answers list and watch requests from the cache and hands every
  other request to the API server, the filter for the requests of an ingress controller, the
  informers of the local k3s cluster, and the poll of the health reports.

  A handler is a function from a request to its response, with the next handler as an
  argument. The events that are delivered to a watch and the alternatives that its \<open>select\<close> statement
  takes, in the order in which they happen, are the list \<open>he_Inputs\<close>; a stream is the list of events that are
  encoded. The
  serializers, \<open>goautoneg.ParseAccept\<close>, \<open>time.ParseDuration\<close>, the outcome of an encoder and the node index
  are arguments.
\<close>

section \<open>Requests and responses\<close>

text \<open>\<open>rq_Ingress\<close> is the list of values of the header superedge-ingress.\<close>

record request =
  rq_Method :: string
  rq_Path :: string
  rq_Watch :: string
  rq_TimeoutSeconds :: string
  rq_Accept :: string
  rq_Ingress :: "string list"

definition header_Get :: "string list \<Rightarrow> string" where
  "header_Get vs = (case vs of [] \<Rightarrow> '''' | v # _ \<Rightarrow> v)"

record SerializerInfo =
  MediaType :: string
  MediaTypeType :: string
  MediaTypeSubType :: string

datatype payload =
  PNode object_meta | PServices "object_meta list" | PEndpoints "Endpoints list"
  | PSlicesV1 "EndpointSliceV1 list" | PSlicesV1Beta1 "EndpointSliceV1Beta1 list"

type_synonym watch_event = "event_type \<times> watch_object"

text \<open>
  What happens to a watch: the broadcaster delivers an event to its queue, and the \<open>select\<close> statement
  takes one of its alternatives. \<open>NodeEvent\<close> carries the node and the endpoints in the cache when it is taken.
\<close>

datatype watch_input = Deliver watch_event | CtxDone | TimerFired | Take | NodeEvent object_meta "Endpoints list"

datatype response =
  Status int
  | Body string payload
  | Stream string int "watch_event list"
  | Upstream request
  | EventProxy request
  | Pprof

record http_env =
  he_ParseAccept :: "string \<Rightarrow> (string \<times> string) list"
  he_ParseDuration :: "string \<Rightarrow> int"
  he_Flusher :: bool
  he_Encode :: "payload \<Rightarrow> go_error option"
  he_EncodeEvent :: "watch_event \<Rightarrow> go_error option"
  he_Inputs :: "watch_input list"
  he_ByIndex :: "string \<Rightarrow> go_error + object_meta list"

text \<open>An informer that was not started is nil, \<open>None\<close>; else it is the content of its store.\<close>

record interceptorServer =
  is_cache :: storageCache
  is_mediaSerializer :: "SerializerInfo list"
  is_k3sServices :: "object_meta list option"
  is_k3sSlicesV1 :: "EndpointSliceV1 list option"
  is_k3sSlicesV1Beta1 :: "EndpointSliceV1Beta1 list option"

definition NewInterceptorServer :: "string \<Rightarrow> bool \<Rightarrow> bool \<Rightarrow> bool \<Rightarrow> SerializerInfo list \<Rightarrow> interceptorServer" where
  "NewInterceptorServer host inCluster enhancement slices SupportedMediaTypes =
     \<lparr>is_cache = NewStorageCache host inCluster enhancement slices, is_mediaSerializer = SupportedMediaTypes,
      is_k3sServices = None, is_k3sSlicesV1 = None, is_k3sSlicesV1Beta1 = None\<rparr>"

section \<open>mime.go\<close>

definition clause_accepts :: "string \<times> string \<Rightarrow> SerializerInfo \<Rightarrow> bool" where
  "clause_accepts clause accepts \<longleftrightarrow>
     (fst clause = MediaTypeType accepts \<and> snd clause = MediaTypeSubType accepts) \<or>
     (fst clause = MediaTypeType accepts \<and> snd clause = ''*'') \<or> (fst clause = ''*'' \<and> snd clause = ''*'')"

fun first_accepted :: "(string \<times> string) list \<Rightarrow> SerializerInfo list \<Rightarrow> SerializerInfo option" where
  "first_accepted [] accepted = None"
| "first_accepted (clause # clauses) accepted =
     (case find (clause_accepts clause) accepted of Some info \<Rightarrow> Some info | None \<Rightarrow> first_accepted clauses accepted)"

definition parseAccept :: "http_env \<Rightarrow> string \<Rightarrow> SerializerInfo list \<Rightarrow> SerializerInfo option" where
  "parseAccept env header accepted =
     (if header = '''' \<and> accepted \<noteq> [] then Some (hd accepted) else first_accepted (he_ParseAccept env header) accepted)"

text \<open>The error it returns is always nil; fewer than three pieces are an index out of range.\<close>

definition getIngressPath :: "string \<Rightarrow> (string \<times> string) go" where
  "getIngressPath ingressPath =
     (let params = Split ingressPath (CHR ''/'') in
      if length params < 3 then Panic
      else Ret (params ! 2, foldl (\<lambda>path p. path @ ''/'' @ p) '''' (drop 3 params)))"

section \<open>server.go: node labels\<close>

definition NodeLabelsFunc :: "object_meta \<Rightarrow> string list" where
  "NodeLabelsFunc node = map (\<lambda>(k, v). k @ ''='' @ v) (case om_Labels node of None \<Rightarrow> [] | Some l \<Rightarrow> l)"

section \<open>handler.go\<close>

type_synonym http_handler = "request \<Rightarrow> response go"

definition logger :: "http_handler \<Rightarrow> http_handler" where
  "logger handler r = handler r"

definition debugger :: "http_handler \<Rightarrow> http_handler" where
  "debugger handler r = (if \<not> HasPrefix (rq_Path r) ''/debug/pprof'' then handler r else Ret Pprof)"

definition interceptEventRequest :: "http_handler \<Rightarrow> http_handler" where
  "interceptEventRequest handler r =
     (if rq_Method r \<noteq> ''POST'' \<or> \<not> HasSuffix (rq_Path r) ''/events'' \<or> HasPrefix (rq_Path r) ''/superedge-ingress''
      then handler r else Ret (EventProxy r))"

text \<open>The end of a list request, and of the request of one node.\<close>

definition encode :: "http_env \<Rightarrow> SerializerInfo \<Rightarrow> payload \<Rightarrow> response go" where
  "encode env info p = (case he_Encode env p of Some err \<Rightarrow> Ret (Status 500) | None \<Rightarrow> Ret (Body (MediaType info) p))"

definition interceptNodeRequest :: "http_env \<Rightarrow> interceptorServer \<Rightarrow> http_handler \<Rightarrow> http_handler" where
  "interceptNodeRequest env s handler r =
     (if rq_Method r \<noteq> ''GET'' \<or> \<not> HasPrefix (rq_Path r) ''/api/v1/nodes'' then handler r
      else let host = last (Split (rq_Path r) (CHR ''/'')) in
        case GetNode (is_cache s) host of
          None \<Rightarrow> Ret (Status 404)
        | Some node \<Rightarrow>
            (case parseAccept env (rq_Accept r) (is_mediaSerializer s) of
               None \<Rightarrow> Ret (Status 400)
             | Some info \<Rightarrow> encode env info (PNode node)))"

text \<open>
  The loop of a watch with the queue \<open>q\<close>: it ends with the request, the timer, or an event that cannot be
  encoded. \<open>f\<close> is what the loop does to an event before it is encoded and \<open>g\<close> the events it encodes for a node event.
\<close>

fun encode_all :: "(watch_event \<Rightarrow> go_error option) \<Rightarrow> watch_event list \<Rightarrow> watch_event list \<times> bool" where
  "encode_all enc [] = ([], True)"
| "encode_all enc (e # es) =
     (case enc e of Some err \<Rightarrow> ([], False) | None \<Rightarrow> (let (sent, ok) = encode_all enc es in (e # sent, ok)))"

fun watch_loop :: "(watch_event \<Rightarrow> go_error option) \<Rightarrow> (watch_event \<Rightarrow> watch_event) \<Rightarrow>
    (object_meta \<Rightarrow> Endpoints list \<Rightarrow> watch_event list) \<Rightarrow> watch_event list \<Rightarrow> watch_input list \<Rightarrow> watch_event list" where
  "watch_loop enc f g q [] = []"
| "watch_loop enc f g q (Deliver e # is) = watch_loop enc f g (q @ [e]) is"
| "watch_loop enc f g q (CtxDone # is) = []"
| "watch_loop enc f g q (TimerFired # is) = []"
| "watch_loop enc f g q (Take # is) =
     (case q of
        [] \<Rightarrow> watch_loop enc f g q is
      | e # q' \<Rightarrow> (case enc (f e) of Some err \<Rightarrow> [] | None \<Rightarrow> f e # watch_loop enc f g q' is))"
| "watch_loop enc f g q (NodeEvent node eps # is) =
     (let (sent, ok) = encode_all enc (g node eps) in sent @ (if ok then watch_loop enc f g q is else []))"

text \<open>The three watches that only pass events on have no node events.\<close>

definition plain_watch :: "http_env \<Rightarrow> watch_event list" where
  "plain_watch env = watch_loop (he_EncodeEvent env) id (\<lambda>_ _. []) [] (he_Inputs env)"

definition watch_timeout :: "http_env \<Rightarrow> request \<Rightarrow> int" where
  "watch_timeout env r =
     (if rq_TimeoutSeconds r \<noteq> '''' then he_ParseDuration env (rq_TimeoutSeconds r @ ''s'') else 60 * 10 ^ 9)"

definition ContentTypeProtobuf :: string where "ContentTypeProtobuf = ''application/vnd.kubernetes.protobuf''"
definition ContentTypeJSON :: string where "ContentTypeJSON = ''application/json''"

definition watch_response :: "http_env \<Rightarrow> SerializerInfo \<Rightarrow> request \<Rightarrow> watch_event list \<Rightarrow> response go" where
  "watch_response env info r evts =
     (if \<not> he_Flusher env then Ret (Status 405)
      else Ret (Stream (if MediaType info = ContentTypeProtobuf then ContentTypeProtobuf @ '';stream=watch'' else ContentTypeJSON)
        (watch_timeout env r) evts))"

definition k3s_name :: "object_meta \<Rightarrow> object_meta" where
  "k3s_name m = m\<lparr>om_Name := ''k3s-'' @ om_Name m\<rparr>"

definition interceptServiceRequest :: "http_env \<Rightarrow> interceptorServer \<Rightarrow> http_handler \<Rightarrow> http_handler" where
  "interceptServiceRequest env s handler r =
     (if rq_Method r \<noteq> ''GET'' \<or> \<not> HasPrefix (rq_Path r) ''/api/v1/services'' then handler r
      else case parseAccept env (rq_Accept r) (is_mediaSerializer s) of
        None \<Rightarrow> Ret (Status 400)
      | Some info \<Rightarrow>
          if rq_Watch r = '''' then
            (let svcItems = GetServices (is_cache s);
                 k3sItems = (case is_k3sServices s of None \<Rightarrow> [] | Some svcs \<Rightarrow> map k3s_name svcs)
             in encode env info (PServices (svcItems @ k3sItems)))
          else watch_response env info r (plain_watch env))"

definition interceptEndpointsRequest :: "http_env \<Rightarrow> interceptorServer \<Rightarrow> http_handler \<Rightarrow> http_handler" where
  "interceptEndpointsRequest env s handler r =
     (if rq_Method r \<noteq> ''GET'' \<or> \<not> HasPrefix (rq_Path r) ''/api/v1/endpoints'' then handler r
      else case parseAccept env (rq_Accept r) (is_mediaSerializer s) of
        None \<Rightarrow> Ret (Status 400)
      | Some info \<Rightarrow>
          if rq_Watch r = '''' then encode env info (PEndpoints (GetEndpoints (is_cache s)))
          else watch_response env info r (plain_watch env))"

definition ServiceNameLabel :: string where "ServiceNameLabel = ''kubernetes.io/service-name''"

text \<open>The copy of an object of the k3s cluster: a write to a nil label map panics.\<close>

definition k3s_slice_meta :: "object_meta \<Rightarrow> object_meta go" where
  "k3s_slice_meta m =
     (case om_Labels m of
        None \<Rightarrow> Panic
      | Some l \<Rightarrow> Ret ((k3s_name m)\<lparr>om_Labels := Some (mput ServiceNameLabel (''k3s-'' @ mget0 '''' l ServiceNameLabel) l)\<rparr>))"

definition k3s_slice_v1 :: "EndpointSliceV1 \<Rightarrow> EndpointSliceV1 go" where
  "k3s_slice_v1 e = go_bind (k3s_slice_meta (sl_meta e)) (\<lambda>m. Ret (e\<lparr>sl_meta := m\<rparr>))"

definition k3s_slice_v1beta1 :: "EndpointSliceV1Beta1 \<Rightarrow> EndpointSliceV1Beta1 go" where
  "k3s_slice_v1beta1 e = go_bind (k3s_slice_meta (sb_meta e)) (\<lambda>m. Ret (e\<lparr>sb_meta := m\<rparr>))"

fun go_map :: "('a \<Rightarrow> 'b go) \<Rightarrow> 'a list \<Rightarrow> 'b list go" where
  "go_map f [] = Ret []"
| "go_map f (x # xs) = go_bind (f x) (\<lambda>y. go_bind (go_map f xs) (\<lambda>ys. Ret (y # ys)))"

definition interceptEndpointSliceV1Request :: "http_env \<Rightarrow> interceptorServer \<Rightarrow> http_handler \<Rightarrow> http_handler" where
  "interceptEndpointSliceV1Request env s handler r =
     (if rq_Method r \<noteq> ''GET'' \<or> \<not> HasPrefix (rq_Path r) ''/apis/discovery.k8s.io/v1/endpointslices'' then handler r
      else case parseAccept env (rq_Accept r) (is_mediaSerializer s) of
        None \<Rightarrow> Ret (Status 400)
      | Some info \<Rightarrow>
          if rq_Watch r = '''' then
            go_bind (case is_k3sSlicesV1 s of None \<Rightarrow> Ret [] | Some es \<Rightarrow> go_map k3s_slice_v1 es) (\<lambda>k3sItems.
              encode env info (PSlicesV1 (GetEndpointSliceV1 (is_cache s) @ k3sItems)))
          else watch_response env info r (plain_watch env))"

definition interceptEndpointSliceV1Beta1Request :: "http_env \<Rightarrow> interceptorServer \<Rightarrow> http_handler \<Rightarrow> http_handler" where
  "interceptEndpointSliceV1Beta1Request env s handler r =
     (if rq_Method r \<noteq> ''GET'' \<or> \<not> HasPrefix (rq_Path r) ''/apis/discovery.k8s.io/v1beta1/endpointslices'' then handler r
      else case parseAccept env (rq_Accept r) (is_mediaSerializer s) of
        None \<Rightarrow> Ret (Status 400)
      | Some info \<Rightarrow>
          if rq_Watch r = '''' then
            go_bind (case is_k3sSlicesV1Beta1 s of None \<Rightarrow> Ret [] | Some es \<Rightarrow> go_map k3s_slice_v1beta1 es) (\<lambda>k3sItems.
              encode env info (PSlicesV1Beta1 (GetEndpointSliceV1Beta1 (is_cache s) @ k3sItems)))
          else watch_response env info r (plain_watch env))"

definition interceptIngressRequest :: "http_handler \<Rightarrow> http_handler" where
  "interceptIngressRequest handler r =
     (if HasPrefix (rq_Path r) ''/superedge-ingress'' then
        go_bind (getIngressPath (rq_Path r)) (\<lambda>(ingress, path).
          handler (r\<lparr>rq_Path := path, rq_Ingress := rq_Ingress r @ [ingress]\<rparr>))
      else handler r)"

definition nodeUnitSuperedge :: string where "nodeUnitSuperedge = ''nodeunits.superedge.io''"

definition filerIngressEndpoints :: "http_env \<Rightarrow> string \<Rightarrow> string \<Rightarrow> Endpoints \<Rightarrow> Endpoints" where
  "filerIngressEndpoints env key val ep =
     (case he_ByIndex env (key @ ''='' @ val) of
        Inl err \<Rightarrow> ep
      | Inr unitnodes \<Rightarrow>
          if unitnodes \<noteq> [] then
            ep\<lparr>ep_Subsets := map (\<lambda>s.
              let filterAddress = filter (\<lambda>addr. case ea_NodeName addr of
                    None \<Rightarrow> False | Some nodeName \<Rightarrow> list_ex (\<lambda>node. om_Name node = nodeName) unitnodes) (Addresses s)
              in if length filterAddress \<noteq> length (Addresses s) then s\<lparr>Addresses := filterAddress\<rparr> else s) (ep_Subsets ep)\<rparr>
          else ep)"

definition ingress_event :: "http_env \<Rightarrow> string \<Rightarrow> watch_event \<Rightarrow> watch_event" where
  "ingress_event env key evt =
     (case snd evt of OEndpoints ep \<Rightarrow> (fst evt, OEndpoints (filerIngressEndpoints env key nodeUnitSuperedge ep)) | _ \<Rightarrow> evt)"

definition endpoints_on_node :: "string \<Rightarrow> Endpoints \<Rightarrow> bool" where
  "endpoints_on_node name ep = list_ex (\<lambda>s. list_ex (\<lambda>addr. ea_NodeName addr = Some name) (Addresses s)) (ep_Subsets ep)"

definition ingress_node_events :: "http_env \<Rightarrow> string \<Rightarrow> object_meta \<Rightarrow> Endpoints list \<Rightarrow> watch_event list" where
  "ingress_node_events env key modifyNode eps =
     map (\<lambda>ep. (WModified, OEndpoints (filerIngressEndpoints env key nodeUnitSuperedge ep)))
       (filter (endpoints_on_node (om_Name modifyNode)) eps)"

definition ingress_watch :: "http_env \<Rightarrow> interceptorServer \<Rightarrow> string \<Rightarrow> watch_event list" where
  "ingress_watch env s key =
     (let cacheEvts = map (\<lambda>v. (WAdded, OEndpoints v)) (GetEndpoints (is_cache s)) in
      watch_loop (he_EncodeEvent env) (ingress_event env key) (ingress_node_events env key) cacheEvts (he_Inputs env))"

definition interceptIngressEndpointsRequest :: "http_env \<Rightarrow> interceptorServer \<Rightarrow> http_handler \<Rightarrow> http_handler" where
  "interceptIngressEndpointsRequest env s handler r =
     (if header_Get (rq_Ingress r) = '''' \<or> \<not> Contains (rq_Path r) ''/api/v1/endpoints'' then handler r
      else case parseAccept env (rq_Accept r) (is_mediaSerializer s) of
        None \<Rightarrow> Ret (Status 400)
      | Some info \<Rightarrow>
          if rq_Watch r = '''' then encode env info (PEndpoints (GetEndpoints (is_cache s)))
          else watch_response env info r (ingress_watch env s (header_Get (rq_Ingress r))))"

section \<open>server.go: the chain and the health reports\<close>

definition buildFilterChains :: "http_env \<Rightarrow> interceptorServer \<Rightarrow> bool \<Rightarrow> http_handler" where
  "buildFilterChains env s debug =
     (let handler = (\<lambda>r. Ret (Upstream r));
          handler = interceptIngressEndpointsRequest env s handler;
          handler = interceptIngressRequest handler;
          handler = interceptEndpointSliceV1Beta1Request env s handler;
          handler = interceptEndpointSliceV1Request env s handler;
          handler = interceptEndpointsRequest env s handler;
          handler = interceptServiceRequest env s handler;
          handler = interceptEventRequest handler;
          handler = interceptNodeRequest env s handler;
          handler = logger handler
      in if debug then debugger handler else handler)"

text \<open>What the poll of the neighbours met; \<open>PollResponse\<close> has the status and the decoded body.\<close>

datatype poll = PollNewRequestError go_error | PollDoError go_error | PollResponse int "go_error + node_info"

definition NodeStatusAcquisition :: "poll \<Rightarrow> cache_call" where
  "NodeStatusAcquisition p =
     (case p of
        PollNewRequestError err \<Rightarrow> ClearLocalNodeInfo
      | PollDoError err \<Rightarrow> ClearLocalNodeInfo
      | PollResponse StatusCode decoded \<Rightarrow>
          if StatusCode \<noteq> 200 then ClearLocalNodeInfo
          else (case decoded of Inl err \<Rightarrow> ClearLocalNodeInfo | Inr info \<Rightarrow> SetLocalNodeInfo info))"

section \<open>server.go: the informers of the k3s cluster\<close>

definition k3s_node_AddFunc :: "object_meta \<Rightarrow> bcast list" where
  "k3s_node_AddFunc node = [ActionOrDrop NodeB WAdded (ONode node)]"

text \<open>\<open>lister\<close> is the node of the main cluster, if there is one; the second result is the nodes that are deleted from the k3s cluster.\<close>

definition k3s_node_UpdateFunc :: "(string \<Rightarrow> object_meta option) \<Rightarrow> string \<Rightarrow> object_meta \<Rightarrow> bcast list \<times> string list" where
  "k3s_node_UpdateFunc lister nodeunit updateNode =
     (case lister (om_Name updateNode) of
        None \<Rightarrow> ([], [om_Name updateNode])
      | Some node \<Rightarrow>
          if nget (om_Labels node) nodeunit = Some nodeUnitSuperedge then ([ActionOrDrop NodeB WModified (ONode updateNode)], [])
          else ([], [om_Name updateNode]))"

definition k3s_node_DeleteFunc :: "object_meta \<Rightarrow> bcast list" where
  "k3s_node_DeleteFunc node = [ActionOrDrop NodeB WDeleted (ONode node)]"

definition k3s_node_error :: "object_meta list \<Rightarrow> bcast list" where
  "k3s_node_error store = map (\<lambda>v. ActionOrDrop NodeB WDeleted (ONode v)) store"

definition k3s_service_event :: "event_type \<Rightarrow> object_meta \<Rightarrow> bcast list" where
  "k3s_service_event t svc = [ActionOrDrop ServiceB t (OService (k3s_name svc))]"

definition k3s_service_error :: "object_meta list \<Rightarrow> bcast list" where
  "k3s_service_error store = concat (map (k3s_service_event WDeleted) store)"

definition k3s_endpoints_event :: "event_type \<Rightarrow> Endpoints \<Rightarrow> bcast list" where
  "k3s_endpoints_event t eps = [ActionOrDrop EndpointsB t (OEndpoints (eps\<lparr>ep_meta := k3s_name (ep_meta eps)\<rparr>))]"

text \<open>The renamed copy is made, but the object itself is sent.\<close>

definition k3s_endpoints_error :: "Endpoints list \<Rightarrow> bcast list" where
  "k3s_endpoints_error store = map (\<lambda>v. ActionOrDrop EndpointsB WDeleted (OEndpoints v)) store"

definition k3s_slice_v1_event :: "event_type \<Rightarrow> EndpointSliceV1 \<Rightarrow> bcast list go" where
  "k3s_slice_v1_event t eps = go_bind (k3s_slice_v1 eps) (\<lambda>e. Ret [ActionOrDrop SliceV1B t (OSliceV1 e)])"

definition k3s_slice_v1_error :: "EndpointSliceV1 list \<Rightarrow> bcast list go" where
  "k3s_slice_v1_error store = go_bind (go_map (k3s_slice_v1_event WDeleted) store) (\<lambda>es. Ret (concat es))"

definition k3s_slice_v1beta1_event :: "event_type \<Rightarrow> EndpointSliceV1Beta1 \<Rightarrow> bcast list go" where
  "k3s_slice_v1beta1_event t eps = go_bind (k3s_slice_v1beta1 eps) (\<lambda>e. Ret [ActionOrDrop SliceV1Beta1B t (OSliceV1Beta1 e)])"

definition k3s_slice_v1beta1_error :: "EndpointSliceV1Beta1 list \<Rightarrow> bcast list go" where
  "k3s_slice_v1beta1_error store = go_bind (go_map (k3s_slice_v1beta1_event WDeleted) store) (\<lambda>es. Ret (concat es))"

section \<open>Properties\<close>

lemma filer_eq:
  "filerIngressEndpoints env key val ep =
     (case he_ByIndex env (key @ ''='' @ val) of
        Inl err \<Rightarrow> ep
      | Inr unitnodes \<Rightarrow>
          if unitnodes = [] then ep
          else ep\<lparr>ep_Subsets := map (\<lambda>s. s\<lparr>Addresses := filter (\<lambda>addr. case ea_NodeName addr of
                    None \<Rightarrow> False | Some nodeName \<Rightarrow> list_ex (\<lambda>node. om_Name node = nodeName) unitnodes) (Addresses s)\<rparr>) (ep_Subsets ep)\<rparr>)"
proof -
  have same: "(if length (filter P xs) \<noteq> length xs then s\<lparr>Addresses := filter P xs\<rparr> else s) = s\<lparr>Addresses := filter P xs\<rparr>"
    if "xs = Addresses s" for P xs and s :: EndpointSubset
    using that length_filter_less [of _ xs P] by (cases "\<forall>x \<in> set xs. P x") (auto simp: nat_neq_iff)
  show ?thesis
    by (simp add: filerIngressEndpoints_def Let_def same split: sum.split)
qed

lemma filer_keeps_not_ready:
  "map NotReadyAddresses (ep_Subsets (filerIngressEndpoints env key val ep)) = map NotReadyAddresses (ep_Subsets ep)"
  by (simp add: filer_eq o_def split: sum.split)

text \<open>Every event a watch sends is an event it was given, or one made for a node event.\<close>

lemma encode_all_subset: "set (fst (encode_all enc es)) \<subseteq> set es"
  by (induction es) (auto simp: Let_def case_prod_unfold split: option.splits)

lemma watch_loop_all:
  assumes "\<And>e. P (f e)" "\<And>n eps e. e \<in> set (g n eps) \<Longrightarrow> P e" "e \<in> set (watch_loop enc f g q is)"
  shows "P e"
  using assms(3)
proof (induction "is" arbitrary: q)
  case (Cons i "is")
  show ?case
  proof (cases i)
    case (NodeEvent node eps)
    have "e \<in> set (fst (encode_all enc (g node eps))) \<Longrightarrow> P e"
      using encode_all_subset assms(2) by blast
    with NodeEvent Cons show ?thesis by (auto simp: Let_def case_prod_unfold split: if_splits)
  qed (use Cons assms(1) in \<open>auto split: list.splits option.splits\<close>)
qed simp

text \<open>
  C15: the ready endpoints that an ingress controller watches stay in its unit. As long as the index knows nodes of the
  unit, every ready address (of the field Addresses) in every event that the watch sends, those of the first listing and those that a
  changed node causes included, is on one of these nodes. The addresses that are not ready are not filtered
  (\<open>filer_keeps_not_ready\<close>).
\<close>

theorem ingress_watch_in_unit:
  assumes "he_ByIndex env (key @ ''='' @ nodeUnitSuperedge) = Inr unitnodes" "unitnodes \<noteq> []"
    and "(t, OEndpoints ep) \<in> set (ingress_watch env s key)" "sub \<in> set (ep_Subsets ep)" "a \<in> set (Addresses sub)"
  shows "\<exists>node \<in> set unitnodes. ea_NodeName a = Some (om_Name node)"
proof -
  let ?P = "\<lambda>e. \<forall>t ep. e = (t, OEndpoints ep) \<longrightarrow>
    (\<forall>sub \<in> set (ep_Subsets ep). \<forall>a \<in> set (Addresses sub). \<exists>node \<in> set unitnodes. ea_NodeName a = Some (om_Name node))"
  have filt: "\<forall>sub \<in> set (ep_Subsets (filerIngressEndpoints env key nodeUnitSuperedge e)). \<forall>a \<in> set (Addresses sub).
      \<exists>node \<in> set unitnodes. ea_NodeName a = Some (om_Name node)" for e
    using assms(1,2) by (auto simp: filer_eq list_ex_iff split: option.splits)
  have "?P (t, OEndpoints ep)"
  proof (rule watch_loop_all [of ?P])
    show "?P (ingress_event env key e)" for e
      using filt by (auto simp: ingress_event_def split: watch_object.splits)
    show "e \<in> set (ingress_node_events env key n eps) \<Longrightarrow> ?P e" for e n eps
      using filt by (auto simp: ingress_node_events_def)
  qed (use assms(3) in \<open>simp add: ingress_watch_def\<close>)
  with assms(4,5) show ?thesis by blast
qed

definition sample_http :: "watch_input list \<Rightarrow> http_env" where
  "sample_http inputs = \<lparr>he_ParseAccept = (\<lambda>_. [(''*'', ''*'')]), he_ParseDuration = (\<lambda>_. 0), he_Flusher = True,
     he_Encode = (\<lambda>_. None), he_EncodeEvent = (\<lambda>_. None), he_Inputs = inputs,
     he_ByIndex = (\<lambda>_. Inr [sample_node ''n1'' ''a''])\<rparr>"

definition sample_server :: interceptorServer where
  "sample_server = \<lparr>is_cache = cf_cache sample_run, is_mediaSerializer = [\<lparr>MediaType = ''application/json'', MediaTypeType = ''application'',
     MediaTypeSubType = ''json''\<rparr>], is_k3sServices = None, is_k3sSlicesV1 = None, is_k3sSlicesV1Beta1 = None\<rparr>"

lemma sample_ingress_events:
  "map (\<lambda>(t, e). case e of OEndpoints ep \<Rightarrow> map (map ea_IP \<circ> Addresses) (ep_Subsets ep) | _ \<Rightarrow> []) (ingress_watch (sample_http [Take]) sample_server ''unit'') = [[[''n1'']]]"
  by code_simp

theorem ingress_watch_in_unit_witness:
  "\<exists>t ep sub a. (t, OEndpoints ep) \<in> set (ingress_watch (sample_http [Take]) sample_server ''unit'') \<and> sub \<in> set (ep_Subsets ep) \<and>
     a \<in> set (Addresses sub) \<and> ea_IP a = ''n1'' \<and> ea_NodeName a = Some ''n1''"
proof -
  obtain t ep where ev: "(t, OEndpoints ep) \<in> set (ingress_watch (sample_http [Take]) sample_server ''unit'')"
    "map (map ea_IP \<circ> Addresses) (ep_Subsets ep) = [[''n1'']]"
    using sample_ingress_events by (auto split: watch_object.splits)
  then obtain sub a where sub: "sub \<in> set (ep_Subsets ep)" "a \<in> set (Addresses sub)" "ea_IP a = ''n1''" by fastforce
  have "\<exists>node \<in> set [sample_node ''n1'' ''a'']. ea_NodeName a = Some (om_Name node)"
    by (rule ingress_watch_in_unit [OF _ _ ev(1) sub(1,2)]) (simp_all add: sample_http_def)
  then have "ea_NodeName a = Some ''n1''" by (simp add: sample_node_def sample_defs)
  with ev(1) sub show ?thesis by blast
qed

text \<open>The events that are delivered while a plain watch is open.\<close>

fun delivered :: "watch_input list \<Rightarrow> watch_event list" where
  "delivered [] = []"
| "delivered (Deliver e # is) = e # delivered is"
| "delivered (_ # is) = delivered is"

lemma watch_loop_prefix: "\<exists>rest. q @ delivered is = watch_loop enc id (\<lambda>_ _. []) q is @ rest"
proof (induction "is" arbitrary: q)
  case (Cons i "is")
  show ?case
  proof (cases i)
    case (Deliver e)
    then show ?thesis using Cons.IH [of "q @ [e]"] by simp
  next
    case Take
    show ?thesis
    proof (cases q)
      case Nil
      then show ?thesis using Cons.IH [of "[]"] Take by simp
    next
      case (Cons e q')
      then show ?thesis using Cons.IH [of q'] Take by (auto split: option.split)
    qed
  next
    case (NodeEvent n eps)
    then show ?thesis using Cons.IH [of q] by simp
  qed simp_all
qed simp

text \<open>
  What a watch request for services, endpoints or slices sends is an initial part of the events that
  the broadcaster delivered to it: none is left out, repeated or reordered before the watch ends.
\<close>

theorem plain_watch_prefix:
  "\<exists>rest. delivered (he_Inputs env) = plain_watch env @ rest"
  using watch_loop_prefix [of "[]"] by (simp add: plain_watch_def)


text \<open>
  The path that the wrapper cuts out of the path of an ingress request: a request for
  the path of a unit under /superedge-ingress/ is served as one for the rest of the path, with the unit in the header.
\<close>

theorem getIngressPath_roundtrip:
  assumes "CHR ''/'' \<notin> set ingress" "path = '''' \<or> hd path = CHR ''/''"
  shows "getIngressPath (''/superedge-ingress/'' @ ingress @ path) = Ret (ingress, path)"
proof -
  have root: "Split (''/superedge-ingress/'' @ ingress @ path) (CHR ''/'') = '''' # ''superedge-ingress'' # Split (ingress @ path) (CHR ''/'')"
    by simp
  have join: "foldl (\<lambda>path p. path @ ''/'' @ p) s ps = s @ concat (map ((#) (CHR ''/'')) ps)" for s and ps :: "string list"
    by (induction ps arbitrary: s) auto
  have pieces: "concat (map ((#) (CHR ''/'')) (Split t (CHR ''/''))) = ''/'' @ t" for t
  proof (induction t)
    case (Cons c t)
    then show ?case by (cases "Split t (CHR ''/'')") auto
  qed simp
  show ?thesis
  proof (cases path)
    case Nil
    then show ?thesis using Split_none [OF assms(1)] by (simp add: getIngressPath_def root Let_def)
  next
    case (Cons c t)
    then have "path = CHR ''/'' # t" using assms(2) by simp
    then have "Split (ingress @ path) (CHR ''/'') = ingress # Split t (CHR ''/'')"
      using Split_append [OF assms(1), of t] by simp
    then show ?thesis
      unfolding getIngressPath_def Let_def root join
      using pieces [of t] by (simp add: \<open>path = CHR ''/'' # t\<close>)
  qed
qed

theorem getIngressPath_roundtrip_witness:
  "getIngressPath (''/superedge-ingress/'' @ ''unit1'' @ ''/api/v1/endpoints'') = Ret (''unit1'', ''/api/v1/endpoints'')"
  by (rule getIngressPath_roundtrip) simp_all

text \<open>A path without a unit makes the handler panic.\<close>

lemma getIngressPath_panics: "getIngressPath ''/superedge-ingress'' = Panic"
  by code_simp

subsection \<open>The lists\<close>

lemma not_HasPrefix: "take n s \<noteq> take n p \<Longrightarrow> n \<le> length p \<Longrightarrow> \<not> HasPrefix s p"
  by (auto simp: HasPrefix_iff)

lemma chain_endpoints_list:
  assumes "rq_Method r = ''GET''" "rq_Path r = ''/api/v1/endpoints'' @ rest" "rq_Watch r = ''''"
    and "parseAccept env (rq_Accept r) (is_mediaSerializer s) = Some info" "he_Encode env (PEndpoints (GetEndpoints (is_cache s))) = None"
  shows "buildFilterChains env s debug r = Ret (Body (MediaType info) (PEndpoints (GetEndpoints (is_cache s))))"
  using assms
  by (simp add: buildFilterChains_def debugger_def logger_def interceptNodeRequest_def interceptEventRequest_def interceptServiceRequest_def
      interceptEndpointsRequest_def encode_def HasPrefix_def Let_def)

text \<open>
  C2: from the informers to the client. Whatever the informers delivered and however their handlers interleaved, a list request for
  endpoints that comes in when none is running is answered from the cache, never by the API server, with one object for each
  known Endpoints object: its pruned version for the current nodes, services and health reports.
\<close>

theorem list_request_pruned:
  assumes "env_wf env" "cache_steps env (\<lambda>c. c \<noteq> ClearLocalNodeInfo) (start (NewStorageCache h w e sl)) cf" "quiescent cf"
    and "is_cache s = cf_cache cf" "rq_Method r = ''GET''" "rq_Path r = ''/api/v1/endpoints'' @ rest" "rq_Watch r = ''''"
    and "parseAccept henv (rq_Accept r) (is_mediaSerializer s) = Some info" "\<And>p. he_Encode henv p = None"
  shows "\<exists>items. buildFilterChains henv s debug r = Ret (Body (MediaType info) (PEndpoints items)) \<and>
    list_all2 (\<lambda>item c. eqEndpoints env (prune_endpoints env (cf_cache cf) (ct_original c)) item) items (map snd (endpointsMap (cf_cache cf)))"
proof -
  let ?sc = "cf_cache cf"
  have inv: "cache_inv env cf" using cache_steps_inv [OF assms(2,1)] start_inv by blast
  have "\<not> pending A (cf_threads cf)" for A using assms(3) by (auto simp: pending_def quiescent_def)
  then have "consistent_endpoints env ?sc" "mwf (endpointsMap ?sc)"
    using inv by (auto simp: cache_inv_def cache_wf_def table_wf_def)
  then have "eqEndpoints env (prune_endpoints env ?sc (ct_original c)) (ct_modified c)" if "(k, c) \<in> set (endpointsMap ?sc)" for k c
    using that mget_in_set unfolding consistent_endpoints_def table_consistent_def by metis
  then have "list_all2 (\<lambda>item c. eqEndpoints env (prune_endpoints env ?sc (ct_original c)) item) (GetEndpoints ?sc) (map snd (endpointsMap ?sc))"
    by (auto simp: GetEndpoints_def list_all2_conv_all_nth case_prod_unfold) (metis nth_mem prod.collapse)
  with chain_endpoints_list [OF assms(5-8), of debug] assms(4,9) show ?thesis by metis
qed

definition endpoints_list_request :: request where
  "endpoints_list_request = \<lparr>rq_Method = ''GET'', rq_Path = ''/api/v1/endpoints'', rq_Watch = '''', rq_TimeoutSeconds = '''', rq_Accept = '''', rq_Ingress = []\<rparr>"

theorem list_request_pruned_witness:
  "\<exists>items. buildFilterChains (sample_http []) sample_server False endpoints_list_request = Ret (Body ''application/json'' (PEndpoints items)) \<and>
    list_all2 (\<lambda>item c. eqEndpoints grid_env (prune_endpoints grid_env (cf_cache sample_run) (ct_original c)) item) items
      (map snd (endpointsMap (cf_cache sample_run))) \<and> length items = 1"
proof -
  have steps: "cache_steps grid_env (\<lambda>c. c \<noteq> ClearLocalNodeInfo) (start (NewStorageCache ''n1'' False False True)) sample_run"
    unfolding sample_run_def by (rule scheduled_steps) (simp add: sample_calls_def)
  have q: "quiescent sample_run" using sample_run_quiescent by (simp add: quiescent_def list_all_iff)
  have len: "length (map snd (endpointsMap (cf_cache sample_run))) = 1" by code_simp
  obtain items where "buildFilterChains (sample_http []) sample_server False endpoints_list_request = Ret (Body ''application/json'' (PEndpoints items))"
    "list_all2 (\<lambda>item c. eqEndpoints grid_env (prune_endpoints grid_env (cf_cache sample_run) (ct_original c)) item) items
      (map snd (endpointsMap (cf_cache sample_run)))"
    using list_request_pruned [OF grid_env_wf steps q, where s = sample_server and r = endpoints_list_request and rest = "''''" and
      henv = "sample_http []" and debug = False and info = "hd (is_mediaSerializer sample_server)"]
    by (auto simp: sample_server_def endpoints_list_request_def sample_http_def parseAccept_def)
  with len show ?thesis by (metis list_all2_lengthD)
qed

text \<open>
  The error handler of the k3s endpoints sends the object under its own name: a watcher loses the endpoints of the
  main cluster with that name, and keeps the ones of the k3s cluster.
\<close>

lemma k3s_endpoints_error_hits_main:
  assumes "endpoints_key eps = endpoints_key main" "om_Name (ep_meta main) \<noteq> ''k3s-'' @ om_Name (ep_meta eps)"
  shows "let view = replay endpoints_key (List.map_filter to_endpoints (k3s_endpoints_event WAdded eps @ k3s_endpoints_error [eps])) [endpoints_key main \<mapsto> main]
    in view (endpoints_key main) = None \<and> view (om_Namespace (ep_meta eps), ''k3s-'' @ om_Name (ep_meta eps)) \<noteq> None"
  using assms
  by (simp add: k3s_endpoints_event_def k3s_endpoints_error_def List.map_filter_simps to_endpoints_def ActionOrDrop_def
      k3s_name_def namespaced_name_def)

end
