(* ===== verification/WorkQueue.thy ===== *)
theory WorkQueue
  imports GoStrings
begin

text \<open>
  What the controllers of SuperEdge share: the objects of deletion events and the work queue with its bounded number of retries
  (\<open>processNextWorkItem\<close> and \<open>handleErr\<close>, the same text in the controllers of \<open>application-grid-controller\<close> and \<open>site-manager\<close>).
\<close>

section \<open>Deletion events\<close>

text \<open>A deletion event: the object, a tombstone with or without one, or something else.\<close>

datatype 'o deleted = Deleted 'o | Tombstone "'o option" | NoObject

fun deleted_object :: "'o deleted \<Rightarrow> 'o option" where
  "deleted_object (Deleted d) = Some d"
| "deleted_object (Tombstone d) = d"
| "deleted_object NoObject = None"

section \<open>The queue\<close>

definition MaxRetries :: nat where "MaxRetries = 15"

text \<open>The rate limited queue of \<open>client-go\<close>: its operations on an abstract state.\<close>

record 'q queue_ops =
  q_Get :: "'q \<Rightarrow> (string \<times> bool) \<times> 'q"
  q_Done :: "string \<Rightarrow> 'q \<Rightarrow> 'q"
  q_Forget :: "string \<Rightarrow> 'q \<Rightarrow> 'q"
  q_NumRequeues :: "'q \<Rightarrow> string \<Rightarrow> nat"
  q_AddRateLimited :: "string \<Rightarrow> 'q \<Rightarrow> 'q"

definition handleErr :: "'q queue_ops \<Rightarrow> 'e list \<Rightarrow> string \<Rightarrow> 'q \<Rightarrow> 'q" where
  "handleErr ops err key q =
     (if err = [] then q_Forget ops key q
      else if q_NumRequeues ops q key < MaxRetries then q_AddRateLimited ops key q
      else q_Forget ops key q)"

definition processNextWorkItem :: "'q queue_ops \<Rightarrow> (string \<Rightarrow> 's \<Rightarrow> ('e list \<times> 's) go) \<Rightarrow> 'q \<Rightarrow> 's \<Rightarrow> (bool \<times> 'q \<times> 's) go" where
  "processNextWorkItem ops syncHandler q st =
     (let ((key, quit), q1) = q_Get ops q in
      if quit then Ret (False, q1, st)
      else go_bind (syncHandler key st) (\<lambda>(err, st1). Ret (True, q_Done ops key (handleErr ops err key q1), st1)))"

section \<open>Retries\<close>

text \<open>
  What the documentation of \<open>client-go\<close> says of the count of requeues: a rate limited addition of a key adds one,
  and forgetting the key resets it.
\<close>

definition requeue_laws :: "'q queue_ops \<Rightarrow> bool" where
  "requeue_laws ops \<longleftrightarrow>
     (\<forall>q k. q_NumRequeues ops (q_AddRateLimited ops k q) k = Suc (q_NumRequeues ops q k)) \<and>
     (\<forall>q k. q_NumRequeues ops (q_Forget ops k q) k = 0)"

text \<open>
  C39: a failing key is retried fifteen times and then dropped. Whatever else happens to the queue in between, after n failed
  synchronisations of a key in a row its count of requeues is n modulo 16: each sixteenth failure forgets the key instead of adding it again.
\<close>

theorem handleErr_retries:
  assumes "requeue_laws ops" "q_NumRequeues ops q key = 0"
    "\<And>err f q. (err, f) \<in> set runs \<Longrightarrow> err \<noteq> [] \<and> q_NumRequeues ops (f q) key = q_NumRequeues ops q key"
  shows "q_NumRequeues ops (fold (\<lambda>(err, f) q. f (handleErr ops err key q)) runs q) key = length runs mod 16"
  using assms(3)
proof (induction runs rule: rev_induct)
  case (snoc run runs)
  obtain err f where run: "run = (err, f)" by fastforce
  define q1 where "q1 = fold (\<lambda>(err, f) q. f (handleErr ops err key q)) runs q"
  have "q_NumRequeues ops (fold (\<lambda>(err, f) q. f (handleErr ops err key q)) runs q) key = length runs mod 16"
    by (rule snoc.IH, rule snoc.prems) simp
  then have IH: "q_NumRequeues ops q1 key = length runs mod 16" unfolding q1_def .
  have f: "err \<noteq> []" "\<And>q. q_NumRequeues ops (f q) key = q_NumRequeues ops q key"
    using snoc.prems [of err f] by (simp_all add: run)
  have "length runs mod 16 < 16" by simp
  then have "q_NumRequeues ops (handleErr ops err key q1) key = Suc (length runs) mod 16"
    using assms(1) IH f(1) by (auto simp: handleErr_def requeue_laws_def MaxRetries_def mod_Suc)
  then show ?case using f(2) by (simp add: run q1_def)
qed (simp add: assms(2))

definition sample_queue :: "(string \<Rightarrow> nat) queue_ops" where
  "sample_queue = \<lparr>q_Get = (\<lambda>q. ((''k'', False), q)), q_Done = (\<lambda>k q. q), q_Forget = (\<lambda>k q. q(k := 0)), q_NumRequeues = (\<lambda>q k. q k),
     q_AddRateLimited = (\<lambda>k q. q(k := Suc (q k)))\<rparr>"

theorem handleErr_retries_witness:
  "q_NumRequeues sample_queue (fold (\<lambda>(err, f) q. f (handleErr sample_queue err ''k'' q)) (replicate 17 ([''conflict''], id)) (\<lambda>k. 0)) ''k'' = 1"
  using handleErr_retries [of sample_queue "\<lambda>k. 0" "''k''" "replicate 17 ([''conflict''], id)"]
  by (simp add: requeue_laws_def sample_queue_def)

end
