(* ===== verification/GridCommon.thy ===== *)
theory GridCommon
  imports KubeMeta WorkQueue
begin

text \<open>
  What the grid controllers share: the label selectors of
  \<open>src/pkg/application-grid-controller/controller/common/labels.go\<close>, the names of workloads and templates, and
  the store of the maps that objects hold by reference.
\<close>

section \<open>Label selectors\<close>

text \<open>
  A selector of \<open>k8s.io/apimachinery\<close> is the list of its requirements. Which requirements are refused, which
  label values are valid and what a selector matches is left to that library.
\<close>

datatype req_op = Equals | In | Exists

type_synonym requirement = "string \<times> req_op \<times> string list"

record label_lib =
  IsValidLabelValue :: "string \<Rightarrow> bool"
  NewRequirement :: "requirement \<Rightarrow> go_error option"
  Matches :: "requirement list \<Rightarrow> labels option \<Rightarrow> bool"

definition GridSelectorName :: string where "GridSelectorName = ''superedge.io/grid-selector''"
definition GridSelectorUniqKeyName :: string where "GridSelectorUniqKeyName = ''superedge.io/grid-uniq-key''"
definition TemplateHashKey :: string where "TemplateHashKey = ''superedge.io/template-hash-key''"
definition FedrationKey :: string where "FedrationKey = ''superedge.io/fed''"
definition FedrationDisKey :: string where "FedrationDisKey = ''superedge.io/dis''"
definition FedManagedClustIdKey :: string where "FedManagedClustIdKey = ''clusters.clusternet.io/cluster-id''"
definition FedTargetNameSpace :: string where "FedTargetNameSpace = ''superedge.io/target-namespace''"

definition GetDefaultSelector :: "'a label_lib_scheme \<Rightarrow> string \<Rightarrow> go_error + requirement list" where
  "GetDefaultSelector lib val =
     (if \<not> IsValidLabelValue lib val then Inl ''Invalid label value %s err %v''
      else case NewRequirement lib (GridSelectorName, Equals, [val]) of
        Some err \<Rightarrow> Inl err
      | None \<Rightarrow> Inr [(GridSelectorName, Equals, [val])])"

definition IsConcernedObject :: "object_meta \<Rightarrow> bool" where
  "IsConcernedObject objMeta =
     (case om_Labels objMeta of None \<Rightarrow> False | Some ls \<Rightarrow> mhas ls GridSelectorName)"

text \<open>The keys of the labels of the nodes, each once, without the ones that are no valid label value.\<close>

definition add_label_key :: "'a label_lib_scheme \<Rightarrow> string \<Rightarrow> string list \<times> string list \<Rightarrow> string list \<times> string list" where
  "add_label_key lib key acc =
     (let (valueList, seen) = acc in
      if key \<in> set seen then acc
      else (if IsValidLabelValue lib key then valueList @ [key] else valueList, key # seen))"

definition node_labels :: "object_meta \<Rightarrow> labels" where
  "node_labels node = (case om_Labels node of None \<Rightarrow> [] | Some ls \<Rightarrow> ls)"

definition label_keys :: "'a label_lib_scheme \<Rightarrow> object_meta list \<Rightarrow> string list" where
  "label_keys lib nodes = fst (fold (\<lambda>node. fold (add_label_key lib) (mkeys (node_labels node))) nodes ([], []))"

definition GetNodesSelector :: "'a label_lib_scheme \<Rightarrow> object_meta list \<Rightarrow> go_error + requirement list" where
  "GetNodesSelector lib nodes =
     (let valueList = label_keys lib nodes in
      if length valueList = 0 then Inr []
      else case NewRequirement lib (GridSelectorUniqKeyName, In, valueList) of
        Some err \<Rightarrow> Inl err
      | None \<Rightarrow> Inr [(GridSelectorUniqKeyName, In, valueList)])"

text \<open>\<open>nodeLister\<close> is the list of the nodes that a selector matches, or an error.\<close>

type_synonym node_lister = "requirement list \<Rightarrow> go_error + object_meta list"

definition grid_value :: "string \<Rightarrow> object_meta \<Rightarrow> string" where
  "grid_value gridUniqKey n = (case nget (om_Labels n) gridUniqKey of None \<Rightarrow> '''' | Some v \<Rightarrow> v)"

definition GetGridValuesFromNode :: "'a label_lib_scheme \<Rightarrow> node_lister \<Rightarrow> string \<Rightarrow> go_error + string list" where
  "GetGridValuesFromNode lib nodeLister gridUniqKey =
     (case NewRequirement lib (gridUniqKey, Exists, []) of
        Some err \<Rightarrow> Inl err
      | None \<Rightarrow>
          (case nodeLister [(gridUniqKey, Exists, [])] of
             Inl err \<Rightarrow> Inl err
           | Inr nodes \<Rightarrow> Inr (filter (\<lambda>v. v \<noteq> '''') (map (grid_value gridUniqKey) nodes))))"

section \<open>Templates by name\<close>

definition DefaultTemplateName :: string where "DefaultTemplateName = ''default''"
definition DeploymentGridKind :: string where "DeploymentGridKind = ''DeploymentGrid''"
definition StatefulSetGridKind :: string where "StatefulSetGridKind = ''StatefulSetGrid''"
definition ServiceGridKind :: string where "ServiceGridKind = ''ServiceGrid''"

definition GetTemplateHash :: "labels option \<Rightarrow> string" where
  "GetTemplateHash ls = (case nget ls TemplateHashKey of None \<Rightarrow> '''' | Some h \<Rightarrow> h)"

definition GetTemplateName :: "labels option \<Rightarrow> string \<Rightarrow> string \<Rightarrow> string" where
  "GetTemplateName templates gridValues defaultTemplateName =
     (case nget templates gridValues of None \<Rightarrow> defaultTemplateName | Some name \<Rightarrow> name)"

section \<open>Maps held by reference\<close>

text \<open>
  A field of type \<open>map[string]string\<close> refers to a map; two objects may refer to the same one. The store is the list of the
  maps, an address the position in it, and \<open>None\<close> is the nil map.
\<close>

type_synonym heap = "labels list"
type_synonym ref_map = "nat option"

definition load :: "heap \<Rightarrow> ref_map \<Rightarrow> labels option" where
  "load h r = (case r of None \<Rightarrow> None | Some a \<Rightarrow> Some (h ! a))"

definition alloc :: "labels \<Rightarrow> heap \<Rightarrow> nat \<times> heap" where
  "alloc ls h = (length h, h @ [ls])"

definition set_key :: "nat \<Rightarrow> string \<Rightarrow> string \<Rightarrow> heap \<Rightarrow> heap" where
  "set_key a k v h = h[a := mput k v (h ! a)]"

text \<open>\<open>DeepCopy\<close> of a map.\<close>

definition copy_ref :: "ref_map \<Rightarrow> heap \<Rightarrow> ref_map \<times> heap" where
  "copy_ref r h = (case r of None \<Rightarrow> (None, h) | Some a \<Rightarrow> (Some (length h), h @ [h ! a]))"

definition ref_ok :: "heap \<Rightarrow> ref_map \<Rightarrow> bool" where
  "ref_ok h r \<longleftrightarrow> (case r of None \<Rightarrow> True | Some a \<Rightarrow> a < length h)"

lemma load_None [simp]: "load h None = None"
  by (simp add: load_def)

lemma load_alloc [simp]: "ref_ok h r \<Longrightarrow> load (h @ hs) r = load h r"
  by (auto simp: load_def ref_ok_def nth_append split: option.split)

lemma load_fresh [simp]: "load (h @ ls # hs) (Some (length h)) = Some ls"
  by (simp add: load_def)

lemma load_set_key: "a < length h \<Longrightarrow> load (set_key a k v h) r = (if r = Some a then Some (mput k v (h ! a)) else load h r)"
  by (auto simp: load_def set_key_def split: option.split)

lemma length_set_key [simp]: "length (set_key a k v h) = length h"
  by (simp add: set_key_def)

lemma ref_ok_set_key [simp]: "ref_ok (set_key a k v h) r = ref_ok h r"
  by (cases r) (simp_all add: ref_ok_def)

lemma ref_ok_append [simp]: "ref_ok h r \<Longrightarrow> ref_ok (h @ hs) r"
  by (auto simp: ref_ok_def split: option.splits)

lemma ref_ok_None [simp]: "ref_ok h None"
  by (simp add: ref_ok_def)

lemma ref_ok_Some [simp]: "ref_ok h (Some a) \<longleftrightarrow> a < length h"
  by (simp add: ref_ok_def)

end
