(* ===== verification/RefManager.thy ===== *)
theory RefManager
  imports KubeMeta
begin

text \<open>
  The claiming of workloads by a grid
  (\<open>src/pkg/application-grid-controller/controller/controller_ref_manager.go\<close> and
  \<open>controller_ref_manager_utils.go\<close>): which deployments, stateful sets and services of a namespace
  belong to a grid object, the adoption of orphans and the deletion of its own objects that no longer
  match.

  An object is its metadata. The calls to the API server are recorded in the order they are made
  (\<open>cm_log\<close>); what the server answers to the n-th call is an argument (\<open>re_respond\<close>), as are the label
  selector, \<open>metav1.GetControllerOf\<close> and the fresh read of the grid object. The run of \<open>canAdoptFunc\<close> is recorded as the call
  \<open>Recheck\<close>.
\<close>

section \<open>API errors\<close>

datatype apierr = ENotFound | EInvalid | EConflict | EAlreadyExists | EOther go_error

section \<open>The manager\<close>

datatype ref_call = Recheck | PatchRef string string string | DeleteRef string string

record ref_env =
  re_controller :: object_meta
  re_Matches :: "labels option \<Rightarrow> bool"
  re_groupVersion :: string
  re_Kind :: string
  re_GetControllerOf :: "object_meta \<Rightarrow> OwnerReference option"
  re_canAdoptFunc :: "apierr option option"
  re_respond :: "nat \<Rightarrow> ref_call \<Rightarrow> apierr option"

text \<open>\<open>cm_once\<close> is the state of \<open>canAdoptOnce\<close>.\<close>

record ref_state =
  cm_log :: "ref_call list"
  cm_once :: bool
  cm_canAdoptErr :: "apierr option"

text \<open>\<open>RecheckDeletionTimestamp\<close>: the error of the returned function for a given result of \<open>getObject\<close>.\<close>

definition RecheckDeletionTimestamp :: "go_error + object_meta \<Rightarrow> apierr option" where
  "RecheckDeletionTimestamp got =
     (case got of
        Inl err \<Rightarrow> Some (EOther ''can't recheck DeletionTimestamp: %v'')
      | Inr obj \<Rightarrow> (case om_DeletionTimestamp obj of Some t \<Rightarrow> Some (EOther ''%v/%v has just been deleted at %v'') | None \<Rightarrow> None))"

definition new_ref_state :: ref_state where
  "new_ref_state = \<lparr>cm_log = [], cm_once = False, cm_canAdoptErr = None\<rparr>"

definition NewDeploymentControllerRefManager ::
    "object_meta \<Rightarrow> (labels option \<Rightarrow> bool) \<Rightarrow> string \<times> string \<Rightarrow> apierr option option \<Rightarrow> (object_meta \<Rightarrow> OwnerReference option) \<Rightarrow> (nat \<Rightarrow> ref_call \<Rightarrow> apierr option) \<Rightarrow> ref_env \<times> ref_state" where
  "NewDeploymentControllerRefManager controller selector controllerKind canAdopt getControllerOf dpClient =
     (\<lparr>re_controller = controller, re_Matches = selector, re_groupVersion = fst controllerKind, re_Kind = snd controllerKind,
       re_GetControllerOf = getControllerOf, re_canAdoptFunc = canAdopt, re_respond = dpClient\<rparr>, new_ref_state)"

definition NewStatefulSetControllerRefManager ::
    "object_meta \<Rightarrow> (labels option \<Rightarrow> bool) \<Rightarrow> string \<times> string \<Rightarrow> apierr option option \<Rightarrow> (object_meta \<Rightarrow> OwnerReference option) \<Rightarrow> (nat \<Rightarrow> ref_call \<Rightarrow> apierr option) \<Rightarrow> ref_env \<times> ref_state" where
  "NewStatefulSetControllerRefManager controller selector controllerKind canAdopt getControllerOf setClient =
     (\<lparr>re_controller = controller, re_Matches = selector, re_groupVersion = fst controllerKind, re_Kind = snd controllerKind,
       re_GetControllerOf = getControllerOf, re_canAdoptFunc = canAdopt, re_respond = setClient\<rparr>, new_ref_state)"

definition NewServiceControllerRefManager ::
    "object_meta \<Rightarrow> (labels option \<Rightarrow> bool) \<Rightarrow> string \<times> string \<Rightarrow> apierr option option \<Rightarrow> (object_meta \<Rightarrow> OwnerReference option) \<Rightarrow> (nat \<Rightarrow> ref_call \<Rightarrow> apierr option) \<Rightarrow> ref_env \<times> ref_state" where
  "NewServiceControllerRefManager controller selector controllerKind canAdopt getControllerOf svcClient =
     (\<lparr>re_controller = controller, re_Matches = selector, re_groupVersion = fst controllerKind, re_Kind = snd controllerKind,
       re_GetControllerOf = getControllerOf, re_canAdoptFunc = canAdopt, re_respond = svcClient\<rparr>, new_ref_state)"

definition call_api :: "ref_env \<Rightarrow> ref_call \<Rightarrow> ref_state \<Rightarrow> apierr option \<times> ref_state" where
  "call_api env c st = (re_respond env (length (cm_log st)) c, st\<lparr>cm_log := cm_log st @ [c]\<rparr>)"

definition canAdopt :: "ref_env \<Rightarrow> ref_state \<Rightarrow> apierr option \<times> ref_state" where
  "canAdopt env st =
     (if cm_once st then (cm_canAdoptErr st, st)
      else case re_canAdoptFunc env of
        None \<Rightarrow> (cm_canAdoptErr st, st\<lparr>cm_once := True\<rparr>)
      | Some err \<Rightarrow> (err, st\<lparr>cm_log := cm_log st @ [Recheck], cm_once := True, cm_canAdoptErr := err\<rparr>))"

text \<open>The patch that makes the grid the controller of an object; the uid guards against a recreated object.\<close>

definition addControllerPatch :: "ref_env \<Rightarrow> object_meta \<Rightarrow> string" where
  "addControllerPatch env ob =
     ''{\"metadata\":{\"ownerReferences\":[{\"apiVersion\":\"'' @ re_groupVersion env @ ''\",\"kind\":\"'' @ re_Kind env @
     ''\",\"name\":\"'' @ om_Name (re_controller env) @ ''\",\"uid\":\"'' @ om_UID (re_controller env) @
     ''\",\"controller\":true,\"blockOwnerDeletion\":true}],\"uid\":\"'' @ om_UID ob @ ''\"}}''"

definition adopt_object :: "go_error \<Rightarrow> ref_env \<Rightarrow> object_meta \<Rightarrow> ref_state \<Rightarrow> apierr option \<times> ref_state" where
  "adopt_object msg env ob st =
     (case canAdopt env st of
        (Some err, st1) \<Rightarrow> (Some (EOther msg), st1)
      | (None, st1) \<Rightarrow> call_api env (PatchRef (om_Namespace ob) (om_Name ob) (addControllerPatch env ob)) st1)"

definition release_object :: "ref_env \<Rightarrow> object_meta \<Rightarrow> ref_state \<Rightarrow> apierr option \<times> ref_state" where
  "release_object env ob st =
     (case call_api env (DeleteRef (om_Namespace ob) (om_Name ob)) st of
        (Some ENotFound, st1) \<Rightarrow> (None, st1)
      | (Some EInvalid, st1) \<Rightarrow> (None, st1)
      | r \<Rightarrow> r)"

definition adoptDeployment where
  "adoptDeployment = adopt_object ''can't adopt Deployment %s/%s (%v): %v''"

definition releaseDeployment where "releaseDeployment = release_object"

definition adoptStatefulSet where
  "adoptStatefulSet = adopt_object ''Can't adopt statefulset %s/%s (%v): %v''"

definition releaseStatefulSet where "releaseStatefulSet = release_object"

definition adoptService where
  "adoptService = adopt_object ''can't adopt Service %s/%s (%v): %v''"

definition releaseService where "releaseService = release_object"

type_synonym ref_op = "object_meta \<Rightarrow> ref_state \<Rightarrow> apierr option \<times> ref_state"

text \<open>The result of \<open>adopt\<close> and \<open>release\<close>: a missing object is no error.\<close>

definition claim_result :: "bool \<Rightarrow> apierr option \<times> ref_state \<Rightarrow> (bool \<times> apierr option) \<times> ref_state" where
  "claim_result ok r =
     (case r of
        (None, st) \<Rightarrow> ((ok, None), st)
      | (Some ENotFound, st) \<Rightarrow> ((False, None), st)
      | (Some err, st) \<Rightarrow> ((False, Some err), st))"

definition claimObject :: "ref_env \<Rightarrow> ref_op \<Rightarrow> ref_op \<Rightarrow> object_meta \<Rightarrow> ref_state \<Rightarrow> (bool \<times> apierr option) \<times> ref_state" where
  "claimObject env adopt release ob st =
     (let is_match = re_Matches env (om_Labels ob) in
      case re_GetControllerOf env ob of
        Some controllerRef \<Rightarrow>
          if or_UID controllerRef \<noteq> om_UID (re_controller env) then ((False, None), st)
          else if is_match then ((True, None), st)
          else if om_DeletionTimestamp (re_controller env) \<noteq> None then ((False, None), st)
          else if om_DeletionTimestamp ob \<noteq> None then ((False, None), st)
          else claim_result False (release ob st)
      | None \<Rightarrow>
          if om_DeletionTimestamp (re_controller env) \<noteq> None \<or> \<not> is_match then ((False, None), st)
          else if om_DeletionTimestamp ob \<noteq> None then ((False, None), st)
          else claim_result True (adopt ob st))"

text \<open>The loop over the workloads; \<open>meta\<close> is the metadata of one.\<close>

fun claim_list :: "ref_env \<Rightarrow> ref_op \<Rightarrow> ref_op \<Rightarrow> ('o \<Rightarrow> object_meta) \<Rightarrow> 'o list \<Rightarrow> ref_state \<Rightarrow> 'o list \<times> apierr list \<times> ref_state" where
  "claim_list env adopt release meta [] st = ([], [], st)"
| "claim_list env adopt release meta (ob # obs) st =
     (let ((ok, err), st1) = claimObject env adopt release (meta ob) st;
          (claimed, errList, st2) = claim_list env adopt release meta obs st1
      in (case err of
            Some e \<Rightarrow> (claimed, e # errList, st2)
          | None \<Rightarrow> (if ok then ob # claimed else claimed, errList, st2)))"

definition ClaimDeployment :: "ref_env \<Rightarrow> ('o \<Rightarrow> object_meta) \<Rightarrow> 'o list \<Rightarrow> ref_state \<Rightarrow> 'o list \<times> apierr list \<times> ref_state" where
  "ClaimDeployment env meta dpList st = claim_list env (adoptDeployment env) (releaseDeployment env) meta dpList st"

definition ClaimStatefulSet :: "ref_env \<Rightarrow> ('o \<Rightarrow> object_meta) \<Rightarrow> 'o list \<Rightarrow> ref_state \<Rightarrow> 'o list \<times> apierr list \<times> ref_state" where
  "ClaimStatefulSet env meta setList st = claim_list env (adoptStatefulSet env) (releaseStatefulSet env) meta setList st"

definition ClaimService :: "ref_env \<Rightarrow> ('o \<Rightarrow> object_meta) \<Rightarrow> 'o list \<Rightarrow> ref_state \<Rightarrow> 'o list \<times> apierr list \<times> ref_state" where
  "ClaimService env meta svcList st = claim_list env (adoptService env) (releaseService env) meta svcList st"

section \<open>What a claim may do\<close>

definition patch_of :: "ref_env \<Rightarrow> object_meta \<Rightarrow> ref_call" where
  "patch_of env m = PatchRef (om_Namespace m) (om_Name m) (addControllerPatch env m)"

definition delete_of :: "object_meta \<Rightarrow> ref_call" where
  "delete_of m = DeleteRef (om_Namespace m) (om_Name m)"

definition owned :: "ref_env \<Rightarrow> object_meta \<Rightarrow> bool" where
  "owned env m \<longleftrightarrow> (\<exists>r. re_GetControllerOf env m = Some r \<and> or_UID r = om_UID (re_controller env))"

text \<open>Neither the grid nor the object is being deleted.\<close>

definition alive :: "ref_env \<Rightarrow> object_meta \<Rightarrow> bool" where
  "alive env m \<longleftrightarrow> om_DeletionTimestamp (re_controller env) = None \<and> om_DeletionTimestamp m = None"

definition adoptable :: "ref_env \<Rightarrow> object_meta \<Rightarrow> bool" where
  "adoptable env m \<longleftrightarrow> re_GetControllerOf env m = None \<and> re_Matches env (om_Labels m) \<and> alive env m"

definition releasable :: "ref_env \<Rightarrow> object_meta \<Rightarrow> bool" where
  "releasable env m \<longleftrightarrow> owned env m \<and> \<not> re_Matches env (om_Labels m) \<and> alive env m"

definition recheck_inv :: "ref_state \<Rightarrow> bool" where
  "recheck_inv st \<longleftrightarrow> count_list (cm_log st) Recheck \<le> (if cm_once st then 1 else 0)"

text \<open>
  The contract of the two operations that a manager is built from: to adopt is to ask whether the grid still
  exists and to patch the object; to release is to delete it; the question is asked once.
\<close>

locale claimer =
  fixes env :: ref_env and adopt release :: ref_op
  assumes adopt_calls: "adopt m st = (err, st') \<Longrightarrow>
      \<exists>cs. cm_log st' = cm_log st @ cs \<and> set cs \<subseteq> {Recheck, patch_of env m} \<and> (err = None \<longrightarrow> patch_of env m \<in> set cs)"
    and release_calls: "release m st = (err, st') \<Longrightarrow> cm_log st' = cm_log st @ [delete_of m]"
    and adopt_once: "recheck_inv st \<Longrightarrow> recheck_inv (snd (adopt m st))"
    and release_once: "recheck_inv st \<Longrightarrow> recheck_inv (snd (release m st))"
begin

lemma claimObject_calls:
  assumes "claimObject env adopt release m st = ((ok, err), st')"
  shows "\<exists>cs. cm_log st' = cm_log st @ cs \<and>
     (\<forall>c \<in> set cs. (c = Recheck \<or> c = patch_of env m) \<and> adoptable env m \<or> c = delete_of m \<and> releasable env m) \<and>
     (err = None \<and> ok \<longrightarrow> owned env m \<and> re_Matches env (om_Labels m) \<or> adoptable env m \<and> patch_of env m \<in> set cs)"
proof -
  obtain e1 s1 where a: "adopt m st = (e1, s1)" by fastforce
  obtain e2 s2 where r: "release m st = (e2, s2)" by fastforce
  show ?thesis
    using assms adopt_calls [OF a] release_calls [OF r]
    by (auto simp: claimObject_def Let_def claim_result_def a r adoptable_def releasable_def owned_def alive_def
        split: option.splits if_splits apierr.splits)
qed

lemma claimObject_once: "recheck_inv st \<Longrightarrow> recheck_inv (snd (claimObject env adopt release m st))"
  using adopt_once [of st m] release_once [of st m]
  by (auto simp: claimObject_def Let_def claim_result_def split: option.splits apierr.splits prod.splits)

lemma claim_list_calls:
  assumes "claim_list env adopt release meta obs st = (claimed, errs, st')"
  shows "\<exists>cs. cm_log st' = cm_log st @ cs \<and>
     (\<forall>c \<in> set cs. \<exists>ob \<in> set obs. (c = Recheck \<or> c = patch_of env (meta ob)) \<and> adoptable env (meta ob) \<or> c = delete_of (meta ob) \<and> releasable env (meta ob)) \<and>
     (\<forall>ob \<in> set claimed. ob \<in> set obs \<and>
        (owned env (meta ob) \<and> re_Matches env (om_Labels (meta ob)) \<or> adoptable env (meta ob) \<and> patch_of env (meta ob) \<in> set cs))"
  using assms
proof (induction obs arbitrary: st claimed errs st')
  case (Cons ob obs)
  obtain ok err st1 where 1: "claimObject env adopt release (meta ob) st = ((ok, err), st1)" by (metis surj_pair)
  obtain cl2 errs2 st2 where 2: "claim_list env adopt release meta obs st1 = (cl2, errs2, st2)" by (metis surj_pair)
  obtain cs1 where cs1: "cm_log st1 = cm_log st @ cs1"
    "\<forall>c \<in> set cs1. (c = Recheck \<or> c = patch_of env (meta ob)) \<and> adoptable env (meta ob) \<or> c = delete_of (meta ob) \<and> releasable env (meta ob)"
    "err = None \<and> ok \<longrightarrow> owned env (meta ob) \<and> re_Matches env (om_Labels (meta ob)) \<or> adoptable env (meta ob) \<and> patch_of env (meta ob) \<in> set cs1"
    using claimObject_calls [OF 1] by blast
  obtain cs2 where cs2: "cm_log st2 = cm_log st1 @ cs2"
    "\<forall>c \<in> set cs2. \<exists>ob \<in> set obs. (c = Recheck \<or> c = patch_of env (meta ob)) \<and> adoptable env (meta ob) \<or> c = delete_of (meta ob) \<and> releasable env (meta ob)"
    "\<forall>ob \<in> set cl2. ob \<in> set obs \<and>
        (owned env (meta ob) \<and> re_Matches env (om_Labels (meta ob)) \<or> adoptable env (meta ob) \<and> patch_of env (meta ob) \<in> set cs2)"
    using Cons.IH [OF 2] by blast
  have res: "st' = st2" "set claimed \<subseteq> set cl2 \<union> (if err = None \<and> ok then {ob} else {})"
    using Cons.prems 1 2 by (auto simp: Let_def split: option.splits if_splits)
  show ?case
    by (rule exI [of _ "cs1 @ cs2"]) (use cs1 cs2 res in \<open>auto split: if_splits\<close>)
qed simp

lemma claim_list_owned:
  assumes "claim_list env adopt release meta obs st = (claimed, errs, st')" "ob \<in> set obs"
    "owned env (meta ob)" "re_Matches env (om_Labels (meta ob))"
  shows "ob \<in> set claimed"
  using assms
proof (induction obs arbitrary: st claimed errs st')
  case (Cons b obs)
  obtain ok err st1 where 1: "claimObject env adopt release (meta b) st = ((ok, err), st1)" by (metis surj_pair)
  obtain cl2 errs2 st2 where 2: "claim_list env adopt release meta obs st1 = (cl2, errs2, st2)" by (metis surj_pair)
  have "b = ob \<Longrightarrow> ok \<and> err = None" using 1 Cons.prems(3,4) by (auto simp: claimObject_def owned_def)
  then show ?case using Cons.prems Cons.IH [OF 2] 1 2 by (auto simp: Let_def split: option.splits if_splits)
qed simp

lemma claim_list_once: "recheck_inv st \<Longrightarrow> recheck_inv (snd (snd (claim_list env adopt release meta obs st)))"
proof (induction obs arbitrary: st)
  case (Cons b obs)
  show ?case
    using Cons.IH [OF claimObject_once [OF Cons.prems, of "meta b"]]
    by (auto simp: Let_def case_prod_unfold split: option.split)
qed simp

end

lemma adopt_object_calls:
  assumes "adopt_object msg env m st = (err, st')"
  shows "\<exists>cs. cm_log st' = cm_log st @ cs \<and> set cs \<subseteq> {Recheck, patch_of env m} \<and> (err = None \<longrightarrow> patch_of env m \<in> set cs)"
  using assms by (auto simp: adopt_object_def canAdopt_def call_api_def patch_of_def split: option.splits if_splits prod.splits)

lemma release_object_calls: "release_object env m st = (err, st') \<Longrightarrow> cm_log st' = cm_log st @ [delete_of m]"
  by (auto simp: release_object_def call_api_def delete_of_def split: option.splits apierr.splits)

lemma count_list_append_ref: "count_list (xs @ [c]) x = count_list xs x + (if c = x then 1 else 0)"
  by (induction xs) auto

lemma adopt_object_once: "recheck_inv st \<Longrightarrow> recheck_inv (snd (adopt_object msg env m st))"
  by (auto simp: adopt_object_def canAdopt_def call_api_def recheck_inv_def count_list_append_ref split: option.splits prod.splits if_splits)

lemma release_object_once: "recheck_inv st \<Longrightarrow> recheck_inv (snd (release_object env m st))"
  by (auto simp: release_object_def call_api_def recheck_inv_def count_list_append_ref split: option.splits apierr.splits)

lemmas ref_object_laws = adopt_object_calls release_object_calls adopt_object_once release_object_once

interpretation deployments: claimer env "adoptDeployment env" "releaseDeployment env" for env
  by unfold_locales (auto simp: adoptDeployment_def releaseDeployment_def dest: ref_object_laws)

interpretation statefulsets: claimer env "adoptStatefulSet env" "releaseStatefulSet env" for env
  by unfold_locales (auto simp: adoptStatefulSet_def releaseStatefulSet_def dest: ref_object_laws)

interpretation services: claimer env "adoptService env" "releaseService env" for env
  by unfold_locales (auto simp: adoptService_def releaseService_def dest: ref_object_laws)

section \<open>Properties\<close>

text \<open>
  C16: what ClaimDeployment does to the deployments of a namespace. It deletes only deployments that the grid controls and that
  no longer match, and patches only orphans that match, neither of them being deleted; a deployment of another
  controller is never touched. It returns every deployment that the grid controls and that matches, and
  otherwise only orphans that it has just adopted. The deletion of the grid is looked up at most once.
\<close>

theorem ClaimDeployment_safe:
  assumes "ClaimDeployment env meta dpList new_ref_state = (claimed, errs, st)"
  shows "(\<forall>c \<in> set (cm_log st). c = Recheck \<or>
      (\<exists>dp \<in> set dpList. adoptable env (meta dp) \<and> c = patch_of env (meta dp) \<or> releasable env (meta dp) \<and> c = delete_of (meta dp))) \<and>
    count_list (cm_log st) Recheck \<le> 1 \<and>
    (\<forall>dp \<in> set claimed. dp \<in> set dpList \<and>
      (owned env (meta dp) \<and> re_Matches env (om_Labels (meta dp)) \<or> adoptable env (meta dp) \<and> patch_of env (meta dp) \<in> set (cm_log st))) \<and>
    (\<forall>dp \<in> set dpList. owned env (meta dp) \<and> re_Matches env (om_Labels (meta dp)) \<longrightarrow> dp \<in> set claimed)"
proof -
  note run = assms [unfolded ClaimDeployment_def]
  have "recheck_inv new_ref_state" by (simp add: recheck_inv_def new_ref_state_def)
  then have "count_list (cm_log st) Recheck \<le> 1"
    using deployments.claim_list_once [of new_ref_state env meta dpList] run by (auto simp: recheck_inv_def split: if_splits)
  moreover obtain cs where "cm_log st = cs"
    "\<forall>c \<in> set cs. \<exists>ob \<in> set dpList. (c = Recheck \<or> c = patch_of env (meta ob)) \<and> adoptable env (meta ob) \<or> c = delete_of (meta ob) \<and> releasable env (meta ob)"
    "\<forall>ob \<in> set claimed. ob \<in> set dpList \<and>
        (owned env (meta ob) \<and> re_Matches env (om_Labels (meta ob)) \<or> adoptable env (meta ob) \<and> patch_of env (meta ob) \<in> set cs)"
    using deployments.claim_list_calls [OF run] by (auto simp: new_ref_state_def)
  moreover have "dp \<in> set dpList \<Longrightarrow> owned env (meta dp) \<Longrightarrow> re_Matches env (om_Labels (meta dp)) \<Longrightarrow> dp \<in> set claimed" for dp
    using deployments.claim_list_owned [OF run] by blast
  ultimately show ?thesis by (metis (no_types, lifting))
qed

definition sample_grid :: object_meta where
  "sample_grid = zero_object_meta\<lparr>om_Name := ''g'', om_Namespace := ''ns'', om_UID := ''u1''\<rparr>"

definition sample_owner :: "string \<Rightarrow> OwnerReference" where
  "sample_owner uid = \<lparr>or_APIVersion = '''', or_Kind = '''', or_Name = '''', or_UID = uid, or_Controller = Some True, or_BlockOwnerDeletion = None\<rparr>"

definition sample_workload :: "string \<Rightarrow> string list \<Rightarrow> labels option \<Rightarrow> object_meta" where
  "sample_workload name owners ls = zero_object_meta\<lparr>om_Name := name, om_Namespace := ''ns'', om_Labels := ls, om_OwnerReferences := map sample_owner owners\<rparr>"

definition sample_ref_env :: ref_env where
  "sample_ref_env = \<lparr>re_controller = sample_grid, re_Matches = (\<lambda>l. l \<noteq> None),
     re_groupVersion = ''v1'', re_Kind = ''DeploymentGrid'',
     re_GetControllerOf = (\<lambda>m. find (\<lambda>r. or_Controller r = Some True) (om_OwnerReferences m)),
     re_canAdoptFunc = Some None, re_respond = (\<lambda>_ _. None)\<rparr>"

definition sample_workloads :: "object_meta list" where
  "sample_workloads = [sample_workload ''a'' [''u1''] (Some []), sample_workload ''b'' [''u1''] None,
     sample_workload ''c'' [] (Some []), sample_workload ''d'' [''u2''] (Some [])]"

theorem ClaimDeployment_safe_witness:
  "map om_Name (fst (ClaimDeployment sample_ref_env id sample_workloads new_ref_state)) = [''a'', ''c''] \<and>
   set (fst (ClaimDeployment sample_ref_env id sample_workloads new_ref_state)) \<subseteq> set sample_workloads \<and>
   length (cm_log (snd (snd (ClaimDeployment sample_ref_env id sample_workloads new_ref_state)))) = 3"
proof -
  obtain claimed errs st where run: "ClaimDeployment sample_ref_env id sample_workloads new_ref_state = (claimed, errs, st)" by (metis surj_pair)
  have "map om_Name (fst (ClaimDeployment sample_ref_env id sample_workloads new_ref_state)) = [''a'', ''c'']" by code_simp
  moreover have "length (cm_log (snd (snd (ClaimDeployment sample_ref_env id sample_workloads new_ref_state)))) = 3" by code_simp
  ultimately show ?thesis using ClaimDeployment_safe [OF run] run by auto
qed

end
