(* ===== verification/Consistency.thy ===== *)
theory Consistency
  imports Float64
begin

text \<open>
  \<open>src/pkg/application-grid-controller/util/consistency.go\<close>: the test that the specification of an
  existing workload contains the one the grid asks for.

  A \<open>reflect.Value\<close> is a tree: every value carries the name of its type, and a value of a kind that may
  be part of a cycle (map, slice, pointer, interface) also the address of the variable that holds it, if
  it is addressable. The pointer that \<open>Pointer()\<close> returns is kept beside the contents of slices, maps
  and pointers. Data with cycles are not represented: no API type has them.
\<close>

section \<open>Reflected values\<close>

text \<open>The last constructor stands for complex numbers, channels and unsafe pointers.\<close>

datatype basic = BBool bool | BInt int | BUint nat | BFloat float64 | BString string | BOther string

text \<open>
  The flag of \<open>VBasic\<close> says whether the value is reached through exported fields only. \<open>None\<close> is nil;
  the flag of \<open>VFunc\<close> says whether the function is nil.
\<close>

datatype goval =
    VBasic string bool basic
  | VArray string "goval list"
  | VStruct string "goval list"
  | VSlice string "nat option" "(nat \<times> goval list) option"
  | VMap string "nat option" "(nat \<times> (basic \<times> goval) list) option"
  | VPtr string "nat option" "(nat \<times> goval) option"
  | VInterface string "nat option" "goval option"
  | VFunc string bool

fun vtype :: "goval \<Rightarrow> string" where
  "vtype (VBasic t e b) = t"
| "vtype (VArray t xs) = t"
| "vtype (VStruct t xs) = t"
| "vtype (VSlice t a d) = t"
| "vtype (VMap t a d) = t"
| "vtype (VPtr t a d) = t"
| "vtype (VInterface t a d) = t"
| "vtype (VFunc t n) = t"

text \<open>The address of a value whose kind is \<open>hard\<close>.\<close>

fun hard_addr :: "goval \<Rightarrow> nat option" where
  "hard_addr (VSlice t a d) = a"
| "hard_addr (VMap t a d) = a"
| "hard_addr (VPtr t a d) = a"
| "hard_addr (VInterface t a d) = a"
| "hard_addr v = None"

type_synonym visit = "nat \<times> nat \<times> string"

text \<open>The key of a comparison in the map \<open>visited\<close>.\<close>

definition visit_key :: "goval \<Rightarrow> goval \<Rightarrow> visit option" where
  "visit_key v1 v2 =
     (case (hard_addr v1, hard_addr v2) of
        (Some a1, Some a2) \<Rightarrow> Some (if a1 > a2 then (a2, a1, vtype v1) else (a1, a2, vtype v1))
      | _ \<Rightarrow> None)"

section \<open>Comparison\<close>

text \<open>\<open>==\<close> on basic values.\<close>

fun basic_eq :: "basic \<Rightarrow> basic \<Rightarrow> bool" where
  "basic_eq (BFloat a) (BFloat b) = (a \<noteq> NaN \<and> a = b)"
| "basic_eq a b = (a = b)"

fun isEmptyValue :: "basic \<Rightarrow> bool" where
  "isEmptyValue (BBool b) = (\<not> b)"
| "isEmptyValue (BInt i) = (i = 0)"
| "isEmptyValue (BUint n) = (n = 0)"
| "isEmptyValue (BFloat f) = (f = Fin 0)"
| "isEmptyValue (BString s) = (length s = 0)"
| "isEmptyValue (BOther s) = False"

text \<open>\<open>Interface()\<close> panics on a value reached through an unexported field; the panic is recovered.\<close>

definition compareOrTrue :: "bool \<Rightarrow> basic \<Rightarrow> bool \<Rightarrow> basic \<Rightarrow> bool" where
  "compareOrTrue e1 b1 e2 b2 = (if \<not> e1 \<or> \<not> e2 then True else basic_eq b1 b2)"

text \<open>
  The comparison with the set of visited pairs threaded through. Values of one type have one kind, and arrays and
  structs of one type one length; the other combinations do not occur.
\<close>

fun deepValueContains :: "goval \<Rightarrow> goval \<Rightarrow> visit set \<Rightarrow> bool \<times> visit set"
and contains_elems :: "goval list \<Rightarrow> goval list \<Rightarrow> visit set \<Rightarrow> bool \<times> visit set"
and contains_keys :: "(basic \<times> goval) list \<Rightarrow> (basic \<times> goval) list \<Rightarrow> visit set \<Rightarrow> bool \<times> visit set" where
  "deepValueContains v1 v2 visited =
     (if vtype v1 \<noteq> vtype v2 then (False, visited)
      else if visit_key v1 v2 \<noteq> None \<and> the (visit_key v1 v2) \<in> visited then (True, visited)
      else
        let visited = (case visit_key v1 v2 of Some v \<Rightarrow> insert v visited | None \<Rightarrow> visited) in
        case (v1, v2) of
          (VArray _ xs, VArray _ ys) \<Rightarrow> contains_elems xs ys visited
        | (VSlice _ _ d1, VSlice _ _ d2) \<Rightarrow>
            (case d2 of
               None \<Rightarrow> (True, visited)
             | Some (p2, ys) \<Rightarrow>
                 (case d1 of
                    None \<Rightarrow> (ys = [], visited)
                  | Some (p1, xs) \<Rightarrow>
                      if length xs < length ys then (False, visited)
                      else if p1 = p2 then (True, visited)
                      else contains_elems xs ys visited))
        | (VInterface _ _ d1, VInterface _ _ d2) \<Rightarrow>
            (case d2 of
               None \<Rightarrow> (True, visited)
             | Some y \<Rightarrow> (case d1 of None \<Rightarrow> (True, visited) | Some x \<Rightarrow> deepValueContains x y visited))
        | (VPtr _ _ d1, VPtr _ _ d2) \<Rightarrow>
            (case d2 of
               None \<Rightarrow> (True, visited)
             | Some (p2, y) \<Rightarrow>
                 (case d1 of
                    None \<Rightarrow> (True, visited)
                  | Some (p1, x) \<Rightarrow> if p1 = p2 then (True, visited) else deepValueContains x y visited))
        | (VStruct _ xs, VStruct _ ys) \<Rightarrow> contains_elems xs ys visited
        | (VMap _ _ d1, VMap _ _ d2) \<Rightarrow>
            (case d2 of
               None \<Rightarrow> (True, visited)
             | Some (p2, m2) \<Rightarrow>
                 (case d1 of
                    None \<Rightarrow> (m2 = [], visited)
                  | Some (p1, m1) \<Rightarrow>
                      if length m1 < length m2 then (False, visited)
                      else if p1 = p2 then (True, visited)
                      else contains_keys m1 m2 visited))
        | (VFunc _ n1, VFunc _ n2) \<Rightarrow> (n1 \<and> n2, visited)
        | (VBasic _ e1 b1, VBasic _ e2 b2) \<Rightarrow> (isEmptyValue b2 \<or> compareOrTrue e1 b1 e2 b2, visited)
        | _ \<Rightarrow> (False, visited))"
| "contains_elems xs [] visited = (True, visited)"
| "contains_elems [] (y # ys) visited = (False, visited)"
| "contains_elems (x # xs) (y # ys) visited =
     (let (ok, visited) = deepValueContains x y visited
      in if \<not> ok then (False, visited) else contains_elems xs ys visited)"
| "contains_keys m1 [] visited = (True, visited)"
| "contains_keys m1 ((k, y) # ys) visited =
     (case map_of m1 k of
        None \<Rightarrow> (False, visited)
      | Some x \<Rightarrow>
          let (ok, visited) = deepValueContains x y visited
          in if \<not> ok then (False, visited) else contains_keys m1 ys visited)"


definition DeepContains :: "goval option \<Rightarrow> goval option \<Rightarrow> bool" where
  "DeepContains x y =
     (case (x, y) of
        (Some v1, Some v2) \<Rightarrow> if vtype v1 \<noteq> vtype v2 then False else fst (deepValueContains v1 v2 {})
      | _ \<Rightarrow> x = y)"

section \<open>Reference definition\<close>

lemma zip_size: "(x, y) \<in> set (zip xs ys) \<Longrightarrow> size y < Suc (size_list size ys)"
  using size_list_estimation' [of y ys "size y" size] by (auto dest: set_zip_rightD)

lemma entry_size: "(k, y) \<in> set m \<Longrightarrow> size y < Suc (size_list (size_prod (\<lambda>_. 0) size) m)"
  using size_list_estimation' [of "(k, y)" m "size y" "size_prod (\<lambda>_. 0) size"] by (auto simp: less_Suc_eq_le)

text \<open>Containment without the record of the visited pairs.\<close>

function val_contains :: "goval \<Rightarrow> goval \<Rightarrow> bool" where
  "val_contains v1 v2 \<longleftrightarrow> vtype v1 = vtype v2 \<and>
     (case (v1, v2) of
        (VArray _ xs, VArray _ ys) \<Rightarrow> length ys \<le> length xs \<and> (\<forall>(x, y) \<in> set (zip xs ys). val_contains x y)
      | (VStruct _ xs, VStruct _ ys) \<Rightarrow> length ys \<le> length xs \<and> (\<forall>(x, y) \<in> set (zip xs ys). val_contains x y)
      | (VSlice _ _ d1, VSlice _ _ d2) \<Rightarrow>
          (case (d1, d2) of
             (_, None) \<Rightarrow> True
           | (None, Some (p2, ys)) \<Rightarrow> ys = []
           | (Some (p1, xs), Some (p2, ys)) \<Rightarrow> length ys \<le> length xs \<and> (p1 = p2 \<or> (\<forall>(x, y) \<in> set (zip xs ys). val_contains x y)))
      | (VMap _ _ d1, VMap _ _ d2) \<Rightarrow>
          (case (d1, d2) of
             (_, None) \<Rightarrow> True
           | (None, Some (p2, m2)) \<Rightarrow> m2 = []
           | (Some (p1, m1), Some (p2, m2)) \<Rightarrow> length m2 \<le> length m1 \<and>
               (p1 = p2 \<or> (\<forall>(k, y) \<in> set m2. \<exists>x. map_of m1 k = Some x \<and> val_contains x y)))
      | (VPtr _ _ (Some (p1, x)), VPtr _ _ (Some (p2, y))) \<Rightarrow> p1 = p2 \<or> val_contains x y
      | (VPtr _ _ _, VPtr _ _ _) \<Rightarrow> True
      | (VInterface _ _ (Some x), VInterface _ _ (Some y)) \<Rightarrow> val_contains x y
      | (VInterface _ _ _, VInterface _ _ _) \<Rightarrow> True
      | (VFunc _ n1, VFunc _ n2) \<Rightarrow> n1 \<and> n2
      | (VBasic _ e1 b1, VBasic _ e2 b2) \<Rightarrow> isEmptyValue b2 \<or> \<not> e1 \<or> \<not> e2 \<or> basic_eq b1 b2
      | _ \<Rightarrow> False)"
  by pat_completeness auto

termination
  by (relation "measure (\<lambda>(x, y). size y)") (fastforce dest: zip_size entry_size)+

declare val_contains.simps [simp del] deepValueContains.simps [simp del]

section \<open>The two definitions agree\<close>

fun children :: "goval \<Rightarrow> goval set" where
  "children (VArray t xs) = set xs"
| "children (VStruct t xs) = set xs"
| "children (VSlice t a (Some (p, xs))) = set xs"
| "children (VMap t a (Some (p, m))) = snd ` set m"
| "children (VPtr t a (Some (p, x))) = {x}"
| "children (VInterface t a (Some x)) = {x}"
| "children v = {}"

inductive_set subvals :: "goval \<Rightarrow> goval set" for v :: goval where
  self: "v \<in> subvals v"
| child: "s \<in> subvals v \<Longrightarrow> c \<in> children s \<Longrightarrow> c \<in> subvals v"

lemma children_size: "c \<in> children v \<Longrightarrow> size c < size v"
  by (cases v rule: children.cases) (auto dest: size_list_estimation' [of _ _ "size c" size, OF _ order_refl] entry_size simp: less_Suc_eq_le)

text \<open>
  An address holds one value of a type, and the two values that are compared do not share variables.
\<close>

definition addresses_ok :: "goval \<Rightarrow> goval \<Rightarrow> bool" where
  "addresses_ok X Y \<longleftrightarrow>
     (\<forall>V \<in> {X, Y}. \<forall>s \<in> subvals V. \<forall>t \<in> subvals V. hard_addr s \<noteq> None \<longrightarrow> hard_addr s = hard_addr t \<longrightarrow> vtype s = vtype t \<longrightarrow> s = t) \<and>
     (\<forall>s \<in> subvals X. \<forall>t \<in> subvals Y. hard_addr s \<noteq> None \<longrightarrow> hard_addr s \<noteq> hard_addr t)"

lemma visit_key_inject:
  assumes ok: "addresses_ok X Y" and sub: "s \<in> subvals X" "t \<in> subvals Y" "v1 \<in> subvals X" "v2 \<in> subvals Y"
    and ty: "vtype s = vtype t" "vtype v1 = vtype v2" and key: "visit_key s t = Some k" "visit_key v1 v2 = Some k"
  shows "s = v1 \<and> t = v2"
proof -
  obtain a b c d where ad: "hard_addr s = Some a" "hard_addr t = Some b" "hard_addr v1 = Some c" "hard_addr v2 = Some d"
    using key by (auto simp: visit_key_def split: option.splits)
  have sep: "hard_addr x \<noteq> hard_addr y" if "x \<in> subvals X" "y \<in> subvals Y" "hard_addr x \<noteq> None" for x y
    using ok that unfolding addresses_ok_def by blast
  have one: "x = y" if "V = X \<or> V = Y" "x \<in> subvals V" "y \<in> subvals V" "hard_addr x = Some e" "hard_addr y = Some e" "vtype x = vtype y" for V x y e
    using ok that unfolding addresses_ok_def by (metis insertCI option.distinct(1))
  have dis: "a \<noteq> b" "a \<noteq> d" "c \<noteq> b" "c \<noteq> d"
    using sep [OF sub(1,2)] sep [OF sub(1,4)] sep [OF sub(3,2)] sep [OF sub(3,4)] ad by auto
  have "a = c \<and> b = d \<and> vtype s = vtype v1"
    using key dis by (auto simp: visit_key_def ad split: if_splits)
  then show ?thesis using one [of X s v1 a] one [of Y t v2 b] sub ad ty by auto
qed

text \<open>Every visited pair below a size is contained; every pair added to the visited ones is contained.\<close>

definition visited_sound :: "goval \<Rightarrow> goval \<Rightarrow> visit set \<Rightarrow> nat \<Rightarrow> bool" where
  "visited_sound X Y vis n \<longleftrightarrow>
     (\<forall>s \<in> subvals X. \<forall>t \<in> subvals Y. \<forall>k \<in> vis. vtype s = vtype t \<longrightarrow> visit_key s t = Some k \<longrightarrow> size t \<le> n \<longrightarrow> val_contains s t)"

definition visited_grows :: "goval \<Rightarrow> goval \<Rightarrow> visit set \<Rightarrow> visit set \<Rightarrow> bool" where
  "visited_grows X Y vis vis' \<longleftrightarrow>
     (\<forall>s \<in> subvals X. \<forall>t \<in> subvals Y. \<forall>k \<in> vis'. vtype s = vtype t \<longrightarrow> visit_key s t = Some k \<longrightarrow> k \<in> vis \<or> val_contains s t)"

lemma visited_grows_refl [simp]: "visited_grows X Y vis vis"
  by (auto simp: visited_grows_def)

lemma visited_grows_trans: "visited_grows X Y a b \<Longrightarrow> visited_grows X Y b c \<Longrightarrow> visited_grows X Y a c"
  unfolding visited_grows_def by blast

lemma visited_sound_grows: "visited_sound X Y vis n \<Longrightarrow> visited_grows X Y vis vis' \<Longrightarrow> visited_sound X Y vis' n"
  unfolding visited_sound_def visited_grows_def by blast

lemma visited_sound_child:
  assumes "addresses_ok X Y" "v1 \<in> subvals X" "v2 \<in> subvals Y" "vtype v1 = vtype v2" "visited_sound X Y vis (size v2)" "c \<in> children v2"
  shows "visited_sound X Y (case visit_key v1 v2 of Some v \<Rightarrow> insert v vis | None \<Rightarrow> vis) (size c)"
  unfolding visited_sound_def
proof (intro ballI impI)
  fix s t k assume st: "s \<in> subvals X" "t \<in> subvals Y" "k \<in> (case visit_key v1 v2 of Some v \<Rightarrow> insert v vis | None \<Rightarrow> vis)"
    "vtype s = vtype t" "visit_key s t = Some k" "size t \<le> size c"
  have lt: "size c < size v2" using children_size assms(6) by blast
  show "val_contains s t"
  proof (cases "k \<in> vis")
    case True
    then show ?thesis using st lt assms(5) by (fastforce simp: visited_sound_def)
  next
    case False
    then have "visit_key v1 v2 = Some k" using st(3) by (auto split: option.splits)
    then show ?thesis using visit_key_inject [OF assms(1) st(1,2) assms(2,3) st(4) assms(4) st(5)] st(6) lt by auto
  qed
qed

lemma visited_grows_insert:
  assumes "addresses_ok X Y" "v1 \<in> subvals X" "v2 \<in> subvals Y" "vtype v1 = vtype v2" "val_contains v1 v2"
    "visited_grows X Y (case visit_key v1 v2 of Some v \<Rightarrow> insert v vis | None \<Rightarrow> vis) vis'"
  shows "visited_grows X Y vis vis'"
  unfolding visited_grows_def
proof (intro ballI impI)
  fix s t k assume st: "s \<in> subvals X" "t \<in> subvals Y" "k \<in> vis'" "vtype s = vtype t" "visit_key s t = Some k"
  then have "k \<in> (case visit_key v1 v2 of Some v \<Rightarrow> insert v vis | None \<Rightarrow> vis) \<or> val_contains s t"
    using assms(6) by (auto simp: visited_grows_def)
  then show "k \<in> vis \<or> val_contains s t"
    using visit_key_inject [OF assms(1) st(1,2) assms(2,3) st(4) assms(4) st(5)] assms(5)
    by (auto split: option.splits)
qed

definition agrees :: "goval \<Rightarrow> goval \<Rightarrow> visit set \<Rightarrow> bool \<Rightarrow> bool \<times> visit set \<Rightarrow> bool" where
  "agrees X Y vis holds r \<longleftrightarrow> fst r = holds \<and> (fst r \<longrightarrow> visited_grows X Y vis (snd r))"

lemma agrees_const [simp]: "agrees X Y vis holds (b, vis) \<longleftrightarrow> b = holds"
  by (auto simp: agrees_def)

lemma deepValueContains_agrees:
  "addresses_ok X Y \<Longrightarrow> v1 \<in> subvals X \<Longrightarrow> v2 \<in> subvals Y \<Longrightarrow> visited_sound X Y vis (size v2) \<Longrightarrow>
     agrees X Y vis (val_contains v1 v2) (deepValueContains v1 v2 vis)"
  "addresses_ok X Y \<Longrightarrow> set xs \<subseteq> subvals X \<Longrightarrow> set ys \<subseteq> subvals Y \<Longrightarrow> \<forall>y \<in> set ys. visited_sound X Y vis (size y) \<Longrightarrow>
     agrees X Y vis (length ys \<le> length xs \<and> (\<forall>(x, y) \<in> set (zip xs ys). val_contains x y)) (contains_elems xs ys vis)"
  "addresses_ok X Y \<Longrightarrow> snd ` set m1 \<subseteq> subvals X \<Longrightarrow> snd ` set m2 \<subseteq> subvals Y \<Longrightarrow> \<forall>y \<in> snd ` set m2. visited_sound X Y vis (size y) \<Longrightarrow>
     agrees X Y vis (\<forall>(k, y) \<in> set m2. \<exists>x. map_of m1 k = Some x \<and> val_contains x y) (contains_keys m1 m2 vis)"
proof (induction v1 v2 vis and xs ys vis and m1 m2 vis rule: deepValueContains_contains_elems_contains_keys.induct)
  case (1 v1 v2 vis)
  define vis1 where "vis1 = (case visit_key v1 v2 of Some v \<Rightarrow> insert v vis | None \<Rightarrow> vis)"
  consider (types) "vtype v1 \<noteq> vtype v2" | (seen) k where "vtype v1 = vtype v2" "visit_key v1 v2 = Some k" "k \<in> vis"
    | (fresh) "vtype v1 = vtype v2" "\<not> (visit_key v1 v2 \<noteq> None \<and> the (visit_key v1 v2) \<in> vis)" by fastforce
  then show ?case
  proof cases
    case types
    then show ?thesis by (simp add: deepValueContains.simps val_contains.simps [of v1])
  next
    case seen
    then have "val_contains v1 v2" using "1.prems" by (auto simp: visited_sound_def)
    with seen show ?thesis by (simp add: deepValueContains.simps)
  next
    case fresh
    have sub: "children v1 \<subseteq> subvals X" "children v2 \<subseteq> subvals Y"
      using "1.prems" subvals.child by blast+
    have snd: "visited_sound X Y vis1 (size c)" if "c \<in> children v2" for c
      unfolding vis1_def by (rule visited_sound_child [OF "1.prems"(1,2,3) fresh(1) "1.prems"(4) that])
    have ty: "\<not> vtype v1 \<noteq> vtype v2" using fresh by simp
    note IH = "1.IH" [OF ty fresh(2) vis1_def]
    have "agrees X Y vis1 (val_contains v1 v2) (deepValueContains v1 v2 vis)"
      unfolding deepValueContains.simps [of v1 v2 vis] val_contains.simps [of v1 v2] if_not_P [OF ty] if_not_P [OF fresh(2)] vis1_def [symmetric] Let_def
      using fresh(1) IH sub snd "1.prems"(1)
      by (cases v1; cases v2) (auto simp: compareOrTrue_def not_le split: option.splits)
    then show ?thesis
      using visited_grows_insert [OF "1.prems"(1,2,3) fresh(1), of vis] by (auto simp: agrees_def vis1_def)
  qed
next
  case (2 xs vis)
  then show ?case by simp
next
  case (3 y ys vis)
  then show ?case by simp
next
  case (4 x xs y ys vis)
  obtain ok vis1 where 1: "deepValueContains x y vis = (ok, vis1)" by fastforce
  have "agrees X Y vis (val_contains x y) (ok, vis1)" using "4.IH"(1) "4.prems" by (simp add: 1)
  then have ok: "ok = val_contains x y" "ok \<Longrightarrow> visited_grows X Y vis vis1" by (auto simp: agrees_def)
  show ?case
  proof (cases ok)
    case True
    have "\<forall>y \<in> set ys. visited_sound X Y vis1 (size y)" using "4.prems"(4) ok(2) [OF True] visited_sound_grows by fastforce
    then have "agrees X Y vis1 (length ys \<le> length xs \<and> (\<forall>(x, y) \<in> set (zip xs ys). val_contains x y)) (contains_elems xs ys vis1)"
      using "4.IH"(2) [OF 1 [symmetric] refl] True "4.prems" by auto
    then show ?thesis using ok True by (auto simp: 1 agrees_def intro: visited_grows_trans)
  qed (use ok in \<open>auto simp: 1 agrees_def\<close>)
next
  case (5 m1 vis)
  then show ?case by simp
next
  case (6 m1 k y ys vis)
  show ?case
  proof (cases "map_of m1 k")
    case (Some x)
    obtain ok vis1 where 1: "deepValueContains x y vis = (ok, vis1)" by fastforce
    have x: "x \<in> subvals X" using map_of_SomeD [OF Some] "6.prems"(2) by force
    have "agrees X Y vis (val_contains x y) (ok, vis1)" using "6.IH"(1) [OF Some "6.prems"(1) x] "6.prems" by (simp add: 1)
    then have ok: "ok = val_contains x y" "ok \<Longrightarrow> visited_grows X Y vis vis1" by (auto simp: agrees_def)
    show ?thesis
    proof (cases ok)
      case True
      have "\<forall>y \<in> snd ` set ys. visited_sound X Y vis1 (size y)" using "6.prems"(4) ok(2) [OF True] visited_sound_grows by fastforce
      then have "agrees X Y vis1 (\<forall>(k, y) \<in> set ys. \<exists>x. map_of m1 k = Some x \<and> val_contains x y) (contains_keys m1 ys vis1)"
        using "6.IH"(2) [OF Some 1 [symmetric] refl] True "6.prems" by auto
      then show ?thesis using ok True Some by (auto simp: 1 agrees_def intro: visited_grows_trans)
    qed (use ok Some in \<open>auto simp: 1 agrees_def\<close>)
  qed (simp add: agrees_def)
qed

section \<open>Equal values are contained\<close>

text \<open>The value without the places where its parts are stored.\<close>

fun strip :: "goval \<Rightarrow> goval" where
  "strip (VBasic t e b) = VBasic t e b"
| "strip (VArray t xs) = VArray t (map strip xs)"
| "strip (VStruct t xs) = VStruct t (map strip xs)"
| "strip (VSlice t a d) = VSlice t None (map_option (\<lambda>(p, xs). (0, map strip xs)) d)"
| "strip (VMap t a d) = VMap t None (map_option (\<lambda>(p, m). (0, map (\<lambda>(k, v). (k, strip v)) m)) d)"
| "strip (VPtr t a d) = VPtr t None (map_option (\<lambda>(p, v). (0, strip v)) d)"
| "strip (VInterface t a d) = VInterface t None (map_option strip d)"
| "strip (VFunc t n) = VFunc t n"

text \<open>No function but nil, no NaN, and no key twice in a map.\<close>

fun plain :: "goval \<Rightarrow> bool" where
  "plain (VBasic t e b) \<longleftrightarrow> b \<noteq> BFloat NaN"
| "plain (VArray t xs) \<longleftrightarrow> (\<forall>x \<in> set xs. plain x)"
| "plain (VStruct t xs) \<longleftrightarrow> (\<forall>x \<in> set xs. plain x)"
| "plain (VSlice t a d) \<longleftrightarrow> (case d of None \<Rightarrow> True | Some (p, xs) \<Rightarrow> \<forall>x \<in> set xs. plain x)"
| "plain (VMap t a d) \<longleftrightarrow> (case d of None \<Rightarrow> True | Some (p, m) \<Rightarrow> distinct (map fst m) \<and> (\<forall>(k, v) \<in> set m. plain v))"
| "plain (VPtr t a d) \<longleftrightarrow> (case d of None \<Rightarrow> True | Some (p, v) \<Rightarrow> plain v)"
| "plain (VInterface t a d) \<longleftrightarrow> (case d of None \<Rightarrow> True | Some v \<Rightarrow> plain v)"
| "plain (VFunc t n) \<longleftrightarrow> n"

lemma strip_vtype: "strip x = strip y \<Longrightarrow> vtype x = vtype y"
  by (cases x; cases y) auto

lemma basic_eq_refl: "b \<noteq> BFloat NaN \<Longrightarrow> basic_eq b b"
  by (cases b) auto

lemma strip_zip: "map strip xs = map strip ys \<Longrightarrow> (x, y) \<in> set (zip xs ys) \<Longrightarrow> y \<in> set ys \<and> strip x = strip y"
  by (induction xs ys rule: list_induct2') auto

lemma strip_map_contains:
  assumes "map (\<lambda>(k, v). (k, strip v)) m1 = map (\<lambda>(k, v). (k, strip v)) m2" "distinct (map fst m2)"
    "\<And>k y x. (k, y) \<in> set m2 \<Longrightarrow> strip x = strip y \<Longrightarrow> val_contains x y"
  shows "length m2 \<le> length m1 \<and> (\<forall>(k, y) \<in> set m2. \<exists>x. map_of m1 k = Some x \<and> val_contains x y)"
proof -
  have "map_option strip (map_of m1 k) = map_option strip (map_of m2 k)" for k
    using arg_cong [OF assms(1), of "\<lambda>m. map_of m k"] by (simp add: mget_map)
  moreover have "map_of m2 k = Some y" if "(k, y) \<in> set m2" for k y using that assms(2) by simp
  ultimately have "\<exists>x. map_of m1 k = Some x \<and> strip x = strip y" if "(k, y) \<in> set m2" for k y
    using that by (metis (no_types, lifting) map_option_eq_Some)
  then show ?thesis using assms(3) map_eq_imp_length_eq [OF assms(1)] by fastforce
qed

lemma strip_contains: "strip x = strip y \<Longrightarrow> plain y \<Longrightarrow> val_contains x y"
proof (induction y arbitrary: x rule: measure_induct_rule [of size])
  case (less y)
  have IH: "val_contains x c" if "c \<in> children y" "strip x = strip c" "plain c" for x c
    using less.IH [OF children_size [OF that(1)] that(2,3)] .
  have elems: "length ys \<le> length xs \<and> (\<forall>(a, b) \<in> set (zip xs ys). val_contains a b)"
    if "map strip xs = map strip ys" "set ys \<subseteq> children y" "\<forall>c \<in> set ys. plain c" for xs ys
    using that IH map_eq_imp_length_eq [OF that(1)] by (fastforce dest: strip_zip [OF that(1)])
  have keys: "length m2 \<le> length m1 \<and> (\<forall>(k, y) \<in> set m2. \<exists>x. map_of m1 k = Some x \<and> val_contains x y)"
    if "map (\<lambda>(k, v). (k, strip v)) m1 = map (\<lambda>(k, v). (k, strip v)) m2" "distinct (map fst m2)"
      "snd ` set m2 \<subseteq> children y" "\<forall>(k, c) \<in> set m2. plain c" for m1 m2
    using strip_map_contains [OF that(1,2)] IH that(3,4) by fastforce
  show ?case
  proof (cases y)
    case (VArray t ys)
    then obtain xs where "x = VArray t xs" using less.prems by (cases x) auto
    with VArray show ?thesis using less.prems elems [of xs ys] by (subst val_contains.simps) simp
  next
    case (VStruct t ys)
    then obtain xs where "x = VStruct t xs" using less.prems by (cases x) auto
    with VStruct show ?thesis using less.prems elems [of xs ys] by (subst val_contains.simps) simp
  next
    case (VSlice t a d)
    then obtain a' d' where "x = VSlice t a' d'" using less.prems by (cases x) auto
    with VSlice show ?thesis using less.prems elems by (subst val_contains.simps) (fastforce split: option.splits)
  next
    case (VMap t a d)
    then obtain a' d' where "x = VMap t a' d'" using less.prems by (cases x) auto
    with VMap show ?thesis using less.prems keys by (subst val_contains.simps) (fastforce split: option.splits)
  qed (use less.prems IH in \<open>subst val_contains.simps, cases x; auto simp: basic_eq_refl split: option.splits\<close>)+
qed

section \<open>Properties\<close>

lemma subvals_unfold: "subvals v = insert v (\<Union>c \<in> children v. subvals c)"
proof
  show "subvals v \<subseteq> insert v (\<Union>c \<in> children v. subvals c)"
  proof
    fix s assume "s \<in> subvals v"
    then show "s \<in> insert v (\<Union>c \<in> children v. subvals c)"
      by induction (auto intro: subvals.intros)
  qed
  have "s \<in> subvals v" if "s \<in> subvals c" "c \<in> children v" for s c
    using that by induction (auto intro: subvals.intros)
  then show "insert v (\<Union>c \<in> children v. subvals c) \<subseteq> subvals v" by (auto intro: subvals.self)
qed

lemma subvals_simps:
  "subvals (VBasic t e b) = {VBasic t e b}"
  "subvals (VStruct t xs) = insert (VStruct t xs) (\<Union>c \<in> set xs. subvals c)"
  "subvals (VMap t a (Some (p, m))) = insert (VMap t a (Some (p, m))) (\<Union>c \<in> snd ` set m. subvals c)"
  "subvals (VPtr t a (Some (p, v))) = insert (VPtr t a (Some (p, v))) (subvals v)"
  by (simp_all add: subvals_unfold [of "VBasic t e b"] subvals_unfold [of "VStruct t xs"] subvals_unfold [of "VMap t a (Some (p, m))"]
      subvals_unfold [of "VPtr t a (Some (p, v))"])

lemma DeepContains_agrees:
  assumes "addresses_ok x y"
  shows "DeepContains (Some x) (Some y) \<longleftrightarrow> val_contains x y"
proof -
  have "visited_sound x y {} (size y)" by (simp add: visited_sound_def)
  from deepValueContains_agrees(1) [OF assms subvals.self subvals.self this]
  have "fst (deepValueContains x y {}) = val_contains x y" by (simp add: agrees_def)
  then show ?thesis by (auto simp: DeepContains_def val_contains.simps [of x y])
qed

section \<open>The documented relation\<close>

text \<open>
  What the comment on \<open>DeepContains\<close> says, clause by clause: the cases of arrays, structs, functions, interfaces, maps, pointers, slices and other values. An unexported
  field of a basic kind is ignored. A nil pointer or interface is a zero value when it is \<open>y\<close>, which every value contains; when it is \<open>x\<close>, it contains only nil.
\<close>

inductive doc_contains :: "goval \<Rightarrow> goval \<Rightarrow> bool" where
  doc_other: "isEmptyValue b2 \<or> \<not> e1 \<or> \<not> e2 \<or> basic_eq b1 b2 \<Longrightarrow> doc_contains (VBasic t e1 b1) (VBasic t e2 b2)"
| doc_array: "length ys \<le> length xs \<Longrightarrow> (\<And>i. i < length ys \<Longrightarrow> doc_contains (xs ! i) (ys ! i)) \<Longrightarrow> doc_contains (VArray t xs) (VArray t ys)"
| doc_struct: "length ys \<le> length xs \<Longrightarrow> (\<And>i. i < length ys \<Longrightarrow> doc_contains (xs ! i) (ys ! i)) \<Longrightarrow> doc_contains (VStruct t xs) (VStruct t ys)"
| doc_func: "doc_contains (VFunc t True) (VFunc t True)"
| doc_interface_nil: "doc_contains (VInterface t a d) (VInterface t b None)"
| doc_interface: "doc_contains x y \<Longrightarrow> doc_contains (VInterface t a (Some x)) (VInterface t b (Some y))"
| doc_map_nil: "doc_contains (VMap t a d) (VMap t b None)"
| doc_map_zero: "doc_contains (VMap t a d) (VMap t b (Some (q, [])))"
| doc_map_same: "length m2 \<le> length m1 \<Longrightarrow> doc_contains (VMap t a (Some (p, m1))) (VMap t b (Some (p, m2)))"
| doc_map: "length m2 \<le> length m1 \<Longrightarrow> (\<And>k y. (k, y) \<in> set m2 \<Longrightarrow> \<exists>x. map_of m1 k = Some x \<and> doc_contains x y) \<Longrightarrow>
    doc_contains (VMap t a (Some (p, m1))) (VMap t b (Some (q, m2)))"
| doc_pointer_nil: "doc_contains (VPtr t a d) (VPtr t b None)"
| doc_pointer_same: "doc_contains (VPtr t a (Some (p, x))) (VPtr t b (Some (p, y)))"
| doc_pointer: "doc_contains x y \<Longrightarrow> doc_contains (VPtr t a (Some (p, x))) (VPtr t b (Some (q, y)))"
| doc_slice_nil: "doc_contains (VSlice t a d) (VSlice t b None)"
| doc_slice_zero: "doc_contains (VSlice t a d) (VSlice t b (Some (q, [])))"
| doc_slice_same: "length ys \<le> length xs \<Longrightarrow> doc_contains (VSlice t a (Some (p, xs))) (VSlice t b (Some (p, ys)))"
| doc_slice: "length ys \<le> length xs \<Longrightarrow> (\<And>i. i < length ys \<Longrightarrow> doc_contains (xs ! i) (ys ! i)) \<Longrightarrow>
    doc_contains (VSlice t a (Some (p, xs))) (VSlice t b (Some (q, ys)))"

inductive_simps doc_contains_simps:
  "doc_contains (VBasic t e1 b1) (VBasic t e2 b2)" "doc_contains (VStruct t xs) (VStruct t ys)" "doc_contains (VPtr t a d) (VPtr t b d')"
  "doc_contains (VMap t a (Some (p, m1))) (VMap t b (Some (q, m2)))"








definition sample_value :: "nat \<Rightarrow> basic \<Rightarrow> goval" where
  "sample_value a b = VStruct ''Spec'' [VPtr ''*int32'' (Some a) (Some (a + 1, VBasic ''int32'' True b)),
     VMap ''map'' (Some (a + 2)) (Some (a + 3, [(BString ''k'', VBasic ''string'' True (BString ''v''))]))]"

lemma sample_addresses: "addresses_ok (sample_value 1 b) (sample_value 11 c)"
proof -
  have sub: "subvals (sample_value a b) = {sample_value a b, VPtr ''*int32'' (Some a) (Some (a + 1, VBasic ''int32'' True b)), VBasic ''int32'' True b,
     VMap ''map'' (Some (a + 2)) (Some (a + 3, [(BString ''k'', VBasic ''string'' True (BString ''v''))])), VBasic ''string'' True (BString ''v'')}" for a b
    by (auto simp: sample_value_def subvals_simps)
  show ?thesis by (simp add: addresses_ok_def sub) (simp add: sample_value_def)
qed



text \<open>
  A value contains every value that is deeply equal to it, apart from the functions and NaNs
  that are not equal to themselves: a workload that already has the wanted specification is not updated.
\<close>

theorem DeepContains_equal:
  assumes "addresses_ok x y" "strip x = strip y" "plain y"
  shows "DeepContains (Some x) (Some y)"
  using strip_contains [OF assms(2,3)] by (simp add: DeepContains_agrees [OF assms(1)])

theorem DeepContains_equal_witness:
  "DeepContains (Some (sample_value 1 (BInt 3))) (Some (sample_value 11 (BInt 3)))"
  by (rule DeepContains_equal [OF sample_addresses]) (simp_all add: sample_value_def)

text \<open>
  A nil pointer contains every pointer of its type: a field that is missing in the existing workload is
  not found to differ from the wanted one.
\<close>

lemma nil_pointer_contains:
  "DeepContains (Some (VPtr t a None)) (Some (VPtr t b d))" "\<not> doc_contains (VPtr t a None) (VPtr t b (Some (p, y)))"
  by (auto simp: DeepContains_def deepValueContains.simps Let_def doc_contains_simps split: option.split)

lemma nil_slice_not_contains: "DeepContains (Some (VSlice t None None)) (Some (VSlice t b (Some (p, y # ys)))) = False"
  by (simp add: DeepContains_def deepValueContains.simps Let_def visit_key_def)

end
