(* ===== verification/GridService.thy ===== *)
theory GridService
  imports GridCommon RefManager Consistency GridStorage
begin

text \<open>
  The controller of service grids (\<open>src/pkg/application-grid-controller/controller/service\<close>, without
  \<open>fed_service.go\<close>). A grid stands for one service, whose topology keys are read by the application-grid-wrapper of
  every node; with the label of the federation it is also copied to the namespaces of the managed clusters.

  The maps of labels, annotations and selectors are held by reference (\<open>GridCommon\<close>), since \<open>CreateService\<close> writes into those of the
  grid. The goroutines of one synchronisation are tasks that make one call to the API server at a time; which of them moves next is
  an argument (\<open>pick\<close>), as is the answer to the n-th call (\<open>svc_respond\<close>). The time in a condition is left out.
\<close>

section \<open>Data\<close>

record svc_meta =
  vm_Name :: string
  vm_Namespace :: string
  vm_UID :: string
  vm_ResourceVersion :: string
  vm_Labels :: ref_map
  vm_Annotations :: ref_map
  vm_OwnerReferences :: "OwnerReference list"
  vm_DeletionTimestamp :: "int option"

record ServicePort =
  vp_Name :: string
  vp_Protocol :: string
  vp_Port :: int
  vp_TargetPort :: goval
  vp_NodePort :: int

text \<open>The fields that no operation looks into are reflected values (\<open>vs_Rest\<close>).\<close>

record ServiceSpec =
  vs_Ports :: "ServicePort list"
  vs_Selector :: ref_map
  vs_ClusterIP :: string
  vs_Type :: string
  vs_Rest :: "goval list"

record Service =
  vc_Meta :: svc_meta
  vc_Spec :: ServiceSpec

text \<open>A condition of the status is its type, which is also its reason, and its message.\<close>

record ServiceGrid =
  vg_Meta :: svc_meta
  vg_GridUniqKey :: string
  vg_Template :: ServiceSpec
  vg_Conditions :: "(string \<times> string) list"

text \<open>The contents of an object at the moment of a call.\<close>

record service_spec_value =
  xs_Ports :: "ServicePort list"
  xs_Selector :: "labels option"
  xs_ClusterIP :: string
  xs_Type :: string
  xs_Rest :: "goval list"

record service_value =
  xc_Meta :: object_meta
  xc_Spec :: service_spec_value

record service_grid_value =
  xg_Meta :: object_meta
  xg_GridUniqKey :: string
  xg_Template :: service_spec_value
  xg_Conditions :: "(string \<times> string) list"

definition svc_meta_value :: "heap \<Rightarrow> svc_meta \<Rightarrow> object_meta" where
  "svc_meta_value h m = \<lparr>om_Name = vm_Name m, om_Namespace = vm_Namespace m, om_UID = vm_UID m, om_ResourceVersion = vm_ResourceVersion m,
     om_Labels = load h (vm_Labels m), om_Annotations = load h (vm_Annotations m), om_OwnerReferences = vm_OwnerReferences m,
     om_DeletionTimestamp = vm_DeletionTimestamp m\<rparr>"

definition spec_contents :: "heap \<Rightarrow> ServiceSpec \<Rightarrow> service_spec_value" where
  "spec_contents h s = \<lparr>xs_Ports = vs_Ports s, xs_Selector = load h (vs_Selector s), xs_ClusterIP = vs_ClusterIP s, xs_Type = vs_Type s,
     xs_Rest = map strip (vs_Rest s)\<rparr>"

definition service_contents :: "heap \<Rightarrow> Service \<Rightarrow> service_value" where
  "service_contents h svc = \<lparr>xc_Meta = svc_meta_value h (vc_Meta svc), xc_Spec = spec_contents h (vc_Spec svc)\<rparr>"

definition service_grid_contents :: "heap \<Rightarrow> ServiceGrid \<Rightarrow> service_grid_value" where
  "service_grid_contents h sg = \<lparr>xg_Meta = svc_meta_value h (vg_Meta sg), xg_GridUniqKey = vg_GridUniqKey sg,
     xg_Template = spec_contents h (vg_Template sg), xg_Conditions = vg_Conditions sg\<rparr>"

text \<open>A specification as the reflection of \<open>DeepContains\<close> sees it; the pointer of the slice of ports is an argument.\<close>

definition reflect_port :: "ServicePort \<Rightarrow> goval" where
  "reflect_port p = VStruct ''ServicePort'' [VBasic ''string'' True (BString (vp_Name p)), VBasic ''Protocol'' True (BString (vp_Protocol p)),
     VBasic ''int32'' True (BInt (vp_Port p)), vp_TargetPort p, VBasic ''int32'' True (BInt (vp_NodePort p))]"

definition reflect_selector :: "heap \<Rightarrow> ref_map \<Rightarrow> goval" where
  "reflect_selector h r = VMap ''map[string]string'' None
     (map_option (\<lambda>a. (a, map (\<lambda>(k, v). (BString k, VBasic ''string'' True (BString v))) (h ! a))) r)"

definition reflect_service_spec :: "nat \<Rightarrow> heap \<Rightarrow> ServiceSpec \<Rightarrow> goval" where
  "reflect_service_spec p h s = VStruct ''ServiceSpec''
     (VSlice ''[]ServicePort'' None (Some (p, map reflect_port (vs_Ports s))) # reflect_selector h (vs_Selector s) #
      VBasic ''string'' True (BString (vs_ClusterIP s)) # VBasic ''ServiceType'' True (BString (vs_Type s)) # vs_Rest s)"

definition reflect_service_grid :: "nat \<Rightarrow> heap \<Rightarrow> ServiceGrid \<Rightarrow> goval" where
  "reflect_service_grid p h sg = VStruct ''ServiceGridSpec''
     [VBasic ''string'' True (BString (vg_GridUniqKey sg)), reflect_service_spec p h (vg_Template sg)]"

section \<open>The service of a grid\<close>

text \<open>\<open>util/service_util.go\<close>. \<open>json_Marshal\<close> is the JSON text of a list of strings.\<close>

definition GetServiceName :: "ServiceGrid \<Rightarrow> string" where
  "GetServiceName sg = vm_Name (vg_Meta sg) @ ''-svc''"

text \<open>The labels and the annotations of the new service are the maps of the grid, if it has them.\<close>

definition service_labels :: "ServiceGrid \<Rightarrow> heap \<Rightarrow> nat \<times> heap" where
  "service_labels sg h =
     (case vm_Labels (vg_Meta sg) of
        Some a \<Rightarrow> (a, set_key a GridSelectorUniqKeyName (vg_GridUniqKey sg) (set_key a GridSelectorName (vm_Name (vg_Meta sg)) h))
      | None \<Rightarrow> alloc [(GridSelectorName, vm_Name (vg_Meta sg)), (GridSelectorUniqKeyName, vg_GridUniqKey sg)] h)"

definition service_annotations :: "(string list \<Rightarrow> string) \<Rightarrow> ServiceGrid \<Rightarrow> heap \<Rightarrow> nat \<times> heap" where
  "service_annotations json_Marshal sg h =
     (let keyData = json_Marshal [vg_GridUniqKey sg] in
      case vm_Annotations (vg_Meta sg) of
        Some a \<Rightarrow> (a, set_key a TopologyAnnotationsKey keyData h)
      | None \<Rightarrow> alloc [(TopologyAnnotationsKey, keyData)] h)"

definition CreateService :: "(string list \<Rightarrow> string) \<Rightarrow> ServiceGrid \<Rightarrow> heap \<Rightarrow> Service \<times> heap" where
  "CreateService json_Marshal sg h =
     (let (ls, h1) = service_labels sg h;
          (an, h2) = service_annotations json_Marshal sg h1
      in (\<lparr>vc_Meta = \<lparr>vm_Name = GetServiceName sg, vm_Namespace = vm_Namespace (vg_Meta sg), vm_UID = '''', vm_ResourceVersion = '''',
             vm_Labels = Some ls, vm_Annotations = Some an, vm_OwnerReferences = [], vm_DeletionTimestamp = None\<rparr>,
           vc_Spec = vg_Template sg\<rparr>, h2))"

text \<open>\<open>TargetPort_String\<close> is \<open>IntOrString.String\<close>.\<close>

definition constructServicePortIdentify :: "(goval \<Rightarrow> string) \<Rightarrow> ServicePort \<Rightarrow> string" where
  "constructServicePortIdentify TargetPort_String port =
     vp_Name port @ ''-'' @ vp_Protocol port @ ''-'' @ Itoa (vp_Port port) @ ''-'' @ TargetPort_String (vp_TargetPort port) @ ''-'' @ Itoa (vp_NodePort port)"

definition NodePorts :: "(goval \<Rightarrow> string) \<Rightarrow> ServicePort list \<Rightarrow> (string, int) gomap" where
  "NodePorts f ports = fold (\<lambda>port m. mput (constructServicePortIdentify f port) (vp_NodePort port) m) ports []"

text \<open>
  The ports of the result are the slice of the template of the grid, so the grid gets the node ports too. Nothing calls this function.
\<close>

definition keep_port :: "(goval \<Rightarrow> string) \<Rightarrow> (string, int) gomap \<Rightarrow> (string, int) gomap \<Rightarrow> ServicePort \<Rightarrow> ServicePort" where
  "keep_port f oldPorts newPorts port =
     (case mget oldPorts (constructServicePortIdentify f port) of
        None \<Rightarrow> port
      | Some n \<Rightarrow> if mget0 0 newPorts (vp_Name port) = 0 \<and> mget0 0 oldPorts (vp_Name port) \<noteq> 0 then port\<lparr>vp_NodePort := n\<rparr> else port)"

definition KeepConsistence_svc :: "(string list \<Rightarrow> string) \<Rightarrow> (goval \<Rightarrow> string) \<Rightarrow> ServiceGrid \<Rightarrow> Service \<Rightarrow> heap \<Rightarrow> (Service \<times> ServiceGrid) \<times> heap" where
  "KeepConsistence_svc json_Marshal f sg svc h =
     (let (cls, h1) = copy_ref (vm_Labels (vc_Meta svc)) h;
          (can, h2) = copy_ref (vm_Annotations (vc_Meta svc)) h1;
          (ls, h3) = service_labels sg h2;
          (an, h4) = (case can of None \<Rightarrow> alloc [] h3 | Some a \<Rightarrow> (a, h3));
          h5 = set_key an TopologyAnnotationsKey (json_Marshal [vg_GridUniqKey sg]) h4;
          node_port = (vs_Type (vg_Template sg) = ''NodePort'' \<and> vs_Type (vc_Spec svc) = ''NodePort'');
          ports = vs_Ports (vg_Template sg);
          ports = (if node_port then map (keep_port f (NodePorts f (vs_Ports (vc_Spec svc))) (NodePorts f ports)) ports else ports)
      in ((svc\<lparr>vc_Meta := (vc_Meta svc)\<lparr>vm_Labels := Some ls, vm_Annotations := Some an\<rparr>,
               vc_Spec := (vc_Spec svc)\<lparr>vs_Selector := vs_Selector (vg_Template sg), vs_Ports := ports\<rparr>\<rparr>,
           sg\<lparr>vg_Template := (vg_Template sg)\<lparr>vs_Ports := ports\<rparr>\<rparr>), h5))"

section \<open>Copies for the managed clusters\<close>

definition copy_service_spec :: "ServiceSpec \<Rightarrow> heap \<Rightarrow> ServiceSpec \<times> heap" where
  "copy_service_spec s h = (let (sel, h1) = copy_ref (vs_Selector s) h in (s\<lparr>vs_Selector := sel\<rparr>, h1))"

definition copy_service_grid :: "ServiceGrid \<Rightarrow> heap \<Rightarrow> ServiceGrid \<times> heap" where
  "copy_service_grid sg h =
     (let (ls, h1) = copy_ref (vm_Labels (vg_Meta sg)) h;
          (an, h2) = copy_ref (vm_Annotations (vg_Meta sg)) h1;
          (t, h3) = copy_service_spec (vg_Template sg) h2
      in (sg\<lparr>vg_Meta := (vg_Meta sg)\<lparr>vm_Labels := ls, vm_Annotations := an\<rparr>, vg_Template := t\<rparr>, h3))"

text \<open>What the operations call, besides the listers.\<close>

datatype svc_call =
    SvcCreate service_value
  | SvcGet string string
  | SvcUpdate service_value
  | SvcDelete string string
  | SgStatus service_grid_value
  | SgCreate service_grid_value
  | SgUpdate service_grid_value
  | SgDelete string string

text \<open>
  The answer to a call is an error or the resource version and the cluster address of the object that is returned, which
  only \<open>SvcGet\<close> looks at. \<open>Error\<close> is the text of an error.
\<close>

record svc_env = label_lib +
  svc_ControllerOf :: "object_meta \<Rightarrow> OwnerReference option"
  svc_ControllerRef :: "string \<Rightarrow> string \<Rightarrow> string \<Rightarrow> OwnerReference"
  json_Marshal :: "string list \<Rightarrow> string"
  Error :: "apierr \<Rightarrow> string"
  Default_svc :: "Service \<Rightarrow> Service"
  Default_sg :: "ServiceGrid \<Rightarrow> ServiceGrid"
  svc_respond :: "nat \<Rightarrow> svc_call \<Rightarrow> apierr + string \<times> string"
  pick :: "nat \<Rightarrow> nat"

text \<open>Writing to a nil map panics.\<close>

definition CreateServiceGrid :: "'a svc_env_scheme \<Rightarrow> ServiceGrid \<Rightarrow> string \<Rightarrow> heap \<Rightarrow> (ServiceGrid \<times> heap) go" where
  "CreateServiceGrid env sg nameSpace h =
     (let (sgcopy, h1) = copy_service_grid sg h;
          TargetNameSpace = vm_Namespace (vg_Meta sgcopy)
      in case vm_Labels (vg_Meta sgcopy) of
           None \<Rightarrow> Panic
         | Some a \<Rightarrow>
             Ret (sgcopy\<lparr>vg_Meta := (vg_Meta sgcopy)\<lparr>vm_ResourceVersion := '''', vm_Namespace := nameSpace,
                    vm_OwnerReferences := [svc_ControllerRef env (vm_Name (vg_Meta sg)) (vm_UID (vg_Meta sg)) ServiceGridKind]\<rparr>\<rparr>,
                  set_key a FedrationDisKey ''yes'' (set_key a FedTargetNameSpace TargetNameSpace h1)))"

definition UpdateServiceGrid :: "ServiceGrid \<Rightarrow> ServiceGrid \<Rightarrow> heap \<Rightarrow> ServiceGrid \<times> heap" where
  "UpdateServiceGrid sg fed h =
     (let (sgcopy, h1) = copy_service_grid fed h
      in (sgcopy\<lparr>vg_GridUniqKey := vg_GridUniqKey sg, vg_Template := vg_Template sg\<rparr>, h1))"

section \<open>Concurrent calls\<close>

record svc_state =
  vst_heap :: heap
  vst_log :: "svc_call list"
  vst_events :: "string list"

definition svc_api :: "'a svc_env_scheme \<Rightarrow> svc_call \<Rightarrow> svc_state \<Rightarrow> (apierr + string \<times> string) \<times> svc_state" where
  "svc_api env c st = (svc_respond env (length (vst_log st)) c, st\<lparr>vst_log := vst_log st @ [c]\<rparr>)"

text \<open>
  The goroutines of \<open>syncService\<close>: what a goroutine does next. One that updates a service reads it first; one whose
  call has failed writes the condition to the status of the grid.
\<close>

datatype svc_task =
    TCreate Service
  | TGet Service
  | TUpdate Service
  | TDelete Service
  | TStatus string apierr

definition failed_task :: "string \<Rightarrow> apierr \<Rightarrow> svc_state \<Rightarrow> svc_task option \<times> apierr list \<times> svc_state" where
  "failed_task reason err st = (Some (TStatus reason err), [err], st\<lparr>vst_events := vst_events st @ [reason]\<rparr>)"

text \<open>One call: what is left of the goroutine, and the error it sends.\<close>

fun svc_step :: "'a svc_env_scheme \<Rightarrow> ServiceGrid \<Rightarrow> svc_task \<Rightarrow> svc_state \<Rightarrow> svc_task option \<times> apierr list \<times> svc_state" where
  "svc_step env sg (TCreate svc) st =
     (case svc_api env (SvcCreate (service_contents (vst_heap st) svc)) st of
        (Inl err, st1) \<Rightarrow> if err \<noteq> EAlreadyExists then failed_task ''CreateError'' err st1 else (None, [], st1)
      | (Inr _, st1) \<Rightarrow> (None, [], st1))"
| "svc_step env sg (TGet svc) st =
     (case svc_api env (SvcGet (vm_Namespace (vc_Meta svc)) (vm_Name (vc_Meta svc))) st of
        (Inl err, st1) \<Rightarrow> (None, [], st1)
      | (Inr (rv, ip), st1) \<Rightarrow>
          let svc = (if vm_ResourceVersion (vc_Meta svc) = '''' then svc\<lparr>vc_Meta := (vc_Meta svc)\<lparr>vm_ResourceVersion := rv\<rparr>\<rparr> else svc);
              svc = (if vs_ClusterIP (vc_Spec svc) = '''' then svc\<lparr>vc_Spec := (vc_Spec svc)\<lparr>vs_ClusterIP := ip\<rparr>\<rparr> else svc)
          in (Some (TUpdate svc), [], st1))"
| "svc_step env sg (TUpdate svc) st =
     (case svc_api env (SvcUpdate (service_contents (vst_heap st) svc)) st of
        (Inl err, st1) \<Rightarrow> failed_task ''UpdateError'' err st1
      | (Inr _, st1) \<Rightarrow> (None, [], st1))"
| "svc_step env sg (TDelete svc) st =
     (case svc_api env (SvcDelete (vm_Namespace (vc_Meta svc)) (vm_Name (vc_Meta svc))) st of
        (Inl err, st1) \<Rightarrow> if err \<noteq> ENotFound then failed_task ''DeleteError'' err st1 else (None, [], st1)
      | (Inr _, st1) \<Rightarrow> (None, [], st1))"
| "svc_step env sg (TStatus reason err) st =
     (case svc_api env (SgStatus (service_grid_contents (vst_heap st) (sg\<lparr>vg_Conditions := [(reason, Error env err)]\<rparr>))) st of
        (_, st1) \<Rightarrow> (None, [], st1))"

text \<open>The number of calls that a goroutine can still make.\<close>

fun task_calls :: "svc_task \<Rightarrow> nat" where
  "task_calls (TGet _) = 3"
| "task_calls (TStatus _ _) = 1"
| "task_calls _ = 2"

lemma svc_step_calls: "svc_step env sg t st = (Some t', errs, st') \<Longrightarrow> task_calls t' < task_calls t"
  by (cases t) (auto simp: failed_task_def svc_api_def Let_def split: sum.splits prod.splits if_splits)

definition next_task :: "'a svc_env_scheme \<Rightarrow> svc_task list \<Rightarrow> svc_state \<Rightarrow> nat" where
  "next_task env ts st = pick env (length (vst_log st)) mod length ts"

definition replace_task :: "svc_task list \<Rightarrow> nat \<Rightarrow> svc_task option \<Rightarrow> svc_task list" where
  "replace_task ts i t = take i ts @ (case t of None \<Rightarrow> [] | Some t' \<Rightarrow> [t']) @ drop (Suc i) ts"

lemma replace_task_calls:
  assumes "i < length ts" "\<And>t'. t = Some t' \<Longrightarrow> task_calls t' < task_calls (ts ! i)"
  shows "sum_list (map task_calls (replace_task ts i t)) < sum_list (map task_calls ts)"
proof -
  have "sum_list (map task_calls ts) = sum_list (map task_calls (take i ts @ ts ! i # drop (Suc i) ts))"
    using assms(1) by (simp add: id_take_nth_drop [symmetric])
  moreover have "0 < task_calls (ts ! i)" by (cases "ts ! i") auto
  ultimately show ?thesis using assms(2) by (cases t) (auto simp: replace_task_def)
qed

text \<open>The goroutines until all of them are done, and the errors in the order of the channel.\<close>

function run_tasks :: "'a svc_env_scheme \<Rightarrow> ServiceGrid \<Rightarrow> svc_task list \<Rightarrow> svc_state \<Rightarrow> apierr list \<times> svc_state" where
  "run_tasks env sg ts st =
     (if ts = [] then ([], st)
      else
        let i = next_task env ts st;
            (t, errs, st1) = svc_step env sg (ts ! i) st;
            (errCh, st2) = run_tasks env sg (replace_task ts i t) st1
        in (errs @ errCh, st2))"
  by pat_completeness auto

termination
  by (relation "measure (\<lambda>(env, sg, ts, st). sum_list (map task_calls ts))")
    (auto simp: next_task_def intro!: replace_task_calls dest: svc_step_calls [OF sym])

declare run_tasks.simps [simp del]

definition syncService :: "'a svc_env_scheme \<Rightarrow> ServiceGrid \<Rightarrow> Service list \<Rightarrow> Service list \<Rightarrow> Service list \<Rightarrow> svc_state \<Rightarrow> apierr list \<times> svc_state" where
  "syncService env sg adds updates deletes st = run_tasks env sg (map TCreate adds @ map TGet updates @ map TDelete deletes) st"

text \<open>The loop over the services: whether the service of the grid exists, and what is to be updated and deleted.\<close>

fun plan_services :: "'a svc_env_scheme \<Rightarrow> ServiceGrid \<Rightarrow> Service list \<Rightarrow> heap \<Rightarrow> (bool \<times> Service list \<times> Service list) \<times> heap" where
  "plan_services env g [] h = ((False, [], []), h)"
| "plan_services env g (svc # svcs) h =
     (if vm_Name (vc_Meta svc) = GetServiceName g then
        let (SvcToUpdate, h1) = CreateService (json_Marshal env) g h;
            SvcToUpdate = Default_svc env SvcToUpdate;
            changed = \<not> DeepContains (Some (reflect_service_spec 0 h1 (vc_Spec svc))) (Some (reflect_service_spec 1 h1 (vc_Spec SvcToUpdate)));
            ((_, updates, deletes), h2) = plan_services env g svcs h1
        in ((True, if changed then SvcToUpdate # updates else updates, deletes), h2)
      else
        let ((isExistingSvc, updates, deletes), h1) = plan_services env g svcs h
        in ((isExistingSvc, updates, svc # deletes), h1))"

definition reconcile_svc :: "'a svc_env_scheme \<Rightarrow> ServiceGrid \<Rightarrow> Service list \<Rightarrow> svc_state \<Rightarrow> apierr list \<times> svc_state" where
  "reconcile_svc env g svcList st =
     (let ((isExistingSvc, updates, deletes), h1) = plan_services env g svcList (vst_heap st) in
      if isExistingSvc then syncService env g [] updates deletes (st\<lparr>vst_heap := h1\<rparr>)
      else
        let (svc, h2) = CreateService (json_Marshal env) g h1
        in syncService env g [svc] updates deletes (st\<lparr>vst_heap := h2\<rparr>))"

section \<open>Distribution to managed clusters\<close>

text \<open>The goroutines of \<open>syncDisServiceGrid\<close> make one call each.\<close>

fun grid_call_benign :: "svc_call \<Rightarrow> apierr \<Rightarrow> bool" where
  "grid_call_benign (SgCreate _) err = (err = EAlreadyExists)"
| "grid_call_benign (SgDelete _ _) err = (err = ENotFound)"
| "grid_call_benign _ err = False"

lemma remove_nth_length: "cs \<noteq> [] \<Longrightarrow> length (take (n mod length cs) cs @ drop (Suc (n mod length cs)) cs) < length cs"
proof -
  assume "cs \<noteq> []"
  then have "n mod length cs < length cs" by simp
  then show ?thesis by simp
qed

function run_grid_calls :: "'a svc_env_scheme \<Rightarrow> svc_call list \<Rightarrow> svc_state \<Rightarrow> apierr list \<times> svc_state" where
  "run_grid_calls env cs st =
     (if cs = [] then ([], st)
      else
        let i = pick env (length (vst_log st)) mod length cs;
            (r, st1) = svc_api env (cs ! i) st;
            (errCh, st2) = run_grid_calls env (take i cs @ drop (Suc i) cs) st1
        in (case r of Inl err \<Rightarrow> if grid_call_benign (cs ! i) err then errCh else err # errCh | Inr _ \<Rightarrow> errCh, st2))"
  by pat_completeness auto

termination
  by (relation "measure (\<lambda>(env, cs, st). length cs)") (simp_all add: remove_nth_length del: length_append length_drop length_take)

declare run_grid_calls.simps [simp del]

definition syncDisServiceGrid :: "'a svc_env_scheme \<Rightarrow> ServiceGrid list \<Rightarrow> ServiceGrid list \<Rightarrow> ServiceGrid list \<Rightarrow> svc_state \<Rightarrow> apierr list \<times> svc_state" where
  "syncDisServiceGrid env adds updates deletes st =
     (let (errCh, st1) = run_grid_calls env
        (map (\<lambda>s. SgCreate (service_grid_contents (vst_heap st) s)) adds @ map (\<lambda>s. SgUpdate (service_grid_contents (vst_heap st) s)) updates @
         map (\<lambda>s. SgDelete (vm_Namespace (vg_Meta s)) (vm_Name (vg_Meta s))) deletes) st
      in (filter (\<lambda>e. e \<noteq> EConflict) errCh, st1))"

fun plan_fed_svc :: "'a svc_env_scheme \<Rightarrow> ServiceGrid \<Rightarrow> (string, ServiceGrid) gomap \<Rightarrow> string list \<Rightarrow> heap \<Rightarrow> ((ServiceGrid list \<times> ServiceGrid list) \<times> heap) go" where
  "plan_fed_svc env sg existed [] h = Ret (([], []), h)"
| "plan_fed_svc env sg existed (ns # nss) h =
     (case mget existed ns of
        None \<Rightarrow>
          go_bind (CreateServiceGrid env sg ns h) (\<lambda>(toAdd, h1).
            go_bind (plan_fed_svc env sg existed nss h1) (\<lambda>((adds, updates), h2). Ret ((toAdd # adds, updates), h2)))
      | Some fedsg \<Rightarrow>
          let (toUpdate, h1) = UpdateServiceGrid sg fedsg h;
              toUpdate = Default_sg env toUpdate;
              changed = \<not> DeepContains (Some (reflect_service_grid 0 h1 fedsg)) (Some (reflect_service_grid 1 h1 toUpdate))
          in go_bind (plan_fed_svc env sg existed nss h1) (\<lambda>((adds, updates), h2).
               Ret ((adds, if changed then toUpdate # updates else updates), h2)))"

definition reconcileFed_svc :: "'a svc_env_scheme \<Rightarrow> ServiceGrid \<Rightarrow> ServiceGrid list \<Rightarrow> string list \<Rightarrow> svc_state \<Rightarrow> (apierr list \<times> svc_state) go" where
  "reconcileFed_svc env sg sgList disNsList st =
     (let existedDisSgMap = fold (\<lambda>fedsg m. mput (vm_Namespace (vg_Meta fedsg)) fedsg m) sgList [] in
      go_bind (plan_fed_svc env sg existedDisSgMap disNsList (vst_heap st)) (\<lambda>((adds, updates), h1).
        Ret (syncDisServiceGrid env adds updates (filter (\<lambda>s. vm_Namespace (vg_Meta s) \<notin> set disNsList) sgList) (st\<lparr>vst_heap := h1\<rparr>))))"

section \<open>Controller\<close>

text \<open>The informer caches; \<open>sg_List\<close> takes the namespace (\<open>None\<close>: all of them) and a selector.\<close>

record svc_ctl_env = svc_env +
  SplitKey :: "string \<Rightarrow> go_error + string \<times> string"
  sg_Get :: "string \<Rightarrow> string \<Rightarrow> apierr + ServiceGrid"
  sg_List :: "string option \<Rightarrow> requirement list \<Rightarrow> go_error + ServiceGrid list"
  svc_List :: "string \<Rightarrow> go_error + Service list"
  ns_List :: "requirement list \<Rightarrow> go_error + object_meta list"
  sg_fresh :: "string \<Rightarrow> string \<Rightarrow> go_error + object_meta"
  svc_ref_respond :: "nat \<Rightarrow> ref_call \<Rightarrow> apierr option"

text \<open>An event handler is the list of the grids that it enqueues.\<close>

definition resolveControllerRef_svc :: "'a svc_ctl_env_scheme \<Rightarrow> string \<Rightarrow> OwnerReference \<Rightarrow> ServiceGrid option" where
  "resolveControllerRef_svc env namespace controllerRef =
     (if or_Kind controllerRef \<noteq> ServiceGridKind then None
      else case sg_Get env namespace (or_Name controllerRef) of
        Inl err \<Rightarrow> None
      | Inr sg \<Rightarrow> if vm_UID (vg_Meta sg) \<noteq> or_UID controllerRef then None else Some sg)"

fun matching_service_grids :: "'a svc_ctl_env_scheme \<Rightarrow> labels option \<Rightarrow> ServiceGrid list \<Rightarrow> ServiceGrid list option" where
  "matching_service_grids env ls [] = Some []"
| "matching_service_grids env ls (sg # sgs) =
     (case GetDefaultSelector env (vm_Name (vg_Meta sg)) of
        Inl err \<Rightarrow> None
      | Inr selector \<Rightarrow>
          (case matching_service_grids env ls sgs of
             None \<Rightarrow> None
           | Some r \<Rightarrow> Some (if Matches env selector ls then sg # r else r)))"

definition getGridForService :: "'a svc_ctl_env_scheme \<Rightarrow> object_meta \<Rightarrow> ServiceGrid list" where
  "getGridForService env svc =
     (if length (node_labels svc) = 0 then []
      else case sg_List env (Some (om_Namespace svc)) [] of
        Inl err \<Rightarrow> []
      | Inr sgList \<Rightarrow> (case matching_service_grids env (om_Labels svc) sgList of None \<Rightarrow> [] | Some r \<Rightarrow> r))"

definition owner_grid :: "'a svc_ctl_env_scheme \<Rightarrow> string \<Rightarrow> OwnerReference \<Rightarrow> ServiceGrid list" where
  "owner_grid env ns r = (case resolveControllerRef_svc env ns r of None \<Rightarrow> [] | Some sg \<Rightarrow> [sg])"

definition deleteService :: "'a svc_ctl_env_scheme \<Rightarrow> object_meta deleted \<Rightarrow> ServiceGrid list" where
  "deleteService env obj =
     (case deleted_object obj of
        None \<Rightarrow> []
      | Some svc \<Rightarrow>
          if \<not> IsConcernedObject svc then []
          else case svc_ControllerOf env svc of None \<Rightarrow> [] | Some controllerRef \<Rightarrow> owner_grid env (om_Namespace svc) controllerRef)"

definition addService :: "'a svc_ctl_env_scheme \<Rightarrow> object_meta \<Rightarrow> ServiceGrid list" where
  "addService env svc =
     (if \<not> IsConcernedObject svc then []
      else if om_DeletionTimestamp svc \<noteq> None then deleteService env (deleted.Deleted svc)
      else case svc_ControllerOf env svc of
        Some controllerRef \<Rightarrow> owner_grid env (om_Namespace svc) controllerRef
      | None \<Rightarrow> getGridForService env svc)"

definition updateService :: "'a svc_ctl_env_scheme \<Rightarrow> object_meta \<Rightarrow> object_meta \<Rightarrow> ServiceGrid list" where
  "updateService env oldSvc curSvc =
     (if om_ResourceVersion curSvc = om_ResourceVersion oldSvc then []
      else
        let curControllerRef = svc_ControllerOf env curSvc;
            oldControllerRef = svc_ControllerOf env oldSvc;
            controllerRefChanged = (curControllerRef \<noteq> oldControllerRef);
            old = (case oldControllerRef of
                     None \<Rightarrow> []
                   | Some r \<Rightarrow> if controllerRefChanged then owner_grid env (om_Namespace oldSvc) r else [])
        in case curControllerRef of
             Some r \<Rightarrow> old @ owner_grid env (om_Namespace curSvc) r
           | None \<Rightarrow>
               if \<not> IsConcernedObject curSvc then old
               else if \<not> map_DeepEqual (om_Labels curSvc) (om_Labels oldSvc) \<or> controllerRefChanged
               then old @ getGridForService env curSvc else old)"

definition addNameSpace_svc :: "'a svc_ctl_env_scheme \<Rightarrow> object_meta \<Rightarrow> ServiceGrid list" where
  "addNameSpace_svc env ns =
     (if nget (om_Labels ns) FedManagedClustIdKey = None then []
      else case NewRequirement env (FedrationKey, Equals, [''yes'']) of
        Some err \<Rightarrow> []
      | None \<Rightarrow> (case sg_List env None [(FedrationKey, Equals, [''yes''])] of Inl err \<Rightarrow> [] | Inr sgList \<Rightarrow> sgList))"

definition addServiceGrid :: "ServiceGrid \<Rightarrow> ServiceGrid list" where
  "addServiceGrid sg = [sg]"

definition sg_label :: "heap \<Rightarrow> ServiceGrid \<Rightarrow> string \<Rightarrow> string option" where
  "sg_label h sg k = nget (load h (vm_Labels (vg_Meta sg))) k"

definition getFedServiceGrid :: "'a svc_ctl_env_scheme \<Rightarrow> heap \<Rightarrow> ServiceGrid \<Rightarrow> ServiceGrid option" where
  "getFedServiceGrid env h sg =
     (case sg_Get env (case sg_label h sg FedTargetNameSpace of None \<Rightarrow> '''' | Some ns \<Rightarrow> ns) (vm_Name (vg_Meta sg)) of
        Inl err \<Rightarrow> None
      | Inr fedSg \<Rightarrow> Some fedSg)"

text \<open>The cache of the controller of the parent cluster and the namespace that is dedicated to this cluster.\<close>

type_synonym parent_services = "(string \<Rightarrow> string \<Rightarrow> apierr + ServiceGrid) \<times> string"

definition getParentFedServiceGrid :: "parent_services \<Rightarrow> ServiceGrid \<Rightarrow> ServiceGrid option" where
  "getParentFedServiceGrid parent sg =
     (case fst parent (snd parent) (vm_Name (vg_Meta sg)) of Inl err \<Rightarrow> None | Inr parFedSg \<Rightarrow> Some parFedSg)"

text \<open>The second list goes to the queue of the controller of the parent cluster.\<close>

definition updateServiceGrid :: "'a svc_ctl_env_scheme \<Rightarrow> parent_services option \<Rightarrow> heap \<Rightarrow> ServiceGrid \<Rightarrow> ServiceGrid \<Rightarrow> ServiceGrid list \<times> ServiceGrid list" where
  "updateServiceGrid env parent h oldSg curSg =
     (if vm_ResourceVersion (vg_Meta curSg) = vm_ResourceVersion (vg_Meta oldSg) then ([], [])
      else
        let fed = (sg_label h curSg FedrationKey \<noteq> None); dis = (sg_label h curSg FedrationDisKey \<noteq> None)
        in (curSg # (if fed \<and> dis then (case getFedServiceGrid env h curSg of None \<Rightarrow> [] | Some fedSg \<Rightarrow> [fedSg]) else []),
            if fed \<and> \<not> dis then
              (case parent of
                 None \<Rightarrow> []
               | Some p \<Rightarrow> (case getParentFedServiceGrid p curSg of None \<Rightarrow> [] | Some parentFedSg \<Rightarrow> [parentFedSg]))
            else []))"

definition deleteServiceGrid :: "ServiceGrid deleted \<Rightarrow> ServiceGrid list" where
  "deleteServiceGrid obj = (case deleted_object obj of None \<Rightarrow> [] | Some sg \<Rightarrow> [sg])"

section \<open>Synchronisation\<close>

text \<open>The calls of the claims are kept apart from the others.\<close>

record svc_ctl_state =
  vcs_svc :: svc_state
  vcs_refs :: "ref_call list"

definition fresh_service_grid :: "'a svc_ctl_env_scheme \<Rightarrow> ServiceGrid \<Rightarrow> go_error + object_meta" where
  "fresh_service_grid env sg =
     (case sg_fresh env (vm_Namespace (vg_Meta sg)) (vm_Name (vg_Meta sg)) of
        Inl err \<Rightarrow> Inl err
      | Inr fresh \<Rightarrow>
          if om_UID fresh \<noteq> vm_UID (vg_Meta sg) then Inl ''orignal service grid %v/%v is gone: got uid %v, wanted %v'' else Inr fresh)"

definition getServiceForGrid :: "'a svc_ctl_env_scheme \<Rightarrow> ServiceGrid \<Rightarrow> svc_ctl_state \<Rightarrow> (apierr list + Service list) \<times> svc_ctl_state" where
  "getServiceForGrid env sg st =
     (case svc_List env (vm_Namespace (vg_Meta sg)) of
        Inl err \<Rightarrow> (Inl [EOther err], st)
      | Inr svcList \<Rightarrow>
          (case GetDefaultSelector env (vm_Name (vg_Meta sg)) of
             Inl err \<Rightarrow> (Inl [EOther err], st)
           | Inr labelSelector \<Rightarrow>
               let h = vst_heap (vcs_svc st);
                   (cm, cm0) = NewServiceControllerRefManager (svc_meta_value h (vg_Meta sg)) (Matches env labelSelector) (''superedge.io/v1'', ServiceGridKind)
                     (Some (RecheckDeletionTimestamp (fresh_service_grid env sg))) (svc_ControllerOf env) (svc_ref_respond env);
                   (claimed, errList, cm1) = ClaimService cm (\<lambda>s. svc_meta_value h (vc_Meta s)) svcList cm0
               in (if errList \<noteq> [] then Inl errList else Inr claimed, st\<lparr>vcs_refs := vcs_refs st @ cm_log cm1\<rparr>)))"

fun dis_service_grids :: "'a svc_ctl_env_scheme \<Rightarrow> string \<Rightarrow> string list \<Rightarrow> apierr + ServiceGrid list" where
  "dis_service_grids env name [] = Inr []"
| "dis_service_grids env name (ns # nss) =
     (case sg_Get env ns name of
        Inl err \<Rightarrow> if err = ENotFound then dis_service_grids env name nss else Inl err
      | Inr disSg \<Rightarrow> (case dis_service_grids env name nss of Inl err \<Rightarrow> Inl err | Inr r \<Rightarrow> Inr (disSg # r)))"

definition getDisServiceGridAndNameSpace :: "'a svc_ctl_env_scheme \<Rightarrow> ServiceGrid \<Rightarrow> apierr + ServiceGrid list \<times> string list" where
  "getDisServiceGridAndNameSpace env sg =
     (case NewRequirement env (FedManagedClustIdKey, Exists, []) of
        Some err \<Rightarrow> Inl (EOther err)
      | None \<Rightarrow>
          (case ns_List env [(FedManagedClustIdKey, Exists, [])] of
             Inl err \<Rightarrow> Inl (EOther err)
           | Inr nameSpaceList \<Rightarrow>
               let nsList = map om_Name nameSpaceList
               in case dis_service_grids env (vm_Name (vg_Meta sg)) nsList of Inl err \<Rightarrow> Inl err | Inr disSgList \<Rightarrow> Inr (disSgList, nsList)))"

definition syncServiceGrid :: "'a svc_ctl_env_scheme \<Rightarrow> string \<Rightarrow> svc_ctl_state \<Rightarrow> (apierr list \<times> svc_ctl_state) go" where
  "syncServiceGrid env key st =
     (case SplitKey env key of
        Inl err \<Rightarrow> Ret ([EOther err], st)
      | Inr (namespace, name) \<Rightarrow>
          (case sg_Get env namespace name of
             Inl err \<Rightarrow> Ret (if err = ENotFound then [] else [err], st)
           | Inr sg \<Rightarrow>
               if vg_GridUniqKey sg = '''' then Ret ([], st\<lparr>vcs_svc := (vcs_svc st)\<lparr>vst_events := vst_events (vcs_svc st) @ [''Empty'']\<rparr>\<rparr>)
               else
                 (case getServiceForGrid env sg st of
                    (Inl errs, st1) \<Rightarrow> Ret (errs, st1)
                  | (Inr svcList, st1) \<Rightarrow>
                      if vm_DeletionTimestamp (vg_Meta sg) \<noteq> None then Ret ([], st1)
                      else
                        let (errs, s2) = reconcile_svc env sg svcList (vcs_svc st1);
                            st2 = st1\<lparr>vcs_svc := s2\<rparr>
                        in if errs \<noteq> [] then Ret (errs, st2)
                           else if sg_label (vst_heap s2) sg FedrationKey \<noteq> None \<and> sg_label (vst_heap s2) sg FedrationDisKey = None then
                             (case getDisServiceGridAndNameSpace env sg of
                                Inl err \<Rightarrow> Ret ([err], st2)
                              | Inr (dissgList, nsList) \<Rightarrow>
                                  go_bind (reconcileFed_svc env sg dissgList nsList s2) (\<lambda>(errs, s3). Ret (errs, st2\<lparr>vcs_svc := s3\<rparr>)))
                           else Ret ([], st2))))"

section \<open>What the goroutines do\<close>

lemma svc_step_log:
  assumes "svc_step env sg t st = (t', errs, st')"
  shows "vst_heap st' = vst_heap st \<and> (\<exists>c. vst_log st' = vst_log st @ [c])"
  using assms by (cases t) (auto simp: failed_task_def svc_api_def Let_def split: sum.splits prod.splits if_splits)

lemma run_tasks_unfold:
  assumes "run_tasks env sg ts st = (errs, st')" "ts \<noteq> []"
  obtains i t errs1 st1 errs2 where "i < length ts" "svc_step env sg (ts ! i) st = (t, errs1, st1)"
    "run_tasks env sg (replace_task ts i t) st1 = (errs2, st')" "errs = errs1 @ errs2"
    "sum_list (map task_calls (replace_task ts i t)) < sum_list (map task_calls ts)"
proof -
  let ?i = "next_task env ts st"
  obtain t errs1 st1 where s: "svc_step env sg (ts ! ?i) st = (t, errs1, st1)" by (metis prod_cases3)
  obtain errs2 st2 where r: "run_tasks env sg (replace_task ts ?i t) st1 = (errs2, st2)" by fastforce
  have "?i < length ts" using assms(2) by (simp add: next_task_def)
  then show ?thesis
    using that [OF _ s] r assms run_tasks.simps [of env sg ts st] svc_step_calls [of env sg "ts ! ?i" st]
    by (auto simp: s intro: replace_task_calls)
qed

lemma list_all_replace_task:
  "list_all Q ts \<Longrightarrow> (\<And>u. t = Some u \<Longrightarrow> Q u) \<Longrightarrow> list_all Q (replace_task ts i t)"
  by (auto simp: replace_task_def list_all_iff dest: in_set_takeD in_set_dropD split: option.split)

text \<open>
  An invariant of the goroutines: when every step of a task in \<open>Q\<close> makes a call in \<open>P\<close>, sends errors in \<open>F\<close> only and leaves a task
  in \<open>Q\<close>, the whole synchronisation makes calls in \<open>P\<close> and returns errors in \<open>F\<close>. No step changes a map.
\<close>

lemma run_tasks_calls:
  assumes step: "\<And>t st t' errs st'. Q t \<Longrightarrow> vst_heap st = h \<Longrightarrow> svc_step env sg t st = (t', errs, st') \<Longrightarrow>
      P (last (vst_log st')) \<and> set errs \<subseteq> F \<and> (\<forall>u. t' = Some u \<longrightarrow> Q u)"
    and "list_all Q ts" "vst_heap st = h" "run_tasks env sg ts st = (errs, st')"
  shows "set errs \<subseteq> F \<and> vst_heap st' = h \<and> (\<exists>cs. vst_log st' = vst_log st @ cs \<and> list_all P cs)"
  using assms(2-4)
proof (induction "sum_list (map task_calls ts)" arbitrary: ts st errs rule: less_induct)
  case less
  show ?case
  proof (cases "ts = []")
    case False
    from run_tasks_unfold [OF less.prems(3) False]
    obtain i t errs1 st1 errs2 where r: "i < length ts" "svc_step env sg (ts ! i) st = (t, errs1, st1)"
      "run_tasks env sg (replace_task ts i t) st1 = (errs2, st')" "errs = errs1 @ errs2"
      "sum_list (map task_calls (replace_task ts i t)) < sum_list (map task_calls ts)" .
    have Q: "Q (ts ! i)" using less.prems(1) r(1) by (simp add: list_all_length)
    note ok = step [OF Q less.prems(2) r(2)] and log = svc_step_log [OF r(2)]
    have "list_all Q (replace_task ts i t)" using less.prems(1) ok by (intro list_all_replace_task) auto
    from less.hyps [OF r(5) this _ r(3)] log less.prems(2) ok r(4)
    show ?thesis by auto
  qed (use less.prems(2,3) in \<open>simp add: run_tasks.simps [of env sg "[]"]\<close>)
qed

text \<open>The names of the services after a call that succeeds.\<close>

fun apply_svc_call :: "svc_call \<Rightarrow> (string \<times> string) set \<Rightarrow> (string \<times> string) set" where
  "apply_svc_call (SvcCreate v) S = insert (om_Namespace (xc_Meta v), om_Name (xc_Meta v)) S"
| "apply_svc_call (SvcDelete ns n) S = S - {(ns, n)}"
| "apply_svc_call _ S = S"

abbreviation svc_key :: "Service \<Rightarrow> string \<times> string" where
  "svc_key svc \<equiv> (vm_Namespace (vc_Meta svc), vm_Name (vc_Meta svc))"

fun task_creates :: "svc_task \<Rightarrow> (string \<times> string) set" where
  "task_creates (TCreate svc) = {svc_key svc}"
| "task_creates _ = {}"

fun task_deletes :: "svc_task \<Rightarrow> (string \<times> string) set" where
  "task_deletes (TDelete svc) = {svc_key svc}"
| "task_deletes _ = {}"

lemma replace_task_union:
  assumes "i < length ts" "\<And>u. t = Some u \<Longrightarrow> f u = {}"
  shows "(\<Union>t \<in> set ts. f t) = f (ts ! i) \<union> (\<Union>t \<in> set (replace_task ts i t). f t)"
proof -
  have "(\<Union>t \<in> set ts. f t) = (\<Union>t \<in> set (take i ts @ ts ! i # drop (Suc i) ts). f t)"
    using assms(1) by (simp add: id_take_nth_drop [symmetric])
  then show ?thesis using assms(2) by (auto simp: replace_task_def split: option.split)
qed

lemma svc_step_ok:
  assumes "\<And>n c e. svc_respond env n c \<noteq> Inl e" "svc_step env sg t st = (t', errs, st')"
  shows "errs = [] \<and> (\<forall>u. t' = Some u \<longrightarrow> task_creates u = {} \<and> task_deletes u = {}) \<and>
    (\<exists>c. vst_log st' = vst_log st @ [c] \<and> (\<forall>S. apply_svc_call c S = (S - task_deletes t) \<union> task_creates t))"
  using assms
  by (cases t) (auto simp: svc_api_def service_contents_def svc_meta_value_def Let_def split: sum.splits prod.splits)

lemma diff_un_disjoint: "A \<inter> D' = {} \<Longrightarrow> ((S - D) \<union> A - D') \<union> A' = (S - (D \<union> D')) \<union> (A \<union> A')"
  by blast

text \<open>When every call succeeds, the order of the goroutines does not matter.\<close>

lemma run_tasks_effect:
  assumes ok: "\<And>n c e. svc_respond env n c \<noteq> Inl e"
    and "(\<Union>t \<in> set ts. task_creates t) \<inter> (\<Union>t \<in> set ts. task_deletes t) = {}" "run_tasks env sg ts st = (errs, st')"
  shows "errs = [] \<and> (\<exists>cs. vst_log st' = vst_log st @ cs \<and>
    (\<forall>S. fold apply_svc_call cs S = (S - (\<Union>t \<in> set ts. task_deletes t)) \<union> (\<Union>t \<in> set ts. task_creates t)))"
  using assms(2,3)
proof (induction "sum_list (map task_calls ts)" arbitrary: ts st errs rule: less_induct)
  case less
  show ?case
  proof (cases "ts = []")
    case False
    from run_tasks_unfold [OF less.prems(2) False]
    obtain i t errs1 st1 errs2 where r: "i < length ts" "svc_step env sg (ts ! i) st = (t, errs1, st1)"
      "run_tasks env sg (replace_task ts i t) st1 = (errs2, st')" "errs = errs1 @ errs2"
      "sum_list (map task_calls (replace_task ts i t)) < sum_list (map task_calls ts)" .
    have step: "errs1 = []" "\<And>u. t = Some u \<Longrightarrow> task_creates u = {} \<and> task_deletes u = {}"
      "\<exists>c. vst_log st1 = vst_log st @ [c] \<and> (\<forall>S. apply_svc_call c S = (S - task_deletes (ts ! i)) \<union> task_creates (ts ! i))"
      using svc_step_ok [OF ok r(2)] by auto
    note C = replace_task_union [OF r(1), of t task_creates] and D = replace_task_union [OF r(1), of t task_deletes]
    have "(\<Union>t \<in> set (replace_task ts i t). task_creates t) \<inter> (\<Union>t \<in> set (replace_task ts i t). task_deletes t) = {}"
      using less.prems(1) C D step(2) by auto
    from less.hyps [OF r(5) this r(3)] obtain cs where IH: "errs2 = []" "vst_log st' = vst_log st1 @ cs"
      "\<And>S. fold apply_svc_call cs S = (S - (\<Union>t \<in> set (replace_task ts i t). task_deletes t)) \<union> (\<Union>t \<in> set (replace_task ts i t). task_creates t)"
      by blast
    obtain c where c: "vst_log st1 = vst_log st @ [c]" "\<And>S. apply_svc_call c S = (S - task_deletes (ts ! i)) \<union> task_creates (ts ! i)"
      using step(3) by blast
    have C: "(\<Union>t \<in> set ts. task_creates t) = task_creates (ts ! i) \<union> (\<Union>t \<in> set (replace_task ts i t). task_creates t)"
      and D: "(\<Union>t \<in> set ts. task_deletes t) = task_deletes (ts ! i) \<union> (\<Union>t \<in> set (replace_task ts i t). task_deletes t)"
      using C D step(2) by auto
    have "task_creates (ts ! i) \<inter> (\<Union>t \<in> set (replace_task ts i t). task_deletes t) = {}" using less.prems(1) unfolding C D by blast
    then have "fold apply_svc_call (c # cs) S = (S - (\<Union>t \<in> set ts. task_deletes t)) \<union> (\<Union>t \<in> set ts. task_creates t)" for S
      unfolding C D by (simp only: fold_simps IH(3) c(2) diff_un_disjoint)
    then show ?thesis using IH(1,2) c(1) step(1) r(4) by (metis append.assoc append_Cons append_Nil)
  qed (use less.prems(2) in \<open>simp add: run_tasks.simps [of env sg "[]"]\<close>)
qed

section \<open>The plan\<close>

text \<open>The metadata of the service of a grid: its labels, the topology keys and no owner.\<close>

definition has_entry :: "heap \<Rightarrow> ref_map \<Rightarrow> string \<Rightarrow> string \<Rightarrow> bool" where
  "has_entry h r k v \<longleftrightarrow> ref_ok h r \<and> r \<noteq> None \<and> nget (load h r) k = Some v"

definition carries :: "(string list \<Rightarrow> string) \<Rightarrow> ServiceGrid \<Rightarrow> heap \<Rightarrow> svc_meta \<Rightarrow> bool" where
  "carries marshal g h m \<longleftrightarrow>
     vm_Name m = GetServiceName g \<and> vm_Namespace m = vm_Namespace (vg_Meta g) \<and> vm_OwnerReferences m = [] \<and>
     has_entry h (vm_Labels m) GridSelectorName (vm_Name (vg_Meta g)) \<and>
     has_entry h (vm_Labels m) GridSelectorUniqKeyName (vg_GridUniqKey g) \<and>
     has_entry h (vm_Annotations m) TopologyAnnotationsKey (marshal [vg_GridUniqKey g])"

definition grid_refs_ok :: "heap \<Rightarrow> ServiceGrid \<Rightarrow> bool" where
  "grid_refs_ok h g \<longleftrightarrow> ref_ok h (vm_Labels (vg_Meta g)) \<and> ref_ok h (vm_Annotations (vg_Meta g))"

lemma has_entry_set_key:
  "a < length h \<Longrightarrow> has_entry h r k v \<Longrightarrow> (k' = k \<Longrightarrow> v' = v) \<Longrightarrow> has_entry (set_key a k' v' h) r k v"
  by (auto simp: has_entry_def load_set_key mget_mput) (auto simp: load_def)

lemma has_entry_set: "a < length h \<Longrightarrow> has_entry (set_key a k v h) (Some a) k v"
  by (simp add: has_entry_def load_set_key mget_mput)

lemma has_entry_append: "has_entry h r k v \<Longrightarrow> has_entry (h @ hs) r k v"
  by (auto simp: has_entry_def)

lemma has_entry_alloc: "map_of ls k = Some v \<Longrightarrow> has_entry (h @ [ls]) (Some (length h)) k v"
  by (simp add: has_entry_def)

lemmas label_names = GridSelectorName_def GridSelectorUniqKeyName_def TopologyAnnotationsKey_def

lemma service_labels_ok:
  assumes "grid_refs_ok h g" "service_labels g h = (a, h')"
  shows "grid_refs_ok h' g \<and> has_entry h' (Some a) GridSelectorName (vm_Name (vg_Meta g)) \<and> has_entry h' (Some a) GridSelectorUniqKeyName (vg_GridUniqKey g) \<and>
    (carries marshal g h m \<longrightarrow> carries marshal g h' m)"
  using assms
  by (cases "vm_Labels (vg_Meta g)")
    (auto simp: service_labels_def grid_refs_ok_def carries_def alloc_def label_names
      intro!: has_entry_set_key has_entry_set has_entry_append has_entry_alloc)

lemma service_annotations_ok:
  assumes "grid_refs_ok h g" "service_annotations marshal g h = (a, h')"
  shows "grid_refs_ok h' g \<and> has_entry h' (Some a) TopologyAnnotationsKey (marshal [vg_GridUniqKey g]) \<and>
    (has_entry h r k v \<and> k \<noteq> TopologyAnnotationsKey \<longrightarrow> has_entry h' r k v) \<and> (carries marshal g h m \<longrightarrow> carries marshal g h' m)"
  using assms
  by (cases "vm_Annotations (vg_Meta g)")
    (auto simp: service_annotations_def grid_refs_ok_def carries_def alloc_def label_names
      intro!: has_entry_set_key has_entry_set has_entry_append has_entry_alloc)

lemma CreateService_ok:
  assumes "grid_refs_ok h g" "CreateService marshal g h = (svc, h')"
  shows "grid_refs_ok h' g \<and> carries marshal g h' (vc_Meta svc) \<and> vc_Spec svc = vg_Template g \<and> (carries marshal g h m \<longrightarrow> carries marshal g h' m)"
proof -
  obtain ls h1 where 1: "service_labels g h = (ls, h1)" by fastforce
  obtain an h2 where 2: "service_annotations marshal g h1 = (an, h2)" by fastforce
  note l = service_labels_ok [OF assms(1) 1]
  have ok: "grid_refs_ok h1 g" using l by blast
  note a = service_annotations_ok [OF ok 2]
  have "GridSelectorName \<noteq> TopologyAnnotationsKey" "GridSelectorUniqKeyName \<noteq> TopologyAnnotationsKey" by (simp_all add: label_names)
  then have "carries marshal g h2 (vc_Meta svc)" using assms(2) l a by (auto simp: CreateService_def carries_def 1 2)
  then show ?thesis using assms(2) l a by (auto simp: CreateService_def 1 2)
qed

text \<open>The defaults of a service leave its metadata alone.\<close>

definition defaults_spec_only :: "'a svc_env_scheme \<Rightarrow> bool" where
  "defaults_spec_only env \<longleftrightarrow> (\<forall>svc. vc_Meta (Default_svc env svc) = vc_Meta svc)"

lemma plan_services_ok:
  assumes "grid_refs_ok h g" "defaults_spec_only env" "plan_services env g svcs h = ((ex, us, ds), h')"
  shows "grid_refs_ok h' g \<and> list_all (\<lambda>u. carries (json_Marshal env) g h' (vc_Meta u)) us \<and>
    ex = list_ex (\<lambda>svc. vm_Name (vc_Meta svc) = GetServiceName g) svcs \<and>
    ds = filter (\<lambda>svc. vm_Name (vc_Meta svc) \<noteq> GetServiceName g) svcs \<and>
    (carries (json_Marshal env) g h m \<longrightarrow> carries (json_Marshal env) g h' m)"
  using assms(1,3)
proof (induction svcs arbitrary: h ex us ds m h')
  case (Cons svc svcs)
  show ?case
  proof (cases "vm_Name (vc_Meta svc) = GetServiceName g")
    case True
    obtain w h1 where w: "CreateService (json_Marshal env) g h = (w, h1)" by fastforce
    obtain ex1 us1 ds1 h2 where p: "plan_services env g svcs h1 = ((ex1, us1, ds1), h2)" by (metis prod_cases4 surj_pair)
    note c = CreateService_ok [OF Cons.prems(1) w]
    have ok: "grid_refs_ok h1 g" using c by blast
    note IH = Cons.IH [OF ok p]
    have "carries (json_Marshal env) g h2 (vc_Meta (Default_svc env w))" using c IH assms(2) by (simp add: defaults_spec_only_def)
    then show ?thesis using True Cons.prems(2) c IH [of m] by (auto simp: w p Let_def split: if_splits)
  next
    case False
    obtain ex1 us1 ds1 h2 where p: "plan_services env g svcs h = ((ex1, us1, ds1), h2)" by (metis prod_cases4 surj_pair)
    show ?thesis using False Cons.prems Cons.IH [OF Cons.prems(1) p, of m] by (auto simp: p)
  qed
qed simp

section \<open>What a reconciliation asks for\<close>

definition written_ok :: "(string \<Rightarrow> go_error + string list option) \<Rightarrow> ServiceGrid \<Rightarrow> service_value \<Rightarrow> bool" where
  "written_ok Unmarshal g v \<longleftrightarrow>
     (om_Namespace (xc_Meta v), om_Name (xc_Meta v)) = (vm_Namespace (vg_Meta g), GetServiceName g) \<and> om_OwnerReferences (xc_Meta v) = [] \<and>
     nget (om_Labels (xc_Meta v)) GridSelectorName = Some (vm_Name (vg_Meta g)) \<and>
     getTopologyKeys Unmarshal (xc_Meta v) = Some [vg_GridUniqKey g]"

fun service_call_ok :: "(string \<Rightarrow> go_error + string list option) \<Rightarrow> ServiceGrid \<Rightarrow> Service list \<Rightarrow> svc_call \<Rightarrow> bool" where
  "service_call_ok Unmarshal g svcList (SvcDelete ns n) \<longleftrightarrow> (\<exists>svc \<in> set svcList. svc_key svc = (ns, n)) \<and> n \<noteq> GetServiceName g"
| "service_call_ok Unmarshal g svcList (SvcGet ns n) \<longleftrightarrow> (ns, n) = (vm_Namespace (vg_Meta g), GetServiceName g)"
| "service_call_ok Unmarshal g svcList (SgStatus v) \<longleftrightarrow> om_Name (xg_Meta v) = vm_Name (vg_Meta g) \<and> length (xg_Conditions v) = 1"
| "service_call_ok Unmarshal g svcList (SvcCreate v) \<longleftrightarrow> written_ok Unmarshal g v"
| "service_call_ok Unmarshal g svcList (SvcUpdate v) \<longleftrightarrow> written_ok Unmarshal g v"
| "service_call_ok Unmarshal g svcList _ \<longleftrightarrow> False"

lemma carries_contents:
  assumes "carries marshal g h (vc_Meta svc)" "Unmarshal (marshal [vg_GridUniqKey g]) = Inr (Some [vg_GridUniqKey g])"
  shows "written_ok Unmarshal g (service_contents h svc)"
proof -
  obtain a where a: "vm_Annotations (vc_Meta svc) = Some a" "mget (h ! a) TopologyAnnotationsKey = Some (marshal [vg_GridUniqKey g])"
    using assms(1) by (auto simp: carries_def has_entry_def load_def)
  show ?thesis
    using assms a by (auto simp: written_ok_def service_contents_def svc_meta_value_def carries_def has_entry_def getTopologyKeys_def hasTopologyKey_def load_def)
qed

fun task_ok :: "(string list \<Rightarrow> string) \<Rightarrow> ServiceGrid \<Rightarrow> Service list \<Rightarrow> heap \<Rightarrow> svc_task \<Rightarrow> bool" where
  "task_ok marshal g svcList h (TDelete svc) \<longleftrightarrow> svc \<in> set svcList \<and> vm_Name (vc_Meta svc) \<noteq> GetServiceName g"
| "task_ok marshal g svcList h (TStatus reason err) \<longleftrightarrow> True"
| "task_ok marshal g svcList h (TCreate svc) \<longleftrightarrow> carries marshal g h (vc_Meta svc)"
| "task_ok marshal g svcList h (TGet svc) \<longleftrightarrow> carries marshal g h (vc_Meta svc)"
| "task_ok marshal g svcList h (TUpdate svc) \<longleftrightarrow> carries marshal g h (vc_Meta svc)"

lemma carries_ResourceVersion [simp]: "carries marshal g h (m\<lparr>vm_ResourceVersion := rv\<rparr>) = carries marshal g h m"
  by (simp add: carries_def)

lemma svc_step_task_ok:
  assumes "task_ok (json_Marshal env) g svcList h t" "vst_heap st = h" "svc_step env g t st = (t', errs, st')"
    "Unmarshal (json_Marshal env [vg_GridUniqKey g]) = Inr (Some [vg_GridUniqKey g])"
  shows "service_call_ok Unmarshal g svcList (last (vst_log st')) \<and> (\<forall>u. t' = Some u \<longrightarrow> task_ok (json_Marshal env) g svcList h u)"
proof (cases t)
  case (TCreate svc)
  with assms carries_contents [of "json_Marshal env" g h svc Unmarshal] show ?thesis
    by (auto simp: failed_task_def svc_api_def split: sum.splits if_splits)
next
  case (TUpdate svc)
  with assms carries_contents [of "json_Marshal env" g h svc Unmarshal] show ?thesis
    by (auto simp: failed_task_def svc_api_def split: sum.splits if_splits)
next
  case (TGet svc)
  then have "carries (json_Marshal env) g h (vc_Meta svc)" using assms(1) by simp
  then have "vm_Namespace (vc_Meta svc) = vm_Namespace (vg_Meta g)" "vm_Name (vc_Meta svc) = GetServiceName g" by (simp_all add: carries_def)
  with TGet assms show ?thesis by (auto simp: svc_api_def Let_def split: sum.splits prod.splits)
qed (use assms in \<open>auto simp: failed_task_def svc_api_def service_grid_contents_def svc_meta_value_def split: sum.splits if_splits\<close>)

text \<open>The goroutines that a reconciliation starts, and the heap they see.\<close>

lemma reconcile_svc_tasks:
  assumes "grid_refs_ok (vst_heap st) g" "defaults_spec_only env" "reconcile_svc env g svcList st = (errs, st')"
  obtains ts h where "run_tasks env g ts (st\<lparr>vst_heap := h\<rparr>) = (errs, st')" "list_all (task_ok (json_Marshal env) g svcList h) ts"
    "(\<Union>t \<in> set ts. task_creates t) = (if list_ex (\<lambda>svc. vm_Name (vc_Meta svc) = GetServiceName g) svcList then {} else {(vm_Namespace (vg_Meta g), GetServiceName g)})"
    "(\<Union>t \<in> set ts. task_deletes t) = svc_key ` {svc \<in> set svcList. vm_Name (vc_Meta svc) \<noteq> GetServiceName g}"
proof -
  obtain ex us ds h1 where p: "plan_services env g svcList (vst_heap st) = ((ex, us, ds), h1)" by (metis prod_cases4 surj_pair)
  obtain w h2 where w: "CreateService (json_Marshal env) g h1 = (w, h2)" by fastforce
  note ok = plan_services_ok [OF assms(1,2) p]
  have refs: "grid_refs_ok h1 g" and us: "\<And>u. u \<in> set us \<Longrightarrow> carries (json_Marshal env) g h1 (vc_Meta u)"
    and ex: "ex = list_ex (\<lambda>svc. vm_Name (vc_Meta svc) = GetServiceName g) svcList"
    and ds: "ds = filter (\<lambda>svc. vm_Name (vc_Meta svc) \<noteq> GetServiceName g) svcList"
    using ok by (simp_all add: list_all_iff)
  have c: "carries (json_Marshal env) g h2 (vc_Meta w)" and us2: "\<And>u. u \<in> set us \<Longrightarrow> carries (json_Marshal env) g h2 (vc_Meta u)"
    using CreateService_ok [OF refs w] us by blast+
  define ts where "ts = map TCreate (if ex then [] else [w]) @ map TGet us @ map TDelete ds"
  define h where "h = (if ex then h1 else h2)"
  have "run_tasks env g ts (st\<lparr>vst_heap := h\<rparr>) = (errs, st')"
    using assms(3) by (auto simp: reconcile_svc_def p w syncService_def ts_def h_def)
  moreover have "list_all (task_ok (json_Marshal env) g svcList h) ts"
    using us us2 c by (auto simp: ts_def h_def list_all_iff ds)
  moreover have "(\<Union>t \<in> set ts. task_creates t) = (if list_ex (\<lambda>svc. vm_Name (vc_Meta svc) = GetServiceName g) svcList then {} else {(vm_Namespace (vg_Meta g), GetServiceName g)})"
    using c by (simp add: ts_def carries_def ex)
  moreover have "(\<Union>t \<in> set ts. task_deletes t) = svc_key ` {svc \<in> set svcList. vm_Name (vc_Meta svc) \<noteq> GetServiceName g}"
    by (auto simp: ts_def ds)
  ultimately show ?thesis by (rule that)
qed

text \<open>
  C10: what reconcile sends to the API server, whatever is answered and in whatever order the goroutines run. It creates or updates only the
  service of the grid, which carries the label that the selector of the grid asks for and of which the application-grid-wrapper reads
  exactly the key of the grid as topology keys; it deletes only services that it was given and that have another name. The service it
  writes has no owner reference: an update takes the ownership of the grid away until the service is adopted again.
\<close>

theorem services_carry_topology:
  assumes "grid_refs_ok (vst_heap st) g" "defaults_spec_only env"
    "Unmarshal (json_Marshal env [vg_GridUniqKey g]) = Inr (Some [vg_GridUniqKey g])" "reconcile_svc env g svcList st = (errs, st')"
  shows "\<exists>cs. vst_log st' = vst_log st @ cs \<and> list_all (service_call_ok Unmarshal g svcList) cs"
proof -
  obtain ts h where ts: "run_tasks env g ts (st\<lparr>vst_heap := h\<rparr>) = (errs, st')" "list_all (task_ok (json_Marshal env) g svcList h) ts"
    using reconcile_svc_tasks [OF assms(1,2,4)] .
  have "set errs \<subseteq> UNIV \<and> vst_heap st' = h \<and> (\<exists>cs. vst_log st' = vst_log (st\<lparr>vst_heap := h\<rparr>) @ cs \<and> list_all (service_call_ok Unmarshal g svcList) cs)"
  proof (rule run_tasks_calls [of "task_ok (json_Marshal env) g svcList h", OF _ ts(2) _ ts(1)])
    fix t s t' es s' assume "task_ok (json_Marshal env) g svcList h t" "vst_heap s = h" "svc_step env g t s = (t', es, s')"
    from svc_step_task_ok [where Unmarshal = Unmarshal, OF this assms(3)]
    show "service_call_ok Unmarshal g svcList (last (vst_log s')) \<and> set es \<subseteq> UNIV \<and> (\<forall>u. t' = Some u \<longrightarrow> task_ok (json_Marshal env) g svcList h u)" by auto
  qed simp
  then show ?thesis by simp
qed

text \<open>
  C20: when every call succeeds, one reconciliation leaves exactly one service of the grid, whatever services it was given and in whatever order the
  goroutines make their calls, and it reports no error.
\<close>

theorem one_service_remains:
  assumes "grid_refs_ok (vst_heap st) g" "defaults_spec_only env" "\<And>n c e. svc_respond env n c \<noteq> Inl e"
    "list_all (\<lambda>svc. vm_Namespace (vc_Meta svc) = vm_Namespace (vg_Meta g)) svcList" "reconcile_svc env g svcList st = (errs, st')"
  shows "errs = [] \<and> (\<exists>cs. vst_log st' = vst_log st @ cs \<and>
    fold apply_svc_call cs (svc_key ` set svcList) = {(vm_Namespace (vg_Meta g), GetServiceName g)})"
proof -
  obtain ts h where ts: "run_tasks env g ts (st\<lparr>vst_heap := h\<rparr>) = (errs, st')"
    "(\<Union>t \<in> set ts. task_creates t) = (if list_ex (\<lambda>svc. vm_Name (vc_Meta svc) = GetServiceName g) svcList then {} else {(vm_Namespace (vg_Meta g), GetServiceName g)})"
    "(\<Union>t \<in> set ts. task_deletes t) = svc_key ` {svc \<in> set svcList. vm_Name (vc_Meta svc) \<noteq> GetServiceName g}"
    using reconcile_svc_tasks [OF assms(1,2,5)] .
  have "(\<Union>t \<in> set ts. task_creates t) \<inter> (\<Union>t \<in> set ts. task_deletes t) = {}" by (auto simp: ts(2,3))
  from run_tasks_effect [OF assms(3) this ts(1)] obtain cs where cs: "errs = []" "vst_log st' = vst_log st @ cs"
    "fold apply_svc_call cs (svc_key ` set svcList) = (svc_key ` set svcList - (\<Union>t \<in> set ts. task_deletes t)) \<union> (\<Union>t \<in> set ts. task_creates t)"
    by auto
  have "(svc_key ` set svcList - (\<Union>t \<in> set ts. task_deletes t)) \<union> (\<Union>t \<in> set ts. task_creates t) = {(vm_Namespace (vg_Meta g), GetServiceName g)}"
    using assms(4) unfolding ts(2,3) list_all_iff list_ex_iff by (auto simp: image_iff) metis
  then show ?thesis using cs by auto
qed

section \<open>Updates that are not made\<close>

lemma run_single_task:
  "run_tasks env sg [t] st = (let (t', errs, st1) = svc_step env sg t st;
     (errCh, st2) = run_tasks env sg (case t' of None \<Rightarrow> [] | Some u \<Rightarrow> [u]) st1 in (errs @ errCh, st2))"
  by (subst run_tasks.simps) (simp add: next_task_def replace_task_def case_prod_unfold Let_def split: option.split)

lemma run_no_task [simp]: "run_tasks env sg [] st = ([], st)"
  by (simp add: run_tasks.simps)

text \<open>
  An update that fails at its first call is not reported: when the template has changed and the read of the service is answered with an error, the
  reconciliation ends without an error and without an update, so the key is not retried and the service keeps the old specification.
\<close>

theorem failed_read_unreported:
  assumes "vm_Name (vc_Meta svc) = GetServiceName g" "CreateService (json_Marshal env) g (vst_heap st) = (want, h1)" "defaults_spec_only env"
    "\<not> DeepContains (Some (reflect_service_spec 0 h1 (vc_Spec svc))) (Some (reflect_service_spec 1 h1 (vc_Spec (Default_svc env want))))"
    "svc_respond env (length (vst_log st)) (SvcGet (vm_Namespace (vg_Meta g)) (GetServiceName g)) = Inl err"
  shows "reconcile_svc env g [svc] st =
    ([], st\<lparr>vst_heap := h1, vst_log := vst_log st @ [SvcGet (vm_Namespace (vg_Meta g)) (GetServiceName g)]\<rparr>)"
proof -
  have "vm_Name (vc_Meta want) = GetServiceName g" "vm_Namespace (vc_Meta want) = vm_Namespace (vg_Meta g)"
    using assms(2) by (auto simp: CreateService_def split: prod.splits)
  then show ?thesis
    using assms by (simp add: reconcile_svc_def syncService_def run_single_task svc_api_def defaults_spec_only_def Let_def)
qed

text \<open>Ports that come after those of the template are not noticed.\<close>

lemma contains_zip_append:
  assumes "list_all (\<lambda>y. val_contains y y) ys"
  shows "\<forall>(x, y) \<in> set (zip (ys @ zs) ys). val_contains x y"
proof -
  have "zip (ys @ zs) ys = zip ys ys" by (simp add: zip_append1)
  then show ?thesis using assms by (auto simp: zip_same list_all_iff)
qed

lemma contains_string [simp]: "val_contains (VBasic t True (BString s)) (VBasic t True (BString s))"
  by (simp add: val_contains.simps)

lemma contains_int [simp]: "val_contains (VBasic t True (BInt s)) (VBasic t True (BInt s))"
  by (simp add: val_contains.simps)

lemma contains_port: "val_contains (vp_TargetPort p) (vp_TargetPort p) \<Longrightarrow> val_contains (reflect_port p) (reflect_port p)"
  unfolding reflect_port_def by (subst val_contains.simps) (simp add: zip_same)

lemma contains_selector:
  assumes "load h r = load h r'" "list_all (\<lambda>ls. mwf ls) h" "ref_ok h r'"
  shows "val_contains (reflect_selector h r) (reflect_selector h r')"
proof (cases r')
  case (Some b)
  then obtain a where a: "r = Some a" "h ! a = h ! b" using assms(1) by (cases r) (auto simp: load_def)
  have "mwf (h ! b)" using assms(2,3) Some by (simp add: list_all_length)
  then have "map_of (map (\<lambda>(k, v). (BString k, VBasic ''string'' True (BString v))) (h ! b)) (BString k) = Some (VBasic ''string'' True (BString v))"
    if "(k, v) \<in> set (h ! b)" for k v
    using that by (intro map_of_is_SomeI) (force simp: mwf_def distinct_map inj_on_def o_def case_prod_unfold)+
  then show ?thesis using a Some unfolding reflect_selector_def by (subst val_contains.simps) force
qed (use assms(1) in \<open>cases r; subst val_contains.simps; simp add: reflect_selector_def load_def\<close>)

text \<open>
  A port that is taken out of the end of the template stays in the service. When the service has all the ports of the template and some
  more behind them and the rest of its specification is that of the template, the reconciliation makes no call: the removed ports stay
  open and no error is reported.
\<close>

theorem removed_port_stays:
  assumes "vm_Name (vc_Meta svc) = GetServiceName g" "CreateService (json_Marshal env) g (vst_heap st) = (want, h1)" "Default_svc env want = want"
    and spec: "vc_Spec svc = (vg_Template g)\<lparr>vs_Ports := vs_Ports (vg_Template g) @ removed, vs_Selector := sel, vs_ClusterIP := ip\<rparr>"
    and "load h1 sel = load h1 (vs_Selector (vg_Template g))" "ref_ok h1 (vs_Selector (vg_Template g))" "list_all mwf h1"
    and "vs_ClusterIP (vg_Template g) = ''''"
    and plain: "list_all (\<lambda>p. val_contains (vp_TargetPort p) (vp_TargetPort p)) (vs_Ports (vg_Template g))" "list_all (\<lambda>v. val_contains v v) (vs_Rest (vg_Template g))"
    and addr: "addresses_ok (reflect_service_spec 0 h1 (vc_Spec svc)) (reflect_service_spec 1 h1 (vg_Template g))"
  shows "reconcile_svc env g [svc] st = ([], st\<lparr>vst_heap := h1\<rparr>)"
proof -
  have want: "vc_Spec want = vg_Template g" using assms(2) by (auto simp: CreateService_def split: prod.splits)
  have ports: "val_contains (VSlice ''[]ServicePort'' None (Some (0, map reflect_port (vs_Ports (vg_Template g) @ removed))))
      (VSlice ''[]ServicePort'' None (Some (1, map reflect_port (vs_Ports (vg_Template g)))))"
    using contains_zip_append [of "map reflect_port (vs_Ports (vg_Template g))" "map reflect_port removed"] plain(1) contains_port
    by (subst val_contains.simps) (auto simp: list_all_iff)
  have sel: "val_contains (reflect_selector h1 sel) (reflect_selector h1 (vs_Selector (vg_Template g)))"
    using assms(5-7) by (intro contains_selector) simp_all
  have empty: "val_contains (VBasic ''string'' True (BString ip)) (VBasic ''string'' True (BString ''''))" by (simp add: val_contains.simps)
  have "val_contains (reflect_service_spec 0 h1 (vc_Spec svc)) (reflect_service_spec 1 h1 (vg_Template g))"
    unfolding reflect_service_spec_def spec using ports sel empty assms(8) plain(2)
    by (subst val_contains.simps) (auto simp: zip_same list_all_iff)
  then have "DeepContains (Some (reflect_service_spec 0 h1 (vc_Spec svc))) (Some (reflect_service_spec 1 h1 (vc_Spec want)))"
    using DeepContains_agrees [OF addr] by (simp add: want)
  then show ?thesis using assms(1-3) by (simp add: reconcile_svc_def syncService_def Let_def)
qed

section \<open>Examples\<close>

definition sample_svc_meta :: "string \<Rightarrow> svc_meta" where
  "sample_svc_meta name = \<lparr>vm_Name = name, vm_Namespace = ''ns'', vm_UID = ''u1'', vm_ResourceVersion = ''1'', vm_Labels = Some 0,
     vm_Annotations = None, vm_OwnerReferences = [], vm_DeletionTimestamp = None\<rparr>"

definition sample_port :: "int \<Rightarrow> ServicePort" where
  "sample_port n = \<lparr>vp_Name = '''', vp_Protocol = ''TCP'', vp_Port = n, vp_TargetPort = VBasic ''int32'' True (BInt n), vp_NodePort = 0\<rparr>"

definition sample_service_spec :: "int list \<Rightarrow> string \<Rightarrow> ServiceSpec" where
  "sample_service_spec ports ip = \<lparr>vs_Ports = map sample_port ports, vs_Selector = None, vs_ClusterIP = ip, vs_Type = '''', vs_Rest = []\<rparr>"

definition sample_service_grid :: ServiceGrid where
  "sample_service_grid = \<lparr>vg_Meta = sample_svc_meta ''g'', vg_GridUniqKey = ''zone'', vg_Template = sample_service_spec [80] '''', vg_Conditions = []\<rparr>"

definition sample_service :: "string \<Rightarrow> int list \<Rightarrow> Service" where
  "sample_service name ports = \<lparr>vc_Meta = sample_svc_meta name, vc_Spec = sample_service_spec ports ''10.0.0.1''\<rparr>"

definition sample_svc_env :: "(nat \<Rightarrow> svc_call \<Rightarrow> apierr + string \<times> string) \<Rightarrow> svc_env" where
  "sample_svc_env respond = \<lparr>IsValidLabelValue = (\<lambda>s. True), NewRequirement = (\<lambda>r. None), Matches = (\<lambda>sel ls. True),
     svc_ControllerOf = (\<lambda>m. None), svc_ControllerRef = (\<lambda>n u k. sample_owner u), json_Marshal = (\<lambda>ks. concat ks), Error = (\<lambda>e. ''failed''),
     Default_svc = id, Default_sg = id, svc_respond = respond, pick = (\<lambda>n. n)\<rparr>"

definition sample_svc_state :: svc_state where
  "sample_svc_state = \<lparr>vst_heap = [[(''app'', ''web'')]], vst_log = [], vst_events = []\<rparr>"

lemma sample_service_facts:
  "grid_refs_ok (vst_heap sample_svc_state) sample_service_grid" "defaults_spec_only (sample_svc_env r)"
  "vm_Name (vc_Meta (sample_service ''g-svc'' ps)) = GetServiceName sample_service_grid"
  by (simp_all add: grid_refs_ok_def sample_svc_state_def sample_service_grid_def sample_svc_meta_def defaults_spec_only_def sample_svc_env_def
      sample_service_def GetServiceName_def)

theorem services_carry_topology_witness:
  "length (vst_log (snd (reconcile_svc (sample_svc_env (\<lambda>n c. Inr ([], []))) sample_service_grid [sample_service ''old'' [80]] sample_svc_state))) = 2 \<and>
   list_all (service_call_ok (\<lambda>s. Inr (Some [s])) sample_service_grid [sample_service ''old'' [80]])
     (vst_log (snd (reconcile_svc (sample_svc_env (\<lambda>n c. Inr ([], []))) sample_service_grid [sample_service ''old'' [80]] sample_svc_state)))"
proof -
  let ?env = "sample_svc_env (\<lambda>n c. Inr ([], []))" and ?svcs = "[sample_service ''old'' [80]]"
  obtain errs st' where run: "reconcile_svc ?env sample_service_grid ?svcs sample_svc_state = (errs, st')" by fastforce
  have "Inr (Some [json_Marshal ?env [vg_GridUniqKey sample_service_grid]]) = (Inr (Some [vg_GridUniqKey sample_service_grid]) :: go_error + string list option)"
    by (simp add: sample_svc_env_def)
  from services_carry_topology [where Unmarshal = "\<lambda>s. Inr (Some [s])", OF sample_service_facts(1,2) this run] obtain cs where
    "vst_log st' = cs" "list_all (service_call_ok (\<lambda>s. Inr (Some [s])) sample_service_grid ?svcs) cs" by (auto simp: sample_svc_state_def)
  moreover have "length (vst_log (snd (reconcile_svc ?env sample_service_grid ?svcs sample_svc_state))) = 2" by code_simp
  ultimately show ?thesis using run by simp
qed

theorem one_service_remains_witness:
  "fst (reconcile_svc (sample_svc_env (\<lambda>n c. Inr ([], []))) sample_service_grid [sample_service ''old'' [80], sample_service ''older'' [80]] sample_svc_state) = [] \<and>
   (\<exists>cs. fold apply_svc_call cs (svc_key ` set [sample_service ''old'' [80], sample_service ''older'' [80]]) = {(''ns'', ''g-svc'')} \<and>
     vst_log (snd (reconcile_svc (sample_svc_env (\<lambda>n c. Inr ([], []))) sample_service_grid
       [sample_service ''old'' [80], sample_service ''older'' [80]] sample_svc_state)) = cs)"
proof -
  let ?env = "sample_svc_env (\<lambda>n c. Inr ([], []))" and ?svcs = "[sample_service ''old'' [80], sample_service ''older'' [80]]"
  obtain errs st' where run: "reconcile_svc ?env sample_service_grid ?svcs sample_svc_state = (errs, st')" by fastforce
  have "errs = [] \<and> (\<exists>cs. vst_log st' = vst_log sample_svc_state @ cs \<and>
    fold apply_svc_call cs (svc_key ` set ?svcs) = {(vm_Namespace (vg_Meta sample_service_grid), GetServiceName sample_service_grid)})"
    by (rule one_service_remains [OF sample_service_facts(1,2) _ _ run])
      (simp_all add: sample_svc_env_def sample_service_def sample_svc_meta_def sample_service_grid_def)
  then show ?thesis using run by (simp add: sample_svc_state_def sample_service_grid_def sample_svc_meta_def GetServiceName_def)
qed

lemma sample_CreateService:
  "CreateService (json_Marshal (sample_svc_env r)) sample_service_grid (vst_heap sample_svc_state) =
    (\<lparr>vc_Meta = (sample_svc_meta ''g-svc'')\<lparr>vm_UID := '''', vm_ResourceVersion := '''', vm_Annotations := Some 1\<rparr>, vc_Spec = sample_service_spec [80] ''''\<rparr>,
     [[(''app'', ''web''), (GridSelectorName, ''g''), (GridSelectorUniqKeyName, ''zone'')], [(TopologyAnnotationsKey, ''zone'')]])"
  by (simp add: CreateService_def service_labels_def service_annotations_def sample_service_grid_def sample_svc_meta_def sample_svc_state_def
      sample_svc_env_def alloc_def set_key_def label_names GetServiceName_def)

theorem failed_read_unreported_witness:
  "fst (reconcile_svc (sample_svc_env (\<lambda>n c. Inl ENotFound)) sample_service_grid [sample_service ''g-svc'' [81]] sample_svc_state) = [] \<and>
   vst_log (snd (reconcile_svc (sample_svc_env (\<lambda>n c. Inl ENotFound)) sample_service_grid [sample_service ''g-svc'' [81]] sample_svc_state)) = [SvcGet ''ns'' ''g-svc'']"
proof -
  have "\<not> DeepContains (Some (reflect_service_spec 0 h (vc_Spec (sample_service ''g-svc'' [81]))))
      (Some (reflect_service_spec 1 h (sample_service_spec [80] '''')))" for h
    by (simp add: sample_service_def sample_service_spec_def sample_port_def reflect_service_spec_def reflect_port_def reflect_selector_def
        DeepContains_def deepValueContains.simps visit_key_def compareOrTrue_def Let_def)
  then have "reconcile_svc (sample_svc_env (\<lambda>n c. Inl ENotFound)) sample_service_grid [sample_service ''g-svc'' [81]] sample_svc_state =
    ([], sample_svc_state\<lparr>vst_heap := [[(''app'', ''web''), (GridSelectorName, ''g''), (GridSelectorUniqKeyName, ''zone'')], [(TopologyAnnotationsKey, ''zone'')]],
      vst_log := vst_log sample_svc_state @ [SvcGet (vm_Namespace (vg_Meta sample_service_grid)) (GetServiceName sample_service_grid)]\<rparr>)"
    by (intro failed_read_unreported [OF sample_service_facts(3) sample_CreateService sample_service_facts(2)]) (simp_all add: sample_svc_env_def)
  then show ?thesis by (simp add: sample_svc_state_def sample_service_grid_def sample_svc_meta_def GetServiceName_def)
qed

theorem removed_port_stays_witness:
  "vst_log (snd (reconcile_svc (sample_svc_env (\<lambda>n c. Inr ([], []))) sample_service_grid [sample_service ''g-svc'' [80, 81]] sample_svc_state)) = []"
proof -
  have sub: "\<forall>s \<in> subvals (reflect_service_spec p h (sample_service_spec ps ip)). hard_addr s = None" for p h ps ip
    by (auto simp: reflect_service_spec_def sample_service_spec_def sample_port_def reflect_port_def reflect_selector_def subvals_simps
        subvals_unfold [of "VSlice t a d" for t a d] subvals_unfold [of "VMap t a None" for t a])
  have "reconcile_svc (sample_svc_env (\<lambda>n c. Inr ([], []))) sample_service_grid [sample_service ''g-svc'' [80, 81]] sample_svc_state =
    ([], sample_svc_state\<lparr>vst_heap := [[(''app'', ''web''), (GridSelectorName, ''g''), (GridSelectorUniqKeyName, ''zone'')], [(TopologyAnnotationsKey, ''zone'')]]\<rparr>)"
  proof (rule removed_port_stays [OF sample_service_facts(3) sample_CreateService, where removed = "[sample_port 81]" and sel = None and ip = "''10.0.0.1''"])
    show "addresses_ok (reflect_service_spec 0 h (vc_Spec (sample_service ''g-svc'' [80, 81]))) (reflect_service_spec 1 h (vg_Template sample_service_grid))" for h
      using sub by (simp add: sample_service_def sample_service_grid_def addresses_ok_def)
  qed (simp_all add: sample_svc_env_def sample_service_def sample_service_grid_def sample_service_spec_def sample_port_def mwf_def label_names)
  then show ?thesis by (simp add: sample_svc_state_def)
qed

end
