(* ===== verification/GridWorkload.thy ===== *)
theory GridWorkload
  imports GridCommon Consistency
begin

unbundle bit_operations_syntax

text \<open>
  The workloads that a grid stands for:
  \<open>src/pkg/application-grid-controller/controller/deployment/util\<close>, \<open>controller/statefulset/util\<close> and
  \<open>util/template_hash.go\<close>. The deployment and the stateful set code are the same up to names, so the operations are defined
  once, on the parts of the API types that they touch, and named for both.

  The fields that no operation looks into are lists of reflected values (\<open>pt_Rest\<close>, \<open>ws_Rest\<close>). The maps of labels and the
  node selectors are held by reference, because the code shares them between objects.
\<close>

section \<open>Data\<close>

record pod_template =
  pt_Labels :: ref_map
  pt_NodeSelector :: ref_map
  pt_Rest :: "goval list"

text \<open>\<open>DeploymentSpec\<close> and \<open>StatefulSetSpec\<close>. \<open>Replicas\<close> is a pointer: its address and the number there.\<close>

record workload_spec =
  ws_Replicas :: "(nat \<times> int) option"
  ws_Template :: pod_template
  ws_Rest :: "goval list"

text \<open>\<open>metav1.ObjectMeta\<close> with its labels by reference.\<close>

record ref_meta =
  rm_Name :: string
  rm_Namespace :: string
  rm_UID :: string
  rm_ResourceVersion :: string
  rm_Labels :: ref_map
  rm_OwnerReferences :: "OwnerReference list"
  rm_DeletionTimestamp :: "int option"

text \<open>\<open>DeploymentStatus\<close> and \<open>StatefulSetStatus\<close>; a condition is its type and its other fields.\<close>

record workload_status =
  st_Replicas :: int
  st_ReadyReplicas :: int
  st_Conditions :: "(string \<times> string) list"
  st_Rest :: "goval list"

record workload =
  wl_Meta :: ref_meta
  wl_Spec :: workload_spec
  wl_Status :: workload_status

record grid_spec =
  GridUniqKey :: string
  Template :: workload_spec
  TemplatePool :: "(string, workload_spec) gomap"
  Templates :: "labels option"
  DefaultTemplate :: string
  AutoDeleteUnusedTemplate :: bool

record grid =
  gr_Meta :: ref_meta
  gr_Spec :: grid_spec
  gr_States :: "(string, workload_status) gomap"

text \<open>The contents of an object at a moment.\<close>

definition meta_value :: "heap \<Rightarrow> ref_meta \<Rightarrow> object_meta" where
  "meta_value h m = \<lparr>om_Name = rm_Name m, om_Namespace = rm_Namespace m, om_UID = rm_UID m, om_ResourceVersion = rm_ResourceVersion m,
     om_Labels = load h (rm_Labels m), om_Annotations = None, om_OwnerReferences = rm_OwnerReferences m, om_DeletionTimestamp = rm_DeletionTimestamp m\<rparr>"

record spec_value =
  sv_Replicas :: "int option"
  sv_Labels :: "labels option"
  sv_NodeSelector :: "labels option"
  sv_PodRest :: "goval list"
  sv_Rest :: "goval list"

definition value_of_spec :: "heap \<Rightarrow> workload_spec \<Rightarrow> spec_value" where
  "value_of_spec h s = \<lparr>sv_Replicas = map_option snd (ws_Replicas s), sv_Labels = load h (pt_Labels (ws_Template s)),
     sv_NodeSelector = load h (pt_NodeSelector (ws_Template s)), sv_PodRest = map strip (pt_Rest (ws_Template s)), sv_Rest = map strip (ws_Rest s)\<rparr>"

text \<open>The specification as the reflection of \<open>DeepContains\<close> sees it.\<close>

definition reflect_map :: "heap \<Rightarrow> ref_map \<Rightarrow> goval" where
  "reflect_map h r = VMap ''map[string]string'' None
     (map_option (\<lambda>a. (a, map (\<lambda>(k, v). (BString k, VBasic ''string'' True (BString v))) (h ! a))) r)"

definition reflect_spec :: "heap \<Rightarrow> workload_spec \<Rightarrow> goval" where
  "reflect_spec h s = VStruct ''Spec''
     (VPtr ''*int32'' None (map_option (\<lambda>(p, n). (p, VBasic ''int32'' True (BInt n))) (ws_Replicas s)) #
      VStruct ''PodTemplateSpec'' (reflect_map h (pt_Labels (ws_Template s)) # reflect_map h (pt_NodeSelector (ws_Template s)) # pt_Rest (ws_Template s)) #
      ws_Rest s)"

text \<open>\<open>DeepCopy\<close>.\<close>

definition copy_spec :: "workload_spec \<Rightarrow> heap \<Rightarrow> workload_spec \<times> heap" where
  "copy_spec s h =
     (let (ls, h1) = copy_ref (pt_Labels (ws_Template s)) h;
          (ns, h2) = copy_ref (pt_NodeSelector (ws_Template s)) h1
      in (s\<lparr>ws_Template := (ws_Template s)\<lparr>pt_Labels := ls, pt_NodeSelector := ns\<rparr>\<rparr>, h2))"

fun copy_pool :: "(string, workload_spec) gomap \<Rightarrow> heap \<Rightarrow> (string, workload_spec) gomap \<times> heap" where
  "copy_pool [] h = ([], h)"
| "copy_pool ((k, s) # pool) h =
     (let (s', h1) = copy_spec s h; (pool', h2) = copy_pool pool h1 in ((k, s') # pool', h2))"

definition copy_grid :: "grid \<Rightarrow> heap \<Rightarrow> grid \<times> heap" where
  "copy_grid g h =
     (let (ls, h1) = copy_ref (rm_Labels (gr_Meta g)) h;
          (t, h2) = copy_spec (Template (gr_Spec g)) h1;
          (pool, h3) = copy_pool (TemplatePool (gr_Spec g)) h2
      in (g\<lparr>gr_Meta := (gr_Meta g)\<lparr>rm_Labels := ls\<rparr>, gr_Spec := (gr_Spec g)\<lparr>Template := t, TemplatePool := pool\<rparr>\<rparr>, h3))"

section \<open>What the operations call\<close>

text \<open>
  \<open>spew\<close> is the dump that the hash is taken of; \<open>scheme_Default\<close> fills in the default values of a specification.
\<close>

record grid_lib = label_lib +
  GetControllerOf :: "object_meta \<Rightarrow> OwnerReference option"
  NewControllerRef :: "string \<Rightarrow> string \<Rightarrow> string \<Rightarrow> OwnerReference"
  spew :: "spec_value \<Rightarrow> string"
  scheme_Default :: "heap \<Rightarrow> workload_spec \<Rightarrow> workload_spec"

section \<open>Template hash\<close>

text \<open>\<open>hash/fnv\<close>: FNV-1 with 64 bits.\<close>

definition fnv64 :: "string \<Rightarrow> 64 word" where
  "fnv64 s = foldl (\<lambda>h c. (h * 1099511628211) XOR of_char c) 14695981039346656037 s"

definition GenerateHash :: "'a grid_lib_scheme \<Rightarrow> spec_value \<Rightarrow> 64 word" where
  "GenerateHash lib template = fnv64 (spew lib template)"

definition generateTemplateHash :: "'a grid_lib_scheme \<Rightarrow> heap \<Rightarrow> workload_spec \<Rightarrow> string" where
  "generateTemplateHash lib h template =
     (let v = value_of_spec h template
      in natDigits (unat (GenerateHash lib (v\<lparr>sv_Labels := map_option (mdel TemplateHashKey) (sv_Labels v), sv_Replicas := None\<rparr>))))"

definition setTemplateHash :: "'a grid_lib_scheme \<Rightarrow> workload_spec \<Rightarrow> heap \<Rightarrow> workload_spec \<times> heap" where
  "setTemplateHash lib template h =
     (let expected = generateTemplateHash lib h template;
          hash = GetTemplateHash (load h (pt_Labels (ws_Template template)))
      in if hash \<noteq> expected then
           (case pt_Labels (ws_Template template) of
              None \<Rightarrow> (let (a, h1) = alloc [] h
                in (template\<lparr>ws_Template := (ws_Template template)\<lparr>pt_Labels := Some a\<rparr>\<rparr>, set_key a TemplateHashKey expected h1))
            | Some a \<Rightarrow> (template, set_key a TemplateHashKey expected h))
         else (template, h))"

text \<open>The loop over the pool works on a copy of each template: a map that it makes for the labels is lost.\<close>

definition UpdateTemplateHash :: "'a grid_lib_scheme \<Rightarrow> grid \<Rightarrow> heap \<Rightarrow> grid \<times> heap" where
  "UpdateTemplateHash lib g h =
     (let (t, h1) = setTemplateHash lib (Template (gr_Spec g)) h
      in (g\<lparr>gr_Spec := (gr_Spec g)\<lparr>Template := t\<rparr>\<rparr>,
          fold (\<lambda>(k, template) h. snd (setTemplateHash lib template h)) (TemplatePool (gr_Spec g)) h1))"

definition RemoveUnusedTemplate :: "grid \<Rightarrow> grid" where
  "RemoveUnusedTemplate g =
     (let spec = gr_Spec g in
      if \<not> AutoDeleteUnusedTemplate spec then g
      else
        let templateMap = map (\<lambda>k. (k, True)) (mkeys (TemplatePool spec));
            templateMap = (if DefaultTemplate spec \<noteq> DefaultTemplateName then mdel (DefaultTemplate spec) templateMap else templateMap);
            templateMap = fold mdel (map snd (case Templates spec of None \<Rightarrow> [] | Some ts \<Rightarrow> ts)) templateMap
        in g\<lparr>gr_Spec := spec\<lparr>TemplatePool := fold mdel (mkeys templateMap) (TemplatePool spec)\<rparr>\<rparr>)"

definition getTemplate :: "grid_spec \<Rightarrow> string \<Rightarrow> go_error + workload_spec" where
  "getTemplate spec gridValues =
     (let templateName = GetTemplateName (Templates spec) gridValues (DefaultTemplate spec) in
      if templateName = DefaultTemplateName \<or> templateName = '''' then Inr (Template spec)
      else case mget (TemplatePool spec) templateName of
        Some template \<Rightarrow> Inr template
      | None \<Rightarrow> Inl ''template not found in templatePool'')"

definition getDeployTemplate where "getDeployTemplate = getTemplate"
definition getStatefulsetTemplate where "getStatefulsetTemplate = getTemplate"

definition IsTemplateHashChanged :: "heap \<Rightarrow> grid \<Rightarrow> string \<Rightarrow> workload \<Rightarrow> bool" where
  "IsTemplateHashChanged h g gridValues dp =
     (case getTemplate (gr_Spec g) gridValues of
        Inl err \<Rightarrow> True
      | Inr template \<Rightarrow>
          GetTemplateHash (load h (pt_Labels (ws_Template (wl_Spec dp)))) \<noteq> GetTemplateHash (load h (pt_Labels (ws_Template template))))"

text \<open>Both pointers are dereferenced.\<close>

definition IsReplicasChanged :: "grid \<Rightarrow> string \<Rightarrow> workload \<Rightarrow> bool go" where
  "IsReplicasChanged g gridValues dp =
     (case getTemplate (gr_Spec g) gridValues of
        Inl err \<Rightarrow> Ret True
      | Inr template \<Rightarrow>
          (case (ws_Replicas template, ws_Replicas (wl_Spec dp)) of
             (Some (_, n), Some (_, m)) \<Rightarrow> Ret (\<not> n = m)
           | _ \<Rightarrow> Panic))"

section \<open>Workloads of a grid\<close>

definition workload_name :: "grid \<Rightarrow> string \<Rightarrow> string" where
  "workload_name g gridValue = rm_Name (gr_Meta g) @ ''-'' @ gridValue"

definition GetDeploymentName where "GetDeploymentName = workload_name"
definition GetStatefulSetName where "GetStatefulSetName = workload_name"

definition GetGridValueFromName :: "grid \<Rightarrow> string \<Rightarrow> string" where
  "GetGridValueFromName g name = TrimPrefix name (rm_Name (gr_Meta g) @ ''-'')"

text \<open>The labels of a new workload: those of the grid, in the map of the grid itself, and the two grid labels.\<close>

definition workload_labels :: "grid \<Rightarrow> heap \<Rightarrow> nat \<times> heap" where
  "workload_labels g h =
     (case rm_Labels (gr_Meta g) of
        Some a \<Rightarrow> (a, set_key a GridSelectorUniqKeyName (GridUniqKey (gr_Spec g)) (set_key a GridSelectorName (rm_Name (gr_Meta g)) h))
      | None \<Rightarrow> alloc [(GridSelectorName, rm_Name (gr_Meta g)), (GridSelectorUniqKeyName, GridUniqKey (gr_Spec g))] h)"

text \<open>The node selector of a new workload: that of the template, in the same map, with the key of the grid.\<close>

definition workload_selector :: "grid \<Rightarrow> workload_spec \<Rightarrow> string \<Rightarrow> heap \<Rightarrow> nat \<times> heap" where
  "workload_selector g template gridValue h =
     (case pt_NodeSelector (ws_Template template) of
        Some a \<Rightarrow> (a, set_key a (GridUniqKey (gr_Spec g)) gridValue h)
      | None \<Rightarrow> alloc [(GridUniqKey (gr_Spec g), gridValue)] h)"

definition zero_status :: workload_status where
  "zero_status = \<lparr>st_Replicas = 0, st_ReadyReplicas = 0, st_Conditions = [], st_Rest = []\<rparr>"

definition CreateWorkload :: "'a grid_lib_scheme \<Rightarrow> string \<Rightarrow> grid \<Rightarrow> string \<Rightarrow> heap \<Rightarrow> (go_error + workload) \<times> heap" where
  "CreateWorkload lib kind g gridValue h =
     (case getTemplate (gr_Spec g) gridValue of
        Inl err \<Rightarrow> (Inl err, h)
      | Inr template \<Rightarrow>
          let (ls, h1) = workload_labels g h;
              (ns, h2) = workload_selector g template gridValue h1
          in (Inr \<lparr>wl_Meta = \<lparr>rm_Name = workload_name g gridValue, rm_Namespace = rm_Namespace (gr_Meta g), rm_UID = '''', rm_ResourceVersion = '''',
                     rm_Labels = Some ls, rm_OwnerReferences = [NewControllerRef lib (rm_Name (gr_Meta g)) (rm_UID (gr_Meta g)) kind],
                     rm_DeletionTimestamp = None\<rparr>,
                   wl_Spec = template\<lparr>ws_Template := (ws_Template template)\<lparr>pt_NodeSelector := Some ns\<rparr>\<rparr>,
                   wl_Status = zero_status\<rparr>, h2))"

definition CreateDeployment where "CreateDeployment lib = CreateWorkload lib DeploymentGridKind"
definition CreateStatefulSet where "CreateStatefulSet lib = CreateWorkload lib StatefulSetGridKind"

definition FiltDgStatus :: "workload_status \<Rightarrow> workload_status" where
  "FiltDgStatus status = zero_status\<lparr>st_Replicas := st_Replicas status, st_ReadyReplicas := st_ReadyReplicas status,
     st_Conditions := (case find (\<lambda>v. fst v = ''Available'') (st_Conditions status) of None \<Rightarrow> [] | Some v \<Rightarrow> [v])\<rparr>"

text \<open>
  The grid that is distributed to the namespace of a managed cluster. Writing to a nil map panics.
\<close>

definition CreateDeploymentGrid :: "'a grid_lib_scheme \<Rightarrow> grid \<Rightarrow> string \<Rightarrow> heap \<Rightarrow> (grid \<times> heap) go" where
  "CreateDeploymentGrid lib dg nameSpace h =
     (let (dgcopy, h1) = copy_grid dg h;
          TargetNameSpace = rm_Namespace (gr_Meta dgcopy)
      in case rm_Labels (gr_Meta dgcopy) of
           None \<Rightarrow> Panic
         | Some a \<Rightarrow>
             Ret (dgcopy\<lparr>gr_Meta := (gr_Meta dgcopy)\<lparr>rm_ResourceVersion := '''', rm_Namespace := nameSpace,
                    rm_OwnerReferences := [NewControllerRef lib (rm_Name (gr_Meta dg)) (rm_UID (gr_Meta dg)) DeploymentGridKind]\<rparr>\<rparr>,
                  set_key a FedrationDisKey ''yes'' (set_key a FedTargetNameSpace TargetNameSpace h1)))"

text \<open>The specification of the first grid is shared, not copied.\<close>

definition UpdateDeploymentGrid :: "grid \<Rightarrow> grid \<Rightarrow> heap \<Rightarrow> grid \<times> heap" where
  "UpdateDeploymentGrid dg fed h =
     (let (dgcopy, h1) = copy_grid fed h in (dgcopy\<lparr>gr_Spec := gr_Spec dg\<rparr>, h1))"

text \<open>
  \<open>KeepConsistence\<close>: the assignment of the template makes the copy share the node selector of the grid.
\<close>

definition KeepConsistence :: "grid \<Rightarrow> workload \<Rightarrow> string \<Rightarrow> heap \<Rightarrow> workload \<times> heap" where
  "KeepConsistence g dp gridValue h =
     (let (dls, h0) = copy_ref (rm_Labels (wl_Meta dp)) h;
          (dspec, h1) = copy_spec (wl_Spec dp) h0;
          (ls, h2) = workload_labels g h1;
          template = Template (gr_Spec g);
          (ns, h3) = workload_selector g template gridValue h2
      in (dp\<lparr>wl_Meta := (wl_Meta dp)\<lparr>rm_Labels := Some ls\<rparr>,
             wl_Spec := dspec\<lparr>ws_Replicas := ws_Replicas template, ws_Template := (ws_Template template)\<lparr>pt_NodeSelector := Some ns\<rparr>\<rparr>\<rparr>, h3))"

section \<open>Names\<close>

lemma GetGridValueFromName_name [simp]: "GetGridValueFromName g (workload_name g v) = v"
  using TrimPrefix_append [of "rm_Name (gr_Meta g) @ ''-''" v] by (simp add: GetGridValueFromName_def workload_name_def)

lemma workload_name_inject [simp]: "workload_name g v = workload_name g w \<longleftrightarrow> v = w"
  by (simp add: workload_name_def)

text \<open>Two grids of one namespace may give the same name to different workloads.\<close>

lemma workload_names_collide:
  "rm_Name (gr_Meta g1) = ''a'' \<Longrightarrow> rm_Name (gr_Meta g2) = ''a-b'' \<Longrightarrow> workload_name g1 ''b-c'' = workload_name g2 ''c''"
  by (simp add: workload_name_def)

section \<open>The hash settles\<close>

text \<open>The maps of a template exist, and its labels and its node selector are two maps.\<close>

definition spec_ok :: "heap \<Rightarrow> workload_spec \<Rightarrow> bool" where
  "spec_ok h s \<longleftrightarrow> ref_ok h (pt_Labels (ws_Template s)) \<and> ref_ok h (pt_NodeSelector (ws_Template s)) \<and>
     (pt_Labels (ws_Template s) \<noteq> None \<longrightarrow> pt_Labels (ws_Template s) \<noteq> pt_NodeSelector (ws_Template s))"

lemma setTemplateHash_labels:
  assumes "spec_ok h t" "pt_Labels (ws_Template t) = Some a" "setTemplateHash lib t h = (t1, h1)"
  shows "t1 = t \<and> spec_ok h1 t \<and> GetTemplateHash (load h1 (Some a)) = generateTemplateHash lib h1 t"
proof (cases "GetTemplateHash (load h (Some a)) = generateTemplateHash lib h t")
  case False
  have res: "t1 = t" "h1 = set_key a TemplateHashKey (generateTemplateHash lib h t) h"
    using assms(2,3) False by (auto simp: setTemplateHash_def)
  have a: "a < length h" "pt_NodeSelector (ws_Template t) \<noteq> Some a" using assms(1,2) by (auto simp: spec_ok_def)
  have "generateTemplateHash lib h1 t = generateTemplateHash lib h t"
    using a by (simp add: res generateTemplateHash_def value_of_spec_def assms(2) load_set_key delete_update_same Let_def load_def [of h "Some a"])
  moreover have "GetTemplateHash (load h1 (Some a)) = generateTemplateHash lib h t"
    using a by (simp add: res load_set_key GetTemplateHash_def mget_mput)
  ultimately show ?thesis using assms(1) by (auto simp: res spec_ok_def)
qed (use assms in \<open>auto simp: setTemplateHash_def\<close>)

lemma setTemplateHash_nil:
  assumes "spec_ok h t" "pt_Labels (ws_Template t) = None" "setTemplateHash lib t h = (t1, h1)"
  shows "t1 = t \<and> h1 = h \<or> (\<exists>a. pt_Labels (ws_Template t1) = Some a \<and> spec_ok h1 t1)"
  using assms by (cases "pt_NodeSelector (ws_Template t)") (auto simp: setTemplateHash_def spec_ok_def alloc_def Let_def split: if_splits)

lemma setTemplateHash_done:
  "GetTemplateHash (load h (pt_Labels (ws_Template t))) = generateTemplateHash lib h t \<Longrightarrow> setTemplateHash lib t h = (t, h)"
  by (simp add: setTemplateHash_def)

text \<open>
  Computing the hash of a template reaches a fixed point: after the second run at the latest (after the first one when the template
  has labels) the stored hash is the hash of the template it is stored in, and further runs change nothing.
\<close>

theorem setTemplateHash_settles:
  assumes "spec_ok h t" "setTemplateHash lib t h = (t1, h1)" "setTemplateHash lib t1 h1 = (t2, h2)"
  shows "setTemplateHash lib t2 h2 = (t2, h2) \<and> (pt_Labels (ws_Template t) \<noteq> None \<longrightarrow> t2 = t1 \<and> h2 = h1)"
proof (cases "pt_Labels (ws_Template t)")
  case None
  show ?thesis
  proof (cases "pt_Labels (ws_Template t1)")
    case n: None
    then show ?thesis using setTemplateHash_nil [OF assms(1) None assms(2)] assms(2,3) None by auto
  next
    case (Some a)
    then have "spec_ok h1 t1" using setTemplateHash_nil [OF assms(1) None assms(2)] None by auto
    from setTemplateHash_labels [OF this Some assms(3)] show ?thesis
      using Some None by (auto intro: setTemplateHash_done)
  qed
next
  case (Some a)
  have "setTemplateHash lib t1 h1 = (t1, h1)"
    using setTemplateHash_labels [OF assms(1) Some assms(2)] Some by (auto intro: setTemplateHash_done)
  then show ?thesis using assms(3) by simp
qed

definition sample_lib :: grid_lib where
  "sample_lib = \<lparr>IsValidLabelValue = (\<lambda>v. v \<noteq> ''''), NewRequirement = (\<lambda>r. None),
     Matches = (\<lambda>sel ls. list_all (\<lambda>(k, opr, vs). case nget ls k of None \<Rightarrow> False | Some v \<Rightarrow> opr = Exists \<or> v \<in> set vs) sel),
     GetControllerOf = (\<lambda>m. find (\<lambda>r. or_Controller r = Some True) (om_OwnerReferences m)),
     NewControllerRef = (\<lambda>name uid kind. \<lparr>or_APIVersion = ''superedge.io/v1'', or_Kind = kind, or_Name = name, or_UID = uid,
       or_Controller = Some True, or_BlockOwnerDeletion = Some True\<rparr>),
     spew = (\<lambda>v. case sv_Labels v of None \<Rightarrow> ''nil'' | Some ls \<Rightarrow> Join (map snd ls) '',''),
     scheme_Default = (\<lambda>h s. s)\<rparr>"

definition sample_template :: "ref_map \<Rightarrow> ref_map \<Rightarrow> workload_spec" where
  "sample_template ls ns = \<lparr>ws_Replicas = Some (0, 2), ws_Template = \<lparr>pt_Labels = ls, pt_NodeSelector = ns, pt_Rest = []\<rparr>, ws_Rest = []\<rparr>"

theorem setTemplateHash_settles_witness:
  "let (t1, h1) = setTemplateHash sample_lib (sample_template None None) [];
       (t2, h2) = setTemplateHash sample_lib t1 h1
   in setTemplateHash sample_lib t2 h2 = (t2, h2)"
proof -
  obtain t1 h1 where 1: "setTemplateHash sample_lib (sample_template None None) [] = (t1, h1)" by fastforce
  obtain t2 h2 where 2: "setTemplateHash sample_lib t1 h1 = (t2, h2)" by fastforce
  have "spec_ok [] (sample_template None None)" by (simp add: spec_ok_def sample_template_def)
  from setTemplateHash_settles [OF this 1 2] have "setTemplateHash sample_lib t2 h2 = (t2, h2)" by simp
  then show ?thesis by (simp add: 1 2)
qed

section \<open>Removing templates is harmless\<close>

lemma mget_fold_mdel: "map_of (fold mdel ks m) x = (if x \<in> set ks then None else map_of m x)"
  by (induction ks arbitrary: m) (auto simp: mget_mdel)

text \<open>The templates that the grid values may be mapped to.\<close>

definition template_used :: "grid_spec \<Rightarrow> string \<Rightarrow> bool" where
  "template_used spec name \<longleftrightarrow> name = DefaultTemplate spec \<and> name \<noteq> DefaultTemplateName \<or>
     (\<exists>ts. Templates spec = Some ts \<and> name \<in> set (map snd ts))"

lemma unused_key: "map_of (map (\<lambda>k. (k, True)) ks) name = (if name \<in> set ks then Some True else None)"
  by (induction ks) auto

lemma RemoveUnusedTemplate_pool:
  "mget (TemplatePool (gr_Spec (RemoveUnusedTemplate g))) name =
     (if AutoDeleteUnusedTemplate (gr_Spec g) \<and> \<not> template_used (gr_Spec g) name then None else mget (TemplatePool (gr_Spec g)) name)"
proof (cases "AutoDeleteUnusedTemplate (gr_Spec g)")
  case True
  let ?s = "gr_Spec g"
  define tm where "tm = fold mdel (map snd (case Templates ?s of None \<Rightarrow> [] | Some ts \<Rightarrow> ts))
     (if DefaultTemplate ?s \<noteq> DefaultTemplateName then mdel (DefaultTemplate ?s) (map (\<lambda>k. (k, True)) (mkeys (TemplatePool ?s)))
      else map (\<lambda>k. (k, True)) (mkeys (TemplatePool ?s)))"
  have "map_of tm name \<noteq> None \<longleftrightarrow> name \<in> set (mkeys (TemplatePool ?s)) \<and> \<not> template_used ?s name"
    unfolding tm_def mget_fold_mdel
    by (cases "Templates ?s") (auto simp: mget_mdel unused_key template_used_def simp del: map_map)
  then have "name \<in> set (mkeys tm) \<longleftrightarrow> map_of (TemplatePool ?s) name \<noteq> None \<and> \<not> template_used ?s name"
    unfolding mhas_iff .
  moreover have "TemplatePool (gr_Spec (RemoveUnusedTemplate g)) = fold mdel (mkeys tm) (TemplatePool ?s)"
    using True unfolding RemoveUnusedTemplate_def Let_def tm_def by simp
  ultimately show ?thesis using True by (auto simp: mget_fold_mdel simp del: set_map)
qed (simp add: RemoveUnusedTemplate_def)

text \<open>
  RemoveUnusedTemplate keeps every template that a grid value can be mapped to: the template of each grid value is the same
  before and after, and the pool loses, in a grid that asks for it, exactly the templates that are not used.
\<close>

theorem RemoveUnusedTemplate_safe:
  "getTemplate (gr_Spec (RemoveUnusedTemplate g)) v = getTemplate (gr_Spec g) v \<and>
   mget (TemplatePool (gr_Spec (RemoveUnusedTemplate g))) name =
     (if AutoDeleteUnusedTemplate (gr_Spec g) \<and> \<not> template_used (gr_Spec g) name then None else mget (TemplatePool (gr_Spec g)) name)"
proof -
  have same: "Templates (gr_Spec (RemoveUnusedTemplate g)) = Templates (gr_Spec g)" "Template (gr_Spec (RemoveUnusedTemplate g)) = Template (gr_Spec g)"
    "DefaultTemplate (gr_Spec (RemoveUnusedTemplate g)) = DefaultTemplate (gr_Spec g)"
    by (simp_all add: RemoveUnusedTemplate_def Let_def)
  have "template_used (gr_Spec g) (GetTemplateName (Templates (gr_Spec g)) v (DefaultTemplate (gr_Spec g)))"
    if "GetTemplateName (Templates (gr_Spec g)) v (DefaultTemplate (gr_Spec g)) \<noteq> DefaultTemplateName"
    using that by (auto simp: GetTemplateName_def template_used_def nget_def image_iff dest!: map_of_SomeD split: option.splits) force
  then have "getTemplate (gr_Spec (RemoveUnusedTemplate g)) v = getTemplate (gr_Spec g) v"
    by (auto simp: getTemplate_def same RemoveUnusedTemplate_pool Let_def)
  then show ?thesis by (simp add: RemoveUnusedTemplate_pool)
qed

end
