(* ===== verification/GridSync.thy ===== *)
theory GridSync
  imports GridWorkload RefManager "HOL-Library.Multiset"
begin

text \<open>
  The synchronisation of the workloads of a grid:
  \<open>src/pkg/application-grid-controller/controller/deployment/sync.go\<close> and \<open>controller/statefulset/sync.go\<close>. From the
  grid values of the nodes and the workloads the grid owns it computes what to create, update and delete, makes the calls
  concurrently, and writes the status of the grid.

  Every call to the API server is recorded, with the contents of the object at the moment of the call, in the order of the calls
  (\<open>gs_log\<close>); the answer to the n-th call is an argument (\<open>respond\<close>), as is the order in which the goroutines of one
  synchronisation make their calls (\<open>interleave\<close>). The result of an operation is the list of its errors; \<open>nil\<close> is the empty list.
\<close>

section \<open>Calls\<close>

record workload_value =
  wv_Meta :: object_meta
  wv_Spec :: spec_value

record grid_contents =
  gc_Meta :: object_meta
  gc_Template :: spec_value
  gc_Pool :: "(string, spec_value) gomap"
  gc_Default :: string
  gc_States :: "(string, workload_status) gomap"

datatype grid_call =
    CreateCall workload_value
  | UpdateCall workload_value
  | DeleteCall string string
  | GridCreate grid_contents
  | GridUpdate grid_contents
  | GridDelete string string
  | GridStatus grid_contents

definition value_of_workload :: "heap \<Rightarrow> workload \<Rightarrow> workload_value" where
  "value_of_workload h w = \<lparr>wv_Meta = meta_value h (wl_Meta w), wv_Spec = value_of_spec h (wl_Spec w)\<rparr>"

definition value_of_pool :: "heap \<Rightarrow> (string, workload_spec) gomap \<Rightarrow> (string, spec_value) gomap" where
  "value_of_pool h pool = map (\<lambda>(k, s). (k, value_of_spec h s)) pool"

definition value_of_grid :: "heap \<Rightarrow> grid \<Rightarrow> grid_contents" where
  "value_of_grid h g = \<lparr>gc_Meta = meta_value h (gr_Meta g), gc_Template = value_of_spec h (Template (gr_Spec g)),
     gc_Pool = value_of_pool h (TemplatePool (gr_Spec g)), gc_Default = DefaultTemplate (gr_Spec g), gc_States = gr_States g\<rparr>"

text \<open>\<open>DeepEqual_*\<close> is \<open>apiequality.Semantic.DeepEqual\<close> at the types it is used at.\<close>

record grid_env = grid_lib +
  respond :: "nat \<Rightarrow> grid_call \<Rightarrow> apierr option"
  interleave :: "grid_call list \<Rightarrow> grid_call list"
  DeepEqual_states :: "(string, workload_status) gomap \<Rightarrow> (string, workload_status) gomap \<Rightarrow> bool"
  DeepEqual_spec :: "spec_value \<Rightarrow> spec_value \<Rightarrow> bool"
  DeepEqual_pool :: "(string, spec_value) gomap \<Rightarrow> (string, spec_value) gomap \<Rightarrow> bool"
  scheme_Default_grid :: "grid \<Rightarrow> grid"

record grid_state =
  gs_heap :: heap
  gs_log :: "grid_call list"
  gs_events :: "string list"

definition grid_api :: "'a grid_env_scheme \<Rightarrow> grid_call \<Rightarrow> grid_state \<Rightarrow> apierr option \<times> grid_state" where
  "grid_api env c st = (respond env (length (gs_log st)) c, st\<lparr>gs_log := gs_log st @ [c]\<rparr>)"

definition record_event :: "string \<Rightarrow> grid_state \<Rightarrow> grid_state" where
  "record_event reason st = st\<lparr>gs_events := gs_events st @ [reason]\<rparr>"

section \<open>Concurrent calls\<close>

text \<open>The errors that a goroutine does not report.\<close>

fun call_benign :: "grid_call \<Rightarrow> apierr \<Rightarrow> bool" where
  "call_benign (CreateCall _) err = (err = EAlreadyExists)"
| "call_benign (GridCreate _) err = (err = EAlreadyExists)"
| "call_benign (DeleteCall _ _) err = (err = ENotFound)"
| "call_benign (GridDelete _ _) err = (err = ENotFound)"
| "call_benign _ err = False"

text \<open>The calls one after the other, and the errors in the channel.\<close>

fun make_calls :: "'a grid_env_scheme \<Rightarrow> grid_call list \<Rightarrow> grid_state \<Rightarrow> apierr list \<times> grid_state" where
  "make_calls env [] st = ([], st)"
| "make_calls env (c # cs) st =
     (let (err, st1) = grid_api env c st;
          (errs, st2) = make_calls env cs st1
      in (case err of
            Some e \<Rightarrow> if call_benign c e then (errs, st2) else (e # errs, st2)
          | None \<Rightarrow> (errs, st2)))"

definition run_calls :: "'a grid_env_scheme \<Rightarrow> grid_call list \<Rightarrow> grid_state \<Rightarrow> apierr list \<times> grid_state" where
  "run_calls env cs st =
     (let (errCh, st1) = make_calls env (interleave env cs) st
      in (filter (\<lambda>e. e \<noteq> EConflict) errCh, st1))"

definition workload_calls :: "heap \<Rightarrow> workload list \<Rightarrow> workload list \<Rightarrow> workload list \<Rightarrow> grid_call list" where
  "workload_calls h adds updates deletes =
     map (\<lambda>d. CreateCall (value_of_workload h d)) adds @ map (\<lambda>d. UpdateCall (value_of_workload h d)) updates @
     map (\<lambda>d. DeleteCall (rm_Namespace (wl_Meta d)) (rm_Name (wl_Meta d))) deletes"

definition sync_workloads :: "'a grid_env_scheme \<Rightarrow> workload list \<Rightarrow> workload list \<Rightarrow> workload list \<Rightarrow> grid_state \<Rightarrow> apierr list \<times> grid_state" where
  "sync_workloads env adds updates deletes st = run_calls env (workload_calls (gs_heap st) adds updates deletes) st"

definition syncDeployment :: "'a grid_env_scheme \<Rightarrow> workload list \<Rightarrow> workload list \<Rightarrow> workload list \<Rightarrow> grid_state \<Rightarrow> apierr list \<times> grid_state" where
  "syncDeployment = sync_workloads"
definition syncStatefulSet :: "'a grid_env_scheme \<Rightarrow> workload list \<Rightarrow> workload list \<Rightarrow> workload list \<Rightarrow> grid_state \<Rightarrow> apierr list \<times> grid_state" where
  "syncStatefulSet = sync_workloads"

definition syncDisDeploymentGrid :: "'a grid_env_scheme \<Rightarrow> grid list \<Rightarrow> grid list \<Rightarrow> grid list \<Rightarrow> grid_state \<Rightarrow> apierr list \<times> grid_state" where
  "syncDisDeploymentGrid env adds updates deletes st =
     run_calls env
       (map (\<lambda>d. GridCreate (value_of_grid (gs_heap st) d)) adds @ map (\<lambda>d. GridUpdate (value_of_grid (gs_heap st) d)) updates @
        map (\<lambda>d. GridDelete (rm_Namespace (gr_Meta d)) (rm_Name (gr_Meta d))) deletes) st"

section \<open>Status\<close>

definition wanted_names :: "grid \<Rightarrow> string list \<Rightarrow> string list" where
  "wanted_names g gridValues = map (workload_name g) gridValues"

text \<open>The write of the states: a conflict is no error.\<close>

definition write_states :: "'a grid_env_scheme \<Rightarrow> grid \<Rightarrow> (string, workload_status) gomap \<Rightarrow> grid_state \<Rightarrow> apierr list \<times> grid_state" where
  "write_states env g states st =
     (if \<not> DeepEqual_states env (gr_States g) states then
        let (gCopy, h1) = copy_grid g (gs_heap st);
            (err, st1) = grid_api env (GridStatus (value_of_grid h1 (gCopy\<lparr>gr_States := states\<rparr>))) (st\<lparr>gs_heap := h1\<rparr>)
        in (case err of
              None \<Rightarrow> ([], st1)
            | Some e \<Rightarrow> if e = EConflict then ([], st1) else ([e], st1))
      else ([], st))"

definition grid_states :: "(workload_status \<Rightarrow> workload_status) \<Rightarrow> grid \<Rightarrow> workload list \<Rightarrow> string list \<Rightarrow> (string, workload_status) gomap" where
  "grid_states filt g dpList gridValues =
     fold (\<lambda>dp states. if rm_Name (wl_Meta dp) \<in> set (wanted_names g gridValues)
        then mput (GetGridValueFromName g (rm_Name (wl_Meta dp))) (filt (wl_Status dp)) states else states) dpList []"

definition syncStatus :: "'a grid_env_scheme \<Rightarrow> grid \<Rightarrow> workload list \<Rightarrow> string list \<Rightarrow> grid_state \<Rightarrow> apierr list \<times> grid_state" where
  "syncStatus env dg dpList gridValues st = write_states env dg (grid_states FiltDgStatus dg dpList gridValues) st"

definition syncStatus_set :: "'a grid_env_scheme \<Rightarrow> grid \<Rightarrow> workload list \<Rightarrow> string list \<Rightarrow> grid_state \<Rightarrow> apierr list \<times> grid_state" where
  "syncStatus_set env ssg setList gridValues st = write_states env ssg (grid_states id ssg setList gridValues) st"

section \<open>Plan\<close>

definition by_name :: "workload list \<Rightarrow> (string, workload) gomap" where
  "by_name dpList = fold (\<lambda>dp m. mput (rm_Name (wl_Meta dp)) dp m) dpList []"

text \<open>One existing workload: the one to update it with, if it needs to be updated.\<close>

definition check_workload :: "'a grid_env_scheme \<Rightarrow> grid \<Rightarrow> string \<Rightarrow> workload \<Rightarrow> workload \<Rightarrow> heap \<Rightarrow> workload list go" where
  "check_workload env g v dp toUpdate h =
     go_bind (IsReplicasChanged g v dp) (\<lambda>replicasChanged.
       if IsTemplateHashChanged h g v dp \<or> replicasChanged then Ret [toUpdate]
       else
         let spec = (scheme_Default env h (wl_Spec toUpdate))\<lparr>ws_Replicas := ws_Replicas (wl_Spec dp)\<rparr>
         in if \<not> DeepContains (Some (reflect_spec h (wl_Spec dp))) (Some (reflect_spec h spec))
            then Ret [toUpdate\<lparr>wl_Spec := spec\<rparr>] else Ret [])"

text \<open>The loop over the grid values; the first error ends it.\<close>

fun plan :: "'a grid_env_scheme \<Rightarrow> string \<Rightarrow> grid \<Rightarrow> (string, workload) gomap \<Rightarrow> string list \<Rightarrow> heap \<Rightarrow>
    ((go_error + workload list \<times> workload list) \<times> heap) go" where
  "plan env kind g existed [] h = Ret (Inr ([], []), h)"
| "plan env kind g existed (v # vs) h =
     (case CreateWorkload env kind g v h of
        (Inl err, h1) \<Rightarrow> Ret (Inl err, h1)
      | (Inr w, h1) \<Rightarrow>
          go_bind (case mget existed (workload_name g v) of
                     None \<Rightarrow> Ret ([w], [])
                   | Some dp \<Rightarrow> go_bind (check_workload env g v dp w h1) (\<lambda>us. Ret ([], us)))
            (\<lambda>(as, us). go_bind (plan env kind g existed vs h1)
               (\<lambda>(r, h2). Ret (case r of Inl err \<Rightarrow> Inl err | Inr (adds, updates) \<Rightarrow> Inr (as @ adds, us @ updates), h2))))"

definition unwanted :: "grid \<Rightarrow> workload list \<Rightarrow> string list \<Rightarrow> workload list" where
  "unwanted g dpList gridValues = filter (\<lambda>dp. rm_Name (wl_Meta dp) \<notin> set (wanted_names g gridValues)) dpList"

definition reconcile :: "'a grid_env_scheme \<Rightarrow> grid \<Rightarrow> workload list \<Rightarrow> string list \<Rightarrow> grid_state \<Rightarrow> (apierr list \<times> grid_state) go" where
  "reconcile env dg dpList gridValues st =
     go_bind (plan env DeploymentGridKind dg (by_name dpList) gridValues (gs_heap st)) (\<lambda>(r, h1).
       let st1 = st\<lparr>gs_heap := h1\<rparr> in
       Ret (case r of
          Inl err \<Rightarrow> ([EOther err], st1)
        | Inr (adds, updates) \<Rightarrow>
            let (errs, st2) = syncDeployment env adds updates (unwanted dg dpList gridValues) st1 in
            if errs \<noteq> [] then (errs, record_event ''SyncDeploymentGridFailed'' st2)
            else if length dpList \<noteq> 0 then
              let (errs, st3) = syncStatus env dg dpList gridValues st2
              in (errs, if errs \<noteq> [] then record_event ''SyncDeploymentGridStatusFailed'' st3 else st3)
            else ([], st2)))"

definition reconcile_set :: "'a grid_env_scheme \<Rightarrow> grid \<Rightarrow> workload list \<Rightarrow> string list \<Rightarrow> grid_state \<Rightarrow> (apierr list \<times> grid_state) go" where
  "reconcile_set env ssg setList gridValues st =
     go_bind (plan env StatefulSetGridKind ssg (by_name setList) gridValues (gs_heap st)) (\<lambda>(r, h1).
       let st1 = st\<lparr>gs_heap := h1\<rparr> in
       Ret (case r of
          Inl err \<Rightarrow> ([EOther err], st1)
        | Inr (adds, updates) \<Rightarrow>
            let (errs, st2) = syncStatefulSet env adds updates (unwanted ssg setList gridValues) st1 in
            if errs \<noteq> [] then (errs, record_event ''SyncStatefulSetGridFailed'' st2)
            else
              let (errs, st3) = syncStatus_set env ssg setList gridValues st2
              in (errs, if errs \<noteq> [] then record_event ''SyncStatefulSetGridStatusFailed'' st3 else st3)))"

section \<open>Distribution to managed clusters\<close>

text \<open>The pointers of the two maps of a specification are arguments.\<close>

definition reflect_grid_spec :: "nat \<Rightarrow> heap \<Rightarrow> grid_spec \<Rightarrow> goval" where
  "reflect_grid_spec p h s = VStruct ''DeploymentGridSpec''
     [VBasic ''string'' True (BString (GridUniqKey s)), reflect_spec h (Template s),
      VMap ''map[string]DeploymentSpec'' None (Some (p, map (\<lambda>(k, t). (BString k, reflect_spec h t)) (TemplatePool s))),
      VMap ''map[string]string'' None (map_option (\<lambda>ts. (p, map (\<lambda>(k, v). (BString k, VBasic ''string'' True (BString v))) ts)) (Templates s)),
      VBasic ''string'' True (BString (DefaultTemplate s)), VBasic ''bool'' True (BBool (AutoDeleteUnusedTemplate s))]"

definition by_namespace :: "grid list \<Rightarrow> (string, grid) gomap" where
  "by_namespace dgList = fold (\<lambda>feddg m. mput (rm_Namespace (gr_Meta feddg)) feddg m) dgList []"

fun plan_fed :: "'a grid_env_scheme \<Rightarrow> grid \<Rightarrow> (string, grid) gomap \<Rightarrow> string list \<Rightarrow> heap \<Rightarrow> ((grid list \<times> grid list) \<times> heap) go" where
  "plan_fed env dg existed [] h = Ret (([], []), h)"
| "plan_fed env dg existed (ns # nss) h =
     (case mget existed ns of
        None \<Rightarrow>
          go_bind (CreateDeploymentGrid env dg ns h) (\<lambda>(toAdd, h1).
            go_bind (plan_fed env dg existed nss h1) (\<lambda>((adds, updates), h2). Ret ((toAdd # adds, updates), h2)))
      | Some feddg \<Rightarrow>
          let (toUpdate, h1) = UpdateDeploymentGrid dg feddg h;
              toUpdate = scheme_Default_grid env toUpdate;
              changed = \<not> DeepContains (Some (reflect_grid_spec 0 h1 (gr_Spec feddg))) (Some (reflect_grid_spec 1 h1 (gr_Spec toUpdate)))
          in go_bind (plan_fed env dg existed nss h1) (\<lambda>((adds, updates), h2).
               Ret ((adds, if changed then toUpdate # updates else updates), h2)))"

definition dis_states :: "grid list \<Rightarrow> string list \<Rightarrow> (string, workload_status) gomap" where
  "dis_states dgList disNsList =
     fold (\<lambda>dg states. if rm_Namespace (gr_Meta dg) \<in> set disNsList
        then fold (\<lambda>(k, v) states. mput k v states) (gr_States dg) states else states) dgList []"

definition syncDisStatus :: "'a grid_env_scheme \<Rightarrow> grid \<Rightarrow> grid list \<Rightarrow> string list \<Rightarrow> grid_state \<Rightarrow> apierr list \<times> grid_state" where
  "syncDisStatus env dg dgList disNsList st = write_states env dg (dis_states dgList disNsList) st"

definition reconcileFed :: "'a grid_env_scheme \<Rightarrow> grid \<Rightarrow> grid list \<Rightarrow> string list \<Rightarrow> grid_state \<Rightarrow> (apierr list \<times> grid_state) go" where
  "reconcileFed env dg dgList disNsList st =
     go_bind (plan_fed env dg (by_namespace dgList) disNsList (gs_heap st)) (\<lambda>((adds, updates), h1).
       let deletes = filter (\<lambda>dg. rm_Namespace (gr_Meta dg) \<notin> set disNsList) dgList;
           (errs, st1) = syncDisDeploymentGrid env adds updates deletes (st\<lparr>gs_heap := h1\<rparr>)
       in Ret (if errs \<noteq> [] then (errs, st1)
               else if length dgList \<noteq> 0 \<and> length disNsList \<noteq> 0 then syncDisStatus env dg dgList disNsList st1
               else ([], st1)))"

section \<open>What a plan contains\<close>

abbreviation wname :: "workload \<Rightarrow> string" where
  "wname w \<equiv> rm_Name (wl_Meta w)"

lemma mget_by_name: "mget (by_name dpList) n = find (\<lambda>dp. wname dp = n) (rev dpList)"
proof (induction dpList rule: rev_induct)
  case (snoc dp dps)
  then show ?case by (simp add: by_name_def mget_mput)
qed (simp add: by_name_def)

lemma by_name_None: "mget (by_name dpList) n = None \<longleftrightarrow> n \<notin> wname ` set dpList"
  unfolding mget_by_name by (auto simp: find_None_iff)

lemma by_name_Some: "mget (by_name dpList) n = Some dp \<Longrightarrow> dp \<in> set dpList \<and> wname dp = n"
  unfolding mget_by_name by (auto simp: find_Some_iff) (metis nth_mem length_rev set_rev)

lemma CreateWorkload_Inr:
  assumes "CreateWorkload lib kind g v h = (Inr w, h1)"
  shows "wname w = workload_name g v \<and> rm_Namespace (wl_Meta w) = rm_Namespace (gr_Meta g)"
  using assms by (auto simp: CreateWorkload_def split: sum.splits prod.splits)

lemma check_workload_Ret:
  "check_workload env g v dp w h = Ret us \<Longrightarrow> us = [] \<or> (\<exists>u. us = [u] \<and> wl_Meta u = wl_Meta w)"
  by (auto simp: check_workload_def go_bind_eq_Ret Let_def split: if_splits)

lemma plan_Cons_Inr:
  assumes "plan env kind g existed (v # vs) h = Ret (Inr (adds, updates), h2)"
  obtains w h1 adds' updates' where
    "CreateWorkload env kind g v h = (Inr w, h1)" "plan env kind g existed vs h1 = Ret (Inr (adds', updates'), h2)"
    "mget existed (workload_name g v) = None \<and> adds = w # adds' \<and> updates = updates' \<or>
     (\<exists>dp us. mget existed (workload_name g v) = Some dp \<and> check_workload env g v dp w h1 = Ret us \<and> adds = adds' \<and> updates = us @ updates')"
proof -
  obtain w h1 where w: "CreateWorkload env kind g v h = (Inr w, h1)"
    using assms by (cases "CreateWorkload env kind g v h"; cases "fst (CreateWorkload env kind g v h)") auto
  obtain as us r where r: "plan env kind g existed vs h1 = Ret (r, h2)"
    "(case mget existed (workload_name g v) of None \<Rightarrow> Ret ([w], [])
      | Some dp \<Rightarrow> go_bind (check_workload env g v dp w h1) (\<lambda>us. Ret ([], us))) = Ret (as, us)"
    "(case r of Inl err \<Rightarrow> Inl err | Inr (adds, updates) \<Rightarrow> Inr (as @ adds, us @ updates)) = Inr (adds, updates)"
    using assms by (auto simp: w go_bind_eq_Ret)
  then obtain adds' updates' where "r = Inr (adds', updates')" "adds = as @ adds'" "updates = us @ updates'"
    by (cases r) auto
  with that [OF w] r(1,2) show ?thesis by (cases "mget existed (workload_name g v)") (auto simp: go_bind_eq_Ret)
qed

lemma plan_names:
  assumes "plan env kind g existed vs h = Ret (Inr (adds, updates), h')"
  shows "map wname adds = map (workload_name g) (filter (\<lambda>v. mget existed (workload_name g v) = None) vs) \<and>
    wname ` set updates \<subseteq> workload_name g ` {v \<in> set vs. mget existed (workload_name g v) \<noteq> None} \<and>
    (\<forall>w \<in> set adds \<union> set updates. rm_Namespace (wl_Meta w) = rm_Namespace (gr_Meta g))"
  using assms
proof (induction vs arbitrary: adds updates h)
  case (Cons v vs)
  from Cons.prems obtain w h1 adds' updates' where
    p: "CreateWorkload env kind g v h = (Inr w, h1)" "plan env kind g existed vs h1 = Ret (Inr (adds', updates'), h')"
    "mget existed (workload_name g v) = None \<and> adds = w # adds' \<and> updates = updates' \<or>
     (\<exists>dp us. mget existed (workload_name g v) = Some dp \<and> check_workload env g v dp w h1 = Ret us \<and> adds = adds' \<and> updates = us @ updates')"
    by (rule plan_Cons_Inr)
  note IH = Cons.IH [OF p(2)] and w = CreateWorkload_Inr [OF p(1)]
  show ?case
  proof (cases "mget existed (workload_name g v)")
    case None
    then show ?thesis using IH w p(3) by auto
  next
    case (Some dp)
    then obtain us where us: "check_workload env g v dp w h1 = Ret us" "adds = adds'" "updates = us @ updates'" using p(3) by auto
    have "\<forall>u \<in> set us. wl_Meta u = wl_Meta w" using check_workload_Ret [OF us(1)] by auto
    then show ?thesis using IH w Some us(2,3) by auto
  qed
qed simp

section \<open>A plan exists\<close>

text \<open>Every grid value has a template, and the numbers of replicas are given.\<close>

definition plannable :: "grid \<Rightarrow> (string, workload) gomap \<Rightarrow> string list \<Rightarrow> bool" where
  "plannable g existed vs \<longleftrightarrow>
     (\<forall>v \<in> set vs. \<exists>t. getTemplate (gr_Spec g) v = Inr t \<and>
        (\<forall>dp. mget existed (workload_name g v) = Some dp \<longrightarrow> ws_Replicas t \<noteq> None \<and> ws_Replicas (wl_Spec dp) \<noteq> None))"

lemma plan_total:
  "plannable g existed vs \<Longrightarrow> \<exists>adds updates h'. plan env kind g existed vs h = Ret (Inr (adds, updates), h')"
proof (induction vs arbitrary: h)
  case (Cons v vs)
  obtain t where t: "getTemplate (gr_Spec g) v = Inr t"
    "\<And>dp. mget existed (workload_name g v) = Some dp \<Longrightarrow> ws_Replicas t \<noteq> None \<and> ws_Replicas (wl_Spec dp) \<noteq> None"
    using Cons.prems by (auto simp: plannable_def)
  obtain w h1 where w: "CreateWorkload env kind g v h = (Inr w, h1)"
    by (simp add: CreateWorkload_def t(1) case_prod_unfold Let_def)
  obtain adds updates h' where rest: "plan env kind g existed vs h1 = Ret (Inr (adds, updates), h')"
    using Cons by (fastforce simp: plannable_def)
  show ?case
  proof (cases "mget existed (workload_name g v)")
    case (Some dp)
    have "\<exists>us. check_workload env g v dp w h1 = Ret us"
      using t(2) [OF Some] by (auto simp: check_workload_def IsReplicasChanged_def t(1) Let_def split: option.splits)
    then show ?thesis using w rest Some by auto
  qed (use w rest in auto)
qed simp

section \<open>Effect on the cluster\<close>

text \<open>The names of the workloads in the cluster after a call that succeeds.\<close>

fun apply_call :: "grid_call \<Rightarrow> (string \<times> string) set \<Rightarrow> (string \<times> string) set" where
  "apply_call (CreateCall w) S = insert (om_Namespace (wv_Meta w), om_Name (wv_Meta w)) S"
| "apply_call (DeleteCall ns n) S = S - {(ns, n)}"
| "apply_call _ S = S"

fun creates :: "grid_call \<Rightarrow> (string \<times> string) set" where
  "creates (CreateCall w) = {(om_Namespace (wv_Meta w), om_Name (wv_Meta w))}"
| "creates _ = {}"

fun deletes_of :: "grid_call \<Rightarrow> (string \<times> string) set" where
  "deletes_of (DeleteCall ns n) = {(ns, n)}"
| "deletes_of _ = {}"

lemma fold_apply_call:
  assumes "(\<Union>c \<in> set cs. creates c) \<inter> (\<Union>c \<in> set cs. deletes_of c) = {}"
  shows "fold apply_call cs S = (S - (\<Union>c \<in> set cs. deletes_of c)) \<union> (\<Union>c \<in> set cs. creates c)"
  using assms
proof (induction cs arbitrary: S)
  case (Cons c cs)
  then show ?case by (cases c) auto
qed simp

lemma make_calls_ok: "(\<And>n c. respond env n c = None) \<Longrightarrow> make_calls env cs st = ([], st\<lparr>gs_log := gs_log st @ cs\<rparr>)"
  by (induction cs arbitrary: st) (auto simp: grid_api_def)

lemma workload_calls_effect:
  "(\<Union>c \<in> set (workload_calls h adds updates dels). creates c) = (\<lambda>w. (rm_Namespace (wl_Meta w), wname w)) ` set adds"
  "(\<Union>c \<in> set (workload_calls h adds updates dels). deletes_of c) = (\<lambda>w. (rm_Namespace (wl_Meta w), wname w)) ` set dels"
  by (auto simp: workload_calls_def value_of_workload_def meta_value_def)

lemma write_states_log:
  assumes "\<And>n c. respond env n c = None" "write_states env g states st = (errs, st')"
  shows "errs = [] \<and> (\<exists>cs. gs_log st' = gs_log st @ cs \<and> (\<forall>c \<in> set cs. creates c = {} \<and> deletes_of c = {}))"
  using assms by (auto simp: write_states_def grid_api_def Let_def split: if_splits prod.splits)

text \<open>The order of the calls: a permutation of those that are to be made.\<close>

definition interleaves :: "'a grid_env_scheme \<Rightarrow> bool" where
  "interleaves env \<longleftrightarrow> (\<forall>cs. mset (interleave env cs) = mset cs)"

lemma interleaves_set: "interleaves env \<Longrightarrow> set (interleave env cs) = set cs"
  unfolding interleaves_def by (metis set_mset_mset)

lemma planned_effect:
  assumes "plan env kind g (by_name dpList) vs h = Ret (Inr (adds, updates), h')"
    "\<And>dp. dp \<in> set dpList \<Longrightarrow> rm_Namespace (wl_Meta dp) = rm_Namespace (gr_Meta g)"
    "set cs = set (workload_calls h' adds updates (unwanted g dpList vs)) \<union> extra" "\<And>c. c \<in> extra \<Longrightarrow> creates c = {} \<and> deletes_of c = {}"
  shows "fold apply_call cs ((\<lambda>dp. (rm_Namespace (wl_Meta dp), wname dp)) ` set dpList) = (\<lambda>v. (rm_Namespace (gr_Meta g), workload_name g v)) ` set vs"
proof -
  let ?ns = "rm_Namespace (gr_Meta g)"
  have adds: "(\<lambda>w. (rm_Namespace (wl_Meta w), wname w)) ` set adds = {(?ns, workload_name g v) | v. v \<in> set vs \<and> workload_name g v \<notin> wname ` set dpList}"
  proof -
    have n: "map wname adds = map (workload_name g) (filter (\<lambda>v. mget (by_name dpList) (workload_name g v) = None) vs)"
      and ns: "\<forall>w \<in> set adds. rm_Namespace (wl_Meta w) = ?ns" using plan_names [OF assms(1)] by auto
    have "wname ` set adds = {workload_name g v | v. v \<in> set vs \<and> workload_name g v \<notin> wname ` set dpList}"
      using arg_cong [OF n, of set] by (auto simp: by_name_None)
    moreover have "(\<lambda>w. (rm_Namespace (wl_Meta w), wname w)) ` set adds = (\<lambda>n. (?ns, n)) ` (wname ` set adds)"
      using ns by (auto simp: image_iff)
    ultimately show ?thesis by auto
  qed
  have dels: "(\<lambda>w. (rm_Namespace (wl_Meta w), wname w)) ` set (unwanted g dpList vs) = {(?ns, n) | n. n \<in> wname ` set dpList \<and> n \<notin> workload_name g ` set vs}"
    using assms(2) by (auto simp: unwanted_def wanted_names_def image_iff)
  have sets: "(\<Union>c \<in> set cs. creates c) = {(?ns, workload_name g v) | v. v \<in> set vs \<and> workload_name g v \<notin> wname ` set dpList}"
    "(\<Union>c \<in> set cs. deletes_of c) = {(?ns, n) | n. n \<in> wname ` set dpList \<and> n \<notin> workload_name g ` set vs}"
    using assms(4) by (auto simp: assms(3) workload_calls_effect adds [symmetric] dels [symmetric])
  have "fold apply_call cs ((\<lambda>dp. (rm_Namespace (wl_Meta dp), wname dp)) ` set dpList) =
     ((\<lambda>dp. (rm_Namespace (wl_Meta dp), wname dp)) ` set dpList - (\<Union>c \<in> set cs. deletes_of c)) \<union> (\<Union>c \<in> set cs. creates c)"
    by (rule fold_apply_call) (auto simp: sets)
  also have "\<dots> = (\<lambda>v. (?ns, workload_name g v)) ` set vs" unfolding sets using assms(2) by (auto simp: image_iff)
  finally show ?thesis .
qed

section \<open>Node selectors\<close>

text \<open>The maps that planning for some grid values may write to.\<close>

definition written :: "grid \<Rightarrow> string list \<Rightarrow> nat set" where
  "written g vs = {a. rm_Labels (gr_Meta g) = Some a} \<union>
     {a. \<exists>v \<in> set vs. \<exists>t. getTemplate (gr_Spec g) v = Inr t \<and> pt_NodeSelector (ws_Template t) = Some a}"

lemma workload_labels_heap:
  "workload_labels g h = (a, h1) \<Longrightarrow> length h \<le> length h1 \<and> (\<forall>i < length h. rm_Labels (gr_Meta g) \<noteq> Some i \<longrightarrow> h1 ! i = h ! i)"
  by (auto simp: workload_labels_def set_key_def alloc_def nth_append split: option.splits)

lemma workload_selector_heap:
  "workload_selector g t v h = (a, h1) \<Longrightarrow> length h \<le> length h1 \<and> (\<forall>i < length h. pt_NodeSelector (ws_Template t) \<noteq> Some i \<longrightarrow> h1 ! i = h ! i)"
  by (auto simp: workload_selector_def set_key_def alloc_def nth_append split: option.splits)

lemma CreateWorkload_steps:
  assumes "CreateWorkload lib kind g v h = (Inr w, h2)"
  obtains t ls h1 ns where "getTemplate (gr_Spec g) v = Inr t" "workload_labels g h = (ls, h1)" "workload_selector g t v h1 = (ns, h2)"
    "pt_NodeSelector (ws_Template (wl_Spec w)) = Some ns"
  using assms by (auto simp: CreateWorkload_def split: sum.splits prod.splits)

lemma CreateWorkload_heap:
  assumes "CreateWorkload lib kind g v h = (Inr w, h2)"
  shows "length h \<le> length h2 \<and> (\<forall>i < length h. i \<notin> written g [v] \<longrightarrow> h2 ! i = h ! i)"
proof -
  obtain t ls h1 ns where s: "getTemplate (gr_Spec g) v = Inr t" "workload_labels g h = (ls, h1)" "workload_selector g t v h1 = (ns, h2)"
    "pt_NodeSelector (ws_Template (wl_Spec w)) = Some ns" by (rule CreateWorkload_steps [OF assms])
  have "h2 ! i = h ! i" if "i < length h" "i \<notin> written g [v]" for i
    using that workload_labels_heap [OF s(2)] workload_selector_heap [OF s(3)] s(1) by (simp add: written_def)
  then show ?thesis using workload_labels_heap [OF s(2)] workload_selector_heap [OF s(3)] by auto
qed

lemma plan_heap:
  assumes "plan env kind g existed vs h = Ret (Inr (adds, updates), h')"
  shows "length h \<le> length h' \<and> (\<forall>i < length h. i \<notin> written g vs \<longrightarrow> h' ! i = h ! i)"
  using assms
proof (induction vs arbitrary: adds updates h)
  case (Cons v vs)
  from Cons.prems obtain w h1 adds' updates' where
    p: "CreateWorkload env kind g v h = (Inr w, h1)" "plan env kind g existed vs h1 = Ret (Inr (adds', updates'), h')"
    by (rule plan_Cons_Inr)
  show ?case using Cons.IH [OF p(2)] CreateWorkload_heap [OF p(1)] by (fastforce simp: written_def)
qed simp

text \<open>Without a node selector in the templates each workload gets a map of its own.\<close>

lemma plan_private_selectors:
  assumes "plan env kind g existed vs h = Ret (Inr (adds, updates), h')"
    "\<And>v t. v \<in> set vs \<Longrightarrow> getTemplate (gr_Spec g) v = Inr t \<Longrightarrow> pt_NodeSelector (ws_Template t) = None"
    "ref_ok h (rm_Labels (gr_Meta g))" "w \<in> set adds"
  shows "\<exists>v \<in> set vs. wname w = workload_name g v \<and> load h' (pt_NodeSelector (ws_Template (wl_Spec w))) = Some [(GridUniqKey (gr_Spec g), v)]"
  using assms
proof (induction vs arbitrary: adds updates h)
  case (Cons v vs)
  from Cons.prems(1) obtain u h1 adds' updates' where
    p: "CreateWorkload env kind g v h = (Inr u, h1)" "plan env kind g existed vs h1 = Ret (Inr (adds', updates'), h')"
    "mget existed (workload_name g v) = None \<and> adds = u # adds' \<and> updates = updates' \<or>
     (\<exists>dp us. mget existed (workload_name g v) = Some dp \<and> check_workload env g v dp u h1 = Ret us \<and> adds = adds' \<and> updates = us @ updates')"
    by (rule plan_Cons_Inr)
  have ok: "ref_ok h1 (rm_Labels (gr_Meta g))"
    using Cons.prems(3) CreateWorkload_heap [OF p(1)] by (cases "rm_Labels (gr_Meta g)") auto
  show ?case
  proof (cases "w = u")
    case True
    obtain t ls h0 ns where s: "getTemplate (gr_Spec g) v = Inr t" "workload_labels g h = (ls, h0)" "workload_selector g t v h0 = (ns, h1)"
      "pt_NodeSelector (ws_Template (wl_Spec u)) = Some ns" by (rule CreateWorkload_steps [OF p(1)])
    have "pt_NodeSelector (ws_Template t) = None" using Cons.prems(2) [OF _ s(1)] by simp
    then have fresh: "ns = length h0" "h1 = h0 @ [[(GridUniqKey (gr_Spec g), v)]]"
      using s(3) by (auto simp: workload_selector_def alloc_def)
    have "ns \<notin> written g vs"
      using Cons.prems(2,3) workload_labels_heap [OF s(2)] by (auto simp: written_def fresh) (metis option.distinct(1))
    then have "h' ! ns = [(GridUniqKey (gr_Spec g), v)]" using plan_heap [OF p(2)] by (simp add: fresh)
    then show ?thesis using True CreateWorkload_Inr [OF p(1)] s(4) by (simp add: load_def)
  next
    case False
    then have "w \<in> set adds'" using Cons.prems(4) p(3) by auto
    then show ?thesis using Cons.IH [OF p(2) _ ok] Cons.prems(2) by fastforce
  qed
qed simp

text \<open>With one template that has a node selector, all workloads share its map.\<close>

lemma plan_shared_selector:
  assumes "plan env kind g existed vs h = Ret (Inr (adds, updates), h')" "vs \<noteq> []"
    "\<And>v. v \<in> set vs \<Longrightarrow> getTemplate (gr_Spec g) v = Inr t" "pt_NodeSelector (ws_Template t) = Some a" "a < length h"
    "rm_Labels (gr_Meta g) \<noteq> Some a"
  shows "mget (h' ! a) (GridUniqKey (gr_Spec g)) = Some (last vs) \<and>
    (\<forall>w \<in> set adds. pt_NodeSelector (ws_Template (wl_Spec w)) = Some a)"
  using assms
proof (induction vs arbitrary: adds updates h)
  case (Cons v vs)
  from Cons.prems(1) obtain u h1 adds' updates' where
    p: "CreateWorkload env kind g v h = (Inr u, h1)" "plan env kind g existed vs h1 = Ret (Inr (adds', updates'), h')"
    "mget existed (workload_name g v) = None \<and> adds = u # adds' \<and> updates = updates' \<or>
     (\<exists>dp us. mget existed (workload_name g v) = Some dp \<and> check_workload env g v dp u h1 = Ret us \<and> adds = adds' \<and> updates = us @ updates')"
    by (rule plan_Cons_Inr)
  obtain t' ls h0 ns where s: "getTemplate (gr_Spec g) v = Inr t'" "workload_labels g h = (ls, h0)" "workload_selector g t' v h0 = (ns, h1)"
    "pt_NodeSelector (ws_Template (wl_Spec u)) = Some ns" by (rule CreateWorkload_steps [OF p(1)])
  have t': "t' = t" using s(1) Cons.prems(3) by auto
  have u: "ns = a" "h1 = set_key a (GridUniqKey (gr_Spec g)) v h0" using s(3) Cons.prems(4) by (auto simp: t' workload_selector_def)
  have a: "a < length h0" using workload_labels_heap [OF s(2)] Cons.prems(5) by auto
  show ?case
  proof (cases "vs = []")
    case True
    then have "h' = h1" "adds' = []" using p(2) by auto
    then show ?thesis using True u a s(4) p(3) by (auto simp: set_key_def mget_mput)
  next
    case False
    from Cons.IH [OF p(2) this _ Cons.prems(4)] show ?thesis
      using False Cons.prems(3,6) a u s(4) p(3) by auto
  qed
qed simp

section \<open>The calls of a reconciliation\<close>

lemma run_calls_log:
  assumes "interleaves env" "run_calls env cs st = (errs, st')"
  shows "\<exists>ds. gs_log st' = gs_log st @ ds \<and> set ds = set cs \<and> gs_heap st' = gs_heap st"
proof -
  have mk: "gs_log (snd (make_calls env cs st)) = gs_log st @ cs \<and> gs_heap (snd (make_calls env cs st)) = gs_heap st" for cs st
    by (induction cs arbitrary: st) (auto simp: grid_api_def case_prod_unfold Let_def split: option.split)
  show ?thesis using assms(2) mk [of "interleave env cs" st] interleaves_set [OF assms(1)]
    by (auto simp: run_calls_def split: prod.splits)
qed

lemma write_states_calls:
  "write_states env g states st = (errs, st') \<Longrightarrow> \<exists>cs. gs_log st' = gs_log st @ cs \<and> (\<forall>c \<in> set cs. \<exists>x. c = GridStatus x)"
  by (auto simp: write_states_def grid_api_def Let_def split: if_splits prod.splits option.splits)

lemma copy_ref_heap: "\<exists>hs. snd (copy_ref r h) = h @ hs"
  by (auto simp: copy_ref_def split: option.split)

lemma copy_spec_heap: "\<exists>hs. snd (copy_spec s h) = h @ hs"
proof -
  obtain h1 where 1: "snd (copy_ref (pt_Labels (ws_Template s)) h) = h @ h1" using copy_ref_heap by blast
  obtain h2 where "snd (copy_ref (pt_NodeSelector (ws_Template s)) (h @ h1)) = (h @ h1) @ h2" using copy_ref_heap by blast
  with 1 show ?thesis by (simp add: copy_spec_def case_prod_unfold Let_def)
qed

lemma copy_pool_heap: "\<exists>hs. snd (copy_pool pool h) = h @ hs"
proof (induction pool arbitrary: h)
  case (Cons ks pool)
  obtain k s where ks: "ks = (k, s)" by fastforce
  obtain h1 where 1: "snd (copy_spec s h) = h @ h1" using copy_spec_heap by blast
  obtain h2 where "snd (copy_pool pool (h @ h1)) = (h @ h1) @ h2" using Cons by blast
  with 1 show ?case by (simp add: ks case_prod_unfold Let_def)
qed simp

lemma copy_grid_heap: "\<exists>hs. snd (copy_grid g h) = h @ hs"
proof -
  obtain h1 where 1: "snd (copy_ref (rm_Labels (gr_Meta g)) h) = h @ h1" using copy_ref_heap by blast
  obtain h2 where 2: "snd (copy_spec (Template (gr_Spec g)) (h @ h1)) = (h @ h1) @ h2" using copy_spec_heap by blast
  obtain h3 where "snd (copy_pool (TemplatePool (gr_Spec g)) ((h @ h1) @ h2)) = ((h @ h1) @ h2) @ h3" using copy_pool_heap by blast
  with 1 2 show ?thesis by (simp add: copy_grid_def case_prod_unfold Let_def)
qed

lemma write_states_heap: "write_states env g states st = (errs, st') \<Longrightarrow> \<exists>hs. gs_heap st' = gs_heap st @ hs"
  using copy_grid_heap [of g "gs_heap st"]
  by (auto simp: write_states_def grid_api_def Let_def case_prod_unfold split: if_splits option.splits)

text \<open>The workload calls of a reconciliation are those of its plan.\<close>

lemma reconcile_calls:
  assumes "interleaves env" "reconcile env dg dpList vs st = Ret (errs, st')"
    "plan env DeploymentGridKind dg (by_name dpList) vs (gs_heap st) = Ret (Inr (adds, updates), h')"
  shows "\<exists>cs ss. gs_log st' = gs_log st @ cs @ ss \<and> set cs = set (workload_calls h' adds updates (unwanted dg dpList vs)) \<and>
    (\<forall>c \<in> set ss. \<exists>x. c = GridStatus x) \<and> (\<exists>hs. gs_heap st' = h' @ hs)"
proof -
  obtain errs1 st1 where 1: "run_calls env (workload_calls h' adds updates (unwanted dg dpList vs)) (st\<lparr>gs_heap := h'\<rparr>) = (errs1, st1)" by fastforce
  obtain errs2 st2 where 2: "syncStatus env dg dpList vs st1 = (errs2, st2)" by fastforce
  obtain cs where cs: "gs_log st1 = gs_log st @ cs" "set cs = set (workload_calls h' adds updates (unwanted dg dpList vs))" "gs_heap st1 = h'"
    using run_calls_log [OF assms(1) 1] by auto
  obtain ss where ss: "gs_log st2 = gs_log st1 @ ss" "\<forall>c \<in> set ss. \<exists>x. c = GridStatus x"
    using write_states_calls [OF 2 [unfolded syncStatus_def]] by auto
  have "gs_log st' = gs_log st1 \<and> gs_heap st' = gs_heap st1 \<or> gs_log st' = gs_log st2 \<and> gs_heap st' = gs_heap st2"
    using assms(2,3) 1 2 by (auto simp: reconcile_def syncDeployment_def sync_workloads_def record_event_def Let_def split: if_splits)
  moreover obtain hs where "gs_heap st2 = h' @ hs" using write_states_heap [OF 2 [unfolded syncStatus_def]] cs(3) by auto
  ultimately consider "gs_log st' = gs_log st @ cs @ []" "gs_heap st' = h' @ []" | "gs_log st' = gs_log st @ cs @ ss" "gs_heap st' = h' @ hs"
    using cs ss by auto
  then show ?thesis using cs(2) ss(2) by cases (metis empty_iff empty_set, metis)
qed

section \<open>Properties\<close>

text \<open>
  C9: a reconciliation reaches the wanted state. When every grid value has a template, the numbers of replicas are given and the API
  server accepts the calls, reconcile ends without an error, and the calls it has made, in whatever order the goroutines made them,
  turn the set of the deployments of the grid into exactly one deployment for each grid value.
\<close>

theorem reconcile_converges:
  assumes "interleaves env" "\<And>n c. respond env n c = None" "plannable dg (by_name dpList) vs"
    "\<And>dp. dp \<in> set dpList \<Longrightarrow> rm_Namespace (wl_Meta dp) = rm_Namespace (gr_Meta dg)"
  shows "\<exists>st' cs. reconcile env dg dpList vs st = Ret ([], st') \<and> gs_log st' = gs_log st @ cs \<and>
    fold apply_call cs ((\<lambda>dp. (rm_Namespace (wl_Meta dp), rm_Name (wl_Meta dp))) ` set dpList) =
      (\<lambda>v. (rm_Namespace (gr_Meta dg), GetDeploymentName dg v)) ` set vs"
proof -
  obtain adds updates h' where plan: "plan env DeploymentGridKind dg (by_name dpList) vs (gs_heap st) = Ret (Inr (adds, updates), h')"
    using plan_total [OF assms(3)] by blast
  have run: "fst (run_calls env cs s) = []" for cs s by (simp add: run_calls_def make_calls_ok [OF assms(2)])
  have "fst (write_states env dg states s) = []" for states s
    using write_states_log [OF assms(2), of dg states s] by (metis prod.collapse)
  then have "\<exists>st'. reconcile env dg dpList vs st = Ret ([], st')"
    using run by (auto simp: reconcile_def plan syncDeployment_def sync_workloads_def syncStatus_def Let_def case_prod_unfold)
  then obtain st' where rec: "reconcile env dg dpList vs st = Ret ([], st')" by blast
  obtain cs ss where log: "gs_log st' = gs_log st @ cs @ ss" "set cs = set (workload_calls h' adds updates (unwanted dg dpList vs))"
    "\<forall>c \<in> set ss. \<exists>x. c = GridStatus x"
    using reconcile_calls [OF assms(1) rec plan] by blast
  have "fold apply_call (cs @ ss) ((\<lambda>dp. (rm_Namespace (wl_Meta dp), wname dp)) ` set dpList) =
      (\<lambda>v. (rm_Namespace (gr_Meta dg), workload_name dg v)) ` set vs"
    by (rule planned_effect [OF plan assms(4), of _ "set ss"]) (use log in auto)
  then show ?thesis using rec log(1) by (auto simp: GetDeploymentName_def)
qed

definition sample_rmeta :: "string \<Rightarrow> ref_map \<Rightarrow> ref_meta" where
  "sample_rmeta name ls = \<lparr>rm_Name = name, rm_Namespace = ''ns'', rm_UID = ''u'', rm_ResourceVersion = ''1'', rm_Labels = ls,
     rm_OwnerReferences = [], rm_DeletionTimestamp = None\<rparr>"

definition sample_dgrid :: "ref_map \<Rightarrow> grid" where
  "sample_dgrid ns = \<lparr>gr_Meta = sample_rmeta ''g'' None, gr_Spec = \<lparr>GridUniqKey = ''zone'', Template = sample_template None ns, TemplatePool = [],
     Templates = None, DefaultTemplate = ''default'', AutoDeleteUnusedTemplate = False\<rparr>, gr_States = []\<rparr>"

definition sample_dp :: "string \<Rightarrow> workload" where
  "sample_dp name = \<lparr>wl_Meta = sample_rmeta name None, wl_Spec = sample_template None None, wl_Status = zero_status\<rparr>"

definition sample_genv :: grid_env where
  "sample_genv = grid_lib.extend sample_lib \<lparr>respond = (\<lambda>n c. None), interleave = rev, DeepEqual_states = (=), DeepEqual_spec = (=), DeepEqual_pool = (=),
     scheme_Default_grid = id\<rparr>"

definition sample_gstate :: "heap \<Rightarrow> grid_state" where
  "sample_gstate h = \<lparr>gs_heap = h, gs_log = [], gs_events = []\<rparr>"

lemma sample_genv_simps: "interleaves sample_genv" "respond sample_genv n c = None"
  by (simp_all add: sample_genv_def interleaves_def grid_lib.defs sample_lib_def)

lemma sample_plannable: "plannable (sample_dgrid ns) (by_name dps) [''a'', ''b'']" if "\<And>dp. dp \<in> set dps \<Longrightarrow> ws_Replicas (wl_Spec dp) \<noteq> None"
  using that by (auto simp: plannable_def sample_dgrid_def getTemplate_def GetTemplateName_def DefaultTemplateName_def sample_template_def dest: by_name_Some)

theorem reconcile_converges_witness:
  "\<exists>st' cs. reconcile sample_genv (sample_dgrid None) [sample_dp ''g-a'', sample_dp ''g-c''] [''a'', ''b''] (sample_gstate []) = Ret ([], st') \<and> gs_log st' = cs \<and>
    fold apply_call cs {(''ns'', ''g-a''), (''ns'', ''g-c'')} = {(''ns'', ''g-a''), (''ns'', ''g-b'')}"
proof -
  let ?dps = "[sample_dp ''g-a'', sample_dp ''g-c'']"
  have ok: "plannable (sample_dgrid None) (by_name ?dps) [''a'', ''b'']" "\<And>dp. dp \<in> set ?dps \<Longrightarrow> rm_Namespace (wl_Meta dp) = rm_Namespace (gr_Meta (sample_dgrid None))"
    by (rule sample_plannable) (auto simp: sample_dp_def sample_template_def sample_rmeta_def sample_dgrid_def)
  have start: "(\<lambda>dp. (rm_Namespace (wl_Meta dp), rm_Name (wl_Meta dp))) ` set ?dps = {(''ns'', ''g-a''), (''ns'', ''g-c'')}"
    "(\<lambda>v. (rm_Namespace (gr_Meta (sample_dgrid None)), GetDeploymentName (sample_dgrid None) v)) ` set [''a'', ''b''] = {(''ns'', ''g-a''), (''ns'', ''g-b'')}"
    by (auto simp: sample_dp_def sample_rmeta_def sample_dgrid_def GetDeploymentName_def workload_name_def)
  show ?thesis
    using reconcile_converges [OF sample_genv_simps ok, of "sample_gstate []", unfolded start] by (auto simp: sample_gstate_def)
qed

text \<open>The stateful sets of a grid are reconciled the same way.\<close>

lemma reconcile_set_calls:
  assumes "interleaves env" "\<And>n c. respond env n c = None" "plannable ssg (by_name setList) vs"
    "\<And>s. s \<in> set setList \<Longrightarrow> rm_Namespace (wl_Meta s) = rm_Namespace (gr_Meta ssg)"
  shows "\<exists>st' cs. reconcile_set env ssg setList vs st = Ret ([], st') \<and> gs_log st' = gs_log st @ cs \<and>
    fold apply_call cs ((\<lambda>s. (rm_Namespace (wl_Meta s), rm_Name (wl_Meta s))) ` set setList) =
      (\<lambda>v. (rm_Namespace (gr_Meta ssg), GetStatefulSetName ssg v)) ` set vs"
proof -
  obtain adds updates h' where plan: "plan env StatefulSetGridKind ssg (by_name setList) vs (gs_heap st) = Ret (Inr (adds, updates), h')"
    using plan_total [OF assms(3)] by blast
  let ?calls = "workload_calls h' adds updates (unwanted ssg setList vs)"
  have run: "run_calls env ?calls s = ([], s\<lparr>gs_log := gs_log s @ interleave env ?calls\<rparr>)" for s
    by (simp add: run_calls_def make_calls_ok [OF assms(2)])
  let ?st1 = "st\<lparr>gs_heap := h', gs_log := gs_log st @ interleave env ?calls\<rparr>"
  obtain st2 where st2: "syncStatus_set env ssg setList vs ?st1 = ([], st2)"
    using write_states_log [OF assms(2)] by (metis syncStatus_set_def prod.collapse)
  obtain ss where ss: "gs_log st2 = gs_log ?st1 @ ss" "\<forall>c \<in> set ss. creates c = {} \<and> deletes_of c = {}"
    using write_states_log [OF assms(2) st2 [unfolded syncStatus_set_def]] by blast
  have "reconcile_set env ssg setList vs st = Ret ([], st2)"
    by (simp add: reconcile_set_def plan syncStatefulSet_def sync_workloads_def run st2)
  moreover have "fold apply_call (interleave env ?calls @ ss) ((\<lambda>dp. (rm_Namespace (wl_Meta dp), wname dp)) ` set setList) =
      (\<lambda>v. (rm_Namespace (gr_Meta ssg), workload_name ssg v)) ` set vs"
    by (rule planned_effect [OF plan assms(4), of _ "set ss"]) (use ss(2) interleaves_set [OF assms(1)] in auto)
  ultimately show ?thesis using ss(1) by (auto simp: GetStatefulSetName_def)
qed

text \<open>
  Where a deployment runs. When the templates have no node selector of their own, each deployment that reconcile creates
  is bound to the nodes of its own grid value.
\<close>

theorem created_on_own_nodes:
  assumes "interleaves env" "reconcile env dg dpList vs st = Ret (errs, st')" "ref_ok (gs_heap st) (rm_Labels (gr_Meta dg))"
    "\<And>v t. v \<in> set vs \<Longrightarrow> getDeployTemplate (gr_Spec dg) v = Inr t \<Longrightarrow> pt_NodeSelector (ws_Template t) = None"
    "CreateCall w \<in> set (drop (length (gs_log st)) (gs_log st'))"
  shows "\<exists>v \<in> set vs. om_Name (wv_Meta w) = GetDeploymentName dg v \<and> sv_NodeSelector (wv_Spec w) = Some [(GridUniqKey (gr_Spec dg), v)]"
proof -
  obtain r h' where p: "plan env DeploymentGridKind dg (by_name dpList) vs (gs_heap st) = Ret (r, h')"
    using assms(2) by (auto simp: reconcile_def go_bind_eq_Ret)
  show ?thesis
  proof (cases r)
    case (Inl err)
    then show ?thesis using assms(2,5) p by (auto simp: reconcile_def)
  next
    case (Inr au)
    then obtain adds updates where au: "plan env DeploymentGridKind dg (by_name dpList) vs (gs_heap st) = Ret (Inr (adds, updates), h')"
      using p by (cases au) auto
    have "CreateCall w \<in> set (workload_calls h' adds updates (unwanted dg dpList vs))"
      using reconcile_calls [OF assms(1,2) au] assms(5) by auto
    then obtain d where d: "d \<in> set adds" "w = value_of_workload h' d" by (auto simp: workload_calls_def)
    show ?thesis
      using plan_private_selectors [OF au assms(4) [unfolded getDeployTemplate_def] assms(3) d(1)]
      by (auto simp: d(2) value_of_workload_def meta_value_def value_of_spec_def GetDeploymentName_def)
  qed
qed

definition sample_created :: workload_value where
  "sample_created = \<lparr>wv_Meta = zero_object_meta\<lparr>om_Name := ''g-a'', om_Namespace := ''ns'', om_Labels := Some [(GridSelectorName, ''g''), (GridSelectorUniqKeyName, ''zone'')],
       om_OwnerReferences := [NewControllerRef sample_lib ''g'' ''u'' DeploymentGridKind]\<rparr>,
     wv_Spec = \<lparr>sv_Replicas = Some 2, sv_Labels = None, sv_NodeSelector = Some [(''zone'', ''a'')], sv_PodRest = [], sv_Rest = []\<rparr>\<rparr>"

lemma sample_reconcile:
  "case reconcile sample_genv (sample_dgrid None) [] [''a''] (sample_gstate []) of Panic \<Rightarrow> False
   | Ret (errs, st) \<Rightarrow> gs_log st = [CreateCall sample_created]"
  by code_simp

theorem created_on_own_nodes_witness:
  "om_Name (wv_Meta sample_created) = ''g-a'' \<and> sv_NodeSelector (wv_Spec sample_created) = Some [(''zone'', ''a'')]"
proof -
  obtain errs st' where run: "reconcile sample_genv (sample_dgrid None) [] [''a''] (sample_gstate []) = Ret (errs, st')" "gs_log st' = [CreateCall sample_created]"
    using sample_reconcile by (cases "reconcile sample_genv (sample_dgrid None) [] [''a''] (sample_gstate [])") auto
  have "\<exists>v \<in> set [''a'']. om_Name (wv_Meta sample_created) = GetDeploymentName (sample_dgrid None) v \<and>
      sv_NodeSelector (wv_Spec sample_created) = Some [(GridUniqKey (gr_Spec (sample_dgrid None)), v)]"
    by (rule created_on_own_nodes [OF sample_genv_simps(1) run(1)])
      (auto simp: run(2) sample_gstate_def sample_dgrid_def sample_rmeta_def getDeployTemplate_def getTemplate_def GetTemplateName_def DefaultTemplateName_def sample_template_def)
  then show ?thesis by (simp add: GetDeploymentName_def workload_name_def sample_dgrid_def sample_rmeta_def)
qed

text \<open>
  The node selector of a template is shared. When the template has a node selector, CreateDeployment writes the grid value into the
  map of the template itself: all deployments that one reconciliation creates carry the last of the grid values, and so does afterwards the
  template of the cached grid object.
\<close>

theorem shared_selector_overwritten:
  assumes "interleaves env" "reconcile env dg dpList vs st = Ret (errs, st')" "vs \<noteq> []" "plannable dg (by_name dpList) vs"
    "\<And>v. v \<in> set vs \<Longrightarrow> getDeployTemplate (gr_Spec dg) v = Inr t" "pt_NodeSelector (ws_Template t) = Some a" "a < length (gs_heap st)"
    "rm_Labels (gr_Meta dg) \<noteq> Some a"
  shows "nget (load (gs_heap st') (pt_NodeSelector (ws_Template t))) (GridUniqKey (gr_Spec dg)) = Some (last vs) \<and>
    (\<forall>w. CreateCall w \<in> set (drop (length (gs_log st)) (gs_log st')) \<longrightarrow> nget (sv_NodeSelector (wv_Spec w)) (GridUniqKey (gr_Spec dg)) = Some (last vs))"
proof -
  obtain adds updates h' where plan: "plan env DeploymentGridKind dg (by_name dpList) vs (gs_heap st) = Ret (Inr (adds, updates), h')"
    using plan_total [OF assms(4)] by blast
  note sel = plan_shared_selector [OF plan assms(3) assms(5) [unfolded getDeployTemplate_def] assms(6,7,8)]
  obtain cs ss hs where calls: "gs_log st' = gs_log st @ cs @ ss" "set cs = set (workload_calls h' adds updates (unwanted dg dpList vs))"
    "\<forall>c \<in> set ss. \<exists>x. c = GridStatus x" "gs_heap st' = h' @ hs"
    using reconcile_calls [OF assms(1,2) plan] by blast
  have "nget (sv_NodeSelector (wv_Spec w)) (GridUniqKey (gr_Spec dg)) = Some (last vs)" if "CreateCall w \<in> set (cs @ ss)" for w
  proof -
    have "CreateCall w \<in> set (workload_calls h' adds updates (unwanted dg dpList vs))" using that calls(2,3) by auto
    then obtain d where "d \<in> set adds" "w = value_of_workload h' d" by (auto simp: workload_calls_def)
    then show ?thesis using sel by (auto simp: value_of_workload_def value_of_spec_def load_def)
  qed
  moreover have "a < length h'" using plan_heap [OF plan] assms(7) by simp
  then have "nget (load (gs_heap st') (pt_NodeSelector (ws_Template t))) (GridUniqKey (gr_Spec dg)) = Some (last vs)"
    using sel by (simp add: calls(4) assms(6) load_def nth_append)
  ultimately show ?thesis by (simp add: calls(1))
qed

theorem shared_selector_overwritten_witness:
  "\<exists>errs st'. reconcile sample_genv (sample_dgrid (Some 0)) [] [''a'', ''b''] (sample_gstate [[(''disk'', ''ssd'')]]) = Ret (errs, st') \<and>
     mget (gs_heap st' ! 0) ''zone'' = Some ''b''"
proof -
  have ok: "plannable (sample_dgrid (Some 0)) (by_name []) [''a'', ''b'']" by (rule sample_plannable) simp
  obtain errs st' where run: "reconcile sample_genv (sample_dgrid (Some 0)) [] [''a'', ''b''] (sample_gstate [[(''disk'', ''ssd'')]]) = Ret (errs, st')"
    using reconcile_converges [OF sample_genv_simps ok] by fastforce
  have "nget (load (gs_heap st') (pt_NodeSelector (ws_Template (sample_template None (Some 0))))) (GridUniqKey (gr_Spec (sample_dgrid (Some 0)))) = Some (last [''a'', ''b''])"
    by (rule conjunct1 [OF shared_selector_overwritten [OF sample_genv_simps(1) run _ ok]])
      (auto simp: sample_template_def sample_dgrid_def sample_rmeta_def sample_gstate_def getDeployTemplate_def getTemplate_def GetTemplateName_def DefaultTemplateName_def)
  then show ?thesis using run by (simp add: sample_template_def sample_dgrid_def load_def)
qed

text \<open>
  The status of a grid lists exactly the workloads that exist for its current grid values, each under its grid value and with the filtered
  status of the workload that was listed last under the name.
\<close>

theorem grid_states_reported:
  "mget (grid_states filt g dpList vs) v =
     (if v \<in> set vs then map_option (\<lambda>dp. filt (wl_Status dp)) (mget (by_name dpList) (workload_name g v)) else None)"
proof (induction dpList rule: rev_induct)
  case (snoc dp dps)
  show ?case
  proof (cases "wname dp \<in> set (wanted_names g vs)")
    case True
    then obtain u where u: "wname dp = workload_name g u" "u \<in> set vs" by (auto simp: wanted_names_def)
    then show ?thesis using snoc True by (auto simp: grid_states_def by_name_def mget_mput)
  next
    case False
    then have "workload_name g v \<noteq> wname dp" if "v \<in> set vs" using that by (metis wanted_names_def image_eqI set_map)
    then show ?thesis using snoc False by (auto simp: grid_states_def by_name_def mget_mput)
  qed
qed (simp add: grid_states_def by_name_def)

end
