(* ===== verification/GridController.thy ===== *)
theory GridController
  imports GridSync
begin

text \<open>
  The controllers of deployment grids and stateful set grids:
  \<open>src/pkg/application-grid-controller/controller/deployment/{controller,deployment,node,namespace}.go\<close> and
  \<open>controller/statefulset/{controller,statefulset,node}.go\<close>. An event handler is the list of the grids that it
  enqueues; \<open>syncDeploymentGrid\<close> and \<open>syncStatefulSetGrid\<close> handle one key of the queue. The informer caches are arguments.
\<close>

section \<open>Caches\<close>

text \<open>
  \<open>grid_List\<close> takes the namespace (\<open>None\<close>: all of them) and a selector; \<open>fresh_Get\<close> reads the grid from the API server;
  \<open>json_copy\<close> is the serialisation of a grid and its reading back.
\<close>

record ctl_env = grid_env +
  SplitMetaNamespaceKey :: "string \<Rightarrow> go_error + string \<times> string"
  KeyFunc :: "string \<Rightarrow> string \<Rightarrow> go_error + string"
  grid_Get :: "string \<Rightarrow> string \<Rightarrow> apierr + grid"
  grid_List :: "string option \<Rightarrow> requirement list \<Rightarrow> go_error + grid list"
  workload_List :: "string \<Rightarrow> go_error + workload list"
  nodeLister :: node_lister
  namespace_List :: "requirement list \<Rightarrow> go_error + object_meta list"
  fresh_Get :: "string \<Rightarrow> string \<Rightarrow> go_error + object_meta"
  ref_respond :: "nat \<Rightarrow> ref_call \<Rightarrow> apierr option"
  json_copy :: "grid \<Rightarrow> go_error + grid"
  indexer_Add :: "grid \<Rightarrow> go_error option"

definition enqueue :: "'a ctl_env_scheme \<Rightarrow> grid \<Rightarrow> string list" where
  "enqueue env g = (case KeyFunc env (rm_Namespace (gr_Meta g)) (rm_Name (gr_Meta g)) of Inl err \<Rightarrow> [] | Inr key \<Rightarrow> [key])"

section \<open>Events of workloads\<close>

definition resolveControllerRef :: "'a ctl_env_scheme \<Rightarrow> string \<Rightarrow> string \<Rightarrow> OwnerReference \<Rightarrow> grid option" where
  "resolveControllerRef env kind namespace controllerRef =
     (if or_Kind controllerRef \<noteq> kind then None
      else case grid_Get env namespace (or_Name controllerRef) of
        Inl err \<Rightarrow> None
      | Inr dg \<Rightarrow> if rm_UID (gr_Meta dg) \<noteq> or_UID controllerRef then None else Some dg)"

text \<open>A grid whose name is no label value makes the whole search end without a result.\<close>

fun matching_grids :: "'a ctl_env_scheme \<Rightarrow> labels option \<Rightarrow> grid list \<Rightarrow> grid list option" where
  "matching_grids env ls [] = Some []"
| "matching_grids env ls (dg # dgs) =
     (case GetDefaultSelector env (rm_Name (gr_Meta dg)) of
        Inl err \<Rightarrow> None
      | Inr selector \<Rightarrow>
          (case matching_grids env ls dgs of
             None \<Rightarrow> None
           | Some r \<Rightarrow> Some (if Matches env selector ls then dg # r else r)))"

definition grids_for_workload :: "'a ctl_env_scheme \<Rightarrow> object_meta \<Rightarrow> grid list" where
  "grids_for_workload env d =
     (if length (node_labels d) = 0 then []
      else case grid_List env (Some (om_Namespace d)) [] of
        Inl err \<Rightarrow> []
      | Inr dgList \<Rightarrow> (case matching_grids env (om_Labels d) dgList of None \<Rightarrow> [] | Some r \<Rightarrow> r))"

definition delete_workload :: "'a ctl_env_scheme \<Rightarrow> string \<Rightarrow> object_meta deleted \<Rightarrow> grid list" where
  "delete_workload env kind obj =
     (case deleted_object obj of
        None \<Rightarrow> []
      | Some d \<Rightarrow>
          if \<not> IsConcernedObject d then []
          else case GetControllerOf env d of
            None \<Rightarrow> []
          | Some controllerRef \<Rightarrow>
              (case resolveControllerRef env kind (om_Namespace d) controllerRef of None \<Rightarrow> [] | Some dg \<Rightarrow> [dg]))"

definition add_workload :: "'a ctl_env_scheme \<Rightarrow> string \<Rightarrow> object_meta \<Rightarrow> grid list" where
  "add_workload env kind d =
     (if \<not> IsConcernedObject d then []
      else if om_DeletionTimestamp d \<noteq> None then delete_workload env kind (Deleted d)
      else case GetControllerOf env d of
        Some controllerRef \<Rightarrow>
          (case resolveControllerRef env kind (om_Namespace d) controllerRef of None \<Rightarrow> [] | Some dg \<Rightarrow> [dg])
      | None \<Rightarrow> grids_for_workload env d)"

definition update_workload :: "'a ctl_env_scheme \<Rightarrow> string \<Rightarrow> object_meta \<Rightarrow> object_meta \<Rightarrow> grid list" where
  "update_workload env kind oldD curD =
     (if om_ResourceVersion curD = om_ResourceVersion oldD then []
      else
        let curControllerRef = GetControllerOf env curD;
            oldControllerRef = GetControllerOf env oldD;
            controllerRefChanged = (curControllerRef \<noteq> oldControllerRef);
            old = (case oldControllerRef of
                     None \<Rightarrow> []
                   | Some r \<Rightarrow> if controllerRefChanged
                       then (case resolveControllerRef env kind (om_Namespace oldD) r of None \<Rightarrow> [] | Some dg \<Rightarrow> [dg]) else [])
        in case curControllerRef of
             Some r \<Rightarrow> old @ (case resolveControllerRef env kind (om_Namespace curD) r of None \<Rightarrow> [] | Some dg \<Rightarrow> [dg])
           | None \<Rightarrow>
               if \<not> IsConcernedObject curD then old
               else if \<not> map_DeepEqual (om_Labels curD) (om_Labels oldD) \<or> controllerRefChanged
               then old @ grids_for_workload env curD else old)"

definition addDeployment where "addDeployment env = add_workload env DeploymentGridKind"
definition updateDeployment where "updateDeployment env = update_workload env DeploymentGridKind"
definition deleteDeployment where "deleteDeployment env = delete_workload env DeploymentGridKind"
definition addStatefulSet where "addStatefulSet env = add_workload env StatefulSetGridKind"
definition updateStatefulSet where "updateStatefulSet env = update_workload env StatefulSetGridKind"
definition deleteStatefulSet where "deleteStatefulSet env = delete_workload env StatefulSetGridKind"

section \<open>Events of nodes and namespaces\<close>

text \<open>A grid is in the result once for every node that has its key.\<close>

definition getGridForNode :: "'a ctl_env_scheme \<Rightarrow> object_meta list \<Rightarrow> grid list" where
  "getGridForNode env nodes =
     (if \<not> list_ex (\<lambda>node. length (node_labels node) \<noteq> 0) nodes then []
      else case grid_List env None [] of
        Inl err \<Rightarrow> []
      | Inr dgs \<Rightarrow>
          concat (map (\<lambda>dg. concat (map (\<lambda>node. if nget (om_Labels node) (GridUniqKey (gr_Spec dg)) \<noteq> None then [dg] else []) nodes)) dgs))"

definition deleteNode :: "'a ctl_env_scheme \<Rightarrow> object_meta deleted \<Rightarrow> grid list" where
  "deleteNode env obj = (case deleted_object obj of None \<Rightarrow> [] | Some node \<Rightarrow> getGridForNode env [node])"

definition addNode :: "'a ctl_env_scheme \<Rightarrow> object_meta \<Rightarrow> grid list" where
  "addNode env node = (if om_DeletionTimestamp node \<noteq> None then deleteNode env (Deleted node) else getGridForNode env [node])"

definition updateNode :: "'a ctl_env_scheme \<Rightarrow> object_meta \<Rightarrow> object_meta \<Rightarrow> grid list" where
  "updateNode env oldNode curNode =
     (if om_ResourceVersion curNode = om_ResourceVersion oldNode then []
      else if \<not> map_DeepEqual (om_Labels curNode) (om_Labels oldNode) then getGridForNode env [oldNode, curNode] else [])"

definition addNameSpace :: "'a ctl_env_scheme \<Rightarrow> object_meta \<Rightarrow> grid list" where
  "addNameSpace env ns =
     (if nget (om_Labels ns) FedManagedClustIdKey = None then []
      else case NewRequirement env (FedrationKey, Equals, [''yes'']) of
        Some err \<Rightarrow> []
      | None \<Rightarrow> (case grid_List env None [(FedrationKey, Equals, [''yes''])] of Inl err \<Rightarrow> [] | Inr dgList \<Rightarrow> dgList))"

section \<open>Events of grids\<close>

definition addDeploymentGrid :: "'a ctl_env_scheme \<Rightarrow> grid \<Rightarrow> grid list" where
  "addDeploymentGrid env dg =
     (case json_copy env dg of
        Inl err \<Rightarrow> []
      | Inr decodedg \<Rightarrow> (case indexer_Add env decodedg of Some err \<Rightarrow> [] | None \<Rightarrow> [decodedg]))"

definition has_label :: "heap \<Rightarrow> grid \<Rightarrow> string \<Rightarrow> bool" where
  "has_label h g k \<longleftrightarrow> nget (load h (rm_Labels (gr_Meta g))) k \<noteq> None"

definition getFedDeploymentGrid :: "'a ctl_env_scheme \<Rightarrow> heap \<Rightarrow> grid \<Rightarrow> grid option" where
  "getFedDeploymentGrid env h dg =
     (case grid_Get env (case nget (load h (rm_Labels (gr_Meta dg))) FedTargetNameSpace of None \<Rightarrow> '''' | Some ns \<Rightarrow> ns) (rm_Name (gr_Meta dg)) of
        Inl err \<Rightarrow> None
      | Inr fedDg \<Rightarrow> Some fedDg)"

text \<open>
  The second list holds the grids of the parent cluster, which go to the queue of its controller; \<open>parent\<close> is the cache of that controller
  with the namespace that is dedicated to this cluster, if there is a parent cluster.
\<close>

type_synonym parent_cache = "(string \<Rightarrow> string \<Rightarrow> apierr + grid) \<times> string"

definition getParentFedDeploymentGrid :: "parent_cache \<Rightarrow> grid \<Rightarrow> grid option" where
  "getParentFedDeploymentGrid parent dg =
     (case fst parent (snd parent) (rm_Name (gr_Meta dg)) of Inl err \<Rightarrow> None | Inr parFedDg \<Rightarrow> Some parFedDg)"

definition updateDeploymentGrid :: "'a ctl_env_scheme \<Rightarrow> parent_cache option \<Rightarrow> heap \<Rightarrow> grid \<Rightarrow> grid \<Rightarrow> grid list \<times> grid list" where
  "updateDeploymentGrid env parent h oldDg curDg =
     (if rm_ResourceVersion (gr_Meta curDg) = rm_ResourceVersion (gr_Meta oldDg) then ([], [])
      else
        let fed = has_label h curDg FedrationKey; dis = has_label h curDg FedrationDisKey
        in (curDg # (if fed \<and> dis then (case getFedDeploymentGrid env h curDg of None \<Rightarrow> [] | Some fedDg \<Rightarrow> [fedDg]) else []),
            if fed \<and> \<not> dis then
              (case parent of
                 None \<Rightarrow> []
               | Some p \<Rightarrow> (case getParentFedDeploymentGrid p curDg of None \<Rightarrow> [] | Some parentFedDg \<Rightarrow> [parentFedDg]))
            else []))"

definition deleteDeploymentGrid :: "grid deleted \<Rightarrow> grid list" where
  "deleteDeploymentGrid obj = (case deleted_object obj of None \<Rightarrow> [] | Some dg \<Rightarrow> [dg])"

definition addStatefulSetGrid :: "grid \<Rightarrow> grid list" where
  "addStatefulSetGrid ssg = [ssg]"

definition updateStatefulSetGrid :: "grid \<Rightarrow> grid \<Rightarrow> grid list" where
  "updateStatefulSetGrid oldSsg curSsg =
     (if rm_ResourceVersion (gr_Meta curSsg) = rm_ResourceVersion (gr_Meta oldSsg) then [] else [curSsg])"

definition deleteStatefulSetGrid :: "grid deleted \<Rightarrow> grid list" where
  "deleteStatefulSetGrid obj = (case deleted_object obj of None \<Rightarrow> [] | Some ssg \<Rightarrow> [ssg])"

section \<open>Synchronisation of a grid\<close>

text \<open>The calls of the claims are kept apart from the others.\<close>

record ctl_state =
  ct_grid :: grid_state
  ct_refs :: "ref_call list"

definition groupVersion :: string where "groupVersion = ''superedge.io/v1''"

text \<open>The fresh read of the grid before an adoption: an object with another uid is another grid.\<close>

definition fresh_grid :: "'a ctl_env_scheme \<Rightarrow> go_error \<Rightarrow> grid \<Rightarrow> go_error + object_meta" where
  "fresh_grid env msg g =
     (case fresh_Get env (rm_Namespace (gr_Meta g)) (rm_Name (gr_Meta g)) of
        Inl err \<Rightarrow> Inl err
      | Inr fresh \<Rightarrow> if om_UID fresh \<noteq> rm_UID (gr_Meta g) then Inl msg else Inr fresh)"

text \<open>
  \<open>claim\<close> is \<open>ClaimDeployment\<close> or \<open>ClaimStatefulSet\<close>, \<open>new\<close> the constructor of its manager.
\<close>

type_synonym claim_op = "ref_env \<Rightarrow> (workload \<Rightarrow> object_meta) \<Rightarrow> workload list \<Rightarrow> ref_state \<Rightarrow> workload list \<times> apierr list \<times> ref_state"
type_synonym manager_op = "object_meta \<Rightarrow> (labels option \<Rightarrow> bool) \<Rightarrow> string \<times> string \<Rightarrow> apierr option option \<Rightarrow>
  (object_meta \<Rightarrow> OwnerReference option) \<Rightarrow> (nat \<Rightarrow> ref_call \<Rightarrow> apierr option) \<Rightarrow> ref_env \<times> ref_state"

definition workloads_for_grid ::
    "manager_op \<Rightarrow> claim_op \<Rightarrow> string \<Rightarrow> go_error \<Rightarrow> 'a ctl_env_scheme \<Rightarrow> grid \<Rightarrow> ctl_state \<Rightarrow> (apierr list + workload list) \<times> ctl_state" where
  "workloads_for_grid new claim kind msg env g st =
     (case workload_List env (rm_Namespace (gr_Meta g)) of
        Inl err \<Rightarrow> (Inl [EOther err], st)
      | Inr dpList \<Rightarrow>
          (case GetDefaultSelector env (rm_Name (gr_Meta g)) of
             Inl err \<Rightarrow> (Inl [EOther err], st)
           | Inr labelSelector \<Rightarrow>
               let h = gs_heap (ct_grid st);
                   canAdoptFunc = RecheckDeletionTimestamp (fresh_grid env msg g);
                   (cm, cm0) = new (meta_value h (gr_Meta g)) (Matches env labelSelector) (groupVersion, kind) (Some canAdoptFunc)
                     (GetControllerOf env) (ref_respond env);
                   (claimed, errList, cm1) = claim cm (\<lambda>w. meta_value h (wl_Meta w)) dpList cm0;
                   st1 = st\<lparr>ct_refs := ct_refs st @ cm_log cm1\<rparr>
               in (if errList \<noteq> [] then Inl errList else Inr claimed, st1)))"

definition getDeploymentForGrid :: "'a ctl_env_scheme \<Rightarrow> grid \<Rightarrow> ctl_state \<Rightarrow> (apierr list + workload list) \<times> ctl_state" where
  "getDeploymentForGrid = workloads_for_grid NewDeploymentControllerRefManager ClaimDeployment DeploymentGridKind
     ''orignal Deployment-grid %v/%v is gone: got uid %v, wanted %v''"

definition getStatefulSetForGrid :: "'a ctl_env_scheme \<Rightarrow> grid \<Rightarrow> ctl_state \<Rightarrow> (apierr list + workload list) \<times> ctl_state" where
  "getStatefulSetForGrid = workloads_for_grid NewStatefulSetControllerRefManager ClaimStatefulSet StatefulSetGridKind
     ''orignal statefulset grid %v/%v is gone: got uid %v, wanted %v''"

fun dis_grids :: "'a ctl_env_scheme \<Rightarrow> string \<Rightarrow> string list \<Rightarrow> apierr + grid list" where
  "dis_grids env name [] = Inr []"
| "dis_grids env name (ns # nss) =
     (case grid_Get env ns name of
        Inl err \<Rightarrow> if err = ENotFound then dis_grids env name nss else Inl err
      | Inr disDg \<Rightarrow> (case dis_grids env name nss of Inl err \<Rightarrow> Inl err | Inr r \<Rightarrow> Inr (disDg # r)))"

definition getDisDeploymentGridAndNameSpace :: "'a ctl_env_scheme \<Rightarrow> grid \<Rightarrow> apierr + grid list \<times> string list" where
  "getDisDeploymentGridAndNameSpace env dg =
     (case NewRequirement env (FedManagedClustIdKey, Exists, []) of
        Some err \<Rightarrow> Inl (EOther err)
      | None \<Rightarrow>
          (case namespace_List env [(FedManagedClustIdKey, Exists, [])] of
             Inl err \<Rightarrow> Inl (EOther err)
           | Inr nameSpaceList \<Rightarrow>
               let nsList = map om_Name nameSpaceList
               in case dis_grids env (rm_Name (gr_Meta dg)) nsList of Inl err \<Rightarrow> Inl err | Inr disDgList \<Rightarrow> Inr (disDgList, nsList)))"

text \<open>
  The first half of a synchronisation, the same for both kinds: the grid, and its copy with the default template name, without
  unused templates and with the hashes of the templates.
\<close>

definition prepared_copy :: "'a ctl_env_scheme \<Rightarrow> grid \<Rightarrow> heap \<Rightarrow> grid \<times> heap" where
  "prepared_copy env g h =
     (let (gCopy, h1) = copy_grid g h;
          gCopy = (if DefaultTemplate (gr_Spec gCopy) = '''' then gCopy\<lparr>gr_Spec := (gr_Spec gCopy)\<lparr>DefaultTemplate := DefaultTemplateName\<rparr>\<rparr> else gCopy)
      in UpdateTemplateHash env (RemoveUnusedTemplate gCopy) h1)"

definition template_changed :: "'a ctl_env_scheme \<Rightarrow> heap \<Rightarrow> grid \<Rightarrow> grid \<Rightarrow> bool" where
  "template_changed env h g gCopy \<longleftrightarrow>
     \<not> DeepEqual_spec env (value_of_spec h (Template (gr_Spec g))) (value_of_spec h (Template (gr_Spec gCopy))) \<or>
     DefaultTemplate (gr_Spec g) \<noteq> DefaultTemplate (gr_Spec gCopy) \<or>
     \<not> DeepEqual_pool env (value_of_pool h (TemplatePool (gr_Spec g))) (value_of_pool h (TemplatePool (gr_Spec gCopy)))"

definition on_grid :: "(apierr list \<times> grid_state) go \<Rightarrow> ctl_state \<Rightarrow> (apierr list \<times> ctl_state) go" where
  "on_grid r st = go_bind r (\<lambda>(errs, gs). Ret (errs, st\<lparr>ct_grid := gs\<rparr>))"

text \<open>\<open>rest\<close> is what follows once the hashes are stored: it gets the grid, its workloads and the grid values.\<close>

definition sync_grid ::
    "('a ctl_env_scheme \<Rightarrow> grid \<Rightarrow> ctl_state \<Rightarrow> (apierr list + workload list) \<times> ctl_state) \<Rightarrow>
     ('a ctl_env_scheme \<Rightarrow> grid \<Rightarrow> workload list \<Rightarrow> string list \<Rightarrow> ctl_state \<Rightarrow> (apierr list \<times> ctl_state) go) \<Rightarrow>
     'a ctl_env_scheme \<Rightarrow> string \<Rightarrow> ctl_state \<Rightarrow> (apierr list \<times> ctl_state) go" where
  "sync_grid workloads rest env key st =
     (case SplitMetaNamespaceKey env key of
        Inl err \<Rightarrow> Ret ([EOther err], st)
      | Inr (namespace, name) \<Rightarrow>
          (case grid_Get env namespace name of
             Inl err \<Rightarrow> Ret (if err = ENotFound then [] else [err], st)
           | Inr g \<Rightarrow>
               if GridUniqKey (gr_Spec g) = '''' then Ret ([], st\<lparr>ct_grid := record_event ''Empty'' (ct_grid st)\<rparr>)
               else
                 let (gCopy, h1) = prepared_copy env g (gs_heap (ct_grid st));
                     st1 = st\<lparr>ct_grid := (ct_grid st)\<lparr>gs_heap := h1\<rparr>\<rparr>
                 in if template_changed env h1 g gCopy then
                      let (err, gs) = grid_api env (GridUpdate (value_of_grid h1 gCopy)) (ct_grid st1)
                      in Ret (case err of None \<Rightarrow> [] | Some e \<Rightarrow> [e], st1\<lparr>ct_grid := gs\<rparr>)
                    else
                      (case workloads env g st1 of
                         (Inl errs, st2) \<Rightarrow> Ret (errs, st2)
                       | (Inr dpList, st2) \<Rightarrow>
                           (case GetGridValuesFromNode env (nodeLister env) (GridUniqKey (gr_Spec g)) of
                              Inl err \<Rightarrow> Ret ([EOther err], st2)
                            | Inr gridValues \<Rightarrow> rest env g dpList gridValues st2))))"

definition deployment_rest :: "'a ctl_env_scheme \<Rightarrow> grid \<Rightarrow> workload list \<Rightarrow> string list \<Rightarrow> ctl_state \<Rightarrow> (apierr list \<times> ctl_state) go" where
  "deployment_rest env dg dpList gridValues st =
     (if rm_DeletionTimestamp (gr_Meta dg) \<noteq> None then on_grid (Ret (syncStatus env dg dpList gridValues (ct_grid st))) st
      else
        go_bind (on_grid (reconcile env dg dpList gridValues (ct_grid st)) st) (\<lambda>(errs, st1).
          if errs \<noteq> [] then Ret (errs, st1)
          else if has_label (gs_heap (ct_grid st1)) dg FedrationKey \<and> \<not> has_label (gs_heap (ct_grid st1)) dg FedrationDisKey then
            (case getDisDeploymentGridAndNameSpace env dg of
               Inl err \<Rightarrow> Ret ([err], st1)
             | Inr (disdgList, nsList) \<Rightarrow> on_grid (reconcileFed env dg disdgList nsList (ct_grid st1)) st1)
          else Ret ([], st1)))"

definition syncDeploymentGrid :: "'a ctl_env_scheme \<Rightarrow> string \<Rightarrow> ctl_state \<Rightarrow> (apierr list \<times> ctl_state) go" where
  "syncDeploymentGrid = sync_grid getDeploymentForGrid deployment_rest"

definition statefulset_rest :: "'a ctl_env_scheme \<Rightarrow> grid \<Rightarrow> workload list \<Rightarrow> string list \<Rightarrow> ctl_state \<Rightarrow> (apierr list \<times> ctl_state) go" where
  "statefulset_rest env ssg setList gridValues st =
     (if rm_DeletionTimestamp (gr_Meta ssg) \<noteq> None then on_grid (Ret (syncStatus_set env ssg setList gridValues (ct_grid st))) st
      else on_grid (reconcile_set env ssg setList gridValues (ct_grid st)) st)"

definition syncStatefulSetGrid :: "'a ctl_env_scheme \<Rightarrow> string \<Rightarrow> ctl_state \<Rightarrow> (apierr list \<times> ctl_state) go" where
  "syncStatefulSetGrid = sync_grid getStatefulSetForGrid statefulset_rest"

section \<open>Events\<close>

text \<open>
  No change of the label of a node is missed: when the value that a node has for the key of a grid changes, appears or disappears, updateNode
  enqueues the grid.
\<close>

theorem updateNode_complete:
  assumes "om_ResourceVersion curNode \<noteq> om_ResourceVersion oldNode" "grid_List env None [] = Inr dgs" "dg \<in> set dgs"
    "nget (om_Labels oldNode) (GridUniqKey (gr_Spec dg)) \<noteq> nget (om_Labels curNode) (GridUniqKey (gr_Spec dg))"
  shows "dg \<in> set (updateNode env oldNode curNode)"
proof -
  let ?k = "GridUniqKey (gr_Spec dg)"
  have "\<not> map_DeepEqual (om_Labels curNode) (om_Labels oldNode)" using assms(4) by (metis map_DeepEqual_iff)
  moreover have "nget (om_Labels oldNode) ?k \<noteq> None \<or> nget (om_Labels curNode) ?k \<noteq> None" using assms(4) by auto
  moreover from this have "list_ex (\<lambda>node. length (node_labels node) \<noteq> 0) [oldNode, curNode]"
    by (auto simp: node_labels_def nget_def split: option.splits)
  ultimately show ?thesis using assms(1-3) by (auto simp: updateNode_def getGridForNode_def)
qed

definition sample_ctl_env :: "grid list \<Rightarrow> workload list \<Rightarrow> object_meta list \<Rightarrow> ctl_env" where
  "sample_ctl_env gs ws nodes = grid_env.extend sample_genv
     \<lparr>SplitMetaNamespaceKey = (\<lambda>k. Inr (''ns'', k)), KeyFunc = (\<lambda>ns n. Inr n),
      grid_Get = (\<lambda>ns n. case find (\<lambda>g. rm_Namespace (gr_Meta g) = ns \<and> rm_Name (gr_Meta g) = n) gs of None \<Rightarrow> Inl ENotFound | Some g \<Rightarrow> Inr g),
      grid_List = (\<lambda>ns sel. Inr gs), workload_List = (\<lambda>ns. Inr ws), nodeLister = (\<lambda>sel. Inr nodes), namespace_List = (\<lambda>sel. Inr []),
      fresh_Get = (\<lambda>ns n. Inr zero_object_meta), ref_respond = (\<lambda>n c. None), json_copy = Inr, indexer_Add = (\<lambda>g. None)\<rparr>"

definition sample_node_meta :: "string \<Rightarrow> string \<Rightarrow> object_meta" where
  "sample_node_meta rv zone = zero_object_meta\<lparr>om_ResourceVersion := rv, om_Labels := Some [(''zone'', zone)]\<rparr>"

theorem updateNode_complete_witness:
  "sample_dgrid None \<in> set (updateNode (sample_ctl_env [sample_dgrid None] [] []) (sample_node_meta ''1'' ''a'') (sample_node_meta ''2'' ''b''))"
  by (rule updateNode_complete [of _ _ _ "[sample_dgrid None]"])
    (simp_all add: sample_node_meta_def sample_ctl_env_def grid_env.defs sample_genv_def grid_lib.defs sample_lib_def sample_dgrid_def)

section \<open>No panic\<close>

lemma copy_grid_labels: "rm_Labels (gr_Meta g) = Some a \<Longrightarrow> \<exists>b. rm_Labels (gr_Meta (fst (copy_grid g h))) = Some b"
  by (simp add: copy_grid_def copy_ref_def Let_def case_prod_unfold)

lemma plan_fed_no_panic: "rm_Labels (gr_Meta dg) = Some a \<Longrightarrow> plan_fed env dg existed nss h \<noteq> Panic"
proof (induction nss arbitrary: h)
  case (Cons ns nss)
  then obtain b where b: "rm_Labels (gr_Meta (fst (copy_grid dg h))) = Some b" using copy_grid_labels by blast
  obtain r where r: "CreateDeploymentGrid env dg ns h = Ret r" using b by (simp add: CreateDeploymentGrid_def case_prod_unfold Let_def)
  have rest: "\<exists>s. plan_fed env dg existed nss h' = Ret s" for h' using Cons by (cases "plan_fed env dg existed nss h'") auto
  show ?case
  proof (cases "mget existed ns")
    case None
    then show ?thesis using rest [of "snd r"] by (auto simp: r go_bind_def case_prod_unfold)
  next
    case (Some feddg)
    then show ?thesis using rest [of "snd (UpdateDeploymentGrid dg feddg h)"] by (auto simp: go_bind_def case_prod_unfold Let_def)
  qed
qed simp

lemma reconcileFed_no_panic: "rm_Labels (gr_Meta dg) = Some a \<Longrightarrow> reconcileFed env dg dgList nss st \<noteq> Panic"
  using plan_fed_no_panic [of dg a env "by_namespace dgList" nss "gs_heap st"]
  by (auto simp: reconcileFed_def go_bind_def case_prod_unfold Let_def split: go.splits)

text \<open>The numbers of replicas are given in the templates and the workloads.\<close>

definition replicas_given :: "grid \<Rightarrow> workload list \<Rightarrow> bool" where
  "replicas_given g dpList \<longleftrightarrow>
     (\<forall>v t. getTemplate (gr_Spec g) v = Inr t \<longrightarrow> ws_Replicas t \<noteq> None) \<and> (\<forall>dp \<in> set dpList. ws_Replicas (wl_Spec dp) \<noteq> None)"

lemma plan_no_panic:
  assumes "replicas_given g dpList"
  shows "plan env kind g (by_name dpList) vs h \<noteq> Panic"
proof (induction vs arbitrary: h)
  case (Cons v vs)
  obtain r h1 where c: "CreateWorkload env kind g v h = (r, h1)" by fastforce
  have rest: "\<exists>s. plan env kind g (by_name dpList) vs h1 = Ret s" using Cons by (cases "plan env kind g (by_name dpList) vs h1") auto
  show ?case
  proof (cases r)
    case (Inr w)
    show ?thesis
    proof (cases "mget (by_name dpList) (workload_name g v)")
      case None
      then show ?thesis using c Inr rest by (auto simp: go_bind_def case_prod_unfold)
    next
      case (Some dp)
      then have "ws_Replicas (wl_Spec dp) \<noteq> None" using assms by (auto simp: replicas_given_def dest: by_name_Some)
      then have "\<exists>us. check_workload env g v dp w h1 = Ret us"
        using assms by (fastforce simp: check_workload_def IsReplicasChanged_def replicas_given_def Let_def split: sum.split option.split)
      then show ?thesis using Some c Inr rest by (auto simp: go_bind_def case_prod_unfold)
    qed
  qed (use c in simp)
qed simp

lemma reconcile_no_panic: "replicas_given dg dpList \<Longrightarrow> reconcile env dg dpList vs st \<noteq> Panic"
  using plan_no_panic [of dg dpList env DeploymentGridKind vs "gs_heap st"]
  by (auto simp: reconcile_def go_bind_def case_prod_unfold Let_def split: go.splits)

lemma replicas_given_subset: "replicas_given g dpList \<Longrightarrow> set dps \<subseteq> set dpList \<Longrightarrow> replicas_given g dps"
  by (auto simp: replicas_given_def)

lemma getDeploymentForGrid_subset:
  assumes "getDeploymentForGrid env g st = (Inr dps, st')" "workload_List env (rm_Namespace (gr_Meta g)) = Inr dpList"
  shows "set dps \<subseteq> set dpList"
  using assms
  by (auto simp: getDeploymentForGrid_def workloads_for_grid_def Let_def NewDeploymentControllerRefManager_def ClaimDeployment_def
      split: sum.splits prod.splits if_splits dest!: deployments.claim_list_calls)

lemma deployment_rest_no_panic:
  assumes "replicas_given dg dpList"
  shows "deployment_rest env dg dpList vs st \<noteq> Panic"
proof -
  obtain errs gs where r: "reconcile env dg dpList vs (ct_grid st) = Ret (errs, gs)"
    using reconcile_no_panic [OF assms] by (cases "reconcile env dg dpList vs (ct_grid st)") auto
  have "reconcileFed env dg dgs nss s \<noteq> Panic" if lab: "has_label h dg FedrationKey" for h dgs nss s
  proof -
    obtain a where "rm_Labels (gr_Meta dg) = Some a" using lab by (auto simp: has_label_def load_def split: option.splits)
    from reconcileFed_no_panic [OF this] show ?thesis .
  qed
  then show ?thesis
    by (auto simp: deployment_rest_def on_grid_def r go_bind_def case_prod_unfold split: sum.split go.split)
qed

text \<open>
  When the templates of a grid and the deployments of its namespace say how many replicas they have, syncDeploymentGrid does not panic.
  In particular the distribution to managed clusters never writes to a nil map of labels: it is only reached by grids that have labels.
\<close>

theorem syncDeploymentGrid_no_panic:
  assumes "\<And>ns name g dpList. grid_Get env ns name = Inr g \<Longrightarrow> workload_List env (rm_Namespace (gr_Meta g)) = Inr dpList \<Longrightarrow> replicas_given g dpList"
  shows "\<exists>errs st'. syncDeploymentGrid env key st = Ret (errs, st')"
proof -
  have "syncDeploymentGrid env key st \<noteq> Panic"
  proof
    assume panic: "syncDeploymentGrid env key st = Panic"
    then obtain ns name g dps st1 st2 vs where *: "grid_Get env ns name = Inr g" "getDeploymentForGrid env g st1 = (Inr dps, st2)"
      "deployment_rest env g dps vs st2 = Panic"
      unfolding syncDeploymentGrid_def sync_grid_def by (auto simp: Let_def split: sum.splits prod.splits if_splits)
    from *(2) obtain dpList where l: "workload_List env (rm_Namespace (gr_Meta g)) = Inr dpList"
      by (cases "workload_List env (rm_Namespace (gr_Meta g))") (auto simp: getDeploymentForGrid_def workloads_for_grid_def)
    have "replicas_given g dps"
      using replicas_given_subset [OF assms [OF *(1) l] getDeploymentForGrid_subset [OF *(2) l]] .
    with deployment_rest_no_panic *(3) show False by blast
  qed
  then show ?thesis by (cases "syncDeploymentGrid env key st") auto
qed

lemma sample_replicas: "replicas_given (sample_dgrid ns) [sample_dp ''g-a'']"
  by (auto simp: replicas_given_def sample_dgrid_def getTemplate_def GetTemplateName_def sample_template_def sample_dp_def DefaultTemplateName_def)

theorem syncDeploymentGrid_no_panic_witness:
  "\<exists>errs st'. syncDeploymentGrid (sample_ctl_env [sample_dgrid None] [sample_dp ''g-a''] [sample_node_meta ''1'' ''a'']) ''g'' \<lparr>ct_grid = sample_gstate [], ct_refs = []\<rparr> = Ret (errs, st')"
  by (rule syncDeploymentGrid_no_panic)
    (auto simp: sample_ctl_env_def grid_env.defs sample_genv_def grid_lib.defs sample_lib_def sample_replicas split: if_splits)

text \<open>Without a number of replicas in the template, a deployment that exists makes the reconciliation panic.\<close>

lemma nil_replicas_panic:
  assumes "getTemplate (gr_Spec g) v = Inr t" "ws_Replicas t = None" "mget existed (workload_name g v) = Some dp"
  shows "plan env kind g existed (v # vs) h = Panic"
  using assms by (auto simp: CreateWorkload_def check_workload_def IsReplicasChanged_def case_prod_unfold Let_def split: prod.split)

section \<open>The hash of the template\<close>

lemma copy_ref_ok:
  assumes "ref_ok h r" "copy_ref r h = (r', h')"
  shows "load h' r' = load h r \<and> ref_ok h' r' \<and> (\<forall>a. r' = Some a \<longrightarrow> a = length h)"
  using assms by (auto simp: copy_ref_def load_def split: option.splits)

lemma value_of_spec_append: "spec_ok h s \<Longrightarrow> value_of_spec (h @ hs) s = value_of_spec h s"
  by (simp add: value_of_spec_def spec_ok_def)

lemma generateTemplateHash_value: "value_of_spec h s = value_of_spec h' s' \<Longrightarrow> generateTemplateHash lib h s = generateTemplateHash lib h' s'"
  by (simp add: generateTemplateHash_def)

lemma copy_spec_ok:
  assumes "spec_ok h s" "copy_spec s h = (s', h')"
  shows "value_of_spec h' s' = value_of_spec h s \<and> spec_ok h' s'"
proof -
  obtain ls h1 where 1: "copy_ref (pt_Labels (ws_Template s)) h = (ls, h1)" by fastforce
  obtain ns h2 where 2: "copy_ref (pt_NodeSelector (ws_Template s)) h1 = (ns, h2)" by fastforce
  obtain hs1 where h1: "h1 = h @ hs1" using copy_ref_heap [of "pt_Labels (ws_Template s)" h] 1 by auto
  obtain hs2 where h2: "h2 = h1 @ hs2" using copy_ref_heap [of "pt_NodeSelector (ws_Template s)" h1] 2 by auto
  have s': "s' = s\<lparr>ws_Template := (ws_Template s)\<lparr>pt_Labels := ls, pt_NodeSelector := ns\<rparr>\<rparr>" "h' = h2"
    using assms(2) 1 2 by (auto simp: copy_spec_def)
  have ok: "ref_ok h (pt_Labels (ws_Template s))" "ref_ok h (pt_NodeSelector (ws_Template s))" using assms(1) by (auto simp: spec_ok_def)
  note a = copy_ref_ok [OF ok(1) 1]
  have "ref_ok h1 (pt_NodeSelector (ws_Template s))" using ok(2) h1 by simp
  note b = copy_ref_ok [OF this 2]
  have "load h' ls = load h (pt_Labels (ws_Template s))" "load h' ns = load h (pt_NodeSelector (ws_Template s))"
    using a b ok(2) load_alloc [of h1 ls hs2] by (simp_all add: s' h2) (simp add: h1)
  moreover have "ls \<noteq> None \<longrightarrow> ls \<noteq> ns" using a b by (cases ls; cases ns) (auto simp: h1)
  ultimately show ?thesis using a b by (simp add: value_of_spec_def spec_ok_def s' h2)
qed

text \<open>The labels of the templates of a copied pool are new maps.\<close>

lemma copy_pool_fresh:
  assumes "copy_pool pool h = (pool', h')" "(k, s) \<in> set pool'" "pt_Labels (ws_Template s) = Some a"
  shows "length h \<le> a \<and> a < length h'"
  using assms
proof (induction pool arbitrary: h pool' h')
  case (Cons ks pool)
  obtain k0 s0 where ks: "ks = (k0, s0)" by fastforce
  obtain s1 h1 where 1: "copy_spec s0 h = (s1, h1)" by fastforce
  obtain pool1 h2 where 2: "copy_pool pool h1 = (pool1, h2)" by fastforce
  have len: "length h \<le> length h1" "length h1 \<le> length h2"
    using copy_spec_heap [of s0 h] copy_pool_heap [of pool h1] 1 2 by auto
  have res: "pool' = (k0, s1) # pool1" "h' = h2" using Cons.prems(1) 1 2 by (auto simp: ks)
  have "length h \<le> a \<and> a < length h1" if "pt_Labels (ws_Template s1) = Some a"
    using that 1 by (auto simp: copy_spec_def copy_ref_def split: option.splits prod.splits)
  then show ?case using Cons.IH [OF 2] Cons.prems(2,3) len by (auto simp: res)
qed simp

lemma setTemplateHash_heap:
  assumes "setTemplateHash lib t h = (t', h')"
  shows "length h \<le> length h' \<and> (\<forall>i < length h. pt_Labels (ws_Template t) \<noteq> Some i \<longrightarrow> h' ! i = h ! i)"
  using assms by (auto simp: setTemplateHash_def alloc_def set_key_def nth_append Let_def split: if_splits option.splits)

lemma setTemplateHash_hash:
  assumes "spec_ok h t" "setTemplateHash lib t h = (t', h')"
  shows "GetTemplateHash (load h' (pt_Labels (ws_Template t'))) = generateTemplateHash lib h t \<and>
    (\<forall>a. pt_Labels (ws_Template t') = Some a \<longrightarrow> (pt_Labels (ws_Template t) = Some a \<or> a = length h) \<and> a < length h')"
  using assms
  by (auto simp: setTemplateHash_def alloc_def load_set_key GetTemplateHash_def mget_mput spec_ok_def Let_def split: if_splits option.splits)

lemma pool_hash_heap:
  assumes "\<And>k s. (k, s) \<in> set pool \<Longrightarrow> pt_Labels (ws_Template s) \<noteq> Some i" "i < length h"
  shows "i < length (fold (\<lambda>(k, t) h. snd (setTemplateHash lib t h)) pool h) \<and>
    fold (\<lambda>(k, t) h. snd (setTemplateHash lib t h)) pool h ! i = h ! i"
  using assms
proof (induction pool arbitrary: h)
  case (Cons ks pool)
  obtain k s where ks: "ks = (k, s)" by fastforce
  obtain t' h1 where 1: "setTemplateHash lib s h = (t', h1)" by fastforce
  have "i < length h1 \<and> h1 ! i = h ! i" using setTemplateHash_heap [OF 1] Cons.prems by (auto simp: ks)
  then show ?case using Cons.IH [of h1] Cons.prems(1) 1 by (auto simp: ks)
qed simp

lemma RemoveUnusedTemplate_subset: "set (TemplatePool (gr_Spec (RemoveUnusedTemplate g))) \<subseteq> set (TemplatePool (gr_Spec g))"
proof -
  have "set (fold mdel ks m) \<subseteq> set m" for ks and m :: "(string, workload_spec) gomap"
  proof (induction ks arbitrary: m)
    case (Cons k ks)
    have "set (mdel k m) \<subseteq> set m" by (auto simp: AList.delete_eq)
    then show ?case using Cons [of "mdel k m"] by auto
  qed simp
  then show ?thesis by (simp add: RemoveUnusedTemplate_def Let_def)
qed

lemma RemoveUnusedTemplate_Template [simp]: "Template (gr_Spec (RemoveUnusedTemplate g)) = Template (gr_Spec g)"
  by (simp add: RemoveUnusedTemplate_def Let_def)

lemma prepared_copy_hash:
  assumes ok: "spec_ok h (Template (gr_Spec g))" and run: "prepared_copy env g h = (gC, h')"
  shows "GetTemplateHash (load h' (pt_Labels (ws_Template (Template (gr_Spec gC))))) = generateTemplateHash env h (Template (gr_Spec g)) \<and>
    (\<forall>i < length h. h' ! i = h ! i) \<and> length h \<le> length h'"
proof -
  obtain ls h1 where 1: "copy_ref (rm_Labels (gr_Meta g)) h = (ls, h1)" by fastforce
  obtain t h2 where 2: "copy_spec (Template (gr_Spec g)) h1 = (t, h2)" by fastforce
  obtain pool h3 where 3: "copy_pool (TemplatePool (gr_Spec g)) h2 = (pool, h3)" by fastforce
  obtain hs1 where h1: "h1 = h @ hs1" using copy_ref_heap [of "rm_Labels (gr_Meta g)" h] 1 by auto
  obtain hs2 where h2: "h2 = h1 @ hs2" using copy_spec_heap [of "Template (gr_Spec g)" h1] 2 by auto
  obtain hs3 where h3: "h3 = h2 @ hs3" using copy_pool_heap [of "TemplatePool (gr_Spec g)" h2] 3 by auto
  have ok1: "spec_ok h1 (Template (gr_Spec g))" using ok by (auto simp: spec_ok_def h1)
  note t = copy_spec_ok [OF ok1 2]
  have t3: "spec_ok h3 t" using t by (auto simp: spec_ok_def h3)
  define c where "c = g\<lparr>gr_Meta := (gr_Meta g)\<lparr>rm_Labels := ls\<rparr>, gr_Spec := (gr_Spec g)\<lparr>Template := t, TemplatePool := pool\<rparr>\<rparr>"
  define e where "e = (if DefaultTemplate (gr_Spec c) = [] then c\<lparr>gr_Spec := (gr_Spec c)\<lparr>DefaultTemplate := DefaultTemplateName\<rparr>\<rparr> else c)"
  define d where "d = RemoveUnusedTemplate e"
  have d: "Template (gr_Spec d) = t" "set (TemplatePool (gr_Spec d)) \<subseteq> set pool"
    using RemoveUnusedTemplate_subset [of e] by (auto simp: d_def e_def c_def)
  obtain t' h4 where 4: "setTemplateHash env t h3 = (t', h4)" by fastforce
  have run': "prepared_copy env g h = UpdateTemplateHash env d h3"
    by (simp add: prepared_copy_def copy_grid_def 1 2 3 d_def e_def c_def Let_def)
  have res: "Template (gr_Spec gC) = t'" "h' = fold (\<lambda>(k, t) h. snd (setTemplateHash env t h)) (TemplatePool (gr_Spec d)) h4"
    using run unfolding run' by (auto simp: UpdateTemplateHash_def d(1) 4)
  have pool: "length h2 \<le> a \<and> a < length h3" if "(k, s) \<in> set (TemplatePool (gr_Spec d))" "pt_Labels (ws_Template s) = Some a" for k s a
    using copy_pool_fresh [OF 3 _ that(2)] that(1) d(2) by blast
  have keep: "i < length h' \<and> h' ! i = h4 ! i" if "i < length h4" "i < length h2 \<or> length h3 \<le> i" for i
    unfolding res(2) using that pool by (intro pool_hash_heap) force+
  have sep: "pt_Labels (ws_Template t) = Some i \<Longrightarrow> length h1 \<le> i" for i
    using 2 by (auto simp: copy_spec_def copy_ref_def split: option.splits prod.splits)
  note hash = setTemplateHash_hash [OF t3 4] and heap = setTemplateHash_heap [OF 4]
  have "value_of_spec h3 t = value_of_spec h (Template (gr_Spec g))"
    using t value_of_spec_append [of h2 t hs3] value_of_spec_append [OF ok, of hs1] by (simp add: h3 h1)
  then have gen: "generateTemplateHash env h3 t = generateTemplateHash env h (Template (gr_Spec g))" by (rule generateTemplateHash_value)
  have "load h' (pt_Labels (ws_Template t')) = load h4 (pt_Labels (ws_Template t'))"
  proof (cases "pt_Labels (ws_Template t')")
    case (Some a)
    have "pt_Labels (ws_Template t) = Some a \<or> a = length h3" "a < length h4" using hash Some by auto
    moreover have "a < length h2" if "pt_Labels (ws_Template t) = Some a" using that t by (auto simp: spec_ok_def)
    ultimately show ?thesis using keep [of a] Some by (auto simp: load_def)
  qed simp
  moreover have "h' ! i = h ! i \<and> i < length h'" if "i < length h" for i
  proof -
    have "pt_Labels (ws_Template t) \<noteq> Some i" using sep [of i] that by (auto simp: h1)
    then have "h4 ! i = h3 ! i" "i < length h4" using that heap by (simp_all add: h3 h2 h1)
    then show ?thesis using keep [of i] that by (auto simp: h3 h2 h1 nth_append)
  qed
  ultimately show ?thesis using hash gen res(1) by (auto simp: linorder_not_le [symmetric] dest: less_imp_le)
qed

lemma sync_grid_stale_hash:
  assumes key: "SplitMetaNamespaceKey env key = Inr (ns, name)" and g: "grid_Get env ns name = Inr g" "GridUniqKey (gr_Spec g) \<noteq> []"
    and ok: "spec_ok (gs_heap (ct_grid st)) (Template (gr_Spec g))"
    and eq: "\<And>a b. DeepEqual_spec env a b \<Longrightarrow> GetTemplateHash (sv_Labels a) = GetTemplateHash (sv_Labels b)"
    and stale: "GetTemplateHash (load (gs_heap (ct_grid st)) (pt_Labels (ws_Template (Template (gr_Spec g))))) \<noteq>
      generateTemplateHash env (gs_heap (ct_grid st)) (Template (gr_Spec g))"
  shows "\<exists>errs st' c. sync_grid workloads rest env key st = Ret (errs, st') \<and> ct_refs st' = ct_refs st \<and>
    gs_log (ct_grid st') = gs_log (ct_grid st) @ [GridUpdate c] \<and>
    GetTemplateHash (sv_Labels (gc_Template c)) = generateTemplateHash env (gs_heap (ct_grid st)) (Template (gr_Spec g))"
proof -
  let ?h = "gs_heap (ct_grid st)" and ?t = "Template (gr_Spec g)"
  obtain gC h' where p: "prepared_copy env g ?h = (gC, h')" by fastforce
  note hash = prepared_copy_hash [OF ok p]
  have same: "load h' (pt_Labels (ws_Template ?t)) = load ?h (pt_Labels (ws_Template ?t))"
    using hash ok by (cases "pt_Labels (ws_Template ?t)") (auto simp: load_def spec_ok_def)
  have "\<not> DeepEqual_spec env (value_of_spec h' ?t) (value_of_spec h' (Template (gr_Spec gC)))"
  proof
    assume "DeepEqual_spec env (value_of_spec h' ?t) (value_of_spec h' (Template (gr_Spec gC)))"
    from eq [OF this] show False using hash stale same by (simp add: value_of_spec_def)
  qed
  then have changed: "template_changed env h' g gC" by (simp add: template_changed_def)
  have "GetTemplateHash (sv_Labels (gc_Template (value_of_grid h' gC))) = generateTemplateHash env ?h ?t"
    using hash by (simp add: value_of_grid_def value_of_spec_def)
  then show ?thesis by (simp add: sync_grid_def key g p changed grid_api_def)
qed

text \<open>
  A stale hash is stored before anything else is done. While the template of a deployment grid does not carry the hash of its current
  contents, a synchronisation makes exactly one call: it updates the grid, with the hash of the current contents in the template, and it
  neither claims nor changes any deployment.
\<close>

theorem stale_hash_stored_first:
  assumes "SplitMetaNamespaceKey env key = Inr (ns, name)" "grid_Get env ns name = Inr g" "GridUniqKey (gr_Spec g) \<noteq> []"
    "spec_ok (gs_heap (ct_grid st)) (Template (gr_Spec g))"
    "\<And>a b. DeepEqual_spec env a b \<Longrightarrow> GetTemplateHash (sv_Labels a) = GetTemplateHash (sv_Labels b)"
    "GetTemplateHash (load (gs_heap (ct_grid st)) (pt_Labels (ws_Template (Template (gr_Spec g))))) \<noteq>
      generateTemplateHash env (gs_heap (ct_grid st)) (Template (gr_Spec g))"
  shows "\<exists>errs st' c. syncDeploymentGrid env key st = Ret (errs, st') \<and> ct_refs st' = ct_refs st \<and>
    gs_log (ct_grid st') = gs_log (ct_grid st) @ [GridUpdate c] \<and>
    GetTemplateHash (sv_Labels (gc_Template c)) = generateTemplateHash env (gs_heap (ct_grid st)) (Template (gr_Spec g))"
  unfolding syncDeploymentGrid_def by (rule sync_grid_stale_hash [OF assms])

lemma sample_hash: "generateTemplateHash env h t \<noteq> []" "[] \<noteq> generateTemplateHash env h t"
  unfolding generateTemplateHash_def Let_def by (metis natDigits_hd list.distinct(1))+

theorem stale_hash_stored_first_witness:
  "\<exists>errs st' c. syncDeploymentGrid (sample_ctl_env [sample_dgrid None] [] []) ''g'' \<lparr>ct_grid = sample_gstate [], ct_refs = []\<rparr> = Ret (errs, st') \<and>
     ct_refs st' = [] \<and> gs_log (ct_grid st') = [GridUpdate c]"
proof -
  let ?env = "sample_ctl_env [sample_dgrid None] [] []" and ?st = "\<lparr>ct_grid = sample_gstate [], ct_refs = []\<rparr>"
  have "\<exists>errs st' c. syncDeploymentGrid ?env ''g'' ?st = Ret (errs, st') \<and> ct_refs st' = ct_refs ?st \<and> gs_log (ct_grid st') = gs_log (ct_grid ?st) @ [GridUpdate c] \<and>
    GetTemplateHash (sv_Labels (gc_Template c)) = generateTemplateHash ?env (gs_heap (ct_grid ?st)) (Template (gr_Spec (sample_dgrid None)))"
    by (rule stale_hash_stored_first [of _ _ "''ns''" "''g''"])
      (auto simp: sample_hash sample_ctl_env_def grid_env.defs sample_genv_def grid_lib.defs sample_lib_def sample_dgrid_def sample_rmeta_def
        sample_template_def spec_ok_def GetTemplateHash_def)
  then show ?thesis by (auto simp: sample_gstate_def)
qed

end
