(* ===== verification/GridFed.thy ===== *)
theory GridFed
  imports GridService GridController
begin

text \<open>
  The controllers of the grids of a parent cluster:
  \<open>src/pkg/application-grid-controller/controller/service/fed_service.go\<close> and \<open>controller/deployment/fed_deployment.go\<close>. In the
  namespace that the parent cluster dedicates to this cluster they find the grids that were distributed to it, and keep a copy of
  each in the local cluster while one of its nodes has the key of the grid.

  The two files are the same up to names and the status, so the operations are defined once, over the specification and the status of a
  grid, and named for both. The informer cache of the local grids is part of the state: an update writes into the cached object.
\<close>

section \<open>Data\<close>

record ('s, 't) fed_grid =
  fd_Meta :: object_meta
  fd_Finalizers :: "string list"
  fd_Spec :: 's
  fd_Status :: 't

text \<open>The calls to the two API servers; those of the parent cluster are the patch of the finalizers and the write of the status.\<close>

datatype ('s, 't) fed_call =
    LocalCreate "('s, 't) fed_grid"
  | LocalUpdate "('s, 't) fed_grid"
  | LocalDelete string string
  | ParentFinalizers string string "string list"
  | ParentStatus "('s, 't) fed_grid"

text \<open>\<open>fed_Get\<close> and \<open>fed_List\<close> read the cache of the grids of the parent cluster.\<close>

record ('s, 't) fed_env =
  fed_namespace :: string
  fed_SplitKey :: "string \<Rightarrow> go_error + string \<times> string"
  fed_KeyFunc :: "string \<Rightarrow> string \<Rightarrow> go_error + string"
  fed_Get :: "string \<Rightarrow> string \<Rightarrow> apierr + ('s, 't) fed_grid"
  fed_List :: "go_error + ('s, 't) fed_grid list"
  fed_nodes :: "go_error + object_meta list"
  fed_respond :: "nat \<Rightarrow> ('s, 't) fed_call \<Rightarrow> apierr option"

record ('s, 't) fed_state =
  fds_local :: "string \<Rightarrow> string \<Rightarrow> apierr + ('s, 't) fed_grid"
  fds_log :: "('s, 't) fed_call list"
  fds_events :: "string list"

text \<open>What tells the two controllers apart: the key of a specification, the comparison of two of them, and the end of a synchronisation.\<close>

record ('s, 't) fed_kind =
  UniqKey :: "'s \<Rightarrow> string"
  SpecContains :: "'s \<Rightarrow> 's \<Rightarrow> bool"
  finish :: "('s, 't) fed_env \<Rightarrow> ('s, 't) fed_grid \<Rightarrow> ('s, 't) fed_state \<Rightarrow> apierr list \<times> ('s, 't) fed_state"

definition fed_api :: "('s, 't) fed_env \<Rightarrow> ('s, 't) fed_call \<Rightarrow> ('s, 't) fed_state \<Rightarrow> apierr option \<times> ('s, 't) fed_state" where
  "fed_api env c st = (fed_respond env (length (fds_log st)) c, st\<lparr>fds_log := fds_log st @ [c]\<rparr>)"

definition target_namespace :: "('s, 't) fed_grid \<Rightarrow> string" where
  "target_namespace g = (case nget (om_Labels (fd_Meta g)) FedTargetNameSpace of None \<Rightarrow> '''' | Some ns \<Rightarrow> ns)"

section \<open>Synchronisation\<close>

definition patch_finalizers :: "('s, 't) fed_env \<Rightarrow> string \<Rightarrow> string \<Rightarrow> string list \<Rightarrow> go_error \<Rightarrow> ('s, 't) fed_state \<Rightarrow> apierr list \<times> ('s, 't) fed_state" where
  "patch_finalizers env namespace name fs msg st =
     (case fed_api env (ParentFinalizers namespace name fs) st of
        (Some err, st1) \<Rightarrow> ([EOther msg], st1)
      | (None, st1) \<Rightarrow> ([], st1))"

text \<open>The grid of the parent cluster is being deleted: nothing is done unless the local grid still exists.\<close>

definition delete_fed :: "('s, 't) fed_env \<Rightarrow> string \<Rightarrow> string \<Rightarrow> ('s, 't) fed_grid \<Rightarrow> ('s, 't) fed_state \<Rightarrow> apierr list \<times> ('s, 't) fed_state" where
  "delete_fed env namespace name fed st =
     (case fds_local st (target_namespace fed) name of
        Inl _ \<Rightarrow> ([], st)
      | Inr _ \<Rightarrow>
          let (err, st1) = fed_api env (LocalDelete (target_namespace fed) name) st
          in if err \<noteq> None \<and> err \<noteq> Some ENotFound then ([the err], st1)
             else patch_finalizers env namespace name [] ''Patching fed grids: %s %s, error: %v'' st1)"

definition local_copy :: "('s, 't) fed_grid \<Rightarrow> ('s, 't) fed_grid" where
  "local_copy fed = fed\<lparr>fd_Meta := (fd_Meta fed)\<lparr>om_Namespace := target_namespace fed,
       om_Labels := map_option (mdel FedrationDisKey) (om_Labels (fd_Meta fed)), om_OwnerReferences := [], om_ResourceVersion := ''''\<rparr>,
     fd_Finalizers := []\<rparr>"

text \<open>A node has the key: the local grid is created, or its specification is brought up to date in the cached object, which is then sent.\<close>

definition keep_local :: "('s, 't) fed_kind \<Rightarrow> ('s, 't) fed_env \<Rightarrow> string \<Rightarrow> string \<Rightarrow> ('s, 't) fed_grid \<Rightarrow> ('s, 't) fed_state \<Rightarrow> apierr list \<times> ('s, 't) fed_state" where
  "keep_local kd env namespace name fed st =
     (case fds_local st (target_namespace fed) name of
        Inl err \<Rightarrow>
          if err = ENotFound then
            (case fed_api env (LocalCreate (local_copy fed)) st of
               (Some e, st1) \<Rightarrow> ([e], st1)
             | (None, st1) \<Rightarrow>
                 if length (fd_Finalizers fed) = 0
                 then patch_finalizers env namespace name [''dis''] ''Patching fed grids add finalizers: %s %s, error: %v'' st1
                 else ([], st1))
          else ([err], st)
      | Inr existed \<Rightarrow>
          if \<not> SpecContains kd (fd_Spec existed) (fd_Spec fed) then
            let existed = existed\<lparr>fd_Spec := fd_Spec fed\<rparr>;
                st1 = st\<lparr>fds_local := (fds_local st)(target_namespace fed := (fds_local st (target_namespace fed))(name := Inr existed))\<rparr>
            in (case fed_api env (LocalUpdate existed) st1 of (Some e, st2) \<Rightarrow> ([e], st2) | (None, st2) \<Rightarrow> ([], st2))
          else ([], st))"

definition drop_local :: "('s, 't) fed_env \<Rightarrow> string \<Rightarrow> ('s, 't) fed_grid \<Rightarrow> ('s, 't) fed_state \<Rightarrow> apierr list \<times> ('s, 't) fed_state" where
  "drop_local env name fed st =
     (case fds_local st (target_namespace fed) name of
        Inl _ \<Rightarrow> ([], st)
      | Inr _ \<Rightarrow> (case fed_api env (LocalDelete (target_namespace fed) name) st of (Some e, st1) \<Rightarrow> ([e], st1) | (None, st1) \<Rightarrow> ([], st1)))"

definition has_key :: "string \<Rightarrow> object_meta \<Rightarrow> bool" where
  "has_key k node \<longleftrightarrow> nget (om_Labels node) k \<noteq> None"

definition sync_fed :: "('s, 't) fed_kind \<Rightarrow> ('s, 't) fed_env \<Rightarrow> string \<Rightarrow> ('s, 't) fed_state \<Rightarrow> apierr list \<times> ('s, 't) fed_state" where
  "sync_fed kd env key st =
     (case fed_SplitKey env key of
        Inl err \<Rightarrow> ([EOther err], st)
      | Inr (namespace, name) \<Rightarrow>
          (case fed_Get env namespace name of
             Inl err \<Rightarrow> (if err = ENotFound then [] else [err], st)
           | Inr fed \<Rightarrow>
               if om_DeletionTimestamp (fd_Meta fed) \<noteq> None then delete_fed env namespace name fed st
               else if UniqKey kd (fd_Spec fed) = '''' then ([], st\<lparr>fds_events := fds_events st @ [''Empty'']\<rparr>)
               else
                 (case fed_nodes env of
                    Inl err \<Rightarrow> ([EOther err], st)
                  | Inr nodes \<Rightarrow>
                      let (errs, st1) =
                        (if list_ex (has_key (UniqKey kd (fd_Spec fed))) nodes then keep_local kd env namespace name fed st
                         else drop_local env name fed st)
                      in if errs \<noteq> [] then (errs, st1) else finish kd env fed st1)))"

text \<open>The status of the local deployment grid is copied to the parent cluster.\<close>

definition syncFedStatus :: "('t \<Rightarrow> 't \<Rightarrow> bool) \<Rightarrow> ('s, 't) fed_env \<Rightarrow> ('s, 't) fed_grid \<Rightarrow> ('s, 't) fed_state \<Rightarrow> apierr list \<times> ('s, 't) fed_state" where
  "syncFedStatus DeepEqual env dg st =
     (case fds_local st (target_namespace dg) (om_Name (fd_Meta dg)) of
        Inl err \<Rightarrow> (if err = ENotFound then [] else [err], st)
      | Inr disdg \<Rightarrow>
          if \<not> DeepEqual (fd_Status dg) (fd_Status disdg) then
            (case fed_api env (ParentStatus (dg\<lparr>fd_Status := fd_Status disdg\<rparr>)) st of
               (None, st1) \<Rightarrow> ([], st1)
             | (Some e, st1) \<Rightarrow> (if e = EConflict then [] else [e], st1))
          else ([], st))"

section \<open>Service grids\<close>

text \<open>A deep copy of a value: its slices, maps and pointers lie at \<open>p\<close>, so that two copies share nothing.\<close>

fun place :: "nat \<Rightarrow> goval \<Rightarrow> goval" where
  "place p (VBasic t e b) = VBasic t e b"
| "place p (VArray t xs) = VArray t (map (place p) xs)"
| "place p (VStruct t xs) = VStruct t (map (place p) xs)"
| "place p (VSlice t a d) = VSlice t None (map_option (\<lambda>(q, xs). (p, map (place p) xs)) d)"
| "place p (VMap t a d) = VMap t None (map_option (\<lambda>(q, m). (p, map (\<lambda>(k, v). (k, place p v)) m)) d)"
| "place p (VPtr t a d) = VPtr t None (map_option (\<lambda>(q, v). (p, place p v)) d)"
| "place p (VInterface t a d) = VInterface t None (map_option (place p) d)"
| "place p (VFunc t n) = VFunc t n"

type_synonym service_grid_spec = "string \<times> service_spec_value"

definition reflect_service_value :: "service_grid_spec \<Rightarrow> goval" where
  "reflect_service_value s = VStruct ''ServiceGridSpec''
     [VBasic ''string'' True (BString (fst s)),
      VStruct ''ServiceSpec''
        (VSlice ''[]ServicePort'' None (Some (0, map reflect_port (xs_Ports (snd s)))) #
         VMap ''map[string]string'' None (map_option (\<lambda>ls. (0, map (\<lambda>(k, v). (BString k, VBasic ''string'' True (BString v))) ls)) (xs_Selector (snd s))) #
         VBasic ''string'' True (BString (xs_ClusterIP (snd s))) # VBasic ''ServiceType'' True (BString (xs_Type (snd s))) # xs_Rest (snd s))]"

text \<open>\<open>DeepContains\<close> on the specifications of two objects.\<close>

definition copies_contain :: "goval \<Rightarrow> goval \<Rightarrow> bool" where
  "copies_contain a b = DeepContains (Some (place 0 a)) (Some (place 1 b))"

definition fed_services :: "(service_grid_spec, (string \<times> string) list) fed_kind" where
  "fed_services = \<lparr>UniqKey = fst, SpecContains = (\<lambda>a b. copies_contain (reflect_service_value a) (reflect_service_value b)),
     finish = (\<lambda>env fed st. ([], st))\<rparr>"

definition syncFedServiceGrid where "syncFedServiceGrid = sync_fed fed_services"

section \<open>Deployment grids\<close>

record dgrid_spec_value =
  dv_GridUniqKey :: string
  dv_Template :: spec_value
  dv_Pool :: "(string, spec_value) gomap"
  dv_Templates :: "labels option"
  dv_Default :: string
  dv_AutoDelete :: bool

definition reflect_labels :: "labels option \<Rightarrow> goval" where
  "reflect_labels ls = VMap ''map[string]string'' None
     (map_option (\<lambda>ls. (0, map (\<lambda>(k, v). (BString k, VBasic ''string'' True (BString v))) ls)) ls)"

definition reflect_workload_value :: "spec_value \<Rightarrow> goval" where
  "reflect_workload_value s = VStruct ''DeploymentSpec''
     (VPtr ''*int32'' None (map_option (\<lambda>n. (0, VBasic ''int32'' True (BInt n))) (sv_Replicas s)) #
      VStruct ''PodTemplateSpec'' (reflect_labels (sv_Labels s) # reflect_labels (sv_NodeSelector s) # sv_PodRest s) # sv_Rest s)"

definition reflect_dgrid_value :: "dgrid_spec_value \<Rightarrow> goval" where
  "reflect_dgrid_value s = VStruct ''DeploymentGridSpec''
     [VBasic ''string'' True (BString (dv_GridUniqKey s)), reflect_workload_value (dv_Template s),
      VMap ''map[string]DeploymentSpec'' None (Some (0, map (\<lambda>(k, t). (BString k, reflect_workload_value t)) (dv_Pool s))),
      reflect_labels (dv_Templates s), VBasic ''string'' True (BString (dv_Default s)), VBasic ''bool'' True (BBool (dv_AutoDelete s))]"

text \<open>\<open>DeepEqual\<close> is \<open>apiequality.Semantic.DeepEqual\<close> on the states.\<close>

definition fed_deployments :: "((string, workload_status) gomap \<Rightarrow> (string, workload_status) gomap \<Rightarrow> bool) \<Rightarrow>
    (dgrid_spec_value, (string, workload_status) gomap) fed_kind" where
  "fed_deployments DeepEqual = \<lparr>UniqKey = dv_GridUniqKey,
     SpecContains = (\<lambda>a b. copies_contain (reflect_dgrid_value a) (reflect_dgrid_value b)), finish = syncFedStatus DeepEqual\<rparr>"

definition syncFedDeploymentGrid where "syncFedDeploymentGrid DeepEqual = sync_fed (fed_deployments DeepEqual)"

section \<open>Events\<close>

text \<open>A handler is the list of the grids of the parent cluster that it enqueues.\<close>

definition addFed :: "('s, 't) fed_grid \<Rightarrow> ('s, 't) fed_grid list" where
  "addFed fed = [fed]"

definition updateFed :: "('s, 't) fed_grid \<Rightarrow> ('s, 't) fed_grid \<Rightarrow> ('s, 't) fed_grid list" where
  "updateFed oldG curG = (if om_ResourceVersion (fd_Meta curG) = om_ResourceVersion (fd_Meta oldG) then [] else [curG])"

definition deleteFed :: "('s, 't) fed_grid deleted \<Rightarrow> ('s, 't) fed_grid list" where
  "deleteFed obj = (case deleted_object obj of None \<Rightarrow> [] | Some fed \<Rightarrow> [fed])"

definition enqueue_fed :: "('s, 't) fed_env \<Rightarrow> ('s, 't) fed_grid \<Rightarrow> string list" where
  "enqueue_fed env fed = (case fed_KeyFunc env (om_Namespace (fd_Meta fed)) (om_Name (fd_Meta fed)) of Inl err \<Rightarrow> [] | Inr key \<Rightarrow> [key])"

definition fed_with :: "('s, 't) fed_kind \<Rightarrow> ('s, 't) fed_env \<Rightarrow> (string \<Rightarrow> bool) \<Rightarrow> ('s, 't) fed_grid list" where
  "fed_with kd env P = (case fed_List env of Inl err \<Rightarrow> [] | Inr gs \<Rightarrow> filter (\<lambda>g. P (UniqKey kd (fd_Spec g))) gs)"

definition deleteNode_fed :: "('s, 't) fed_kind \<Rightarrow> ('s, 't) fed_env \<Rightarrow> object_meta deleted \<Rightarrow> ('s, 't) fed_grid list" where
  "deleteNode_fed kd env obj = (case deleted_object obj of None \<Rightarrow> [] | Some node \<Rightarrow> fed_with kd env (\<lambda>k. has_key k node))"

definition addNode_fed :: "('s, 't) fed_kind \<Rightarrow> ('s, 't) fed_env \<Rightarrow> object_meta \<Rightarrow> ('s, 't) fed_grid list" where
  "addNode_fed kd env node =
     (if om_DeletionTimestamp node \<noteq> None then deleteNode_fed kd env (deleted.Deleted node) else fed_with kd env (\<lambda>k. has_key k node))"

definition updateNode_fed :: "('s, 't) fed_kind \<Rightarrow> ('s, 't) fed_env \<Rightarrow> object_meta \<Rightarrow> object_meta \<Rightarrow> ('s, 't) fed_grid list" where
  "updateNode_fed kd env oldNode curNode =
     (if om_ResourceVersion curNode = om_ResourceVersion oldNode then []
      else if \<not> map_DeepEqual (om_Labels curNode) (om_Labels oldNode) then fed_with kd env (\<lambda>k. has_key k oldNode \<or> has_key k curNode)
      else [])"

text \<open>Events of the local grids.\<close>

definition fed_of_local :: "('s, 't) fed_env \<Rightarrow> ('s, 't) fed_grid \<Rightarrow> ('s, 't) fed_grid list" where
  "fed_of_local env g =
     (if nget (om_Labels (fd_Meta g)) FedTargetNameSpace = None then []
      else case fed_Get env (fed_namespace env) (om_Name (fd_Meta g)) of Inl err \<Rightarrow> [] | Inr fed \<Rightarrow> [fed])"

definition addGrid_fed :: "('s, 't) fed_env \<Rightarrow> ('s, 't) fed_grid \<Rightarrow> ('s, 't) fed_grid list" where
  "addGrid_fed env g = fed_of_local env g"

definition updateGrid_fed :: "('s, 't) fed_env \<Rightarrow> ('s, 't) fed_grid \<Rightarrow> ('s, 't) fed_grid \<Rightarrow> ('s, 't) fed_grid list" where
  "updateGrid_fed env oldG curG = (if om_ResourceVersion (fd_Meta curG) = om_ResourceVersion (fd_Meta oldG) then [] else fed_of_local env curG)"

definition deleteGrid_fed :: "('s, 't) fed_env \<Rightarrow> ('s, 't) fed_grid deleted \<Rightarrow> ('s, 't) fed_grid list" where
  "deleteGrid_fed env obj = (case deleted_object obj of None \<Rightarrow> [] | Some g \<Rightarrow> fed_of_local env g)"

section \<open>A copy is contained\<close>

lemma strip_place [simp]: "strip (place p v) = strip v"
  by (induction p v rule: place.induct) (auto simp: option.map_comp o_def case_prod_unfold split: option.split intro!: option.map_cong)

lemma plain_place [simp]: "plain (place p v) = plain v"
  by (induction p v rule: place.induct) (auto simp: o_def case_prod_unfold split: option.split)

lemma hard_addr_place [simp]: "hard_addr (place p v) = None"
  by (cases v) simp_all

lemma children_place: "c \<in> children (place p v) \<Longrightarrow> \<exists>u. c = place p u"
  by (cases v) (auto simp: map_option_case split: option.splits, blast)

lemma subvals_place: "s \<in> subvals (place p v) \<Longrightarrow> \<exists>u. s = place p u"
  by (induction rule: subvals.induct) (auto dest: children_place)

lemma copies_contain_refl: "plain v \<Longrightarrow> copies_contain v v"
proof -
  assume "plain v"
  have "addresses_ok (place 0 v) (place 1 v)" unfolding addresses_ok_def using subvals_place hard_addr_place by (metis insertE empty_iff)
  from DeepContains_agrees [OF this] strip_contains [of "place 0 v" "place 1 v"] \<open>plain v\<close>
  show ?thesis by (simp add: copies_contain_def)
qed

section \<open>Properties\<close>

text \<open>What a synchronisation of a grid that is not being deleted comes down to.\<close>

definition fed_found :: "('s, 't) fed_kind \<Rightarrow> ('s, 't) fed_env \<Rightarrow> string \<Rightarrow> string \<times> string \<Rightarrow> ('s, 't) fed_grid \<Rightarrow> object_meta list \<Rightarrow> bool" where
  "fed_found kd env key nn fed nodes \<longleftrightarrow>
     fed_SplitKey env key = Inr nn \<and> fed_Get env (fst nn) (snd nn) = Inr fed \<and> om_Name (fd_Meta fed) = snd nn \<and>
     UniqKey kd (fd_Spec fed) \<noteq> '''' \<and> fed_nodes env = Inr nodes"

lemma sync_fed_found:
  assumes "fed_found kd env key (ns, name) fed nodes" "om_DeletionTimestamp (fd_Meta fed) = None"
  shows "sync_fed kd env key st =
    (let (errs, st1) = (if list_ex (has_key (UniqKey kd (fd_Spec fed))) nodes then keep_local kd env ns name fed st else drop_local env name fed st)
     in if errs \<noteq> [] then (errs, st1) else finish kd env fed st1)"
  using assms by (simp add: sync_fed_def fed_found_def)

text \<open>An update that fails is not made again: the cached grid already has the new specification.\<close>

lemma keep_local_lost:
  assumes "fds_local st (target_namespace fed) name = Inr existed" "\<not> SpecContains kd (fd_Spec existed) (fd_Spec fed)"
    "fed_respond env (length (fds_log st)) (LocalUpdate (existed\<lparr>fd_Spec := fd_Spec fed\<rparr>)) = Some e" "SpecContains kd (fd_Spec fed) (fd_Spec fed)"
  shows "\<exists>st1. keep_local kd env ns name fed st = ([e], st1) \<and> fds_log st1 = fds_log st @ [LocalUpdate (existed\<lparr>fd_Spec := fd_Spec fed\<rparr>)] \<and>
    keep_local kd env ns name fed st1 = ([], st1)"
  using assms by (simp add: keep_local_def fed_api_def Let_def)

text \<open>
  A failed update of the local copy of a service grid is lost. The controller writes the new specification into the object of the
  informer cache before it sends it. When the API server refuses the update, the synchronisation returns the error and the key is retried,
  but the retry compares the new specification with the object it has changed itself: it finds nothing to do and reports success, although the
  cluster still has the old specification.
\<close>

theorem failed_update_lost:
  assumes "fed_found fed_services env key (ns, name) fed nodes" "om_DeletionTimestamp (fd_Meta fed) = None"
    "list_ex (has_key (fst (fd_Spec fed))) nodes" "fds_local st (target_namespace fed) name = Inr existed"
    "\<not> copies_contain (reflect_service_value (fd_Spec existed)) (reflect_service_value (fd_Spec fed))"
    "fed_respond env (length (fds_log st)) (LocalUpdate (existed\<lparr>fd_Spec := fd_Spec fed\<rparr>)) = Some e" "plain (reflect_service_value (fd_Spec fed))"
  shows "\<exists>st1. syncFedServiceGrid env key st = ([e], st1) \<and> fds_log st1 = fds_log st @ [LocalUpdate (existed\<lparr>fd_Spec := fd_Spec fed\<rparr>)] \<and>
    syncFedServiceGrid env key st1 = ([], st1)"
proof -
  have kd: "UniqKey fed_services = fst" "SpecContains fed_services a b = copies_contain (reflect_service_value a) (reflect_service_value b)"
    "finish fed_services env' g s = ([], s)" for a b env' g s
    by (simp_all add: fed_services_def)
  obtain st1 where "keep_local fed_services env ns name fed st = ([e], st1)" "fds_log st1 = fds_log st @ [LocalUpdate (existed\<lparr>fd_Spec := fd_Spec fed\<rparr>)]"
    "keep_local fed_services env ns name fed st1 = ([], st1)"
    using keep_local_lost [of st fed name existed fed_services env e ns] assms(4-6) copies_contain_refl [OF assms(7)] by (auto simp: kd)
  then show ?thesis using assms(3) by (simp add: syncFedServiceGrid_def sync_fed_found [OF assms(1,2)] kd)
qed

text \<open>
  A grid of the parent cluster can be left with its finalizer for good. When the deployment grid is being deleted there and the local copy is
  deleted, but the patch that takes the finalizer away fails, the error makes the controller retry; once the cache has seen the
  deletion of the local copy, every further synchronisation ends without a call and without an error, so the finalizer stays.
\<close>

theorem finalizer_stays:
  assumes "fed_SplitKey env key = Inr (ns, name)" "fed_Get env ns name = Inr fed" "om_DeletionTimestamp (fd_Meta fed) \<noteq> None"
    "fds_local st (target_namespace fed) name = Inr existed"
    "fed_respond env (length (fds_log st)) (LocalDelete (target_namespace fed) name) = None"
    "fed_respond env (Suc (length (fds_log st))) (ParentFinalizers ns name []) = Some e"
  shows "\<exists>errs st1. syncFedDeploymentGrid eq env key st = (errs, st1) \<and> errs \<noteq> [] \<and>
    fds_log st1 = fds_log st @ [LocalDelete (target_namespace fed) name, ParentFinalizers ns name []] \<and>
    (\<forall>st2. fds_local st2 (target_namespace fed) name = Inl ENotFound \<longrightarrow> syncFedDeploymentGrid eq env key st2 = ([], st2))"
  using assms by (simp add: syncFedDeploymentGrid_def sync_fed_def delete_fed_def patch_finalizers_def fed_api_def)

text \<open>
  What a call that succeeds does to the grids of the local cluster; the calls to the parent cluster do nothing to them. A grid lies under its namespace and
  name. Before a synchronisation the local grids are those of the informer cache (\<open>local_grids\<close>).
\<close>

definition fed_key :: "('s, 't) fed_grid \<Rightarrow> string \<times> string" where
  "fed_key g = (om_Namespace (fd_Meta g), om_Name (fd_Meta g))"

fun apply_fed_call :: "('s, 't) fed_call \<Rightarrow> (string \<times> string \<rightharpoonup> ('s, 't) fed_grid) \<Rightarrow> string \<times> string \<rightharpoonup> ('s, 't) fed_grid" where
  "apply_fed_call (LocalCreate g) S = S(fed_key g \<mapsto> g)"
| "apply_fed_call (LocalUpdate g) S = S(fed_key g \<mapsto> g)"
| "apply_fed_call (LocalDelete ns n) S = S((ns, n) := None)"
| "apply_fed_call _ S = S"

definition local_grids :: "('s, 't) fed_state \<Rightarrow> string \<times> string \<rightharpoonup> ('s, 't) fed_grid" where
  "local_grids st = (\<lambda>(ns, n). case fds_local st ns n of Inl _ \<Rightarrow> None | Inr g \<Rightarrow> Some g)"

text \<open>The local copy of a grid of the parent cluster: a new one, or the existing one with a specification that contains the new one.\<close>

definition kept_grid :: "('s, 't) fed_kind \<Rightarrow> ('s, 't) fed_grid \<Rightarrow> ('s, 't) fed_grid option \<Rightarrow> ('s, 't) fed_grid" where
  "kept_grid kd fed old =
     (case old of
        None \<Rightarrow> local_copy fed
      | Some existed \<Rightarrow> if SpecContains kd (fd_Spec existed) (fd_Spec fed) then existed else existed\<lparr>fd_Spec := fd_Spec fed\<rparr>)"

definition cached_as :: "('s, 't) fed_state \<Rightarrow> string \<Rightarrow> string \<Rightarrow> bool" where
  "cached_as st ns n \<longleftrightarrow> (case fds_local st ns n of Inl e \<Rightarrow> e = ENotFound | Inr g \<Rightarrow> fed_key g = (ns, n))"

lemma syncFedStatus_calls:
  assumes "\<And>n c. fed_respond env n c = None" "\<And>e. fds_local st (target_namespace fed) (om_Name (fd_Meta fed)) = Inl e \<Longrightarrow> e = ENotFound"
  shows "\<exists>cs. fst (syncFedStatus eq env fed st) = [] \<and> fds_log (snd (syncFedStatus eq env fed st)) = fds_log st @ cs \<and> (\<forall>S. fold apply_fed_call cs S = S)"
  using assms by (auto simp: syncFedStatus_def fed_api_def split: sum.split)

lemma keep_local_calls:
  assumes "\<And>n c. fed_respond env n c = None" "cached_as st (target_namespace fed) name" "om_Name (fd_Meta fed) = name"
  shows "\<exists>cs st1. keep_local kd env ns name fed st = ([], st1) \<and> fds_log st1 = fds_log st @ cs \<and>
    fold apply_fed_call cs (local_grids st) = (local_grids st)((target_namespace fed, name) \<mapsto> kept_grid kd fed (local_grids st (target_namespace fed, name))) \<and>
    (\<forall>e. fds_local st1 (target_namespace fed) name = Inl e \<longrightarrow> e = ENotFound)"
proof (cases "fds_local st (target_namespace fed) name")
  case (Inl e)
  then show ?thesis using assms
    by (auto simp: keep_local_def cached_as_def patch_finalizers_def fed_api_def local_copy_def kept_grid_def local_grids_def fed_key_def)
next
  case (Inr existed)
  then show ?thesis using assms
    by (auto simp: keep_local_def cached_as_def fed_api_def kept_grid_def local_grids_def fed_key_def Let_def fun_eq_iff)
qed

lemma drop_local_calls:
  assumes "\<And>n c. fed_respond env n c = None" "cached_as st (target_namespace fed) name"
  shows "\<exists>cs st1. drop_local env name fed st = ([], st1) \<and> fds_log st1 = fds_log st @ cs \<and>
    fold apply_fed_call cs (local_grids st) = (local_grids st)((target_namespace fed, name) := None) \<and>
    (\<forall>e. fds_local st1 (target_namespace fed) name = Inl e \<longrightarrow> e = ENotFound)"
  using assms by (auto simp: drop_local_def cached_as_def fed_api_def local_grids_def fun_eq_iff split: sum.splits)

lemma delete_fed_calls:
  assumes "\<And>n c. fed_respond env n c = None"
  shows "\<exists>cs st1. delete_fed env ns name fed st = ([], st1) \<and> fds_log st1 = fds_log st @ cs \<and>
    fold apply_fed_call cs (local_grids st) = (local_grids st)((target_namespace fed, name) := None)"
  using assms by (auto simp: delete_fed_def patch_finalizers_def fed_api_def local_grids_def fun_eq_iff split: sum.splits)

text \<open>
  C11: the local copy of a deployment grid follows the nodes. When every call succeeds and the lookup in the cache finds the local grid or reports that
  there is none, a synchronisation of a grid of the parent cluster with a non-empty key reports no error and changes nothing of the local cluster but the copy of the
  grid. The copy exists afterwards exactly when the grid is not being deleted in the parent cluster and a node has its key; it is then the grid of the parent cluster
  without its finalizers, owners and distribution label if it is new, and otherwise the existing copy, with the specification of the
  grid of the parent cluster unless its own contains that already.
\<close>

theorem local_grid_follows_nodes:
  assumes "fed_found (fed_deployments eq) env key (ns, name) fed nodes"
    "\<And>n c. fed_respond env n c = None" "cached_as st (target_namespace fed) name"
  shows "\<exists>st' cs. syncFedDeploymentGrid eq env key st = ([], st') \<and> fds_log st' = fds_log st @ cs \<and>
    fold apply_fed_call cs (local_grids st) = (local_grids st)((target_namespace fed, name) :=
      (if om_DeletionTimestamp (fd_Meta fed) = None \<and> list_ex (has_key (dv_GridUniqKey (fd_Spec fed))) nodes
       then Some (kept_grid (fed_deployments eq) fed (local_grids st (target_namespace fed, name))) else None))"
proof (cases "om_DeletionTimestamp (fd_Meta fed) = None")
  case False
  then have "syncFedDeploymentGrid eq env key st = delete_fed env ns name fed st"
    using assms(1) by (simp add: syncFedDeploymentGrid_def sync_fed_def fed_found_def)
  then show ?thesis using delete_fed_calls [OF assms(2), of ns name fed st] False by auto
next
  case True
  let ?on = "list_ex (has_key (dv_GridUniqKey (fd_Spec fed))) nodes"
  have n: "om_Name (fd_Meta fed) = name" using assms(1) by (simp add: fed_found_def)
  obtain cs st1 where first:
    "(if ?on then keep_local (fed_deployments eq) env ns name fed st else drop_local env name fed st) = ([], st1)" "fds_log st1 = fds_log st @ cs"
    "fold apply_fed_call cs (local_grids st) = (local_grids st)((target_namespace fed, name) :=
      (if ?on then Some (kept_grid (fed_deployments eq) fed (local_grids st (target_namespace fed, name))) else None))"
    "\<forall>e. fds_local st1 (target_namespace fed) name = Inl e \<longrightarrow> e = ENotFound"
    using keep_local_calls [OF assms(2,3) n, of "fed_deployments eq" ns] drop_local_calls [OF assms(2,3)] by (cases ?on) auto
  obtain cs' where status: "fst (syncFedStatus eq env fed st1) = []" "fds_log (snd (syncFedStatus eq env fed st1)) = fds_log st1 @ cs'"
    "\<And>S. fold apply_fed_call cs' S = S"
    using syncFedStatus_calls [of env st1 fed eq, OF assms(2)] first(4) n by auto
  have "UniqKey (fed_deployments eq) = dv_GridUniqKey" "finish (fed_deployments eq) = syncFedStatus eq" by (simp_all add: fed_deployments_def)
  then have "syncFedDeploymentGrid eq env key st = syncFedStatus eq env fed st1"
    using first(1) by (simp add: syncFedDeploymentGrid_def sync_fed_found [OF assms(1) True])
  then have "syncFedDeploymentGrid eq env key st = ([], snd (syncFedStatus eq env fed st1))" using status(1) by (metis prod.collapse)
  moreover have "fds_log (snd (syncFedStatus eq env fed st1)) = fds_log st @ (cs @ cs')" using first(2) status(2) by simp
  moreover have "fold apply_fed_call (cs @ cs') (local_grids st) = fold apply_fed_call cs (local_grids st)" using status(3) by simp
  ultimately show ?thesis using True first(3) by auto
qed

section \<open>Examples\<close>

definition sample_fed :: "'s \<Rightarrow> 't \<Rightarrow> int option \<Rightarrow> ('s, 't) fed_grid" where
  "sample_fed s t del = \<lparr>fd_Meta = zero_object_meta\<lparr>om_Name := ''g'', om_Namespace := ''cluster-a'', om_Labels := Some [(FedTargetNameSpace, ''ns'')],
     om_DeletionTimestamp := del\<rparr>, fd_Finalizers = [''dis''], fd_Spec = s, fd_Status = t\<rparr>"

definition sample_fed_env :: "('s, 't) fed_grid \<Rightarrow> object_meta list \<Rightarrow> (nat \<Rightarrow> ('s, 't) fed_call \<Rightarrow> apierr option) \<Rightarrow> ('s, 't) fed_env" where
  "sample_fed_env fed nodes answer = \<lparr>fed_namespace = ''cluster-a'', fed_SplitKey = (\<lambda>k. Inr (''cluster-a'', k)), fed_KeyFunc = (\<lambda>ns n. Inr n),
     fed_Get = (\<lambda>ns n. Inr fed), fed_List = Inr [fed], fed_nodes = Inr nodes, fed_respond = answer\<rparr>"

definition sample_fed_state :: "apierr + ('s, 't) fed_grid \<Rightarrow> ('s, 't) fed_state" where
  "sample_fed_state g = \<lparr>fds_local = (\<lambda>ns n. if ns = ''ns'' \<and> n = ''g'' then g else Inl ENotFound), fds_log = [], fds_events = []\<rparr>"

definition sample_service_value :: "string \<Rightarrow> service_grid_spec" where
  "sample_service_value ip = (''zone'', \<lparr>xs_Ports = [], xs_Selector = None, xs_ClusterIP = ip, xs_Type = '''', xs_Rest = []\<rparr>)"

lemma sample_fed_target [simp]: "target_namespace (sample_fed s t del) = ''ns''"
  by (simp add: target_namespace_def sample_fed_def)

definition sample_fed_service :: "string \<Rightarrow> (service_grid_spec, (string \<times> string) list) fed_grid" where
  "sample_fed_service ip = sample_fed (sample_service_value ip) [] None"

theorem failed_update_lost_witness:
  "\<exists>st1. syncFedServiceGrid (sample_fed_env (sample_fed_service ''b'') [sample_node_meta ''1'' ''x''] (\<lambda>n c. Some EConflict)) ''g''
       (sample_fed_state (Inr (sample_fed_service ''a''))) = ([EConflict], st1) \<and>
     syncFedServiceGrid (sample_fed_env (sample_fed_service ''b'') [sample_node_meta ''1'' ''x''] (\<lambda>n c. Some EConflict)) ''g'' st1 = ([], st1)"
proof -
  let ?fed = "sample_fed_service ''b''" and ?old = "sample_fed_service ''a''" and ?nodes = "[sample_node_meta ''1'' ''x'']"
  let ?env = "sample_fed_env ?fed ?nodes (\<lambda>n c. Some EConflict)" and ?st = "sample_fed_state (Inr ?old)"
  have spec: "fd_Spec (sample_fed_service ip) = sample_service_value ip" for ip by (simp add: sample_fed_service_def sample_fed_def)
  have 1: "fed_found fed_services ?env ''g'' (''cluster-a'', ''g'') ?fed ?nodes"
    by (simp add: fed_found_def sample_fed_env_def fed_services_def sample_fed_service_def sample_fed_def sample_service_value_def)
  have 2: "\<not> copies_contain (reflect_service_value (fd_Spec ?old)) (reflect_service_value (fd_Spec ?fed))"
    unfolding spec by (simp add: sample_service_value_def copies_contain_def reflect_service_value_def DeepContains_def deepValueContains.simps visit_key_def
        compareOrTrue_def Let_def)
  have "\<exists>st1. syncFedServiceGrid ?env ''g'' ?st = ([EConflict], st1) \<and> fds_log st1 = fds_log ?st @ [LocalUpdate (?old\<lparr>fd_Spec := fd_Spec ?fed\<rparr>)] \<and>
    syncFedServiceGrid ?env ''g'' st1 = ([], st1)"
  proof (rule failed_update_lost [OF 1 _ _ _ 2])
    show "plain (reflect_service_value (fd_Spec ?fed))" unfolding spec by (simp add: reflect_service_value_def sample_service_value_def)
  qed (simp_all add: sample_fed_service_def sample_fed_def sample_service_value_def sample_fed_state_def sample_fed_env_def has_key_def sample_node_meta_def
      target_namespace_def FedTargetNameSpace_def)
  then show ?thesis by blast
qed

definition sample_dgrid_value :: dgrid_spec_value where
  "sample_dgrid_value = \<lparr>dv_GridUniqKey = ''zone'', dv_Template = \<lparr>sv_Replicas = None, sv_Labels = None, sv_NodeSelector = None, sv_PodRest = [], sv_Rest = []\<rparr>,
     dv_Pool = [], dv_Templates = None, dv_Default = '''', dv_AutoDelete = False\<rparr>"

definition sample_fed_deployment :: "int option \<Rightarrow> (dgrid_spec_value, (string, workload_status) gomap) fed_grid" where
  "sample_fed_deployment del = sample_fed sample_dgrid_value [] del"

theorem finalizer_stays_witness:
  "fst (syncFedDeploymentGrid (=) (sample_fed_env (sample_fed_deployment (Some 1)) [] (\<lambda>n c. if n = 0 then None else Some EConflict)) ''g''
      (sample_fed_state (Inr (sample_fed_deployment None)))) \<noteq> [] \<and>
   syncFedDeploymentGrid (=) (sample_fed_env (sample_fed_deployment (Some 1)) [] (\<lambda>n c. if n = 0 then None else Some EConflict)) ''g''
      (sample_fed_state (Inl ENotFound)) = ([], sample_fed_state (Inl ENotFound))"
proof -
  let ?env = "sample_fed_env (sample_fed_deployment (Some 1)) [] (\<lambda>n c. if n = 0 then None else Some EConflict)"
  have "\<exists>errs st1. syncFedDeploymentGrid (=) ?env ''g'' (sample_fed_state (Inr (sample_fed_deployment None))) = (errs, st1) \<and> errs \<noteq> [] \<and>
    fds_log st1 = fds_log (sample_fed_state (Inr (sample_fed_deployment None))) @
      [LocalDelete (target_namespace (sample_fed_deployment (Some 1))) ''g'', ParentFinalizers ''cluster-a'' ''g'' []] \<and>
    (\<forall>st2. fds_local st2 (target_namespace (sample_fed_deployment (Some 1))) ''g'' = Inl ENotFound \<longrightarrow> syncFedDeploymentGrid (=) ?env ''g'' st2 = ([], st2))"
    by (rule finalizer_stays [where existed = "sample_fed_deployment None" and e = EConflict])
      (simp_all add: sample_fed_env_def sample_fed_deployment_def sample_fed_state_def sample_fed_def target_namespace_def FedTargetNameSpace_def)
  then show ?thesis by (auto simp: sample_fed_deployment_def sample_fed_state_def)
qed

theorem local_grid_follows_nodes_witness:
  "\<exists>st' cs. syncFedDeploymentGrid (=) (sample_fed_env (sample_fed_deployment None) [sample_node_meta ''1'' ''x''] (\<lambda>n c. None)) ''g''
      (sample_fed_state (Inl ENotFound)) = ([], st') \<and> fds_log st' = cs \<and>
      fold apply_fed_call cs Map.empty = [(''ns'', ''g'') \<mapsto> local_copy (sample_fed_deployment None)]"
proof -
  let ?fed = "sample_fed_deployment None" and ?nodes = "[sample_node_meta ''1'' ''x'']" 
    and ?st = "sample_fed_state (Inl ENotFound) :: (dgrid_spec_value, (string, workload_status) gomap) fed_state"
  let ?env = "sample_fed_env ?fed ?nodes (\<lambda>n c. None)"
  have found: "fed_found (fed_deployments (=)) ?env ''g'' (''cluster-a'', ''g'') ?fed ?nodes"
    by (simp add: fed_found_def sample_fed_env_def fed_deployments_def sample_fed_deployment_def sample_fed_def sample_dgrid_value_def)
  have facts: "local_grids ?st = Map.empty" "fds_log ?st = []" "target_namespace ?fed = ''ns''" "om_DeletionTimestamp (fd_Meta ?fed) = None"
    "list_ex (has_key (dv_GridUniqKey (fd_Spec ?fed))) ?nodes"
    by (simp_all add: local_grids_def fun_eq_iff sample_fed_state_def sample_fed_deployment_def sample_fed_def has_key_def sample_node_meta_def
        sample_dgrid_value_def target_namespace_def FedTargetNameSpace_def)
  have "fed_respond ?env n c = None" for n c by (simp add: sample_fed_env_def)
  moreover have "cached_as ?st (target_namespace ?fed) ''g''" by (simp add: cached_as_def sample_fed_state_def)
  ultimately show ?thesis using local_grid_follows_nodes [OF found, of ?st] using facts by (simp add: kept_grid_def cong: if_cong)
qed

end
