(* ===== verification/LiteStorage.thy ===== *)
theory LiteStorage
  imports GoStrings
begin

text \<open>
  The storage of lite-apiserver (\<open>src/pkg/lite-apiserver/storage\<close>): the interface, the storage in memory and the one in files, and the key
  functions of the storages on top of a database. Bytes are a \<open>string\<close>.
\<close>

type_synonym bytes = string

section \<open>The interface\<close>

text \<open>
  The operations of \<open>Storage\<close> on a state of type \<open>'s\<close>; a load may panic.
\<close>

record 's storage_ops =
  StoreOne :: "string \<Rightarrow> bytes \<Rightarrow> 's \<Rightarrow> go_error option \<times> 's"
  StoreList :: "string \<Rightarrow> bytes \<Rightarrow> 's \<Rightarrow> go_error option \<times> 's"
  LoadOne :: "string \<Rightarrow> 's \<Rightarrow> (go_error + bytes) go"
  LoadList :: "string \<Rightarrow> 's \<Rightarrow> (go_error + bytes) go"

text \<open>
  What the cache relies on, for the keys that are in use: a value that was stored is loaded, a failed write changes nothing that can be
  loaded, and a write changes only what is at the same place. The places of single objects and of lists depend on the storage.
\<close>

locale storage =
  fixes ops :: "'s storage_ops" and valid :: "string \<Rightarrow> bool" and one_place list_place :: "string \<Rightarrow> 'p"
  assumes store_one: "valid k \<Longrightarrow> valid k' \<Longrightarrow> StoreOne ops k d s = (err, s') \<Longrightarrow>
      LoadOne ops k' s' = (if err = None \<and> one_place k' = one_place k then Ret (Inr d) else LoadOne ops k' s)"
    and store_one_list: "valid k \<Longrightarrow> valid k' \<Longrightarrow> StoreOne ops k d s = (err, s') \<Longrightarrow>
      LoadList ops k' s' = (if err = None \<and> list_place k' = one_place k then Ret (Inr d) else LoadList ops k' s)"
    and store_list: "valid k \<Longrightarrow> valid k' \<Longrightarrow> StoreList ops k d s = (err, s') \<Longrightarrow>
      LoadList ops k' s' = (if err = None \<and> list_place k' = list_place k then Ret (Inr d) else LoadList ops k' s)"
    and store_list_one: "valid k \<Longrightarrow> valid k' \<Longrightarrow> StoreList ops k d s = (err, s') \<Longrightarrow>
      LoadOne ops k' s' = (if err = None \<and> one_place k' = list_place k then Ret (Inr d) else LoadOne ops k' s)"

section \<open>Memory\<close>

record memoryStorage =
  oneMap :: "(string, bytes) gomap"
  listMap :: "(string, bytes) gomap"

definition NewMemoryStorage :: memoryStorage where
  "NewMemoryStorage = \<lparr>oneMap = [], listMap = []\<rparr>"

definition memory_StoreOne :: "string \<Rightarrow> bytes \<Rightarrow> memoryStorage \<Rightarrow> go_error option \<times> memoryStorage" where
  "memory_StoreOne key cache ms = (None, ms\<lparr>oneMap := mput key cache (oneMap ms)\<rparr>)"

definition memory_StoreList :: "string \<Rightarrow> bytes \<Rightarrow> memoryStorage \<Rightarrow> go_error option \<times> memoryStorage" where
  "memory_StoreList key cache ms = (None, ms\<lparr>listMap := mput key cache (listMap ms)\<rparr>)"

definition memory_LoadOne :: "string \<Rightarrow> memoryStorage \<Rightarrow> (go_error + bytes) go" where
  "memory_LoadOne key ms = Ret (case mget (oneMap ms) key of Some c \<Rightarrow> Inr c | None \<Rightarrow> Inl ''key %s not found'')"

definition memory_LoadList :: "string \<Rightarrow> memoryStorage \<Rightarrow> (go_error + bytes) go" where
  "memory_LoadList key ms = Ret (case mget (listMap ms) key of Some c \<Rightarrow> Inr c | None \<Rightarrow> Inl ''key %s not found'')"

definition memory_ops :: "memoryStorage storage_ops" where
  "memory_ops = \<lparr>StoreOne = memory_StoreOne, StoreList = memory_StoreList, LoadOne = memory_LoadOne, LoadList = memory_LoadList\<rparr>"

interpretation memory: storage memory_ops "\<lambda>k. True" "\<lambda>k. (False, k)" "\<lambda>k. (True, k)"
  by unfold_locales
    (auto simp: memory_ops_def memory_StoreOne_def memory_StoreList_def memory_LoadOne_def memory_LoadList_def mget_mput)

section \<open>Files\<close>

text \<open>
  The files of the directory \<open>filePath\<close>, and how many random numbers have been drawn.
\<close>

record fileStorage =
  files :: "(string, bytes) gomap"
  drawn :: nat

text \<open>
  What a run meets: the random numbers, and the outcome of the steps of a write: creation, the number of bytes written before an error, renaming.
\<close>

record file_env =
  random :: "nat \<Rightarrow> nat"
  create_error :: "string \<Rightarrow> go_error option"
  write_error :: "string \<Rightarrow> (nat \<times> go_error) option"
  rename_error :: "string \<Rightarrow> go_error option"

definition replace_slash :: "string \<Rightarrow> string" where
  "replace_slash s = map (\<lambda>c. if c = CHR ''/'' then CHR ''_'' else c) s"

definition oneFileName :: "string \<Rightarrow> string" where
  "oneFileName key = replace_slash key"

definition listFileName :: "string \<Rightarrow> string" where
  "listFileName key = replace_slash (key @ ''_'' @ ''list'')"

definition salt_alphabet :: string where
  "salt_alphabet = ''0123456789abcdefghijklmnopqrstuvwxyz''"

definition randomString :: "file_env \<Rightarrow> nat \<Rightarrow> fileStorage \<Rightarrow> string \<times> fileStorage" where
  "randomString env l fs =
     (map (\<lambda>i. salt_alphabet ! (random env (drawn fs + i) mod length salt_alphabet)) [0..<l], fs\<lparr>drawn := drawn fs + l\<rparr>)"

definition writeFile :: "file_env \<Rightarrow> string \<Rightarrow> bytes \<Rightarrow> fileStorage \<Rightarrow> go_error option \<times> fileStorage" where
  "writeFile env fileName data fs =
     (let (salt, fs1) = randomString env 12 fs;
          tmpFileName = fileName @ ''_'' @ salt
      in case create_error env tmpFileName of
           Some err \<Rightarrow> (Some err, fs1)
         | None \<Rightarrow>
             (case write_error env tmpFileName of
                Some (n, err) \<Rightarrow> (Some err, fs1\<lparr>files := mput tmpFileName (take n data) (files fs1)\<rparr>)
              | None \<Rightarrow>
                  let fs2 = fs1\<lparr>files := mput tmpFileName data (files fs1)\<rparr>
                  in case rename_error env tmpFileName of
                       Some err \<Rightarrow> (Some err, fs2)
                     | None \<Rightarrow> (None, fs2\<lparr>files := mput fileName data (mdel tmpFileName (files fs2))\<rparr>)))"

definition readFile :: "string \<Rightarrow> fileStorage \<Rightarrow> go_error + bytes" where
  "readFile fileName fs = (case mget (files fs) fileName of None \<Rightarrow> Inl ''no such file'' | Some data \<Rightarrow> Inr data)"

definition file_StoreOne :: "file_env \<Rightarrow> string \<Rightarrow> bytes \<Rightarrow> fileStorage \<Rightarrow> go_error option \<times> fileStorage" where
  "file_StoreOne env key data fs = writeFile env (oneFileName key) data fs"

definition file_StoreList :: "file_env \<Rightarrow> string \<Rightarrow> bytes \<Rightarrow> fileStorage \<Rightarrow> go_error option \<times> fileStorage" where
  "file_StoreList env key data fs = writeFile env (listFileName key) data fs"

definition file_LoadOne :: "string \<Rightarrow> fileStorage \<Rightarrow> (go_error + bytes) go" where
  "file_LoadOne key fs = Ret (readFile (oneFileName key) fs)"

definition file_LoadList :: "string \<Rightarrow> fileStorage \<Rightarrow> (go_error + bytes) go" where
  "file_LoadList key fs = Ret (readFile (listFileName key) fs)"

definition file_ops :: "file_env \<Rightarrow> fileStorage storage_ops" where
  "file_ops env = \<lparr>StoreOne = file_StoreOne env, StoreList = file_StoreList env, LoadOne = file_LoadOne, LoadList = file_LoadList\<rparr>"

text \<open>The name of a temporary file: a name, an underscore and twelve characters.\<close>

definition salted :: "string \<Rightarrow> bool" where
  "salted name \<longleftrightarrow> length name > 12 \<and> name ! (length name - 13) = CHR ''_'' \<and>
     list_all (\<lambda>c. c \<in> set salt_alphabet) (drop (length name - 12) name)"

definition file_key :: "string \<Rightarrow> bool" where
  "file_key key \<longleftrightarrow> \<not> salted (oneFileName key)"

lemma salted_tmp:
  assumes "randomString env 12 fs = (salt, fs1)"
  shows "salted (name @ ''_'' @ salt)"
proof -
  have "c \<in> set salt_alphabet" if "c \<in> set salt" for c
  proof -
    have "salt_alphabet ! (n mod length salt_alphabet) \<in> set salt_alphabet" for n
      by (rule nth_mem) (simp add: salt_alphabet_def)
    then show ?thesis using that assms by (auto simp: randomString_def)
  qed
  moreover have "length salt = 12" using assms by (auto simp: randomString_def)
  ultimately show ?thesis by (simp add: salted_def list_all_iff nth_append)
qed

lemma list_not_salted: "\<not> salted (listFileName key)"
proof -
  have name: "listFileName key = replace_slash key @ ''_list''" by (simp add: listFileName_def replace_slash_def)
  show ?thesis
  proof
    assume "salted (listFileName key)"
    then have len: "length (replace_slash key) \<ge> 8" and all: "list_all (\<lambda>c. c \<in> set salt_alphabet) (drop (length (replace_slash key) - 7) (replace_slash key) @ ''_list'')"
      by (auto simp: salted_def name)
    show False using all by (simp add: list_all_iff salt_alphabet_def)
  qed
qed

lemma writeFile_read:
  assumes "writeFile env name data fs = (err, fs')" "\<not> salted n"
  shows "readFile n fs' = (if err = None \<and> n = name then Inr data else readFile n fs)"
proof -
  obtain salt fs1 where s: "randomString env 12 fs = (salt, fs1)" by fastforce
  have "n \<noteq> name @ ''_'' @ salt" using salted_tmp [OF s] assms(2) by auto
  moreover have "files fs1 = files fs" using s by (auto simp: randomString_def)
  ultimately have "mget (files fs') n = (if err = None \<and> n = name then Some data else mget (files fs) n)"
    using assms(1) by (auto simp: writeFile_def s mget_mput mget_mdel Let_def split: option.splits)
  then show ?thesis by (simp add: readFile_def)
qed

lemmas file_defs = file_ops_def file_StoreOne_def file_StoreList_def file_LoadOne_def file_LoadList_def file_key_def

interpretation filesys: storage "file_ops env" file_key oneFileName listFileName for env
proof unfold_locales
  fix k d and s :: fileStorage and err s' k' assume "file_key k'" "StoreOne (file_ops env) k d s = (err, s')"
  then show "LoadOne (file_ops env) k' s' = (if err = None \<and> oneFileName k' = oneFileName k then Ret (Inr d) else LoadOne (file_ops env) k' s)"
    using writeFile_read [of env "oneFileName k" d s err s' "oneFileName k'"] by (auto simp: file_defs)
next
  fix k d and s :: fileStorage and err s' k' assume "file_key k'" "StoreOne (file_ops env) k d s = (err, s')"
  then show "LoadList (file_ops env) k' s' = (if err = None \<and> listFileName k' = oneFileName k then Ret (Inr d) else LoadList (file_ops env) k' s)"
    using writeFile_read [of env "oneFileName k" d s err s' "listFileName k'"] by (auto simp: file_defs list_not_salted)
next
  fix k d and s :: fileStorage and err s' k' assume "file_key k'" "StoreList (file_ops env) k d s = (err, s')"
  then show "LoadList (file_ops env) k' s' = (if err = None \<and> listFileName k' = listFileName k then Ret (Inr d) else LoadList (file_ops env) k' s)"
    using writeFile_read [of env "listFileName k" d s err s' "listFileName k'"] by (auto simp: file_defs list_not_salted)
next
  fix k d and s :: fileStorage and err s' k' assume "file_key k'" "StoreList (file_ops env) k d s = (err, s')"
  then show "LoadOne (file_ops env) k' s' = (if err = None \<and> oneFileName k' = listFileName k then Ret (Inr d) else LoadOne (file_ops env) k' s)"
    using writeFile_read [of env "listFileName k" d s err s' "oneFileName k'"] by (auto simp: file_defs)
qed

section \<open>Databases\<close>

text \<open>
  The storages on bolt, badger and pebble. The database is an argument: reading a key gives an error, or nil, or data together with the
  error of releasing them.
\<close>

record 'd database =
  db_Get :: "string \<Rightarrow> 'd \<Rightarrow> go_error + (bytes \<times> go_error option) option"
  db_Set :: "string \<Rightarrow> bytes \<Rightarrow> 'd \<Rightarrow> go_error option \<times> 'd"
  db_Delete :: "string \<Rightarrow> 'd \<Rightarrow> go_error option \<times> 'd"

definition oneKey :: "string \<Rightarrow> string" where "oneKey key = replace_slash key"
definition listKey :: "string \<Rightarrow> string" where "listKey key = replace_slash (key @ ''_'' @ ''list'')"

definition bolt_get :: "'d database \<Rightarrow> string \<Rightarrow> 'd \<Rightarrow> (go_error + bytes) go" where
  "bolt_get db key d =
     Ret (case db_Get db key d of
        Inl err \<Rightarrow> Inl err
      | Inr None \<Rightarrow> Inl ''no data for %s''
      | Inr (Some (data, _)) \<Rightarrow> Inr data)"

definition bolt_ops :: "'d database \<Rightarrow> 'd storage_ops" where
  "bolt_ops db = \<lparr>StoreOne = (\<lambda>key. db_Set db (oneKey key)), StoreList = (\<lambda>key. db_Set db (listKey key)),
     LoadOne = (\<lambda>key. bolt_get db (oneKey key)), LoadList = (\<lambda>key. bolt_get db (listKey key))\<rparr>"

text \<open>\<open>get\<close> applies \<open>oneKey\<close> once more; a missing key is an error of badger.\<close>

definition badger_get :: "'d database \<Rightarrow> string \<Rightarrow> 'd \<Rightarrow> (go_error + bytes) go" where
  "badger_get db key d =
     Ret (case db_Get db (oneKey key) d of
        Inl err \<Rightarrow> Inl err
      | Inr None \<Rightarrow> Inl ''Key not found''
      | Inr (Some (data, err)) \<Rightarrow> (case err of Some e \<Rightarrow> Inl e | None \<Rightarrow> Inr data))"

definition badger_ops :: "'d database \<Rightarrow> 'd storage_ops" where
  "badger_ops db = \<lparr>StoreOne = (\<lambda>key. db_Set db (oneKey key)), StoreList = (\<lambda>key. db_Set db (listKey key)),
     LoadOne = (\<lambda>key. badger_get db (oneKey key)), LoadList = (\<lambda>key. badger_get db (listKey key))\<rparr>"

definition pebble_LoadOne :: "'d database \<Rightarrow> string \<Rightarrow> 'd \<Rightarrow> (go_error + bytes) go" where
  "pebble_LoadOne db key d =
     Ret (case db_Get db key d of
        Inl err \<Rightarrow> Inl err
      | Inr None \<Rightarrow> Inl ''pebble: not found''
      | Inr (Some (data, err)) \<Rightarrow> (case err of Some e \<Rightarrow> Inl e | None \<Rightarrow> Inr data))"

text \<open>The error of the lookup is only logged, and the closer, nil then, is called.\<close>

definition pebble_LoadList :: "'d database \<Rightarrow> string \<Rightarrow> 'd \<Rightarrow> (go_error + bytes) go" where
  "pebble_LoadList db key d =
     (case db_Get db (listKey key) d of
        Inr (Some (data, err)) \<Rightarrow> Ret (case err of Some e \<Rightarrow> Inl e | None \<Rightarrow> Inr data)
      | _ \<Rightarrow> Panic)"

definition pebble_ops :: "'d database \<Rightarrow> 'd storage_ops" where
  "pebble_ops db = \<lparr>StoreOne = db_Set db, StoreList = (\<lambda>key. db_Set db (listKey key)),
     LoadOne = pebble_LoadOne db, LoadList = pebble_LoadList db\<rparr>"

definition pebble_Delete :: "'d database \<Rightarrow> string \<Rightarrow> 'd \<Rightarrow> go_error option \<times> 'd" where
  "pebble_Delete db key d = db_Delete db key d"

lemma replace_slash_idem [simp]: "replace_slash (replace_slash s) = replace_slash s"
  by (simp add: replace_slash_def comp_def if_distrib cong: if_cong)

text \<open>Reading a list that is not in the pebble database panics, where the other storages return an error.\<close>

lemma pebble_LoadList_panics:
  assumes "db_Get db (listKey key) d = Inl err"
  shows "LoadList (pebble_ops db) key d = Panic" "LoadList (bolt_ops db) key d = Ret (Inl err)"
  using assms by (simp_all add: pebble_ops_def pebble_LoadList_def bolt_ops_def bolt_get_def)

end
