(* ===== verification/LiteCache.thy ===== *)
theory LiteCache
  imports LiteStorage KubeMeta
begin

text \<open>
  The cache of lite-apiserver (\<open>src/pkg/lite-apiserver/cache\<close>): which responses are stored under which key, how the events of a
  watch are merged into a stored list, and what is answered from the cache.

  The encodings are arguments (\<open>codec\<close>): the JSON of a stored response, the decoding and encoding of lists, gzip. An object of a
  list is its metadata, as \<open>meta.Accessor\<close> reads it (\<open>None\<close> is an error of the accessor), and its contents.
\<close>

section \<open>Responses\<close>

type_synonym header = "(string, string list) gomap"

record EdgeCache =
  StatusCode :: int
  Header :: header
  Body :: bytes

definition header_get :: "header \<Rightarrow> string \<Rightarrow> string" where
  "header_get h k = (case mget h k of Some (v # vs) \<Rightarrow> v | _ \<Rightarrow> '''')"

definition NewEdgeCache :: "int \<Rightarrow> header \<Rightarrow> bytes \<Rightarrow> EdgeCache" where
  "NewEdgeCache statusCode header body = \<lparr>StatusCode = statusCode, Header = header, Body = body\<rparr>"

definition NewDefaultEdgeCache :: EdgeCache where
  "NewDefaultEdgeCache = \<lparr>StatusCode = 200, Header = [(''Content-Type'', [''application/json''])], Body = ''''\<rparr>"

section \<open>Objects and lists\<close>

record uobj =
  uo_Kind :: "string option"
  uo_Namespace :: "string option"
  uo_Name :: "string option"
  uo_ResourceVersion :: "string option"
  uo_Contents :: string

record list_object =
  lo_Items :: "uobj list"
  lo_ResourceVersion :: string
  lo_Contents :: string

record codec =
  MarshalEdgeCache :: "EdgeCache \<Rightarrow> go_error + bytes"
  UnmarshalEdgeCache :: "bytes \<Rightarrow> go_error + EdgeCache"
  decode_list :: "bytes \<Rightarrow> go_error + list_object"
  encode_list :: "list_object \<Rightarrow> go_error + bytes"
  ExtractList :: "list_object \<Rightarrow> go_error + uobj list"
  SetList :: "list_object \<Rightarrow> uobj list \<Rightarrow> go_error + list_object"
  SetResourceVersion :: "list_object \<Rightarrow> string \<Rightarrow> go_error + list_object"
  gzipEncode :: "bytes \<Rightarrow> go_error + bytes"
  gzipDecode :: "bytes \<Rightarrow> go_error + bytes"

definition sameObj :: "uobj \<Rightarrow> uobj \<Rightarrow> bool" where
  "sameObj obj1 obj2 =
     (case (uo_Kind obj1, uo_Kind obj2, uo_Namespace obj1, uo_Namespace obj2, uo_Name obj1, uo_Name obj2) of
        (Some kind1, Some kind2, Some ns1, Some ns2, Some name1, Some name2) \<Rightarrow> kind1 = kind2 \<and> ns1 = ns2 \<and> name1 = name2
      | _ \<Rightarrow> False)"

definition newVersion :: "uobj \<Rightarrow> uobj \<Rightarrow> bool" where
  "newVersion newOne oldOne =
     (case (uo_ResourceVersion newOne, uo_ResourceVersion oldOne) of
        (Some newRvStr, Some oldRvStr) \<Rightarrow> Atoi newRvStr > Atoi oldRvStr
      | _ \<Rightarrow> False)"

section \<open>Watch events\<close>

datatype watch_event = Added | Modified | Deleted | Bookmark | Error

text \<open>The first item that is the object and older is replaced.\<close>

fun replace_first :: "uobj \<Rightarrow> uobj list \<Rightarrow> uobj list option" where
  "replace_first obj [] = None"
| "replace_first obj (item # items) =
     (if sameObj obj item \<and> newVersion obj item then Some (obj # items)
      else map_option (\<lambda>r. item # r) (replace_first obj items))"

text \<open>The items after an event, if it updates them.\<close>

fun update_items :: "watch_event \<Rightarrow> uobj \<Rightarrow> uobj list \<Rightarrow> uobj list option" where
  "update_items Added obj items = Some (items @ [obj])"
| "update_items Modified obj items = replace_first obj items"
| "update_items Deleted obj items = Some (filter (\<lambda>item. \<not> sameObj obj item) items)"
| "update_items _ obj items = None"

text \<open>
  One event: \<open>Inl\<close> is the error that ends the watch. A resource version that cannot be set is only logged.
\<close>

definition watch_step :: "codec \<Rightarrow> 's storage_ops \<Rightarrow> string \<Rightarrow> watch_event \<Rightarrow> uobj \<Rightarrow> 's \<Rightarrow> ((go_error + unit) \<times> 's) go" where
  "watch_step codec ops key eventType obj s =
     (if eventType = Bookmark \<or> eventType = Error then Ret (Inr (), s)
      else go_bind (LoadList ops key s) (\<lambda>loaded.
        case loaded of
          Inl err \<Rightarrow> Ret (Inr (), s)
        | Inr listData \<Rightarrow>
        case UnmarshalEdgeCache codec listData of
          Inl err \<Rightarrow> Ret (Inl err, s)
        | Inr listCache \<Rightarrow>
        case decode_list codec (Body listCache) of
          Inl err \<Rightarrow> Ret (Inr (), s)
        | Inr listObj \<Rightarrow>
        case ExtractList codec listObj of
          Inl err \<Rightarrow> Ret (Inr (), s)
        | Inr items \<Rightarrow>
        case update_items eventType obj items of
          None \<Rightarrow> Ret (Inr (), s)
        | Some items' \<Rightarrow>
        case SetList codec listObj items' of
          Inl err \<Rightarrow> Ret (Inl err, s)
        | Inr listObj1 \<Rightarrow>
            let rv = (case uo_ResourceVersion obj of Some v \<Rightarrow> v | None \<Rightarrow> '''');
                listObj2 = (case SetResourceVersion codec listObj1 rv of Inl err \<Rightarrow> listObj1 | Inr l \<Rightarrow> l)
            in case encode_list codec listObj2 of
                 Inl err \<Rightarrow> Ret (Inl err, s)
               | Inr buffer \<Rightarrow>
               case MarshalEdgeCache codec (listCache\<lparr>Body := buffer\<rparr>) of
                 Inl err \<Rightarrow> Ret (Inl err, s)
               | Inr data \<Rightarrow>
                   (case StoreList ops key data s of
                      (Some err, s1) \<Rightarrow> Ret (Inl err, s1)
                    | (None, s1) \<Rightarrow> Ret (Inr (), s1))))"

text \<open>The events that the decoder delivers before it fails with \<open>fin\<close>.\<close>

fun cacheWatch :: "codec \<Rightarrow> 's storage_ops \<Rightarrow> string \<Rightarrow> (watch_event \<times> uobj) list \<Rightarrow> go_error \<Rightarrow> 's \<Rightarrow> (go_error \<times> 's) go" where
  "cacheWatch codec ops key [] fin s = Ret (fin, s)"
| "cacheWatch codec ops key ((eventType, obj) # events) fin s =
     go_bind (watch_step codec ops key eventType obj s) (\<lambda>(r, s1).
       case r of Inl err \<Rightarrow> Ret (err, s1) | Inr _ \<Rightarrow> cacheWatch codec ops key events fin s1)"

section \<open>Storing\<close>

definition store_response :: "codec \<Rightarrow> (bytes \<Rightarrow> 's \<Rightarrow> go_error option \<times> 's) \<Rightarrow> EdgeCache \<Rightarrow> 's \<Rightarrow> go_error option \<times> 's" where
  "store_response codec store cache s =
     (case MarshalEdgeCache codec cache of Inl err \<Rightarrow> (Some err, s) | Inr data \<Rightarrow> store data s)"

definition cacheGet :: "codec \<Rightarrow> 's storage_ops \<Rightarrow> string \<Rightarrow> int \<Rightarrow> header \<Rightarrow> bytes \<Rightarrow> 's \<Rightarrow> go_error option \<times> 's" where
  "cacheGet codec ops key code header body s = store_response codec (StoreOne ops key) (NewEdgeCache code header body) s"

definition cacheList :: "codec \<Rightarrow> 's storage_ops \<Rightarrow> string \<Rightarrow> int \<Rightarrow> header \<Rightarrow> bytes \<Rightarrow> 's \<Rightarrow> go_error option \<times> 's" where
  "cacheList codec ops key code header body s =
     (if header_get header ''Content-Encoding'' = ''gzip'' then
        (case gzipDecode codec body of
           Inl err \<Rightarrow> (Some err, s)
         | Inr body \<Rightarrow> store_response codec (StoreList ops key) (NewEdgeCache code (mdel ''Content-Encoding'' header) body) s)
      else store_response codec (StoreList ops key) (NewEdgeCache code header body) s)"

text \<open>
  The body of a response, as it is read: all its bytes or an error of reading them, and the events that the watch decoder
  finds in it with the error that ends them.
\<close>

record resp_body =
  rb_bytes :: "go_error + bytes"
  rb_events :: "(watch_event \<times> uobj) list"
  rb_end :: go_error

definition handleCache :: "codec \<Rightarrow> 's storage_ops \<Rightarrow> string \<Rightarrow> string \<Rightarrow> int \<Rightarrow> header \<Rightarrow> resp_body \<Rightarrow> 's \<Rightarrow> (go_error option \<times> 's) go" where
  "handleCache codec ops key verb statusCode header body s =
     (if verb = ''watch'' then go_bind (cacheWatch codec ops key (rb_events body) (rb_end body) s) (\<lambda>(err, s1). Ret (Some err, s1))
      else case rb_bytes body of
        Inl err \<Rightarrow> Ret (Some err, s)
      | Inr buf \<Rightarrow>
          let header = mdel ''Content-Length'' header in
          if verb = ''list'' then Ret (cacheList codec ops key statusCode header buf s)
          else if verb = ''get'' then Ret (cacheGet codec ops key statusCode header buf s)
          else Ret (None, s))"

section \<open>Keys\<close>

record RequestInfo =
  IsResourceRequest :: bool
  ri_Path :: string
  Verb :: string
  ri_Namespace :: string
  Resource :: string
  ri_Name :: string
  Subresource :: string

definition cacheKey :: "string \<Rightarrow> RequestInfo \<Rightarrow> string" where
  "cacheKey userAgent info =
     Join (if IsResourceRequest info then [userAgent, ri_Namespace info, Resource info, ri_Name info, Subresource info]
           else [userAgent, map (\<lambda>c. if c = CHR ''/'' then CHR ''-'' else c) (ri_Path info)]) ''_''"

text \<open>A request: the method, the path, the headers and what the request info filter found out.\<close>

record lite_request =
  lr_Method :: string
  lr_Path :: string
  lr_Header :: header
  lr_Info :: "RequestInfo option"

definition getUserAgent :: "'r lite_request_scheme \<Rightarrow> string" where
  "getUserAgent r = (let h = header_get (lr_Header r) ''User-Agent'' in if length h > 0 then hd (Split h (CHR '' '')) else ''default'')"

definition Cache :: "codec \<Rightarrow> 's storage_ops \<Rightarrow> 'r lite_request_scheme \<Rightarrow> int \<Rightarrow> header \<Rightarrow> resp_body \<Rightarrow> 's \<Rightarrow> (go_error option \<times> 's) go" where
  "Cache codec ops req statusCode header body s =
     (case lr_Info req of
        None \<Rightarrow> Ret (Some ''no RequestInfo found in the context'', s)
      | Some info \<Rightarrow> handleCache codec ops (cacheKey (getUserAgent req) info) (Verb info) statusCode header body s)"

section \<open>Queries\<close>

definition defaultGzipThresholdBytes :: nat where
  "defaultGzipThresholdBytes = 128 * 1024"

definition queryList :: "codec \<Rightarrow> 's storage_ops \<Rightarrow> string \<Rightarrow> 's \<Rightarrow> (go_error + EdgeCache) go" where
  "queryList codec ops key s =
     go_bind (LoadList ops key s) (\<lambda>loaded. Ret (
       case loaded of
         Inl err \<Rightarrow> Inl err
       | Inr data \<Rightarrow>
           (case UnmarshalEdgeCache codec data of
              Inl err \<Rightarrow> Inl err
            | Inr cache \<Rightarrow>
                if length (Body cache) > defaultGzipThresholdBytes \<and> header_get (Header cache) ''Content-Encoding'' = '''' then
                  (case gzipEncode codec (Body cache) of
                     Inl err \<Rightarrow> Inl err
                   | Inr body \<Rightarrow> Inr (cache\<lparr>Body := body, Header := mput ''Content-Encoding'' [''gzip''] (Header cache)\<rparr>))
                else Inr cache)))"

definition handleQuery :: "codec \<Rightarrow> 's storage_ops \<Rightarrow> string \<Rightarrow> string \<Rightarrow> 's \<Rightarrow> (go_error + EdgeCache) go" where
  "handleQuery codec ops key verb s =
     (if verb = ''list'' then queryList codec ops key s
      else if verb = ''get'' then
        go_bind (LoadOne ops key s) (\<lambda>loaded. Ret (case loaded of Inl err \<Rightarrow> Inl err | Inr data \<Rightarrow> UnmarshalEdgeCache codec data))
      else if verb = ''watch'' then Ret (Inr NewDefaultEdgeCache)
      else Ret (Inl ''unsupported verb %s for query cache''))"

definition Query :: "codec \<Rightarrow> 's storage_ops \<Rightarrow> 'r lite_request_scheme \<Rightarrow> 's \<Rightarrow> (go_error + EdgeCache) go" where
  "Query codec ops req s =
     (case lr_Info req of
        None \<Rightarrow> Ret (Inl ''parse requestInfo error'')
      | Some info \<Rightarrow> handleQuery codec ops (cacheKey (getUserAgent req) info) (Verb info) s)"

section \<open>What the encodings promise\<close>

definition codec_ok :: "codec \<Rightarrow> bool" where
  "codec_ok codec \<longleftrightarrow>
     (\<forall>c. \<exists>x. MarshalEdgeCache codec c = Inr x \<and> UnmarshalEdgeCache codec x = Inr c) \<and>
     (\<forall>l. \<exists>b. encode_list codec l = Inr b \<and> decode_list codec b = Inr l) \<and>
     (\<forall>l. ExtractList codec l = Inr (lo_Items l)) \<and> (\<forall>l is. SetList codec l is = Inr (l\<lparr>lo_Items := is\<rparr>)) \<and>
     (\<forall>l rv. SetResourceVersion codec l rv = Inr (l\<lparr>lo_ResourceVersion := rv\<rparr>)) \<and>
     (\<forall>b. \<exists>z. gzipEncode codec b = Inr z \<and> gzipDecode codec z = Inr b)"

lemma codec_okD:
  assumes "codec_ok codec"
  shows "\<exists>x. MarshalEdgeCache codec c = Inr x \<and> UnmarshalEdgeCache codec x = Inr c"
    "\<exists>b. encode_list codec l = Inr b \<and> decode_list codec b = Inr l"
    "ExtractList codec l = Inr (lo_Items l)" "SetList codec l is = Inr (l\<lparr>lo_Items := is\<rparr>)"
    "SetResourceVersion codec l rv = Inr (l\<lparr>lo_ResourceVersion := rv\<rparr>)"
    "\<exists>z. gzipEncode codec bs = Inr z \<and> gzipDecode codec z = Inr bs"
  using assms unfolding codec_ok_def by blast+

text \<open>The body of a response without its compression.\<close>

definition plain_body :: "codec \<Rightarrow> EdgeCache \<Rightarrow> go_error + bytes" where
  "plain_body codec c = (if header_get (Header c) ''Content-Encoding'' = ''gzip'' then gzipDecode codec (Body c) else Inr (Body c))"

section \<open>Lists and watches\<close>

definition stored_list :: "codec \<Rightarrow> 's storage_ops \<Rightarrow> string \<Rightarrow> int \<Rightarrow> 's \<Rightarrow> uobj list \<Rightarrow> bool" where
  "stored_list codec ops key code s items \<longleftrightarrow>
     (\<exists>data c l. LoadList ops key s = Ret (Inr data) \<and> UnmarshalEdgeCache codec data = Inr c \<and> StatusCode c = code \<and>
        header_get (Header c) ''Content-Encoding'' \<noteq> ''gzip'' \<and> decode_list codec (Body c) = Inr l \<and> lo_Items l = items)"

lemma stored_list_obtains:
  assumes "stored_list codec ops key code s items"
  obtains data c l where "LoadList ops key s = Ret (Inr data)" "UnmarshalEdgeCache codec data = Inr c" "StatusCode c = code"
    "header_get (Header c) ''Content-Encoding'' \<noteq> ''gzip''" "decode_list codec (Body c) = Inr l" "lo_Items l = items"
  using assms by (auto simp: stored_list_def)

definition event_items :: "watch_event \<times> uobj \<Rightarrow> uobj list \<Rightarrow> uobj list" where
  "event_items ev items = (case update_items (fst ev) (snd ev) items of None \<Rightarrow> items | Some items' \<Rightarrow> items')"

text \<open>What a query answers for a list that is stored.\<close>

lemma queryList_stored:
  assumes "codec_ok codec" "stored_list codec ops key code s items"
  obtains c b l where "queryList codec ops key s = Ret (Inr c)" "StatusCode c = code" "plain_body codec c = Inr b" "decode_list codec b = Inr l" "lo_Items l = items"
proof -
  obtain data c l where l: "LoadList ops key s = Ret (Inr data)" "UnmarshalEdgeCache codec data = Inr c" "StatusCode c = code"
      "header_get (Header c) ''Content-Encoding'' \<noteq> ''gzip''" "decode_list codec (Body c) = Inr l" "lo_Items l = items"
    using assms(2) by (rule stored_list_obtains)
  obtain z where z: "gzipEncode codec (Body c) = Inr z" "gzipDecode codec z = Inr (Body c)" using codec_okD(6) [OF assms(1)] by blast
  show ?thesis
  proof (cases "length (Body c) > defaultGzipThresholdBytes \<and> header_get (Header c) ''Content-Encoding'' = ''''")
    case True
    then have "queryList codec ops key s = Ret (Inr (c\<lparr>Body := z, Header := mput ''Content-Encoding'' [''gzip''] (Header c)\<rparr>))"
      by (simp add: queryList_def l z)
    then show ?thesis by (rule that [OF _ _ _ l(5,6)]) (simp_all add: l(3) z plain_body_def header_get_def mget_mput)
  next
    case False
    then have "queryList codec ops key s = Ret (Inr c)" by (auto simp: queryList_def l)
    then show ?thesis by (rule that [OF _ _ _ l(5,6)]) (simp_all add: l plain_body_def)
  qed
qed

context storage
begin

text \<open>A list response is stored without its compression.\<close>

lemma cacheList_stored:
  assumes "codec_ok codec" "valid key" "\<And>d s. fst (StoreList ops key d s) = None"
    "plain_body codec (NewEdgeCache code hdr buf) = Inr b" "decode_list codec b = Inr l"
  shows "\<exists>s'. cacheList codec ops key code hdr buf s = (None, s') \<and> stored_list codec ops key code s' (lo_Items l)"
proof -
  let ?gz = "header_get hdr ''Content-Encoding'' = ''gzip''"
  define c where "c = NewEdgeCache code (if ?gz then mdel ''Content-Encoding'' hdr else hdr) b"
  obtain x where x: "MarshalEdgeCache codec c = Inr x" "UnmarshalEdgeCache codec x = Inr c" using codec_okD(1) [OF assms(1)] by blast
  obtain s' where s': "StoreList ops key x s = (None, s')" using assms(3) by (metis prod.collapse)
  have "cacheList codec ops key code hdr buf s = store_response codec (StoreList ops key) c s"
    using assms(4) by (auto simp: cacheList_def c_def plain_body_def NewEdgeCache_def split: if_splits)
  then have "cacheList codec ops key code hdr buf s = (None, s')" by (simp add: store_response_def x(1) s')
  moreover have "header_get (Header c) ''Content-Encoding'' \<noteq> ''gzip''" by (simp add: c_def NewEdgeCache_def header_get_def mget_mdel)
  ultimately show ?thesis
    using store_list [OF assms(2) assms(2) s'] x(2) assms(5) by (auto simp: stored_list_def c_def NewEdgeCache_def)
qed

lemma watch_step_items:
  assumes "codec_ok codec" "valid key" "\<And>d s. fst (StoreList ops key d s) = None" "stored_list codec ops key code s items"
  shows "\<exists>s'. watch_step codec ops key t obj s = Ret (Inr (), s') \<and> stored_list codec ops key code s' (event_items (t, obj) items)"
proof -
  obtain data c l where l: "LoadList ops key s = Ret (Inr data)" "UnmarshalEdgeCache codec data = Inr c" "StatusCode c = code"
      "header_get (Header c) ''Content-Encoding'' \<noteq> ''gzip''" "decode_list codec (Body c) = Inr l" "lo_Items l = items"
    using assms(4) by (rule stored_list_obtains)
  note ok = codec_okD [OF assms(1)]
  show ?thesis
  proof (cases "t = Bookmark \<or> t = Error \<or> update_items t obj items = None")
    case True
    then have "event_items (t, obj) items = items" by (auto simp: event_items_def)
    then show ?thesis using True assms(4) by (auto simp: watch_step_def l ok(3))
  next
    case False
    then obtain items' where items': "update_items t obj items = Some items'" by auto
    define l' where "l' = l\<lparr>lo_Items := items', lo_ResourceVersion := (case uo_ResourceVersion obj of Some v \<Rightarrow> v | None \<Rightarrow> '''')\<rparr>"
    obtain b where b: "encode_list codec l' = Inr b" "decode_list codec b = Inr l'" using ok(2) by blast
    obtain x where x: "MarshalEdgeCache codec (c\<lparr>Body := b\<rparr>) = Inr x" "UnmarshalEdgeCache codec x = Inr (c\<lparr>Body := b\<rparr>)" using ok(1) by blast
    obtain s' where s': "StoreList ops key x s = (None, s')" using assms(3) by (metis prod.collapse)
    have "watch_step codec ops key t obj s = Ret (Inr (), s')"
      using False by (simp add: watch_step_def l ok(3,4,5) items' b(1) x(1) s' Let_def flip: l'_def)
    moreover have "stored_list codec ops key code s' items'"
      using store_list [OF assms(2) assms(2) s'] x(2) b(2) l(3,4) by (auto simp: stored_list_def l'_def)
    ultimately show ?thesis by (simp add: event_items_def items')
  qed
qed

lemma cacheWatch_items:
  assumes "codec_ok codec" "valid key" "\<And>d s. fst (StoreList ops key d s) = None" "stored_list codec ops key code s items"
  shows "\<exists>s'. cacheWatch codec ops key events fin s = Ret (fin, s') \<and> stored_list codec ops key code s' (fold event_items events items)"
  using assms(4)
proof (induction events arbitrary: s items)
  case (Cons ev events)
  obtain t obj where ev: "ev = (t, obj)" by fastforce
  obtain s1 where s1: "watch_step codec ops key t obj s = Ret (Inr (), s1)" "stored_list codec ops key code s1 (event_items ev items)"
    using watch_step_items [OF assms(1-3) Cons.prems] ev by blast
  show ?case using Cons.IH [OF s1(2)] s1(1) by (simp add: ev)
qed simp

text \<open>A response that was cached and not overwritten is answered.\<close>

lemma Cache_Query_get:
  assumes "codec_ok codec" "lr_Info req = Some info" "Verb info = ''get''" "valid (cacheKey (getUserAgent req) info)"
    "Cache codec ops req code hdr body s = Ret (None, s')"
  shows "\<exists>buf. rb_bytes body = Inr buf \<and> Query codec ops req s' = Ret (Inr (NewEdgeCache code (mdel ''Content-Length'' hdr) buf))"
proof -
  let ?key = "cacheKey (getUserAgent req) info"
  obtain buf where buf: "rb_bytes body = Inr buf" using assms(2,3,5) by (cases "rb_bytes body") (auto simp: Cache_def handleCache_def)
  let ?c = "NewEdgeCache code (mdel ''Content-Length'' hdr) buf"
  obtain x where x: "MarshalEdgeCache codec ?c = Inr x" "UnmarshalEdgeCache codec x = Inr ?c" using codec_okD(1) [OF assms(1)] by blast
  have st: "StoreOne ops ?key x s = (None, s')"
    using assms(2,3,5) x(1) by (simp add: Cache_def handleCache_def buf cacheGet_def store_response_def Let_def)
  show ?thesis using store_one [OF assms(4) assms(4) st] x(2) assms(2,3) buf by (simp add: Query_def handleQuery_def)
qed

end

section \<open>Keys and places\<close>

text \<open>
  The requests of the Kubernetes API: the names have neither underscores nor slashes, the subresource is not \<open>list\<close> and not twelve
  characters long (a file name could then be that of a temporary file).
\<close>

definition no_sep :: "string \<Rightarrow> bool" where
  "no_sep s \<longleftrightarrow> CHR ''_'' \<notin> set s \<and> CHR ''/'' \<notin> set s"

definition key_info :: "RequestInfo \<Rightarrow> bool" where
  "key_info i \<longleftrightarrow> IsResourceRequest i \<and> no_sep (ri_Namespace i) \<and> no_sep (Resource i) \<and> no_sep (ri_Name i) \<and> no_sep (Subresource i) \<and>
     Subresource i \<noteq> ''list'' \<and> length (Subresource i) \<noteq> 12"

definition same_target :: "RequestInfo \<Rightarrow> RequestInfo \<Rightarrow> bool" where
  "same_target i j \<longleftrightarrow> ri_Namespace i = ri_Namespace j \<and> Resource i = Resource j \<and> ri_Name i = ri_Name j \<and> Subresource i = Subresource j"

text \<open>The places that a storage gives to these keys are apart.\<close>

locale keyed_storage = storage +
  assumes key_valid: "key_info i \<Longrightarrow> valid (cacheKey ua i)"
    and key_one: "key_info i \<Longrightarrow> key_info j \<Longrightarrow> one_place (cacheKey ua i) = one_place (cacheKey ub j) \<Longrightarrow>
      same_target i j \<and> replace_slash ua = replace_slash ub"
    and key_list: "key_info i \<Longrightarrow> key_info j \<Longrightarrow> list_place (cacheKey ua i) = list_place (cacheKey ub j) \<Longrightarrow>
      same_target i j \<and> replace_slash ua = replace_slash ub"
    and key_apart: "key_info i \<Longrightarrow> key_info j \<Longrightarrow> one_place (cacheKey ua i) \<noteq> list_place (cacheKey ub j)"

lemma replace_slash_simps [simp]:
  "replace_slash (a @ b) = replace_slash a @ replace_slash b" "replace_slash [] = []"
  "replace_slash (c # s) = (if c = CHR ''/'' then CHR ''_'' else c) # replace_slash s"
  by (simp_all add: replace_slash_def)

lemma replace_slash_no_sep: "no_sep s \<Longrightarrow> replace_slash s = s"
  by (induction s) (auto simp: no_sep_def)

lemma last_part:
  assumes "a @ c # b = a' @ c # b'" "c \<notin> set b" "c \<notin> set b'"
  shows "a = a' \<and> b = b'"
proof -
  have "b = rev (takeWhile ((\<noteq>) c) (rev (a @ c # b)))" if "c \<notin> set b" for a b :: "'a list"
    using that by (auto simp: takeWhile_append)
  from this [OF assms(2), of a] this [OF assms(3), of a'] have "b = b'" by (simp add: assms(1))
  then show ?thesis using assms(1) by simp
qed

definition key_parts :: "string \<Rightarrow> RequestInfo \<Rightarrow> string" where
  "key_parts u i = (((u @ ''_'' @ ri_Namespace i) @ ''_'' @ Resource i) @ ''_'' @ ri_Name i) @ ''_'' @ Subresource i"

lemma cacheKey_parts: "key_info i \<Longrightarrow> cacheKey ua i = key_parts ua i"
  by (simp add: cacheKey_def key_parts_def key_info_def)

lemma file_name_parts: "key_info i \<Longrightarrow> oneFileName (cacheKey ua i) = key_parts (replace_slash ua) i"
  by (simp add: cacheKey_parts) (simp add: key_info_def oneFileName_def key_parts_def replace_slash_no_sep)

lemma parts_inject:
  assumes "key_parts u i = key_parts v j" "key_info i" "key_info j"
  shows "u = v \<and> same_target i j"
proof -
  have none: "CHR ''_'' \<notin> set (ri_Namespace k)" "CHR ''_'' \<notin> set (Resource k)" "CHR ''_'' \<notin> set (ri_Name k)" "CHR ''_'' \<notin> set (Subresource k)"
    if "key_info k" for k
    using that by (simp_all add: key_info_def no_sep_def)
  note i = none [OF assms(2)] and j = none [OF assms(3)]
  have part: "a @ ''_'' @ b = a' @ ''_'' @ b' \<Longrightarrow> CHR ''_'' \<notin> set b \<Longrightarrow> CHR ''_'' \<notin> set b' \<Longrightarrow> a = a' \<and> b = b'" for a b a' b'
    using last_part by simp
  have 1: "((u @ ''_'' @ ri_Namespace i) @ ''_'' @ Resource i) @ ''_'' @ ri_Name i = ((v @ ''_'' @ ri_Namespace j) @ ''_'' @ Resource j) @ ''_'' @ ri_Name j \<and> Subresource i = Subresource j"
    by (rule part [OF assms(1) [unfolded key_parts_def] i(4) j(4)])
  have 2: "(u @ ''_'' @ ri_Namespace i) @ ''_'' @ Resource i = (v @ ''_'' @ ri_Namespace j) @ ''_'' @ Resource j \<and> ri_Name i = ri_Name j"
    by (rule part [OF conjunct1 [OF 1] i(3) j(3)])
  have 3: "u @ ''_'' @ ri_Namespace i = v @ ''_'' @ ri_Namespace j \<and> Resource i = Resource j"
    by (rule part [OF conjunct1 [OF 2] i(2) j(2)])
  show ?thesis using 1 2 3 part [OF conjunct1 [OF 3] i(1) j(1)] by (simp add: same_target_def)
qed

lemma one_apart_list:
  assumes "a @ ''_'' @ Subresource i = b @ ''_list''" "key_info i"
  shows False
  using last_part [of a "CHR ''_''" "Subresource i" b "''list''"] assms by (auto simp: key_info_def no_sep_def)

lemma not_salted:
  assumes "CHR ''_'' \<notin> set s" "length s \<noteq> 12"
  shows "\<not> salted (a @ CHR ''_'' # s)"
proof
  assume s: "salted (a @ CHR ''_'' # s)"
  show False
  proof (cases "length s < 12")
    case True
    then have "CHR ''_'' \<in> set (drop (length (a @ CHR ''_'' # s) - 12) (a @ CHR ''_'' # s))" by simp
    moreover have "CHR ''_'' \<notin> set salt_alphabet" by (simp add: salt_alphabet_def)
    ultimately show False using s by (auto simp: salted_def list_all_iff)
  next
    case False
    then have i: "length (a @ CHR ''_'' # s) - 13 = length a + Suc (length s - 13)" and "length s - 13 < length s" using assms(2) by auto
    moreover have "(a @ CHR ''_'' # s) ! (length (a @ CHR ''_'' # s) - 13) = s ! (length s - 13)" unfolding i by (simp add: nth_append)
    ultimately have "(a @ CHR ''_'' # s) ! (length (a @ CHR ''_'' # s) - 13) \<in> set s" by simp
    then show False using s assms(1) by (auto simp: salted_def)
  qed
qed

interpretation keyed_files: keyed_storage "file_ops env" file_key oneFileName listFileName for env
proof unfold_locales
  fix i ua assume i: "key_info i"
  then have "\<not> salted (a @ ''_'' @ Subresource i)" for a using not_salted [of "Subresource i" a] by (simp add: key_info_def no_sep_def)
  then show "file_key (cacheKey ua i)" unfolding file_key_def file_name_parts [OF i] key_parts_def by blast
next
  fix i j ua ub assume "key_info i" "key_info j" "oneFileName (cacheKey ua i) = oneFileName (cacheKey ub j)"
  then show "same_target i j \<and> replace_slash ua = replace_slash ub" using parts_inject [of "replace_slash ua" i "replace_slash ub" j] by (simp add: file_name_parts)
next
  fix i j ua ub assume "key_info i" "key_info j" "listFileName (cacheKey ua i) = listFileName (cacheKey ub j)"
  then have "oneFileName (cacheKey ua i) = oneFileName (cacheKey ub j)" by (simp add: oneFileName_def listFileName_def)
  then show "same_target i j \<and> replace_slash ua = replace_slash ub"
    using \<open>key_info i\<close> \<open>key_info j\<close> parts_inject [of "replace_slash ua" i "replace_slash ub" j] by (simp add: file_name_parts)
next
  fix i j ua ub assume i: "key_info i" "key_info j"
  have "listFileName (cacheKey ub j) = replace_slash (cacheKey ub j) @ ''_list''" by (simp add: listFileName_def)
  then show "oneFileName (cacheKey ua i) \<noteq> listFileName (cacheKey ub j)"
    using one_apart_list [OF _ i(1)] unfolding file_name_parts [OF i(1)] key_parts_def by metis
qed

interpretation keyed_memory: keyed_storage memory_ops "\<lambda>k. True" "\<lambda>k. (False, k)" "\<lambda>k. (True, k)"
proof unfold_locales
  have inj: "cacheKey ua i = cacheKey ub j \<Longrightarrow> key_info i \<Longrightarrow> key_info j \<Longrightarrow> ua = ub \<and> same_target i j" for ua ub i j
    using parts_inject [of ua i ub j] by (simp add: cacheKey_parts)
  fix i j ua ub assume "key_info i" "key_info j"
  then show "(False, cacheKey ua i) = (False, cacheKey ub j) \<Longrightarrow> same_target i j \<and> replace_slash ua = replace_slash ub"
    "(True, cacheKey ua i) = (True, cacheKey ub j) \<Longrightarrow> same_target i j \<and> replace_slash ua = replace_slash ub"
    using inj [of ua i ub j] by simp_all
qed auto

section \<open>The objects of the server\<close>

text \<open>
  What a list stands for: a map from the identity of an object (kind, namespace, name) to the object. The events of a watch change the map.
\<close>

definition obj_id :: "uobj \<Rightarrow> string option \<times> string option \<times> string option" where
  "obj_id obj = (uo_Kind obj, uo_Namespace obj, uo_Name obj)"

definition identified :: "uobj \<Rightarrow> bool" where
  "identified obj \<longleftrightarrow> uo_Kind obj \<noteq> None \<and> uo_Namespace obj \<noteq> None \<and> uo_Name obj \<noteq> None"

type_synonym objects = "string option \<times> string option \<times> string option \<Rightarrow> uobj option"

definition represents :: "uobj list \<Rightarrow> objects \<Rightarrow> bool" where
  "represents items m \<longleftrightarrow> list_all identified items \<and> distinct (map obj_id items) \<and> map_of (map (\<lambda>obj. (obj_id obj, obj)) items) = m"

fun server_event :: "watch_event \<times> uobj \<Rightarrow> objects \<Rightarrow> objects" where
  "server_event (Added, obj) m = m(obj_id obj \<mapsto> obj)"
| "server_event (Modified, obj) m = m(obj_id obj \<mapsto> obj)"
| "server_event (Deleted, obj) m = m(obj_id obj := None)"
| "server_event (Bookmark, obj) m = m"
| "server_event (Error, obj) m = m"

text \<open>The events that a server sends: additions of new objects, changes to newer versions.\<close>

fun event_ok :: "watch_event \<times> uobj \<Rightarrow> objects \<Rightarrow> bool" where
  "event_ok (Added, obj) m \<longleftrightarrow> identified obj \<and> m (obj_id obj) = None"
| "event_ok (Modified, obj) m \<longleftrightarrow> identified obj \<and> (case m (obj_id obj) of None \<Rightarrow> False | Some old \<Rightarrow> newVersion obj old)"
| "event_ok (Deleted, obj) m \<longleftrightarrow> identified obj"
| "event_ok (Bookmark, obj) m \<longleftrightarrow> True"
| "event_ok (Error, obj) m \<longleftrightarrow> True"

fun events_ok :: "(watch_event \<times> uobj) list \<Rightarrow> objects \<Rightarrow> bool" where
  "events_ok [] m \<longleftrightarrow> True"
| "events_ok (ev # evs) m \<longleftrightarrow> event_ok ev m \<and> events_ok evs (server_event ev m)"

lemma sameObj_iff: "identified a \<Longrightarrow> identified b \<Longrightarrow> sameObj a b \<longleftrightarrow> obj_id a = obj_id b"
  by (auto simp: identified_def sameObj_def obj_id_def)

lemma replace_first_represents:
  assumes "list_all identified items" "distinct (map obj_id items)" "identified obj"
    "map_of (map (\<lambda>obj. (obj_id obj, obj)) items) (obj_id obj) = Some old" "newVersion obj old"
  shows "\<exists>items'. replace_first obj items = Some items' \<and> list_all identified items' \<and> map obj_id items' = map obj_id items \<and>
    map_of (map (\<lambda>obj. (obj_id obj, obj)) items') = (map_of (map (\<lambda>obj. (obj_id obj, obj)) items))(obj_id obj \<mapsto> obj)"
  using assms
proof (induction items)
  case (Cons item items)
  show ?case
  proof (cases "obj_id obj = obj_id item")
    case True
    then show ?thesis using Cons.prems by (auto simp: sameObj_iff fun_eq_iff)
  next
    case False
    then have old: "map_of (map (\<lambda>obj. (obj_id obj, obj)) items) (obj_id obj) = Some old" using Cons.prems(4) by simp
    have "list_all identified items" "distinct (map obj_id items)" using Cons.prems(1,2) by simp_all
    from Cons.IH [OF this Cons.prems(3) old Cons.prems(5)] obtain items' where "replace_first obj items = Some items'" "list_all identified items'" "map obj_id items' = map obj_id items"
      "map_of (map (\<lambda>obj. (obj_id obj, obj)) items') = (map_of (map (\<lambda>obj. (obj_id obj, obj)) items))(obj_id obj \<mapsto> obj)"
      by blast
    then show ?thesis using False Cons.prems by (simp add: sameObj_iff fun_upd_twist [OF False]) (simp add: fun_upd_def)
  qed
qed simp

lemma represents_none: "represents items m \<Longrightarrow> m i = None \<longleftrightarrow> i \<notin> obj_id ` set items"
  by (auto simp: represents_def map_of_eq_None_iff image_image)

lemma filter_represents:
  assumes "represents items m" "identified obj"
  shows "represents (filter (\<lambda>item. \<not> sameObj obj item) items) (m(obj_id obj := None))"
proof -
  have "filter (\<lambda>item. \<not> sameObj obj item) items = filter (\<lambda>item. obj_id item \<noteq> obj_id obj) items"
    using assms by (intro filter_cong) (auto simp: represents_def list_all_iff sameObj_iff)
  moreover have "map_of (map (\<lambda>x. (obj_id x, x)) (filter (\<lambda>item. obj_id item \<noteq> i) items)) = (map_of (map (\<lambda>x. (obj_id x, x)) items))(i := None)" for i
    by (induction items) (auto simp: fun_eq_iff)
  ultimately show ?thesis using assms by (auto simp: represents_def list_all_iff distinct_map_filter)
qed

lemma event_items_represents:
  assumes "represents items m" "event_ok ev m"
  shows "represents (event_items ev items) (server_event ev m)"
proof (cases ev)
  case (Pair t obj)
  show ?thesis
  proof (cases t)
    case Added
    then have new: "obj_id obj \<notin> obj_id ` set items" "identified obj" "m (obj_id obj) = None" using assms by (auto simp: Pair represents_none)
    then have "[obj_id obj \<mapsto> obj] ++ m = m(obj_id obj \<mapsto> obj)" by (auto simp: map_add_def fun_eq_iff split: option.splits)
    then show ?thesis using assms(1) new by (simp add: Pair Added event_items_def represents_def)
  next
    case Modified
    then obtain old where "m (obj_id obj) = Some old" "newVersion obj old" "identified obj"
      using assms(2) by (auto simp: Pair split: option.splits)
    then obtain items' where "replace_first obj items = Some items'" "list_all identified items'" "map obj_id items' = map obj_id items"
      "map_of (map (\<lambda>obj. (obj_id obj, obj)) items') = m(obj_id obj \<mapsto> obj)"
      using replace_first_represents [of items obj old] assms(1) by (auto simp: represents_def)
    then show ?thesis using assms(1) by (simp add: Pair Modified event_items_def represents_def)
  next
    case Deleted
    then show ?thesis using filter_represents [OF assms(1)] assms(2) by (simp add: Pair event_items_def)
  qed (use assms(1) in \<open>simp_all add: Pair event_items_def\<close>)
qed

lemma events_represent:
  "represents items m \<Longrightarrow> events_ok evs m \<Longrightarrow> represents (fold event_items evs items) (fold server_event evs m)"
  by (induction evs arbitrary: items m) (simp_all add: event_items_represents)

text \<open>An object that is announced as added once more is in the list twice.\<close>

lemma added_twice:
  assumes "identified obj" "obj \<in> set items"
  shows "\<not> represents (event_items (Added, obj) items) m"
  using assms by (auto simp: represents_def event_items_def)

section \<open>Lists that are answered offline\<close>

context keyed_storage
begin

lemma list_follows_server:
  assumes "codec_ok codec" "key_info info" "\<And>k d s. fst (StoreList ops k d s) = None"
    and req: "lr_Info req = Some info" "Verb info = ''list''" "lr_Info wreq = Some (info\<lparr>Verb := ''watch''\<rparr>)" "getUserAgent wreq = getUserAgent req"
    and body: "rb_bytes body = Inr buf" "plain_body codec (NewEdgeCache code hdr buf) = Inr b" "decode_list codec b = Inr l" "represents (lo_Items l) m"
    and events: "events_ok (rb_events wbody) m"
  shows "\<exists>s1 s2 c b' l'. Cache codec ops req code hdr body s = Ret (None, s1) \<and> Cache codec ops wreq wcode whdr wbody s1 = Ret (Some (rb_end wbody), s2) \<and>
    Query codec ops req s2 = Ret (Inr c) \<and> StatusCode c = code \<and> plain_body codec c = Inr b' \<and> decode_list codec b' = Inr l' \<and>
    represents (lo_Items l') (fold server_event (rb_events wbody) m)"
proof -
  let ?key = "cacheKey (getUserAgent req) info"
  have wkey: "cacheKey (getUserAgent wreq) (info\<lparr>Verb := ''watch''\<rparr>) = ?key" by (simp add: cacheKey_def req(4))
  have valid: "valid ?key" by (rule key_valid [OF assms(2)])
  let ?hdr = "mdel ''Content-Length'' hdr"
  have "plain_body codec (NewEdgeCache code ?hdr buf) = Inr b"
    using body(2) by (simp add: plain_body_def NewEdgeCache_def header_get_def mget_mdel split: if_splits)
  then obtain s1 where s1: "cacheList codec ops ?key code ?hdr buf s = (None, s1)" "stored_list codec ops ?key code s1 (lo_Items l)"
    using cacheList_stored [OF assms(1) valid assms(3) _ body(3)] by blast
  then have 1: "Cache codec ops req code hdr body s = Ret (None, s1)" by (simp add: Cache_def req handleCache_def body(1))
  obtain s2 where s2: "cacheWatch codec ops ?key (rb_events wbody) (rb_end wbody) s1 = Ret (rb_end wbody, s2)"
      "stored_list codec ops ?key code s2 (fold event_items (rb_events wbody) (lo_Items l))"
    using cacheWatch_items [OF assms(1) valid assms(3) s1(2)] by blast
  then have 2: "Cache codec ops wreq wcode whdr wbody s1 = Ret (Some (rb_end wbody), s2)" by (simp add: Cache_def req(3) wkey handleCache_def)
  obtain c b' l' where c: "queryList codec ops ?key s2 = Ret (Inr c)" "StatusCode c = code" "plain_body codec c = Inr b'"
      "decode_list codec b' = Inr l'" "lo_Items l' = fold event_items (rb_events wbody) (lo_Items l)"
    using assms(1) s2(2) by (rule queryList_stored)
  have "represents (lo_Items l') (fold server_event (rb_events wbody) m)" using c(5) events_represent [OF body(4) events] by simp
  then show ?thesis using 1 2 c by (auto simp: Query_def handleQuery_def req)
qed

end

text \<open>Storage without faults.\<close>

definition no_faults :: "file_env \<Rightarrow> bool" where
  "no_faults env \<longleftrightarrow> (\<forall>n. create_error env n = None \<and> write_error env n = None \<and> rename_error env n = None)"

lemma no_faults_store: "no_faults env \<Longrightarrow> fst (StoreList (file_ops env) k d s) = None"
  by (simp add: no_faults_def file_ops_def file_StoreList_def writeFile_def Let_def split: prod.splits)

text \<open>
  C8: On the file storage, without faults: a list response that was cached, followed by a watch whose events are those of the
  server, is answered offline with a list of exactly the objects that the server then has, at the status of the response,
  compressed or not.
\<close>

theorem offline_list_follows_server:
  assumes "codec_ok codec" "key_info info" "no_faults env"
    and "lr_Info req = Some info" "Verb info = ''list''" "lr_Info wreq = Some (info\<lparr>Verb := ''watch''\<rparr>)" "getUserAgent wreq = getUserAgent req"
    and "rb_bytes body = Inr buf" "plain_body codec (NewEdgeCache code hdr buf) = Inr b" "decode_list codec b = Inr l" "represents (lo_Items l) m"
    and "events_ok (rb_events wbody) m"
  shows "\<exists>s1 s2 c b' l'. Cache codec (file_ops env) req code hdr body s = Ret (None, s1) \<and>
    Cache codec (file_ops env) wreq wcode whdr wbody s1 = Ret (Some (rb_end wbody), s2) \<and>
    Query codec (file_ops env) req s2 = Ret (Inr c) \<and> StatusCode c = code \<and> plain_body codec c = Inr b' \<and> decode_list codec b' = Inr l' \<and>
    represents (lo_Items l') (fold server_event (rb_events wbody) m)"
  by (rule keyed_files.list_follows_server [OF assms(1,2) no_faults_store [OF assms(3)] assms(4-)])

section \<open>An encoding\<close>

text \<open>
  A codec with the properties that are asked for: numbers in unary, lists with their length first. It serves the witnesses.
\<close>

record 'a code =
  put :: "'a \<Rightarrow> string"
  get :: "string \<Rightarrow> 'a \<times> string"

definition good_code :: "'a code \<Rightarrow> bool" where
  "good_code c \<longleftrightarrow> (\<forall>x r. get c (put c x @ r) = (x, r))"

lemma good_codeD: "good_code c \<Longrightarrow> get c (put c x @ r) = (x, r)"
  by (simp add: good_code_def)

definition nat_code :: "nat code" where
  "nat_code = \<lparr>put = (\<lambda>n. replicate n CHR ''1'' @ ''0''),
     get = (\<lambda>s. (length (takeWhile (\<lambda>c. c = CHR ''1'') s), drop (Suc (length (takeWhile (\<lambda>c. c = CHR ''1'') s))) s))\<rparr>"

definition char_code :: "char code" where
  "char_code = \<lparr>put = (\<lambda>c. [c]), get = (\<lambda>s. (hd s, tl s))\<rparr>"

definition pair_code :: "'a code \<Rightarrow> 'b code \<Rightarrow> ('a \<times> 'b) code" where
  "pair_code a b = \<lparr>put = (\<lambda>(x, y). put a x @ put b y), get = (\<lambda>s. let (x, r) = get a s; (y, r') = get b r in ((x, y), r'))\<rparr>"

fun get_n :: "(string \<Rightarrow> 'a \<times> string) \<Rightarrow> nat \<Rightarrow> string \<Rightarrow> 'a list \<times> string" where
  "get_n g 0 s = ([], s)"
| "get_n g (Suc n) s = (let (x, r) = g s; (xs, r') = get_n g n r in (x # xs, r'))"

definition list_code :: "'a code \<Rightarrow> 'a list code" where
  "list_code a = \<lparr>put = (\<lambda>xs. put nat_code (length xs) @ concat (map (put a) xs)), get = (\<lambda>s. let (n, r) = get nat_code s in get_n (get a) n r)\<rparr>"

definition iso_code :: "('b \<Rightarrow> 'a) \<Rightarrow> ('a \<Rightarrow> 'b) \<Rightarrow> 'a code \<Rightarrow> 'b code" where
  "iso_code f g a = \<lparr>put = (\<lambda>x. put a (f x)), get = (\<lambda>s. let (y, r) = get a s in (g y, r))\<rparr>"

lemma good_nat: "good_code nat_code"
  by (simp add: good_code_def nat_code_def takeWhile_append)

lemma good_char: "good_code char_code"
  by (simp add: good_code_def char_code_def)

lemma good_pair: "good_code a \<Longrightarrow> good_code b \<Longrightarrow> good_code (pair_code a b)"
  by (simp add: good_code_def pair_code_def)

lemma good_list:
  assumes "good_code a"
  shows "good_code (list_code a)"
proof -
  have "get_n (get a) (length xs) (concat (map (put a) xs) @ r) = (xs, r)" for xs r
    by (induction xs) (simp_all add: good_codeD [OF assms])
  then show ?thesis by (simp add: good_code_def list_code_def good_codeD [OF good_nat])
qed

lemma good_iso: "good_code a \<Longrightarrow> (\<And>x. g (f x) = x) \<Longrightarrow> good_code (iso_code f g a)"
  by (simp add: good_code_def iso_code_def)

definition string_code :: "string code" where "string_code = list_code char_code"

definition int_code :: "int code" where
  "int_code = iso_code (\<lambda>z. (nat z, nat (- z))) (\<lambda>(a, b). int a - int b) (pair_code nat_code nat_code)"

definition option_code :: "string option code" where
  "option_code = iso_code (\<lambda>x. case x of None \<Rightarrow> [] | Some s \<Rightarrow> [s]) (\<lambda>l. case l of [] \<Rightarrow> None | s # _ \<Rightarrow> Some s) (list_code string_code)"

definition EdgeCache_code :: "EdgeCache code" where
  "EdgeCache_code = iso_code (\<lambda>c. (StatusCode c, Header c, Body c)) (\<lambda>(s, h, b). \<lparr>StatusCode = s, Header = h, Body = b\<rparr>)
     (pair_code int_code (pair_code (list_code (pair_code string_code (list_code string_code))) string_code))"

definition uobj_code :: "uobj code" where
  "uobj_code = iso_code (\<lambda>x. (uo_Kind x, uo_Namespace x, uo_Name x, uo_ResourceVersion x, uo_Contents x))
     (\<lambda>(k, ns, n, v, c). \<lparr>uo_Kind = k, uo_Namespace = ns, uo_Name = n, uo_ResourceVersion = v, uo_Contents = c\<rparr>)
     (pair_code option_code (pair_code option_code (pair_code option_code (pair_code option_code string_code))))"

definition list_object_code :: "list_object code" where
  "list_object_code = iso_code (\<lambda>l. (lo_Items l, lo_ResourceVersion l, lo_Contents l))
     (\<lambda>(is, v, c). \<lparr>lo_Items = is, lo_ResourceVersion = v, lo_Contents = c\<rparr>) (pair_code (list_code uobj_code) (pair_code string_code string_code))"

lemma good_string: "good_code string_code"
  by (simp add: string_code_def good_list good_char)

lemma good_option: "good_code option_code"
  unfolding option_code_def by (intro good_iso good_list good_string) (simp split: option.splits)

lemma good_EdgeCache: "good_code EdgeCache_code"
  unfolding EdgeCache_code_def int_code_def by (intro good_iso good_pair good_list good_string good_nat) auto

lemma good_list_object: "good_code list_object_code"
  unfolding list_object_code_def uobj_code_def by (intro good_iso good_pair good_list good_string good_option) auto

definition sample_codec :: codec where
  "sample_codec = \<lparr>MarshalEdgeCache = (\<lambda>c. Inr (put EdgeCache_code c)), UnmarshalEdgeCache = (\<lambda>s. Inr (fst (get EdgeCache_code s))),
     decode_list = (\<lambda>s. Inr (fst (get list_object_code s))), encode_list = (\<lambda>l. Inr (put list_object_code l)),
     ExtractList = (\<lambda>l. Inr (lo_Items l)), SetList = (\<lambda>l is. Inr (l\<lparr>lo_Items := is\<rparr>)), SetResourceVersion = (\<lambda>l v. Inr (l\<lparr>lo_ResourceVersion := v\<rparr>)),
     gzipEncode = (\<lambda>b. Inr (CHR ''z'' # b)), gzipDecode = (\<lambda>b. Inr (tl b))\<rparr>"

lemma sample_codec_ok: "codec_ok sample_codec"
  using good_codeD [OF good_EdgeCache, of _ "[]"] good_codeD [OF good_list_object, of _ "[]"] by (simp add: codec_ok_def sample_codec_def)

definition sample_file_env :: file_env where
  "sample_file_env = \<lparr>random = (\<lambda>n. 7 * n), create_error = (\<lambda>_. None), write_error = (\<lambda>_. None), rename_error = (\<lambda>_. None)\<rparr>"

definition sample_info :: "string \<Rightarrow> string \<Rightarrow> RequestInfo" where
  "sample_info verb name = \<lparr>IsResourceRequest = True, ri_Path = ''/api/v1/namespaces/ns/pods'', Verb = verb, ri_Namespace = ''ns'', Resource = ''pods'',
     ri_Name = name, Subresource = ''''\<rparr>"

definition sample_request :: "string \<Rightarrow> string \<Rightarrow> lite_request" where
  "sample_request verb name = \<lparr>lr_Method = ''GET'', lr_Path = ''/api/v1/namespaces/ns/pods'', lr_Header = [(''User-Agent'', [''kubelet/v1 linux''])],
     lr_Info = Some (sample_info verb name)\<rparr>"

definition sample_pod :: "string \<Rightarrow> string \<Rightarrow> uobj" where
  "sample_pod name version = \<lparr>uo_Kind = Some ''Pod'', uo_Namespace = Some ''ns'', uo_Name = Some name, uo_ResourceVersion = Some version, uo_Contents = ''{}''\<rparr>"

definition sample_body :: bytes where
  "sample_body = put list_object_code \<lparr>lo_Items = [sample_pod ''a'' ''5''], lo_ResourceVersion = ''7'', lo_Contents = ''''\<rparr>"

definition sample_watch :: resp_body where
  "sample_watch = \<lparr>rb_bytes = Inr '''', rb_events = [(Added, sample_pod ''b'' ''8''), (Modified, sample_pod ''a'' ''9''), (Deleted, sample_pod ''b'' ''10'')], rb_end = ''EOF''\<rparr>"

theorem offline_list_follows_server_witness:
  "\<exists>s1 s2 c b' l'.
    Cache sample_codec (file_ops sample_file_env) (sample_request ''list'' '''') 200 [] \<lparr>rb_bytes = Inr sample_body, rb_events = [], rb_end = ''''\<rparr> \<lparr>files = [], drawn = 0\<rparr> = Ret (None, s1) \<and>
    Cache sample_codec (file_ops sample_file_env) (sample_request ''watch'' '''') 200 [] sample_watch s1 = Ret (Some ''EOF'', s2) \<and>
    Query sample_codec (file_ops sample_file_env) (sample_request ''list'' '''') s2 = Ret (Inr c) \<and> StatusCode c = 200 \<and>
    plain_body sample_codec c = Inr b' \<and> decode_list sample_codec b' = Inr l' \<and>
    represents (lo_Items l') [obj_id (sample_pod ''a'' ''5'') \<mapsto> sample_pod ''a'' ''9'']"
proof -
  let ?l = "\<lparr>lo_Items = [sample_pod ''a'' ''5''], lo_ResourceVersion = ''7'', lo_Contents = ''''\<rparr>"
  let ?m = "[obj_id (sample_pod ''a'' ''5'') \<mapsto> sample_pod ''a'' ''5'']"
  have 1: "decode_list sample_codec sample_body = Inr ?l"
    using good_codeD [OF good_list_object, of ?l "[]"] by (simp add: sample_codec_def sample_body_def)
  have 2: "represents (lo_Items ?l) ?m" by (simp add: represents_def identified_def sample_pod_def)
  have 3: "events_ok (rb_events sample_watch) ?m"
    by (simp add: sample_watch_def sample_pod_def identified_def obj_id_def newVersion_def Atoi_def clampInt_def digitVal_def)
  have 4: "fold server_event (rb_events sample_watch) ?m = [obj_id (sample_pod ''a'' ''5'') \<mapsto> sample_pod ''a'' ''9'']"
    by (simp add: sample_watch_def sample_pod_def obj_id_def fun_eq_iff)
  have 5: "key_info (sample_info ''list'' '''')" by (simp add: key_info_def sample_info_def no_sep_def)
  have 6: "no_faults sample_file_env" by (simp add: no_faults_def sample_file_env_def)
  have 7: "plain_body sample_codec (NewEdgeCache 200 [] sample_body) = Inr sample_body" by (simp add: plain_body_def NewEdgeCache_def header_get_def)
  show ?thesis
    using offline_list_follows_server [OF sample_codec_ok 5 6, of "sample_request ''list'' ''''" "sample_request ''watch'' ''''", OF _ _ _ _ _ 7 1 2 3,
        where body = "\<lparr>rb_bytes = Inr sample_body, rb_events = [], rb_end = ''''\<rparr>" and wcode = 200 and whdr = "[]" and s = "\<lparr>files = [], drawn = 0\<rparr>"]
    unfolding 4 by (simp add: sample_request_def sample_info_def getUserAgent_def sample_watch_def)
qed

end
