(* ===== verification/LiteProxy.thy ===== *)
theory LiteProxy
  imports LiteCache "HOL-Library.Sublist"
begin

text \<open>
  The reverse proxy of lite-apiserver (\<open>src/pkg/lite-apiserver/proxy/proxy.go\<close>, \<open>util.go\<close>): a request goes to the API server; the body of
  a good response is copied into the cache while the client reads it; when the API server cannot be reached the answer comes from the cache.

  MIME types, content negotiation, the codecs of token requests, signing, the clock and the decoder of watch events are arguments (\<open>proxy_env\<close>).
\<close>

section \<open>Copying a body\<close>

datatype read_err = EOF | ReadErr go_error

text \<open>
  An \<open>io.Pipe\<close>: what has been written, whether the writing end is closed, and how many writes the reader still takes (\<open>None\<close>: all).
  A write waits for the reader.
\<close>

record pipe =
  pi_data :: bytes
  pi_closed :: bool
  pi_takes :: "nat option"

text \<open>The reads that the source will answer, the error of closing it, and the pipes.\<close>

record multiWrite =
  mw_read :: "(bytes \<times> read_err option) list"
  mw_close :: "go_error option"
  mw_writes :: "pipe list"

definition pipe_Close :: "pipe \<Rightarrow> pipe" where
  "pipe_Close p = p\<lparr>pi_closed := True\<rparr>"

text \<open>\<open>None\<close>: the write never returns.\<close>

definition pipe_Write :: "bytes \<Rightarrow> pipe \<Rightarrow> (go_error option \<times> pipe) option" where
  "pipe_Write b p =
     (if pi_closed p then Some (Some ''io: read/write on closed pipe'', p)
      else case pi_takes p of
        None \<Rightarrow> Some (None, p\<lparr>pi_data := pi_data p @ b\<rparr>)
      | Some 0 \<Rightarrow> None
      | Some (Suc n) \<Rightarrow> Some (None, p\<lparr>pi_data := pi_data p @ b, pi_takes := Some n\<rparr>))"

definition multiWrite_Close :: "multiWrite \<Rightarrow> go_error option \<times> multiWrite" where
  "multiWrite_Close w = (case mw_close w of Some err \<Rightarrow> (Some err, w) | None \<Rightarrow> (None, w\<lparr>mw_writes := map pipe_Close (mw_writes w)\<rparr>))"

fun write_pipes :: "bytes \<Rightarrow> pipe list \<Rightarrow> pipe list option" where
  "write_pipes b [] = Some []"
| "write_pipes b (p # ps) =
     (case pipe_Write b p of
        None \<Rightarrow> None
      | Some (pipeErr, p1) \<Rightarrow> map_option (\<lambda>qs. (if pipeErr \<noteq> None then pipe_Close p1 else p1) # qs) (write_pipes b ps))"

definition multiWrite_Read :: "multiWrite \<Rightarrow> ((bytes \<times> read_err option) \<times> multiWrite) option" where
  "multiWrite_Read w =
     (case mw_read w of
        [] \<Rightarrow> Some (([], Some EOF), w)
      | (p, err) # rest \<Rightarrow>
          let w1 = w\<lparr>mw_read := rest\<rparr> in
          if err \<noteq> None \<and> err \<noteq> Some EOF then Some ((p, err), snd (multiWrite_Close w1))
          else if length p > 0 then map_option (\<lambda>ps. ((p, err), w1\<lparr>mw_writes := ps\<rparr>)) (write_pipes p (mw_writes w1))
          else Some ((p, err), w1))"

definition MultiWrite :: "(bytes \<times> read_err option) list \<Rightarrow> go_error option \<Rightarrow> int \<Rightarrow> multiWrite option" where
  "MultiWrite read close number =
     (if number < 2 then None
      else Some \<lparr>mw_read = read, mw_close = close, mw_writes = replicate (nat number - 1) \<lparr>pi_data = '''', pi_closed = False, pi_takes = None\<rparr>\<rparr>)"

text \<open>
  How \<open>httputil.ReverseProxy\<close> reads the body, with at most \<open>n\<close> reads before the client is gone, and closes it: the bytes that were read,
  and whether the copying came to an end.
\<close>

fun copyResponse :: "nat \<Rightarrow> multiWrite \<Rightarrow> bytes \<times> bool \<times> multiWrite" where
  "copyResponse 0 w = ([], True, snd (multiWrite_Close w))"
| "copyResponse (Suc n) w =
     (case multiWrite_Read w of
        None \<Rightarrow> ([], False, w)
      | Some ((p, err), w1) \<Rightarrow>
          if err \<noteq> None then (p, True, snd (multiWrite_Close w1))
          else (case copyResponse n w1 of (ps, ended, w2) \<Rightarrow> (p @ ps, ended, w2)))"

text \<open>What the reader of the pipe has got when it sees the end of the pipe.\<close>

definition pipe_content :: "multiWrite \<Rightarrow> bytes option" where
  "pipe_content w = (case mw_writes w of p # _ \<Rightarrow> if pi_closed p then Some (pi_data p) else None | [] \<Rightarrow> None)"

section \<open>Requests, errors and answers\<close>

datatype errno = ECONNREFUSED | ETIMEDOUT | EHOSTUNREACH | ENETUNREACH | ECONNRESET | OtherErrno int

datatype op_cause = SyscallErrno errno | SyscallOther | OtherCause

datatype err_class = Canceled | DeadlineExceeded | NetError bool "op_cause option" | NotNetError

text \<open>
  The error of a request: its text and what the type assertions find: for a \<open>net.Error\<close> whether it is a timeout and, for a
  \<open>net.OpError\<close>, its cause.
\<close>

record request_error =
  re_Error :: string
  re_class :: err_class

record proxy_request = lite_request +
  pr_Scheme :: string
  pr_Host :: string
  pr_Body :: "go_error + bytes"
  pr_TokenRequestData :: "bytes option"

record response_writer =
  rw_Header :: header
  rw_Code :: "int option"
  rw_Body :: bytes

definition empty_writer :: response_writer where
  "empty_writer = \<lparr>rw_Header = [], rw_Code = None, rw_Body = ''''\<rparr>"

text \<open>\<open>net/http\<close>: only the first status counts, and writing the body implies status 200.\<close>

definition WriteHeader :: "int \<Rightarrow> response_writer \<Rightarrow> response_writer" where
  "WriteHeader code w = (if rw_Code w = None then w\<lparr>rw_Code := Some code\<rparr> else w)"

definition Write :: "bytes \<Rightarrow> response_writer \<Rightarrow> response_writer" where
  "Write b w = (WriteHeader 200 w)\<lparr>rw_Body := rw_Body w @ b\<rparr>"

section \<open>Headers\<close>

definition header_values :: "header \<Rightarrow> string \<Rightarrow> string list" where
  "header_values h k = (case mget h k of None \<Rightarrow> [] | Some vs \<Rightarrow> vs)"

definition header_Add :: "string \<Rightarrow> string \<Rightarrow> header \<Rightarrow> header" where
  "header_Add k v h = mput k (header_values h k @ [v]) h"

definition CopyHeader :: "header \<Rightarrow> header \<Rightarrow> header" where
  "CopyHeader dst src = fold (\<lambda>(k, vv) h. fold (header_Add k) vv h) src dst"

fun ReplaceAll :: "string \<Rightarrow> string \<Rightarrow> string \<Rightarrow> string" where
  "ReplaceAll [] old new = []"
| "ReplaceAll (c # s) old new =
     (if old \<noteq> [] \<and> HasPrefix (c # s) old then new @ ReplaceAll (drop (length old - 1) s) old new else c # ReplaceAll s old new)"

definition WithRequestAccept :: "'r lite_request_scheme \<Rightarrow> 'r lite_request_scheme" where
  "WithRequestAccept req =
     (if lr_Method req = ''GET'' then
        (case lr_Info req of
           Some info \<Rightarrow>
             if IsResourceRequest info then
               let newAccept = ReplaceAll (header_get (lr_Header req) ''Accept'') ''application/vnd.kubernetes.protobuf'' ''application/json'' in
               if newAccept \<noteq> '''' then req\<lparr>lr_Header := mput ''Accept'' [newAccept] (lr_Header req)\<rparr> else req
             else req
         | None \<Rightarrow> req)
      else req)"

section \<open>Tokens\<close>

record TokenRequest =
  BoundObjectRef_Name :: "string option"
  Token :: string
  ExpirationTimestamp :: int

record Claims =
  Subject :: string
  Audience :: "string list"
  IssuedAt :: int
  NotBefore :: int
  Expiry :: int

record SerializerInfo =
  MediaType :: string
  MediaTypeType :: string
  MediaTypeSubType :: string

record proxy_env =
  ParseMediaType :: "string \<Rightarrow> go_error + string"
  SupportedMediaTypes :: "SerializerInfo list"
  SerializerInfoForMediaType :: "SerializerInfo list \<Rightarrow> string \<Rightarrow> SerializerInfo option"
  DecodeInto :: "SerializerInfo \<Rightarrow> bytes \<Rightarrow> go_error + TokenRequest"
  EncodeToken :: "SerializerInfo \<Rightarrow> TokenRequest \<Rightarrow> go_error + bytes"
  ParseAccept :: "string \<Rightarrow> (string \<times> string) list"
  NewSigner_error :: "go_error option"
  SignClaims :: "Claims \<Rightarrow> go_error + string"
  Now :: int
  decode_watch :: "bytes \<Rightarrow> (watch_event \<times> uobj) list \<times> go_error"

definition Second :: int where "Second = 10 ^ 9"

text \<open>A nil \<open>BoundObjectRef\<close> is dereferenced.\<close>

definition getToken :: "proxy_env \<Rightarrow> TokenRequest \<Rightarrow> (go_error + TokenRequest) go" where
  "getToken env tokenReq =
     (case NewSigner_error env of
        Some err \<Rightarrow> Ret (Inl err)
      | None \<Rightarrow>
          (case BoundObjectRef_Name tokenReq of
             None \<Rightarrow> Panic
           | Some name \<Rightarrow>
               (case SignClaims env \<lparr>Subject = name, Audience = [''superedge.io''], IssuedAt = Now env, NotBefore = Now env, Expiry = Now env + 100 * Second\<rparr> of
                  Inl err \<Rightarrow> Ret (Inl err)
                | Inr token \<Rightarrow> Ret (Inr (tokenReq\<lparr>Token := token, ExpirationTimestamp := Now env + 100 * Second\<rparr>)))))"

definition lite_clause_accepts :: "string \<times> string \<Rightarrow> SerializerInfo \<Rightarrow> bool" where
  "lite_clause_accepts clause accepts =
     (case clause of (t, sub) \<Rightarrow>
        t = MediaTypeType accepts \<and> sub = MediaTypeSubType accepts \<or> t = MediaTypeType accepts \<and> sub = ''*'' \<or> t = ''*'' \<and> sub = ''*'')"

fun lite_first_accepted :: "(string \<times> string) list \<Rightarrow> SerializerInfo list \<Rightarrow> SerializerInfo option" where
  "lite_first_accepted [] accepted = None"
| "lite_first_accepted (clause # clauses) accepted =
     (case find (lite_clause_accepts clause) accepted of Some s \<Rightarrow> Some s | None \<Rightarrow> lite_first_accepted clauses accepted)"

definition lite_parseAccept :: "proxy_env \<Rightarrow> string \<Rightarrow> SerializerInfo list \<Rightarrow> SerializerInfo option" where
  "lite_parseAccept env header accepted =
     (if length header = 0 \<and> length accepted > 0 then Some (hd accepted) else lite_first_accepted (ParseAccept env header) accepted)"

section \<open>The proxy\<close>

definition token_path :: "'r lite_request_scheme \<Rightarrow> bool" where
  "token_path req \<longleftrightarrow> lr_Method req = ''POST'' \<and> HasPrefix (lr_Path req) ''/api/v1/namespaces'' \<and> Contains (lr_Path req) ''serviceaccounts''"

definition makeDirector :: "string \<Rightarrow> int \<Rightarrow> proxy_request \<Rightarrow> proxy_request" where
  "makeDirector backendUrl backendPort req =
     (let req = req\<lparr>pr_Scheme := ''https'', pr_Host := backendUrl @ '':'' @ Itoa backendPort\<rparr> in
      if token_path req then
        (case pr_Body req of Inl err \<Rightarrow> req | Inr data \<Rightarrow> req\<lparr>pr_Body := Inr data, pr_TokenRequestData := Some data\<rparr>)
      else req)"

definition needCache :: "'r lite_request_scheme \<Rightarrow> bool" where
  "needCache r =
     (case lr_Info r of
        Some info \<Rightarrow> IsResourceRequest info \<and> lr_Method r = ''GET'' \<and> Subresource info \<noteq> ''log''
      | None \<Rightarrow> lr_Method r = ''GET'' \<and> HasPrefix (lr_Path r) ''/version'')"

definition ignoreCache :: "'r lite_request_scheme \<Rightarrow> request_error \<Rightarrow> bool" where
  "ignoreCache r err =
     (if \<not> needCache r then True
      else case re_class err of
        Canceled \<Rightarrow> False
      | DeadlineExceeded \<Rightarrow> False
      | NotNetError \<Rightarrow> True
      | NetError timeout opError \<Rightarrow>
          if timeout then False
          else (case opError of
             None \<Rightarrow> True
           | Some (SyscallErrno errno) \<Rightarrow> errno \<notin> {ECONNREFUSED, ETIMEDOUT, EHOSTUNREACH, ENETUNREACH, ECONNRESET}
           | Some _ \<Rightarrow> False))"

record response =
  rs_StatusCode :: int
  rs_Header :: header
  rs_Read :: "(bytes \<times> read_err option) list"
  rs_Close :: "go_error option"

text \<open>
  \<open>Inr (Some w)\<close>: the body is replaced by \<open>w\<close> and a goroutine caches what its pipe carries.
\<close>

definition modifyResponse :: "proxy_env \<Rightarrow> (response \<times> 'r lite_request_scheme option) option \<Rightarrow> go_error + multiWrite option" where
  "modifyResponse env resp =
     (case resp of
        Some (r, Some req) \<Rightarrow>
          if \<not> needCache req then Inr None
          else if rs_StatusCode r \<noteq> 200 then Inr None
          else (case lr_Info req of
             None \<Rightarrow> Inr None
           | Some info \<Rightarrow>
               if Verb info = ''watch'' \<and>
                  (case ParseMediaType env (header_get (rs_Header r) ''Content-Type'') of
                     Inl err \<Rightarrow> True
                   | Inr mediaType \<Rightarrow> mediaType \<noteq> ''application/json'' \<and> mediaType \<noteq> ''application/yaml'')
               then Inr None
               else (case MultiWrite (rs_Read r) (rs_Close r) 2 of
                  None \<Rightarrow> Inl ''The number of Reads specified by MultiWrite is less than 2''
                | Some w \<Rightarrow> Inr (Some w)))
      | _ \<Rightarrow> Inr None)"

text \<open>
  The token request of a service account when the API server cannot be reached: the answer to the client; an early return leaves
  the writer as it is. The data of the request are asserted to be there.
\<close>

definition handle_token :: "proxy_env \<Rightarrow> proxy_request \<Rightarrow> response_writer \<Rightarrow> response_writer go" where
  "handle_token env req rw =
     (case ParseMediaType env (header_get (lr_Header req) ''Content-Type'') of
        Inl err \<Rightarrow> Ret rw
      | Inr mediaType \<Rightarrow>
     case SerializerInfoForMediaType env (SupportedMediaTypes env) mediaType of
        None \<Rightarrow> Ret rw
      | Some info \<Rightarrow>
     case pr_TokenRequestData req of
        None \<Rightarrow> Panic
      | Some data \<Rightarrow>
     case DecodeInto env info data of
        Inl err \<Rightarrow> Ret rw
      | Inr tokenReq \<Rightarrow>
     go_bind (getToken env tokenReq) (\<lambda>r.
     case r of
        Inl err \<Rightarrow> Ret rw
      | Inr tokenReq \<Rightarrow>
     case lite_parseAccept env (header_get (lr_Header req) ''Accept'') (SupportedMediaTypes env) of
        None \<Rightarrow> Ret rw
      | Some acceptInfo \<Rightarrow>
     case EncodeToken env acceptInfo tokenReq of
        Inl err \<Rightarrow> Ret rw
      | Inr edata \<Rightarrow>
          Ret (Write edata (WriteHeader 200 (rw\<lparr>rw_Header := mput ''Content-Type'' [MediaType acceptInfo] (rw_Header rw)\<rparr>)))))"

definition handlerError :: "proxy_env \<Rightarrow> codec \<Rightarrow> 's storage_ops \<Rightarrow> proxy_request \<Rightarrow> request_error \<Rightarrow> 's \<Rightarrow> response_writer \<Rightarrow> response_writer go" where
  "handlerError env codec ops req err s rw =
     (if token_path req then handle_token env req rw
      else if ignoreCache req err then Ret (Write (re_Error err) (WriteHeader 503 rw))
      else go_bind (Query codec ops req s) (\<lambda>r.
        case r of
          Inl cacheErr \<Rightarrow> Ret (Write (re_Error err) (WriteHeader 404 rw))
        | Inr data \<Rightarrow> Ret (Write (Body data) (WriteHeader (StatusCode data) (rw\<lparr>rw_Header := CopyHeader (rw_Header rw) (Header data)\<rparr>)))))"

section \<open>What the cache gets of a body\<close>

text \<open>The bytes of the reads up to and including the first that ends the body.\<close>

fun sent :: "(bytes \<times> read_err option) list \<Rightarrow> bytes" where
  "sent [] = []"
| "sent ((p, None) # rs) = p @ sent rs"
| "sent ((p, Some e) # rs) = p"

text \<open>All reads up to the end of the body happen and the end is a good one.\<close>

fun complete_read :: "nat \<Rightarrow> (bytes \<times> read_err option) list \<Rightarrow> bool" where
  "complete_read 0 rs \<longleftrightarrow> False"
| "complete_read (Suc n) [] \<longleftrightarrow> True"
| "complete_read (Suc n) ((p, None) # rs) \<longleftrightarrow> complete_read n rs"
| "complete_read (Suc n) ((p, Some e) # rs) \<longleftrightarrow> e = EOF"

definition cached_of :: "nat \<Rightarrow> response \<Rightarrow> bytes option" where
  "cached_of n r = (case MultiWrite (rs_Read r) (rs_Close r) 2 of None \<Rightarrow> None | Some w \<Rightarrow> pipe_content (snd (snd (copyResponse n w))))"

definition open_pipe :: "bytes \<Rightarrow> pipe" where
  "open_pipe b = \<lparr>pi_data = b, pi_closed = False, pi_takes = None\<rparr>"

lemma pipe_Write_open: "pipe_Write b (open_pipe a) = Some (None, open_pipe (a @ b))"
  by (simp add: pipe_Write_def open_pipe_def)

lemma read_open:
  "multiWrite_Read \<lparr>mw_read = (p, err) # rs, mw_close = c, mw_writes = [open_pipe a]\<rparr> =
     Some ((p, err), if err \<noteq> None \<and> err \<noteq> Some EOF then snd (multiWrite_Close \<lparr>mw_read = rs, mw_close = c, mw_writes = [open_pipe a]\<rparr>)
       else \<lparr>mw_read = rs, mw_close = c, mw_writes = [open_pipe (a @ p)]\<rparr>)"
  by (auto simp: multiWrite_Read_def pipe_Write_open Let_def)

lemma close_content: "pipe_content (snd (multiWrite_Close \<lparr>mw_read = rs, mw_close = c, mw_writes = [open_pipe a]\<rparr>)) = (if c = None then Some a else None)"
  by (simp add: multiWrite_Close_def pipe_content_def open_pipe_def pipe_Close_def split: option.splits)

lemma close_twice: "snd (multiWrite_Close (snd (multiWrite_Close w))) = snd (multiWrite_Close w)"
  by (simp add: multiWrite_Close_def pipe_Close_def split: option.splits)

lemma copyResponse_content:
  assumes "copyResponse n \<lparr>mw_read = rs, mw_close = c, mw_writes = [open_pipe a]\<rparr> = (out, ended, w)"
  shows "ended \<and> prefix out (sent rs) \<and> (c \<noteq> None \<longrightarrow> pipe_content w = None) \<and>
    (c = None \<longrightarrow> (\<exists>b. pipe_content w = Some (a @ b) \<and> prefix b out \<and> (complete_read n rs \<longrightarrow> b = sent rs \<and> out = sent rs)))"
  using assms
proof (induction n arbitrary: rs a out ended w)
  case 0
  then show ?case using close_content [of rs c a] by auto
next
  case (Suc n)
  show ?case
  proof (cases rs)
    case Nil
    then show ?thesis using Suc.prems close_content [of rs c a] by (auto simp: multiWrite_Read_def)
  next
    case (Cons r rs')
    obtain p err where r: "r = (p, err)" by fastforce
    show ?thesis
    proof (cases err)
      case None
      obtain out' ended' w' where c: "copyResponse n \<lparr>mw_read = rs', mw_close = c, mw_writes = [open_pipe (a @ p)]\<rparr> = (out', ended', w')" by (metis prod_cases3)
      then have "out = p @ out'" "ended = ended'" "w = w'" using Suc.prems by (auto simp: Cons r None read_open)
      then show ?thesis using Suc.IH [OF c] by (auto simp: Cons r None)
    next
      case (Some e)
      then show ?thesis using Suc.prems close_content [of rs' c a] close_content [of rs' c "a @ p"]
        by (auto simp: Cons r read_open close_twice split: if_splits)
    qed
  qed
qed

text \<open>What is cached is a beginning of what was sent, and all of it when the body ended well and the client read it to the end.\<close>

lemma cached_of_prefix:
  assumes "cached_of n r = Some b"
  shows "prefix b (sent (rs_Read r))" "complete_read n (rs_Read r) \<Longrightarrow> b = sent (rs_Read r)"
proof -
  obtain out ended w where c: "copyResponse n \<lparr>mw_read = rs_Read r, mw_close = rs_Close r, mw_writes = [open_pipe '''']\<rparr> = (out, ended, w)" by (metis prod_cases3)
  then have "pipe_content w = Some b" using assms by (simp add: cached_of_def MultiWrite_def open_pipe_def)
  then have "prefix out (sent (rs_Read r)) \<and> prefix b out \<and> (complete_read n (rs_Read r) \<longrightarrow> b = sent (rs_Read r))"
    using copyResponse_content [OF c] by auto
  then show "prefix b (sent (rs_Read r))" "complete_read n (rs_Read r) \<Longrightarrow> b = sent (rs_Read r)" by (auto intro: prefix_order.trans)
qed

text \<open>
  A connection that breaks in the middle of a body ends the pipe like a complete body: the beginning is cached as the whole.
\<close>

lemma broken_body_cached:
  "cached_of (Suc n) \<lparr>rs_StatusCode = 200, rs_Header = h, rs_Read = [(p, None), (q, Some (ReadErr ''unexpected EOF''))], rs_Close = None\<rparr> =
     Some p"
  by (cases n) (simp_all add: cached_of_def MultiWrite_def read_open close_content close_twice flip: open_pipe_def)

text \<open>Once the reader of the pipe has gone without closing it, the client gets no further byte.\<close>

lemma stopped_reader_blocks:
  assumes "p \<noteq> []" "err = None \<or> err = Some EOF"
  shows "multiWrite_Read \<lparr>mw_read = (p, err) # rs, mw_close = c, mw_writes = [\<lparr>pi_data = b, pi_closed = False, pi_takes = Some 0\<rparr>]\<rparr> = None"
  using assms by (auto simp: multiWrite_Read_def pipe_Write_def Let_def)

section \<open>Headers\<close>

lemma header_Add_values: "header_values (header_Add k v h) x = (if x = k then header_values h k @ [v] else header_values h x)"
  by (simp add: header_Add_def header_values_def mget_mput)

lemma fold_header_Add: "header_values (fold (header_Add k) vv h) x = (if x = k then header_values h k @ vv else header_values h x)"
  by (induction vv arbitrary: h) (simp_all add: header_Add_values)

lemma CopyHeader_values: "mwf src \<Longrightarrow> header_values (CopyHeader dst src) x = header_values dst x @ header_values src x"
proof (induction src arbitrary: dst)
  case (Cons kv src)
  obtain k vv where kv: "kv = (k, vv)" by fastforce
  have "mwf src" "mget src k = None" using Cons.prems by (auto simp: mwf_def kv map_of_eq_None_iff)
  moreover from this have "x = k \<Longrightarrow> header_values src x = []" by (simp add: header_values_def)
  moreover have "header_values (kv # src) x = (if x = k then vv else header_values src x)" by (simp add: header_values_def kv)
  moreover have "header_values (CopyHeader dst (kv # src)) x = header_values (CopyHeader (fold (header_Add k) vv dst) src) x"
    by (simp add: CopyHeader_def kv)
  ultimately show ?case using Cons.IH [of "fold (header_Add k) vv dst"] by (auto simp: fold_header_Add)
qed (simp add: CopyHeader_def header_values_def)

section \<open>Runs of the proxy\<close>

text \<open>
  A goroutine that caches: the whole body of a response to store, or the remaining events of a watch with the key of its list.
  A response is one event of a run; its goroutine then runs at any time, a watch one event at a time, interleaved with all others.
\<close>

datatype task = StoreTask proxy_request int header bytes | WatchTask string "(watch_event \<times> uobj) list"

datatype lite_event = Responded proxy_request response nat | Ran | Answered proxy_request request_error response_writer

record 's lite_state =
  li_store :: 's
  li_tasks :: "task list"

definition pipe_written :: "multiWrite \<Rightarrow> bytes" where
  "pipe_written w = (case mw_writes w of [] \<Rightarrow> [] | p # _ \<Rightarrow> pi_data p)"

definition start_tasks :: "proxy_env \<Rightarrow> proxy_request \<Rightarrow> response \<Rightarrow> nat \<Rightarrow> task list" where
  "start_tasks env req r n =
     (case modifyResponse env (Some (r, Some req)) of
        Inr (Some w) \<Rightarrow>
          let w = snd (snd (copyResponse n w)) in
          (case lr_Info req of
             None \<Rightarrow> []
           | Some info \<Rightarrow>
               if Verb info = ''watch'' then [WatchTask (cacheKey (getUserAgent req) info) (fst (decode_watch env (pipe_written w)))]
               else (case pipe_content w of None \<Rightarrow> [] | Some data \<Rightarrow> [StoreTask req (rs_StatusCode r) (rs_Header r) data]))
      | _ \<Rightarrow> [])"

definition remove_nth :: "nat \<Rightarrow> 'a list \<Rightarrow> 'a list" where
  "remove_nth i xs = take i xs @ drop (Suc i) xs"

definition whole_body :: "bytes \<Rightarrow> resp_body" where
  "whole_body data = \<lparr>rb_bytes = Inr data, rb_events = [], rb_end = ''''\<rparr>"

inductive lite_step :: "proxy_env \<Rightarrow> codec \<Rightarrow> 's storage_ops \<Rightarrow> string \<Rightarrow> int \<Rightarrow> 's lite_state \<Rightarrow> lite_event \<Rightarrow> 's lite_state \<Rightarrow> bool"
  for env codec ops url port where
  respond: "lite_step env codec ops url port st (Responded req r n) (st\<lparr>li_tasks := li_tasks st @ start_tasks env (makeDirector url port req) r n\<rparr>)"
| store: "i < length (li_tasks st) \<Longrightarrow> li_tasks st ! i = StoreTask req code h data \<Longrightarrow>
    Cache codec ops req code h (whole_body data) (li_store st) = Ret (err, s') \<Longrightarrow>
    lite_step env codec ops url port st Ran \<lparr>li_store = s', li_tasks = remove_nth i (li_tasks st)\<rparr>"
| watch: "i < length (li_tasks st) \<Longrightarrow> li_tasks st ! i = WatchTask key ((t, obj) # evs) \<Longrightarrow>
    watch_step codec ops key t obj (li_store st) = Ret (Inr (), s') \<Longrightarrow>
    lite_step env codec ops url port st Ran \<lparr>li_store = s', li_tasks = (li_tasks st)[i := WatchTask key evs]\<rparr>"
| watch_error: "i < length (li_tasks st) \<Longrightarrow> li_tasks st ! i = WatchTask key ((t, obj) # evs) \<Longrightarrow>
    watch_step codec ops key t obj (li_store st) = Ret (Inl err, s') \<Longrightarrow>
    lite_step env codec ops url port st Ran \<lparr>li_store = s', li_tasks = remove_nth i (li_tasks st)\<rparr>"
| answer: "handlerError env codec ops (makeDirector url port req) err (li_store st) empty_writer = Ret w \<Longrightarrow>
    lite_step env codec ops url port st (Answered req err w) st"

inductive_cases lite_answerE: "lite_step env codec ops url port st (Answered req err w) st'"

inductive lite_run :: "proxy_env \<Rightarrow> codec \<Rightarrow> 's storage_ops \<Rightarrow> string \<Rightarrow> int \<Rightarrow> 's \<Rightarrow> lite_event list \<Rightarrow> 's lite_state \<Rightarrow> bool"
  for env codec ops url port s0 where
  start: "lite_run env codec ops url port s0 [] \<lparr>li_store = s0, li_tasks = []\<rparr>"
| step: "lite_run env codec ops url port s0 evs st \<Longrightarrow> lite_step env codec ops url port st ev st' \<Longrightarrow> lite_run env codec ops url port s0 (evs @ [ev]) st'"

text \<open>The requests of a run name their objects as the API server allows.\<close>

fun event_wf :: "lite_event \<Rightarrow> bool" where
  "event_wf (Responded req r n) \<longleftrightarrow> (case lr_Info req of None \<Rightarrow> True | Some info \<Rightarrow> IsResourceRequest info \<longrightarrow> key_info info)"
| "event_wf _ \<longleftrightarrow> True"

text \<open>The response \<open>c\<close> in the cache comes from the API server, for the object \<open>i\<close> and the user agent \<open>ua\<close>.\<close>

definition sent_before :: "lite_event list \<Rightarrow> string \<Rightarrow> RequestInfo \<Rightarrow> EdgeCache \<Rightarrow> bool" where
  "sent_before evs ua i c \<longleftrightarrow>
     (\<exists>req r n info b. Responded req r n \<in> set evs \<and> lr_Info req = Some info \<and> Verb info = ''get'' \<and> same_target i info \<and>
        replace_slash ua = replace_slash (getUserAgent req) \<and> rs_StatusCode r = 200 \<and> cached_of n r = Some b \<and>
        c = NewEdgeCache 200 (mdel ''Content-Length'' (rs_Header r)) b)"

lemma sent_before_mono: "sent_before evs ua i c \<Longrightarrow> sent_before (evs @ evs') ua i c"
  unfolding sent_before_def by (metis Un_iff set_append)

fun task_ok :: "string \<Rightarrow> int \<Rightarrow> lite_event list \<Rightarrow> task \<Rightarrow> bool" where
  "task_ok url port evs (StoreTask req code h data) \<longleftrightarrow>
     (\<exists>req0 r n info. Responded req0 r n \<in> set evs \<and> req = makeDirector url port req0 \<and> lr_Info req0 = Some info \<and> key_info info \<and> code = 200 \<and>
        rs_StatusCode r = 200 \<and> h = rs_Header r \<and> cached_of n r = Some data \<and> Verb info \<noteq> ''watch'')"
| "task_ok url port evs (WatchTask key events) \<longleftrightarrow> (\<exists>ua info. key = cacheKey ua info \<and> key_info info)"

lemma task_ok_mono: "task_ok url port evs t \<Longrightarrow> task_ok url port (evs @ evs') t"
  by (cases t) auto

lemma makeDirector_keeps [simp]:
  "lr_Info (makeDirector url port req) = lr_Info req" "lr_Header (makeDirector url port req) = lr_Header req"
  "lr_Method (makeDirector url port req) = lr_Method req" "lr_Path (makeDirector url port req) = lr_Path req"
  by (simp_all add: makeDirector_def Let_def split: sum.splits)

lemma needCache_director [simp]: "needCache (makeDirector url port req) = needCache req"
  by (simp add: needCache_def cong: option.case_cong)

lemma request_keeps [simp]:
  "getUserAgent (makeDirector url port req) = getUserAgent req"
  "token_path (makeDirector url port req) = token_path req" "ignoreCache (makeDirector url port req) err = ignoreCache req err"
  by (simp_all add: getUserAgent_def token_path_def ignoreCache_def)

lemma set_remove_nth: "set (remove_nth i xs) \<subseteq> set xs"
  by (auto simp: remove_nth_def dest: in_set_takeD in_set_dropD)

lemma start_tasks_ok:
  assumes "event_wf (Responded req r n)" "t \<in> set (start_tasks env (makeDirector url port req) r n)"
  shows "task_ok url port (evs @ [Responded req r n]) t"
proof -
  let ?req = "makeDirector url port req"
  obtain w where w: "modifyResponse env (Some (r, Some ?req)) = Inr (Some w)"
    using assms(2) by (cases "modifyResponse env (Some (r, Some ?req))") (auto simp: start_tasks_def split: option.split_asm)
  obtain info where info: "lr_Info req = Some info" using assms(2) w by (cases "lr_Info req") (auto simp: start_tasks_def)
  have r: "rs_StatusCode r = 200" "needCache ?req" "MultiWrite (rs_Read r) (rs_Close r) 2 = Some w"
    using w by (auto simp: modifyResponse_def info split: if_splits option.splits)
  then have key: "key_info info" using assms(1) by (simp add: needCache_def info)
  show ?thesis
  proof (cases "Verb info = ''watch''")
    case True
    then show ?thesis using assms(2) w info key by (auto simp: start_tasks_def Let_def)
  next
    case False
    then obtain data where "pipe_content (snd (snd (copyResponse n w))) = Some data" "t = StoreTask ?req 200 (rs_Header r) data"
      using assms(2) w info r(1) by (cases "pipe_content (snd (snd (copyResponse n w)))") (auto simp: start_tasks_def Let_def)
    moreover have "cached_of n r = pipe_content (snd (snd (copyResponse n w)))" by (simp add: cached_of_def r(3))
    ultimately show ?thesis using r(1) info key False by auto
  qed
qed

lemma watch_step_stores:
  "case watch_step codec ops key t obj s of Panic \<Rightarrow> True | Ret (r, s') \<Rightarrow> s' = s \<or> (\<exists>d e. StoreList ops key d s = (e, s'))"
  unfolding watch_step_def go_bind_def Let_def by (auto split: go.split sum.split option.split prod.split)

context keyed_storage
begin

text \<open>Of what can be loaded for an object, caching changes at most the place of a get request.\<close>

lemma Cache_one:
  assumes "Cache codec ops req code h body s = Ret (err, s')" "lr_Info req = Some info" "key_info info" "key_info i" "Verb info \<noteq> ''watch''"
  shows "LoadOne ops (cacheKey ua i) s' =
    (if err = None \<and> Verb info = ''get'' \<and> one_place (cacheKey ua i) = one_place (cacheKey (getUserAgent req) info)
     then Ret (Inr (projr (MarshalEdgeCache codec (NewEdgeCache code (mdel ''Content-Length'' h) (projr (rb_bytes body))))))
     else LoadOne ops (cacheKey ua i) s)"
proof -
  let ?key = "cacheKey (getUserAgent req) info"
  note valid = key_valid [OF assms(3), of "getUserAgent req"] key_valid [OF assms(4), of ua]
  have lists: "StoreList ops ?key d s = (e, s1) \<Longrightarrow> LoadOne ops (cacheKey ua i) s1 = LoadOne ops (cacheKey ua i) s" for d e s1
    using store_list_one [OF valid, of d s e s1] key_apart [OF assms(4,3), of ua "getUserAgent req"] by auto
  have ones: "StoreOne ops ?key d s = (e, s1) \<Longrightarrow> LoadOne ops (cacheKey ua i) s1 =
      (if e = None \<and> one_place (cacheKey ua i) = one_place ?key then Ret (Inr d) else LoadOne ops (cacheKey ua i) s)" for d e s1
    by (rule store_one [OF valid])
  show ?thesis
  proof (cases "rb_bytes body")
    case (Inl e)
    then show ?thesis using assms(1,2,5) by (auto simp: Cache_def handleCache_def)
  next
    case (Inr buf)
    consider "Verb info = ''list''" | "Verb info = ''get''" | "Verb info \<noteq> ''list''" "Verb info \<noteq> ''get''" by blast
    then show ?thesis
    proof cases
      case 1
      then have "cacheList codec ops ?key code (mdel ''Content-Length'' h) buf s = (err, s')"
        using assms(1,2) by (simp add: Cache_def handleCache_def Inr Let_def)
      then have "LoadOne ops (cacheKey ua i) s' = LoadOne ops (cacheKey ua i) s"
        by (auto simp: cacheList_def store_response_def split: if_splits sum.splits intro: lists)
      then show ?thesis using 1 by simp
    next
      case 2
      then have "cacheGet codec ops ?key code (mdel ''Content-Length'' h) buf s = (err, s')"
        using assms(1,2) by (simp add: Cache_def handleCache_def Inr Let_def)
      then show ?thesis using 2 by (auto simp: cacheGet_def store_response_def Inr ones split: sum.splits)
    next
      case 3
      then show ?thesis using assms(1,2,5) by (simp add: Cache_def handleCache_def Inr Let_def)
    qed
  qed
qed

lemma watch_step_one:
  assumes "watch_step codec ops (cacheKey ub j) t obj s = Ret (r, s')" "key_info j" "key_info i"
  shows "LoadOne ops (cacheKey ua i) s' = LoadOne ops (cacheKey ua i) s"
proof -
  have "StoreList ops (cacheKey ub j) d s = (e, s1) \<Longrightarrow> LoadOne ops (cacheKey ua i) s1 = LoadOne ops (cacheKey ua i) s" for d e s1
    using store_list_one [OF key_valid [OF assms(2)] key_valid [OF assms(3)], of ub d s e s1 ua] key_apart [OF assms(3,2), of ua ub] by auto
  moreover have "s' = s \<or> (\<exists>d e. StoreList ops (cacheKey ub j) d s = (e, s'))"
    using watch_step_stores [where codec = codec and ops = ops and key = "cacheKey ub j" and t = t and obj = obj and s = s] by (simp add: assms(1))
  ultimately show ?thesis by blast
qed

definition origin :: "codec \<Rightarrow> lite_event list \<Rightarrow> 'a \<Rightarrow> bool" where
  "origin codec evs s \<longleftrightarrow> (\<forall>ua i d. key_info i \<longrightarrow> LoadOne ops (cacheKey ua i) s = Ret (Inr d) \<longrightarrow>
     (\<exists>c. UnmarshalEdgeCache codec d = Inr c \<and> sent_before evs ua i c))"

lemma origin_step:
  assumes "codec_ok codec" "lite_step env codec ops url port st ev st'" "event_wf ev"
    and inv: "origin codec evs (li_store st)" "\<forall>t\<in>set (li_tasks st). task_ok url port evs t"
  shows "origin codec (evs @ [ev]) (li_store st') \<and> (\<forall>t\<in>set (li_tasks st'). task_ok url port (evs @ [ev]) t)"
proof -
  have old: "origin codec (evs @ [ev]) s" if "\<And>ua i. key_info i \<Longrightarrow> LoadOne ops (cacheKey ua i) s = LoadOne ops (cacheKey ua i) (li_store st)" for s
    using inv(1) that sent_before_mono unfolding origin_def by metis
  have tasks: "\<forall>t\<in>set ts. task_ok url port (evs @ [ev]) t" if "set ts \<subseteq> set (li_tasks st)" for ts
    using inv(2) that task_ok_mono by blast
  from assms(2) show ?thesis
  proof cases
    case (respond req r n)
    have "task_ok url port (evs @ [ev]) t" if "t \<in> set (start_tasks env (makeDirector url port req) r n)" for t
      using start_tasks_ok that assms(3) respond(1) by blast
    then show ?thesis using respond old [of "li_store st"] tasks [of "li_tasks st"] by auto
  next
    case (store i req code h data err s')
    have "task_ok url port evs (StoreTask req code h data)" using inv(2) store(3,4) by (metis nth_mem)
    then obtain req0 r n info where t: "Responded req0 r n \<in> set evs" "req = makeDirector url port req0" "lr_Info req0 = Some info" "key_info info" "code = 200"
        "rs_StatusCode r = 200" "h = rs_Header r" "cached_of n r = Some data" "Verb info \<noteq> ''watch''"
      by auto
    let ?c = "NewEdgeCache 200 (mdel ''Content-Length'' (rs_Header r)) data"
    obtain x where x: "MarshalEdgeCache codec ?c = Inr x" "UnmarshalEdgeCache codec x = Inr ?c" using codec_okD(1) [OF assms(1)] by blast
    have "\<exists>c. UnmarshalEdgeCache codec d = Inr c \<and> sent_before (evs @ [ev]) ua i c" if i: "key_info i" and d: "LoadOne ops (cacheKey ua i) s' = Ret (Inr d)" for ua i d
    proof (cases "err = None \<and> Verb info = ''get'' \<and> one_place (cacheKey ua i) = one_place (cacheKey (getUserAgent req) info)")
      case True
      then have "d = x" using Cache_one [OF store(5), of info i ua] t i d x(1) by (simp add: whole_body_def)
      moreover have "sent_before evs ua i ?c"
        unfolding sent_before_def using True key_one [OF i t(4), of ua "getUserAgent req"] t(1-3,6,8) by (intro exI [of _ req0] exI [of _ r] exI [of _ n] exI [of _ info] exI [of _ data]) simp
      ultimately show ?thesis using x(2) sent_before_mono by blast
    next
      case False
      then have "LoadOne ops (cacheKey ua i) (li_store st) = Ret (Inr d)" using Cache_one [OF store(5), of info i ua] t i d False by (auto split: if_splits)
      then show ?thesis using inv(1) i sent_before_mono unfolding origin_def by blast
    qed
    then show ?thesis using store(1,2) tasks [OF set_remove_nth] by (auto simp: origin_def)
  next
    case (watch i key t obj events s')
    have ok: "task_ok url port evs (WatchTask key ((t, obj) # events))" using inv(2) watch(3,4) by (metis nth_mem)
    then have "task_ok url port (evs @ [ev]) (WatchTask key events)" by simp
    then have "\<forall>t\<in>set ((li_tasks st)[i := WatchTask key events]). task_ok url port (evs @ [ev]) t"
      using tasks [of "li_tasks st"] set_update_subset_insert [of "li_tasks st" i "WatchTask key events"] by blast
    moreover have "origin codec (evs @ [ev]) s'" using ok watch(5) watch_step_one by (intro old) auto
    ultimately show ?thesis using watch(1,2) by simp
  next
    case (watch_error i key t obj events err s')
    have "task_ok url port evs (WatchTask key ((t, obj) # events))" using inv(2) watch_error(3,4) by (metis nth_mem)
    then have "origin codec (evs @ [ev]) s'" using watch_error(5) watch_step_one by (intro old) auto
    then show ?thesis using watch_error(1,2) tasks [OF set_remove_nth] by simp
  next
    case (answer req err w)
    then show ?thesis using old [of "li_store st"] tasks [of "li_tasks st"] by simp
  qed
qed

lemma origin_run:
  assumes "lite_run env codec ops url port s0 evs st" "codec_ok codec" "list_all event_wf evs" "\<And>k d. LoadOne ops k s0 \<noteq> Ret (Inr d)"
  shows "origin codec evs (li_store st) \<and> (\<forall>t\<in>set (li_tasks st). task_ok url port evs t)"
  using assms(1,3)
proof (induction rule: lite_run.induct)
  case start
  then show ?case by (simp add: origin_def assms(4))
next
  case (step evs st ev st')
  then show ?case using origin_step [OF assms(2) step.hyps(2)] by simp
qed

text \<open>What is answered to a get request comes from the API server.\<close>

lemma answered_get:
  assumes "lite_run env codec ops url port s0 evs st" "codec_ok codec" "list_all event_wf evs" "\<And>k d. LoadOne ops k s0 \<noteq> Ret (Inr d)"
    and "lite_step env codec ops url port st (Answered req err w) st'"
    and "lr_Info req = Some info" "key_info info" "Verb info = ''get''" "lr_Method req = ''GET''" "\<not> ignoreCache req err"
  shows "w = Write (re_Error err) (WriteHeader 404 empty_writer) \<or>
    (\<exists>c. sent_before evs (getUserAgent req) info c \<and> w = Write (Body c) (WriteHeader 200 (empty_writer\<lparr>rw_Header := CopyHeader [] (Header c)\<rparr>)))"
proof -
  let ?req = "makeDirector url port req" and ?key = "cacheKey (getUserAgent req) info"
  have "handlerError env codec ops ?req err (li_store st) empty_writer = Ret w" using assms(5) by (rule lite_answerE) simp
  moreover have "\<not> token_path ?req" using assms(9) by (simp add: token_path_def)
  ultimately obtain q where q: "Query codec ops ?req (li_store st) = Ret q" and
    w: "w = (case q of Inl e \<Rightarrow> Write (re_Error err) (WriteHeader 404 empty_writer)
       | Inr c \<Rightarrow> Write (Body c) (WriteHeader (StatusCode c) (empty_writer\<lparr>rw_Header := CopyHeader (rw_Header empty_writer) (Header c)\<rparr>)))"
    using assms(10) by (cases "Query codec ops ?req (li_store st)") (auto simp: handlerError_def split: sum.splits)
  show ?thesis
  proof (cases q)
    case (Inl e)
    then show ?thesis by (simp add: w)
  next
    case (Inr c)
    then obtain d where "LoadOne ops ?key (li_store st) = Ret (Inr d)" "UnmarshalEdgeCache codec d = Inr c"
      using q assms(6,8) by (cases "LoadOne ops ?key (li_store st)") (auto simp: Query_def handleQuery_def split: sum.split_asm)
    then have "sent_before evs (getUserAgent req) info c"
      using origin_run [OF assms(1-4)] assms(7) unfolding origin_def by fastforce
    moreover from this have "StatusCode c = 200" by (auto simp: sent_before_def NewEdgeCache_def)
    ultimately show ?thesis using w Inr by (auto simp: empty_writer_def)
  qed
qed

end

text \<open>
  C7: In every run of the proxy on the file storage, with goroutines interleaved in any way, storage faults at any time and
  connections that break: a get request that is answered from the cache gets status 404 with the error, or status 200 with a body and headers that the API
  server had sent before for the same object, resource, namespace and subresource to the same user agent (up to slashes and underscores). The body is a beginning of what was
  sent, and all of it if the client read that response to a good end.
\<close>

theorem offline_get_was_sent:
  assumes "lite_run env codec (file_ops fenv) url port \<lparr>files = [], drawn = 0\<rparr> evs st" "codec_ok codec" "list_all event_wf evs"
    and "lite_step env codec (file_ops fenv) url port st (Answered req err w) st'"
    and "lr_Info req = Some info" "key_info info" "Verb info = ''get''" "lr_Method req = ''GET''" "\<not> ignoreCache req err"
  shows "rw_Code w = Some 404 \<and> rw_Body w = re_Error err \<or>
    (\<exists>req0 r n info0. Responded req0 r n \<in> set evs \<and> lr_Info req0 = Some info0 \<and> Verb info0 = ''get'' \<and> same_target info info0 \<and>
       replace_slash (getUserAgent req) = replace_slash (getUserAgent req0) \<and> rs_StatusCode r = 200 \<and> rw_Code w = Some 200 \<and>
       prefix (rw_Body w) (sent (rs_Read r)) \<and> (complete_read n (rs_Read r) \<longrightarrow> rw_Body w = sent (rs_Read r)) \<and>
       (mwf (rs_Header r) \<longrightarrow> (\<forall>k. k \<noteq> ''Content-Length'' \<longrightarrow> header_values (rw_Header w) k = header_values (rs_Header r) k)))"
proof -
  have empty: "LoadOne (file_ops fenv) k \<lparr>files = [], drawn = 0\<rparr> \<noteq> Ret (Inr d)" for k d by (simp add: file_defs readFile_def)
  consider "w = Write (re_Error err) (WriteHeader 404 empty_writer)"
    | c where "sent_before evs (getUserAgent req) info c" "w = Write (Body c) (WriteHeader 200 (empty_writer\<lparr>rw_Header := CopyHeader [] (Header c)\<rparr>))"
    using keyed_files.answered_get [OF assms(1-3) empty assms(4-9)] by blast
  then show ?thesis
  proof cases
    case 1
    then show ?thesis by (simp add: Write_def WriteHeader_def empty_writer_def)
  next
    case 2
    from 2(1) obtain req0 r n info0 b where r: "Responded req0 r n \<in> set evs" "lr_Info req0 = Some info0" "Verb info0 = ''get''" "same_target info info0"
        "replace_slash (getUserAgent req) = replace_slash (getUserAgent req0)" "rs_StatusCode r = 200" "cached_of n r = Some b"
        "c = NewEdgeCache 200 (mdel ''Content-Length'' (rs_Header r)) b"
      unfolding sent_before_def by blast
    have w: "rw_Code w = Some 200" "rw_Body w = b" "rw_Header w = CopyHeader [] (mdel ''Content-Length'' (rs_Header r))"
      using 2(2) by (simp_all add: r(8) Write_def WriteHeader_def empty_writer_def NewEdgeCache_def)
    have "header_values (rw_Header w) k = header_values (rs_Header r) k" if "mwf (rs_Header r)" "k \<noteq> ''Content-Length''" for k
      using CopyHeader_values [OF mwf_mdel [OF that(1), of "''Content-Length''"], of "[]" k] that(2) by (simp add: w(3) header_values_def mget_mdel)
    then show ?thesis using r(1-6) w(1,2) cached_of_prefix [OF r(7)] by blast
  qed
qed

section \<open>The last response\<close>

text \<open>Calls of \<open>Cache\<close> one after the other; their errors are only logged.\<close>

type_synonym cache_call = "lite_request \<times> int \<times> header \<times> resp_body"

fun Cache_all :: "codec \<Rightarrow> 's storage_ops \<Rightarrow> cache_call list \<Rightarrow> 's \<Rightarrow> 's go" where
  "Cache_all codec ops [] s = Ret s"
| "Cache_all codec ops ((req, code, h, body) # calls) s = go_bind (Cache codec ops req code h body s) (\<lambda>(err, s'). Cache_all codec ops calls s')"

text \<open>A call that is not a get request of the same object by the same user agent.\<close>

definition elsewhere :: "string \<Rightarrow> RequestInfo \<Rightarrow> cache_call \<Rightarrow> bool" where
  "elsewhere ua i call =
     (case lr_Info (fst call) of
        None \<Rightarrow> True
      | Some j \<Rightarrow> key_info j \<and> \<not> (Verb j = ''get'' \<and> same_target i j \<and> replace_slash ua = replace_slash (getUserAgent (fst call))))"

context keyed_storage
begin

lemma cacheWatch_one:
  assumes "key_info j" "key_info i" "cacheWatch codec ops (cacheKey ub j) events fin s = Ret (err, s')"
  shows "LoadOne ops (cacheKey ua i) s' = LoadOne ops (cacheKey ua i) s"
  using assms(3)
proof (induction events arbitrary: s)
  case (Cons ev events)
  obtain t obj where ev: "ev = (t, obj)" by fastforce
  obtain r s1 where r: "watch_step codec ops (cacheKey ub j) t obj s = Ret (r, s1)" using Cons.prems by (auto simp: ev go_bind_eq_Ret)
  have "LoadOne ops (cacheKey ua i) s' = LoadOne ops (cacheKey ua i) s1"
    using Cons.prems Cons.IH [of s1] by (cases r) (auto simp: ev r)
  then show ?case using watch_step_one [OF r assms(1,2)] by simp
qed simp

lemma elsewhere_keeps:
  assumes "Cache codec ops req code h body s = Ret (err, s')" "key_info i" "elsewhere ua i (req, code, h, body)"
  shows "LoadOne ops (cacheKey ua i) s' = LoadOne ops (cacheKey ua i) s"
proof (cases "lr_Info req")
  case None
  then show ?thesis using assms(1) by (simp add: Cache_def)
next
  case (Some j)
  then have j: "key_info j" "\<not> (Verb j = ''get'' \<and> same_target i j \<and> replace_slash ua = replace_slash (getUserAgent req))"
    using assms(3) by (simp_all add: elsewhere_def)
  show ?thesis
  proof (cases "Verb j = ''watch''")
    case True
    then obtain e where "cacheWatch codec ops (cacheKey (getUserAgent req) j) (rb_events body) (rb_end body) s = Ret (e, s')"
      using assms(1) Some by (auto simp: Cache_def handleCache_def go_bind_eq_Ret)
    then show ?thesis by (rule cacheWatch_one [OF j(1) assms(2)])
  next
    case False
    then show ?thesis using Cache_one [OF assms(1) Some j(1) assms(2), of ua] key_one [OF assms(2) j(1), of ua "getUserAgent req"] j(2) by auto
  qed
qed

lemma Cache_all_keeps:
  "Cache_all codec ops calls s = Ret s' \<Longrightarrow> key_info i \<Longrightarrow> list_all (elsewhere ua i) calls \<Longrightarrow> LoadOne ops (cacheKey ua i) s' = LoadOne ops (cacheKey ua i) s"
proof (induction calls arbitrary: s)
  case (Cons call calls)
  obtain req code h body where call: "call = (req, code, h, body)" by (metis prod_cases4)
  then obtain err s1 where 1: "Cache codec ops req code h body s = Ret (err, s1)" "Cache_all codec ops calls s1 = Ret s'"
    using Cons.prems(1) by (auto simp: go_bind_eq_Ret)
  show ?case using elsewhere_keeps [OF 1(1) Cons.prems(2)] Cons.IH [OF 1(2)] Cons.prems by (simp add: call)
qed simp

end

text \<open>The file storage does not panic.\<close>

lemma file_watch_returns: "\<exists>r s'. watch_step codec (file_ops env) key t obj s = Ret (r, s')"
  unfolding watch_step_def go_bind_def Let_def by (auto simp: file_defs split: go.split sum.split option.split prod.split)

lemma file_cacheWatch_returns: "\<exists>err s'. cacheWatch codec (file_ops env) key events fin s = Ret (err, s')"
proof (induction events arbitrary: s)
  case (Cons ev events)
  obtain t obj where ev: "ev = (t, obj)" by fastforce
  obtain r s1 where "watch_step codec (file_ops env) key t obj s = Ret (r, s1)" using file_watch_returns by blast
  then show ?case using Cons.IH [of s1] by (cases r) (simp_all add: ev)
qed simp

lemma file_Cache_returns: "\<exists>err s'. Cache codec (file_ops env) req code h body s = Ret (err, s')"
proof (cases "lr_Info req")
  case (Some info)
  obtain e s1 where "cacheWatch codec (file_ops env) (cacheKey (getUserAgent req) info) (rb_events body) (rb_end body) s = Ret (e, s1)"
    using file_cacheWatch_returns by blast
  then show ?thesis
    using surj_pair by (cases "rb_bytes body") (auto simp: Cache_def handleCache_def Some Let_def)
qed (simp add: Cache_def)

lemma file_Cache_all_returns: "\<exists>s'. Cache_all codec (file_ops env) calls s = Ret s'"
proof (induction calls arbitrary: s)
  case (Cons call calls)
  obtain req code h body where call: "call = (req, code, h, body)" by (metis prod_cases4)
  obtain err s1 where "Cache codec (file_ops env) req code h body s = Ret (err, s1)" using file_Cache_returns by blast
  then show ?case using Cons.IH [of s1] by (simp add: call)
qed simp

text \<open>
  C30: A response to a get request that the file storage accepted is what the cache answers to that request, whatever is cached afterwards for
  other objects, other user agents, lists and watches, with storage faults in between.
\<close>

theorem offline_get_latest:
  assumes "codec_ok codec" "lr_Info req = Some info" "Verb info = ''get''" "key_info info"
    and "Cache codec (file_ops env) req code h body s = Ret (None, s1)" "list_all (elsewhere (getUserAgent req) info) calls"
  shows "\<exists>buf s2. rb_bytes body = Inr buf \<and> Cache_all codec (file_ops env) calls s1 = Ret s2 \<and>
    Query codec (file_ops env) req s2 = Ret (Inr (NewEdgeCache code (mdel ''Content-Length'' h) buf))"
proof -
  obtain buf where buf: "rb_bytes body = Inr buf" "Query codec (file_ops env) req s1 = Ret (Inr (NewEdgeCache code (mdel ''Content-Length'' h) buf))"
    using filesys.Cache_Query_get [OF assms(1-3) keyed_files.key_valid [OF assms(4)] assms(5)] by blast
  obtain s2 where s2: "Cache_all codec (file_ops env) calls s1 = Ret s2" using file_Cache_all_returns by blast
  have "Query codec (file_ops env) req s2 = Query codec (file_ops env) req s1"
    using keyed_files.Cache_all_keeps [OF s2 assms(4,6)] assms(2,3) by (simp add: Query_def handleQuery_def)
  then show ?thesis using buf s2 by simp
qed

definition sample_list_call :: cache_call where
  "sample_list_call = (sample_request ''list'' '''', 200, [], whole_body sample_body)"

theorem offline_get_latest_witness:
  "\<exists>s1 s2. Cache sample_codec (file_ops sample_file_env) (sample_request ''get'' ''a'') 200 [] (whole_body ''pod a'') \<lparr>files = [], drawn = 0\<rparr> = Ret (None, s1) \<and>
     Cache_all sample_codec (file_ops sample_file_env) [sample_list_call, (sample_request ''get'' ''b'', 200, [], whole_body ''pod b'')] s1 = Ret s2 \<and>
     Query sample_codec (file_ops sample_file_env) (sample_request ''get'' ''a'') s2 = Ret (Inr (NewEdgeCache 200 [] ''pod a''))"
proof -
  let ?req = "sample_request ''get'' ''a''" and ?info = "sample_info ''get'' ''a''"
  have key: "key_info (sample_info v n)" if "no_sep n" for v n using that by (simp add: key_info_def sample_info_def no_sep_def)
  have no: "no_sep ''a''" "no_sep ''b''" "no_sep ''''" by (simp_all add: no_sep_def)
  have info: "lr_Info (sample_request v n) = Some (sample_info v n)" for v n by (simp add: sample_request_def)
  have "\<exists>s1. Cache sample_codec (file_ops sample_file_env) ?req 200 [] (whole_body ''pod a'') \<lparr>files = [], drawn = 0\<rparr> = Ret (None, s1)"
    by (simp add: Cache_def info handleCache_def cacheGet_def store_response_def sample_codec_def whole_body_def sample_info_def file_defs writeFile_def
        sample_file_env_def Let_def split: prod.splits)
  then obtain s1 where s1: "Cache sample_codec (file_ops sample_file_env) ?req 200 [] (whole_body ''pod a'') \<lparr>files = [], drawn = 0\<rparr> = Ret (None, s1)" by blast
  have "list_all (elsewhere (getUserAgent ?req) ?info) [sample_list_call, (sample_request ''get'' ''b'', 200, [], whole_body ''pod b'')]"
    using key no by (simp add: elsewhere_def sample_list_call_def info) (simp add: sample_info_def same_target_def)
  from offline_get_latest [OF sample_codec_ok info _ key [OF no(1)] s1 this] s1 show ?thesis
    by (auto simp: sample_info_def whole_body_def)
qed

section \<open>Requests that are not cached\<close>

text \<open>
  Every request that passes the filter for request infos has one, so \<open>/version\<close>, which is no resource, is never cached.
\<close>

lemma version_not_cached:
  assumes "lr_Info req = Some info" "\<not> IsResourceRequest info"
  shows "\<not> needCache req" "modifyResponse env (Some (r, Some req)) = Inr None"
  using assms by (simp_all add: needCache_def modifyResponse_def)

text \<open>A token request without an object reference panics; one that fails otherwise leaves an empty answer, which is sent with status 200.\<close>

lemma token_without_reference:
  assumes "ParseMediaType env (header_get (lr_Header req) ''Content-Type'') = Inr mt" "SerializerInfoForMediaType env (SupportedMediaTypes env) mt = Some info"
    "pr_TokenRequestData req = Some data" "DecodeInto env info data = Inr t" "NewSigner_error env = None" "token_path req"
  shows "BoundObjectRef_Name t = None \<Longrightarrow> handlerError env codec ops req err s rw = Panic"
    and "BoundObjectRef_Name t = Some n \<Longrightarrow> SignClaims env \<lparr>Subject = n, Audience = [''superedge.io''], IssuedAt = Now env, NotBefore = Now env, Expiry = Now env + 100 * Second\<rparr> = Inl e \<Longrightarrow>
      handlerError env codec ops req err s rw = Ret rw"
  using assms by (simp_all add: handlerError_def handle_token_def getToken_def)

section \<open>A run\<close>

definition sample_proxy_request :: proxy_request where
  "sample_proxy_request = \<lparr>lr_Method = ''GET'', lr_Path = ''/api/v1/namespaces/ns/pods/a'', lr_Header = [(''User-Agent'', [''kubelet/v1 linux''])],
     lr_Info = Some (sample_info ''get'' ''a''), pr_Scheme = '''', pr_Host = '''', pr_Body = Inr '''', pr_TokenRequestData = None\<rparr>"

definition sample_proxy_env :: proxy_env where
  "sample_proxy_env = \<lparr>ParseMediaType = Inr, SupportedMediaTypes = [], SerializerInfoForMediaType = (\<lambda>_ _. None), DecodeInto = (\<lambda>_ _. Inl ''''),
     EncodeToken = (\<lambda>_ _. Inl ''''), ParseAccept = (\<lambda>_. []), NewSigner_error = None, SignClaims = (\<lambda>_. Inl ''''), Now = 0, decode_watch = (\<lambda>_. ([], ''EOF''))\<rparr>"

definition sample_response :: response where
  "sample_response = \<lparr>rs_StatusCode = 200, rs_Header = [(''Content-Type'', [''application/json'']), (''Content-Length'', [''5''])],
     rs_Read = [(''pod'', None), ('' a'', Some EOF)], rs_Close = None\<rparr>"

definition refused :: request_error where
  "refused = \<lparr>re_Error = ''connection refused'', re_class = NetError False (Some (SyscallErrno ECONNREFUSED))\<rparr>"

lemma sample_start:
  "start_tasks sample_proxy_env (makeDirector url port sample_proxy_request) sample_response 2 =
     [StoreTask (makeDirector url port sample_proxy_request) 200 (rs_Header sample_response) ''pod a'']"
proof -
  have copy: "copyResponse 2 \<lparr>mw_read = [(''pod'', None), ('' a'', Some EOF)], mw_close = None, mw_writes = [open_pipe '''']\<rparr> =
      (''pod a'', True, \<lparr>mw_read = [], mw_close = None, mw_writes = [pipe_Close (open_pipe ''pod a'')]\<rparr>)"
    by (simp add: read_open multiWrite_Close_def numeral_2_eq_2)
  have "modifyResponse sample_proxy_env (Some (sample_response, Some (makeDirector url port sample_proxy_request))) =
      Inr (Some \<lparr>mw_read = [(''pod'', None), ('' a'', Some EOF)], mw_close = None, mw_writes = [open_pipe '''']\<rparr>)"
    by (simp add: modifyResponse_def sample_response_def sample_proxy_request_def needCache_def sample_info_def MultiWrite_def open_pipe_def)
  moreover have "pipe_content \<lparr>mw_read = [], mw_close = None, mw_writes = [pipe_Close (open_pipe ''pod a'')]\<rparr> = Some ''pod a''"
    by (simp add: pipe_content_def pipe_Close_def open_pipe_def)
  moreover have "lr_Info sample_proxy_request = Some (sample_info ''get'' ''a'')" "Verb (sample_info ''get'' ''a'') \<noteq> ''watch''" "rs_StatusCode sample_response = 200"
    by (simp_all add: sample_proxy_request_def sample_info_def sample_response_def)
  ultimately show ?thesis by (simp add: start_tasks_def copy Let_def)
qed

theorem offline_get_was_sent_witness:
  "\<exists>st w. lite_run sample_proxy_env sample_codec (file_ops sample_file_env) ''cloud'' 6443 \<lparr>files = [], drawn = 0\<rparr> [Responded sample_proxy_request sample_response 2, Ran] st \<and>
     lite_step sample_proxy_env sample_codec (file_ops sample_file_env) ''cloud'' 6443 st (Answered sample_proxy_request refused w) st \<and> rw_Body w = ''pod a'' \<and>
     (rw_Code w = Some 404 \<and> rw_Body w = ''connection refused'' \<or>
      (\<exists>req0 r n info0. Responded req0 r n \<in> set [Responded sample_proxy_request sample_response 2, Ran] \<and> lr_Info req0 = Some info0 \<and>
         same_target (sample_info ''get'' ''a'') info0 \<and> rw_Code w = Some 200 \<and> prefix (rw_Body w) (sent (rs_Read r))))"
proof -
  let ?ops = "file_ops sample_file_env" and ?req = "makeDirector ''cloud'' 6443 sample_proxy_request" and ?s0 = "\<lparr>files = [], drawn = 0\<rparr>"
  let ?hdr = "rs_Header sample_response" and ?env = sample_proxy_env
  have info: "lr_Info sample_proxy_request = Some (sample_info ''get'' ''a'')" by (simp add: sample_proxy_request_def)
  have key: "key_info (sample_info ''get'' ''a'')" by (simp add: key_info_def sample_info_def no_sep_def)
  have "\<exists>s1. Cache sample_codec ?ops ?req 200 ?hdr (whole_body ''pod a'') ?s0 = Ret (None, s1)"
    by (simp add: Cache_def info handleCache_def cacheGet_def store_response_def sample_codec_def whole_body_def sample_info_def file_defs writeFile_def
        sample_file_env_def Let_def split: prod.splits)
  then obtain s1 where s1: "Cache sample_codec ?ops ?req 200 ?hdr (whole_body ''pod a'') ?s0 = Ret (None, s1)" by blast
  have query: "Query sample_codec ?ops ?req s1 = Ret (Inr (NewEdgeCache 200 (mdel ''Content-Length'' ?hdr) ''pod a''))"
    using filesys.Cache_Query_get [OF sample_codec_ok _ _ keyed_files.key_valid [OF key] s1] info by (simp add: whole_body_def sample_info_def)
  have ic: "\<not> ignoreCache sample_proxy_request refused" "\<not> token_path sample_proxy_request" "lr_Method sample_proxy_request = ''GET''"
    by (simp_all add: ignoreCache_def needCache_def refused_def token_path_def sample_proxy_request_def sample_info_def)
  obtain w where w: "handlerError ?env sample_codec ?ops ?req refused s1 empty_writer = Ret w" "rw_Body w = ''pod a''"
    using ic query by (simp add: handlerError_def Write_def WriteHeader_def empty_writer_def NewEdgeCache_def)
  let ?st = "\<lparr>li_store = s1, li_tasks = []\<rparr>"
  have step1: "lite_step ?env sample_codec ?ops ''cloud'' 6443 \<lparr>li_store = ?s0, li_tasks = []\<rparr> (Responded sample_proxy_request sample_response 2)
      \<lparr>li_store = ?s0, li_tasks = [StoreTask ?req 200 ?hdr ''pod a'']\<rparr>"
    using lite_step.respond [where st = "\<lparr>li_store = ?s0, li_tasks = []\<rparr>" and env = ?env and req = sample_proxy_request and r = sample_response and n = 2
        and codec = sample_codec and ops = ?ops and url = "''cloud''" and port = 6443]
    by (simp add: sample_start)
  have step2: "lite_step ?env sample_codec ?ops ''cloud'' 6443 \<lparr>li_store = ?s0, li_tasks = [StoreTask ?req 200 ?hdr ''pod a'']\<rparr> Ran ?st"
    using lite_step.store [where i = 0 and st = "\<lparr>li_store = ?s0, li_tasks = [StoreTask ?req 200 ?hdr ''pod a'']\<rparr>" and codec = sample_codec and ops = ?ops
        and req = ?req and code = 200 and h = ?hdr and data = "''pod a''" and err = None and s' = s1 and env = ?env and url = "''cloud''" and port = 6443] s1
    by (simp add: remove_nth_def)
  have run: "lite_run ?env sample_codec ?ops ''cloud'' 6443 ?s0 [Responded sample_proxy_request sample_response 2, Ran] ?st"
    using lite_run.step [OF lite_run.step [OF lite_run.start step1] step2] by simp
  have ans: "lite_step ?env sample_codec ?ops ''cloud'' 6443 ?st (Answered sample_proxy_request refused w) ?st"
    using w(1) by (intro lite_step.answer) simp
  have wf: "list_all event_wf [Responded sample_proxy_request sample_response 2, Ran]" using key by (simp add: info)
  have verb: "Verb (sample_info ''get'' ''a'') = ''get''" by (simp add: sample_info_def)
  have "re_Error refused = ''connection refused''" by (simp add: refused_def)
  then show ?thesis
    using run ans w(2) offline_get_was_sent [OF run sample_codec_ok wf ans info key verb ic(3,1)] by (intro exI [of _ ?st] exI [of _ w]) auto
qed

end
