(* ===== verification/LiteTransport.thy ===== *)
theory LiteTransport
  imports GoStrings
begin

text \<open>
  Certificates, transports and proxies of lite-apiserver (\<open>src/pkg/lite-apiserver/cert/cert_mgr.go\<close>, \<open>transport/transport_mgr.go\<close>,
  \<open>proxy/handler.go\<close>): for every client certificate, named by its common name, there is a transport to the API server and a proxy that uses it. The
  three managers run as goroutines and pass common names over two channels.
\<close>

section \<open>Certificates\<close>

record certificate =
  ce_CommonName :: string
  ce_Signature :: string
  ce_NotBefore :: int
  ce_NotAfter :: int

definition CertHasExpired :: "int \<Rightarrow> certificate \<Rightarrow> bool" where
  "CertHasExpired now cert \<longleftrightarrow> now < ce_NotBefore cert \<or> now > ce_NotAfter cert"

text \<open>What the files hold, \<open>LoadX509KeyPair\<close> with the parsed leaf, is an argument.\<close>

type_synonym cert_files = "string \<times> string \<Rightarrow> go_error + certificate"

definition loadCert :: "cert_files \<Rightarrow> string \<times> string \<Rightarrow> go_error + (certificate \<times> string)" where
  "loadCert fs pair =
     (case fs pair of
        Inl err \<Rightarrow> Inl err
      | Inr tlsCert \<Rightarrow> if length (ce_CommonName tlsCert) = 0 then Inl ''cert common name nil'' else Inr (tlsCert, ce_CommonName tlsCert))"

record CertManager =
  tlsConfig :: "(string \<times> string) list"
  fastReload :: bool
  certMap :: "(string, certificate) gomap"

definition NewCertManager :: "(string \<times> string) list \<Rightarrow> CertManager" where
  "NewCertManager tls = \<lparr>tlsConfig = tls, fastReload = False, certMap = []\<rparr>"

definition updateCert :: "string \<Rightarrow> certificate \<Rightarrow> CertManager \<Rightarrow> CertManager" where
  "updateCert commonName cert cm = cm\<lparr>certMap := mput commonName cert (certMap cm)\<rparr>"

definition GetCert :: "CertManager \<Rightarrow> string \<Rightarrow> certificate option" where
  "GetCert cm commonName = mget (certMap cm) commonName"

fun init_certs :: "cert_files \<Rightarrow> int \<Rightarrow> (string \<times> string) list \<Rightarrow> bool \<Rightarrow> CertManager \<Rightarrow> bool \<times> CertManager" where
  "init_certs fs now [] fast cm = (fast, cm)"
| "init_certs fs now (pair # pairs) fast cm =
     (case loadCert fs pair of
        Inl err \<Rightarrow> init_certs fs now pairs True cm
      | Inr (tlsCert, commonName) \<Rightarrow> init_certs fs now pairs (fast \<or> CertHasExpired now tlsCert) (updateCert commonName tlsCert cm))"

definition CertManager_Init :: "cert_files \<Rightarrow> int \<Rightarrow> CertManager \<Rightarrow> CertManager" where
  "CertManager_Init fs now cm = (case init_certs fs now (tlsConfig cm) False cm of (fast, cm1) \<Rightarrow> cm1\<lparr>fastReload := fast\<rparr>)"

text \<open>\<open>handleCertUpdate\<close> with the message that it sends.\<close>

definition handleCertUpdate :: "certificate \<Rightarrow> string \<Rightarrow> CertManager \<Rightarrow> CertManager \<times> string list" where
  "handleCertUpdate tlsCert commonName cm =
     (case mget (certMap cm) commonName of
        None \<Rightarrow> (updateCert commonName tlsCert cm, [commonName])
      | Some oldCert \<Rightarrow> if ce_Signature oldCert \<noteq> ce_Signature tlsCert then (updateCert commonName tlsCert cm, [commonName]) else (cm, []))"

text \<open>The body of the timer.\<close>

fun reload_certs :: "cert_files \<Rightarrow> int \<Rightarrow> (string \<times> string) list \<Rightarrow> bool \<Rightarrow> CertManager \<Rightarrow> bool \<times> CertManager \<times> string list" where
  "reload_certs fs now [] fast cm = (fast, cm, [])"
| "reload_certs fs now (pair # pairs) fast cm =
     (case loadCert fs pair of
        Inl err \<Rightarrow> reload_certs fs now pairs True cm
      | Inr (tlsCert, commonName) \<Rightarrow>
          (case handleCertUpdate tlsCert commonName cm of (cm1, msgs) \<Rightarrow>
             case reload_certs fs now pairs (fast \<or> CertHasExpired now tlsCert) cm1 of (fast2, cm2, msgs2) \<Rightarrow> (fast2, cm2, msgs @ msgs2)))"

definition reload :: "cert_files \<Rightarrow> int \<Rightarrow> CertManager \<Rightarrow> CertManager \<times> string list" where
  "reload fs now cm = (case reload_certs fs now (tlsConfig cm) False cm of (fast, cm1, msgs) \<Rightarrow> (cm1\<lparr>fastReload := fast\<rparr>, msgs))"

text \<open>In nanoseconds.\<close>

definition getReloadDuration :: "CertManager \<Rightarrow> int" where
  "getReloadDuration cm = (if fastReload cm then 10 ^ 9 else 30 * 60 * 10 ^ 9)"

section \<open>Transports\<close>

text \<open>
  A transport: its dialer, the common name whose certificate it presents (\<open>GetClientCertificate\<close> looks it up at each handshake), the local address, the
  network interface.
\<close>

record EdgeTransport =
  dialer :: nat
  et_CommonName :: "string option"
  et_Insecure :: bool
  et_LocalAddr :: "string option"
  et_Timeout :: int
  NetworkInterface :: string

record lite_config =
  lc_KubeApiserverUrl :: string
  lc_KubeApiserverPort :: int
  lc_Insecure :: bool
  lc_NetworkInterface :: string

record TransportManager =
  tm_timeout :: int
  tm_next :: nat
  defaultTransport :: EdgeTransport
  transportMap :: "(string, EdgeTransport) gomap"

text \<open>The result of a request to \<open>/healthz\<close>: status and body; and the addresses of the interfaces.\<close>

record net_env =
  healthz :: "EdgeTransport \<Rightarrow> string \<Rightarrow> go_error + (int \<times> (go_error + string))"
  GetLocalAddrByInterface :: "string \<Rightarrow> go_error + string"

definition makeTransport :: "lite_config \<Rightarrow> string option \<Rightarrow> string option \<Rightarrow> TransportManager \<Rightarrow> EdgeTransport \<times> TransportManager" where
  "makeTransport cfg commonName localAddr tm =
     (let tm1 = (if tm_timeout tm = 0 then tm\<lparr>tm_timeout := 10\<rparr> else tm) in
      (\<lparr>dialer = tm_next tm1, et_CommonName = commonName, et_Insecure = lc_Insecure cfg, et_LocalAddr = localAddr, et_Timeout = tm_timeout tm1, NetworkInterface = ''''\<rparr>,
       tm1\<lparr>tm_next := Suc (tm_next tm1)\<rparr>))"

definition checkApiserverHealth :: "net_env \<Rightarrow> EdgeTransport \<Rightarrow> string \<Rightarrow> int \<Rightarrow> go_error + bool" where
  "checkApiserverHealth net t url port =
     (case healthz net t (''https://'' @ url @ '':'' @ Itoa port @ ''/healthz'') of
        Inl err \<Rightarrow> Inl err
      | Inr (status, Inl err) \<Rightarrow> Inl ''failed to read response of cluster healthz, %v''
      | Inr (status, Inr b) \<Rightarrow>
          if status \<noteq> 200 then Inl ''response status code is %d''
          else if ToLower b \<noteq> ''ok'' then Inl ''cluster healthz is %s''
          else Inr True)"

fun first_healthy :: "lite_config \<Rightarrow> net_env \<Rightarrow> string \<Rightarrow> string list \<Rightarrow> TransportManager \<Rightarrow> EdgeTransport option \<times> TransportManager" where
  "first_healthy cfg net commonName [] tm = (None, tm)"
| "first_healthy cfg net commonName (netIf # netIfs) tm =
     (case GetLocalAddrByInterface net netIf of
        Inl err \<Rightarrow> first_healthy cfg net commonName netIfs tm
      | Inr localAddr \<Rightarrow>
          (case makeTransport cfg (Some commonName) (Some localAddr) tm of (t, tm1) \<Rightarrow>
             if checkApiserverHealth net t (lc_KubeApiserverUrl cfg) (lc_KubeApiserverPort cfg) = Inr True then (Some (t\<lparr>NetworkInterface := netIf\<rparr>), tm1)
             else first_healthy cfg net commonName netIfs tm1))"

definition getTransport :: "lite_config \<Rightarrow> net_env \<Rightarrow> string \<Rightarrow> TransportManager \<Rightarrow> (go_error + EdgeTransport) \<times> TransportManager" where
  "getTransport cfg net commonName tm =
     (case makeTransport cfg (Some commonName) None tm of (t, tm1) \<Rightarrow>
        if lc_NetworkInterface cfg \<noteq> '''' then
          if checkApiserverHealth net t (lc_KubeApiserverUrl cfg) (lc_KubeApiserverPort cfg) = Inr True then (Inr (t\<lparr>NetworkInterface := ''default''\<rparr>), tm1)
          else let netIfList = Split (lc_NetworkInterface cfg) (CHR '','') in
            if length netIfList = 1 \<and> hd netIfList = '''' then (Inl ''the network interface invalid'', tm1)
            else (case first_healthy cfg net commonName netIfList tm1 of (Some t2, tm2) \<Rightarrow> (Inr t2, tm2) | (None, tm2) \<Rightarrow> (Inr t, tm2))
        else (Inr t, tm1))"

definition updateTransport :: "string \<Rightarrow> EdgeTransport \<Rightarrow> TransportManager \<Rightarrow> TransportManager" where
  "updateTransport commonName t tm = tm\<lparr>transportMap := mput commonName t (transportMap tm)\<rparr>"

fun init_transports :: "lite_config \<Rightarrow> net_env \<Rightarrow> string list \<Rightarrow> TransportManager \<Rightarrow> TransportManager" where
  "init_transports cfg net [] tm = tm"
| "init_transports cfg net (commonName # names) tm =
     (case getTransport cfg net commonName tm of
        (Inl err, tm1) \<Rightarrow> init_transports cfg net names tm1
      | (Inr t, tm1) \<Rightarrow> init_transports cfg net names (updateTransport commonName t tm1))"

text \<open>\<open>Init\<close>, when the root certificates could be read (\<open>pool\<close>).\<close>

definition TransportManager_Init :: "go_error option \<Rightarrow> lite_config \<Rightarrow> net_env \<Rightarrow> CertManager \<Rightarrow> TransportManager \<Rightarrow> go_error option \<times> TransportManager" where
  "TransportManager_Init pool cfg net cm tm =
     (case pool of
        Some err \<Rightarrow> (Some err, tm)
      | None \<Rightarrow> (case makeTransport cfg None None tm of (t, tm1) \<Rightarrow> (None, init_transports cfg net (mkeys (certMap cm)) (tm1\<lparr>defaultTransport := t\<rparr>))))"

definition GetTransport :: "TransportManager \<Rightarrow> string \<Rightarrow> EdgeTransport" where
  "GetTransport tm commonName =
     (if length commonName = 0 then defaultTransport tm
      else case mget (transportMap tm) commonName of None \<Rightarrow> defaultTransport tm | Some t \<Rightarrow> t)"

text \<open>
  A message of the channel for certificates: the new state, the message for the handler, and the dialer whose connections are closed.
\<close>

definition receive_cert :: "lite_config \<Rightarrow> net_env \<Rightarrow> string \<Rightarrow> TransportManager \<Rightarrow> TransportManager \<times> string list \<times> nat option" where
  "receive_cert cfg net commonName tm =
     (case mget (transportMap tm) commonName of
        None \<Rightarrow>
          (case getTransport cfg net commonName tm of
             (Inl err, tm1) \<Rightarrow> (tm1, [], None)
           | (Inr t, tm1) \<Rightarrow> (updateTransport commonName t tm1, [commonName], None))
      | Some old \<Rightarrow> (tm, [], Some (dialer old)))"

text \<open>The periodic check of the network interface for one common name.\<close>

definition check_interface :: "lite_config \<Rightarrow> net_env \<Rightarrow> string \<Rightarrow> TransportManager \<Rightarrow> TransportManager \<times> string list" where
  "check_interface cfg net commonName tm =
     (case mget (transportMap tm) commonName of
        None \<Rightarrow> (tm, [])
      | Some old \<Rightarrow>
          (case getTransport cfg net commonName tm of
             (Inl err, tm1) \<Rightarrow> (tm1, [])
           | (Inr t, tm1) \<Rightarrow> if NetworkInterface t \<noteq> NetworkInterface old then (updateTransport commonName t tm1, [commonName]) else (tm1, [])))"

section \<open>Proxies\<close>

record EdgeReverseProxy =
  px_transport :: EdgeTransport
  px_backendUrl :: string
  px_backendPort :: int

record EdgeServerHandler =
  defaultProxy :: EdgeReverseProxy
  reverseProxyMap :: "(string, EdgeReverseProxy) gomap"

definition NewEdgeReverseProxy :: "lite_config \<Rightarrow> EdgeTransport \<Rightarrow> EdgeReverseProxy" where
  "NewEdgeReverseProxy cfg t = \<lparr>px_transport = t, px_backendUrl = lc_KubeApiserverUrl cfg, px_backendPort = lc_KubeApiserverPort cfg\<rparr>"

definition initProxies :: "lite_config \<Rightarrow> TransportManager \<Rightarrow> EdgeServerHandler" where
  "initProxies cfg tm =
     \<lparr>defaultProxy = NewEdgeReverseProxy cfg (GetTransport tm ''''), reverseProxyMap = copy_map (NewEdgeReverseProxy cfg) (transportMap tm)\<rparr>"

definition receive_transport :: "lite_config \<Rightarrow> TransportManager \<Rightarrow> string \<Rightarrow> EdgeServerHandler \<Rightarrow> EdgeServerHandler" where
  "receive_transport cfg tm commonName h = h\<lparr>reverseProxyMap := mput commonName (NewEdgeReverseProxy cfg (GetTransport tm commonName)) (reverseProxyMap h)\<rparr>"

definition getEdgeReverseProxy :: "EdgeServerHandler \<Rightarrow> string \<Rightarrow> EdgeReverseProxy" where
  "getEdgeReverseProxy h commonName =
     (if length commonName = 0 then defaultProxy h
      else case mget (reverseProxyMap h) commonName of Some proxy \<Rightarrow> proxy | None \<Rightarrow> defaultProxy h)"

text \<open>The certificates of the client, if the request came over TLS: whether they are of a CA, and their common names.\<close>

definition request_name :: "(bool \<times> string) list option \<Rightarrow> string" where
  "request_name peers = (case peers of None \<Rightarrow> '''' | Some certs \<Rightarrow> (case find (\<lambda>(isCA, _). \<not> isCA) certs of Some (_, cn) \<Rightarrow> cn | None \<Rightarrow> ''''))"

definition ServeHTTP_proxy :: "EdgeServerHandler \<Rightarrow> (bool \<times> string) list option \<Rightarrow> EdgeReverseProxy" where
  "ServeHTTP_proxy h peers = getEdgeReverseProxy h (request_name peers)"

section \<open>The choice of a transport\<close>

text \<open>A new transport for \<open>commonName\<close> has a dialer of its own; nothing else changes.\<close>

definition new_transport :: "string \<Rightarrow> TransportManager \<Rightarrow> EdgeTransport \<Rightarrow> TransportManager \<Rightarrow> bool" where
  "new_transport commonName tm t tm' \<longleftrightarrow> et_CommonName t = Some commonName \<and> tm_next tm \<le> dialer t \<and> dialer t < tm_next tm' \<and>
     transportMap tm' = transportMap tm \<and> defaultTransport tm' = defaultTransport tm"

lemma makeTransport_eq:
  assumes "makeTransport cfg cn la tm = (t, tm')"
  shows "dialer t = tm_next tm" "et_CommonName t = cn" "tm_next tm' = Suc (tm_next tm)" "transportMap tm' = transportMap tm" "defaultTransport tm' = defaultTransport tm"
  using assms by (auto simp: makeTransport_def Let_def split: if_splits)

lemma first_healthy_new:
  "first_healthy cfg net cn ifs tm = (r, tm') \<Longrightarrow> tm_next tm \<le> tm_next tm' \<and> transportMap tm' = transportMap tm \<and> defaultTransport tm' = defaultTransport tm \<and>
     (\<forall>t. r = Some t \<longrightarrow> new_transport cn tm t tm')"
proof (induction ifs arbitrary: tm)
  case (Cons netIf ifs)
  show ?case
  proof (cases "GetLocalAddrByInterface net netIf")
    case (Inl err)
    then show ?thesis using Cons by simp
  next
    case (Inr la)
    obtain t tm1 where m: "makeTransport cfg (Some cn) (Some la) tm = (t, tm1)" by fastforce
    note eq = makeTransport_eq [OF m]
    show ?thesis
    proof (cases "checkApiserverHealth net t (lc_KubeApiserverUrl cfg) (lc_KubeApiserverPort cfg) = Inr True")
      case True
      then show ?thesis using Cons.prems eq by (auto simp: Inr m new_transport_def)
    next
      case False
      then show ?thesis using Cons.IH [of tm1] Cons.prems eq by (force simp: Inr m new_transport_def)
    qed
  qed
qed simp

lemma Split_single: "length (Split s c) = 1 \<Longrightarrow> hd (Split s c) = s"
  using Join_Split [of s c] by (cases "Split s c") auto

lemma getTransport_new: "\<exists>t tm'. getTransport cfg net cn tm = (Inr t, tm') \<and> new_transport cn tm t tm'"
proof -
  obtain t tm1 where m: "makeTransport cfg (Some cn) None tm = (t, tm1)" by fastforce
  obtain r tm2 where f: "first_healthy cfg net cn (Split (lc_NetworkInterface cfg) (CHR '','')) tm1 = (r, tm2)" by fastforce
  show ?thesis
    using makeTransport_eq [OF m] first_healthy_new [OF f] Split_single [of "lc_NetworkInterface cfg" "CHR '',''"]
    by (cases r) (auto simp: getTransport_def m f new_transport_def Let_def)
qed

section \<open>The managers together\<close>

text \<open>
  The certificate manager, the transport manager once it is initialised, the handler once it exists, the messages under way on the two channels,
  and the open connections: the dialer and the certificate that was presented. A message is under way from the update of the map that it announces until
  the receiver has handled it, the health checks of a new transport included: the goroutines that send and receive it handle one at a time, so
  an empty channel here means that no update is announced or being handled. The connections that the health checks of a transport open are not
  recorded; they exist only when network interfaces are configured.
\<close>

record lite_system =
  sy_cm :: CertManager
  sy_tm :: TransportManager
  sy_ready :: bool
  sy_handler :: "EdgeServerHandler option"
  certChannel :: "string list"
  transportChannel :: "string list"
  sy_conns :: "(nat \<times> certificate option) list"

definition presented :: "CertManager \<Rightarrow> EdgeTransport \<Rightarrow> certificate option" where
  "presented cm t = (case et_CommonName t of None \<Rightarrow> None | Some cn \<Rightarrow> GetCert cm cn)"

inductive system_step :: "lite_config \<Rightarrow> lite_system \<Rightarrow> lite_system \<Rightarrow> bool" for cfg where
  reload_cert: "pair \<in> set (tlsConfig (sy_cm st)) \<Longrightarrow> loadCert fs pair = Inr (tlsCert, cn) \<Longrightarrow> handleCertUpdate tlsCert cn (sy_cm st) = (cm', msgs) \<Longrightarrow>
    system_step cfg st (st\<lparr>sy_cm := cm', certChannel := certChannel st @ msgs\<rparr>)"
| init_transport: "\<not> sy_ready st \<Longrightarrow> TransportManager_Init None cfg net (sy_cm st) (sy_tm st) = (None, tm') \<Longrightarrow>
    system_step cfg st (st\<lparr>sy_tm := tm', sy_ready := True\<rparr>)"
| new_cert: "sy_ready st \<Longrightarrow> certChannel st = cn # rest \<Longrightarrow> receive_cert cfg net cn (sy_tm st) = (tm', msgs, closed) \<Longrightarrow>
    system_step cfg st (st\<lparr>sy_tm := tm', certChannel := rest, transportChannel := transportChannel st @ msgs,
      sy_conns := filter (\<lambda>(d, _). closed \<noteq> Some d) (sy_conns st)\<rparr>)"
| interface: "sy_ready st \<Longrightarrow> lc_NetworkInterface cfg \<noteq> '''' \<Longrightarrow> cn \<in> set (mkeys (certMap (sy_cm st))) \<Longrightarrow> check_interface cfg net cn (sy_tm st) = (tm', msgs) \<Longrightarrow>
    system_step cfg st (st\<lparr>sy_tm := tm', transportChannel := transportChannel st @ msgs\<rparr>)"
| init_handler: "sy_ready st \<Longrightarrow> sy_handler st = None \<Longrightarrow> system_step cfg st (st\<lparr>sy_handler := Some (initProxies cfg (sy_tm st))\<rparr>)"
| new_transport: "sy_handler st = Some h \<Longrightarrow> transportChannel st = cn # rest \<Longrightarrow>
    system_step cfg st (st\<lparr>sy_handler := Some (receive_transport cfg (sy_tm st) cn h), transportChannel := rest\<rparr>)"
| serve: "sy_handler st = Some h \<Longrightarrow> t = px_transport (ServeHTTP_proxy h peers) \<Longrightarrow>
    system_step cfg st (st\<lparr>sy_conns := (dialer t, presented (sy_cm st) t) # sy_conns st\<rparr>)"
| close: "set conns \<subseteq> set (sy_conns st) \<Longrightarrow> system_step cfg st (st\<lparr>sy_conns := conns\<rparr>)"

text \<open>The start: certificates have been loaded, nothing else is there.\<close>

definition system_start :: "CertManager \<Rightarrow> TransportManager \<Rightarrow> lite_system" where
  "system_start cm tm = \<lparr>sy_cm = cm, sy_tm = tm, sy_ready = False, sy_handler = None, certChannel = [], transportChannel = [], sy_conns = []\<rparr>"

inductive system_reach :: "lite_config \<Rightarrow> lite_system \<Rightarrow> bool" for cfg where
  start: "transportMap tm = [] \<Longrightarrow> system_reach cfg (system_start (CertManager_Init fs now (NewCertManager tls)) tm)"
| step: "system_reach cfg st \<Longrightarrow> system_step cfg st st' \<Longrightarrow> system_reach cfg st'"

subsection \<open>Certificates reach the proxies\<close>

definition has_cert :: "CertManager \<Rightarrow> string \<Rightarrow> bool" where
  "has_cert cm cn \<longleftrightarrow> GetCert cm cn \<noteq> None"

definition has_transport :: "TransportManager \<Rightarrow> string \<Rightarrow> bool" where
  "has_transport tm cn \<longleftrightarrow> mget (transportMap tm) cn \<noteq> None"

definition named :: "TransportManager \<Rightarrow> bool" where
  "named tm \<longleftrightarrow> (\<forall>cn t. mget (transportMap tm) cn = Some t \<longrightarrow> et_CommonName t = Some cn \<and> cn \<noteq> '''')"

definition chain_inv :: "lite_config \<Rightarrow> lite_system \<Rightarrow> bool" where
  "chain_inv cfg st \<longleftrightarrow>
     (if sy_ready st then \<forall>cn. has_cert (sy_cm st) cn \<longrightarrow> cn \<in> set (certChannel st) \<or> has_transport (sy_tm st) cn
      else transportMap (sy_tm st) = [] \<and> sy_handler st = None) \<and>
     (\<forall>h cn t. sy_handler st = Some h \<longrightarrow> mget (transportMap (sy_tm st)) cn = Some t \<longrightarrow>
        cn \<in> set (transportChannel st) \<or> mget (reverseProxyMap h) cn = Some (NewEdgeReverseProxy cfg t)) \<and>
     named (sy_tm st) \<and>
     (\<forall>cn. has_cert (sy_cm st) cn \<longrightarrow> cn \<noteq> '''') \<and> list_all (\<lambda>cn. cn \<noteq> '''') (certChannel st) \<and> mwf (transportMap (sy_tm st))"

text \<open>The two ways in which a step of the transport manager changes its map.\<close>

definition put_step :: "string \<Rightarrow> TransportManager \<Rightarrow> TransportManager \<Rightarrow> string list \<Rightarrow> bool" where
  "put_step cn tm tm' msgs \<longleftrightarrow> (\<exists>t tm1. new_transport cn tm t tm1 \<and> tm' = updateTransport cn t tm1 \<and> msgs = [cn])"

definition keep_step :: "TransportManager \<Rightarrow> TransportManager \<Rightarrow> string list \<Rightarrow> bool" where
  "keep_step tm tm' msgs \<longleftrightarrow> transportMap tm' = transportMap tm \<and> defaultTransport tm' = defaultTransport tm \<and> tm_next tm \<le> tm_next tm' \<and> msgs = []"

lemma receive_cert_cases:
  assumes "receive_cert cfg net cn tm = (tm', msgs, closed)"
  obtains (rotate) old where "mget (transportMap tm) cn = Some old" "keep_step tm tm' msgs" "closed = Some (dialer old)"
    | (new) "mget (transportMap tm) cn = None" "put_step cn tm tm' msgs" "closed = None"
proof (cases "mget (transportMap tm) cn")
  case None
  obtain t tm1 where "getTransport cfg net cn tm = (Inr t, tm1)" "new_transport cn tm t tm1" using getTransport_new by blast
  then show thesis using assms None new by (auto simp: receive_cert_def put_step_def)
next
  case (Some old)
  then show thesis using assms rotate by (auto simp: receive_cert_def keep_step_def)
qed

lemma check_interface_cases:
  assumes "check_interface cfg net cn tm = (tm', msgs)"
  obtains (same) "keep_step tm tm' msgs" | (changed) "put_step cn tm tm' msgs"
proof (cases "mget (transportMap tm) cn")
  case None
  then show thesis using assms same by (auto simp: check_interface_def keep_step_def)
next
  case (Some old)
  obtain t tm1 where t: "getTransport cfg net cn tm = (Inr t, tm1)" "new_transport cn tm t tm1" using getTransport_new by blast
  show thesis
  proof (cases "NetworkInterface t \<noteq> NetworkInterface old")
    case True
    then show thesis using assms Some t changed by (auto simp: check_interface_def put_step_def)
  next
    case False
    then show thesis using assms Some t same by (auto simp: check_interface_def keep_step_def new_transport_def)
  qed
qed

lemma put_step_map:
  assumes "put_step cn tm tm' msgs"
  obtains t where "et_CommonName t = Some cn" "tm_next tm \<le> dialer t" "dialer t < tm_next tm'" "transportMap tm' = mput cn t (transportMap tm)"
    "defaultTransport tm' = defaultTransport tm" "msgs = [cn]"
  using assms by (auto simp: put_step_def new_transport_def updateTransport_def)

lemma handleCertUpdate_eq:
  assumes "handleCertUpdate tlsCert cn cm = (cm', msgs)"
  shows "cm' = cm \<and> msgs = [] \<and> GetCert cm cn \<noteq> None \<or> cm' = updateCert cn tlsCert cm \<and> msgs = [cn]"
  using assms by (auto simp: handleCertUpdate_def GetCert_def split: option.splits if_splits)

lemma GetCert_updateCert [simp]: "GetCert (updateCert cn c cm) x = (if x = cn then Some c else GetCert cm x)"
  by (simp add: GetCert_def updateCert_def mget_mput)

lemma has_cert_updateCert: "has_cert (updateCert cn c cm) x \<longleftrightarrow> x = cn \<or> has_cert cm x"
  by (simp add: has_cert_def)

lemma has_transport_mput: "transportMap tm' = mput cn t (transportMap tm) \<Longrightarrow> has_transport tm' x \<longleftrightarrow> x = cn \<or> has_transport tm x"
  by (simp add: has_transport_def mget_mput)

lemma loadCert_name: "loadCert fs pair = Inr (c, cn) \<Longrightarrow> cn \<noteq> ''''"
  by (auto simp: loadCert_def split: sum.splits if_splits)

lemma init_certs_names:
  "init_certs fs now pairs fast cm = (fast', cm') \<Longrightarrow> (\<And>cn. has_cert cm cn \<Longrightarrow> cn \<noteq> '''') \<Longrightarrow> has_cert cm' cn \<Longrightarrow> cn \<noteq> ''''"
proof (induction pairs arbitrary: fast cm)
  case (Cons pair pairs)
  show ?case
  proof (cases "loadCert fs pair")
    case (Inl err)
    then show ?thesis using Cons.IH [of True cm] Cons.prems by simp
  next
    case (Inr r)
    obtain c cn where r: "r = (c, cn)" by fastforce
    then have n: "cn \<noteq> ''''" using Inr loadCert_name by blast
    show ?thesis
    proof (rule Cons.IH)
      show "init_certs fs now pairs (fast \<or> CertHasExpired now c) (updateCert cn c cm) = (fast', cm')" using Cons.prems(1) by (simp add: Inr r)
      show "x \<noteq> ''''" if "has_cert (updateCert cn c cm) x" for x using that n Cons.prems(2) by (auto simp: has_cert_updateCert)
    qed (rule Cons.prems(3))
  qed
qed simp

lemma CertManager_Init_names: "has_cert (CertManager_Init fs now (NewCertManager tls)) cn \<Longrightarrow> cn \<noteq> ''''"
proof -
  assume a: "has_cert (CertManager_Init fs now (NewCertManager tls)) cn"
  obtain fast cm' where i: "init_certs fs now tls False (NewCertManager tls) = (fast, cm')" by fastforce
  have "has_cert cm' cn" using a i by (simp add: CertManager_Init_def NewCertManager_def has_cert_def GetCert_def)
  then show ?thesis by (rule init_certs_names [OF i, rotated]) (simp add: has_cert_def GetCert_def NewCertManager_def)
qed

text \<open>Every name of a certificate gets a transport at the start.\<close>

lemma named_put: "named tm \<Longrightarrow> transportMap tm' = mput cn t (transportMap tm) \<Longrightarrow> et_CommonName t = Some cn \<Longrightarrow> cn \<noteq> '''' \<Longrightarrow> named tm'"
  unfolding named_def by (metis mget_mput option.inject)

lemma named_same: "transportMap tm' = transportMap tm \<Longrightarrow> named tm' = named tm"
  by (simp add: named_def)

lemma named_empty: "named tm \<Longrightarrow> mget (transportMap tm) '''' = None"
  unfolding named_def by (metis not_Some_eq)

lemma init_transports_map:
  assumes "named tm" "mwf (transportMap tm)" "'''' \<notin> set names"
  shows "(\<forall>cn. has_transport (init_transports cfg net names tm) cn \<longleftrightarrow> has_transport tm cn \<or> cn \<in> set names) \<and>
    named (init_transports cfg net names tm) \<and> mwf (transportMap (init_transports cfg net names tm))"
  using assms
proof (induction names arbitrary: tm)
  case (Cons n names)
  obtain t tm1 where t: "getTransport cfg net n tm = (Inr t, tm1)" "new_transport n tm t tm1" using getTransport_new by blast
  have m: "transportMap (updateTransport n t tm1) = mput n t (transportMap tm)" using t(2) by (simp add: updateTransport_def new_transport_def)
  have "named (updateTransport n t tm1)" using named_put [OF Cons.prems(1) m] t(2) Cons.prems(3) by (auto simp: new_transport_def)
  moreover have "mwf (transportMap (updateTransport n t tm1))" unfolding m by (rule mwf_mput [OF Cons.prems(2)])
  ultimately show ?case using Cons.IH [of "updateTransport n t tm1"] Cons.prems(3) by (auto simp: t(1) has_transport_mput [OF m])
qed simp

lemma chain_put:
  assumes "chain_inv cfg st" "sy_ready st" "put_step cn (sy_tm st) tm' msgs" "cn \<noteq> ''''"
  shows "chain_inv cfg (st\<lparr>sy_tm := tm', transportChannel := transportChannel st @ msgs\<rparr>) \<and> has_transport tm' cn"
proof -
  obtain t where t: "et_CommonName t = Some cn" "transportMap tm' = mput cn t (transportMap (sy_tm st))" "msgs = [cn]"
    using assms(3) by (rule put_step_map)
  have m: "mget (transportMap tm') x = (if x = cn then Some t else mget (transportMap (sy_tm st)) x)" for x by (simp add: t(2) mget_mput)
  have "mwf (transportMap tm')" using assms(1) unfolding t(2) by (intro mwf_mput) (simp add: chain_inv_def)
  moreover have "named tm'" using assms(1,4) t(1) by (intro named_put [OF _ t(2)]) (simp_all add: chain_inv_def)
  ultimately show ?thesis using assms(1,2) t(3) by (auto simp: chain_inv_def has_transport_mput [OF t(2)] m)
qed

lemma chain_step:
  assumes "chain_inv cfg st" "system_step cfg st st'"
  shows "chain_inv cfg st'"
  using assms(2)
proof cases
  case (reload_cert pair fs tlsCert cn cm' msgs)
  then show ?thesis using assms(1) handleCertUpdate_eq [OF reload_cert(4)] loadCert_name [OF reload_cert(3)]
    by (auto simp: chain_inv_def has_cert_updateCert split: if_splits)
next
  case (init_transport net tm')
  let ?cm = "sy_cm st" and ?tm = "sy_tm st"
  have empty: "transportMap ?tm = []" "sy_handler st = None" using assms(1) init_transport(2) by (auto simp: chain_inv_def)
  obtain t tm1 where m: "makeTransport cfg None None ?tm = (t, tm1)" by fastforce
  have tm': "tm' = init_transports cfg net (mkeys (certMap ?cm)) (tm1\<lparr>defaultTransport := t\<rparr>)"
    using init_transport(3) by (simp add: TransportManager_Init_def m)
  have map: "transportMap (tm1\<lparr>defaultTransport := t\<rparr>) = []" using makeTransport_eq(4) [OF m] empty by simp
  have names: "has_cert ?cm cn \<longleftrightarrow> cn \<in> set (mkeys (certMap ?cm))" for cn by (simp add: has_cert_def GetCert_def in_mkeys)
  have cert: "has_cert ?cm cn \<Longrightarrow> cn \<noteq> ''''" for cn using assms(1) unfolding chain_inv_def by blast
  have "(\<forall>cn. has_transport tm' cn \<longleftrightarrow> has_transport (tm1\<lparr>defaultTransport := t\<rparr>) cn \<or> cn \<in> set (mkeys (certMap ?cm))) \<and> named tm' \<and> mwf (transportMap tm')"
    unfolding tm' by (rule init_transports_map) (use map names cert in \<open>auto simp: named_def\<close>)
  moreover have "\<not> has_transport (tm1\<lparr>defaultTransport := t\<rparr>) cn" for cn by (simp add: has_transport_def map)
  ultimately show ?thesis using names assms(1) empty init_transport(1) by (auto simp: chain_inv_def)
next
  case (new_cert cn rest net tm' msgs closed)
  from new_cert(4) show ?thesis
  proof (cases rule: receive_cert_cases)
    case (rotate old)
    then have "transportMap tm' = transportMap (sy_tm st)" "msgs = []" by (simp_all add: keep_step_def)
    moreover from this rotate(1) have "has_transport tm' = has_transport (sy_tm st)" "has_transport (sy_tm st) cn" by (simp_all add: has_transport_def fun_eq_iff)
    ultimately show ?thesis using assms(1) new_cert(1-3) named_same [of tm' "sy_tm st"] by (auto simp: chain_inv_def)
  next
    case new
    have "cn \<noteq> ''''" using new_cert(3) assms(1) by (simp add: chain_inv_def)
    from chain_put [OF assms(1) new_cert(2) new(2) this]
    have "chain_inv cfg (st\<lparr>sy_tm := tm', transportChannel := transportChannel st @ msgs\<rparr>)" "has_transport tm' cn" by simp_all
    then show ?thesis using new_cert(1-3) by (auto simp: chain_inv_def)
  qed
next
  case (interface cn net tm' msgs)
  have "has_cert (sy_cm st) cn" using interface(4) by (simp add: has_cert_def GetCert_def in_mkeys)
  then have cn: "cn \<noteq> ''''" using assms(1) unfolding chain_inv_def by blast
  from interface(5) show ?thesis
  proof (cases rule: check_interface_cases)
    case same
    then have "transportMap tm' = transportMap (sy_tm st)" "msgs = []" by (simp_all add: keep_step_def)
    moreover from this(1) have "has_transport tm' = has_transport (sy_tm st)" by (simp add: has_transport_def fun_eq_iff)
    ultimately show ?thesis using assms(1) interface(1,2) named_same [of tm' "sy_tm st"] by (auto simp: chain_inv_def)
  next
    case changed
    then show ?thesis using chain_put [OF assms(1) interface(2) _ cn] interface(1) by simp
  qed
next
  case init_handler
  have "mwf (transportMap (sy_tm st))" using assms(1) by (simp add: chain_inv_def)
  then show ?thesis using assms(1) init_handler by (auto simp: chain_inv_def initProxies_def copy_map_eq mget_map)
next
  case (new_transport h cn rest)
  then show ?thesis using assms(1) named_empty [of "sy_tm st"] by (auto simp: chain_inv_def receive_transport_def mget_mput GetTransport_def split: if_splits)
next
  case (serve h t peers)
  then show ?thesis using assms(1) by (auto simp: chain_inv_def split: if_splits)
next
  case (close conns)
  then show ?thesis using assms(1) by (simp add: chain_inv_def)
qed

lemma chain_reach: "system_reach cfg st \<Longrightarrow> chain_inv cfg st"
proof (induction rule: system_reach.induct)
  case (start tm fs now tls)
  then show ?case using CertManager_Init_names by (auto simp: chain_inv_def system_start_def named_def)
next
  case (step st st')
  then show ?case using chain_step by blast
qed

text \<open>
  C27: Certificates, transports and proxies agree once the messages on the two channels have been handled, however the three managers were interleaved: a request of a client
  whose certificate is known goes through the proxy with the current transport of that name, which presents the current certificate of the name.
\<close>

theorem proxies_follow_certificates:
  assumes "system_reach cfg st" "sy_handler st = Some h" "certChannel st = []" "transportChannel st = []" "GetCert (sy_cm st) (request_name peers) = Some c"
  shows "\<exists>t. mget (transportMap (sy_tm st)) (request_name peers) = Some t \<and> ServeHTTP_proxy h peers = NewEdgeReverseProxy cfg t \<and> presented (sy_cm st) t = Some c"
proof -
  let ?cn = "request_name peers"
  have inv: "chain_inv cfg st" using assms(1) by (rule chain_reach)
  have cn: "has_cert (sy_cm st) ?cn" using assms(5) by (simp add: has_cert_def)
  then have ne: "?cn \<noteq> ''''" using inv unfolding chain_inv_def by blast
  have "sy_ready st" using inv assms(2) by (auto simp: chain_inv_def split: if_splits)
  then have "has_transport (sy_tm st) ?cn" using inv cn assms(3) by (auto simp: chain_inv_def)
  then obtain t where t: "mget (transportMap (sy_tm st)) ?cn = Some t" by (auto simp: has_transport_def)
  then have "mget (reverseProxyMap h) ?cn = Some (NewEdgeReverseProxy cfg t)" using inv assms(2,4) unfolding chain_inv_def by auto
  moreover have "et_CommonName t = Some ?cn" using inv t unfolding chain_inv_def named_def by blast
  ultimately show ?thesis using t ne assms(5) by (simp add: ServeHTTP_proxy_def getEdgeReverseProxy_def presented_def)
qed

subsection \<open>Rotation closes the old connections\<close>

text \<open>The common name whose current transport has the dialer; the transports that the proxies use.\<close>

definition owns :: "TransportManager \<Rightarrow> nat \<Rightarrow> string \<Rightarrow> bool" where
  "owns tm d cn \<longleftrightarrow> (case mget (transportMap tm) cn of None \<Rightarrow> False | Some t \<Rightarrow> dialer t = d)"

definition used :: "lite_system \<Rightarrow> EdgeTransport set" where
  "used st = (if sy_ready st then {defaultTransport (sy_tm st)} else {}) \<union>
     (case sy_handler st of None \<Rightarrow> {} | Some h \<Rightarrow> insert (px_transport (defaultProxy h)) (px_transport ` ran (mget (reverseProxyMap h))))"

definition owners_ok :: "TransportManager \<Rightarrow> bool" where
  "owners_ok tm \<longleftrightarrow> (\<forall>d cn cn'. owns tm d cn \<longrightarrow> d < tm_next tm \<and> (owns tm d cn' \<longrightarrow> cn' = cn))"

definition used_ok :: "TransportManager \<Rightarrow> EdgeTransport \<Rightarrow> bool" where
  "used_ok tm t \<longleftrightarrow> dialer t < tm_next tm \<and> (\<forall>cn. owns tm (dialer t) cn \<longrightarrow> et_CommonName t = Some cn)"

definition conn_ok :: "lite_system \<Rightarrow> nat \<times> certificate option \<Rightarrow> bool" where
  "conn_ok st conn \<longleftrightarrow> fst conn < tm_next (sy_tm st) \<and>
     (\<forall>cn. owns (sy_tm st) (fst conn) cn \<longrightarrow> snd conn = GetCert (sy_cm st) cn \<or> cn \<in> set (certChannel st))"

definition conn_inv :: "lite_system \<Rightarrow> bool" where
  "conn_inv st \<longleftrightarrow> owners_ok (sy_tm st) \<and> (\<forall>t\<in>used st. used_ok (sy_tm st) t) \<and> list_all (conn_ok st) (sy_conns st) \<and>
     (sy_ready st \<or> transportMap (sy_tm st) = [] \<and> sy_conns st = [] \<and> sy_handler st = None)"

lemma owns_put: "transportMap tm' = mput cn t (transportMap tm) \<Longrightarrow> owns tm' d x \<longleftrightarrow> (if x = cn then dialer t = d else owns tm d x)"
  by (simp add: owns_def mget_mput)

lemma owners_less: "owners_ok tm \<Longrightarrow> owns tm d cn \<Longrightarrow> d < tm_next tm"
  by (simp add: owners_ok_def)

lemma owners_eq: "owners_ok tm \<Longrightarrow> owns tm d cn \<Longrightarrow> owns tm d cn' \<Longrightarrow> cn' = cn"
  by (simp add: owners_ok_def)

text \<open>A transport with a new dialer disturbs nothing.\<close>

definition fresh_put :: "TransportManager \<Rightarrow> TransportManager \<Rightarrow> string \<Rightarrow> EdgeTransport \<Rightarrow> bool" where
  "fresh_put tm tm' cn t \<longleftrightarrow> transportMap tm' = mput cn t (transportMap tm) \<and> tm_next tm \<le> dialer t \<and> dialer t < tm_next tm'"

lemma fresh_putD:
  assumes "fresh_put tm tm' cn t"
  shows "owns tm' d x \<longleftrightarrow> (if x = cn then dialer t = d else owns tm d x)" "tm_next tm \<le> dialer t" "dialer t < tm_next tm'"
  using assms owns_put [of tm' cn t tm] by (simp_all add: fresh_put_def)

lemma owners_put: "owners_ok tm \<Longrightarrow> fresh_put tm tm' cn t \<Longrightarrow> owners_ok tm'"
  unfolding owners_ok_def by (auto simp: fresh_putD split: if_splits dest: fresh_putD(2,3)) (metis fresh_putD(2,3) leD less_le_trans order.strict_trans)+

lemma used_put:
  assumes "used_ok tm u" "fresh_put tm tm' cn t"
  shows "used_ok tm' u"
proof -
  have "dialer u < tm_next tm" "owns tm' (dialer u) x \<Longrightarrow> owns tm (dialer u) x" for x
    using assms fresh_putD [OF assms(2)] by (auto simp: used_ok_def split: if_splits)
  then show ?thesis using assms(1) fresh_putD(2,3) [OF assms(2)] by (force simp: used_ok_def)
qed

lemma conn_put:
  assumes "conn_ok st conn" "fresh_put (sy_tm st) tm' cn t"
  shows "conn_ok (st\<lparr>sy_tm := tm', transportChannel := ch\<rparr>) conn"
proof -
  have "fst conn < tm_next (sy_tm st)" "owns tm' (fst conn) x \<Longrightarrow> owns (sy_tm st) (fst conn) x" for x
    using assms fresh_putD [OF assms(2)] by (auto simp: conn_ok_def split: if_splits)
  then show ?thesis using assms(1) fresh_putD(2,3) [OF assms(2)] by (force simp: conn_ok_def)
qed

lemma put_step_fresh:
  assumes "put_step cn tm tm' msgs"
  obtains t where "fresh_put tm tm' cn t" "et_CommonName t = Some cn" "defaultTransport tm' = defaultTransport tm"
  using assms by (rule put_step_map) (simp add: fresh_put_def that)

lemma conn_inv_put:
  assumes "conn_inv st" "sy_ready st" "put_step cn (sy_tm st) tm' msgs"
  shows "conn_inv (st\<lparr>sy_tm := tm', transportChannel := ch\<rparr>)"
proof -
  obtain t where t: "fresh_put (sy_tm st) tm' cn t" "defaultTransport tm' = defaultTransport (sy_tm st)" using assms(3) by (rule put_step_fresh)
  have "used (st\<lparr>sy_tm := tm', transportChannel := ch\<rparr>) = used st" by (simp add: used_def t(2))
  then show ?thesis
    using assms(1,2) owners_put [OF _ t(1)] used_put [OF _ t(1)] conn_put [OF _ t(1)] by (auto simp: conn_inv_def list_all_iff)
qed

text \<open>The transports of the start have dialers of their own.\<close>

lemma init_transports_owners:
  "owners_ok tm \<Longrightarrow> used_ok tm u \<Longrightarrow> owners_ok (init_transports cfg net names tm) \<and> used_ok (init_transports cfg net names tm) u \<and>
     defaultTransport (init_transports cfg net names tm) = defaultTransport tm"
proof (induction names arbitrary: tm)
  case (Cons n names)
  obtain t tm1 where t: "getTransport cfg net n tm = (Inr t, tm1)" "new_transport n tm t tm1" using getTransport_new by blast
  then have "fresh_put tm (updateTransport n t tm1) n t" "defaultTransport (updateTransport n t tm1) = defaultTransport tm"
    by (simp_all add: fresh_put_def updateTransport_def new_transport_def)
  then show ?case using Cons.IH [of "updateTransport n t tm1"] owners_put used_put Cons.prems t(1) by simp
qed simp

lemma ServeHTTP_used: "sy_handler st = Some h \<Longrightarrow> px_transport (ServeHTTP_proxy h peers) \<in> used st"
  by (auto simp: ServeHTTP_proxy_def getEdgeReverseProxy_def used_def ran_def split: option.splits)

lemma transport_used_ok:
  assumes "owners_ok (sy_tm st)" "named (sy_tm st)" "used_ok (sy_tm st) (defaultTransport (sy_tm st))"
  shows "used_ok (sy_tm st) (GetTransport (sy_tm st) cn)"
proof (cases "mget (transportMap (sy_tm st)) cn")
  case (Some t)
  then have own: "owns (sy_tm st) (dialer t) cn" by (simp add: owns_def)
  then have "owns (sy_tm st) (dialer t) x \<Longrightarrow> x = cn" for x by (rule owners_eq [OF assms(1)])
  moreover have "et_CommonName t = Some cn" using assms(2) Some unfolding named_def by blast
  ultimately have "used_ok (sy_tm st) t" using owners_less [OF assms(1) own] by (auto simp: used_ok_def)
  then show ?thesis using assms(3) Some by (simp add: GetTransport_def)
qed (simp add: GetTransport_def assms(3))

lemma conn_step:
  assumes "conn_inv st" "chain_inv cfg st" "lc_NetworkInterface cfg = ''''" "system_step cfg st st'"
  shows "conn_inv st'"
  using assms(4)
proof cases
  case (reload_cert pair fs tlsCert cn cm' msgs)
  have "conn_ok st conn \<Longrightarrow> conn_ok st' conn" for conn
    using handleCertUpdate_eq [OF reload_cert(4)] by (auto simp: reload_cert(1) conn_ok_def)
  moreover have "used st' = used st" by (simp add: reload_cert(1) used_def)
  ultimately show ?thesis using assms(1) by (auto simp: conn_inv_def reload_cert(1) list_all_iff)
next
  case (init_transport net tm')
  have none: "transportMap (sy_tm st) = []" "sy_conns st = []" "sy_handler st = None" using assms(1) init_transport(2) by (simp_all add: conn_inv_def)
  obtain t tm1 where m: "makeTransport cfg None None (sy_tm st) = (t, tm1)" by fastforce
  let ?tm = "tm1\<lparr>defaultTransport := t\<rparr>"
  have tm': "tm' = init_transports cfg net (mkeys (certMap (sy_cm st))) ?tm" using init_transport(3) by (simp add: TransportManager_Init_def m)
  have no: "\<not> owns ?tm d x" for d x using makeTransport_eq(4) [OF m] none(1) by (simp add: owns_def)
  then have "owners_ok ?tm" "used_ok ?tm t" using makeTransport_eq(1,3) [OF m] by (simp_all add: owners_ok_def used_ok_def)
  from init_transports_owners [OF this] show ?thesis using none init_transport(1) by (simp add: conn_inv_def tm' used_def)
next
  case (new_cert cn rest net tm' msgs closed)
  from new_cert(4) show ?thesis
  proof (cases rule: receive_cert_cases)
    case (rotate old)
    then have tm: "transportMap tm' = transportMap (sy_tm st)" "defaultTransport tm' = defaultTransport (sy_tm st)" "tm_next (sy_tm st) \<le> tm_next tm'"
      by (simp_all add: keep_step_def)
    have own: "owns tm' = owns (sy_tm st)" "owns (sy_tm st) (dialer old) cn" using rotate(1) by (simp_all add: owns_def fun_eq_iff tm(1))
    have "conn_ok st' (d, c)" if "conn_ok st (d, c)" "d \<noteq> dialer old" for d c
    proof -
      have "cn \<noteq> x" if "owns (sy_tm st) d x" for x using that rotate(1) \<open>d \<noteq> dialer old\<close> by (auto simp: owns_def)
      then show ?thesis using that(1) tm(3) new_cert(1,3) by (force simp: conn_ok_def own(1))
    qed
    moreover have "owners_ok tm'" using assms(1) tm(3) unfolding conn_inv_def owners_ok_def own(1) by fastforce
    moreover have "used_ok (sy_tm st) u \<Longrightarrow> used_ok tm' u" for u using tm(3) by (auto simp: used_ok_def own(1))
    moreover have "used st' = used st" by (simp add: new_cert(1) used_def tm(2))
    ultimately show ?thesis using assms(1) new_cert(1,2) rotate(3) by (auto simp: conn_inv_def list_all_iff)
  next
    case new
    have inv: "conn_inv (st\<lparr>sy_tm := tm', transportChannel := transportChannel st @ msgs\<rparr>)" by (rule conn_inv_put [OF assms(1) new_cert(2) new(2)])
    obtain t where t: "fresh_put (sy_tm st) tm' cn t" using new(2) by (rule put_step_fresh)
    have "conn_ok st' conn" if "conn_ok st conn" "conn_ok (st\<lparr>sy_tm := tm', transportChannel := transportChannel st @ msgs\<rparr>) conn" for conn
    proof -
      have "fst conn < dialer t" using that(1) fresh_putD(2) [OF t] by (simp add: conn_ok_def)
      then have "\<not> owns tm' (fst conn) cn" by (simp add: fresh_putD(1) [OF t])
      then show ?thesis using that(2) new_cert(1,3) by (auto simp: conn_ok_def)
    qed
    moreover have "used st' = used (st\<lparr>sy_tm := tm', transportChannel := transportChannel st @ msgs\<rparr>)" by (simp add: new_cert(1) used_def)
    ultimately show ?thesis using inv assms(1) new_cert(1) new(3) by (auto simp: conn_inv_def list_all_iff)
  qed
next
  case (interface cn net tm' msgs)
  then show ?thesis using assms(3) by simp
next
  case init_handler
  have ok: "owners_ok (sy_tm st)" "named (sy_tm st)" "used_ok (sy_tm st) (defaultTransport (sy_tm st))" "mwf (transportMap (sy_tm st))"
    using assms(1,2) init_handler(2) by (simp_all add: conn_inv_def chain_inv_def used_def)
  have "used_ok (sy_tm st) u" if "u \<in> used st'" for u
  proof -
    have "u = defaultTransport (sy_tm st) \<or> (\<exists>cn. mget (transportMap (sy_tm st)) cn = Some u)"
      using that ok(4) by (auto simp: init_handler(1) used_def initProxies_def NewEdgeReverseProxy_def GetTransport_def copy_map_eq mget_map ran_def split: if_splits)
    then show ?thesis
    proof
      assume "\<exists>cn. mget (transportMap (sy_tm st)) cn = Some u"
      then obtain cn where cn: "mget (transportMap (sy_tm st)) cn = Some u" by blast
      moreover have "cn \<noteq> ''''" using cn ok(2) unfolding named_def by blast
      ultimately show ?thesis using transport_used_ok [OF ok(1-3), of cn] by (simp add: GetTransport_def)
    qed (simp add: ok(3))
  qed
  moreover have "conn_ok st' = conn_ok st" by (simp add: init_handler(1) conn_ok_def fun_eq_iff)
  ultimately show ?thesis using assms(1) init_handler(1,2) by (simp add: conn_inv_def)
next
  case (new_transport h cn rest)
  have ready: "sy_ready st" using assms(1) new_transport(2) by (auto simp: conn_inv_def)
  then have ok: "owners_ok (sy_tm st)" "named (sy_tm st)" "used_ok (sy_tm st) (defaultTransport (sy_tm st))"
    using assms(1,2) by (simp_all add: conn_inv_def chain_inv_def used_def)
  have "u \<in> used st \<or> u = GetTransport (sy_tm st) cn" if "u \<in> used st'" for u
    using that by (auto simp: new_transport(1,2) used_def receive_transport_def NewEdgeReverseProxy_def mget_mput ran_def split: if_splits)
  then have "\<forall>u\<in>used st'. used_ok (sy_tm st) u" using assms(1) transport_used_ok [OF ok] by (auto simp: conn_inv_def)
  moreover have "conn_ok st' = conn_ok st" by (simp add: new_transport(1) conn_ok_def fun_eq_iff)
  ultimately show ?thesis using assms(1) ready by (simp add: conn_inv_def new_transport(1))
next
  case (serve h t peers)
  have ready: "sy_ready st" using assms(1) serve(2) by (auto simp: conn_inv_def)
  have "used_ok (sy_tm st) t" using assms(1) ServeHTTP_used [OF serve(2)] serve(3) unfolding conn_inv_def by blast
  then have "conn_ok st (dialer t, presented (sy_cm st) t)" by (auto simp: conn_ok_def used_ok_def presented_def)
  moreover have "conn_ok st' = conn_ok st" "used st' = used st" by (simp_all add: serve(1) conn_ok_def used_def fun_eq_iff)
  ultimately show ?thesis using assms(1) ready by (simp add: conn_inv_def serve(1))
next
  case (close conns)
  have "conn_ok st' = conn_ok st" "used st' = used st" by (simp_all add: close(1) conn_ok_def used_def fun_eq_iff)
  then show ?thesis using assms(1) close(2) by (auto simp: conn_inv_def close(1) list_all_iff)
qed

lemma conn_reach: "system_reach cfg st \<Longrightarrow> lc_NetworkInterface cfg = '''' \<Longrightarrow> conn_inv st"
proof (induction rule: system_reach.induct)
  case (start tm fs now tls)
  then show ?case by (simp add: conn_inv_def system_start_def owners_ok_def owns_def used_def)
next
  case (step st st')
  then show ?case using conn_step [OF _ chain_reach] by blast
qed

text \<open>
  C31: When no network interfaces are configured, no connection with an old certificate stays after a rotation: whenever all messages about new
  certificates have been handled, every open connection of the transport of a name has presented the certificate that the name has now.
\<close>

theorem rotation_closes_connections:
  assumes "system_reach cfg st" "lc_NetworkInterface cfg = ''''" "certChannel st = []"
    and "mget (transportMap (sy_tm st)) cn = Some t" "(dialer t, c) \<in> set (sy_conns st)"
  shows "c = GetCert (sy_cm st) cn"
proof -
  have "conn_ok st (dialer t, c)" using conn_reach [OF assms(1,2)] assms(5) by (simp add: conn_inv_def list_all_iff)
  moreover have "owns (sy_tm st) (dialer t) cn" by (simp add: owns_def assms(4))
  ultimately show ?thesis using assms(3) by (auto simp: conn_ok_def)
qed

section \<open>A run of the managers\<close>

definition sample_lite_config :: lite_config where
  "sample_lite_config = \<lparr>lc_KubeApiserverUrl = ''cloud'', lc_KubeApiserverPort = 6443, lc_Insecure = False, lc_NetworkInterface = ''''\<rparr>"

definition sample_net :: net_env where
  "sample_net = \<lparr>healthz = (\<lambda>_ _. Inl ''''), GetLocalAddrByInterface = (\<lambda>_. Inl '''')\<rparr>"

definition sample_cert :: "string \<Rightarrow> certificate" where
  "sample_cert sig = \<lparr>ce_CommonName = ''kubelet'', ce_Signature = sig, ce_NotBefore = 0, ce_NotAfter = 10\<rparr>"

definition sample_transport :: "nat \<Rightarrow> string option \<Rightarrow> EdgeTransport" where
  "sample_transport d cn = \<lparr>dialer = d, et_CommonName = cn, et_Insecure = False, et_LocalAddr = None, et_Timeout = 10, NetworkInterface = ''''\<rparr>"

text \<open>One certificate with its transport and proxy, no message on its way, and these connections.\<close>

definition sample_system :: "string \<Rightarrow> string list \<Rightarrow> (nat \<times> certificate option) list \<Rightarrow> lite_system" where
  "sample_system sig msgs conns =
     \<lparr>sy_cm = \<lparr>tlsConfig = [(''c'', ''k'')], fastReload = False, certMap = [(''kubelet'', sample_cert sig)]\<rparr>,
      sy_tm = \<lparr>tm_timeout = 10, tm_next = 2, defaultTransport = sample_transport 0 None, transportMap = [(''kubelet'', sample_transport 1 (Some ''kubelet''))]\<rparr>,
      sy_ready = True,
      sy_handler = Some \<lparr>defaultProxy = NewEdgeReverseProxy sample_lite_config (sample_transport 0 None),
        reverseProxyMap = [(''kubelet'', NewEdgeReverseProxy sample_lite_config (sample_transport 1 (Some ''kubelet'')))]\<rparr>,
      certChannel = msgs, transportChannel = [], sy_conns = conns\<rparr>"

lemma sample_init:
  "CertManager_Init (\<lambda>_. Inr (sample_cert ''s1'')) 5 (NewCertManager [(''c'', ''k'')]) = sy_cm (sample_system ''s1'' [] [])"
  by (simp add: CertManager_Init_def NewCertManager_def loadCert_def sample_cert_def updateCert_def CertHasExpired_def sample_system_def)

lemma sample_reach: "system_reach sample_lite_config (sample_system ''s1'' [] [])"
proof -
  let ?cfg = sample_lite_config and ?s = "sample_system ''s1'' [] []"
  let ?tm0 = "\<lparr>tm_timeout = 0, tm_next = 0, defaultTransport = sample_transport 0 None, transportMap = []\<rparr>"
  let ?start = "system_start (CertManager_Init (\<lambda>_. Inr (sample_cert ''s1'')) 5 (NewCertManager [(''c'', ''k'')])) ?tm0"
  have 0: "system_reach ?cfg ?start" by (rule system_reach.start) simp
  have tm: "sy_tm ?s = \<lparr>tm_timeout = 10, tm_next = Suc (Suc 0), defaultTransport = sample_transport 0 None, transportMap = [(''kubelet'', sample_transport (Suc 0) (Some ''kubelet''))]\<rparr>"
    by (simp add: sample_system_def numeral_2_eq_2)
  have "sy_cm ?start = sy_cm ?s" "sy_tm ?start = ?tm0" unfolding sample_init by (simp_all add: system_start_def)
  moreover have "TransportManager_Init None ?cfg sample_net (sy_cm ?s) ?tm0 = (None, sy_tm ?s)" unfolding tm
    by (simp add: sample_system_def TransportManager_Init_def makeTransport_def getTransport_def updateTransport_def sample_lite_config_def sample_transport_def Let_def)
  ultimately have "TransportManager_Init None ?cfg sample_net (sy_cm ?start) (sy_tm ?start) = (None, sy_tm ?s)" by simp
  from system_step.init_transport [OF _ this] have 1: "system_reach ?cfg (?start\<lparr>sy_tm := sy_tm ?s, sy_ready := True\<rparr>)"
    by (intro system_reach.step [OF 0]) (simp add: system_start_def)
  have "system_reach ?cfg (?start\<lparr>sy_tm := sy_tm ?s, sy_ready := True, sy_handler := Some (initProxies ?cfg (sy_tm ?s))\<rparr>)"
    using system_step.init_handler [of "?start\<lparr>sy_tm := sy_tm ?s, sy_ready := True\<rparr>" ?cfg] by (intro system_reach.step [OF 1]) (simp add: system_start_def)
  moreover have "?start\<lparr>sy_tm := sy_tm ?s, sy_ready := True, sy_handler := Some (initProxies ?cfg (sy_tm ?s))\<rparr> = ?s"
    unfolding sample_init system_start_def by (simp add: sample_system_def initProxies_def GetTransport_def copy_map_def)
  ultimately show ?thesis by simp
qed

theorem proxies_follow_certificates_witness:
  "\<exists>st h. system_reach sample_lite_config st \<and> sy_handler st = Some h \<and> (\<exists>t. mget (transportMap (sy_tm st)) (request_name (Some [(True, ''ca''), (False, ''kubelet'')])) = Some t \<and>
     ServeHTTP_proxy h (Some [(True, ''ca''), (False, ''kubelet'')]) = NewEdgeReverseProxy sample_lite_config t \<and> presented (sy_cm st) t = Some (sample_cert ''s1''))"
proof -
  let ?s = "sample_system ''s1'' [] []"
  have "GetCert (sy_cm ?s) (request_name (Some [(True, ''ca''), (False, ''kubelet'')])) = Some (sample_cert ''s1'')"
    by (simp add: request_name_def GetCert_def sample_system_def)
  from proxies_follow_certificates [OF sample_reach _ _ _ this] show ?thesis
    using sample_reach by (intro exI [of _ ?s]) (simp add: sample_system_def)
qed

theorem rotation_closes_connections_witness:
  "\<exists>st c t. system_reach sample_lite_config st \<and> mget (transportMap (sy_tm st)) ''kubelet'' = Some t \<and> (dialer t, c) \<in> set (sy_conns st) \<and>
     c = GetCert (sy_cm st) ''kubelet'' \<and> c = Some (sample_cert ''s2'')"
proof -
  let ?cfg = sample_lite_config and ?c1 = "(1, Some (sample_cert ''s1''))" and ?c2 = "(1, Some (sample_cert ''s2''))"
  let ?h = "the (sy_handler (sample_system ''s1'' [] []))" and ?peers = "Some [(False, ''kubelet'')]"
  have peer: "px_transport (ServeHTTP_proxy ?h ?peers) = sample_transport 1 (Some ''kubelet'')"
    by (simp add: sample_system_def ServeHTTP_proxy_def getEdgeReverseProxy_def request_name_def NewEdgeReverseProxy_def)
  have serve: "system_step ?cfg (sample_system s [] []) (sample_system s [] [(1, Some (sample_cert s))])" for s
    using system_step.serve [of "sample_system s [] []" ?h "sample_transport 1 (Some ''kubelet'')" ?peers ?cfg] peer
    by (simp add: sample_system_def presented_def sample_transport_def GetCert_def)
  have 1: "system_reach ?cfg (sample_system ''s1'' [] [?c1])" by (rule system_reach.step [OF sample_reach serve])
  have "system_step ?cfg (sample_system ''s1'' [] [?c1]) (sample_system ''s2'' [''kubelet''] [?c1])"
    using system_step.reload_cert [of "(''c'', ''k'')" "sample_system ''s1'' [] [?c1]" "\<lambda>_. Inr (sample_cert ''s2'')" "sample_cert ''s2''" "''kubelet''" _ _ ?cfg]
    by (simp add: sample_system_def loadCert_def sample_cert_def handleCertUpdate_def updateCert_def)
  with 1 have 2: "system_reach ?cfg (sample_system ''s2'' [''kubelet''] [?c1])" by (rule system_reach.step)
  have "system_step ?cfg (sample_system ''s2'' [''kubelet''] [?c1]) (sample_system ''s2'' [] [])"
    using system_step.new_cert [of "sample_system ''s2'' [''kubelet''] [?c1]" "''kubelet''" "[]" ?cfg sample_net]
    by (simp add: sample_system_def receive_cert_def sample_transport_def)
  with 2 have "system_reach ?cfg (sample_system ''s2'' [] [])" by (rule system_reach.step)
  then have 3: "system_reach ?cfg (sample_system ''s2'' [] [?c2])" using serve by (rule system_reach.step)
  let ?t = "sample_transport 1 (Some ''kubelet'')"
  have "mget (transportMap (sy_tm (sample_system ''s2'' [] [?c2]))) ''kubelet'' = Some ?t" "(dialer ?t, Some (sample_cert ''s2'')) \<in> set (sy_conns (sample_system ''s2'' [] [?c2]))"
    by (simp_all add: sample_system_def sample_transport_def)
  with rotation_closes_connections [OF 3 _ _ this] 3 show ?thesis
    by (intro exI [of _ "sample_system ''s2'' [] [?c2]"] exI [of _ "Some (sample_cert ''s2'')"] exI [of _ ?t]) (simp add: sample_system_def sample_lite_config_def)
qed

section \<open>A round of the certificate manager\<close>

lemma handleCertUpdate_tls: "handleCertUpdate c cn cm = (cm', msgs) \<Longrightarrow> tlsConfig cm' = tlsConfig cm"
  by (auto simp: handleCertUpdate_def updateCert_def split: option.splits if_splits)

text \<open>A round of the timer is a sequence of the steps above, one per pair of files that can be loaded.\<close>

lemma reload_certs_steps:
  assumes "reload_certs fs now pairs fast (sy_cm st) = (fast', cm', msgs)" "set pairs \<subseteq> set (tlsConfig (sy_cm st))"
  shows "(system_step cfg)\<^sup>*\<^sup>* st (st\<lparr>sy_cm := cm', certChannel := certChannel st @ msgs\<rparr>)"
  using assms
proof (induction pairs arbitrary: fast st msgs)
  case Nil
  then show ?case by auto
next
  case (Cons pair pairs)
  show ?case
  proof (cases "loadCert fs pair")
    case (Inl err)
    then show ?thesis using Cons.IH [of True st msgs] Cons.prems by simp
  next
    case (Inr r)
    obtain c cn where r: "r = (c, cn)" by fastforce
    obtain cm1 msgs1 where h: "handleCertUpdate c cn (sy_cm st) = (cm1, msgs1)" by fastforce
    let ?st = "st\<lparr>sy_cm := cm1, certChannel := certChannel st @ msgs1\<rparr>"
    obtain msgs2 where rest: "reload_certs fs now pairs (fast \<or> CertHasExpired now c) (sy_cm ?st) = (fast', cm', msgs2)" "msgs = msgs1 @ msgs2"
      using Cons.prems(1) by (auto simp: Inr r h split: prod.splits)
    have "system_step cfg st ?st" by (rule system_step.reload_cert [OF _ Inr [unfolded r] h]) (use Cons.prems(2) in simp)
    moreover have "(system_step cfg)\<^sup>*\<^sup>* ?st (st\<lparr>sy_cm := cm', certChannel := certChannel st @ msgs\<rparr>)"
      using Cons.IH [OF rest(1)] Cons.prems(2) handleCertUpdate_tls [OF h] rest(2) by simp
    ultimately show ?thesis by (rule converse_rtranclp_into_rtranclp)
  qed
qed

text \<open>The next round comes after a second exactly when a pair could not be loaded or has expired.\<close>

lemma reload_certs_fast:
  "fst (reload_certs fs now pairs fast cm) \<longleftrightarrow> fast \<or> (\<exists>pair\<in>set pairs. case loadCert fs pair of Inl _ \<Rightarrow> True | Inr (c, _) \<Rightarrow> CertHasExpired now c)"
proof (induction pairs arbitrary: fast cm)
  case (Cons pair pairs)
  show ?case
  proof (cases "loadCert fs pair")
    case (Inl err)
    then show ?thesis using Cons.IH [of True cm] by simp
  next
    case (Inr r)
    obtain c cn where r: "r = (c, cn)" by fastforce
    obtain cm1 msgs1 where h: "handleCertUpdate c cn cm = (cm1, msgs1)" by fastforce
    have "fst (reload_certs fs now (pair # pairs) fast cm) = fst (reload_certs fs now pairs (fast \<or> CertHasExpired now c) cm1)"
      by (simp add: Inr r h split: prod.splits)
    then show ?thesis using Cons.IH [of "fast \<or> CertHasExpired now c" cm1] by (simp add: Inr r disj_assoc)
  qed
qed simp

lemma getReloadDuration_reload:
  "getReloadDuration (fst (reload fs now cm)) =
     (if \<exists>pair\<in>set (tlsConfig cm). case loadCert fs pair of Inl _ \<Rightarrow> True | Inr (c, _) \<Rightarrow> CertHasExpired now c then 10 ^ 9 else 1800 * 10 ^ 9)"
  using reload_certs_fast [of fs now "tlsConfig cm" False cm] by (auto simp: reload_def getReloadDuration_def split: prod.splits)

end
