(* ===== verification/LiteMux.thy ===== *)
theory LiteMux
  imports KubeMeta WorkQueue
begin

text \<open>
  The multiplexed informers of lite-apiserver (\<open>src/pkg/lite-apiserver/server/server.go\<close>, \<open>server/multiplex/\<close>): lists and watches of nodes,
  endpoints and services by the clients on a node are answered from one informer per resource, whose events are broadcast to all watches.

  The three caches are the same code for three types, so they are defined once, on the metadata of the objects. The informer and the
  broadcaster are those of \<open>client-go\<close>: the informer changes its store before it notifies the handlers, one notification at a time; the broadcaster passes an event to the
  watches that are registered, and drops it for a watch whose channel is full. The length of that channel, the media types, selectors and
  encoders are arguments. Reading the cache of an informer with a selector yields no error, so the branches for such errors are left out.
\<close>

section \<open>Registry\<close>

definition NodeCacheURL :: string where "NodeCacheURL = ''/api/v1/nodes''"
definition EndpointCacheURL :: string where "EndpointCacheURL = ''/api/v1/endpoints''"
definition ServiceCacheURL :: string where "ServiceCacheURL = ''/api/v1/services''"

datatype mux_resource = Nodes | EndpointsRes | Services

text \<open>The factories that the three files register when the program starts.\<close>

definition RegisterMuxFactory :: "string \<Rightarrow> 'f option \<Rightarrow> (string, 'f) gomap \<Rightarrow> (string, 'f) gomap go" where
  "RegisterMuxFactory url f muxFactories =
     (case f of
        None \<Rightarrow> Panic
      | Some fac \<Rightarrow> if mhas muxFactories url then Panic else Ret (mput url fac muxFactories))"

definition init_factories :: "(string, mux_resource) gomap go" where
  "init_factories =
     go_bind (RegisterMuxFactory EndpointCacheURL (Some EndpointsRes) []) (\<lambda>m.
     go_bind (RegisterMuxFactory NodeCacheURL (Some Nodes) m) (\<lambda>m.
     RegisterMuxFactory ServiceCacheURL (Some Services) m))"

definition GetMuxFactory :: "(string, 'f) gomap \<Rightarrow> string \<Rightarrow> go_error + 'f" where
  "GetMuxFactory muxFactories url = (case mget muxFactories url of None \<Rightarrow> Inl ''Unsupport Multiplex URL %s'' | Some f \<Rightarrow> Inr f)"

section \<open>The cache of a resource\<close>

datatype mux_event = MAdded object_meta | MModified object_meta | MDeleted object_meta

text \<open>What a watch was sent, with the prefix, and what of it is still in its channel.\<close>

record mux_watch =
  mw_sent :: "mux_event list"
  mw_queue :: "mux_event list"
  mw_size :: nat

text \<open>A notification of the informer; a deletion may come as a tombstone.\<close>

datatype notification = OnAddN object_meta | OnUpdateN object_meta object_meta | OnDeleteN "object_meta deleted"

text \<open>
  \<open>mx_store\<close> is the store of the informer, \<open>mx_pending\<close> what it has not yet told the handlers, \<open>mx_starting\<close> the events that
  calls of \<open>Watch\<close> have listed before their registration.
\<close>

record cache_mux =
  mx_url :: string
  mx_store :: "(NamespacedName, object_meta) gomap"
  mx_pending :: "notification list"
  mx_starting :: "mux_event list list"
  mx_watches :: "mux_watch list"

definition NewMux :: "string \<Rightarrow> cache_mux" where
  "NewMux url = \<lparr>mx_url = url, mx_store = [], mx_pending = [], mx_starting = [], mx_watches = []\<rparr>"

definition NewNodeMux where "NewNodeMux = NewMux NodeCacheURL"
definition NewEndpointMux where "NewEndpointMux = NewMux EndpointCacheURL"
definition NewServiceMux where "NewServiceMux = NewMux ServiceCacheURL"

fun create_mux :: "mux_resource \<Rightarrow> cache_mux" where
  "create_mux Nodes = NewNodeMux"
| "create_mux EndpointsRes = NewEndpointMux"
| "create_mux Services = NewServiceMux"

definition CreateMux :: "(string, mux_resource) gomap \<Rightarrow> string \<Rightarrow> go_error + cache_mux" where
  "CreateMux muxFactories url = (case GetMuxFactory muxFactories url of Inl err \<Rightarrow> Inl err | Inr f \<Rightarrow> Inr (create_mux f))"

type_synonym mux_registries = "(string, cache_mux) gomap"

definition GetMux :: "mux_registries \<Rightarrow> string \<Rightarrow> go_error + cache_mux" where
  "GetMux muxRegistries url = (case mget muxRegistries url of None \<Rightarrow> Inl ''Unregister Multiplex URL'' | Some mux \<Rightarrow> Inr mux)"

definition RegisterMux :: "string \<Rightarrow> cache_mux \<Rightarrow> mux_registries \<Rightarrow> mux_registries" where
  "RegisterMux url mux muxRegistries = mput url mux muxRegistries"

definition mux_Name :: "cache_mux \<Rightarrow> string" where
  "mux_Name = mx_url"

definition mux_Match :: "cache_mux \<Rightarrow> string \<Rightarrow> string \<Rightarrow> bool" where
  "mux_Match mux meth URLPath \<longleftrightarrow> meth = ''GET'' \<and> HasPrefix URLPath (mx_url mux)"

definition ListObjects :: "(labels option \<Rightarrow> bool) \<Rightarrow> cache_mux \<Rightarrow> object_meta list" where
  "ListObjects selector mux = filter (\<lambda>m. selector (om_Labels m)) (map snd (mx_store mux))"

definition Broadcast :: "mux_event \<Rightarrow> cache_mux \<Rightarrow> cache_mux" where
  "Broadcast e mux = mux\<lparr>mx_watches := map (\<lambda>w. if length (mw_queue w) < mw_size w
     then w\<lparr>mw_sent := mw_sent w @ [e], mw_queue := mw_queue w @ [e]\<rparr> else w) (mx_watches mux)\<rparr>"

definition mux_OnAdd :: "object_meta \<Rightarrow> cache_mux \<Rightarrow> cache_mux" where
  "mux_OnAdd obj = Broadcast (MAdded obj)"

definition mux_OnUpdate :: "object_meta \<Rightarrow> object_meta \<Rightarrow> cache_mux \<Rightarrow> cache_mux" where
  "mux_OnUpdate oldObj newObj = Broadcast (MModified newObj)"

text \<open>A tombstone is no object of the resource.\<close>

definition mux_OnDelete :: "object_meta deleted \<Rightarrow> cache_mux \<Rightarrow> cache_mux" where
  "mux_OnDelete obj = (case obj of deleted.Deleted n \<Rightarrow> Broadcast (MDeleted n) | _ \<Rightarrow> id)"

text \<open>
  The two halves of \<open>Watch\<close>: the list, and the registration with it as prefix, a call of \<open>WatchWithPrefix\<close> of the apimachinery broadcaster. What
  that library does is taken from its documentation: a watcher first gets the events of the prefix and then every event that is
  distributed after its registration. \<open>queue_length\<close> is the length of the channel that the code asks for.
\<close>

definition Watch_list :: "cache_mux \<Rightarrow> mux_event list" where
  "Watch_list mux = map (\<lambda>(k, n). MAdded n) (mx_store mux)"

definition Watch_register :: "(nat \<Rightarrow> nat) \<Rightarrow> mux_event list \<Rightarrow> cache_mux \<Rightarrow> cache_mux" where
  "Watch_register queue_length evList mux =
     mux\<lparr>mx_watches := mx_watches mux @ [\<lparr>mw_sent = evList, mw_queue = evList, mw_size = queue_length (length evList)\<rparr>]\<rparr>"

definition mux_Watch :: "(nat \<Rightarrow> nat) \<Rightarrow> cache_mux \<Rightarrow> cache_mux" where
  "mux_Watch queue_length mux = Watch_register queue_length (Watch_list mux) mux"

section \<open>Requests\<close>

record mux_request =
  mr_Method :: string
  mr_Path :: string
  mr_Query :: "(string, string) gomap"
  mr_Accept :: string

record media_type =
  mt_MediaType :: string
  mt_Type :: string
  mt_SubType :: string

text \<open>
  \<open>ParseAccept\<close> is that of \<open>goautoneg\<close>, \<open>ParseSelector\<close> is \<open>labels.Parse\<close>, \<open>ParseDuration\<close> is \<open>time.ParseDuration\<close> in nanoseconds, which yields 0 with
  an error; \<open>EncodeList\<close> and \<open>EncodeEvent\<close> are the errors of the encoders; \<open>Flusher\<close> says whether the response can be flushed.
\<close>

record mux_http =
  mh_accepted :: "media_type list"
  ParseAccept :: "string \<Rightarrow> (string \<times> string) list"
  ParseSelector :: "string \<Rightarrow> go_error + (labels option \<Rightarrow> bool)"
  ParseDuration :: "string \<Rightarrow> int"
  EncodeList :: "object_meta list \<Rightarrow> go_error option"
  EncodeEvent :: "mux_event \<Rightarrow> go_error option"
  Flusher :: bool
  queue_length :: "nat \<Rightarrow> nat"

datatype mux_answer =
    Forwarded
  | StatusOnly nat
  | ListAnswer string mux_resource "object_meta list"
  | NilList string
  | WatchAnswer string int

definition query :: "mux_request \<Rightarrow> string \<Rightarrow> string" where
  "query r k = mget0 '''' (mr_Query r) k"

definition clause_matches :: "string \<times> string \<Rightarrow> media_type \<Rightarrow> bool" where
  "clause_matches c a \<longleftrightarrow> fst c = mt_Type a \<and> snd c = mt_SubType a \<or> fst c = mt_Type a \<and> snd c = ''*'' \<or> fst c = ''*'' \<and> snd c = ''*''"

fun accept_clauses :: "(string \<times> string) list \<Rightarrow> media_type list \<Rightarrow> media_type option" where
  "accept_clauses [] accepted = None"
| "accept_clauses (c # cs) accepted = (case find (clause_matches c) accepted of Some a \<Rightarrow> Some a | None \<Rightarrow> accept_clauses cs accepted)"

definition parseAccept_mux :: "mux_http \<Rightarrow> string \<Rightarrow> media_type option" where
  "parseAccept_mux env header =
     (if length header = 0 \<and> length (mh_accepted env) > 0 then Some (hd (mh_accepted env))
      else accept_clauses (ParseAccept env header) (mh_accepted env))"

text \<open>The kind of list that a path stands for.\<close>

definition list_resource :: "string \<Rightarrow> mux_resource option" where
  "list_resource path =
     (if path = EndpointCacheURL then Some EndpointsRes else if path = NodeCacheURL then Some Nodes
      else if path = ServiceCacheURL then Some Services else None)"

definition mux_list :: "mux_http \<Rightarrow> string \<Rightarrow> string \<Rightarrow> (labels option \<Rightarrow> bool) \<Rightarrow> cache_mux \<Rightarrow> mux_answer" where
  "mux_list env media path selector mux =
     (case list_resource path of
        None \<Rightarrow> NilList media
      | Some r \<Rightarrow>
          (case EncodeList env (ListObjects selector mux) of Some err \<Rightarrow> StatusOnly 500 | None \<Rightarrow> ListAnswer media r (ListObjects selector mux)))"

definition mux_timeout :: "mux_http \<Rightarrow> mux_request \<Rightarrow> int" where
  "mux_timeout env r =
     (if query r ''timeoutSeconds'' \<noteq> '''' then ParseDuration env (query r ''timeoutSeconds'' @ ''s'') else 60000000000)"

text \<open>The handler: its answer, and the caches with the watch that it has registered. Bookmarks and the resource version are passed on and not used.\<close>

definition interceptCacheMultiplex :: "mux_http \<Rightarrow> mux_registries \<Rightarrow> mux_request \<Rightarrow> mux_answer \<times> mux_registries" where
  "interceptCacheMultiplex env reg r =
     (if mr_Method r \<noteq> ''GET'' then (Forwarded, reg)
      else case GetMux reg (mr_Path r) of
        Inl err \<Rightarrow> (Forwarded, reg)
      | Inr mux \<Rightarrow>
          (case parseAccept_mux env (mr_Accept r) of
             None \<Rightarrow> (StatusOnly 400, reg)
           | Some info \<Rightarrow>
               (case ParseSelector env (query r ''labelSelector'') of
                  Inl err \<Rightarrow> (StatusOnly 400, reg)
                | Inr ls \<Rightarrow>
                    if query r ''watch'' = '''' then (mux_list env (mt_MediaType info) (mr_Path r) ls mux, reg)
                    else if \<not> Flusher env then (StatusOnly 405, reg)
                    else
                      (WatchAnswer (if mt_MediaType info = ''application/vnd.kubernetes.protobuf'' then ''application/vnd.kubernetes.protobuf;stream=watch'' else ''application/json'')
                         (mux_timeout env r),
                       RegisterMux (mr_Path r) (mux_Watch (queue_length env) mux) reg))))"

text \<open>The loop that sends the events of a watch: what its select chooses, and the events that are sent.\<close>

datatype mux_choice = RequestDone | TimerDone | NextEvent mux_event

fun watch_events :: "mux_http \<Rightarrow> mux_choice list \<Rightarrow> mux_event list" where
  "watch_events env [] = []"
| "watch_events env (RequestDone # cs) = []"
| "watch_events env (TimerDone # cs) = []"
| "watch_events env (NextEvent e # cs) = (case EncodeEvent env e of Some err \<Rightarrow> [] | None \<Rightarrow> e # watch_events env cs)"

section \<open>Start\<close>

text \<open>
  The condition that \<open>Run\<close> polls. The arguments are the errors of \<open>os.Stat\<close> and of the client configuration and the caches that
  synchronise; the result is the pair the condition returns, with the registries when it has registered and when it ends.
\<close>

fun register_muxes :: "(string, mux_resource) gomap \<Rightarrow> string list \<Rightarrow> mux_registries \<Rightarrow> go_error option \<times> mux_registries" where
  "register_muxes fs [] reg = (None, reg)"
| "register_muxes fs (url # urls) reg =
     (case CreateMux fs url of Inl err \<Rightarrow> (Some err, reg) | Inr mux \<Rightarrow> register_muxes fs urls (RegisterMux url mux reg))"

definition mux_condition ::
    "(string, mux_resource) gomap \<Rightarrow> string list \<Rightarrow> go_error option \<Rightarrow> go_error option \<Rightarrow> bool \<Rightarrow> mux_registries \<Rightarrow> (bool \<times> go_error option) \<times> mux_registries" where
  "mux_condition fs URLMultiplexCache stat conf synced reg =
     (case stat of
        Some err \<Rightarrow> ((False, Some err), reg)
      | None \<Rightarrow>
          (case conf of
             Some err \<Rightarrow> ((False, Some err), reg)
           | None \<Rightarrow>
               (case register_muxes fs URLMultiplexCache reg of
                  (Some err, reg1) \<Rightarrow> ((False, Some err), reg1)
                | (None, reg1) \<Rightarrow> if length URLMultiplexCache > 0 \<and> \<not> synced then ((False, None), reg1) else ((True, None), reg1))))"

text \<open>
  \<open>wait.PollUntil\<close>: it ends with the first result that is true or an error. The list holds what the outside answers in each round.
\<close>

fun poll_mux :: "(string, mux_resource) gomap \<Rightarrow> string list \<Rightarrow> (go_error option \<times> go_error option \<times> bool) list \<Rightarrow> mux_registries \<Rightarrow> mux_registries" where
  "poll_mux fs urls [] reg = reg"
| "poll_mux fs urls ((stat, conf, synced) # rounds) reg =
     (case mux_condition fs urls stat conf synced reg of
        ((done, err), reg1) \<Rightarrow> if done \<or> err \<noteq> None then reg1 else poll_mux fs urls rounds reg1)"

text \<open>The client configuration that the informers use.\<close>

record kube_config =
  kc_Server :: string
  kc_CertificateAuthority :: string
  kc_ClientKey :: string
  kc_ClientCertificate :: string

definition generateKubeConfiguration :: "string \<Rightarrow> int \<Rightarrow> string \<Rightarrow> (string \<times> string) list \<Rightarrow> kube_config go" where
  "generateKubeConfiguration url port caFile tls =
     (case tls of
        [] \<Rightarrow> Panic
      | (keyPath, certPath) # _ \<Rightarrow>
          Ret \<lparr>kc_Server = ''https://'' @ url @ '':'' @ Itoa port, kc_CertificateAuthority = caFile, kc_ClientKey = keyPath, kc_ClientCertificate = certPath\<rparr>)"

section \<open>Runs\<close>

text \<open>The informer: an object is added, changed or removed, and the handlers will be told; a removal that was missed is told as a tombstone.\<close>

definition informer_put :: "object_meta \<Rightarrow> cache_mux \<Rightarrow> cache_mux" where
  "informer_put n mux = mux\<lparr>mx_store := mput (namespaced_name n) n (mx_store mux),
     mx_pending := mx_pending mux @ [case mget (mx_store mux) (namespaced_name n) of None \<Rightarrow> OnAddN n | Some m \<Rightarrow> OnUpdateN m n]\<rparr>"

definition informer_remove :: "bool \<Rightarrow> object_meta \<Rightarrow> cache_mux \<Rightarrow> cache_mux" where
  "informer_remove tombstone n mux = mux\<lparr>mx_store := mdel (namespaced_name n) (mx_store mux),
     mx_pending := mx_pending mux @ [OnDeleteN (if tombstone then Tombstone (Some n) else deleted.Deleted n)]\<rparr>"

fun notify :: "notification \<Rightarrow> cache_mux \<Rightarrow> cache_mux" where
  "notify (OnAddN n) = mux_OnAdd n"
| "notify (OnUpdateN m n) = mux_OnUpdate m n"
| "notify (OnDeleteN d) = mux_OnDelete d"

text \<open>The steps of a cache: the informer, a handler, the two halves of a call of \<open>Watch\<close>, and a watch that takes an event from its channel.\<close>

datatype mux_op = Put object_meta | Remove bool object_meta | Handle | ListFor | Register nat | TakeFrom nat

inductive mux_step :: "(nat \<Rightarrow> nat) \<Rightarrow> cache_mux \<Rightarrow> mux_op \<Rightarrow> cache_mux \<Rightarrow> bool" for q where
  put: "mux_step q mux (Put n) (informer_put n mux)"
| remove: "mget (mx_store mux) (namespaced_name n) = Some n \<Longrightarrow> mux_step q mux (Remove t n) (informer_remove t n mux)"
| handle: "mx_pending mux = x # xs \<Longrightarrow> mux_step q mux Handle (notify x (mux\<lparr>mx_pending := xs\<rparr>))"
| list_for: "mux_step q mux ListFor (mux\<lparr>mx_starting := mx_starting mux @ [Watch_list mux]\<rparr>)"
| register: "mx_starting mux = es @ e # es' \<Longrightarrow> length es = i \<Longrightarrow>
    mux_step q mux (Register i) (Watch_register q e (mux\<lparr>mx_starting := es @ es'\<rparr>))"
| take_from: "i < length (mx_watches mux) \<Longrightarrow> mw_queue (mx_watches mux ! i) = e # rest \<Longrightarrow>
    mux_step q mux (TakeFrom i) (mux\<lparr>mx_watches := (mx_watches mux)[i := (mx_watches mux ! i)\<lparr>mw_queue := rest\<rparr>]\<rparr>)"

inductive_cases mux_stepE: "mux_step q mux op mux'"

text \<open>
  A calm step: no deletion is missed, no handler runs while a call of \<open>Watch\<close> has listed and not yet registered, and no channel is full.
\<close>

fun calm :: "cache_mux \<Rightarrow> mux_op \<Rightarrow> bool" where
  "calm mux (Remove t n) \<longleftrightarrow> \<not> t"
| "calm mux Handle \<longleftrightarrow> mx_starting mux = [] \<and> list_all (\<lambda>w. length (mw_queue w) < mw_size w) (mx_watches mux)"
| "calm mux _ \<longleftrightarrow> True"

inductive mux_runs :: "(cache_mux \<Rightarrow> mux_op \<Rightarrow> bool) \<Rightarrow> (nat \<Rightarrow> nat) \<Rightarrow> string \<Rightarrow> cache_mux \<Rightarrow> bool" for ok q url where
  start: "mux_runs ok q url (NewMux url)"
| step: "mux_runs ok q url mux \<Longrightarrow> mux_step q mux op mux' \<Longrightarrow> ok mux op \<Longrightarrow> mux_runs ok q url mux'"

section \<open>What a watch knows\<close>

text \<open>The objects that a client has after some events.\<close>

fun client_apply :: "mux_event \<Rightarrow> (NamespacedName \<rightharpoonup> object_meta) \<Rightarrow> (NamespacedName \<rightharpoonup> object_meta)" where
  "client_apply (MAdded n) m = m(namespaced_name n \<mapsto> n)"
| "client_apply (MModified n) m = m(namespaced_name n \<mapsto> n)"
| "client_apply (MDeleted n) m = m(namespaced_name n := None)"

abbreviation client_view :: "mux_event list \<Rightarrow> (NamespacedName \<rightharpoonup> object_meta)" where
  "client_view es \<equiv> fold client_apply es Map.empty"

fun told :: "notification \<Rightarrow> mux_event list" where
  "told (OnAddN n) = [MAdded n]"
| "told (OnUpdateN m n) = [MModified n]"
| "told (OnDeleteN (deleted.Deleted n)) = [MDeleted n]"
| "told (OnDeleteN _) = []"

abbreviation untold :: "cache_mux \<Rightarrow> mux_event list" where
  "untold mux \<equiv> concat (map told (mx_pending mux))"

text \<open>Events that lead to a state lead from that state to itself.\<close>

lemma client_apply_cong: "m k = m' k \<Longrightarrow> client_apply e m k = client_apply e m' k"
  by (cases e) auto

lemma client_fold_cong: "m k = m' k \<Longrightarrow> fold client_apply es m k = fold client_apply es m' k"
proof (induction es arbitrary: m m')
  case (Cons e es)
  have "client_apply e m k = client_apply e m' k" using Cons.prems by (rule client_apply_cong)
  then show ?case using Cons.IH [of "client_apply e m" "client_apply e m'"] by simp
qed simp

lemma client_fold_touched: "fold client_apply es m k = m k \<or> (\<forall>m'. fold client_apply es m' k = fold client_apply es m k)"
proof (induction es rule: rev_induct)
  case (snoc e es)
  then show ?case by (cases e) auto
qed simp

lemma client_fold_idem: "fold client_apply es m = M \<Longrightarrow> fold client_apply es M = M"
proof (rule ext)
  fix k assume M: "fold client_apply es m = M"
  then show "fold client_apply es M k = M k"
    using client_fold_touched [of es m k] client_fold_cong [of M k m es] by metis
qed

definition store_ok :: "cache_mux \<Rightarrow> bool" where
  "store_ok mux \<longleftrightarrow> mwf (mx_store mux) \<and> (\<forall>k n. mget (mx_store mux) k = Some n \<longrightarrow> k = namespaced_name n)"

lemma client_fold_added:
  "\<forall>(k, n) \<in> set xs. k = namespaced_name n \<Longrightarrow> distinct (map fst xs) \<Longrightarrow>
    fold client_apply (map (\<lambda>(k, n). MAdded n) xs) m k = (case map_of xs k of None \<Rightarrow> m k | Some n \<Rightarrow> Some n)"
proof (induction xs arbitrary: m)
  case (Cons x xs)
  obtain n where x: "x = (namespaced_name n, n)" using Cons.prems(1) by (cases x) auto
  have "map_of xs (namespaced_name n) = None" using Cons.prems(2) by (simp add: x map_of_eq_None_iff)
  moreover have "fold client_apply (map (\<lambda>(k, n). MAdded n) xs) (m(namespaced_name n \<mapsto> n)) k =
      (case map_of xs k of None \<Rightarrow> (m(namespaced_name n \<mapsto> n)) k | Some n \<Rightarrow> Some n)"
    using Cons.prems by (intro Cons.IH) auto
  ultimately show ?case by (simp add: x split: option.split)
qed simp

lemma client_view_list:
  assumes "store_ok mux"
  shows "client_view (Watch_list mux) = map_of (mx_store mux)"
proof
  fix k
  have "\<forall>(k, n) \<in> set (mx_store mux). k = namespaced_name n" "distinct (map fst (mx_store mux))"
    using assms mget_in_set [of "mx_store mux"] by (auto simp: store_ok_def mwf_def)
  from client_fold_added [OF this] show "client_view (Watch_list mux) k = map_of (mx_store mux) k"
    by (simp add: Watch_list_def split: option.split)
qed

text \<open>The invariant of calm runs: with what is still to be told, every watch and every list knows the store.\<close>

definition knows_store :: "cache_mux \<Rightarrow> bool" where
  "knows_store mux \<longleftrightarrow> store_ok mux \<and> (\<exists>m. fold client_apply (untold mux) m = map_of (mx_store mux)) \<and>
     (\<forall>w \<in> set (mx_watches mux). client_view (mw_sent w @ untold mux) = map_of (mx_store mux)) \<and>
     (\<forall>e \<in> set (mx_starting mux). client_view (e @ untold mux) = map_of (mx_store mux))"

lemma knows_store_start: "knows_store (NewMux url)"
  by (auto simp: knows_store_def store_ok_def NewMux_def intro!: exI [of _ Map.empty])

lemma knows_store_change:
  assumes k: "knows_store mux" and store: "map_of store' = client_apply e (map_of (mx_store mux))" "mwf store'" "\<forall>k n. map_of store' k = Some n \<longrightarrow> k = namespaced_name n"
    and tell: "told x = [e]"
  shows "knows_store (mux\<lparr>mx_store := store', mx_pending := mx_pending mux @ [x]\<rparr>)"
proof -
  obtain m where "fold client_apply (untold mux) m = map_of (mx_store mux)" using k by (auto simp: knows_store_def)
  then have "fold client_apply (untold mux @ [e]) m = map_of store'" by (simp add: store(1))
  then have "\<exists>m. fold client_apply (untold mux @ [e]) m = map_of store'" by blast
  then show ?thesis using k store tell by (simp add: knows_store_def store_ok_def)
qed

lemma informer_put_known: "knows_store mux \<Longrightarrow> knows_store (informer_put n mux)"
  unfolding informer_put_def
  by (rule knows_store_change [where e = "case mget (mx_store mux) (namespaced_name n) of None \<Rightarrow> MAdded n | Some m \<Rightarrow> MModified n"])
    (auto simp: knows_store_def store_ok_def mget_mput fun_eq_iff split: option.split if_splits)

lemma informer_remove_known: "knows_store mux \<Longrightarrow> knows_store (informer_remove False n mux)"
  unfolding informer_remove_def
  by (rule knows_store_change [where e = "MDeleted n"]) (auto simp: knows_store_def store_ok_def mget_mdel fun_eq_iff split: if_splits)

lemma Broadcast_room:
  "list_all (\<lambda>w. length (mw_queue w) < mw_size w) (mx_watches mux) \<Longrightarrow>
    mx_watches (Broadcast e mux) = map (\<lambda>w. w\<lparr>mw_sent := mw_sent w @ [e], mw_queue := mw_queue w @ [e]\<rparr>) (mx_watches mux)"
  by (auto simp: Broadcast_def list_all_iff)

lemma notify_room:
  assumes "list_all (\<lambda>w. length (mw_queue w) < mw_size w) (mx_watches mux)"
  shows "mx_store (notify x mux) = mx_store mux \<and> mx_pending (notify x mux) = mx_pending mux \<and> mx_starting (notify x mux) = mx_starting mux \<and>
    map mw_sent (mx_watches (notify x mux)) = map (\<lambda>w. mw_sent w @ told x) (mx_watches mux)"
  using Broadcast_room [OF assms]
  by (cases x rule: told.cases) (simp_all add: mux_OnAdd_def mux_OnUpdate_def mux_OnDelete_def Broadcast_def)

lemma handle_known:
  assumes k: "knows_store mux" and p: "mx_pending mux = x # xs" and calm: "calm mux Handle"
  shows "knows_store (notify x (mux\<lparr>mx_pending := xs\<rparr>))"
proof -
  let ?m = "mux\<lparr>mx_pending := xs\<rparr>"
  have n: "mx_store (notify x ?m) = mx_store mux" "mx_pending (notify x ?m) = xs" "mx_starting (notify x ?m) = []"
    "map mw_sent (mx_watches (notify x ?m)) = map (\<lambda>w. mw_sent w @ told x) (mx_watches mux)"
    using notify_room [of ?m x] calm by simp_all
  have sent: "mw_sent ` set (mx_watches (notify x ?m)) = (\<lambda>w. mw_sent w @ told x) ` set (mx_watches mux)"
    using arg_cong [OF n(4), of set] by simp
  have "client_view (s @ concat (map told xs)) = map_of (mx_store mux)" if s: "s \<in> mw_sent ` set (mx_watches (notify x ?m))" for s
  proof -
    obtain w where "w \<in> set (mx_watches mux)" "s = mw_sent w @ told x" using s sent by auto
    then show ?thesis using k p by (auto simp: knows_store_def)
  qed
  moreover have "\<exists>m. fold client_apply (concat (map told xs)) m = map_of (mx_store mux)"
    using k p by (auto simp: knows_store_def)
  ultimately show ?thesis using k by (auto simp: knows_store_def n store_ok_def)
qed

lemma list_for_known: "knows_store mux \<Longrightarrow> client_view (Watch_list mux @ untold mux) = map_of (mx_store mux)"
proof -
  assume k: "knows_store mux"
  then obtain m where "fold client_apply (untold mux) m = map_of (mx_store mux)" by (auto simp: knows_store_def)
  from client_fold_idem [OF this] show ?thesis using k client_view_list [of mux] by (simp add: knows_store_def)
qed

lemma mux_step_known: "mux_step q mux op mux' \<Longrightarrow> calm mux op \<Longrightarrow> knows_store mux \<Longrightarrow> knows_store mux'"
proof (induction rule: mux_step.induct)
  case (list_for mux)
  then show ?case using list_for_known [of mux] by (auto simp: knows_store_def store_ok_def)
next
  case (take_from i mux e rest)
  then have "w \<in> set ((mx_watches mux)[i := (mx_watches mux ! i)\<lparr>mw_queue := rest\<rparr>]) \<Longrightarrow> \<exists>v \<in> set (mx_watches mux). mw_sent w = mw_sent v" for w
    by (auto simp: in_set_conv_nth nth_list_update split: if_splits intro!: bexI [OF _ nth_mem])
  then show ?case using take_from.prems(2) unfolding knows_store_def store_ok_def by simp metis
next
  case (register mux es e es' i)
  then show ?case by (auto simp: Watch_register_def knows_store_def store_ok_def)
qed (simp_all add: informer_put_known informer_remove_known handle_known)

lemma calm_runs_known: "mux_runs calm q url mux \<Longrightarrow> knows_store mux"
  by (induction rule: mux_runs.induct) (auto intro: knows_store_start mux_step_known)

text \<open>
  C28: what a client of a multiplexed watch knows. In every run without missed deletions, without full channels, and in which no handler runs between the
  list and the registration of a call of Watch, whenever the handlers have been told everything, the events that each watch was sent give
  exactly the objects in the store of the informer.
\<close>

theorem watch_follows_store:
  assumes "mux_runs calm q url mux" "mx_pending mux = []" "w \<in> set (mx_watches mux)"
  shows "client_view (mw_sent w) = map_of (mx_store mux)"
  using calm_runs_known [OF assms(1)] assms(2,3) by (auto simp: knows_store_def)

definition sample_obj :: "string \<Rightarrow> string \<Rightarrow> object_meta" where
  "sample_obj name rv = zero_object_meta\<lparr>om_Name := name, om_ResourceVersion := rv\<rparr>"

theorem watch_follows_store_witness:
  "\<exists>mux w. mux_runs calm (\<lambda>n. n + 10) NodeCacheURL mux \<and> w \<in> set (mx_watches mux) \<and>
     client_view (mw_sent w) = map_of (mx_store mux) \<and> map_of (mx_store mux) (namespaced_name (sample_obj ''n1'' ''1'')) = Some (sample_obj ''n1'' ''1'')"
proof -
  let ?n = "sample_obj ''n1'' ''1''" and ?q = "\<lambda>n. n + 10 :: nat"
  define m1 where "m1 = (NewMux NodeCacheURL)\<lparr>mx_starting := mx_starting (NewMux NodeCacheURL) @ [Watch_list (NewMux NodeCacheURL)]\<rparr>"
  define m2 where "m2 = Watch_register ?q [] (m1\<lparr>mx_starting := []\<rparr>)"
  define m3 where "m3 = informer_put ?n m2"
  define m4 where "m4 = notify (OnAddN ?n) (m3\<lparr>mx_pending := []\<rparr>)"
  have 1: "mux_runs calm ?q NodeCacheURL m1" unfolding m1_def by (rule mux_runs.step [OF mux_runs.start mux_step.list_for]) simp
  have "mux_step ?q m1 (Register 0) (Watch_register ?q [] (m1\<lparr>mx_starting := [] @ []\<rparr>))"
    by (rule mux_step.register) (simp_all add: m1_def NewMux_def Watch_list_def)
  from mux_runs.step [OF 1 this] have 2: "mux_runs calm ?q NodeCacheURL m2" by (simp add: m2_def)
  from mux_runs.step [OF 2 mux_step.put] have 3: "mux_runs calm ?q NodeCacheURL m3" by (simp add: m3_def)
  have st: "mx_pending m3 = [OnAddN ?n]" "mx_starting m3 = []" "mx_watches m3 = [\<lparr>mw_sent = [], mw_queue = [], mw_size = 10\<rparr>]" "mx_store m3 = [(namespaced_name ?n, ?n)]"
    by (simp_all add: m3_def m2_def m1_def NewMux_def Watch_register_def informer_put_def)
  from mux_runs.step [OF 3 mux_step.handle [OF st(1)]] have 4: "mux_runs calm ?q NodeCacheURL m4" using st by (simp add: m4_def)
  have w: "\<lparr>mw_sent = [MAdded ?n], mw_queue = [MAdded ?n], mw_size = 10\<rparr> \<in> set (mx_watches m4)" "mx_pending m4 = []" "mx_store m4 = [(namespaced_name ?n, ?n)]"
    using st by (simp_all add: m4_def mux_OnAdd_def Broadcast_def)
  note known = watch_follows_store [OF 4 w(2,1)]
  show ?thesis by (intro exI conjI, rule 4, rule w(1), rule known) (simp add: w(3))
qed

text \<open>
  C29: a watch can miss an object for good. Watch lists the store and registers the watch afterwards, without holding anything in between. There is a run, with no deletion missed and
  no full channel, in which an object is added and broadcast between the two: when all handlers are done the object is in the store, the watch has
  not been told of it, and nothing is left to be told.
\<close>

theorem watch_misses_object:
  "\<exists>mux w n. mux_runs (\<lambda>mux op. calm (mux\<lparr>mx_starting := []\<rparr>) op) (\<lambda>n. n + 1000) NodeCacheURL mux \<and> mx_pending mux = [] \<and> mx_starting mux = [] \<and>
     mx_watches mux = [w] \<and> map_of (mx_store mux) (namespaced_name n) = Some n \<and> client_view (mw_sent w) (namespaced_name n) = None"
proof -
  let ?n = "sample_obj ''n1'' ''1''" and ?q = "\<lambda>n. n + 1000 :: nat" and ?ok = "\<lambda>mux op. calm (mux\<lparr>mx_starting := []\<rparr>) op"
  define m1 where "m1 = (NewMux NodeCacheURL)\<lparr>mx_starting := mx_starting (NewMux NodeCacheURL) @ [Watch_list (NewMux NodeCacheURL)]\<rparr>"
  define m2 where "m2 = informer_put ?n m1"
  define m3 where "m3 = notify (OnAddN ?n) (m2\<lparr>mx_pending := []\<rparr>)"
  define m4 where "m4 = Watch_register ?q [] (m3\<lparr>mx_starting := []\<rparr>)"
  have 1: "mux_runs ?ok ?q NodeCacheURL m1" unfolding m1_def by (rule mux_runs.step [OF mux_runs.start mux_step.list_for]) simp
  from mux_runs.step [OF 1 mux_step.put] have 2: "mux_runs ?ok ?q NodeCacheURL m2" by (simp add: m2_def)
  have st2: "mx_pending m2 = [OnAddN ?n]" "mx_watches m2 = []" by (simp_all add: m2_def m1_def NewMux_def informer_put_def)
  from mux_runs.step [OF 2 mux_step.handle [OF st2(1)]] have 3: "mux_runs ?ok ?q NodeCacheURL m3" using st2 by (simp add: m3_def)
  have st3: "mx_starting m3 = [[]]" "mx_store m3 = [(namespaced_name ?n, ?n)]" "mx_pending m3 = []" "mx_watches m3 = []"
    by (simp_all add: m3_def m2_def m1_def NewMux_def informer_put_def mux_OnAdd_def Broadcast_def Watch_list_def)
  have "mux_step ?q m3 (Register 0) (Watch_register ?q [] (m3\<lparr>mx_starting := [] @ []\<rparr>))"
    by (rule mux_step.register) (simp_all add: st3)
  from mux_runs.step [OF 3 this] have "mux_runs ?ok ?q NodeCacheURL m4" by (simp add: m4_def)
  then show ?thesis using st3 by (intro exI [of _ m4] exI [of _ "\<lparr>mw_sent = [], mw_queue = [], mw_size = 1000\<rparr>"] exI [of _ ?n]) (simp add: m4_def Watch_register_def)
qed

text \<open>A deletion that the informer has missed and finds later is not told to any watch.\<close>

lemma tombstone_untold: "mux_OnDelete (Tombstone d) mux = mux"
  by (simp add: mux_OnDelete_def)

section \<open>Lists before the informer is synchronised\<close>

lemma init_factories_eq: "init_factories = Ret [(EndpointCacheURL, EndpointsRes), (NodeCacheURL, Nodes), (ServiceCacheURL, Services)]"
  by (simp add: init_factories_def RegisterMuxFactory_def EndpointCacheURL_def NodeCacheURL_def ServiceCacheURL_def)

lemma create_mux_empty: "mx_store (create_mux res) = []"
  by (cases res) (simp_all add: NewNodeMux_def NewEndpointMux_def NewServiceMux_def NewMux_def)

lemma register_muxes_empty:
  assumes "register_muxes fs urls reg = (err, reg')" "\<And>u mux. mget reg u = Some mux \<Longrightarrow> mx_store mux = []"
  shows "\<And>u mux. mget reg' u = Some mux \<Longrightarrow> mx_store mux = []"
  using assms
proof (induction urls arbitrary: reg)
  case (Cons url urls)
  show ?case
  proof (cases "CreateMux fs url")
    case (Inr mx)
    have "mx_store mx = []"
      using Inr create_mux_empty by (auto simp: CreateMux_def split: sum.splits)
    then have ok: "mget (RegisterMux url mx reg) v = Some mux' \<Longrightarrow> mx_store mux' = []" for v mux'
      using Cons.prems(3) by (auto simp: RegisterMux_def mget_mput split: if_splits)
    have "register_muxes fs urls (RegisterMux url mx reg) = (err, reg')" using Cons.prems(2) Inr by simp
    from Cons.IH [OF Cons.prems(1) this ok] show ?thesis .
  qed (use Cons.prems in auto)
qed auto

text \<open>
  Between the start and the end of the synchronisation of the informers a list is answered as empty. The caches are registered before the informers are
  started; a list request that arrives then is neither forwarded to the API server nor refused, it is answered with no objects at all.
\<close>

theorem unsynced_list_empty:
  assumes "mux_condition fs urls None None False [] = ((False, None), reg)" "mget reg (mr_Path r) = Some mux" "list_resource (mr_Path r) = Some res"
    "mr_Method r = ''GET''" "query r ''watch'' = ''''" "parseAccept_mux env (mr_Accept r) = Some info" "ParseSelector env (query r ''labelSelector'') = Inr ls"
    "EncodeList env [] = None"
  shows "interceptCacheMultiplex env reg r = (ListAnswer (mt_MediaType info) res [], reg)"
proof -
  obtain e reg1 where m: "register_muxes fs urls [] = (e, reg1)" by fastforce
  have "reg1 = reg" using assms(1) m by (auto simp: mux_condition_def split: option.splits if_splits)
  then have "mx_store mux = []" using register_muxes_empty [OF m, of "mr_Path r" mux] assms(2) by simp
  then show ?thesis using assms(2-8) by (simp add: interceptCacheMultiplex_def GetMux_def mux_list_def ListObjects_def)
qed

definition sample_mux_http :: mux_http where
  "sample_mux_http = \<lparr>mh_accepted = [\<lparr>mt_MediaType = ''application/json'', mt_Type = ''application'', mt_SubType = ''json''\<rparr>], ParseAccept = (\<lambda>s. []),
     ParseSelector = (\<lambda>s. Inr (\<lambda>ls. True)), ParseDuration = (\<lambda>s. 0), EncodeList = (\<lambda>l. None), EncodeEvent = (\<lambda>e. None), Flusher = True, queue_length = (\<lambda>n. n + 1)\<rparr>"

definition sample_mux_request :: mux_request where
  "sample_mux_request = \<lparr>mr_Method = ''GET'', mr_Path = ServiceCacheURL, mr_Query = [], mr_Accept = ''''\<rparr>"

theorem unsynced_list_empty_witness:
  "fst (interceptCacheMultiplex sample_mux_http (snd (mux_condition [(ServiceCacheURL, Services)] [ServiceCacheURL] None None False [])) sample_mux_request) =
     ListAnswer ''application/json'' Services []"
proof -
  let ?reg = "[(ServiceCacheURL, NewServiceMux)]"
  have c: "mux_condition [(ServiceCacheURL, Services)] [ServiceCacheURL] None None False [] = ((False, None), ?reg)"
    by (simp add: mux_condition_def CreateMux_def GetMuxFactory_def RegisterMux_def)
  have "interceptCacheMultiplex sample_mux_http ?reg sample_mux_request =
    (ListAnswer (mt_MediaType \<lparr>mt_MediaType = ''application/json'', mt_Type = ''application'', mt_SubType = ''json''\<rparr>) Services [], ?reg)"
    by (rule unsynced_list_empty [OF c])
      (simp_all add: sample_mux_request_def sample_mux_http_def parseAccept_mux_def query_def mget0_def list_resource_def
        EndpointCacheURL_def NodeCacheURL_def ServiceCacheURL_def)
  then show ?thesis by (simp add: c)
qed

text \<open>
  A missing certificate ends the set-up: the condition returns the error of the file, and the poll, which was meant to wait for the certificate, ends with it.
\<close>

lemma missing_certificate_ends_poll: "poll_mux fs urls ((Some err, conf, synced) # rounds) reg = reg"
  by (simp add: mux_condition_def)

text \<open>A watch sends the objects of the whole store, whatever its label selector asks for.\<close>

lemma watch_ignores_selector:
  assumes "interceptCacheMultiplex env reg r = (WatchAnswer media timeout, reg')" "mget reg (mr_Path r) = Some mux"
  shows "reg' = mput (mr_Path r) (mux_Watch (queue_length env) mux) reg \<and> map (\<lambda>e. case e of MAdded n \<Rightarrow> n) (Watch_list mux) = ListObjects (\<lambda>_. True) mux"
proof -
  have "reg' = mput (mr_Path r) (mux_Watch (queue_length env) mux) reg"
    using assms by (auto simp: interceptCacheMultiplex_def GetMux_def RegisterMux_def mux_list_def split: if_splits option.splits sum.splits)
  then show ?thesis by (simp add: Watch_list_def ListObjects_def case_prod_unfold)
qed

end
