(* ===== verification/SiteNodes.thy ===== *)
theory SiteNodes
  imports KubeMeta IPAllocator "HOL-Library.Char_ord" "HOL-Library.List_Lexorder"
begin

text \<open>
  Node units and node groups: the helpers of site-manager (\<open>src/pkg/site-manager/utils/node.go\<close>). A node unit selects nodes, by name or by
  labels, and sets labels, annotations and taints on them; a node group does the same with node units.

  The caches of the informers, label selectors and SHA-1 are arguments (\<open>site_env\<close>); the API server answers each call with an error or nothing. A Go
  map is iterated in the order of its list, which may be any: the theorems hold for every order of the caches.
\<close>

section \<open>Objects\<close>

record site_taint =
  ta_Key :: string
  ta_Value :: string
  ta_Effect :: string

record site_node =
  no_Name :: string
  no_ResourceVersion :: string
  no_DeletionTimestamp :: "int option"
  no_Labels :: "labels option"
  no_Annotations :: "labels option"
  no_Taints :: "site_taint list option"
  no_Conditions :: "(string \<times> string) list"

record site_selector =
  sl_MatchLabels :: "labels option"
  sl_MatchExpressions :: "(string \<times> string \<times> string list) list"

record SetNode =
  se_Labels :: "labels option"
  se_Annotations :: "labels option"
  se_Taints :: "site_taint list option"

record ClusterCondition =
  cc_Type :: string
  cc_Status :: string
  cc_LastProbeTime :: int
  cc_Message :: string

text \<open>\<open>uc_Others\<close> stands for the fields that the controllers only copy: version, addresses, resources, service CIDR.\<close>

record UnitClusterStatus =
  uc_Phase :: string
  uc_Conditions :: "ClusterCondition list"
  uc_Others :: string

record NodeUnitStatus =
  ReadyRate :: string
  ReadyNodes :: "string list"
  NotReadyNodes :: "string list"
  UnitCluster :: UnitClusterStatus

record NodeUnit =
  nu_Name :: string
  nu_Labels :: "labels option"
  nu_Annotations :: "labels option"
  nu_ResourceVersion :: string
  nu_Finalizers :: "string list"
  nu_DeletionTimestamp :: "int option"
  nu_Type :: string
  nu_Nodes :: "string list"
  nu_Selector :: "site_selector option"
  nu_SetNode :: SetNode
  nu_AutonomyLevel :: string
  nu_CredentialRef :: "(string \<times> string) option"
  nu_ClusterInfo :: "labels option option"
  nu_Status :: NodeUnitStatus

record NodeGroupStatus =
  UnitNumber :: nat
  ng_StatusUnits :: "string list"

record NodeGroup =
  ng_Name :: string
  ng_Finalizers :: "string list"
  ng_DeletionTimestamp :: "int option"
  ng_NodeUnits :: "string list"
  ng_Selector :: "site_selector option"
  ng_AutoFindNodeKeys :: "string list"
  ng_Status :: NodeGroupStatus

definition NodeGroupSuperedge :: string where "NodeGroupSuperedge = ''nodegroups.superedge.io''"
definition NodeUnitAutoFindLabel :: string where "NodeUnitAutoFindLabel = ''site.superedge.io/node-group-auto-keys-hash''"
definition KinsRoleLabelKey :: string where "KinsRoleLabelKey = ''site.superedge.io/kins-role''"

section \<open>Listers and the API server\<close>

record persistent_volume =
  pv_Name :: string
  pv_ClaimRef :: "(string \<times> string) option"

text \<open>
  The contents of the caches; errors other than a missing object; whether a list call fails.
\<close>

record site_env =
  node_cache :: "site_node list"
  unit_cache :: "NodeUnit list"
  group_cache :: "NodeGroup list"
  node_Get_error :: "string \<Rightarrow> go_error option"
  unit_Get_error :: "string \<Rightarrow> go_error option"
  group_Get_error :: "string \<Rightarrow> go_error option"
  node_List_error :: "go_error option"
  unit_List_error :: "go_error option"
  LabelSelectorAsSelector :: "site_selector \<Rightarrow> go_error + (labels option \<Rightarrow> bool)"
  NewRequirement_error :: "string \<Rightarrow> go_error option"
  sha1_hex :: "string \<Rightarrow> string"
  pv_Get :: "string \<Rightarrow> go_error + persistent_volume option"

datatype site_error = NotFoundErr | SiteErr go_error

datatype template_value = Text string | Items "(string \<times> string) list list"

datatype site_call = UpdateNode site_node | UpdateUnit NodeUnit | UpdateUnitStatus NodeUnit | CreateUnit NodeUnit
  | UpdateGroup NodeGroup | UpdateGroupStatus NodeGroup
  | PatchPV string | DeletePV string | PatchPVC "string \<times> string" | DeletePVC "string \<times> string" | DeletePods string
  | CreateNamespace string | ApplyNodeLabels string labels | PatchNodeRole string | CreateResourceWithFile string "(string \<times> template_value) list"
  | DeleteDaemonSets labels | DeleteStatefulSets labels | DeleteConfigMaps labels | DeletePVs labels | DeletePVCs labels
  | DeleteService string | DeleteSecret string
  | DeleterAdd NodeUnit | RecordEvent string string

type_synonym site_api = "site_call \<Rightarrow> site_error option"

text \<open>The error of an operation, if any, and the calls that it made.\<close>

type_synonym site_result = "site_error option \<times> site_call list"

definition api_call :: "site_api \<Rightarrow> site_call \<Rightarrow> site_result" where
  "api_call api c = (api c, [c])"

definition site_then :: "site_result \<Rightarrow> site_result \<Rightarrow> site_result" where
  "site_then r r' = (case fst r of Some e \<Rightarrow> r | None \<Rightarrow> (fst r', snd r @ snd r'))"

definition site_ok :: site_result where
  "site_ok = (None, [])"

definition ignore_not_found :: "site_result \<Rightarrow> site_result" where
  "ignore_not_found r = (if fst r = Some NotFoundErr then (None, snd r) else r)"

fun site_for :: "('a \<Rightarrow> site_result) \<Rightarrow> 'a list \<Rightarrow> site_result" where
  "site_for f [] = site_ok"
| "site_for f (x # xs) = site_then (f x) (site_for f xs)"

definition list_nodes :: "'a site_env_scheme \<Rightarrow> (labels option \<Rightarrow> bool) \<Rightarrow> site_node list" where
  "list_nodes env sel = (if node_List_error env = None then filter (\<lambda>n. sel (no_Labels n)) (node_cache env) else [])"

definition list_units :: "'a site_env_scheme \<Rightarrow> (labels option \<Rightarrow> bool) \<Rightarrow> NodeUnit list" where
  "list_units env sel = (if unit_List_error env = None then filter (\<lambda>u. sel (nu_Labels u)) (unit_cache env) else [])"

definition has_value :: "string \<Rightarrow> string \<Rightarrow> labels option \<Rightarrow> bool" where
  "has_value k v ls \<longleftrightarrow> nget ls k = Some v"

section \<open>Nodes of a unit, units of a group\<close>

text \<open>The objects of a list of names; a name that is missing is passed over.\<close>

fun named_objects :: "(string \<Rightarrow> go_error option) \<Rightarrow> ('o \<Rightarrow> string) \<Rightarrow> 'o list \<Rightarrow> string list \<Rightarrow> (string, 'o) gomap \<Rightarrow> go_error + (string, 'o) gomap" where
  "named_objects get_error obj_name cache [] m = Inr m"
| "named_objects get_error obj_name cache (name # names) m =
     (case get_error name of
        Some err \<Rightarrow> Inl err
      | None \<Rightarrow>
          (case find (\<lambda>x. obj_name x = name) cache of
             None \<Rightarrow> named_objects get_error obj_name cache names m
           | Some x \<Rightarrow> named_objects get_error obj_name cache names (mput name x m)))"

definition empty_selector :: "site_selector \<Rightarrow> bool" where
  "empty_selector sel \<longleftrightarrow> (case sl_MatchLabels sel of None \<Rightarrow> True | Some ls \<Rightarrow> length ls = 0) \<and> length (sl_MatchExpressions sel) = 0"

text \<open>The set that the source returns as well is that of the keys of the map.\<close>

definition GetNodesByUnit :: "'a site_env_scheme \<Rightarrow> NodeUnit \<Rightarrow> go_error + (string, site_node) gomap" where
  "GetNodesByUnit env nu =
     (case named_objects (node_Get_error env) no_Name (node_cache env) (nu_Nodes nu) [] of
        Inl err \<Rightarrow> Inl err
      | Inr m \<Rightarrow>
          (case nu_Selector nu of
             None \<Rightarrow> Inr m
           | Some sel \<Rightarrow>
               (case LabelSelectorAsSelector env sel of
                  Inl err \<Rightarrow> Inl err
                | Inr matches \<Rightarrow>
                    let matches = (if empty_selector sel then (\<lambda>_. False) else matches) in
                    Inr (fold (\<lambda>n. mput (no_Name n) n) (list_nodes env matches) m))))"

definition HashAutoFindKeys :: "'a site_env_scheme \<Rightarrow> string list \<Rightarrow> string" where
  "HashAutoFindKeys env keyslices = (if length keyslices = 0 then '''' else sha1_hex env (concat (sort keyslices)))"

definition add_units :: "'a site_env_scheme \<Rightarrow> (labels option \<Rightarrow> bool) \<Rightarrow> (string, NodeUnit) gomap \<Rightarrow> (string, NodeUnit) gomap" where
  "add_units env sel m = fold (\<lambda>u. mput (nu_Name u) u) (list_units env sel) m"

definition GetUnitByGroup :: "'a site_env_scheme \<Rightarrow> NodeGroup \<Rightarrow> go_error + (string, NodeUnit) gomap" where
  "GetUnitByGroup env ng =
     (case named_objects (unit_Get_error env) nu_Name (unit_cache env) (ng_NodeUnits ng) [] of
        Inl err \<Rightarrow> Inl err
      | Inr m \<Rightarrow>
     (case (case ng_Selector ng of
              None \<Rightarrow> Inr m
            | Some sel \<Rightarrow> (case LabelSelectorAsSelector env sel of Inl err \<Rightarrow> Inl err | Inr matches \<Rightarrow> Inr (add_units env matches m))) of
        Inl err \<Rightarrow> Inl err
      | Inr m \<Rightarrow>
          if length (ng_AutoFindNodeKeys ng) > 0 then
            (case LabelSelectorAsSelector env \<lparr>sl_MatchLabels = Some (mput (ng_Name ng) NodeGroupSuperedge [(NodeUnitAutoFindLabel, HashAutoFindKeys env (ng_AutoFindNodeKeys ng))]),
                  sl_MatchExpressions = []\<rparr> of
               Inl err \<Rightarrow> Inl err
             | Inr matches \<Rightarrow> Inr (add_units env matches m))
          else Inr m))"

definition units_of_labels :: "labels option \<Rightarrow> string list" where
  "units_of_labels ls = map fst (filter (\<lambda>(k, v). v = NodeUnitSuperedge) (case ls of None \<Rightarrow> [] | Some l \<Rightarrow> l))"

definition groups_of_labels :: "labels option \<Rightarrow> string list" where
  "groups_of_labels ls = map fst (filter (\<lambda>(k, v). v = NodeGroupSuperedge) (case ls of None \<Rightarrow> [] | Some l \<Rightarrow> l))"

text \<open>An object that is missing is an error here.\<close>

fun get_all :: "(string \<Rightarrow> go_error + 'a) \<Rightarrow> string list \<Rightarrow> go_error + 'a list" where
  "get_all g [] = Inr []"
| "get_all g (n # ns) = (case g n of Inl err \<Rightarrow> Inl err | Inr x \<Rightarrow> (case get_all g ns of Inl err \<Rightarrow> Inl err | Inr xs \<Rightarrow> Inr (x # xs)))"

definition unit_Get :: "'a site_env_scheme \<Rightarrow> string \<Rightarrow> go_error + NodeUnit" where
  "unit_Get env name =
     (case unit_Get_error env name of
        Some err \<Rightarrow> Inl err
      | None \<Rightarrow> (case find (\<lambda>u. nu_Name u = name) (unit_cache env) of None \<Rightarrow> Inl ''not found'' | Some u \<Rightarrow> Inr u))"

definition group_Get :: "'a site_env_scheme \<Rightarrow> string \<Rightarrow> go_error + NodeGroup" where
  "group_Get env name =
     (case group_Get_error env name of
        Some err \<Rightarrow> Inl err
      | None \<Rightarrow> (case find (\<lambda>g. ng_Name g = name) (group_cache env) of None \<Rightarrow> Inl ''not found'' | Some g \<Rightarrow> Inr g))"

definition GetUnitsByNode :: "'a site_env_scheme \<Rightarrow> site_node \<Rightarrow> go_error + (NodeUnit list \<times> string list)" where
  "GetUnitsByNode env node =
     (let unitList = units_of_labels (no_Labels node) in
      case get_all (unit_Get env) unitList of Inl err \<Rightarrow> Inl err | Inr us \<Rightarrow> Inr (us, unitList))"

definition GetGroupsByUnit :: "'a site_env_scheme \<Rightarrow> NodeUnit \<Rightarrow> go_error + (NodeGroup list \<times> string list)" where
  "GetGroupsByUnit env nu =
     (let groupList = groups_of_labels (nu_Labels nu) in
      case get_all (group_Get env) groupList of Inl err \<Rightarrow> Inl err | Inr gs \<Rightarrow> Inr (gs, groupList))"

section \<open>Setting nodes\<close>

definition TaintInSlices :: "site_taint list \<Rightarrow> site_taint \<Rightarrow> bool" where
  "TaintInSlices taintSlice target \<longleftrightarrow>
     list_ex (\<lambda>t. ta_Key t = ta_Key target \<and> ta_Effect t = ta_Effect target \<and> ta_Value t = ta_Value target) taintSlice"

definition nread :: "labels option \<Rightarrow> string \<Rightarrow> string" where
  "nread ls k = (case nget ls k of None \<Rightarrow> '''' | Some v \<Rightarrow> v)"

definition label_entries :: "labels option \<Rightarrow> labels" where
  "label_entries ls = (case ls of None \<Rightarrow> [] | Some l \<Rightarrow> l)"

text \<open>Whether a node needs no update. The annotations of the unit are compared with the labels of the node.\<close>

definition labels_set :: "SetNode \<Rightarrow> site_node \<Rightarrow> bool" where
  "labels_set s node \<longleftrightarrow> list_all (\<lambda>(k, v). no_Labels node \<noteq> None \<and> nread (no_Labels node) k = v) (label_entries (se_Labels s))"

definition annotations_set :: "SetNode \<Rightarrow> site_node \<Rightarrow> bool" where
  "annotations_set s node \<longleftrightarrow> list_all (\<lambda>(k, v). no_Annotations node \<noteq> None \<and> nread (no_Labels node) k = v) (label_entries (se_Annotations s))"

definition taints_set :: "SetNode \<Rightarrow> site_node \<Rightarrow> bool" where
  "taints_set s node \<longleftrightarrow>
     (case se_Taints s of
        None \<Rightarrow> True
      | Some ts \<Rightarrow> (case no_Taints node of None \<Rightarrow> False | Some taints \<Rightarrow> list_all (TaintInSlices taints) ts))"

definition put_all :: "labels option \<Rightarrow> labels option \<Rightarrow> labels option" where
  "put_all new old =
     (case new of
        None \<Rightarrow> old
      | Some l \<Rightarrow> (case old of None \<Rightarrow> Some l | Some m \<Rightarrow> Some (fold (\<lambda>(k, v). mput k v) l m)))"

text \<open>The loop over the taints: \<open>tmp\<close> is appended in each round.\<close>

fun add_taints :: "site_taint list \<Rightarrow> site_taint list \<Rightarrow> site_taint list \<Rightarrow> site_taint list" where
  "add_taints [] taints tmp = taints"
| "add_taints (setTaint # ts) taints tmp =
     (let tmp' = (if \<not> TaintInSlices taints setTaint then tmp @ [setTaint] else tmp) in add_taints ts (taints @ tmp') tmp')"

definition put_taints :: "site_taint list option \<Rightarrow> site_taint list option \<Rightarrow> site_taint list option" where
  "put_taints new old =
     (case new of
        None \<Rightarrow> old
      | Some ts \<Rightarrow> (case old of None \<Rightarrow> Some ts | Some taints \<Rightarrow> Some (add_taints ts taints [])))"

definition node_to_set :: "SetNode \<Rightarrow> site_node \<Rightarrow> site_node" where
  "node_to_set s node = node\<lparr>no_Labels := put_all (se_Labels s) (no_Labels node), no_Annotations := put_all (se_Annotations s) (no_Annotations node),
     no_Taints := put_taints (se_Taints s) (no_Taints node)\<rparr>"

definition SetNodeToNodes :: "site_api \<Rightarrow> NodeUnit \<Rightarrow> (string, site_node) gomap \<Rightarrow> site_result" where
  "SetNodeToNodes api nu nodeMaps =
     site_for (\<lambda>(_, node).
       if labels_set (nu_SetNode nu) node \<and> annotations_set (nu_SetNode nu) node \<and> taints_set (nu_SetNode nu) node then site_ok
       else api_call api (UpdateNode (node_to_set (nu_SetNode nu) node))) nodeMaps"

section \<open>Clearing nodes\<close>

definition FoundNode :: "string list \<Rightarrow> string \<Rightarrow> bool" where
  "FoundNode nodes node \<longleftrightarrow> list_ex (\<lambda>v. v = node) nodes"

definition deleteTaintItems :: "site_taint list \<Rightarrow> site_taint list \<Rightarrow> site_taint list" where
  "deleteTaintItems current del = filter (\<lambda>t. ta_Key t \<notin> set (map ta_Key del)) current"

definition delete_keys :: "string list \<Rightarrow> labels option \<Rightarrow> labels option" where
  "delete_keys ks ls = map_option (fold mdel ks) ls"

definition opt_list :: "'a list option \<Rightarrow> 'a list" where
  "opt_list l = (case l of None \<Rightarrow> [] | Some xs \<Rightarrow> xs)"

definition node_cleared :: "NodeUnit \<Rightarrow> site_node \<Rightarrow> site_node" where
  "node_cleared nu node =
     node\<lparr>no_Labels := (if se_Labels (nu_SetNode nu) \<noteq> None then
         let ls = delete_keys (mkeys (label_entries (se_Labels (nu_SetNode nu)))) (no_Labels node) in
         if \<not> FoundNode (nu_Nodes nu) (no_Name node) then delete_keys [KinsRoleLabelKey] ls else ls
       else no_Labels node),
      no_Annotations := delete_keys (mkeys (label_entries (se_Annotations (nu_SetNode nu)))) (no_Annotations node),
      no_Taints := Some (deleteTaintItems (opt_list (no_Taints node)) (opt_list (se_Taints (nu_SetNode nu))))\<rparr>"

text \<open>The local volume, its claim and the pods of the unit cluster on a node that has left.\<close>

definition delete_volume :: "'a site_env_scheme \<Rightarrow> site_api \<Rightarrow> NodeUnit \<Rightarrow> site_node \<Rightarrow> site_result" where
  "delete_volume env api nu node =
     (case pv_Get env (nu_Name nu @ ''-local-pv-'' @ no_Name node) of
        Inl err \<Rightarrow> (Some (SiteErr err), [])
      | Inr None \<Rightarrow> site_ok
      | Inr (Some pv) \<Rightarrow>
          site_then (api_call api (PatchPV (pv_Name pv)))
            (site_then (ignore_not_found (api_call api (DeletePV (pv_Name pv))))
              (case pv_ClaimRef pv of
                 None \<Rightarrow> site_ok
               | Some claim \<Rightarrow> site_then (api_call api (PatchPVC claim)) (ignore_not_found (api_call api (DeletePVC claim))))))"

definition DeleteNodesFromSetNode :: "'a site_env_scheme \<Rightarrow> site_api \<Rightarrow> NodeUnit \<Rightarrow> (string, site_node) gomap \<Rightarrow> site_result" where
  "DeleteNodesFromSetNode env api nu nodeMaps =
     (if length (nu_Nodes nu) = 0 then site_ok
      else site_for (\<lambda>(_, node).
        site_then (api_call api (UpdateNode (node_cleared nu node)))
          (if \<not> FoundNode (nu_Nodes nu) (no_Name node) \<and> nget (no_Labels node) KinsRoleLabelKey \<noteq> None
           then site_then (delete_volume env api nu node) (ignore_not_found (api_call api (DeletePods (no_Name node))))
           else site_ok)) nodeMaps)"

section \<open>Units of a group\<close>

definition unit_ready :: "NodeGroup \<Rightarrow> NodeUnit \<Rightarrow> bool" where
  "unit_ready ng nu \<longleftrightarrow>
     (se_Labels (nu_SetNode nu) = None \<or> nread (se_Labels (nu_SetNode nu)) (ng_Name ng) = nu_Name nu) \<and>
     (nu_Labels nu = None \<or> nread (nu_Labels nu) (ng_Name ng) = NodeGroupSuperedge)"

definition unit_to_set :: "NodeGroup \<Rightarrow> NodeUnit \<Rightarrow> NodeUnit" where
  "unit_to_set ng nu = nu\<lparr>nu_SetNode := (nu_SetNode nu)\<lparr>se_Labels := Some (mput (ng_Name ng) (nu_Name nu) (label_entries (se_Labels (nu_SetNode nu))))\<rparr>,
     nu_Labels := Some (mput (ng_Name ng) NodeGroupSuperedge (label_entries (nu_Labels nu)))\<rparr>"

definition SetNodeToNodeUnits :: "site_api \<Rightarrow> NodeGroup \<Rightarrow> (string, NodeUnit) gomap \<Rightarrow> site_result" where
  "SetNodeToNodeUnits api ng unitMaps =
     site_for (\<lambda>(_, nu). if unit_ready ng nu then site_ok else api_call api (UpdateUnit (unit_to_set ng nu))) unitMaps"

definition unit_cleared :: "NodeGroup \<Rightarrow> NodeUnit \<Rightarrow> NodeUnit" where
  "unit_cleared ng nu = nu\<lparr>nu_Labels := delete_keys [ng_Name ng] (nu_Labels nu),
     nu_SetNode := (nu_SetNode nu)\<lparr>se_Labels := delete_keys [ng_Name ng] (se_Labels (nu_SetNode nu))\<rparr>\<rparr>"

definition DeleteNodeUnitFromSetNode :: "site_api \<Rightarrow> NodeGroup \<Rightarrow> (string, NodeUnit) gomap \<Rightarrow> site_result" where
  "DeleteNodeUnitFromSetNode api ng unitMaps = site_for (\<lambda>(_, nu). api_call api (UpdateUnit (unit_cleared ng nu))) unitMaps"

section \<open>Status\<close>

definition IsReadyNode :: "site_node \<Rightarrow> bool" where
  "IsReadyNode node \<longleftrightarrow> list_ex (\<lambda>(t, s). t = ''Ready'' \<and> s = ''True'') (no_Conditions node)"

definition CaculateNodeUnitStatus :: "(string, site_node) gomap \<Rightarrow> NodeUnitStatus" where
  "CaculateNodeUnitStatus nodeMap =
     (let readyList = sort (map fst (filter (\<lambda>(k, v). IsReadyNode v) nodeMap));
          notReadyList = sort (map fst (filter (\<lambda>(k, v). \<not> IsReadyNode v) nodeMap))
      in \<lparr>ReadyRate = Itoa (int (length readyList)) @ ''/'' @ Itoa (int (length readyList + length notReadyList)),
          ReadyNodes = readyList, NotReadyNodes = notReadyList, UnitCluster = \<lparr>uc_Phase = '''', uc_Conditions = [], uc_Others = ''''\<rparr>\<rparr>)"

definition CaculateNodeGroupStatus :: "string list \<Rightarrow> NodeGroupStatus" where
  "CaculateNodeGroupStatus unitSet = \<lparr>UnitNumber = length unitSet, ng_StatusUnits = sort unitSet\<rparr>"

section \<open>Results\<close>

lemma site_then_ok: "fst (site_then r r') = None \<longleftrightarrow> fst r = None \<and> fst r' = None"
  by (auto simp: site_then_def split: option.splits)

lemma site_then_calls: "fst r = None \<Longrightarrow> snd (site_then r r') = snd r @ snd r'"
  by (simp add: site_then_def)

lemma site_then_calls_subset: "set (snd (site_then r r')) \<subseteq> set (snd r) \<union> set (snd r')"
  by (auto simp: site_then_def split: option.splits)

lemma site_for_ok: "fst (site_for f xs) = None \<Longrightarrow> snd (site_for f xs) = concat (map (snd \<circ> f) xs)"
  by (induction xs) (auto simp: site_ok_def site_then_ok site_then_calls)

lemma site_for_each: "fst (site_for f xs) = None \<Longrightarrow> x \<in> set xs \<Longrightarrow> fst (f x) = None"
  by (induction xs) (auto simp: site_then_ok)

lemma site_for_calls_subset: "set (snd (site_for f xs)) \<subseteq> (\<Union>x\<in>set xs. set (snd (f x)))"
  by (induction xs) (auto simp: site_ok_def dest: site_then_calls_subset [THEN subsetD])

lemma api_call_calls [simp]: "snd (api_call api c) = [c]"
  by (simp add: api_call_def)

lemma site_ok_calls [simp]: "site_ok = (None, [])"
  by (simp add: site_ok_def)

lemma ignore_not_found_calls [simp]: "snd (ignore_not_found r) = snd r"
  by (simp add: ignore_not_found_def)

definition calls_only :: "(site_call \<Rightarrow> bool) \<Rightarrow> site_result \<Rightarrow> bool" where
  "calls_only P r \<longleftrightarrow> list_all P (snd r)"

lemma calls_only_intros:
  "calls_only P r \<Longrightarrow> calls_only P r' \<Longrightarrow> calls_only P (site_then r r')"
  "P c \<Longrightarrow> calls_only P (api_call api c)"
  "calls_only P (e, [])"
  "calls_only P r \<Longrightarrow> calls_only P (ignore_not_found r)"
  by (auto simp: calls_only_def site_then_def api_call_def split: option.splits)

lemma calls_only_for: "(\<And>x. calls_only P (f x)) \<Longrightarrow> calls_only P (site_for f xs)"
  by (induction xs) (auto intro: calls_only_intros)

lemma calls_only_if: "calls_only P r \<Longrightarrow> calls_only P r' \<Longrightarrow> calls_only P (if b then r else r')"
  by simp

section \<open>Objects of the cluster\<close>

text \<open>
  The objects of one kind under the calls: a call changes at most the object that it names and keeps its name. The controllers read the objects
  into maps by name and loop over these maps.
\<close>

locale cluster_objects =
  fixes obj_name :: "'o \<Rightarrow> string" and effect :: "site_call \<Rightarrow> 'o \<Rightarrow> 'o" and target :: "site_call \<Rightarrow> string option"
  assumes effect_name: "obj_name (effect c x) = obj_name x"
    and effect_other: "target c \<noteq> Some (obj_name x) \<Longrightarrow> effect c x = x"
begin

lemma effects_name: "obj_name (fold effect cs x) = obj_name x"
  by (induction cs arbitrary: x) (auto simp: effect_name)

lemma effects_other: "Some (obj_name x) \<notin> target ` set cs \<Longrightarrow> fold effect cs x = x"
  by (induction cs) (auto simp: effect_other)

definition named_map :: "(string, 'o) gomap \<Rightarrow> bool" where
  "named_map m \<longleftrightarrow> mwf m \<and> (\<forall>(k, x) \<in> set m. k = obj_name x)"

lemma named_mapD: "named_map m \<Longrightarrow> mget m k = Some x \<Longrightarrow> obj_name x = k"
  by (auto simp: named_map_def dest!: map_of_SomeD)

lemma named_map_Nil [simp]: "named_map []"
  by (simp add: named_map_def mwf_def)

lemma named_map_filter: "named_map m \<Longrightarrow> named_map (filter P m)"
  by (auto simp: named_map_def mwf_def intro: distinct_map_filter)

lemma named_map_mput: "named_map m \<Longrightarrow> k = obj_name x \<Longrightarrow> named_map (mput k x m)"
  unfolding named_map_def by (auto simp: mget_in_set mwf_mput mget_mput split: if_splits)

text \<open>A loop whose body calls only on the object at hand.\<close>

lemma effects_loop:
  assumes "named_map m" "\<And>k x. (k, x) \<in> set m \<Longrightarrow> target ` set (snd (f (k, x))) \<subseteq> {Some (obj_name x), None}"
  shows "fold effect (concat (map (snd \<circ> f) m)) x =
    (case mget m (obj_name x) of None \<Rightarrow> x | Some y \<Rightarrow> fold effect (snd (f (obj_name x, y))) x)"
  using assms
proof (induction m arbitrary: x)
  case (Cons p m)
  obtain k y where p: "p = (k, y)" by fastforce
  have wf: "named_map m" "k = obj_name y" "k \<notin> fst ` set m"
    using Cons.prems(1) by (auto simp: named_map_def mwf_def p)
  have calls: "target ` set (snd (f (k, y))) \<subseteq> {Some k, None}" using Cons.prems(2) [of k y] wf(2) by (simp add: p)
  note IH = Cons.IH [OF wf(1) Cons.prems(2)]
  show ?case
  proof (cases "k = obj_name x")
    case True
    then have "mget m (obj_name x) = None" using wf(3) by (simp add: map_of_eq_None_iff)
    then show ?thesis using IH [of "fold effect (snd (f (k, y))) x"] True by (simp add: p effects_name)
  next
    case False
    then have "fold effect (snd (f (k, y))) x = x" using calls by (intro effects_other) auto
    then show ?thesis using IH [of x] False by (simp add: p)
  qed
qed simp

lemma find_named:
  assumes "distinct (map obj_name xs)"
  shows "find (\<lambda>x. obj_name x = k) xs = Some x \<longleftrightarrow> x \<in> set xs \<and> obj_name x = k"
  using assms by (induction xs) (auto simp: image_iff)

lemma find_filter:
  assumes "distinct (map obj_name xs)" "x \<in> set xs"
  shows "find (\<lambda>y. obj_name y = obj_name x) (filter P xs) = (if P x then Some x else None)"
  using assms by (induction xs) (auto simp: image_iff find_None_iff)

lemma named_objects_get:
  assumes "named_objects get_error obj_name cache names m = Inr m'"
  shows "mget m' k = (if k \<in> set names \<and> find (\<lambda>x. obj_name x = k) cache \<noteq> None then find (\<lambda>x. obj_name x = k) cache else mget m k)"
  using assms by (induction get_error obj_name cache names m arbitrary: m' rule: named_objects.induct) (auto simp: mget_mput split: option.splits if_splits)

lemma named_objects_named:
  assumes "named_objects get_error obj_name cache names m = Inr m'" "named_map m"
  shows "named_map m'"
  using assms
proof (induction names arbitrary: m)
  case (Cons name names)
  then show ?case by (auto simp: find_Some_iff intro!: named_map_mput split: option.splits if_splits)
qed simp

lemma fold_put_get:
  assumes "distinct (map obj_name xs)"
  shows "mget (fold (\<lambda>x. mput (obj_name x) x) xs m) k = (case find (\<lambda>x. obj_name x = k) xs of None \<Rightarrow> mget m k | Some x \<Rightarrow> Some x)"
  using assms
proof (induction xs arbitrary: m)
  case (Cons x xs)
  then have "obj_name x = k \<Longrightarrow> find (\<lambda>x. obj_name x = k) xs = None" by (auto simp: find_None_iff image_iff)
  then show ?case using Cons by (auto simp: mget_mput split: option.splits)
qed simp

lemma fold_put_named: "named_map m \<Longrightarrow> named_map (fold (\<lambda>x. mput (obj_name x) x) xs m)"
  by (induction xs arbitrary: m) (auto simp: named_map_mput)

text \<open>The objects of a cache by name or by a predicate, as both kinds of owner select them.\<close>

lemma selected_get:
  assumes "distinct (map obj_name cache)" "named_objects get_error obj_name cache names [] = Inr m" "x \<in> set cache"
  shows "mget m (obj_name x) = (if obj_name x \<in> set names then Some x else None)"
    and "mget (fold (\<lambda>x. mput (obj_name x) x) (filter P cache) m) (obj_name x) = (if obj_name x \<in> set names \<or> P x then Some x else None)"
proof -
  have "find (\<lambda>y. obj_name y = obj_name x) cache = Some x" using find_named [OF assms(1)] assms(3) by simp
  then show named: "mget m (obj_name x) = (if obj_name x \<in> set names then Some x else None)" using named_objects_get [OF assms(2), of "obj_name x"] by simp
  have "distinct (map obj_name (filter P cache))" using assms(1) by (rule distinct_map_filter)
  then show "mget (fold (\<lambda>x. mput (obj_name x) x) (filter P cache) m) (obj_name x) = (if obj_name x \<in> set names \<or> P x then Some x else None)"
    using find_filter [OF assms(1,3), of P] named by (simp add: fold_put_get)
qed

end

lemma map_of_filter_key: "map_of (filter (\<lambda>(k, _). P k) m) k = (if P k then map_of m k else None)"
  by (induction m) auto

text \<open>What a call does to a node or to a unit, when the API server accepts it.\<close>

fun node_call :: "site_call \<Rightarrow> site_node \<Rightarrow> site_node" where
  "node_call (UpdateNode n) m = (if no_Name m = no_Name n then n else m)"
| "node_call (ApplyNodeLabels name ls) m =
     (if no_Name m = name then m\<lparr>no_Labels := Some (fold (\<lambda>(k, v). mput k v) ls (label_entries (no_Labels m)))\<rparr> else m)"
| "node_call (PatchNodeRole name) m = (if no_Name m = name then m\<lparr>no_Labels := delete_keys [KinsRoleLabelKey] (no_Labels m)\<rparr> else m)"
| "node_call _ m = m"

fun call_node :: "site_call \<Rightarrow> string option" where
  "call_node (UpdateNode n) = Some (no_Name n)"
| "call_node (ApplyNodeLabels name ls) = Some name"
| "call_node (PatchNodeRole name) = Some name"
| "call_node _ = None"

fun unit_call :: "site_call \<Rightarrow> NodeUnit \<Rightarrow> NodeUnit" where
  "unit_call (UpdateUnit u) v = (if nu_Name v = nu_Name u then u else v)"
| "unit_call (UpdateUnitStatus u) v = (if nu_Name v = nu_Name u then v\<lparr>nu_Status := nu_Status u\<rparr> else v)"
| "unit_call _ v = v"

fun call_unit :: "site_call \<Rightarrow> string option" where
  "call_unit (UpdateUnit u) = Some (nu_Name u)"
| "call_unit (UpdateUnitStatus u) = Some (nu_Name u)"
| "call_unit _ = None"

interpretation nodes: cluster_objects no_Name node_call call_node
proof
  show "no_Name (node_call c x) = no_Name x" for c x by (cases c) auto
  show "call_node c \<noteq> Some (no_Name x) \<Longrightarrow> node_call c x = x" for c x by (cases c) auto
qed

interpretation units: cluster_objects nu_Name unit_call call_unit
proof
  show "nu_Name (unit_call c x) = nu_Name x" for c x by (cases c) auto
  show "call_unit c \<noteq> Some (nu_Name x) \<Longrightarrow> unit_call c x = x" for c x by (cases c) auto
qed

abbreviation node_calls :: "site_call list \<Rightarrow> site_node \<Rightarrow> site_node" where
  "node_calls \<equiv> fold node_call"

abbreviation unit_calls :: "site_call list \<Rightarrow> NodeUnit \<Rightarrow> NodeUnit" where
  "unit_calls \<equiv> fold unit_call"

section \<open>The nodes that a unit selects\<close>

definition unit_selects :: "'a site_env_scheme \<Rightarrow> NodeUnit \<Rightarrow> site_node \<Rightarrow> bool" where
  "unit_selects env nu node \<longleftrightarrow> no_Name node \<in> set (nu_Nodes nu) \<or>
     (case nu_Selector nu of
        None \<Rightarrow> False
      | Some sel \<Rightarrow> (case LabelSelectorAsSelector env sel of Inl err \<Rightarrow> False | Inr matches \<Rightarrow> \<not> empty_selector sel \<and> matches (no_Labels node)))"

text \<open>The map that \<open>GetNodesByUnit\<close> returns holds exactly the selected nodes of the cache, under their names.\<close>

lemma GetNodesByUnit_selects:
  assumes "distinct (map no_Name (node_cache env))" "node_List_error env = None" "GetNodesByUnit env nu = Inr nodeMap"
  shows "nodes.named_map nodeMap" and "node \<in> set (node_cache env) \<Longrightarrow> mget nodeMap (no_Name node) = (if unit_selects env nu node then Some node else None)"
proof -
  obtain m where m: "named_objects (node_Get_error env) no_Name (node_cache env) (nu_Nodes nu) [] = Inr m"
    using assms(3) by (auto simp: GetNodesByUnit_def split: sum.splits)
  show "nodes.named_map nodeMap" using assms(3) nodes.named_objects_named [OF m nodes.named_map_Nil]
    by (auto simp: GetNodesByUnit_def m Let_def nodes.fold_put_named split: option.splits sum.splits)
  assume "node \<in> set (node_cache env)"
  then show "mget nodeMap (no_Name node) = (if unit_selects env nu node then Some node else None)"
    using assms(2,3) nodes.selected_get [OF assms(1) m]
    by (auto simp: GetNodesByUnit_def m Let_def unit_selects_def list_nodes_def split: option.splits sum.splits if_splits)
qed


section \<open>Labels\<close>

lemma map_of_fold_mput: "mwf l \<Longrightarrow> map_of (fold (\<lambda>(k, v). mput k v) l m) k = (case map_of l k of None \<Rightarrow> map_of m k | Some v \<Rightarrow> Some v)"
proof (induction l arbitrary: m)
  case (Cons p l)
  then have "map_of l (fst p) = None" by (auto simp: mwf_def map_of_eq_None_iff)
  then show ?case using Cons by (cases p) (auto simp: mwf_def mget_mput split: option.splits)
qed simp

lemma nget_put_all:
  "mwf (label_entries new) \<Longrightarrow> nget (put_all new old) k = (case nget new k of None \<Rightarrow> nget old k | Some v \<Rightarrow> Some v)"
  by (auto simp: put_all_def label_entries_def map_of_fold_mput split: option.splits)

lemma nget_delete_keys: "nget (delete_keys ks ls) k = (if k \<in> set ks then None else nget ls k)"
proof -
  have "map_of (fold mdel ks m) k = (if k \<in> set ks then None else map_of m k)" for m :: labels
    by (induction ks arbitrary: m) (auto simp: mget_mdel)
  then show ?thesis by (cases ls) (auto simp: delete_keys_def)
qed

lemma labels_set_get:
  assumes "labels_set s node" "nget (se_Labels s) k = Some v" "v \<noteq> ''''"
  shows "nget (no_Labels node) k = Some v"
proof -
  have "(k, v) \<in> set (label_entries (se_Labels s))" using assms(2) by (cases "se_Labels s") (auto simp: label_entries_def dest: map_of_SomeD)
  then have "nread (no_Labels node) k = v" using assms(1) by (auto simp: labels_set_def list_all_iff)
  then show ?thesis using assms(3) by (auto simp: nread_def split: option.splits)
qed

text \<open>The value of a set label on a node after \<open>SetNodeToNodes\<close>; other nodes are not touched.\<close>

lemma SetNodeToNodes_label:
  assumes "fst (SetNodeToNodes api nu m) = None" "nodes.named_map m" "mwf (label_entries (se_Labels (nu_SetNode nu)))"
    "nget (se_Labels (nu_SetNode nu)) k = Some v" "v \<noteq> ''''" "mget m (no_Name node) = Some node"
  shows "nget (no_Labels (node_calls (snd (SetNodeToNodes api nu m)) node)) k = Some v"
proof -
  let ?f = "\<lambda>(_ :: string, node).
       if labels_set (nu_SetNode nu) node \<and> annotations_set (nu_SetNode nu) node \<and> taints_set (nu_SetNode nu) node then site_ok
       else api_call api (UpdateNode (node_to_set (nu_SetNode nu) node))"
  have name: "no_Name (node_to_set (nu_SetNode nu) n) = no_Name n" for n by (simp add: node_to_set_def)
  have "snd (SetNodeToNodes api nu m) = concat (map (snd \<circ> ?f) m)"
    using assms(1) unfolding SetNodeToNodes_def by (rule site_for_ok)
  moreover have "call_node ` set (snd (?f (k, n))) \<subseteq> {Some (no_Name n), None}" for k n by (simp add: name)
  ultimately have "node_calls (snd (SetNodeToNodes api nu m)) node = node_calls (snd (?f (no_Name node, node))) node"
    using nodes.effects_loop [OF assms(2), of ?f node] assms(6) by simp
  then show ?thesis using labels_set_get [OF _ assms(4,5), of node] nget_put_all [OF assms(3)] assms(4)
    by (auto simp: name, auto simp: node_to_set_def)
qed

lemma SetNodeToNodes_calls:
  assumes "nodes.named_map m"
  shows "call_node ` set (snd (SetNodeToNodes api nu m)) \<subseteq> Some ` fst ` set m"
proof -
  have "set (snd (SetNodeToNodes api nu m)) \<subseteq> (\<lambda>(_, n). UpdateNode (node_to_set (nu_SetNode nu) n)) ` set m"
    unfolding SetNodeToNodes_def by (rule order_trans [OF site_for_calls_subset]) (auto split: if_splits)
  then have "call_node ` set (snd (SetNodeToNodes api nu m)) \<subseteq> call_node ` (\<lambda>(_, n). UpdateNode (node_to_set (nu_SetNode nu) n)) ` set m"
    by (rule image_mono)
  also have "\<dots> \<subseteq> Some ` fst ` set m" using assms by (force simp: nodes.named_map_def node_to_set_def)
  finally show ?thesis .
qed

lemma SetNodeToNodes_other:
  assumes "nodes.named_map m" "mget m (no_Name node) = None"
  shows "node_calls (snd (SetNodeToNodes api nu m)) node = node"
  using SetNodeToNodes_calls [OF assms(1), of api nu] assms(2) by (intro nodes.effects_other) (auto simp: map_of_eq_None_iff)

lemma delete_volume_calls: "c \<in> set (snd (delete_volume env api nu n)) \<Longrightarrow> call_node c = None"
  by (auto simp: delete_volume_def dest!: site_then_calls_subset [THEN subsetD] split: sum.splits option.splits)

text \<open>Only the nodes of the map are cleared.\<close>

lemma DeleteNodesFromSetNode_effect:
  assumes "fst (DeleteNodesFromSetNode env api nu m) = None" "nodes.named_map m" "nu_Nodes nu \<noteq> []"
  shows "node_calls (snd (DeleteNodesFromSetNode env api nu m)) node =
    (case mget m (no_Name node) of None \<Rightarrow> node | Some n \<Rightarrow> node_cleared nu n)"
proof -
  let ?f = "\<lambda>(_ :: string, node).
        site_then (api_call api (UpdateNode (node_cleared nu node)))
          (if \<not> FoundNode (nu_Nodes nu) (no_Name node) \<and> nget (no_Labels node) KinsRoleLabelKey \<noteq> None
           then site_then (delete_volume env api nu node) (ignore_not_found (api_call api (DeletePods (no_Name node))))
           else site_ok)"
  let ?g = "\<lambda>n. if \<not> FoundNode (nu_Nodes nu) (no_Name n) \<and> nget (no_Labels n) KinsRoleLabelKey \<noteq> None
     then site_then (delete_volume env api nu n) (ignore_not_found (api_call api (DeletePods (no_Name n)))) else site_ok"
  have ok: "fst (site_for ?f m) = None" using assms(1,3) by (simp add: DeleteNodesFromSetNode_def)
  have name: "no_Name (node_cleared nu n) = no_Name n" for n by (simp add: node_cleared_def)
  have none: "call_node c = None" if "c \<in> set (snd (?g n))" for c n
    using that by (auto simp: delete_volume_calls dest!: site_then_calls_subset [THEN subsetD] split: if_splits)
  have "call_node ` set (snd (?f (k, n))) \<subseteq> {Some (no_Name n), None}" for k n
  proof -
    have "set (snd (?f (k, n))) \<subseteq> insert (UpdateNode (node_cleared nu n)) (set (snd (?g n)))"
      using site_then_calls_subset [of "api_call api (UpdateNode (node_cleared nu n))" "?g n"] by simp
    then show ?thesis using none [of _ n] by (auto simp: name)
  qed
  then have loop: "node_calls (concat (map (snd \<circ> ?f) m)) node =
    (case mget m (no_Name node) of None \<Rightarrow> node | Some n \<Rightarrow> node_calls (snd (?f (no_Name node, n))) node)"
    by (rule nodes.effects_loop [OF assms(2)])
  have "node_calls (snd (?f (no_Name node, n))) node = node_cleared nu n" if "mget m (no_Name node) = Some n" for n
  proof -
    have n: "(no_Name node, n) \<in> set m" "no_Name n = no_Name node"
      using that nodes.named_mapD [OF assms(2) that] by (auto dest: map_of_SomeD)
    have "fst (?f (no_Name node, n)) = None" using site_for_each [OF ok n(1)] .
    then have "snd (?f (no_Name node, n)) = UpdateNode (node_cleared nu n) # snd (?g n)"
      using site_then_calls [of "api_call api (UpdateNode (node_cleared nu n))" "?g n"] by (simp add: site_then_ok)
    moreover have "node_calls (snd (?g n)) (node_cleared nu n) = node_cleared nu n"
      using none [of _ n] by (intro nodes.effects_other) force
    ultimately show ?thesis using n(2) by (simp add: name)
  qed
  then have "node_calls (concat (map (snd \<circ> ?f) m)) node = (case mget m (no_Name node) of None \<Rightarrow> node | Some n \<Rightarrow> node_cleared nu n)"
    using loop by (simp split: option.splits)
  then show ?thesis using site_for_ok [OF ok] assms(3) by (simp add: DeleteNodesFromSetNode_def)
qed

lemma node_cleared_label:
  "nget (se_Labels (nu_SetNode nu)) k \<noteq> None \<Longrightarrow> nget (no_Labels (node_cleared nu n)) k = None"
  by (cases "se_Labels (nu_SetNode nu)") (auto simp: node_cleared_def Let_def nget_delete_keys label_entries_def dest: map_of_SomeD intro: rev_image_eqI)

end
