(* ===== verification/SiteKins.thy ===== *)
theory SiteKins
  imports SiteNodes "HOL-Library.Sublist"
begin

text \<open>
  The cluster of a node unit (\<open>src/pkg/site-manager/controller/unitcluster/kins.go\<close>): a unit of level L4 or L5 gets a control plane of its own on
  one or three of its nodes; at level L3 it is taken away again. The templates of the directory \<open>manifest\<close> are named, with the values that
  fill them; the reads of the API server, random strings and the parser of CIDRs are arguments.
\<close>

section \<open>Environment\<close>

record kins_env = site_env +
  namespace_Get :: "string \<Rightarrow> site_error option"
  secret_Get :: "string \<Rightarrow> site_error + string"
  configmap_Get :: "string \<Rightarrow> site_error option"
  pv_List :: "labels \<Rightarrow> site_error + string list"
  pvc_List :: "labels \<Rightarrow> site_error + (string \<times> string) list"
  rand_String :: "nat \<Rightarrow> string"
  kins_ParseCIDR :: "string \<Rightarrow> go_error + IPNet"
  time_Now :: int

definition DefaultKinsNamespace :: string where "DefaultKinsNamespace = ''kins-system''"
definition KinsResourceNameSuffix :: string where "KinsResourceNameSuffix = ''kins''"
definition KinsResourceLabelKey :: string where "KinsResourceLabelKey = ''site.superedge.io/kins-resource''"
definition KinsUnitClusterClearAnno :: string where "KinsUnitClusterClearAnno = ''site.superedge.io/clear-cluster''"
definition KinsRoleLabelServer :: string where "KinsRoleLabelServer = ''server''"
definition KinsRoleLabelAgent :: string where "KinsRoleLabelAgent = ''agent''"
definition DefaultKinsServiceCIDR :: "int \<Rightarrow> string \<Rightarrow> string" where
  "DefaultKinsServiceCIDR n s = ''26.'' @ Itoa n @ ''.0.'' @ s"
definition DefaultKinsNodePortRangeStart :: int where "DefaultKinsNodePortRangeStart = 40000"
definition DefaultKinsCRIWImage :: string where "DefaultKinsCRIWImage = ''ccr.ccs.tencentyun.com/tkeedge/cri-w:v0.1.0''"
definition DefaultK3SImage :: string where "DefaultK3SImage = ''ccr.ccs.tencentyun.com/tkeedge/k3s:v1.22.6-revison-1''"
definition ParameterK3SImageKey :: string where "ParameterK3SImageKey = ''k3s-image''"
definition ParameterCRIWImageKey :: string where "ParameterCRIWImageKey = ''criw-image''"
definition ParameterServiceCIDRKey :: string where "ParameterServiceCIDRKey = ''service-cidr''"
definition ParameterNodePortRangeKey :: string where "ParameterNodePortRangeKey = ''node-port-range''"
definition TaintEffectNoSchedule :: string where "TaintEffectNoSchedule = ''NoSchedule''"

section \<open>Names and parameters\<close>

definition buildKinsCRIDaemonSetName :: "string \<Rightarrow> string" where
  "buildKinsCRIDaemonSetName nuName = nuName @ ''-cri-'' @ KinsResourceNameSuffix"

definition buildKinsServerStatefulSetName :: "string \<Rightarrow> string" where
  "buildKinsServerStatefulSetName nuName = nuName @ ''-server-'' @ KinsResourceNameSuffix"

definition buildKinsAgentStatefulSetName :: "string \<Rightarrow> string" where
  "buildKinsAgentStatefulSetName nuName = nuName @ ''-agent-'' @ KinsResourceNameSuffix"

definition buildKinsServiceName :: "string \<Rightarrow> string" where
  "buildKinsServiceName nuName = nuName @ ''-svc-'' @ KinsResourceNameSuffix"

definition buildKinsConfigMapName :: "string \<Rightarrow> string" where
  "buildKinsConfigMapName nuName = nuName @ ''-cm-'' @ KinsResourceNameSuffix"

definition buildKinsSecretName :: "string \<Rightarrow> string" where
  "buildKinsSecretName nuName = nuName @ ''-sec-'' @ KinsResourceNameSuffix"

text \<open>A parameter of the unit; the empty string when it is missing.\<close>

definition cluster_parameter :: "NodeUnit \<Rightarrow> string \<Rightarrow> string" where
  "cluster_parameter nu key = (case nu_ClusterInfo nu of None \<Rightarrow> '''' | Some parameters \<Rightarrow> nread parameters key)"

definition getK3SImage :: "NodeUnit \<Rightarrow> string" where
  "getK3SImage nu = (if cluster_parameter nu ParameterK3SImageKey \<noteq> '''' then cluster_parameter nu ParameterK3SImageKey else DefaultK3SImage)"

definition getCRIWImage :: "NodeUnit \<Rightarrow> string" where
  "getCRIWImage nu = (if cluster_parameter nu ParameterCRIWImageKey \<noteq> '''' then cluster_parameter nu ParameterCRIWImageKey else DefaultKinsCRIWImage)"

text \<open>\<open>binary.BigEndian.Uint32\<close> reads the first four bytes and panics on a shorter slice.\<close>

definition BigEndian_Uint32 :: "8 word list \<Rightarrow> 32 word option" where
  "BigEndian_Uint32 b =
     (case b of b0 # b1 # b2 # b3 # _ \<Rightarrow>
        Some (push_bit 24 (ucast b0) OR push_bit 16 (ucast b1) OR push_bit 8 (ucast b2) OR ucast b3)
      | _ \<Rightarrow> None)"

definition BigEndian_PutUint32 :: "32 word \<Rightarrow> 8 word list" where
  "BigEndian_PutUint32 v = [ucast (drop_bit 24 v), ucast (drop_bit 16 v), ucast (drop_bit 8 v), ucast v]"

definition last_address :: "32 word \<Rightarrow> 32 word \<Rightarrow> 32 word" where
  "last_address start msk = (start AND msk) OR (msk XOR 0xffffffff)"

definition ip4_String :: "8 word list \<Rightarrow> string" where
  "ip4_String ip = Join (map (\<lambda>b. Itoa (uint b)) ip) ''.''"

definition getLastCIDRIPByIndex :: "IPNet \<Rightarrow> string option" where
  "getLastCIDRIPByIndex ipnet =
     (case (BigEndian_Uint32 (net_mask ipnet), BigEndian_Uint32 (net_ip ipnet)) of
        (Some msk, Some start) \<Rightarrow> Some (ip4_String (BigEndian_PutUint32 (last_address start msk)))
      | _ \<Rightarrow> None)"

text \<open>A network of the parser has four or sixteen bytes, so the inner value is there.\<close>

definition caculateKinsServiceCIDRAndCoreDNSIP :: "'a kins_env_scheme \<Rightarrow> NodeUnit \<Rightarrow> int \<Rightarrow> (string \<times> string) option" where
  "caculateKinsServiceCIDRAndCoreDNSIP env nu existUnitCluster =
     (let defaults = (DefaultKinsServiceCIDR existUnitCluster ''0/16'', DefaultKinsServiceCIDR existUnitCluster ''255'');
          svcCidrStr = cluster_parameter nu ParameterServiceCIDRKey
      in if svcCidrStr \<noteq> '''' then
           (case kins_ParseCIDR env svcCidrStr of
              Inl err \<Rightarrow> Some defaults
            | Inr svcCidr \<Rightarrow> map_option (\<lambda>dns. (svcCidrStr, dns)) (getLastCIDRIPByIndex svcCidr))
         else Some defaults)"

definition caculateKinsNodePortRange :: "NodeUnit \<Rightarrow> int \<Rightarrow> string" where
  "caculateKinsNodePortRange nu existUnitCluster =
     (if cluster_parameter nu ParameterNodePortRangeKey \<noteq> '''' then cluster_parameter nu ParameterNodePortRangeKey
      else let start = DefaultKinsNodePortRangeStart + existUnitCluster * 1000; end' = start + 1000 in Itoa start @ ''-'' @ Itoa end')"

text \<open>\<open>base64.URLEncoding\<close>, with padding.\<close>

definition base64_alphabet :: string where
  "base64_alphabet = ''ABCDEFGHIJKLMNOPQRSTUVWXYZabcdefghijklmnopqrstuvwxyz0123456789-_''"

definition base64_digit :: "nat \<Rightarrow> char" where
  "base64_digit n = base64_alphabet ! (n mod 64)"

fun base64_URL :: "nat list \<Rightarrow> string" where
  "base64_URL [] = []"
| "base64_URL [a] = [base64_digit (a div 4), base64_digit (a mod 4 * 16), CHR ''='', CHR ''='']"
| "base64_URL [a, b] = [base64_digit (a div 4), base64_digit (a mod 4 * 16 + b div 16), base64_digit (b mod 16 * 4), CHR ''='']"
| "base64_URL (a # b # c # r) =
     base64_digit (a div 4) # base64_digit (a mod 4 * 16 + b div 16) # base64_digit (b mod 16 * 4 + c div 64) # base64_digit (c mod 64) # base64_URL r"

definition URLEncode :: "string \<Rightarrow> string" where
  "URLEncode s = base64_URL (map of_char s)"

definition generateKinsSecretK3SToken :: "'a kins_env_scheme \<Rightarrow> string \<Rightarrow> string" where
  "generateKinsSecretK3SToken env nuName = URLEncode (sha1_hex env (nuName @ rand_String env 10))"

definition generateKinsSecretKnownToken :: "'a kins_env_scheme \<Rightarrow> string" where
  "generateKinsSecretKnownToken env = rand_String env 32 @ '',admin,admin,system:masters''"

section \<open>Server nodes\<close>

definition node_Get :: "'a site_env_scheme \<Rightarrow> string \<Rightarrow> go_error + site_node" where
  "node_Get env name =
     (case node_Get_error env name of
        Some err \<Rightarrow> Inl err
      | None \<Rightarrow> (case find (\<lambda>n. no_Name n = name) (node_cache env) of None \<Rightarrow> Inl ''not found'' | Some n \<Rightarrow> Inr n))"

definition is_server :: "site_node \<Rightarrow> bool" where
  "is_server node \<longleftrightarrow> nread (no_Labels node) KinsRoleLabelKey = KinsRoleLabelServer"

text \<open>The loops over the ready nodes of the status: for L5 servers are passed over, and it ends with the node that makes the number full.\<close>

fun pick_servers :: "'a site_env_scheme \<Rightarrow> site_api \<Rightarrow> bool \<Rightarrow> nat \<Rightarrow> string list \<Rightarrow> string list \<Rightarrow> (site_error + string list) \<times> site_call list" where
  "pick_servers env api skip target [] serverNodes = (Inr serverNodes, [])"
| "pick_servers env api skip target (nodeName # names) serverNodes =
     (case node_Get env nodeName of
        Inl err \<Rightarrow> pick_servers env api skip target names serverNodes
      | Inr node \<Rightarrow>
          if skip \<and> is_server node \<or> \<not> IsReadyNode node then pick_servers env api skip target names serverNodes
          else let c = ApplyNodeLabels nodeName [(KinsRoleLabelKey, KinsRoleLabelServer)] in
            case api c of
              Some err \<Rightarrow> (Inl err, [c])
            | None \<Rightarrow>
                let serverNodes' = serverNodes @ [nodeName] in
                if length serverNodes' = target then (Inr serverNodes', [c])
                else let (r, cs) = pick_servers env api skip target names serverNodes' in (r, c # cs))"

definition need_servers :: "'a site_env_scheme \<Rightarrow> site_api \<Rightarrow> NodeUnit \<Rightarrow> bool \<Rightarrow> nat \<Rightarrow> (string list \<Rightarrow> go_error) \<Rightarrow> string list \<Rightarrow> (site_error + string list) \<times> site_call list" where
  "need_servers env api nu skip target message serverNodes =
     (if length (ReadyNodes (nu_Status nu)) < target then (Inl (SiteErr ''Insufficient Ready Node''), [])
      else (case pick_servers env api skip target (ReadyNodes (nu_Status nu)) serverNodes of
              (Inl err, cs) \<Rightarrow> (Inl err, cs)
            | (Inr servers, cs) \<Rightarrow> if length servers < target then (Inl (SiteErr (message servers)), cs) else (Inr servers, cs)))"

definition labelServerNode :: "'a site_env_scheme \<Rightarrow> site_api \<Rightarrow> NodeUnit \<Rightarrow> (site_error + string list) \<times> site_call list" where
  "labelServerNode env api nu =
     (case GetNodesByUnit env nu of
        Inl err \<Rightarrow> (Inl (SiteErr err), [])
      | Inr nodeMap \<Rightarrow>
          let serverNodes = map no_Name (filter is_server (map snd nodeMap)) in
          if nu_AutonomyLevel nu = ''L4'' \<and> length serverNodes < 1 then
            need_servers env api nu False 1 (\<lambda>_. ''the number of available nodes  is less than one'') serverNodes
          else if nu_AutonomyLevel nu = ''L5'' \<and> length serverNodes < 3 then
            need_servers env api nu True 3 (\<lambda>ns. ''the number of available nodes ['' @ Join ns '' '' @ ''] is less than three'') serverNodes
          else (Inr serverNodes, []))"

section \<open>Installation\<close>

definition site_fail :: "site_error \<Rightarrow> site_result" where
  "site_fail e = (Some e, [])"

text \<open>A read that creates what is missing.\<close>

definition get_or_create :: "site_error option \<Rightarrow> site_result \<Rightarrow> site_result" where
  "get_or_create got create = (case got of None \<Rightarrow> site_ok | Some NotFoundErr \<Rightarrow> create | Some (SiteErr e) \<Rightarrow> site_fail (SiteErr e))"

definition create_file :: "site_api \<Rightarrow> string \<Rightarrow> (string \<times> template_value) list \<Rightarrow> site_result" where
  "create_file api template option = api_call api (CreateResourceWithFile template option)"

definition createServerStorage :: "site_api \<Rightarrow> NodeUnit \<Rightarrow> string list \<Rightarrow> site_result" where
  "createServerStorage api nu serverNodes =
     site_then (create_file api ''KinsStorageClassTemplate'' [(''KinsResourceLabelKey'', Text KinsResourceLabelKey)])
       (create_file api ''KinsPVTemplate'' [(''Nodes'', Items (map (\<lambda>n.
          [(''Name'', n), (''KinsResourceLabelKey'', KinsResourceLabelKey), (''UnitName'', nu_Name nu), (''NodeUnitSuperedge'', NodeUnitSuperedge)]) serverNodes))])"

definition createCRIW :: "site_api \<Rightarrow> NodeUnit \<Rightarrow> site_result" where
  "createCRIW api nu =
     create_file api ''CRIWTemplate''
       [(''KinsResourceLabelKey'', Text KinsResourceLabelKey), (''CRIWName'', Text (buildKinsCRIDaemonSetName (nu_Name nu))),
        (''KinsNamespace'', Text DefaultKinsNamespace), (''UnitName'', Text (nu_Name nu)), (''NodeUnitSuperedge'', Text NodeUnitSuperedge),
        (''KinsTaintKey'', Text KinsResourceNameSuffix), (''KinsCRIWImage'', Text (getCRIWImage nu))]"

text \<open>The number of other unit clusters is zero: the loop that would count them is commented out.\<close>

definition server_option :: "NodeUnit \<Rightarrow> string \<Rightarrow> string \<Rightarrow> (string \<times> template_value) list" where
  "server_option nu cidr dns =
     [(''KinsResourceLabelKey'', Text KinsResourceLabelKey), (''KinsServerName'', Text (buildKinsServerStatefulSetName (nu_Name nu))),
      (''KinsNamespace'', Text DefaultKinsNamespace), (''KinsTaintKey'', Text KinsResourceNameSuffix), (''KinsRoleLabelKey'', Text KinsRoleLabelKey),
      (''KinsRoleLabelServer'', Text KinsRoleLabelServer), (''KinsRoleLabelAgent'', Text KinsRoleLabelAgent), (''UnitName'', Text (nu_Name nu)),
      (''NodeUnitSuperedge'', Text NodeUnitSuperedge), (''K3SServerImage'', Text (getK3SImage nu)), (''KinsSecretName'', Text (buildKinsSecretName (nu_Name nu))),
      (''ServiceCIDR'', Text cidr), (''KinsNodePortRange'', Text (caculateKinsNodePortRange nu 0)), (''KinsCorednsIP'', Text dns)]"

text \<open>A panic of the byte order functions would be the first branch: it is not reached on a network of the parser.\<close>

definition createServer :: "'a kins_env_scheme \<Rightarrow> site_api \<Rightarrow> NodeUnit \<Rightarrow> site_result" where
  "createServer env api nu =
     (case caculateKinsServiceCIDRAndCoreDNSIP env nu 0 of
        None \<Rightarrow> site_fail (SiteErr ''panic'')
      | Some (uclusterServiceCIDR, uclusterDNSIP) \<Rightarrow>
          let serverOption = server_option nu uclusterServiceCIDR uclusterDNSIP in
          site_then (create_file api ''KinsServerTemplate'' serverOption)
            (site_then (if nu_AutonomyLevel nu = ''L5'' then create_file api ''KinsServerJoinTemplate'' serverOption else site_ok)
              (create_file api ''KinsServiceTemplate''
                 [(''KinsResourceLabelKey'', Text KinsResourceLabelKey), (''KinsServerServiceName'', Text (buildKinsServiceName (nu_Name nu))),
                  (''KinsNamespace'', Text DefaultKinsNamespace), (''KinsRoleLabelKey'', Text KinsRoleLabelKey),
                  (''KinsRoleLabelServer'', Text KinsRoleLabelServer), (''UnitName'', Text (nu_Name nu)), (''NodeUnitSuperedge'', Text NodeUnitSuperedge)])))"

definition createAgent :: "site_api \<Rightarrow> NodeUnit \<Rightarrow> site_result" where
  "createAgent api nu =
     create_file api ''KinsAgentTemplate''
       [(''KinsResourceLabelKey'', Text KinsResourceLabelKey), (''KinsAgentName'', Text (buildKinsAgentStatefulSetName (nu_Name nu))),
        (''KinsNamespace'', Text DefaultKinsNamespace), (''KinsTaintKey'', Text KinsResourceNameSuffix), (''KinsRoleLabelKey'', Text KinsRoleLabelKey),
        (''KinsRoleLabelServer'', Text KinsRoleLabelServer), (''UnitName'', Text (nu_Name nu)), (''NodeUnitSuperedge'', Text NodeUnitSuperedge),
        (''K3SAgentImage'', Text (getK3SImage nu)), (''KinsSecretName'', Text (buildKinsSecretName (nu_Name nu))),
        (''KinsServerEndpoint'', Text (buildKinsServiceName (nu_Name nu)))]"

text \<open>The token goes into the secret as base64 and into the configuration as its first field; an existing secret keeps its own.\<close>

definition create_secret :: "'a kins_env_scheme \<Rightarrow> site_api \<Rightarrow> NodeUnit \<Rightarrow> string \<Rightarrow> site_result" where
  "create_secret env api nu knowToken =
     (let k3stoken = generateKinsSecretK3SToken env (nu_Name nu) in
      create_file api ''KinsSecretTemplate''
        [(''KinsResourceLabelKey'', Text KinsResourceLabelKey), (''KinsSecretName'', Text (buildKinsSecretName (nu_Name nu))), (''UnitName'', Text (nu_Name nu)),
         (''NodeUnitSuperedge'', Text NodeUnitSuperedge), (''KinsNamespace'', Text DefaultKinsNamespace), (''K3SToken'', Text k3stoken),
         (''K3SJoinToken'', Text k3stoken), (''KnowToken'', Text (URLEncode knowToken))])"

definition create_configmap :: "site_api \<Rightarrow> NodeUnit \<Rightarrow> string \<Rightarrow> site_result" where
  "create_configmap api nu knowToken =
     create_file api ''KinsConfigMapTemplate''
       [(''KinsResourceLabelKey'', Text KinsResourceLabelKey), (''KinsConfigMapName'', Text (buildKinsConfigMapName (nu_Name nu))), (''UnitName'', Text (nu_Name nu)),
        (''NodeUnitSuperedge'', Text NodeUnitSuperedge), (''KinsNamespace'', Text DefaultKinsNamespace),
        (''KinsServiceClusterIP'', Text (DefaultKinsServiceCIDR 0 ''1'')), (''KnowToken'', Text (hd (Split knowToken (CHR '',''))))]"

definition creatSecret :: "'a kins_env_scheme \<Rightarrow> site_api \<Rightarrow> NodeUnit \<Rightarrow> site_result" where
  "creatSecret env api nu =
     (let knowToken = generateKinsSecretKnownToken env;
          (r, token) = (case secret_Get env (buildKinsSecretName (nu_Name nu)) of
              Inl NotFoundErr \<Rightarrow> (create_secret env api nu knowToken, knowToken)
            | Inl (SiteErr e) \<Rightarrow> (site_fail (SiteErr e), knowToken)
            | Inr known_tokens \<Rightarrow> (site_ok, known_tokens))
      in site_then r (get_or_create (configmap_Get env (buildKinsConfigMapName (nu_Name nu))) (create_configmap api nu token)))"

definition kins_taint :: site_taint where
  "kins_taint = \<lparr>ta_Key = KinsResourceNameSuffix, ta_Value = '''', ta_Effect = TaintEffectNoSchedule\<rparr>"

definition has_kins_taint :: "NodeUnit \<Rightarrow> bool" where
  "has_kins_taint nu \<longleftrightarrow>
     list_ex (\<lambda>t. ta_Key t = KinsResourceNameSuffix \<and> ta_Effect t = TaintEffectNoSchedule) (opt_list (se_Taints (nu_SetNode nu)))"

definition unit_installed :: "NodeUnit \<Rightarrow> NodeUnit" where
  "unit_installed nu = nu\<lparr>nu_SetNode := (nu_SetNode nu)\<lparr>se_Taints := Some (opt_list (se_Taints (nu_SetNode nu)) @ [kins_taint])\<rparr>,
     nu_CredentialRef := Some (DefaultKinsNamespace, buildKinsConfigMapName (nu_Name nu))\<rparr>"

definition installUnitCluster :: "'a kins_env_scheme \<Rightarrow> site_api \<Rightarrow> NodeUnit \<Rightarrow> site_result" where
  "installUnitCluster env api nu =
     site_then (get_or_create (namespace_Get env DefaultKinsNamespace) (api_call api (CreateNamespace DefaultKinsNamespace)))
      (case labelServerNode env api nu of
         (Inl err, cs) \<Rightarrow> (Some err, cs)
       | (Inr serverNodes, cs) \<Rightarrow>
           site_then (None, cs)
          (site_then (createServerStorage api nu serverNodes)
          (site_then (createCRIW api nu)
          (site_then (createServer env api nu)
          (site_then (createAgent api nu)
          (site_then (creatSecret env api nu)
             (if \<not> has_kins_taint nu \<or> nu_CredentialRef nu = None then api_call api (UpdateUnit (unit_installed nu)) else site_ok)))))))"

section \<open>Removal\<close>

definition unit_resource_label :: "NodeUnit \<Rightarrow> labels" where
  "unit_resource_label nu = mput (nu_Name nu) NodeUnitSuperedge [(KinsResourceLabelKey, ''yes'')]"

definition log_error :: "site_result \<Rightarrow> site_result" where
  "log_error r = (None, snd r)"

text \<open>A list that fails because nothing was found is empty; any other error ends the removal.\<close>

definition for_listed :: "(site_error + 'b list) \<Rightarrow> ('b \<Rightarrow> site_result) \<Rightarrow> site_result" where
  "for_listed l f = (case l of Inl (SiteErr e) \<Rightarrow> site_fail (SiteErr e) | Inl NotFoundErr \<Rightarrow> site_ok | Inr xs \<Rightarrow> site_for f xs)"

definition taints_recovered :: "site_taint list option \<Rightarrow> site_taint list option" where
  "taints_recovered taints =
     (let newTaints = filter (\<lambda>t. ta_Key t \<noteq> KinsResourceNameSuffix \<and> ta_Effect t \<noteq> TaintEffectNoSchedule) (opt_list taints) in
      if newTaints = [] then None else Some newTaints)"

definition unit_recovered :: "NodeUnit \<Rightarrow> NodeUnit" where
  "unit_recovered nu = nu\<lparr>nu_SetNode := (nu_SetNode nu)\<lparr>se_Taints := taints_recovered (se_Taints (nu_SetNode nu))\<rparr>, nu_CredentialRef := None\<rparr>"

definition unlabel_server :: "'a site_env_scheme \<Rightarrow> site_api \<Rightarrow> string \<Rightarrow> site_result" where
  "unlabel_server env api name =
     (case node_Get env name of
        Inl err \<Rightarrow> site_ok
      | Inr node \<Rightarrow> if nget (no_Labels node) KinsRoleLabelKey \<noteq> None then api_call api (PatchNodeRole name) else site_ok)"

definition recoverNodeUnit :: "'a kins_env_scheme \<Rightarrow> site_api \<Rightarrow> NodeUnit \<Rightarrow> site_result" where
  "recoverNodeUnit env api nu =
     (let unitResourceLabel = unit_resource_label nu;
          pvcLabel = [(''site.superedge.io/nodeunit'', nu_Name nu)];
          del = (\<lambda>c. ignore_not_found (api_call api c))
      in site_then (del (DeleteDaemonSets unitResourceLabel))
        (site_then (del (DeleteStatefulSets unitResourceLabel))
        (site_then (del (DeleteService (buildKinsServiceName (nu_Name nu))))
        (site_then (del (DeleteService (buildKinsServerStatefulSetName (nu_Name nu) @ ''-init'')))
        (site_then (if nread (nu_Annotations nu) KinsUnitClusterClearAnno = ''yes'' then del (DeleteSecret (buildKinsSecretName (nu_Name nu))) else site_ok)
        (site_then (del (DeleteConfigMaps unitResourceLabel))
        (site_then (for_listed (pv_List env unitResourceLabel) (\<lambda>pv. log_error (api_call api (PatchPV pv))))
        (site_then (del (DeletePVs unitResourceLabel))
        (site_then (for_listed (pvc_List env pvcLabel) (\<lambda>pvc. log_error (api_call api (PatchPVC pvc))))
        (site_then (del (DeletePVCs pvcLabel))
        (site_then (site_for (unlabel_server env api) (nu_Nodes nu))
          (if taints_recovered (se_Taints (nu_SetNode nu)) \<noteq> se_Taints (nu_SetNode nu) \<or> nu_CredentialRef nu \<noteq> None
           then api_call api (UpdateUnit (unit_recovered nu)) else site_ok))))))))))))"

definition ReconcileUnitCluster :: "'a kins_env_scheme \<Rightarrow> site_api \<Rightarrow> NodeUnit \<Rightarrow> site_result" where
  "ReconcileUnitCluster env api nu =
     (if nu_AutonomyLevel nu = ''L3'' then recoverNodeUnit env api nu
      else if nu_AutonomyLevel nu = ''L4'' \<or> nu_AutonomyLevel nu = ''L5'' then installUnitCluster env api nu
      else site_ok)"

text \<open>For L3 the pointer to the status in the unit itself is returned (\<open>True\<close>), for other levels a copy.\<close>

definition UpdateUnitClusterStatus :: "NodeUnit \<Rightarrow> UnitClusterStatus \<times> bool" where
  "UpdateUnitClusterStatus nu = (UnitCluster (nu_Status nu), nu_AutonomyLevel nu = ''L3'')"

section \<open>The calls of the unit cluster\<close>

lemma calls_only_kins:
  "calls_only P (site_fail e)"
  "calls_only P r \<Longrightarrow> calls_only P (log_error r)"
  "calls_only P r \<Longrightarrow> calls_only P (get_or_create got r)"
  "P (CreateResourceWithFile t opts) \<Longrightarrow> calls_only P (create_file api t opts)"
  by (auto simp: calls_only_def api_call_def site_fail_def log_error_def get_or_create_def create_file_def split: option.splits site_error.splits)

lemma calls_only_for_listed: "(\<And>x. calls_only P (f x)) \<Longrightarrow> calls_only P (for_listed l f)"
  by (auto simp: for_listed_def intro: calls_only_for calls_only_intros calls_only_kins split: sum.splits site_error.splits)

lemmas calls_only_rules = calls_only_intros calls_only_for calls_only_if calls_only_kins calls_only_for_listed

text \<open>The unit cluster touches a node only in the label of the role.\<close>

fun role_call :: "site_call \<Rightarrow> bool" where
  "role_call (UpdateNode n) \<longleftrightarrow> False"
| "role_call (ApplyNodeLabels name ls) \<longleftrightarrow> map fst ls = [KinsRoleLabelKey]"
| "role_call _ \<longleftrightarrow> True"

lemma pick_servers_calls: "list_all role_call (snd (pick_servers env api skip target names servers))"
  by (induction env api skip target names servers rule: pick_servers.induct) (auto simp: Let_def split: sum.splits option.splits prod.splits)

lemma labelServerNode_calls: "list_all role_call (snd (labelServerNode env api nu))"
proof -
  have "list_all role_call (snd (need_servers env api nu skip target message servers))" for skip target message servers
    using pick_servers_calls [of env api skip target "ReadyNodes (nu_Status nu)" servers]
    by (auto simp: need_servers_def split: sum.splits prod.splits)
  then show ?thesis by (auto simp: labelServerNode_def Let_def split: sum.splits)
qed

lemma installUnitCluster_calls: "calls_only role_call (installUnitCluster env api nu)"
proof -
  have secret: "calls_only role_call (creatSecret env api nu)"
    by (auto simp: creatSecret_def create_secret_def create_configmap_def Let_def intro!: calls_only_rules split: sum.splits site_error.splits)
  have server: "calls_only role_call (createServer env api nu)"
    by (auto simp: createServer_def Let_def intro!: calls_only_rules split: option.splits)
  have label: "calls_only role_call (r, snd (labelServerNode env api nu))" for r
    using labelServerNode_calls by (simp add: calls_only_def)
  show ?thesis using label secret server
    by (auto simp: installUnitCluster_def createServerStorage_def createCRIW_def createAgent_def intro!: calls_only_rules split: prod.splits sum.splits)
qed

lemma recoverNodeUnit_calls: "calls_only role_call (recoverNodeUnit env api nu)"
proof -
  have "calls_only role_call (unlabel_server env api name)" for name
    by (auto simp: unlabel_server_def intro!: calls_only_rules split: sum.splits)
  then show ?thesis unfolding recoverNodeUnit_def Let_def by (auto intro!: calls_only_rules)
qed

lemma ReconcileUnitCluster_calls: "calls_only role_call (ReconcileUnitCluster env api nu)"
  by (simp add: ReconcileUnitCluster_def installUnitCluster_calls recoverNodeUnit_calls calls_only_rules)

lemma role_call_label:
  assumes "role_call c" "k \<noteq> KinsRoleLabelKey"
  shows "nget (no_Labels (node_call c n)) k = nget (no_Labels n) k"
proof (cases c)
  case (ApplyNodeLabels name ls)
  then obtain v where "ls = [(KinsRoleLabelKey, v)]" using assms(1) by auto
  then show ?thesis using assms(2) ApplyNodeLabels by (cases "no_Labels n") (auto simp: mget_mput label_entries_def)
qed (use assms in \<open>auto simp: nget_delete_keys\<close>)

lemma role_calls_label:
  "list_all role_call cs \<Longrightarrow> k \<noteq> KinsRoleLabelKey \<Longrightarrow> nget (no_Labels (node_calls cs n)) k = nget (no_Labels n) k"
  by (induction cs arbitrary: n) (auto simp: role_call_label)

section \<open>Servers\<close>

text \<open>A successful choice appends ready nodes of the cache that are no servers yet, each with one call that labels it.\<close>

lemma pick_servers_ok:
  assumes "fst (pick_servers env api skip target names servers) = Inr servers'" "length servers < target"
  shows "\<exists>new. servers' = servers @ new \<and> subseq new names \<and> length servers' \<le> target \<and>
    (\<forall>name\<in>set new. \<exists>n. node_Get env name = Inr n \<and> IsReadyNode n \<and> (skip \<longrightarrow> \<not> is_server n)) \<and>
    snd (pick_servers env api skip target names servers) = map (\<lambda>name. ApplyNodeLabels name [(KinsRoleLabelKey, KinsRoleLabelServer)]) new"
  using assms
proof (induction env api skip target names servers arbitrary: servers' rule: pick_servers.induct)
  case (2 env api skip target nodeName names servers)
  show ?case
  proof (cases "node_Get env nodeName")
    case (Inl err)
    then have "fst (pick_servers env api skip target names servers) = Inr servers'" using 2(4) by simp
    from 2(1) [OF Inl this 2(5)] show ?thesis using Inl by (auto intro: list_emb_Cons)
  next
    case (Inr node)
    let ?c = "ApplyNodeLabels nodeName [(KinsRoleLabelKey, KinsRoleLabelServer)]"
    consider "skip \<and> is_server node \<or> \<not> IsReadyNode node" | "\<not> (skip \<and> is_server node)" "IsReadyNode node" by blast
    then show ?thesis
    proof cases
      case 1
      then have "fst (pick_servers env api skip target names servers) = Inr servers'" using 2(4) Inr by simp
      from 2(2) [OF Inr 1 this 2(5)] show ?thesis using Inr 1 by (auto intro: list_emb_Cons)
    next
      case ready: 2
      then have api: "api ?c = None" using 2(4) Inr by (auto simp: Let_def split: option.splits)
      show ?thesis
      proof (cases "length (servers @ [nodeName]) = target")
        case True
        then show ?thesis using 2(4) Inr ready api by (intro exI [of _ "[nodeName]"]) auto
      next
        case False
        obtain cs where p: "pick_servers env api skip target names (servers @ [nodeName]) = (Inr servers', cs)"
          using 2(4) Inr ready api False by (auto simp: Let_def split: prod.splits)
        have "length (servers @ [nodeName]) < target" using 2(5) False by simp
        then obtain new where "servers' = (servers @ [nodeName]) @ new" "subseq new names" "length servers' \<le> target"
            "\<forall>name\<in>set new. \<exists>n. node_Get env name = Inr n \<and> IsReadyNode n \<and> (skip \<longrightarrow> \<not> is_server n)"
            "cs = map (\<lambda>name. ApplyNodeLabels name [(KinsRoleLabelKey, KinsRoleLabelServer)]) new"
          using 2(3) [OF Inr _ refl api refl False, of servers'] ready p by auto
        then show ?thesis using Inr ready api False p by (intro exI [of _ "nodeName # new"]) auto
      qed
    qed
  qed
qed auto

lemma node_Get_eq:
  assumes "distinct (map no_Name (node_cache env))" "node_Get env name = Inr n"
  shows "n \<in> set (node_cache env)" "no_Name n = name"
proof -
  have "find (\<lambda>n. no_Name n = name) (node_cache env) = Some n" using assms(2) by (auto simp: node_Get_def split: option.splits)
  then show "n \<in> set (node_cache env)" "no_Name n = name" using nodes.find_named [OF assms(1)] by auto
qed

lemma find_in_set: "find P xs = Some x \<Longrightarrow> x \<in> set xs \<and> P x"
  by (induction xs) (auto split: if_splits)

lemma GetNodesByUnit_values:
  assumes "distinct (map no_Name (node_cache env))" "GetNodesByUnit env nu = Inr nodeMap" "(k, n) \<in> set nodeMap"
  shows "n \<in> set (node_cache env)"
proof -
  obtain m where m: "named_objects (node_Get_error env) no_Name (node_cache env) (nu_Nodes nu) [] = Inr m" using assms(2) by (auto simp: GetNodesByUnit_def split: sum.splits)
  have named: "n \<in> set (node_cache env)" if "mget m k = Some n" for n
    using that nodes.named_objects_get [OF m, of k] by (auto dest!: find_in_set split: if_splits)
  have wf: "mwf (fold (\<lambda>n. mput (no_Name n) n) ns m)" for ns
    using nodes.fold_put_named [OF nodes.named_objects_named [OF m nodes.named_map_Nil]] by (simp add: nodes.named_map_def)
  have listed: "n \<in> set (node_cache env)" if "mget (fold (\<lambda>n. mput (no_Name n) n) (list_nodes env P) m) k = Some n" for P n
  proof -
    have "distinct (map no_Name (list_nodes env P))" using assms(1) by (auto simp: list_nodes_def intro: distinct_map_filter)
    then show ?thesis using that named by (auto simp: nodes.fold_put_get list_nodes_def dest!: find_in_set split: option.splits if_splits)
  qed
  show ?thesis using assms(2,3) listed named wf [of "[]"] wf
    by (auto simp: GetNodesByUnit_def m Let_def mget_in_set split: option.splits sum.splits)
qed

text \<open>The servers among the nodes of a unit.\<close>

definition unit_servers :: "(string, site_node) gomap \<Rightarrow> string list" where
  "unit_servers nodeMap = map no_Name (filter is_server (map snd nodeMap))"

lemma unit_servers_ok:
  assumes "distinct (map no_Name (node_cache env))" "node_List_error env = None" "GetNodesByUnit env nu = Inr nodeMap"
  shows "distinct (unit_servers nodeMap)"
    and "set (unit_servers nodeMap) \<subseteq> no_Name ` {n \<in> set (node_cache env). unit_selects env nu n \<and> is_server n}"
proof -
  note selects = GetNodesByUnit_selects [OF assms]
  have wf: "mwf nodeMap" using selects(1) by (simp add: nodes.named_map_def)
  have "map no_Name (map snd nodeMap) = map fst nodeMap" using selects(1) by (auto simp: nodes.named_map_def)
  then have "distinct (map no_Name (map snd nodeMap))" using wf by (simp only: mwf_def)
  then show "distinct (unit_servers nodeMap)" unfolding unit_servers_def by (rule distinct_map_filter)
  have "n \<in> set (node_cache env) \<and> unit_selects env nu n" if k: "(k, n) \<in> set nodeMap" for k n
  proof -
    have n: "n \<in> set (node_cache env)" using k by (rule GetNodesByUnit_values [OF assms(1,3)])
    have "k = no_Name n" using k selects(1) by (auto simp: nodes.named_map_def)
    then have "mget nodeMap (no_Name n) = Some n" using k wf by (simp add: mget_in_set)
    then show ?thesis using selects(2) [OF n] n by (auto split: if_splits)
  qed
  then show "set (unit_servers nodeMap) \<subseteq> no_Name ` {n \<in> set (node_cache env). unit_selects env nu n \<and> is_server n}"
    by (auto simp: unit_servers_def)
qed

definition ready_names :: "'a site_env_scheme \<Rightarrow> string set" where
  "ready_names env = no_Name ` {n \<in> set (node_cache env). IsReadyNode n}"

definition server_label :: "string \<Rightarrow> site_call" where
  "server_label name = ApplyNodeLabels name [(KinsRoleLabelKey, KinsRoleLabelServer)]"

lemma need_servers_ok:
  assumes "distinct (map no_Name (node_cache env))" "distinct (ReadyNodes (nu_Status nu))" "distinct old" "set old \<subseteq> no_Name ` {n \<in> set (node_cache env). is_server n}"
    and "need_servers env api nu skip target message old = (Inr servers, cs)" "length old < target" "target \<le> 3" "skip \<or> old = []"
  shows "\<exists>new. servers = old @ new \<and> distinct servers \<and> length new \<le> 3 \<and> target \<le> length servers \<and> cs = map server_label new \<and> set new \<subseteq> ready_names env"
proof -
  have p: "pick_servers env api skip target (ReadyNodes (nu_Status nu)) old = (Inr servers, cs)" "target \<le> length servers"
    using assms(5) by (auto simp: need_servers_def split: if_splits sum.splits prod.splits)
  obtain new where new: "servers = old @ new" "subseq new (ReadyNodes (nu_Status nu))" "length servers \<le> target"
      "\<forall>name\<in>set new. \<exists>n. node_Get env name = Inr n \<and> IsReadyNode n \<and> (skip \<longrightarrow> \<not> is_server n)" "cs = map server_label new"
    using pick_servers_ok [of env api skip target "ReadyNodes (nu_Status nu)" old servers] p assms(6) by (auto simp: server_label_def)
  have in_cache: "set new \<subseteq> ready_names env"
  proof
    fix name
    assume "name \<in> set new"
    then obtain n where n: "node_Get env name = Inr n" "IsReadyNode n" using new(4) by blast
    show "name \<in> ready_names env" using node_Get_eq [OF assms(1) n(1)] n(2) by (auto simp: ready_names_def)
  qed
  have "distinct new" using new(2) assms(2) by (auto simp: subseq_conv_nths distinct_nthsI)
  moreover have "name \<notin> set new" if in_old: "name \<in> set old" for name
  proof
    assume "name \<in> set new"
    then obtain n where n: "node_Get env name = Inr n" "skip \<longrightarrow> \<not> is_server n" using new(4) by blast
    have skip: "\<not> is_server n" using n(2) assms(8) in_old by auto
    obtain n' where n': "n' \<in> set (node_cache env)" "is_server n'" "no_Name n' = name" using assms(4) in_old by auto
    have "n' = n" using assms(1) n' node_Get_eq [OF assms(1) n(1)] by (auto simp: distinct_map intro: inj_onD)
    then show False using skip n'(2) by simp
  qed
  ultimately show ?thesis using new(1,3,5) p(2) assms(3,7) in_cache by (intro exI [of _ new]) auto
qed

text \<open>
  The servers of a unit cluster. When the choice succeeds, a unit of level L4 has at least one server node and a unit of level L5 at least
  three, and they are different nodes: first those that are servers of the unit already, then at most three ready nodes of the cache, each of which
  is labelled with one call.
\<close>

theorem servers_sufficient:
  assumes "distinct (map no_Name (node_cache env))" "node_List_error env = None" "distinct (ReadyNodes (nu_Status nu))"
    and "labelServerNode env api nu = (Inr servers, cs)"
  shows "(nu_AutonomyLevel nu = ''L4'' \<longrightarrow> 1 \<le> length servers) \<and> (nu_AutonomyLevel nu = ''L5'' \<longrightarrow> 3 \<le> length servers) \<and> distinct servers \<and>
    (\<exists>old new. servers = old @ new \<and> length new \<le> 3 \<and> cs = map server_label new \<and> set new \<subseteq> ready_names env \<and>
       set old \<subseteq> no_Name ` {n \<in> set (node_cache env). unit_selects env nu n \<and> is_server n})"
proof -
  obtain nodeMap where nodeMap: "GetNodesByUnit env nu = Inr nodeMap"
    using assms(4) by (auto simp: labelServerNode_def split: sum.splits)
  define old where "old = unit_servers nodeMap"
  note servers = unit_servers_ok [OF assms(1,2) nodeMap, folded old_def]
  have servers': "set old \<subseteq> no_Name ` {n \<in> set (node_cache env). is_server n}" using servers(2) by auto
  note picked = need_servers_ok [OF assms(1,3) servers(1) servers']
  have split: "\<exists>old new. servers = old @ new \<and> length new \<le> 3 \<and> cs = map server_label new \<and> set new \<subseteq> ready_names env \<and>
       set old \<subseteq> no_Name ` {n \<in> set (node_cache env). unit_selects env nu n \<and> is_server n}"
    if "servers = old @ new" "length new \<le> 3" "cs = map server_label new" "set new \<subseteq> ready_names env" for new
    using that servers(2) by blast
  have result: "(if nu_AutonomyLevel nu = ''L4'' \<and> length old < 1 then
            need_servers env api nu False 1 (\<lambda>_. ''the number of available nodes  is less than one'') old
          else if nu_AutonomyLevel nu = ''L5'' \<and> length old < 3 then
            need_servers env api nu True 3 (\<lambda>ns. ''the number of available nodes ['' @ Join ns '' '' @ ''] is less than three'') old
          else (Inr old, [])) = (Inr servers, cs)"
    using assms(4) by (simp only: labelServerNode_def nodeMap sum.case Let_def unit_servers_def [symmetric] old_def [symmetric])
  consider (l4) "nu_AutonomyLevel nu = ''L4''" "length old < 1" | (l5) "nu_AutonomyLevel nu = ''L5''" "length old < 3"
    | (keep) "\<not> (nu_AutonomyLevel nu = ''L4'' \<and> length old < 1)" "\<not> (nu_AutonomyLevel nu = ''L5'' \<and> length old < 3)" by blast
  then show ?thesis
  proof cases
    case l4
    with picked [of api False 1] result obtain new where "servers = old @ new" "distinct servers" "length new \<le> 3" "1 \<le> length servers"
      "cs = map server_label new" "set new \<subseteq> ready_names env" by force
    with l4(1) split [of new] show ?thesis by simp
  next
    case l5
    with picked [of api True 3] result obtain new where "servers = old @ new" "distinct servers" "length new \<le> 3" "3 \<le> length servers"
      "cs = map server_label new" "set new \<subseteq> ready_names env" by force
    with l5(1) split [of new] show ?thesis by simp
  next
    case keep
    then have "servers = old" "cs = []" using result by (simp_all split: if_splits)
    with keep servers(1) split [of "[]"] show ?thesis by (simp add: not_less Suc_le_eq)
  qed
qed

text \<open>
  The ready nodes are those of the status, which the last reconciliation wrote: a ready node that has left the unit since then may become its server.
\<close>

lemma left_node_becomes_server:
  assumes "GetNodesByUnit env nu = Inr nodeMap" "unit_servers nodeMap = []" "nu_AutonomyLevel nu = ''L4''" "ReadyNodes (nu_Status nu) = gone # rest"
    and "node_Get env gone = Inr n" "IsReadyNode n" "api (server_label gone) = None"
  shows "labelServerNode env api nu = (Inr [gone], [server_label gone])"
  using assms by (simp add: labelServerNode_def unit_servers_def need_servers_def server_label_def)

section \<open>The last address of a network\<close>

lemma word_le_bits: "a AND b = a \<Longrightarrow> a \<le> (b :: 32 word)"
  by (metis word_and_le1)

lemma last_address_greatest:
  assumes "ip AND msk = start AND msk"
  shows "ip \<le> last_address start msk" "last_address start msk AND msk = start AND msk"
proof -
  have bits: "bit ip n \<and> bit msk n \<longleftrightarrow> bit start n \<and> bit msk n" for n using arg_cong [OF assms, of "\<lambda>w. bit w n"] by (simp add: bit_simps)
  have "msk XOR - 1 = NOT msk" by (rule bit_word_eqI) (simp add: bit_simps)
  moreover have "(0xffffffff :: 32 word) = - 1" by simp
  ultimately have last: "last_address start msk = (start AND msk) OR NOT msk" by (simp only: last_address_def)
  show "last_address start msk AND msk = start AND msk"
    by (rule bit_word_eqI) (auto simp: last bit_simps)
  have "ip AND last_address start msk = ip"
    using bits by (intro bit_word_eqI) (auto simp: last bit_simps)
  then show "ip \<le> last_address start msk" by (rule word_le_bits)
qed

section \<open>Witnesses\<close>

definition sample_site_node :: "string \<Rightarrow> labels option \<Rightarrow> site_node" where
  "sample_site_node name ls = \<lparr>no_Name = name, no_ResourceVersion = ''1'', no_DeletionTimestamp = None, no_Labels = ls, no_Annotations = None, no_Taints = None,
     no_Conditions = [(''Ready'', ''True'')]\<rparr>"

definition sample_site :: "site_node list \<Rightarrow> kins_env" where
  "sample_site ns = \<lparr>node_cache = ns, unit_cache = [], group_cache = [], node_Get_error = (\<lambda>_. None), unit_Get_error = (\<lambda>_. None), group_Get_error = (\<lambda>_. None),
     node_List_error = None, unit_List_error = None, LabelSelectorAsSelector = (\<lambda>s. Inr (\<lambda>ls. list_all (\<lambda>(k, v). nget ls k = Some v) (label_entries (sl_MatchLabels s)))),
     NewRequirement_error = (\<lambda>_. None), sha1_hex = id, pv_Get = (\<lambda>_. Inr None), namespace_Get = (\<lambda>_. None), secret_Get = (\<lambda>_. Inl NotFoundErr),
     configmap_Get = (\<lambda>_. None), pv_List = (\<lambda>_. Inr []), pvc_List = (\<lambda>_. Inr []), rand_String = (\<lambda>_. ''r''), kins_ParseCIDR = (\<lambda>_. Inl ''error''), time_Now = 0\<rparr>"

definition sample_unit :: "string list \<Rightarrow> site_selector option \<Rightarrow> site_taint list option \<Rightarrow> string \<Rightarrow> string list \<Rightarrow> NodeUnit" where
  "sample_unit nodes sel ts level ready = \<lparr>nu_Name = ''u'', nu_Labels = None, nu_Annotations = None, nu_ResourceVersion = ''1'', nu_Finalizers = [], nu_DeletionTimestamp = None,
     nu_Type = ''edge'', nu_Nodes = nodes, nu_Selector = sel,
     nu_SetNode = \<lparr>se_Labels = Some [(''u'', NodeUnitSuperedge)], se_Annotations = None, se_Taints = ts\<rparr>, nu_AutonomyLevel = level, nu_CredentialRef = None,
     nu_ClusterInfo = None, nu_Status = \<lparr>ReadyRate = Itoa (int (length ready)) @ ''/'' @ Itoa (int (length ready)), ReadyNodes = ready, NotReadyNodes = [],
       UnitCluster = \<lparr>uc_Phase = ''Running'', uc_Conditions = [], uc_Others = ''''\<rparr>\<rparr>\<rparr>"

theorem servers_sufficient_witness:
  "case labelServerNode (sample_site (map (\<lambda>n. sample_site_node n None) [''a'', ''b'', ''c''])) (\<lambda>_. None)
     (sample_unit [''a'', ''b'', ''c''] None None ''L5'' [''a'', ''b'', ''c'']) of
     (Inr servers, cs) \<Rightarrow> 3 \<le> length servers \<and> distinct servers | _ \<Rightarrow> False"
proof -
  let ?env = "sample_site (map (\<lambda>n. sample_site_node n None) [''a'', ''b'', ''c''])" and ?nu = "sample_unit [''a'', ''b'', ''c''] None None ''L5'' [''a'', ''b'', ''c'']"
  have run: "labelServerNode ?env (\<lambda>_. None) ?nu = (Inr [''a'', ''b'', ''c''], map server_label [''a'', ''b'', ''c''])" by code_simp
  then show ?thesis using servers_sufficient [OF _ _ _ run] by (simp add: sample_site_def sample_site_node_def sample_unit_def)
qed

end
