(* ===== verification/SiteUnit.thy ===== *)
theory SiteUnit
  imports SiteKins WorkQueue
begin

text \<open>
  The controller of node units (\<open>src/pkg/site-manager/controller/node_unit.go\<close>, \<open>deleter/unit_deleter.go\<close>): which units an event puts into the
  queue, and the synchronisation of a unit, which labels the nodes that the unit selects, clears the ones that have left and reports the status.
\<close>

section \<open>Events\<close>

definition units_enqueued :: "'a site_env_scheme \<Rightarrow> site_node \<Rightarrow> string list" where
  "units_enqueued env node = (case GetUnitsByNode env node of Inl err \<Rightarrow> [] | Inr (_, unitList) \<Rightarrow> unitList)"

definition unit_deleteNode :: "'a site_env_scheme \<Rightarrow> site_node deleted \<Rightarrow> string list" where
  "unit_deleteNode env obj = (case deleted_object obj of None \<Rightarrow> [] | Some node \<Rightarrow> units_enqueued env node)"

definition unit_addNode :: "'a site_env_scheme \<Rightarrow> site_node \<Rightarrow> string list" where
  "unit_addNode env node = (if no_DeletionTimestamp node \<noteq> None then unit_deleteNode env (Deleted node) else units_enqueued env node)"

definition unit_updateNode :: "'a site_env_scheme \<Rightarrow> site_node \<Rightarrow> site_node \<Rightarrow> string list" where
  "unit_updateNode env oldNode newNode =
     (if no_ResourceVersion oldNode = no_ResourceVersion newNode then []
      else
        let oldUnitLabel = filter (\<lambda>(k, v). v = NodeUnitSuperedge) (label_entries (no_Labels oldNode));
            newUnitLabel = filter (\<lambda>(k, v). v = NodeUnitSuperedge) (label_entries (no_Labels newNode))
        in if \<not> map_DeepEqual (Some oldUnitLabel) (Some newUnitLabel) then
             (case GetUnitsByNode env oldNode of Inl err \<Rightarrow> [] | Inr (_, unitList) \<Rightarrow> unitList @ units_enqueued env newNode)
           else units_enqueued env newNode)"

definition addNodeUnit :: "NodeUnit \<Rightarrow> string list" where
  "addNodeUnit nu = [nu_Name nu]"

definition deleteNodeUnit :: "NodeUnit deleted \<Rightarrow> string list" where
  "deleteNodeUnit obj = (case deleted_object obj of None \<Rightarrow> [] | Some nu \<Rightarrow> [nu_Name nu])"

text \<open>What the old unit set and the new one does not: the deleter takes it off the nodes.\<close>

definition need_clear :: "NodeUnit \<Rightarrow> NodeUnit \<Rightarrow> NodeUnit" where
  "need_clear oldNu newNu =
     (let s = nu_SetNode oldNu; s' = nu_SetNode newNu in
      oldNu\<lparr>nu_SetNode := \<lparr>
        se_Labels = Some (filter (\<lambda>(k, v). nget (se_Labels s') k = None) (label_entries (se_Labels s))),
        se_Annotations = Some (filter (\<lambda>(k, v). nget (se_Annotations s') k = None) (label_entries (se_Annotations s))),
        se_Taints = Some (filter (\<lambda>t. \<not> TaintInSlices (opt_list (se_Taints s')) t) (opt_list (se_Taints s)))\<rparr>\<rparr>)"

text \<open>The unit for the deleter and the name for the queue.\<close>

definition updateNodeUnit :: "NodeUnit \<Rightarrow> NodeUnit \<Rightarrow> NodeUnit \<times> string list" where
  "updateNodeUnit oldNu newNu = (need_clear oldNu newNu, [nu_Name newNu])"

section \<open>The deleter\<close>

definition deleter_sync :: "'a site_env_scheme \<Rightarrow> site_api \<Rightarrow> NodeUnit \<Rightarrow> site_result" where
  "deleter_sync env api nu =
     (case GetNodesByUnit env nu of Inl err \<Rightarrow> site_fail (SiteErr err) | Inr nodeMap \<Rightarrow> DeleteNodesFromSetNode env api nu nodeMap)"

text \<open>\<open>Delete\<close> only adds the unit to the queue of the deleter; it always succeeds.\<close>

definition deleter_Delete :: "NodeUnit \<Rightarrow> site_result" where
  "deleter_Delete nu = (None, [DeleterAdd nu])"

section \<open>Reconciliation\<close>

definition error_text :: "site_error \<Rightarrow> string" where
  "error_text e = (case e of NotFoundErr \<Rightarrow> ''not found'' | SiteErr s \<Rightarrow> s)"

definition current_nodes :: "'a site_env_scheme \<Rightarrow> NodeUnit \<Rightarrow> (string, site_node) gomap" where
  "current_nodes env nu = fold (\<lambda>n. mput (no_Name n) n) (list_nodes env (has_value (nu_Name nu) NodeUnitSuperedge)) []"

definition gc_nodes :: "'a site_env_scheme \<Rightarrow> NodeUnit \<Rightarrow> (string, site_node) gomap \<Rightarrow> (string, site_node) gomap" where
  "gc_nodes env nu nodeMap = filter (\<lambda>(name, _). mget nodeMap name = None) (current_nodes env nu)"

definition default_label :: "NodeUnit \<Rightarrow> NodeUnit" where
  "default_label nu = nu\<lparr>nu_SetNode := (nu_SetNode nu)\<lparr>se_Labels := Some (mput (nu_Name nu) NodeUnitSuperedge (label_entries (se_Labels (nu_SetNode nu))))\<rparr>\<rparr>"

definition cluster_failed :: "int \<Rightarrow> site_error \<Rightarrow> UnitClusterStatus \<Rightarrow> UnitClusterStatus" where
  "cluster_failed t e s = s\<lparr>uc_Phase := ''Failed'',
     uc_Conditions := [\<lparr>cc_Type = ''Init'', cc_Status = ''False'', cc_LastProbeTime = t, cc_Message = error_text e\<rparr>]\<rparr>"

text \<open>
  The unit cluster and the status. When the cluster status is that of the unit itself, marking it as failed changes the unit before it is compared
  with the new status.
\<close>

definition cluster_and_status :: "'a kins_env_scheme \<Rightarrow> site_api \<Rightarrow> NodeUnit \<Rightarrow> (string, site_node) gomap \<Rightarrow> site_result \<times> NodeUnit" where
  "cluster_and_status env api nu nodeMap =
     (let (ucerr, cs) = ReconcileUnitCluster env api nu;
          (ucStatus, aliased) = UpdateUnitClusterStatus nu;
          ucStatus' = (case ucerr of None \<Rightarrow> ucStatus | Some e \<Rightarrow> cluster_failed (time_Now env) e ucStatus);
          nu1 = (if aliased then nu\<lparr>nu_Status := (nu_Status nu)\<lparr>UnitCluster := ucStatus'\<rparr>\<rparr> else nu);
          newStatus = (CaculateNodeUnitStatus nodeMap)\<lparr>UnitCluster := ucStatus'\<rparr>
      in if newStatus \<noteq> nu_Status nu1
         then (site_then (None, cs) (api_call api (UpdateUnitStatus (nu1\<lparr>nu_Status := newStatus\<rparr>))), nu1\<lparr>nu_Status := newStatus\<rparr>)
         else ((None, cs), nu1))"

text \<open>The result and the unit as it is left behind.\<close>

definition reconcileNodeUnit :: "'a kins_env_scheme \<Rightarrow> site_api \<Rightarrow> NodeUnit \<Rightarrow> site_result \<times> NodeUnit" where
  "reconcileNodeUnit env api nu =
     (case GetNodesByUnit env nu of
        Inl err \<Rightarrow> (site_fail (SiteErr err), nu)
      | Inr nodeMap \<Rightarrow>
     (case NewRequirement_error env (nu_Name nu) of
        Some err \<Rightarrow> (site_fail (SiteErr err), nu)
      | None \<Rightarrow>
          let gc = DeleteNodesFromSetNode env api nu (gc_nodes env nu nodeMap) in
          if nget (se_Labels (nu_SetNode nu)) (nu_Name nu) \<noteq> Some NodeUnitSuperedge then
            (site_then gc (api_call api (UpdateUnit (default_label nu))), default_label nu)
          else
            let (r, nu1) = cluster_and_status env api nu nodeMap in
            (site_then gc (site_then (SetNodeToNodes api nu nodeMap) r), nu1)))"

section \<open>Synchronisation\<close>

definition NodeUnitFinalizerID :: string where "NodeUnitFinalizerID = ''site.superedge.io/nodeunit''"

definition remove_finalizer :: "string \<Rightarrow> string list \<Rightarrow> string list" where
  "remove_finalizer f = filter (\<lambda>x. x \<noteq> f)"

definition sync_deleted_unit :: "'a kins_env_scheme \<Rightarrow> site_api \<Rightarrow> NodeUnit \<Rightarrow> site_result" where
  "sync_deleted_unit env api nu =
     (if nu_AutonomyLevel nu \<noteq> ''L3'' then
        (None, [RecordEvent (''The nodeunit whose autonomyLevel is '' @ nu_AutonomyLevel nu @ '' is not allowed to be deleted'')
                 ''Before deleting, please adjust the autonomyLevel of nodeunit to L3''])
      else let (r, nu1) = reconcileNodeUnit env api nu in
        site_then r
          (site_then (deleter_Delete nu1)
            (api_call api (UpdateUnit (nu1\<lparr>nu_Finalizers := remove_finalizer NodeUnitFinalizerID (nu_Finalizers nu1)\<rparr>)))))"

definition sync_unit :: "'a kins_env_scheme \<Rightarrow> site_api \<Rightarrow> NodeUnit \<Rightarrow> site_result" where
  "sync_unit env api nu =
     (if nu_DeletionTimestamp nu = None then
        if NodeUnitFinalizerID \<notin> set (nu_Finalizers nu) then
          let nu1 = nu\<lparr>nu_Finalizers := nu_Finalizers nu @ [NodeUnitFinalizerID]\<rparr> in
          site_then (api_call api (UpdateUnit nu1)) (fst (reconcileNodeUnit env api nu1))
        else fst (reconcileNodeUnit env api nu)
      else if NodeUnitFinalizerID \<in> set (nu_Finalizers nu) then sync_deleted_unit env api nu
      else site_ok)"

definition syncUnit :: "'a kins_env_scheme \<Rightarrow> site_api \<Rightarrow> string \<Rightarrow> site_result" where
  "syncUnit env api key =
     (case unit_Get_error env key of
        Some err \<Rightarrow> site_fail (SiteErr err)
      | None \<Rightarrow>
          (case find (\<lambda>u. nu_Name u = key) (unit_cache env) of
             None \<Rightarrow> site_ok
           | Some n \<Rightarrow> sync_unit env api n))"

text \<open>The worker: the state is the list of the calls made so far.\<close>

definition unit_processNextWorkItem :: "'q queue_ops \<Rightarrow> 'a kins_env_scheme \<Rightarrow> site_api \<Rightarrow> 'q \<Rightarrow> site_call list \<Rightarrow> (bool \<times> 'q \<times> site_call list) go" where
  "unit_processNextWorkItem ops env api =
     processNextWorkItem ops (\<lambda>key cs. let (err, cs') = syncUnit env api key in Ret (case err of None \<Rightarrow> [] | Some e \<Rightarrow> [e], cs @ cs'))"

section \<open>The label of the unit\<close>

lemma current_nodes_get:
  assumes "distinct (map no_Name (node_cache env))" "node_List_error env = None" "node \<in> set (node_cache env)"
  shows "mget (current_nodes env nu) (no_Name node) = (if has_value (nu_Name nu) NodeUnitSuperedge (no_Labels node) then Some node else None)"
  using nodes.fold_put_get [OF distinct_map_filter [OF assms(1)]] nodes.find_filter [OF assms(1,3)] assms(2)
  by (simp add: current_nodes_def list_nodes_def)

lemma gc_nodes_get:
  assumes "distinct (map no_Name (node_cache env))" "node_List_error env = None" "GetNodesByUnit env nu = Inr nodeMap"
  shows "nodes.named_map (gc_nodes env nu nodeMap)" and "node \<in> set (node_cache env) \<Longrightarrow> mget (gc_nodes env nu nodeMap) (no_Name node) =
     (if has_value (nu_Name nu) NodeUnitSuperedge (no_Labels node) \<and> \<not> unit_selects env nu node then Some node else None)"
proof -
  have named: "nodes.named_map (current_nodes env nu)" by (simp add: current_nodes_def nodes.fold_put_named)
  then show "nodes.named_map (gc_nodes env nu nodeMap)" by (simp add: gc_nodes_def nodes.named_map_filter)
  assume node: "node \<in> set (node_cache env)"
  show "mget (gc_nodes env nu nodeMap) (no_Name node) =
     (if has_value (nu_Name nu) NodeUnitSuperedge (no_Labels node) \<and> \<not> unit_selects env nu node then Some node else None)"
    using GetNodesByUnit_selects(2) [OF assms node] current_nodes_get [OF assms(1,2) node]
    by (simp add: gc_nodes_def map_of_filter_key [of "\<lambda>k. mget nodeMap k = None"])
qed

lemma cluster_and_status_calls: "list_all role_call (snd (fst (cluster_and_status env api nu nodeMap)))"
  using ReconcileUnitCluster_calls [of env api nu]
  by (auto simp: cluster_and_status_def Let_def calls_only_def site_then_def api_call_def split: prod.splits)

lemma NodeUnitSuperedge_not_empty [simp]: "NodeUnitSuperedge \<noteq> ''''"
  by (simp add: NodeUnitSuperedge_def)

text \<open>The case in which the label of the unit is in its specification.\<close>

lemma unit_label_settled:
  assumes "distinct (map no_Name (node_cache env))" "node_List_error env = None" "node \<in> set (node_cache env)"
    and "nu_Nodes nu \<noteq> []" "mwf (label_entries (se_Labels (nu_SetNode nu)))" "nget (se_Labels (nu_SetNode nu)) (nu_Name nu) = Some NodeUnitSuperedge"
    and "nu_Name nu \<noteq> KinsRoleLabelKey" "fst (fst (reconcileNodeUnit env api nu)) = None"
  shows "has_value (nu_Name nu) NodeUnitSuperedge (no_Labels (node_calls (snd (fst (reconcileNodeUnit env api nu))) node)) \<longleftrightarrow> unit_selects env nu node"
proof -
  obtain nodeMap where nodeMap: "GetNodesByUnit env nu = Inr nodeMap"
    using assms(8) by (auto simp: reconcileNodeUnit_def site_fail_def split: sum.splits)
  obtain r nu1 where r: "cluster_and_status env api nu nodeMap = (r, nu1)" by fastforce
  let ?gc = "DeleteNodesFromSetNode env api nu (gc_nodes env nu nodeMap)"
  let ?set = "SetNodeToNodes api nu nodeMap"
  have result: "fst (reconcileNodeUnit env api nu) = site_then ?gc (site_then ?set r)" and ok: "fst ?gc = None" "fst ?set = None" "fst r = None"
    using assms(6,8) by (auto simp: reconcileNodeUnit_def nodeMap r site_fail_def site_then_ok Let_def split: option.splits)
  then have calls: "snd (fst (reconcileNodeUnit env api nu)) = snd ?gc @ snd ?set @ snd r" by (simp add: site_then_calls)
  note selects = GetNodesByUnit_selects [OF assms(1,2) nodeMap]
  note gc = gc_nodes_get [OF assms(1,2) nodeMap]
  define n1 where "n1 = node_calls (snd ?gc) node"
  have n1: "n1 = (if has_value (nu_Name nu) NodeUnitSuperedge (no_Labels node) \<and> \<not> unit_selects env nu node then node_cleared nu node else node)"
    using DeleteNodesFromSetNode_effect [OF ok(1) gc(1) assms(4), of node] gc(2) [OF assms(3)] by (simp add: n1_def)
  have "list_all role_call (snd r)" using cluster_and_status_calls [of env api nu nodeMap] by (simp add: r)
  then have last: "nget (no_Labels (node_calls (snd r) n)) (nu_Name nu) = nget (no_Labels n) (nu_Name nu)" for n
    using assms(7) by (rule role_calls_label)
  show ?thesis
  proof (cases "unit_selects env nu node")
    case True
    then have "n1 = node" "mget nodeMap (no_Name node) = Some node" using n1 selects(2) [OF assms(3)] by simp_all
    then have "nget (no_Labels (node_calls (snd ?set) n1)) (nu_Name nu) = Some NodeUnitSuperedge"
      using SetNodeToNodes_label [OF ok(2) selects(1) assms(5,6)] by simp
    then show ?thesis using True by (simp add: calls last has_value_def n1_def)
  next
    case False
    have "no_Name n1 = no_Name node" by (simp add: n1_def nodes.effects_name)
    then have "node_calls (snd ?set) n1 = n1"
      using SetNodeToNodes_other [OF selects(1), of n1] selects(2) [OF assms(3)] False by simp
    moreover have "nget (no_Labels n1) (nu_Name nu) \<noteq> Some NodeUnitSuperedge"
      using n1 False node_cleared_label [of nu "nu_Name nu" node] assms(6) by (auto simp: has_value_def split: if_splits)
    ultimately show ?thesis using False by (simp add: calls last has_value_def n1_def [symmetric])
  qed
qed

text \<open>
  C12: a unit that names nodes converges. When its default label is in the labels of its specification, one reconciliation that succeeds
  makes the nodes that the unit selects, by name or by its selector, and only those, carry the label of the unit: nodes that were added get it and
  nodes that have left lose it. Otherwise, as for a new unit, a reconciliation that succeeds leaves the selected nodes as they are and
  writes the unit with the default label, so that the next one is in the first case.
\<close>

theorem unit_label_follows_selection:
  assumes "distinct (map no_Name (node_cache env))" "node_List_error env = None" "node \<in> set (node_cache env)"
    and "nu_Nodes nu \<noteq> []" "mwf (label_entries (se_Labels (nu_SetNode nu)))"
    and "nu_Name nu \<noteq> KinsRoleLabelKey" "fst (fst (reconcileNodeUnit env api nu)) = None"
  shows "if nget (se_Labels (nu_SetNode nu)) (nu_Name nu) = Some NodeUnitSuperedge
    then has_value (nu_Name nu) NodeUnitSuperedge (no_Labels (node_calls (snd (fst (reconcileNodeUnit env api nu))) node)) \<longleftrightarrow> unit_selects env nu node
    else (unit_selects env nu node \<longrightarrow> node_calls (snd (fst (reconcileNodeUnit env api nu))) node = node) \<and>
      last (snd (fst (reconcileNodeUnit env api nu))) = UpdateUnit (default_label nu) \<and>
      nget (se_Labels (nu_SetNode (default_label nu))) (nu_Name (default_label nu)) = Some NodeUnitSuperedge"
proof (cases "nget (se_Labels (nu_SetNode nu)) (nu_Name nu) = Some NodeUnitSuperedge")
  case True
  then show ?thesis using unit_label_settled [OF assms(1-5) True assms(6,7)] by simp
next
  case False
  obtain nodeMap where nodeMap: "GetNodesByUnit env nu = Inr nodeMap"
    using assms(7) by (auto simp: reconcileNodeUnit_def site_fail_def split: sum.splits)
  let ?gc = "DeleteNodesFromSetNode env api nu (gc_nodes env nu nodeMap)" and ?call = "UpdateUnit (default_label nu)"
  have "fst (reconcileNodeUnit env api nu) = site_then ?gc (api_call api ?call)" and ok: "fst ?gc = None"
    using assms(7) False by (auto simp: reconcileNodeUnit_def nodeMap site_fail_def site_then_ok Let_def split: option.splits)
  then have calls: "snd (fst (reconcileNodeUnit env api nu)) = snd ?gc @ [?call]" by (simp add: site_then_calls api_call_def)
  note gc = gc_nodes_get [OF assms(1,2) nodeMap]
  have "unit_selects env nu node \<Longrightarrow> node_calls (snd ?gc) node = node"
    using DeleteNodesFromSetNode_effect [OF ok gc(1) assms(4), of node] gc(2) [OF assms(3)] by simp
  then show ?thesis using False by (simp add: calls default_label_def mget_mput)
qed

section \<open>What is left behind\<close>

text \<open>
  C21: a unit that selects its nodes by labels only never lets a node go. A node that has the label of such a unit and is no longer selected
  keeps it through every reconciliation, whether it succeeds or not, and the deleter does nothing for the unit, so its nodes keep its labels also
  when it is deleted.
\<close>

theorem selector_unit_never_clears:
  assumes "distinct (map no_Name (node_cache env))" "node_List_error env = None" "node \<in> set (node_cache env)"
    and "nu_Nodes nu = []" "nu_Name nu \<noteq> KinsRoleLabelKey" "\<not> unit_selects env nu node"
  shows "nget (no_Labels (node_calls (snd (fst (reconcileNodeUnit env api nu))) node)) (nu_Name nu) = nget (no_Labels node) (nu_Name nu) \<and>
    snd (deleter_sync env api nu) = []"
proof
  show "snd (deleter_sync env api nu) = []"
    using assms(4) by (auto simp: deleter_sync_def DeleteNodesFromSetNode_def site_fail_def split: sum.splits)
  have gc: "DeleteNodesFromSetNode env api nu m = (None, [])" for m using assms(4) by (simp add: DeleteNodesFromSetNode_def)
  show "nget (no_Labels (node_calls (snd (fst (reconcileNodeUnit env api nu))) node)) (nu_Name nu) = nget (no_Labels node) (nu_Name nu)"
  proof (cases "GetNodesByUnit env nu")
    case (Inr nodeMap)
    note selects = GetNodesByUnit_selects [OF assms(1,2) Inr]
    obtain r nu1 where r: "cluster_and_status env api nu nodeMap = (r, nu1)" by fastforce
    have role: "list_all role_call (snd r)" using cluster_and_status_calls [of env api nu nodeMap] by (simp add: r)
    have set: "node_calls (snd (SetNodeToNodes api nu nodeMap)) node = node"
      using SetNodeToNodes_other [OF selects(1)] selects(2) [OF assms(3)] assms(6) by simp
    then show ?thesis
      using role_calls_label [OF role assms(5)]
      by (auto simp: reconcileNodeUnit_def Inr r gc site_fail_def site_then_def Let_def split: option.splits)
  qed (simp add: reconcileNodeUnit_def site_fail_def)
qed

text \<open>
  A label of a unit that is gone, which such a node keeps, hides the node from the controller: its events put no unit into the queue, not even those
  that exist.
\<close>

lemma get_all_error: "x \<in> set xs \<Longrightarrow> g x = Inl err \<Longrightarrow> \<exists>e. get_all g xs = Inl e"
  by (induction xs) (auto split: sum.splits)

lemma stale_label_hides_node:
  assumes "has_value u NodeUnitSuperedge (no_Labels node)" "u \<notin> nu_Name ` set (unit_cache env)"
  shows "unit_addNode env node = []"
proof -
  have "u \<in> set (units_of_labels (no_Labels node))"
    using assms(1) by (cases "no_Labels node") (force simp: has_value_def units_of_labels_def dest: map_of_SomeD)+
  moreover have "\<exists>err. unit_Get env u = Inl err"
  proof -
    have "find (\<lambda>n. nu_Name n = u) (unit_cache env) = None" using assms(2) by (auto simp: find_None_iff image_iff)
    then show ?thesis by (cases "unit_Get_error env u") (auto simp: unit_Get_def)
  qed
  ultimately obtain e where "get_all (unit_Get env) (units_of_labels (no_Labels node)) = Inl e" using get_all_error by metis
  then show ?thesis by (simp add: unit_addNode_def unit_deleteNode_def units_enqueued_def GetUnitsByNode_def Let_def)
qed

section \<open>Errors of the unit cluster\<close>

fun not_status_call :: "site_call \<Rightarrow> bool" where
  "not_status_call (UpdateUnitStatus u) \<longleftrightarrow> False"
| "not_status_call _ \<longleftrightarrow> True"

lemma SetNodeToNodes_no_status: "calls_only not_status_call (SetNodeToNodes api nu m)"
  unfolding SetNodeToNodes_def by (rule calls_only_for) (auto intro!: calls_only_rules split: prod.splits)

lemma DeleteNodesFromSetNode_no_status: "calls_only not_status_call (DeleteNodesFromSetNode env api nu m)"
proof -
  have "calls_only not_status_call (delete_volume env api nu n)" for n
    by (auto simp: delete_volume_def intro!: calls_only_rules split: sum.splits option.splits)
  then show ?thesis
    unfolding DeleteNodesFromSetNode_def by (auto intro!: calls_only_rules split: prod.splits)
qed

lemma recoverNodeUnit_no_status: "calls_only not_status_call (recoverNodeUnit env api nu)"
proof -
  have "calls_only not_status_call (unlabel_server env api name)" for name
    by (auto simp: unlabel_server_def intro!: calls_only_rules split: sum.splits)
  then show ?thesis unfolding recoverNodeUnit_def Let_def by (auto intro!: calls_only_rules)
qed

text \<open>
  A failed removal of the unit cluster goes unnoticed. For a unit of level L3 whose lists of nodes in the status are up to date, the
  reconciliation reports success and writes no status when the removal of the cluster fails: the failure is marked in the unit that the new status is
  compared with, so the two are equal. Nothing is retried.
\<close>

theorem L3_failure_unreported:
  assumes "nu_AutonomyLevel nu = ''L3''" "nget (se_Labels (nu_SetNode nu)) (nu_Name nu) = Some NodeUnitSuperedge"
    and "GetNodesByUnit env nu = Inr nodeMap" "NewRequirement_error env (nu_Name nu) = None"
    and "(nu_Status nu)\<lparr>UnitCluster := u\<rparr> = (CaculateNodeUnitStatus nodeMap)\<lparr>UnitCluster := u\<rparr>"
    and "fst (DeleteNodesFromSetNode env api nu (gc_nodes env nu nodeMap)) = None" "fst (SetNodeToNodes api nu nodeMap) = None"
    and "fst (recoverNodeUnit env api nu) = Some e"
  shows "fst (fst (reconcileNodeUnit env api nu)) = None \<and> UpdateUnitStatus nu' \<notin> set (snd (fst (reconcileNodeUnit env api nu)))"
proof -
  obtain cs where cs: "recoverNodeUnit env api nu = (Some e, cs)" using assms(8) by (cases "recoverNodeUnit env api nu") simp
  have eq: "(nu_Status nu)\<lparr>UnitCluster := v\<rparr> = (CaculateNodeUnitStatus nodeMap)\<lparr>UnitCluster := v\<rparr>" for v
    using arg_cong [OF assms(5), of "\<lambda>s. s\<lparr>UnitCluster := v\<rparr>"] by simp
  have status: "fst (cluster_and_status env api nu nodeMap) = (None, cs)"
    using eq by (simp add: cluster_and_status_def ReconcileUnitCluster_def UpdateUnitClusterStatus_def assms(1) cs)
  then have r: "fst (reconcileNodeUnit env api nu) =
      site_then (DeleteNodesFromSetNode env api nu (gc_nodes env nu nodeMap)) (site_then (SetNodeToNodes api nu nodeMap) (None, cs))"
    by (cases "cluster_and_status env api nu nodeMap") (simp add: reconcileNodeUnit_def assms(2,3,4))
  moreover have "calls_only not_status_call (site_then (DeleteNodesFromSetNode env api nu (gc_nodes env nu nodeMap)) (site_then (SetNodeToNodes api nu nodeMap) (None, cs)))"
    using recoverNodeUnit_no_status [of env api nu]
    by (intro calls_only_rules DeleteNodesFromSetNode_no_status SetNodeToNodes_no_status) (simp add: cs calls_only_def)
  ultimately show ?thesis using assms(6,7) by (auto simp: site_then_ok calls_only_def list_all_iff)
qed

section \<open>Taints\<close>

text \<open>
  A unit of level L3 cannot keep a taint that forbids scheduling. Whatever its key, the removal of the unit cluster drops it from the unit, and
  the event of this change makes the deleter take every taint with that key off the nodes of the unit.
\<close>

theorem recover_drops_user_taints:
  assumes "t \<in> set (opt_list (se_Taints (nu_SetNode nu)))" "ta_Effect t = TaintEffectNoSchedule" "fst (recoverNodeUnit env api nu) = None"
  shows "UpdateUnit (unit_recovered nu) \<in> set (snd (recoverNodeUnit env api nu)) \<and> t \<notin> set (opt_list (se_Taints (nu_SetNode (unit_recovered nu)))) \<and>
    ta_Key t \<notin> ta_Key ` set (opt_list (no_Taints (node_cleared (fst (updateNodeUnit nu (unit_recovered nu))) node)))"
proof (intro conjI)
  let ?ts = "taints_recovered (se_Taints (nu_SetNode nu))"
  have gone: "t' \<notin> set (opt_list ?ts)" if "ta_Effect t' = TaintEffectNoSchedule" for t'
    using that by (auto simp: taints_recovered_def opt_list_def Let_def split: if_splits)
  then show "t \<notin> set (opt_list (se_Taints (nu_SetNode (unit_recovered nu))))" using assms(2) by (simp add: unit_recovered_def)
  have "?ts \<noteq> se_Taints (nu_SetNode nu)" using gone [OF assms(2)] assms(1) by auto
  then show "UpdateUnit (unit_recovered nu) \<in> set (snd (recoverNodeUnit env api nu))"
    using assms(3) unfolding recoverNodeUnit_def Let_def by (simp add: site_then_ok site_then_calls)
  have rest: "\<not> TaintInSlices (opt_list ?ts) t" using gone assms(2) by (auto simp: TaintInSlices_def list_ex_iff)
  show "ta_Key t \<notin> ta_Key ` set (opt_list (no_Taints (node_cleared (fst (updateNodeUnit nu (unit_recovered nu))) node)))"
  proof -
    have "t \<in> set (filter (\<lambda>t. \<not> TaintInSlices (opt_list ?ts) t) (opt_list (se_Taints (nu_SetNode nu))))"
      using assms(1) rest by simp
    then show ?thesis
      by (auto simp: node_cleared_def updateNodeUnit_def need_clear_def unit_recovered_def deleteTaintItems_def Let_def opt_list_def [of "Some _"] image_iff)
  qed
qed

section \<open>Witnesses\<close>

theorem unit_label_follows_selection_witness:
  "has_value ''u'' NodeUnitSuperedge (no_Labels (node_calls (snd (fst (reconcileNodeUnit (sample_site [sample_site_node ''a'' None, sample_site_node ''b'' (Some [(''u'', NodeUnitSuperedge)])])
     (\<lambda>_. None) (sample_unit [''a''] None None ''L3'' [])))) (sample_site_node ''a'' None)))"
proof -
  let ?env = "sample_site [sample_site_node ''a'' None, sample_site_node ''b'' (Some [(''u'', NodeUnitSuperedge)])]"
  have "fst (fst (reconcileNodeUnit ?env (\<lambda>_. None) (sample_unit [''a''] None None ''L3'' []))) = None" by code_simp
  then show ?thesis
    using unit_label_follows_selection [of ?env "sample_site_node ''a'' None" "sample_unit [''a''] None None ''L3'' []" "\<lambda>_. None"]
    by (simp add: sample_site_def sample_site_node_def sample_unit_def unit_selects_def label_entries_def mwf_def KinsRoleLabelKey_def)
qed

theorem selector_unit_never_clears_witness:
  "has_value ''u'' NodeUnitSuperedge (no_Labels (node_calls (snd (fst (reconcileNodeUnit (sample_site [sample_site_node ''b'' (Some [(''u'', NodeUnitSuperedge)])])
     (\<lambda>_. None) (sample_unit [] (Some \<lparr>sl_MatchLabels = Some [(''zone'', ''z'')], sl_MatchExpressions = []\<rparr>) None ''L3'' []))))
     (sample_site_node ''b'' (Some [(''u'', NodeUnitSuperedge)]))))"
  using selector_unit_never_clears [of "sample_site [sample_site_node ''b'' (Some [(''u'', NodeUnitSuperedge)])]" "sample_site_node ''b'' (Some [(''u'', NodeUnitSuperedge)])"
      "sample_unit [] (Some \<lparr>sl_MatchLabels = Some [(''zone'', ''z'')], sl_MatchExpressions = []\<rparr>) None ''L3'' []" "\<lambda>_. None"]
  by (simp add: sample_site_def sample_site_node_def sample_unit_def unit_selects_def label_entries_def has_value_def KinsRoleLabelKey_def empty_selector_def NodeUnitSuperedge_def)

theorem L3_failure_unreported_witness:
  "fst (fst (reconcileNodeUnit (sample_site [sample_site_node ''a'' None]) (\<lambda>c. case c of DeleteDaemonSets _ \<Rightarrow> Some (SiteErr ''denied'') | _ \<Rightarrow> None)
     (sample_unit [''a''] None None ''L3'' [''a'']))) = None"
proof -
  let ?env = "sample_site [sample_site_node ''a'' None]" and ?api = "\<lambda>c. case c of DeleteDaemonSets _ \<Rightarrow> Some (SiteErr ''denied'') | _ \<Rightarrow> None"
    and ?nu = "sample_unit [''a''] None None ''L3'' [''a'']"
  have map: "GetNodesByUnit ?env ?nu = Inr [(''a'', sample_site_node ''a'' None)]" by code_simp
  have "CaculateNodeUnitStatus [(''a'', sample_site_node ''a'' None)] = (nu_Status ?nu)\<lparr>UnitCluster := \<lparr>uc_Phase = '''', uc_Conditions = [], uc_Others = ''''\<rparr>\<rparr>" by code_simp
  moreover have "fst (recoverNodeUnit ?env ?api ?nu) = Some (SiteErr ''denied'')" by code_simp
  moreover have "fst (DeleteNodesFromSetNode ?env ?api ?nu (gc_nodes ?env ?nu [(''a'', sample_site_node ''a'' None)])) = None" by code_simp
  moreover have "fst (SetNodeToNodes ?api ?nu [(''a'', sample_site_node ''a'' None)]) = None" by code_simp
  ultimately show ?thesis
    using L3_failure_unreported [of ?nu ?env "[(''a'', sample_site_node ''a'' None)]" "\<lparr>uc_Phase = '''', uc_Conditions = [], uc_Others = ''''\<rparr>" ?api "SiteErr ''denied''" ?nu] map
    by (simp add: sample_unit_def sample_site_def)
qed

theorem recover_drops_user_taints_witness:
  "UpdateUnit (unit_recovered (sample_unit [''a''] None (Some [\<lparr>ta_Key = ''gpu'', ta_Value = '''', ta_Effect = ''NoSchedule''\<rparr>]) ''L3'' []))
     \<in> set (snd (recoverNodeUnit (sample_site []) (\<lambda>_. None) (sample_unit [''a''] None (Some [\<lparr>ta_Key = ''gpu'', ta_Value = '''', ta_Effect = ''NoSchedule''\<rparr>]) ''L3'' [])))"
proof -
  let ?t = "\<lparr>ta_Key = ''gpu'', ta_Value = '''', ta_Effect = ''NoSchedule''\<rparr>"
  let ?nu = "sample_unit [''a''] None (Some [?t]) ''L3'' []"
  have "fst (recoverNodeUnit (sample_site []) (\<lambda>_. None) ?nu) = None" by code_simp
  then show ?thesis
    using recover_drops_user_taints [of ?t ?nu "sample_site []" "\<lambda>_. None" "sample_site_node ''a'' None"]
    by (simp add: sample_unit_def opt_list_def TaintEffectNoSchedule_def)
qed

end
