(* ===== verification/SiteGroup.thy ===== *)
theory SiteGroup
  imports SiteUnit
begin

text \<open>
  The controller of node groups (\<open>src/pkg/site-manager/controller/node_group.go\<close>, \<open>deleter/group_deleter.go\<close>): a group owns the units that it
  names, that its selector matches or that it has created from the labels of the nodes (\<open>AutoFindNodeKeys\<close>).
\<close>

section \<open>Events\<close>

definition groups_enqueued :: "'a site_env_scheme \<Rightarrow> NodeUnit \<Rightarrow> string list" where
  "groups_enqueued env nu = (case GetGroupsByUnit env nu of Inl err \<Rightarrow> [] | Inr (_, groupList) \<Rightarrow> groupList)"

definition group_deleteNodeUnit :: "'a site_env_scheme \<Rightarrow> NodeUnit deleted \<Rightarrow> string list" where
  "group_deleteNodeUnit env obj = (case deleted_object obj of None \<Rightarrow> [] | Some nu \<Rightarrow> groups_enqueued env nu)"

definition group_addNodeUnit :: "'a site_env_scheme \<Rightarrow> NodeUnit \<Rightarrow> string list" where
  "group_addNodeUnit env nu = (if nu_DeletionTimestamp nu \<noteq> None then group_deleteNodeUnit env (Deleted nu) else groups_enqueued env nu)"

definition group_updateNodeUnit :: "'a site_env_scheme \<Rightarrow> NodeUnit \<Rightarrow> NodeUnit \<Rightarrow> string list" where
  "group_updateNodeUnit env oldNu newNu =
     (if nu_ResourceVersion oldNu = nu_ResourceVersion newNu then []
      else
        let oldGroupLabel = filter (\<lambda>(k, v). v = NodeGroupSuperedge) (label_entries (nu_Labels oldNu));
            newGroupLabel = filter (\<lambda>(k, v). v = NodeGroupSuperedge) (label_entries (nu_Labels newNu))
        in if \<not> map_DeepEqual (Some oldGroupLabel) (Some newGroupLabel) then
             (case GetGroupsByUnit env oldNu of Inl err \<Rightarrow> [] | Inr (_, groupList) \<Rightarrow> groupList @ groups_enqueued env newNu)
           else groups_enqueued env newNu)"

definition addNodeGroup :: "NodeGroup \<Rightarrow> string list" where
  "addNodeGroup ng = [ng_Name ng]"

definition updateNodeGroup :: "NodeGroup \<Rightarrow> NodeGroup \<Rightarrow> string list" where
  "updateNodeGroup oldNg newNg = [ng_Name newNg]"

definition deleteNodeGroup :: "NodeGroup deleted \<Rightarrow> string list" where
  "deleteNodeGroup obj = (case deleted_object obj of None \<Rightarrow> [] | Some ng \<Rightarrow> [ng_Name ng])"

section \<open>Units from the labels of the nodes\<close>

definition withCheckContains :: "string \<Rightarrow> bool" where
  "withCheckContains name \<longleftrightarrow> CHR ''/'' \<in> set name"

definition withCheckSize :: "string \<Rightarrow> bool" where
  "withCheckSize name \<longleftrightarrow> 64 \<le> length name"

definition hashString :: "'a site_env_scheme \<Rightarrow> string \<Rightarrow> string" where
  "hashString env name = sha1_hex env name"

definition filterString :: "'a site_env_scheme \<Rightarrow> string \<Rightarrow> string" where
  "filterString env name = (if withCheckContains name \<or> withCheckSize name then hashString env name else name)"

fun check_keys :: "labels \<Rightarrow> string list \<Rightarrow> string \<Rightarrow> labels \<Rightarrow> bool \<times> string \<times> labels" where
  "check_keys nodelabel [] res sel = (True, res, sel)"
| "check_keys nodelabel (key # keys) res sel =
     (case mget nodelabel key of
        None \<Rightarrow> (False, '''', sel)
      | Some value \<Rightarrow> check_keys nodelabel keys (if res = '''' then value else res @ ''-'' @ value) (mput key value sel))"

definition checkIfContains :: "'a site_env_scheme \<Rightarrow> labels \<Rightarrow> string list \<Rightarrow> bool \<times> string \<times> labels" where
  "checkIfContains env nodelabel keyslices =
     (case check_keys nodelabel (sort keyslices) '''' [] of
        (False, _, sel) \<Rightarrow> (False, '''', sel)
      | (True, res, sel) \<Rightarrow> (True, filterString env res, sel))"

text \<open>What the API server answers to a read of a unit, after the calls that were made.\<close>

record group_env = site_env +
  unit_client_Get :: "site_call list \<Rightarrow> string \<Rightarrow> site_error + NodeUnit"

definition EdgeNodeUnit :: string where "EdgeNodeUnit = ''unit-node-edge''"

definition auto_labels :: "'a site_env_scheme \<Rightarrow> NodeGroup \<Rightarrow> string list \<Rightarrow> labels" where
  "auto_labels env ng keyslices = mput (ng_Name ng) NodeGroupSuperedge [(NodeUnitAutoFindLabel, HashAutoFindKeys env keyslices)]"

definition auto_unit :: "'a site_env_scheme \<Rightarrow> NodeGroup \<Rightarrow> string \<Rightarrow> string list \<Rightarrow> labels \<Rightarrow> NodeUnit" where
  "auto_unit env ng newname keyslices sel =
     \<lparr>nu_Name = newname, nu_Labels = Some (auto_labels env ng keyslices), nu_Annotations = Some sel, nu_ResourceVersion = '''', nu_Finalizers = [],
      nu_DeletionTimestamp = None, nu_Type = EdgeNodeUnit, nu_Nodes = [],
      nu_Selector = Some \<lparr>sl_MatchLabels = Some sel, sl_MatchExpressions = []\<rparr>,
      nu_SetNode = \<lparr>se_Labels = Some (mput newname NodeUnitSuperedge [(ng_Name ng, newname)]), se_Annotations = None, se_Taints = None\<rparr>,
      nu_AutonomyLevel = '''', nu_CredentialRef = None, nu_ClusterInfo = None,
      nu_Status = \<lparr>ReadyRate = '''', ReadyNodes = [], NotReadyNodes = [], UnitCluster = \<lparr>uc_Phase = '''', uc_Conditions = [], uc_Others = ''''\<rparr>\<rparr>\<rparr>"

text \<open>The selector of the unit that exists is read through a pointer: a unit without one panics.\<close>

definition newNodeUnit :: "'a group_env_scheme \<Rightarrow> site_api \<Rightarrow> NodeGroup \<Rightarrow> string \<Rightarrow> string list \<Rightarrow> labels \<Rightarrow> site_call list \<Rightarrow> site_result go" where
  "newNodeUnit env api ng newname keyslices sel cs =
     (case unit_client_Get env cs newname of
        Inl NotFoundErr \<Rightarrow> Ret (api_call api (CreateUnit (auto_unit env ng newname keyslices sel)))
      | Inl (SiteErr e) \<Rightarrow> Ret (site_fail (SiteErr e))
      | Inr currentNu \<Rightarrow>
          (case nu_Selector currentNu of
             None \<Rightarrow> Panic
           | Some s \<Rightarrow>
               if \<not> map_DeepEqual (sl_MatchLabels s) (Some sel) \<or> \<not> map_DeepEqual (nu_Labels currentNu) (Some (auto_labels env ng keyslices)) then
                 Ret (api_call api (UpdateUnit (currentNu\<lparr>nu_Selector := Some (s\<lparr>sl_MatchLabels := Some sel\<rparr>),
                   nu_Labels := Some (auto_labels env ng keyslices)\<rparr>)))
               else Ret site_ok))"

text \<open>The loop over the nodes; the error of \<open>newNodeUnit\<close> is dropped.\<close>

fun auto_find_nodes :: "'a group_env_scheme \<Rightarrow> site_api \<Rightarrow> NodeGroup \<Rightarrow> site_node list \<Rightarrow> site_call list \<Rightarrow> site_call list go" where
  "auto_find_nodes env api ng [] cs = Ret cs"
| "auto_find_nodes env api ng (node # nodes) cs =
     (if length (label_entries (no_Labels node)) = 0 then auto_find_nodes env api ng nodes cs
      else let (match, newUnitName, newUnitSelector) = checkIfContains env (label_entries (no_Labels node)) (ng_AutoFindNodeKeys ng) in
        if match \<and> length newUnitSelector > 0 then
          go_bind (newNodeUnit env api ng newUnitName (ng_AutoFindNodeKeys ng) newUnitSelector cs) (\<lambda>r. auto_find_nodes env api ng nodes (cs @ snd r))
        else auto_find_nodes env api ng nodes cs)"

definition autoFindNodeKeysByNodeGroup :: "'a group_env_scheme \<Rightarrow> site_api \<Rightarrow> NodeGroup \<Rightarrow> site_call list \<Rightarrow> site_result go" where
  "autoFindNodeKeysByNodeGroup env api ng cs =
     (case node_List_error env of
        Some err \<Rightarrow> Ret (Some (SiteErr err), cs)
      | None \<Rightarrow> go_bind (auto_find_nodes env api ng (node_cache env) cs) (\<lambda>cs'. Ret (None, cs')))"

section \<open>Reconciliation\<close>

definition group_update_status :: "'a site_env_scheme \<Rightarrow> site_api \<Rightarrow> NodeGroup \<Rightarrow> (string, NodeUnit) gomap \<Rightarrow> site_result" where
  "group_update_status env api ng unitMap =
     (let newStatus = CaculateNodeGroupStatus (mkeys unitMap) in
      if newStatus \<noteq> ng_Status ng
      then api_call api (UpdateGroupStatus (ng\<lparr>ng_AutoFindNodeKeys := sort (ng_AutoFindNodeKeys ng), ng_Status := newStatus\<rparr>)) else site_ok)"

definition gc_units :: "'a site_env_scheme \<Rightarrow> (labels option \<Rightarrow> bool) \<Rightarrow> (string, NodeUnit) gomap \<Rightarrow> (string, NodeUnit) gomap" where
  "gc_units env sel unitMap = filter (\<lambda>(name, _). mget unitMap name = None) (add_units env sel [])"

definition reconcileNodeGroup :: "'a group_env_scheme \<Rightarrow> site_api \<Rightarrow> NodeGroup \<Rightarrow> site_result go" where
  "reconcileNodeGroup env api ng =
     (case GetUnitByGroup env ng of
        Inl err \<Rightarrow> Ret (site_fail (SiteErr err))
      | Inr unitMap \<Rightarrow>
     (case LabelSelectorAsSelector env \<lparr>sl_MatchLabels = Some [(ng_Name ng, NodeGroupSuperedge)], sl_MatchExpressions = []\<rparr> of
        Inl err \<Rightarrow> Ret (site_fail (SiteErr err))
      | Inr unitSelector \<Rightarrow>
          let r = DeleteNodeUnitFromSetNode api ng (gc_units env unitSelector unitMap) in
          if fst r \<noteq> None then Ret r
          else go_bind (if length (ng_AutoFindNodeKeys ng) > 0 then autoFindNodeKeysByNodeGroup env api ng (snd r) else Ret r)
            (\<lambda>r'. Ret (site_then r' (site_then (SetNodeToNodeUnits api ng unitMap) (group_update_status env api ng unitMap))))))"

definition group_Delete :: "'a site_env_scheme \<Rightarrow> site_api \<Rightarrow> NodeGroup \<Rightarrow> site_result" where
  "group_Delete env api ng =
     (case GetUnitByGroup env ng of Inl err \<Rightarrow> site_fail (SiteErr err) | Inr unitMap \<Rightarrow> DeleteNodeUnitFromSetNode api ng unitMap)"

definition NodeGroupFinalizerID :: string where "NodeGroupFinalizerID = ''site.superedge.io/finalizer''"

definition go_site_then :: "site_result \<Rightarrow> site_result go \<Rightarrow> site_result go" where
  "go_site_then r r' = (if fst r \<noteq> None then Ret r else go_bind r' (\<lambda>x. Ret (site_then r x)))"

definition sync_group :: "'a group_env_scheme \<Rightarrow> site_api \<Rightarrow> NodeGroup \<Rightarrow> site_result go" where
  "sync_group env api ng =
     (if ng_DeletionTimestamp ng = None then
        if NodeGroupFinalizerID \<notin> set (ng_Finalizers ng) then
          let ng1 = ng\<lparr>ng_Finalizers := ng_Finalizers ng @ [NodeGroupFinalizerID]\<rparr> in
          go_site_then (api_call api (UpdateGroup ng1)) (reconcileNodeGroup env api ng1)
        else reconcileNodeGroup env api ng
      else if NodeGroupFinalizerID \<in> set (ng_Finalizers ng) then
        Ret (site_then (group_Delete env api ng)
          (api_call api (UpdateGroup (ng\<lparr>ng_AutoFindNodeKeys := sort (ng_AutoFindNodeKeys ng), ng_Finalizers := remove_finalizer NodeGroupFinalizerID (ng_Finalizers ng)\<rparr>))))
      else Ret site_ok)"

definition syncGroup :: "'a group_env_scheme \<Rightarrow> site_api \<Rightarrow> string \<Rightarrow> site_result go" where
  "syncGroup env api key =
     (case group_Get_error env key of
        Some err \<Rightarrow> Ret (site_fail (SiteErr err))
      | None \<Rightarrow> (case find (\<lambda>g. ng_Name g = key) (group_cache env) of None \<Rightarrow> Ret site_ok | Some n \<Rightarrow> sync_group env api n))"

definition group_processNextWorkItem :: "'q queue_ops \<Rightarrow> 'a group_env_scheme \<Rightarrow> site_api \<Rightarrow> 'q \<Rightarrow> site_call list \<Rightarrow> (bool \<times> 'q \<times> site_call list) go" where
  "group_processNextWorkItem ops env api =
     processNextWorkItem ops (\<lambda>key cs. go_bind (syncGroup env api key) (\<lambda>(err, cs'). Ret (case err of None \<Rightarrow> [] | Some e \<Rightarrow> [e], cs @ cs')))"

section \<open>The owner of a unit\<close>

definition selector_matches :: "'a site_env_scheme \<Rightarrow> site_selector \<Rightarrow> labels option \<Rightarrow> bool" where
  "selector_matches env sel ls \<longleftrightarrow> (case LabelSelectorAsSelector env sel of Inl err \<Rightarrow> False | Inr matches \<Rightarrow> matches ls)"

definition group_selects :: "'a site_env_scheme \<Rightarrow> NodeGroup \<Rightarrow> NodeUnit \<Rightarrow> bool" where
  "group_selects env ng nu \<longleftrightarrow> nu_Name nu \<in> set (ng_NodeUnits ng) \<or>
     (case ng_Selector ng of None \<Rightarrow> False | Some sel \<Rightarrow> selector_matches env sel (nu_Labels nu))"

lemma GetUnitByGroup_selects:
  assumes "distinct (map nu_Name (unit_cache env))" "unit_List_error env = None" "ng_AutoFindNodeKeys ng = []" "GetUnitByGroup env ng = Inr unitMap"
  shows "units.named_map unitMap" and "nu \<in> set (unit_cache env) \<Longrightarrow> mget unitMap (nu_Name nu) = (if group_selects env ng nu then Some nu else None)"
proof -
  obtain m where m: "named_objects (unit_Get_error env) nu_Name (unit_cache env) (ng_NodeUnits ng) [] = Inr m"
    using assms(4) by (auto simp: GetUnitByGroup_def split: sum.splits)
  show "units.named_map unitMap" using assms(3,4) units.named_objects_named [OF m units.named_map_Nil]
    by (auto simp: GetUnitByGroup_def m add_units_def units.fold_put_named split: option.splits sum.splits)
  assume "nu \<in> set (unit_cache env)"
  then show "mget unitMap (nu_Name nu) = (if group_selects env ng nu then Some nu else None)"
    using assms(2,3,4) units.selected_get [OF assms(1) m]
    by (auto simp: GetUnitByGroup_def m group_selects_def selector_matches_def add_units_def list_units_def split: option.splits sum.splits if_splits)
qed

lemma gc_units_get:
  assumes "distinct (map nu_Name (unit_cache env))" "unit_List_error env = None" "ng_AutoFindNodeKeys ng = []" "GetUnitByGroup env ng = Inr unitMap"
  shows "units.named_map (gc_units env sel unitMap)" and "nu \<in> set (unit_cache env) \<Longrightarrow>
     mget (gc_units env sel unitMap) (nu_Name nu) = (if sel (nu_Labels nu) \<and> \<not> group_selects env ng nu then Some nu else None)"
proof -
  show "units.named_map (gc_units env sel unitMap)" by (simp add: gc_units_def add_units_def units.fold_put_named units.named_map_filter)
  assume nu: "nu \<in> set (unit_cache env)"
  have "mget (add_units env sel []) (nu_Name nu) = (if sel (nu_Labels nu) then Some nu else None)"
    using units.fold_put_get [OF distinct_map_filter [OF assms(1)]] units.find_filter [OF assms(1) nu] assms(2) by (simp add: add_units_def list_units_def)
  then show "mget (gc_units env sel unitMap) (nu_Name nu) = (if sel (nu_Labels nu) \<and> \<not> group_selects env ng nu then Some nu else None)"
    using GetUnitByGroup_selects(2) [OF assms nu] by (simp add: gc_units_def map_of_filter_key [of "\<lambda>k. mget unitMap k = None"])
qed

lemma SetNodeToNodeUnits_effect:
  assumes "fst (SetNodeToNodeUnits api ng m) = None" "units.named_map m"
  shows "unit_calls (snd (SetNodeToNodeUnits api ng m)) nu =
    (case mget m (nu_Name nu) of None \<Rightarrow> nu | Some u \<Rightarrow> if unit_ready ng u then nu else unit_to_set ng u)"
proof -
  let ?f = "\<lambda>(_ :: string, nu). if unit_ready ng nu then site_ok else api_call api (UpdateUnit (unit_to_set ng nu))"
  have name: "nu_Name (unit_to_set ng u) = nu_Name u" for u by (simp add: unit_to_set_def)
  have "snd (SetNodeToNodeUnits api ng m) = concat (map (snd \<circ> ?f) m)"
    using assms(1) unfolding SetNodeToNodeUnits_def by (rule site_for_ok)
  moreover have "call_unit ` set (snd (?f (k, u))) \<subseteq> {Some (nu_Name u), None}" for k u by (simp add: name)
  ultimately show ?thesis using units.effects_loop [OF assms(2), of ?f nu] units.named_mapD [OF assms(2)]
    by (auto simp: name split: option.splits)
qed

lemma DeleteNodeUnitFromSetNode_effect:
  assumes "fst (DeleteNodeUnitFromSetNode api ng m) = None" "units.named_map m"
  shows "unit_calls (snd (DeleteNodeUnitFromSetNode api ng m)) nu = (case mget m (nu_Name nu) of None \<Rightarrow> nu | Some u \<Rightarrow> unit_cleared ng u)"
proof -
  let ?f = "\<lambda>(_ :: string, nu). api_call api (UpdateUnit (unit_cleared ng nu))"
  have name: "nu_Name (unit_cleared ng u) = nu_Name u" for u by (simp add: unit_cleared_def)
  have "snd (DeleteNodeUnitFromSetNode api ng m) = concat (map (snd \<circ> ?f) m)"
    using assms(1) unfolding DeleteNodeUnitFromSetNode_def by (rule site_for_ok)
  moreover have "call_unit ` set (snd (?f (k, u))) \<subseteq> {Some (nu_Name u), None}" for k u by (simp add: name)
  ultimately show ?thesis using units.effects_loop [OF assms(2), of ?f nu] units.named_mapD [OF assms(2)]
    by (auto simp: name split: option.splits)
qed

lemma group_update_status_units: "unit_calls (snd (group_update_status env api ng unitMap)) nu = nu"
  by (simp add: group_update_status_def Let_def)

lemma NodeGroupSuperedge_not_empty [simp]: "NodeGroupSuperedge \<noteq> ''''" "'''' \<noteq> NodeGroupSuperedge"
  by (simp_all add: NodeGroupSuperedge_def)

lemma unit_ready_label: "unit_ready ng nu \<Longrightarrow> nu_Labels nu \<noteq> None \<Longrightarrow> has_value (ng_Name ng) NodeGroupSuperedge (nu_Labels nu)"
  by (auto simp: unit_ready_def has_value_def nread_def split: option.splits)

lemma unit_ready_set:
  "unit_ready ng nu \<Longrightarrow> se_Labels (nu_SetNode nu) \<noteq> None \<Longrightarrow> nu_Name nu \<noteq> '''' \<Longrightarrow> nget (se_Labels (nu_SetNode nu)) (ng_Name ng) = Some (nu_Name nu)"
  by (auto simp: unit_ready_def nread_def split: option.splits)

text \<open>
  A group without automatic keys owns the units that it selects. When the calls of a reconciliation succeed, a unit that has labels carries the
  label of the group exactly when the group names it or its selector matches it, and a selected unit with labels for its nodes sets the name of the
  unit under the name of the group on them.
\<close>

theorem group_label_follows_selection:
  assumes "distinct (map nu_Name (unit_cache env))" "unit_List_error env = None" "ng_AutoFindNodeKeys ng = []" "nu \<in> set (unit_cache env)"
    and "nu_Labels nu \<noteq> None" "se_Labels (nu_SetNode nu) \<noteq> None" "nu_Name nu \<noteq> ''''"
    and "selector_matches env \<lparr>sl_MatchLabels = Some [(ng_Name ng, NodeGroupSuperedge)], sl_MatchExpressions = []\<rparr> = has_value (ng_Name ng) NodeGroupSuperedge"
    and "reconcileNodeGroup env api ng = Ret (None, cs)"
  shows "(has_value (ng_Name ng) NodeGroupSuperedge (nu_Labels (unit_calls cs nu)) \<longleftrightarrow> group_selects env ng nu) \<and>
    (group_selects env ng nu \<longrightarrow> nget (se_Labels (nu_SetNode (unit_calls cs nu))) (ng_Name ng) = Some (nu_Name nu))"
proof -
  obtain unitMap where unitMap: "GetUnitByGroup env ng = Inr unitMap"
    using assms(9) by (auto simp: reconcileNodeGroup_def site_fail_def split: sum.splits)
  obtain sel where sel: "LabelSelectorAsSelector env \<lparr>sl_MatchLabels = Some [(ng_Name ng, NodeGroupSuperedge)], sl_MatchExpressions = []\<rparr> = Inr sel"
    using assms(9) by (auto simp: reconcileNodeGroup_def site_fail_def unitMap split: sum.splits)
  then have own: "sel = has_value (ng_Name ng) NodeGroupSuperedge" using assms(8) by (auto simp: selector_matches_def fun_eq_iff)
  let ?gc = "DeleteNodeUnitFromSetNode api ng (gc_units env sel unitMap)" and ?set = "SetNodeToNodeUnits api ng unitMap"
  have ok: "fst ?gc = None" "fst ?set = None" and cs: "cs = snd ?gc @ snd ?set @ snd (group_update_status env api ng unitMap)"
    using assms(3,9) by (auto simp: reconcileNodeGroup_def unitMap sel Let_def site_then_def split: if_splits option.splits)
  note selects = GetUnitByGroup_selects [OF assms(1-3) unitMap]
  note gc = gc_units_get [OF assms(1-3) unitMap, where sel = sel]
  define u where "u = unit_calls (snd ?gc) nu"
  have u: "u = (if sel (nu_Labels nu) \<and> \<not> group_selects env ng nu then unit_cleared ng nu else nu)"
    using DeleteNodeUnitFromSetNode_effect [OF ok(1) gc(1), of nu] gc(2) [OF assms(4)] by (simp add: u_def)
  have name: "nu_Name u = nu_Name nu" by (simp add: u_def units.effects_name)
  have final: "unit_calls cs nu = (if group_selects env ng nu then if unit_ready ng nu then u else unit_to_set ng nu else u)"
    using SetNodeToNodeUnits_effect [OF ok(2) selects(1), of u] selects(2) [OF assms(4)] by (simp add: cs group_update_status_units u_def [symmetric] name)
  show ?thesis
  proof (cases "group_selects env ng nu")
    case True
    then show ?thesis using final u unit_ready_label [OF _ assms(5)] unit_ready_set [OF _ assms(6,7)]
      by (simp add: unit_to_set_def has_value_def mget_mput)
  next
    case False
    then show ?thesis using final u own by (auto simp: unit_cleared_def has_value_def nget_delete_keys)
  qed
qed

section \<open>Units from labels\<close>

lemma check_keys_true: "list_all (\<lambda>k. mget ls k \<noteq> None) keys \<Longrightarrow> \<exists>res' sel'. check_keys ls keys res sel = (True, res', sel') \<and> length sel \<le> length sel'"
proof (induction keys arbitrary: res sel)
  case (Cons key keys)
  obtain v where v: "mget ls key = Some v" using Cons.prems by auto
  have "length sel \<le> length (mput key v sel)" by (induction sel) auto
  moreover obtain res' sel' where "check_keys ls keys (if res = '''' then v else res @ ''-'' @ v) (mput key v sel) = (True, res', sel')"
      "length (mput key v sel) \<le> length sel'"
    using Cons.IH [of "if res = '''' then v else res @ ''-'' @ v" "mput key v sel"] Cons.prems by auto
  ultimately show ?case by (simp add: v)
qed simp

text \<open>A node whose labels have all keys names a unit.\<close>

lemma checkIfContains_match:
  assumes "list_all (\<lambda>k. mget ls k \<noteq> None) keys" "keys \<noteq> []"
  shows "\<exists>name sel. checkIfContains env ls keys = (True, name, sel) \<and> sel \<noteq> []"
proof -
  obtain key rest where keys: "sort keys = key # rest" using assms(2) by (cases "sort keys") (auto dest: arg_cong [of _ _ length])
  then have all: "list_all (\<lambda>k. mget ls k \<noteq> None) (key # rest)" using assms(1) by (metis list_all_iff set_sort)
  then obtain v where v: "mget ls key = Some v" by auto
  obtain res sel where "check_keys ls rest v [(key, v)] = (True, res, sel)" "length [(key, v)] \<le> length sel"
    using check_keys_true [of ls rest v "[(key, v)]"] all by auto
  then show ?thesis by (auto simp: checkIfContains_def keys v)
qed

text \<open>
  A unit without a selector stops the controller. When the labels of a node give the name of a unit that exists and selects its nodes only by
  name, the reconciliation of the group panics, whatever the other nodes are.
\<close>

theorem auto_find_panics:
  assumes "GetUnitByGroup env ng = Inr unitMap" "ng_AutoFindNodeKeys ng \<noteq> []" "node_List_error env = None"
    and "LabelSelectorAsSelector env \<lparr>sl_MatchLabels = Some [(ng_Name ng, NodeGroupSuperedge)], sl_MatchExpressions = []\<rparr> = Inr sel"
    and "fst (DeleteNodeUnitFromSetNode api ng (gc_units env sel unitMap)) = None"
    and "node \<in> set (node_cache env)" "list_all (\<lambda>k. nget (no_Labels node) k \<noteq> None) (ng_AutoFindNodeKeys ng)"
    and "\<And>cs. unit_client_Get env cs (fst (snd (checkIfContains env (label_entries (no_Labels node)) (ng_AutoFindNodeKeys ng)))) = Inr u" "nu_Selector u = None"
  shows "reconcileNodeGroup env api ng = Panic"
proof -
  obtain k where k: "nget (no_Labels node) k \<noteq> None" using assms(2,7) by (cases "ng_AutoFindNodeKeys ng") auto
  then obtain ls where ls: "no_Labels node = Some ls" by (cases "no_Labels node") auto
  have nonempty: "ls \<noteq> []" using k ls by auto
  obtain name s where match: "checkIfContains env ls (ng_AutoFindNodeKeys ng) = (True, name, s)" "s \<noteq> []"
    using checkIfContains_match [of ls "ng_AutoFindNodeKeys ng" env] assms(2,7) ls by auto
  have panics: "newNodeUnit env api ng name (ng_AutoFindNodeKeys ng) s cs = Panic" for cs
    using assms(8) [of cs] assms(9) by (simp add: newNodeUnit_def ls label_entries_def match)
  have "node \<in> set ns \<Longrightarrow> auto_find_nodes env api ng ns cs = Panic" for ns cs
  proof (induction ns arbitrary: cs)
    case (Cons n ns)
    show ?case
    proof (cases "n = node")
      case True
      then show ?thesis using ls nonempty match panics by (simp add: label_entries_def)
    next
      case False
      then show ?thesis using Cons by (auto simp: go_bind_def split: prod.splits go.splits)
    qed
  qed simp
  then have "autoFindNodeKeysByNodeGroup env api ng cs = Panic" for cs using assms(3,6) by (simp add: autoFindNodeKeysByNodeGroup_def)
  then show ?thesis using assms(1,2,4,5) by (simp add: reconcileNodeGroup_def)
qed

text \<open>Two nodes with different values whose units get the same name.\<close>

lemma unit_names_collide:
  "checkIfContains env [(''city'', ''a-b''), (''zone'', ''c'')] [''city'', ''zone''] = (True, ''a-b-c'', [(''city'', ''a-b''), (''zone'', ''c'')])"
  "checkIfContains env [(''city'', ''a''), (''zone'', ''b-c'')] [''city'', ''zone''] = (True, ''a-b-c'', [(''city'', ''a''), (''zone'', ''b-c'')])"
  by (simp_all add: checkIfContains_def filterString_def withCheckContains_def withCheckSize_def)

text \<open>Different lists of keys whose hashes are the same.\<close>

lemma key_hashes_collide: "HashAutoFindKeys env [''ab'', ''c''] = HashAutoFindKeys env [''a'', ''bc'']"
  by (simp add: HashAutoFindKeys_def)

section \<open>Witnesses\<close>

definition sample_groups :: "site_node list \<Rightarrow> NodeUnit list \<Rightarrow> group_env" where
  "sample_groups ns us = \<lparr>node_cache = ns, unit_cache = us, group_cache = [], node_Get_error = (\<lambda>_. None), unit_Get_error = (\<lambda>_. None), group_Get_error = (\<lambda>_. None),
     node_List_error = None, unit_List_error = None, LabelSelectorAsSelector = (\<lambda>s. Inr (\<lambda>ls. list_all (\<lambda>(k, v). has_value k v ls) (label_entries (sl_MatchLabels s)))),
     NewRequirement_error = (\<lambda>_. None), sha1_hex = id, pv_Get = (\<lambda>_. Inr None),
     unit_client_Get = (\<lambda>_ name. case find (\<lambda>u. nu_Name u = name) us of None \<Rightarrow> Inl NotFoundErr | Some u \<Rightarrow> Inr u)\<rparr>"

definition sample_group :: "string list \<Rightarrow> string list \<Rightarrow> NodeGroup" where
  "sample_group us keys = \<lparr>ng_Name = ''g'', ng_Finalizers = [], ng_DeletionTimestamp = None, ng_NodeUnits = us, ng_Selector = None, ng_AutoFindNodeKeys = keys,
     ng_Status = \<lparr>UnitNumber = 0, ng_StatusUnits = []\<rparr>\<rparr>"

theorem group_label_follows_selection_witness:
  "\<exists>cs. reconcileNodeGroup (sample_groups [] [(sample_unit [''a''] None None ''L3'' [])\<lparr>nu_Labels := Some []\<rparr>]) (\<lambda>_. None) (sample_group [''u''] []) = Ret (None, cs) \<and>
     has_value ''g'' NodeGroupSuperedge (nu_Labels (unit_calls cs ((sample_unit [''a''] None None ''L3'' [])\<lparr>nu_Labels := Some []\<rparr>)))"
proof -
  let ?u = "(sample_unit [''a''] None None ''L3'' [])\<lparr>nu_Labels := Some []\<rparr>"
  have run: "case reconcileNodeGroup (sample_groups [] [?u]) (\<lambda>_. None) (sample_group [''u''] []) of Ret (None, cs) \<Rightarrow> True | _ \<Rightarrow> False" by code_simp
  then obtain cs where cs: "reconcileNodeGroup (sample_groups [] [?u]) (\<lambda>_. None) (sample_group [''u''] []) = Ret (None, cs)"
    by (auto split: go.splits option.splits prod.splits)
  have "selector_matches (sample_groups [] [?u]) \<lparr>sl_MatchLabels = Some [(''g'', NodeGroupSuperedge)], sl_MatchExpressions = []\<rparr> = has_value ''g'' NodeGroupSuperedge"
    by (simp add: fun_eq_iff selector_matches_def sample_groups_def label_entries_def)
  then show ?thesis
    using group_label_follows_selection [of "sample_groups [] [?u]" "sample_group [''u''] []" ?u "\<lambda>_. None" cs] cs
    by (simp add: sample_groups_def sample_group_def sample_unit_def group_selects_def)
qed

theorem auto_find_panics_witness:
  "reconcileNodeGroup (sample_groups [sample_site_node ''n'' (Some [(''zone'', ''u'')])] [sample_unit [''a''] None None ''L3'' []]) (\<lambda>_. None) (sample_group [] [''zone'']) = Panic"
proof -
  let ?env = "sample_groups [sample_site_node ''n'' (Some [(''zone'', ''u'')])] [sample_unit [''a''] None None ''L3'' []]"
  let ?sel = "\<lambda>ls. list_all (\<lambda>(k, v). has_value k v ls) [(''g'', NodeGroupSuperedge)]"
  have map: "GetUnitByGroup ?env (sample_group [] [''zone'']) = Inr []" by code_simp
  have gc: "fst (DeleteNodeUnitFromSetNode (\<lambda>_. None) (sample_group [] [''zone'']) (gc_units ?env ?sel [])) = None" by code_simp
  have name: "fst (snd (checkIfContains ?env [(''zone'', ''u'')] [''zone''])) = ''u''" by code_simp
  show ?thesis
    using auto_find_panics [of ?env "sample_group [] [''zone'']" "[]" ?sel "\<lambda>_. None" "sample_site_node ''n'' (Some [(''zone'', ''u'')])" "sample_unit [''a''] None None ''L3'' []"]
      map gc name
    by (simp add: sample_groups_def sample_group_def sample_site_node_def sample_unit_def label_entries_def)
qed

end
