(* ===== verification/TunnelContext.thy ===== *)
theory TunnelContext
  imports GoStrings
begin

text \<open>
  The tunnel between cloud and edge: the context of a tunnel process (\<open>src/pkg/tunnel/tunnelcontext\<close>), the handlers of the messages that come out of the
  stream (\<open>proxy/handlers/common_handler.go\<close>, \<open>proxy/modules/stream\<close>) and the copying between a connection and the tunnel (\<open>proxy/common/connect.go\<close>).

  Nodes and connections are objects that goroutines keep pointers to after they have left the maps, so an object is an index into a list that only grows,
  and the maps hold indices. A channel holds at most \<open>MSG_CHANNEL_CAP\<close> messages; an operation that waits for room in it is stuck, which is a
  result of its own, next to a panic.
\<close>

section \<open>Results\<close>

datatype 'a run = Crash | Stuck | Done 'a

definition run_bind :: "'a run \<Rightarrow> ('a \<Rightarrow> 'b run) \<Rightarrow> 'b run" where
  "run_bind m f = (case m of Crash \<Rightarrow> Crash | Stuck \<Rightarrow> Stuck | Done x \<Rightarrow> f x)"

lemma run_bind_simps [simp]: "run_bind Crash f = Crash" "run_bind Stuck f = Stuck" "run_bind (Done x) f = f x"
  by (simp_all add: run_bind_def)

lemma run_bind_Done: "run_bind m f = Done y \<longleftrightarrow> (\<exists>x. m = Done x \<and> f x = Done y)"
  by (cases m) auto

section \<open>Messages\<close>

definition STREAM :: string where "STREAM = ''stream''"
definition SSH :: string where "SSH = ''ssh''"
definition EGRESS :: string where "EGRESS = ''egress''"
definition HTTP_PROXY :: string where "HTTP_PROXY = ''httpProxy''"
definition TCP_FORWARD :: string where "TCP_FORWARD = ''tcp-forward''"
definition STREAM_HEART_BEAT :: string where "STREAM_HEART_BEAT = ''heartbeat''"
definition CLOSED :: string where "CLOSED = ''closed''"
definition CONNECT_REQ :: string where "CONNECT_REQ = ''connecting''"
definition CONNECT_FAILED :: string where "CONNECT_FAILED = ''connect-failed''"
definition CONNECT_SUCCESSED :: string where "CONNECT_SUCCESSED = ''connected''"
definition MSG_CHANNEL_CAP :: nat where "MSG_CHANNEL_CAP = 1000"

record StreamMsg =
  sm_Node :: string
  sm_Category :: string
  sm_Type :: string
  sm_Topic :: string
  sm_Data :: string
  sm_Addr :: string

definition channel_send :: "'m \<Rightarrow> 'm list \<Rightarrow> 'm list run" where
  "channel_send msg ch = (if length ch < MSG_CHANNEL_CAP then Done (ch @ [msg]) else Stuck)"

section \<open>Nodes\<close>

record tnode =
  tn_name :: string
  tn_ch :: "StreamMsg list"
  tn_conns :: "string list option"
  tn_pairnodes :: "(string, string) gomap"

definition BindNode :: "string \<Rightarrow> tnode \<Rightarrow> tnode" where
  "BindNode uuid edge = edge\<lparr>tn_conns := Some (case tn_conns edge of None \<Rightarrow> [uuid] | Some cs \<Rightarrow> cs @ [uuid])\<rparr>"

text \<open>
  The loop that removes a connection ranges over the slice as it was, while the removal shifts the elements of the same array: \<open>arr\<close> is the array,
  of the length that the slice had, \<open>len\<close> the length that it has now. Removing beyond \<open>len\<close> is a panic (slice bounds out of range).
\<close>

fun unbind_loop :: "string \<Rightarrow> nat \<Rightarrow> nat \<Rightarrow> string list \<Rightarrow> nat \<Rightarrow> string list run" where
  "unbind_loop uuid 0 k arr len = Done (take len arr)"
| "unbind_loop uuid (Suc n) k arr len =
     (if arr ! k = uuid then
        if len < k + 1 then Crash
        else unbind_loop uuid n (k + 1) (take k arr @ take (len - (k + 1)) (drop (k + 1) arr) @ drop (len - 1) arr) (len - 1)
      else unbind_loop uuid n (k + 1) arr len)"

definition UnbindNode :: "string \<Rightarrow> tnode \<Rightarrow> tnode run" where
  "UnbindNode uuid edge =
     (case tn_conns edge of
        None \<Rightarrow> Done (edge\<lparr>tn_pairnodes := mdel uuid (tn_pairnodes edge)\<rparr>)
      | Some cs \<Rightarrow> run_bind (unbind_loop uuid (length cs) 0 cs (length cs))
          (\<lambda>cs'. Done (edge\<lparr>tn_conns := Some cs', tn_pairnodes := mdel uuid (tn_pairnodes edge)\<rparr>)))"

definition Send2Node :: "StreamMsg \<Rightarrow> tnode \<Rightarrow> tnode run" where
  "Send2Node msg edge = run_bind (channel_send msg (tn_ch edge)) (\<lambda>ch. Done (edge\<lparr>tn_ch := ch\<rparr>))"

definition AddPairNode :: "string \<Rightarrow> string \<Rightarrow> tnode \<Rightarrow> tnode" where
  "AddPairNode uid nodeName edge = edge\<lparr>tn_pairnodes := mput uid nodeName (tn_pairnodes edge)\<rparr>"

definition RemovePairNode :: "string \<Rightarrow> tnode \<Rightarrow> tnode" where
  "RemovePairNode uid edge = edge\<lparr>tn_pairnodes := mdel uid (tn_pairnodes edge)\<rparr>"

definition GetPairNode :: "string \<Rightarrow> tnode \<Rightarrow> string" where
  "GetPairNode uid edge = (case mget (tn_pairnodes edge) uid of None \<Rightarrow> '''' | Some n \<Rightarrow> n)"

section \<open>Connections\<close>

record tconn =
  tc_uid :: string
  tc_ch :: "StreamMsg list"

definition Send2Conn :: "StreamMsg \<Rightarrow> tconn \<Rightarrow> tconn run" where
  "Send2Conn msg c = run_bind (channel_send msg (tc_ch c)) (\<lambda>ch. Done (c\<lparr>tc_ch := ch\<rparr>))"

section \<open>The context\<close>

datatype callback = DirectHandlerCb | ConnectingHandlerCb | AccessHandlerCb | HeartbeatHandlerCb

record TunnelContext =
  nodes :: "(string, nat) gomap"
  node_objs :: "tnode list"
  conns :: "(string, nat) gomap"
  conn_objs :: "tconn list"
  protocols :: "(string, (string, callback) gomap) gomap"
  EdgeNodes_gauge :: int

definition GetContext :: TunnelContext where
  "GetContext = \<lparr>nodes = [], node_objs = [], conns = [], conn_objs = [], protocols = [], EdgeNodes_gauge = 0\<rparr>"

definition AddNode :: "string \<Rightarrow> TunnelContext \<Rightarrow> nat \<times> TunnelContext" where
  "AddNode name ctx =
     (let i = length (node_objs ctx) in
      (i, ctx\<lparr>node_objs := node_objs ctx @ [\<lparr>tn_name = name, tn_ch = [], tn_conns = None, tn_pairnodes = []\<rparr>],
              nodes := mput name i (nodes ctx), EdgeNodes_gauge := EdgeNodes_gauge ctx + 1\<rparr>))"

definition GetNode_ctx :: "TunnelContext \<Rightarrow> string \<Rightarrow> nat option" where
  "GetNode_ctx ctx name = mget (nodes ctx) name"

definition GetNodes_ctx :: "TunnelContext \<Rightarrow> string list" where
  "GetNodes_ctx ctx = mkeys (nodes ctx)"

definition NodeIsExist :: "TunnelContext \<Rightarrow> string \<Rightarrow> bool" where
  "NodeIsExist ctx name \<longleftrightarrow> mget (nodes ctx) name \<noteq> None"

definition nodes_RemoveNode :: "string \<Rightarrow> TunnelContext \<Rightarrow> TunnelContext" where
  "nodes_RemoveNode name ctx = ctx\<lparr>nodes := mdel name (nodes ctx), EdgeNodes_gauge := EdgeNodes_gauge ctx - 1\<rparr>"

definition on_node :: "nat \<Rightarrow> (tnode \<Rightarrow> tnode run) \<Rightarrow> TunnelContext \<Rightarrow> TunnelContext run" where
  "on_node i f ctx = run_bind (f (node_objs ctx ! i)) (\<lambda>n. Done (ctx\<lparr>node_objs := (node_objs ctx)[i := n]\<rparr>))"

definition on_conn :: "nat \<Rightarrow> (tconn \<Rightarrow> tconn run) \<Rightarrow> TunnelContext \<Rightarrow> TunnelContext run" where
  "on_conn i f ctx = run_bind (f (conn_objs ctx ! i)) (\<lambda>c. Done (ctx\<lparr>conn_objs := (conn_objs ctx)[i := c]\<rparr>))"

definition AddConn :: "string \<Rightarrow> TunnelContext \<Rightarrow> nat \<times> TunnelContext" where
  "AddConn uid ctx =
     (let i = length (conn_objs ctx) in
      (i, ctx\<lparr>conn_objs := conn_objs ctx @ [\<lparr>tc_uid = uid, tc_ch = []\<rparr>], conns := mput uid i (conns ctx)\<rparr>))"

definition GetConn :: "TunnelContext \<Rightarrow> string \<Rightarrow> nat option" where
  "GetConn ctx uid = mget (conns ctx) uid"

definition GetConns :: "TunnelContext \<Rightarrow> string list \<Rightarrow> nat list" where
  "GetConns ctx names = List.map_filter (mget (conns ctx)) names"

text \<open>\<open>SetConn\<close> registers a channel of the caller, with what it holds; no code calls it.\<close>

definition SetConn :: "string \<Rightarrow> StreamMsg list \<Rightarrow> TunnelContext \<Rightarrow> TunnelContext" where
  "SetConn uid ch ctx = ctx\<lparr>conn_objs := conn_objs ctx @ [\<lparr>tc_uid = uid, tc_ch = ch\<rparr>], conns := mput uid (length (conn_objs ctx)) (conns ctx)\<rparr>"

definition RemoveConn :: "string \<Rightarrow> TunnelContext \<Rightarrow> TunnelContext" where
  "RemoveConn uid ctx = ctx\<lparr>conns := mdel uid (conns ctx)\<rparr>"

fun run_for :: "('x \<Rightarrow> 's \<Rightarrow> 's run) \<Rightarrow> 'x list \<Rightarrow> 's \<Rightarrow> 's run" where
  "run_for f [] s = Done s"
| "run_for f (x # xs) s = run_bind (f x s) (run_for f xs)"

definition stopMsg :: StreamMsg where
  "stopMsg = \<lparr>sm_Node = '''', sm_Category = '''', sm_Type = CLOSED, sm_Topic = '''', sm_Data = '''', sm_Addr = ''''\<rparr>"

text \<open>
  The lookup of the node, each send and the removal from the map are critical sections of their own; here they follow each other
  without a pause. The removal deletes the name and decrements the gauge whether the name is still there or not.
\<close>

definition RemoveNode :: "string \<Rightarrow> TunnelContext \<Rightarrow> TunnelContext run" where
  "RemoveNode name ctx =
     (case GetNode_ctx ctx name of
        None \<Rightarrow> Done ctx
      | Some i \<Rightarrow>
          run_bind
            (case tn_conns (node_objs ctx ! i) of
               None \<Rightarrow> Done ctx
             | Some names \<Rightarrow> run_for (\<lambda>c. on_conn c (Send2Conn stopMsg)) (GetConns ctx names) ctx)
            (\<lambda>ctx. Done (nodes_RemoveNode name ctx)))"

subsection \<open>Handlers by module\<close>

definition AddModule :: "string \<Rightarrow> TunnelContext \<Rightarrow> TunnelContext" where
  "AddModule m ctx = ctx\<lparr>protocols := mput m [] (protocols ctx)\<rparr>"

definition RemoveModule :: "string \<Rightarrow> TunnelContext \<Rightarrow> TunnelContext" where
  "RemoveModule m ctx = ctx\<lparr>protocols := mdel m (protocols ctx)\<rparr>"

definition GetHandler :: "TunnelContext \<Rightarrow> string \<Rightarrow> string \<Rightarrow> callback option" where
  "GetHandler ctx key m = (case mget (protocols ctx) m of None \<Rightarrow> None | Some hs \<Rightarrow> mget hs key)"

definition RegisterHandler :: "string \<Rightarrow> string \<Rightarrow> callback \<Rightarrow> TunnelContext \<Rightarrow> TunnelContext" where
  "RegisterHandler key m h ctx =
     (case mget (protocols ctx) m of None \<Rightarrow> ctx | Some hs \<Rightarrow> ctx\<lparr>protocols := mput m (mput key h hs) (protocols ctx)\<rparr>)"

section \<open>Connecting through a node\<close>

text \<open>The first part of \<open>ConnectNode\<close>: the connection is registered and the request sent.\<close>

definition connect_request :: "string \<Rightarrow> string \<Rightarrow> string \<Rightarrow> string \<Rightarrow> StreamMsg" where
  "connect_request name category addr uid =
     \<lparr>sm_Node = name, sm_Category = category, sm_Type = CONNECT_REQ, sm_Topic = uid,
      sm_Data = ''CONNECT '' @ addr @ '' HTTP/1.1'' @ [CHR 0x0D, CHR 0x0A, CHR 0x0D, CHR 0x0A, CHR 0x0D, CHR 0x0A], sm_Addr = addr\<rparr>"

definition connect_begin :: "nat \<Rightarrow> string \<Rightarrow> string \<Rightarrow> string \<Rightarrow> TunnelContext \<Rightarrow> (nat \<times> TunnelContext) run" where
  "connect_begin i category addr uid ctx =
     (let (c, ctx1) = AddConn uid ctx in
      run_bind (on_node i (\<lambda>n. Send2Node (connect_request (tn_name n) category addr uid) (BindNode uid n)) ctx1) (\<lambda>ctx2. Done (c, ctx2)))"

text \<open>
  The second part: what the connection received first, or nothing within five seconds. The result is whether there was an error; then the
  deferred function takes the registration back. A message of another type than the two is no error.
\<close>

definition connect_end :: "nat \<Rightarrow> string \<Rightarrow> StreamMsg option \<Rightarrow> TunnelContext \<Rightarrow> (bool \<times> TunnelContext) run" where
  "connect_end i uid resp ctx =
     (let failed = (case resp of None \<Rightarrow> True | Some m \<Rightarrow> sm_Type m \<noteq> CONNECT_SUCCESSED \<and> sm_Type m = CONNECT_FAILED) in
      if failed then run_bind (on_node i (UnbindNode uid) ctx) (\<lambda>ctx1. Done (True, RemoveConn uid ctx1)) else Done (False, ctx))"

section \<open>Handlers\<close>

definition closed_msg :: "StreamMsg \<Rightarrow> StreamMsg" where
  "closed_msg msg = \<lparr>sm_Node = sm_Node msg, sm_Category = sm_Category msg, sm_Type = CLOSED, sm_Topic = sm_Topic msg,
     sm_Data = ''msg cannot be forwarded due to disconnection'', sm_Addr = ''''\<rparr>"

text \<open>The node that is paired with the sender for the topic, when both are connected.\<close>

definition pair_of :: "TunnelContext \<Rightarrow> StreamMsg \<Rightarrow> nat option" where
  "pair_of ctx msg =
     (case GetNode_ctx ctx (sm_Node msg) of
        None \<Rightarrow> None
      | Some i \<Rightarrow>
          let remoteNodeName = GetPairNode (sm_Topic msg) (node_objs ctx ! i) in
          if remoteNodeName = '''' then None else GetNode_ctx ctx remoteNodeName)"

definition DirectHandler :: "StreamMsg \<Rightarrow> TunnelContext \<Rightarrow> (bool \<times> TunnelContext) run" where
  "DirectHandler msg ctx =
     (case GetConn ctx (sm_Topic msg) of
        Some c \<Rightarrow> run_bind (on_conn c (Send2Conn msg) ctx) (\<lambda>ctx1. Done (False, ctx1))
      | None \<Rightarrow>
          (case pair_of ctx msg of
             Some j \<Rightarrow> run_bind (on_node j (Send2Node msg) ctx) (\<lambda>ctx1. Done (False, ctx1))
           | None \<Rightarrow>
               if sm_Type msg = CLOSED then Done (False, ctx)
               else (case GetNode_ctx ctx (sm_Node msg) of
                       None \<Rightarrow> Done (True, ctx)
                     | Some i \<Rightarrow> run_bind (on_node i (Send2Node (closed_msg msg)) ctx) (\<lambda>ctx1. Done (True, ctx1)))))"

text \<open>
  A connection to the target is opened: \<open>dial\<close> is the error, if any. A message whose node is not registered ends in a nil pointer when the
  connection succeeds. The copying goroutines that are started are the operations of the next section.
\<close>

definition answer :: "StreamMsg \<Rightarrow> string \<Rightarrow> string \<Rightarrow> string \<Rightarrow> StreamMsg" where
  "answer msg name t text = \<lparr>sm_Node = name, sm_Category = sm_Category msg, sm_Type = t, sm_Topic = sm_Topic msg, sm_Data = text, sm_Addr = ''''\<rparr>"

definition ConnectingHandler :: "go_error option \<Rightarrow> StreamMsg \<Rightarrow> TunnelContext \<Rightarrow> (bool \<times> TunnelContext) run" where
  "ConnectingHandler dial msg ctx =
     (case GetConn ctx (sm_Topic msg) of
        Some c \<Rightarrow> run_bind (on_conn c (Send2Conn msg) ctx) (\<lambda>ctx1. Done (False, ctx1))
      | None \<Rightarrow>
          (case (GetNode_ctx ctx (sm_Node msg), dial) of
             (None, Some err) \<Rightarrow> Done (True, ctx)
           | (Some i, Some err) \<Rightarrow>
               run_bind (on_node i (\<lambda>n. Send2Node (answer msg (tn_name n) CONNECT_FAILED err) n) ctx) (\<lambda>ctx1. Done (True, ctx1))
           | (None, None) \<Rightarrow> Crash
           | (Some i, None) \<Rightarrow>
               run_bind (on_node i (\<lambda>n. Send2Node (answer msg (tn_name n) CONNECT_SUCCESSED '''') n) ctx) (\<lambda>ctx1.
                 let (c, ctx2) = AddConn (sm_Topic msg) ctx1 in
                 run_bind (on_node i (\<lambda>n. Done (BindNode (sm_Topic msg) n)) ctx2) (\<lambda>ctx3. Done (False, ctx3)))))"

definition HeartbeatHandler :: "StreamMsg \<Rightarrow> TunnelContext \<Rightarrow> (bool \<times> TunnelContext) run" where
  "HeartbeatHandler msg ctx =
     (case GetNode_ctx ctx (sm_Node msg) of
        None \<Rightarrow> Done (True, ctx)
      | Some i \<Rightarrow> run_bind (on_node i (Send2Node msg) ctx) (\<lambda>ctx1. Done (False, ctx1)))"

text \<open>\<open>TunnelContext.Handler\<close>; the handler of requests from the edge (\<open>AccessHandler\<close>) is an argument.\<close>

definition Handler :: "(StreamMsg \<Rightarrow> TunnelContext \<Rightarrow> (bool \<times> TunnelContext) run) \<Rightarrow> (string \<Rightarrow> go_error option) \<Rightarrow> StreamMsg \<Rightarrow> string \<Rightarrow> string \<Rightarrow> TunnelContext
    \<Rightarrow> TunnelContext run" where
  "Handler access dial msg key m ctx =
     (case GetHandler ctx key m of
        None \<Rightarrow> Done ctx
      | Some cb \<Rightarrow>
          run_bind (case cb of DirectHandlerCb \<Rightarrow> DirectHandler msg ctx | ConnectingHandlerCb \<Rightarrow> ConnectingHandler (dial (sm_Addr msg)) msg ctx
                    | AccessHandlerCb \<Rightarrow> access msg ctx | HeartbeatHandlerCb \<Rightarrow> HeartbeatHandler msg ctx)
            (\<lambda>(_, ctx1). Done ctx1))"

section \<open>Copying\<close>

text \<open>The messages that \<open>Read\<close> sends: one for each read of at most \<open>BuferSize\<close> bytes and a last one with the error that ended it.\<close>

definition BuferSize :: nat where "BuferSize = 1024"

definition read_msgs :: "string \<Rightarrow> string \<Rightarrow> string \<Rightarrow> string \<Rightarrow> string list \<Rightarrow> go_error \<Rightarrow> StreamMsg list" where
  "read_msgs name category handleType uuid chunks err =
     map (\<lambda>d. \<lparr>sm_Node = name, sm_Category = category, sm_Type = handleType, sm_Topic = uuid, sm_Data = d, sm_Addr = ''''\<rparr>) chunks @
     [\<lparr>sm_Node = name, sm_Category = category, sm_Type = CLOSED, sm_Topic = uuid, sm_Data = err, sm_Addr = ''''\<rparr>]"

definition Read_end :: "nat \<Rightarrow> string \<Rightarrow> TunnelContext \<Rightarrow> TunnelContext run" where
  "Read_end i uuid ctx = run_bind (on_node i (UnbindNode uuid) ctx) (\<lambda>ctx1. Done (RemoveConn uuid ctx1))"

text \<open>
  One round of \<open>Write\<close>: what is written to the connection and whether the loop goes on; a closing message ends it, and so does an error of the
  write (\<open>ok\<close> says that there is none). It waits while there is no message.
\<close>

definition Write_step :: "bool \<Rightarrow> tconn \<Rightarrow> ((string \<times> bool) \<times> tconn) run" where
  "Write_step ok c =
     (case tc_ch c of
        [] \<Rightarrow> Stuck
      | msg # ms \<Rightarrow> Done (if sm_Type msg = CLOSED then ([], False) else if ok then (sm_Data msg, True) else ([], False), c\<lparr>tc_ch := ms\<rparr>))"

section \<open>Well-formed contexts\<close>

text \<open>Keys lead to objects of their name, and no channel holds more messages than its capacity (a send to a full channel waits).\<close>

definition objects_ok :: "('o \<Rightarrow> string) \<Rightarrow> ('o \<Rightarrow> StreamMsg list) \<Rightarrow> (string, nat) gomap \<Rightarrow> 'o list \<Rightarrow> bool" where
  "objects_ok name ch m objs \<longleftrightarrow> mwf m \<and> (\<forall>(k, i) \<in> set m. i < length objs \<and> name (objs ! i) = k) \<and> (\<forall>x \<in> set objs. length (ch x) \<le> MSG_CHANNEL_CAP)"

definition tunnel_wf :: "TunnelContext \<Rightarrow> bool" where
  "tunnel_wf ctx \<longleftrightarrow> objects_ok tn_name tn_ch (nodes ctx) (node_objs ctx) \<and> objects_ok tc_uid tc_ch (conns ctx) (conn_objs ctx)"

lemma objects_ok_get: "objects_ok name ch m objs \<Longrightarrow> mget m k = Some i \<Longrightarrow> i < length objs \<and> name (objs ! i) = k"
  by (auto simp: objects_ok_def dest!: map_of_SomeD)

lemma objects_ok_inj: "objects_ok name ch m objs \<Longrightarrow> mget m k = Some i \<Longrightarrow> mget m k' = Some i \<Longrightarrow> k = k'"
  by (metis objects_ok_get)

lemma objects_ok_add:
  assumes "objects_ok name ch m objs" "name x = k" "length (ch x) \<le> MSG_CHANNEL_CAP"
  shows "objects_ok name ch (mput k (length objs) m) (objs @ [x])"
proof -
  have "i < length (objs @ [x]) \<and> name ((objs @ [x]) ! i) = k'" if "mget (mput k (length objs) m) k' = Some i" for k' i
    using that objects_ok_get [OF assms(1), of k' i] assms(2) by (auto simp: mget_mput nth_append split: if_splits)
  moreover have "mwf (mput k (length objs) m)" using assms(1) by (auto simp: objects_ok_def intro: mwf_mput)
  ultimately show ?thesis using assms by (auto simp: objects_ok_def mget_in_set)
qed

lemma objects_ok_del:
  assumes "objects_ok name ch m objs"
  shows "objects_ok name ch (mdel k m) objs"
proof -
  have "set (mdel k m) \<subseteq> set m" by (induction m) auto
  then show ?thesis using assms by (auto simp: objects_ok_def mwf_mdel)
qed

lemma objects_ok_update:
  assumes "objects_ok name ch m objs" "name x = name (objs ! i)" "length (ch x) \<le> MSG_CHANNEL_CAP"
  shows "objects_ok name ch m (objs[i := x])"
proof -
  have "name (objs[i := x] ! j) = name (objs ! j)" for j
    using assms(2) by (cases "i < length objs") (simp_all add: nth_list_update list_update_beyond)
  then show ?thesis using assms(1,3) set_update_subset_insert [of objs i x] by (fastforce simp: objects_ok_def)
qed

lemma channel_send_ok: "channel_send msg ch = Done ch' \<Longrightarrow> length ch' \<le> MSG_CHANNEL_CAP \<and> ch' = ch @ [msg]"
  by (auto simp: channel_send_def split: if_splits)

text \<open>An operation on an object that keeps its name and the capacity of its channel.\<close>

definition node_op :: "(tnode \<Rightarrow> tnode run) \<Rightarrow> bool" where
  "node_op f \<longleftrightarrow> (\<forall>n n'. f n = Done n' \<longrightarrow> length (tn_ch n) \<le> MSG_CHANNEL_CAP \<longrightarrow> tn_name n' = tn_name n \<and> length (tn_ch n') \<le> MSG_CHANNEL_CAP)"

definition conn_op :: "(tconn \<Rightarrow> tconn run) \<Rightarrow> bool" where
  "conn_op f \<longleftrightarrow> (\<forall>c c'. f c = Done c' \<longrightarrow> length (tc_ch c) \<le> MSG_CHANNEL_CAP \<longrightarrow> tc_uid c' = tc_uid c \<and> length (tc_ch c') \<le> MSG_CHANNEL_CAP)"

lemma node_ops:
  "node_op (Send2Node msg)" "node_op (UnbindNode uid)" "node_op (\<lambda>n. Done (BindNode uid n))" "node_op (\<lambda>n. Done (AddPairNode uid name n))"
  "node_op (\<lambda>n. Done (RemovePairNode uid n))" "node_op (\<lambda>n. Send2Node (g n) (BindNode uid n))" "node_op (\<lambda>n. Send2Node (g n) n)"
  by (auto simp: node_op_def Send2Node_def UnbindNode_def BindNode_def AddPairNode_def RemovePairNode_def run_bind_Done dest!: channel_send_ok split: option.splits)

lemma conn_ops: "conn_op (Send2Conn msg)"
  by (auto simp: conn_op_def Send2Conn_def run_bind_Done dest!: channel_send_ok)

lemma on_node_wf:
  assumes "on_node i f ctx = Done ctx'" "node_op f" "tunnel_wf ctx" "i < length (node_objs ctx)"
  shows "tunnel_wf ctx'"
proof -
  obtain n where n: "f (node_objs ctx ! i) = Done n" "ctx' = ctx\<lparr>node_objs := (node_objs ctx)[i := n]\<rparr>"
    using assms(1) by (auto simp: on_node_def run_bind_Done)
  have "length (tn_ch (node_objs ctx ! i)) \<le> MSG_CHANNEL_CAP" using assms(3,4) by (auto simp: tunnel_wf_def objects_ok_def)
  then have "tn_name n = tn_name (node_objs ctx ! i)" "length (tn_ch n) \<le> MSG_CHANNEL_CAP" using assms(2) n(1) by (auto simp: node_op_def)
  then show ?thesis using assms(3) by (simp add: n(2) tunnel_wf_def objects_ok_update)
qed

lemma on_conn_wf:
  assumes "on_conn i f ctx = Done ctx'" "conn_op f" "tunnel_wf ctx" "i < length (conn_objs ctx)"
  shows "tunnel_wf ctx'"
proof -
  obtain c where c: "f (conn_objs ctx ! i) = Done c" "ctx' = ctx\<lparr>conn_objs := (conn_objs ctx)[i := c]\<rparr>"
    using assms(1) by (auto simp: on_conn_def run_bind_Done)
  have "length (tc_ch (conn_objs ctx ! i)) \<le> MSG_CHANNEL_CAP" using assms(3,4) by (auto simp: tunnel_wf_def objects_ok_def)
  then have "tc_uid c = tc_uid (conn_objs ctx ! i)" "length (tc_ch c) \<le> MSG_CHANNEL_CAP" using assms(2) c(1) by (auto simp: conn_op_def)
  then show ?thesis using assms(3) by (simp add: c(2) tunnel_wf_def objects_ok_update)
qed

lemma on_frames:
  "on_node i f ctx = Done ctx' \<Longrightarrow> nodes ctx' = nodes ctx \<and> conns ctx' = conns ctx \<and> conn_objs ctx' = conn_objs ctx \<and> length (node_objs ctx') = length (node_objs ctx)"
  "on_conn i g ctx = Done ctx' \<Longrightarrow> nodes ctx' = nodes ctx \<and> conns ctx' = conns ctx \<and> node_objs ctx' = node_objs ctx \<and> length (conn_objs ctx') = length (conn_objs ctx)"
  by (auto simp: on_node_def on_conn_def run_bind_Done)

lemma GetNode_valid: "tunnel_wf ctx \<Longrightarrow> GetNode_ctx ctx name = Some i \<Longrightarrow> i < length (node_objs ctx)"
  by (auto simp: tunnel_wf_def GetNode_ctx_def dest: objects_ok_get)

lemma GetConn_valid: "tunnel_wf ctx \<Longrightarrow> GetConn ctx uid = Some i \<Longrightarrow> i < length (conn_objs ctx)"
  by (auto simp: tunnel_wf_def GetConn_def dest: objects_ok_get)

lemma AddNode_wf: "tunnel_wf ctx \<Longrightarrow> tunnel_wf (snd (AddNode name ctx))"
  by (auto simp: tunnel_wf_def AddNode_def Let_def intro!: objects_ok_add)

lemma AddConn_wf: "tunnel_wf ctx \<Longrightarrow> tunnel_wf (snd (AddConn uid ctx))"
  by (auto simp: tunnel_wf_def AddConn_def Let_def intro!: objects_ok_add)

lemma RemoveConn_wf: "tunnel_wf ctx \<Longrightarrow> tunnel_wf (RemoveConn uid ctx)"
  by (simp add: tunnel_wf_def RemoveConn_def objects_ok_del)

lemma nodes_RemoveNode_wf: "tunnel_wf ctx \<Longrightarrow> tunnel_wf (nodes_RemoveNode name ctx)"
  by (simp add: tunnel_wf_def nodes_RemoveNode_def objects_ok_del)

lemma run_for_inv:
  assumes "run_for f xs s = Done s'" "P s" "\<And>x s s'. x \<in> set xs \<Longrightarrow> P s \<Longrightarrow> f x s = Done s' \<Longrightarrow> P s'"
  shows "P s'"
  using assms by (induction xs arbitrary: s) (auto simp: run_bind_Done)

lemma RemoveNode_wf:
  assumes "RemoveNode name ctx = Done ctx'" "tunnel_wf ctx"
  shows "tunnel_wf ctx'"
proof (cases "GetNode_ctx ctx name")
  case (Some i)
  let ?P = "\<lambda>c. tunnel_wf c \<and> length (conn_objs c) = length (conn_objs ctx)"
  have send: "?P s'" if c: "c \<in> set (GetConns ctx names)" "?P s" "on_conn c (Send2Conn stopMsg) s = Done s'" for names c s s'
  proof -
    obtain uid where "mget (conns ctx) uid = Some c" using c(1) by (auto simp: GetConns_def List.map_filter_def)
    then have "c < length (conn_objs s)" using GetConn_valid [OF assms(2), of uid c] c(2) by (simp add: GetConn_def)
    then show ?thesis using on_conn_wf [OF c(3) conn_ops] on_frames(2) [OF c(3)] c(2) by simp
  qed
  have loop: "?P ctx1" if "run_for (\<lambda>c. on_conn c (Send2Conn stopMsg)) (GetConns ctx names) ctx = Done ctx1" for names ctx1
    by (rule run_for_inv [OF that, where P = ?P]) (simp add: assms(2), rule send)
  obtain ctx1 where ctx1: "?P ctx1" "ctx' = nodes_RemoveNode name ctx1"
  proof (cases "tn_conns (node_objs ctx ! i)")
    case None
    then show ?thesis using assms Some that [of ctx] by (simp add: RemoveNode_def)
  next
    case conns: (Some names)
    then obtain ctx1 where "run_for (\<lambda>c. on_conn c (Send2Conn stopMsg)) (GetConns ctx names) ctx = Done ctx1" "ctx' = nodes_RemoveNode name ctx1"
      using assms(1) Some by (auto simp: RemoveNode_def run_bind_Done)
    then show ?thesis using that [of ctx1] loop by blast
  qed
  then show ?thesis using nodes_RemoveNode_wf [of ctx1 name] by simp
qed (use assms in \<open>simp add: RemoveNode_def\<close>)

end
