(* ===== verification/TunnelSteps.thy ===== *)
theory TunnelSteps
  imports TunnelContext
begin

text \<open>
  Runs of a tunnel process: its operations as steps of any order, that the context stays well-formed, what taking a binding back does, and that the bytes of a
  connection come out of the tunnel as they went in.
\<close>

section \<open>Steps\<close>

text \<open>
  The operations of a tunnel process, each in one step. Node and connection objects are those that a goroutine has obtained. The critical sections of the
  operations that have several are steps of their own as well, so that the runs have every interleaving of them: the last one of \<open>RemoveNode\<close> is
  \<open>OpNodesRemove\<close>, after sends by \<open>OpSend2Conn\<close>.
\<close>

datatype tunnel_op = OpAddNode string | OpRemoveNode string | OpNodesRemove string | OpAddConn string | OpRemoveConn string
  | OpSend2Node nat StreamMsg | OpSend2Conn nat StreamMsg | OpNodeRecv nat | OpConnRecv nat
  | OpBind nat string | OpUnbind nat string | OpAddPair nat string string | OpRemovePair nat string
  | OpConnectBegin nat string string string | OpConnectEnd nat string "StreamMsg option"
  | OpDirect StreamMsg | OpConnecting "go_error option" StreamMsg | OpHeartbeat StreamMsg | OpReadEnd nat string

definition on_valid_node :: "nat \<Rightarrow> (tnode \<Rightarrow> tnode run) \<Rightarrow> TunnelContext \<Rightarrow> TunnelContext run" where
  "on_valid_node i f ctx = (if i < length (node_objs ctx) then on_node i f ctx else Stuck)"

definition on_valid_conn :: "nat \<Rightarrow> (tconn \<Rightarrow> tconn run) \<Rightarrow> TunnelContext \<Rightarrow> TunnelContext run" where
  "on_valid_conn i f ctx = (if i < length (conn_objs ctx) then on_conn i f ctx else Stuck)"

fun tunnel_step :: "tunnel_op \<Rightarrow> TunnelContext \<Rightarrow> TunnelContext run" where
  "tunnel_step (OpAddNode name) ctx = Done (snd (AddNode name ctx))"
| "tunnel_step (OpRemoveNode name) ctx = RemoveNode name ctx"
| "tunnel_step (OpNodesRemove name) ctx = Done (nodes_RemoveNode name ctx)"
| "tunnel_step (OpAddConn uid) ctx = Done (snd (AddConn uid ctx))"
| "tunnel_step (OpRemoveConn uid) ctx = Done (RemoveConn uid ctx)"
| "tunnel_step (OpSend2Node i msg) ctx = on_valid_node i (Send2Node msg) ctx"
| "tunnel_step (OpSend2Conn i msg) ctx = on_valid_conn i (Send2Conn msg) ctx"
| "tunnel_step (OpNodeRecv i) ctx = on_valid_node i (\<lambda>n. if tn_ch n = [] then Stuck else Done (n\<lparr>tn_ch := tl (tn_ch n)\<rparr>)) ctx"
| "tunnel_step (OpConnRecv i) ctx = on_valid_conn i (\<lambda>c. if tc_ch c = [] then Stuck else Done (c\<lparr>tc_ch := tl (tc_ch c)\<rparr>)) ctx"
| "tunnel_step (OpBind i uid) ctx = on_valid_node i (\<lambda>n. Done (BindNode uid n)) ctx"
| "tunnel_step (OpUnbind i uid) ctx = on_valid_node i (UnbindNode uid) ctx"
| "tunnel_step (OpAddPair i uid name) ctx = on_valid_node i (\<lambda>n. Done (AddPairNode uid name n)) ctx"
| "tunnel_step (OpRemovePair i uid) ctx = on_valid_node i (\<lambda>n. Done (RemovePairNode uid n)) ctx"
| "tunnel_step (OpConnectBegin i category addr uid) ctx =
     (if i < length (node_objs ctx) then run_bind (connect_begin i category addr uid ctx) (\<lambda>(_, ctx1). Done ctx1) else Stuck)"
| "tunnel_step (OpConnectEnd i uid resp) ctx =
     (if i < length (node_objs ctx) then run_bind (connect_end i uid resp ctx) (\<lambda>(_, ctx1). Done ctx1) else Stuck)"
| "tunnel_step (OpDirect msg) ctx = run_bind (DirectHandler msg ctx) (\<lambda>(_, ctx1). Done ctx1)"
| "tunnel_step (OpConnecting dial msg) ctx = run_bind (ConnectingHandler dial msg ctx) (\<lambda>(_, ctx1). Done ctx1)"
| "tunnel_step (OpHeartbeat msg) ctx = run_bind (HeartbeatHandler msg ctx) (\<lambda>(_, ctx1). Done ctx1)"
| "tunnel_step (OpReadEnd i uid) ctx = (if i < length (node_objs ctx) then Read_end i uid ctx else Stuck)"



lemma AddConn_nodes [simp]: "node_objs (snd (AddConn uid ctx)) = node_objs ctx"
  by (simp add: AddConn_def Let_def)



lemma DirectHandler_wf:
  assumes "DirectHandler msg ctx = Done (e, ctx')" "tunnel_wf ctx"
  shows "tunnel_wf ctx'"
proof -
  have pair: "j < length (node_objs ctx)" if "pair_of ctx msg = Some j" for j
    using that GetNode_valid [OF assms(2)] by (auto simp: pair_of_def Let_def split: option.splits if_splits)
  show ?thesis using assms pair on_conn_wf [OF _ conn_ops assms(2) GetConn_valid [OF assms(2)]]
      on_node_wf [OF _ node_ops(1) assms(2)] GetNode_valid [OF assms(2)]
    by (auto simp: DirectHandler_def run_bind_Done split: option.splits if_splits)
qed








text \<open>
  The gauge of connected nodes is not tied to the map. Two goroutines that remove the same node, each after it has found it, decrement the gauge
  twice: it then says that no node is connected while one is.
\<close>

lemma concurrent_removals:
  "\<exists>ctx. run_for tunnel_step [OpAddNode ''edge-1'', OpAddNode ''edge-2'', OpNodesRemove ''edge-1'', OpNodesRemove ''edge-1''] GetContext = Done ctx \<and>
     GetNodes_ctx ctx = [''edge-2''] \<and> EdgeNodes_gauge ctx = 0"
  by (simp add: AddNode_def nodes_RemoveNode_def GetContext_def GetNodes_ctx_def)

section \<open>Unbinding\<close>

lemma unbind_loop_absent: "uuid \<notin> set (drop k arr) \<Longrightarrow> k + n \<le> length arr \<Longrightarrow> unbind_loop uuid n k arr len = Done (take len arr)"
proof (induction n arbitrary: k)
  case (Suc n)
  then have "arr ! k \<in> set (drop k arr)" by (simp add: Cons_nth_drop_Suc [symmetric])
  moreover have "set (drop (k + 1) arr) \<subseteq> set (drop k arr)" by (simp add: set_drop_subset_set_drop)
  ultimately have "arr ! k \<noteq> uuid" "uuid \<notin> set (drop (k + 1) arr)" using Suc.prems(1) by auto
  then show ?case using Suc.IH [of "k + 1"] Suc.prems(2) by simp
qed simp

lemma unbind_loop_skip: "uuid \<notin> set xs \<Longrightarrow> unbind_loop uuid (length xs + n) (length ys) (ys @ xs @ zs) len = unbind_loop uuid n (length ys + length xs) (ys @ xs @ zs) len"
proof (induction xs arbitrary: ys)
  case (Cons x xs)
  then have "x \<noteq> uuid" by auto
  then show ?case using Cons.IH [of "ys @ [x]"] Cons.prems by (simp add: nth_append)
qed simp

lemma unbind_loop_once:
  assumes "uuid \<notin> set xs" "uuid \<notin> set ys"
  shows "unbind_loop uuid (length xs + Suc (length ys)) 0 (xs @ uuid # ys) (length xs + Suc (length ys)) = Done (xs @ ys)"
proof -
  let ?arr = "xs @ ys @ drop (length ys) (uuid # ys)"
  have "unbind_loop uuid (length xs + Suc (length ys)) 0 (xs @ uuid # ys) (length xs + Suc (length ys)) =
      unbind_loop uuid (Suc (length ys)) (length xs) (xs @ uuid # ys) (length xs + Suc (length ys))"
    using unbind_loop_skip [OF assms(1), of "Suc (length ys)" "[]" "uuid # ys"] by simp
  also have "\<dots> = unbind_loop uuid (length ys) (length xs + 1) ?arr (length xs + length ys)"
    by (simp add: nth_append)
  also have "\<dots> = Done (take (length xs + length ys) ?arr)"
  proof (cases ys)
    case (Cons y ys')
    then have "set (drop (length xs + 1) ?arr) \<subseteq> set ys" by (auto dest: in_set_dropD)
    then have "uuid \<notin> set (drop (length xs + 1) ?arr)" using assms(2) by blast
    then show ?thesis by (rule unbind_loop_absent) simp
  qed simp
  finally show ?thesis by simp
qed

lemma UnbindNode_bound_once:
  assumes "tn_conns n = Some cs" "count_list cs uuid \<le> 1"
  shows "UnbindNode uuid n = Done (n\<lparr>tn_conns := Some (remove1 uuid cs), tn_pairnodes := mdel uuid (tn_pairnodes n)\<rparr>)"
proof (cases "uuid \<in> set cs")
  case True
  then obtain xs ys where cs: "cs = xs @ uuid # ys" "uuid \<notin> set xs" by (meson split_list_first)
  then have "uuid \<notin> set ys" using assms(2) by (simp add: count_list_0_iff)
  then show ?thesis using cs assms(1) unbind_loop_once [of uuid xs ys] by (simp add: UnbindNode_def remove1_append)
next
  case False
  then show ?thesis using assms(1) unbind_loop_absent [of uuid 0 cs "length cs" "length cs"] by (simp add: UnbindNode_def remove1_idem)
qed

text \<open>Once an element is gone the range still visits the last cell of the array: when the trace id stands there, it is beyond the slice.\<close>

lemma unbind_loop_crash:
  "k + Suc n = length arr \<Longrightarrow> len < length arr \<Longrightarrow> last arr = uuid \<Longrightarrow> unbind_loop uuid (Suc n) k arr len = Crash"
proof (induction n arbitrary: k arr len)
  case 0
  then have "arr ! k = uuid" by (metis add_diff_cancel_right' last_conv_nth list.size(3) not_less_zero One_nat_def)
  then show ?case using 0 by simp
next
  case (Suc n)
  let ?arr = "take k arr @ take (len - (k + 1)) (drop (k + 1) arr) @ drop (len - 1) arr"
  show ?case
  proof (cases "arr ! k = uuid \<and> k + 1 \<le> len")
    case True
    then have "length ?arr = length arr" using Suc.prems by simp
    moreover have "drop (len - 1) arr \<noteq> []" using Suc.prems by simp
    then have "last ?arr = uuid" using Suc.prems(3) by (simp add: last_append)
    ultimately have "unbind_loop uuid (Suc n) (k + 1) ?arr (len - 1) = Crash" using Suc.prems by (intro Suc.IH) simp_all
    then show ?thesis using True unbind_loop.simps(2) [of uuid "Suc n" k arr len] by simp
  next
    case False
    then show ?thesis using Suc.IH [of "k + 1" arr len] Suc.prems unbind_loop.simps(2) [of uuid "Suc n" k arr len] by auto
  qed
qed

lemma UnbindNode_bound_twice:
  assumes "tn_conns n = Some (cs @ [uuid])" "uuid \<in> set cs"
  shows "UnbindNode uuid n = Crash"
proof -
  obtain xs ys where cs: "cs = xs @ uuid # ys" "uuid \<notin> set xs" using assms(2) by (meson split_list_first)
  let ?n = "Suc (length ys)" and ?len = "length xs + Suc (Suc (length ys))"
  have "unbind_loop uuid (length xs + Suc ?n) 0 (xs @ uuid # ys @ [uuid]) ?len = unbind_loop uuid (Suc ?n) (length xs) (xs @ uuid # ys @ [uuid]) ?len"
    using unbind_loop_skip [OF cs(2), of "Suc ?n" "[]" "uuid # ys @ [uuid]"] by simp
  also have "\<dots> = unbind_loop uuid ?n (length xs + 1) (xs @ ys @ [uuid] @ [uuid]) (length xs + Suc (length ys))"
    by (simp add: nth_append)
  also have "\<dots> = Crash" by (rule unbind_loop_crash) simp_all
  finally show ?thesis using assms(1) by (simp add: UnbindNode_def cs(1))
qed

lemma connect_begin_binds:
  assumes "tunnel_step (OpConnectBegin i category addr uid) ctx = Done ctx'"
  shows "i < length (node_objs ctx)" "length (node_objs ctx') = length (node_objs ctx)"
    "tn_conns (node_objs ctx' ! i) = Some (case tn_conns (node_objs ctx ! i) of None \<Rightarrow> [uid] | Some cs \<Rightarrow> cs @ [uid])"
  using assms
  by (auto simp: connect_begin_def run_bind_Done case_prod_unfold on_node_def Send2Node_def BindNode_def AddConn_def Let_def split: if_splits)

text \<open>
  The operations that leave the bindings of a node object as they are, and those that at most add some. A connection that is opened by
  \<open>ConnectingHandler\<close> binds the node that its message names.
\<close>

fun adds_bindings :: "nat \<Rightarrow> tunnel_op \<Rightarrow> bool" where
  "adds_bindings i (OpUnbind j _) \<longleftrightarrow> j \<noteq> i"
| "adds_bindings i (OpConnectEnd j _ _) \<longleftrightarrow> j \<noteq> i"
| "adds_bindings i (OpReadEnd j _) \<longleftrightarrow> j \<noteq> i"
| "adds_bindings i _ \<longleftrightarrow> True"

fun keeps_bindings :: "nat \<Rightarrow> tunnel_op \<Rightarrow> bool" where
  "keeps_bindings i (OpBind j _) \<longleftrightarrow> j \<noteq> i"
| "keeps_bindings i (OpConnectBegin j _ _ _) \<longleftrightarrow> j \<noteq> i"
| "keeps_bindings i (OpConnecting _ _) \<longleftrightarrow> False"
| "keeps_bindings i p \<longleftrightarrow> adds_bindings i p"

definition bindings :: "nat \<Rightarrow> TunnelContext \<Rightarrow> string list option" where
  "bindings i ctx = (if i < length (node_objs ctx) then tn_conns (node_objs ctx ! i) else None)"

definition bound_in :: "string \<Rightarrow> string list option \<Rightarrow> bool" where
  "bound_in uid b \<longleftrightarrow> (case b of None \<Rightarrow> False | Some cs \<Rightarrow> uid \<in> set cs)"

lemma on_node_bindings:
  assumes "on_node j f ctx = Done ctx'"
  shows "bindings i ctx' = (if i = j \<and> i < length (node_objs ctx) then (case f (node_objs ctx ! j) of Done n \<Rightarrow> tn_conns n | _ \<Rightarrow> None) else bindings i ctx)"
  using assms by (auto simp: on_node_def run_bind_Done bindings_def)

lemma on_conn_bindings: "on_conn j f ctx = Done ctx' \<Longrightarrow> bindings i ctx' = bindings i ctx"
  using on_frames(2) by (simp add: bindings_def)

lemma context_bindings [simp]:
  "bindings i (snd (AddConn uid ctx)) = bindings i ctx" "bindings i (RemoveConn uid ctx) = bindings i ctx" "bindings i (nodes_RemoveNode name ctx) = bindings i ctx"
  by (simp_all add: bindings_def RemoveConn_def nodes_RemoveNode_def)

lemma AddNode_bindings [simp]: "bindings i (snd (AddNode name ctx)) = bindings i ctx"
  by (auto simp: bindings_def AddNode_def Let_def nth_append less_Suc_eq)

lemma RemoveNode_bindings: "RemoveNode name ctx = Done ctx' \<Longrightarrow> bindings i ctx' = bindings i ctx"
proof -
  have "run_for (\<lambda>c. on_conn c (Send2Conn stopMsg)) cs ctx = Done s \<Longrightarrow> bindings i s = bindings i ctx" for cs s
    by (erule run_for_inv [where P = "\<lambda>s. bindings i s = bindings i ctx"]) (auto simp: on_conn_bindings [where i = i])
  then show "RemoveNode name ctx = Done ctx' \<Longrightarrow> bindings i ctx' = bindings i ctx"
    by (auto simp: RemoveNode_def run_bind_Done split: option.splits)
qed

lemma op_bindings [simp]:
  "tn_conns (AddPairNode uid name n) = tn_conns n" "tn_conns (RemovePairNode uid n) = tn_conns n"
  "Send2Node msg n = Done n' \<Longrightarrow> tn_conns n' = tn_conns n"
  by (auto simp: AddPairNode_def RemovePairNode_def Send2Node_def run_bind_Done)

lemma on_node_keeps:
  assumes "on_node j f ctx = Done ctx'" "\<And>n n'. f n = Done n' \<Longrightarrow> tn_conns n' = tn_conns n"
  shows "bindings i ctx' = bindings i ctx"
  using assms by (cases "i = j") (auto simp: on_node_def run_bind_Done bindings_def)

lemma Send2Node_bindings:
  "on_node j (Send2Node msg) ctx = Done ctx' \<Longrightarrow> bindings i ctx' = bindings i ctx"
  "on_node j (\<lambda>n. Send2Node (g n) n) ctx = Done ctx' \<Longrightarrow> bindings i ctx' = bindings i ctx"
  by (erule on_node_keeps, simp)+

lemma node_op_bindings:
  "on_node j (\<lambda>n. if tn_ch n = [] then Stuck else Done (n\<lparr>tn_ch := tl (tn_ch n)\<rparr>)) ctx = Done ctx' \<Longrightarrow> bindings i ctx' = bindings i ctx"
  "on_node j (\<lambda>n. Done (AddPairNode uid name n)) ctx = Done ctx' \<Longrightarrow> bindings i ctx' = bindings i ctx"
  "on_node j (\<lambda>n. Done (RemovePairNode uid n)) ctx = Done ctx' \<Longrightarrow> bindings i ctx' = bindings i ctx"
  by (erule on_node_keeps, auto split: if_splits)+

lemma DirectHandler_bindings: "DirectHandler msg ctx = Done (e, ctx') \<Longrightarrow> bindings i ctx' = bindings i ctx"
  by (auto simp: DirectHandler_def run_bind_Done dest: on_conn_bindings Send2Node_bindings split: option.splits if_splits)

lemma HeartbeatHandler_bindings: "HeartbeatHandler msg ctx = Done (e, ctx') \<Longrightarrow> bindings i ctx' = bindings i ctx"
  by (auto simp: HeartbeatHandler_def run_bind_Done dest: Send2Node_bindings split: option.splits)

lemma BindNode_bound: "bound_in uid (tn_conns n) \<Longrightarrow> bound_in uid (tn_conns (BindNode u n))"
  by (auto simp: BindNode_def bound_in_def split: option.splits)

lemma connect_begin_bindings:
  assumes "connect_begin j category addr u ctx = Done (c, ctx')"
  shows "bindings i ctx' = (if i = j \<and> i < length (node_objs ctx) then tn_conns (BindNode u (node_objs ctx ! j)) else bindings i ctx)"
  using assms by (auto simp: connect_begin_def run_bind_Done case_prod_unfold on_node_def bindings_def AddConn_def Let_def nth_list_update)

lemma ConnectingHandler_bound:
  assumes "ConnectingHandler dial msg ctx = Done (e, ctx')" "bound_in uid (bindings i ctx)"
  shows "bound_in uid (bindings i ctx')"
proof -
  have bind: "bound_in uid (bindings i c')" if "on_node j (\<lambda>n. Done (BindNode u n)) c = Done c'" "bound_in uid (bindings i c)" for j u c c'
    using that BindNode_bound by (cases "i = j") (auto simp: on_node_def bindings_def split: if_splits)
  show ?thesis using assms
    by (auto simp: ConnectingHandler_def run_bind_Done Let_def case_prod_unfold dest!: on_conn_bindings [where i = i] Send2Node_bindings(2) [where i = i]
        intro: bind split: option.splits)
qed

text \<open>A step that keeps the bindings does so, and one that only adds some leaves a bound trace id bound.\<close>

lemma step_keeps_bindings:
  assumes "tunnel_step p ctx = Done ctx'" "keeps_bindings i p"
  shows "bindings i ctx' = bindings i ctx"
  using assms
  by (cases p)
     (auto simp: on_valid_node_def on_valid_conn_def run_bind_Done connect_end_def Read_end_def Let_def
       dest: RemoveNode_bindings [where i = i] on_conn_bindings [where i = i] Send2Node_bindings [where i = i] DirectHandler_bindings [where i = i]
         HeartbeatHandler_bindings [where i = i] node_op_bindings [where i = i] on_node_bindings [where i = i] connect_begin_bindings [where i = i] split: if_splits option.splits)

lemma step_adds_bindings:
  assumes "tunnel_step p ctx = Done ctx'" "adds_bindings i p" "bound_in uid (bindings i ctx)"
  shows "bound_in uid (bindings i ctx')"
proof (cases "keeps_bindings i p")
  case True
  then show ?thesis using step_keeps_bindings [OF assms(1)] assms(3) by simp
next
  case False
  have valid: "bindings i ctx = tn_conns (node_objs ctx ! i)" using assms(3) by (auto simp: bindings_def bound_in_def split: if_splits)
  show ?thesis using assms False
    by (cases p) (auto simp: on_valid_node_def run_bind_Done valid dest!: on_node_bindings [where i = i] connect_begin_bindings [where i = i]
        intro: BindNode_bound ConnectingHandler_bound split: if_splits)
qed

lemma run_for_append: "run_for f (xs @ ys) s = run_bind (run_for f xs s) (run_for f ys)"
  by (induction xs arbitrary: s) (auto simp: run_bind_def split: run.split)

text \<open>
  C19: two requests with the same trace id bring the tunnel down. The id of a request is taken from its \<open>Traceid\<close> header when the client sends one. When two
  requests through the same node carry the same id, and no connection of the node ends in between, the node is bound twice to it. If then the reading side of
  either connection ends before the node is bound again or loses another binding, taking the binding back runs past the end of the slice: a panic of the
  process, whatever the state was before and whatever other operations run in between.
\<close>

theorem shared_trace_id_crashes:
  assumes "run_for tunnel_step (OpConnectBegin i category addr uid # mid @ OpConnectBegin i category' addr' uid # later) ctx = Done ctx'"
    "list_all (adds_bindings i) mid" "list_all (keeps_bindings i) later"
  shows "tunnel_step (OpReadEnd i uid) ctx' = Crash"
proof -
  obtain ctx1 ctx2 ctx3 where run: "tunnel_step (OpConnectBegin i category addr uid) ctx = Done ctx1" "run_for tunnel_step mid ctx1 = Done ctx2"
    "tunnel_step (OpConnectBegin i category' addr' uid) ctx2 = Done ctx3" "run_for tunnel_step later ctx3 = Done ctx'"
    using assms(1) by (auto simp: run_for_append run_bind_Done simp del: tunnel_step.simps)
  have "bound_in uid (bindings i ctx1)" using connect_begin_binds [OF run(1)] by (simp add: bindings_def bound_in_def split: option.splits)
  then have "bound_in uid (bindings i ctx2)"
    by (rule run_for_inv [OF run(2), where P = "\<lambda>c. bound_in uid (bindings i c)"]) (use assms(2) step_adds_bindings in \<open>auto simp: list_all_iff\<close>)
  then obtain cs where cs: "bindings i ctx2 = Some cs" "uid \<in> set cs" by (auto simp: bound_in_def split: option.splits)
  then have "bindings i ctx3 = Some (cs @ [uid])" using connect_begin_binds [OF run(3)] by (simp add: bindings_def split: if_splits)
  then have "bindings i ctx' = Some (cs @ [uid])"
    by (rule run_for_inv [OF run(4), where P = "\<lambda>c. bindings i c = Some (cs @ [uid])"]) (use assms(3) step_keeps_bindings in \<open>auto simp: list_all_iff\<close>)
  then have "i < length (node_objs ctx')" "tn_conns (node_objs ctx' ! i) = Some (cs @ [uid])" by (auto simp: bindings_def split: if_splits)
  then show ?thesis using UnbindNode_bound_twice [OF _ cs(2)] by (simp add: Read_end_def on_node_def)
qed

text \<open>When another connection is bound to the node after the two, the loop ends before it gets there.\<close>

lemma bound_after_two: "a \<noteq> b \<Longrightarrow> tn_conns n = Some [a, a, b] \<Longrightarrow> UnbindNode a n \<noteq> Crash"
  by (simp add: UnbindNode_def)

definition tunnel_up :: TunnelContext where
  "tunnel_up = snd (AddNode ''edge-1'' GetContext)"

definition sharing_run :: "tunnel_op list" where
  "sharing_run = [OpConnectBegin 0 HTTP_PROXY ''10.0.0.1:80'' ''t1'', OpNodeRecv 0, OpConnectBegin 0 SSH ''10.0.0.1:22'' ''t2'',
     OpConnectBegin 0 HTTP_PROXY ''10.0.0.2:80'' ''t1'', OpNodeRecv 0]"

theorem shared_trace_id_crashes_witness:
  "case run_for tunnel_step sharing_run tunnel_up of Done ctx \<Rightarrow> tunnel_step (OpReadEnd 0 ''t1'') ctx = Crash | _ \<Rightarrow> False"
proof -
  have "case run_for tunnel_step sharing_run tunnel_up of Done _ \<Rightarrow> True | _ \<Rightarrow> False" by code_simp
  then obtain ctx where ctx: "run_for tunnel_step sharing_run tunnel_up = Done ctx" by (cases "run_for tunnel_step sharing_run tunnel_up") auto
  have "sharing_run = OpConnectBegin 0 HTTP_PROXY ''10.0.0.1:80'' ''t1'' # [OpNodeRecv 0, OpConnectBegin 0 SSH ''10.0.0.1:22'' ''t2''] @
      OpConnectBegin 0 HTTP_PROXY ''10.0.0.2:80'' ''t1'' # [OpNodeRecv 0]"
    by (simp add: sharing_run_def)
  from shared_trace_id_crashes [OF ctx [unfolded this]] show ?thesis by (simp only: ctx run.case) simp
qed

section \<open>Delivery\<close>

text \<open>
  A connection \<open>c\<close> is served by one writer while messages come out of the stream: \<open>Some msg\<close> is a message that \<open>DirectHandler\<close> takes, \<open>None\<close> a round
  of the writer. The state is the context, what has been written, and whether the writer still runs.
\<close>

fun deliver :: "nat \<Rightarrow> StreamMsg option \<Rightarrow> TunnelContext \<times> string \<times> bool \<Rightarrow> (TunnelContext \<times> string \<times> bool) run" where
  "deliver c (Some msg) (ctx, out, running) = run_bind (DirectHandler msg ctx) (\<lambda>(_, ctx1). Done (ctx1, out, running))"
| "deliver c None (ctx, out, running) =
     (if running then run_bind (Write_step True (conn_objs ctx ! c)) (\<lambda>((d, go_on), x). Done (ctx\<lparr>conn_objs := (conn_objs ctx)[c := x]\<rparr>, out @ d, go_on))
      else Stuck)"

definition arrived :: "StreamMsg option list \<Rightarrow> string \<Rightarrow> StreamMsg list" where
  "arrived evs uid = filter (\<lambda>m. sm_Topic m = uid) (List.map_filter id evs)"

definition written_bytes :: "StreamMsg list \<Rightarrow> string" where
  "written_bytes ms = concat (map sm_Data (takeWhile (\<lambda>m. sm_Type m \<noteq> CLOSED) ms))"

lemma DirectHandler_effect:
  assumes "DirectHandler msg ctx = Done (e, ctx')" "tunnel_wf ctx" "GetConn ctx uid = Some c"
  shows "GetConn ctx' uid = Some c"
    "tc_ch (conn_objs ctx' ! c) = tc_ch (conn_objs ctx ! c) @ (if sm_Topic msg = uid then [msg] else [])"
proof -
  show "GetConn ctx' uid = Some c" using assms(1,3) on_frames
    by (auto simp: DirectHandler_def run_bind_Done GetConn_def split: option.splits if_splits)
  show "tc_ch (conn_objs ctx' ! c) = tc_ch (conn_objs ctx ! c) @ (if sm_Topic msg = uid then [msg] else [])"
  proof (cases "GetConn ctx (sm_Topic msg)")
    case (Some d)
    then have d: "d < length (conn_objs ctx)" "on_conn d (Send2Conn msg) ctx = Done ctx'" using assms(1) GetConn_valid [OF assms(2)] by (auto simp: DirectHandler_def run_bind_Done)
    have "d = c \<longleftrightarrow> sm_Topic msg = uid"
      using Some assms(2,3) objects_ok_inj [of tc_uid tc_ch "conns ctx" "conn_objs ctx"] by (auto simp: GetConn_def tunnel_wf_def)
    then show ?thesis using d by (auto simp: on_conn_def run_bind_Done Send2Conn_def dest!: channel_send_ok)
  next
    case None
    then have "sm_Topic msg \<noteq> uid" using assms(3) by auto
    moreover have "conn_objs ctx' = conn_objs ctx" using None assms(1) on_frames
      by (auto simp: DirectHandler_def run_bind_Done split: option.splits if_splits)
    ultimately show ?thesis by simp
  qed
qed

lemma deliver_wf:
  assumes "deliver c e (ctx, out, r) = Done (ctx', out', r')" "tunnel_wf ctx" "GetConn ctx uid = Some c"
  shows "tunnel_wf ctx'" "GetConn ctx' uid = Some c"
proof -
  have c: "c < length (conn_objs ctx)" using assms(2,3) by (rule GetConn_valid)
  have "tunnel_wf ctx' \<and> GetConn ctx' uid = Some c"
  proof (cases e)
    case None
    then obtain d g x where x: "Write_step True (conn_objs ctx ! c) = Done ((d, g), x)" "ctx' = ctx\<lparr>conn_objs := (conn_objs ctx)[c := x]\<rparr>"
      using assms(1) by (auto simp: run_bind_Done split: if_splits)
    then have "on_conn c (\<lambda>y. run_bind (Write_step True y) (\<lambda>(_, x). Done x)) ctx = Done ctx'" by (simp add: on_conn_def)
    moreover have "conn_op (\<lambda>y. run_bind (Write_step True y) (\<lambda>(_, x). Done x))" by (auto simp: conn_op_def Write_step_def split: list.splits)
    ultimately show ?thesis using on_conn_wf [OF _ _ assms(2) c] on_frames(2) assms(3) by (fastforce simp: GetConn_def)
  next
    case (Some msg)
    then show ?thesis using assms DirectHandler_wf DirectHandler_effect(1) by (fastforce simp: run_bind_Done)
  qed
  then show "tunnel_wf ctx'" "GetConn ctx' uid = Some c" by simp_all
qed

lemma written_step:
  assumes "Write_step True c = Done ((d, g), c')"
  shows "written_bytes (tc_ch c @ ms) = d @ (if g then written_bytes (tc_ch c' @ ms) else [])"
  using assms by (auto simp: Write_step_def written_bytes_def split: list.splits if_splits)

text \<open>What is written, and what the writer would still write of the messages in the channel and of those to come, does not change.\<close>

lemma deliver_run:
  assumes "run_for (deliver c) evs (ctx, out, r) = Done (ctx', out', r')" "tunnel_wf ctx" "GetConn ctx uid = Some c"
  shows "out' @ (if r' then written_bytes (tc_ch (conn_objs ctx' ! c)) else []) = out @ (if r then written_bytes (tc_ch (conn_objs ctx ! c) @ arrived evs uid) else [])"
  using assms
proof (induction evs arbitrary: ctx out r)
  case Nil
  then show ?case by (simp add: arrived_def List.map_filter_def)
next
  case (Cons e evs)
  obtain ctx1 out1 r1 where step: "deliver c e (ctx, out, r) = Done (ctx1, out1, r1)" and rest: "run_for (deliver c) evs (ctx1, out1, r1) = Done (ctx', out', r')"
    using Cons.prems(1) by (auto simp: run_bind_Done)
  note IH = Cons.IH [OF rest deliver_wf [OF step Cons.prems(2,3)]]
  have c: "c < length (conn_objs ctx)" using Cons.prems(2,3) by (rule GetConn_valid)
  have "out1 @ (if r1 then written_bytes (tc_ch (conn_objs ctx1 ! c) @ arrived evs uid) else []) =
      out @ (if r then written_bytes (tc_ch (conn_objs ctx ! c) @ arrived (e # evs) uid) else [])"
  proof (cases e)
    case None
    then obtain d g x where x: "r" "Write_step True (conn_objs ctx ! c) = Done ((d, r1), x)" "ctx1 = ctx\<lparr>conn_objs := (conn_objs ctx)[c := x]\<rparr>" "out1 = out @ d"
      using step by (auto simp: run_bind_Done split: if_splits)
    then show ?thesis using written_step [OF x(2), of "arrived evs uid"] c None by (simp add: arrived_def List.map_filter_simps)
  next
    case (Some msg)
    then obtain er where "DirectHandler msg ctx = Done (er, ctx1)" "out1 = out" "r1 = r" using step by (auto simp: run_bind_Done)
    then show ?thesis using DirectHandler_effect(2) [OF _ Cons.prems(2,3)] Some by (simp add: arrived_def List.map_filter_simps)
  qed
  then show ?case using IH by simp
qed

lemma written_read_msgs: "handleType \<noteq> CLOSED \<Longrightarrow> written_bytes (read_msgs name category handleType uuid chunks err) = concat chunks"
  by (induction chunks) (auto simp: written_bytes_def read_msgs_def)

text \<open>
  C5: the tunnel delivers a byte stream. Let one side read a connection in chunks and let the messages of \<open>Read\<close> arrive at the other side in order, mixed with any
  messages of other connections, while the writer of the connection takes messages at any moment. When all have arrived, what has been written and what
  the writer still finds in its channel are the bytes that were read; and when the writer has stopped, they have all been written.
\<close>

theorem tunnel_delivers:
  assumes "run_for (deliver c) evs (ctx, [], True) = Done (ctx', out, running)"
    and "tunnel_wf ctx" "GetConn ctx uid = Some c" "tc_ch (conn_objs ctx ! c) = []"
    and "arrived evs uid = read_msgs name category TCP_FORWARD uid chunks err"
  shows "out @ (if running then written_bytes (tc_ch (conn_objs ctx' ! c)) else []) = concat chunks"
  using deliver_run [OF assms(1-3)] written_read_msgs [of TCP_FORWARD] assms(4,5) by (simp add: TCP_FORWARD_def CLOSED_def)

definition tunnel_conn :: TunnelContext where
  "tunnel_conn = snd (AddConn ''t1'' tunnel_up)"

definition tunnel_events :: "StreamMsg option list" where
  "tunnel_events =
     (let ms = read_msgs ''edge-1'' HTTP_PROXY TCP_FORWARD ''t1'' [''GET '', ''/''] ''EOF'';
          other = \<lparr>sm_Node = ''edge-1'', sm_Category = SSH, sm_Type = TCP_FORWARD, sm_Topic = ''t2'', sm_Data = ''x'', sm_Addr = ''''\<rparr>
      in [Some (ms ! 0), Some other, None, Some (ms ! 1), Some (ms ! 2), None, None])"

theorem tunnel_delivers_witness:
  "case run_for (deliver 0) tunnel_events (tunnel_conn, [], True) of Done (ctx', out, running) \<Rightarrow> out @ (if running then written_bytes (tc_ch (conn_objs ctx' ! 0)) else []) = ''GET /'' | _ \<Rightarrow> False"
proof -
  have "case run_for (deliver 0) tunnel_events (tunnel_conn, [], True) of Done _ \<Rightarrow> True | _ \<Rightarrow> False" by code_simp
  then obtain ctx' out running where run: "run_for (deliver 0) tunnel_events (tunnel_conn, [], True) = Done (ctx', out, running)"
    by (cases "run_for (deliver 0) tunnel_events (tunnel_conn, [], True)") auto
  have "tunnel_wf tunnel_conn" "GetConn tunnel_conn ''t1'' = Some 0" "tc_ch (conn_objs tunnel_conn ! 0) = []" by code_simp+
  moreover have "arrived tunnel_events ''t1'' = read_msgs ''edge-1'' HTTP_PROXY TCP_FORWARD ''t1'' [''GET '', ''/''] ''EOF''" by code_simp
  ultimately have "out @ (if running then written_bytes (tc_ch (conn_objs ctx' ! 0)) else []) = concat [''GET '', ''/'']" by (rule tunnel_delivers [OF run])
  then show ?thesis by (simp add: run)
qed

end
