(* ===== verification/TunnelStream.thy ===== *)
theory TunnelStream
  imports TunnelSteps "HOL-Library.Sublist"
begin

text \<open>
  The streams that connect an edge node with the cloud (\<open>streammng/connect/streaminterceptor.go\<close>, \<open>streammng/stream\<close>): the rounds of sending and receiving,
  the heartbeat of the edge, and the tokens by which the cloud admits a node (\<open>token/tokencache.go\<close>). The transport is an argument: whether a message could be
  sent, and which messages come in.
\<close>

section \<open>Sending and receiving\<close>

definition stream_closed :: "string \<Rightarrow> StreamMsg" where
  "stream_closed name = \<lparr>sm_Node = name, sm_Category = STREAM, sm_Type = CLOSED, sm_Topic = '''', sm_Data = '''', sm_Addr = ''''\<rparr>"

datatype send_outcome = Sent StreamMsg | Send_failed go_error | Send_stopped

text \<open>One round of \<open>SendMsg\<close>, the same on both sides; it waits while the node has no message.\<close>

definition SendMsg_round :: "go_error option \<Rightarrow> tnode \<Rightarrow> (send_outcome \<times> tnode) run" where
  "SendMsg_round err n =
     (case tn_ch n of
        [] \<Rightarrow> Stuck
      | msg # ms \<Rightarrow>
          Done (if sm_Category msg = STREAM \<and> sm_Type msg = CLOSED then Send_stopped
                else case err of None \<Rightarrow> Sent msg | Some e \<Rightarrow> Send_failed e, n\<lparr>tn_ch := ms\<rparr>))"

text \<open>\<open>RecvMsg\<close>: a failure tells the sending side of the node that is registered under the name; a message goes to its handler, the answer to a heartbeat aside.\<close>

definition RecvMsg_failed :: "string \<Rightarrow> TunnelContext \<Rightarrow> TunnelContext run" where
  "RecvMsg_failed name ctx = (case GetNode_ctx ctx name of None \<Rightarrow> Done ctx | Some i \<Rightarrow> on_node i (Send2Node (stream_closed name)) ctx)"

definition server_RecvMsg :: "(StreamMsg \<Rightarrow> TunnelContext \<Rightarrow> (bool \<times> TunnelContext) run) \<Rightarrow> (string \<Rightarrow> go_error option) \<Rightarrow> StreamMsg \<Rightarrow> TunnelContext \<Rightarrow> TunnelContext run" where
  "server_RecvMsg access dial msg ctx = Handler access dial msg (sm_Type msg) (sm_Category msg) ctx"

definition client_RecvMsg :: "(StreamMsg \<Rightarrow> TunnelContext \<Rightarrow> (bool \<times> TunnelContext) run) \<Rightarrow> (string \<Rightarrow> go_error option) \<Rightarrow> StreamMsg \<Rightarrow> bool \<times> TunnelContext \<Rightarrow> (bool \<times> TunnelContext) run" where
  "client_RecvMsg access dial msg s =
     (let (restart, ctx) = s in
      if sm_Category msg = STREAM \<and> sm_Type msg = STREAM_HEART_BEAT then Done (False, ctx)
      else run_bind (Handler access dial msg (sm_Type msg) (sm_Category msg) ctx) (\<lambda>ctx1. Done (restart, ctx1)))"

text \<open>The end of a stream: \<open>TunnelStreaming\<close> returns the first error of the two sides, and the interceptor removes the node of that name.\<close>

definition interceptor_end :: "string \<Rightarrow> go_error option \<Rightarrow> TunnelContext \<Rightarrow> TunnelContext run" where
  "interceptor_end name err ctx = (case err of None \<Rightarrow> Done ctx | Some _ \<Rightarrow> RemoveNode name ctx)"

lemma mdel_mput_fresh: "mget m k = None \<Longrightarrow> mdel k (mput k v m) = m"
  by (induction m) (auto simp: delete_id map_of_eq_None_iff)

lemma mput_mput: "mput k v (mput k w m) = mput k v m"
  by (induction m) auto

text \<open>
  The failure of an old stream ends the new one. When a node has reconnected before the cloud notices that its old stream is gone, the failure of the old
  stream is reported to the node object of the new stream, whose sender stops on its next round, and the interceptor of the old stream removes
  the name: the node is unknown although its new stream has just been admitted. The interceptor of the new stream finds nothing to remove, so
  that the gauge of connected nodes counts one node too many from then on.
\<close>

theorem stale_stream_ends_new:
  assumes "GetNode_ctx ctx name = None"
  shows "\<exists>new ctx2 ctx3 ctx4. AddNode name (snd (AddNode name ctx)) = (new, ctx2) \<and> RecvMsg_failed name ctx2 = Done ctx3 \<and>
    SendMsg_round None (node_objs ctx3 ! new) = Done (Send_stopped, node_objs ctx2 ! new) \<and>
    run_for (interceptor_end name) [Some e1, Some e2] ctx3 = Done ctx4 \<and>
    \<not> NodeIsExist ctx4 name \<and> GetNodes_ctx ctx4 = GetNodes_ctx ctx \<and> EdgeNodes_gauge ctx4 = EdgeNodes_gauge ctx + 1"
  using assms
  by (simp add: AddNode_def Let_def RecvMsg_failed_def GetNode_ctx_def mget_mput on_node_def Send2Node_def channel_send_def MSG_CHANNEL_CAP_def stream_closed_def
      SendMsg_round_def STREAM_def CLOSED_def interceptor_end_def RemoveNode_def nodes_RemoveNode_def mget_mdel NodeIsExist_def GetNodes_ctx_def nth_append
      mdel_mput_fresh mput_mput)

theorem stale_stream_ends_new_witness:
  "\<exists>new ctx2 ctx3 ctx4. AddNode ''edge-1'' (snd (AddNode ''edge-1'' GetContext)) = (new, ctx2) \<and> RecvMsg_failed ''edge-1'' ctx2 = Done ctx3 \<and>
    SendMsg_round None (node_objs ctx3 ! new) = Done (Send_stopped, node_objs ctx2 ! new) \<and>
    run_for (interceptor_end ''edge-1'') [Some ''EOF'', Some ''stopped''] ctx3 = Done ctx4 \<and>
    \<not> NodeIsExist ctx4 ''edge-1'' \<and> GetNodes_ctx ctx4 = GetNodes_ctx GetContext \<and> EdgeNodes_gauge ctx4 = EdgeNodes_gauge GetContext + 1"
  by (rule stale_stream_ends_new) (simp add: GetNode_ctx_def GetContext_def)

section \<open>The heartbeat\<close>

text \<open>
  The timer of the edge: \<open>restart\<close> says that a heartbeat has not been answered, \<open>count\<close> how often the timer has found that. It sends a heartbeat, asks the sender to
  stop, or ends the process.
\<close>

datatype hb_action = Heartbeat | CloseStream | ExitProcess

definition hb_timer :: "bool \<times> int \<Rightarrow> hb_action \<times> bool \<times> int" where
  "hb_timer s =
     (let (restart, cnt) = s in
      if restart then (if cnt \<ge> 1 then (ExitProcess, restart, cnt) else (CloseStream, restart, cnt + 1))
      else (Heartbeat, True, 0))"

definition hb_message :: "string \<Rightarrow> hb_action \<Rightarrow> StreamMsg option" where
  "hb_message name a =
     (case a of
        Heartbeat \<Rightarrow> Some (\<lparr>sm_Node = name, sm_Category = STREAM, sm_Type = STREAM_HEART_BEAT, sm_Topic = name @ STREAM_HEART_BEAT, sm_Data = '''', sm_Addr = ''''\<rparr>)
      | CloseStream \<Rightarrow> Some (stream_closed name)
      | ExitProcess \<Rightarrow> None)"

datatype hb_event = Timer | Answer

fun hb_run :: "hb_event list \<Rightarrow> bool \<times> int \<Rightarrow> hb_action list" where
  "hb_run [] s = []"
| "hb_run (Timer # evs) s = (let (a, s') = hb_timer s in a # (if a = ExitProcess then [] else hb_run evs s'))"
| "hb_run (Answer # evs) s = hb_run evs (False, snd s)"

text \<open>The state as the number of times that the timer has fired since the last answer.\<close>

definition silent :: "nat \<Rightarrow> bool \<times> int \<Rightarrow> bool" where
  "silent n s \<longleftrightarrow> (case n of 0 \<Rightarrow> \<not> fst s | Suc m \<Rightarrow> s = (True, int m))"

fun silent_thrice :: "nat \<Rightarrow> hb_event list \<Rightarrow> bool" where
  "silent_thrice n [] = False"
| "silent_thrice n (Timer # evs) = (n = 2 \<or> silent_thrice (Suc n) evs)"
| "silent_thrice n (Answer # evs) = silent_thrice 0 evs"

lemma hb_exit: "n \<le> 2 \<Longrightarrow> silent n s \<Longrightarrow> ExitProcess \<in> set (hb_run evs s) \<longleftrightarrow> silent_thrice n evs"
proof (induction evs arbitrary: n s)
  case (Cons e evs)
  show ?case
  proof (cases e)
    case Timer
    consider "n = 0" | "n = 1" | "n = 2" using Cons.prems(1) by linarith
    then show ?thesis
    proof cases
      case 1
      then have "hb_timer s = (Heartbeat, True, 0)" using Cons.prems(2) by (simp add: silent_def hb_timer_def case_prod_unfold)
      then show ?thesis using Cons.IH [of 1 "(True, 0)"] 1 Timer by (simp add: silent_def)
    next
      case 2
      then have "hb_timer s = (CloseStream, True, 1)" using Cons.prems(2) by (simp add: silent_def hb_timer_def)
      then show ?thesis using Cons.IH [of 2 "(True, 1)"] 2 Timer by (simp add: silent_def numeral_2_eq_2)
    next
      case 3
      then show ?thesis using Cons.prems(2) Timer by (simp add: silent_def hb_timer_def numeral_2_eq_2)
    qed
  next
    case Answer
    then show ?thesis using Cons.IH [of 0 "(False, snd s)"] by (simp add: silent_def)
  qed
qed simp

lemma silent_thrice_sublist: "n \<le> 2 \<Longrightarrow> silent_thrice n evs \<longleftrightarrow> sublist [Timer, Timer, Timer] evs \<or> prefix (replicate (3 - n) Timer) evs"
proof (induction n evs rule: silent_thrice.induct)
  case (2 n evs)
  consider "n = 0" | "n = 1" | "n = 2" using 2(2) by linarith
  moreover have "prefix [Timer, Timer] evs \<Longrightarrow> prefix [Timer] evs" by (auto simp: prefix_def)
  ultimately show ?case using 2(1) by cases (auto simp: sublist_Cons_right numeral_3_eq_3 numeral_2_eq_2 prefix_Cons)
qed (auto simp: sublist_Cons_right numeral_3_eq_3 Suc_diff_le)

text \<open>
  The edge ends its process exactly when the timer has fired three times in a row without an answer of the cloud in between, whatever
  happened before.
\<close>

lemma heartbeat_exit:
  "ExitProcess \<in> set (hb_run evs (False, 0)) \<longleftrightarrow> sublist [Timer, Timer, Timer] evs"
proof -
  have "prefix (replicate 3 Timer) evs \<Longrightarrow> sublist [Timer, Timer, Timer] evs" by (auto simp: numeral_3_eq_3 intro: prefix_imp_sublist)
  then show ?thesis using hb_exit [of 0 "(False, 0)" evs] silent_thrice_sublist [of 0 evs] by (auto simp: silent_def)
qed

section \<open>Tokens\<close>

definition DEFAULT_TOKEN :: string where "DEFAULT_TOKEN = ''default''"

definition ReplaceString :: "string \<Rightarrow> string" where
  "ReplaceString line = RemoveAll (RemoveAll line (CHR '' '')) (CHR 0x0A)"

definition ParseLine :: "string \<Rightarrow> (string, string) gomap \<Rightarrow> (string, string) gomap" where
  "ParseLine line m = (let kv = Split (ReplaceString line) (CHR '':'') in if length kv < 2 then m else mput (kv ! 0) (kv ! 1) m)"

text \<open>\<open>GetTokenFromFile\<close>: \<open>None\<close> is a file that cannot be opened; then the tokens stay as they are.\<close>

definition GetTokenFromFile :: "string option \<Rightarrow> (string, string) gomap \<Rightarrow> bool \<times> (string, string) gomap" where
  "GetTokenFromFile f tokens = (case f of None \<Rightarrow> (True, tokens) | Some data \<Rightarrow> (False, fold ParseLine (ScanLines data) []))"

definition GetTokenFromCache :: "(string, string) gomap \<Rightarrow> string \<Rightarrow> string" where
  "GetTokenFromCache tokens name = (case mget tokens name of Some t \<Rightarrow> t | None \<Rightarrow> mget0 '''' tokens DEFAULT_TOKEN)"

text \<open>\<open>InitTokenCache\<close>: the file is read at the start, and then every ten seconds by a loop that ends with the first failure.\<close>

fun token_reloads :: "string option list \<Rightarrow> (string, string) gomap \<Rightarrow> (string, string) gomap" where
  "token_reloads [] tokens = tokens"
| "token_reloads (f # fs) tokens = (let (failed, tokens') = GetTokenFromFile f tokens in if failed then tokens' else token_reloads fs tokens')"

definition InitTokenCache :: "string option \<Rightarrow> string option list \<Rightarrow> (string, string) gomap option" where
  "InitTokenCache f fs = (let (failed, tokens) = GetTokenFromFile f [] in if failed then None else Some (token_reloads fs tokens))"

text \<open>The check of \<open>ServerStreamInterceptor\<close>; \<open>parse\<close> is \<open>ParseToken\<close>, the JSON decoder of a name and a token.\<close>

datatype admission = MissingMetadata | NoToken | BadToken go_error | InvalidToken | Verified string

definition ServerStreamInterceptor :: "(string \<Rightarrow> go_error + string \<times> string) \<Rightarrow> (string, string) gomap \<Rightarrow> string list option \<Rightarrow> admission" where
  "ServerStreamInterceptor parse tokens md =
     (case md of
        None \<Rightarrow> MissingMetadata
      | Some authorization \<Rightarrow>
          if length authorization < 1 then NoToken
          else case parse (TrimPrefix (authorization ! 0) ''Bearer '') of
            Inl err \<Rightarrow> BadToken err
          | Inr (name, t) \<Rightarrow> if t \<noteq> GetTokenFromCache tokens name then InvalidToken else Verified name)"

text \<open>A token file of plain entries: names and tokens without separators, blanks and line ends.\<close>

definition plain_name :: "string \<Rightarrow> bool" where
  "plain_name s \<longleftrightarrow> CHR '':'' \<notin> set s \<and> CHR '' '' \<notin> set s \<and> CHR 0x0A \<notin> set s \<and> CHR 0x0D \<notin> set s \<and> length s < 30000"

definition token_file :: "(string \<times> string) list \<Rightarrow> string" where
  "token_file es = concat (map (\<lambda>(name, t). name @ '':'' @ t @ [CHR 0x0A]) es)"

lemma ParseLine_plain: "plain_name name \<Longrightarrow> plain_name t \<Longrightarrow> ParseLine (name @ '':'' @ t) m = mput name t m"
proof -
  assume "plain_name name" "plain_name t"
  then have "filter (\<lambda>x. x \<noteq> CHR '' '') name = name" "filter (\<lambda>x. x \<noteq> CHR '' '') t = t"
      "filter (\<lambda>x. x \<noteq> CHR 0x0A) name = name" "filter (\<lambda>x. x \<noteq> CHR 0x0A) t = t"
      "Split (name @ CHR '':'' # t) (CHR '':'') = [name, t]"
    by (auto simp: plain_name_def filter_id_conv Split_append Split_none)
  then show ?thesis by (simp add: ParseLine_def ReplaceString_def RemoveAll_def)
qed

lemma token_line: "plain_name name \<Longrightarrow> plain_name t \<Longrightarrow> l = name @ '':'' @ t \<Longrightarrow> CHR 0x0A \<notin> set l \<and> \<not> HasSuffix l [CHR 0x0D] \<and> int (length l) < MaxScanTokenSize"
proof -
  assume p: "plain_name name" "plain_name t" "l = name @ '':'' @ t"
  then have "CHR 0x0D \<notin> set l" by (auto simp: plain_name_def)
  then have "\<not> HasSuffix l [CHR 0x0D]" by (auto simp: HasSuffix_iff)
  then show ?thesis using p by (auto simp: plain_name_def MaxScanTokenSize_def)
qed

lemma token_file_loads:
  assumes "list_all (\<lambda>(name, t). plain_name name \<and> plain_name t) es"
  shows "GetTokenFromFile (Some (token_file es)) tokens = (False, fold (\<lambda>(name, t). mput name t) es [])"
proof -
  let ?ls = "map (\<lambda>(name, t). name @ '':'' @ t) es"
  have "token_file es = concat (map (\<lambda>l. l @ [CHR 0x0A]) ?ls)" by (simp add: token_file_def case_prod_unfold comp_def)
  moreover have "ScanLines (concat (map (\<lambda>l. l @ [CHR 0x0A]) ?ls)) = ?ls"
  proof (rule ScanLines_concat)
    fix l
    assume "l \<in> set ?ls"
    then obtain name t where "(name, t) \<in> set es" "l = name @ '':'' @ t" by auto
    then show "CHR 0x0A \<notin> set l \<and> \<not> HasSuffix l [CHR 0x0D] \<and> int (length l) < MaxScanTokenSize" using assms token_line by (fastforce simp: list_all_iff)
  qed
  moreover have "fold ParseLine ?ls m = fold (\<lambda>(name, t). mput name t) es m" for m
    using assms by (induction es arbitrary: m) (auto simp: ParseLine_plain simp del: append_Cons)
  ultimately show ?thesis by (simp add: GetTokenFromFile_def)
qed

lemma mget_fold_mput: "mget (fold (\<lambda>(k, v). mput k v) es m) k = (case mget (rev es) k of Some v \<Rightarrow> Some v | None \<Rightarrow> mget m k)"
  by (induction es arbitrary: m) (auto simp: mget_mput map_add_Some_iff map_add_def split: option.splits)

text \<open>
  C17: which streams the token file admits. A node whose name the file lists must show the token of its last line, any other name the token of the
  last line for \<open>default\<close>; and when the file has no such line, every name that it does not list is admitted with the empty token.
\<close>

theorem token_file_decides:
  assumes "list_all (\<lambda>(name, t). plain_name name \<and> plain_name t) es"
    and "InitTokenCache (Some (token_file es)) [] = Some tokens"
    and "parse (TrimPrefix a ''Bearer '') = Inr (name, t)"
  shows "ServerStreamInterceptor parse tokens (Some (a # as)) = Verified name \<longleftrightarrow>
    t = (case mget (rev es) name of Some t' \<Rightarrow> t' | None \<Rightarrow> (case mget (rev es) DEFAULT_TOKEN of Some t' \<Rightarrow> t' | None \<Rightarrow> ''''))"
proof -
  have "tokens = fold (\<lambda>(name, t). mput name t) es []"
    using assms(2) token_file_loads [OF assms(1)] by (simp add: InitTokenCache_def)
  then show ?thesis using assms(3)
    by (simp add: ServerStreamInterceptor_def GetTokenFromCache_def mget0_def mget_fold_mput split: option.splits)
qed

definition toy_parse :: "string \<Rightarrow> go_error + string \<times> string" where
  "toy_parse s = (case Split s (CHR ''/'') of [name, t] \<Rightarrow> Inr (name, t) | _ \<Rightarrow> Inl ''syntax'')"

theorem token_file_decides_witness:
  "ServerStreamInterceptor toy_parse (the (InitTokenCache (Some (token_file [(''node-1'', ''secret'')])) [])) (Some [''Bearer node-2/'']) = Verified ''node-2''"
proof -
  have es: "list_all (\<lambda>(name, t). plain_name name \<and> plain_name t) [(''node-1'', ''secret'')]" by (simp add: plain_name_def)
  have tokens: "InitTokenCache (Some (token_file [(''node-1'', ''secret'')])) [] = Some (the (InitTokenCache (Some (token_file [(''node-1'', ''secret'')])) []))"
    by (simp add: InitTokenCache_def GetTokenFromFile_def)
  have "toy_parse (TrimPrefix ''Bearer node-2/'' ''Bearer '') = Inr (''node-2'', '''')" by (simp add: toy_parse_def TrimPrefix_def HasPrefix_def)
  from token_file_decides [where parse = toy_parse, OF es tokens this, of "[]"] show ?thesis by (simp add: DEFAULT_TOKEN_def)
qed

text \<open>The first failure to read the token file is the last reload: later contents of the file are never seen.\<close>

lemma reload_failure_final: "token_reloads (fs @ None # later) tokens = token_reloads fs tokens"
  by (induction fs arbitrary: tokens) (auto simp: GetTokenFromFile_def split: option.splits)

end
