(* ===== verification/TunnelRoute.thy ===== *)
theory TunnelRoute
  imports TunnelContext
begin

text \<open>
  Which pod of tunnel-cloud an edge node is connected to, and where nodes and services are: the hosts file that every pod keeps up to date (\<open>connect/register.go\<close>)
  and the route cache (\<open>connect/route.go\<close>). \<open>pip\<close> is \<open>net.ParseIP\<close> followed by \<open>String\<close>; files are their contents, \<open>None\<close> when they cannot be opened. A map
  is ranged over in the order of its list.
\<close>

section \<open>The hosts file\<close>

definition parseIP :: "(string \<Rightarrow> string option) \<Rightarrow> string \<Rightarrow> string option" where
  "parseIP pip addr = pip (takeWhile (\<lambda>c. c \<noteq> CHR ''%'') addr)"

definition hosts_line :: "(string \<Rightarrow> string option) \<Rightarrow> string \<Rightarrow> string list list" where
  "hosts_line pip line =
     (let f = Fields line in if length f < 2 then [f] else (case parseIP pip (f ! 0) of None \<Rightarrow> [] | Some _ \<Rightarrow> [f]))"

definition hosts2Array :: "(string \<Rightarrow> string option) \<Rightarrow> string \<Rightarrow> string list list" where
  "hosts2Array pip data = concat (map (hosts_line pip) (ScanLines data))"

definition service2Array :: "string \<Rightarrow> string list list" where
  "service2Array data = filter (\<lambda>f. length f = 2) (map Fields (ScanLines data))"

definition writeLine :: "string list \<Rightarrow> string" where
  "writeLine line = (if line = [] then [] else concat (map (\<lambda>v. v @ ''    '') (butlast line)) @ last line @ [CHR 0x0A])"

text \<open>The lines of the addresses that are still endpoints of the service; \<open>subsets\<close> are the addresses of its endpoints. An endpoints object without subsets is a panic.\<close>

fun filter_endpoints :: "(string \<Rightarrow> string option) \<Rightarrow> string list list \<Rightarrow> string list list \<Rightarrow> string \<Rightarrow> bool \<Rightarrow> (string \<times> bool) go" where
  "filter_endpoints pip subsets [] buf upd = Ret (buf, upd)"
| "filter_endpoints pip subsets (v # vs) buf upd =
     (if length v < 2 then filter_endpoints pip subsets vs buf upd
      else case parseIP pip (v ! 0) of
        None \<Rightarrow> filter_endpoints pip subsets vs buf upd
      | Some addr \<Rightarrow>
          (case subsets of
             [] \<Rightarrow> Panic
           | s # _ \<Rightarrow>
               let hits = filter (\<lambda>ep. ep = addr) s
               in filter_endpoints pip subsets vs (buf @ concat (map (\<lambda>_. writeLine v) hits)) (if hits = [] then True else upd)))"

definition filterEndpoint :: "(string \<Rightarrow> string option) \<Rightarrow> go_error + string list list \<Rightarrow> string list list \<Rightarrow> (string \<times> bool) go" where
  "filterEndpoint pip eps hostsArray =
     (case eps of
        Inl _ \<Rightarrow> Ret ([], False)
      | Inr subsets \<Rightarrow> go_bind (filter_endpoints pip subsets hostsArray [] False) (\<lambda>(buf, upd). Ret (if upd then (buf, upd) else ([], upd))))"

definition IsEndpointIp :: "go_error + string list list \<Rightarrow> string \<Rightarrow> bool go" where
  "IsEndpointIp eps addr = (case eps of Inl _ \<Rightarrow> Ret False | Inr [] \<Rightarrow> Panic | Inr (s # _) \<Rightarrow> Ret (addr \<in> set s))"

text \<open>The lines of the other pods for nodes that are not connected here, and one line for each node that is.\<close>

fun filter_pod_ip :: "(string \<Rightarrow> string option) \<Rightarrow> string \<Rightarrow> TunnelContext \<Rightarrow> string list list \<Rightarrow> string \<times> bool \<times> nat \<Rightarrow> string \<times> bool \<times> nat" where
  "filter_pod_ip pip podIp ctx [] s = s"
| "filter_pod_ip pip podIp ctx (v # vs) (buf, upd, n) =
     filter_pod_ip pip podIp ctx vs
       (if length v < 2 then (buf, upd, n)
        else case parseIP pip (v ! 0) of
          None \<Rightarrow> (buf, upd, n)
        | Some addr \<Rightarrow>
            if addr = podIp then (if NodeIsExist ctx (v ! 1) then (buf, upd, n + 1) else (buf, True, n))
            else (if NodeIsExist ctx (v ! 1) then (buf, upd, n) else (buf @ writeLine v, upd, n)))"

definition filterPodIp :: "(string \<Rightarrow> string option) \<Rightarrow> string \<Rightarrow> TunnelContext \<Rightarrow> string list list \<Rightarrow> string \<times> bool" where
  "filterPodIp pip podIp ctx hostsArray =
     (let (buf, upd, n) = filter_pod_ip pip podIp ctx hostsArray ([], False, 0);
          edgeNodes = GetNodes_ctx ctx;
          upd = (upd \<or> n \<noteq> length edgeNodes)
      in if upd then (buf @ concat (map (\<lambda>v. podIp @ ''    '' @ v @ [CHR 0x0A]) edgeNodes), upd) else ([], upd))"

text \<open>
  \<open>syncPodIP\<close> and \<open>syncEndpoints\<close>: \<open>flt1\<close> and \<open>flt2\<close> are the filter, at the two moments when it runs. The poll ends with the first attempt, whether it succeeds or fails. The result is whether there was an error and
  the data of the config map; \<open>None\<close> as data is the nil map, writing to which is a panic.
\<close>

definition hosts_key :: string where "hosts_key = ''hosts''"

definition sync_hosts :: "(string \<Rightarrow> string option) \<Rightarrow> (string list list \<Rightarrow> (string \<times> bool) go) \<Rightarrow> (string list list \<Rightarrow> (string \<times> bool) go) \<Rightarrow> string option \<Rightarrow> go_error + (string, string) gomap option \<Rightarrow> go_error option
    \<Rightarrow> (bool \<times> (string, string) gomap option) go" where
  "sync_hosts pip flt1 flt2 f cm update_err =
     (case f of
        None \<Rightarrow> Ret (True, None)
      | Some data \<Rightarrow>
          go_bind (flt1 (hosts2Array pip data)) (\<lambda>(_, upd).
            if \<not> upd then Ret (False, None)
            else case cm of
              Inl _ \<Rightarrow> Ret (True, None)
            | Inr d \<Rightarrow>
                go_bind (flt2 (hosts2Array pip (mget0 [] (case d of None \<Rightarrow> [] | Some m \<Rightarrow> m) hosts_key))) (\<lambda>(hosts, flag).
                  if \<not> flag then Ret (False, None)
                  else case d of
                    None \<Rightarrow> Panic
                  | Some m \<Rightarrow> (case update_err of None \<Rightarrow> Ret (False, Some (mput hosts_key hosts m)) | Some _ \<Rightarrow> Ret (True, None)))))"

definition syncPodIP where
  "syncPodIP pip podIp ctx1 ctx2 = sync_hosts pip (\<lambda>arrays. Ret (filterPodIp pip podIp ctx1 arrays)) (\<lambda>arrays. Ret (filterPodIp pip podIp ctx2 arrays))"

definition syncEndpoints where
  "syncEndpoints pip eps1 eps2 = sync_hosts pip (filterEndpoint pip eps1) (filterEndpoint pip eps2)"

section \<open>The route cache\<close>

definition CLOUD :: string where "CLOUD = ''cloud''"
definition EDGE :: string where "EDGE = ''edge''"
definition CloudNodeLabelKey :: string where "CloudNodeLabelKey = ''superedge.io/node-cloud''"
definition KubernetesDefaultRoleLabel :: string where "KubernetesDefaultRoleLabel = ''node-role.kubernetes.io/master''"

record RouteCache =
  EdgeNode :: "(string, string) gomap"
  CloudNode :: "(string, string) gomap"
  ServicesMap :: "(string, string) gomap"
  UserServicesMap :: "(string, string) gomap"

text \<open>Lines are put into a map by their fields; a line with less than two of them is an index out of range.\<close>

fun put_lines :: "nat \<Rightarrow> nat \<Rightarrow> string list list \<Rightarrow> (string, string) gomap \<Rightarrow> (string, string) gomap go" where
  "put_lines k x [] m = Ret m"
| "put_lines k x (v # vs) m = (if length v < 2 then Panic else put_lines k x vs (mput (v ! k) (v ! x) m))"

definition loadCacheFromLocalFile :: "(string \<Rightarrow> string option) \<Rightarrow> string option \<Rightarrow> string option \<Rightarrow> string option \<Rightarrow> string option \<Rightarrow> RouteCache \<Rightarrow> (bool \<times> RouteCache) go" where
  "loadCacheFromLocalFile pip hosts cloudNodeFile servicesFile userServiceFile r =
     (case (hosts, cloudNodeFile, servicesFile, userServiceFile) of
        (Some h, Some c, Some s, Some u) \<Rightarrow>
          go_bind (put_lines 1 0 (hosts2Array pip h) (EdgeNode r)) (\<lambda>edge.
          go_bind (put_lines 1 0 (hosts2Array pip c) (CloudNode r)) (\<lambda>cloud.
          go_bind (put_lines 0 1 (service2Array s) (ServicesMap r)) (\<lambda>svcs.
          go_bind (put_lines 0 1 (service2Array u) (UserServicesMap r)) (\<lambda>user.
          Ret (False, r\<lparr>EdgeNode := edge, CloudNode := cloud, ServicesMap := svcs, UserServicesMap := user\<rparr>)))))
      | _ \<Rightarrow> Ret (True, r))"

record route_node =
  rn_Name :: string
  rn_Labels :: "(string, string) gomap"
  rn_Addresses :: "(string \<times> string) list"

record route_service =
  rs_Name :: string
  rs_Namespace :: string

record route_address =
  ra_IP :: string
  ra_NodeName :: "string option"

definition service_key :: "route_service \<Rightarrow> string" where
  "service_key s = rs_Name s @ ''.'' @ rs_Namespace s"

definition internal_ip :: "route_node \<Rightarrow> string" where
  "internal_ip n = fold (\<lambda>(t, a) ip. if t = ''InternalIP'' then a else ip) (rn_Addresses n) []"

text \<open>Whether the file of the edge nodes differs from the cache.\<close>

fun edge_lines_differ :: "(string, string) gomap \<Rightarrow> string list list \<Rightarrow> bool \<Rightarrow> bool go" where
  "edge_lines_differ m [] upd = Ret upd"
| "edge_lines_differ m (v # vs) upd =
     (if length v < 2 then Panic
      else edge_lines_differ m vs (case mget m (v ! 1) of Some x \<Rightarrow> if x \<noteq> v ! 0 then True else upd | None \<Rightarrow> True))"

definition edge_nodes_differ :: "(string, string) gomap \<Rightarrow> string list list \<Rightarrow> bool go" where
  "edge_nodes_differ m edgeNodes = (if length edgeNodes \<noteq> length m then Ret True else edge_lines_differ m edgeNodes False)"

definition sync_cloud_node :: "route_node \<Rightarrow> bool \<times> (string, string) gomap \<Rightarrow> bool \<times> (string, string) gomap" where
  "sync_cloud_node n s =
     (let (upd, m) = s; ip = internal_ip n
      in case mget m (rn_Name n) of Some v \<Rightarrow> if v \<noteq> ip then (True, mput (rn_Name n) ip m) else (upd, m) | None \<Rightarrow> (True, mput (rn_Name n) ip m))"

definition drop_unknown :: "string list \<Rightarrow> bool \<times> (string, 'v) gomap \<Rightarrow> bool \<times> (string, 'v) gomap" where
  "drop_unknown known s = fold (\<lambda>name (upd, m). if name \<in> set known then (upd, m) else (True, mdel name m)) (mkeys (snd s)) s"

definition sync_cloud :: "route_node list \<Rightarrow> bool \<times> (string, string) gomap \<Rightarrow> bool \<times> (string, string) gomap" where
  "sync_cloud cloudNodes s = drop_unknown (map rn_Name cloudNodes) (fold sync_cloud_node cloudNodes s)"

text \<open>The nodes of the endpoints of a service; those of the service \<open>kubernetes\<close> are addresses. \<open>eps\<close> is the endpoints object: its subsets, \<open>None\<close> when there is none.\<close>

definition endpoint_nodes :: "route_service \<Rightarrow> route_address list list option \<Rightarrow> string list" where
  "endpoint_nodes svc eps =
     (case eps of
        Some (subset0 # _) \<Rightarrow> List.map_filter (\<lambda>ep. if rs_Name svc = ''kubernetes'' then Some (ra_IP ep) else ra_NodeName ep) subset0
      | _ \<Rightarrow> [])"

definition all_in :: "(string, string) gomap \<Rightarrow> string list \<Rightarrow> bool" where
  "all_in m = list_all (\<lambda>v. mget m v \<noteq> None)"

definition sync_service :: "(string, string) gomap \<Rightarrow> (string, string) gomap \<Rightarrow> (route_service \<Rightarrow> route_address list list option) \<Rightarrow> route_service
    \<Rightarrow> bool \<times> (string, string) gomap \<Rightarrow> bool \<times> (string, string) gomap" where
  "sync_service edge cloud eps svc s =
     (let (upd, m) = s; key = service_key svc; epnodes = endpoint_nodes svc (eps svc) in
      if epnodes = [] then (upd, m)
      else case mget m key of
        Some v \<Rightarrow>
          if v = EDGE then (if all_in edge epnodes then (upd, m) else (True, mdel key m))
          else if v = CLOUD then (if all_in cloud epnodes then (upd, m) else (True, mdel key m))
          else (upd, m)
      | None \<Rightarrow>
          if all_in edge epnodes then (True, mput key EDGE m)
          else if all_in cloud epnodes then (True, mput key CLOUD m)
          else (upd, m))"

definition sync_services :: "(string, string) gomap \<Rightarrow> (string, string) gomap \<Rightarrow> (route_service \<Rightarrow> route_address list list option) \<Rightarrow> route_service list
    \<Rightarrow> bool \<times> (string, string) gomap \<Rightarrow> bool \<times> (string, string) gomap" where
  "sync_services edge cloud eps svcs s = drop_unknown (map service_key svcs) (fold (sync_service edge cloud eps) svcs s)"

text \<open>What \<open>syncCache\<close> reads: the five files, the listers (\<open>Inl\<close> an error) and the config map of the cache with the result of its update.\<close>

record route_env =
  re_hosts :: "string option"
  re_edge_nodes :: "string option"
  re_cloud_nodes :: "string option"
  re_services :: "string option"
  re_user_services :: "string option"
  re_nodes :: "go_error + route_node list"
  re_svcs :: "go_error + route_service list"
  re_eps :: "route_service \<Rightarrow> route_address list list option"
  re_cfg :: "go_error + (string, string) gomap option"
  re_update_err :: "go_error option"

definition cloud_nodes :: "route_node list \<Rightarrow> route_node list" where
  "cloud_nodes ns = filter (\<lambda>n. mget (rn_Labels n) CloudNodeLabelKey = Some ''enable'') ns @ filter (\<lambda>n. mget (rn_Labels n) KubernetesDefaultRoleLabel \<noteq> None) ns"

definition address_lines :: "(string, string) gomap \<Rightarrow> string" where
  "address_lines m = concat (map (\<lambda>(k, v). v @ ''    '' @ k @ [CHR 0x0A]) m)"

definition service_lines :: "(string, string) gomap \<Rightarrow> string" where
  "service_lines m = concat (map (\<lambda>(k, v). k @ ''    '' @ v @ [CHR 0x0A]) m)"

definition cache_data :: "RouteCache \<Rightarrow> (string, string) gomap \<Rightarrow> (string, string) gomap" where
  "cache_data r d = mput ''services'' (service_lines (ServicesMap r)) (mput ''cloud_nodes'' (address_lines (CloudNode r)) (mput ''edge_nodes'' (address_lines (EdgeNode r)) d))"

text \<open>The result: whether there was an error, the cache, and the data that the config map was updated with, if any.\<close>

definition write_cache :: "route_env \<Rightarrow> bool \<Rightarrow> RouteCache \<Rightarrow> (bool \<times> RouteCache \<times> (string, string) gomap option) go" where
  "write_cache env upd r =
     (if \<not> upd then Ret (False, r, None)
      else case re_cfg env of
        Inl _ \<Rightarrow> Ret (True, r, None)
      | Inr None \<Rightarrow> Panic
      | Inr (Some d) \<Rightarrow> (case re_update_err env of None \<Rightarrow> Ret (False, r, Some (cache_data r d)) | Some _ \<Rightarrow> Ret (True, r, None)))"

definition syncCache :: "(string \<Rightarrow> string option) \<Rightarrow> route_env \<Rightarrow> RouteCache \<Rightarrow> (bool \<times> RouteCache \<times> (string, string) gomap option) go" where
  "syncCache pip env r =
     go_bind (loadCacheFromLocalFile pip (re_hosts env) (re_cloud_nodes env) (re_services env) (re_user_services env) r) (\<lambda>(failed, r1).
       if failed then Ret (True, r1, None)
       else case re_edge_nodes env of
         None \<Rightarrow> Ret (True, r1, None)
       | Some f \<Rightarrow>
           go_bind (edge_nodes_differ (EdgeNode r1) (hosts2Array pip f)) (\<lambda>upd1.
             case re_nodes env of
               Inl _ \<Rightarrow> Ret (True, r1, None)
             | Inr ns \<Rightarrow>
                 let (upd2, cloud) = sync_cloud (cloud_nodes ns) (upd1, CloudNode r1); r2 = r1\<lparr>CloudNode := cloud\<rparr> in
                 (case re_svcs env of
                    Inl _ \<Rightarrow> Ret (True, r2, None)
                  | Inr svcs \<Rightarrow>
                      let (upd3, sm) = sync_services (EdgeNode r2) cloud (re_eps env) svcs (upd2, ServicesMap r2) in
                      write_cache env upd3 (r2\<lparr>ServicesMap := sm\<rparr>))))"

section \<open>What the hosts file says\<close>

definition line_text :: "string list \<Rightarrow> string" where
  "line_text v = concat (map (\<lambda>w. w @ ''    '') (butlast v)) @ last v"

lemma writeLine_text: "v \<noteq> [] \<Longrightarrow> writeLine v = line_text v @ [CHR 0x0A]"
  by (simp add: writeLine_def line_text_def)

lemma Fields_line_text: "list_all word v \<Longrightarrow> v \<noteq> [] \<Longrightarrow> Fields (line_text v) = v"
proof (induction v)
  case (Cons w v)
  have w: "w \<noteq> []" "\<And>c. c \<in> set w \<Longrightarrow> \<not> isSpace c" using Cons.prems(1) by (auto simp: word_def list_all_iff)
  show ?case
  proof (cases "v = []")
    case True
    then show ?thesis using Fields_word [OF w] by (simp add: line_text_def)
  next
    case False
    have sp: "isSpace (CHR '' '')" by (simp add: isSpace_def)
    have "line_text (w # v) = w @ CHR '' '' # CHR '' '' # CHR '' '' # CHR '' '' # line_text v" using False by (simp add: line_text_def)
    then have "Fields (line_text (w # v)) = w # Fields (line_text v)" by (simp only: Fields_cons [OF w sp] Fields_space [OF sp])
    then show ?thesis using Cons.IH Cons.prems(1) False by simp
  qed
qed simp

lemma fields_from_words: "list_all (\<lambda>c. \<not> isSpace c) cur \<Longrightarrow> list_all word (fields_from cur s)"
  by (induction cur s rule: fields_from.induct) (simp_all add: word_def)

lemma Fields_words: "list_all word (Fields s)"
  by (simp add: Fields_def fields_from_words)

lemma hosts2Array_words: "v \<in> set (hosts2Array pip data) \<Longrightarrow> list_all word v"
proof -
  assume "v \<in> set (hosts2Array pip data)"
  then obtain l where "v \<in> set (hosts_line pip l)" by (auto simp: hosts2Array_def)
  then have "v = Fields l" by (auto simp: hosts_line_def Let_def split: if_splits option.splits)
  then show ?thesis by (simp add: Fields_words)
qed

lemma line_text_chars: "list_all word v \<Longrightarrow> c \<in> set (line_text v) \<Longrightarrow> v \<noteq> [] \<Longrightarrow> c = CHR '' '' \<or> \<not> isSpace c"
proof -
  assume v: "list_all word v" "c \<in> set (line_text v)" "v \<noteq> []"
  have "c = CHR '' '' \<or> (\<exists>w \<in> set v. c \<in> set w)" using v(2,3) by (auto simp: line_text_def dest: in_set_butlastD split: if_splits)
  then show ?thesis using v(1) by (auto simp: word_def list_all_iff)
qed

definition fits :: "string list \<Rightarrow> bool" where
  "fits v \<longleftrightarrow> int (length (line_text v)) < MaxScanTokenSize"

definition line_addr :: "(string \<Rightarrow> string option) \<Rightarrow> string list \<Rightarrow> string option" where
  "line_addr pip v = (if length v < 2 then None else parseIP pip (v ! 0))"

text \<open>Lines that are written by \<open>writeLine\<close> are read back by \<open>hosts2Array\<close>.\<close>

lemma hosts2Array_written:
  assumes "list_all (\<lambda>v. list_all word v \<and> fits v \<and> line_addr pip v \<noteq> None) vs"
  shows "hosts2Array pip (concat (map writeLine vs)) = vs"
proof -
  have v: "list_all word v" "fits v" "length v \<ge> 2" "parseIP pip (v ! 0) \<noteq> None" "v \<noteq> []" if "v \<in> set vs" for v
    using assms that by (auto simp: list_all_iff line_addr_def split: if_splits)
  have "concat (map writeLine vs) = concat (map (\<lambda>l. l @ [CHR 0x0A]) (map line_text vs))"
    using v(5) by (auto simp: writeLine_text comp_def intro!: arg_cong [where f = concat])
  also have "ScanLines \<dots> = map line_text vs"
  proof (rule ScanLines_concat)
    fix l
    assume "l \<in> set (map line_text vs)"
    then obtain u where u: "u \<in> set vs" "l = line_text u" by auto
    have "c = CHR '' '' \<or> \<not> isSpace c" if "c \<in> set l" for c using line_text_chars [OF v(1) _ v(5)] u that by blast
    from this [of "CHR 0x0A"] this [of "CHR 0x0D"] have "CHR 0x0A \<notin> set l" "CHR 0x0D \<notin> set l" by (auto simp: isSpace_def)
    then show "CHR 0x0A \<notin> set l \<and> \<not> HasSuffix l [CHR 0x0D] \<and> int (length l) < MaxScanTokenSize"
      using v(2) [OF u(1)] u(2) by (auto simp: HasSuffix_iff fits_def)
  qed
  finally have "hosts2Array pip (concat (map writeLine vs)) = concat (map (\<lambda>u. hosts_line pip (line_text u)) vs)"
    by (simp add: hosts2Array_def comp_def)
  also have "\<dots> = concat (map (\<lambda>u. [u]) vs)"
  proof (intro arg_cong [where f = concat] map_cong refl)
    fix u
    assume "u \<in> set vs"
    from v [OF this] show "hosts_line pip (line_text u) = [u]" by (auto simp: hosts_line_def Fields_line_text)
  qed
  finally show ?thesis by simp
qed

definition other_line :: "(string \<Rightarrow> string option) \<Rightarrow> string \<Rightarrow> TunnelContext \<Rightarrow> string list \<Rightarrow> bool" where
  "other_line pip podIp ctx v \<longleftrightarrow> line_addr pip v \<noteq> None \<and> line_addr pip v \<noteq> Some podIp \<and> \<not> NodeIsExist ctx (v ! 1)"

definition my_line :: "(string \<Rightarrow> string option) \<Rightarrow> string \<Rightarrow> TunnelContext \<Rightarrow> bool \<Rightarrow> string list \<Rightarrow> bool" where
  "my_line pip podIp ctx connected v \<longleftrightarrow> line_addr pip v = Some podIp \<and> NodeIsExist ctx (v ! 1) = connected"

lemma filter_pod_ip_eq:
  "filter_pod_ip pip podIp ctx vs (buf, upd, n) =
    (buf @ concat (map writeLine (filter (other_line pip podIp ctx) vs)), upd \<or> list_ex (my_line pip podIp ctx False) vs, n + length (filter (my_line pip podIp ctx True) vs))"
  by (induction vs arbitrary: buf upd n) (auto simp: other_line_def my_line_def line_addr_def split: option.splits)

lemma node_lines: "concat (map (\<lambda>v. podIp @ ''    '' @ v @ [CHR 0x0A]) ns) = concat (map writeLine (map (\<lambda>n. [podIp, n]) ns))"
  by (simp add: writeLine_def comp_def)

text \<open>
  C13: what a pod writes into the hosts file is right and final. When the pod updates the file, the new one has, in their order, the lines of the other pods for nodes
  that are not connected to this pod, and then one line for each node that is; and reading it again the pod sees nothing to
  update. (Names are words, the address of the pod is in its canonical form, and the lines fit into the scanner's buffer.)
\<close>

theorem filterPodIp_settles:
  assumes "filterPodIp pip podIp ctx (hosts2Array pip data) = (hosts, True)"
    and "list_all word (podIp # GetNodes_ctx ctx)" "parseIP pip podIp = Some podIp"
    and "list_all fits (hosts2Array pip data @ map (\<lambda>n. [podIp, n]) (GetNodes_ctx ctx))"
  shows "hosts2Array pip hosts = filter (other_line pip podIp ctx) (hosts2Array pip data) @ map (\<lambda>n. [podIp, n]) (GetNodes_ctx ctx) \<and>
    filterPodIp pip podIp ctx (hosts2Array pip hosts) = ([], False)"
proof -
  let ?old = "filter (other_line pip podIp ctx) (hosts2Array pip data)" and ?mine = "map (\<lambda>n. [podIp, n]) (GetNodes_ctx ctx)"
  have "hosts = concat (map writeLine (?old @ ?mine))"
    using assms(1) by (auto simp: filterPodIp_def filter_pod_ip_eq node_lines [simplified] Let_def split: if_splits)
  moreover have "list_all (\<lambda>v. list_all word v \<and> fits v \<and> line_addr pip v \<noteq> None) (?old @ ?mine)"
    using assms(2-4) hosts2Array_words by (auto simp: list_all_iff other_line_def line_addr_def)
  ultimately have hosts: "hosts2Array pip hosts = ?old @ ?mine" by (simp only: hosts2Array_written)
  have connected: "NodeIsExist ctx n" if "n \<in> set (GetNodes_ctx ctx)" for n using that by (simp add: NodeIsExist_def GetNodes_ctx_def mhas_iff del: not_None_eq)
  have mine: "my_line pip podIp ctx b v \<longleftrightarrow> b" if "v \<in> set ?mine" for b v
    using that assms(3) connected by (auto simp: my_line_def line_addr_def)
  have old: "\<not> my_line pip podIp ctx b v" if "v \<in> set ?old" for b v using that by (auto simp: other_line_def my_line_def)
  have "filter (my_line pip podIp ctx True) (?old @ ?mine) = ?mine"
    using mine [of _ True] old by (simp del: filter_filter)
  moreover have "\<not> list_ex (my_line pip podIp ctx False) (?old @ ?mine)" using mine [of _ False] old by (auto simp: list_ex_iff)
  ultimately have "filterPodIp pip podIp ctx (?old @ ?mine) = ([], False)"
    by (simp add: filterPodIp_def filter_pod_ip_eq Let_def del: filter_append list_ex_append)
  then show ?thesis using hosts by simp
qed

definition two_nodes :: TunnelContext where
  "two_nodes = snd (AddNode ''edge-2'' (snd (AddNode ''edge-1'' GetContext)))"

definition old_hosts :: string where
  "old_hosts = ''10.0.0.7 edge-1'' @ [CHR 0x0A] @ ''10.0.0.7 edge-9'' @ [CHR 0x0A] @ ''10.0.0.8  edge-3'' @ [CHR 0x0A]"

theorem filterPodIp_settles_witness:
  "filterPodIp quad_pip ''10.0.0.8'' two_nodes (hosts2Array quad_pip (fst (filterPodIp quad_pip ''10.0.0.8'' two_nodes (hosts2Array quad_pip old_hosts)))) = ([], False)"
proof -
  have "filterPodIp quad_pip ''10.0.0.8'' two_nodes (hosts2Array quad_pip old_hosts) =
      (fst (filterPodIp quad_pip ''10.0.0.8'' two_nodes (hosts2Array quad_pip old_hosts)), True)" by code_simp
  moreover have "list_all word (''10.0.0.8'' # GetNodes_ctx two_nodes)" "parseIP quad_pip ''10.0.0.8'' = Some ''10.0.0.8''"
    "list_all fits (hosts2Array quad_pip old_hosts @ map (\<lambda>n. [''10.0.0.8'', n]) (GetNodes_ctx two_nodes))" by code_simp+
  ultimately show ?thesis by (rule conjunct2 [OF filterPodIp_settles])
qed

section \<open>What the route cache says\<close>

lemma put_lines_panic: "list_ex (\<lambda>v. length v < 2) vs \<Longrightarrow> put_lines k x vs m = Panic"
  by (induction vs arbitrary: m) auto

lemma put_lines_other: "put_lines k x vs m = Ret m' \<Longrightarrow> list_all (\<lambda>v. v ! k \<noteq> name) vs \<Longrightarrow> mget m' name = mget m name"
  by (induction vs arbitrary: m) (auto simp: mget_mput split: if_splits)

lemma put_lines_grows: "put_lines k x vs m = Ret m' \<Longrightarrow> mget m name \<noteq> None \<Longrightarrow> mget m' name \<noteq> None"
  by (induction vs arbitrary: m) (auto simp: mget_mput split: if_splits)

text \<open>
  An empty line in the hosts file brings the process down. When any line of the file has less than two fields (an empty line, or a name alone), loading the
  cache is an index out of range, so that every later load of the same file is, too.
\<close>

lemma short_hosts_line_panics:
  assumes "list_ex (\<lambda>l. length (Fields l) < 2) (ScanLines h)"
  shows "loadCacheFromLocalFile pip (Some h) (Some c) (Some s) (Some u) r = Panic"
proof -
  obtain l where "l \<in> set (ScanLines h)" "length (Fields l) < 2" using assms by (auto simp: list_ex_iff)
  then have "list_ex (\<lambda>v. length v < 2) (hosts2Array pip h)"
    by (auto simp: list_ex_iff hosts2Array_def hosts_line_def Let_def intro!: bexI [of _ l])
  then show ?thesis by (simp add: loadCacheFromLocalFile_def put_lines_panic)
qed

lemma short_hosts_line_panics_witness:
  "loadCacheFromLocalFile quad_pip (Some (''10.0.0.7 edge-1'' @ [CHR 0x0A, CHR 0x0A])) (Some '''') (Some '''') (Some '''') \<lparr>EdgeNode = [], CloudNode = [], ServicesMap = [], UserServicesMap = []\<rparr> = Panic"
  by (rule short_hosts_line_panics) code_simp

lemma load_EdgeNode:
  assumes "loadCacheFromLocalFile pip hf cf sf uf r = Ret (failed, r')" "\<And>h. hf = Some h \<Longrightarrow> list_all (\<lambda>v. v ! 1 \<noteq> name) (hosts2Array pip h)"
  shows "mget (EdgeNode r') name = mget (EdgeNode r) name"
proof (cases "hf = None \<or> cf = None \<or> sf = None \<or> uf = None")
  case True
  then show ?thesis using assms(1) by (auto simp: loadCacheFromLocalFile_def split: option.splits)
next
  case False
  then obtain h m where m: "hf = Some h" "put_lines 1 0 (hosts2Array pip h) (EdgeNode r) = Ret m" "EdgeNode r' = m"
    using assms(1) by (auto simp: loadCacheFromLocalFile_def go_bind_eq_Ret)
  then show ?thesis using put_lines_other [OF m(2)] assms(2) by blast
qed

lemma write_cache_route: "write_cache env upd r = Ret (failed, r', d) \<Longrightarrow> r' = r"
  by (auto simp: write_cache_def split: if_splits sum.splits option.splits)

lemma syncCache_EdgeNode:
  assumes "syncCache pip env r = Ret (failed, r', d)"
  obtains failed1 r1 where "loadCacheFromLocalFile pip (re_hosts env) (re_cloud_nodes env) (re_services env) (re_user_services env) r = Ret (failed1, r1)"
    "EdgeNode r' = EdgeNode r1"
proof -
  obtain failed1 r1 where r1: "loadCacheFromLocalFile pip (re_hosts env) (re_cloud_nodes env) (re_services env) (re_user_services env) r = Ret (failed1, r1)"
    using assms by (auto simp: syncCache_def go_bind_eq_Ret)
  moreover have "EdgeNode r' = EdgeNode r1"
    using assms by (cases "re_nodes env"; cases "re_svcs env"; cases "re_edge_nodes env")
      (auto simp: syncCache_def r1 go_bind_eq_Ret Let_def case_prod_unfold dest!: write_cache_route split: if_splits)
  ultimately show ?thesis by (rule that)
qed

text \<open>
  A node never leaves the route cache. When a name no longer stands in the hosts file, because its node is connected to no pod, synchronising the cache leaves its
  entry as it was: the cache goes on to send requests for it to the pod that it was connected to last.
\<close>

lemma route_keeps_lost_node:
  assumes "syncCache pip env r = Ret (failed, r', d)"
    and "re_hosts env = Some h" "list_all (\<lambda>v. v ! 1 \<noteq> name) (hosts2Array pip h)"
  shows "mget (EdgeNode r') name = mget (EdgeNode r) name"
  using syncCache_EdgeNode [OF assms(1)] load_EdgeNode assms(2,3) by (metis option.inject)

definition lost_route :: RouteCache where
  "lost_route = \<lparr>EdgeNode = [(''edge-1'', ''10.0.0.7'')], CloudNode = [], ServicesMap = [], UserServicesMap = []\<rparr>"

definition lost_env :: route_env where
  "lost_env = \<lparr>re_hosts = Some (''10.0.0.8 edge-2'' @ [CHR 0x0A]), re_edge_nodes = Some '''', re_cloud_nodes = Some '''', re_services = Some '''', re_user_services = Some '''',
     re_nodes = Inr [\<lparr>rn_Name = ''master'', rn_Labels = [(KubernetesDefaultRoleLabel, '''')], rn_Addresses = [(''InternalIP'', ''10.0.0.1'')]\<rparr>],
     re_svcs = Inr [\<lparr>rs_Name = ''web'', rs_Namespace = ''default''\<rparr>], re_eps = (\<lambda>_. Some [[\<lparr>ra_IP = ''10.1.0.1'', ra_NodeName = Some ''edge-2''\<rparr>]]),
     re_cfg = Inr (Some []), re_update_err = None\<rparr>"

lemma route_keeps_lost_node_witness:
  "case syncCache quad_pip lost_env lost_route of Ret (failed, r', d) \<Rightarrow> mget (EdgeNode r') ''edge-1'' = Some ''10.0.0.7'' | Panic \<Rightarrow> False"
proof -
  have "case syncCache quad_pip lost_env lost_route of Ret _ \<Rightarrow> True | Panic \<Rightarrow> False" by code_simp
  then obtain failed r' d where sync: "syncCache quad_pip lost_env lost_route = Ret (failed, r', d)" by (cases "syncCache quad_pip lost_env lost_route") auto
  have "re_hosts lost_env = Some (''10.0.0.8 edge-2'' @ [CHR 0x0A])" "list_all (\<lambda>v. v ! 1 \<noteq> ''edge-1'') (hosts2Array quad_pip (''10.0.0.8 edge-2'' @ [CHR 0x0A]))"
    by code_simp+
  with sync have "mget (EdgeNode r') ''edge-1'' = mget (EdgeNode lost_route) ''edge-1''" by (rule route_keeps_lost_node)
  then have "mget (EdgeNode r') ''edge-1'' = Some ''10.0.0.7''" by (simp add: lost_route_def)
  then show ?thesis by (simp add: sync)
qed

text \<open>The class of the nodes of a service, and what a round makes of the entry that the cache has.\<close>

definition service_class :: "RouteCache \<Rightarrow> string list \<Rightarrow> string option" where
  "service_class r ns = (if all_in (EdgeNode r) ns then Some EDGE else if all_in (CloudNode r) ns then Some CLOUD else None)"

definition entry_after :: "RouteCache \<Rightarrow> string list \<Rightarrow> string option \<Rightarrow> string option" where
  "entry_after r ns old =
     (if ns = [] then old
      else case old of
        None \<Rightarrow> service_class r ns
      | Some v \<Rightarrow> if v = EDGE \<and> \<not> all_in (EdgeNode r) ns \<or> v = CLOUD \<and> \<not> all_in (CloudNode r) ns then None else Some v)"

lemma sync_service_get:
  "mget (snd (sync_service (EdgeNode r) (CloudNode r) eps svc (upd, m))) k =
    (if k = service_key svc then entry_after r (endpoint_nodes svc (eps svc)) (mget m k) else mget m k)"
  by (auto simp: sync_service_def entry_after_def service_class_def Let_def mget_mput mget_mdel EDGE_def CLOUD_def split: option.splits)

lemma sync_services_get:
  assumes "distinct (map service_key svcs)"
  shows "mget (snd (fold (sync_service (EdgeNode r) (CloudNode r) eps) svcs s)) k =
    (case find (\<lambda>svc. service_key svc = k) svcs of None \<Rightarrow> mget (snd s) k | Some svc \<Rightarrow> entry_after r (endpoint_nodes svc (eps svc)) (mget (snd s) k))"
  using assms
proof (induction svcs arbitrary: s)
  case (Cons svc svcs)
  have "find (\<lambda>x. service_key x = k) svcs = None" if "service_key svc = k" using that Cons.prems by (auto simp: find_None_iff image_iff)
  then show ?case using Cons.IH [of "sync_service (EdgeNode r) (CloudNode r) eps svc s"] Cons.prems sync_service_get [of r eps svc "fst s" "snd s" k]
    by (auto split: option.splits)
qed simp

lemma drop_unknown_fold:
  "mget (snd (fold (\<lambda>name (upd, m). if name \<in> set known then (upd, m) else (True, mdel name m)) ks s)) k =
    (if k \<in> set ks \<and> k \<notin> set known then None else mget (snd s) k)"
  by (induction ks arbitrary: s) (auto simp: mget_mdel split: prod.splits if_splits)

lemma drop_unknown_get: "mget (snd (drop_unknown known s)) k = (if k \<in> set known then mget (snd s) k else None)"
  by (auto simp: drop_unknown_def drop_unknown_fold in_mkeys)

text \<open>
  C36: where services are. When synchronising the cache succeeds, an entry belongs to a service that exists; a service without an entry gets one, edge when all nodes of its
  endpoints are edge nodes of the cache and else cloud when all are cloud nodes; an entry that contradicts the nodes is removed (the next round
  may then enter the service anew), and all others stay, as those of services without endpoints do.
\<close>

theorem services_follow_nodes:
  assumes "syncCache pip env r = Ret (False, r', d)"
    and "loadCacheFromLocalFile pip (re_hosts env) (re_cloud_nodes env) (re_services env) (re_user_services env) r = Ret (False, r1)"
    and "re_svcs env = Inr svcs" "distinct (map service_key svcs)"
  shows "mget (ServicesMap r') k =
    (case find (\<lambda>svc. service_key svc = k) svcs of
       None \<Rightarrow> None
     | Some svc \<Rightarrow> entry_after r' (endpoint_nodes svc (re_eps env svc)) (mget (ServicesMap r1) k))"
proof -
  obtain upd cloud where sm: "r' = r1\<lparr>CloudNode := cloud, ServicesMap := snd (sync_services (EdgeNode r1) cloud (re_eps env) svcs (upd, ServicesMap r1))\<rparr>"
    using assms(1-3) by (cases "re_nodes env"; cases "re_edge_nodes env")
      (auto simp: syncCache_def go_bind_eq_Ret Let_def case_prod_unfold dest!: write_cache_route split: if_splits)
  have keys: "k \<in> set (map service_key svcs) \<longleftrightarrow> find (\<lambda>svc. service_key svc = k) svcs \<noteq> None" by (auto simp: find_None_iff)
  have same: "EdgeNode r' = EdgeNode r1" "CloudNode r' = cloud" by (simp_all add: sm)
  have "mget (ServicesMap r') k = (if k \<in> set (map service_key svcs)
      then mget (snd (fold (sync_service (EdgeNode r') (CloudNode r') (re_eps env)) svcs (upd, ServicesMap r1))) k else None)"
    unfolding same by (simp add: sm sync_services_def drop_unknown_get)
  then show ?thesis using sync_services_get [OF assms(4), of r'] keys by (auto split: option.splits)
qed

theorem services_follow_nodes_witness:
  "case syncCache quad_pip lost_env lost_route of Ret (failed, r', d) \<Rightarrow> mget (ServicesMap r') ''web.default'' = Some EDGE | Panic \<Rightarrow> False"
proof -
  let ?svc = "\<lparr>rs_Name = ''web'', rs_Namespace = ''default''\<rparr>"
  have "case syncCache quad_pip lost_env lost_route of Ret (failed, _) \<Rightarrow> \<not> failed | Panic \<Rightarrow> False" by code_simp
  then obtain r' d where sync: "syncCache quad_pip lost_env lost_route = Ret (False, r', d)" by (cases "syncCache quad_pip lost_env lost_route") auto
  have load: "loadCacheFromLocalFile quad_pip (re_hosts lost_env) (re_cloud_nodes lost_env) (re_services lost_env) (re_user_services lost_env) lost_route =
      Ret (False, lost_route\<lparr>EdgeNode := [(''edge-1'', ''10.0.0.7''), (''edge-2'', ''10.0.0.8'')]\<rparr>)" by code_simp
  have svcs: "re_svcs lost_env = Inr [?svc]" "distinct (map service_key [?svc])" by (simp_all add: lost_env_def)
  have "mget (ServicesMap r') ''web.default'' = entry_after r' [''edge-2''] None"
    using services_follow_nodes [OF sync load svcs, of "''web.default''"]
    by (simp add: service_key_def endpoint_nodes_def lost_env_def lost_route_def List.map_filter_simps)
  moreover have "EdgeNode r' = [(''edge-1'', ''10.0.0.7''), (''edge-2'', ''10.0.0.8'')]" using syncCache_EdgeNode [OF sync] load by fastforce
  ultimately show ?thesis by (simp add: sync entry_after_def service_class_def all_in_def)
qed

end
