(* ===== verification/TunnelNet.thy ===== *)
theory TunnelNet
  imports TunnelRoute
begin

text \<open>
  Addresses of the form host and port as \<open>package net\<close> splits and joins them, and the lists of addresses that a proxy does not serve (\<open>src/pkg/tunnel/util/proxy.go\<close>).
  The parsers of addresses and networks and the regular expressions are arguments: \<open>net_lib\<close>.
\<close>

section \<open>Host and port\<close>

definition JoinHostPort :: "string \<Rightarrow> string \<Rightarrow> string" where
  "JoinHostPort host port = (if CHR '':'' \<in> set host then ''['' @ host @ '']:'' @ port else host @ '':'' @ port)"

text \<open>The text before and after the last colon.\<close>

definition last_colon :: "string \<Rightarrow> (string \<times> string) option" where
  "last_colon s =
     (if CHR '':'' \<notin> set s then None
      else let port = rev (takeWhile (\<lambda>c. c \<noteq> CHR '':'') (rev s)) in Some (take (length s - length port - 1) s, port))"

definition SplitHostPort :: "string \<Rightarrow> (string \<times> string) option" where
  "SplitHostPort s =
     (case last_colon s of
        None \<Rightarrow> None
      | Some (pre, port) \<Rightarrow>
          if s ! 0 = CHR ''['' then
            let inner = takeWhile (\<lambda>c. c \<noteq> CHR '']'') s; rest = drop (length inner + 1) s in
            if CHR '']'' \<notin> set s \<or> length inner + 1 \<noteq> length pre then None
            else if CHR ''['' \<in> set (drop 1 s) \<or> CHR '']'' \<in> set rest then None
            else Some (drop 1 inner, port)
          else if CHR '':'' \<in> set pre \<or> CHR ''['' \<in> set s \<or> CHR '']'' \<in> set s then None
          else Some (pre, port))"

definition bare :: "string \<Rightarrow> bool" where
  "bare s \<longleftrightarrow> CHR ''['' \<notin> set s \<and> CHR '']'' \<notin> set s"

lemma last_colon_append: "CHR '':'' \<notin> set port \<Longrightarrow> last_colon (pre @ CHR '':'' # port) = Some (pre, port)"
  by (simp add: last_colon_def takeWhile_append takeWhile_eq_all_conv [THEN iffD2])

lemma SplitHostPort_JoinHostPort:
  assumes "bare host" "bare port" "CHR '':'' \<notin> set port"
  shows "SplitHostPort (JoinHostPort host port) = Some (host, port)"
proof (cases "CHR '':'' \<in> set host")
  case True
  let ?s = "(''['' @ host @ '']'') @ CHR '':'' # port"
  have "last_colon ?s = Some (''['' @ host @ '']'', port)" using assms(3) by (rule last_colon_append)
  moreover have "takeWhile (\<lambda>c. c \<noteq> CHR '']'') ?s = ''['' @ host"
    using assms(1) by (simp add: takeWhile_append bare_def)
  ultimately show ?thesis using assms True by (simp add: JoinHostPort_def SplitHostPort_def bare_def)
next
  case False
  have "last_colon (host @ CHR '':'' # port) = Some (host, port)" using assms(3) by (rule last_colon_append)
  then show ?thesis using assms False by (cases host) (auto simp: JoinHostPort_def SplitHostPort_def bare_def)
qed

section \<open>Lists of addresses\<close>

record ('ip, 'net) net_lib =
  nl_ParseIP :: "string \<Rightarrow> 'ip option"
  nl_ParseCIDR :: "string \<Rightarrow> 'net option"
  nl_Contains :: "'net \<Rightarrow> 'ip \<Rightarrow> bool"
  nl_IsLoopback :: "'ip \<Rightarrow> bool"
  nl_Regexp :: "string \<Rightarrow> (string \<Rightarrow> bool) option"

datatype ('ip, 'net) matcher = cidrMatch 'net | ipMatch 'ip string | domainMatch string string bool | allMatch

record ('ip, 'net) proxy_config =
  ipMatchers :: "('ip, 'net) matcher list"
  domainMatchers :: "('ip, 'net) matcher list"

text \<open>An expression that does not compile is a panic (\<open>MustCompile\<close>).\<close>

fun match :: "('ip, 'net) net_lib \<Rightarrow> ('ip, 'net) matcher \<Rightarrow> string \<Rightarrow> string \<Rightarrow> 'ip option \<Rightarrow> bool go" where
  "match lib (cidrMatch cidr) host port ip = Ret (case ip of None \<Rightarrow> False | Some i \<Rightarrow> nl_Contains lib cidr i)"
| "match lib (ipMatch mip mport) host port ip = Ret (ip = Some mip \<and> (mport = [] \<or> mport = port))"
| "match lib (domainMatch mhost mport matchHost) host port ip =
     (if HasSuffix host mhost \<or> matchHost \<and> host = drop 1 mhost then Ret (mport = [] \<or> mport = port)
      else case nl_Regexp lib (drop 1 mhost) of
        None \<Rightarrow> Panic
      | Some re \<Rightarrow> Ret (re host \<and> (mport = [] \<or> mport = port)))"
| "match lib allMatch host port ip = Ret True"

text \<open>One entry of the list; the brackets of an address are stripped only when they are still there, which they are not after a split.\<close>

definition proxy_entry :: "('ip, 'net) net_lib \<Rightarrow> string \<Rightarrow> ('ip, 'net) proxy_config \<Rightarrow> ('ip, 'net) proxy_config" where
  "proxy_entry lib p c =
     (case nl_ParseCIDR lib p of
        Some pnet \<Rightarrow> c\<lparr>ipMatchers := ipMatchers c @ [cidrMatch pnet]\<rparr>
      | None \<Rightarrow>
          if (case SplitHostPort p of Some (h, _) \<Rightarrow> h = [] | None \<Rightarrow> False) then c
          else let (phost, pport) = (case SplitHostPort p of
                Some (h, q) \<Rightarrow> (if hd h = CHR ''['' \<and> last h = CHR '']'' then take (length h - 2) (drop 1 h) else h, q)
              | None \<Rightarrow> (p, []))
               in case nl_ParseIP lib phost of
            Some pip \<Rightarrow> c\<lparr>ipMatchers := ipMatchers c @ [ipMatch pip pport]\<rparr>
          | None \<Rightarrow>
              if phost = [] then c
              else let h1 = (if HasPrefix phost ''*.'' then drop 1 phost else phost);
                       matchHost = (hd h1 \<noteq> CHR ''.'');
                       h2 = (if matchHost then ''.'' @ h1 else h1)
                   in c\<lparr>domainMatchers := domainMatchers c @ [domainMatch h2 pport matchHost]\<rparr>)"

fun proxy_entries :: "('ip, 'net) net_lib \<Rightarrow> string list \<Rightarrow> ('ip, 'net) proxy_config \<Rightarrow> ('ip, 'net) proxy_config" where
  "proxy_entries lib [] c = c"
| "proxy_entries lib (x # xs) c =
     (let p = ToLower (TrimSpace x) in
      if p = [] then proxy_entries lib xs c
      else if p = ''*'' then \<lparr>ipMatchers = [allMatch], domainMatchers = [allMatch]\<rparr>
      else proxy_entries lib xs (proxy_entry lib p c))"

definition NewHttpProxyConfig :: "('ip, 'net) net_lib \<Rightarrow> string \<Rightarrow> ('ip, 'net) proxy_config" where
  "NewHttpProxyConfig lib proxy = proxy_entries lib (Split proxy (CHR '','')) \<lparr>ipMatchers = [], domainMatchers = []\<rparr>"

fun any_match :: "('ip, 'net) net_lib \<Rightarrow> ('ip, 'net) matcher list \<Rightarrow> string \<Rightarrow> string \<Rightarrow> 'ip option \<Rightarrow> bool go" where
  "any_match lib [] host port ip = Ret False"
| "any_match lib (m # ms) host port ip = go_bind (match lib m host port ip) (\<lambda>b. if b then Ret True else any_match lib ms host port ip)"

definition UseProxy :: "('ip, 'net) net_lib \<Rightarrow> ('ip, 'net) proxy_config \<Rightarrow> string \<Rightarrow> bool go" where
  "UseProxy lib cfg addr =
     (if addr = [] then Ret True
      else case SplitHostPort addr of
        None \<Rightarrow> Ret False
      | Some (host, port) \<Rightarrow>
          if host = ''localhost'' then Ret False
          else let ip = nl_ParseIP lib host in
            if (case ip of Some i \<Rightarrow> nl_IsLoopback lib i | None \<Rightarrow> False) then Ret False
            else let a = ToLower (TrimSpace host) in
              go_bind (case ip of Some _ \<Rightarrow> any_match lib (ipMatchers cfg) a port ip | None \<Rightarrow> Ret False) (\<lambda>hit.
                if hit then Ret False
                else go_bind (any_match lib (domainMatchers cfg) a port ip) (\<lambda>hit2. Ret (\<not> hit2))))"

end
