(* ===== verification/TunnelProxy.thy ===== *)
theory TunnelProxy
  imports TunnelNet TunnelSteps
begin

text \<open>
  The proxies of the tunnel: where a request goes (\<open>handlers/cloud_server_handler.go\<close>, \<open>proxy/common/proxy.go\<close>, \<open>indexers\<close>), what the cloud does with a request of an edge node
  (\<open>handlers/edge_access_handler.go\<close>), and the server of the edge (\<open>http-proxy/connect/edge_server.go\<close>). The informers are the lists that they hold, dialling and the
  remote answer are arguments.
\<close>

section \<open>Lookups\<close>

datatype lookup_error = NotFound | LookupError go_error

record proxy_service =
  ps_Name :: string
  ps_Namespace :: string
  ps_Type :: string
  ps_ExternalName :: string
  ps_ClusterIP :: string

record forwardInfo =
  fi_podIp :: string
  fi_port :: string
  fi_nodeName :: string

text \<open>The indexers, \<open>None\<close> when not initialised: pods as address and node, services; the listers of nodes and services, and the resolver of \<open>k8s.io/apiserver\<close>.\<close>

record tunnel_env =
  pe_pods :: "(string \<times> string) list option"
  pe_services :: "proxy_service list option"
  pe_nodes :: "route_node list"
  pe_get_service :: "string \<Rightarrow> string \<Rightarrow> lookup_error + proxy_service"
  pe_resolve :: "string \<Rightarrow> string \<Rightarrow> int \<Rightarrow> go_error + string \<times> string"

definition GetNodeByPodIP :: "tunnel_env \<Rightarrow> string \<Rightarrow> lookup_error + string" where
  "GetNodeByPodIP env podIp =
     (case pe_pods env of
        None \<Rightarrow> Inl (LookupError ''podIndexer is not initialized'')
      | Some pods \<Rightarrow> (case find (\<lambda>p. fst p = podIp) pods of None \<Rightarrow> Inl NotFound | Some p \<Rightarrow> Inr (snd p)))"

definition GetServiceByClusterIP :: "tunnel_env \<Rightarrow> string \<Rightarrow> lookup_error + proxy_service" where
  "GetServiceByClusterIP env clusterIp =
     (case pe_services env of
        None \<Rightarrow> Inl (LookupError ''serviceIndexer is not initialized'')
      | Some svcs \<Rightarrow> (case find (\<lambda>s. ps_ClusterIP s = clusterIp) svcs of None \<Rightarrow> Inl NotFound | Some s \<Rightarrow> Inr s))"

section \<open>Where a request goes\<close>

text \<open>A result is the target and whether it is dialled directly; an error is \<open>None\<close>.\<close>

definition getForwardInfoFromEdgeService :: "tunnel_env \<Rightarrow> proxy_service \<Rightarrow> string \<Rightarrow> forwardInfo option" where
  "getForwardInfoFromEdgeService env svc port =
     (case ParseInt32 port of
        None \<Rightarrow> None
      | Some p \<Rightarrow>
          (case pe_resolve env (ps_Namespace svc) (ps_Name svc) p of
             Inl _ \<Rightarrow> None
           | Inr (h, q) \<Rightarrow> (case GetNodeByPodIP env h of Inl _ \<Rightarrow> None | Inr n \<Rightarrow> Some \<lparr>fi_podIp = h, fi_port = q, fi_nodeName = n\<rparr>)))"

definition by_class :: "tunnel_env \<Rightarrow> proxy_service \<Rightarrow> string \<Rightarrow> string option \<Rightarrow> (forwardInfo option \<times> bool) option option" where
  "by_class env svc port class =
     (if class = Some CLOUD then Some (Some (None, True))
      else if class = Some EDGE then Some (map_option (\<lambda>i. (Some i, False)) (getForwardInfoFromEdgeService env svc port))
      else None)"

definition resolvForwardInfo :: "tunnel_env \<Rightarrow> RouteCache \<Rightarrow> proxy_service \<Rightarrow> string \<Rightarrow> (forwardInfo option \<times> bool) option" where
  "resolvForwardInfo env r svc port =
     (let key = ps_Name svc @ ''.'' @ ps_Namespace svc in
      if ps_Type svc = ''ExternalName'' then Some (Some \<lparr>fi_podIp = ps_ExternalName svc, fi_port = port, fi_nodeName = []\<rparr>, True)
      else case by_class env svc port (mget (UserServicesMap r) key) of
        Some res \<Rightarrow> res
      | None \<Rightarrow> (case by_class env svc port (mget (ServicesMap r) key) of Some res \<Rightarrow> res | None \<Rightarrow> None))"

definition getForwardInfo :: "(string, 'net) net_lib \<Rightarrow> tunnel_env \<Rightarrow> RouteCache \<Rightarrow> string \<Rightarrow> string \<Rightarrow> (forwardInfo option \<times> bool) option" where
  "getForwardInfo lib env r host port =
     (if nl_ParseIP lib host = None then
        case find (\<lambda>n. rn_Name n = host) (pe_nodes env) of
          Some n \<Rightarrow>
            let info = \<lparr>fi_podIp = internal_ip n, fi_port = port, fi_nodeName = rn_Name n\<rparr> in
            if mget (CloudNode r) (rn_Name n) \<noteq> None then Some (Some info, True)
            else if mget (EdgeNode r) (rn_Name n) \<noteq> None then Some (Some info, False)
            else None
        | None \<Rightarrow>
            let svcs = Split host (CHR ''.'') in
            if length svcs = 2 then
              (case pe_get_service env (svcs ! 1) (svcs ! 0) of
                 Inr svc \<Rightarrow> resolvForwardInfo env r svc port
               | Inl NotFound \<Rightarrow> Some (None, True)
               | Inl (LookupError _) \<Rightarrow> None)
            else Some (None, True)
      else
        case GetServiceByClusterIP env host of
          Inl (LookupError _) \<Rightarrow> None
        | Inr svc \<Rightarrow> resolvForwardInfo env r svc port
        | Inl NotFound \<Rightarrow>
            (case GetNodeByPodIP env host of
               Inl NotFound \<Rightarrow> Some (None, True)
             | Inl (LookupError _) \<Rightarrow> None
             | Inr n \<Rightarrow> Some (Some \<lparr>fi_podIp = host, fi_port = port, fi_nodeName = n\<rparr>, False)))"

lemma by_class_info: "by_class env svc port class = Some (Some (i, False)) \<Longrightarrow> i \<noteq> None"
  by (auto simp: by_class_def split: if_splits)

lemma resolvForwardInfo_info: "resolvForwardInfo env r svc port = Some (i, False) \<Longrightarrow> i \<noteq> None"
  by (auto simp: resolvForwardInfo_def Let_def dest!: by_class_info split: if_splits option.splits)

lemma getForwardInfo_info: "getForwardInfo lib env r host port = Some (i, False) \<Longrightarrow> i \<noteq> None"
  by (auto simp: getForwardInfo_def Let_def dest!: resolvForwardInfo_info split: if_splits option.splits sum.splits lookup_error.splits)

section \<open>Forwarding\<close>

datatype TargetType = LocalPodType | RemotePodType | DisconnectNodeType

definition GetTargetType :: "TunnelContext \<Rightarrow> RouteCache \<Rightarrow> string \<Rightarrow> TargetType" where
  "GetTargetType ctx r nodeName =
     (if GetNode_ctx ctx nodeName \<noteq> None then LocalPodType else if mget (EdgeNode r) nodeName \<noteq> None then RemotePodType else DisconnectNodeType)"

record proxy_ports =
  SSHPort :: int
  ProxyPort :: int

definition GetRemoteAddr :: "proxy_ports \<Rightarrow> string \<Rightarrow> string \<Rightarrow> string" where
  "GetRemoteAddr ports category host =
     (if category = SSH then host @ '':'' @ Itoa (SSHPort ports)
      else if category = EGRESS \<or> category = HTTP_PROXY then host @ '':'' @ Itoa (ProxyPort ports)
      else host)"

text \<open>
  \<open>ForwardNode\<close>: through the node when it is connected to this pod, directly when it is a cloud node, not at all when the request comes from another pod, else to the pod that the
  cache names (or to the empty host when it names none). \<open>eps\<close> are the endpoints of the tunnel service.
\<close>

datatype forward_outcome = ForwardConnect nat | ForwardDirect | ForwardLoop | ForwardTo string

definition ForwardNode :: "(string, 'net) net_lib \<Rightarrow> proxy_ports \<Rightarrow> go_error + string list list \<Rightarrow> TunnelContext \<Rightarrow> RouteCache \<Rightarrow> string \<Rightarrow> string \<Rightarrow> string \<Rightarrow> string
    \<Rightarrow> forward_outcome go" where
  "ForwardNode lib ports eps ctx r nodename category remoteAddr localAddr =
     (case GetNode_ctx ctx nodename of
        Some i \<Rightarrow> Ret (ForwardConnect i)
      | None \<Rightarrow>
          if mget (EdgeNode r) nodename = None \<and> mget (CloudNode r) nodename \<noteq> None then Ret ForwardDirect
          else go_bind (IsEndpointIp eps (Split remoteAddr (CHR '':'') ! 0)) (\<lambda>pod.
            if pod \<and> \<not> (case nl_ParseIP lib (Split localAddr (CHR '':'') ! 0) of None \<Rightarrow> False | Some ip \<Rightarrow> nl_IsLoopback lib ip) then Ret ForwardLoop
            else Ret (ForwardTo (GetRemoteAddr ports category (mget0 [] (EdgeNode r) nodename)))))"

text \<open>\<open>DirectDial\<close>: the status that the client gets, if any; \<open>ping\<close>, \<open>dial\<close> are the errors and \<open>wr\<close> whether the answer could be written.\<close>

definition DirectDial :: "go_error option \<Rightarrow> go_error option \<Rightarrow> bool \<Rightarrow> bool \<times> int option" where
  "DirectDial ping dial wr =
     (case (ping, dial) of
        (None, None) \<Rightarrow> (if wr then (False, Some 200) else (True, None))
      | _ \<Rightarrow> (True, if wr then Some 500 else None))"

section \<open>The servers of the cloud\<close>

definition AuthorizationPath :: string where "AuthorizationPath = ''/etc/tunnel/auth''"

text \<open>
  The check of the \<open>Proxy-Authorization\<close> header: \<open>None\<close> lets the request pass, else it is the status of the answer. \<open>b64\<close> is the decoder and \<open>fs\<close> the file system:
  whether a path exists and what can be read there.
\<close>

definition proxy_auth :: "(string \<Rightarrow> string option) \<Rightarrow> (string \<Rightarrow> (go_error + string) option) \<Rightarrow> string \<Rightarrow> int option go" where
  "proxy_auth b64 fs header =
     (if header = [] then Ret (Some 401)
      else let auths = Split header (CHR '' '') in
        if length auths \<noteq> 2 \<and> auths ! 0 \<noteq> ''Basic'' then Ret (Some 403)
        else if length auths < 2 then Panic
        else case b64 (auths ! 1) of
          None \<Rightarrow> Ret (Some 403)
        | Some infos \<Rightarrow>
            let userinfos = Split infos (CHR '':'') in
            (case fs (AuthorizationPath @ ''/'' @ userinfos ! 0) of
               None \<Rightarrow> Ret (Some 403)
             | Some (Inl _) \<Rightarrow> Ret (Some 403)
             | Some (Inr pwd) \<Rightarrow> if length userinfos < 2 then Panic else if pwd \<noteq> userinfos ! 1 then Ret (Some 403) else Ret None))"

record http_request =
  hr_Method :: string
  hr_Host :: string
  hr_TraceIds :: "string list option"
  hr_ProxyAuth :: string

definition trace_id :: "string \<Rightarrow> http_request \<Rightarrow> string" where
  "trace_id fresh req = (case hr_TraceIds req of Some [t] \<Rightarrow> t | _ \<Rightarrow> fresh)"

text \<open>What \<open>HandleServerConn\<close> does with a request; the dialling and copying that follow are the operations above and in \<open>TunnelContext\<close>.\<close>

datatype server_outcome = Respond int | CloseSilently | DialTarget string string | ForwardTarget forwardInfo | HttpDirect string | HttpForward forwardInfo

definition HandleServerConn :: "(string, 'net) net_lib \<Rightarrow> tunnel_env \<Rightarrow> RouteCache \<Rightarrow> (string \<Rightarrow> int option go) option \<Rightarrow> string \<Rightarrow> (string \<Rightarrow> bool go) option \<Rightarrow> http_request
    \<Rightarrow> server_outcome go" where
  "HandleServerConn lib env r auth category noAccess req =
     go_bind (case auth of Some check \<Rightarrow> if category = HTTP_PROXY then check (hr_ProxyAuth req) else Ret None | None \<Rightarrow> Ret None) (\<lambda>refused.
       case refused of
         Some status \<Rightarrow> Ret (Respond status)
       | None \<Rightarrow>
           go_bind (case noAccess of Some f \<Rightarrow> f (hr_Host req) | None \<Rightarrow> Ret False) (\<lambda>forbidden.
             if forbidden then Ret CloseSilently
             else case SplitHostPort (hr_Host req) of
               None \<Rightarrow> Ret (Respond 500)
             | Some (host, port) \<Rightarrow>
                 (case getForwardInfo lib env r host port of
                    None \<Rightarrow> Ret (Respond 500)
                  | Some (info, directDial) \<Rightarrow>
                      if hr_Method req = ''CONNECT'' then
                        if directDial then Ret (case info of None \<Rightarrow> DialTarget host port | Some i \<Rightarrow> DialTarget (fi_podIp i) (fi_port i))
                        else (case info of None \<Rightarrow> Panic | Some i \<Rightarrow> Ret (ForwardTarget i))
                      else if category \<noteq> HTTP_PROXY then Ret (Respond 405)
                      else if directDial then Ret (HttpDirect (case info of None \<Rightarrow> hr_Host req | Some i \<Rightarrow> JoinHostPort (fi_podIp i) (fi_port i)))
                      else (case info of None \<Rightarrow> Panic | Some i \<Rightarrow> Ret (HttpForward i)))))"

text \<open>The hook of the HTTP proxy that refuses the hosts of \<open>CLOUD_PROXY\<close>: \<open>True\<close> is an error.\<close>

definition cloud_noAccess :: "(string, 'net) net_lib \<Rightarrow> string \<Rightarrow> string \<Rightarrow> bool go" where
  "cloud_noAccess lib cloudProxy host =
     (if cloudProxy = [] then Ret False else go_bind (UseProxy lib (NewHttpProxyConfig lib cloudProxy) host) (\<lambda>use. Ret (\<not> use)))"

section \<open>Requests of an edge node\<close>

definition run_of_go :: "'a go \<Rightarrow> 'a run" where
  "run_of_go g = (case g of Panic \<Rightarrow> Crash | Ret x \<Rightarrow> Done x)"

definition ConnectMsg :: string where
  "ConnectMsg = ''HTTP/1.1 200 Connection established'' @ [CHR 0x0D, CHR 0x0A, CHR 0x0D, CHR 0x0A]"

definition errMsg :: "StreamMsg \<Rightarrow> string \<Rightarrow> nat \<Rightarrow> TunnelContext \<Rightarrow> (bool \<times> TunnelContext) run" where
  "errMsg msg text i ctx = run_bind (on_node i (Send2Node (answer msg (sm_Node msg) CONNECT_FAILED text)) ctx) (\<lambda>ctx1. Done (True, ctx1))"

text \<open>The answer that the connection is there, its registration and its binding to the node.\<close>

definition access_opened :: "StreamMsg \<Rightarrow> nat \<Rightarrow> TunnelContext \<Rightarrow> (bool \<times> TunnelContext) run" where
  "access_opened msg i ctx =
     run_bind (on_node i (Send2Node (answer msg (sm_Node msg) CONNECT_SUCCESSED ConnectMsg)) ctx) (\<lambda>ctx1.
       let (c, ctx2) = AddConn (sm_Topic msg) ctx1 in
       run_bind (on_node i (\<lambda>n. Done (BindNode (sm_Topic msg) n)) ctx2) (\<lambda>ctx3. Done (False, ctx3)))"

definition access_direct :: "(string \<Rightarrow> go_error option) \<Rightarrow> StreamMsg \<Rightarrow> string \<Rightarrow> string \<Rightarrow> TunnelContext \<Rightarrow> (bool \<times> TunnelContext) run" where
  "access_direct dial msg ip port ctx =
     (case GetNode_ctx ctx (sm_Node msg) of
        None \<Rightarrow> Done (True, ctx)
      | Some i \<Rightarrow>
          let targetServer = JoinHostPort ip port in
          (case dial targetServer of
             Some err \<Rightarrow> errMsg msg (''tunnel-cloud failed to establish a connection with the target server '' @ targetServer @ '', error:'' @ err) i ctx
           | None \<Rightarrow> access_opened msg i ctx))"

text \<open>Two nodes of this pod are paired for the trace id, and the request is passed on to the other one.\<close>

definition access_pair :: "StreamMsg \<Rightarrow> forwardInfo \<Rightarrow> nat \<Rightarrow> nat \<Rightarrow> TunnelContext \<Rightarrow> (bool \<times> TunnelContext) run" where
  "access_pair msg info loc rem ctx =
     (let locName = tn_name (node_objs ctx ! loc); remName = tn_name (node_objs ctx ! rem) in
      run_bind (on_node rem (\<lambda>n. Done (AddPairNode (sm_Topic msg) locName n)) ctx) (\<lambda>ctx1.
      run_bind (on_node loc (\<lambda>n. Done (AddPairNode (sm_Topic msg) remName n)) ctx1) (\<lambda>ctx2.
      run_bind (on_node rem (Send2Node (msg\<lparr>sm_Addr := JoinHostPort (fi_podIp info) (fi_port info), sm_Node := remName\<rparr>)) ctx2) (\<lambda>ctx3. Done (False, ctx3)))))"

text \<open>Another pod is asked to connect: \<open>dial\<close>, \<open>wr\<close> are errors, \<open>resp\<close> its answer (a status and its text).\<close>

definition access_remote :: "(string \<Rightarrow> go_error option) \<Rightarrow> proxy_ports \<Rightarrow> go_error option \<Rightarrow> go_error + int \<times> string \<Rightarrow> StreamMsg \<Rightarrow> forwardInfo \<Rightarrow> string \<Rightarrow> nat \<Rightarrow> TunnelContext
    \<Rightarrow> (bool \<times> TunnelContext) run" where
  "access_remote dial ports wr resp msg info remoteIp loc ctx =
     (case dial (GetRemoteAddr ports (sm_Category msg) remoteIp) of
        Some err \<Rightarrow> errMsg msg err loc ctx
      | None \<Rightarrow>
          (case wr of
             Some err \<Rightarrow> errMsg msg err loc ctx
           | None \<Rightarrow>
               (case resp of
                  Inl err \<Rightarrow> errMsg msg err loc ctx
                | Inr (status, text) \<Rightarrow>
                    if status \<noteq> 200 then errMsg msg (''failed to connect edge node '' @ fi_nodeName info @ '', error:'' @ text) loc ctx
                    else access_opened msg loc ctx)))"

definition access_target :: "(string \<Rightarrow> go_error option) \<Rightarrow> proxy_ports \<Rightarrow> go_error option \<Rightarrow> go_error + int \<times> string \<Rightarrow> RouteCache \<Rightarrow> StreamMsg \<Rightarrow> forwardInfo \<Rightarrow> nat \<Rightarrow> TunnelContext
    \<Rightarrow> (bool \<times> TunnelContext) run" where
  "access_target dial ports wr resp r msg info loc ctx =
     (case GetTargetType ctx r (fi_nodeName info) of
        LocalPodType \<Rightarrow> (case GetNode_ctx ctx (fi_nodeName info) of Some rem \<Rightarrow> access_pair msg info loc rem ctx | None \<Rightarrow> Done (True, ctx))
      | RemotePodType \<Rightarrow>
          (case mget (EdgeNode r) (fi_nodeName info) of
             Some remoteIp \<Rightarrow> access_remote dial ports wr resp msg info remoteIp loc ctx
           | None \<Rightarrow> errMsg msg (''the edge node '' @ fi_nodeName info @ '' disconnected'') loc ctx)
      | DisconnectNodeType \<Rightarrow> errMsg msg (''the target node '' @ fi_nodeName info @ '' is not registered in the route cache'') loc ctx)"

record access_env =
  ae_parse :: "string \<Rightarrow> go_error + string"
  ae_no_proxy :: string
  ae_dial :: "string \<Rightarrow> go_error option"
  ae_ports :: proxy_ports
  ae_write :: "go_error option"
  ae_response :: "go_error + int \<times> string"

definition edge_forbidden :: "(string, 'net) net_lib \<Rightarrow> string \<Rightarrow> string \<Rightarrow> bool go" where
  "edge_forbidden lib noProxy addr = (if noProxy = [] then Ret False else go_bind (UseProxy lib (NewHttpProxyConfig lib noProxy) addr) (\<lambda>use. Ret (\<not> use)))"

definition AccessHandler :: "(string, 'net) net_lib \<Rightarrow> tunnel_env \<Rightarrow> RouteCache \<Rightarrow> access_env \<Rightarrow> StreamMsg \<Rightarrow> TunnelContext \<Rightarrow> (bool \<times> TunnelContext) run" where
  "AccessHandler lib env r ae msg ctx =
     (case GetNode_ctx ctx (sm_Node msg) of
        None \<Rightarrow> Done (True, ctx)
      | Some loc \<Rightarrow>
          (case ae_parse ae (sm_Data msg) of
             Inl err \<Rightarrow> errMsg msg (''failed to parse httpRequest, error:'' @ err @ '',rawRequest:'' @ sm_Data msg) loc ctx
           | Inr meth \<Rightarrow>
               if meth \<noteq> ''CONNECT'' then run_bind (errMsg msg ''does not handle non-httpConnect requests'' loc ctx) (\<lambda>(_, ctx1). Done (False, ctx1))
               else run_bind (run_of_go (edge_forbidden lib (ae_no_proxy ae) (sm_Addr msg))) (\<lambda>forbidden.
                 if forbidden then Done (True, ctx)
                 else case SplitHostPort (sm_Addr msg) of
                   None \<Rightarrow> errMsg msg (''failed to resolve host, error: '' @ sm_Addr msg) loc ctx
                 | Some (host, port) \<Rightarrow>
                     (case getForwardInfo lib env r host port of
                        None \<Rightarrow> errMsg msg ''failed to get forwarding info, error:'' loc ctx
                      | Some (info, True) \<Rightarrow> (case info of None \<Rightarrow> access_direct (ae_dial ae) msg host port ctx | Some i \<Rightarrow> access_direct (ae_dial ae) msg (fi_podIp i) (fi_port i) ctx)
                      | Some (None, False) \<Rightarrow> Crash
                      | Some (Some info, False) \<Rightarrow> access_target (ae_dial ae) (ae_ports ae) (ae_write ae) (ae_response ae) r msg info loc ctx))))"

section \<open>The server of the edge\<close>

text \<open>
  The host and port that \<open>HttpProxyEdgeServer\<close> takes from a request: a host without a colon gets the port of the scheme.
\<close>

definition edge_target :: "string \<Rightarrow> string \<Rightarrow> (string \<times> string) option" where
  "edge_target host scheme =
     (case SplitHostPort host of
        Some hp \<Rightarrow> Some hp
      | None \<Rightarrow> if length (Split host (CHR '':'')) < 2 then Some (host, if scheme = ''http'' then ''80'' else if scheme = ''https'' then ''443'' else []) else None)"

text \<open>
  The rest of \<open>HttpProxyEdgeServer\<close>: the statuses that are written to the client, in order, and whether the connection and the tunnel are then joined. \<open>connected\<close> is
  whether the node is registered (\<open>None\<close> if not) and, if so, whether \<open>ConnectNode\<close> succeeded; \<open>wr\<close> is whether an answer can be written.
\<close>

definition edge_answer :: "string \<Rightarrow> bool option \<Rightarrow> bool \<Rightarrow> int list \<times> bool" where
  "edge_answer meth connected wr =
     (if meth = ''CONNECT'' then
        (case connected of
           None \<Rightarrow> (if wr then [500] else [], False)
         | Some False \<Rightarrow> if wr then ([500, 200], True) else ([], False)
         | Some True \<Rightarrow> if wr then ([200], True) else ([], False))
      else
        (case connected of
           None \<Rightarrow> (if wr then [500] else [], False)
         | Some False \<Rightarrow> (if wr then [500] else [], False)
         | Some True \<Rightarrow> ([], True)))"

definition HttpProxyEdgeServer :: "(string, 'net) net_lib \<Rightarrow> (string \<Rightarrow> string \<Rightarrow> bool option) \<Rightarrow> bool \<Rightarrow> string \<Rightarrow> string \<Rightarrow> string \<Rightarrow> int list \<times> bool" where
  "HttpProxyEdgeServer lib connect wr meth host scheme =
     (case edge_target host scheme of
        None \<Rightarrow> ([], False)
      | Some (h, p) \<Rightarrow>
          if nl_ParseIP lib h = None \<and> length (Split h (CHR ''.'')) < 2 then (if wr then [500] else [], False)
          else edge_answer meth (connect h p) wr)"

section \<open>Modules\<close>

text \<open>What the modules register when they start; \<open>LoadModules\<close> enters the module itself before.\<close>

definition start_forwarding :: "string \<Rightarrow> TunnelContext \<Rightarrow> TunnelContext" where
  "start_forwarding m ctx =
     fold (\<lambda>t. RegisterHandler t m DirectHandlerCb) [TCP_FORWARD, CONNECT_SUCCESSED, CONNECT_FAILED, CLOSED] ctx"

definition HttpProxy_Start :: "string \<Rightarrow> TunnelContext \<Rightarrow> TunnelContext" where
  "HttpProxy_Start mode ctx =
     (let ctx1 = start_forwarding HTTP_PROXY ctx in
      if mode = EDGE then RegisterHandler CONNECT_REQ HTTP_PROXY ConnectingHandlerCb ctx1
      else if mode = CLOUD then RegisterHandler CONNECT_REQ HTTP_PROXY AccessHandlerCb ctx1 else ctx1)"

definition EgressSelector_Start :: "TunnelContext \<Rightarrow> TunnelContext" where
  "EgressSelector_Start ctx = RegisterHandler CONNECT_REQ EGRESS ConnectingHandlerCb (start_forwarding EGRESS ctx)"

definition SSH_Start :: "TunnelContext \<Rightarrow> TunnelContext" where
  "SSH_Start ctx = RegisterHandler CONNECT_REQ SSH ConnectingHandlerCb (start_forwarding SSH ctx)"

definition Stream_Start :: "TunnelContext \<Rightarrow> TunnelContext" where
  "Stream_Start ctx = RegisterHandler STREAM_HEART_BEAT STREAM HeartbeatHandlerCb ctx"

definition module_Start :: "string \<Rightarrow> string \<Rightarrow> TunnelContext \<Rightarrow> TunnelContext" where
  "module_Start mode m ctx =
     (if m = HTTP_PROXY then HttpProxy_Start mode ctx else if m = EGRESS then EgressSelector_Start ctx else if m = SSH then SSH_Start ctx
      else if m = STREAM then Stream_Start ctx else ctx)"

definition LoadModules :: "string \<Rightarrow> string list \<Rightarrow> TunnelContext \<Rightarrow> TunnelContext" where
  "LoadModules mode ms ctx = fold (\<lambda>m c. module_Start mode m (AddModule m c)) ms ctx"

text \<open>\<open>ShutDown\<close>: the module of the HTTP proxy first sends on its channel \<open>stop\<close>, which nobody made: it waits for ever.\<close>

definition CleanUp :: "string \<Rightarrow> TunnelContext \<Rightarrow> TunnelContext run" where
  "CleanUp m ctx = (if m = HTTP_PROXY then Stuck else Done (RemoveModule m ctx))"

definition ShutDown :: "string list \<Rightarrow> TunnelContext \<Rightarrow> TunnelContext run" where
  "ShutDown ms ctx = run_for CleanUp ms ctx"

lemma ShutDown_stuck: "HTTP_PROXY \<in> set ms \<Longrightarrow> ShutDown ms ctx = Stuck"
  by (induction ms arbitrary: ctx) (auto simp: ShutDown_def CleanUp_def)

section \<open>Theorems\<close>

text \<open>
  A request to a server of the cloud never dereferences a missing target. Whatever the request and the state of the caches, \<open>HandleServerConn\<close> panics only where the check of
  the credentials or the list of forbidden hosts does.
\<close>

lemma HandleServerConn_no_nil:
  assumes "\<And>check h. auth = Some check \<Longrightarrow> check h \<noteq> Panic" "\<And>f h. noAccess = Some f \<Longrightarrow> f h \<noteq> Panic"
  shows "HandleServerConn lib env r auth category noAccess req \<noteq> Panic"
proof -
  have "(case noAccess of Some f \<Rightarrow> f (hr_Host req) | None \<Rightarrow> Ret False) \<noteq> Panic" using assms(2) by (auto split: option.splits)
  then obtain b where b: "(case noAccess of Some f \<Rightarrow> f (hr_Host req) | None \<Rightarrow> Ret False) = Ret b" by (metis go.exhaust)
  have "(case auth of Some check \<Rightarrow> if category = HTTP_PROXY then check (hr_ProxyAuth req) else Ret None | None \<Rightarrow> Ret None) \<noteq> Panic" using assms(1) by (auto split: option.splits)
  then obtain a where a: "(case auth of Some check \<Rightarrow> if category = HTTP_PROXY then check (hr_ProxyAuth req) else Ret None | None \<Rightarrow> Ret None) = Ret a" by (metis go.exhaust)
  show ?thesis unfolding HandleServerConn_def a b
    using getForwardInfo_info [of lib env r] by (auto split: option.splits if_splits)
qed

text \<open>
  Who passes the check of the HTTP proxy. With a user name and a password in the usual form, the request passes exactly when the file of that name under the directory of
  the credentials has the password as its whole contents: so any readable file whose contents are known will do, the name being joined to the
  path as it is. A header that is the word \<open>Basic\<close> alone is a panic.
\<close>

theorem proxy_auth_decides:
  assumes "CHR '' '' \<notin> set code" "code \<noteq> []" "b64 code = Some (user @ '':'' @ pwd)" "CHR '':'' \<notin> set user" "CHR '':'' \<notin> set pwd"
  shows "(proxy_auth b64 fs (''Basic '' @ code) = Ret None \<longleftrightarrow> fs (AuthorizationPath @ ''/'' @ user) = Some (Inr pwd)) \<and> proxy_auth b64 fs ''Basic'' = Panic"
proof -
  have "Split (''Basic'' @ CHR '' '' # code) (CHR '' '') = [''Basic'', code]" using assms(1) by (subst Split_append) (auto simp: Split_none)
  then have auths: "Split (''Basic '' @ code) (CHR '' '') = [''Basic'', code]" by simp
  have infos: "Split (user @ '':'' @ pwd) (CHR '':'') = [user, pwd]" using assms(4,5) by (simp add: Split_append Split_none)
  show ?thesis using assms(3) by (auto simp: proxy_auth_def auths infos Let_def simp del: append.simps split: option.splits sum.splits)
qed

theorem proxy_auth_decides_witness:
  "proxy_auth (\<lambda>_. Some (''../../../proc/sys/kernel/ostype'' @ '':'' @ (''Linux'' @ [CHR 0x0A])))
     (\<lambda>p. if p = ''/etc/tunnel/auth/../../../proc/sys/kernel/ostype'' then Some (Inr (''Linux'' @ [CHR 0x0A])) else None) (''Basic '' @ ''Li4v'') = Ret None"
proof -
  let ?fs = "\<lambda>p. if p = ''/etc/tunnel/auth/../../../proc/sys/kernel/ostype'' then Some (Inr (''Linux'' @ [CHR 0x0A])) else (None :: (go_error + string) option)"
  have "proxy_auth (\<lambda>_. Some (''../../../proc/sys/kernel/ostype'' @ '':'' @ (''Linux'' @ [CHR 0x0A]))) ?fs (''Basic '' @ ''Li4v'') = Ret None \<longleftrightarrow>
      ?fs (AuthorizationPath @ ''/'' @ ''../../../proc/sys/kernel/ostype'') = Some (Inr (''Linux'' @ [CHR 0x0A]))"
    by (rule conjunct1 [OF proxy_auth_decides]) simp_all
  then show ?thesis by (simp add: AuthorizationPath_def)
qed

text \<open>
  A request for a node that neither the contexts nor the route cache know is forwarded to the proxy itself. The address is the port of the own server without a host, and when
  the forwarded request arrives, it is forwarded again: there is no bound, as long as the address that it comes from is not an endpoint of the service.
\<close>

theorem unknown_node_loops:
  assumes "GetNode_ctx ctx nodename = None" "mget (EdgeNode r) nodename = None" "mget (CloudNode r) nodename = None"
    and "eps = Inr (s # ss)" "Split remoteAddr (CHR '':'') ! 0 \<notin> set s" "category = HTTP_PROXY \<or> category = EGRESS"
  shows "ForwardNode lib ports eps ctx r nodename category remoteAddr localAddr = Ret (ForwardTo ('':'' @ Itoa (ProxyPort ports)))"
  using assms by (auto simp: ForwardNode_def IsEndpointIp_def GetRemoteAddr_def mget0_def SSH_def HTTP_PROXY_def EGRESS_def)

theorem unknown_node_loops_witness:
  "ForwardNode \<lparr>nl_ParseIP = (\<lambda>s. Some s), nl_ParseCIDR = (\<lambda>_. None :: unit option), nl_Contains = (\<lambda>_ _. False), nl_IsLoopback = (\<lambda>s. s = ''127.0.0.1''), nl_Regexp = (\<lambda>_. None)\<rparr>
     \<lparr>SSHPort = 22, ProxyPort = 8080\<rparr> (Inr [[''10.0.0.7'']]) GetContext \<lparr>EdgeNode = [], CloudNode = [], ServicesMap = [], UserServicesMap = []\<rparr>
     ''node-x'' HTTP_PROXY ''127.0.0.1:40000'' ''127.0.0.1:8080'' = Ret (ForwardTo ('':'' @ Itoa (ProxyPort \<lparr>SSHPort = 22, ProxyPort = 8080\<rparr>)))"
  by (rule unknown_node_loops [where s = "[''10.0.0.7'']" and ss = "[]"]) (simp_all add: GetNode_ctx_def GetContext_def)

text \<open>The two paired nodes are each other's partner for the trace id afterwards, and the request is in the channel of the remote one.\<close>

lemma access_pair_effect:
  assumes "tunnel_wf ctx" "loc < length (node_objs ctx)" "rem < length (node_objs ctx)" "length (tn_ch (node_objs ctx ! rem)) < MSG_CHANNEL_CAP"
  shows "\<exists>ctx'. access_pair msg info loc rem ctx = Done (False, ctx') \<and> nodes ctx' = nodes ctx \<and> conns ctx' = conns ctx \<and>
    length (node_objs ctx') = length (node_objs ctx) \<and>
    GetPairNode (sm_Topic msg) (node_objs ctx' ! loc) = tn_name (node_objs ctx ! rem) \<and>
    GetPairNode (sm_Topic msg) (node_objs ctx' ! rem) = tn_name (node_objs ctx ! loc) \<and>
    tn_ch (node_objs ctx' ! rem) = tn_ch (node_objs ctx ! rem) @
      [msg\<lparr>sm_Addr := JoinHostPort (fi_podIp info) (fi_port info), sm_Node := tn_name (node_objs ctx ! rem)\<rparr>]"
  using assms(2-4)
  by (cases "loc = rem") (simp_all add: access_pair_def Let_def on_node_def AddPairNode_def Send2Node_def channel_send_def GetPairNode_def mget_mput)

text \<open>
  C18: a node that asks for a pod of its own is connected to itself. When the target of a request through the proxy of a node lies on that node, the cloud pairs the node with itself
  and sends the request back; there it is taken for the answer, which is neither a success nor a failure, so that the connection counts as open
  although nothing was dialled; and whatever the client sends is sent back by the cloud and lands in the channel of the same connection.
\<close>

theorem hairpin_echoes:
  assumes "tunnel_wf cloud" "GetNode_ctx cloud n = Some i" "tn_ch (node_objs cloud ! i) = []" "GetConn cloud t = None" "n \<noteq> []"
    and "sm_Node req = n" "sm_Topic req = t" "sm_Type req = CONNECT_REQ"
    and "ae_parse ae (sm_Data req) = Inr ''CONNECT''" "ae_no_proxy ae = []" "SplitHostPort (sm_Addr req) = Some (host, port)"
    and "getForwardInfo lib env r host port = Some (Some info, False)" "fi_nodeName info = n"
    and "GetConn edge t = Some c" "tc_ch (conn_objs edge ! c) = []" "tunnel_wf edge"
    and "sm_Node d = n" "sm_Topic d = t"
  shows "\<exists>cloud1 bounced edge1 cloud2 edge2. AccessHandler lib env r ae req cloud = Done (False, cloud1) \<and> tn_ch (node_objs cloud1 ! i) = [bounced] \<and>
    ConnectingHandler dial bounced edge = Done (False, edge1) \<and> tc_ch (conn_objs edge1 ! c) = [bounced] \<and>
    connect_end j t (Some bounced) edge1 = Done (False, edge1) \<and>
    DirectHandler d cloud1 = Done (False, cloud2) \<and> tn_ch (node_objs cloud2 ! i) = [bounced, d] \<and>
    DirectHandler d edge1 = Done (False, edge2) \<and> tc_ch (conn_objs edge2 ! c) = [bounced, d]"
proof -
  have i: "i < length (node_objs cloud)" "tn_name (node_objs cloud ! i) = n"
    using assms(1,2) by (auto simp: tunnel_wf_def GetNode_ctx_def dest!: objects_ok_get)
  define bounced where "bounced = req\<lparr>sm_Addr := JoinHostPort (fi_podIp info) (fi_port info), sm_Node := n\<rparr>"
  have room: "length (tn_ch (node_objs cloud ! i)) < MSG_CHANNEL_CAP" by (simp add: assms(3) MSG_CHANNEL_CAP_def)
  obtain cloud1 where cloud1: "access_pair req info i i cloud = Done (False, cloud1)" "nodes cloud1 = nodes cloud" "conns cloud1 = conns cloud"
      "length (node_objs cloud1) = length (node_objs cloud)" "GetPairNode t (node_objs cloud1 ! i) = n" "tn_ch (node_objs cloud1 ! i) = [bounced]"
    using access_pair_effect [OF assms(1) i(1) i(1) room, of req info] i(2) assms(3,7) by (auto simp: bounced_def)
  have access: "AccessHandler lib env r ae req cloud = Done (False, cloud1)"
    using cloud1(1) assms(2,6,9-13) by (simp add: AccessHandler_def edge_forbidden_def run_of_go_def access_target_def GetTargetType_def)
  have c: "c < length (conn_objs edge)" using assms(16,14) by (rule GetConn_valid)
  define edge1 where "edge1 = edge\<lparr>conn_objs := (conn_objs edge)[c := (conn_objs edge ! c)\<lparr>tc_ch := [bounced]\<rparr>]\<rparr>"
  have topic: "sm_Topic bounced = t" "sm_Type bounced = CONNECT_REQ" by (simp_all add: bounced_def assms(7,8))
  have edge1: "ConnectingHandler dial bounced edge = Done (False, edge1)" "tc_ch (conn_objs edge1 ! c) = [bounced]" "GetConn edge1 t = Some c"
    using assms(14,15) c topic by (simp_all add: ConnectingHandler_def on_conn_def Send2Conn_def channel_send_def MSG_CHANNEL_CAP_def edge1_def GetConn_def)
  have "connect_end j t (Some bounced) edge1 = Done (False, edge1)"
    by (simp add: connect_end_def topic(2) CONNECT_REQ_def CONNECT_SUCCESSED_def CONNECT_FAILED_def)
  moreover have pair: "pair_of cloud1 d = Some i" "GetConn cloud1 t = None"
    using cloud1(2,3,5) assms(2,4,5,17,18) by (simp_all add: pair_of_def GetNode_ctx_def GetConn_def)
  then obtain cloud2 where "DirectHandler d cloud1 = Done (False, cloud2)" "tn_ch (node_objs cloud2 ! i) = [bounced, d]"
    using cloud1(4,6) i(1) assms(18) by (simp add: DirectHandler_def on_node_def Send2Node_def channel_send_def MSG_CHANNEL_CAP_def)
  moreover obtain edge2 where "DirectHandler d edge1 = Done (False, edge2)" "tc_ch (conn_objs edge2 ! c) = [bounced, d]"
    using edge1(2,3) c assms(18) by (simp add: DirectHandler_def on_conn_def Send2Conn_def channel_send_def MSG_CHANNEL_CAP_def edge1_def)
  ultimately show ?thesis using access cloud1(6) edge1(1,2) by blast
qed

text \<open>A cloud and an edge where this happens: the pod \<open>10.1.0.5\<close> lies on the node that asks.\<close>

definition plain_net :: "(string, unit) net_lib" where
  "plain_net = \<lparr>nl_ParseIP = quad_pip, nl_ParseCIDR = (\<lambda>_. None), nl_Contains = (\<lambda>_ _. False), nl_IsLoopback = (\<lambda>s. s = ''127.0.0.1''), nl_Regexp = (\<lambda>p. Some (\<lambda>s. Contains s p))\<rparr>"

definition pod_env :: tunnel_env where
  "pod_env = \<lparr>pe_pods = Some [(''10.1.0.5'', ''edge-1'')], pe_services = Some [], pe_nodes = [], pe_get_service = (\<lambda>_ _. Inl NotFound), pe_resolve = (\<lambda>_ _ _. Inl ''none'')\<rparr>"

definition connect_env :: access_env where
  "connect_env = \<lparr>ae_parse = (\<lambda>_. Inr ''CONNECT''), ae_no_proxy = [], ae_dial = (\<lambda>_. None), ae_ports = \<lparr>SSHPort = 22, ProxyPort = 8080\<rparr>, ae_write = None, ae_response = Inl ''none''\<rparr>"

theorem hairpin_echoes_witness:
  "\<exists>cloud1 bounced edge1 cloud2 edge2.
    AccessHandler plain_net pod_env \<lparr>EdgeNode = [], CloudNode = [], ServicesMap = [], UserServicesMap = []\<rparr> connect_env (connect_request ''edge-1'' HTTP_PROXY ''10.1.0.5:80'' ''t1'') tunnel_up = Done (False, cloud1) \<and>
    tn_ch (node_objs cloud1 ! 0) = [bounced] \<and>
    ConnectingHandler None bounced tunnel_conn = Done (False, edge1) \<and> tc_ch (conn_objs edge1 ! 0) = [bounced] \<and>
    connect_end 0 ''t1'' (Some bounced) edge1 = Done (False, edge1) \<and>
    DirectHandler (hd (read_msgs ''edge-1'' HTTP_PROXY TCP_FORWARD ''t1'' [''GET /''] [])) cloud1 = Done (False, cloud2) \<and>
    tn_ch (node_objs cloud2 ! 0) = [bounced, hd (read_msgs ''edge-1'' HTTP_PROXY TCP_FORWARD ''t1'' [''GET /''] [])] \<and>
    DirectHandler (hd (read_msgs ''edge-1'' HTTP_PROXY TCP_FORWARD ''t1'' [''GET /''] [])) edge1 = Done (False, edge2) \<and>
    tc_ch (conn_objs edge2 ! 0) = [bounced, hd (read_msgs ''edge-1'' HTTP_PROXY TCP_FORWARD ''t1'' [''GET /''] [])]"
proof (rule hairpin_echoes)
  show "tunnel_wf tunnel_up" "tunnel_wf tunnel_conn" "GetNode_ctx tunnel_up ''edge-1'' = Some 0" "GetConn tunnel_conn ''t1'' = Some 0" "GetConn tunnel_up ''t1'' = None" by code_simp+
  show "getForwardInfo plain_net pod_env \<lparr>EdgeNode = [], CloudNode = [], ServicesMap = [], UserServicesMap = []\<rparr> ''10.1.0.5'' ''80'' =
      Some (Some \<lparr>fi_podIp = ''10.1.0.5'', fi_port = ''80'', fi_nodeName = ''edge-1''\<rparr>, False)" by code_simp
  show "SplitHostPort (sm_Addr (connect_request ''edge-1'' HTTP_PROXY ''10.1.0.5:80'' ''t1'')) = Some (''10.1.0.5'', ''80'')" by code_simp
qed (simp_all add: tunnel_up_def tunnel_conn_def AddNode_def AddConn_def GetContext_def connect_request_def connect_env_def read_msgs_def)

end
