(* ===== verification/GridHosts.thy ===== *)
theory GridHosts
  imports GoStrings
begin

text \<open>
  The hosts file of \<open>statefulset-grid-daemon\<close> (\<open>hosts/hosts.go\<close>): the addresses of the pods of a stateful set grid under names without the grid value. A file that cannot be read is
  an error, one that is missing is created; whether a write succeeds is an argument. Names of objects are built of letters, digits, \<open>-\<close> and \<open>.\<close>, as the API server demands; in the
  regular expression that is made of them only the dot has a special meaning.
\<close>

section \<open>Matching\<close>

datatype pat = Lit char | Any | Digits

definition isDigit :: "char \<Rightarrow> bool" where
  "isDigit c \<longleftrightarrow> digitVal c \<noteq> None"

fun matches_at :: "pat list \<Rightarrow> string \<Rightarrow> bool" where
  "matches_at [] s = True"
| "matches_at (Lit c # ps) [] = False"
| "matches_at (Lit c # ps) (x # xs) = (x = c \<and> matches_at ps xs)"
| "matches_at (Any # ps) [] = False"
| "matches_at (Any # ps) (x # xs) = (x \<noteq> CHR 0x0A \<and> matches_at ps xs)"
| "matches_at (Digits # ps) [] = False"
| "matches_at (Digits # ps) (x # xs) = (isDigit x \<and> (matches_at ps xs \<or> matches_at (Digits # ps) xs))"

text \<open>\<open>MatchString\<close> looks for a match anywhere.\<close>

fun search :: "pat list \<Rightarrow> string \<Rightarrow> bool" where
  "search ps [] = matches_at ps []"
| "search ps (x # xs) = (matches_at ps (x # xs) \<or> search ps xs)"

definition unescaped :: "string \<Rightarrow> pat list" where
  "unescaped = map (\<lambda>c. if c = CHR ''.'' then Any else Lit c)"

definition hosts_suffix :: string where "hosts_suffix = ''.svc.cluster.local''"

definition AppendDomainSuffix :: "string \<Rightarrow> string \<Rightarrow> string" where
  "AppendDomainSuffix domain ns = domain @ ''.'' @ ns @ hosts_suffix"

definition domain_pattern :: "string \<Rightarrow> string \<Rightarrow> string \<Rightarrow> pat list" where
  "domain_pattern ns ssgName svcName =
     unescaped ssgName @ [Lit (CHR ''-''), Digits, Lit (CHR ''.'')] @ unescaped svcName @ [Lit (CHR ''.'')] @ unescaped (ns @ hosts_suffix)"

definition isMatchDomain :: "string \<Rightarrow> string \<Rightarrow> string \<Rightarrow> string \<Rightarrow> bool" where
  "isMatchDomain domain ns ssgName svcName = search (domain_pattern ns ssgName svcName) domain"

section \<open>The file\<close>

record hosts_state =
  hs_map :: "(string, string) gomap"
  hs_file :: string

definition parseHostsToFile :: "(string, string) gomap \<Rightarrow> string" where
  "parseHostsToFile m = concat (map (\<lambda>(domain, ip). ip @ '' '' @ domain @ [CHR 0x0A]) m)"

definition saveHosts :: "bool \<Rightarrow> hosts_state \<Rightarrow> bool \<times> hosts_state" where
  "saveHosts ok h = (if ok then (False, h\<lparr>hs_file := parseHostsToFile (hs_map h)\<rparr>) else (True, h))"

definition NewHosts :: "string \<Rightarrow> hosts_state" where
  "NewHosts f = \<lparr>hs_map = [], hs_file = f\<rparr>"

definition Trim :: "char list \<Rightarrow> string \<Rightarrow> string" where
  "Trim cutset s = rev (dropWhile (\<lambda>c. c \<in> set cutset) (rev (dropWhile (\<lambda>c. c \<in> set cutset) s)))"

text \<open>One line: the address and the one name behind it. \<open>pip\<close> is \<open>net.ParseIP\<close>.\<close>

definition load_line :: "(string \<Rightarrow> string option) \<Rightarrow> string \<Rightarrow> (string, string) gomap \<Rightarrow> (string, string) gomap" where
  "load_line pip l m =
     (let line = map (\<lambda>c. if c = CHR 0x09 then CHR '' '' else c) (Trim [CHR '' '', CHR 0x09] l) in
      if line = [] \<or> hd line = CHR '';'' \<or> hd line = CHR ''#'' then m
      else let ip = takeWhile (\<lambda>c. c \<noteq> CHR '' '') line; rest = drop (length ip + 1) line in
        if CHR '' '' \<notin> set line \<or> pip ip = None then m
        else if length (Fields rest) = 1 then mput rest ip m else m)"

datatype file_read = FileData string | FileMissing bool | FileError

definition LoadHosts :: "(string \<Rightarrow> string option) \<Rightarrow> file_read \<Rightarrow> hosts_state \<Rightarrow> bool \<times> hosts_state" where
  "LoadHosts pip f h =
     (case f of
        FileData d \<Rightarrow> (False, h\<lparr>hs_map := fold (load_line pip) (Split (Trim [CHR '' '', CHR 0x09, CHR 0x0D, CHR 0x0A] d) (CHR 0x0A)) (hs_map h)\<rparr>)
      | FileMissing created \<Rightarrow> if created then (False, h\<lparr>hs_map := []\<rparr>) else (True, h)
      | FileError \<Rightarrow> (True, h))"

text \<open>
  \<open>CheckOrUpdateHosts\<close>: first the records of the grid are compared with the pods, then what is left of the pods is added. The state of the loop is the map, the pods that are left
  and whether something has changed.
\<close>

definition check_domain :: "string \<Rightarrow> string \<Rightarrow> string \<Rightarrow> string \<times> string \<Rightarrow> (string, string) gomap \<times> (string, string) gomap \<times> bool
    \<Rightarrow> (string, string) gomap \<times> (string, string) gomap \<times> bool" where
  "check_domain ns ssgName svcName entry s =
     (let (domain, ip) = entry; (m, pods, changed) = s in
      if \<not> isMatchDomain domain ns ssgName svcName then s
      else case mget pods domain of
        None \<Rightarrow> (mdel domain m, pods, True)
      | Some curIp \<Rightarrow> if curIp \<noteq> ip then (mput domain curIp m, mdel domain pods, True) else (m, mdel domain pods, changed))"

definition CheckOrUpdateHosts :: "bool \<Rightarrow> (string, string) gomap \<Rightarrow> string \<Rightarrow> string \<Rightarrow> string \<Rightarrow> hosts_state \<Rightarrow> bool \<times> hosts_state" where
  "CheckOrUpdateHosts ok pods ns ssgName svcName h =
     (let (m, left, changed) = fold (check_domain ns ssgName svcName) (hs_map h) (hs_map h, pods, False) in
      if \<not> changed \<and> left = [] then (False, h)
      else saveHosts ok (h\<lparr>hs_map := fold (\<lambda>(domain, ip). mput domain ip) left m\<rparr>))"

definition same_map :: "(string, string) gomap \<Rightarrow> (string, string) gomap \<Rightarrow> bool" where
  "same_map a b \<longleftrightarrow> list_all (\<lambda>k. mget a k = mget b k) (mkeys a @ mkeys b)"

definition SetHostsByMap :: "bool \<Rightarrow> (string, string) gomap \<Rightarrow> hosts_state \<Rightarrow> bool \<times> hosts_state" where
  "SetHostsByMap ok m h =
     (if same_map (hs_map h) m then (False, h)
      else let (failed, h1) = saveHosts ok (h\<lparr>hs_map := m\<rparr>) in if failed then (True, h) else (False, h1))"

section \<open>What the records say\<close>

lemma same_map_iff: "same_map a b \<longleftrightarrow> mget a = mget b"
proof
  assume s: "same_map a b"
  show "mget a = mget b"
  proof
    fix k
    show "mget a k = mget b k"
    proof (cases "k \<in> set (mkeys a @ mkeys b)")
      case False
      then have "mget a k = None" "mget b k = None" by (simp_all add: map_of_eq_None_iff)
      then show ?thesis by simp
    qed (use s in \<open>auto simp: same_map_def list_all_iff\<close>)
  qed
qed (simp add: same_map_def list_all_iff)

text \<open>The records after the comparison, and the pods that it leaves.\<close>

lemma check_domain_fold:
  assumes "distinct (map fst es)" "\<And>d ip. (d, ip) \<in> set es \<Longrightarrow> mget m d = Some ip"
    and "fold (check_domain ns g svc) es (m, pods, c) = (m', left, c')"
  shows "(mget m' d = (if d \<in> fst ` set es \<and> isMatchDomain d ns g svc then mget pods d else mget m d)) \<and>
    (mget left d = (if d \<in> fst ` set es \<and> isMatchDomain d ns g svc then None else mget pods d)) \<and>
    (c' \<longleftrightarrow> c \<or> (\<exists>(d, ip) \<in> set es. isMatchDomain d ns g svc \<and> mget pods d \<noteq> Some ip))"
  using assms
proof (induction es arbitrary: m pods c)
  case (Cons e es)
  obtain x ip where e: "e = (x, ip)" by fastforce
  obtain m1 pods1 c1 where s: "check_domain ns g svc e (m, pods, c) = (m1, pods1, c1)" by (metis prod_cases3)
  have ip: "mget m x = Some ip" using Cons.prems(2) e by simp
  have step: "m1 = (if isMatchDomain x ns g svc then (case mget pods x of None \<Rightarrow> mdel x m | Some y \<Rightarrow> if y \<noteq> ip then mput x y m else m) else m)"
      "pods1 = (if isMatchDomain x ns g svc \<and> mget pods x \<noteq> None then mdel x pods else pods)"
      "c1 \<longleftrightarrow> c \<or> isMatchDomain x ns g svc \<and> mget pods x \<noteq> Some ip"
    using s by (auto simp: check_domain_def e split: if_splits option.splits)
  have other: "mget m1 d = mget m d" "mget pods1 d = mget pods d" if "d \<noteq> x" for d
    using that by (auto simp: step(1,2) mget_mput mget_mdel split: option.splits)
  have self: "mget m1 x = (if isMatchDomain x ns g svc then mget pods x else mget m x)"
      "mget pods1 x = (if isMatchDomain x ns g svc then None else mget pods x)"
    using ip by (auto simp: step(1,2) mget_mput mget_mdel split: option.splits)
  have x: "x \<notin> fst ` set es" "distinct (map fst es)" using Cons.prems(1) e by auto
  have m1: "mget m1 d = Some i" if "(d, i) \<in> set es" for d i
  proof -
    have "d \<noteq> x" using that x(1) by force
    then show ?thesis using other(1) Cons.prems(2) that by simp
  qed
  have rest: "fold (check_domain ns g svc) es (m1, pods1, c1) = (m', left, c')" using Cons.prems(3) s by simp
  have pods: "mget pods1 d = mget pods d" if "(d, i) \<in> set es" for d i
  proof -
    have "d \<noteq> x" using that x(1) by force
    then show ?thesis by (rule other(2))
  qed
  note IH = Cons.IH [OF x(2) m1 rest]
  have "(\<exists>(d, ip) \<in> set es. isMatchDomain d ns g svc \<and> mget pods1 d \<noteq> Some ip) \<longleftrightarrow> (\<exists>(d, ip) \<in> set es. isMatchDomain d ns g svc \<and> mget pods d \<noteq> Some ip)"
    using pods by (intro bex_cong refl) (auto split: prod.splits)
  then have changed: "c' \<longleftrightarrow> c \<or> (\<exists>(d, ip) \<in> set (e # es). isMatchDomain d ns g svc \<and> mget pods d \<noteq> Some ip)" using IH step(3) by (auto simp: e)
  show ?case
  proof (cases "d = x")
    case True
    then show ?thesis using IH changed self x(1) by (simp add: e)
  next
    case False
    then show ?thesis using IH changed other [OF False] by (simp add: e)
  qed
qed simp

lemma mget_fold_pairs: "mwf es \<Longrightarrow> mget (fold (\<lambda>(k, v). mput k v) es m) k = (case mget es k of Some v \<Rightarrow> Some v | None \<Rightarrow> mget m k)"
proof (induction es arbitrary: m)
  case (Cons e es)
  obtain a b where e: "e = (a, b)" by fastforce
  have "mwf es" "mget es a = None" using Cons.prems by (auto simp: mwf_def e map_of_eq_None_iff)
  then show ?case using Cons.IH by (auto simp: e mget_mput split: option.splits)
qed simp

lemma left_wf:
  assumes "fold (check_domain ns g svc) es (m, pods, c) = (m', left, c')" "mwf pods"
  shows "mwf left"
  using assms
proof (induction es arbitrary: m pods c)
  case (Cons e es)
  obtain m1 pods1 c1 where s: "check_domain ns g svc e (m, pods, c) = (m1, pods1, c1)" by (metis prod_cases3)
  then have "mwf pods1" using Cons.prems(2) by (auto simp: check_domain_def Let_def case_prod_unfold mwf_mdel split: if_splits option.splits)
  then show ?case using Cons.IH Cons.prems(1) s by simp
qed simp

definition records_after :: "string \<Rightarrow> string \<Rightarrow> string \<Rightarrow> (string, string) gomap \<Rightarrow> (string, string) gomap \<Rightarrow> string \<Rightarrow> string option" where
  "records_after ns g svc pods m d =
     (if isMatchDomain d ns g svc then mget pods d else case mget pods d of Some ip \<Rightarrow> Some ip | None \<Rightarrow> mget m d)"

lemma CheckOrUpdateHosts_map:
  assumes "mwf (hs_map h)" "mwf pods" "CheckOrUpdateHosts ok pods ns g svc h = (failed, h')"
  shows "mget (hs_map h') = records_after ns g svc pods (hs_map h)"
proof
  fix d
  obtain m left changed where f: "fold (check_domain ns g svc) (hs_map h) (hs_map h, pods, False) = (m, left, changed)" by (metis prod_cases3)
  have get: "mget (hs_map h) x = Some ip" if "(x, ip) \<in> set (hs_map h)" for x ip using assms(1) that by (simp add: mget_in_set)
  have keys: "x \<in> fst ` set (hs_map h) \<longleftrightarrow> mget (hs_map h) x \<noteq> None" for x by (rule in_mkeys)
  note F = check_domain_fold [OF _ get f]
  have dist: "distinct (map fst (hs_map h))" using assms(1) by (simp add: mwf_def)
  have m: "mget m x = (if mget (hs_map h) x \<noteq> None \<and> isMatchDomain x ns g svc then mget pods x else mget (hs_map h) x)"
    and left: "mget left x = (if mget (hs_map h) x \<noteq> None \<and> isMatchDomain x ns g svc then None else mget pods x)" for x
    using F [OF dist, of x] keys [of x] by simp_all
  have union: "(case mget left d of Some v \<Rightarrow> Some v | None \<Rightarrow> mget m d) = records_after ns g svc pods (hs_map h) d"
    by (auto simp: m left records_after_def split: option.splits)
  show "mget (hs_map h') d = records_after ns g svc pods (hs_map h) d"
  proof (cases "\<not> changed \<and> left = []")
    case True
    then have h': "h' = h" using assms(3) by (simp add: CheckOrUpdateHosts_def f)
    have "mget pods d = Some ip" if "mget (hs_map h) d = Some ip" "isMatchDomain d ns g svc" for ip
    proof -
      have "(d, ip) \<in> set (hs_map h)" using that(1) assms(1) by (simp add: mget_in_set)
      then show ?thesis using F [OF dist, of d] True that(2) by auto
    qed
    then have "mget m d = mget (hs_map h) d" by (auto simp: m)
    then show ?thesis using union True by (simp add: h')
  next
    case False
    then have "hs_map h' = fold (\<lambda>(k, v). mput k v) left m" using assms(3) by (auto simp: CheckOrUpdateHosts_def f saveHosts_def split: if_splits)
    then show ?thesis using union mget_fold_pairs [OF left_wf [OF f assms(2)]] by simp
  qed
qed

lemma CheckOrUpdateHosts_wf:
  assumes "mwf (hs_map h)" "CheckOrUpdateHosts ok pods ns g svc h = (failed, h')"
  shows "mwf (hs_map h')"
proof -
  have 1: "mwf (fst (fold (check_domain ns g svc) es s))" if "mwf (fst s)" for es s
    using that
  proof (induction es arbitrary: s)
    case (Cons e es)
    have "mwf (fst (check_domain ns g svc e s))" using Cons.prems
      by (cases s) (auto simp: check_domain_def Let_def case_prod_unfold mwf_mdel mwf_mput split: if_splits option.splits)
    then show ?case using Cons.IH by simp
  qed simp
  have 2: "mwf (fold (\<lambda>(k, v). mput k v) es m)" if "mwf m" for es m
    using that by (induction es arbitrary: m) (auto simp: mwf_mput)
  have "mwf (fold (\<lambda>(k, v). mput k v) left (fst (fold (check_domain ns g svc) (hs_map h) (hs_map h, pods, False))))" for left
    by (rule 2, rule 1) (simp add: assms(1))
  then show ?thesis using assms
    by (cases "fold (check_domain ns g svc) (hs_map h) (hs_map h, pods, False)") (auto simp: CheckOrUpdateHosts_def saveHosts_def split: if_splits)
qed

text \<open>
  A failed write of the hosts file is lost. When the write fails, the records in memory have been changed all the same; repeating the update with the same pods then finds nothing to do and
  reports success, and so does setting the records as a whole, while the file keeps its old contents.
\<close>

theorem failed_save_is_lost:
  assumes "mwf (hs_map h)" "mwf pods" "list_all (\<lambda>d. isMatchDomain d ns g svc) (mkeys pods)"
    and "CheckOrUpdateHosts False pods ns g svc h = (True, h1)" "mget m = records_after ns g svc pods (hs_map h)"
  shows "hs_file h1 = hs_file h \<and> CheckOrUpdateHosts ok pods ns g svc h1 = (False, h1) \<and> SetHostsByMap ok m h1 = (False, h1)"
proof -
  have map1: "mget (hs_map h1) = records_after ns g svc pods (hs_map h)" by (rule CheckOrUpdateHosts_map [OF assms(1,2,4)])
  have wf1: "mwf (hs_map h1)" by (rule CheckOrUpdateHosts_wf [OF assms(1,4)])
  have same_file: "hs_file h1 = hs_file h" using assms(4) by (auto simp: CheckOrUpdateHosts_def saveHosts_def Let_def split: prod.splits if_splits)
  obtain m2 left changed where f: "fold (check_domain ns g svc) (hs_map h1) (hs_map h1, pods, False) = (m2, left, changed)" by (metis prod_cases3)
  have get: "mget (hs_map h1) x = Some ip" if "(x, ip) \<in> set (hs_map h1)" for x ip using wf1 that by (simp add: mget_in_set)
  have dist: "distinct (map fst (hs_map h1))" using wf1 by (simp add: mwf_def)
  note F = check_domain_fold [OF dist get f]
  have pods_match: "isMatchDomain d ns g svc" if "mget pods d \<noteq> None" for d
    using assms(3) that by (auto simp: list_all_iff in_mkeys [symmetric] simp del: not_None_eq)
  have same: "mget (hs_map h1) d = mget pods d" if "isMatchDomain d ns g svc" for d using that by (simp add: map1 records_after_def)
  have "mget left d = None" for d
  proof (cases "isMatchDomain d ns g svc")
    case True
    then show ?thesis using F [of d] same [OF True] in_mkeys [of d "hs_map h1"] by (auto split: if_splits)
  next
    case False
    then have "mget pods d = None" using pods_match by blast
    then show ?thesis using F [of d] by simp
  qed
  moreover have "mget left (fst (hd left)) \<noteq> None" if "left \<noteq> []" using that by (cases left) auto
  ultimately have left: "left = []" by auto
  have "\<not> changed"
  proof
    assume changed
    then obtain d ip where "(d, ip) \<in> set (hs_map h1)" "isMatchDomain d ns g svc" "mget pods d \<noteq> Some ip" using F [of undefined] by auto
    then show False using get same by metis
  qed
  then have "CheckOrUpdateHosts ok pods ns g svc h1 = (False, h1)" using left by (simp add: CheckOrUpdateHosts_def f)
  moreover have "SetHostsByMap ok m h1 = (False, h1)" using map1 assms(5) by (simp add: SetHostsByMap_def same_map_iff)
  ultimately show ?thesis using same_file by simp
qed

definition demo_hosts :: hosts_state where
  "demo_hosts = NewHosts ''10.1.0.1 other''"

definition demo_pods :: "(string, string) gomap" where
  "demo_pods = [(''demo-0.svc.default.svc.cluster.local'', ''10.1.0.9'')]"

theorem failed_save_is_lost_witness:
  "hs_file (snd (CheckOrUpdateHosts False demo_pods ''default'' ''demo'' ''svc'' demo_hosts)) = hs_file demo_hosts \<and>
   CheckOrUpdateHosts True demo_pods ''default'' ''demo'' ''svc'' (snd (CheckOrUpdateHosts False demo_pods ''default'' ''demo'' ''svc'' demo_hosts)) =
     (False, snd (CheckOrUpdateHosts False demo_pods ''default'' ''demo'' ''svc'' demo_hosts)) \<and>
   SetHostsByMap True demo_pods (snd (CheckOrUpdateHosts False demo_pods ''default'' ''demo'' ''svc'' demo_hosts)) =
     (False, snd (CheckOrUpdateHosts False demo_pods ''default'' ''demo'' ''svc'' demo_hosts))"
proof (rule failed_save_is_lost)
  show "mwf (hs_map demo_hosts)" "mwf demo_pods" by (simp_all add: demo_hosts_def NewHosts_def demo_pods_def mwf_def)
  show "list_all (\<lambda>d. isMatchDomain d ''default'' ''demo'' ''svc'') (mkeys demo_pods)" by code_simp
  show "CheckOrUpdateHosts False demo_pods ''default'' ''demo'' ''svc'' demo_hosts = (True, snd (CheckOrUpdateHosts False demo_pods ''default'' ''demo'' ''svc'' demo_hosts))"
    by code_simp
  show "mget demo_pods = records_after ''default'' ''demo'' ''svc'' demo_pods (hs_map demo_hosts)"
    by (rule ext) (simp add: records_after_def demo_hosts_def NewHosts_def split: option.splits)
qed

text \<open>
  The expression is not anchored: the records of the grid \<open>my-demo\<close> match the pattern of the grid \<open>demo\<close> when both use the same service, so that
  updating the one removes the records of the other.
\<close>

lemma other_grid_matches: "isMatchDomain d ns g svc \<Longrightarrow> isMatchDomain (p @ d) ns g svc"
proof (induction p)
  case (Cons c p)
  then show ?case by (simp add: isMatchDomain_def)
qed simp

lemma Trim_none: "s \<noteq> [] \<Longrightarrow> hd s \<notin> set cs \<Longrightarrow> last s \<notin> set cs \<Longrightarrow> Trim cs s = s"
proof -
  assume s: "s \<noteq> []" "hd s \<notin> set cs" "last s \<notin> set cs"
  have "dropWhile (\<lambda>c. c \<in> set cs) s = s" "dropWhile (\<lambda>c. c \<in> set cs) (rev s) = rev s"
    using s by (simp_all add: dropWhile_eq_self_iff hd_rev)
  then show ?thesis by (simp add: Trim_def)
qed

definition record_ok :: "(string \<Rightarrow> string option) \<Rightarrow> string \<times> string \<Rightarrow> bool" where
  "record_ok pip = (\<lambda>(domain, ip). word domain \<and> word ip \<and> pip ip \<noteq> None \<and> hd ip \<noteq> CHR '';'' \<and> hd ip \<noteq> CHR ''#'')"

lemma word_chars: "word w \<Longrightarrow> c \<in> set w \<Longrightarrow> c \<noteq> CHR '' '' \<and> c \<noteq> CHR 0x09 \<and> c \<noteq> CHR 0x0A \<and> c \<noteq> CHR 0x0D"
  by (auto simp: word_def list_all_iff isSpace_def)

lemma word_ends: "word w \<Longrightarrow> w \<noteq> [] \<and> hd w \<in> set w \<and> last w \<in> set w"
  by (simp add: word_def)

lemma load_line_record:
  assumes "record_ok pip (domain, ip)"
  shows "load_line pip (ip @ '' '' @ domain) m = mput domain ip m"
proof -
  let ?l = "ip @ '' '' @ domain"
  have w: "word domain" "word ip" "pip ip \<noteq> None" "hd ip \<noteq> CHR '';''" "hd ip \<noteq> CHR ''#''" using assms by (simp_all add: record_ok_def)
  have ends: "hd ?l = hd ip" "last ?l = last domain" "?l \<noteq> []" using word_ends [OF w(1)] word_ends [OF w(2)] by simp_all
  have trim: "Trim [CHR '' '', CHR 0x09] ?l = ?l"
    using ends word_chars [OF w(2), of "hd ip"] word_chars [OF w(1), of "last domain"] word_ends [OF w(1)] word_ends [OF w(2)] by (intro Trim_none) auto
  have plain: "map (\<lambda>c. if c = CHR 0x09 then CHR '' '' else c) ?l = ?l"
    using word_chars [OF w(1)] word_chars [OF w(2)] by (intro map_idI) auto
  have line: "map (\<lambda>c. if c = CHR 0x09 then CHR '' '' else c) (Trim [CHR '' '', CHR 0x09] ?l) = ?l" by (simp only: trim plain)
  have "takeWhile (\<lambda>c. c \<noteq> CHR '' '') ?l = ip" using word_chars [OF w(2)] by (simp add: takeWhile_append takeWhile_eq_all_conv)
  moreover have "Fields domain = [domain]" using w(1) by (intro Fields_word) (auto simp: word_def list_all_iff)
  ultimately show ?thesis using w(3-5) ends unfolding load_line_def Let_def line by auto
qed

lemma Split_Join: "ls \<noteq> [] \<Longrightarrow> (\<And>l. l \<in> set ls \<Longrightarrow> c \<notin> set l) \<Longrightarrow> Split (Join ls [c]) c = ls"
proof (induction ls)
  case (Cons l ls)
  show ?case
  proof (cases ls)
    case Nil
    then show ?thesis using Cons.prems(2) by (simp add: Split_none)
  next
    case (Cons l' ls')
    then have "Split (l @ c # Join ls [c]) c = l # ls" using Cons.IH Cons.prems(2) by (simp add: Split_append)
    then show ?thesis using Cons by simp
  qed
qed simp

lemma concat_Join: "ls \<noteq> [] \<Longrightarrow> concat (map (\<lambda>l. l @ [c]) ls) = Join ls [c] @ [c]"
  by (induction ls rule: induct_list012) auto

lemma Join_ends: "ls \<noteq> [] \<Longrightarrow> (\<And>l. l \<in> set ls \<Longrightarrow> l \<noteq> []) \<Longrightarrow> Join ls s \<noteq> [] \<and> hd (Join ls s) = hd (hd ls) \<and> last (Join ls s) = last (last ls)"
  by (induction ls rule: induct_list012) auto

lemma Split_Trim_lines:
  assumes "ls \<noteq> []" "\<And>l. l \<in> set ls \<Longrightarrow> c \<notin> set l \<and> l \<noteq> [] \<and> hd l \<notin> set cs \<and> last l \<notin> set cs" "c \<in> set cs"
  shows "Split (Trim cs (concat (map (\<lambda>l. l @ [c]) ls))) c = ls"
proof -
  let ?j = "Join ls [c]"
  have ends: "?j \<noteq> []" "hd ?j \<notin> set cs" "last ?j \<notin> set cs" using Join_ends [OF assms(1), of "[c]"] assms(1,2) by (auto simp: hd_in_set)
  have "dropWhile (\<lambda>x. x \<in> set cs) (?j @ [c]) = ?j @ [c]" using ends by (simp add: dropWhile_eq_self_iff del: dropWhile_append3)
  moreover have "dropWhile (\<lambda>x. x \<in> set cs) (rev (?j @ [c])) = rev ?j" using ends assms(3) by (simp add: dropWhile_eq_self_iff hd_rev)
  ultimately have "Trim cs (?j @ [c]) = ?j" by (simp add: Trim_def)
  then show ?thesis using Split_Join [OF assms(1), of c] assms(1,2) by (simp add: concat_Join)
qed

text \<open>
  What is saved is loaded. A daemon that starts on a file that a daemon has written has the same records, for names and addresses that are words.
\<close>

theorem hosts_round_trip:
  assumes "mwf m" "list_all (record_ok pip) m"
  shows "mget (hs_map (snd (LoadHosts pip (FileData (parseHostsToFile m)) (NewHosts f)))) = mget m"
proof (cases m)
  case Nil
  then show ?thesis by (simp add: LoadHosts_def NewHosts_def parseHostsToFile_def Trim_def load_line_def)
next
  case (Cons e es)
  let ?line = "\<lambda>(domain, ip). ip @ '' '' @ domain" and ?nl = "[CHR 0x0A]"
  have contents: "parseHostsToFile m = concat (map (\<lambda>l. l @ ?nl) (map ?line m))" by (simp add: parseHostsToFile_def case_prod_unfold comp_def)
  have ne: "map ?line m \<noteq> []" using Cons by simp
  have lines: "CHR 0x0A \<notin> set l" "l \<noteq> []" "hd l \<notin> set [CHR '' '', CHR 0x09, CHR 0x0D, CHR 0x0A]" "last l \<notin> set [CHR '' '', CHR 0x09, CHR 0x0D, CHR 0x0A]"
    if l_in: "l \<in> set (map ?line m)" for l
  proof -
    obtain domain ip where l: "l = ip @ '' '' @ domain" "word domain" "word ip" using l_in assms(2) by (fastforce simp: list_all_iff record_ok_def)
    then show "CHR 0x0A \<notin> set l" "l \<noteq> []" using word_chars [of domain] word_chars [of ip] by auto
    show "hd l \<notin> set [CHR '' '', CHR 0x09, CHR 0x0D, CHR 0x0A]" "last l \<notin> set [CHR '' '', CHR 0x09, CHR 0x0D, CHR 0x0A]"
      using l word_chars [of domain "last domain"] word_chars [of ip "hd ip"] word_ends [of domain] word_ends [of ip] by auto
  qed
  have "Split (Trim [CHR '' '', CHR 0x09, CHR 0x0D, CHR 0x0A] (parseHostsToFile m)) (CHR 0x0A) = map ?line m"
    unfolding contents by (rule Split_Trim_lines) (use lines ne in auto)
  moreover have "fold (load_line pip) (map ?line m) [] = fold (\<lambda>(k, v). mput k v) m []"
  proof -
    have "fold (load_line pip) (map ?line es) x = fold (\<lambda>(k, v). mput k v) es x" if "list_all (record_ok pip) es" for es x
      using that by (induction es arbitrary: x) (auto simp: load_line_record simp del: append.simps)
    then show ?thesis using assms(2) by blast
  qed
  ultimately show ?thesis using mget_fold_pairs [OF assms(1), of "[]"] by (auto simp: LoadHosts_def NewHosts_def split: option.splits)
qed

theorem hosts_round_trip_witness:
  "mget (hs_map (snd (LoadHosts quad_pip (FileData (parseHostsToFile demo_pods)) (NewHosts [])))) = mget demo_pods"
proof (rule hosts_round_trip)
  show "mwf demo_pods" by (simp add: demo_pods_def mwf_def)
  show "list_all (record_ok quad_pip) demo_pods" by code_simp
qed

end
