(* ===== verification/GridDaemon.thy ===== *)
theory GridDaemon
  imports GridHosts GridCommon RefManager WorkQueue
begin

text \<open>
  The controller of \<open>statefulset-grid-daemon\<close> (\<open>controller/\<close>): on every node it keeps the names of the pods of the stateful set grids of the node's units in the hosts file. The
  listers are functions of an environment; sets that are added to the queue are the results of the event handlers.
\<close>

record daemon_set =
  ds_Meta :: object_meta
  ds_ServiceName :: string
  ds_NodeSelector :: "labels option"

record daemon_pod =
  dp_Meta :: object_meta
  dp_IP :: string

record daemon_env = label_lib +
  de_hostName :: string
  de_GetControllerOf :: "object_meta \<Rightarrow> OwnerReference option"
  de_grid_Get :: "string \<Rightarrow> string \<Rightarrow> apierr + string \<times> string"
  de_node_Get :: "string \<Rightarrow> go_error + object_meta"
  de_svc_Get :: "string \<Rightarrow> string \<Rightarrow> apierr + object_meta"
  de_set_Get :: "string \<Rightarrow> string \<Rightarrow> apierr + daemon_set"
  de_set_List :: "string option \<Rightarrow> requirement list \<Rightarrow> go_error + daemon_set list"
  de_pod_List :: "string \<Rightarrow> go_error + daemon_pod list"
  de_SplitKey :: "string \<Rightarrow> go_error + string \<times> string"

section \<open>Which sets matter\<close>

text \<open>A grid is its UID and its key; \<open>Inl\<close> is an error.\<close>

definition concerned_here :: "'a daemon_env_scheme \<Rightarrow> daemon_set \<Rightarrow> string \<Rightarrow> go_error + bool" where
  "concerned_here env st key =
     (if ds_ServiceName st = [] then Inr False
      else case de_node_Get env (de_hostName env) of
        Inl err \<Rightarrow> Inl err
      | Inr node \<Rightarrow>
          (case nget (om_Labels node) key of
             None \<Rightarrow> Inr False
           | Some v \<Rightarrow> Inr (nget (ds_NodeSelector st) key = Some v)))"

definition IsConcernedStatefulSet :: "'a daemon_env_scheme \<Rightarrow> daemon_set \<Rightarrow> go_error + bool" where
  "IsConcernedStatefulSet env st =
     (case de_GetControllerOf env (ds_Meta st) of
        None \<Rightarrow> Inr False
      | Some controllerRef \<Rightarrow>
          if or_Kind controllerRef \<noteq> StatefulSetGridKind then Inr False
          else if nget (om_Labels (ds_Meta st)) GridSelectorName \<noteq> Some (or_Name controllerRef) then Inr False
          else case nget (om_Labels (ds_Meta st)) GridSelectorUniqKeyName of
            None \<Rightarrow> Inr False
          | Some key \<Rightarrow>
              (case de_grid_Get env (om_Namespace (ds_Meta st)) (or_Name controllerRef) of
                 Inr (uid, gridKey) \<Rightarrow> if gridKey \<noteq> key \<or> or_UID controllerRef \<noteq> uid then Inr False else concerned_here env st key
               | Inl ENotFound \<Rightarrow> concerned_here env st key
               | Inl err \<Rightarrow> Inl ''get''))"

definition set_concerned :: "'a daemon_env_scheme \<Rightarrow> daemon_set \<Rightarrow> bool" where
  "set_concerned env st \<longleftrightarrow> IsConcernedStatefulSet env st = Inr True"

definition needClearStatefulSetDomains :: "'a daemon_env_scheme \<Rightarrow> daemon_set \<Rightarrow> apierr + bool" where
  "needClearStatefulSetDomains env st =
     (case de_svc_Get env (om_Namespace (ds_Meta st)) (ds_ServiceName st) of
        Inl ENotFound \<Rightarrow> Inr True
      | Inl err \<Rightarrow> Inl err
      | Inr svc \<Rightarrow>
          (case nget (om_Labels svc) GridSelectorUniqKeyName of
             None \<Rightarrow> Inr True
           | Some k \<Rightarrow> Inr (grid_value GridSelectorUniqKeyName (ds_Meta st) \<noteq> k)))"

section \<open>Members and names\<close>

text \<open>The expression \<open>(.*)-([0-9]+)$\<close>: the text before the last dash, if only digits follow it.\<close>

definition getParentName :: "string \<Rightarrow> string" where
  "getParentName name =
     (let digits = takeWhile isDigit (rev name); rest = dropWhile isDigit (rev name)
      in if digits = [] \<or> rest = [] \<or> hd rest \<noteq> CHR ''-'' then [] else rev (tl rest))"

definition IsMemberOf :: "'a daemon_env_scheme \<Rightarrow> daemon_set \<Rightarrow> daemon_pod \<Rightarrow> bool" where
  "IsMemberOf env st pod =
     (case de_GetControllerOf env (dp_Meta pod) of
        None \<Rightarrow> False
      | Some r \<Rightarrow> or_Name r = om_Name (ds_Meta st) \<and> or_UID r = om_UID (ds_Meta st) \<and> getParentName (om_Name (dp_Meta pod)) = om_Name (ds_Meta st))"

text \<open>\<open>strings.Index\<close>: the text before the first occurrence.\<close>

fun before_first :: "string \<Rightarrow> string \<Rightarrow> string option" where
  "before_first p [] = (if p = [] then Some [] else None)"
| "before_first p (c # s) = (if HasPrefix (c # s) p then Some [] else map_option (Cons c) (before_first p s))"

text \<open>The part of the name of a set behind the name of its grid; a name that is too short is a panic.\<close>

definition set_grid_value :: "string \<Rightarrow> string \<Rightarrow> string go" where
  "set_grid_value grid name = (if length name < length grid + 1 then Panic else Ret (drop (length grid + 1) name))"

text \<open>The name of a pod without the grid value; \<open>None\<close> when it does not occur.\<close>

definition pod_domain :: "string \<Rightarrow> string \<Rightarrow> string \<Rightarrow> string option go" where
  "pod_domain gridValue svc name =
     (case before_first gridValue name of
        None \<Rightarrow> Ret None
      | Some pre \<Rightarrow>
          if length name < length pre + length gridValue + 1 then Panic
          else Ret (Some (pre @ drop (length pre + length gridValue + 1) name @ ''.'' @ svc)))"

fun put_domains :: "string \<Rightarrow> string \<Rightarrow> daemon_pod list \<Rightarrow> (string, string) gomap \<Rightarrow> (string, string) gomap go" where
  "put_domains gridValue svc [] m = Ret m"
| "put_domains gridValue svc (pod # pods) m =
     go_bind (pod_domain gridValue svc (om_Name (dp_Meta pod))) (\<lambda>d.
       case d of
         None \<Rightarrow> put_domains gridValue svc pods m
       | Some domain \<Rightarrow>
           if dp_IP pod = [] then put_domains gridValue svc pods m
           else put_domains gridValue svc pods (mput (AppendDomainSuffix domain (om_Namespace (dp_Meta pod))) (dp_IP pod) m))"

section \<open>Synchronisation\<close>

text \<open>\<open>syncDnsHosts\<close>: \<open>ok\<close> is whether the file can be written. The result is whether there was an error.\<close>

definition syncDnsHosts :: "'a daemon_env_scheme \<Rightarrow> bool \<Rightarrow> string \<Rightarrow> hosts_state \<Rightarrow> (bool \<times> hosts_state) go" where
  "syncDnsHosts env ok key h =
     (case de_SplitKey env key of
        Inl _ \<Rightarrow> Ret (True, h)
      | Inr (namespace, name) \<Rightarrow>
          (case de_set_Get env namespace name of
             Inl ENotFound \<Rightarrow> Ret (False, h)
           | Inl _ \<Rightarrow> Ret (True, h)
           | Inr st \<Rightarrow>
               let ref = de_GetControllerOf env (ds_Meta st); ns = om_Namespace (ds_Meta st) in
               (case needClearStatefulSetDomains env st of
                  Inl _ \<Rightarrow> Ret (True, h)
                | Inr True \<Rightarrow> (case ref of None \<Rightarrow> Panic | Some r \<Rightarrow> Ret (CheckOrUpdateHosts ok [] ns (or_Name r) (ds_ServiceName st) h))
                | Inr False \<Rightarrow>
                    (case de_pod_List env ns of
                       Inl _ \<Rightarrow> Ret (True, h)
                     | Inr podList \<Rightarrow>
                         (case ref of
                            None \<Rightarrow> Ret (False, h)
                          | Some r \<Rightarrow>
                              go_bind (set_grid_value (or_Name r) (om_Name (ds_Meta st))) (\<lambda>gridValue.
                              go_bind (put_domains gridValue (ds_ServiceName st) (filter (IsMemberOf env st) podList) []) (\<lambda>pods.
                                Ret (CheckOrUpdateHosts ok pods ns (or_Name r) (ds_ServiceName st) h))))))))"

text \<open>The sets of \<open>syncDnsHostsAsWhole\<close>; an error of the lister of pods ends it (\<open>None\<close>).\<close>

fun whole_hosts :: "'a daemon_env_scheme \<Rightarrow> daemon_set list \<Rightarrow> (string, string) gomap \<Rightarrow> (string, string) gomap option go" where
  "whole_hosts env [] m = Ret (Some m)"
| "whole_hosts env (st # sets) m =
     (if \<not> set_concerned env st \<or> needClearStatefulSetDomains env st \<noteq> Inr False then whole_hosts env sets m
      else case de_pod_List env (om_Namespace (ds_Meta st)) of
        Inl _ \<Rightarrow> Ret None
      | Inr podList \<Rightarrow>
          (case de_GetControllerOf env (ds_Meta st) of
             None \<Rightarrow> Panic
           | Some r \<Rightarrow>
               go_bind (set_grid_value (or_Name r) (om_Name (ds_Meta st))) (\<lambda>gridValue.
               go_bind (put_domains gridValue (ds_ServiceName st) (filter (IsMemberOf env st) podList) m) (whole_hosts env sets))))"

definition syncDnsHostsAsWhole :: "'a daemon_env_scheme \<Rightarrow> bool \<Rightarrow> hosts_state \<Rightarrow> hosts_state go" where
  "syncDnsHostsAsWhole env ok h =
     (case de_node_Get env (de_hostName env) of
        Inl _ \<Rightarrow> Ret h
      | Inr node \<Rightarrow>
          (case GetNodesSelector (label_lib.truncate env) [node] of
             Inl _ \<Rightarrow> Ret h
           | Inr selector \<Rightarrow>
               (case de_set_List env None selector of
                  Inl _ \<Rightarrow> Ret h
                | Inr sets \<Rightarrow>
                    go_bind (whole_hosts env sets []) (\<lambda>r. case r of None \<Rightarrow> Ret h | Some m \<Rightarrow> Ret (snd (SetHostsByMap ok m h))))))"

section \<open>Events\<close>

definition daemon_deleteStatefulSet :: "'a daemon_env_scheme \<Rightarrow> daemon_set deleted \<Rightarrow> daemon_set list" where
  "daemon_deleteStatefulSet env obj = (case deleted_object obj of None \<Rightarrow> [] | Some st \<Rightarrow> if set_concerned env st then [st] else [])"

definition daemon_addStatefulSet :: "'a daemon_env_scheme \<Rightarrow> daemon_set \<Rightarrow> daemon_set list" where
  "daemon_addStatefulSet env st =
     (if om_DeletionTimestamp (ds_Meta st) \<noteq> None then daemon_deleteStatefulSet env (Deleted st) else if set_concerned env st then [st] else [])"

definition daemon_updateStatefulSet :: "'a daemon_env_scheme \<Rightarrow> daemon_set \<Rightarrow> daemon_set \<Rightarrow> daemon_set list" where
  "daemon_updateStatefulSet env old cur =
     (if om_ResourceVersion (ds_Meta cur) = om_ResourceVersion (ds_Meta old) then [] else if set_concerned env cur then [cur] else [])"

definition getStatefulSetForNode :: "'a daemon_env_scheme \<Rightarrow> object_meta \<Rightarrow> daemon_set list" where
  "getStatefulSetForNode env node =
     (case GetNodesSelector (label_lib.truncate env) [node] of
        Inl _ \<Rightarrow> []
      | Inr selector \<Rightarrow> (case de_set_List env None selector of Inl _ \<Rightarrow> [] | Inr sets \<Rightarrow> filter (set_concerned env) sets))"

definition daemon_deleteNode :: "'a daemon_env_scheme \<Rightarrow> object_meta deleted \<Rightarrow> daemon_set list" where
  "daemon_deleteNode env obj = (case deleted_object obj of None \<Rightarrow> [] | Some node \<Rightarrow> getStatefulSetForNode env node)"

definition daemon_addNode :: "'a daemon_env_scheme \<Rightarrow> object_meta \<Rightarrow> daemon_set list" where
  "daemon_addNode env node = (if om_DeletionTimestamp node \<noteq> None then daemon_deleteNode env (Deleted node) else getStatefulSetForNode env node)"

definition daemon_updateNode :: "'a daemon_env_scheme \<Rightarrow> object_meta \<Rightarrow> object_meta \<Rightarrow> daemon_set list" where
  "daemon_updateNode env old cur =
     (if om_ResourceVersion cur = om_ResourceVersion old then []
      else if \<not> map_DeepEqual (om_Labels cur) (om_Labels old) then getStatefulSetForNode env cur else [])"

definition getStatefulSetForPod :: "'a daemon_env_scheme \<Rightarrow> object_meta \<Rightarrow> daemon_set option" where
  "getStatefulSetForPod env pod =
     (case de_GetControllerOf env pod of
        None \<Rightarrow> None
      | Some r \<Rightarrow>
          if or_Kind r \<noteq> ''StatefulSet'' then None
          else case de_set_Get env (om_Namespace pod) (or_Name r) of
            Inl _ \<Rightarrow> None
          | Inr st \<Rightarrow> if om_UID (ds_Meta st) \<noteq> or_UID r then None else Some st)"

definition pod_sets :: "'a daemon_env_scheme \<Rightarrow> object_meta \<Rightarrow> daemon_set list" where
  "pod_sets env pod = (case getStatefulSetForPod env pod of None \<Rightarrow> [] | Some st \<Rightarrow> if set_concerned env st then [st] else [])"

definition deletePod :: "'a daemon_env_scheme \<Rightarrow> object_meta deleted \<Rightarrow> daemon_set list" where
  "deletePod env obj = (case deleted_object obj of None \<Rightarrow> [] | Some pod \<Rightarrow> pod_sets env pod)"

definition addPod :: "'a daemon_env_scheme \<Rightarrow> object_meta \<Rightarrow> daemon_set list" where
  "addPod env pod = (if om_DeletionTimestamp pod \<noteq> None then deletePod env (Deleted pod) else pod_sets env pod)"

definition updatePod :: "'a daemon_env_scheme \<Rightarrow> object_meta \<Rightarrow> object_meta \<Rightarrow> daemon_set list" where
  "updatePod env old cur =
     (if om_ResourceVersion cur = om_ResourceVersion old then []
      else let curRef = de_GetControllerOf env cur; oldRef = de_GetControllerOf env old
        in (if curRef \<noteq> oldRef \<and> oldRef \<noteq> None then pod_sets env old else []) @ (if curRef \<noteq> None then pod_sets env cur else []))"

definition getStatefulSetForService :: "'a daemon_env_scheme \<Rightarrow> object_meta \<Rightarrow> daemon_set list" where
  "getStatefulSetForService env svc =
     (case nget (om_Labels svc) GridSelectorName of
        None \<Rightarrow> []
      | Some controllerName \<Rightarrow>
          (case de_GetControllerOf env svc of
             None \<Rightarrow> []
           | Some r \<Rightarrow>
               if or_Name r \<noteq> controllerName \<or> or_Kind r \<noteq> ServiceGridKind then []
               else case nget (om_Labels svc) GridSelectorUniqKeyName of
                 None \<Rightarrow> []
               | Some key \<Rightarrow>
                   (case NewRequirement env (GridSelectorUniqKeyName, Equals, [key]) of
                      Some _ \<Rightarrow> []
                    | None \<Rightarrow>
                        (case de_set_List env (Some (om_Namespace svc)) [(GridSelectorUniqKeyName, Equals, [key])] of
                           Inl _ \<Rightarrow> []
                         | Inr sets \<Rightarrow> filter (\<lambda>st. ds_ServiceName st = om_Name svc) sets))))"

definition service_sets :: "'a daemon_env_scheme \<Rightarrow> object_meta \<Rightarrow> daemon_set list" where
  "service_sets env svc = filter (set_concerned env) (getStatefulSetForService env svc)"

definition daemon_deleteService :: "'a daemon_env_scheme \<Rightarrow> object_meta deleted \<Rightarrow> daemon_set list" where
  "daemon_deleteService env obj = (case deleted_object obj of None \<Rightarrow> [] | Some svc \<Rightarrow> service_sets env svc)"

definition daemon_addService :: "'a daemon_env_scheme \<Rightarrow> object_meta \<Rightarrow> daemon_set list" where
  "daemon_addService env svc = (if om_DeletionTimestamp svc \<noteq> None then daemon_deleteService env (Deleted svc) else service_sets env svc)"

definition daemon_updateService :: "'a daemon_env_scheme \<Rightarrow> object_meta \<Rightarrow> object_meta \<Rightarrow> daemon_set list" where
  "daemon_updateService env old cur =
     (if om_ResourceVersion cur = om_ResourceVersion old then []
      else (if \<not> map_DeepEqual (om_Labels cur) (om_Labels old) \<and> nget (om_Labels old) GridSelectorUniqKeyName \<noteq> None then service_sets env old else []) @
           (if nget (om_Labels cur) GridSelectorUniqKeyName \<noteq> None then service_sets env cur else []))"

section \<open>The names that pods get\<close>

definition ordinal :: "string \<Rightarrow> string" where
  "ordinal name = rev (takeWhile isDigit (rev name))"

lemma getParentName_split: "getParentName name = parent \<Longrightarrow> parent \<noteq> [] \<Longrightarrow> name = parent @ ''-'' @ ordinal name"
proof -
  assume p: "getParentName name = parent" "parent \<noteq> []"
  let ?rest = "dropWhile isDigit (rev name)"
  have rest: "?rest \<noteq> []" "hd ?rest = CHR ''-''" "parent = rev (tl ?rest)" using p by (auto simp: getParentName_def Let_def split: if_splits)
  have "rev name = takeWhile isDigit (rev name) @ ?rest" by simp
  then have "name = rev ?rest @ ordinal name" unfolding ordinal_def by (metis rev_append rev_rev_ident)
  moreover have "?rest = CHR ''-'' # tl ?rest" using rest(1,2) by (metis list.collapse)
  then have "rev ?rest = parent @ ''-''" using rest(3) by (metis rev.simps(2))
  ultimately show ?thesis by simp
qed

text \<open>The grid value does not occur earlier in the name of the set.\<close>

definition value_apart :: "string \<Rightarrow> string \<Rightarrow> bool" where
  "value_apart grid v \<longleftrightarrow> before_first v (grid @ ''-'' @ v) = Some (grid @ ''-'')"

lemma HasPrefix_append: "length p \<le> length s \<Longrightarrow> HasPrefix (s @ t) p \<longleftrightarrow> HasPrefix s p"
  by (simp add: HasPrefix_def)

lemma before_first_append: "before_first p s = Some pre \<Longrightarrow> before_first p (s @ t) = Some pre"
proof (induction s arbitrary: pre)
  case Nil
  then have "p = []" "pre = []" by (auto split: if_splits)
  then show ?case by (cases t) (auto simp: HasPrefix_def)
next
  case (Cons c s)
  show ?case
  proof (cases "HasPrefix (c # s) p")
    case True
    then have "HasPrefix (c # s @ t) p" using HasPrefix_append [of p "c # s" t] by (simp add: HasPrefix_def)
    then show ?thesis using True Cons.prems by simp
  next
    case False
    then obtain pre' where pre': "before_first p s = Some pre'" "pre = c # pre'" using Cons.prems by auto
    have "length p \<le> length s"
    proof -
      have "length pre' + length p \<le> length s" using pre'(1)
        by (induction s arbitrary: pre') (auto simp: HasPrefix_def split: if_splits)
      then show ?thesis by simp
    qed
    then have "\<not> HasPrefix (c # s @ t) p" using False HasPrefix_append [of p "c # s" t] by simp
    then show ?thesis using Cons.IH [OF pre'(1)] pre'(2) by simp
  qed
qed

lemma pod_domain_member:
  assumes "value_apart grid v" "name = (grid @ ''-'' @ v) @ ''-'' @ ord"
  shows "pod_domain v svc name = Ret (Some (grid @ ''-'' @ ord @ ''.'' @ svc))"
proof -
  have "before_first v name = Some (grid @ ''-'')" using before_first_append [of v "grid @ ''-'' @ v" "grid @ ''-''" "''-'' @ ord"] assms by (simp add: value_apart_def)
  then show ?thesis using assms(2) by (simp add: pod_domain_def)
qed

text \<open>What the records of the members should be: the ordinal of the pod under the name of the grid.\<close>

definition pod_record :: "string \<Rightarrow> string \<Rightarrow> daemon_pod \<Rightarrow> string" where
  "pod_record grid svc pod = AppendDomainSuffix (grid @ ''-'' @ ordinal (om_Name (dp_Meta pod)) @ ''.'' @ svc) (om_Namespace (dp_Meta pod))"

definition pod_records :: "string \<Rightarrow> string \<Rightarrow> daemon_pod list \<Rightarrow> (string, string) gomap \<Rightarrow> (string, string) gomap" where
  "pod_records grid svc pods m = fold (\<lambda>pod. mput (pod_record grid svc pod) (dp_IP pod)) (filter (\<lambda>pod. dp_IP pod \<noteq> []) pods) m"

lemma put_domains_members:
  assumes "value_apart grid v" "list_all (\<lambda>pod. getParentName (om_Name (dp_Meta pod)) = grid @ ''-'' @ v) pods"
  shows "put_domains v svc pods m = Ret (pod_records grid svc pods m)"
  using assms(2)
proof (induction pods arbitrary: m)
  case (Cons pod pods)
  have "om_Name (dp_Meta pod) = (grid @ ''-'' @ v) @ ''-'' @ ordinal (om_Name (dp_Meta pod))"
    using Cons.prems by (intro getParentName_split) simp_all
  then have "pod_domain v svc (om_Name (dp_Meta pod)) = Ret (Some (grid @ ''-'' @ ordinal (om_Name (dp_Meta pod)) @ ''.'' @ svc))"
    by (rule pod_domain_member [OF assms(1)])
  then show ?case using Cons by (simp add: pod_records_def pod_record_def)
qed (simp add: pod_records_def)

lemma pod_records_wf: "mwf m \<Longrightarrow> mwf (pod_records grid svc pods m)"
proof -
  have "mwf m \<Longrightarrow> mwf (fold (\<lambda>pod. mput (pod_record grid svc pod) (dp_IP pod)) ps m)" for ps by (induction ps arbitrary: m) (auto simp: mwf_mput)
  then show "mwf m \<Longrightarrow> mwf (pod_records grid svc pods m)" by (simp add: pod_records_def)
qed

text \<open>
  C37: the records follow the pods. A synchronisation of a set that a grid controls succeeds when the file can be written. When the service of the set is there and its label names the
  key of the set, the records under the pattern of the grid are afterwards exactly those of the pods of the set that have an address, each under the name of the grid and the
  ordinal of the pod; when the service is missing or its label is not that of the set, there are none. Other records stay. The
  grid value occurs in the name of the set only behind the name of the grid and the dash (\<open>value_apart\<close>); where it occurs earlier the
  names are wrong (\<open>value_not_apart\<close>).
\<close>

theorem syncDnsHosts_follows_pods:
  assumes "mwf (hs_map h)" "de_SplitKey env key = Inr (ns, name)" "de_set_Get env ns name = Inr st"
    and "om_Namespace (ds_Meta st) = ns" "om_Name (ds_Meta st) = grid @ ''-'' @ v" "value_apart grid v"
    and "de_GetControllerOf env (ds_Meta st) = Some r" "or_Name r = grid"
    and "needClearStatefulSetDomains env st = Inr clear" "de_pod_List env ns = Inr pods"
  shows "\<exists>h'. syncDnsHosts env True key h = Ret (False, h') \<and> (h' = h \<or> hs_file h' = parseHostsToFile (hs_map h')) \<and>
    mget (hs_map h') = records_after ns grid (ds_ServiceName st)
      (if clear then [] else pod_records grid (ds_ServiceName st) (filter (IsMemberOf env st) pods) []) (hs_map h)"
proof -
  let ?pods = "pod_records grid (ds_ServiceName st) (filter (IsMemberOf env st) pods) []"
  have "list_all (\<lambda>pod. getParentName (om_Name (dp_Meta pod)) = grid @ ''-'' @ v) (filter (IsMemberOf env st) pods)"
    using assms(5) by (auto simp: list_all_iff IsMemberOf_def split: option.splits)
  then have put: "put_domains v (ds_ServiceName st) (filter (IsMemberOf env st) pods) [] = Ret ?pods" by (rule put_domains_members [OF assms(6)])
  obtain failed h' where h': "CheckOrUpdateHosts True (if clear then [] else ?pods) ns grid (ds_ServiceName st) h = (failed, h')" by fastforce
  then have ok: "\<not> failed" "h' = h \<or> hs_file h' = parseHostsToFile (hs_map h')"
    by (auto simp: CheckOrUpdateHosts_def saveHosts_def Let_def split: prod.splits if_splits)
  have "syncDnsHosts env True key h = Ret (False, h')"
    using assms(2-5,7-10) put h' ok(1) by (cases clear) (simp_all add: syncDnsHosts_def set_grid_value_def)
  moreover have "mget (hs_map h') = records_after ns grid (ds_ServiceName st) (if clear then [] else ?pods) (hs_map h)"
    using CheckOrUpdateHosts_map [OF assms(1) _ h'] by (simp add: pod_records_wf)
  ultimately show ?thesis using ok(2) by blast
qed

text \<open>Where the grid value occurs earlier the name is wrong: for the grid \<open>data\<close> and the value \<open>a\<close> the pod \<open>data-a-0\<close> gets the name \<open>da-a-0\<close>.\<close>

lemma value_not_apart: "pod_domain ''a'' ''svc'' ''data-a-0'' = Ret (Some ''da-a-0.svc'')"
  by (simp add: pod_domain_def HasPrefix_def)

definition demo_set :: daemon_set where
  "demo_set = \<lparr>ds_Meta = zero_object_meta\<lparr>om_Name := ''demo-unit1'', om_Namespace := ''default'', om_UID := ''u1'', om_Labels := Some [(GridSelectorUniqKeyName, ''zone'')]\<rparr>,
     ds_ServiceName = ''svc'', ds_NodeSelector = Some [(''zone'', ''unit1'')]\<rparr>"

definition demo_owner :: "string \<Rightarrow> string \<Rightarrow> string \<Rightarrow> OwnerReference" where
  "demo_owner kind name uid = \<lparr>or_APIVersion = [], or_Kind = kind, or_Name = name, or_UID = uid, or_Controller = Some True, or_BlockOwnerDeletion = None\<rparr>"

definition demo_env :: daemon_env where
  "demo_env = \<lparr>IsValidLabelValue = (\<lambda>_. True), NewRequirement = (\<lambda>_. None), Matches = (\<lambda>_ _. True), de_hostName = ''n1'',
     de_GetControllerOf = (\<lambda>m. if om_Name m = ''demo-unit1'' then Some (demo_owner StatefulSetGridKind ''demo'' ''g1'') else Some (demo_owner ''StatefulSet'' ''demo-unit1'' ''u1'')),
     de_grid_Get = (\<lambda>_ _. Inr (''g1'', ''zone'')), de_node_Get = (\<lambda>_. Inr (zero_object_meta\<lparr>om_Labels := Some [(''zone'', ''unit1'')]\<rparr>)),
     de_svc_Get = (\<lambda>_ _. Inr (zero_object_meta\<lparr>om_Labels := Some [(GridSelectorUniqKeyName, ''zone'')]\<rparr>)), de_set_Get = (\<lambda>_ _. Inr demo_set),
     de_set_List = (\<lambda>_ _. Inr [demo_set]), de_pod_List = (\<lambda>_. Inr [\<lparr>dp_Meta = zero_object_meta\<lparr>om_Name := ''demo-unit1-0'', om_Namespace := ''default''\<rparr>, dp_IP = ''10.1.0.9''\<rparr>]),
     de_SplitKey = (\<lambda>_. Inr (''default'', ''demo-unit1''))\<rparr>"

theorem syncDnsHosts_follows_pods_witness:
  "case syncDnsHosts demo_env True ''default/demo-unit1'' demo_hosts of Ret (failed, h') \<Rightarrow> mget (hs_map h') ''demo-0.svc.default.svc.cluster.local'' = Some ''10.1.0.9'' | Panic \<Rightarrow> False"
proof -
  have "\<exists>h'. syncDnsHosts demo_env True ''default/demo-unit1'' demo_hosts = Ret (False, h') \<and> (h' = demo_hosts \<or> hs_file h' = parseHostsToFile (hs_map h')) \<and>
      mget (hs_map h') = records_after ''default'' ''demo'' (ds_ServiceName demo_set) (if False then [] else pod_records ''demo'' (ds_ServiceName demo_set)
        (filter (IsMemberOf demo_env demo_set) [\<lparr>dp_Meta = zero_object_meta\<lparr>om_Name := ''demo-unit1-0'', om_Namespace := ''default''\<rparr>, dp_IP = ''10.1.0.9''\<rparr>]) []) (hs_map demo_hosts)"
  proof (rule syncDnsHosts_follows_pods [where r = "demo_owner StatefulSetGridKind ''demo'' ''g1''"])
    show "value_apart ''demo'' ''unit1''" by (simp add: value_apart_def HasPrefix_def)
    show "needClearStatefulSetDomains demo_env demo_set = Inr False" by (simp add: needClearStatefulSetDomains_def demo_env_def demo_set_def grid_value_def)
  qed (simp_all add: demo_env_def demo_set_def demo_owner_def demo_hosts_def NewHosts_def)
  moreover have "records_after ''default'' ''demo'' (ds_ServiceName demo_set) (pod_records ''demo'' (ds_ServiceName demo_set)
        (filter (IsMemberOf demo_env demo_set) [\<lparr>dp_Meta = zero_object_meta\<lparr>om_Name := ''demo-unit1-0'', om_Namespace := ''default''\<rparr>, dp_IP = ''10.1.0.9''\<rparr>]) []) (hs_map demo_hosts)
        ''demo-0.svc.default.svc.cluster.local'' = Some ''10.1.0.9''" by code_simp
  ultimately show ?thesis by auto
qed

end
