(* ===== verification/NodeTask.thy ===== *)
theory NodeTask
  imports KubeMeta WorkQueue RefManager
begin

text \<open>
  penetrator: the addition of machines as nodes (\<open>src/pkg/penetrator\<close>). A \<open>NodeTask\<close> lists machines; the webhook
  (\<open>operator/admission/webhook.go\<close>) checks it and names the nodes, the controller (\<open>operator/controller/controller.go\<close>) makes a configuration and a job for
  the nodes that are missing, and the job (\<open>job/addnode.go\<close>, \<open>job/conf\<close>, \<open>util/ssh_util.go\<close>) installs them over ssh with several goroutines.

  What the API server, files, ssh, random numbers, the clock and the TOML and PEM libraries answer are arguments. Calls that change something are recorded in the order they are made.
\<close>

section \<open>Data\<close>

record NodeTaskSpec =
  NodeNamePrefix :: string
  TargetMachines :: "string list option"
  NodeNamesOverride :: "labels option"
  ProxyNode :: string
  SSHCredential :: string
  SSHPort :: int

record NodeTaskStatus =
  NodeStatus :: "labels option"
  TaskStatus :: string

record NodeTask =
  nt_Meta :: object_meta
  nt_Spec :: NodeTaskSpec
  nt_Status :: NodeTaskStatus

record JobSecret =
  PassWd :: string
  PwPath :: string
  SshKey :: "string option"
  KeyPath :: string

record JobConfig =
  NodesIps :: "labels option"
  jc_SSHPort :: int
  jc_NodeLabel :: string
  AdmToken :: string
  ApiserverAddr :: string
  ApiserverPort :: string
  CaHash :: string
  jc_Secret :: JobSecret

definition NodeLabel :: string where "NodeLabel = ''app.superedge.io/node-label''"
definition AnnotationAddNodeJobName :: string where "AnnotationAddNodeJobName = ''app.superedge.io/job-name''"
definition AnnotationAddNodeConfigmapName :: string where "AnnotationAddNodeConfigmapName = ''app.superedge.io/configmap-name''"
definition NameSpaceEdge :: string where "NameSpaceEdge = ''edge-system''"
definition JobConf_key :: string where "JobConf_key = ''job.toml''"
definition KubernetesControlPlaneLabel :: string where "KubernetesControlPlaneLabel = ''node-role.kubernetes.io/control-plane=''"
definition TaskCreating :: string where "TaskCreating = ''creating''"
definition TaskReady :: string where "TaskReady = ''ready''"

definition omap :: "labels option \<Rightarrow> labels" where
  "omap m = (case m of None \<Rightarrow> [] | Some l \<Rightarrow> l)"

definition nt_annotation :: "NodeTask \<Rightarrow> string \<Rightarrow> string" where
  "nt_annotation nt k = (case nget (om_Annotations (nt_Meta nt)) k of None \<Rightarrow> '''' | Some v \<Rightarrow> v)"

definition nt_label :: "NodeTask \<Rightarrow> string \<Rightarrow> string" where
  "nt_label nt k = (case nget (om_Labels (nt_Meta nt)) k of None \<Rightarrow> '''' | Some v \<Rightarrow> v)"

section \<open>Webhook\<close>

record task_patch =
  p_NodeNamesOverride :: "labels option"
  p_Annotations :: labels
  p_Labels :: labels

text \<open>The machines without repetition; the list is replaced only when there is one.\<close>

definition distinct_machines :: "string list \<Rightarrow> string list" where
  "distinct_machines ips =
     (let ipsMap = fold (\<lambda>v m. mput v () m) ips []
      in if length ipsMap \<noteq> length ips then mkeys ipsMap else ips)"

text \<open>
  \<open>names\<close> are the random names that \<open>randString\<close> yields one after the other. A name of an existing node is skipped; the loop does not end
  when no other name comes, which is the result \<open>None\<close>.
\<close>

fun fresh_name :: "(string, unit) gomap \<Rightarrow> string \<Rightarrow> string list \<Rightarrow> (string \<times> string list) option" where
  "fresh_name nodesMap prefix [] = None"
| "fresh_name nodesMap prefix (r # rs) =
     (let nodeName = prefix @ ''-'' @ r in if mhas nodesMap nodeName then fresh_name nodesMap prefix rs else Some (nodeName, rs))"

fun name_machines :: "(string, unit) gomap \<Rightarrow> string \<Rightarrow> string list \<Rightarrow> string list \<Rightarrow> labels \<Rightarrow> labels option" where
  "name_machines nodesMap prefix [] names nameIps = Some nameIps"
| "name_machines nodesMap prefix (v # vs) names nameIps =
     (case fresh_name nodesMap prefix names of
        None \<Rightarrow> None
      | Some (nodeName, names') \<Rightarrow> name_machines nodesMap prefix vs names' (mput nodeName v nameIps))"

text \<open>A missing list of nodes counts as no nodes only when the error is that it was not found.\<close>

definition getCreatePatch :: "(apierr + string list) \<Rightarrow> string \<Rightarrow> string list \<Rightarrow> NodeTask \<Rightarrow> (go_error + task_patch) option" where
  "getCreatePatch node_list r names nt =
     (let randomToken = om_Name (nt_Meta nt) @ ''-'' @ r;
          rest = (\<lambda>nameIps. Some (Inr \<lparr>p_NodeNamesOverride = nameIps,
            p_Annotations = [(AnnotationAddNodeJobName, randomToken), (AnnotationAddNodeConfigmapName, randomToken)], p_Labels = [(NodeLabel, randomToken)]\<rparr>))
      in case NodeNamesOverride (nt_Spec nt) of
           Some _ \<Rightarrow> rest None
         | None \<Rightarrow>
             (case (NodeNamePrefix (nt_Spec nt) = '''', TargetMachines (nt_Spec nt)) of
                (False, Some machines) \<Rightarrow>
                  (case node_list of
                     Inl err \<Rightarrow> if err \<noteq> ENotFound then Some (Inl ''failed to get nodes, error: %v'')
                       else (case name_machines [] (NodeNamePrefix (nt_Spec nt)) (distinct_machines machines) names [] of None \<Rightarrow> None | Some m \<Rightarrow> rest (Some m))
                   | Inr ns \<Rightarrow>
                       (case name_machines (fold (\<lambda>n m. mput n () m) ns []) (NodeNamePrefix (nt_Spec nt)) (distinct_machines machines) names [] of
                          None \<Rightarrow> None
                        | Some m \<Rightarrow> rest (Some m)))
              | _ \<Rightarrow> Some (Inl ''targetMachines or NodeNamePrefix are empty'')))"

text \<open>\<open>ParseIP\<close> says whether an address is valid; \<open>secret\<close> holds the keys of the secret, \<open>tasks\<close> the states of the existing tasks.\<close>

definition validate :: "(string \<Rightarrow> bool) \<Rightarrow> (go_error + string list) \<Rightarrow> (go_error + string list) \<Rightarrow> NodeTask \<Rightarrow> go_error list" where
  "validate ParseIP secret tasks nt =
     (let machines = (case TargetMachines (nt_Spec nt) of None \<Rightarrow> [] | Some l \<Rightarrow> l); override = omap (NodeNamesOverride (nt_Spec nt)) in
      (if length override = 0 \<and> length machines = 0 then [''%s or %s must be specified''] else []) @
      (if length override \<noteq> 0 \<and> length machines \<noteq> 0 then [''only one of %s and %s can be selected''] else []) @
      (if list_ex (\<lambda>ip. \<not> ParseIP ip) machines then [''The ip format of the %s array is err ''] else []) @
      (if list_ex (\<lambda>(k, ip). \<not> ParseIP ip) override then [''The ip format of the %s array is err''] else []) @
      (case secret of
         Inl err \<Rightarrow> [''Failed to get secret, error: %s'']
       | Inr ks \<Rightarrow> if ''passwd'' \<in> set ks \<or> ''sshkey'' \<in> set ks then [] else [''Failed to obtain login password (passwd) or private key (sshkey) from secret'']) @
      (case tasks of
         Inl err \<Rightarrow> [''Failed to list nodestask, error: %s'']
       | Inr [] \<Rightarrow> []
       | Inr (s # _) \<Rightarrow> if s = TaskCreating then [''The task is executing''] else [''The task has been completed'']))"

text \<open>\<open>reflect.DeepEqual\<close> on two specifications.\<close>

definition spec_DeepEqual :: "NodeTaskSpec \<Rightarrow> NodeTaskSpec \<Rightarrow> bool" where
  "spec_DeepEqual a b \<longleftrightarrow> map_DeepEqual (NodeNamesOverride a) (NodeNamesOverride b) \<and> a\<lparr>NodeNamesOverride := NodeNamesOverride b\<rparr> = b"

datatype operation = OpCreate | OpUpdate | OpOther

datatype review_answer = NoAnswer | Denied "string option" | Allowed "string option" "task_patch option" | Endless

text \<open>
  \<open>body\<close> is the body with the error of reading it, \<open>review\<close> the decoded review with its uid and operation, \<open>task\<close> its object, \<open>stored\<close> the task that the API server has.
  The first argument of \<open>Denied\<close> and \<open>Allowed\<close> is the uid.
\<close>

definition Handle_task ::
    "(NodeTask \<Rightarrow> go_error list) \<Rightarrow> (NodeTask \<Rightarrow> (go_error + task_patch) option) \<Rightarrow> string \<Rightarrow> go_error option option \<Rightarrow> (go_error + string \<times> operation) \<Rightarrow>
     (go_error + NodeTask) \<Rightarrow> (go_error + NodeTaskSpec) \<Rightarrow> review_answer" where
  "Handle_task check patch contentType body review task stored =
     (if contentType \<noteq> ''application/json'' then NoAnswer
      else case body of
        None \<Rightarrow> NoAnswer
      | Some (Some err) \<Rightarrow> Denied None
      | Some None \<Rightarrow>
          (case review of
             Inl err \<Rightarrow> Denied None
           | Inr (uid, operation) \<Rightarrow>
               (case task of
                  Inl err \<Rightarrow> Denied (Some uid)
                | Inr nt \<Rightarrow>
                    (case operation of
                       OpCreate \<Rightarrow>
                         if length (check nt) > 0 then Denied (Some uid)
                         else (case patch nt of
                                 None \<Rightarrow> Endless
                               | Some (Inl err) \<Rightarrow> Denied (Some uid)
                               | Some (Inr p) \<Rightarrow> Allowed (Some uid) (Some p))
                     | OpUpdate \<Rightarrow>
                         (case stored of
                            Inl err \<Rightarrow> Denied (Some uid)
                          | Inr spec \<Rightarrow> if \<not> spec_DeepEqual spec (nt_Spec nt) then Denied (Some uid) else Allowed (Some uid) None)
                     | OpOther \<Rightarrow> Allowed (Some uid) None))))"

section \<open>Controller\<close>

text \<open>The nodes that are still to be added, one name per address; \<open>existing\<close> are the names of the nodes that carry the label of the task.\<close>

definition invert :: "labels \<Rightarrow> labels" where
  "invert m = fold (\<lambda>(k, v) r. mput v k r) m []"

definition remaining_nodes :: "labels option \<Rightarrow> string list \<Rightarrow> labels option" where
  "remaining_nodes override existing =
     (let ipMap = invert (omap override);
          start = (if length ipMap = length (omap override) then override else Some (invert ipMap))
      in map_option (fold mdel existing) start)"

definition filterNodeIps :: "(apierr + string list) \<Rightarrow> NodeTask \<Rightarrow> apierr + NodeTask" where
  "filterNodeIps node_list nt =
     (case node_list of
        Inl err \<Rightarrow> Inl err
      | Inr existing \<Rightarrow>
          let status = remaining_nodes (NodeNamesOverride (nt_Spec nt)) existing
          in Inr (nt\<lparr>nt_Status := \<lparr>NodeStatus = status, TaskStatus = (if length (omap status) = 0 then TaskReady else TaskCreating)\<rparr>\<rparr>))"

text \<open>A secret of a bootstrap token: its id, its secret and the text of its expiration.\<close>

record token_secret =
  ts_Id :: string
  ts_Secret :: string
  ts_Expiration :: string

record config_map =
  cm_Name :: string
  cm_Namespace :: string
  cm_OwnerReferences :: "OwnerReference list"
  cm_Data :: "labels option"

record job_options =
  jo_JobName :: string
  jo_NameSpace :: string
  jo_SecretName :: string
  jo_JobConfig :: string
  jo_NodeName :: string
  jo_NodeTaskName :: string
  jo_Uid :: string

text \<open>The values of the template of a bootstrap token; a call for a configuration map has the namespace of the request.\<close>

record token_options =
  to_Base64TokenId :: string
  to_Base64TokenSecret :: string
  to_TokenId :: string
  to_Base64Expiration :: string

datatype task_call =
    CreateTokenSecret string token_options
  | CreateConfigMap string config_map
  | UpdateConfigMap string config_map
  | CreateJob string job_options
  | UpdateTaskStatus NodeTask
  | DeleteJob string

text \<open>
  What the outside answers in one synchronisation: reads of the API server, the answer to each call, files and libraries. \<open>te_Job\<close> are the conditions of
  the job, \<open>te_Expiration\<close> is the text of the time one day after the present, \<open>te_base64\<close> the encoder.
\<close>

record task_env =
  te_SplitKey :: "string \<Rightarrow> go_error + string \<times> string"
  te_Get :: "string \<Rightarrow> apierr + NodeTask"
  te_Job :: "string \<Rightarrow> apierr + (string \<times> string) list"
  te_Nodes :: "string \<Rightarrow> apierr + string list"
  te_Node :: "string \<Rightarrow> apierr + labels option"
  te_Tokens :: "apierr + token_secret list"
  te_GenerateToken :: "go_error + string"
  te_base64 :: "string \<Rightarrow> string"
  te_Expiration :: string
  te_ParseTime :: "string \<Rightarrow> go_error + int"
  te_ReadFile :: "string \<Rightarrow> go_error + string"
  te_ConfigMap :: "string \<Rightarrow> apierr + config_map"
  te_ClusterInfo :: "apierr + string"
  te_LoadConfig :: "string \<Rightarrow> go_error + (string, string \<times> string) gomap"
  te_ParseCerts :: "string \<Rightarrow> go_error + string list"
  te_ParseURL :: "string \<Rightarrow> go_error + string \<times> string"
  te_sha256 :: "string \<Rightarrow> string"
  te_Marshal :: "JobConfig \<Rightarrow> go_error + string"
  te_Unmarshal :: "string \<Rightarrow> go_error + JobConfig"
  te_respond :: "task_call \<Rightarrow> apierr option"

text \<open>An operation of a synchronisation yields an error or a value and the calls that it has made.\<close>

type_synonym 'a sync = "((apierr + 'a) \<times> task_call list) go"

definition sbind :: "'a sync \<Rightarrow> ('a \<Rightarrow> 'b sync) \<Rightarrow> 'b sync" where
  "sbind m f = go_bind m (\<lambda>(r, cs).
     case r of Inl err \<Rightarrow> Ret (Inl err, cs) | Inr x \<Rightarrow> go_bind (f x) (\<lambda>(r', cs'). Ret (r', cs @ cs')))"

definition sret :: "'a \<Rightarrow> 'a sync" where "sret x = Ret (Inr x, [])"

definition lift_err :: "go_error + 'a \<Rightarrow> 'a sync" where
  "lift_err r = Ret (case r of Inl err \<Rightarrow> Inl (EOther err) | Inr x \<Rightarrow> Inr x, [])"

definition lift_api :: "apierr + 'a \<Rightarrow> 'a sync" where "lift_api r = Ret (r, [])"

definition task_api :: "task_env \<Rightarrow> task_call \<Rightarrow> unit sync" where
  "task_api env c = Ret (case te_respond env c of Some e \<Rightarrow> Inl e | None \<Rightarrow> Inr (), [c])"

text \<open>The secret with the latest expiration; of equal ones the first.\<close>

fun latest_token :: "task_env \<Rightarrow> token_secret \<Rightarrow> int \<Rightarrow> token_secret list \<Rightarrow> go_error + token_secret" where
  "latest_token env secret t [] = Inr secret"
| "latest_token env secret t (item # items) =
     (case te_ParseTime env (ts_Expiration item) of
        Inl err \<Rightarrow> Inl err
      | Inr tmp \<Rightarrow> if t < tmp then latest_token env item tmp items else latest_token env secret t items)"

definition getBootStrapToken :: "task_env \<Rightarrow> string sync" where
  "getBootStrapToken env =
     sbind (lift_api (te_Tokens env)) (\<lambda>secrets.
       case secrets of
         [] \<Rightarrow>
           sbind (lift_err (te_GenerateToken env)) (\<lambda>token.
             (case Split token (CHR ''.'') of
                t0 # t1 # _ \<Rightarrow>
                  sbind (lift_err (te_ReadFile env ''/etc/superedge/penetrator/manifests/bootstraper-token-secret.yaml'')) (\<lambda>tmpl.
                    sbind (task_api env (CreateTokenSecret tmpl \<lparr>to_Base64TokenId = te_base64 env t0, to_Base64TokenSecret = te_base64 env t1,
                      to_TokenId = t0, to_Base64Expiration = te_base64 env (te_Expiration env)\<rparr>)) (\<lambda>_. sret token))
              | _ \<Rightarrow> Panic))
       | item # items \<Rightarrow>
           sbind (lift_err (te_ParseTime env (ts_Expiration item))) (\<lambda>t.
             sbind (lift_err (latest_token env item t items)) (\<lambda>secret.
               sret (ts_Id secret @ ''.'' @ ts_Secret secret))))"

text \<open>The server and the certificates of the cluster without a name; a configuration without it is a nil pointer.\<close>

definition Hash_ca :: "task_env \<Rightarrow> string \<Rightarrow> string" where
  "Hash_ca env key = ''sha256:'' @ ToLower (te_sha256 env key)"

definition getCaHashAndApiserverAddr :: "task_env \<Rightarrow> (string \<times> string \<times> string) sync" where
  "getCaHashAndApiserverAddr env =
     sbind (lift_api (te_ClusterInfo env)) (\<lambda>info.
       sbind (lift_err (te_LoadConfig env info)) (\<lambda>clusters.
         (case mget clusters '''' of
            None \<Rightarrow> Panic
          | Some (ca, server) \<Rightarrow>
              sbind (lift_err (te_ParseCerts env ca)) (\<lambda>certs.
                sbind (lift_err (te_ParseURL env server)) (\<lambda>(host, port).
                  (case certs of [] \<Rightarrow> Panic | cert # _ \<Rightarrow> sret (Hash_ca env cert, host, port)))))))"

definition zero_secret :: JobSecret where
  "zero_secret = \<lparr>PassWd = '''', PwPath = '''', SshKey = None, KeyPath = ''''\<rparr>"

definition new_config_map :: "NodeTask \<Rightarrow> string \<Rightarrow> config_map" where
  "new_config_map nt data = \<lparr>cm_Name = nt_annotation nt AnnotationAddNodeJobName, cm_Namespace = om_Namespace (nt_Meta nt),
     cm_OwnerReferences = [\<lparr>or_APIVersion = ''batch/v1'', or_Kind = ''Job'', or_Name = nt_annotation nt AnnotationAddNodeJobName,
       or_UID = om_UID (nt_Meta nt), or_Controller = Some True, or_BlockOwnerDeletion = Some True\<rparr>],
     cm_Data = Some [(JobConf_key, data)]\<rparr>"

definition prepareJob :: "task_env \<Rightarrow> NodeTask \<Rightarrow> NodeTask sync" where
  "prepareJob env nt0 =
     sbind (lift_api (filterNodeIps (te_Nodes env (NodeLabel @ ''='' @ nt_label nt0 NodeLabel)) nt0)) (\<lambda>nt.
       if TaskStatus (nt_Status nt) = TaskReady then sret nt
       else
         sbind (getBootStrapToken env) (\<lambda>bootStrapToken.
           (case te_ConfigMap env (nt_annotation nt AnnotationAddNodeConfigmapName) of
              Inl err \<Rightarrow>
                if err = ENotFound then
                  sbind (getCaHashAndApiserverAddr env) (\<lambda>(caHash, apiserverAddr, apiserverPort).
                    sbind (lift_err (te_Marshal env \<lparr>NodesIps = NodeStatus (nt_Status nt), jc_SSHPort = SSHPort (nt_Spec nt),
                        jc_NodeLabel = nt_label nt NodeLabel, AdmToken = bootStrapToken, ApiserverAddr = apiserverAddr,
                        ApiserverPort = apiserverPort, CaHash = caHash, jc_Secret = zero_secret\<rparr>)) (\<lambda>data.
                      sbind (task_api env (CreateConfigMap NameSpaceEdge (new_config_map nt data))) (\<lambda>_. sret nt)))
                else lift_api (Inl err)
            | Inr jobConf \<Rightarrow>
                sbind (lift_err (te_Unmarshal env (case nget (cm_Data jobConf) JobConf_key of None \<Rightarrow> '''' | Some d \<Rightarrow> d))) (\<lambda>cmconf.
                  sbind (lift_err (te_Marshal env (cmconf\<lparr>AdmToken := bootStrapToken, NodesIps := NodeStatus (nt_Status nt)\<rparr>))) (\<lambda>cmjb.
                    (case cm_Data jobConf of
                       None \<Rightarrow> Panic
                     | Some data \<Rightarrow>
                         sbind (task_api env (UpdateConfigMap NameSpaceEdge (jobConf\<lparr>cm_Data := Some (mput JobConf_key cmjb data)\<rparr>))) (\<lambda>_. sret nt)))))))"

definition createNodeJob :: "task_env \<Rightarrow> NodeTask \<Rightarrow> bool \<Rightarrow> unit sync" where
  "createNodeJob env nt hasMasterRoleLabel =
     (let options = \<lparr>jo_JobName = nt_annotation nt AnnotationAddNodeJobName, jo_NameSpace = NameSpaceEdge, jo_SecretName = SSHCredential (nt_Spec nt),
            jo_JobConfig = nt_annotation nt AnnotationAddNodeConfigmapName, jo_NodeName = ProxyNode (nt_Spec nt),
            jo_NodeTaskName = nt_annotation nt AnnotationAddNodeJobName, jo_Uid = om_UID (nt_Meta nt)\<rparr>;
          path = (if hasMasterRoleLabel then ''/etc/superedge/penetrator/manifests/direct-addnode-job.yaml''
            else ''/etc/superedge/penetrator/manifests/springboard-addnode-job.yaml'')
      in sbind (lift_err (te_ReadFile env path)) (\<lambda>tmpl. task_api env (CreateJob tmpl options)))"

definition status_DeepEqual :: "NodeTaskStatus \<Rightarrow> NodeTaskStatus \<Rightarrow> bool" where
  "status_DeepEqual a b \<longleftrightarrow> map_DeepEqual (NodeStatus a) (NodeStatus b) \<and> TaskStatus a = TaskStatus b"

text \<open>\<open>IsJobFinished\<close>: a condition is its type and its status.\<close>

definition IsJobFinished :: "(string \<times> string) list \<Rightarrow> bool" where
  "IsJobFinished conditions = list_ex (\<lambda>(t, s). (t = ''Complete'' \<or> t = ''Failed'') \<and> s = ''True'') conditions"

definition syncHandler :: "task_env \<Rightarrow> string \<Rightarrow> unit sync" where
  "syncHandler env key =
     sbind (lift_err (te_SplitKey env key)) (\<lambda>(ns, name).
       sbind (lift_api (te_Get env name)) (\<lambda>nt.
         (case te_Job env (nt_annotation nt AnnotationAddNodeJobName) of
            Inl err \<Rightarrow>
              if err = ENotFound then
                sbind (prepareJob env nt) (\<lambda>ntCopy.
                  sbind (if TaskStatus (nt_Status ntCopy) = TaskCreating then
                           sbind (lift_api (te_Node env (ProxyNode (nt_Spec ntCopy)))) (\<lambda>ls.
                             createNodeJob env nt (nget ls KubernetesControlPlaneLabel \<noteq> None))
                         else sret ()) (\<lambda>_.
                    if \<not> status_DeepEqual (nt_Status nt) (nt_Status ntCopy) then task_api env (UpdateTaskStatus ntCopy) else sret ()))
              else sret ()
          | Inr conditions \<Rightarrow> if IsJobFinished conditions then task_api env (DeleteJob (nt_annotation nt AnnotationAddNodeJobName)) else sret ())))"

text \<open>The events of tasks, and the queue, which retries without end.\<close>

definition update_task :: "NodeTask \<Rightarrow> NodeTask \<Rightarrow> NodeTask list" where
  "update_task oldTask newTask =
     (if om_DeletionTimestamp (nt_Meta oldTask) \<noteq> om_DeletionTimestamp (nt_Meta newTask) then [newTask]
      else if TaskStatus (nt_Status newTask) = TaskCreating \<or> status_DeepEqual (nt_Status newTask) \<lparr>NodeStatus = None, TaskStatus = ''''\<rparr> then [newTask]
      else [])"

definition processNextWorkItem_nt :: "'q queue_ops \<Rightarrow> (string \<Rightarrow> unit sync) \<Rightarrow> 'q \<Rightarrow> (bool \<times> 'q \<times> task_call list) go" where
  "processNextWorkItem_nt ops handler q =
     (let ((key, shutdown), q1) = q_Get ops q in
      if shutdown then Ret (False, q1, [])
      else go_bind (handler key) (\<lambda>(r, cs).
        Ret (True, q_Done ops key (case r of Inl err \<Rightarrow> q_AddRateLimited ops key q1 | Inr _ \<Rightarrow> q_Forget ops key q1), cs)))"

section \<open>The missing nodes\<close>

lemma mwf_invert: "mwf (invert m)"
proof -
  have "mwf acc \<Longrightarrow> mwf (fold (\<lambda>(k, v) r. mput v k r) m acc)" for acc by (induction m arbitrary: acc) auto
  then show ?thesis by (simp add: invert_def)
qed

lemma invert_values: "map_of (invert m) v = Some k \<Longrightarrow> (k, v) \<in> set m"
proof -
  have "map_of (fold (\<lambda>(k, v) r. mput v k r) m acc) v = Some k \<Longrightarrow> (k, v) \<in> set m \<or> map_of acc v = Some k" for acc
    by (induction m arbitrary: acc) (fastforce simp: gomap split: if_splits)+
  from this [of "[]"] show "map_of (invert m) v = Some k \<Longrightarrow> (k, v) \<in> set m" by (simp add: invert_def)
qed

lemma keys_invert: "set (map fst (invert m)) = snd ` set m"
proof -
  have "set (map fst (fold (\<lambda>(k, v) r. mput v k r) m acc)) = set (map fst acc) \<union> snd ` set m" for acc
    by (induction m arbitrary: acc) (auto simp: mkeys_mput simp del: set_map)
  from this [of "[]"] show ?thesis by (simp add: invert_def)
qed

lemma invert_swap: "distinct (map snd m) \<Longrightarrow> invert m = map (\<lambda>(k, v). (v, k)) m"
proof -
  have "distinct (map snd m) \<Longrightarrow> set (map fst acc) \<inter> snd ` set m = {} \<Longrightarrow>
      fold (\<lambda>(k, v) r. mput v k r) m acc = acc @ map (\<lambda>(k, v). (v, k)) m" for acc
    by (induction m arbitrary: acc) (auto simp: update_fresh)
  from this [of "[]"] show "distinct (map snd m) \<Longrightarrow> ?thesis" by (simp add: invert_def)
qed

lemma invert_values_distinct:
  assumes "mwf m"
  shows "distinct (map snd (invert m))"
proof -
  have "inj_on snd (set (invert m))"
  proof (rule inj_onI)
    fix x y assume "x \<in> set (invert m)" "y \<in> set (invert m)" "snd x = snd y"
    then have "(snd x, fst x) \<in> set m" "(snd x, fst y) \<in> set m"
      using invert_values [of m] mget_in_set [OF mwf_invert] by (metis prod.collapse)+
    then have "fst x = fst y" using assms by (metis mget_in_set option.inject)
    with \<open>snd x = snd y\<close> show "x = y" by (simp add: prod_eq_iff)
  qed
  moreover have "distinct (invert m)" using mwf_invert [of m] by (simp add: mwf_def distinct_map)
  ultimately show ?thesis by (simp add: distinct_map)
qed

text \<open>One name for each address, and the addresses are those of the specification.\<close>

definition named_once :: "labels \<Rightarrow> labels \<Rightarrow> bool" where
  "named_once m start \<longleftrightarrow> mwf start \<and> distinct (map snd start) \<and> set start \<subseteq> set m \<and> snd ` set start = snd ` set m"

lemma length_invert: "length (invert m) = card (snd ` set m)"
  using keys_invert [of m] mwf_invert [of m] distinct_card [of "map fst (invert m)"] by (simp add: mwf_def)

lemma named_once_start: "mwf m \<Longrightarrow> named_once m (if length (invert m) = length m then m else invert (invert m))"
proof (cases "length (invert m) = length m")
  case True
  then have "distinct (map snd m)" using length_invert [of m] by (metis card_distinct length_map list.set_map)
  with True show "mwf m \<Longrightarrow> ?thesis" by (simp add: named_once_def)
next
  case False
  assume m: "mwf m"
  have e: "invert (invert m) = map (\<lambda>(k, v). (v, k)) (invert m)" using invert_swap [OF invert_values_distinct [OF m]] .
  have "map snd (invert (invert m)) = map fst (invert m)" by (simp add: e split_def)
  moreover have "set (invert (invert m)) \<subseteq> set m"
    using invert_values [of m] mget_in_set [OF mwf_invert, of _ _ m] by (auto simp: e)
  ultimately show ?thesis using False keys_invert [of m] mwf_invert [of m] mwf_invert [of "invert m"]
    by (simp add: named_once_def mwf_def) (metis list.set_map)
qed

lemma set_fold_mdel: "set (fold mdel existing start) = {(k, v). (k, v) \<in> set start \<and> k \<notin> set existing}"
proof (induction existing arbitrary: start)
  case (Cons x xs)
  have "set (mdel x start) = {(k, v). (k, v) \<in> set start \<and> k \<noteq> x}" by (auto simp: AList.delete_eq)
  with Cons show ?case by auto
qed auto

lemma fold_mdel_keeps: "mwf start \<Longrightarrow> distinct (map snd start) \<Longrightarrow> mwf (fold mdel existing start) \<and> distinct (map snd (fold mdel existing start))"
proof (induction existing arbitrary: start)
  case (Cons x xs)
  have "distinct (map snd (mdel x start))" using Cons.prems(2) by (simp add: AList.delete_eq distinct_map_filter)
  with Cons show ?case by auto
qed simp

text \<open>The nodes that are still to be added, of those that are named in \<open>m\<close> and the existing ones.\<close>

definition missing_nodes :: "labels \<Rightarrow> string list \<Rightarrow> labels \<Rightarrow> bool" where
  "missing_nodes m existing missing \<longleftrightarrow> mwf missing \<and> distinct (map snd missing) \<and>
     (\<forall>(k, v)\<in>set missing. mget m k = Some v \<and> k \<notin> set existing) \<and>
     (\<forall>v\<in>snd ` set m. v \<in> snd ` set missing \<or> (\<exists>k\<in>set existing. mget m k = Some v))"

lemma remaining_nodes_missing:
  assumes "mwf m"
  shows "\<exists>missing. remaining_nodes (Some m) existing = Some missing \<and> missing_nodes m existing missing"
proof -
  define start where "start = (if length (invert m) = length m then m else invert (invert m))"
  have start: "named_once m start" unfolding start_def by (rule named_once_start [OF assms])
  have "remaining_nodes (Some m) existing = Some (fold mdel existing start)" by (simp add: remaining_nodes_def omap_def start_def Let_def)
  moreover have "missing_nodes m existing (fold mdel existing start)"
    unfolding missing_nodes_def
  proof (intro conjI ballI)
    show "mwf (fold mdel existing start)" "distinct (map snd (fold mdel existing start))"
      using start fold_mdel_keeps [of start existing] by (simp_all add: named_once_def)
    show "case e of (k, v) \<Rightarrow> mget m k = Some v \<and> k \<notin> set existing" if "e \<in> set (fold mdel existing start)" for e
      using start that assms mget_in_set [OF assms] by (auto simp: set_fold_mdel named_once_def)
    show "v \<in> snd ` set (fold mdel existing start) \<or> (\<exists>k\<in>set existing. mget m k = Some v)" if v: "v \<in> snd ` set m" for v
    proof -
      have "v \<in> snd ` set start" using start v by (simp add: named_once_def)
      then obtain k where "(k, v) \<in> set start" by auto
      moreover from this have "mget m k = Some v" using start mget_in_set [OF assms, of k v] by (auto simp: named_once_def)
      ultimately show ?thesis by (force simp: set_fold_mdel)
    qed
  qed
  ultimately show ?thesis by blast
qed

section \<open>The job for the missing nodes\<close>

lemma sbind_Inr: "sbind m f = Ret (Inr y, cs) \<longleftrightarrow> (\<exists>x cs1 cs2. m = Ret (Inr x, cs1) \<and> f x = Ret (Inr y, cs2) \<and> cs = cs1 @ cs2)"
proof (cases m)
  case (Ret p)
  then show ?thesis by (cases p; cases "fst p") (auto simp: sbind_def go_bind_eq_Ret split: prod.splits)
qed (simp add: sbind_def)

lemma sync_simps [simp]:
  "sret x = Ret (Inr y, cs) \<longleftrightarrow> y = x \<and> cs = []"
  "lift_api r = Ret (Inr y, cs) \<longleftrightarrow> r = Inr y \<and> cs = []"
  "lift_err e = Ret (Inr y, cs) \<longleftrightarrow> e = Inr y \<and> cs = []"
  "task_api env c = Ret (Inr u, cs) \<longleftrightarrow> te_respond env c = None \<and> cs = [c]"
  by (auto simp: sret_def lift_api_def lift_err_def task_api_def split: sum.splits option.splits)

lemma sbind_lift: "sbind (lift_api (Inr x)) f = f x" "sbind (lift_err (Inr x)) f = f x"
  by (cases "f x"; simp add: sbind_def lift_api_def lift_err_def split: prod.splits)+

text \<open>
  The configuration map that a call writes, and its contents for the job, with the namespace and the name under which it is found afterwards. The API server
  refuses an object whose namespace is given and is not that of the request.
\<close>

definition config_written :: "task_call \<Rightarrow> ((string \<times> string) \<times> string option) option" where
  "config_written c = (case c of
     CreateConfigMap ns cm \<Rightarrow> if cm_Namespace cm \<in> {'''', ns} then Some ((ns, cm_Name cm), nget (cm_Data cm) JobConf_key) else None
   | UpdateConfigMap ns cm \<Rightarrow> if cm_Namespace cm \<in> {'''', ns} then Some ((ns, cm_Name cm), nget (cm_Data cm) JobConf_key) else None
   | _ \<Rightarrow> None)"

definition is_CreateJob :: "task_call \<Rightarrow> bool" where
  "is_CreateJob c = (case c of CreateJob _ _ \<Rightarrow> True | _ \<Rightarrow> False)"

lemma sbindE:
  assumes "sbind m f = Ret (Inr y, cs)"
  obtains x cs1 cs2 where "m = Ret (Inr x, cs1)" "f x = Ret (Inr y, cs2)" "cs = cs1 @ cs2"
  using assms unfolding sbind_Inr by blast

lemma token_calls: "getBootStrapToken env = Ret (Inr t, cs) \<Longrightarrow> \<not> list_ex is_CreateJob cs"
  by (auto simp: getBootStrapToken_def is_CreateJob_def elim!: sbindE split: list.splits)

lemma ca_calls: "getCaHashAndApiserverAddr env = Ret (Inr t, cs) \<Longrightarrow> cs = []"
  by (auto simp: getCaHashAndApiserverAddr_def elim!: sbindE split: list.splits option.splits prod.splits)

text \<open>
  The last call of a preparation writes the nodes of the status to the configuration map of a namespace and a name. What the code relies on: the two annotations of a task,
  which the webhook sets to the same name (\<open>patch_names_agree\<close>); tasks have no namespace; and a configuration map that is looked up in the
  namespace \<open>edge-system\<close> has that namespace and the name asked for.
\<close>

definition writes_config :: "task_env \<Rightarrow> string \<times> string \<Rightarrow> labels option \<Rightarrow> task_call list \<Rightarrow> bool" where
  "writes_config env nn nodes cs \<longleftrightarrow> (\<exists>earlier cfg conf data. cs = earlier @ [cfg] \<and> \<not> list_ex is_CreateJob earlier \<and>
     config_written cfg = Some (nn, Some data) \<and> te_Marshal env conf = Inr data \<and> NodesIps conf = nodes)"

definition task_named :: "task_env \<Rightarrow> NodeTask \<Rightarrow> bool" where
  "task_named env nt \<longleftrightarrow> nt_annotation nt AnnotationAddNodeJobName = nt_annotation nt AnnotationAddNodeConfigmapName \<and> om_Namespace (nt_Meta nt) = '''' \<and>
     (case te_ConfigMap env (nt_annotation nt AnnotationAddNodeConfigmapName) of
        Inl _ \<Rightarrow> True
      | Inr cm \<Rightarrow> cm_Name cm = nt_annotation nt AnnotationAddNodeConfigmapName \<and> cm_Namespace cm = NameSpaceEdge)"

lemma patch_names_agree:
  "getCreatePatch node_list r names nt = Some (Inr p) \<Longrightarrow>
     mget (p_Annotations p) AnnotationAddNodeJobName = mget (p_Annotations p) AnnotationAddNodeConfigmapName \<and>
     mget (p_Annotations p) AnnotationAddNodeConfigmapName \<noteq> None"
  by (auto simp: getCreatePatch_def Let_def AnnotationAddNodeJobName_def AnnotationAddNodeConfigmapName_def split: option.splits sum.splits prod.splits bool.splits if_splits)

lemma writes_config_calls:
  "te_Marshal env conf = Inr data \<Longrightarrow> \<not> list_ex is_CreateJob cs \<Longrightarrow> NodesIps conf = nodes \<Longrightarrow> om_Namespace (nt_Meta nt) = '''' \<Longrightarrow>
    nt_annotation nt AnnotationAddNodeJobName = name \<Longrightarrow>
    writes_config env (NameSpaceEdge, name) nodes (cs @ [CreateConfigMap NameSpaceEdge (new_config_map nt data)])"
  "te_Marshal env conf = Inr data \<Longrightarrow> \<not> list_ex is_CreateJob cs \<Longrightarrow> NodesIps conf = nodes \<Longrightarrow> cm_Namespace cm = NameSpaceEdge \<Longrightarrow> cm_Name cm = name \<Longrightarrow>
    writes_config env (NameSpaceEdge, name) nodes (cs @ [UpdateConfigMap NameSpaceEdge (cm\<lparr>cm_Data := Some (mput JobConf_key data d)\<rparr>)])"
  by (auto simp: writes_config_def config_written_def new_config_map_def nget_def gomap)

lemma filterNodeIps_keeps: "filterNodeIps ns nt0 = Inr nt \<Longrightarrow> nt_Meta nt = nt_Meta nt0 \<and> nt_annotation nt k = nt_annotation nt0 k"
  by (auto simp: filterNodeIps_def Let_def nt_annotation_def split: sum.splits)

lemma prepareJob_calls:
  assumes "prepareJob env nt0 = Ret (Inr nt, cs)" "te_Nodes env (NodeLabel @ ''='' @ nt_label nt0 NodeLabel) = Inr existing" "task_named env nt0"
  shows "filterNodeIps (Inr existing) nt0 = Inr nt \<and>
    (if TaskStatus (nt_Status nt) = TaskReady then cs = []
     else writes_config env (NameSpaceEdge, nt_annotation nt0 AnnotationAddNodeConfigmapName) (NodeStatus (nt_Status nt)) cs)"
  using assms unfolding prepareJob_def task_named_def
  by (auto elim!: sbindE dest!: ca_calls token_calls dest: filterNodeIps_keeps split: if_splits sum.splits option.splits prod.splits)
    ((erule (1) writes_config_calls; simp add: filterNodeIps_keeps)+)

lemma filterNodeIps_missing:
  assumes "mwf m" "NodeNamesOverride (nt_Spec nt) = Some m" "filterNodeIps (Inr existing) nt = Inr nt'"
  obtains missing where "missing_nodes m existing missing"
    "nt' = nt\<lparr>nt_Status := \<lparr>NodeStatus = Some missing, TaskStatus = (if missing = [] then TaskReady else TaskCreating)\<rparr>\<rparr>"
  using remaining_nodes_missing [OF assms(1), of existing] assms(2,3) that
  by (auto simp: filterNodeIps_def Let_def omap_def)

lemma createNodeJob_calls: "createNodeJob env nt b = Ret (Inr u, cs) \<Longrightarrow>
    \<exists>tmpl opts. cs = [CreateJob tmpl opts] \<and> jo_JobConfig opts = nt_annotation nt AnnotationAddNodeConfigmapName \<and> jo_NameSpace opts = NameSpaceEdge"
  by (auto simp: createNodeJob_def Let_def elim!: sbindE)

text \<open>
  C22: A synchronisation of a task that has no job and ends without an error. There is a set of missing nodes: one name of the task for each of its addresses, without the nodes that exist
  with the label of the task. If it is empty, at most the status is written, to ready. Otherwise a configuration map with exactly these nodes is written, under the namespace and the
  name that the job is given to read its configuration from; directly after it that job is created, and only then at most the status is written, to creating with these nodes.
  The task carries the same name in its two annotations, as the webhook writes them, and has no namespace, and the lookup of the configuration map finds the one of the name asked for.
\<close>

theorem job_for_missing_nodes:
  assumes "te_SplitKey env key = Inr (ns, name)" "te_Get env name = Inr nt" "te_Job env (nt_annotation nt AnnotationAddNodeJobName) = Inl ENotFound"
    and "te_Nodes env (NodeLabel @ ''='' @ nt_label nt NodeLabel) = Inr existing" "task_named env nt"
    and "NodeNamesOverride (nt_Spec nt) = Some m" "mwf m" "syncHandler env key = Ret (Inr (), calls)"
  shows "\<exists>missing. missing_nodes m existing missing \<and>
    (if missing = [] then set calls \<subseteq> {UpdateTaskStatus (nt\<lparr>nt_Status := \<lparr>NodeStatus = Some missing, TaskStatus = TaskReady\<rparr>\<rparr>)}
     else \<exists>first tmpl opts later. calls = first @ CreateJob tmpl opts # later \<and>
       writes_config env (jo_NameSpace opts, jo_JobConfig opts) (Some missing) first \<and>
       set later \<subseteq> {UpdateTaskStatus (nt\<lparr>nt_Status := \<lparr>NodeStatus = Some missing, TaskStatus = TaskCreating\<rparr>\<rparr>)})"
proof -
  define create where "create = (\<lambda>nt' :: NodeTask. if TaskStatus (nt_Status nt') = TaskCreating then
      sbind (lift_api (te_Node env (ProxyNode (nt_Spec nt')))) (\<lambda>ls. createNodeJob env nt (nget ls KubernetesControlPlaneLabel \<noteq> None)) else sret ())"
  define update where "update = (\<lambda>nt'. if \<not> status_DeepEqual (nt_Status nt) (nt_Status nt') then task_api env (UpdateTaskStatus nt') else sret ())"
  have "sbind (prepareJob env nt) (\<lambda>nt'. sbind (create nt') (\<lambda>_. update nt')) = Ret (Inr (), calls)"
    using assms(1-3) by (simp add: syncHandler_def create_def update_def sbind_lift flip: assms(8))
  then obtain nt' cs1 cs2 cs3 where prep: "prepareJob env nt = Ret (Inr nt', cs1)" and calls: "calls = cs1 @ cs2 @ cs3"
      and create: "create nt' = Ret (Inr (), cs2)" and update: "update nt' = Ret (Inr (), cs3)"
    by (auto elim!: sbindE)
  have job: "if TaskStatus (nt_Status nt') = TaskCreating then \<exists>b. createNodeJob env nt b = Ret (Inr (), cs2) else cs2 = []"
    using create by (auto simp: create_def simp del: not_None_eq elim!: sbindE split: if_splits)
  have status: "set cs3 \<subseteq> {UpdateTaskStatus nt'}" using update by (auto simp: update_def split: if_splits)
  obtain missing where missing: "missing_nodes m existing missing"
      "nt' = nt\<lparr>nt_Status := \<lparr>NodeStatus = Some missing, TaskStatus = (if missing = [] then TaskReady else TaskCreating)\<rparr>\<rparr>"
    using prepareJob_calls [OF prep assms(4,5)] filterNodeIps_missing [OF assms(7,6)] by metis
  show ?thesis
  proof (cases "missing = []")
    case True
    then have "calls = cs3" using prepareJob_calls [OF prep assms(4,5)] job missing(2) calls by (simp add: TaskReady_def TaskCreating_def)
    with True missing status show ?thesis by auto
  next
    case False
    then have "writes_config env (NameSpaceEdge, nt_annotation nt AnnotationAddNodeConfigmapName) (Some missing) cs1" using prepareJob_calls [OF prep assms(4,5)] missing(2) by (simp add: TaskReady_def TaskCreating_def)
    moreover obtain tmpl opts where "cs2 = [CreateJob tmpl opts]" "jo_JobConfig opts = nt_annotation nt AnnotationAddNodeConfigmapName" "jo_NameSpace opts = NameSpaceEdge"
      using job False missing(2) createNodeJob_calls by fastforce
    ultimately have "calls = cs1 @ CreateJob tmpl opts # cs3" "writes_config env (jo_NameSpace opts, jo_JobConfig opts) (Some missing) cs1"
      using calls by simp_all
    then show ?thesis using False missing status by (intro exI [of _ missing] conjI) (simp_all, blast)
  qed
qed

text \<open>A cluster with the node \<open>edge-0\<close> of a task that names two machines.\<close>

definition task_example :: NodeTask where
  "task_example = \<lparr>nt_Meta = zero_object_meta\<lparr>om_Labels := Some [(NodeLabel, ''task-1'')],
       om_Annotations := Some [(AnnotationAddNodeJobName, ''task-1''), (AnnotationAddNodeConfigmapName, ''task-1'')]\<rparr>,
     nt_Spec = \<lparr>NodeNamePrefix = ''edge'', TargetMachines = None, NodeNamesOverride = Some [(''edge-0'', ''10.0.0.1''), (''edge-1'', ''10.0.0.2'')],
       ProxyNode = ''master'', SSHCredential = ''login'', SSHPort = 22\<rparr>,
     nt_Status = \<lparr>NodeStatus = None, TaskStatus = ''''\<rparr>\<rparr>"

definition task_env_example :: task_env where
  "task_env_example = \<lparr>te_SplitKey = (\<lambda>k. Inr ('''', k)), te_Get = (\<lambda>_. Inr task_example), te_Job = (\<lambda>_. Inl ENotFound), te_Nodes = (\<lambda>_. Inr [''edge-0'']),
     te_Node = (\<lambda>_. Inr None), te_Tokens = Inr [\<lparr>ts_Id = ''a'', ts_Secret = ''b'', ts_Expiration = ''1''\<rparr>], te_GenerateToken = Inl ''rand'', te_base64 = id,
     te_Expiration = ''2'', te_ParseTime = (\<lambda>_. Inr 1), te_ReadFile = (\<lambda>_. Inr ''job''), te_ConfigMap = (\<lambda>_. Inl ENotFound), te_ClusterInfo = Inr ''info'',
     te_LoadConfig = (\<lambda>_. Inr [('''', (''ca'', ''https://10.0.0.9:6443''))]), te_ParseCerts = (\<lambda>_. Inr [''cert'']), te_ParseURL = (\<lambda>_. Inr (''10.0.0.9:6443'', ''6443'')),
     te_sha256 = id, te_Marshal = (\<lambda>c. Inr (concat (map fst (omap (NodesIps c))))), te_Unmarshal = (\<lambda>_. Inl ''toml''), te_respond = (\<lambda>_. None)\<rparr>"

lemmas example_simps = syncHandler_def prepareJob_def filterNodeIps_def remaining_nodes_def invert_def omap_def getBootStrapToken_def getCaHashAndApiserverAddr_def
  createNodeJob_def nt_label_def nt_annotation_def nget_def task_example_def task_env_example_def sbind_def sret_def lift_api_def lift_err_def task_api_def
  status_DeepEqual_def map_DeepEqual_def NodeLabel_def AnnotationAddNodeJobName_def AnnotationAddNodeConfigmapName_def TaskReady_def TaskCreating_def

lemma example_sync: "\<exists>calls. syncHandler task_env_example ''task'' = Ret (Inr (), calls)"
  by (simp add: example_simps)

theorem job_for_missing_nodes_witness:
  "\<exists>missing calls. missing_nodes [(''edge-0'', ''10.0.0.1''), (''edge-1'', ''10.0.0.2'')] [''edge-0''] missing \<and> missing \<noteq> [] \<and>
    syncHandler task_env_example ''task'' = Ret (Inr (), calls) \<and> (\<exists>first tmpl opts later. calls = first @ CreateJob tmpl opts # later \<and>
      writes_config task_env_example (jo_NameSpace opts, jo_JobConfig opts) (Some missing) first)"
proof -
  let ?m = "[(''edge-0'', ''10.0.0.1''), (''edge-1'', ''10.0.0.2'')]"
  obtain calls where calls: "syncHandler task_env_example ''task'' = Ret (Inr (), calls)" using example_sync by blast
  have env: "te_SplitKey task_env_example ''task'' = Inr ('''', ''task'')" "te_Get task_env_example ''task'' = Inr task_example"
      "te_Job task_env_example n = Inl ENotFound" "te_Nodes task_env_example sel = Inr [''edge-0'']" "task_named task_env_example task_example" "NodeNamesOverride (nt_Spec task_example) = Some ?m" "mwf ?m" for n sel
    by (simp_all add: task_env_example_def task_example_def mwf_def task_named_def nt_annotation_def nget_def AnnotationAddNodeJobName_def
        AnnotationAddNodeConfigmapName_def zero_object_meta_def)
  obtain missing where missing: "missing_nodes ?m [''edge-0''] missing" and job: "missing \<noteq> [] \<Longrightarrow> \<exists>first tmpl opts later. calls = first @ CreateJob tmpl opts # later \<and>
        writes_config task_env_example (jo_NameSpace opts, jo_JobConfig opts) (Some missing) first"
    using job_for_missing_nodes [OF env calls] by (metis (full_types))
  have "missing \<noteq> []" using missing by (auto simp: missing_nodes_def)
  then show ?thesis using missing job calls by blast
qed

section \<open>What goes wrong\<close>

text \<open>Two names of one address: the order in which the map is read decides which of them is kept, so the task whose node was added can be found to be incomplete the next time.\<close>

lemma duplicate_address_flips:
  "remaining_nodes (Some [(''a'', ''10.0.0.1''), (''b'', ''10.0.0.1'')]) [''b''] = Some []"
  "remaining_nodes (Some [(''b'', ''10.0.0.1''), (''a'', ''10.0.0.1'')]) [''b''] = Some [(''a'', ''10.0.0.1'')]"
  by (simp_all add: remaining_nodes_def invert_def omap_def)

text \<open>Two equal random names: only existing nodes are avoided, and the first machine loses its name.\<close>

lemma equal_names_lose_machine: "name_machines [] ''edge'' [''10.0.0.1'', ''10.0.0.2''] [''x'', ''x''] [] = Some [(''edge-x'', ''10.0.0.2'')]"
  by (simp add: name_machines.simps)

text \<open>A task that was deleted is an error of the synchronisation, and its key is put back each time.\<close>

lemma deleted_task_retried:
  assumes "te_SplitKey env key = Inr (ns, name)" "te_Get env name = Inl ENotFound" "q_Get ops q = ((key, False), q1)"
  shows "processNextWorkItem_nt ops (syncHandler env) q = Ret (True, q_Done ops key (q_AddRateLimited ops key q1), [])"
  using assms by (simp add: processNextWorkItem_nt_def syncHandler_def sbind_def lift_err_def lift_api_def)

end
