(* ===== verification/NodeJob.thy ===== *)
theory NodeJob
  imports NodeTask
begin

text \<open>
  The job of penetrator that installs nodes: \<open>src/pkg/penetrator/job/addnode.go\<close>, \<open>job/conf/jobconf.go\<close> and \<open>util/ssh_util.go\<close>. The goroutines of \<open>AddNodes\<close> are
  the steps of a transition system: they share the variables of the loop that starts them, which Go 1.17 has once for the whole loop.
\<close>

section \<open>Configuration and ssh\<close>

text \<open>\<open>stat\<close> and \<open>read\<close> are \<open>os.Stat\<close> and \<open>ioutil.ReadFile\<close>; an error of the first is \<open>True\<close> when the file does not exist.\<close>

definition InitJobConfig :: "(string \<Rightarrow> bool option) \<Rightarrow> (string \<Rightarrow> go_error + string) \<Rightarrow> (string \<Rightarrow> go_error + JobConfig) \<Rightarrow> string \<Rightarrow> string \<Rightarrow> go_error + JobConfig" where
  "InitJobConfig stat read unmarshal jobpath secretpath =
     (let secret =
        (case stat (secretpath @ ''sshkey'') of
           Some notExist \<Rightarrow>
             if notExist then
               (case read (secretpath @ ''passwd'') of
                  Inl err \<Rightarrow> Inl err
                | Inr passwd \<Rightarrow> Inr (zero_secret\<lparr>PassWd := passwd, PwPath := secretpath @ ''passwd''\<rparr>))
             else Inl ''stat''
         | None \<Rightarrow>
             (case read (secretpath @ ''sshkey'') of
                Inl err \<Rightarrow> Inl err
              | Inr sshkey \<Rightarrow> Inr (zero_secret\<lparr>SshKey := Some sshkey, KeyPath := secretpath @ ''sshkey''\<rparr>)))
      in case secret of
           Inl err \<Rightarrow> Inl err
         | Inr sec \<Rightarrow>
             (case read (jobpath @ JobConf_key) of
                Inl err \<Rightarrow> Inl err
              | Inr conf \<Rightarrow> (case unmarshal conf of Inl err \<Rightarrow> Inl err | Inr job \<Rightarrow> Inr (job\<lparr>jc_Secret := sec\<rparr>))))"

datatype ssh_auth = KeyAuth string | PasswordAuth string | NoAuth

text \<open>\<open>sh\<close> runs a command; what is dialled is the address and the authentication; \<open>ParseKey\<close> is the error of \<open>ssh.ParsePrivateKey\<close>.\<close>

definition SShConnectNode :: "(string \<Rightarrow> go_error option) \<Rightarrow> (string \<Rightarrow> go_error option) \<Rightarrow> (string \<Rightarrow> ssh_auth \<Rightarrow> go_error option) \<Rightarrow> string \<Rightarrow> int \<Rightarrow> JobSecret \<Rightarrow> go_error option" where
  "SShConnectNode sh ParseKey Dial ip port secret =
     (let addr = ip @ '':'' @ Itoa port in
      case sh ''rm -f /root/.ssh/known_hosts'' of
        Some err \<Rightarrow> Some err
      | None \<Rightarrow>
      case SshKey secret of
        Some key \<Rightarrow> (case ParseKey key of Some err \<Rightarrow> Some err | None \<Rightarrow> Dial addr (KeyAuth key))
      | None \<Rightarrow> Dial addr (if PassWd secret \<noteq> '''' then PasswordAuth (filter (\<lambda>c. c \<noteq> CHR 0x0A) (PassWd secret)) else NoAuth))"

text \<open>The command that copies the package, if there is one.\<close>

definition scp_command :: "string \<Rightarrow> string \<Rightarrow> int \<Rightarrow> JobSecret \<Rightarrow> string option" where
  "scp_command ip src port secret =
     (if KeyPath secret \<noteq> '''' then Some (''scp -P '' @ Itoa port @ '' -i '' @ KeyPath secret @ '' '' @ src @ '' root@'' @ ip @ '':/root'')
      else if PassWd secret \<noteq> '''' then Some (''sshpass -f '' @ PwPath secret @ '' scp  -P '' @ Itoa port @ ''  '' @ src @ '' root@'' @ ip @ '':/root'')
      else None)"

definition ScpFile :: "(string \<Rightarrow> go_error option) \<Rightarrow> string \<Rightarrow> string \<Rightarrow> int \<Rightarrow> JobSecret \<Rightarrow> go_error option" where
  "ScpFile sh ip src port secret = (case scp_command ip src port secret of None \<Rightarrow> None | Some c \<Rightarrow> sh c)"

definition getArch :: "string \<Rightarrow> string" where
  "getArch arch =
     (let arch = filter (\<lambda>c. c \<noteq> CHR 0x0A) arch
      in if arch = ''x86_64'' then ''amd64'' else if arch = ''aarch64'' then ''arm64'' else '''')"

section \<open>One node\<close>

definition InstallPackage :: string where "InstallPackage = ''/etc/superedge/penetrator/job/install/edgeadm-''"
definition AddNodeScript :: string where "AddNodeScript = ''/etc/superedge/penetrator/job/script/addnode.sh''"

record script_options =
  so_NodeName :: string
  so_CaHash :: string
  so_AdvertiseAddress :: string
  so_BindPort :: string
  so_AdmToken :: string
  so_Arch :: string
  so_K8sVersion :: string

text \<open>
  What the outside answers: the node of a name (its labels), its deletion, commands in the job's container (\<open>je_sh\<close>), ssh, the first and second session, the output of \<open>uname\<close> on a machine,
  the file of the script, the template, the script on the machine, and the labelling of the node.
\<close>

record job_env =
  je_Get :: "string \<Rightarrow> apierr + labels option"
  je_Delete :: "string \<Rightarrow> go_error option"
  je_sh :: "string \<Rightarrow> go_error option"
  je_ParseKey :: "string \<Rightarrow> go_error option"
  je_Dial :: "string \<Rightarrow> ssh_auth \<Rightarrow> go_error option"
  je_session :: "string \<Rightarrow> nat \<Rightarrow> go_error option"
  je_uname :: "string \<Rightarrow> go_error + string"
  je_ReadFile :: "string \<Rightarrow> go_error + string"
  je_Complete :: "string \<Rightarrow> script_options \<Rightarrow> go_error + string"
  je_run :: "string \<Rightarrow> string \<Rightarrow> go_error option"
  je_label :: "string \<Rightarrow> labels \<Rightarrow> go_error option"

text \<open>The installation on the machine, from the connection to the label.\<close>

definition install :: "job_env \<Rightarrow> JobConfig \<Rightarrow> string \<Rightarrow> string \<Rightarrow> string \<Rightarrow> go_error option" where
  "install env conf version nodeName nodeIp =
     (case SShConnectNode (je_sh env) (je_ParseKey env) (je_Dial env) nodeIp (jc_SSHPort conf) (jc_Secret conf) of
        Some err \<Rightarrow> Some ''failed to get ssh client, error: %v''
      | None \<Rightarrow>
     (case je_session env nodeIp 0 of
        Some err \<Rightarrow> Some ''failed to get ssh client session, error: %v''
      | None \<Rightarrow>
     (case je_uname env nodeIp of
        Inl err \<Rightarrow> Some ''failed to get arch, error: %v''
      | Inr arch \<Rightarrow>
          if getArch arch = '''' then Some ''Unsupported arch %s''
          else case ScpFile (je_sh env) nodeIp (InstallPackage @ getArch arch @ ''-'' @ version @ ''.tar.gz'') (jc_SSHPort conf) (jc_Secret conf) of
            Some err \<Rightarrow> Some ''Failed to copy installation package, error: %v''
          | None \<Rightarrow>
     (case je_ReadFile env AddNodeScript of
        Inl err \<Rightarrow> Some ''Failed to read file:%s, error: %v''
      | Inr scriptTmep \<Rightarrow>
     (case je_Complete env scriptTmep \<lparr>so_NodeName = nodeName, so_CaHash = CaHash conf, so_AdvertiseAddress = ApiserverAddr conf, so_BindPort = ApiserverPort conf,
         so_AdmToken = AdmToken conf, so_Arch = getArch arch, so_K8sVersion = version\<rparr> of
        Inl err \<Rightarrow> Some ''Failed to get addnode.sh, error: %v''
      | Inr script \<Rightarrow>
     (case je_session env nodeIp 1 of
        Some err \<Rightarrow> Some ''Failed to get ssh client session, error: %v''
      | None \<Rightarrow>
     (case je_run env nodeIp script of
        Some err \<Rightarrow> Some ''Failed to add node, error: %v, script: %s, stdout: %s''
      | None \<Rightarrow>
     (case je_label env nodeName [(NodeLabel, jc_NodeLabel conf)] of
        Some err \<Rightarrow> Some ''Failed to label node %s, error: %v''
      | None \<Rightarrow> None))))))))"

text \<open>The result of \<open>addNode\<close>, and what it has sent to the channel of failed addresses when it returns: the deferred send is made on every path after the lookup.\<close>

definition addNode_job :: "job_env \<Rightarrow> JobConfig \<Rightarrow> string \<Rightarrow> string \<times> string \<Rightarrow> go_error option \<times> string list" where
  "addNode_job env conf version entry =
     (let (nodeName, nodeIp) = entry in
      case je_Get env nodeName of
        Inl err \<Rightarrow>
          if err \<noteq> ENotFound then (Some ''failed to get node:%s, error: %v'', []) else (install env conf version nodeName nodeIp, [nodeIp])
      | Inr ls \<Rightarrow>
          if (case nget ls NodeLabel of None \<Rightarrow> '''' | Some l \<Rightarrow> l) = jc_NodeLabel conf then (None, [])
          else (case je_Delete env nodeName of
                  Some err \<Rightarrow> (Some ''failed to delete node:%s, error: %v'', [nodeIp])
                | None \<Rightarrow> (install env conf version nodeName nodeIp, [nodeIp])))"

section \<open>All nodes\<close>

datatype goroutine = Waiting | Running "string \<times> string" | Finished "string \<times> string"

text \<open>
  \<open>an_pos\<close> is the number of the next entry of the loop, \<open>an_var\<close> the variables of the loop, \<open>an_sending\<close> whether the loop is at the send that bounds the number of goroutines,
  \<open>an_tokens\<close> the number of elements of that channel.
\<close>

record add_nodes =
  an_pos :: nat
  an_var :: "(string \<times> string) option"
  an_sending :: bool
  an_tokens :: nat
  an_routines :: "goroutine list"
  an_errch :: "string list"

definition an_start :: add_nodes where
  "an_start = \<lparr>an_pos = 0, an_var = None, an_sending = False, an_tokens = 0, an_routines = [], an_errch = []\<rparr>"

inductive add_step :: "(string \<times> string \<Rightarrow> go_error option \<times> string list) \<Rightarrow> nat \<Rightarrow> labels \<Rightarrow> add_nodes \<Rightarrow> add_nodes \<Rightarrow> bool" for add cap entries where
  spawn: "\<not> an_sending s \<Longrightarrow> an_pos s < length entries \<Longrightarrow>
    add_step add cap entries s (s\<lparr>an_var := Some (entries ! an_pos s), an_sending := True, an_routines := an_routines s @ [Waiting]\<rparr>)"
| send: "an_sending s \<Longrightarrow> an_tokens s < cap \<Longrightarrow>
    add_step add cap entries s (s\<lparr>an_sending := False, an_pos := Suc (an_pos s), an_tokens := Suc (an_tokens s)\<rparr>)"
| read_vars: "i < length (an_routines s) \<Longrightarrow> an_routines s ! i = Waiting \<Longrightarrow> an_var s = Some e \<Longrightarrow>
    add_step add cap entries s (s\<lparr>an_routines := (an_routines s)[i := Running e]\<rparr>)"
| finish: "i < length (an_routines s) \<Longrightarrow> an_routines s ! i = Running e \<Longrightarrow> 0 < an_tokens s \<Longrightarrow>
    add_step add cap entries s (s\<lparr>an_routines := (an_routines s)[i := Finished e], an_errch := an_errch s @ snd (add e), an_tokens := an_tokens s - 1\<rparr>)"

inductive_cases add_stepE: "add_step add cap entries s s'"

text \<open>The end of the loop that waits for the channel to be empty.\<close>

definition an_done :: "labels \<Rightarrow> add_nodes \<Rightarrow> bool" where
  "an_done entries s \<longleftrightarrow> \<not> an_sending s \<and> an_pos s = length entries \<and> an_tokens s = 0"

text \<open>
  The report: the loop counts up to the length of a channel that it empties. The result is the list of the addresses that are reported, with an empty one for each
  that was not read.
\<close>

function read_errch :: "nat \<Rightarrow> string list \<Rightarrow> string list" where
  "read_errch i ch = (if i < length ch then hd ch # read_errch (Suc i) (tl ch) else [])"
  by pat_completeness auto

termination
  by (relation "measure (\<lambda>(i, ch). length ch)") auto

declare read_errch.simps [simp del]

definition errNodes :: "string list \<Rightarrow> string list" where
  "errNodes ch = (let read = read_errch 0 ch in read @ replicate (length ch - length read) '''')"

definition exit_code :: "add_nodes \<Rightarrow> int" where
  "exit_code s = (if length (an_errch s) \<noteq> 0 then 1 else 0)"

section \<open>The runs of the job\<close>

text \<open>\<open>attempted\<close> says that \<open>addNode\<close> gets past the lookup of the node, to the deletion or the installation.\<close>

definition attempted :: "job_env \<Rightarrow> JobConfig \<Rightarrow> string \<Rightarrow> bool" where
  "attempted env conf nodeName =
     (case je_Get env nodeName of
        Inl err \<Rightarrow> err = ENotFound
      | Inr ls \<Rightarrow> (case nget ls NodeLabel of None \<Rightarrow> '''' | Some l \<Rightarrow> l) \<noteq> jc_NodeLabel conf)"

lemma addNode_reports: "snd (addNode_job env conf version e) = (if attempted env conf (fst e) then [snd e] else [])"
  by (auto simp: addNode_job_def attempted_def Let_def split: prod.splits sum.splits option.splits)

definition is_finished :: "goroutine \<Rightarrow> bool" where
  "is_finished g = (case g of Finished _ \<Rightarrow> True | _ \<Rightarrow> False)"

definition is_waiting :: "goroutine \<Rightarrow> bool" where
  "is_waiting g = (case g of Waiting \<Rightarrow> True | _ \<Rightarrow> False)"

lemma goroutine_simps [simp]:
  "\<not> is_finished Waiting" "\<not> is_finished (Running e)" "is_finished (Finished e)"
  "is_waiting Waiting" "\<not> is_waiting (Running e)" "\<not> is_waiting (Finished e)"
  by (simp_all add: is_finished_def is_waiting_def)

definition count_if :: "(goroutine \<Rightarrow> bool) \<Rightarrow> goroutine list \<Rightarrow> nat" where
  "count_if P gs = length (filter P gs)"

lemma count_if_simps [simp]:
  "count_if P [] = 0" "count_if P (gs @ [g]) = count_if P gs + (if P g then 1 else 0)" "count_if P gs \<le> length gs"
  by (simp_all add: count_if_def)

lemma count_if_set: "i < length gs \<Longrightarrow> gs ! i = g \<Longrightarrow>
    count_if P (gs[i := g']) + (if P g then 1 else 0) = count_if P gs + (if P g' then 1 else 0)"
proof (induction gs arbitrary: i)
  case (Cons a gs)
  show ?case
  proof (cases i)
    case (Suc j)
    with Cons.prems Cons.IH [of j] show ?thesis by (auto simp: count_if_def split: if_splits)
  qed (use Cons.prems in \<open>auto simp: count_if_def\<close>)
qed simp

lemma count_if_all: "count_if P gs = length gs \<longleftrightarrow> (\<forall>g\<in>set gs. P g)"
  unfolding count_if_def by (metis filter_id_conv filter_True length_filter_less nat_less_le)

text \<open>The invariant of the loop and its goroutines.\<close>

definition an_inv :: "nat \<Rightarrow> labels \<Rightarrow> add_nodes \<Rightarrow> bool" where
  "an_inv cap entries s \<longleftrightarrow>
     length (an_routines s) = an_pos s + (if an_sending s then 1 else 0) \<and> length (an_routines s) \<le> length entries \<and>
     an_tokens s + count_if is_finished (an_routines s) = an_pos s \<and> an_tokens s \<le> cap \<and>
     (an_routines s \<noteq> [] \<longrightarrow> an_var s \<noteq> None)"

definition an_report :: "(string \<times> string \<Rightarrow> go_error option \<times> string list) \<Rightarrow> add_nodes \<Rightarrow> bool" where
  "an_report add s \<longleftrightarrow> set (an_errch s) = (\<Union>e\<in>{e. Finished e \<in> set (an_routines s)}. set (snd (add e))) \<and>
     length (an_errch s) \<le> count_if is_finished (an_routines s)"

lemma an_inv_step: "add_step add cap entries s s' \<Longrightarrow> an_inv cap entries s \<Longrightarrow> an_inv cap entries s'"
proof (induction rule: add_step.induct)
  case (read_vars i s e)
  then show ?case using count_if_set [of i "an_routines s" Waiting is_finished "Running e"] by (auto simp: an_inv_def)
next
  case (finish i s e)
  then show ?case using count_if_set [of i "an_routines s" "Running e" is_finished "Finished e"] by (auto simp: an_inv_def)
qed (auto simp: an_inv_def)

lemma finished_set: "i < length gs \<Longrightarrow> gs ! i = g \<Longrightarrow> \<not> is_finished g \<Longrightarrow>
    Finished e \<in> set (gs[i := g']) \<longleftrightarrow> Finished e = g' \<or> Finished e \<in> set gs"
  by (metis goroutine_simps(3) in_set_conv_nth length_list_update nth_list_update)

lemma an_report_step: "add_step add cap entries s s' \<Longrightarrow> \<forall>e. length (snd (add e)) \<le> 1 \<Longrightarrow> an_report add s \<Longrightarrow> an_report add s'"
proof (induction rule: add_step.induct)
  case (read_vars i s e)
  then show ?case using count_if_set [of i "an_routines s" Waiting is_finished "Running e"]
      finished_set [of i "an_routines s" Waiting _ "Running e"] by (auto simp: an_report_def)
next
  case (finish i s e)
  then have "length (snd (add e)) \<le> 1" by blast
  with finish show ?case using count_if_set [of i "an_routines s" "Running e" is_finished "Finished e"]
      finished_set [of i "an_routines s" "Running e" _ "Finished e"] by (auto simp: an_report_def)
qed (auto simp: an_report_def)

lemma an_inv_run: "(add_step add cap entries)\<^sup>*\<^sup>* an_start s \<Longrightarrow> an_inv cap entries s"
  by (induction rule: rtranclp_induct) (simp add: an_inv_def an_start_def, rule an_inv_step)

lemma an_report_run: "(add_step add cap entries)\<^sup>*\<^sup>* an_start s \<Longrightarrow> \<forall>e. length (snd (add e)) \<le> 1 \<Longrightarrow> an_report add s"
  by (induction rule: rtranclp_induct) (simp add: an_report_def an_start_def, rule an_report_step)

lemma done_all_finished: "an_inv cap entries s \<Longrightarrow> an_done entries s \<Longrightarrow>
    length (an_routines s) = length entries \<and> (\<forall>g\<in>set (an_routines s). is_finished g)"
  using count_if_all [of is_finished "an_routines s"] by (auto simp: an_inv_def an_done_def)

text \<open>Every step moves one goroutine or the loop on, and there are four steps for each entry.\<close>

definition an_progress :: "add_nodes \<Rightarrow> nat" where
  "an_progress s = length (an_routines s) + an_pos s + count_if (\<lambda>g. \<not> is_waiting g) (an_routines s) + count_if is_finished (an_routines s)"

lemma an_progress_step: "add_step add cap entries s s' \<Longrightarrow> an_progress s' = Suc (an_progress s)"
proof (induction rule: add_step.induct)
  case (read_vars i s e)
  then show ?case using count_if_set [of i "an_routines s" Waiting is_finished "Running e"]
      count_if_set [of i "an_routines s" Waiting "\<lambda>g. \<not> is_waiting g" "Running e"] by (simp add: an_progress_def)
next
  case (finish i s e)
  then show ?case using count_if_set [of i "an_routines s" "Running e" is_finished "Finished e"]
      count_if_set [of i "an_routines s" "Running e" "\<lambda>g. \<not> is_waiting g" "Finished e"] by (simp add: an_progress_def)
qed (auto simp: an_progress_def)

lemma finished_not_waiting: "count_if is_finished gs \<le> count_if (\<lambda>g. \<not> is_waiting g) gs"
proof (induction gs)
  case (Cons g gs)
  then show ?case by (cases g) (auto simp: count_if_def)
qed simp

lemma an_progress_done: "an_inv cap entries s \<Longrightarrow>
    an_progress s \<le> 4 * length entries \<and> (an_done entries s \<longleftrightarrow> an_progress s = 4 * length entries)"
  using count_if_simps(3) [of "\<lambda>g. \<not> is_waiting g" "an_routines s"] finished_not_waiting [of "an_routines s"]
  by (auto simp: an_inv_def an_done_def an_progress_def split: if_splits)

lemma an_not_stuck:
  assumes inv: "an_inv cap entries s" and "0 < cap" "\<not> an_done entries s"
  shows "\<exists>s'. add_step add cap entries s s'"
proof (cases "\<not> an_sending s \<and> an_pos s < length entries \<or> an_sending s \<and> an_tokens s < cap")
  case True
  then show ?thesis using add_step.spawn add_step.send by blast
next
  case False
  with assms have tokens: "0 < an_tokens s" by (auto simp: an_inv_def an_done_def split: if_splits)
  with inv have "count_if is_finished (an_routines s) \<noteq> length (an_routines s)" by (auto simp: an_inv_def split: if_splits)
  then obtain i where i: "i < length (an_routines s)" "\<not> is_finished (an_routines s ! i)"
    by (metis count_if_all in_set_conv_nth)
  show ?thesis
  proof (cases "an_routines s ! i")
    case Waiting
    moreover obtain e where "an_var s = Some e" using inv i by (auto simp: an_inv_def)
    ultimately show ?thesis using i add_step.read_vars by blast
  next
    case (Running e)
    then show ?thesis using i tokens add_step.finish by blast
  qed (use i in simp)
qed

lemma an_progress_run: "(add_step add cap entries ^^ k) an_start s \<Longrightarrow> an_progress s = k"
proof (induction k arbitrary: s)
  case (Suc k)
  then obtain u where "(add_step add cap entries ^^ k) an_start u" "add_step add cap entries u s" by (auto elim: relpowp_Suc_E)
  with Suc.IH [of u] show ?case using an_progress_step by force
qed (simp add: an_start_def an_progress_def)

text \<open>The variables are those of the loop: when no goroutine reads them before the loop has ended, all goroutines see the last machine.\<close>

lemma spawn_all:
  assumes "length entries \<le> cap" "j \<le> length entries"
  shows "(add_step add cap entries)\<^sup>*\<^sup>* an_start (an_start\<lparr>an_pos := j, an_var := (if j = 0 then None else Some (entries ! (j - 1))),
    an_tokens := j, an_routines := replicate j Waiting\<rparr>)"
  using assms(2)
proof (induction j)
  case (Suc j)
  let ?s = "an_start\<lparr>an_pos := j, an_var := (if j = 0 then None else Some (entries ! (j - 1))), an_tokens := j, an_routines := replicate j Waiting\<rparr>"
  let ?u = "?s\<lparr>an_var := Some (entries ! j), an_sending := True, an_routines := replicate j Waiting @ [Waiting]\<rparr>"
  have "add_step add cap entries ?s ?u" using Suc.prems add_step.spawn [of ?s entries add cap] by (simp add: an_start_def)
  moreover have "add_step add cap entries ?u (?u\<lparr>an_sending := False, an_pos := Suc j, an_tokens := Suc j\<rparr>)"
    using Suc.prems assms(1) add_step.send [of ?u cap add entries] by (simp add: an_start_def)
  ultimately have "(add_step add cap entries)\<^sup>*\<^sup>* an_start (?u\<lparr>an_sending := False, an_pos := Suc j, an_tokens := Suc j\<rparr>)"
    using Suc.IH Suc.prems by (meson Suc_leD rtranclp.rtrancl_into_rtrancl)
  then show ?case by (simp add: an_start_def replicate_append_same)
qed (simp add: an_start_def)

lemma run_waiting:
  assumes "an_var s = Some e" "an_routines s = replicate f (Finished e) @ replicate w Waiting" "an_tokens s = w"
  shows "\<exists>s'. (add_step add cap entries)\<^sup>*\<^sup>* s s' \<and> an_routines s' = replicate (f + w) (Finished e) \<and> an_tokens s' = 0 \<and>
    an_pos s' = an_pos s \<and> an_sending s' = an_sending s"
  using assms
proof (induction w arbitrary: s f)
  case (Suc w)
  let ?u = "s\<lparr>an_routines := (an_routines s)[f := Running e]\<rparr>"
  let ?v = "?u\<lparr>an_routines := (an_routines ?u)[f := Finished e], an_errch := an_errch ?u @ snd (add e), an_tokens := an_tokens ?u - 1\<rparr>"
  have first: "add_step add cap entries s ?u" using Suc.prems by (intro add_step.read_vars) (simp_all add: nth_append)
  have second: "add_step add cap entries ?u ?v" using Suc.prems by (intro add_step.finish) (simp_all add: nth_append)
  have "an_routines ?v = replicate (Suc f) (Finished e) @ replicate w Waiting"
    using Suc.prems(2) by (simp add: list_update_append replicate_app_Cons_same)
  then obtain s' where s': "(add_step add cap entries)\<^sup>*\<^sup>* ?v s'" "an_routines s' = replicate (Suc f + w) (Finished e)" "an_tokens s' = 0"
      "an_pos s' = an_pos s" "an_sending s' = an_sending s" using Suc.IH [of ?v "Suc f"] Suc.prems by auto
  have "(add_step add cap entries)\<^sup>*\<^sup>* s s'"
    using converse_rtranclp_into_rtranclp [OF first converse_rtranclp_into_rtranclp [OF second s'(1)]] .
  with s' show ?case by (intro exI [of _ s']) simp
qed auto

lemma last_machine_run:
  assumes "entries \<noteq> []" "length entries \<le> cap"
  shows "\<exists>s. (add_step add cap entries)\<^sup>*\<^sup>* an_start s \<and> an_done entries s \<and> an_routines s = replicate (length entries) (Finished (last entries))"
proof -
  let ?n = "length entries"
  let ?s = "an_start\<lparr>an_pos := ?n, an_var := Some (last entries), an_tokens := ?n, an_routines := replicate ?n Waiting\<rparr>"
  have "(add_step add cap entries)\<^sup>*\<^sup>* an_start ?s" using spawn_all [OF assms(2) order_refl, of add] assms(1) by (simp add: last_conv_nth)
  moreover obtain s' where "(add_step add cap entries)\<^sup>*\<^sup>* ?s s'" "an_routines s' = replicate ?n (Finished (last entries))"
      "an_tokens s' = 0" "an_pos s' = ?n" "\<not> an_sending s'"
    using run_waiting [of ?s "last entries" 0 ?n add cap entries] by (auto simp: an_start_def)
  ultimately show ?thesis by (metis an_done_def rtranclp_trans)
qed

text \<open>The list of the addresses that are reported misses half of them.\<close>

lemma read_errch_half: "length (read_errch i ch) = (Suc (length ch) - i) div 2"
proof (induction i ch rule: read_errch.induct)
  case (1 i ch)
  then show ?case
    by (cases ch) (auto simp: read_errch.simps [of i])
qed

section \<open>Properties\<close>

text \<open>
  C24: The exit code of the job. No send to the channel of failed addresses ever blocks; when the loop that waits has ended, every goroutine has returned, and the exit code is 1
  exactly if one of them got past the lookup of its node. So a job that installs all its nodes without an error fails, and one whose lookups
  all fail succeeds.
\<close>

theorem job_exit_code:
  assumes "(add_step (addNode_job env conf version) cap entries)\<^sup>*\<^sup>* an_start s"
  shows "length (an_errch s) \<le> length entries \<and>
    (an_done entries s \<longrightarrow> length (an_routines s) = length entries \<and> list_all is_finished (an_routines s) \<and>
      exit_code s = (if \<exists>e. Finished e \<in> set (an_routines s) \<and> attempted env conf (fst e) then 1 else 0))"
proof -
  have inv: "an_inv cap entries s" using assms by (rule an_inv_run)
  have rep: "an_report (addNode_job env conf version) s" using assms by (rule an_report_run) (simp add: addNode_reports)
  then have "an_errch s = [] \<longleftrightarrow> \<not> (\<exists>e. Finished e \<in> set (an_routines s) \<and> attempted env conf (fst e))"
    by (auto simp: an_report_def addNode_reports simp flip: set_empty split: if_splits)
  moreover have "length (an_errch s) \<le> length entries"
    using inv rep count_if_simps(3) [of is_finished "an_routines s"] by (simp add: an_inv_def an_report_def)
  ultimately show ?thesis using done_all_finished [OF inv] by (simp add: exit_code_def list_all_iff)
qed

text \<open>A cluster without nodes in which everything succeeds.\<close>

definition job_env_ok :: job_env where
  "job_env_ok = \<lparr>je_Get = (\<lambda>_. Inl ENotFound), je_Delete = (\<lambda>_. None), je_sh = (\<lambda>_. None), je_ParseKey = (\<lambda>_. None), je_Dial = (\<lambda>_ _. None),
     je_session = (\<lambda>_ _. None), je_uname = (\<lambda>_. Inr ''x86_64''), je_ReadFile = (\<lambda>_. Inr ''script''), je_Complete = (\<lambda>_ _. Inr ''script''),
     je_run = (\<lambda>_ _. None), je_label = (\<lambda>_ _. None)\<rparr>"

definition job_conf :: JobConfig where
  "job_conf = \<lparr>NodesIps = None, jc_SSHPort = 22, jc_NodeLabel = ''task-1'', AdmToken = ''t'', ApiserverAddr = ''10.0.0.9:6443'', ApiserverPort = ''6443'',
     CaHash = ''sha256:0'', jc_Secret = zero_secret\<lparr>PassWd := ''pw'', PwPath := ''/passwd''\<rparr>\<rparr>"

definition two_machines :: labels where
  "two_machines = [(''edge-0'', ''10.0.0.1''), (''edge-1'', ''10.0.0.2'')]"

lemma install_ok: "fst (addNode_job job_env_ok job_conf version e) = None"
  by (cases e) (simp add: addNode_job_def install_def job_env_ok_def job_conf_def zero_secret_def SShConnectNode_def ScpFile_def scp_command_def getArch_def)

theorem job_exit_code_witness:
  "\<exists>s. (add_step (addNode_job job_env_ok job_conf ''v1.20.6'') 5 two_machines)\<^sup>*\<^sup>* an_start s \<and> an_done two_machines s \<and>
    fst (addNode_job job_env_ok job_conf ''v1.20.6'' (''edge-1'', ''10.0.0.2'')) = None \<and> exit_code s = 1"
proof -
  obtain s where s: "(add_step (addNode_job job_env_ok job_conf ''v1.20.6'') 5 two_machines)\<^sup>*\<^sup>* an_start s" "an_done two_machines s"
      "an_routines s = replicate (length two_machines) (Finished (last two_machines))"
    using last_machine_run [where entries = two_machines and cap = 5 and add = "addNode_job job_env_ok job_conf ''v1.20.6''"] by (auto simp: two_machines_def)
  moreover have "attempted job_env_ok job_conf (fst (last two_machines))" by (simp add: attempted_def job_env_ok_def)
  ultimately have "exit_code s = 1" using job_exit_code [OF s(1)] by (auto simp: two_machines_def)
  with s install_ok show ?thesis by blast
qed

text \<open>
  C25: The job ends, if at least one goroutine may run at a time: for \<open>n\<close> machines no run has more than \<open>4 * n\<close> steps, a run can always go on until the loop that waits has ended, and it has then ended exactly at that number of steps.
\<close>

theorem job_ends:
  assumes "0 < cap" "(add_step add cap entries ^^ k) an_start s"
  shows "k \<le> 4 * length entries \<and> (an_done entries s \<longleftrightarrow> k = 4 * length entries) \<and> (\<not> an_done entries s \<longrightarrow> (\<exists>s'. add_step add cap entries s s'))"
proof -
  have inv: "an_inv cap entries s" using relpowp_imp_rtranclp [OF assms(2)] by (rule an_inv_run)
  then show ?thesis using an_progress_done [OF inv] an_progress_run [OF assms(2)] an_not_stuck [OF inv assms(1)] by simp
qed

theorem job_ends_witness: "\<exists>s'. add_step (addNode_job job_env_ok job_conf ''v1.20.6'') 5 two_machines an_start s'"
  using job_ends [where cap = 5 and add = "addNode_job job_env_ok job_conf ''v1.20.6''" and entries = two_machines and k = 0 and s = an_start] by (simp add: two_machines_def)

text \<open>
  C26: The goroutines share the variables of the loop that starts them. For any list of machines that is not longer than the number of goroutines that may run at once, there is a
  run of the job in which every goroutine installs the last machine, and no other machine is installed.
\<close>

theorem only_last_machine:
  assumes "entries \<noteq> []" "length entries \<le> cap"
  shows "\<exists>s. (add_step (addNode_job env conf version) cap entries)\<^sup>*\<^sup>* an_start s \<and> an_done entries s \<and>
    an_routines s = replicate (length entries) (Finished (last entries))"
  using assms by (rule last_machine_run)

theorem only_last_machine_witness:
  "\<exists>s. (add_step (addNode_job job_env_ok job_conf ''v1.20.6'') 5 two_machines)\<^sup>*\<^sup>* an_start s \<and> an_done two_machines s \<and>
    an_routines s = [Finished (''edge-1'', ''10.0.0.2''), Finished (''edge-1'', ''10.0.0.2'')]"
  using only_last_machine [of two_machines 5 job_env_ok job_conf "''v1.20.6''"] by (simp add: two_machines_def numeral_2_eq_2)

end
