(* ===== verification/AppsManager.thy ===== *)
theory AppsManager
  imports KubeMeta WorkQueue RefManager
begin

text \<open>
  apps-manager (\<open>src/pkg/apps-manager\<close>): on each node, the replicas of an \<open>EDeployment\<close> are written as manifests of static pods into the directory that the kubelet reads. The event handlers
  are those of \<open>controller/edeploy.go\<close>, the only ones that the controller registers; \<open>utils/edploy.go\<close> writes and removes the files, with \<open>WriteWithBufio\<close> of
  \<open>src/pkg/util/file.go\<close>. The other files of the controller are commented out.
\<close>

section \<open>Data\<close>

text \<open>The template of the pods: its metadata, its node selector and the rest of its specification.\<close>

record edeploy_template =
  et_Meta :: object_meta
  et_NodeSelector :: "labels option"
  et_Spec :: string

record EDeployment =
  ed_Meta :: object_meta
  ed_Replicas :: "int option"
  ed_Template :: edeploy_template

text \<open>A file system maps paths to contents.\<close>

type_synonym disk = "(string, string) gomap"

text \<open>
  What the outside answers: the name of the host, the text of a selector, the nodes for one, the JSON text of a pod, its translation to YAML, and the faults of the file system: errors of opening, of
  writing after some bytes, of removing, and of looking at a file that exists.
\<close>

record apps_env =
  ae_hostName :: string
  ae_LabelSelector :: "labels \<Rightarrow> go_error + string"
  ae_Nodes :: "string \<Rightarrow> go_error + string list"
  ae_Marshal :: "edeploy_template \<Rightarrow> go_error + string"
  ae_JSONToYAML :: "string \<Rightarrow> go_error + string"
  ae_OpenFile :: "string \<Rightarrow> go_error option"
  ae_Write :: "string \<Rightarrow> nat option"
  ae_Remove :: "string \<Rightarrow> go_error option"
  ae_Stat :: "string \<Rightarrow> go_error option"

definition KubeManifestsDir :: string where "KubeManifestsDir = ''/etc/kubernetes/manifests/''"

section \<open>Files\<close>

text \<open>The file is opened without truncating it: what is written replaces the first bytes of what it had.\<close>

definition overwrite :: "string \<Rightarrow> string \<Rightarrow> string" where
  "overwrite content old = content @ drop (length content) old"

definition WriteWithBufio :: "apps_env \<Rightarrow> string \<Rightarrow> string \<Rightarrow> disk \<Rightarrow> go_error option \<times> disk" where
  "WriteWithBufio env name content d =
     (case ae_OpenFile env name of
        Some err \<Rightarrow> (Some err, d)
      | None \<Rightarrow>
          let old = (case mget d name of None \<Rightarrow> '''' | Some c \<Rightarrow> c) in
          (case ae_Write env name of
             Some n \<Rightarrow> (Some ''write'', mput name (overwrite (take n content) old) d)
           | None \<Rightarrow> (None, mput name (overwrite content old) d)))"

definition PathExists :: "apps_env \<Rightarrow> string \<Rightarrow> disk \<Rightarrow> bool \<times> go_error option" where
  "PathExists env path d =
     (if \<not> mhas d path then (False, None) else case ae_Stat env path of None \<Rightarrow> (True, None) | Some err \<Rightarrow> (False, Some err))"

text \<open>The manifest of a pod.\<close>

definition PodToYaml :: "apps_env \<Rightarrow> edeploy_template \<Rightarrow> go_error + string" where
  "PodToYaml env pod =
     (case ae_Marshal env pod of
        Inl err \<Rightarrow> Inl err
      | Inr podJson \<Rightarrow> (case ae_JSONToYAML env podJson of Inl err \<Rightarrow> Inl err | Inr data \<Rightarrow> Inr data))"

definition pod_path :: "string \<Rightarrow> string \<Rightarrow> int \<Rightarrow> string" where
  "pod_path staticPodDir name i = staticPodDir @ (name @ ''-'' @ Itoa i) @ ''.yaml''"

section \<open>Static pods\<close>

definition SchedulableNode :: "apps_env \<Rightarrow> EDeployment \<Rightarrow> go_error + string list" where
  "SchedulableNode env edeploy =
     (case et_NodeSelector (ed_Template edeploy) of
        None \<Rightarrow> Inl ''Edeploy: %s not fit node''
      | Some matchLabels \<Rightarrow>
          (case ae_LabelSelector env matchLabels of
             Inl err \<Rightarrow> Inl err
           | Inr selector \<Rightarrow> ae_Nodes env selector))"

text \<open>One pass of the loop: the name is written into the template itself; an error of the encoder is overwritten and gives an empty manifest, one of the file is logged.\<close>

definition write_pod :: "apps_env \<Rightarrow> string \<Rightarrow> int \<Rightarrow> EDeployment \<times> disk \<Rightarrow> EDeployment \<times> disk" where
  "write_pod env staticPodDir i st =
     (let (edeploy, d) = st;
          template = (ed_Template edeploy)\<lparr>et_Meta := (et_Meta (ed_Template edeploy))\<lparr>om_Name := om_Name (ed_Meta edeploy) @ ''-'' @ Itoa i\<rparr>\<rparr>;
          podData = (case PodToYaml env template of Inl err \<Rightarrow> '''' | Inr data \<Rightarrow> data);
          (err, d') = WriteWithBufio env (staticPodDir @ om_Name (et_Meta template) @ ''.yaml'') podData d
      in (edeploy\<lparr>ed_Template := template\<rparr>, d'))"

definition write_pods :: "apps_env \<Rightarrow> string \<Rightarrow> int \<Rightarrow> EDeployment \<times> disk \<Rightarrow> EDeployment \<times> disk" where
  "write_pods env staticPodDir replicas st = fold (write_pod env staticPodDir) [1..replicas] st"

definition WriteEdeployToStaticPod :: "apps_env \<Rightarrow> EDeployment \<Rightarrow> string \<Rightarrow> disk \<Rightarrow> (EDeployment \<times> disk) go" where
  "WriteEdeployToStaticPod env edeploy staticPodDir d =
     (case ed_Replicas edeploy of None \<Rightarrow> Panic | Some replicas \<Rightarrow> Ret (write_pods env staticPodDir replicas (edeploy, d)))"

fun remove_pods :: "apps_env \<Rightarrow> string \<Rightarrow> string \<Rightarrow> int list \<Rightarrow> disk \<Rightarrow> go_error option \<times> disk" where
  "remove_pods env staticPodDir name [] d = (None, d)"
| "remove_pods env staticPodDir name (i # is) d =
     (let path = pod_path staticPodDir name i in
      if fst (PathExists env path d) then
        (case ae_Remove env path of Some err \<Rightarrow> (Some err, d) | None \<Rightarrow> remove_pods env staticPodDir name is (mdel path d))
      else remove_pods env staticPodDir name is d)"

definition UpdateEdeployToStaticPod :: "apps_env \<Rightarrow> EDeployment \<Rightarrow> EDeployment \<Rightarrow> string \<Rightarrow> disk \<Rightarrow> (go_error option \<times> EDeployment \<times> disk) go" where
  "UpdateEdeployToStaticPod env oldEDeployment curEDeployment staticPodDir d =
     (case (ed_Replicas oldEDeployment, ed_Replicas curEDeployment) of
        (Some oldReplicas, Some curReplicas) \<Rightarrow>
          (case remove_pods env staticPodDir (om_Name (ed_Meta oldEDeployment)) (rev [curReplicas + 1..oldReplicas]) d of
             (Some err, d') \<Rightarrow> Ret (Some err, curEDeployment, d')
           | (None, d') \<Rightarrow> Ret (None, write_pods env staticPodDir curReplicas (curEDeployment, d')))
      | _ \<Rightarrow> Panic)"

text \<open>The template gets the name of the last replica that was reached.\<close>

fun delete_pods :: "apps_env \<Rightarrow> string \<Rightarrow> int list \<Rightarrow> EDeployment \<Rightarrow> disk \<Rightarrow> go_error option \<times> EDeployment \<times> disk" where
  "delete_pods env staticPodDir [] edeploy d = (None, edeploy, d)"
| "delete_pods env staticPodDir (i # is) edeploy d =
     (let edeploy' = edeploy\<lparr>ed_Template := (ed_Template edeploy)\<lparr>et_Meta := (et_Meta (ed_Template edeploy))\<lparr>om_Name := om_Name (ed_Meta edeploy) @ ''-'' @ Itoa i\<rparr>\<rparr>\<rparr>;
          path = pod_path staticPodDir (om_Name (ed_Meta edeploy)) i in
      if fst (PathExists env path d) then
        (case ae_Remove env path of Some err \<Rightarrow> (Some err, edeploy', d) | None \<Rightarrow> delete_pods env staticPodDir is edeploy' (mdel path d))
      else delete_pods env staticPodDir is edeploy' d)"

definition DeleteStaticPodFromEdeploy :: "apps_env \<Rightarrow> EDeployment \<Rightarrow> string \<Rightarrow> disk \<Rightarrow> (go_error option \<times> EDeployment \<times> disk) go" where
  "DeleteStaticPodFromEdeploy env edeploy staticPodDir d =
     (case ed_Replicas edeploy of None \<Rightarrow> Panic | Some replicas \<Rightarrow> Ret (delete_pods env staticPodDir [1..replicas] edeploy d))"

section \<open>Handlers\<close>

text \<open>The handler of a deployment that is being deleted: its body is commented out.\<close>

definition apps_deleteNodeUnit :: "EDeployment \<Rightarrow> disk \<Rightarrow> EDeployment \<times> disk" where
  "apps_deleteNodeUnit edeploy d = (edeploy, d)"

text \<open>Whether the host is among the nodes that are selected; an error is logged and ends the handler.\<close>

definition selected_here :: "apps_env \<Rightarrow> EDeployment \<Rightarrow> bool" where
  "selected_here env edeploy = (case SchedulableNode env edeploy of Inl err \<Rightarrow> False | Inr selectedNodes \<Rightarrow> ae_hostName env \<in> set selectedNodes)"

definition addEDeploy :: "apps_env \<Rightarrow> EDeployment \<Rightarrow> disk \<Rightarrow> (EDeployment \<times> disk) go" where
  "addEDeploy env edeploy d =
     (if om_DeletionTimestamp (ed_Meta edeploy) \<noteq> None then Ret (apps_deleteNodeUnit edeploy d)
      else if selected_here env edeploy then WriteEdeployToStaticPod env edeploy KubeManifestsDir d
      else Ret (edeploy, d))"

definition updateEDeploy :: "apps_env \<Rightarrow> EDeployment \<Rightarrow> EDeployment \<Rightarrow> disk \<Rightarrow> (EDeployment \<times> disk) go" where
  "updateEDeploy env oldEDeployment curEDeployment d =
     (if om_ResourceVersion (ed_Meta oldEDeployment) = om_ResourceVersion (ed_Meta curEDeployment) then Ret (curEDeployment, d)
      else if selected_here env curEDeployment then
        go_bind (UpdateEdeployToStaticPod env oldEDeployment curEDeployment KubeManifestsDir d) (\<lambda>(err, r). Ret r)
      else Ret (curEDeployment, d))"

text \<open>A type assertion without a check: a tombstone panics.\<close>

definition deleteEDeploy :: "apps_env \<Rightarrow> EDeployment deleted \<Rightarrow> disk \<Rightarrow> (EDeployment \<times> disk) go" where
  "deleteEDeploy env obj d =
     (case obj of
        Deleted edeploy \<Rightarrow>
          if om_DeletionTimestamp (ed_Meta edeploy) \<noteq> None then Ret (apps_deleteNodeUnit edeploy d)
          else if selected_here env edeploy then
            go_bind (DeleteStaticPodFromEdeploy env edeploy KubeManifestsDir d) (\<lambda>(err, r). Ret r)
          else Ret (edeploy, d)
      | _ \<Rightarrow> Panic)"

text \<open>The queue of the controller is never filled; an item would be forgotten.\<close>

definition processNextWorkItem_apps :: "'q queue_ops \<Rightarrow> 'q \<Rightarrow> bool \<times> 'q" where
  "processNextWorkItem_apps ops q =
     (let ((key, quit), q1) = q_Get ops q in if quit then (False, q1) else (True, q_Done ops key (handleErr ops ([] :: go_error list) key q1)))"

section \<open>What the handlers leave\<close>

lemma Itoa_pos_inject: "0 \<le> i \<Longrightarrow> 0 \<le> j \<Longrightarrow> Itoa i = Itoa j \<longleftrightarrow> i = j"
  using digitsVal_natDigits by (metis Itoa_def eq_nat_nat_iff int_nat_eq linorder_not_le nat_int option.inject)

lemma pod_path_inject: "0 \<le> i \<Longrightarrow> 0 \<le> j \<Longrightarrow> pod_path dir name i = pod_path dir name j \<longleftrightarrow> i = j"
  by (simp add: pod_path_def Itoa_pos_inject)

lemma overwrite_exact: "overwrite content old = content \<longleftrightarrow> length old \<le> length content"
  by (simp add: overwrite_def)

text \<open>The template under the name of a replica, its manifest, and the content of a file, which is empty if there is none.\<close>

definition named_template :: "EDeployment \<Rightarrow> int \<Rightarrow> edeploy_template" where
  "named_template edeploy i = (ed_Template edeploy)\<lparr>et_Meta := (et_Meta (ed_Template edeploy))\<lparr>om_Name := om_Name (ed_Meta edeploy) @ ''-'' @ Itoa i\<rparr>\<rparr>"

definition pod_manifest :: "apps_env \<Rightarrow> EDeployment \<Rightarrow> int \<Rightarrow> string" where
  "pod_manifest env edeploy i = (case PodToYaml env (named_template edeploy i) of Inl err \<Rightarrow> '''' | Inr data \<Rightarrow> data)"

definition content_of :: "disk \<Rightarrow> string \<Rightarrow> string" where
  "content_of d path = (case mget d path of None \<Rightarrow> '''' | Some c \<Rightarrow> c)"

definition disk_works :: "apps_env \<Rightarrow> bool" where
  "disk_works env \<longleftrightarrow> (\<forall>p. ae_OpenFile env p = None \<and> ae_Write env p = None \<and> ae_Remove env p = None \<and> ae_Stat env p = None)"

lemma write_pod_eq: "disk_works env \<Longrightarrow> write_pod env dir i (edeploy, d) =
    (edeploy\<lparr>ed_Template := named_template edeploy i\<rparr>,
     (let path = pod_path dir (om_Name (ed_Meta edeploy)) i in mput path (overwrite (pod_manifest env edeploy i) (content_of d path)) d))"
  by (simp add: write_pod_def WriteWithBufio_def disk_works_def pod_manifest_def content_of_def named_template_def pod_path_def Let_def)

lemma manifest_again: "pod_manifest env (edeploy\<lparr>ed_Template := named_template edeploy i\<rparr>) j = pod_manifest env edeploy j"
  by (simp add: pod_manifest_def named_template_def)

lemma write_all:
  assumes "disk_works env" "distinct is" "\<forall>i\<in>set is. 0 \<le> i"
  shows "mget (snd (fold (write_pod env dir) is (edeploy, d))) p =
    (case find (\<lambda>i. p = pod_path dir (om_Name (ed_Meta edeploy)) i) is of
       None \<Rightarrow> mget d p | Some i \<Rightarrow> Some (overwrite (pod_manifest env edeploy i) (content_of d p)))"
  using assms(2,3)
proof (induction "is" arbitrary: edeploy d)
  case (Cons i "is")
  define path where "path = pod_path dir (om_Name (ed_Meta edeploy)) i"
  let ?ed = "edeploy\<lparr>ed_Template := named_template edeploy i\<rparr>"
  let ?d = "mput path (overwrite (pod_manifest env edeploy i) (content_of d path)) d"
  have "find (\<lambda>j. path = pod_path dir (om_Name (ed_Meta edeploy)) j) is = None"
    using Cons.prems by (auto simp: find_None_iff path_def pod_path_inject)
  moreover have "mget (snd (fold (write_pod env dir) is (?ed, ?d))) p =
      (case find (\<lambda>j. p = pod_path dir (om_Name (ed_Meta edeploy)) j) is of
         None \<Rightarrow> mget ?d p | Some j \<Rightarrow> Some (overwrite (pod_manifest env edeploy j) (content_of ?d p)))"
    using Cons.IH [of ?ed ?d] Cons.prems by (cases "find (\<lambda>j. p = pod_path dir (om_Name (ed_Meta edeploy)) j) is") (simp_all add: manifest_again)
  ultimately show ?case using write_pod_eq [OF assms(1), of dir i edeploy d]
    by (auto simp: Let_def gomap content_of_def simp flip: path_def split: option.splits)
qed simp

lemma remove_all:
  assumes "disk_works env"
  shows "\<exists>d'. remove_pods env dir name is d = (None, d') \<and> (\<forall>p. mget d' p = (if \<exists>i\<in>set is. p = pod_path dir name i then None else mget d p))"
proof (induction "is" arbitrary: d)
  case (Cons i "is")
  define path where "path = pod_path dir name i"
  have "remove_pods env dir name (i # is) d = remove_pods env dir name is (if mhas d path then mdel path d else d)"
    using assms by (simp add: PathExists_def disk_works_def Let_def path_def)
  moreover obtain d' where "remove_pods env dir name is (if mhas d path then mdel path d else d) = (None, d')"
      "\<And>p. mget d' p = (if \<exists>i\<in>set is. p = pod_path dir name i then None else mget (if mhas d path then mdel path d else d) p)"
    using Cons.IH [of "if mhas d path then mdel path d else d"] by blast
  ultimately show ?case by (auto simp: gomap path_def)
qed simp

text \<open>
  C23: An update of an \<open>EDeployment\<close> on a node that it selects, with a file system without faults. There is a file for each of the new number of replicas and none for the replicas above it, and no
  other file is changed. A file is the manifest of its pod exactly if the content it had before was not longer: otherwise the end of the
  old content stays behind it.
\<close>

theorem update_manifests:
  assumes "disk_works env" "om_ResourceVersion (ed_Meta old) \<noteq> om_ResourceVersion (ed_Meta cur)" "selected_here env cur"
    and "om_Name (ed_Meta old) = om_Name (ed_Meta cur)" "ed_Replicas old = Some m" "ed_Replicas cur = Some n" "0 \<le> n"
  shows "\<exists>cur' d'. updateEDeploy env old cur d = Ret (cur', d') \<and>
    (\<forall>i. let path = pod_path KubeManifestsDir (om_Name (ed_Meta cur)) i in
      (1 \<le> i \<and> i \<le> n \<longrightarrow> (\<exists>data. mget d' path = Some data \<and> take (length (pod_manifest env cur i)) data = pod_manifest env cur i \<and>
        (data = pod_manifest env cur i \<longleftrightarrow> length (content_of d path) \<le> length (pod_manifest env cur i)))) \<and>
      (n < i \<and> i \<le> m \<longrightarrow> mget d' path = None)) \<and>
    (\<forall>p. (\<forall>i. 1 \<le> i \<and> (i \<le> n \<or> i \<le> m) \<longrightarrow> p \<noteq> pod_path KubeManifestsDir (om_Name (ed_Meta cur)) i) \<longrightarrow> mget d' p = mget d p)"
proof -
  let ?path = "pod_path KubeManifestsDir (om_Name (ed_Meta cur))"
  obtain d1 where removed: "remove_pods env KubeManifestsDir (om_Name (ed_Meta cur)) (rev [n + 1..m]) d = (None, d1)"
      and d1: "\<And>p. mget d1 p = (if \<exists>i\<in>set (rev [n + 1..m]). p = ?path i then None else mget d p)"
    using remove_all [OF assms(1)] by blast
  define r where "r = write_pods env KubeManifestsDir n (cur, d1)"
  have "updateEDeploy env old cur d = Ret (fst r, snd r)"
    using assms(2-6) removed by (simp add: updateEDeploy_def UpdateEdeployToStaticPod_def r_def)
  moreover have r: "mget (snd r) p = (case find (\<lambda>i. p = ?path i) [1..n] of
      None \<Rightarrow> mget d1 p | Some i \<Rightarrow> Some (overwrite (pod_manifest env cur i) (content_of d1 p)))" for p
    unfolding r_def write_pods_def by (rule write_all [OF assms(1)]) auto
  have missed: "mget (snd r) p = mget d1 p" if "\<forall>i. 1 \<le> i \<and> i \<le> n \<longrightarrow> p \<noteq> ?path i" for p
  proof -
    have "find (\<lambda>i. p = ?path i) [1..n] = None" using that by (auto simp: find_None_iff)
    then show ?thesis by (simp add: r)
  qed
  have found: "mget (snd r) (?path i) = Some (overwrite (pod_manifest env cur i) (content_of d (?path i)))" if i: "1 \<le> i" "i \<le> n" for i
  proof -
    have "find (\<lambda>j. ?path i = ?path j) [1..n] = Some i"
    proof (cases "find (\<lambda>j. ?path i = ?path j) [1..n]")
      case None
      then show ?thesis using i by (auto simp: find_None_iff)
    next
      case (Some j)
      then have "j \<in> set [1..n]" "?path i = ?path j" by (auto simp: find_Some_iff)
      then show ?thesis using Some i by (simp add: pod_path_inject)
    qed
    moreover have "mget d1 (?path i) = mget d (?path i)" using i assms(7) by (auto simp: d1 pod_path_inject)
    ultimately show ?thesis by (simp add: r content_of_def)
  qed
  moreover have "mget (snd r) (?path i) = None" if i: "n < i" "i \<le> m" for i
  proof -
    have "mget (snd r) (?path i) = mget d1 (?path i)" using i assms(7) by (intro missed) (auto simp: pod_path_inject)
    then show ?thesis using i by (auto simp: d1)
  qed
  moreover have "mget (snd r) p = mget d p" if "\<forall>i. 1 \<le> i \<and> (i \<le> n \<or> i \<le> m) \<longrightarrow> p \<noteq> ?path i" for p
    using that missed [of p] assms(7) by (auto simp: d1)
  ultimately show ?thesis
    by (intro exI [of _ "fst r"] exI [of _ "snd r"]) (simp add: Let_def overwrite_exact, simp add: overwrite_def)
qed

definition sample_edeploy :: "string \<Rightarrow> int \<Rightarrow> string \<Rightarrow> EDeployment" where
  "sample_edeploy version replicas spec = \<lparr>ed_Meta = zero_object_meta\<lparr>om_Name := ''web'', om_ResourceVersion := version\<rparr>, ed_Replicas = Some replicas,
     ed_Template = \<lparr>et_Meta = zero_object_meta, et_NodeSelector = Some [(''site'', ''a'')], et_Spec = spec\<rparr>\<rparr>"

definition sample_apps :: apps_env where
  "sample_apps = \<lparr>ae_hostName = ''edge-1'', ae_LabelSelector = (\<lambda>_. Inr ''site=a''), ae_Nodes = (\<lambda>_. Inr [''edge-0'', ''edge-1'']), ae_Marshal = (\<lambda>t. Inr (et_Spec t)), ae_JSONToYAML = Inr,
     ae_OpenFile = (\<lambda>_. None), ae_Write = (\<lambda>_. None), ae_Remove = (\<lambda>_. None), ae_Stat = (\<lambda>_. None)\<rparr>"

text \<open>Two replicas become one with a shorter specification: the remaining file is not its manifest.\<close>

theorem update_manifests_witness:
  "\<exists>cur' d'. updateEDeploy sample_apps (sample_edeploy ''1'' 2 ''image: nginx'') (sample_edeploy ''2'' 1 ''image: a'')
      [(''/etc/kubernetes/manifests/web-1.yaml'', ''image: nginx''), (''/etc/kubernetes/manifests/web-2.yaml'', ''image: nginx'')] = Ret (cur', d') \<and>
    mget d' ''/etc/kubernetes/manifests/web-1.yaml'' \<noteq> None \<and> mget d' ''/etc/kubernetes/manifests/web-1.yaml'' \<noteq> Some ''image: a'' \<and>
    mget d' ''/etc/kubernetes/manifests/web-2.yaml'' = None"
proof -
  let ?old = "sample_edeploy ''1'' 2 ''image: nginx''" and ?cur = "sample_edeploy ''2'' 1 ''image: a''"
  let ?d = "[(''/etc/kubernetes/manifests/web-1.yaml'', ''image: nginx''), (''/etc/kubernetes/manifests/web-2.yaml'', ''image: nginx'')]"
  have paths: "pod_path KubeManifestsDir (om_Name (ed_Meta ?cur)) 1 = ''/etc/kubernetes/manifests/web-1.yaml''"
      "pod_path KubeManifestsDir (om_Name (ed_Meta ?cur)) 2 = ''/etc/kubernetes/manifests/web-2.yaml''" by code_simp+
  have manifest: "pod_manifest sample_apps ?cur i = ''image: a''" for i
    by (simp add: PodToYaml_def pod_manifest_def sample_apps_def named_template_def sample_edeploy_def)
  have "disk_works sample_apps" by (simp add: disk_works_def sample_apps_def)
  moreover have "om_ResourceVersion (ed_Meta ?old) \<noteq> om_ResourceVersion (ed_Meta ?cur)" "selected_here sample_apps ?cur"
      "om_Name (ed_Meta ?old) = om_Name (ed_Meta ?cur)" "ed_Replicas ?old = Some 2" "ed_Replicas ?cur = Some 1" "(0 :: int) \<le> 1"
    by (simp_all add: sample_edeploy_def selected_here_def SchedulableNode_def sample_apps_def)
  ultimately obtain cur' d' where run: "updateEDeploy sample_apps ?old ?cur ?d = Ret (cur', d')"
      and all: "\<And>i. let path = pod_path KubeManifestsDir (om_Name (ed_Meta ?cur)) i in
        (1 \<le> i \<and> i \<le> 1 \<longrightarrow> (\<exists>data. mget d' path = Some data \<and> take (length (pod_manifest sample_apps ?cur i)) data = pod_manifest sample_apps ?cur i \<and>
          (data = pod_manifest sample_apps ?cur i \<longleftrightarrow> length (content_of ?d path) \<le> length (pod_manifest sample_apps ?cur i)))) \<and>
        (1 < i \<and> i \<le> 2 \<longrightarrow> mget d' path = None)"
    using update_manifests [where env = sample_apps and old = ?old and cur = ?cur and m = 2 and n = 1 and d = ?d] by blast
  show ?thesis using run all [of 1] all [of 2] by (auto simp: Let_def paths manifest content_of_def)
qed

text \<open>Manifests that nobody removes: those of a deployment that is found in deletion, and those on a node that the deployment no longer selects.\<close>

lemma deleted_manifests_stay: "om_DeletionTimestamp (ed_Meta edeploy) \<noteq> None \<Longrightarrow> deleteEDeploy env (Deleted edeploy) d = Ret (edeploy, d)"
  by (simp add: deleteEDeploy_def apps_deleteNodeUnit_def)

lemma unselected_manifests_stay: "\<not> selected_here env cur \<Longrightarrow> updateEDeploy env old cur d = Ret (cur, d)"
  by (simp add: updateEDeploy_def)

end
