(* ===== verification/Spec2Isabelle.thy ===== *)
theory Spec2Isabelle
  imports IPAllocator Communicate Admission GridServer GridFed LiteProxy LiteTransport LiteMux SiteGroup TunnelStream TunnelProxy GridDaemon NodeJob AppsManager
begin

text \<open>
  \<^bold>\<open>SuperEdge\<close>, a system that runs Kubernetes on edge nodes with unreliable networks: a verification
  of its core components. Sources are named relative to \<open>src/pkg\<close>.

  \<^bold>\<open>The program and the theories.\<close>

  \<^item> \<^emph>\<open>edge-health\<close>: an agent on every node checks its neighbours, exchanges the results and votes. The agents of a
    unit keep two tables (\<open>CheckInfo\<close>: the plugin scores of the addresses they check; \<open>Result\<close>: the verdicts of all
    checkers). \<open>HealthData\<close> models the tables and informer lists (\<open>data/\<close>), \<open>HealthPlugins\<close> the kubelet and ping plugins with
    their goroutines (\<open>checkplugin/\<close>), \<open>HealthCheck\<close> the choice of nodes and a round of checks (\<open>check/\<close>), \<open>HealthVote\<close> the
    vote (\<open>vote/vote.go\<close>) on the floating point numbers of \<open>Float64\<close>, \<open>Communicate\<close> the signed exchange of results, the
    worker pool and the prober (\<open>communicate/\<close>, \<open>util/\<close>, \<open>daemon/initialize.go\<close>). Shown: the vote follows the
    majority, two nodes cannot decide contrarily without a checker that told them different things, tables are pruned to the selected nodes,
    only authenticated messages change a row, the pool processes each piece once.
  \<^item> \<^emph>\<open>edge-health-admission\<close>: \<open>Admission\<close> models the two webhooks (\<open>admission/nodetaint.go\<close>, \<open>admission/endpoint.go\<close>)
    that undo taints and evictions of nodes that the vote considers healthy, with the effect of the JSON patches.
  \<^item> \<^emph>\<open>application-grid-wrapper\<close>: the proxy that closes services to the nodes of a unit. \<open>GridStorage\<close> models the
    pruning of endpoints and slices by topology (\<open>storage/util.go\<close>), \<open>GridCache\<close> the cache, its informer handlers with lock and
    broadcast as the steps of a transition system (\<open>storage/cache.go\<close> and the handlers), \<open>GridRuns\<close> the invariants over all
    interleavings, \<open>GridServer\<close> the request handlers (\<open>server/\<close>). Shown: whenever no handler runs, the tables follow what the informers
    delivered, pruned for the present nodes and services; lists are answered from them, and watches replay to them when the calls come one after the other.
  \<^item> \<^emph>\<open>application-grid-controller\<close>: grids stand for one workload per value of a node label. \<open>RefManager\<close> models
    the claiming of workloads (\<open>controller/controller_ref_manager.go\<close>), \<open>GridCommon\<close> selectors and the store of maps held by
    reference (\<open>controller/common\<close>), \<open>Consistency\<close> the reflective comparison \<open>DeepContains\<close> against the relation that its comment describes (\<open>util/consistency.go\<close>),
    \<open>GridWorkload\<close> the making of workloads and the template hash (\<open>controller/*/util\<close>), \<open>GridSync\<close> the reconciliation
    (\<open>controller/*/sync.go\<close>), \<open>GridController\<close> the event handlers, the synchronisation of a key and the retries
    (\<open>controller/*/controller.go\<close>, \<open>node.go\<close>, \<open>deployment.go\<close>, \<open>statefulset.go\<close>, \<open>namespace.go\<close>). Deployment and stateful set
    grids share their definitions, as their code is the same. \<open>GridService\<close> models service grids, whose service carries the topology keys that the wrapper reads
    (\<open>controller/service\<close>), with the goroutines of a reconciliation as tasks, \<open>GridFed\<close> the controllers of the grids of a parent cluster (\<open>controller/*/fed_*.go\<close>). Shown: a reconciliation reaches exactly one workload per grid value; a stale
    template hash is stored before any workload is touched; foreign workloads are never touched; no panic under stated conditions;
    the local copy of a grid of the parent cluster follows the nodes; and how a node selector shared by reference breaks the placement of
    workloads, how a write into an informer cache loses an update, and how finalizers and removed ports stay.
  \<^item> \<^emph>\<open>statefulset-grid-daemon\<close>: on every node, names for the pods of the stateful set grids of the unit. \<open>GridHosts\<close> models the hosts file (\<open>hosts/hosts.go\<close>) and
    \<open>GridDaemon\<close> the controller (\<open>controller/\<close>, \<open>util/\<close>). Shown: the records of a grid follow its pods, the file is read back as it was written; a failed write is lost.
  \<^item> \<^emph>\<open>lite-apiserver\<close>: the proxy of the API server on an edge node, which answers from a cache while the cloud cannot be reached. \<open>LiteStorage\<close> models
    the five storages (\<open>storage/\<close>), files with a fault at any step of a write, \<open>LiteCache\<close> the keys, the merging of watch events into cached lists and the queries
    (\<open>cache/\<close>), \<open>LiteProxy\<close> the copying of response bodies into the cache, the decision when to use the cache and its answers (\<open>proxy/proxy.go\<close>, \<open>util.go\<close>), with
    all interleavings of the caching goroutines, \<open>LiteTransport\<close> the certificates, transports and proxies per client name and the channels between
    their managers (\<open>cert/\<close>, \<open>transport/\<close>, \<open>proxy/handler.go\<close>), \<open>LiteMux\<close> the informers that answer lists and watches of several clients (\<open>server/\<close>). Shown: what is answered offline was sent by the API server before for the same object
    and user agent (a beginning of it, where a connection broke), is the latest response, and for lists follows the events of the watch; certificates reach the proxies and, without network interfaces to check, a rotation leaves no old connection; a multiplexed
    watch gives its client the store of the informer, unless the list and the registration of the watch are interleaved with a handler.
  \<^item> \<^emph>\<open>site-manager\<close>: node units and node groups. A unit selects nodes, by name or by labels, and sets labels, annotations and taints on them; a group owns
    units. \<open>SiteNodes\<close> models the helpers (\<open>utils/node.go\<close>) and the effect of the calls on nodes and units, \<open>SiteKins\<close> the control plane of a unit of level L4 or L5
    (\<open>controller/unitcluster/kins.go\<close>), \<open>SiteUnit\<close> the controller of units and its deleter (\<open>controller/node_unit.go\<close>, \<open>deleter/\<close>), \<open>SiteGroup\<close> the controller
    of groups (\<open>controller/node_group.go\<close>). Shown: a reconciliation makes exactly the selected nodes and units carry the label of their owner, under
    conditions that the code needs (a new unit first gets its default label; a unit that selects by labels only never lets a node go); enough different servers are chosen; and where the code
    loses errors, drops taints of users or panics.
  \<^item> \<^emph>\<open>tunnel\<close>: the connection of edge nodes to the cloud over one gRPC stream per node, through which TCP connections are multiplexed. \<open>TunnelContext\<close> models nodes,
    connections, their channels and the handlers of messages (\<open>tunnelcontext/\<close>, \<open>proxy/handlers/common_handler.go\<close>, \<open>proxy/common/connect.go\<close>), where waiting on a full channel and a
    panic are results of type \<open>'a run\<close>, \<open>TunnelSteps\<close> runs of these operations, \<open>TunnelStream\<close> the streams, the heartbeat and the tokens (\<open>streammng/\<close>, \<open>token/\<close>),
    \<open>TunnelRoute\<close> the hosts file and the route cache (\<open>connect/register.go\<close>, \<open>connect/route.go\<close>), \<open>TunnelNet\<close> addresses and lists of forbidden hosts (\<open>util/proxy.go\<close>),
    \<open>TunnelProxy\<close> the routing of requests and the proxies of cloud and edge (\<open>proxy/\<close>). Shown: the maps of nodes and connections stay well-formed under every interleaving, bytes are delivered as they were
    sent, the hosts file settles and services follow their nodes, which tokens and passwords are accepted; and how shared trace ids, reconnections, requests of a node to itself and
    unknown nodes break the tunnel.
  \<^item> \<^emph>\<open>penetrator\<close>: the addition of machines as nodes. \<open>NodeTask\<close> models the webhook that checks a task and names its nodes and the controller that makes a configuration and a job for
    the missing ones (\<open>operator/\<close>), \<open>NodeJob\<close> the job, which installs them over ssh with several goroutines (\<open>job/\<close>, \<open>util/ssh_util.go\<close>). Shown: the configuration that the job reads lists exactly the missing
    nodes, one per address, and the job comes to an end; but it fails exactly if it has tried to install a node, and its goroutines may all install the same machine.
  \<^item> \<^emph>\<open>apps-manager\<close>: on every node, static pods for the deployments that select it. \<open>AppsManager\<close> models the event handlers and the files (\<open>controller/edeploy.go\<close>, \<open>utils/edploy.go\<close>).
    Shown: an update leaves the files of exactly the wanted replicas, but a shorter manifest keeps the end of the longer one it replaces.
  \<^item> \<^emph>\<open>util\<close>: \<open>Bitmap\<close> (\<open>allocator/\<close>) and \<open>IPAllocator\<close> (\<open>ipallocator/\<close>), the allocation of addresses, with the invariant that
    the count is the number of allocated offsets, exactness of each operation and snapshots.

  \<open>Prelude\<close> holds Go panics and maps, \<open>GoStrings\<close> the string functions, \<open>KubeMeta\<close> the API types that several parts share, \<open>WorkQueue\<close> deletion
  events and the retries of the controllers' queues.

  \<^bold>\<open>Conventions.\<close> A struct is a record, a call that may panic has a result of type \<open>'a go\<close>, an error is a value. A Go map is an association list:
  theorems quantify over the list and so cover every iteration order. Concurrency is explicit: goroutines write in an order that is an
  argument or a permutation, handlers interleave as steps of an inductive relation. Machine integers are words or integers with the
  wrap-around written out; \<open>float64\<close> is exact rational arithmetic with rounding. Loops that end are total functions; no fuel is used.
  The Kubernetes API server, informer caches, label selectors, JSON codecs, HMAC, network and clock are arguments; theorems that need
  something of them state it as a hypothesis, and a witness instantiates it.

  \<^bold>\<open>Interfaces.\<close> The locales \<open>bit_allocator\<close> and \<open>allocator_interface\<close> (strategies and bitmaps, used by the IP ranges), \<open>named_store\<close> (the
  informer lists), \<open>http_probe\<close> (the two kubelet plugins), \<open>pruned_table\<close> (a cached table of
  pruned objects, for endpoints and both versions of slices) \<open>claimer\<close> (adoption and release, for deployments, stateful sets and services),
  \<open>storage\<close> and its extension \<open>keyed_storage\<close> (what the cache relies on, for memory and files), \<open>cluster_objects\<close> (objects under API calls, for
  nodes and node units), \<open>run_system\<close> (what every step keeps holds in every run, for the tunnel) state what
  one part relies on; each is interpreted on the definitions of the model.

  \<^bold>\<open>Not modelled.\<close> Generated clients, informers, listers and deep copies of API types (the copy of a grid is modelled, since its sharing
  matters); command line options and the wiring of informers (\<open>cmd/\<close>, \<open>config/\<close>, \<open>options/\<close>); installation of manifests and CRDs,
  with the creation of objects from templates (\<open>util/kubeclient\<close>) that it consists of; \<open>helper-job\<close>, which runs shell commands on nodes.
\<close>

section \<open>Health: from the node list to the vote\<close>

text \<open>
  C33: GetNodeList establishes what the vote needs. After it, the checkers whose results can count are
  among the addresses that are checked, so at any later time and for any timeout the two verdicts
  about an address cannot both have a majority: no vote can go both ways.
\<close>

theorem GetNodeList_makes_votes_exclusive:
  assumes "select_nodes L env = Inr selected"
    and "checkinfo_wf (CheckInfoResult s)" "result_wf (Result s)"
  shows "let s' = GetNodeList L env pods s in
    \<not> (length (CheckInfoResult s') < 2 * card (voters now vote nodeIP (Result s') ip True) \<and>
       length (CheckInfoResult s') < 2 * card (voters now vote nodeIP (Result s') ip False))"
proof -
  define s' where "s' = GetNodeList L env pods s"
  have wf: "result_wf (Result s')" "mwf (CheckInfoResult s')" and keys: "set (mkeys (Result s')) \<subseteq> set (mkeys (CheckInfoResult s'))"
    using GetNodeList_keys [OF assms] by (simp_all add: s'_def)
  let ?Y = "voters now vote nodeIP (Result s') ip True" and ?N = "voters now vote nodeIP (Result s') ip False"
  have "?Y \<inter> ?N = {}" by (auto simp: voters_def)
  then have "card ?Y + card ?N = card (?Y \<union> ?N)"
    by (simp add: card_Un_disjoint finite_voters [OF wf(1)])
  also have "\<dots> \<le> card (set (mkeys (CheckInfoResult s')))"
    by (rule card_mono [OF finite_set]) (use voters_subset keys in blast)
  also have "\<dots> = length (CheckInfoResult s')"
    using wf(2) distinct_card [of "mkeys (CheckInfoResult s')"] by (simp add: mwf_def)
  finally show ?thesis by (simp add: Let_def flip: s'_def)
qed

theorem GetNodeList_makes_votes_exclusive_witness:
  "let s' = GetNodeList sample_listers sample_env sample_pods sample_state in
     \<not> (length (CheckInfoResult s') < 2 * card (voters 5 (NewVoteEdge 10 10) ''10.0.0.1'' (Result s') ''10.0.0.8'' True) \<and>
        length (CheckInfoResult s') < 2 * card (voters 5 (NewVoteEdge 10 10) ''10.0.0.1'' (Result s') ''10.0.0.8'' False))"
  by (rule GetNodeList_makes_votes_exclusive [OF sample_select sample_state_wf])

end
